(* ===== verification/Prelude.thy ===== *)
theory Prelude
  imports Complex_Main "HOL-Library.Multiset" "HOL-Library.Char_ord" "HOL-Library.List_Lexorder"
    "HOL-Library.Product_Lexorder" "HOL-Library.Word"
begin

text \<open>
  What the components share: the reading of \<open>double\<close>, the named collections of facts,
  the C++ standard library's sorting with the contract its comparators must keep, the
  ``keep the best candidate'' loop that occurs in almost every geometric search, string
  helpers (\<open>std::to_string\<close>, the C locale's character classes) and \<open>std::map\<close> as a
  sorted association list.

  A \<open>double\<close> is modelled by the real number it denotes. Arithmetic is exact: rounding is
  not modelled, so no lemma here speaks about it. A real whose magnitude exceeds the largest
  finite double stands for a value that is not finite, which gives \<open>std::isfinite\<close> a
  computable meaning and keeps the branches that reject such values reachable.
\<close>

named_theorems geometry "bounding box arithmetic, unfolded"
named_theorems perm_facts "an operation rearranges its input and loses nothing"
named_theorems size_facts "an operation keeps the number of elements"

subsection \<open>Doubles\<close>

type_synonym double = real

definition dbl_max :: double where
  "dbl_max = (2 - 1 / 2 ^ 52) * 2 ^ 1023"

definition isfinite :: "double \<Rightarrow> bool" where
  "isfinite x \<longleftrightarrow> \<bar>x\<bar> \<le> dbl_max"

lemma dbl_max_pos: "0 < dbl_max"
  by (simp add: dbl_max_def)

lemma dbl_max_big: "1000000 \<le> dbl_max"
  by (simp add: dbl_max_def)

lemma isfinite_small: "\<bar>x\<bar> \<le> 1000000 \<Longrightarrow> isfinite x"
  using dbl_max_big by (simp add: isfinite_def)

text \<open>\<open>std::clamp\<close>.\<close>

definition clamp :: "'a::linorder \<Rightarrow> 'a \<Rightarrow> 'a \<Rightarrow> 'a" where
  "clamp v lo hi = (if v < lo then lo else if hi < v then hi else v)"

lemma clamp_bounds: "lo \<le> hi \<Longrightarrow> lo \<le> clamp v lo hi" "lo \<le> hi \<Longrightarrow> clamp v lo hi \<le> hi"
  by (auto simp: clamp_def)

lemma clamp_id: "lo \<le> v \<Longrightarrow> v \<le> hi \<Longrightarrow> clamp v lo hi = v"
  by (auto simp: clamp_def)

subsection \<open>Sorting with a caller's comparator\<close>

text \<open>
  \<open>std::sort\<close> and \<open>std::stable_sort\<close> take a comparator that has to be a strict weak
  order; otherwise the call is undefined. The model of both is one stable insertion sort.
  (\<open>std::sort\<close> leaves the order of equivalent elements open; the model fixes it as
  the input order, the choice \<open>std::stable_sort\<close> must make.) That a comparator is a
  strict weak order is what the locale below asks for, and every comparator of the code
  interprets it.
\<close>

fun insort_by :: "('a \<Rightarrow> 'a \<Rightarrow> bool) \<Rightarrow> 'a \<Rightarrow> 'a list \<Rightarrow> 'a list" where
  "insort_by lt x [] = [x]"
| "insort_by lt x (y # ys) = (if lt y x then y # insort_by lt x ys else x # y # ys)"

fun sort_by :: "('a \<Rightarrow> 'a \<Rightarrow> bool) \<Rightarrow> 'a list \<Rightarrow> 'a list" where
  "sort_by lt [] = []"
| "sort_by lt (x # xs) = insort_by lt x (sort_by lt xs)"

lemma mset_insort_by [simp]: "mset (insort_by lt x xs) = add_mset x (mset xs)"
  by (induction xs) auto

lemma mset_sort_by [simp, perm_facts]: "mset (sort_by lt xs) = mset xs"
  by (induction xs) auto

lemma set_sort_by [simp]: "set (sort_by lt xs) = set xs"
  by (metis mset_sort_by set_mset_mset)

lemma length_sort_by [simp, size_facts]: "length (sort_by lt xs) = length xs"
  by (metis mset_sort_by size_mset)

lemma set_insort_by [simp]: "set (insort_by lt x xs) = insert x (set xs)"
  by (induction xs) auto

lemma distinct_sort_by [simp]: "distinct (sort_by lt xs) = distinct xs"
  by (metis mset_sort_by mset_eq_imp_distinct_iff)

lemma sort_by_eq_Nil [simp]: "sort_by lt xs = [] \<longleftrightarrow> xs = []"
  by (metis length_0_conv length_sort_by)

locale strict_weak_order =
  fixes lt :: "'a \<Rightarrow> 'a \<Rightarrow> bool"
  assumes lt_irrefl: "\<not> lt x x"
    and lt_trans: "lt x y \<Longrightarrow> lt y z \<Longrightarrow> lt x z"
    and ge_trans: "\<not> lt x y \<Longrightarrow> \<not> lt y z \<Longrightarrow> \<not> lt x z"
begin

definition le :: "'a \<Rightarrow> 'a \<Rightarrow> bool" where
  "le x y \<longleftrightarrow> \<not> lt y x"

lemma le_trans: "le x y \<Longrightarrow> le y z \<Longrightarrow> le x z"
  unfolding le_def by (rule ge_trans)

lemma lt_le: "lt x y \<Longrightarrow> le x y"
  using lt_irrefl lt_trans unfolding le_def by blast

lemma insort_by_sorted: "sorted_wrt le xs \<Longrightarrow> sorted_wrt le (insort_by lt x xs)"
proof (induction xs)
  case Nil
  then show ?case by simp
next
  case (Cons y ys)
  show ?case
  proof (cases "lt y x")
    case True
    then show ?thesis using Cons by (auto dest: lt_le)
  next
    case False
    then have "le x y" by (simp add: le_def)
    then show ?thesis using Cons.prems False by (auto intro: le_trans)
  qed
qed

lemma sort_by_sorted: "sorted_wrt le (sort_by lt xs)"
  by (induction xs) (auto intro: insort_by_sorted)

lemma sort_by_id: "sorted_wrt le xs \<Longrightarrow> sort_by lt xs = xs"
proof (induction xs)
  case (Cons x xs)
  then have *: "sort_by lt xs = xs" by simp
  show ?case
  proof (cases xs)
    case (Cons y ys)
    with \<open>sorted_wrt le (x # xs)\<close> have "\<not> lt y x" by (simp add: le_def)
    with * Cons show ?thesis by simp
  qed simp
qed simp

lemma sort_by_idem: "sort_by lt (sort_by lt xs) = sort_by lt xs"
  by (rule sort_by_id[OF sort_by_sorted])

lemma hd_sort_by_least: "x \<in> set xs \<Longrightarrow> \<not> lt x (hd (sort_by lt xs))"
proof (cases "sort_by lt xs")
  case Nil
  then show "x \<in> set xs \<Longrightarrow> \<not> lt x (hd (sort_by lt xs))" by simp
next
  case (Cons y ys)
  assume "x \<in> set xs"
  then have "x \<in> set (sort_by lt xs)" by simp
  moreover have "sorted_wrt le (y # ys)" using sort_by_sorted[of xs] Cons by simp
  ultimately show ?thesis using Cons lt_irrefl by (auto simp: le_def)
qed

end

text \<open>Most comparators compare a key in a linear order, often lexicographically.\<close>

locale keyed_order =
  fixes lt :: "'a \<Rightarrow> 'a \<Rightarrow> bool" and key :: "'a \<Rightarrow> 'k::linorder"
  assumes lt_key: "lt x y \<longleftrightarrow> key x < key y"

sublocale keyed_order \<subseteq> strict_weak_order lt
  by unfold_locales (auto simp: lt_key)

context keyed_order
begin

lemma sort_by_key_sorted: "sorted (map key (sort_by lt xs))"
proof -
  have "sorted_wrt (\<lambda>x y. key x \<le> key y) (sort_by lt xs)"
    using sort_by_sorted[of xs] by (rule sorted_wrt_mono_rel[rotated]) (simp add: le_def lt_key)
  then show ?thesis by (simp add: sorted_wrt_map)
qed

lemma insort_by_stable: "filter (\<lambda>y. key y = k) (insort_by lt x xs) = filter (\<lambda>y. key y = k) (x # xs)"
  by (induction xs) (auto simp: lt_key)

text \<open>The sort is stable: what has the same key keeps its order.\<close>

lemma sort_by_stable: "filter (\<lambda>y. key y = k) (sort_by lt xs) = filter (\<lambda>y. key y = k) xs"
  by (induction xs) (simp_all add: insort_by_stable)

lemma lt_asym_key: "inj key \<Longrightarrow> \<not> lt x y \<Longrightarrow> \<not> lt y x \<Longrightarrow> x = y"
  by (auto simp: lt_key dest: injD)

end

text \<open>
  Sorting by rows: after a first sort, the elements that are \<open>near\<close> the first one of what is
  left form a row, and each row is sorted again by the other coordinate.
\<close>

function sort_runs :: "('a \<Rightarrow> 'a \<Rightarrow> bool) \<Rightarrow> ('a \<Rightarrow> 'a \<Rightarrow> bool) \<Rightarrow> 'a list \<Rightarrow> 'a list" where
  "sort_runs near lt [] = []"
| "sort_runs near lt (x # xs) =
     sort_by lt (x # takeWhile (near x) xs) @ sort_runs near lt (dropWhile (near x) xs)"
  by pat_completeness auto

termination
  by (relation "measure (\<lambda>(_, _, xs). length xs)") (auto simp: length_dropWhile_le le_imp_less_Suc)

lemma mset_sort_runs [simp, perm_facts]: "mset (sort_runs near lt xs) = mset xs"
proof (induction near lt xs rule: sort_runs.induct)
  case (2 near lt x xs)
  have "mset xs = mset (takeWhile (near x) xs) + mset (dropWhile (near x) xs)"
    by (metis mset_append takeWhile_dropWhile_id)
  with 2 show ?case by simp
qed simp

subsection \<open>The keep-the-best loop\<close>

text \<open>
  \<open>int best = -1; double best_value = max; for (i ...) if (eligible && value < best_value)
  { best = i; best_value = value; }\<close>: the candidate's value is \<open>None\<close> where the loop
  body skips it.
\<close>

fun keep_best :: "('a \<Rightarrow> double option) \<Rightarrow> 'a list \<Rightarrow> 'a option \<times> double \<Rightarrow> 'a option \<times> double" where
  "keep_best f [] acc = acc"
| "keep_best f (x # xs) acc =
     keep_best f xs (case f x of None \<Rightarrow> acc
                     | Some d \<Rightarrow> if d < snd acc then (Some x, d) else acc)"

definition best_of :: "('a \<Rightarrow> double option) \<Rightarrow> 'a list \<Rightarrow> 'a option" where
  "best_of f xs = fst (keep_best f xs (None, dbl_max))"

lemma keep_best_le: "snd (keep_best f xs acc) \<le> snd acc"
proof (induction xs arbitrary: acc)
  case (Cons x xs)
  let ?acc = "case f x of None \<Rightarrow> acc | Some d \<Rightarrow> if d < snd acc then (Some x, d) else acc"
  have "snd (keep_best f xs ?acc) \<le> snd ?acc" by (rule Cons)
  also have "\<dots> \<le> snd acc" by (simp split: option.split)
  finally show ?case by simp
qed simp

lemma keep_best_minimal:
  "x \<in> set xs \<Longrightarrow> f x = Some d \<Longrightarrow> snd (keep_best f xs acc) \<le> d"
proof (induction xs arbitrary: acc)
  case (Cons y ys)
  show ?case
  proof (cases "x = y")
    case True
    have "snd (keep_best f (y # ys) acc) =
        snd (keep_best f ys (if d < snd acc then (Some y, d) else acc))"
      using True Cons.prems by simp
    also have "\<dots> \<le> snd (if d < snd acc then (Some y, d) else acc)"
      by (rule keep_best_le)
    also have "\<dots> \<le> d" by simp
    finally show ?thesis .
  next
    case False
    then show ?thesis using Cons by simp
  qed
qed simp

lemma keep_best_result:
  "keep_best f xs (b, d) = (Some x, e) \<Longrightarrow> (Some x, e) = (b, d) \<or> (x \<in> set xs \<and> f x = Some e)"
  by (induction xs arbitrary: b d) (fastforce split: option.splits if_splits)+

lemma best_of_mem: "best_of f xs = Some x \<Longrightarrow> x \<in> set xs \<and> (\<exists>d. f x = Some d)"
proof -
  assume "best_of f xs = Some x"
  then obtain e where "keep_best f xs (None, dbl_max) = (Some x, e)"
    by (metis best_of_def prod.collapse)
  then show ?thesis by (auto dest: keep_best_result)
qed

lemma best_of_least:
  assumes "best_of f xs = Some x" "y \<in> set xs" "f y = Some d"
  shows "\<exists>e. f x = Some e \<and> e \<le> d"
proof -
  obtain e where *: "keep_best f xs (None, dbl_max) = (Some x, e)"
    using assms(1) by (metis best_of_def prod.collapse)
  then have "f x = Some e" by (auto dest: keep_best_result)
  moreover have "e \<le> d" using keep_best_minimal[of y xs f d "(None, dbl_max)"] assms(2,3) * by simp
  ultimately show ?thesis by blast
qed

lemma keep_best_None:
  "fst (keep_best f xs acc) = None \<Longrightarrow>
   fst acc = None \<and> (\<forall>x\<in>set xs. \<forall>d. f x = Some d \<longrightarrow> snd acc \<le> d)"
proof (induction xs arbitrary: acc)
  case (Cons x xs)
  let ?acc = "case f x of None \<Rightarrow> acc | Some d \<Rightarrow> if d < snd acc then (Some x, d) else acc"
  have IH: "fst ?acc = None" "\<forall>y\<in>set xs. \<forall>d. f y = Some d \<longrightarrow> snd ?acc \<le> d"
    using Cons.IH[of ?acc] Cons.prems by simp_all
  from IH(1) have "?acc = acc" "\<And>d. f x = Some d \<Longrightarrow> snd acc \<le> d"
    by (auto split: option.splits if_splits)
  with IH show ?case by auto
qed simp

lemma best_of_None: "best_of f xs = None \<Longrightarrow> x \<in> set xs \<Longrightarrow> f x = Some d \<Longrightarrow> dbl_max \<le> d"
  using keep_best_None[of f xs "(None, dbl_max)"] by (auto simp: best_of_def)

subsection \<open>The pick-the-least loop\<close>

text \<open>\<open>int next = -1; for (i ...) if (next < 0 || less(i, next)) next = i;\<close>\<close>

fun pick_from :: "('a \<Rightarrow> 'a \<Rightarrow> bool) \<Rightarrow> 'a list \<Rightarrow> 'a option \<Rightarrow> 'a option" where
  "pick_from lt [] best = best"
| "pick_from lt (x # xs) best =
     pick_from lt xs (case best of None \<Rightarrow> Some x | Some b \<Rightarrow> if lt x b then Some x else Some b)"

definition pick_least :: "('a \<Rightarrow> 'a \<Rightarrow> bool) \<Rightarrow> 'a list \<Rightarrow> 'a option" where
  "pick_least lt xs = pick_from lt xs None"

lemma pick_from_Some: "\<exists>c. pick_from lt xs (Some b) = Some c \<and> (c = b \<or> c \<in> set xs)"
proof (induction xs arbitrary: b)
  case (Cons x xs)
  from Cons.IH[of "if lt x b then x else b"] show ?case by (auto split: if_splits)
qed simp

lemma pick_least_None [simp]: "pick_least lt xs = None \<longleftrightarrow> xs = []"
proof (cases xs)
  case (Cons x ys)
  then show ?thesis using pick_from_Some[of lt ys x] by (auto simp: pick_least_def)
qed (simp add: pick_least_def)

lemma pick_least_Nil [simp]: "pick_least lt [] = None"
  by simp

lemma pick_least_mem: "pick_least lt xs = Some x \<Longrightarrow> x \<in> set xs"
proof (cases xs)
  case (Cons y ys)
  then show "pick_least lt xs = Some x \<Longrightarrow> x \<in> set xs"
    using pick_from_Some[of lt ys y] by (auto simp: pick_least_def)
qed (simp add: pick_least_def)

context strict_weak_order
begin

lemma pick_from_least:
  "pick_from lt xs (Some b) = Some c \<Longrightarrow> le c b \<and> (\<forall>x\<in>set xs. le c x)"
proof (induction xs arbitrary: b)
  case Nil
  then show ?case by (simp add: le_def lt_irrefl)
next
  case (Cons x xs)
  show ?case
  proof (cases "lt x b")
    case True
    with Cons.prems have "le c x \<and> (\<forall>x\<in>set xs. le c x)" by (intro Cons.IH) simp
    with True lt_le le_trans show ?thesis by fastforce
  next
    case False
    with Cons.prems have "le c b \<and> (\<forall>x\<in>set xs. le c x)" by (intro Cons.IH) simp
    moreover have "le b x" using False by (simp add: le_def)
    ultimately show ?thesis using le_trans by fastforce
  qed
qed

lemma pick_least_le: "pick_least lt xs = Some c \<Longrightarrow> x \<in> set xs \<Longrightarrow> \<not> lt x c"
proof (cases xs)
  case (Cons y ys)
  assume "pick_least lt xs = Some c" "x \<in> set xs"
  with Cons pick_from_least[of ys y c] show ?thesis by (auto simp: pick_least_def le_def)
qed (simp add: pick_least_def)

end

subsection \<open>Lists as arrays\<close>

definition upd_at :: "'a list \<Rightarrow> nat \<Rightarrow> ('a \<Rightarrow> 'a) \<Rightarrow> 'a list" where
  "upd_at xs i f = (if i < length xs then xs[i := f (xs ! i)] else xs)"

lemma length_upd_at [simp, size_facts]: "length (upd_at xs i f) = length xs"
  by (simp add: upd_at_def)

lemma nth_upd_at: "i < length xs \<Longrightarrow> upd_at xs i f ! j = (if i = j then f (xs ! i) else xs ! j)"
  by (simp add: upd_at_def nth_list_update)

lemma in_set_upd_at: "y \<in> set (upd_at xs i f) \<Longrightarrow> y \<in> set xs \<or> (i < length xs \<and> y = f (xs ! i))"
  using set_update_subset_insert[of xs i "f (xs ! i)"] by (auto simp: upd_at_def split: if_splits)

lemma foldl_invariant:
  "P a \<Longrightarrow> (\<And>a x. x \<in> set xs \<Longrightarrow> P a \<Longrightarrow> P (f a x)) \<Longrightarrow> P (foldl f a xs)"
  by (induction xs arbitrary: a) auto

text \<open>An \<open>int\<close> index that a guard of the code checks against a vector's size.\<close>

definition in_range :: "int \<Rightarrow> 'a list \<Rightarrow> bool" where
  "in_range i xs \<longleftrightarrow> 0 \<le> i \<and> nat i < length xs"

lemma mset_concat_map: "mset (concat (map f xs)) = (\<Sum>x\<leftarrow>xs. mset (f x))"
  by (induction xs) auto

lemma sum_list_mset_upd_at:
  "i < length xs \<Longrightarrow> mset (g (f (xs ! i))) = mset (g (xs ! i)) + m \<Longrightarrow>
   (\<Sum>x\<leftarrow>upd_at xs i f. mset (g x)) = (\<Sum>x\<leftarrow>xs. mset (g x)) + m"
proof (induction xs arbitrary: i)
  case (Cons y ys)
  then show ?case
    by (cases i) (auto simp: upd_at_def ac_simps)
qed simp

subsection \<open>Strings\<close>

text \<open>The C locale's classification of a byte, on \<open>char\<close> read as an \<open>unsigned char\<close>.\<close>

definition isspace :: "char \<Rightarrow> bool" where
  "isspace c \<longleftrightarrow> c = CHR '' '' \<or> (9 \<le> (of_char c :: nat) \<and> (of_char c :: nat) \<le> 13)"

definition isdigit :: "char \<Rightarrow> bool" where
  "isdigit c \<longleftrightarrow> 48 \<le> (of_char c :: nat) \<and> (of_char c :: nat) \<le> 57"

definition isupper :: "char \<Rightarrow> bool" where
  "isupper c \<longleftrightarrow> 65 \<le> (of_char c :: nat) \<and> (of_char c :: nat) \<le> 90"

definition islower :: "char \<Rightarrow> bool" where
  "islower c \<longleftrightarrow> 97 \<le> (of_char c :: nat) \<and> (of_char c :: nat) \<le> 122"

definition isalpha :: "char \<Rightarrow> bool" where
  "isalpha c \<longleftrightarrow> isupper c \<or> islower c"

definition tolower :: "char \<Rightarrow> char" where
  "tolower c = (if isupper c then char_of ((of_char c :: nat) + 32) else c)"

lemma tolower_not_upper: "\<not> isupper (tolower c)"
proof (cases "isupper c")
  case True
  then have "of_char (tolower c) = (of_char c :: nat) + 32"
    by (auto simp: tolower_def isupper_def)
  with True show ?thesis by (auto simp: isupper_def)
next
  case False
  then show ?thesis by (simp add: tolower_def)
qed

lemma tolower_idem [simp]: "tolower (tolower c) = tolower c"
  using tolower_not_upper[of c] by (simp add: tolower_def[of "tolower c"])

text \<open>The \<open>trim\<close> of several components: strip what \<open>std::isspace\<close> accepts from both ends.\<close>

definition trim :: "string \<Rightarrow> string" where
  "trim s = rev (dropWhile isspace (rev (dropWhile isspace s)))"

definition digit_char :: "nat \<Rightarrow> char" where
  "digit_char d = char_of (48 + d)"

lemma digit_char_inj: "d < 10 \<Longrightarrow> e < 10 \<Longrightarrow> digit_char d = digit_char e \<Longrightarrow> d = e"
proof -
  assume "d < 10" "e < 10" "digit_char d = digit_char e"
  then have "(of_char (digit_char d) :: nat) = of_char (digit_char e)" by simp
  with \<open>d < 10\<close> \<open>e < 10\<close> show "d = e" by (simp add: digit_char_def)
qed

lemma digit_char_isdigit: "d < 10 \<Longrightarrow> isdigit (digit_char d)"
  by (simp add: digit_char_def isdigit_def)

text \<open>\<open>std::to_string\<close>, and \<open>std::ostream\<close> on an integer.\<close>

fun nat_to_string :: "nat \<Rightarrow> string" where
  "nat_to_string n =
     (if n < 10 then [digit_char n] else nat_to_string (n div 10) @ [digit_char (n mod 10)])"

declare nat_to_string.simps [simp del]

definition int_to_string :: "int \<Rightarrow> string" where
  "int_to_string i = (if i < 0 then CHR ''-'' # nat_to_string (nat (- i)) else nat_to_string (nat i))"

lemma nat_to_string_nonempty [simp]: "nat_to_string n \<noteq> []"
  by (subst nat_to_string.simps) simp

lemma nat_to_string_nonempty' [simp]: "[] \<noteq> nat_to_string n"
  using nat_to_string_nonempty[of n] by metis

lemma nat_to_string_digits: "c \<in> set (nat_to_string n) \<Longrightarrow> isdigit c"
proof (induction n rule: nat_to_string.induct)
  case (1 n)
  then show ?case
    by (subst (asm) nat_to_string.simps) (auto split: if_splits simp: digit_char_isdigit)
qed

lemma nat_to_string_inj: "nat_to_string m = nat_to_string n \<Longrightarrow> m = n"
proof (induction m arbitrary: n rule: nat_to_string.induct)
  case (1 m)
  show ?case
  proof (cases "m < 10")
    case True
    then have m: "nat_to_string m = [digit_char m]" by (subst nat_to_string.simps) simp
    show ?thesis
    proof (cases "n < 10")
      case True
      then have "nat_to_string n = [digit_char n]" by (subst nat_to_string.simps) simp
      with m "1.prems" \<open>m < 10\<close> True show ?thesis by (auto dest: digit_char_inj)
    next
      case False
      then have "nat_to_string n = nat_to_string (n div 10) @ [digit_char (n mod 10)]"
        by (subst nat_to_string.simps) simp
      with m "1.prems" show ?thesis by simp
    qed
  next
    case False
    then have m: "nat_to_string m = nat_to_string (m div 10) @ [digit_char (m mod 10)]"
      by (subst nat_to_string.simps) simp
    show ?thesis
    proof (cases "n < 10")
      case True
      then have "nat_to_string n = [digit_char n]" by (subst nat_to_string.simps) simp
      with m "1.prems" show ?thesis by simp
    next
      case nF: False
      then have "nat_to_string n = nat_to_string (n div 10) @ [digit_char (n mod 10)]"
        by (subst nat_to_string.simps) simp
      with m "1.prems" have "nat_to_string (m div 10) = nat_to_string (n div 10)"
        and "digit_char (m mod 10) = digit_char (n mod 10)" by auto
      with "1.IH"[OF False] have "m div 10 = n div 10" "m mod 10 = n mod 10"
        by (auto intro: digit_char_inj)
      then show ?thesis by (metis div_mult_mod_eq)
    qed
  qed
qed

lemma int_to_string_inj: "int_to_string i = int_to_string j \<Longrightarrow> i = j"
proof -
  have minus: "\<not> isdigit (CHR ''-'')" by (simp add: isdigit_def)
  assume eq: "int_to_string i = int_to_string j"
  show "i = j"
  proof (cases "i < 0"; cases "j < 0")
    assume "i < 0" "\<not> j < 0"
    then have "CHR ''-'' \<in> set (nat_to_string (nat j))"
      using eq by (metis int_to_string_def list.set_intros(1))
    then show ?thesis using nat_to_string_digits minus by blast
  next
    assume "\<not> i < 0" "j < 0"
    then have "CHR ''-'' \<in> set (nat_to_string (nat i))"
      using eq by (metis int_to_string_def list.set_intros(1))
    then show ?thesis using nat_to_string_digits minus by blast
  qed (use eq in \<open>auto simp: int_to_string_def dest!: nat_to_string_inj\<close>)
qed

text \<open>
  \<open>find_first_not_of(set)\<close> gives the rest of the string from the first character
  outside \<open>set\<close> (empty for \<open>npos\<close>), and \<open>find(pattern) != npos\<close> is containment.
\<close>

definition skip_chars :: "string \<Rightarrow> string \<Rightarrow> string" where
  "skip_chars cs s = dropWhile (\<lambda>c. c \<in> set cs) s"

text \<open>The separators the code writes as \<open>" \t\r\n"\<close>.\<close>

definition marker_blanks :: string where
  "marker_blanks = '' '' @ [CHR 0x09, CHR 0x0D, CHR 0x0A]"

fun starts_with :: "string \<Rightarrow> string \<Rightarrow> bool" where
  "starts_with [] s = True"
| "starts_with (p # ps) [] = False"
| "starts_with (p # ps) (c # s) = (p = c \<and> starts_with ps s)"

fun contains_str :: "string \<Rightarrow> string \<Rightarrow> bool" where
  "contains_str p [] = starts_with p []"
| "contains_str p (c # s) = (starts_with p (c # s) \<or> contains_str p s)"

lemma starts_with_iff: "starts_with p s \<longleftrightarrow> (\<exists>t. s = p @ t)"
  by (induction p s rule: starts_with.induct) auto

lemma contains_str_Cons:
  "contains_str p (c # s) \<longleftrightarrow> (\<exists>t. c # s = p @ t) \<or> contains_str p s"
  by (simp add: starts_with_iff)

lemma contains_str_iff: "contains_str p s \<longleftrightarrow> (\<exists>a b. s = a @ p @ b)"
proof (induction s)
  case Nil
  then show ?case by (simp add: starts_with_iff)
next
  case (Cons c s)
  have "(\<exists>a b. c # s = a @ p @ b) \<longleftrightarrow> (\<exists>t. c # s = p @ t) \<or> (\<exists>a b. s = a @ p @ b)"
    by (metis append_Cons append_Nil neq_Nil_conv list.inject)
  then show ?case unfolding contains_str_Cons Cons.IH by simp
qed

text \<open>\<open>std::filesystem::path\<close> on POSIX: the part after the last slash, and its extension.\<close>

definition path_filename :: "string \<Rightarrow> string" where
  "path_filename s = rev (takeWhile (\<lambda>c. c \<noteq> CHR ''/'') (rev s))"

definition path_extension :: "string \<Rightarrow> string" where
  "path_extension s =
     (let name = path_filename s; ext = rev (takeWhile (\<lambda>c. c \<noteq> CHR ''.'') (rev name))
      in if name = ''.'' \<or> name = ''..'' \<or> length name \<le> length ext + 1 then [] else CHR ''.'' # ext)"

lemma digits_suffix:
  assumes "a @ c # x = b @ c # y" "list_all isdigit x" "list_all isdigit y" "\<not> isdigit c"
  shows "x = y"
proof -
  have suffix: "rev (takeWhile isdigit (rev (s @ c # z))) = z" if "list_all isdigit z" for s z
  proof -
    have "takeWhile isdigit (rev z @ c # rev s) = rev z"
      using that assms(4) by (subst takeWhile_append2) (auto simp: list_all_iff)
    then show ?thesis by simp
  qed
  show ?thesis using suffix[OF assms(2), of a] suffix[OF assms(3), of b] assms(1) by simp
qed

subsection \<open>\<open>std::map\<close>\<close>

text \<open>
  A \<open>std::map\<close> that is only looked up is a HOL map; one that is iterated or compared is
  an association list in ascending key order. \<open>emplace\<close> keeps an existing entry and
  \<open>operator[]\<close> followed by an assignment replaces it.
\<close>

definition emplace :: "('k \<rightharpoonup> 'v) \<Rightarrow> 'k \<Rightarrow> 'v \<Rightarrow> ('k \<rightharpoonup> 'v)" where
  "emplace m k v = (case m k of None \<Rightarrow> m(k \<mapsto> v) | Some _ \<Rightarrow> m)"

fun amap_alter :: "('v option \<Rightarrow> 'v) \<Rightarrow> 'k::linorder \<Rightarrow> ('k \<times> 'v) list \<Rightarrow> ('k \<times> 'v) list" where
  "amap_alter f k [] = [(k, f None)]"
| "amap_alter f k ((j, v) # kvs) =
     (if k = j then (j, f (Some v)) # kvs
      else if k < j then (k, f None) # (j, v) # kvs
      else (j, v) # amap_alter f k kvs)"

definition amap_wf :: "('k::linorder \<times> 'v) list \<Rightarrow> bool" where
  "amap_wf m \<longleftrightarrow> sorted_wrt (<) (map fst m)"

lemma keys_amap_alter [simp]: "set (map fst (amap_alter f k m)) = insert k (set (map fst m))"
  by (induction m rule: amap_alter.induct) auto

lemma amap_alter_fst: "a \<in> set (amap_alter f k m) \<Longrightarrow> fst a = k \<or> a \<in> set m"
  by (induction m rule: amap_alter.induct) (auto split: if_splits)

lemma amap_alter_wf: "amap_wf m \<Longrightarrow> amap_wf (amap_alter f k m)"
proof (induction f k m rule: amap_alter.induct)
  case (2 f k j v kvs)
  then show ?case
    by (auto simp: amap_wf_def dest!: amap_alter_fst)
qed (simp add: amap_wf_def)

lemma map_of_amap_alter:
  "amap_wf m \<Longrightarrow> map_of (amap_alter f k m) = (map_of m)(k \<mapsto> f (map_of m k))"
proof (induction f k m rule: amap_alter.induct)
  case (2 f k j v kvs)
  have none: "k < j \<Longrightarrow> map_of kvs k = None"
    using "2.prems" by (auto simp: amap_wf_def map_of_eq_None_iff)
  have "amap_wf kvs" using "2.prems" by (simp add: amap_wf_def)
  with 2 none show ?case by (auto simp: fun_upd_twist)
qed simp

subsection \<open>Searching for two characters\<close>

text \<open>\<open>find\<close> for a separator of two characters: the position of its first occurrence.\<close>

fun find_pair :: "char \<Rightarrow> char \<Rightarrow> string \<Rightarrow> nat option" where
  "find_pair c d (x # y # s) = (if x = c \<and> y = d then Some 0 else map_option Suc (find_pair c d (y # s)))"
| "find_pair c d _ = None"

lemma find_pair_length: "find_pair c d s = Some i \<Longrightarrow> i + 2 \<le> length s"
  by (induction c d s arbitrary: i rule: find_pair.induct) (auto split: if_splits)

lemma find_pair_joined:
  "c \<noteq> d \<Longrightarrow> find_pair c d s = None \<Longrightarrow> find_pair c d (s @ c # d # rest) = Some (length s)"
proof (induction c d s rule: find_pair.induct)
  case (1 c d x y s)
  then show ?case by (auto split: if_splits)
qed simp_all

lemma find_pair_append: "find_pair c d s = Some i \<Longrightarrow> find_pair c d (s @ rest) = Some i"
  by (induction c d s arbitrary: i rule: find_pair.induct) (auto split: if_splits)

lemma find_pair_absent: "c \<notin> set s \<Longrightarrow> find_pair c d s = None"
  by (induction c d s rule: find_pair.induct) auto

subsection \<open>Results that may be errors\<close>

definition try_with :: "'e + 'a \<Rightarrow> ('a \<Rightarrow> 'e + 'b) \<Rightarrow> 'e + 'b" where
  "try_with r f = (case r of Inl e \<Rightarrow> Inl e | Inr x \<Rightarrow> f x)"

lemma try_with_Inr: "try_with r f = Inr y \<longleftrightarrow> (\<exists>x. r = Inr x \<and> f x = Inr y)"
  by (cases r) (auto simp: try_with_def)

end
