(* ===== verification/Utf8.thy ===== *)
theory Utf8
  imports Prelude
begin

unbundle bit_operations_syntax

text \<open>
  \<open>cpp/common/utf8.h\<close>: the UTF-16 decoder the PDF text extractor feeds with code units,
  and the UTF-8 encoder that produces every byte of native text. Code points are 32-bit words
  and the encoder's shifts and masks are the code's. The reference is UTF-8 and UTF-16 as
  their standards define them, on natural numbers: \<open>utf8_scalar\<close> reads one scalar value
  back from its bytes and refuses overlong forms, surrogates and stray continuation bytes.
\<close>

type_synonym u32 = "32 word"

definition kUnicodeReplacementCharacter :: u32 where
  "kUnicodeReplacementCharacter = 0xFFFD"

record decoded_code_point =
  dcp_value :: u32
  dcp_code_units :: int
  dcp_valid :: bool

definition invalid_code_point :: decoded_code_point where
  "invalid_code_point =
     \<lparr>dcp_value = kUnicodeReplacementCharacter, dcp_code_units = 1, dcp_valid = False\<rparr>"

definition isHighSurrogate :: "u32 \<Rightarrow> bool" where
  "isHighSurrogate v \<longleftrightarrow> 0xD800 \<le> v \<and> v \<le> 0xDBFF"

definition isLowSurrogate :: "u32 \<Rightarrow> bool" where
  "isLowSurrogate v \<longleftrightarrow> 0xDC00 \<le> v \<and> v \<le> 0xDFFF"

definition isUnicodeScalarValue :: "u32 \<Rightarrow> bool" where
  "isUnicodeScalarValue v \<longleftrightarrow> v \<le> 0x10FFFF \<and> \<not> isHighSurrogate v \<and> \<not> isLowSurrogate v"

definition decodeUtf16CodePoint :: "u32 \<Rightarrow> u32 \<Rightarrow> decoded_code_point" where
  "decodeUtf16CodePoint first following =
     (if isHighSurrogate first then
        if \<not> isLowSurrogate following then invalid_code_point
        else \<lparr>dcp_value = 0x10000 + push_bit 10 (first - 0xD800) + (following - 0xDC00),
               dcp_code_units = 2, dcp_valid = True\<rparr>
      else if \<not> isUnicodeScalarValue first then invalid_code_point
      else \<lparr>dcp_value = first, dcp_code_units = 1, dcp_valid = True\<rparr>)"

text \<open>\<open>static_cast<char>\<close> of a value the encoder has masked to a byte.\<close>

definition byte :: "u32 \<Rightarrow> char" where
  "byte w = char_of (unat w)"

definition encodeUtf8 :: "u32 \<Rightarrow> string" where
  "encodeUtf8 codepoint =
     (let cp = (if isUnicodeScalarValue codepoint then codepoint else kUnicodeReplacementCharacter) in
      if cp \<le> 0x7F then [byte cp]
      else if cp \<le> 0x7FF then
        [byte (0xC0 OR (drop_bit 6 cp AND 0x1F)), byte (0x80 OR (cp AND 0x3F))]
      else if cp \<le> 0xFFFF then
        [byte (0xE0 OR (drop_bit 12 cp AND 0x0F)), byte (0x80 OR (drop_bit 6 cp AND 0x3F)),
         byte (0x80 OR (cp AND 0x3F))]
      else
        [byte (0xF0 OR (drop_bit 18 cp AND 0x07)), byte (0x80 OR (drop_bit 12 cp AND 0x3F)),
         byte (0x80 OR (drop_bit 6 cp AND 0x3F)), byte (0x80 OR (cp AND 0x3F))])"

subsection \<open>Bits to numbers\<close>

lemma unat_or_take_bit:
  fixes c w :: u32
  assumes "take_bit k (unat c) = 0"
  shows "unat (c OR take_bit k w) = unat c + unat w mod 2 ^ k"
proof -
  have "\<not> bit (unat c) n \<or> \<not> bit (take_bit k (unat w)) n" for n
    using assms by (metis bit_take_bit_iff bit_0_eq bot_apply bot_bool_def)
  then have "unat c OR take_bit k (unat w) = unat c + take_bit k (unat w)"
    by (rule disjunctive_add[symmetric])
  then show ?thesis by (simp only: unsigned_or_eq unsigned_take_bit_eq) (simp add: take_bit_eq_mod)
qed

lemma and_masks:
  fixes w :: u32
  shows "w AND 0x3F = take_bit 6 w" "w AND 0x1F = take_bit 5 w"
    "w AND 0x0F = take_bit 4 w" "w AND 0x07 = take_bit 3 w"
  by (simp_all add: take_bit_eq_mask mask_eq_exp_minus_1)

lemma encoder_bytes:
  fixes w :: u32
  shows "unat (0x80 OR (w AND 0x3F)) = 128 + unat w mod 64"
    "unat (0xC0 OR (w AND 0x1F)) = 192 + unat w mod 32"
    "unat (0xE0 OR (w AND 0x0F)) = 224 + unat w mod 16"
    "unat (0xF0 OR (w AND 0x07)) = 240 + unat w mod 8"
  using unat_or_take_bit[of 6 "0x80" w] unat_or_take_bit[of 5 "0xC0" w]
    unat_or_take_bit[of 4 "0xE0" w] unat_or_take_bit[of 3 "0xF0" w]
  unfolding and_masks by (simp_all add: take_bit_eq_mod)

lemma unat_drop_bit: "unat (drop_bit k (w :: u32)) = unat w div 2 ^ k"
  by (simp only: drop_bit_eq_div[symmetric] unsigned_drop_bit_eq) (simp add: take_bit_nat_eq_self unsigned_less[of w, simplified])

lemma surrogates_nat:
  "isHighSurrogate w \<longleftrightarrow> 0xD800 \<le> unat w \<and> unat w \<le> 0xDBFF"
  "isLowSurrogate w \<longleftrightarrow> 0xDC00 \<le> unat w \<and> unat w \<le> 0xDFFF"
  "isUnicodeScalarValue w \<longleftrightarrow> unat w < 0xD800 \<or> (0xDFFF < unat w \<and> unat w \<le> 0x10FFFF)"
  by (auto simp: isHighSurrogate_def isLowSurrogate_def isUnicodeScalarValue_def word_le_nat_alt)

subsection \<open>UTF-8 as a standard defines it\<close>

definition scalar_nat :: "nat \<Rightarrow> bool" where
  "scalar_nat n \<longleftrightarrow> n < 0xD800 \<or> (0xDFFF < n \<and> n \<le> 0x10FFFF)"

definition code :: "char \<Rightarrow> nat" where
  "code c = of_char c"

definition cont :: "char \<Rightarrow> bool" where
  "cont c \<longleftrightarrow> 128 \<le> code c \<and> code c < 192"

text \<open>One scalar value and the bytes after it; \<open>None\<close> for ill-formed input.\<close>

fun utf8_scalar :: "string \<Rightarrow> (nat \<times> string) option" where
  "utf8_scalar [] = None"
| "utf8_scalar (a # s) =
     (if code a < 128 then Some (code a, s)
      else if 192 \<le> code a \<and> code a < 224 then
        (case s of b # t \<Rightarrow>
           let n = (code a - 192) * 64 + (code b - 128) in
           if cont b \<and> 0x80 \<le> n then Some (n, t) else None
         | _ \<Rightarrow> None)
      else if 224 \<le> code a \<and> code a < 240 then
        (case s of b # c # t \<Rightarrow>
           let n = (code a - 224) * 4096 + (code b - 128) * 64 + (code c - 128) in
           if cont b \<and> cont c \<and> 0x800 \<le> n \<and> scalar_nat n then Some (n, t) else None
         | _ \<Rightarrow> None)
      else if 240 \<le> code a \<and> code a < 248 then
        (case s of b # c # d # t \<Rightarrow>
           let n = (code a - 240) * 262144 + (code b - 128) * 4096 + (code c - 128) * 64
                     + (code d - 128) in
           if cont b \<and> cont c \<and> cont d \<and> 0x10000 \<le> n \<and> scalar_nat n then Some (n, t) else None
         | _ \<Rightarrow> None)
      else None)"

lemma utf8_scalar_shorter: "utf8_scalar s = Some (n, t) \<Longrightarrow> length t < length s"
  by (cases s) (auto split: if_splits list.splits simp: Let_def)

function utf8_decode :: "string \<Rightarrow> nat list option" where
  "utf8_decode s =
     (if s = [] then Some []
      else case utf8_scalar s of None \<Rightarrow> None
           | Some (n, t) \<Rightarrow> map_option (\<lambda>ns. n # ns) (utf8_decode t))"
  by pat_completeness auto
termination
  by (relation "measure length") (auto dest: utf8_scalar_shorter)

declare utf8_decode.simps [simp del]

definition effective_scalar :: "u32 \<Rightarrow> nat" where
  "effective_scalar cp = (if isUnicodeScalarValue cp then unat cp else 0xFFFD)"

lemma code_char_of: "n < 256 \<Longrightarrow> code (char_of n) = n"
  by (simp add: code_def)

lemma base64_digits:
  fixes n :: nat
  shows "n div 64 * 64 + n mod 64 = n"
    "n div 4096 * 4096 + n div 64 mod 64 * 64 + n mod 64 = n"
    "n div 262144 * 262144 + n div 4096 mod 64 * 4096 + n div 64 mod 64 * 64 + n mod 64 = n"
proof -
  have e: "n div 4096 = n div 64 div 64" "n div 262144 = n div 64 div 64 div 64"
    by (simp_all add: div_mult2_eq[symmetric])
  have s: "m div 64 * 64 + m mod 64 = m" for m :: nat by simp
  show "n div 64 * 64 + n mod 64 = n" by simp
  show "n div 4096 * 4096 + n div 64 mod 64 * 64 + n mod 64 = n"
    unfolding e using s[of n] s[of "n div 64"] by linarith
  show "n div 262144 * 262144 + n div 4096 mod 64 * 4096 + n div 64 mod 64 * 64 + n mod 64 = n"
    unfolding e using s[of n] s[of "n div 64"] s[of "n div 64 div 64"] by linarith
qed

lemma encode_scalar_bytes:
  assumes "scalar_nat (unat cp)"
  shows "encodeUtf8 cp = (let n = unat cp in
     if n \<le> 0x7F then [char_of n]
     else if n \<le> 0x7FF then [char_of (192 + n div 64), char_of (128 + n mod 64)]
     else if n \<le> 0xFFFF then
       [char_of (224 + n div 4096), char_of (128 + n div 64 mod 64), char_of (128 + n mod 64)]
     else [char_of (240 + n div 262144), char_of (128 + n div 4096 mod 64),
           char_of (128 + n div 64 mod 64), char_of (128 + n mod 64)])"
proof -
  have v: "isUnicodeScalarValue cp" using assms by (simp add: surrogates_nat scalar_nat_def)
  have le: "unat cp \<le> 0x10FFFF" using assms by (auto simp: scalar_nat_def)
  then have d: "unat cp \<le> 0x7FF \<Longrightarrow> unat cp div 64 mod 32 = unat cp div 64"
    "unat cp \<le> 0xFFFF \<Longrightarrow> unat cp div 4096 mod 16 = unat cp div 4096"
    "unat cp div 262144 mod 8 = unat cp div 262144"
    by (simp_all add: div_less_iff_less_mult)
  show ?thesis
    unfolding encodeUtf8_def Let_def byte_def encoder_bytes unat_drop_bit word_le_nat_alt
    using v d by simp
qed

lemma utf8_scalar_encode:
  assumes "scalar_nat (unat cp)"
  shows "utf8_scalar (encodeUtf8 cp @ s) = Some (unat cp, s)"
proof -
  let ?n = "unat cp"
  have le: "?n \<le> 0x10FFFF" using assms by (auto simp: scalar_nat_def)
  consider "?n \<le> 0x7F" | "0x7F < ?n" "?n \<le> 0x7FF" | "0x7FF < ?n" "?n \<le> 0xFFFF" | "0xFFFF < ?n"
    by linarith
  then show ?thesis
  proof cases
    case 1
    then show ?thesis by (simp add: encode_scalar_bytes[OF assms] code_char_of)
  next
    case 2
    then have "?n div 64 < 32" by (simp add: div_less_iff_less_mult)
    with 2 show ?thesis
      using base64_digits(1)[of ?n]
      by (simp add: encode_scalar_bytes[OF assms] Let_def code_char_of cont_def)
  next
    case 3
    then have "?n div 4096 < 16" by (simp add: div_less_iff_less_mult)
    with 3 assms show ?thesis
      using base64_digits(2)[of ?n]
      by (simp add: encode_scalar_bytes[OF assms] Let_def code_char_of cont_def)
  next
    case 4
    then have "?n div 262144 < 8" using le by (simp add: div_less_iff_less_mult)
    with 4 assms show ?thesis
      using base64_digits(3)[of ?n]
      by (simp add: encode_scalar_bytes[OF assms] Let_def code_char_of cont_def)
  qed
qed

lemma encode_effective: "encodeUtf8 cp = encodeUtf8 (of_nat (effective_scalar cp))"
proof (cases "isUnicodeScalarValue cp")
  case False
  have "isUnicodeScalarValue kUnicodeReplacementCharacter"
    by (simp add: surrogates_nat kUnicodeReplacementCharacter_def)
  with False show ?thesis
    by (simp add: encodeUtf8_def effective_scalar_def kUnicodeReplacementCharacter_def)
qed (simp add: effective_scalar_def)

lemma effective_scalar_scalar: "scalar_nat (effective_scalar cp)"
  by (auto simp: effective_scalar_def surrogates_nat scalar_nat_def)

lemma utf8_scalar_effective: "utf8_scalar (encodeUtf8 cp @ s) = Some (effective_scalar cp, s)"
proof -
  have lt: "effective_scalar cp < 2 ^ 32"
    using effective_scalar_scalar[of cp] by (auto simp: scalar_nat_def)
  then have u: "unat (of_nat (effective_scalar cp) :: u32) = effective_scalar cp"
    by (simp add: unat_of_nat)
  show ?thesis
    using utf8_scalar_encode[of "of_nat (effective_scalar cp)" s] effective_scalar_scalar[of cp]
    by (simp add: encode_effective[of cp] u)
qed

lemma encodeUtf8_nonempty [simp]: "encodeUtf8 cp \<noteq> []"
  by (simp add: encodeUtf8_def Let_def)

lemma utf8_decode_encodes_aux:
  "utf8_decode (concat (map encodeUtf8 cps)) = Some (map effective_scalar cps)"
proof (induction cps)
  case Nil
  then show ?case by (simp add: utf8_decode.simps)
next
  case (Cons cp cps)
  then show ?case by (subst utf8_decode.simps) (simp add: utf8_scalar_effective)
qed

subsection \<open>UTF-16\<close>

text \<open>The code units the standard assigns to a scalar value.\<close>

definition utf16_units :: "nat \<Rightarrow> u32 list" where
  "utf16_units n =
     (if n < 0x10000 then [of_nat n]
      else [of_nat (0xD800 + (n - 0x10000) div 1024), of_nat (0xDC00 + (n - 0x10000) mod 1024)])"

lemma surrogate_pair_value:
  assumes "0x10000 \<le> n" "n \<le> 0x10FFFF"
  defines "h \<equiv> of_nat (0xD800 + (n - 0x10000) div 1024) :: u32"
    and "l \<equiv> of_nat (0xDC00 + (n - 0x10000) mod 1024) :: u32"
  shows "isHighSurrogate h" "isLowSurrogate l"
    "0x10000 + push_bit 10 (h - 0xD800) + (l - 0xDC00) = of_nat n"
proof -
  have q: "(n - 0x10000) div 1024 < 1024" using assms(1,2) by (simp add: div_less_iff_less_mult)
  then have "unat h = 0xD800 + (n - 0x10000) div 1024"
    unfolding h_def by (subst unat_of_nat) simp
  with q show "isHighSurrogate h" by (simp add: surrogates_nat)
  have "unat l = 0xDC00 + (n - 0x10000) mod 1024"
    unfolding l_def by (subst unat_of_nat) simp
  then show "isLowSurrogate l" by (simp add: surrogates_nat less_Suc_eq_le[symmetric])
  define a b where "a = (n - 0x10000) div 1024" and "b = (n - 0x10000) mod 1024"
  have n: "n = 0x10000 + (a * 1024 + b)"
    unfolding a_def b_def using assms(1) by simp
  have "h = 0xD800 + of_nat a" "l = 0xDC00 + of_nat b"
    unfolding h_def l_def a_def b_def by simp_all
  then show "0x10000 + push_bit 10 (h - 0xD800) + (l - 0xDC00) = of_nat n"
    unfolding n by (simp add: push_bit_eq_mult)
qed

section \<open>Properties\<close>

text \<open>
  encoding any sequence of 32-bit values gives well-formed UTF-8, and a decoder that
  follows the standard reads back exactly the values, with each value that is no Unicode scalar
  (a surrogate, or above \<open>0x10FFFF\<close>) replaced by \<open>U+FFFD\<close>.
\<close>

lemma encodeUtf8_roundtrip:
  "utf8_decode (concat (map encodeUtf8 cps)) =
     Some (map (\<lambda>cp. if isUnicodeScalarValue cp then unat cp else 0xFFFD) cps)"
  by (simp add: utf8_decode_encodes_aux effective_scalar_def[abs_def])

text \<open>
  the UTF-16 decoder is exact on the code units of a scalar value, whatever unit follows
  a one-unit character, and reports how many units it consumed; every other first unit gives
  the replacement character, one unit and \<open>valid = false\<close>.
\<close>

lemma decodeUtf16_exact:
  assumes "scalar_nat n"
  shows "decodeUtf16CodePoint (hd (utf16_units n))
           (if n < 0x10000 then anything else last (utf16_units n))
         = \<lparr>dcp_value = of_nat n, dcp_code_units = int (length (utf16_units n)), dcp_valid = True\<rparr>"
proof (cases "n < 0x10000")
  case True
  then have "unat (of_nat n :: u32) = n" by (subst unat_of_nat) simp
  then show ?thesis
    using True assms
    by (auto simp: decodeUtf16CodePoint_def utf16_units_def surrogates_nat scalar_nat_def)
next
  case False
  then have "0x10000 \<le> n" "n \<le> 0x10FFFF" using assms by (auto simp: scalar_nat_def)
  from surrogate_pair_value[OF this] False show ?thesis
    by (simp add: decodeUtf16CodePoint_def utf16_units_def)
qed

lemma decodeUtf16_exact_witness:
  "decodeUtf16CodePoint 0xD83D 0xDE00
     = \<lparr>dcp_value = 0x1F600, dcp_code_units = 2, dcp_valid = True\<rparr>"
  using decodeUtf16_exact[where n = "0x1F600" and anything = 0] by (simp add: scalar_nat_def utf16_units_def)

end
