(* ===== verification/Doc_Model.thy ===== *)
theory Doc_Model
  imports Prelude
begin

text \<open>
  The normalized document model, \<open>cpp/document/*.h\<close>, one record per struct and one datatype
  per \<open>enum class\<close>, and the bounding-box helpers that the stages repeat in their anonymous
  namespaces. Field names carry a prefix for their struct, since HOL's record fields are
  global. C++ \<open>int\<close> is \<open>int\<close> and \<open>std::size_t\<close> is \<open>nat\<close>: the values are counts and
  indices of one page, far below \<open>2 ^ 31\<close>. A \<open>std::string\<close> is its list of bytes.
  The weak pointer \<open>PageArtifact::image_cache\<close> is runtime access, not data, and has no field;
  the cache itself is modelled in the theory \<open>Image_Cache\<close>.
\<close>

subsection \<open>Text: \<open>document/text_model.h\<close>\<close>

record bbox =
  bx0 :: double
  by0 :: double
  bx1 :: double
  by1 :: double

datatype text_source = SourceUnknown | PdfTextLayer | SourceOcr | SourceMixed

record text_span =
  span_text :: string
  span_bbox :: bbox
  span_source :: text_source
  span_confidence :: double

record text_line =
  line_text :: string
  line_bbox :: bbox
  line_source :: text_source
  line_confidence :: double
  line_spans :: "text_span list"

record extraction_signals =
  decoded_codepoints :: nat
  invalid_utf16_codepoints :: nat
  replacement_codepoints :: nat
  c0_control_counts :: "nat list"

record page_text =
  pt_page_index :: int
  pt_page_number :: int
  pt_has_text :: bool
  pt_preferred_source :: text_source
  pt_lines :: "text_line list"
  pt_signals :: extraction_signals

record source_reference =
  ref_page_id :: string
  ref_bbox :: bbox
  ref_text :: string
  ref_source :: text_source

definition empty_bbox :: bbox where
  "empty_bbox = \<lparr>bx0 = 0, by0 = 0, bx1 = 0, by1 = 0\<rparr>"

definition empty_signals :: extraction_signals where
  "empty_signals = \<lparr>decoded_codepoints = 0, invalid_utf16_codepoints = 0,
     replacement_codepoints = 0, c0_control_counts = replicate 32 0\<rparr>"

definition empty_page_text :: page_text where
  "empty_page_text = \<lparr>pt_page_index = 0, pt_page_number = 0, pt_has_text = False,
     pt_preferred_source = SourceUnknown, pt_lines = [], pt_signals = empty_signals\<rparr>"

subsection \<open>Layout: \<open>document/layout_model.h\<close>\<close>

datatype layout_type = LUnknown | LTitle | LText | LList | LTable | LFigure | LHeader | LFooter

fun layout_code :: "layout_type \<Rightarrow> nat" where
  "layout_code LUnknown = 0" | "layout_code LTitle = 1" | "layout_code LText = 2"
| "layout_code LList = 3" | "layout_code LTable = 4" | "layout_code LFigure = 5"
| "layout_code LHeader = 6" | "layout_code LFooter = 7"

text \<open>
  \<open>static_cast<int>(type)\<close> is the enumerator's position, which is also the order of a
  \<open>std::set<LayoutBlockType>\<close>.
\<close>

lemma layout_code_inj: "layout_code a = layout_code b \<Longrightarrow> a = b"
  by (cases a; cases b) simp_all

instantiation layout_type :: linorder
begin

definition less_eq_layout_type :: "layout_type \<Rightarrow> layout_type \<Rightarrow> bool" where
  "less_eq_layout_type a b \<longleftrightarrow> layout_code a \<le> layout_code b"

definition less_layout_type :: "layout_type \<Rightarrow> layout_type \<Rightarrow> bool" where
  "less_layout_type a b \<longleftrightarrow> layout_code a < layout_code b"

instance
  by standard (auto simp: less_eq_layout_type_def less_layout_type_def dest: layout_code_inj)

end

record layout_block =
  lb_id :: string
  lb_type :: layout_type
  lb_source_label :: string
  lb_related_block_id :: string
  lb_bbox :: bbox
  lb_confidence :: double
  lb_reading_order_hint :: int
  lb_text_line_indices :: "int list"

record page_layout =
  pl_page_index :: int
  pl_page_number :: int
  pl_blocks :: "layout_block list"

definition default_layout_block :: layout_block where
  "default_layout_block = \<lparr>lb_id = [], lb_type = LUnknown, lb_source_label = [],
     lb_related_block_id = [], lb_bbox = empty_bbox, lb_confidence = 1,
     lb_reading_order_hint = - 1, lb_text_line_indices = []\<rparr>"

subsection \<open>Page images: \<open>document/page_artifact.h\<close>\<close>

record page_bitmap =
  bm_page_index :: int
  bm_page_number :: int
  bm_width :: int
  bm_height :: int
  bm_channels :: int
  bm_pixels :: "nat list"

record debug_image =
  dbg_name :: string
  dbg_relative_image :: string
  dbg_output_path :: string

record page_artifact =
  pa_page_index :: int
  pa_page_number :: int
  pa_relative_image :: string
  pa_output_path :: string
  pa_width :: int
  pa_height :: int
  pa_debug_images :: "debug_image list"

subsection \<open>Tables: \<open>document/table_model.h\<close>\<close>

record table_cell =
  cell_row_index :: int
  cell_column_index :: int
  cell_row_span :: int
  cell_column_span :: int
  cell_is_header :: bool
  cell_text :: string
  cell_bbox :: bbox
  cell_confidence :: double
  cell_source_refs :: "source_reference list"

record table_row =
  row_index :: int
  row_bbox :: bbox
  row_confidence :: double
  row_is_header :: bool
  row_cells :: "table_cell list"

record table_column =
  col_index :: int
  col_bbox :: bbox
  col_confidence :: double

record table_structure_object =
  obj_label :: string
  obj_bbox :: bbox
  obj_confidence :: double

datatype table_text_mode = Cells | SourceLines

record table =
  tb_id :: string
  tb_layout_block_id :: string
  tb_page_index :: int
  tb_page_number :: int
  tb_bbox :: bbox
  tb_confidence :: double
  tb_source_label :: string
  tb_continuation_group_id :: string
  tb_continues_from_previous_page :: bool
  tb_continues_on_next_page :: bool
  tb_columns :: "table_column list"
  tb_rows :: "table_row list"
  tb_structure_objects :: "table_structure_object list"
  tb_text_mode :: table_text_mode

record page_tables =
  pg_page_index :: int
  pg_page_number :: int
  pg_tables :: "table list"

definition default_cell :: table_cell where
  "default_cell = \<lparr>cell_row_index = 0, cell_column_index = 0, cell_row_span = 1,
     cell_column_span = 1, cell_is_header = False, cell_text = [], cell_bbox = empty_bbox,
     cell_confidence = 1, cell_source_refs = []\<rparr>"

definition default_row :: table_row where
  "default_row = \<lparr>row_index = 0, row_bbox = empty_bbox, row_confidence = 1,
     row_is_header = False, row_cells = []\<rparr>"

definition default_table :: table where
  "default_table = \<lparr>tb_id = [], tb_layout_block_id = [], tb_page_index = 0, tb_page_number = 0,
     tb_bbox = empty_bbox, tb_confidence = 1, tb_source_label = [], tb_continuation_group_id = [],
     tb_continues_from_previous_page = False, tb_continues_on_next_page = False,
     tb_columns = [], tb_rows = [], tb_structure_objects = [], tb_text_mode = Cells\<rparr>"

subsection \<open>Reading order: \<open>document/reading_order_model.h\<close>\<close>

record placement =
  plc_layout_block_id :: string
  plc_group :: string
  plc_band_index :: int
  plc_column_start :: int
  plc_column_end :: int
  plc_parent_layout_block_id :: string

record cycle_break =
  cb_from_layout_block_id :: string
  cb_to_layout_block_id :: string
  cb_reason :: string
  cb_confidence :: double

record reading_order_trace =
  tr_algorithm :: string
  tr_placements :: "placement list"
  tr_edge_counts :: "(string \<times> int) list"
  tr_cycle_breaks :: "cycle_break list"

record reading_order_item =
  item_layout_block_id :: string
  item_layout_block_index :: int
  item_sequence_index :: int

record page_reading_order =
  ro_page_index :: int
  ro_page_number :: int
  ro_items :: "reading_order_item list"
  ro_trace :: reading_order_trace

definition empty_trace :: reading_order_trace where
  "empty_trace = \<lparr>tr_algorithm = [], tr_placements = [], tr_edge_counts = [],
     tr_cycle_breaks = []\<rparr>"

definition empty_reading_order :: page_reading_order where
  "empty_reading_order = \<lparr>ro_page_index = 0, ro_page_number = 0, ro_items = [],
     ro_trace = empty_trace\<rparr>"

subsection \<open>The assembled document: \<open>document_block.h\<close>, \<open>parsed_document.h\<close>\<close>

datatype block_type = BUnknown | BTitle | BParagraph | BList | BTable | BFigure | BHeader | BFooter

record document_block =
  db_id :: string
  db_type :: block_type
  db_source_label :: string
  db_related_block_id :: string
  db_page_index :: int
  db_page_number :: int
  db_bbox :: bbox
  db_confidence :: double
  db_text :: string
  db_text_line_indices :: "int list"
  db_table_id :: string
  db_table_continuation_group_id :: string
  db_table_continues_from_previous_page :: bool
  db_table_continues_on_next_page :: bool
  db_table_rows :: "table_row list"
  db_page_id :: string
  db_source_refs :: "source_reference list"

datatype document_status = Complete | Partial

record document_source =
  src_path :: string
  src_type :: string
  src_filename :: string
  src_media_type :: string
  src_size_bytes :: "nat option"
  src_sha256 :: string

record document_producer =
  prod_name :: string
  prod_version :: string
  prod_git_revision :: string
  prod_run_id :: string

record document_page =
  dp_id :: string
  dp_number :: int
  dp_width :: double
  dp_height :: double
  dp_image_id :: string
  dp_image_uri :: string
  dp_image_media_type :: string

record document_relation =
  rel_id :: string
  rel_type :: string
  rel_from_block_id :: string
  rel_to_block_id :: string

text \<open>A \<open>std::map<std::string, std::string>\<close> of details is its list of entries in key order.\<close>

record document_warning =
  dw_code :: string
  dw_message :: string
  dw_stage :: string
  dw_page_id :: string
  dw_block_id :: string
  dw_details :: "(string \<times> string) list"
  dw_occurrence_count :: "64 word"
  dw_page_ids :: "string list"

record page_artifacts =
  ppa_page_index :: int
  ppa_page_number :: int
  ppa_image :: page_artifact
  ppa_text :: page_text
  ppa_layout :: page_layout
  ppa_reading_order :: page_reading_order
  ppa_tables :: page_tables

type_synonym pipeline_artifacts = "page_artifacts list"

record parsed_document =
  pd_source :: document_source
  pd_dpi :: int
  pd_blocks :: "document_block list"
  pd_document_id :: string
  pd_status :: document_status
  pd_producer :: document_producer
  pd_pages :: "document_page list"
  pd_relations :: "document_relation list"
  pd_warnings :: "document_warning list"

subsection \<open>Bounding boxes\<close>

definition bboxWidth :: "bbox \<Rightarrow> double" where
  "bboxWidth b = max 0 (bx1 b - bx0 b)"

definition bboxHeight :: "bbox \<Rightarrow> double" where
  "bboxHeight b = max 0 (by1 b - by0 b)"

definition bboxArea :: "bbox \<Rightarrow> double" where
  "bboxArea b = max 0 (bx1 b - bx0 b) * max 0 (by1 b - by0 b)"

definition centerX :: "bbox \<Rightarrow> double" where
  "centerX b = (bx0 b + bx1 b) * 0.5"

definition centerY :: "bbox \<Rightarrow> double" where
  "centerY b = (by0 b + by1 b) * 0.5"

definition expandBBox :: "bbox \<Rightarrow> bbox \<Rightarrow> bbox" where
  "expandBBox target value = \<lparr>bx0 = min (bx0 target) (bx0 value), by0 = min (by0 target) (by0 value),
     bx1 = max (bx1 target) (bx1 value), by1 = max (by1 target) (by1 value)\<rparr>"

definition finiteBBox :: "bbox \<Rightarrow> bool" where
  "finiteBBox b \<longleftrightarrow> isfinite (bx0 b) \<and> isfinite (by0 b) \<and> isfinite (bx1 b) \<and> isfinite (by1 b)"

definition validBBox :: "bbox \<Rightarrow> bool" where
  "validBBox b \<longleftrightarrow> isfinite (bx0 b) \<and> isfinite (by0 b) \<and> isfinite (bx1 b) \<and> isfinite (by1 b) \<and>
     bx0 b < bx1 b \<and> by0 b < by1 b"

lemmas [geometry] = bboxWidth_def bboxHeight_def bboxArea_def centerX_def centerY_def
  expandBBox_def

text \<open>\<open>bbox_le a b\<close>: the box \<open>a\<close> lies inside \<open>b\<close>.\<close>

definition bbox_le :: "bbox \<Rightarrow> bbox \<Rightarrow> bool" where
  "bbox_le a b \<longleftrightarrow> bx0 b \<le> bx0 a \<and> by0 b \<le> by0 a \<and> bx1 a \<le> bx1 b \<and> by1 a \<le> by1 b"

lemma bbox_le_refl [simp, intro]: "bbox_le b b"
  by (simp add: bbox_le_def)

lemma bbox_le_trans [trans]: "bbox_le a b \<Longrightarrow> bbox_le b c \<Longrightarrow> bbox_le a c"
  by (auto simp: bbox_le_def)

lemma expandBBox_upper [simp]: "bbox_le a (expandBBox a b)" "bbox_le b (expandBBox a b)"
  by (simp_all add: bbox_le_def expandBBox_def)

lemma expandBBox_least: "bbox_le a c \<Longrightarrow> bbox_le b c \<Longrightarrow> bbox_le (expandBBox a b) c"
  by (simp add: bbox_le_def expandBBox_def)

lemma expandBBox_comm: "expandBBox a b = expandBBox b a"
  by (simp add: expandBBox_def min.commute max.commute)

lemma expandBBox_assoc: "expandBBox (expandBBox a b) c = expandBBox a (expandBBox b c)"
  by (simp add: expandBBox_def min.assoc max.assoc)

lemma expandBBox_idem [simp]: "expandBBox a a = a"
  by (simp add: expandBBox_def)

lemma bboxArea_nonneg [simp]: "0 \<le> bboxArea b"
  by (simp add: bboxArea_def)

lemma bboxWidth_nonneg [simp]: "0 \<le> bboxWidth b"
  by (simp add: bboxWidth_def)

lemma bboxHeight_nonneg [simp]: "0 \<le> bboxHeight b"
  by (simp add: bboxHeight_def)

lemma validBBox_area_pos: "validBBox b \<Longrightarrow> 0 < bboxArea b"
  by (simp add: validBBox_def bboxArea_def)

text \<open>The overlap of two boxes, and that it never exceeds the smaller one.\<close>

definition overlapArea :: "bbox \<Rightarrow> bbox \<Rightarrow> double" where
  "overlapArea a b = max 0 (min (bx1 a) (bx1 b) - max (bx0 a) (bx0 b)) *
     max 0 (min (by1 a) (by1 b) - max (by0 a) (by0 b))"

lemma overlapArea_nonneg [simp]: "0 \<le> overlapArea a b"
  by (simp add: overlapArea_def)

lemma overlapArea_comm: "overlapArea a b = overlapArea b a"
  by (simp add: overlapArea_def min.commute max.commute)

lemma overlapArea_le: "overlapArea a b \<le> bboxArea a"
  unfolding overlapArea_def bboxArea_def by (rule mult_mono) auto

lemma overlapArea_le2: "overlapArea a b \<le> bboxArea b"
  using overlapArea_le[of b a] by (simp add: overlapArea_comm)

lemma overlapArea_inside: "bbox_le a b \<Longrightarrow> overlapArea a b = bboxArea a"
  by (simp add: overlapArea_def bboxArea_def bbox_le_def min_absorb1 max_absorb1)

subsection \<open>Medians\<close>

text \<open>
  \<open>median\<close> of the reading-order backend and of the layout postprocessing: two calls of
  \<open>std::nth_element\<close>, each of which leaves at its position the element a sorted vector
  would have there.
\<close>

definition median :: "double list \<Rightarrow> double" where
  "median values =
     (if values = [] then 0
      else
        let ordered = sort values;
            middle = length values div 2;
            upper = ordered ! middle
        in if length values mod 2 \<noteq> 0 then upper else (ordered ! (middle - 1) + upper) * 0.5)"

lemma median_bounds:
  assumes "values \<noteq> []"
  shows "Min (set values) \<le> median values" "median values \<le> Max (set values)"
proof -
  have mem: "i < length values \<Longrightarrow> sort values ! i \<in> set values" for i
    by (metis length_sort nth_mem set_sort)
  have lt: "length values div 2 < length values" "length values div 2 - 1 < length values"
    using assms by (simp_all add: less_imp_diff_less)
  have *: "Min (set values) \<le> sort values ! i" "sort values ! i \<le> Max (set values)"
    if "i < length values" for i
    using mem[OF that] by simp_all
  show "Min (set values) \<le> median values" "median values \<le> Max (set values)"
    using assms *[OF lt(1)] *[OF lt(2)] by (auto simp: median_def Let_def)
qed

lemma median_mset:
  assumes "mset xs = mset ys"
  shows "median xs = median ys"
proof -
  have "sort xs = sort ys"
    by (rule properties_for_sort) (simp_all add: assms)
  moreover have "length xs = length ys" using assms by (rule mset_eq_length)
  moreover from this have "xs = [] \<longleftrightarrow> ys = []" by auto
  ultimately show ?thesis unfolding median_def by simp
qed

end
