(* ===== verification/Common.thy ===== *)
theory Common
  imports Doc_Model
begin

text \<open>
  \<open>cpp/common\<close>: the status value every stage returns, the diagnostic it may attach, and the
  registry of warning codes. Messages are kept in full, since the engine's callers see them.
\<close>

subsection \<open>\<open>status.h\<close> and \<open>diagnostic.h\<close>\<close>

record status =
  ok_status :: bool
  status_code :: string
  status_message :: string
  status_stage :: string
  status_retryable :: bool

definition status_ok :: status where
  "status_ok = \<lparr>ok_status = True, status_code = [], status_message = [], status_stage = [],
     status_retryable = False\<rparr>"

definition status_error :: "string \<Rightarrow> string \<Rightarrow> string \<Rightarrow> bool \<Rightarrow> status" where
  "status_error code message stage retryable = \<lparr>ok_status = False, status_code = code,
     status_message = message, status_stage = stage, status_retryable = retryable\<rparr>"

lemma ok_status_simps [simp]: "ok_status status_ok" "\<not> ok_status (status_error c m s r)"
  by (simp_all add: status_ok_def status_error_def)

lemma status_error_simps [simp]:
  "status_code (status_error c m s r) = c" "status_message (status_error c m s r) = m"
  "status_stage (status_error c m s r) = s" "status_retryable (status_error c m s r) = r"
  by (simp_all add: status_error_def)

record diagnostic =
  dg_code :: string
  dg_message :: string
  dg_stage :: string
  dg_page_number :: int
  dg_details :: "(string \<times> string) list"

text \<open>The details map is looked up by key (\<open>std::map::find\<close>).\<close>

definition find_detail :: "diagnostic \<Rightarrow> string \<Rightarrow> string option" where
  "find_detail d k = map_of (dg_details d) k"

subsection \<open>\<open>warning_codes.h\<close>\<close>

definition kOcrEnhancementFailed :: string where
  "kOcrEnhancementFailed = ''OCR_ENHANCEMENT_FAILED''"

definition kLayoutBackendFallback :: string where
  "kLayoutBackendFallback = ''LAYOUT_BACKEND_FALLBACK''"

definition kTableBackendFallback :: string where
  "kTableBackendFallback = ''TABLE_BACKEND_FALLBACK''"

record warning_definition =
  wd_code :: string
  wd_stage :: string
  wd_summary :: string

definition kRegistry :: "warning_definition list" where
  "kRegistry =
    [\<lparr>wd_code = kOcrEnhancementFailed, wd_stage = ''text'',
      wd_summary = ''OCR enhancement failed and usable native text was retained.''\<rparr>,
     \<lparr>wd_code = kLayoutBackendFallback, wd_stage = ''layout'',
      wd_summary = ''Layout inference continued with the next configured backend.''\<rparr>,
     \<lparr>wd_code = kTableBackendFallback, wd_stage = ''table'',
      wd_summary = ''Table inference continued with the next configured backend.''\<rparr>]"

definition isRegistered :: "string \<Rightarrow> bool" where
  "isRegistered code \<longleftrightarrow> list_ex (\<lambda>d. wd_code d = code) kRegistry"

lemma isRegistered_iff:
  "isRegistered c \<longleftrightarrow>
     c \<in> {kOcrEnhancementFailed, kLayoutBackendFallback, kTableBackendFallback}"
  by (auto simp: isRegistered_def kRegistry_def)

subsection \<open>Results of a stage: \<open>pipeline/stage_result.h\<close>\<close>

record 'a stage_result =
  sr_value :: 'a
  sr_status :: status
  sr_diagnostics :: "diagnostic list"

definition sr_ok :: "('a, 'b) stage_result_scheme \<Rightarrow> bool" where
  "sr_ok r \<longleftrightarrow> ok_status (sr_status r)"

end
