(* ===== verification/Fingerprint.thy ===== *)
theory Fingerprint
  imports Common
begin

unbundle bit_operations_syntax

text \<open>
  \<open>cpp/common/file_fingerprint.cpp\<close>: the incremental SHA-256 of the engine and the routine
  that fingerprints a source file with it. The digest object's fields are kept (eight chaining
  words, the 64-byte block, its fill, the 64-bit byte count) and its loops are the code's; the
  specification is the hash of the whole padded message. \<open>std::ifstream\<close> is a list of
  bytes delivered in reads of at most 64 KiB that ends in end-of-file or in a read error.
\<close>

type_synonym u8 = "8 word"
type_synonym u32 = "32 word"
type_synonym u64 = "64 word"

definition kRoundConstants :: "u32 list" where
  "kRoundConstants = [
    1116352408, 1899447441, 3049323471, 3921009573, 961987163, 1508970993, 2453635748, 2870763221,
    3624381080, 310598401, 607225278, 1426881987, 1925078388, 2162078206, 2614888103, 3248222580,
    3835390401, 4022224774, 264347078, 604807628, 770255983, 1249150122, 1555081692, 1996064986,
    2554220882, 2821834349, 2952996808, 3210313671, 3336571891, 3584528711, 113926993, 338241895,
    666307205, 773529912, 1294757372, 1396182291, 1695183700, 1986661051, 2177026350, 2456956037,
    2730485921, 2820302411, 3259730800, 3345764771, 3516065817, 3600352804, 4094571909, 275423344,
    430227734, 506948616, 659060556, 883997877, 958139571, 1322822218, 1537002063, 1747873779,
    1955562222, 2024104815, 2227730452, 2361852424, 2428436474, 2756734187, 3204031479, 3329325298]"

definition rotateRight :: "u32 \<Rightarrow> nat \<Rightarrow> u32" where
  "rotateRight value bits = drop_bit bits value OR push_bit (32 - bits) value"

record sha256 =
  sha_state :: "u32 list"
  sha_block :: "u8 list"
  sha_block_size :: nat
  sha_total_size :: u64

definition initial_state :: "u32 list" where
  "initial_state = [1779033703, 3144134277, 1013904242, 2773480762,
     1359893119, 2600822924, 528734635, 1541459225]"

definition sha256_init :: sha256 where
  "sha256_init = \<lparr>sha_state = initial_state, sha_block = replicate 64 0, sha_block_size = 0, sha_total_size = 0\<rparr>"

subsection \<open>\<open>Sha256::transform\<close>\<close>

definition load_word :: "u8 list \<Rightarrow> nat \<Rightarrow> u32" where
  "load_word block index =
     (let offset = index * 4 in
      push_bit 24 (ucast (block ! offset)) OR push_bit 16 (ucast (block ! (offset + 1))) OR
      push_bit 8 (ucast (block ! (offset + 2))) OR ucast (block ! (offset + 3)))"

definition extend_word :: "u32 list \<Rightarrow> nat \<Rightarrow> u32 list" where
  "extend_word words index =
     (let w15 = words ! (index - 15);
          w2 = words ! (index - 2);
          s0 = rotateRight w15 7 XOR rotateRight w15 18 XOR drop_bit 3 w15;
          s1 = rotateRight w2 17 XOR rotateRight w2 19 XOR drop_bit 10 w2
      in words @ [words ! (index - 16) + s0 + words ! (index - 7) + s1])"

definition message_schedule :: "u8 list \<Rightarrow> u32 list" where
  "message_schedule block = foldl extend_word (map (load_word block) [0..<16]) [16..<64]"

definition sha_round :: "u32 list \<Rightarrow> u32 list \<Rightarrow> nat \<Rightarrow> u32 list" where
  "sha_round words v index =
     (let a = v ! 0; b = v ! 1; c = v ! 2; d = v ! 3; e = v ! 4; f = v ! 5; g = v ! 6; h = v ! 7;
          sum1 = rotateRight e 6 XOR rotateRight e 11 XOR rotateRight e 25;
          chosen = (e AND f) XOR ((NOT e) AND g);
          first = h + sum1 + chosen + kRoundConstants ! index + words ! index;
          sum0 = rotateRight a 2 XOR rotateRight a 13 XOR rotateRight a 22;
          majority = (a AND b) XOR (a AND c) XOR (b AND c);
          second = sum0 + majority
      in [first + second, a, b, c, d + first, e, f, g])"

definition transform :: "u32 list \<Rightarrow> u8 list \<Rightarrow> u32 list" where
  "transform st block =
     (let words = message_schedule block
      in map2 (+) st (foldl (sha_round words) st [0..<64]))"

subsection \<open>\<open>Sha256::update\<close> and \<open>Sha256::finish\<close>\<close>

text \<open>\<open>std::copy_n(data, copied, sha_block.begin() + sha_block_size)\<close>.\<close>

definition overwrite :: "'a list \<Rightarrow> nat \<Rightarrow> 'a list \<Rightarrow> 'a list" where
  "overwrite block pos data = take pos block @ data @ drop (pos + length data) block"

definition update_step :: "sha256 \<Rightarrow> u8 list \<Rightarrow> sha256 \<times> u8 list" where
  "update_step s data =
     (let copied = min (length data) (64 - sha_block_size s);
          block = overwrite (sha_block s) (sha_block_size s) (take copied data);
          size = sha_block_size s + copied;
          s' = s\<lparr>sha_block := block, sha_block_size := size\<rparr>
      in (if size = 64 then s'\<lparr>sha_state := transform (sha_state s) block, sha_block_size := 0\<rparr> else s',
          drop copied data))"

text \<open>
  The loop of \<open>update\<close> runs until the data is used up. With a full block it would never
  advance, so the recursion carries fuel; \<open>update_loop_enough\<close> shows that the fuel below
  is always enough for a digest object in a state its operations can produce.
\<close>

fun update_loop :: "nat \<Rightarrow> sha256 \<Rightarrow> u8 list \<Rightarrow> sha256 option" where
  "update_loop 0 s data = None"
| "update_loop (Suc fuel) s data =
     (if data = [] then Some s
      else case update_step s data of (s', rest) \<Rightarrow> update_loop fuel s' rest)"

definition sha_update :: "sha256 \<Rightarrow> u8 list \<Rightarrow> sha256 option" where
  "sha_update s data =
     update_loop (Suc (length data)) (s\<lparr>sha_total_size := sha_total_size s + of_nat (length data)\<rparr>) data"

definition big_endian64 :: "u64 \<Rightarrow> u8 list" where
  "big_endian64 n = map (\<lambda>i. ucast (drop_bit ((7 - i) * 8) n)) [0..<8]"

definition hex_digit :: "nat \<Rightarrow> char" where
  "hex_digit d = (if d < 10 then char_of (48 + d) else char_of (87 + d))"

definition hex8 :: "u32 \<Rightarrow> string" where
  "hex8 w = map (\<lambda>i. hex_digit (unat (drop_bit ((7 - i) * 4) w) mod 16)) [0..<8]"

definition hex_state :: "u32 list \<Rightarrow> string" where
  "hex_state st = concat (map hex8 st)"

definition sha_finish :: "sha256 \<Rightarrow> string" where
  "sha_finish s =
     (let total_bits = sha_total_size s * 8;
          block = (sha_block s)[sha_block_size s := 0x80];
          size = sha_block_size s + 1;
          padded = (if size > 56
                    then (transform (sha_state s) (overwrite block size (replicate (64 - size) 0)), 0)
                    else (sha_state s, size));
          block' = (if size > 56 then overwrite block size (replicate (64 - size) 0) else block);
          filled = overwrite block' (snd padded) (replicate (56 - snd padded) 0);
          final = overwrite filled 56 (big_endian64 total_bits)
      in hex_state (transform (fst padded) final))"

subsection \<open>\<open>fingerprintFile\<close>\<close>

record input_stream =
  in_opened :: bool
  in_content :: "u8 list"
  in_read_error :: bool

record file_fingerprint =
  fp_size_bytes :: u64
  fp_sha256 :: string

definition empty_fingerprint :: file_fingerprint where
  "empty_fingerprint = \<lparr>fp_size_bytes = 0, fp_sha256 = []\<rparr>"

text \<open>
  One pass of the loop reads up to 64 KiB. A short read leaves the stream in a failed state
  (end of file or error), which ends the loop after its bytes were hashed.
\<close>

definition hash_chunk :: "sha256 \<times> u64 \<Rightarrow> u8 list \<Rightarrow> (sha256 \<times> u64) option" where
  "hash_chunk acc chunk =
     (if chunk = [] then Some acc
      else map_option (\<lambda>d. (d, snd acc + of_nat (length chunk))) (sha_update (fst acc) chunk))"

function read_loop :: "nat \<Rightarrow> sha256 \<times> u64 \<Rightarrow> u8 list \<Rightarrow> (sha256 \<times> u64) option" where
  "read_loop n acc bytes =
     (case hash_chunk acc (take (Suc n) bytes) of
        None \<Rightarrow> None
      | Some acc' \<Rightarrow>
          if length bytes < Suc n then Some acc' else read_loop n acc' (drop (Suc n) bytes))"
  by pat_completeness auto
termination
  by (relation "measure (\<lambda>(n, acc, bytes). length bytes)") auto

declare read_loop.simps [simp del]

definition kReadSize :: nat where
  "kReadSize = 64 * 1024"

definition fingerprintFile :: "string \<Rightarrow> input_stream \<Rightarrow> (status \<times> file_fingerprint) option" where
  "fingerprintFile path input =
     (if \<not> in_opened input then
        Some (status_error ''source.fingerprint_open_failed''
                (''failed to open source for fingerprinting: '' @ path) [] False, empty_fingerprint)
      else case read_loop (kReadSize - 1) (sha256_init, 0) (in_content input) of
          None \<Rightarrow> None
        | Some (digest, nbytes) \<Rightarrow>
            if in_read_error input then
              Some (status_error ''source.fingerprint_read_failed''
                (''failed while reading source for fingerprinting: '' @ path) [] False,
                empty_fingerprint)
            else Some (status_ok, \<lparr>fp_size_bytes = nbytes, fp_sha256 = sha_finish digest\<rparr>))"

subsection \<open>The specification: the hash of a padded message\<close>

function blocks64 :: "u8 list \<Rightarrow> u8 list list" where
  "blocks64 msg = (if length msg < 64 then [] else take 64 msg # blocks64 (drop 64 msg))"
  by pat_completeness auto
termination
  by (relation "measure length") auto

declare blocks64.simps [simp del]

definition pad_message :: "u8 list \<Rightarrow> u8 list" where
  "pad_message msg =
     (let r = length msg mod 64; z = (if r < 56 then 55 - r else 119 - r)
      in msg @ [0x80] @ replicate z 0 @ big_endian64 (of_nat (length msg) * 8))"

definition sha256_spec :: "u8 list \<Rightarrow> string" where
  "sha256_spec msg = hex_state (foldl transform initial_state (blocks64 (pad_message msg)))"

text \<open>
  What a digest object means: the bytes it has absorbed are some full blocks, already
  folded into the chaining words, followed by fewer than 64 bytes that wait in the block.
\<close>

definition buffered :: "sha256 \<Rightarrow> u8 list \<Rightarrow> bool" where
  "buffered s msg \<longleftrightarrow> (\<exists>b r. msg = b @ r \<and> length b mod 64 = 0 \<and> length r < 64 \<and>
     sha_state s = foldl transform initial_state (blocks64 b) \<and>
     length (sha_block s) = 64 \<and> sha_block_size s = length r \<and> take (length r) (sha_block s) = r)"

definition absorbed :: "sha256 \<Rightarrow> u8 list \<Rightarrow> bool" where
  "absorbed s msg \<longleftrightarrow> buffered s msg \<and> sha_total_size s = of_nat (length msg)"

lemma bufferedE:
  assumes "buffered s msg"
  obtains b r where "msg = b @ r" "length b mod 64 = 0" "length r < 64"
    "sha_state s = foldl transform initial_state (blocks64 b)" "length (sha_block s) = 64"
    "sha_block_size s = length r" "take (length r) (sha_block s) = r"
  using assms unfolding buffered_def by (elim exE conjE) (rule that)

lemma blocks64_short [simp]: "length m < 64 \<Longrightarrow> blocks64 m = []"
  by (subst blocks64.simps) simp

lemma blocks64_append: "length b mod 64 = 0 \<Longrightarrow> blocks64 (b @ m) = blocks64 b @ blocks64 m"
proof (induction "length b div 64" arbitrary: b)
  case 0
  then have "b = []" by (metis add_0 div_mult_mod_eq length_0_conv mult_0)
  then show ?case by simp
next
  case (Suc k)
  then have l: "64 \<le> length b" by (metis div_less le_less_linear nat.distinct(1))
  then have "k = length (drop 64 b) div 64" "length (drop 64 b) mod 64 = 0"
    using Suc(2,3) by (simp_all add: le_div_geq le_mod_geq)
  then have IH: "blocks64 (drop 64 b @ m) = blocks64 (drop 64 b) @ blocks64 m"
    by (rule Suc(1))
  have "blocks64 (b @ m) = take 64 (b @ m) # blocks64 (drop 64 (b @ m))"
    using l by (subst blocks64.simps) simp
  moreover have "blocks64 b = take 64 b # blocks64 (drop 64 b)"
    using l by (subst blocks64.simps) simp
  ultimately show ?case using l IH by simp
qed

lemma blocks64_one [simp]: "length b = 64 \<Longrightarrow> blocks64 b = [b]"
  by (subst blocks64.simps) simp

lemma blocks64_two: "length a = 64 \<Longrightarrow> length b = 64 \<Longrightarrow> blocks64 (a @ b) = [a, b]"
  by (simp add: blocks64_append)

lemma absorbed_init: "absorbed sha256_init []"
  by (auto simp: absorbed_def buffered_def sha256_init_def)

lemma length_overwrite [simp]:
  "pos + length data \<le> length block \<Longrightarrow> length (overwrite block pos data) = length block"
  by (simp add: overwrite_def)

lemma take_overwrite:
  "pos + length data \<le> length block \<Longrightarrow>
   take (pos + length data) (overwrite block pos data) = take pos block @ data"
  by (simp add: overwrite_def)

lemma update_step_buffered:
  assumes "buffered s msg" "data \<noteq> []" "update_step s data = (s', rest)"
  shows "\<exists>c. c \<noteq> [] \<and> data = c @ rest \<and> buffered s' (msg @ c) \<and> sha_total_size s' = sha_total_size s"
proof -
  from assms(1) obtain b r where br: "msg = b @ r" "length b mod 64 = 0" "length r < 64"
    "sha_state s = foldl transform initial_state (blocks64 b)" "length (sha_block s) = 64"
    "sha_block_size s = length r" "take (length r) (sha_block s) = r"
    by (rule bufferedE)
  define c where "c = take (min (length data) (64 - length r)) data"
  define B where "B = overwrite (sha_block s) (length r) c"
  have len: "length r + length c \<le> 64" using br(3) by (simp add: c_def)
  have B: "length B = 64" "take (length r + length c) B = r @ c"
    using len br(5,7) take_overwrite[of "length r" c "sha_block s"] by (simp_all add: B_def)
  have nonempty: "c \<noteq> []" using assms(2) br(3) by (simp add: c_def)
  have "rest = drop (min (length data) (64 - length r)) data"
    using assms(3) br(6) by (auto simp: update_step_def Let_def)
  then have data: "data = c @ rest" by (simp add: c_def)
  have size: "length c = min (length data) (64 - length r)" by (simp add: c_def)
  show ?thesis
  proof (cases "length r + length c = 64")
    case True
    then have "s' = s\<lparr>sha_block := B, sha_state := transform (sha_state s) B, sha_block_size := 0\<rparr>"
      using assms(3) br(6) size by (auto simp: update_step_def Let_def B_def c_def)
    moreover have rc: "B = r @ c" using B True by simp
    moreover have "blocks64 ((b @ r) @ c) = blocks64 b @ [r @ c]"
      using blocks64_append[OF br(2), of "r @ c"] True by simp
    ultimately have "buffered s' (msg @ c)"
      unfolding buffered_def using br True B
      by (intro exI[of _ "msg @ c"] exI[of _ "[]"]) (auto simp: mod_add_left_eq[symmetric])
    with nonempty data \<open>s' = _\<close> show ?thesis by auto
  next
    case False
    then have s': "s' = s\<lparr>sha_block := B, sha_block_size := length r + length c\<rparr>"
      using assms(3) br(6) size by (auto simp: update_step_def Let_def B_def c_def)
    have "buffered s' (msg @ c)"
      unfolding buffered_def s' using br False B len
      by (intro exI[of _ b] exI[of _ "r @ c"]) auto
    with nonempty data s' show ?thesis by auto
  qed
qed

lemma update_loop_buffered:
  assumes "buffered s msg" "length data < fuel"
  shows "\<exists>s'. update_loop fuel s data = Some s' \<and> buffered s' (msg @ data) \<and>
           sha_total_size s' = sha_total_size s"
  using assms
proof (induction fuel arbitrary: s data msg)
  case (Suc fuel)
  show ?case
  proof (cases "data = []")
    case True
    then show ?thesis using Suc.prems by simp
  next
    case False
    obtain s1 rest where st: "update_step s data = (s1, rest)" by fastforce
    from update_step_buffered[OF Suc.prems(1) False st] obtain c where
      c: "c \<noteq> []" "data = c @ rest" "buffered s1 (msg @ c)" "sha_total_size s1 = sha_total_size s"
      by blast
    then have "length rest < fuel" using Suc.prems(2) by (cases c) auto
    from Suc.IH[OF c(3) this] c(2,4) False st show ?thesis by auto
  qed
qed simp

lemma sha_update_absorbed:
  assumes "absorbed s msg"
  shows "\<exists>s'. sha_update s data = Some s' \<and> absorbed s' (msg @ data)"
proof -
  let ?s = "s\<lparr>sha_total_size := sha_total_size s + of_nat (length data)\<rparr>"
  have "buffered ?s msg" using assms by (simp add: absorbed_def buffered_def)
  from update_loop_buffered[OF this, of data "Suc (length data)"] assms show ?thesis
    by (auto simp: sha_update_def absorbed_def)
qed

lemma sha_finish_absorbed:
  assumes "absorbed s msg"
  shows "sha_finish s = sha256_spec msg"
proof -
  from assms have buf: "buffered s msg" and total: "sha_total_size s = of_nat (length msg)"
    by (simp_all add: absorbed_def)
  from buf obtain b r where br: "msg = b @ r" "length b mod 64 = 0" "length r < 64"
    "sha_state s = foldl transform initial_state (blocks64 b)" "length (sha_block s) = 64"
    "sha_block_size s = length r" "take (length r) (sha_block s) = r"
    by (rule bufferedE)
  have mod: "length msg mod 64 = length r"
    using br(1-3) by (simp add: mod_add_left_eq[symmetric])
  define bits where "bits = big_endian64 (of_nat (length msg) * 8)"
  have lb: "length bits = 8" by (simp add: bits_def big_endian64_def)
  define B where "B = (sha_block s)[length r := 0x80]"
  have B: "length B = 64" "take (length r + 1) B = r @ [0x80]"
    using br(3,5,7) by (simp_all add: B_def take_Suc_conv_app_nth)
  show ?thesis
  proof (cases "length r < 56")
    case True
    have f: "overwrite (overwrite B (length r + 1) (replicate (56 - (length r + 1)) 0)) 56 bits
        = r @ [0x80] @ replicate (55 - length r) 0 @ bits"
      using True B lb by (simp add: overwrite_def Suc_diff_le[of "length r" 55, simplified])
    have pm: "pad_message msg = msg @ [0x80] @ replicate (55 - length r) 0 @ bits"
      using True by (simp add: pad_message_def mod bits_def Let_def)
    have "blocks64 (pad_message msg)
        = blocks64 b @ [r @ [0x80] @ replicate (55 - length r) 0 @ bits]"
      unfolding pm unfolding br(1)
      using blocks64_append[OF br(2), of "r @ [0x80] @ replicate (55 - length r) 0 @ bits"] True lb
      by simp
    then show ?thesis
      using True f br(4,6) by (simp add: sha_finish_def sha256_spec_def Let_def total bits_def B_def)
  next
    case False
    have f1: "overwrite B (length r + 1) (replicate (64 - (length r + 1)) 0)
        = r @ [0x80] @ replicate (63 - length r) 0"
      using False B br(3) by (simp add: overwrite_def)
    have f2: "overwrite (overwrite (r @ [0x80] @ replicate (63 - length r) 0) 0 (replicate 56 0)) 56 bits
        = replicate 56 0 @ bits"
      using lb br(3) by (simp add: overwrite_def)
    have z: "replicate (119 - length r) (0::u8) = replicate (63 - length r) 0 @ replicate 56 0"
      using br(3) by (simp add: replicate_add[symmetric])
    have pm: "pad_message msg = msg @ [0x80] @ replicate (119 - length r) 0 @ bits"
      using False by (simp add: pad_message_def mod bits_def Let_def)
    have "blocks64 (pad_message msg) = blocks64 b @
        blocks64 ((r @ [0x80] @ replicate (63 - length r) 0) @ (replicate 56 0 @ bits))"
      unfolding pm unfolding br(1) z
      using blocks64_append[OF br(2),
          of "(r @ [0x80] @ replicate (63 - length r) 0) @ (replicate 56 0 @ bits)"] by simp
    also have "blocks64 ((r @ [0x80] @ replicate (63 - length r) 0) @ (replicate 56 0 @ bits))
        = [r @ [0x80] @ replicate (63 - length r) 0, replicate 56 0 @ bits]"
      using br(3) lb by (intro blocks64_two) simp_all
    finally show ?thesis
      using False f1 f2 br(4,6)
      by (simp add: sha_finish_def sha256_spec_def Let_def total bits_def B_def)
  qed
qed

lemma read_loop_absorbed:
  assumes "absorbed d msg" "z = of_nat (length msg)"
  shows "\<exists>d'. read_loop n (d, z) bytes = Some (d', of_nat (length (msg @ bytes))) \<and>
           absorbed d' (msg @ bytes)"
  using assms
proof (induction n "(d, z)" bytes arbitrary: d z msg rule: read_loop.induct)
  case (1 n bytes)
  let ?c = "take (Suc n) bytes"
  obtain d1 where d1: "hash_chunk (d, z) ?c = Some (d1, of_nat (length (msg @ ?c)))"
    "absorbed d1 (msg @ ?c)"
  proof (cases "bytes = []")
    case True
    then show ?thesis using that[of d] "1.prems" by (simp add: hash_chunk_def)
  next
    case False
    then show ?thesis
      using sha_update_absorbed[OF "1.prems"(1), of ?c] "1.prems"(2) that
      by (auto simp: hash_chunk_def)
  qed
  show ?case
  proof (cases "length bytes < Suc n")
    case True
    then show ?thesis using d1 by (subst read_loop.simps) simp
  next
    case False
    from "1.hyps"[OF d1(1) False d1(2) refl] False d1(1) show ?thesis
      by (subst read_loop.simps) (auto simp del: of_nat_add simp flip: of_nat_add)
  qed
qed

section \<open>Properties\<close>

text \<open>
  C8: whatever the input's length and however many reads it takes, the fingerprint of a
  source that could be read to its end is the SHA-256 of its bytes, padded as the standard
  says, together with its size; the digest's loops always finish.
\<close>

theorem fingerprintFile_correct:
  "fingerprintFile path \<lparr>in_opened = True, in_content = bytes, in_read_error = False\<rparr> =
     Some (status_ok, \<lparr>fp_size_bytes = of_nat (length bytes), fp_sha256 = sha256_spec bytes\<rparr>)"
  using read_loop_absorbed[OF absorbed_init, of 0 "kReadSize - 1" bytes]
  by (auto simp: fingerprintFile_def sha_finish_absorbed)

fun update_all :: "sha256 \<Rightarrow> u8 list list \<Rightarrow> sha256 option" where
  "update_all s [] = Some s"
| "update_all s (c # cs) = (case sha_update s c of None \<Rightarrow> None | Some s' \<Rightarrow> update_all s' cs)"

lemma update_all_absorbed:
  "absorbed s msg \<Longrightarrow> \<exists>s'. update_all s cs = Some s' \<and> absorbed s' (msg @ concat cs)"
proof (induction cs arbitrary: s msg)
  case (Cons c cs)
  from sha_update_absorbed[OF Cons.prems, of c] obtain s1 where
    "sha_update s c = Some s1" "absorbed s1 (msg @ c)" by blast
  with Cons.IH[of s1 "msg @ c"] show ?case by simp
qed simp

text \<open>
  hashing in pieces is hashing the concatenation: any two ways of cutting the same bytes
  into updates of a fresh digest give the same hex string.
\<close>

lemma sha_update_streaming:
  "map_option sha_finish (update_all sha256_init cs) = Some (sha256_spec (concat cs))"
  using update_all_absorbed[OF absorbed_init, of cs] by (auto simp: sha_finish_absorbed)

end
