(* ===== verification/Text_Normalizer.thy ===== *)
theory Text_Normalizer
  imports Common
begin

text \<open>
  \<open>cpp/document/text_normalizer.cpp\<close>: the state machine that turns the extractor's stream of
  glyphs and line breaks into lines of spans. The loop's local variables are the record
  \<open>normalizer\<close>; \<open>SpanAccumulator\<close>'s \<open>current_\<close> and \<open>has_span_\<close> are one optional
  span, and \<open>previous_glyph_bbox\<close> with \<open>has_previous_glyph\<close> one optional box, since the
  value is read only where the flag is set.
\<close>

datatype token_kind = Glyph | LineBreak

record text_token =
  tok_kind :: token_kind
  tok_text :: string
  tok_bbox :: bbox
  tok_source :: text_source
  tok_confidence :: double

definition blank_char :: "char \<Rightarrow> bool" where
  "blank_char c \<longleftrightarrow> c = CHR '' '' \<or> c = CHR 0x09"

definition isInlineWhitespace :: "text_token \<Rightarrow> bool" where
  "isInlineWhitespace token \<longleftrightarrow> tok_text token \<noteq> [] \<and> list_all blank_char (tok_text token)"

definition toSpan :: "text_token \<Rightarrow> text_span" where
  "toSpan token = \<lparr>span_text = tok_text token, span_bbox = tok_bbox token,
     span_source = tok_source token, span_confidence = tok_confidence token\<rparr>"

definition startLine :: "text_line list \<Rightarrow> text_span \<Rightarrow> text_line list" where
  "startLine lines spn = lines @ [\<lparr>line_text = span_text spn, line_bbox = span_bbox spn,
     line_source = span_source spn, line_confidence = span_confidence spn, line_spans = [spn]\<rparr>]"

text \<open>\<open>lines.back()\<close> modified in place; callers check that there is a last line.\<close>

definition update_back :: "(text_line \<Rightarrow> text_line) \<Rightarrow> text_line list \<Rightarrow> text_line list" where
  "update_back f lines = (if lines = [] then [] else butlast lines @ [f (last lines)])"

definition appendTextToLine :: "text_line list \<Rightarrow> string \<Rightarrow> bbox \<Rightarrow> text_line list" where
  "appendTextToLine lines t box =
     update_back (\<lambda>l. l\<lparr>line_text := line_text l @ t, line_bbox := expandBBox (line_bbox l) box\<rparr>) lines"

definition appendWhitespaceToLine :: "text_line list \<Rightarrow> string \<Rightarrow> text_line list" where
  "appendWhitespaceToLine lines t = update_back (\<lambda>l. l\<lparr>line_text := line_text l @ t\<rparr>) lines"

definition verticalOverlap :: "bbox \<Rightarrow> bbox \<Rightarrow> double" where
  "verticalOverlap lhs rhs = max 0 (min (by1 lhs) (by1 rhs) - max (by0 lhs) (by0 rhs))"

definition startsNewGeometricLine :: "bbox \<Rightarrow> bbox \<Rightarrow> bool" where
  "startsNewGeometricLine previous current =
     (let previous_height = bboxHeight previous;
          current_height = bboxHeight current;
          reference_height = max previous_height current_height;
          shorter_height = min previous_height current_height
      in if reference_height \<le> 0 \<or> shorter_height \<le> 0 then False
         else
           let overlap_ratio = verticalOverlap previous current / shorter_height;
               center_delta = \<bar>(by0 previous + by1 previous) * 0.5 - (by0 current + by1 current) * 0.5\<bar>
           in if overlap_ratio < 0.20 \<and> center_delta > reference_height * 0.80 then True
              else
                let forward_gap = bx0 current - bx1 previous;
                    backward_gap = bx0 previous - bx1 current
                in 0.50 \<le> overlap_ratio \<and>
                   (forward_gap > reference_height * 6 \<or> backward_gap > reference_height * 2))"

definition appendSpan :: "text_line list \<Rightarrow> text_span \<Rightarrow> text_line list" where
  "appendSpan lines spn =
     (if lines = [] then startLine lines spn
      else update_back (\<lambda>l. l\<lparr>line_bbox := expandBBox (line_bbox l) (span_bbox spn),
                              line_spans := line_spans l @ [spn]\<rparr>) lines)"

record normalizer =
  nz_lines :: "text_line list"
  nz_current :: "text_span option"
  nz_pending_new_line :: bool
  nz_previous_glyph :: "bbox option"

definition acc_add :: "text_span \<Rightarrow> normalizer \<Rightarrow> normalizer" where
  "acc_add spn st = st\<lparr>
     nz_lines := appendTextToLine (nz_lines st) (span_text spn) (span_bbox spn),
     nz_current := Some (case nz_current st of None \<Rightarrow> spn
       | Some c \<Rightarrow> c\<lparr>span_text := span_text c @ span_text spn,
                      span_bbox := expandBBox (span_bbox c) (span_bbox spn)\<rparr>)\<rparr>"

definition acc_flush :: "normalizer \<Rightarrow> normalizer" where
  "acc_flush st = (case nz_current st of None \<Rightarrow> st
     | Some c \<Rightarrow> st\<lparr>nz_lines := appendSpan (nz_lines st) c, nz_current := None\<rparr>)"

definition begin_line :: "text_span \<Rightarrow> normalizer \<Rightarrow> normalizer" where
  "begin_line spn st =
     (let st = acc_flush st in
      st\<lparr>nz_lines := update_back (\<lambda>l. l\<lparr>line_text := [], line_spans := []\<rparr>) (startLine (nz_lines st) spn),
         nz_pending_new_line := False\<rparr>)"

definition normalize_token :: "normalizer \<Rightarrow> text_token \<Rightarrow> normalizer" where
  "normalize_token st token =
     (if tok_kind token = LineBreak then
        (acc_flush st)\<lparr>nz_pending_new_line := True, nz_previous_glyph := None\<rparr>
      else if tok_text token = [] then st
      else
        let whitespace = isInlineWhitespace token in
        if whitespace \<and> (nz_lines st = [] \<or> nz_pending_new_line st) then st
        else
          let spn = toSpan token;
              breaks = (\<not> whitespace \<and> (case nz_previous_glyph st of None \<Rightarrow> False
                          | Some previous \<Rightarrow> startsNewGeometricLine previous (span_bbox spn)));
              st1 = (if breaks then (acc_flush st)\<lparr>nz_pending_new_line := True\<rparr> else st);
              st2 = (if nz_pending_new_line st1 \<or> nz_lines st1 = [] then begin_line spn st1 else st1)
          in if whitespace then
               let st3 = acc_flush st2
               in st3\<lparr>nz_lines := appendWhitespaceToLine (nz_lines st3) (span_text spn)\<rparr>
             else (acc_add spn st2)\<lparr>nz_previous_glyph := Some (span_bbox spn)\<rparr>)"

definition normalizer_init :: normalizer where
  "normalizer_init = \<lparr>nz_lines = [], nz_current = None, nz_pending_new_line = False,
     nz_previous_glyph = None\<rparr>"

definition findFirstTextLine :: "text_line list \<Rightarrow> text_line option" where
  "findFirstTextLine lines = find (\<lambda>l. line_spans l \<noteq> []) lines"

definition text_normalize :: "int \<Rightarrow> text_token list \<Rightarrow> page_text" where
  "text_normalize page_index tokens =
     (let lines = nz_lines (acc_flush (foldl normalize_token normalizer_init tokens));
          first_text_line = findFirstTextLine lines
      in empty_page_text\<lparr>pt_page_index := page_index, pt_page_number := page_index + 1,
           pt_lines := lines, pt_has_text := first_text_line \<noteq> None,
           pt_preferred_source := (case first_text_line of None \<Rightarrow> SourceUnknown
                                   | Some l \<Rightarrow> line_source l)\<rparr>)"

subsection \<open>The invariant of the loop\<close>

text \<open>
  A token is visible when it carries text that is not blank. \<open>line_ok l extra\<close>: the
  line's text is, up to blanks, the text of its spans followed by \<open>extra\<close> (the span still
  being accumulated), and its box contains their boxes.
\<close>

definition visible_token :: "text_token \<Rightarrow> bool" where
  "visible_token t \<longleftrightarrow> tok_kind t = Glyph \<and> tok_text t \<noteq> [] \<and> \<not> isInlineWhitespace t"

definition nonblank :: "string \<Rightarrow> string" where
  "nonblank s = filter (\<lambda>c. \<not> blank_char c) s"

definition spans_text :: "text_line \<Rightarrow> string" where
  "spans_text l = concat (map span_text (line_spans l))"

definition line_ok :: "text_line \<Rightarrow> string \<Rightarrow> bool" where
  "line_ok l extra \<longleftrightarrow> nonblank (line_text l) = nonblank (spans_text l @ extra) \<and>
     (\<forall>s\<in>set (line_spans l). bbox_le (span_bbox s) (line_bbox l))"

definition complete_line :: "text_line \<Rightarrow> bool" where
  "complete_line l \<longleftrightarrow> line_ok l [] \<and> line_spans l \<noteq> []"

definition current_text :: "normalizer \<Rightarrow> string" where
  "current_text st = (case nz_current st of None \<Rightarrow> [] | Some c \<Rightarrow> span_text c)"

text \<open>The open line: the last one, which the accumulated span will join.\<close>

definition open_line :: "text_line \<Rightarrow> text_span option \<Rightarrow> bool" where
  "open_line l cur \<longleftrightarrow>
     (case cur of None \<Rightarrow> complete_line l
      | Some c \<Rightarrow> line_ok l (span_text c) \<and> bbox_le (span_bbox c) (line_bbox l))"

definition norm_inv :: "normalizer \<Rightarrow> string \<Rightarrow> bool" where
  "norm_inv st seen \<longleftrightarrow>
     (if nz_lines st = [] then nz_current st = None \<and> seen = []
      else (\<forall>l\<in>set (butlast (nz_lines st)). complete_line l) \<and>
           open_line (last (nz_lines st)) (nz_current st) \<and>
           seen = concat (map spans_text (nz_lines st)) @ current_text st)"

lemma nonblank_append [simp]: "nonblank (a @ b) = nonblank a @ nonblank b"
  by (simp add: nonblank_def)

lemma nonblank_Nil [simp]: "nonblank [] = []"
  by (simp add: nonblank_def)

lemma nonblank_blank: "list_all blank_char s \<Longrightarrow> nonblank s = []"
  by (auto simp: nonblank_def list_all_iff filter_empty_conv)

lemma lines_snocE:
  obtains "lines = []" | ls l where "lines = ls @ [l]"
  by (cases lines rule: rev_cases) auto

lemma update_back_snoc [simp]: "update_back f (ls @ [l]) = ls @ [f l]"
  by (simp add: update_back_def)

lemma norm_inv_snoc:
  "nz_lines st = ls @ [l] \<Longrightarrow>
   norm_inv st seen \<longleftrightarrow> (\<forall>x\<in>set ls. complete_line x) \<and> open_line l (nz_current st) \<and>
     seen = concat (map spans_text ls) @ spans_text l @ current_text st"
  by (simp add: norm_inv_def)

lemma norm_inv_flush:
  assumes "norm_inv st seen"
  shows "norm_inv (acc_flush st) seen"
proof (cases "nz_current st")
  case None
  then show ?thesis using assms by (simp add: acc_flush_def)
next
  case (Some c)
  show ?thesis
  proof (cases "nz_lines st" rule: lines_snocE)
    case 1
    then show ?thesis using assms Some by (simp add: norm_inv_def)
  next
    case (2 ls l)
    let ?l = "l\<lparr>line_bbox := expandBBox (line_bbox l) (span_bbox c), line_spans := line_spans l @ [c]\<rparr>"
    have "complete_line ?l" using assms Some 2
      by (auto simp: norm_inv_snoc open_line_def complete_line_def line_ok_def spans_text_def
          intro: bbox_le_trans[OF _ expandBBox_upper(1)])
    moreover have "spans_text ?l = spans_text l @ span_text c" by (simp add: spans_text_def)
    ultimately show ?thesis using assms Some 2
      by (simp add: acc_flush_def appendSpan_def norm_inv_snoc[where ls = ls] open_line_def
          current_text_def)
  qed
qed

lemma flush_current [simp]: "nz_current (acc_flush st) = None"
  by (simp add: acc_flush_def split: option.split)

lemma flush_lines_Nil [simp]: "norm_inv st seen \<Longrightarrow> nz_lines (acc_flush st) = [] \<longleftrightarrow> nz_lines st = []"
  by (auto simp: acc_flush_def appendSpan_def startLine_def update_back_def norm_inv_def
      split: option.split)

lemma flush_pending [simp]: "nz_pending_new_line (acc_flush st) = nz_pending_new_line st"
  by (simp add: acc_flush_def split: option.split)

lemma norm_inv_complete:
  "norm_inv st seen \<Longrightarrow> nz_current st = None \<Longrightarrow>
   (\<forall>l\<in>set (nz_lines st). complete_line l) \<and> concat (map spans_text (nz_lines st)) = seen"
  by (cases "nz_lines st" rule: lines_snocE)
    (auto simp: norm_inv_def open_line_def current_text_def)

text \<open>Adding a visible glyph to the open line, and to a line begun for it.\<close>

lemma norm_inv_add:
  assumes "norm_inv st seen" "nz_lines st \<noteq> []"
  shows "norm_inv (acc_add spn st) (seen @ span_text spn)"
proof -
  obtain ls l where sn: "nz_lines st = ls @ [l]"
    using assms(2) by (cases "nz_lines st" rule: rev_cases) auto
  let ?l = "l\<lparr>line_text := line_text l @ span_text spn,
              line_bbox := expandBBox (line_bbox l) (span_bbox spn)\<rparr>"
  have lines: "nz_lines (acc_add spn st) = ls @ [?l]"
    using sn by (simp add: acc_add_def appendTextToLine_def)
  have up: "bbox_le b (line_bbox l) \<Longrightarrow> bbox_le b (line_bbox ?l)" for b
    by simp (blast intro: bbox_le_trans expandBBox_upper)
  have sp: "spans_text ?l = spans_text l" by (simp add: spans_text_def)
  show ?thesis
  proof (cases "nz_current st")
    case None
    then have "nz_current (acc_add spn st) = Some spn" by (simp add: acc_add_def)
    with None show ?thesis using assms sn up
      by (auto simp: norm_inv_snoc[OF lines] norm_inv_snoc[OF sn] open_line_def complete_line_def
          line_ok_def sp current_text_def)
  next
    case (Some c)
    then have "bbox_le (expandBBox (span_bbox c) (span_bbox spn)) (line_bbox ?l)"
      using assms sn up by (auto simp: norm_inv_snoc[OF sn] open_line_def intro: expandBBox_least)
    moreover have "nz_current (acc_add spn st) = Some (c\<lparr>span_text := span_text c @ span_text spn,
        span_bbox := expandBBox (span_bbox c) (span_bbox spn)\<rparr>)"
      using Some by (simp add: acc_add_def)
    ultimately show ?thesis using assms sn up Some
      by (auto simp: norm_inv_snoc[OF lines] norm_inv_snoc[OF sn] open_line_def
          line_ok_def sp current_text_def)
  qed
qed

lemma norm_inv_begin_add:
  assumes "norm_inv st seen"
  shows "norm_inv (acc_add spn (begin_line spn st)) (seen @ span_text spn)"
proof -
  let ?f = "acc_flush st"
  have inv: "norm_inv ?f seen" using assms by (rule norm_inv_flush)
  note comp = norm_inv_complete[OF inv flush_current]
  define l where "l = \<lparr>line_text = [], line_bbox = span_bbox spn, line_source = span_source spn,
      line_confidence = span_confidence spn, line_spans = []\<rparr>"
  have lines: "nz_lines (begin_line spn st) = nz_lines ?f @ [l]"
    by (simp add: begin_line_def Let_def startLine_def l_def)
  have cur: "nz_current (begin_line spn st) = None" by (simp add: begin_line_def Let_def)
  have lines': "nz_lines (acc_add spn (begin_line spn st)) = nz_lines ?f @
      [l\<lparr>line_text := span_text spn, line_bbox := expandBBox (span_bbox spn) (span_bbox spn)\<rparr>]"
    by (simp add: acc_add_def lines appendTextToLine_def l_def)
  have "nz_current (acc_add spn (begin_line spn st)) = Some spn" using cur by (simp add: acc_add_def)
  then show ?thesis
    using comp
    by (auto simp: norm_inv_snoc[OF lines'] open_line_def line_ok_def spans_text_def l_def
        current_text_def)
qed

lemma norm_inv_whitespace:
  assumes "norm_inv st seen" "nz_lines st \<noteq> []" "list_all blank_char t"
  shows "norm_inv ((acc_flush st)\<lparr>nz_lines := appendWhitespaceToLine (nz_lines (acc_flush st)) t\<rparr>) seen"
proof -
  have inv: "norm_inv (acc_flush st) seen" using assms(1) by (rule norm_inv_flush)
  have "nz_lines (acc_flush st) \<noteq> []" using assms by simp
  then obtain ls l where sn: "nz_lines (acc_flush st) = ls @ [l]"
    by (cases "nz_lines (acc_flush st)" rule: rev_cases) auto
  have "spans_text (l\<lparr>line_text := line_text l @ t\<rparr>) = spans_text l" by (simp add: spans_text_def)
  then show ?thesis using inv nonblank_blank[OF assms(3)]
    by (simp add: norm_inv_snoc[where ls = ls] sn appendWhitespaceToLine_def open_line_def
        complete_line_def line_ok_def current_text_def)
qed

lemma norm_inv_ignores [simp]:
  "norm_inv (st\<lparr>nz_pending_new_line := b\<rparr>) seen = norm_inv st seen"
  "norm_inv (st\<lparr>nz_previous_glyph := p\<rparr>) seen = norm_inv st seen"
  by (simp_all add: norm_inv_def current_text_def)

lemma normalize_token_inv:
  assumes "norm_inv st seen"
  shows "norm_inv (normalize_token st t) (seen @ (if visible_token t then tok_text t else []))"
proof (cases "tok_kind t = LineBreak \<or> tok_text t = []")
  case True
  then show ?thesis using assms norm_inv_flush[OF assms]
    by (auto simp: normalize_token_def visible_token_def)
next
  case False
  then have g: "tok_kind t = Glyph" "tok_text t \<noteq> []" by (auto intro: token_kind.exhaust)
  show ?thesis
  proof (cases "isInlineWhitespace t")
    case True
    then have "list_all blank_char (tok_text t)" by (simp add: isInlineWhitespace_def)
    with True g show ?thesis using assms norm_inv_whitespace[OF assms]
      by (auto simp: normalize_token_def visible_token_def Let_def toSpan_def)
  next
    case False
    let ?spn = "toSpan t"
    have st: "span_text ?spn = tok_text t" by (simp add: toSpan_def)
    have f: "norm_inv ((acc_flush st)\<lparr>nz_pending_new_line := True\<rparr>) seen"
      using norm_inv_flush[OF assms] by simp
    note add = norm_inv_add[of _ seen ?spn, unfolded st]
    note beg = norm_inv_begin_add[of _ seen ?spn, unfolded st]
    show ?thesis
      using False g assms f add[OF assms] beg[OF assms] beg[OF f]
      by (simp add: normalize_token_def visible_token_def Let_def split: if_split)
  qed
qed

lemma normalize_tokens_inv:
  "norm_inv st seen \<Longrightarrow>
   norm_inv (foldl normalize_token st ts) (seen @ concat (map tok_text (filter visible_token ts)))"
proof (induction ts arbitrary: st seen)
  case (Cons t ts)
  from Cons.IH[OF normalize_token_inv[OF Cons.prems, of t]] show ?case by (simp split: if_splits)
qed simp

lemma normalize_lines:
  fixes tokens i
  defines "lines \<equiv> pt_lines (text_normalize i tokens)"
  shows "(\<forall>l\<in>set lines. complete_line l) \<and>
    concat (map spans_text lines) = concat (map tok_text (filter visible_token tokens))"
proof -
  have "norm_inv normalizer_init []" by (simp add: norm_inv_def normalizer_init_def)
  from norm_inv_flush[OF normalize_tokens_inv[OF this, of tokens]]
  show ?thesis
    unfolding lines_def using norm_inv_complete by (simp add: text_normalize_def Let_def)
qed

section \<open>Properties\<close>

text \<open>
  C9: normalizing loses, repeats and reorders nothing: reading the spans of all lines in order
  gives exactly the text of the visible glyphs in stream order, and \<open>has_text\<close> says whether
  there was one.
\<close>

theorem normalize_preserves_text:
  "concat (map (\<lambda>l. concat (map span_text (line_spans l))) (pt_lines (text_normalize i tokens)))
     = concat (map tok_text (filter visible_token tokens)) \<and>
   (pt_has_text (text_normalize i tokens) \<longleftrightarrow> (\<exists>t\<in>set tokens. visible_token t))"
proof -
  let ?lines = "pt_lines (text_normalize i tokens)"
  note nl = normalize_lines[of i tokens]
  have eq: "concat (map spans_text ?lines) = concat (map tok_text (filter visible_token tokens))"
    using nl by blast
  have "pt_has_text (text_normalize i tokens) \<longleftrightarrow> ?lines \<noteq> []"
    using nl by (cases "?lines")
      (auto simp: text_normalize_def Let_def findFirstTextLine_def complete_line_def find_None_iff)
  moreover have "?lines \<noteq> [] \<longleftrightarrow> (\<exists>t\<in>set tokens. visible_token t)"
  proof
    assume "\<exists>t\<in>set tokens. visible_token t"
    then have "concat (map tok_text (filter visible_token tokens)) \<noteq> []"
      by (auto simp: visible_token_def)
    with eq show "?lines \<noteq> []" by (metis concat.simps(1) list.map(1))
  next
    assume ne: "?lines \<noteq> []"
    show "\<exists>t\<in>set tokens. visible_token t"
    proof (rule ccontr)
      assume "\<not> ?thesis"
      then have none: "\<forall>t\<in>set tokens. \<not> visible_token t" by blast
      have step: "\<not> visible_token t \<Longrightarrow> nz_lines st = [] \<Longrightarrow> nz_current st = None \<Longrightarrow>
          nz_lines (normalize_token st t) = [] \<and> nz_current (normalize_token st t) = None" for t st
        by (cases "tok_kind t")
          (auto simp: normalize_token_def visible_token_def acc_flush_def Let_def)
      have "nz_lines st = [] \<Longrightarrow> nz_current st = None \<Longrightarrow>
          nz_lines (foldl normalize_token st tokens) = [] \<and>
          nz_current (foldl normalize_token st tokens) = None" for st
        using none by (induction tokens arbitrary: st) (auto simp: step)
      from this[of normalizer_init] have "?lines = []"
        by (simp add: text_normalize_def Let_def acc_flush_def normalizer_init_def)
      with ne show False by contradiction
    qed
  qed
  ultimately show ?thesis using eq by (simp add: spans_text_def[abs_def])
qed

text \<open>
  every line of the result has a span, its text is that of its spans up to blanks, and its
  box contains the boxes of all of them.
\<close>

lemma normalize_line_wellformed:
  "\<forall>l\<in>set (pt_lines (text_normalize i tokens)).
     line_spans l \<noteq> [] \<and> nonblank (line_text l) = nonblank (concat (map span_text (line_spans l))) \<and>
     (\<forall>s\<in>set (line_spans l). bbox_le (span_bbox s) (line_bbox l))"
  using normalize_lines[of i tokens]
  by (auto simp: complete_line_def line_ok_def spans_text_def)

lemma normalize_line_wellformed_witness:
  "length (pt_lines (text_normalize 0
     [\<lparr>tok_kind = Glyph, tok_text = ''a'', tok_bbox = empty_bbox, tok_source = PdfTextLayer,
       tok_confidence = 1\<rparr>])) = 1 \<and>
   line_spans (pt_lines (text_normalize 0
     [\<lparr>tok_kind = Glyph, tok_text = ''a'', tok_bbox = empty_bbox, tok_source = PdfTextLayer,
       tok_confidence = 1\<rparr>]) ! 0) \<noteq> []"
proof -
  let ?t = "\<lparr>tok_kind = Glyph, tok_text = ''a'', tok_bbox = empty_bbox, tok_source = PdfTextLayer,
       tok_confidence = 1\<rparr> :: text_token"
  have "length (pt_lines (text_normalize 0 [?t])) = 1"
    by (simp add: text_normalize_def Let_def normalize_token_def normalizer_init_def isInlineWhitespace_def
        blank_char_def toSpan_def begin_line_def acc_flush_def startLine_def acc_add_def
        appendTextToLine_def update_back_def appendSpan_def)
  moreover from this have "pt_lines (text_normalize 0 [?t]) ! 0 \<in> set (pt_lines (text_normalize 0 [?t]))"
    by (intro nth_mem) simp
  ultimately show ?thesis using normalize_line_wellformed[of 0 "[?t]"] by blast
qed

end
