(* ===== verification/Page_Rotation.thy ===== *)
theory Page_Rotation
  imports Common
begin

text \<open>
  \<open>cpp/document/page_rotation.cpp\<close>: page corrections by 0, 90, 180 or 270 degrees, and the
  routine that maps every coordinate of an assembled document back to the source pages. The
  constructor and the mapping throw \<open>std::invalid_argument\<close>, which is the left of a sum.
\<close>

record page_rotation =
  rot_width :: int
  rot_height :: int
  rot_degrees :: int

definition rotate_box :: "bbox \<Rightarrow> int \<Rightarrow> int \<Rightarrow> int \<Rightarrow> bbox" where
  "rotate_box box width height degrees =
     (if degrees = 90 then
        \<lparr>bx0 = height - by1 box, by0 = bx0 box, bx1 = height - by0 box, by1 = bx1 box\<rparr>
      else if degrees = 180 then
        \<lparr>bx0 = width - bx1 box, by0 = height - by1 box, bx1 = width - bx0 box, by1 = height - by0 box\<rparr>
      else if degrees = 270 then
        \<lparr>bx0 = by0 box, by0 = width - bx1 box, bx1 = by1 box, by1 = width - bx0 box\<rparr>
      else box)"

definition make_rotation :: "int \<Rightarrow> int \<Rightarrow> int \<Rightarrow> string + page_rotation" where
  "make_rotation source_width source_height clockwise_degrees =
     (if clockwise_degrees \<noteq> 0 \<and> clockwise_degrees \<noteq> 90 \<and> clockwise_degrees \<noteq> 180 \<and>
         clockwise_degrees \<noteq> 270
      then Inl ''page correction must be 0, 90, 180 or 270 degrees''
      else if clockwise_degrees \<noteq> 0 \<and> (source_width \<le> 0 \<or> source_height \<le> 0)
      then Inl ''rotated page dimensions must be positive''
      else Inr \<lparr>rot_width = source_width, rot_height = source_height, rot_degrees = clockwise_degrees\<rparr>)"

text \<open>\<open>degrees_ % 180\<close>: the constructor leaves only non-negative degrees, where C++'s \<open>%\<close> is \<open>mod\<close>.\<close>

definition workingWidth :: "page_rotation \<Rightarrow> int" where
  "workingWidth r = (if rot_degrees r mod 180 = 0 then rot_width r else rot_height r)"

definition workingHeight :: "page_rotation \<Rightarrow> int" where
  "workingHeight r = (if rot_degrees r mod 180 = 0 then rot_height r else rot_width r)"

definition toWorking :: "page_rotation \<Rightarrow> bbox \<Rightarrow> bbox" where
  "toWorking r box = rotate_box box (rot_width r) (rot_height r) (rot_degrees r)"

definition toSource :: "page_rotation \<Rightarrow> bbox \<Rightarrow> bbox" where
  "toSource r box = rotate_box box (workingWidth r) (workingHeight r) ((360 - rot_degrees r) mod 360)"

definition map_line_boxes :: "(bbox \<Rightarrow> bbox) \<Rightarrow> text_line \<Rightarrow> text_line" where
  "map_line_boxes f l = l\<lparr>line_bbox := f (line_bbox l),
     line_spans := map (\<lambda>s. s\<lparr>span_bbox := f (span_bbox s)\<rparr>) (line_spans l)\<rparr>"

definition textToWorking :: "page_rotation \<Rightarrow> page_text \<Rightarrow> page_text" where
  "textToWorking r t = t\<lparr>pt_lines := map (map_line_boxes (toWorking r)) (pt_lines t)\<rparr>"

type_synonym rotations_by_page = "string \<rightharpoonup> page_rotation"

definition restoreRefs :: "rotations_by_page \<Rightarrow> source_reference list \<Rightarrow> source_reference list" where
  "restoreRefs rots refs = map (\<lambda>ref. case rots (ref_page_id ref) of None \<Rightarrow> ref
     | Some r \<Rightarrow> ref\<lparr>ref_bbox := toSource r (ref_bbox ref)\<rparr>) refs"

definition restoreRows :: "page_rotation \<Rightarrow> rotations_by_page \<Rightarrow> table_row list \<Rightarrow> table_row list" where
  "restoreRows r rots rows = map (\<lambda>row. row\<lparr>row_bbox := toSource r (row_bbox row),
     row_cells := map (\<lambda>c. c\<lparr>cell_bbox := toSource r (cell_bbox c),
                             cell_source_refs := restoreRefs rots (cell_source_refs c)\<rparr>)
                      (row_cells row)\<rparr>) rows"

definition restore_table :: "page_rotation \<Rightarrow> rotations_by_page \<Rightarrow> table \<Rightarrow> table" where
  "restore_table r rots t = t\<lparr>tb_bbox := toSource r (tb_bbox t),
     tb_columns := map (\<lambda>c. c\<lparr>col_bbox := toSource r (col_bbox c)\<rparr>) (tb_columns t),
     tb_structure_objects := map (\<lambda>ob. ob\<lparr>obj_bbox := toSource r (obj_bbox ob)\<rparr>) (tb_structure_objects t),
     tb_rows := restoreRows r rots (tb_rows t)\<rparr>"

definition restore_page :: "page_rotation \<Rightarrow> rotations_by_page \<Rightarrow> page_artifacts \<Rightarrow> page_artifacts" where
  "restore_page r rots p = p\<lparr>
     ppa_image := (ppa_image p)\<lparr>pa_width := rot_width r, pa_height := rot_height r\<rparr>,
     ppa_text := (ppa_text p)\<lparr>pt_lines := map (map_line_boxes (toSource r)) (pt_lines (ppa_text p))\<rparr>,
     ppa_layout := (ppa_layout p)\<lparr>pl_blocks :=
       map (\<lambda>b. b\<lparr>lb_bbox := toSource r (lb_bbox b)\<rparr>) (pl_blocks (ppa_layout p))\<rparr>,
     ppa_tables := (ppa_tables p)\<lparr>pg_tables := map (restore_table r rots) (pg_tables (ppa_tables p))\<rparr>\<rparr>"

definition restore_block :: "rotations_by_page \<Rightarrow> document_block \<Rightarrow> document_block" where
  "restore_block rots b =
     (let b' = (case rots (db_page_id b) of None \<Rightarrow> b
                | Some r \<Rightarrow> b\<lparr>db_bbox := toSource r (db_bbox b),
                              db_table_rows := restoreRows r rots (db_table_rows b)\<rparr>)
      in b'\<lparr>db_source_refs := restoreRefs rots (db_source_refs b')\<rparr>)"

definition restoreSourceCoordinates ::
  "parsed_document \<Rightarrow> pipeline_artifacts \<Rightarrow> page_rotation list \<Rightarrow>
   string + parsed_document \<times> pipeline_artifacts" where
  "restoreSourceCoordinates doc artifacts rotations =
     (if length rotations \<noteq> length artifacts \<or> length rotations \<noteq> length (pd_pages doc)
      then Inl ''page rotation count does not match assembled pages''
      else if list_all (\<lambda>r. rot_degrees r = 0) rotations then Inr (doc, artifacts)
      else
        let by_page = fold (\<lambda>(p, r) m. emplace m (dp_id p) r) (zip (pd_pages doc) rotations) Map.empty
        in Inr (doc\<lparr>pd_pages := map2 (\<lambda>p r. p\<lparr>dp_width := real_of_int (rot_width r),
                                                dp_height := real_of_int (rot_height r)\<rparr>)
                                    (pd_pages doc) rotations,
                    pd_blocks := map (restore_block by_page) (pd_blocks doc)\<rparr>,
                map2 (\<lambda>p r. restore_page r by_page p) artifacts rotations))"

subsection \<open>The two mappings are inverse\<close>

definition rotation_ok :: "page_rotation \<Rightarrow> bool" where
  "rotation_ok r \<longleftrightarrow> rot_degrees r \<in> {0, 90, 180, 270}"

lemma make_rotation_ok: "make_rotation w h d = Inr r \<Longrightarrow> rotation_ok r"
  by (auto simp: make_rotation_def rotation_ok_def split: if_splits)

lemmas rotation_defs = toWorking_def toSource_def rotate_box_def workingWidth_def workingHeight_def

lemma toSource_toWorking: "rotation_ok r \<Longrightarrow> toSource r (toWorking r b) = b"
  by (auto simp: rotation_ok_def rotation_defs)

lemma toWorking_toSource: "rotation_ok r \<Longrightarrow> toWorking r (toSource r b) = b"
  by (auto simp: rotation_ok_def rotation_defs)

lemma toSource_zero: "rot_degrees r = 0 \<Longrightarrow> toSource r b = b"
  by (simp add: rotation_defs)

lemma map_line_boxes_inv:
  "(\<And>b. f (g b) = b) \<Longrightarrow> map_line_boxes f (map_line_boxes g l) = l"
  by (simp add: map_line_boxes_def comp_def)

definition inside_page :: "bbox \<Rightarrow> int \<Rightarrow> int \<Rightarrow> bool" where
  "inside_page b w h \<longleftrightarrow> 0 \<le> bx0 b \<and> bx0 b \<le> bx1 b \<and> bx1 b \<le> w \<and> 0 \<le> by0 b \<and> by0 b \<le> by1 b \<and> by1 b \<le> h"

lemma toWorking_inside:
  "rotation_ok r \<Longrightarrow>
   inside_page (toWorking r b) (workingWidth r) (workingHeight r) \<longleftrightarrow>
   inside_page b (rot_width r) (rot_height r)"
  by (auto simp: rotation_ok_def rotation_defs inside_page_def)

text \<open>The lookup table of \<open>restoreSourceCoordinates\<close> under distinct page ids.\<close>

lemma by_page_other:
  "pid \<notin> set (map dp_id ps) \<Longrightarrow>
   fold (\<lambda>(p, r) m. emplace m (dp_id p) r) (zip ps rs) m pid = m pid"
proof (induction ps arbitrary: rs m)
  case (Cons p ps)
  then show ?case by (cases rs) (auto simp: emplace_def split: option.split)
qed simp

lemma by_page_lookup:
  "distinct (map dp_id ps) \<Longrightarrow> length ps = length rs \<Longrightarrow> i < length ps \<Longrightarrow>
   (\<forall>p\<in>set ps. m (dp_id p) = None) \<Longrightarrow>
   fold (\<lambda>(p, r) m. emplace m (dp_id p) r) (zip ps rs) m (dp_id (ps ! i)) = Some (rs ! i)"
proof (induction ps arbitrary: rs m i)
  case (Cons p ps)
  then obtain r rs' where rs: "rs = r # rs'" by (cases rs) auto
  have none: "\<forall>q\<in>set ps. (emplace m (dp_id p) r) (dp_id q) = None"
    using Cons.prems by (auto simp: emplace_def dest: sym[of "dp_id _" "dp_id _"] split: option.split)
  show ?case
  proof (cases i)
    case 0
    moreover have "(emplace m (dp_id p) r) (dp_id p) = Some r"
      using Cons.prems by (simp add: emplace_def)
    ultimately show ?thesis using Cons.prems rs by (simp add: by_page_other[unfolded set_map])
  next
    case (Suc j)
    then show ?thesis using Cons.prems rs Cons.IH[of rs' j, OF _ _ _ none] by simp
  qed
qed simp

section \<open>Properties\<close>

text \<open>
  C10: for every rotation the constructor accepts, mapping to the corrected page and back is
  the identity in both directions, and a box lies on the source page exactly when its image lies
  on the corrected page.
\<close>

theorem rotation_roundtrip:
  assumes "make_rotation w h d = Inr r"
  shows "toSource r (toWorking r b) = b \<and> toWorking r (toSource r b) = b \<and>
    (inside_page (toWorking r b) (workingWidth r) (workingHeight r) \<longleftrightarrow> inside_page b w h)"
proof -
  have "rot_width r = w" "rot_height r = h"
    using assms by (auto simp: make_rotation_def split: if_splits)
  with make_rotation_ok[OF assms] show ?thesis
    by (simp add: toSource_toWorking toWorking_toSource toWorking_inside)
qed

theorem rotation_roundtrip_witness:
  "\<exists>r. make_rotation 600 800 90 = Inr r \<and>
     toSource r (toWorking r \<lparr>bx0 = 10, by0 = 20, bx1 = 30, by1 = 50\<rparr>)
       = \<lparr>bx0 = 10, by0 = 20, bx1 = 30, by1 = 50\<rparr>"
proof -
  have m: "make_rotation 600 800 90 = Inr \<lparr>rot_width = 600, rot_height = 800, rot_degrees = 90\<rparr>"
    by (simp add: make_rotation_def)
  show ?thesis using rotation_roundtrip[OF m] m by blast
qed

text \<open>
  restoring coordinates undoes the correction on every page: if page \<open>i\<close> was rotated
  and its text and layout were mapped to the corrected page, the result has the page's original
  text, layout and size again, and every document block of that page has its box mapped by
  that page's rotation.
\<close>

lemma restoreSourceCoordinates_page:
  assumes "length rotations = length artifacts" "length rotations = length (pd_pages doc)"
    and "\<forall>r\<in>set rotations. rotation_ok r" "r0 \<in> set rotations" "rot_degrees r0 \<noteq> 0"
    and "distinct (map dp_id (pd_pages doc))" "i < length artifacts"
    and "ppa_text (artifacts ! i) = textToWorking (rotations ! i) source_text"
    and "pl_blocks (ppa_layout (artifacts ! i))
      = map (\<lambda>b. b\<lparr>lb_bbox := toWorking (rotations ! i) (lb_bbox b)\<rparr>) source_blocks"
  shows "\<exists>doc' arts'. restoreSourceCoordinates doc artifacts rotations = Inr (doc', arts') \<and>
    ppa_text (arts' ! i) = source_text \<and> pl_blocks (ppa_layout (arts' ! i)) = source_blocks \<and>
    dp_width (pd_pages doc' ! i) = rot_width (rotations ! i) \<and>
    (\<forall>j < length (pd_blocks doc). db_page_id (pd_blocks doc ! j) = dp_id (pd_pages doc ! i) \<longrightarrow>
       db_bbox (pd_blocks doc' ! j) = toSource (rotations ! i) (db_bbox (pd_blocks doc ! j)))"
proof -
  let ?r = "rotations ! i"
  define by_page where
    "by_page = fold (\<lambda>(p, r) m. emplace m (dp_id p) r) (zip (pd_pages doc) rotations) Map.empty"
  have ok: "rotation_ok ?r" using assms(1,3,7) by simp
  have nz: "\<not> list_all (\<lambda>r. rot_degrees r = 0) rotations"
    using assms(4,5) by (auto simp: list_all_iff)
  have look: "by_page (dp_id (pd_pages doc ! i)) = Some ?r"
    unfolding by_page_def using assms by (intro by_page_lookup) auto
  define arts' where "arts' = map2 (\<lambda>p r. restore_page r by_page p) artifacts rotations"
  define doc' where "doc' = doc\<lparr>pd_pages := map2 (\<lambda>p r. p\<lparr>dp_width := real_of_int (rot_width r),
        dp_height := real_of_int (rot_height r)\<rparr>) (pd_pages doc) rotations,
      pd_blocks := map (restore_block by_page) (pd_blocks doc)\<rparr>"
  have res: "restoreSourceCoordinates doc artifacts rotations = Inr (doc', arts')"
    using assms(1,2) nz
    by (simp add: restoreSourceCoordinates_def by_page_def doc'_def arts'_def Let_def)
  have page: "arts' ! i = restore_page ?r by_page (artifacts ! i)"
    using assms(1,7) by (simp add: arts'_def)
  have lines: "map_line_boxes (toSource ?r) (map_line_boxes (toWorking ?r) l) = l" for l
    by (intro map_line_boxes_inv toSource_toWorking ok)
  have t: "ppa_text (arts' ! i) = source_text"
    unfolding page by (simp add: restore_page_def assms(8) textToWorking_def comp_def lines)
  have l: "pl_blocks (ppa_layout (arts' ! i)) = source_blocks"
    unfolding page by (simp add: restore_page_def assms(9) comp_def toSource_toWorking[OF ok])
  have w: "dp_width (pd_pages doc' ! i) = rot_width ?r"
    using assms(1,2,7) by (simp add: doc'_def)
  have "db_bbox (pd_blocks doc' ! j) = toSource ?r (db_bbox (pd_blocks doc ! j))"
    if "j < length (pd_blocks doc)" "db_page_id (pd_blocks doc ! j) = dp_id (pd_pages doc ! i)" for j
    using that look by (simp add: restore_block_def Let_def doc'_def)
  with res t l w show ?thesis by blast
qed

definition sample_page :: page_artifacts where
  "sample_page = \<lparr>ppa_page_index = 0, ppa_page_number = 1,
     ppa_image = \<lparr>pa_page_index = 0, pa_page_number = 1, pa_relative_image = [], pa_output_path = [],
       pa_width = 200, pa_height = 100, pa_debug_images = []\<rparr>,
     ppa_text = empty_page_text, ppa_layout = \<lparr>pl_page_index = 0, pl_page_number = 1, pl_blocks = []\<rparr>,
     ppa_reading_order = empty_reading_order,
     ppa_tables = \<lparr>pg_page_index = 0, pg_page_number = 1, pg_tables = []\<rparr>\<rparr>"

definition sample_document :: parsed_document where
  "sample_document = \<lparr>pd_source = \<lparr>src_path = [], src_type = [], src_filename = [], src_media_type = [],
       src_size_bytes = None, src_sha256 = []\<rparr>, pd_dpi = 200, pd_blocks = [], pd_document_id = [],
     pd_status = Complete, pd_producer = \<lparr>prod_name = [], prod_version = [], prod_git_revision = [],
       prod_run_id = []\<rparr>,
     pd_pages = [\<lparr>dp_id = ''page_1'', dp_number = 1, dp_width = 200, dp_height = 100, dp_image_id = [],
       dp_image_uri = [], dp_image_media_type = []\<rparr>], pd_relations = [], pd_warnings = []\<rparr>"

lemma restoreSourceCoordinates_page_witness:
  "\<exists>doc' arts'. restoreSourceCoordinates sample_document [sample_page]
       [\<lparr>rot_width = 100, rot_height = 200, rot_degrees = 90\<rparr>] = Inr (doc', arts') \<and>
     dp_width (pd_pages doc' ! 0) = 100"
  using restoreSourceCoordinates_page[of "[\<lparr>rot_width = 100, rot_height = 200, rot_degrees = 90\<rparr>]"
      "[sample_page]" sample_document "\<lparr>rot_width = 100, rot_height = 200, rot_degrees = 90\<rparr>" 0
      empty_page_text "[]"]
  by (auto simp: sample_page_def sample_document_def rotation_ok_def textToWorking_def
      empty_page_text_def)

end
