(* ===== verification/Warning_Aggregator.thy ===== *)
theory Warning_Aggregator
  imports Common
begin

text \<open>
  \<open>cpp/document/warning_aggregator.cpp\<close>: repeated warnings are folded into one per identity,
  with their occurrences added (saturating at the 64-bit maximum) and their pages collected in
  order of first appearance.
\<close>

type_synonym warning_identity =
  "string \<times> string \<times> string \<times> string \<times> (string \<times> string) list"

definition identity :: "document_warning \<Rightarrow> warning_identity" where
  "identity w = (dw_code w, dw_message w, dw_stage w, dw_block_id w, dw_details w)"

definition appendPage :: "string list \<Rightarrow> string \<Rightarrow> string list" where
  "appendPage page_ids page_id =
     (if page_id \<noteq> [] \<and> page_id \<notin> set page_ids then page_ids @ [page_id] else page_ids)"

definition appendPages :: "string list \<Rightarrow> document_warning \<Rightarrow> string list" where
  "appendPages page_ids w = foldl appendPage (appendPage page_ids (dw_page_id w)) (dw_page_ids w)"

definition saturatedAdd :: "64 word \<Rightarrow> 64 word \<Rightarrow> 64 word" where
  "saturatedAdd left right =
     (let maximum = - 1 in if maximum - left < right then maximum else left + right)"

text \<open>The loop's state: the result so far and the index of each identity in it.\<close>

type_synonym aggregation = "document_warning list \<times> (warning_identity \<rightharpoonup> nat)"

definition aggregate_step :: "aggregation \<Rightarrow> document_warning \<Rightarrow> aggregation" where
  "aggregate_step acc w =
     (case acc of (aggregated, indices) \<Rightarrow>
        case indices (identity w) of
          None \<Rightarrow>
            let value = w\<lparr>dw_page_id := [], dw_page_ids := appendPages [] w\<rparr>
            in (aggregated @ [value], emplace indices (identity w) (length aggregated))
        | Some i \<Rightarrow>
            (upd_at aggregated i (\<lambda>v. v\<lparr>dw_occurrence_count :=
                 saturatedAdd (dw_occurrence_count v) (dw_occurrence_count w),
               dw_page_ids := appendPages (dw_page_ids v) w\<rparr>), indices))"

definition collapse_page :: "document_warning \<Rightarrow> document_warning" where
  "collapse_page w =
     (if length (dw_page_ids w) = 1 then w\<lparr>dw_page_id := hd (dw_page_ids w), dw_page_ids := []\<rparr> else w)"

definition aggregateWarnings :: "document_warning list \<Rightarrow> document_warning list" where
  "aggregateWarnings warnings =
     map collapse_page (fst (foldl aggregate_step ([], Map.empty) warnings))"

subsection \<open>Reference: totals and pages per identity\<close>

definition occurrences :: "warning_identity \<Rightarrow> document_warning list \<Rightarrow> nat" where
  "occurrences k ws = (\<Sum>w\<leftarrow>filter (\<lambda>w. identity w = k) ws. unat (dw_occurrence_count w))"

definition warning_pages :: "document_warning \<Rightarrow> string list" where
  "warning_pages w = filter (\<lambda>p. p \<noteq> []) (dw_page_id w # dw_page_ids w)"

definition pages_of :: "warning_identity \<Rightarrow> document_warning list \<Rightarrow> string set" where
  "pages_of k ws = (\<Union>w\<in>{w \<in> set ws. identity w = k}. set (warning_pages w))"

lemma unat_max64: "unat (- 1 :: 64 word) = 2 ^ 64 - 1"
  by (simp add: unsigned_minus_1_eq_mask mask_eq_exp_minus_1)

lemma unat_lt2p64: "unat (a :: 64 word) < 2 ^ 64"
proof -
  have "unat a < 2 ^ LENGTH(64)" by (rule unsigned_less)
  then show ?thesis by simp
qed

lemma unat_less64: "unat (a :: 64 word) \<le> 2 ^ 64 - 1"
  using unat_lt2p64[of a] by simp

lemma saturatedAdd_unat:
  "unat (saturatedAdd a b) = min (2 ^ 64 - 1) (unat a + unat b)"
proof -
  have m: "unat (- 1 - a) = 2 ^ 64 - 1 - unat a"
    by (subst unat_sub) (simp_all add: unat_max64)
  show ?thesis
  proof (cases "- 1 - a < b")
    case True
    then show ?thesis using m
      by (simp add: saturatedAdd_def word_less_nat_alt unat_max64)
  next
    case False
    then have "unat a + unat b \<le> 2 ^ 64 - 1"
      using m unat_less64[of a] by (simp add: word_less_nat_alt not_less)
    with False show ?thesis by (simp add: saturatedAdd_def unat_word_ariths)
  qed
qed

lemma appendPage_set: "set (appendPage ps p) = set ps \<union> (if p = [] then {} else {p})"
  by (auto simp: appendPage_def)

lemma appendPage_distinct: "distinct ps \<Longrightarrow> distinct (appendPage ps p)"
  by (simp add: appendPage_def)

lemma foldl_appendPage:
  "set (foldl appendPage ps qs) = set ps \<union> set (filter (\<lambda>p. p \<noteq> []) qs)"
  "distinct ps \<Longrightarrow> distinct (foldl appendPage ps qs)"
  by (induction qs arbitrary: ps) (auto simp: appendPage_set appendPage_distinct)

lemma appendPages_set: "set (appendPages ps w) = set ps \<union> set (warning_pages w)"
  by (auto simp: appendPages_def foldl_appendPage appendPage_set warning_pages_def)

lemma appendPages_distinct: "distinct ps \<Longrightarrow> distinct (appendPages ps w)"
  by (simp add: appendPages_def foldl_appendPage appendPage_distinct)

lemma occurrences_snoc:
  "occurrences k (ws @ [w]) = occurrences k ws + (if identity w = k then unat (dw_occurrence_count w) else 0)"
  by (simp add: occurrences_def)

lemma pages_of_snoc:
  "pages_of k (ws @ [w]) = pages_of k ws \<union> (if identity w = k then set (warning_pages w) else {})"
  by (auto simp: pages_of_def)

text \<open>
  The invariant: the index table is exactly where each identity sits, identities are distinct
  and in order of first appearance, and each entry carries its total and its pages.
\<close>

fun first_seen :: "'a list \<Rightarrow> 'a list" where
  "first_seen [] = []"
| "first_seen (x # xs) = x # filter (\<lambda>y. y \<noteq> x) (first_seen xs)"

lemma set_first_seen [simp]: "set (first_seen xs) = set xs"
  by (induction xs) auto

lemma distinct_first_seen [simp]: "distinct (first_seen xs)"
  by (induction xs) auto

lemma first_seen_snoc:
  "first_seen (xs @ [x]) = (if x \<in> set xs then first_seen xs else first_seen xs @ [x])"
  by (induction xs) auto

definition entry_ok :: "document_warning list \<Rightarrow> document_warning \<Rightarrow> bool" where
  "entry_ok seen v \<longleftrightarrow> dw_page_id v = [] \<and> distinct (dw_page_ids v) \<and>
     set (dw_page_ids v) = pages_of (identity v) seen \<and>
     unat (dw_occurrence_count v) = min (2 ^ 64 - 1) (occurrences (identity v) seen)"

definition agg_inv :: "document_warning list \<Rightarrow> aggregation \<Rightarrow> bool" where
  "agg_inv seen acc \<longleftrightarrow> (case acc of (agg, idx) \<Rightarrow>
     map identity agg = first_seen (map identity seen) \<and>
     (\<forall>k i. idx k = Some i \<longleftrightarrow> i < length agg \<and> identity (agg ! i) = k) \<and>
     (\<forall>v\<in>set agg. entry_ok seen v))"

lemma identity_update [simp]:
  "identity (v\<lparr>dw_occurrence_count := c\<rparr>) = identity v"
  "identity (v\<lparr>dw_page_ids := ps\<rparr>) = identity v"
  "identity (v\<lparr>dw_page_id := p\<rparr>) = identity v"
  by (simp_all add: identity_def)

lemma identity_collapse [simp]: "identity (collapse_page v) = identity v"
  by (simp add: collapse_page_def)

lemma map_identity_upd_at:
  "(\<And>v. identity (f v) = identity v) \<Longrightarrow> map identity (upd_at agg i f) = map identity agg"
  by (simp add: upd_at_def map_update list_update_same_conv)

lemma occurrences_unseen: "k \<notin> identity ` set seen \<Longrightarrow> occurrences k seen = 0"
  by (auto simp: occurrences_def filter_empty_conv)

lemma pages_of_unseen: "k \<notin> identity ` set seen \<Longrightarrow> pages_of k seen = {}"
  by (auto simp: pages_of_def)

lemma entry_ok_other:
  "entry_ok seen v \<Longrightarrow> identity v \<noteq> identity w \<Longrightarrow> entry_ok (seen @ [w]) v"
  by (auto simp: entry_ok_def occurrences_snoc pages_of_snoc)

lemma aggregate_step_inv:
  assumes "agg_inv seen (agg, idx)"
  shows "agg_inv (seen @ [w]) (aggregate_step (agg, idx) w)"
proof -
  from assms have ids: "map identity agg = first_seen (map identity seen)"
    and ix: "\<And>k i. idx k = Some i \<longleftrightarrow> i < length agg \<and> identity (agg ! i) = k"
    and ok: "\<And>v. v \<in> set agg \<Longrightarrow> entry_ok seen v"
    unfolding agg_inv_def by auto
  have idset: "identity ` set agg = identity ` set seen"
    using ids set_first_seen by (metis list.set_map)
  have dist: "distinct (map identity agg)" using ids by simp
  show ?thesis
  proof (cases "idx (identity w)")
    case None
    then have new: "identity w \<notin> identity ` set seen"
      unfolding idset[symmetric] using ix by (metis imageE in_set_conv_nth option.distinct(1))
    let ?v = "w\<lparr>dw_page_id := [], dw_page_ids := appendPages [] w\<rparr>"
    have "entry_ok (seen @ [w]) ?v"
      using new unat_less64[of "dw_occurrence_count w"]
      by (simp add: entry_ok_def occurrences_snoc pages_of_snoc occurrences_unseen pages_of_unseen
          appendPages_set appendPages_distinct)
    moreover have "entry_ok (seen @ [w]) v" if "v \<in> set agg" for v
    proof (rule entry_ok_other[OF ok[OF that]])
      have "identity v \<in> identity ` set seen" using that idset by (metis imageI)
      with new show "identity v \<noteq> identity w" by metis
    qed
    moreover have "(idx(identity w \<mapsto> length agg)) k = Some i \<longleftrightarrow>
        i < length (agg @ [?v]) \<and> identity ((agg @ [?v]) ! i) = k" for k i
    proof (cases "k = identity w")
      case True
      have "\<not> (i < length agg \<and> identity (agg ! i) = identity w)"
        using ix[of "identity w" i] None by simp
      with True show ?thesis by (auto simp: nth_append less_Suc_eq)
    next
      case False
      then show ?thesis using ix[of k i] by (auto simp: nth_append less_Suc_eq)
    qed
    moreover have "map identity (agg @ [?v]) = first_seen (map identity (seen @ [w]))"
      using ids new by (simp add: first_seen_snoc)
    moreover have "aggregate_step (agg, idx) w = (agg @ [?v], idx(identity w \<mapsto> length agg))"
      using None by (simp add: aggregate_step_def Let_def emplace_def)
    ultimately show ?thesis by (simp only: agg_inv_def prod.case) simp
  next
    case (Some i)
    then have i: "i < length agg" "identity (agg ! i) = identity w" using ix by auto
    let ?f = "\<lambda>v. v\<lparr>dw_occurrence_count := saturatedAdd (dw_occurrence_count v) (dw_occurrence_count w),
                   dw_page_ids := appendPages (dw_page_ids v) w\<rparr>"
    have seen: "identity w \<in> set (map identity seen)"
    proof -
      have "identity (agg ! i) \<in> identity ` set agg" using i(1) by (intro imageI nth_mem)
      then show ?thesis unfolding idset i(2) by simp
    qed
    have mi: "map identity (upd_at agg i ?f) = map identity agg" by (rule map_identity_upd_at) simp
    have nthi: "identity (upd_at agg i ?f ! j) = identity (agg ! j)" if "j < length agg" for j
      using arg_cong[OF mi, of "\<lambda>xs. xs ! j"] that by simp
    have entries: "entry_ok (seen @ [w]) v" if v: "v \<in> set (upd_at agg i ?f)" for v
    proof -
      obtain j where j: "j < length agg" "v = upd_at agg i ?f ! j"
        using v by (auto simp: in_set_conv_nth)
      show ?thesis
      proof (cases "j = i")
        case True
        then have "v = ?f (agg ! i)" using j i by (simp add: nth_upd_at)
        then show ?thesis using ok[OF nth_mem[OF i(1)]] i(2)
          by (auto simp: entry_ok_def occurrences_snoc pages_of_snoc appendPages_set
              appendPages_distinct saturatedAdd_unat)
      next
        case False
        then have "v = agg ! j" using j i by (simp add: nth_upd_at)
        moreover have "identity (agg ! j) \<noteq> identity w"
          using nth_eq_iff_index_eq[OF dist, of j i] i j(1) False by simp
        ultimately show ?thesis using ok[OF nth_mem[OF j(1)]] by (simp add: entry_ok_other)
      qed
    qed
    have "aggregate_step (agg, idx) w = (upd_at agg i ?f, idx)"
      using Some by (simp add: aggregate_step_def)
    moreover have "map identity (upd_at agg i ?f) = first_seen (map identity (seen @ [w]))"
      using mi ids seen by (simp only: map_append list.map first_seen_snoc if_True)
    moreover have "idx k = Some j \<longleftrightarrow>
        j < length (upd_at agg i ?f) \<and> identity (upd_at agg i ?f ! j) = k" for k j
      using ix[of k j] nthi[of j] by auto
    ultimately show ?thesis using entries by (simp only: agg_inv_def prod.case) simp
  qed
qed

lemma aggregate_inv: "agg_inv ws (foldl aggregate_step ([], Map.empty) ws)"
proof (induction ws rule: rev_induct)
  case Nil
  then show ?case by (simp add: agg_inv_def)
next
  case (snoc w ws)
  then show ?case
    using aggregate_step_inv[of ws "fst (foldl aggregate_step ([], Map.empty) ws)"
        "snd (foldl aggregate_step ([], Map.empty) ws)" w] by simp
qed

lemma aggregated_facts:
  "map identity (aggregateWarnings ws) = first_seen (map identity ws) \<and>
   (\<forall>v\<in>set (aggregateWarnings ws).
      unat (dw_occurrence_count v) = min (2 ^ 64 - 1) (occurrences (identity v) ws) \<and>
      set (warning_pages v) = pages_of (identity v) ws \<and> distinct (warning_pages v) \<and>
      (dw_page_id v \<noteq> [] \<longrightarrow> dw_page_ids v = []) \<and> length (dw_page_ids v) \<noteq> 1 \<and> [] \<notin> set (dw_page_ids v))"
proof -
  obtain agg idx where st: "foldl aggregate_step ([], Map.empty) ws = (agg, idx)" by fastforce
  have inv: "agg_inv ws (agg, idx)" using aggregate_inv[of ws] st by simp
  have nonempty: "pages_of k ws \<inter> {[]} = {}" for k by (auto simp: pages_of_def warning_pages_def)
  have "unat (dw_occurrence_count v) = min (2 ^ 64 - 1) (occurrences (identity v) ws) \<and>
      set (warning_pages v) = pages_of (identity v) ws \<and> distinct (warning_pages v) \<and>
      (dw_page_id v \<noteq> [] \<longrightarrow> dw_page_ids v = []) \<and> length (dw_page_ids v) \<noteq> 1 \<and> [] \<notin> set (dw_page_ids v)"
    if vin: "v \<in> set (aggregateWarnings ws)" for v
  proof -
    obtain u where u: "u \<in> set agg" "v = collapse_page u"
      using vin st by (auto simp: aggregateWarnings_def)
    have e: "entry_ok ws u" using inv u by (auto simp: agg_inv_def)
    have fil: "filter (\<lambda>p. p \<noteq> []) (dw_page_ids u) = dw_page_ids u"
      using e nonempty[of "identity u"] by (auto simp: entry_ok_def filter_id_conv)
    show ?thesis
    proof (cases "dw_page_ids u")
      case (Cons p ps)
      then show ?thesis using e fil u(2) nonempty[of "identity u"]
        by (cases ps) (auto simp: entry_ok_def collapse_page_def warning_pages_def identity_def)
    qed (use e u(2) in \<open>auto simp: entry_ok_def collapse_page_def warning_pages_def\<close>)
  qed
  moreover have "map identity (aggregateWarnings ws) = first_seen (map identity ws)"
    using inv st by (simp add: aggregateWarnings_def agg_inv_def comp_def)
  ultimately show ?thesis by blast
qed

section \<open>Properties\<close>

text \<open>
  C11: the result has one warning per identity, in order of first appearance; each counts all
  its occurrences, saturating instead of wrapping at 64 bits, and names exactly the non-empty
  pages of its occurrences, as \<open>page_id\<close> when there is one and as \<open>page_ids\<close> otherwise.
\<close>

theorem aggregateWarnings_correct:
  "map identity (aggregateWarnings ws) = first_seen (map identity ws) \<and>
   (\<forall>v\<in>set (aggregateWarnings ws).
      unat (dw_occurrence_count v) = min (2 ^ 64 - 1) (occurrences (identity v) ws) \<and>
      set (warning_pages v) = pages_of (identity v) ws \<and> distinct (warning_pages v) \<and>
      (dw_page_id v \<noteq> [] \<longrightarrow> dw_page_ids v = []) \<and> length (dw_page_ids v) \<noteq> 1 \<and> [] \<notin> set (dw_page_ids v))"
  by (rule aggregated_facts)

definition sample_warning :: "string \<Rightarrow> document_warning" where
  "sample_warning page = \<lparr>dw_code = kTableBackendFallback, dw_message = ''m'', dw_stage = ''table'',
     dw_page_id = page, dw_block_id = [], dw_details = [], dw_occurrence_count = 1, dw_page_ids = []\<rparr>"

theorem aggregateWarnings_correct_witness:
  "map identity (aggregateWarnings [sample_warning ''page_1'', sample_warning ''page_2''])
     = [identity (sample_warning ''page_1'')] \<and>
   unat (dw_occurrence_count (hd (aggregateWarnings
     [sample_warning ''page_1'', sample_warning ''page_2'']))) = 2"
proof -
  let ?ws = "[sample_warning ''page_1'', sample_warning ''page_2'']"
  have ids: "map identity (aggregateWarnings ?ws) = [identity (sample_warning ''page_1'')]"
    using aggregateWarnings_correct[of ?ws] by (simp add: identity_def sample_warning_def)
  then obtain v where v: "aggregateWarnings ?ws = [v]" "identity v = identity (sample_warning ''page_1'')"
    by auto
  have "unat (dw_occurrence_count v) = min (2 ^ 64 - 1) (occurrences (identity v) ?ws)"
    using aggregateWarnings_correct[of ?ws] v(1) by simp
  also have "\<dots> = 2" unfolding v(2) by (simp add: occurrences_def identity_def sample_warning_def)
  finally show ?thesis using ids v(1) by simp
qed

end
