(* ===== verification/Furniture.thy ===== *)
theory Furniture
  imports Common
begin

text \<open>
  The text helpers of \<open>cpp/assembly/document_assembler.cpp\<close>: identifiers, media types, the
  text of a layout block, and the signatures by which running headers and footers are
  recognised on several pages whatever page number they carry.
\<close>

unbundle bit_operations_syntax

subsection \<open>Identifiers and media types\<close>

fun toDocumentBlockType :: "layout_type \<Rightarrow> block_type" where
  "toDocumentBlockType LTitle = BTitle"
| "toDocumentBlockType LText = BParagraph"
| "toDocumentBlockType LList = BList"
| "toDocumentBlockType LTable = BTable"
| "toDocumentBlockType LFigure = BFigure"
| "toDocumentBlockType LHeader = BHeader"
| "toDocumentBlockType LFooter = BFooter"
| "toDocumentBlockType LUnknown = BUnknown"

definition blockId :: "int \<Rightarrow> nat \<Rightarrow> string" where
  "blockId page_number block_index =
     ''doc_page_'' @ int_to_string page_number @ ''_block_'' @ nat_to_string (block_index + 1)"

definition pageId :: "int \<Rightarrow> string" where
  "pageId page_number = ''page_'' @ int_to_string page_number"

lemma pageId_inj: "pageId m = pageId n \<Longrightarrow> m = n"
  by (simp add: pageId_def int_to_string_inj)

lemma digits_nat_to_string: "list_all isdigit (nat_to_string n)"
  using nat_to_string_digits by (simp add: list_all_iff)

lemma blockId_inj: "blockId p m = blockId q n \<Longrightarrow> m = n"
proof -
  assume "blockId p m = blockId q n"
  then have "(''doc_page_'' @ int_to_string p @ ''_block'') @ CHR ''_'' # nat_to_string (m + 1) =
      (''doc_page_'' @ int_to_string q @ ''_block'') @ CHR ''_'' # nat_to_string (n + 1)"
    by (simp add: blockId_def)
  then have "nat_to_string (m + 1) = nat_to_string (n + 1)"
    by (rule digits_suffix) (simp_all add: digits_nat_to_string isdigit_def)
  then show "m = n" by (auto dest: nat_to_string_inj)
qed

text \<open>FNV-1a over the bytes of the path, on \<open>std::uint64_t\<close>, in 16 hexadecimal digits.\<close>

definition fnv1a :: "string \<Rightarrow> 64 word" where
  "fnv1a s = foldl (\<lambda>h c. (h XOR of_nat (of_char c)) * 1099511628211) 14695981039346656037 s"

definition hex_digit :: "nat \<Rightarrow> char" where
  "hex_digit d = (if d < 10 then char_of (48 + d) else char_of (87 + d))"

definition hex16 :: "64 word \<Rightarrow> string" where
  "hex16 w = map (\<lambda>i. hex_digit (unat (drop_bit ((15 - i) * 4) w) mod 16)) [0..<16]"

definition sourceScopedDocumentId :: "string \<Rightarrow> string" where
  "sourceScopedDocumentId source_path = ''doc_'' @ hex16 (fnv1a source_path)"

definition sourceMediaType :: "string \<Rightarrow> string" where
  "sourceMediaType source_type =
     (if CHR ''/'' \<in> set source_type then source_type
      else if source_type = ''pdf'' then ''application/pdf''
      else if source_type = ''png'' then ''image/png''
      else if source_type = ''jpg'' \<or> source_type = ''jpeg'' then ''image/jpeg''
      else if source_type = ''tif'' \<or> source_type = ''tiff'' then ''image/tiff''
      else ''application/octet-stream'')"

definition imageMediaType :: "string \<Rightarrow> string" where
  "imageMediaType image_uri =
     (let extension = map tolower (path_extension image_uri) in
      if extension = ''.png'' then ''image/png''
      else if extension = ''.jpg'' \<or> extension = ''.jpeg'' then ''image/jpeg''
      else if extension = ''.tif'' \<or> extension = ''.tiff'' then ''image/tiff''
      else ''application/octet-stream'')"

subsection \<open>The text of a layout block\<close>

fun scan_sources :: "text_line list \<Rightarrow> int list \<Rightarrow> text_source \<Rightarrow> text_source" where
  "scan_sources lines [] source = source"
| "scan_sources lines (i # is) source =
     (if \<not> in_range i lines then scan_sources lines is source
      else
        let line = line_source (lines ! nat i) in
        if line = SourceUnknown then scan_sources lines is source
        else if source \<noteq> SourceUnknown \<and> source \<noteq> line then SourceMixed
        else scan_sources lines is line)"

definition blockTextSource :: "page_text \<Rightarrow> layout_block \<Rightarrow> text_source" where
  "blockTextSource page_text block =
     (let source = scan_sources (pt_lines page_text) (lb_text_line_indices block) SourceUnknown
      in if source = SourceUnknown then pt_preferred_source page_text else source)"

definition joinLayoutBlockText :: "page_text \<Rightarrow> layout_block \<Rightarrow> string" where
  "joinLayoutBlockText page_text block =
     foldl (\<lambda>str i. if \<not> in_range i (pt_lines page_text) then str
        else (if str \<noteq> [] then str @ [CHR 0x0A] else str) @ line_text (pt_lines page_text ! nat i))
      [] (lb_text_line_indices block)"

subsection \<open>Furniture\<close>

record furniture_state =
  fs_normalized :: string
  fs_previous_space :: bool
  fs_previous_digit :: bool

definition furniture_step :: "furniture_state \<Rightarrow> char \<Rightarrow> furniture_state" where
  "furniture_step s value =
     (if isdigit value then
        \<lparr>fs_normalized = fs_normalized s @ (if fs_previous_digit s then [] else ''#''),
         fs_previous_space = False, fs_previous_digit = True\<rparr>
      else if isspace value then
        \<lparr>fs_normalized = fs_normalized s @
           (if \<not> fs_previous_space s \<and> fs_normalized s \<noteq> [] then '' '' else []),
         fs_previous_space = True, fs_previous_digit = False\<rparr>
      else
        \<lparr>fs_normalized = fs_normalized s @ [tolower value],
         fs_previous_space = False, fs_previous_digit = False\<rparr>)"

definition normalizeFurnitureText :: "string \<Rightarrow> string" where
  "normalizeFurnitureText str =
     (let normalized = fs_normalized (foldl furniture_step
            \<lparr>fs_normalized = [], fs_previous_space = True, fs_previous_digit = False\<rparr> str)
      in if normalized \<noteq> [] \<and> last normalized = CHR '' '' then butlast normalized else normalized)"

definition furnitureSignature :: "page_artifacts \<Rightarrow> layout_block \<Rightarrow> string" where
  "furnitureSignature page block =
     (if lb_type block \<noteq> LHeader \<and> lb_type block \<noteq> LFooter then []
      else
        let str = normalizeFurnitureText (joinLayoutBlockText (ppa_text page) block)
        in if str = [] then [] else nat_to_string (layout_code (lb_type block)) @ '':'' @ str)"

text \<open>\<open>pages_by_signature[signature].insert(page_index)\<close>, the set as a list without repetition.\<close>

definition note_signature ::
  "(string \<times> int list) list \<Rightarrow> string \<times> int \<Rightarrow> (string \<times> int list) list" where
  "note_signature m entry =
     (if fst entry = [] then m
      else amap_alter (\<lambda>v. List.insert (snd entry) (case v of None \<Rightarrow> [] | Some is \<Rightarrow> is)) (fst entry) m)"

definition page_signatures :: "page_artifacts \<Rightarrow> (string \<times> int) list" where
  "page_signatures page =
     map (\<lambda>b. (furnitureSignature page b, ppa_page_index page)) (pl_blocks (ppa_layout page))"

definition repeatedFurniture :: "page_artifacts list \<Rightarrow> string list" where
  "repeatedFurniture pages =
     map fst (filter (\<lambda>(signature, page_indices). 2 \<le> length page_indices)
       (foldl note_signature [] (concat (map page_signatures pages))))"

subsection \<open>A digit run is one mark\<close>

lemma furniture_digits:
  "digits \<noteq> [] \<Longrightarrow> list_all isdigit digits \<Longrightarrow>
   foldl furniture_step s digits =
     \<lparr>fs_normalized = fs_normalized s @ (if fs_previous_digit s then [] else ''#''),
      fs_previous_space = False, fs_previous_digit = True\<rparr>"
proof (induction digits arbitrary: s)
  case (Cons d ds)
  let ?s = "furniture_step s d"
  have s: "?s = \<lparr>fs_normalized = fs_normalized s @ (if fs_previous_digit s then [] else ''#''),
      fs_previous_space = False, fs_previous_digit = True\<rparr>"
    using Cons.prems(2) by (simp add: furniture_step_def)
  show ?case
  proof (cases "ds = []")
    case False
    with Cons.IH[of ?s] Cons.prems(2) s show ?thesis by simp
  qed (use s in simp)
qed simp

text \<open>
  A normal string: no digit, no upper case, only single blanks, none in front. The step appends
  a normal character to it and leaves such a string alone.
\<close>

definition normal_char :: "char \<Rightarrow> bool" where
  "normal_char c \<longleftrightarrow> \<not> isdigit c \<and> tolower c = c \<and> (isspace c \<longrightarrow> c = CHR '' '')"

fun single_blanks :: "bool \<Rightarrow> string \<Rightarrow> bool" where
  "single_blanks after_blank [] = True"
| "single_blanks after_blank (c # cs) =
     ((c = CHR '' '' \<longrightarrow> \<not> after_blank) \<and> single_blanks (c = CHR '' '') cs)"

lemma single_blanks_append:
  "single_blanks b (xs @ ys) \<longleftrightarrow>
     single_blanks b xs \<and> single_blanks (if xs = [] then b else last xs = CHR '' '') ys"
  by (induction xs arbitrary: b) auto

definition furniture_inv :: "furniture_state \<Rightarrow> bool" where
  "furniture_inv s \<longleftrightarrow> list_all normal_char (fs_normalized s) \<and> single_blanks True (fs_normalized s) \<and>
     (fs_normalized s \<noteq> [] \<longrightarrow> (last (fs_normalized s) = CHR '' '') = fs_previous_space s) \<and>
     (fs_normalized s = [] \<longrightarrow> fs_previous_space s) \<and> (fs_previous_digit s \<longrightarrow> \<not> fs_previous_space s)"

lemma isspace_code: "isspace c \<longleftrightarrow> (of_char c :: nat) = 32 \<or> 9 \<le> (of_char c :: nat) \<and> (of_char c :: nat) \<le> 13"
proof -
  have "c = CHR '' '' \<longleftrightarrow> (of_char c :: nat) = of_char (CHR '' '')" by (simp only: of_char_eq_iff)
  then show ?thesis by (simp add: isspace_def)
qed

lemma tolower_code: "isupper c \<Longrightarrow> (of_char (tolower c) :: nat) = of_char c + 32"
  by (auto simp: tolower_def isupper_def)

lemma tolower_space: "isspace (tolower c) = isspace c"
  by (cases "isupper c") (simp_all add: isspace_code tolower_code, simp_all add: isupper_def tolower_def)

lemma tolower_digit: "isdigit (tolower c) = isdigit c"
  by (cases "isupper c") (simp_all add: isdigit_def tolower_code, simp_all add: isupper_def tolower_def)

lemma isspace_blank: "isspace (CHR '' '')"
  by (simp add: isspace_def)

lemma furniture_step_inv: "furniture_inv s \<Longrightarrow> furniture_inv (furniture_step s c)"
proof -
  assume inv: "furniture_inv s"
  have hash: "normal_char (CHR ''#'')" "CHR ''#'' \<noteq> CHR '' ''" "normal_char (CHR '' '')"
    by (simp_all add: normal_char_def isdigit_def isspace_def tolower_def isupper_def)
  have other: "normal_char (tolower c)" "tolower c \<noteq> CHR '' ''" if "\<not> isdigit c" "\<not> isspace c"
    using that tolower_space[of c] tolower_digit[of c] isspace_blank by (auto simp: normal_char_def)
  show ?thesis
    using inv hash other
    by (auto simp: furniture_inv_def furniture_step_def single_blanks_append split: if_splits)
qed

lemma furniture_fold_inv: "furniture_inv s \<Longrightarrow> furniture_inv (foldl furniture_step s str)"
  by (induction str arbitrary: s) (simp_all add: furniture_step_inv)

lemma furniture_fold_normal:
  "list_all normal_char xs \<Longrightarrow> single_blanks (fs_previous_space s) xs \<Longrightarrow> furniture_inv s \<Longrightarrow>
   fs_normalized (foldl furniture_step s xs) = fs_normalized s @ xs"
proof (induction xs arbitrary: s)
  case (Cons x xs)
  have x: "\<not> isdigit x" "tolower x = x" "isspace x \<Longrightarrow> x = CHR '' ''" "x = CHR '' '' \<Longrightarrow> \<not> fs_previous_space s"
    using Cons.prems(1,2) by (auto simp: normal_char_def)
  have ne: "\<not> fs_previous_space s \<Longrightarrow> fs_normalized s \<noteq> []" using Cons.prems(3) by (auto simp: furniture_inv_def)
  have st: "fs_normalized (furniture_step s x) = fs_normalized s @ [x]"
    "fs_previous_space (furniture_step s x) = (x = CHR '' '')"
    using x ne isspace_blank by (auto simp: furniture_step_def)
  have "single_blanks (fs_previous_space (furniture_step s x)) xs" using Cons.prems(2) st(2) by simp
  with Cons.IH[of "furniture_step s x"] Cons.prems(1,3) st(1) furniture_step_inv show ?case by simp
qed simp

definition furniture_start :: furniture_state where
  "furniture_start = \<lparr>fs_normalized = [], fs_previous_space = True, fs_previous_digit = False\<rparr>"

lemma furniture_start_inv: "furniture_inv furniture_start"
  by (simp add: furniture_inv_def furniture_start_def)

lemma normalize_normal:
  "list_all normal_char (normalizeFurnitureText str)" "single_blanks True (normalizeFurnitureText str)"
  "normalizeFurnitureText str \<noteq> [] \<Longrightarrow> last (normalizeFurnitureText str) \<noteq> CHR '' ''"
proof -
  let ?n = "fs_normalized (foldl furniture_step furniture_start str)"
  have inv: "list_all normal_char ?n" "single_blanks True ?n"
    using furniture_fold_inv[OF furniture_start_inv, of str] by (simp_all add: furniture_inv_def)
  have nf: "normalizeFurnitureText str = (if ?n \<noteq> [] \<and> last ?n = CHR '' '' then butlast ?n else ?n)"
    by (simp add: normalizeFurnitureText_def Let_def furniture_start_def)
  have trim: "list_all normal_char (butlast ?n) \<and> single_blanks True (butlast ?n) \<and>
      (butlast ?n \<noteq> [] \<longrightarrow> last (butlast ?n) \<noteq> CHR '' '')" if "?n \<noteq> []" "last ?n = CHR '' ''"
  proof -
    from that have "?n = butlast ?n @ [CHR '' '']" by (metis append_butlast_last_id)
    then have "list_all normal_char (butlast ?n @ [CHR '' ''])" "single_blanks True (butlast ?n @ [CHR '' ''])"
      using inv by simp_all
    then show ?thesis by (auto simp: single_blanks_append split: if_splits)
  qed
  show "list_all normal_char (normalizeFurnitureText str)" "single_blanks True (normalizeFurnitureText str)"
    "normalizeFurnitureText str \<noteq> [] \<Longrightarrow> last (normalizeFurnitureText str) \<noteq> CHR '' ''"
    using inv trim by (auto simp: nf split: if_splits)
qed

lemma normalize_idem: "normalizeFurnitureText (normalizeFurnitureText str) = normalizeFurnitureText str"
proof -
  have "fs_normalized (foldl furniture_step furniture_start (normalizeFurnitureText str)) = normalizeFurnitureText str"
    using furniture_fold_normal[OF normalize_normal(1) _ furniture_start_inv, of str] normalize_normal(2)[of str]
    by (simp add: furniture_start_def)
  with normalize_normal(3)[of str] show ?thesis
    by (cases "normalizeFurnitureText str = []") (simp_all add: normalizeFurnitureText_def[of "[]"]
        normalizeFurnitureText_def[of "normalizeFurnitureText str"] furniture_start_def Let_def)
qed

subsection \<open>Repeated furniture\<close>

lemma note_signature_wf: "amap_wf m \<Longrightarrow> amap_wf (note_signature m e)"
  by (simp add: note_signature_def amap_alter_wf)

definition indices_of :: "(string \<times> int list) list \<Rightarrow> string \<Rightarrow> int list" where
  "indices_of m k = (case map_of m k of None \<Rightarrow> [] | Some is \<Rightarrow> is)"

lemma note_signature_indices:
  assumes "amap_wf m" "distinct (indices_of m k)"
  shows "distinct (indices_of (note_signature m e) k)"
    "set (indices_of (note_signature m e) k) =
       set (indices_of m k) \<union> (if fst e = k \<and> k \<noteq> [] then {snd e} else {})"
  using assms by (auto simp: note_signature_def indices_of_def map_of_amap_alter split: option.splits)

lemma signatures_fold:
  "amap_wf m \<Longrightarrow> distinct (indices_of m k) \<Longrightarrow>
   amap_wf (foldl note_signature m es) \<and> distinct (indices_of (foldl note_signature m es) k) \<and>
   set (indices_of (foldl note_signature m es) k) =
     set (indices_of m k) \<union> {i. (k, i) \<in> set es \<and> k \<noteq> []}"
proof (induction es arbitrary: m)
  case (Cons e es)
  with note_signature_wf[OF Cons.prems(1), of e] note_signature_indices[OF Cons.prems, of e]
    Cons.IH[of "note_signature m e"] show ?case by (cases e) (auto split: if_splits)
qed simp

lemma amap_wf_filter_fst:
  "amap_wf m \<Longrightarrow> k \<in> set (map fst (filter (\<lambda>(s, is). P is) m)) \<longleftrightarrow> (\<exists>is. map_of m k = Some is \<and> P is)"
proof -
  assume "amap_wf m"
  then have "distinct (map fst m)" by (auto simp: amap_wf_def strict_sorted_iff)
  then show ?thesis by (force simp: image_iff)
qed

lemma two_elements: "distinct xs \<Longrightarrow> 2 \<le> length xs \<longleftrightarrow> (\<exists>a\<in>set xs. \<exists>b\<in>set xs. a \<noteq> b)"
proof -
  assume "distinct xs"
  then have "2 \<le> length xs \<longleftrightarrow> 2 \<le> card (set xs)" by (simp add: distinct_card)
  also have "\<dots> \<longleftrightarrow> \<not> card (set xs) \<le> Suc 0" by auto
  also have "\<dots> \<longleftrightarrow> (\<exists>a\<in>set xs. \<exists>b\<in>set xs. a \<noteq> b)" by (subst card_le_Suc0_iff_eq) auto
  finally show ?thesis .
qed

lemma repeatedFurniture_iff:
  "s \<in> set (repeatedFurniture pages) \<longleftrightarrow> s \<noteq> [] \<and>
     (\<exists>p\<in>set pages. \<exists>q\<in>set pages. ppa_page_index p \<noteq> ppa_page_index q \<and>
        s \<in> furnitureSignature p ` set (pl_blocks (ppa_layout p)) \<and>
        s \<in> furnitureSignature q ` set (pl_blocks (ppa_layout q)))"
proof -
  let ?es = "concat (map page_signatures pages)"
  let ?m = "foldl note_signature [] ?es"
  have m: "amap_wf ?m" "distinct (indices_of ?m s)"
    "set (indices_of ?m s) = {i. (s, i) \<in> set ?es \<and> s \<noteq> []}"
    using signatures_fold[of "[]" s ?es] by (simp_all add: amap_wf_def indices_of_def)
  have "s \<in> set (repeatedFurniture pages) \<longleftrightarrow> 2 \<le> length (indices_of ?m s)"
    using amap_wf_filter_fst[OF m(1), of s "\<lambda>is. 2 \<le> length is"]
    by (auto simp: repeatedFurniture_def indices_of_def split: option.splits)
  also have "\<dots> \<longleftrightarrow> s \<noteq> [] \<and> (\<exists>i j. i \<noteq> j \<and> (s, i) \<in> set ?es \<and> (s, j) \<in> set ?es)"
    unfolding two_elements[OF m(2)] m(3) by auto
  also have "\<dots> \<longleftrightarrow> s \<noteq> [] \<and>
     (\<exists>p\<in>set pages. \<exists>q\<in>set pages. ppa_page_index p \<noteq> ppa_page_index q \<and>
        s \<in> furnitureSignature p ` set (pl_blocks (ppa_layout p)) \<and>
        s \<in> furnitureSignature q ` set (pl_blocks (ppa_layout q)))"
    by (auto simp: page_signatures_def image_iff)
  finally show ?thesis .
qed

section \<open>Properties\<close>

text \<open>
  the signature of a running header or footer does not depend on the page number in it: any
  two runs of digits in the same place give the same normal form. Normalizing is idempotent.
\<close>

lemma furniture_ignores_numbers:
  assumes "m \<noteq> []" "list_all isdigit m" "n \<noteq> []" "list_all isdigit n"
  shows "normalizeFurnitureText (before @ m @ after) = normalizeFurnitureText (before @ n @ after) \<and>
    normalizeFurnitureText (normalizeFurnitureText (before @ m @ after)) =
      normalizeFurnitureText (before @ m @ after)"
proof -
  let ?s = "foldl furniture_step furniture_start before"
  have "foldl furniture_step ?s m = foldl furniture_step ?s n"
    using assms by (simp add: furniture_digits)
  then have "normalizeFurnitureText (before @ m @ after) = normalizeFurnitureText (before @ n @ after)"
    by (simp add: normalizeFurnitureText_def furniture_start_def)
  then show ?thesis by (simp add: normalize_idem)
qed

lemma furniture_ignores_numbers_witness:
  "normalizeFurnitureText (''Page '' @ ''9'' @ '' of 12'') = normalizeFurnitureText (''Page '' @ ''10'' @ '' of 12'')"
  using furniture_ignores_numbers[of "''9''" "''10''" "''Page ''" "'' of 12''"] by (simp add: isdigit_def)

end
