(* ===== verification/Reading_Columns.thy ===== *)
theory Reading_Columns
  imports Common
begin

text \<open>
  Column inference of \<open>cpp/reading_order/docling_like_reading_order_backend.cpp\<close>: from the
  boxes of a group of blocks to at most six columns, and the range of columns a box covers.
  \<open>inferColumns\<close> is one long function in the code; here each of its stages is a definition
  and \<open>inferColumns\<close> their composition. Local indices are non-negative throughout, so an
  \<open>int\<close> index is a \<open>nat\<close> and the sentinel \<open>-1\<close> is \<open>None\<close>.
\<close>

definition kEpsilon :: double where "kEpsilon = 1 / 1000"
definition kRegularWidthScale :: double where "kRegularWidthScale = 1.35"
definition kColumnCenterToleranceScale :: double where "kColumnCenterToleranceScale = 0.22"
definition kMinimumGutterHeightScale :: double where "kMinimumGutterHeightScale = 0.10"
definition kMinimumGutterWidthScale :: double where "kMinimumGutterWidthScale = 0.02"
definition kMaximumColumns :: nat where "kMaximumColumns = 6"

record page_element =
  pe_layout_block_index :: int
  pe_block :: layout_block
  pe_bbox :: bbox

record ro_column =
  cx0 :: double
  cx1 :: double

record column_cluster =
  cl_members :: "nat list"
  cl_weighted_center_sum :: double
  cl_vertical_support :: double

record column_range =
  rng_first :: nat
  rng_last :: nat

definition cluster_center :: "column_cluster \<Rightarrow> double" where
  "cluster_center c =
     (if cl_vertical_support c > kEpsilon then cl_weighted_center_sum c / cl_vertical_support c else 0)"

definition spanning :: "column_range \<Rightarrow> bool" where
  "spanning r \<longleftrightarrow> rng_first r \<noteq> rng_last r"

definition columnOverlap :: "bbox \<Rightarrow> ro_column \<Rightarrow> double" where
  "columnOverlap b c = max 0 (min (bx1 b) (cx1 c) - max (bx0 b) (cx0 c))"

subsection \<open>Weighted median\<close>

definition first_less :: "double \<times> double \<Rightarrow> double \<times> double \<Rightarrow> bool" where
  "first_less lhs rhs \<longleftrightarrow> fst lhs < fst rhs"

interpretation first_less: keyed_order first_less fst
  by unfold_locales (simp add: first_less_def)

fun weighted_scan :: "double \<Rightarrow> double \<Rightarrow> (double \<times> double) list \<Rightarrow> double option" where
  "weighted_scan sum_all cumulative [] = None"
| "weighted_scan sum_all cumulative ((value, weight) # rest) =
     (if (cumulative + weight) * 2 \<ge> sum_all then Some value
      else weighted_scan sum_all (cumulative + weight) rest)"

definition weightedMedian :: "(double \<times> double) list \<Rightarrow> double" where
  "weightedMedian values =
     (if values = [] then 0
      else
        let ordered = sort_by first_less values;
            total = (\<Sum>v\<leftarrow>ordered. snd v)
        in case weighted_scan total 0 ordered of Some v \<Rightarrow> v | None \<Rightarrow> fst (last ordered))"

lemma weighted_scan_mem: "weighted_scan t c vs = Some v \<Longrightarrow> v \<in> fst ` set vs"
  by (induction t c vs rule: weighted_scan.induct) (auto split: if_splits)

lemma weightedMedian_mem: "values \<noteq> [] \<Longrightarrow> weightedMedian values \<in> fst ` set values"
proof -
  assume ne: "values \<noteq> []"
  let ?o = "sort_by first_less values"
  have last: "fst (last ?o) \<in> fst ` set values"
    using ne by (metis image_eqI last_in_set set_sort_by sort_by_eq_Nil)
  show ?thesis
    using ne last weighted_scan_mem[of "\<Sum>v\<leftarrow>?o. snd v" 0 ?o]
    by (auto simp: weightedMedian_def Let_def split: option.split)
qed

subsection \<open>Positions\<close>

definition isPreferredColumnSeed :: "layout_type \<Rightarrow> bool" where
  "isPreferredColumnSeed t \<longleftrightarrow> t = LText \<or> t = LList \<or> t = LUnknown"

definition position_less :: "page_element list \<Rightarrow> nat \<Rightarrow> nat \<Rightarrow> bool" where
  "position_less elements lhs rhs =
     (let left = elements ! lhs; right = elements ! rhs in
      if by0 (pe_bbox left) \<noteq> by0 (pe_bbox right) then by0 (pe_bbox left) < by0 (pe_bbox right)
      else if bx0 (pe_bbox left) \<noteq> bx0 (pe_bbox right) then bx0 (pe_bbox left) < bx0 (pe_bbox right)
      else pe_layout_block_index left < pe_layout_block_index right)"

interpretation position_less: keyed_order "position_less elements"
  "\<lambda>i. (by0 (pe_bbox (elements ! i)), bx0 (pe_bbox (elements ! i)), pe_layout_block_index (elements ! i))"
  for elements
  by unfold_locales (auto simp: position_less_def Let_def)

definition sortedByPosition :: "page_element list \<Rightarrow> nat list \<Rightarrow> nat list" where
  "sortedByPosition elements indices = sort_by (position_less elements) indices"

subsection \<open>Seeds, metrics and regular elements\<close>

definition column_candidates :: "page_element list \<Rightarrow> nat list \<Rightarrow> nat list" where
  "column_candidates elements indices =
     (let candidates = filter (\<lambda>i. isPreferredColumnSeed (lb_type (pe_block (elements ! i)))) indices
      in if length candidates < 2 then indices else candidates)"

record column_metrics =
  cm_median_width :: double
  cm_median_height :: double
  cm_regular_width_limit :: double
  cm_center_tolerance :: double
  cm_minimum_gutter :: double

definition measure_columns :: "page_element list \<Rightarrow> nat list \<Rightarrow> column_metrics" where
  "measure_columns elements candidates =
     (let boxes = map (\<lambda>i. pe_bbox (elements ! i)) candidates;
          weighted_widths = map (\<lambda>b. (bboxWidth b, max 1 (bboxHeight b)))
                              (filter (\<lambda>b. bboxWidth b > kEpsilon) boxes);
          heights = map bboxHeight (filter (\<lambda>b. bboxHeight b > kEpsilon) boxes);
          median_width = max kEpsilon (weightedMedian weighted_widths);
          median_height = max kEpsilon (median heights)
      in \<lparr>cm_median_width = median_width, cm_median_height = median_height,
          cm_regular_width_limit = median_width * kRegularWidthScale,
          cm_center_tolerance =
            max 1 (min (median_height * 0.75) (median_width * kColumnCenterToleranceScale)),
          cm_minimum_gutter =
            max 1 (min (median_height * kMinimumGutterHeightScale)
                       (median_width * kMinimumGutterWidthScale))\<rparr>)"

definition center_less :: "page_element list \<Rightarrow> nat \<Rightarrow> nat \<Rightarrow> bool" where
  "center_less elements lhs rhs =
     (let left = pe_bbox (elements ! lhs); right = pe_bbox (elements ! rhs) in
      if centerX left \<noteq> centerX right then centerX left < centerX right else bx0 left < bx0 right)"

interpretation center_less: keyed_order "center_less elements"
  "\<lambda>i. (centerX (pe_bbox (elements ! i)), bx0 (pe_bbox (elements ! i)))" for elements
  by unfold_locales (auto simp: center_less_def Let_def)

definition regular_elements :: "page_element list \<Rightarrow> column_metrics \<Rightarrow> nat list \<Rightarrow> nat list" where
  "regular_elements elements m candidates =
     (let regular = filter (\<lambda>i. bboxWidth (pe_bbox (elements ! i)) \<le> cm_regular_width_limit m + kEpsilon)
                      candidates;
          regular = (if length regular < min 2 (length candidates) then candidates else regular)
      in sort_by (center_less elements) regular)"

subsection \<open>Clusters\<close>

definition cluster_weight :: "bbox \<Rightarrow> double" where
  "cluster_weight b = max 1 (bboxHeight b)"

definition add_to_clusters ::
  "page_element list \<Rightarrow> column_metrics \<Rightarrow> column_cluster list \<Rightarrow> nat \<Rightarrow> column_cluster list" where
  "add_to_clusters elements m clusters index =
     (let box = pe_bbox (elements ! index);
          weight = cluster_weight box;
          best = best_of (\<lambda>k. let distance = \<bar>centerX box - cluster_center (clusters ! k)\<bar>
                               in if distance \<le> cm_center_tolerance m then Some distance else None)
                   [0..<length clusters]
      in case best of
           None \<Rightarrow> clusters @ [\<lparr>cl_members = [index], cl_weighted_center_sum = centerX box * weight,
                                cl_vertical_support = weight\<rparr>]
         | Some k \<Rightarrow> upd_at clusters k (\<lambda>c. c\<lparr>cl_members := cl_members c @ [index],
             cl_weighted_center_sum := cl_weighted_center_sum c + centerX box * weight,
             cl_vertical_support := cl_vertical_support c + weight\<rparr>))"

definition build_clusters :: "page_element list \<Rightarrow> column_metrics \<Rightarrow> nat list \<Rightarrow> column_cluster list" where
  "build_clusters elements m regular = foldl (add_to_clusters elements m) [] regular"

definition strong_cluster :: "column_metrics \<Rightarrow> column_cluster \<Rightarrow> bool" where
  "strong_cluster m c \<longleftrightarrow>
     2 \<le> length (cl_members c) \<or> cl_vertical_support c \<ge> cm_median_height m * 2"

definition cluster_column :: "page_element list \<Rightarrow> column_cluster \<Rightarrow> ro_column" where
  "cluster_column elements c =
     (let boxes = map (\<lambda>i. pe_bbox (elements ! i)) (cl_members c)
      in \<lparr>cx0 = weightedMedian (map (\<lambda>b. (bx0 b, cluster_weight b)) boxes),
          cx1 = weightedMedian (map (\<lambda>b. (bx1 b, cluster_weight b)) boxes)\<rparr>)"

text \<open>A weak cluster joins when it is tall enough and clear of every strong one.\<close>

definition column_separated :: "double \<Rightarrow> ro_column \<Rightarrow> ro_column \<Rightarrow> bool" where
  "column_separated gutter candidate established \<longleftrightarrow>
     cx1 candidate + gutter < cx0 established \<or> cx1 established + gutter < cx0 candidate"

definition include_cluster ::
  "page_element list \<Rightarrow> column_metrics \<Rightarrow> column_cluster list \<Rightarrow> column_cluster \<Rightarrow> bool" where
  "include_cluster elements m clusters c \<longleftrightarrow>
     length (filter (strong_cluster m) clusters) < 2 \<or> strong_cluster m c \<or>
     (cl_vertical_support c \<ge> cm_median_height m * 0.75 \<and>
      list_all (\<lambda>s. column_separated (cm_minimum_gutter m) (cluster_column elements c)
                       (cluster_column elements s))
        (filter (strong_cluster m) clusters))"

definition column_less :: "ro_column \<Rightarrow> ro_column \<Rightarrow> bool" where
  "column_less lhs rhs =
     (let lhs_center = (cx0 lhs + cx1 lhs) * 0.5; rhs_center = (cx0 rhs + cx1 rhs) * 0.5 in
      if lhs_center \<noteq> rhs_center then lhs_center < rhs_center else cx0 lhs < cx0 rhs)"

interpretation column_less: keyed_order column_less "\<lambda>c. ((cx0 c + cx1 c) * 0.5, cx0 c)"
  by unfold_locales (auto simp: column_less_def Let_def)

definition included_columns :: "page_element list \<Rightarrow> column_metrics \<Rightarrow> column_cluster list \<Rightarrow> ro_column list" where
  "included_columns elements m clusters =
     sort_by column_less
       (map (cluster_column elements) (filter (include_cluster elements m clusters) clusters))"

subsection \<open>Merging columns\<close>

definition merged_column :: "ro_column \<Rightarrow> ro_column \<Rightarrow> ro_column" where
  "merged_column a b = \<lparr>cx0 = min (cx0 a) (cx0 b), cx1 = max (cx1 a) (cx1 b)\<rparr>"

definition mergeColumnPair :: "ro_column list \<Rightarrow> nat \<Rightarrow> ro_column list" where
  "mergeColumnPair columns left_index =
     take left_index columns @
     [merged_column (columns ! left_index) (columns ! (left_index + 1))] @
     drop (left_index + 2) columns"

lemma length_mergeColumnPair:
  "i + 1 < length cs \<Longrightarrow> length (mergeColumnPair cs i) = length cs - 1"
  by (simp add: mergeColumnPair_def)

text \<open>\<open>for (index = 0; index + 1 < size;)\<close>: merge at \<open>index\<close> or step past it.\<close>

function merge_narrow_gutters :: "double \<Rightarrow> nat \<Rightarrow> ro_column list \<Rightarrow> ro_column list" where
  "merge_narrow_gutters minimum_gutter index columns =
     (if index + 1 < length columns then
        let gap = cx0 (columns ! (index + 1)) - cx1 (columns ! index)
        in if gap \<le> minimum_gutter
           then merge_narrow_gutters minimum_gutter index (mergeColumnPair columns index)
           else merge_narrow_gutters minimum_gutter (index + 1) columns
      else columns)"
  by pat_completeness auto
termination
  by (relation "measure (\<lambda>(g, i, cs). 2 * length cs - i)") (auto simp: length_mergeColumnPair)

declare merge_narrow_gutters.simps [simp del]

definition narrowest_gap :: "ro_column list \<Rightarrow> nat" where
  "narrowest_gap columns =
     (case best_of (\<lambda>i. Some (cx0 (columns ! (i + 1)) - cx1 (columns ! i))) [0..<length columns - 1] of
        None \<Rightarrow> 0 | Some i \<Rightarrow> i)"

lemma narrowest_gap_less: "2 \<le> length cs \<Longrightarrow> narrowest_gap cs + 1 < length cs"
  by (auto simp: narrowest_gap_def dest!: best_of_mem split: option.split)

function limit_columns :: "ro_column list \<Rightarrow> ro_column list" where
  "limit_columns columns =
     (if length columns > kMaximumColumns
      then limit_columns (mergeColumnPair columns (narrowest_gap columns)) else columns)"
  by pat_completeness auto
termination
proof (relation "measure length")
  fix columns :: "ro_column list"
  assume "kMaximumColumns < length columns"
  then have "2 \<le> length columns" by (simp add: kMaximumColumns_def)
  from length_mergeColumnPair[OF narrowest_gap_less[OF this]] this
  show "(mergeColumnPair columns (narrowest_gap columns), columns) \<in> measure length" by simp
qed simp

declare limit_columns.simps [simp del]

definition inferColumns :: "page_element list \<Rightarrow> nat list \<Rightarrow> ro_column list" where
  "inferColumns elements indices =
     (if indices = [] then []
      else
        let candidates = column_candidates elements indices;
            m = measure_columns elements candidates;
            regular = regular_elements elements m candidates;
            clusters = build_clusters elements m regular
        in limit_columns (merge_narrow_gutters (cm_minimum_gutter m) 0
             (included_columns elements m clusters)))"

subsection \<open>The columns a box covers\<close>

definition locateColumns :: "bbox \<Rightarrow> ro_column list \<Rightarrow> column_range" where
  "locateColumns b columns =
     (if length columns \<le> 1 then \<lparr>rng_first = 0, rng_last = 0\<rparr>
      else
        let matched = filter (\<lambda>i. let overlap = columnOverlap b (columns ! i) in
                          overlap / max kEpsilon (bboxWidth b) \<ge> 0.10 \<or>
                          overlap / max kEpsilon (cx1 (columns ! i) - cx0 (columns ! i)) \<ge> 0.20)
                        [0..<length columns]
        in if matched \<noteq> [] then \<lparr>rng_first = hd matched, rng_last = last matched\<rparr>
           else
             let nearest = (case best_of (\<lambda>i. Some \<bar>centerX b - (cx0 (columns ! i) + cx1 (columns ! i)) * 0.5\<bar>)
                               [0..<length columns] of None \<Rightarrow> 0 | Some i \<Rightarrow> i)
             in \<lparr>rng_first = nearest, rng_last = nearest\<rparr>)"

definition spansAllColumns :: "bbox \<Rightarrow> ro_column list \<Rightarrow> bool" where
  "spansAllColumns b columns =
     (if length columns < 2 then False
      else
        let range = locateColumns b columns;
            content_width = cx1 (last columns) - cx0 (hd columns)
        in rng_first range = 0 \<and> rng_last range = length columns - 1 \<and>
           bboxWidth b \<ge> content_width * 0.55)"

subsection \<open>Bounds\<close>

lemma length_limit_columns: "length (limit_columns cs) \<le> kMaximumColumns"
proof (induction cs rule: limit_columns.induct)
  case (1 columns)
  then show ?case
    by (cases "length columns > kMaximumColumns") (simp_all add: limit_columns.simps[of columns])
qed

lemma limit_columns_ne: "cs \<noteq> [] \<Longrightarrow> limit_columns cs \<noteq> []"
proof (induction cs rule: limit_columns.induct)
  case (1 columns)
  then show ?case
    by (cases "length columns > kMaximumColumns")
      (simp_all add: limit_columns.simps[of columns] mergeColumnPair_def)
qed

lemma merge_narrow_gutters_ne: "cs \<noteq> [] \<Longrightarrow> merge_narrow_gutters g i cs \<noteq> []"
proof (induction g i cs rule: merge_narrow_gutters.induct)
  case (1 g i cs)
  then show ?case
    by (subst merge_narrow_gutters.simps) (auto simp: Let_def mergeColumnPair_def)
qed

lemma regular_elements_ne: "candidates \<noteq> [] \<Longrightarrow> regular_elements elements m candidates \<noteq> []"
  by (cases candidates; cases "tl candidates") (auto simp: regular_elements_def Let_def)

lemma add_to_clusters_ne [simp]: "add_to_clusters elements m cs i \<noteq> []"
  by (auto simp: add_to_clusters_def Let_def upd_at_def split: option.split dest!: best_of_mem)

lemma build_clusters_ne: "regular \<noteq> [] \<Longrightarrow> build_clusters elements m regular \<noteq> []"
  by (cases regular rule: rev_cases) (simp_all add: build_clusters_def)

lemma included_columns_ne: "clusters \<noteq> [] \<Longrightarrow> included_columns elements m clusters \<noteq> []"
proof -
  assume ne: "clusters \<noteq> []"
  have "filter (include_cluster elements m clusters) clusters \<noteq> []"
  proof (cases "length (filter (strong_cluster m) clusters) < 2")
    case True
    then have "filter (include_cluster elements m clusters) clusters = clusters"
      by (simp add: include_cluster_def filter_id_conv)
    with ne show ?thesis by simp
  next
    case False
    then obtain c where "c \<in> set clusters" "strong_cluster m c"
      by (metis filter_False list.size(3) zero_less_numeral)
    then show ?thesis by (auto simp: include_cluster_def filter_empty_conv)
  qed
  then show ?thesis by (simp add: included_columns_def)
qed

lemma column_candidates_ne: "indices \<noteq> [] \<Longrightarrow> column_candidates elements indices \<noteq> []"
  by (auto simp: column_candidates_def Let_def)

lemma inferColumns_bounds:
  assumes "indices \<noteq> []"
  shows "1 \<le> length (inferColumns elements indices)" "length (inferColumns elements indices) \<le> 6"
proof -
  have "inferColumns elements indices \<noteq> []"
    using assms
    by (auto simp: inferColumns_def Let_def limit_columns_ne merge_narrow_gutters_ne included_columns_ne
        build_clusters_ne regular_elements_ne column_candidates_ne)
  then show "1 \<le> length (inferColumns elements indices)" by (cases "inferColumns elements indices") auto
  show "length (inferColumns elements indices) \<le> 6"
    using assms length_limit_columns by (simp add: inferColumns_def Let_def kMaximumColumns_def)
qed

lemma sorted_hd_last: "sorted (xs :: nat list) \<Longrightarrow> xs \<noteq> [] \<Longrightarrow> hd xs \<le> last xs"
  by (metis hd_in_set last_in_set sorted_nth_mono hd_conv_nth last_conv_nth diff_le_self
      length_greater_0_conv diff_less zero_less_one zero_le)

lemma locateColumns_range:
  fixes b cs
  defines "r \<equiv> locateColumns b cs"
  shows "rng_first r \<le> rng_last r \<and> rng_last r < max 1 (length cs)"
proof (cases "length cs \<le> 1")
  case True
  then show ?thesis by (auto simp: r_def locateColumns_def)
next
  case False
  let ?m = "filter (\<lambda>i. let overlap = columnOverlap b (cs ! i) in
                          overlap / max kEpsilon (bboxWidth b) \<ge> 0.10 \<or>
                          overlap / max kEpsilon (cx1 (cs ! i) - cx0 (cs ! i)) \<ge> 0.20)
                        [0..<length cs]"
  show ?thesis
  proof (cases "?m = []")
    case True
    then show ?thesis using False
      by (auto simp: r_def locateColumns_def Let_def dest!: best_of_mem split: option.split)
  next
    case ne: False
    have "hd ?m \<le> last ?m" using ne by (intro sorted_hd_last) (simp_all add: sorted_wrt_filter)
    moreover have "last ?m < length cs" using last_in_set[OF ne] by simp
    ultimately show ?thesis using False ne by (auto simp: r_def locateColumns_def Let_def)
  qed
qed

section \<open>Properties\<close>

text \<open>
  a non-empty group has between one and six columns, however its boxes lie, and every box
  is placed in a range of them that exists: \<open>0 \<le> first \<le> last < columns\<close>.
\<close>

lemma inferColumns_locate_bounds:
  assumes "indices \<noteq> []" and "columns = inferColumns elements indices"
  shows "1 \<le> length columns \<and> length columns \<le> 6 \<and>
    rng_first (locateColumns b columns) \<le> rng_last (locateColumns b columns) \<and>
    rng_last (locateColumns b columns) < length columns"
  using inferColumns_bounds[OF assms(1), of elements] locateColumns_range[of b columns]
  by (auto simp: assms(2) max_def)

lemma inferColumns_locate_bounds_witness:
  "length (inferColumns [\<lparr>pe_layout_block_index = 0, pe_block = default_layout_block,
       pe_bbox = empty_bbox\<rparr>] [0]) \<le> 6"
  using inferColumns_locate_bounds[OF _ refl, of "[0]" "[\<lparr>pe_layout_block_index = 0,
      pe_block = default_layout_block, pe_bbox = empty_bbox\<rparr>]" empty_bbox] by simp

end
