(* ===== verification/Reading_Cycle.thy ===== *)
theory Reading_Cycle
  imports Reading_Columns
begin

text \<open>
  The precedence graph of \<open>cpp/reading_order/docling_like_reading_order_backend.cpp\<close>: weighted
  edges and the depth-first search for a cycle among them. The search recurses through a
  \<open>std::function\<close>, so it carries fuel; the lemmas show that the number of elements is enough
  fuel, that a returned cycle is one, and that an empty result means there is none.
\<close>

record weighted_edge =
  e_from :: nat
  e_to :: nat
  e_confidence :: double
  e_reason :: string
  e_active :: bool

fun addEdge :: "weighted_edge list \<Rightarrow> nat \<Rightarrow> nat \<Rightarrow> double \<Rightarrow> string \<Rightarrow> weighted_edge list" where
  "addEdge [] from to confidence reason =
     (if from = to then []
      else [\<lparr>e_from = from, e_to = to, e_confidence = confidence, e_reason = reason, e_active = True\<rparr>])"
| "addEdge (edge # edges) from to confidence reason =
     (if from = to then edge # edges
      else if e_from edge \<noteq> from \<or> e_to edge \<noteq> to
      then edge # addEdge edges from to confidence reason
      else if confidence > e_confidence edge
      then edge\<lparr>e_confidence := confidence, e_reason := reason\<rparr> # edges
      else edge # edges)"

subsection \<open>The search for a cycle\<close>

record dfs =
  dfs_state :: "nat list"
  dfs_parent :: "nat option list"
  dfs_cycle :: "nat list"

text \<open>An edge the search follows: active, and not into an element already in the order.\<close>

definition admissible :: "weighted_edge list \<Rightarrow> bool list \<Rightarrow> nat \<Rightarrow> bool" where
  "admissible edges emitted i \<longleftrightarrow> e_active (edges ! i) \<and> \<not> emitted ! e_to (edges ! i)"

text \<open>
  \<open>while (current != edge.to)\<close> along the parent edges: the inner \<open>None\<close> is the early return
  for a node without a parent edge.
\<close>

fun walk_back :: "nat \<Rightarrow> weighted_edge list \<Rightarrow> nat option list \<Rightarrow> nat \<Rightarrow> nat \<Rightarrow> nat list option option" where
  "walk_back 0 edges parent target current = None"
| "walk_back (Suc fuel) edges parent target current =
     (if current = target then Some (Some [])
      else case parent ! current of
          None \<Rightarrow> Some None
        | Some incoming \<Rightarrow>
            map_option (map_option ((#) incoming))
              (walk_back fuel edges parent target (e_from (edges ! incoming))))"

text \<open>The body of the lambda \<open>visit\<close> over the remaining edge indices; \<open>rec\<close> is its own call.\<close>

fun edge_loop :: "(nat \<Rightarrow> dfs \<Rightarrow> (bool \<times> dfs) option) \<Rightarrow> weighted_edge list \<Rightarrow> bool list \<Rightarrow> nat \<Rightarrow>
    nat list \<Rightarrow> dfs \<Rightarrow> (bool \<times> dfs) option" where
  "edge_loop rec edges emitted node [] s =
     Some (False, s\<lparr>dfs_state := (dfs_state s)[node := 2]\<rparr>)"
| "edge_loop rec edges emitted node (i # is) s =
     (let edge = edges ! i in
      if \<not> e_active edge \<or> e_from edge \<noteq> node \<or> emitted ! e_to edge
      then edge_loop rec edges emitted node is s
      else if dfs_state s ! e_to edge = 0 then
        (case rec (e_to edge) (s\<lparr>dfs_parent := (dfs_parent s)[e_to edge := Some i]\<rparr>) of
           None \<Rightarrow> None
         | Some (True, s') \<Rightarrow> Some (True, s')
         | Some (False, s') \<Rightarrow> edge_loop rec edges emitted node is s')
      else if dfs_state s ! e_to edge = 1 then
        (case walk_back (Suc (length emitted)) edges (dfs_parent s) (e_to edge) node of
           None \<Rightarrow> None
         | Some None \<Rightarrow> Some (False, s\<lparr>dfs_cycle := []\<rparr>)
         | Some (Some back) \<Rightarrow> Some (True, s\<lparr>dfs_cycle := dfs_cycle s @ [i] @ back\<rparr>))
      else edge_loop rec edges emitted node is s)"

fun visit :: "nat \<Rightarrow> weighted_edge list \<Rightarrow> bool list \<Rightarrow> nat \<Rightarrow> dfs \<Rightarrow> (bool \<times> dfs) option" where
  "visit 0 edges emitted node s = None"
| "visit (Suc fuel) edges emitted node s =
     edge_loop (visit fuel edges emitted) edges emitted node [0..<length edges]
       (s\<lparr>dfs_state := (dfs_state s)[node := 1]\<rparr>)"

fun search_roots :: "weighted_edge list \<Rightarrow> bool list \<Rightarrow> nat list \<Rightarrow> dfs \<Rightarrow> nat list option" where
  "search_roots edges emitted [] s = Some []"
| "search_roots edges emitted (node # nodes) s =
     (if \<not> emitted ! node \<and> dfs_state s ! node = 0 then
        (case visit (length emitted) edges emitted node s of
           None \<Rightarrow> None
         | Some (True, s') \<Rightarrow> Some (dfs_cycle s')
         | Some (False, s') \<Rightarrow> search_roots edges emitted nodes s')
      else search_roots edges emitted nodes s)"

definition findCycleEdges :: "weighted_edge list \<Rightarrow> bool list \<Rightarrow> nat list option" where
  "findCycleEdges edges emitted =
     search_roots edges emitted [0..<length emitted]
       \<lparr>dfs_state = replicate (length emitted) 0, dfs_parent = replicate (length emitted) None,
        dfs_cycle = []\<rparr>"

subsection \<open>Cycles\<close>

definition edges_in :: "nat \<Rightarrow> weighted_edge list \<Rightarrow> bool" where
  "edges_in n edges \<longleftrightarrow> (\<forall>e\<in>set edges. e_from e < n \<and> e_to e < n)"

lemma edges_inD: "edges_in n edges \<Longrightarrow> i < length edges \<Longrightarrow> e_from (edges ! i) < n \<and> e_to (edges ! i) < n"
  by (simp add: edges_in_def)

text \<open>Edge indices listed against their direction, from \<open>v\<close> back to \<open>w\<close>.\<close>

fun back_walk :: "weighted_edge list \<Rightarrow> nat \<Rightarrow> nat list \<Rightarrow> nat \<Rightarrow> bool" where
  "back_walk edges v [] w \<longleftrightarrow> v = w"
| "back_walk edges v (i # is) w \<longleftrightarrow> e_to (edges ! i) = v \<and> back_walk edges (e_from (edges ! i)) is w"

definition is_cycle :: "weighted_edge list \<Rightarrow> nat list \<Rightarrow> bool" where
  "is_cycle edges cycle \<longleftrightarrow> cycle \<noteq> [] \<and> (\<exists>v. back_walk edges v cycle v)"

definition follows :: "weighted_edge list \<Rightarrow> bool list \<Rightarrow> nat list \<Rightarrow> bool" where
  "follows edges emitted is \<longleftrightarrow> (\<forall>i\<in>set is. i < length edges \<and> admissible edges emitted i)"

lemma back_walk_source:
  "back_walk edges v is w \<Longrightarrow> i \<in> set is \<Longrightarrow>
   e_from (edges ! i) = w \<or> (\<exists>j\<in>set is. e_from (edges ! i) = e_to (edges ! j))"
proof (induction "is" arbitrary: v)
  case (Cons k ks)
  show ?case
  proof (cases "i = k")
    case True
    then show ?thesis using Cons.prems(1) by (cases ks) auto
  next
    case False
    then show ?thesis using Cons by auto
  qed
qed simp

lemma cycle_source:
  "is_cycle edges cycle \<Longrightarrow> i \<in> set cycle \<Longrightarrow> \<exists>j\<in>set cycle. e_from (edges ! i) = e_to (edges ! j)"
proof -
  assume "is_cycle edges cycle" and i: "i \<in> set cycle"
  then obtain v where v: "back_walk edges v cycle v" "cycle \<noteq> []" by (auto simp: is_cycle_def)
  then have "e_to (edges ! hd cycle) = v" by (cases cycle) auto
  with back_walk_source[OF v(1) i] v(2) show ?thesis by (metis hd_in_set)
qed

subsection \<open>The parents of the nodes in progress\<close>

fun linked :: "weighted_edge list \<Rightarrow> bool list \<Rightarrow> nat option list \<Rightarrow> nat list \<Rightarrow> bool" where
  "linked edges emitted parent (v # u # st) \<longleftrightarrow>
     (\<exists>i. parent ! v = Some i \<and> i < length edges \<and> admissible edges emitted i \<and>
        e_from (edges ! i) = u \<and> e_to (edges ! i) = v) \<and> linked edges emitted parent (u # st)"
| "linked edges emitted parent st \<longleftrightarrow> True"

lemma linked_tl: "linked edges emitted parent (v # st) \<Longrightarrow> linked edges emitted parent st"
  by (cases st) auto

lemma linked_upd:
  "v \<notin> set st \<Longrightarrow> linked edges emitted (parent[v := x]) st = linked edges emitted parent st"
  by (induction edges emitted parent st rule: linked.induct) (auto simp: nth_list_update)

lemma walk_back_found:
  assumes "linked edges emitted parent (v # st)" "distinct (v # st)" "t \<in> set (v # st)"
    and "length st < fuel"
  shows "\<exists>is. walk_back fuel edges parent t v = Some (Some is) \<and> back_walk edges v is t \<and>
    follows edges emitted is"
  using assms
proof (induction st arbitrary: v fuel)
  case Nil
  then show ?case by (cases fuel) (auto simp: follows_def)
next
  case (Cons u st)
  then obtain f where f: "fuel = Suc f" "length st < f" by (cases fuel) auto
  from Cons.prems(1) obtain i where i: "parent ! v = Some i" "i < length edges"
    "admissible edges emitted i" "e_from (edges ! i) = u" "e_to (edges ! i) = v" by auto
  show ?case
  proof (cases "v = t")
    case True
    then show ?thesis using f by (intro exI[of _ "[]"]) (simp add: follows_def)
  next
    case False
    have "linked edges emitted parent (u # st)" using Cons.prems(1) by simp
    then obtain "is" where "walk_back f edges parent t u = Some (Some is)"
      "back_walk edges u is t" "follows edges emitted is"
      using Cons.IH[of u f] Cons.prems(2,3) f(2) False by auto
    then show ?thesis
      using False f i by (intro exI[of _ "i # is"]) (auto simp: follows_def)
  qed
qed

subsection \<open>The search's invariant\<close>

text \<open>
  Finished nodes are kept newest first, as a ghost: every admissible edge out of one leads to
  an older one. So the finished part has no cycle, and the newest node has no edge into it.
\<close>

fun closed :: "weighted_edge list \<Rightarrow> bool list \<Rightarrow> nat list \<Rightarrow> bool" where
  "closed edges emitted [] \<longleftrightarrow> True"
| "closed edges emitted (v # fin) \<longleftrightarrow> closed edges emitted fin \<and>
     (\<forall>i<length edges. admissible edges emitted i \<and> e_from (edges ! i) = v \<longrightarrow> e_to (edges ! i) \<in> set fin)"

lemma closed_target:
  "closed edges emitted fin \<Longrightarrow> i < length edges \<Longrightarrow> admissible edges emitted i \<Longrightarrow>
   e_from (edges ! i) \<in> set fin \<Longrightarrow> e_to (edges ! i) \<in> set (tl fin)"
proof (induction fin)
  case (Cons v fin)
  then show ?case by (cases fin) auto
qed simp

definition dfs_inv ::
  "weighted_edge list \<Rightarrow> bool list \<Rightarrow> nat list \<Rightarrow> nat list \<Rightarrow> dfs \<Rightarrow> bool" where
  "dfs_inv edges emitted st fin s \<longleftrightarrow>
     length (dfs_state s) = length emitted \<and> length (dfs_parent s) = length emitted \<and>
     (\<forall>v<length emitted. dfs_state s ! v =
        (if v \<in> set st then 1 else if v \<in> set fin then 2 else 0)) \<and>
     set st \<union> set fin \<subseteq> {v. v < length emitted \<and> \<not> emitted ! v} \<and> distinct (st @ fin) \<and>
     linked edges emitted (dfs_parent s) st \<and> closed edges emitted fin \<and> dfs_cycle s = []"

text \<open>What a call of \<open>visit\<close> gives, from \<open>st\<close> in progress and \<open>fin\<close> finished.\<close>

definition visited ::
  "weighted_edge list \<Rightarrow> bool list \<Rightarrow> nat list \<Rightarrow> nat \<Rightarrow> nat list \<Rightarrow> (bool \<times> dfs) option \<Rightarrow> bool" where
  "visited edges emitted st node fin res \<longleftrightarrow>
     (\<exists>s. res = Some (True, s) \<and> is_cycle edges (dfs_cycle s) \<and> follows edges emitted (dfs_cycle s)) \<or>
     (\<exists>s ext. res = Some (False, s) \<and> dfs_inv edges emitted st (node # ext @ fin) s)"

lemma visitedE:
  assumes "visited edges emitted st node fin res"
  obtains s where "res = Some (True, s)" "is_cycle edges (dfs_cycle s)" "follows edges emitted (dfs_cycle s)"
    | s ext where "res = Some (False, s)" "dfs_inv edges emitted st (node # ext @ fin) s"
  using assms by (auto simp: visited_def)

lemma visited_extend:
  "visited edges emitted st node (ext @ fin) res \<Longrightarrow> visited edges emitted st node fin res"
  unfolding visited_def by (metis append.assoc)

lemma dfs_inv_size: "dfs_inv edges emitted st fin s \<Longrightarrow> length st + length fin \<le> length emitted"
proof -
  assume inv: "dfs_inv edges emitted st fin s"
  have "set (st @ fin) \<subseteq> {..<length emitted}" "distinct (st @ fin)"
    using inv by (auto simp: dfs_inv_def)
  then have "card (set (st @ fin)) \<le> length emitted" by (metis card_lessThan card_mono finite_lessThan)
  with \<open>distinct (st @ fin)\<close> show ?thesis by (simp only: distinct_card length_append)
qed

lemma dfs_inv_room:
  assumes "dfs_inv edges emitted st fin s" "v < length emitted" "\<not> emitted ! v" "v \<notin> set (st @ fin)"
  shows "length st + length fin < length emitted"
proof -
  have "set (v # st @ fin) \<subseteq> {..<length emitted}" "distinct (v # st @ fin)"
    using assms by (auto simp: dfs_inv_def)
  then have "card (set (v # st @ fin)) \<le> length emitted" by (metis card_lessThan card_mono finite_lessThan)
  with \<open>distinct (v # st @ fin)\<close> show ?thesis by (simp only: distinct_card list.size length_append)
qed

text \<open>Starting a white node, and finishing the current one.\<close>

lemma dfs_inv_start:
  assumes "dfs_inv edges emitted st fin s" "v < length emitted" "\<not> emitted ! v"
    "v \<notin> set st" "v \<notin> set fin" "linked edges emitted (dfs_parent s) (v # st)"
  shows "dfs_inv edges emitted (v # st) fin (s\<lparr>dfs_state := (dfs_state s)[v := 1]\<rparr>)"
  using assms by (auto simp: dfs_inv_def nth_list_update)

lemma dfs_inv_finish:
  assumes "dfs_inv edges emitted (v # st) fin s"
    and "\<And>i. i < length edges \<Longrightarrow> admissible edges emitted i \<Longrightarrow> e_from (edges ! i) = v \<Longrightarrow>
      e_to (edges ! i) \<in> set fin"
  shows "dfs_inv edges emitted st (v # fin) (s\<lparr>dfs_state := (dfs_state s)[v := 2]\<rparr>)"
  using assms by (auto simp: dfs_inv_def nth_list_update dest: linked_tl)

lemma dfs_inv_parent:
  assumes "dfs_inv edges emitted (node # st) fin s" "i < length edges" "admissible edges emitted i"
    "e_from (edges ! i) = node" "e_to (edges ! i) < length emitted" "e_to (edges ! i) \<notin> set (node # st)"
    "parent = (dfs_parent s)[e_to (edges ! i) := Some i]"
  shows "dfs_inv edges emitted (node # st) fin (s\<lparr>dfs_parent := parent\<rparr>)"
    "linked edges emitted parent (e_to (edges ! i) # node # st)"
  using assms by (auto simp: dfs_inv_def linked_upd)

lemma edge_loop_visited:
  assumes rec_ok: "\<And>v s st fin. dfs_inv edges emitted st fin s \<Longrightarrow> v < length emitted \<Longrightarrow> \<not> emitted ! v \<Longrightarrow>
      v \<notin> set (st @ fin) \<Longrightarrow> linked edges emitted (dfs_parent s) (v # st) \<Longrightarrow>
      length emitted \<le> f + length st + length fin \<Longrightarrow> visited edges emitted st v fin (rec v s)"
    and valid: "edges_in (length emitted) edges"
  shows "dfs_inv edges emitted (node # st) fin s \<Longrightarrow> set is \<subseteq> {..<length edges} \<Longrightarrow>
    (\<And>i. i < length edges \<Longrightarrow> i \<notin> set is \<Longrightarrow> admissible edges emitted i \<Longrightarrow> e_from (edges ! i) = node \<Longrightarrow>
      e_to (edges ! i) \<in> set fin) \<Longrightarrow>
    length emitted \<le> f + Suc (length st) + length fin \<Longrightarrow>
    visited edges emitted st node fin (edge_loop rec edges emitted node is s)"
proof (induction "is" arbitrary: s fin)
  case Nil
  then have "dfs_inv edges emitted st (node # [] @ fin) (s\<lparr>dfs_state := (dfs_state s)[node := 2]\<rparr>)"
    by (simp add: dfs_inv_finish)
  then show ?case unfolding visited_def by fastforce
next
  case (Cons i "is")
  let ?e = "edges ! i"
  have i: "i < length edges" and to: "e_to ?e < length emitted"
    using Cons.prems(2) valid by (auto dest: edges_inD)
  show ?case
  proof (cases "admissible edges emitted i \<and> e_from ?e = node")
    case False
    then have "edge_loop rec edges emitted node (i # is) s = edge_loop rec edges emitted node is s"
      by (auto simp: admissible_def Let_def)
    moreover have "visited edges emitted st node fin (edge_loop rec edges emitted node is s)"
      using Cons.prems False by (intro Cons.IH) auto
    ultimately show ?thesis by simp
  next
    case adm: True
    then have skip: "\<not> (\<not> e_active ?e \<or> e_from ?e \<noteq> node \<or> emitted ! e_to ?e)"
      by (simp add: admissible_def)
    have st: "dfs_state s ! e_to ?e =
        (if e_to ?e \<in> set (node # st) then 1 else if e_to ?e \<in> set fin then 2 else 0)"
      using Cons.prems(1) to by (simp add: dfs_inv_def)
    consider (white) "e_to ?e \<notin> set (node # st)" "e_to ?e \<notin> set fin" | (gray) "e_to ?e \<in> set (node # st)"
      | (black) "e_to ?e \<notin> set (node # st)" "e_to ?e \<in> set fin" by blast
    then show ?thesis
    proof cases
      case white
      let ?s = "s\<lparr>dfs_parent := (dfs_parent s)[e_to ?e := Some i]\<rparr>"
      have inv: "dfs_inv edges emitted (node # st) fin ?s"
        and "linked edges emitted (dfs_parent ?s) (e_to ?e # node # st)"
        using dfs_inv_parent[OF Cons.prems(1) i _ _ to white(1) refl] adm by simp_all
      then have v: "visited edges emitted (node # st) (e_to ?e) fin (rec (e_to ?e) ?s)"
        using white to skip Cons.prems(4) by (intro rec_ok) auto
      have eq: "edge_loop rec edges emitted node (i # is) s =
          (case rec (e_to ?e) ?s of None \<Rightarrow> None | Some (True, s') \<Rightarrow> Some (True, s')
           | Some (False, s') \<Rightarrow> edge_loop rec edges emitted node is s')"
        using skip st white by (simp add: Let_def)
      from v show ?thesis
      proof (cases rule: visitedE)
        case (1 s')
        then show ?thesis unfolding eq visited_def by simp
      next
        case (2 s' ext)
        have "visited edges emitted st node (e_to ?e # ext @ fin) (edge_loop rec edges emitted node is s')"
        proof (rule Cons.IH[OF 2(2)])
          show "set is \<subseteq> {..<length edges}" using Cons.prems(2) by simp
          show "e_to (edges ! k) \<in> set (e_to ?e # ext @ fin)" if "k < length edges" "k \<notin> set is"
            "admissible edges emitted k" "e_from (edges ! k) = node" for k
            using Cons.prems(3)[of k] that by (cases "k = i") auto
        qed (use Cons.prems(4) in simp)
        then have "visited edges emitted st node fin (edge_loop rec edges emitted node is s')"
          using visited_extend[of edges emitted st node "e_to ?e # ext" fin] by simp
        then show ?thesis unfolding eq 2(1) by simp
      qed
    next
      case gray
      have "linked edges emitted (dfs_parent s) (node # st)" "distinct (node # st)"
        using Cons.prems(1) by (auto simp: dfs_inv_def)
      moreover have "length st < Suc (length emitted)" using dfs_inv_size[OF Cons.prems(1)] by simp
      ultimately obtain bk where bk: "walk_back (Suc (length emitted)) edges (dfs_parent s) (e_to ?e) node
          = Some (Some bk)" "back_walk edges node bk (e_to ?e)" "follows edges emitted bk"
        using walk_back_found[OF _ _ gray] by blast
      have "back_walk edges (e_to ?e) (i # bk) (e_to ?e)" using bk(2) adm by simp
      then have "is_cycle edges (i # bk)" unfolding is_cycle_def by blast
      moreover have "follows edges emitted (i # bk)" using bk(3) adm i by (simp add: follows_def)
      moreover have "dfs_cycle s = []" using Cons.prems(1) by (simp add: dfs_inv_def)
      moreover have "edge_loop rec edges emitted node (i # is) s =
          Some (True, s\<lparr>dfs_cycle := dfs_cycle s @ [i] @ bk\<rparr>)"
        using skip st gray bk(1) by (simp add: Let_def del: walk_back.simps)
      ultimately show ?thesis unfolding visited_def by simp
    next
      case black
      then have "edge_loop rec edges emitted node (i # is) s = edge_loop rec edges emitted node is s"
        using st skip by (simp add: Let_def)
      moreover have "visited edges emitted st node fin (edge_loop rec edges emitted node is s)"
      proof (rule Cons.IH)
        show "e_to (edges ! k) \<in> set fin" if "k < length edges" "k \<notin> set is"
          "admissible edges emitted k" "e_from (edges ! k) = node" for k
          using Cons.prems(3)[of k] that black by (cases "k = i") auto
      qed (use Cons.prems in auto)
      ultimately show ?thesis by simp
    qed
  qed
qed

lemma visit_visited:
  assumes valid: "edges_in (length emitted) edges"
  shows "dfs_inv edges emitted st fin s \<Longrightarrow> v < length emitted \<Longrightarrow> \<not> emitted ! v \<Longrightarrow>
    v \<notin> set (st @ fin) \<Longrightarrow> linked edges emitted (dfs_parent s) (v # st) \<Longrightarrow>
    length emitted \<le> fuel + length st + length fin \<Longrightarrow>
    visited edges emitted st v fin (visit fuel edges emitted v s)"
proof (induction fuel arbitrary: v s st fin)
  case 0
  then show ?case using dfs_inv_room[OF 0(1-4)] by simp
next
  case (Suc fuel)
  have inv: "dfs_inv edges emitted (v # st) fin (s\<lparr>dfs_state := (dfs_state s)[v := 1]\<rparr>)"
    using Suc.prems by (intro dfs_inv_start) auto
  show ?case
    unfolding visit.simps
    by (rule edge_loop_visited[OF Suc.IH valid inv]) (use Suc.prems(6) in auto)
qed

lemma search_roots_found:
  assumes valid: "edges_in (length emitted) edges"
  shows "dfs_inv edges emitted [] fin s \<Longrightarrow> set nodes \<subseteq> {..<length emitted} \<Longrightarrow>
    (\<And>v. v < length emitted \<Longrightarrow> v \<notin> set nodes \<Longrightarrow> \<not> emitted ! v \<Longrightarrow> v \<in> set fin) \<Longrightarrow>
    (\<exists>cycle. search_roots edges emitted nodes s = Some cycle \<and> is_cycle edges cycle \<and>
       follows edges emitted cycle) \<or>
    (search_roots edges emitted nodes s = Some [] \<and> (\<exists>fin. closed edges emitted fin \<and> distinct fin \<and>
       set fin = {v. v < length emitted \<and> \<not> emitted ! v}))"
proof (induction nodes arbitrary: fin s)
  case Nil
  then have "closed edges emitted fin" "distinct fin" "set fin = {v. v < length emitted \<and> \<not> emitted ! v}"
    by (auto simp: dfs_inv_def)
  then show ?case by auto
next
  case (Cons v nodes)
  have v: "v < length emitted" using Cons.prems(2) by simp
  have state: "dfs_state s ! v = (if v \<in> set fin then 2 else 0)"
    using Cons.prems(1) v by (simp add: dfs_inv_def)
  show ?case
  proof (cases "\<not> emitted ! v \<and> v \<notin> set fin")
    case False
    then have "search_roots edges emitted (v # nodes) s = search_roots edges emitted nodes s"
      using state by auto
    moreover have "\<And>u. u < length emitted \<Longrightarrow> u \<notin> set nodes \<Longrightarrow> \<not> emitted ! u \<Longrightarrow> u \<in> set fin"
      using Cons.prems(3) False by (metis set_ConsD)
    ultimately show ?thesis using Cons.IH[OF Cons.prems(1)] Cons.prems(2) by simp
  next
    case True
    have "visited edges emitted [] v fin (visit (length emitted) edges emitted v s)"
      using True by (intro visit_visited[OF valid Cons.prems(1) v]) auto
    then show ?thesis
    proof (cases rule: visitedE)
      case (1 s')
      then show ?thesis using True state by simp
    next
      case (2 s' ext)
      have "\<And>u. u < length emitted \<Longrightarrow> u \<notin> set nodes \<Longrightarrow> \<not> emitted ! u \<Longrightarrow> u \<in> set (v # ext @ fin)"
        using Cons.prems(3) by auto
      then show ?thesis using Cons.IH[OF 2(2)] Cons.prems(2) True state 2(1) by simp
    qed
  qed
qed

text \<open>
  The search always returns. A non-empty result is a cycle of edges it may follow; an empty one
  with elements left means one of them has no edge into it from another element that is left.
\<close>

lemma findCycleEdges_result:
  assumes "edges_in (length emitted) edges"
  shows "(\<exists>cycle. findCycleEdges edges emitted = Some cycle \<and> is_cycle edges cycle \<and>
      follows edges emitted cycle) \<or>
    (findCycleEdges edges emitted = Some [] \<and>
     ((\<exists>v<length emitted. \<not> emitted ! v) \<longrightarrow> (\<exists>v<length emitted. \<not> emitted ! v \<and>
        (\<forall>i<length edges. admissible edges emitted i \<and> e_to (edges ! i) = v \<longrightarrow> emitted ! e_from (edges ! i)))))"
proof -
  let ?s = "\<lparr>dfs_state = replicate (length emitted) 0, dfs_parent = replicate (length emitted) None,
        dfs_cycle = []\<rparr>"
  have inv: "dfs_inv edges emitted [] [] ?s" by (simp add: dfs_inv_def)
  have "\<exists>v<length emitted. \<not> emitted ! v \<and>
      (\<forall>i<length edges. admissible edges emitted i \<and> e_to (edges ! i) = v \<longrightarrow> emitted ! e_from (edges ! i))"
    if fin: "closed edges emitted fin" "distinct fin" "set fin = {v. v < length emitted \<and> \<not> emitted ! v}"
      and ex: "\<exists>v<length emitted. \<not> emitted ! v" for fin
  proof -
    from fin(3) ex obtain u rest where f: "fin = u # rest" by (cases fin) auto
    have "emitted ! e_from (edges ! i)" if "i < length edges" "admissible edges emitted i"
      "e_to (edges ! i) = u" for i
    proof (rule ccontr)
      assume "\<not> emitted ! e_from (edges ! i)"
      then have "e_from (edges ! i) \<in> set fin"
        using fin(3) that(1) assms by (auto dest: edges_inD)
      then have "u \<in> set rest" using closed_target[OF fin(1) that(1,2)] that(3) f by simp
      with fin(2) f show False by simp
    qed
    moreover have "u < length emitted" "\<not> emitted ! u" using fin(3) f by auto
    ultimately show ?thesis by blast
  qed
  then show ?thesis
    unfolding findCycleEdges_def
    using search_roots_found[OF assms inv, of "[0..<length emitted]"] by (auto simp: atLeast0LessThan)
qed

end
