(* ===== verification/Reading_Topo.thy ===== *)
theory Reading_Topo
  imports Reading_Cycle
begin

text \<open>
  The topological order of \<open>cpp/reading_order/docling_like_reading_order_backend.cpp\<close>: the
  least ready element comes next, and where there is none the weakest edge of a cycle is
  dropped. The loop runs until every element is out, so it carries fuel, and the lemmas show
  that elements plus edges (plus one for the last test) is enough.
\<close>

definition comesBefore ::
  "page_element list \<Rightarrow> column_range list \<Rightarrow> nat \<Rightarrow> nat \<Rightarrow> nat \<Rightarrow> bool" where
  "comesBefore elements ranges column_count lhs rhs =
     (let left = elements ! lhs; right = elements ! rhs in
      if column_count > 1 \<and> rng_first (ranges ! lhs) \<noteq> rng_first (ranges ! rhs)
      then rng_first (ranges ! lhs) < rng_first (ranges ! rhs)
      else if by0 (pe_bbox left) \<noteq> by0 (pe_bbox right) then by0 (pe_bbox left) < by0 (pe_bbox right)
      else if bx0 (pe_bbox left) \<noteq> bx0 (pe_bbox right) then bx0 (pe_bbox left) < bx0 (pe_bbox right)
      else pe_layout_block_index left < pe_layout_block_index right)"

interpretation comesBefore: keyed_order "comesBefore elements ranges column_count"
  "\<lambda>i. (if column_count > 1 then rng_first (ranges ! i) else 0, by0 (pe_bbox (elements ! i)),
        bx0 (pe_bbox (elements ! i)), pe_layout_block_index (elements ! i))"
  for elements ranges column_count
  by unfold_locales (auto simp: comesBefore_def Let_def)

text \<open>\<open>++trace.edge_counts[reason]\<close>, the default of a missing entry being zero.\<close>

definition count_edge :: "string \<Rightarrow> reading_order_trace \<Rightarrow> reading_order_trace" where
  "count_edge reason trace = trace\<lparr>tr_edge_counts :=
     amap_alter (\<lambda>c. case c of None \<Rightarrow> 1 | Some k \<Rightarrow> k + 1) reason (tr_edge_counts trace)\<rparr>"

definition recordEdgeCounts :: "weighted_edge list \<Rightarrow> reading_order_trace \<Rightarrow> reading_order_trace" where
  "recordEdgeCounts edges trace = foldl (\<lambda>t edge. count_edge (e_reason edge) t) trace edges"

subsection \<open>The topological order\<close>

definition weaker :: "weighted_edge list \<Rightarrow> nat \<Rightarrow> nat \<Rightarrow> bool" where
  "weaker edges i j \<longleftrightarrow>
     (e_confidence (edges ! i), e_reason (edges ! i), e_from (edges ! i), e_to (edges ! i)) <
     (e_confidence (edges ! j), e_reason (edges ! j), e_from (edges ! j), e_to (edges ! j))"

interpretation weaker: keyed_order "weaker edges"
  "\<lambda>i. (e_confidence (edges ! i), e_reason (edges ! i), e_from (edges ! i), e_to (edges ! i))" for edges
  by unfold_locales (simp add: weaker_def)

record topo =
  tp_edges :: "weighted_edge list"
  tp_indegree :: "int list"
  tp_emitted :: "bool list"
  tp_order :: "nat list"
  tp_trace :: reading_order_trace

definition break_of :: "page_element list \<Rightarrow> weighted_edge \<Rightarrow> cycle_break" where
  "break_of elements edge =
     \<lparr>cb_from_layout_block_id = lb_id (pe_block (elements ! e_from edge)),
      cb_to_layout_block_id = lb_id (pe_block (elements ! e_to edge)),
      cb_reason = e_reason edge, cb_confidence = e_confidence edge\<rparr>"

definition break_edge :: "page_element list \<Rightarrow> nat \<Rightarrow> topo \<Rightarrow> topo" where
  "break_edge elements weakest s =
     (let edge = tp_edges s ! weakest in
      s\<lparr>tp_edges := upd_at (tp_edges s) weakest (\<lambda>e. e\<lparr>e_active := False\<rparr>),
        tp_indegree := upd_at (tp_indegree s) (e_to edge) (\<lambda>d. d - 1),
        tp_trace := (tp_trace s)\<lparr>tr_cycle_breaks :=
          tr_cycle_breaks (tp_trace s) @ [break_of elements edge]\<rparr>\<rparr>)"

definition release_targets :: "nat \<Rightarrow> bool list \<Rightarrow> weighted_edge list \<Rightarrow> int list \<Rightarrow> int list" where
  "release_targets chosen emitted edges indegree =
     foldl (\<lambda>deg edge. if e_active edge \<and> e_from edge = chosen \<and> \<not> emitted ! e_to edge
                       then upd_at deg (e_to edge) (\<lambda>d. d - 1) else deg) indegree edges"

definition emit_element :: "nat \<Rightarrow> topo \<Rightarrow> topo" where
  "emit_element chosen s =
     (let emitted = (tp_emitted s)[chosen := True] in
      s\<lparr>tp_emitted := emitted, tp_order := tp_order s @ [chosen],
        tp_indegree := release_targets chosen emitted (tp_edges s) (tp_indegree s)\<rparr>)"

text \<open>One pass of \<open>while (order.size() < elements.size())\<close>.\<close>

definition topo_step ::
  "page_element list \<Rightarrow> column_range list \<Rightarrow> nat \<Rightarrow> topo \<Rightarrow> topo option" where
  "topo_step elements ranges column_count s =
     (let before = comesBefore elements ranges column_count in
      case pick_least before
             (filter (\<lambda>i. \<not> (tp_emitted s ! i \<or> tp_indegree s ! i \<noteq> 0)) [0..<length elements]) of
        Some chosen \<Rightarrow> Some (emit_element chosen s)
      | None \<Rightarrow>
          (case findCycleEdges (tp_edges s) (tp_emitted s) of
             None \<Rightarrow> None
           | Some cycle \<Rightarrow>
               (case pick_least (weaker (tp_edges s)) cycle of
                  Some weakest \<Rightarrow> Some (break_edge elements weakest s)
                | None \<Rightarrow>
                    (case pick_least before (filter (\<lambda>i. \<not> tp_emitted s ! i) [0..<length elements]) of
                       Some chosen \<Rightarrow> Some (emit_element chosen s)
                     | None \<Rightarrow> None))))"

fun topo_loop ::
  "nat \<Rightarrow> page_element list \<Rightarrow> column_range list \<Rightarrow> nat \<Rightarrow> topo \<Rightarrow> topo option" where
  "topo_loop 0 elements ranges column_count s = None"
| "topo_loop (Suc fuel) elements ranges column_count s =
     (if length (tp_order s) < length elements
      then case topo_step elements ranges column_count s of
             None \<Rightarrow> None
           | Some s' \<Rightarrow> topo_loop fuel elements ranges column_count s'
      else Some s)"

definition initial_indegree :: "nat \<Rightarrow> weighted_edge list \<Rightarrow> int list" where
  "initial_indegree n edges = foldl (\<lambda>deg edge. upd_at deg (e_to edge) (\<lambda>d. d + 1)) (replicate n 0) edges"

definition stableTopologicalOrder ::
  "page_element list \<Rightarrow> column_range list \<Rightarrow> nat \<Rightarrow> weighted_edge list \<Rightarrow> reading_order_trace \<Rightarrow>
   (nat list \<times> reading_order_trace) option" where
  "stableTopologicalOrder elements ranges column_count edges trace =
     map_option (\<lambda>s. (tp_order s, tp_trace s))
       (topo_loop (Suc (length elements + length edges)) elements ranges column_count
         \<lparr>tp_edges = edges, tp_indegree = initial_indegree (length elements) edges,
          tp_emitted = replicate (length elements) False, tp_order = [], tp_trace = trace\<rparr>)"

subsection \<open>Degrees\<close>

definition open_edges :: "weighted_edge list \<Rightarrow> bool list \<Rightarrow> nat \<Rightarrow> nat" where
  "open_edges edges emitted v =
     length (filter (\<lambda>e. e_active e \<and> e_to e = v \<and> \<not> emitted ! e_from e) edges)"

lemma length_release_targets [simp]: "length (release_targets c emitted edges deg) = length deg"
proof (induction edges arbitrary: deg)
  case (Cons e es)
  then show ?case by (simp add: release_targets_def)
qed (simp add: release_targets_def)

lemma release_targets_nth:
  "edges_in (length deg) edges \<Longrightarrow> v < length deg \<Longrightarrow>
   release_targets c emitted edges deg ! v = deg ! v - (if emitted ! v then 0
     else int (length (filter (\<lambda>e. e_active e \<and> e_from e = c \<and> e_to e = v) edges)))"
proof (induction edges arbitrary: deg)
  case (Cons e es)
  have step: "release_targets c emitted (e # es) deg = release_targets c emitted es
      (if e_active e \<and> e_from e = c \<and> \<not> emitted ! e_to e then upd_at deg (e_to e) (\<lambda>d. d - 1) else deg)"
    by (simp add: release_targets_def)
  have "edges_in (length deg) es" "e_to e < length deg" using Cons.prems(1) by (auto simp: edges_in_def)
  then show ?case unfolding step using Cons.IH Cons.prems(2) by (auto simp: nth_upd_at)
qed (simp add: release_targets_def)

lemma foldl_indegree:
  "edges_in (length deg) edges \<Longrightarrow> v < length deg \<Longrightarrow>
   length (foldl (\<lambda>deg edge. upd_at deg (e_to edge) (\<lambda>d. d + 1)) deg edges) = length deg \<and>
   foldl (\<lambda>deg edge. upd_at deg (e_to edge) (\<lambda>d. d + 1)) deg edges ! v =
     deg ! v + int (length (filter (\<lambda>e. e_to e = v) edges))"
proof (induction edges arbitrary: deg)
  case (Cons e es)
  have "edges_in (length deg) es" "e_to e < length deg" using Cons.prems(1) by (auto simp: edges_in_def)
  then show ?case using Cons.IH[of "upd_at deg (e_to e) (\<lambda>d. d + 1)"] Cons.prems(2)
    by (auto simp: nth_upd_at)
qed simp

lemma length_initial_indegree [simp]: "length (initial_indegree n edges) = n"
proof -
  have "length (foldl (\<lambda>deg edge. upd_at deg (e_to edge) (\<lambda>d. d + 1)) deg edges) = length deg" for deg :: "int list"
    by (induction edges arbitrary: deg) auto
  then show ?thesis by (simp add: initial_indegree_def)
qed

lemma initial_indegree_nth:
  assumes "edges_in n edges" "\<forall>e\<in>set edges. e_active e" "v < n"
  shows "initial_indegree n edges ! v = int (open_edges edges (replicate n False) v)"
proof -
  have "filter (\<lambda>e. e_to e = v) edges =
      filter (\<lambda>e. e_active e \<and> e_to e = v \<and> \<not> replicate n False ! e_from e) edges"
    using assms(1,2) by (intro filter_cong) (auto simp: edges_in_def)
  then show ?thesis
    using foldl_indegree[of "replicate n 0" edges v] assms by (simp add: initial_indegree_def open_edges_def)
qed

lemma length_filter_split:
  "length (filter P xs) = length (filter (\<lambda>x. P x \<and> Q x) xs) + length (filter (\<lambda>x. P x \<and> \<not> Q x) xs)"
  by (induction xs) auto

lemma open_edges_emit:
  assumes "edges_in (length emitted) edges" "c < length emitted" "\<not> emitted ! c"
  shows "open_edges edges emitted v = open_edges edges (emitted[c := True]) v +
    length (filter (\<lambda>e. e_active e \<and> e_from e = c \<and> e_to e = v) edges)"
proof -
  let ?P = "\<lambda>e. e_active e \<and> e_to e = v \<and> \<not> emitted ! e_from e"
  have "filter (\<lambda>e. ?P e \<and> e_from e = c) edges = filter (\<lambda>e. e_active e \<and> e_from e = c \<and> e_to e = v) edges"
    using assms(3) by (intro filter_cong) auto
  moreover have "filter (\<lambda>e. ?P e \<and> e_from e \<noteq> c) edges =
      filter (\<lambda>e. e_active e \<and> e_to e = v \<and> \<not> emitted[c := True] ! e_from e) edges"
    using assms(1,2) by (intro filter_cong) (auto simp: edges_in_def nth_list_update)
  ultimately show ?thesis
    using length_filter_split[of ?P edges "\<lambda>e. e_from e = c"] by (simp add: open_edges_def)
qed

lemma length_filter_upd_at:
  "i < length xs \<Longrightarrow> int (length (filter P (upd_at xs i f))) =
     int (length (filter P xs)) - (if P (xs ! i) then 1 else 0) + (if P (f (xs ! i)) then 1 else 0)"
proof (induction xs arbitrary: i)
  case (Cons x xs)
  show ?case
  proof (cases i)
    case (Suc j)
    have "upd_at (x # xs) i f = x # upd_at xs j f" using Suc Cons.prems by (simp add: upd_at_def)
    with Suc Cons.IH[of j] Cons.prems show ?thesis
      by (cases "P (xs ! j)"; cases "P (f (xs ! j))") simp_all
  qed (simp add: upd_at_def)
qed simp

subsection \<open>The loop's invariant\<close>

definition precedes :: "'a list \<Rightarrow> 'a \<Rightarrow> 'a \<Rightarrow> bool" where
  "precedes xs a b \<longleftrightarrow> (\<exists>ys zs. xs = ys @ zs \<and> a \<in> set ys \<and> b \<in> set zs)"

lemma precedes_append: "precedes xs a b \<Longrightarrow> precedes (xs @ ys) a b"
  unfolding precedes_def by (metis UnI1 append.assoc set_append)

lemma precedes_snoc: "a \<in> set xs \<Longrightarrow> precedes (xs @ [b]) a b"
  unfolding precedes_def by (intro exI[of _ xs] exI[of _ "[b]"]) simp

definition activated :: "weighted_edge list \<Rightarrow> weighted_edge list" where
  "activated edges = map (\<lambda>e. e\<lparr>e_active := True\<rparr>) edges"

text \<open>Edge \<open>i\<close> is the weakest one on some cycle.\<close>

definition weakest_on_cycle :: "weighted_edge list \<Rightarrow> nat \<Rightarrow> bool" where
  "weakest_on_cycle edges i \<longleftrightarrow> (\<exists>cycle. is_cycle edges cycle \<and> set cycle \<subseteq> {..<length edges} \<and>
     i \<in> set cycle \<and> (\<forall>j\<in>set cycle. \<not> weaker edges j i))"

lemma activated_nth [simp]:
  "i < length edges \<Longrightarrow> activated edges ! i = (edges ! i)\<lparr>e_active := True\<rparr>"
  "length (activated edges) = length edges"
  by (simp_all add: activated_def)

lemma back_walk_activated:
  "set is \<subseteq> {..<length edges} \<Longrightarrow> back_walk (activated edges) v is w = back_walk edges v is w"
  by (induction "is" arbitrary: v) auto

lemma weakest_on_cycle_activated:
  assumes "is_cycle edges cycle" "set cycle \<subseteq> {..<length edges}"
    "pick_least (weaker edges) cycle = Some i"
  shows "weakest_on_cycle (activated edges) i"
proof -
  have i: "i \<in> set cycle" using assms(3) by (rule pick_least_mem)
  have "is_cycle (activated edges) cycle"
    using assms(1,2) by (simp add: is_cycle_def back_walk_activated)
  moreover have "\<not> weaker (activated edges) j i" if "j \<in> set cycle" for j
  proof -
    have "i < length edges" "j < length edges" using that i assms(2) by auto
    with weaker.pick_least_le[OF assms(3) that] show ?thesis by (simp add: weaker_def)
  qed
  ultimately show ?thesis using i assms(2) unfolding weakest_on_cycle_def activated_nth(2) by blast
qed

definition topo_inv ::
  "page_element list \<Rightarrow> weighted_edge list \<Rightarrow> reading_order_trace \<Rightarrow> nat list \<Rightarrow> topo \<Rightarrow> bool" where
  "topo_inv elements edges trace broken s \<longleftrightarrow>
     length (tp_indegree s) = length elements \<and> length (tp_emitted s) = length elements \<and>
     edges_in (length elements) (tp_edges s) \<and> activated (tp_edges s) = edges \<and>
     distinct (tp_order s) \<and> set (tp_order s) = {v. v < length elements \<and> tp_emitted s ! v} \<and>
     (\<forall>v<length elements. \<not> tp_emitted s ! v \<longrightarrow>
        tp_indegree s ! v = int (open_edges (tp_edges s) (tp_emitted s) v)) \<and>
     (\<forall>e\<in>set (tp_edges s). e_active e \<and> tp_emitted s ! e_to e \<longrightarrow> precedes (tp_order s) (e_from e) (e_to e)) \<and>
     distinct broken \<and> set broken = {i. i < length edges \<and> \<not> e_active (tp_edges s ! i)} \<and>
     (\<forall>i\<in>set broken. weakest_on_cycle edges i) \<and>
     tp_trace s = trace\<lparr>tr_cycle_breaks := tr_cycle_breaks trace @
       map (\<lambda>i. break_of elements (edges ! i)) broken\<rparr>"

definition topo_rest :: "page_element list \<Rightarrow> topo \<Rightarrow> nat" where
  "topo_rest elements s =
     (length elements - length (tp_order s)) + length (filter e_active (tp_edges s))"

lemma topo_inv_init:
  assumes "edges_in (length elements) edges" "\<forall>e\<in>set edges. e_active e"
  shows "topo_inv elements edges trace []
    \<lparr>tp_edges = edges, tp_indegree = initial_indegree (length elements) edges,
     tp_emitted = replicate (length elements) False, tp_order = [], tp_trace = trace\<rparr>"
proof -
  have "activated edges = edges"
    unfolding activated_def using assms(2) by (intro map_idI) simp
  moreover have "e_to e < length elements" if "e \<in> set edges" for e
    using that assms(1) by (simp add: edges_in_def)
  ultimately show ?thesis
    using assms by (auto simp: topo_inv_def initial_indegree_nth)
qed

lemma topo_inv_emit:
  assumes inv: "topo_inv elements edges trace broken s" and c: "c < length elements" "\<not> tp_emitted s ! c"
    "tp_indegree s ! c = 0"
  shows "topo_inv elements edges trace broken (emit_element c s)"
    "topo_rest elements (emit_element c s) < topo_rest elements s"
proof -
  from inv have len: "length (tp_indegree s) = length elements" "length (tp_emitted s) = length elements"
    and ei: "edges_in (length elements) (tp_edges s)"
    and ord: "distinct (tp_order s)" "set (tp_order s) = {v. v < length elements \<and> tp_emitted s ! v}"
    and deg: "\<And>v. v < length elements \<Longrightarrow> \<not> tp_emitted s ! v \<Longrightarrow>
        tp_indegree s ! v = int (open_edges (tp_edges s) (tp_emitted s) v)"
    and prec: "\<And>e. e \<in> set (tp_edges s) \<Longrightarrow> e_active e \<Longrightarrow> tp_emitted s ! e_to e \<Longrightarrow>
        precedes (tp_order s) (e_from e) (e_to e)"
    unfolding topo_inv_def by auto
  have "open_edges (tp_edges s) (tp_emitted s) c = 0" using deg[OF c(1,2)] c(3) by simp
  then have ready: "tp_emitted s ! e_from e" if "e \<in> set (tp_edges s)" "e_active e" "e_to e = c" for e
    using that by (auto simp: open_edges_def filter_empty_conv)
  let ?em = "(tp_emitted s)[c := True]"
  have fields: "tp_edges (emit_element c s) = tp_edges s" "tp_emitted (emit_element c s) = ?em"
    "tp_order (emit_element c s) = tp_order s @ [c]" "tp_trace (emit_element c s) = tp_trace s"
    "tp_indegree (emit_element c s) = release_targets c ?em (tp_edges s) (tp_indegree s)"
    by (simp_all add: emit_element_def Let_def)
  have set': "set (tp_order s @ [c]) = {v. v < length elements \<and> ?em ! v}"
    using ord(2) c(1) len(2) by (auto simp: nth_list_update)
  have dist': "distinct (tp_order s @ [c])" using ord c by auto
  have deg': "release_targets c ?em (tp_edges s) (tp_indegree s) ! v = int (open_edges (tp_edges s) ?em v)"
    if "v < length elements" "\<not> ?em ! v" for v
  proof -
    have "\<not> tp_emitted s ! v" using that len(2) c(1) by (auto simp: nth_list_update split: if_splits)
    then show ?thesis
      using that deg[of v] open_edges_emit[of "tp_emitted s" "tp_edges s" c v] ei c len
      by (simp add: release_targets_nth)
  qed
  have prec': "precedes (tp_order s @ [c]) (e_from e) (e_to e)"
    if e: "e \<in> set (tp_edges s)" "e_active e" "?em ! e_to e" for e
  proof (cases "e_to e = c")
    case True
    then have "e_from e \<in> set (tp_order s)"
      using ready[OF e(1,2)] e(1) ei ord(2) by (auto simp: edges_in_def)
    then show ?thesis using True by (simp add: precedes_snoc)
  next
    case False
    then show ?thesis using prec[OF e(1,2)] e(3) by (simp add: precedes_append)
  qed
  show "topo_inv elements edges trace broken (emit_element c s)"
    using inv set' dist' deg' prec' unfolding topo_inv_def fields
    by (elim conjE) (intro conjI; (assumption | simp | blast))
  have "length (tp_order s @ [c]) \<le> length elements"
    using set' dist' by (metis (no_types, lifting) card_Collect_less_nat card_mono distinct_card
        finite_Collect_less_nat mem_Collect_eq subsetI)
  then show "topo_rest elements (emit_element c s) < topo_rest elements s"
    unfolding topo_rest_def fields by simp
qed

lemma topo_inv_break:
  assumes inv: "topo_inv elements edges trace broken s"
    and cyc: "is_cycle (tp_edges s) cycle" "follows (tp_edges s) (tp_emitted s) cycle"
    and w: "pick_least (weaker (tp_edges s)) cycle = Some w"
  shows "topo_inv elements edges trace (broken @ [w]) (break_edge elements w s)"
    "topo_rest elements (break_edge elements w s) < topo_rest elements s"
proof -
  from inv have len: "length (tp_indegree s) = length elements" "length (tp_emitted s) = length elements"
    and ei: "edges_in (length elements) (tp_edges s)" and act: "activated (tp_edges s) = edges"
    and deg: "\<And>v. v < length elements \<Longrightarrow> \<not> tp_emitted s ! v \<Longrightarrow>
        tp_indegree s ! v = int (open_edges (tp_edges s) (tp_emitted s) v)"
    and prec: "\<And>e. e \<in> set (tp_edges s) \<Longrightarrow> e_active e \<Longrightarrow> tp_emitted s ! e_to e \<Longrightarrow>
        precedes (tp_order s) (e_from e) (e_to e)"
    and br: "distinct broken" "set broken = {i. i < length edges \<and> \<not> e_active (tp_edges s ! i)}"
      "\<And>i. i \<in> set broken \<Longrightarrow> weakest_on_cycle edges i"
    unfolding topo_inv_def by auto
  let ?es = "tp_edges s" and ?f = "\<lambda>e :: weighted_edge. e\<lparr>e_active := False\<rparr>"
  have lenE: "length edges = length ?es" using act by auto
  have wc: "w \<in> set cycle" by (rule pick_least_mem[OF w])
  then have wl: "w < length ?es" and wa: "e_active (?es ! w)" and wt: "\<not> tp_emitted s ! e_to (?es ! w)"
    using cyc(2) by (auto simp: follows_def admissible_def)
  obtain j where "j \<in> set cycle" "e_from (?es ! w) = e_to (?es ! j)"
    using cycle_source[OF cyc(1) wc] by blast
  then have wf: "\<not> tp_emitted s ! e_from (?es ! w)"
    using cyc(2) by (auto simp: follows_def admissible_def)
  have to: "e_to (?es ! w) < length elements" using edges_inD[OF ei wl] by simp
  have fields: "tp_edges (break_edge elements w s) = upd_at ?es w ?f"
    "tp_emitted (break_edge elements w s) = tp_emitted s" "tp_order (break_edge elements w s) = tp_order s"
    "tp_indegree (break_edge elements w s) = upd_at (tp_indegree s) (e_to (?es ! w)) (\<lambda>d. d - 1)"
    "tp_trace (break_edge elements w s) = (tp_trace s)\<lparr>tr_cycle_breaks :=
       tr_cycle_breaks (tp_trace s) @ [break_of elements (?es ! w)]\<rparr>"
    by (simp_all add: break_edge_def Let_def)
  have mem: "\<exists>e'\<in>set ?es. e_from e = e_from e' \<and> e_to e = e_to e' \<and> (e_active e \<longrightarrow> e_active e')"
    if "e \<in> set (upd_at ?es w ?f)" for e
    using in_set_upd_at[OF that] nth_mem[OF wl] by auto
  have ei': "edges_in (length elements) (upd_at ?es w ?f)"
    using ei mem unfolding edges_in_def by metis
  have act': "activated (upd_at ?es w ?f) = edges"
    unfolding act[symmetric]
    by (rule nth_equalityI) (use wl in \<open>auto simp: nth_upd_at\<close>)
  have deg': "upd_at (tp_indegree s) (e_to (?es ! w)) (\<lambda>d. d - 1) ! v =
      int (open_edges (upd_at ?es w ?f) (tp_emitted s) v)"
    if "v < length elements" "\<not> tp_emitted s ! v" for v
    using deg[OF that] wl wa wf to len that unfolding open_edges_def
    by (auto simp: nth_upd_at length_filter_upd_at)
  have prec': "precedes (tp_order s) (e_from e) (e_to e)"
    if "e \<in> set (upd_at ?es w ?f)" "e_active e" "tp_emitted s ! e_to e" for e
    using mem[OF that(1)] prec that(2,3) by metis
  have br': "distinct (broken @ [w])"
    "set (broken @ [w]) = {i. i < length edges \<and> \<not> e_active (upd_at ?es w ?f ! i)}"
    using br wl wa lenE by (auto simp: nth_upd_at)
  have "set cycle \<subseteq> {..<length ?es}" using cyc(2) by (auto simp: follows_def)
  then have weak: "weakest_on_cycle edges w"
    using weakest_on_cycle_activated[OF cyc(1) _ w] act by simp
  have br3: "\<forall>i\<in>set (broken @ [w]). weakest_on_cycle edges i" using br(3) weak by auto
  have bo: "break_of elements (?es ! w) = break_of elements (edges ! w)"
    using wl act[symmetric] by (simp add: break_of_def)
  have trace': "tp_trace (break_edge elements w s) = trace\<lparr>tr_cycle_breaks := tr_cycle_breaks trace @
      map (\<lambda>i. break_of elements (edges ! i)) (broken @ [w])\<rparr>"
    using inv unfolding fields bo by (simp add: topo_inv_def)
  show "topo_inv elements edges trace (broken @ [w]) (break_edge elements w s)"
    using inv ei' act' deg' prec' br' br3 trace' unfolding topo_inv_def fields
    by (elim conjE) (intro conjI; (assumption | simp | blast))
  have "int (length (filter e_active (upd_at ?es w ?f))) < int (length (filter e_active ?es))"
    using wl wa by (simp add: length_filter_upd_at)
  then show "topo_rest elements (break_edge elements w s) < topo_rest elements s"
    unfolding topo_rest_def fields by simp
qed

lemma topo_step_ok:
  assumes inv: "topo_inv elements edges trace broken s" and more: "length (tp_order s) < length elements"
  shows "\<exists>s' broken'. topo_step elements ranges column_count s = Some s' \<and>
    topo_inv elements edges trace broken' s' \<and> topo_rest elements s' < topo_rest elements s"
proof -
  let ?ready = "filter (\<lambda>i. \<not> (tp_emitted s ! i \<or> tp_indegree s ! i \<noteq> 0)) [0..<length elements]"
  let ?before = "comesBefore elements ranges column_count"
  from inv have len: "length (tp_emitted s) = length elements"
    and ei: "edges_in (length elements) (tp_edges s)"
    and ord: "distinct (tp_order s)" "set (tp_order s) = {v. v < length elements \<and> tp_emitted s ! v}"
    and deg: "\<And>v. v < length elements \<Longrightarrow> \<not> tp_emitted s ! v \<Longrightarrow>
        tp_indegree s ! v = int (open_edges (tp_edges s) (tp_emitted s) v)"
    unfolding topo_inv_def by auto
  have left: "\<exists>v<length elements. \<not> tp_emitted s ! v"
  proof (rule ccontr)
    assume "\<not> ?thesis"
    then have "set (tp_order s) = {..<length elements}" using ord(2) by auto
    then have "card (set (tp_order s)) = length elements" by simp
    with more ord(1) show False by (simp add: distinct_card)
  qed
  show ?thesis
  proof (cases "pick_least ?before ?ready")
    case (Some c)
    then have "c < length elements" "\<not> tp_emitted s ! c" "tp_indegree s ! c = 0"
      using pick_least_mem by fastforce+
    from topo_inv_emit[OF inv this] Some show ?thesis
      by (auto simp: topo_step_def Let_def)
  next
    case None
    then have "?ready = []" by simp
    then have none: "open_edges (tp_edges s) (tp_emitted s) v \<noteq> 0" if "v < length elements" "\<not> tp_emitted s ! v" for v
      using that deg[OF that] by (auto simp: filter_empty_conv)
    have "\<not> (\<exists>v<length elements. \<not> tp_emitted s ! v \<and> (\<forall>i<length (tp_edges s).
        admissible (tp_edges s) (tp_emitted s) i \<and> e_to (tp_edges s ! i) = v \<longrightarrow>
        tp_emitted s ! e_from (tp_edges s ! i)))"
    proof
      assume "\<exists>v<length elements. \<not> tp_emitted s ! v \<and> (\<forall>i<length (tp_edges s).
        admissible (tp_edges s) (tp_emitted s) i \<and> e_to (tp_edges s ! i) = v \<longrightarrow>
        tp_emitted s ! e_from (tp_edges s ! i))"
      then obtain v where v: "v < length elements" "\<not> tp_emitted s ! v" and src: "\<And>i. i < length (tp_edges s) \<Longrightarrow>
        admissible (tp_edges s) (tp_emitted s) i \<Longrightarrow> e_to (tp_edges s ! i) = v \<Longrightarrow>
        tp_emitted s ! e_from (tp_edges s ! i)" by blast
      obtain e where e: "e \<in> set (tp_edges s)" "e_active e" "e_to e = v" "\<not> tp_emitted s ! e_from e"
        using none[OF v] by (auto simp: open_edges_def filter_empty_conv)
      then obtain i where "i < length (tp_edges s)" "tp_edges s ! i = e" by (auto simp: in_set_conv_nth)
      with src[of i] e v(2) show False by (simp add: admissible_def)
    qed
    then obtain cycle where cycle: "findCycleEdges (tp_edges s) (tp_emitted s) = Some cycle"
      "is_cycle (tp_edges s) cycle" "follows (tp_edges s) (tp_emitted s) cycle"
      using findCycleEdges_result[of "tp_emitted s" "tp_edges s"] ei len left by auto
    then obtain w where w: "pick_least (weaker (tp_edges s)) cycle = Some w"
      by (cases "pick_least (weaker (tp_edges s)) cycle") (auto simp: is_cycle_def)
    have "topo_step elements ranges column_count s = Some (break_edge elements w s)"
      using \<open>?ready = []\<close> cycle(1) w by (simp add: topo_step_def Let_def)
    with topo_inv_break[OF inv cycle(2,3) w] show ?thesis by blast
  qed
qed

lemma topo_loop_ok:
  "topo_inv elements edges trace broken s \<Longrightarrow> topo_rest elements s < fuel \<Longrightarrow>
   \<exists>s' broken'. topo_loop fuel elements ranges column_count s = Some s' \<and>
     topo_inv elements edges trace broken' s' \<and> length elements \<le> length (tp_order s')"
proof (induction fuel arbitrary: s broken)
  case (Suc fuel)
  show ?case
  proof (cases "length (tp_order s) < length elements")
    case True
    from topo_step_ok[OF Suc.prems(1) True] obtain s1 b1 where
      "topo_step elements ranges column_count s = Some s1" "topo_inv elements edges trace b1 s1"
      "topo_rest elements s1 < topo_rest elements s" by blast
    with Suc.IH[of b1 s1] Suc.prems(2) True show ?thesis by simp
  next
    case False
    with Suc.prems(1) show ?thesis by auto
  qed
qed simp

text \<open>
  The order with every edge kept that was not broken. The cycle breaks recorded in the trace
  name exactly the broken edges, and each of those is the weakest edge of a cycle.
\<close>

definition topological ::
  "page_element list \<Rightarrow> weighted_edge list \<Rightarrow> reading_order_trace \<Rightarrow> nat list \<times> reading_order_trace \<Rightarrow> bool" where
  "topological elements edges trace res \<longleftrightarrow>
     distinct (fst res) \<and> set (fst res) = {..<length elements} \<and>
     (\<exists>broken. distinct broken \<and> set broken \<subseteq> {..<length edges} \<and>
        snd res = trace\<lparr>tr_cycle_breaks := tr_cycle_breaks trace @
          map (\<lambda>i. break_of elements (edges ! i)) broken\<rparr> \<and>
        (\<forall>i\<in>set broken. weakest_on_cycle edges i) \<and>
        (\<forall>i<length edges. i \<notin> set broken \<longrightarrow>
           precedes (fst res) (e_from (edges ! i)) (e_to (edges ! i))))"

lemma stableTopologicalOrder_ok:
  assumes "edges_in (length elements) edges" "\<forall>e\<in>set edges. e_active e"
  shows "\<exists>res. stableTopologicalOrder elements ranges column_count edges trace = Some res \<and>
    topological elements edges trace res"
proof -
  let ?s = "\<lparr>tp_edges = edges, tp_indegree = initial_indegree (length elements) edges,
     tp_emitted = replicate (length elements) False, tp_order = [], tp_trace = trace\<rparr>"
  have "topo_rest elements ?s < Suc (length elements + length edges)"
    by (simp add: topo_rest_def le_imp_less_Suc)
  then obtain s broken where s: "topo_loop (Suc (length elements + length edges)) elements ranges column_count ?s = Some s"
    "topo_inv elements edges trace broken s" "length elements \<le> length (tp_order s)"
    using topo_loop_ok[OF topo_inv_init[OF assms]] by blast
  from s(2) have ord: "distinct (tp_order s)" "set (tp_order s) = {v. v < length elements \<and> tp_emitted s ! v}"
    and act: "activated (tp_edges s) = edges"
    and prec: "\<And>e. e \<in> set (tp_edges s) \<Longrightarrow> e_active e \<Longrightarrow> tp_emitted s ! e_to e \<Longrightarrow>
        precedes (tp_order s) (e_from e) (e_to e)"
    and br: "distinct broken" "set broken = {i. i < length edges \<and> \<not> e_active (tp_edges s ! i)}"
    and weak: "\<forall>i\<in>set broken. weakest_on_cycle edges i"
    and tr: "tp_trace s = trace\<lparr>tr_cycle_breaks := tr_cycle_breaks trace @
        map (\<lambda>i. break_of elements (edges ! i)) broken\<rparr>"
    unfolding topo_inv_def by auto
  have sub: "set (tp_order s) \<subseteq> {..<length elements}" using ord(2) by auto
  moreover have "card {..<length elements} \<le> card (set (tp_order s))"
    using s(3) ord(1) by (simp add: distinct_card)
  ultimately have all: "set (tp_order s) = {..<length elements}"
    by (intro card_seteq) simp_all
  have "precedes (tp_order s) (e_from (edges ! i)) (e_to (edges ! i))"
    if "i < length edges" "i \<notin> set broken" for i
  proof -
    have i: "i < length (tp_edges s)" using that(1) act by auto
    have "e_active (tp_edges s ! i)" using that br(2) by simp
    moreover have "e_to (edges ! i) < length elements" using edges_inD[OF assms(1) that(1)] by simp
    then have "tp_emitted s ! e_to (tp_edges s ! i)"
      using all ord(2) i act[symmetric] by auto
    ultimately show ?thesis using prec[OF nth_mem[OF i]] i act[symmetric] by simp
  qed
  then have "topological elements edges trace (tp_order s, tp_trace s)"
    unfolding topological_def using ord(1) all br weak tr by auto
  then show ?thesis using s(1) by (simp add: stableTopologicalOrder_def)
qed

text \<open>Without a cycle nothing is broken, and every edge is respected.\<close>

lemma topological_acyclic:
  assumes "topological elements edges trace res"
    and "\<not> (\<exists>cycle. is_cycle edges cycle \<and> set cycle \<subseteq> {..<length edges})"
  shows "snd res = trace" "\<forall>i<length edges. precedes (fst res) (e_from (edges ! i)) (e_to (edges ! i))"
proof -
  from assms(1) obtain broken where b: "snd res = trace\<lparr>tr_cycle_breaks := tr_cycle_breaks trace @
          map (\<lambda>i. break_of elements (edges ! i)) broken\<rparr>"
     "\<forall>i\<in>set broken. weakest_on_cycle edges i"
     "\<forall>i<length edges. i \<notin> set broken \<longrightarrow> precedes (fst res) (e_from (edges ! i)) (e_to (edges ! i))"
    unfolding topological_def by blast
  have "broken = []"
    using b(2) assms(2) by (cases broken) (auto simp: weakest_on_cycle_def)
  with b show "snd res = trace"
    "\<forall>i<length edges. precedes (fst res) (e_from (edges ! i)) (e_to (edges ! i))" by simp_all
qed

lemma strong_edge_kept:
  assumes "weakest_on_cycle edges i" "c < e_confidence (edges ! i)"
  shows "\<exists>cycle. is_cycle edges cycle \<and> set cycle \<subseteq> {j. j < length edges \<and> c < e_confidence (edges ! j)}"
proof -
  obtain cycle where cycle: "is_cycle edges cycle" "set cycle \<subseteq> {..<length edges}"
    "\<And>j. j \<in> set cycle \<Longrightarrow> \<not> weaker edges j i"
    using assms(1) unfolding weakest_on_cycle_def by blast
  have "c < e_confidence (edges ! j)" if "j \<in> set cycle" for j
    using cycle(3)[OF that] assms(2) by (simp add: weaker_def)
  with cycle show ?thesis by blast
qed

section \<open>Properties\<close>

text \<open>
  C12: the order always exists and is a permutation of the elements. The cycle breaks appended to
  the trace name the edges that were dropped; each dropped edge is the weakest one of a cycle
  of the graph, and every other edge is respected.
\<close>

theorem stableTopologicalOrder_correct:
  assumes "edges_in (length elements) edges" and "\<forall>e\<in>set edges. e_active e"
  shows "\<exists>order trace' broken.
    stableTopologicalOrder elements ranges column_count edges trace = Some (order, trace') \<and>
    distinct order \<and> set order = {..<length elements} \<and>
    trace' = trace\<lparr>tr_cycle_breaks := tr_cycle_breaks trace @
      map (\<lambda>i. break_of elements (edges ! i)) broken\<rparr> \<and>
    (\<forall>i\<in>set broken. weakest_on_cycle edges i) \<and>
    (\<forall>i<length edges. i \<notin> set broken \<longrightarrow> precedes order (e_from (edges ! i)) (e_to (edges ! i)))"
  using stableTopologicalOrder_ok[OF assms, of ranges column_count trace]
  unfolding topological_def by (metis prod.collapse)

definition sample_edges :: "weighted_edge list" where
  "sample_edges =
     [\<lparr>e_from = 0, e_to = 1, e_confidence = 1, e_reason = ''same_column'', e_active = True\<rparr>,
      \<lparr>e_from = 1, e_to = 0, e_confidence = 1 / 4, e_reason = ''model_hint'', e_active = True\<rparr>]"

definition sample_element :: "int \<Rightarrow> page_element" where
  "sample_element i = \<lparr>pe_layout_block_index = i, pe_block = default_layout_block, pe_bbox = empty_bbox\<rparr>"

lemma sample_edges_ok:
  "edges_in (length [sample_element 0, sample_element 1]) sample_edges" "\<forall>e\<in>set sample_edges. e_active e"
  by (simp_all add: sample_edges_def edges_in_def)

theorem stableTopologicalOrder_correct_witness:
  "\<exists>order trace'. stableTopologicalOrder [sample_element 0, sample_element 1] [] 1 sample_edges empty_trace
     = Some (order, trace') \<and> distinct order \<and> set order = {0, 1}"
proof -
  have "{..<length [sample_element 0, sample_element 1]} = {0, 1}" by auto
  then show ?thesis
    using stableTopologicalOrder_correct[OF sample_edges_ok, of "[]" 1 empty_trace] by metis
qed

text \<open>
  weak evidence never overrides strong evidence. When the edges above a confidence \<open>c\<close>
  have no cycle among themselves, all of them are respected, whatever weaker edges say.
\<close>

lemma strong_edges_respected:
  assumes "edges_in (length elements) edges" and "\<forall>e\<in>set edges. e_active e"
    and "\<not> (\<exists>cycle. is_cycle edges cycle \<and> set cycle \<subseteq> {i. i < length edges \<and> c < e_confidence (edges ! i)})"
  shows "\<exists>order trace'. stableTopologicalOrder elements ranges column_count edges trace = Some (order, trace') \<and>
    (\<forall>i<length edges. c < e_confidence (edges ! i) \<longrightarrow>
       precedes order (e_from (edges ! i)) (e_to (edges ! i)))"
proof -
  obtain res where res: "stableTopologicalOrder elements ranges column_count edges trace = Some res"
    "topological elements edges trace res"
    using stableTopologicalOrder_ok[OF assms(1,2)] by blast
  then obtain broken where b: "\<And>i. i \<in> set broken \<Longrightarrow> weakest_on_cycle edges i"
    "\<And>i. i < length edges \<Longrightarrow> i \<notin> set broken \<Longrightarrow> precedes (fst res) (e_from (edges ! i)) (e_to (edges ! i))"
    unfolding topological_def by blast
  have "precedes (fst res) (e_from (edges ! i)) (e_to (edges ! i))"
    if "i < length edges" "c < e_confidence (edges ! i)" for i
    using b strong_edge_kept[of edges i c] that assms(3) by blast
  with res(1) show ?thesis by (metis prod.collapse)
qed

lemma strong_edges_respected_witness:
  "\<exists>order trace'. stableTopologicalOrder [sample_element 0, sample_element 1] [] 1 sample_edges empty_trace
     = Some (order, trace') \<and> precedes order 0 1"
proof -
  have "\<not> back_walk sample_edges v cycle v"
    if ne: "cycle \<noteq> []" and sub: "set cycle \<subseteq> {i. i < length sample_edges \<and> 1 / 2 < e_confidence (sample_edges ! i)}" for v cycle
  proof -
    have "i = 0" if "i < length sample_edges" "1 / 2 < e_confidence (sample_edges ! i)" for i
      using that by (cases i) (auto simp: sample_edges_def)
    then have zero: "set cycle \<subseteq> {0}" using sub by auto
    obtain k ks where "cycle = k # ks" using ne by (cases cycle) auto
    with zero show ?thesis by (cases ks) (auto simp: sample_edges_def)
  qed
  then have "\<not> (\<exists>cycle. is_cycle sample_edges cycle \<and>
      set cycle \<subseteq> {i. i < length sample_edges \<and> 1 / 2 < e_confidence (sample_edges ! i)})"
    unfolding is_cycle_def by blast
  from strong_edges_respected[OF sample_edges_ok this, of "[]" 1 empty_trace]
  obtain order trace' where "stableTopologicalOrder [sample_element 0, sample_element 1] [] 1 sample_edges empty_trace
     = Some (order, trace')"
    "\<And>i. i < length sample_edges \<Longrightarrow> 1 / 2 < e_confidence (sample_edges ! i) \<Longrightarrow>
       precedes order (e_from (sample_edges ! i)) (e_to (sample_edges ! i))" by blast
  from this(1) this(2)[of 0] show ?thesis by (auto simp: sample_edges_def)
qed

end
