(* ===== verification/Reading_Band.thy ===== *)
theory Reading_Band
  imports Reading_Topo
begin

text \<open>
  Bands of \<open>cpp/reading_order/docling_like_reading_order_backend.cpp\<close>: \<open>orderBand\<close> builds the
  precedence graph of one band (columns top to bottom, column after column, spanning blocks
  around the blocks they separate, the layout model's hints) and orders it;
  \<open>predictGroupOrder\<close> cuts a group of blocks into bands at the blocks that span all columns.
  \<open>None\<close> stands for a search that ran out of fuel, which the lemmas exclude.
\<close>

definition kSameColumnConfidence :: double where "kSameColumnConfidence = 1.0"
definition kSpanningGeometryConfidence :: double where "kSpanningGeometryConfidence = 0.95"
definition kColumnFlowConfidence :: double where "kColumnFlowConfidence = 0.80"
definition kModelHintConfidence :: double where "kModelHintConfidence = 0.25"

record band_order =
  bo_indices :: "nat list"
  bo_ranges :: "column_range list"
  bo_column_count :: nat

definition vertical_order :: "page_element list \<Rightarrow> nat \<Rightarrow> nat \<Rightarrow> bool" where
  "vertical_order elements lhs rhs =
     (let left = pe_bbox (elements ! lhs); right = pe_bbox (elements ! rhs) in
      if centerY left \<noteq> centerY right then centerY left < centerY right
      else if bx0 left \<noteq> bx0 right then bx0 left < bx0 right
      else pe_layout_block_index (elements ! lhs) < pe_layout_block_index (elements ! rhs))"

interpretation vertical_order: keyed_order "vertical_order elements"
  "\<lambda>i. (centerY (pe_bbox (elements ! i)), bx0 (pe_bbox (elements ! i)), pe_layout_block_index (elements ! i))"
  for elements
  by unfold_locales (auto simp: vertical_order_def Let_def)

subsection \<open>The edges of a band\<close>

text \<open>\<open>for (index = 1; ...)\<close> over neighbours.\<close>

definition neighbours :: "'a list \<Rightarrow> ('a \<times> 'a) list" where
  "neighbours xs = zip xs (tl xs)"

definition same_column_edges :: "page_element list \<Rightarrow> nat list \<Rightarrow> weighted_edge list \<Rightarrow> weighted_edge list" where
  "same_column_edges elements column edges =
     foldl (\<lambda>es (before, after).
        if \<bar>centerY (pe_bbox (elements ! before)) - centerY (pe_bbox (elements ! after))\<bar> > kEpsilon
        then addEdge es before after kSameColumnConfidence ''same_column'' else es)
      edges (neighbours column)"

text \<open>The state of the loop over columns: the edges and \<open>previous_nonempty_column\<close>.\<close>

definition column_step ::
  "page_element list \<Rightarrow> nat list list \<Rightarrow> weighted_edge list \<times> nat option \<Rightarrow> nat \<Rightarrow>
   weighted_edge list \<times> nat option" where
  "column_step elements by_column acc column_index =
     (let column = by_column ! column_index;
          edges = same_column_edges elements column (fst acc);
          edges' = (case snd acc of
              Some previous \<Rightarrow>
                if column \<noteq> [] then addEdge edges (last (by_column ! previous)) (hd column)
                    kColumnFlowConfidence ''column_flow'' else edges
            | None \<Rightarrow> edges)
      in (edges', if column \<noteq> [] then Some column_index else snd acc))"

definition column_edges :: "page_element list \<Rightarrow> nat list list \<Rightarrow> weighted_edge list" where
  "column_edges elements by_column =
     fst (foldl (column_step elements by_column) ([], None) [0..<length by_column])"

definition spanning_chain :: "nat list \<Rightarrow> weighted_edge list \<Rightarrow> weighted_edge list" where
  "spanning_chain spanners edges =
     foldl (\<lambda>es (before, after). addEdge es before after kSpanningGeometryConfidence ''spanning_geometry'')
       edges (neighbours spanners)"

text \<open>
  In a column sorted by vertical center, the last candidate above the spanning block and the
  first one that is not.
\<close>

definition spanning_column_edges ::
  "page_element list \<Rightarrow> nat list list \<Rightarrow> nat \<Rightarrow> weighted_edge list \<Rightarrow> nat \<Rightarrow> weighted_edge list" where
  "spanning_column_edges elements by_column spanning_index edges column_index =
     (let center = centerY (pe_bbox (elements ! spanning_index));
          above = (\<lambda>candidate. centerY (pe_bbox (elements ! candidate)) < center);
          column = by_column ! column_index;
          uppers = takeWhile above column;
          lowers = dropWhile above column;
          edges = (if uppers \<noteq> [] then addEdge edges (last uppers) spanning_index
                     kSpanningGeometryConfidence ''spanning_geometry'' else edges)
      in if lowers \<noteq> [] then addEdge edges spanning_index (hd lowers)
           kSpanningGeometryConfidence ''spanning_geometry'' else edges)"

definition spanning_edges ::
  "page_element list \<Rightarrow> column_range list \<Rightarrow> nat list list \<Rightarrow> nat list \<Rightarrow> weighted_edge list \<Rightarrow>
   weighted_edge list" where
  "spanning_edges elements ranges by_column spanners edges =
     foldl (\<lambda>es spanning_index.
        foldl (spanning_column_edges elements by_column spanning_index) es
          [rng_first (ranges ! spanning_index)..<Suc (rng_last (ranges ! spanning_index))])
      (spanning_chain spanners edges) spanners"

definition hint_less :: "page_element list \<Rightarrow> nat \<Rightarrow> nat \<Rightarrow> bool" where
  "hint_less elements lhs rhs \<longleftrightarrow>
     lb_reading_order_hint (pe_block (elements ! lhs)) < lb_reading_order_hint (pe_block (elements ! rhs))"

interpretation hint_less: keyed_order "hint_less elements"
  "\<lambda>i. lb_reading_order_hint (pe_block (elements ! i))" for elements
  by unfold_locales (simp add: hint_less_def)

definition hint_edges :: "page_element list \<Rightarrow> weighted_edge list \<Rightarrow> weighted_edge list" where
  "hint_edges elements edges =
     (let hint = (\<lambda>i. lb_reading_order_hint (pe_block (elements ! i)));
          hinted = sort_by (hint_less elements) (filter (\<lambda>i. hint i \<ge> 0) [0..<length elements])
      in foldl (\<lambda>es (before, after). if hint before \<noteq> hint after
                  then addEdge es before after kModelHintConfidence ''model_hint'' else es)
           edges (neighbours hinted))"

definition band_columns :: "page_element list \<Rightarrow> column_range list \<Rightarrow> nat \<Rightarrow> nat list list" where
  "band_columns elements ranges column_count =
     map (\<lambda>c. sort_by (vertical_order elements)
                (filter (\<lambda>i. \<not> spanning (ranges ! i) \<and> rng_first (ranges ! i) = c) [0..<length elements]))
       [0..<column_count]"

definition band_spanning :: "page_element list \<Rightarrow> column_range list \<Rightarrow> nat list" where
  "band_spanning elements ranges =
     sort_by (vertical_order elements) (filter (\<lambda>i. spanning (ranges ! i)) [0..<length elements])"

definition band_edges :: "page_element list \<Rightarrow> column_range list \<Rightarrow> nat \<Rightarrow> weighted_edge list" where
  "band_edges elements ranges column_count =
     (let by_column = band_columns elements ranges column_count
      in hint_edges elements
           (spanning_edges elements ranges by_column (band_spanning elements ranges)
             (column_edges elements by_column)))"

definition band_placement :: "string \<Rightarrow> int \<Rightarrow> page_element \<Rightarrow> column_range \<Rightarrow> placement" where
  "band_placement grp band_index element rng =
     \<lparr>plc_layout_block_id = lb_id (pe_block element), plc_group = grp, plc_band_index = band_index,
      plc_column_start = int (rng_first rng), plc_column_end = int (rng_last rng),
      plc_parent_layout_block_id = []\<rparr>"

definition orderBand ::
  "page_element list \<Rightarrow> nat list \<Rightarrow> string \<Rightarrow> int \<Rightarrow> reading_order_trace \<Rightarrow>
   (band_order \<times> reading_order_trace) option" where
  "orderBand group_elements group_indices grp band_index trace =
     (if group_indices = [] then Some (\<lparr>bo_indices = [], bo_ranges = [], bo_column_count = 1\<rparr>, trace)
      else
        let elements = map ((!) group_elements) group_indices;
            columns = inferColumns elements [0..<length elements];
            column_count = max 1 (length columns);
            ranges = map (\<lambda>e. locateColumns (pe_bbox e) columns) elements;
            placed = trace\<lparr>tr_placements :=
              tr_placements trace @ map2 (band_placement grp band_index) elements ranges\<rparr>;
            edges = band_edges elements ranges column_count
        in map_option (\<lambda>(local_order, trace').
               (\<lparr>bo_indices = map ((!) group_indices) local_order, bo_ranges = ranges,
                 bo_column_count = column_count\<rparr>, trace'))
             (stableTopologicalOrder elements ranges column_count edges (recordEdgeCounts edges placed)))"

subsection \<open>Groups\<close>

record group_state =
  gs_order :: "nat list"
  gs_consumed :: "bool list"
  gs_band :: int
  gs_trace :: reading_order_trace

definition append_band ::
  "page_element list \<Rightarrow> string \<Rightarrow> nat list \<Rightarrow> group_state \<Rightarrow> group_state option" where
  "append_band elements grp band s =
     (if band = [] then Some s
      else map_option (\<lambda>(ordered, trace).
          s\<lparr>gs_order := gs_order s @ bo_indices ordered, gs_band := gs_band s + 1, gs_trace := trace\<rparr>)
        (orderBand elements band grp (gs_band s) (gs_trace s)))"

definition mark_consumed :: "nat list \<Rightarrow> bool list \<Rightarrow> bool list" where
  "mark_consumed indices consumed = foldl (\<lambda>c i. c[i := True]) consumed indices"

definition separator_step ::
  "page_element list \<Rightarrow> string \<Rightarrow> nat \<Rightarrow> nat list \<Rightarrow> group_state \<Rightarrow> nat \<Rightarrow> group_state option" where
  "separator_step elements grp column_count remaining s separator =
     (let separator_y = centerY (pe_bbox (elements ! separator));
          band = filter (\<lambda>i. \<not> gs_consumed s ! i \<and> centerY (pe_bbox (elements ! i)) < separator_y) remaining
      in map_option (\<lambda>s'.
           s'\<lparr>gs_trace := (gs_trace s')\<lparr>tr_placements := tr_placements (gs_trace s') @
                [band_placement grp (gs_band s') (elements ! separator)
                   \<lparr>rng_first = 0, rng_last = column_count - 1\<rparr>]\<rparr>,
              gs_order := gs_order s' @ [separator],
              gs_consumed := (gs_consumed s')[separator := True],
              gs_band := gs_band s' + 1\<rparr>)
         (append_band elements grp band (s\<lparr>gs_consumed := mark_consumed band (gs_consumed s)\<rparr>)))"

fun separator_loop ::
  "page_element list \<Rightarrow> string \<Rightarrow> nat \<Rightarrow> nat list \<Rightarrow> nat list \<Rightarrow> group_state \<Rightarrow> group_state option" where
  "separator_loop elements grp column_count remaining [] s = Some s"
| "separator_loop elements grp column_count remaining (separator # separators) s =
     (case separator_step elements grp column_count remaining s separator of
        None \<Rightarrow> None
      | Some s' \<Rightarrow> separator_loop elements grp column_count remaining separators s')"

definition group_separators :: "page_element list \<Rightarrow> nat list" where
  "group_separators elements =
     (let columns = inferColumns elements [0..<length elements]
      in filter (\<lambda>i. spansAllColumns (pe_bbox (elements ! i)) columns) [0..<length elements])"

definition predictGroupOrder ::
  "page_element list \<Rightarrow> string \<Rightarrow> int \<Rightarrow> reading_order_trace \<Rightarrow>
   (nat list \<times> int \<times> reading_order_trace) option" where
  "predictGroupOrder elements grp next_band_index trace =
     (if elements = [] then Some ([], next_band_index, trace)
      else
        let all_indices = [0..<length elements];
            global_columns = inferColumns elements all_indices;
            separators = sortedByPosition elements (group_separators elements);
            remaining = filter (\<lambda>i. \<not> spansAllColumns (pe_bbox (elements ! i)) global_columns) all_indices;
            s0 = \<lparr>gs_order = [], gs_consumed = replicate (length elements) False,
                  gs_band = next_band_index, gs_trace = trace\<rparr>
        in case separator_loop elements grp (length global_columns) remaining separators s0 of
             None \<Rightarrow> None
           | Some s \<Rightarrow>
               map_option (\<lambda>s'. (gs_order s', gs_band s', gs_trace s'))
                 (append_band elements grp (filter (\<lambda>i. \<not> gs_consumed s ! i) remaining) s))"

subsection \<open>The edges are well formed\<close>

definition edges_ok :: "nat \<Rightarrow> weighted_edge list \<Rightarrow> bool" where
  "edges_ok n edges \<longleftrightarrow> edges_in n edges \<and> (\<forall>e\<in>set edges. e_active e)"

lemma edges_ok_Nil [simp]: "edges_ok n []"
  by (simp add: edges_ok_def edges_in_def)

lemma addEdge_set:
  "e \<in> set (addEdge edges src dst c r) \<Longrightarrow> e \<in> set edges \<or>
     (e_from e = src \<and> e_to e = dst \<and> (e_active e \<or> (\<exists>e'\<in>set edges. e_active e = e_active e')))"
  by (induction edges src dst c r rule: addEdge.induct) (auto split: if_splits)

lemma addEdge_ok: "edges_ok n edges \<Longrightarrow> src < n \<Longrightarrow> dst < n \<Longrightarrow> edges_ok n (addEdge edges src dst c r)"
  unfolding edges_ok_def edges_in_def by (metis addEdge_set)

lemma set_neighbours: "(a, b) \<in> set (neighbours xs) \<Longrightarrow> a \<in> set xs \<and> b \<in> set xs"
  unfolding neighbours_def using set_zip_leftD set_zip_rightD by (metis list.set_sel(2) tl_Nil)

lemma neighbours_below:
  assumes "x \<in> set (neighbours xs)" "set xs \<subseteq> {..<n}"
  obtains a b where "x = (a, b)" "a < n" "b < n"
proof -
  obtain a b where x: "x = (a, b)" by fastforce
  with assms set_neighbours[of a b xs] have "a < n" "b < n" by auto
  with x that show thesis by blast
qed

lemma same_column_edges_ok:
  assumes "edges_ok n edges" "set column \<subseteq> {..<n}"
  shows "edges_ok n (same_column_edges elements column edges)"
  unfolding same_column_edges_def
proof (rule foldl_invariant[where P = "edges_ok n"])
  fix es x
  assume x: "x \<in> set (neighbours column)" and ok: "edges_ok n es"
  from x assms(2) obtain a b where x: "x = (a, b)" "a < n" "b < n"
    by (rule neighbours_below)
  with ok show "edges_ok n (case x of (before, after) \<Rightarrow>
      if kEpsilon < \<bar>centerY (pe_bbox (elements ! before)) - centerY (pe_bbox (elements ! after))\<bar>
      then addEdge es before after kSameColumnConfidence ''same_column'' else es)"
    by (auto intro: addEdge_ok)
qed (rule assms(1))

definition columns_in :: "nat \<Rightarrow> nat list list \<Rightarrow> bool" where
  "columns_in n by_column \<longleftrightarrow> (\<forall>c\<in>set by_column. set c \<subseteq> {..<n})"

lemma columns_inD: "columns_in n by_column \<Longrightarrow> k < length by_column \<Longrightarrow> set (by_column ! k) \<subseteq> {..<n}"
  by (simp add: columns_in_def)

lemma column_step_ok:
  assumes "edges_ok n (fst acc)" "columns_in n by_column" "k < length by_column"
    and prev: "\<And>p. snd acc = Some p \<Longrightarrow> p < length by_column \<and> by_column ! p \<noteq> []"
  shows "edges_ok n (fst (column_step elements by_column acc k)) \<and>
    (\<forall>p. snd (column_step elements by_column acc k) = Some p \<longrightarrow> p < length by_column \<and> by_column ! p \<noteq> [])"
proof -
  have sub: "set (by_column ! k) \<subseteq> {..<n}" by (rule columns_inD[OF assms(2,3)])
  have e: "edges_ok n (same_column_edges elements (by_column ! k) (fst acc))"
    by (rule same_column_edges_ok[OF assms(1) sub])
  have h: "hd (by_column ! k) < n" if "by_column ! k \<noteq> []" using that sub hd_in_set by blast
  have l: "last (by_column ! p) < n" if "snd acc = Some p" for p
    using prev[OF that] columns_inD[OF assms(2)] last_in_set by blast
  show ?thesis
    using e h l prev assms(3) by (auto simp: column_step_def Let_def split: option.split intro: addEdge_ok)
qed

lemma column_edges_ok:
  assumes "columns_in n by_column"
  shows "edges_ok n (column_edges elements by_column)"
proof -
  let ?P = "\<lambda>acc. edges_ok n (fst acc) \<and>
    (\<forall>p. snd acc = Some p \<longrightarrow> p < length by_column \<and> by_column ! p \<noteq> [])"
  have "?P (foldl (column_step elements by_column) ([], None) [0..<length by_column])"
  proof (rule foldl_invariant[where P = ?P])
    fix acc k
    assume "k \<in> set [0..<length by_column]" and "?P acc"
    then show "?P (column_step elements by_column acc k)"
      using column_step_ok[OF _ assms, of acc k elements] by simp
  qed simp
  then show ?thesis by (simp add: column_edges_def)
qed

lemma spanning_chain_ok:
  assumes "edges_ok n edges" "set spanners \<subseteq> {..<n}"
  shows "edges_ok n (spanning_chain spanners edges)"
  unfolding spanning_chain_def
proof (rule foldl_invariant[where P = "edges_ok n"])
  fix es x
  assume x: "x \<in> set (neighbours spanners)" and ok: "edges_ok n es"
  from x assms(2) obtain a b where "x = (a, b)" "a < n" "b < n"
    by (rule neighbours_below)
  with ok show "edges_ok n (case x of (before, after) \<Rightarrow>
      addEdge es before after kSpanningGeometryConfidence ''spanning_geometry'')"
    by (auto intro: addEdge_ok)
qed (rule assms(1))

lemma spanning_column_edges_ok:
  assumes "edges_ok n edges" "columns_in n by_column" "k < length by_column" "i < n"
  shows "edges_ok n (spanning_column_edges elements by_column i edges k)"
proof -
  let ?P = "\<lambda>candidate. centerY (pe_bbox (elements ! candidate)) < centerY (pe_bbox (elements ! i))"
  have sub: "set (by_column ! k) \<subseteq> {..<n}" by (rule columns_inD[OF assms(2,3)])
  have "last (takeWhile ?P (by_column ! k)) < n" if "takeWhile ?P (by_column ! k) \<noteq> []"
    using last_in_set[OF that] sub set_takeWhileD by fastforce
  moreover have "hd (dropWhile ?P (by_column ! k)) < n" if "dropWhile ?P (by_column ! k) \<noteq> []"
    using hd_in_set[OF that] sub set_dropWhileD by fastforce
  ultimately show ?thesis
    using assms(1,4) by (auto simp: spanning_column_edges_def Let_def intro!: addEdge_ok)
qed

lemma spanning_edges_ok:
  assumes "edges_ok n edges" "columns_in n by_column" "set spanners \<subseteq> {..<n}"
    and ranges: "\<And>i. i \<in> set spanners \<Longrightarrow> rng_last (ranges ! i) < length by_column"
  shows "edges_ok n (spanning_edges elements ranges by_column spanners edges)"
  unfolding spanning_edges_def
proof (rule foldl_invariant[where P = "edges_ok n"])
  fix es i
  assume i: "i \<in> set spanners" and ok: "edges_ok n es"
  show "edges_ok n (foldl (spanning_column_edges elements by_column i) es
      [rng_first (ranges ! i)..<Suc (rng_last (ranges ! i))])"
  proof (rule foldl_invariant[where P = "edges_ok n", OF ok])
    fix es' k
    assume "k \<in> set [rng_first (ranges ! i)..<Suc (rng_last (ranges ! i))]" "edges_ok n es'"
    with ranges[OF i] i assms(2,3) show "edges_ok n (spanning_column_edges elements by_column i es' k)"
      by (intro spanning_column_edges_ok) auto
  qed
qed (rule spanning_chain_ok[OF assms(1,3)])

lemma hint_edges_ok:
  assumes "edges_ok (length elements) edges"
  shows "edges_ok (length elements) (hint_edges elements edges)"
  unfolding hint_edges_def Let_def
proof (rule foldl_invariant[where P = "edges_ok (length elements)"])
  let ?hint = "\<lambda>i. lb_reading_order_hint (pe_block (elements ! i))"
  fix es x
  let ?hinted = "sort_by (hint_less elements) (filter (\<lambda>i. ?hint i \<ge> 0) [0..<length elements])"
  assume x: "x \<in> set (neighbours ?hinted)" and ok: "edges_ok (length elements) es"
  have sub: "set ?hinted \<subseteq> {..<length elements}" by auto
  from x sub obtain a b where "x = (a, b)" "a < length elements" "b < length elements"
    by (rule neighbours_below)
  with ok show "edges_ok (length elements) (case x of (before, after) \<Rightarrow> if ?hint before \<noteq> ?hint after
      then addEdge es before after kModelHintConfidence ''model_hint'' else es)"
    by (auto intro: addEdge_ok)
qed (rule assms)

lemma band_edges_ok:
  assumes "\<And>i. i < length elements \<Longrightarrow> rng_last (ranges ! i) < column_count"
  shows "edges_ok (length elements) (band_edges elements ranges column_count)"
proof -
  have "columns_in (length elements) (band_columns elements ranges column_count)"
    by (auto simp: columns_in_def band_columns_def)
  moreover have "set (band_spanning elements ranges) \<subseteq> {..<length elements}"
    by (auto simp: band_spanning_def)
  moreover have "length (band_columns elements ranges column_count) = column_count"
    by (simp add: band_columns_def)
  ultimately show ?thesis unfolding band_edges_def Let_def using assms
    by (intro hint_edges_ok spanning_edges_ok column_edges_ok) auto
qed

subsection \<open>A band is ordered\<close>

text \<open>The blocks that have a placement, with multiplicity.\<close>

definition placed_ids :: "reading_order_trace \<Rightarrow> string multiset" where
  "placed_ids trace = mset (map plc_layout_block_id (tr_placements trace))"

abbreviation element_id :: "page_element \<Rightarrow> string" where
  "element_id e \<equiv> lb_id (pe_block e)"

lemma recordEdgeCounts_placements [simp]:
  "tr_placements (recordEdgeCounts edges trace) = tr_placements trace"
proof -
  have "tr_placements (foldl (\<lambda>t edge. count_edge (e_reason edge) t) trace edges) = tr_placements trace"
    by (induction edges arbitrary: trace) (simp_all add: count_edge_def)
  then show ?thesis by (simp add: recordEdgeCounts_def)
qed

lemma map_band_placement_ids:
  "length rs = length es \<Longrightarrow>
   map plc_layout_block_id (map2 (band_placement grp k) es rs) = map element_id es"
  by (induction es rs rule: list_induct2') (auto simp: band_placement_def)

lemma mset_map_nth_perm:
  assumes "distinct ks" "set ks = {..<length xs}"
  shows "mset (map ((!) xs) ks) = mset xs"
proof -
  have "mset ks = mset [0..<length xs]"
    using assms by (intro set_eq_iff_mset_eq_distinct[THEN iffD1]) (auto simp: atLeast0LessThan)
  then have "mset (map ((!) xs) ks) = mset (map ((!) xs) [0..<length xs])" by (metis mset_map)
  then show ?thesis by (simp add: map_nth)
qed

lemma orderBand_ok:
  shows "\<exists>b trace'. orderBand elements band grp k trace = Some (b, trace') \<and>
    mset (bo_indices b) = mset band \<and>
    placed_ids trace' = placed_ids trace + mset (map (\<lambda>i. element_id (elements ! i)) band)"
proof (cases "band = []")
  case True
  then show ?thesis by (simp add: orderBand_def)
next
  case False
  let ?els = "map ((!) elements) band"
  let ?cols = "inferColumns ?els [0..<length ?els]"
  let ?cc = "max 1 (length ?cols)"
  let ?ranges = "map (\<lambda>e. locateColumns (pe_bbox e) ?cols) ?els"
  let ?edges = "band_edges ?els ?ranges ?cc"
  let ?placed = "trace\<lparr>tr_placements :=
      tr_placements trace @ map2 (band_placement grp k) ?els ?ranges\<rparr>"
  have "edges_ok (length ?els) ?edges"
    by (rule band_edges_ok) (simp add: locateColumns_range[simplified])
  then obtain order trace' where
    res: "stableTopologicalOrder ?els ?ranges ?cc ?edges (recordEdgeCounts ?edges ?placed) = Some (order, trace')"
    and top: "topological ?els ?edges (recordEdgeCounts ?edges ?placed) (order, trace')"
    using stableTopologicalOrder_ok[of ?els ?edges ?ranges ?cc "recordEdgeCounts ?edges ?placed"]
    unfolding edges_ok_def by (metis surj_pair)
  have "orderBand elements band grp k trace =
      Some (\<lparr>bo_indices = map ((!) band) order, bo_ranges = ?ranges, bo_column_count = ?cc\<rparr>, trace')"
    using False res by (simp add: orderBand_def Let_def)
  moreover have "mset (map ((!) band) order) = mset band"
    using top by (intro mset_map_nth_perm) (auto simp: topological_def)
  moreover have "tr_placements trace' = tr_placements ?placed"
    using top by (auto simp: topological_def)
  then have "placed_ids trace' = placed_ids trace + mset (map (\<lambda>i. element_id (elements ! i)) band)"
    using map_band_placement_ids[of ?ranges ?els grp k]
    by (simp add: placed_ids_def comp_def del: mset_map)
  ultimately show ?thesis by auto
qed

lemma append_band_ok:
  "\<exists>s' xs. append_band elements grp band s = Some s' \<and> gs_order s' = gs_order s @ xs \<and>
     mset xs = mset band \<and> gs_consumed s' = gs_consumed s \<and>
     placed_ids (gs_trace s') = placed_ids (gs_trace s) + mset (map (\<lambda>i. element_id (elements ! i)) band)"
proof (cases "band = []")
  case False
  from orderBand_ok[of elements band grp "gs_band s" "gs_trace s"] obtain b trace' where
    "orderBand elements band grp (gs_band s) (gs_trace s) = Some (b, trace')" "mset (bo_indices b) = mset band"
    "placed_ids trace' = placed_ids (gs_trace s) + mset (map (\<lambda>i. element_id (elements ! i)) band)" by blast
  with False show ?thesis by (simp add: append_band_def)
qed (simp add: append_band_def)

subsection \<open>A group is ordered\<close>

lemma mark_consumed_nth:
  "length (mark_consumed is consumed) = length consumed \<and>
   (i < length consumed \<longrightarrow> mark_consumed is consumed ! i = (consumed ! i \<or> i \<in> set is))"
proof -
  have "length (foldl (\<lambda>c i. c[i := True]) consumed is) = length consumed \<and>
     (i < length consumed \<longrightarrow> foldl (\<lambda>c i. c[i := True]) consumed is ! i = (consumed ! i \<or> i \<in> set is))"
  proof (induction "is" arbitrary: consumed)
    case (Cons a "is")
    from Cons.IH[of "consumed[a := True]"] show ?case by (cases "i = a") auto
  qed simp
  then show ?thesis by (simp add: mark_consumed_def)
qed

text \<open>
  After the separators \<open>done\<close>: the order holds them and the consumed blocks, each separator
  after every block whose center lies above its own.
\<close>

definition group_inv ::
  "page_element list \<Rightarrow> string multiset \<Rightarrow> nat list \<Rightarrow> nat list \<Rightarrow> group_state \<Rightarrow> bool" where
  "group_inv elements ids remaining seps s \<longleftrightarrow>
     length (gs_consumed s) = length elements \<and> distinct (gs_order s) \<and> set seps \<inter> set remaining = {} \<and>
     set (gs_order s) = {r \<in> set remaining. gs_consumed s ! r} \<union> set seps \<and>
     placed_ids (gs_trace s) = ids + mset (map (\<lambda>i. element_id (elements ! i)) (gs_order s)) \<and>
     (\<forall>d\<in>set seps. \<forall>r\<in>set remaining.
        centerY (pe_bbox (elements ! r)) < centerY (pe_bbox (elements ! d)) \<longrightarrow> precedes (gs_order s) r d)"

lemma separator_step_ok:
  assumes inv: "group_inv elements ids remaining seps s"
    and sep: "d \<notin> set remaining" "d \<notin> set seps" and rem: "distinct remaining" "set remaining \<subseteq> {..<length elements}"
  shows "\<exists>s'. separator_step elements grp cc remaining s d = Some s' \<and>
    group_inv elements ids remaining (seps @ [d]) s'"
proof -
  let ?y = "\<lambda>i. centerY (pe_bbox (elements ! i))"
  let ?band = "filter (\<lambda>i. \<not> gs_consumed s ! i \<and> ?y i < ?y d) remaining"
  let ?s = "s\<lparr>gs_consumed := mark_consumed ?band (gs_consumed s)\<rparr>"
  from append_band_ok[of elements grp ?band ?s] obtain s1 xs where
    s1: "append_band elements grp ?band ?s = Some s1" "gs_order s1 = gs_order s @ xs" "mset xs = mset ?band"
    "gs_consumed s1 = mark_consumed ?band (gs_consumed s)"
    "placed_ids (gs_trace s1) = placed_ids (gs_trace s) + mset (map (\<lambda>i. element_id (elements ! i)) ?band)"
    by auto
  from inv have len: "length (gs_consumed s) = length elements" and dist: "distinct (gs_order s)"
    and disj: "set seps \<inter> set remaining = {}"
    and ord: "set (gs_order s) = {r \<in> set remaining. gs_consumed s ! r} \<union> set seps"
    and ids: "placed_ids (gs_trace s) = ids + mset (map (\<lambda>i. element_id (elements ! i)) (gs_order s))"
    and prec: "\<And>d r. d \<in> set seps \<Longrightarrow> r \<in> set remaining \<Longrightarrow> ?y r < ?y d \<Longrightarrow> precedes (gs_order s) r d"
    unfolding group_inv_def by auto
  have xs: "set xs = set ?band" "distinct xs"
    using s1(3) rem(1) by (metis mset_eq_setD, metis distinct_filter mset_eq_imp_distinct_iff)
  define s2 where "s2 = s1\<lparr>gs_trace := (gs_trace s1)\<lparr>tr_placements := tr_placements (gs_trace s1) @
       [band_placement grp (gs_band s1) (elements ! d) \<lparr>rng_first = 0, rng_last = cc - 1\<rparr>]\<rparr>,
     gs_order := gs_order s1 @ [d], gs_consumed := (gs_consumed s1)[d := True], gs_band := gs_band s1 + 1\<rparr>"
  have res: "separator_step elements grp cc remaining s d = Some s2"
    using s1(1) by (simp add: separator_step_def Let_def s2_def)
  have o2: "gs_order s2 = gs_order s @ xs @ [d]" using s1(2) by (simp add: s2_def)
  have c2: "gs_consumed s2 ! r \<longleftrightarrow> gs_consumed s ! r \<or> ?y r < ?y d" if "r \<in> set remaining" for r
  proof -
    have "r \<noteq> d" "r < length (gs_consumed s)" using that sep(1) rem(2) len by auto
    then show ?thesis using that mark_consumed_nth[of ?band "gs_consumed s" r] by (auto simp: s2_def s1(4))
  qed
  have "distinct (gs_order s @ xs @ [d])" using dist xs ord sep disj by auto
  moreover have "set (gs_order s @ xs @ [d]) = {r \<in> set remaining. gs_consumed s2 ! r} \<union> set (seps @ [d])"
    using xs(1) ord c2 by auto
  moreover have "placed_ids (gs_trace s2) =
      ids + mset (map (\<lambda>i. element_id (elements ! i)) (gs_order s @ xs @ [d]))"
  proof -
    have "mset (map (\<lambda>i. element_id (elements ! i)) ?band) = mset (map (\<lambda>i. element_id (elements ! i)) xs)"
      using s1(3) by (metis mset_map)
    then show ?thesis using ids s1(5) by (simp add: placed_ids_def s2_def band_placement_def)
  qed
  moreover have "precedes (gs_order s @ xs @ [d]) r e"
    if "e \<in> set (seps @ [d])" "r \<in> set remaining" "?y r < ?y e" for e r
  proof (cases "e = d")
    case True
    then have "r \<in> set (gs_order s @ xs)" using that xs(1) ord by auto
    from precedes_snoc[OF this, of d] True show ?thesis by simp
  next
    case False
    then show ?thesis using that prec[of e r] by (auto intro: precedes_append)
  qed
  moreover have "length (gs_consumed s2) = length elements"
    using len mark_consumed_nth[of ?band "gs_consumed s"] by (simp add: s2_def s1(4))
  ultimately have "group_inv elements ids remaining (seps @ [d]) s2"
    using disj sep by (simp add: group_inv_def o2)
  with res show ?thesis by blast
qed

lemma separator_loop_ok:
  assumes "distinct remaining" "set remaining \<subseteq> {..<length elements}"
  shows "group_inv elements ids remaining seps s \<Longrightarrow> set ds \<inter> set remaining = {} \<Longrightarrow> distinct (seps @ ds) \<Longrightarrow>
    \<exists>s'. separator_loop elements grp cc remaining ds s = Some s' \<and> group_inv elements ids remaining (seps @ ds) s'"
proof (induction ds arbitrary: s seps)
  case (Cons d ds)
  then obtain s1 where "separator_step elements grp cc remaining s d = Some s1"
    "group_inv elements ids remaining (seps @ [d]) s1"
    using separator_step_ok[OF Cons.prems(1) _ _ assms, of d grp cc] by auto
  with Cons.IH[of "seps @ [d]" s1] Cons.prems show ?case by auto
qed simp

lemma predictGroupOrder_ok:
  "\<exists>order k' trace'. predictGroupOrder elements grp k trace = Some (order, k', trace') \<and>
     distinct order \<and> set order = {..<length elements} \<and>
     placed_ids trace' = placed_ids trace + mset (map element_id elements) \<and>
     (\<forall>d\<in>set (group_separators elements). \<forall>r<length elements. r \<notin> set (group_separators elements) \<longrightarrow>
        centerY (pe_bbox (elements ! r)) < centerY (pe_bbox (elements ! d)) \<longrightarrow> precedes order r d)"
proof (cases "elements = []")
  case True
  then show ?thesis by (simp add: predictGroupOrder_def group_separators_def)
next
  case False
  let ?cols = "inferColumns elements [0..<length elements]"
  let ?rem = "filter (\<lambda>i. \<not> spansAllColumns (pe_bbox (elements ! i)) ?cols) [0..<length elements]"
  let ?seps = "sortedByPosition elements (group_separators elements)"
  let ?s0 = "\<lparr>gs_order = [], gs_consumed = replicate (length elements) False, gs_band = k, gs_trace = trace\<rparr>"
  let ?y = "\<lambda>i. centerY (pe_bbox (elements ! i))"
  have seps: "set ?seps = set (group_separators elements)" "distinct ?seps"
    by (simp_all add: sortedByPosition_def group_separators_def Let_def)
  have parts: "set ?rem \<union> set ?seps = {..<length elements}" "set ?seps \<inter> set ?rem = {}"
    unfolding seps(1) by (auto simp: group_separators_def Let_def)
  have rem: "distinct ?rem" "set ?rem \<subseteq> {..<length elements}" by auto
  have "group_inv elements (placed_ids trace) ?rem [] ?s0" by (auto simp: group_inv_def)
  from separator_loop_ok[OF rem this parts(2), of grp "length ?cols"] seps(2) obtain s where
    s: "separator_loop elements grp (length ?cols) ?rem ?seps ?s0 = Some s"
    "group_inv elements (placed_ids trace) ?rem ?seps s" by auto
  let ?tail = "filter (\<lambda>i. \<not> gs_consumed s ! i) ?rem"
  from append_band_ok[of elements grp ?tail s] obtain s1 xs where
    s1: "append_band elements grp ?tail s = Some s1" "gs_order s1 = gs_order s @ xs" "mset xs = mset ?tail"
    "placed_ids (gs_trace s1) = placed_ids (gs_trace s) + mset (map (\<lambda>i. element_id (elements ! i)) ?tail)"
    by blast
  have xs: "set xs = set ?tail" "distinct xs"
    using s1(3) rem(1) by (metis mset_eq_setD, metis distinct_filter mset_eq_imp_distinct_iff)
  from s(2) have dist: "distinct (gs_order s)"
    and ord: "set (gs_order s) = {r \<in> set ?rem. gs_consumed s ! r} \<union> set ?seps"
    and ids: "placed_ids (gs_trace s) = placed_ids trace + mset (map (\<lambda>i. element_id (elements ! i)) (gs_order s))"
    and prec: "\<And>d r. d \<in> set ?seps \<Longrightarrow> r \<in> set ?rem \<Longrightarrow> ?y r < ?y d \<Longrightarrow> precedes (gs_order s) r d"
    unfolding group_inv_def by auto
  have "predictGroupOrder elements grp k trace = Some (gs_order s1, gs_band s1, gs_trace s1)"
    using False s(1) s1(1) by (simp add: predictGroupOrder_def Let_def)
  moreover have d1: "distinct (gs_order s1)"
    unfolding s1(2) using dist xs ord parts(2) by auto
  moreover have all: "set (gs_order s1) = {..<length elements}"
    unfolding s1(2) set_append ord xs(1) parts(1)[symmetric] by auto
  moreover have "placed_ids (gs_trace s1) = placed_ids trace + mset (map element_id elements)"
  proof -
    have "mset (map (\<lambda>i. element_id (elements ! i)) ?tail) = mset (map (\<lambda>i. element_id (elements ! i)) xs)"
      using s1(3) by (metis mset_map)
    then have "placed_ids (gs_trace s1) =
        placed_ids trace + mset (map (\<lambda>i. element_id (elements ! i)) (gs_order s1))"
      using ids s1(4) by (simp add: s1(2))
    also have "mset (map (\<lambda>i. element_id (elements ! i)) (gs_order s1)) =
        image_mset element_id (mset (map ((!) elements) (gs_order s1)))" by (simp add: image_mset.compositionality comp_def)
    also have "\<dots> = mset (map element_id elements)"
      unfolding mset_map_nth_perm[OF d1 all] by simp
    finally show ?thesis .
  qed
  moreover have "precedes (gs_order s1) r d"
    if "d \<in> set (group_separators elements)" "r < length elements" "r \<notin> set (group_separators elements)"
      "?y r < ?y d" for d r
  proof -
    have "r \<in> set ?rem" "d \<in> set ?seps" using that seps(1) parts(1) by auto
    with prec that(4) show ?thesis unfolding s1(2) by (intro precedes_append)
  qed
  ultimately show ?thesis by blast
qed

section \<open>Properties\<close>

text \<open>
  C13: a group's order always exists, holds each of its elements once, gives each exactly one
  placement, and puts every block that spans all columns after all the other blocks whose
  center lies above its own.
\<close>

theorem predictGroupOrder_correct:
  "\<exists>order next_band trace'. predictGroupOrder elements grp k trace = Some (order, next_band, trace') \<and>
     mset order = mset [0..<length elements] \<and>
     mset (map plc_layout_block_id (tr_placements trace')) =
       mset (map plc_layout_block_id (tr_placements trace)) + mset (map (\<lambda>e. lb_id (pe_block e)) elements) \<and>
     (\<forall>d\<in>set (group_separators elements). \<forall>r<length elements. r \<notin> set (group_separators elements) \<longrightarrow>
        centerY (pe_bbox (elements ! r)) < centerY (pe_bbox (elements ! d)) \<longrightarrow> precedes order r d)"
proof -
  obtain order next_band trace' where *: "predictGroupOrder elements grp k trace = Some (order, next_band, trace')"
     "distinct order" "set order = {..<length elements}"
     "placed_ids trace' = placed_ids trace + mset (map element_id elements)"
     "\<forall>d\<in>set (group_separators elements). \<forall>r<length elements. r \<notin> set (group_separators elements) \<longrightarrow>
        centerY (pe_bbox (elements ! r)) < centerY (pe_bbox (elements ! d)) \<longrightarrow> precedes order r d"
    using predictGroupOrder_ok by blast
  have "mset order = mset [0..<length elements]"
    using *(2,3) by (intro set_eq_iff_mset_eq_distinct[THEN iffD1]) (auto simp: atLeast0LessThan)
  with * show ?thesis unfolding placed_ids_def by blast
qed

theorem predictGroupOrder_correct_witness:
  "\<exists>order next_band trace'. predictGroupOrder [sample_element 0, sample_element 1] ''body'' 0 empty_trace
       = Some (order, next_band, trace') \<and>
     mset order = {#0, 1#} \<and> length (tr_placements trace') = 2"
proof -
  obtain order next_band trace' where *:
    "predictGroupOrder [sample_element 0, sample_element 1] ''body'' 0 empty_trace = Some (order, next_band, trace')"
    "mset order = mset [0..<length [sample_element 0, sample_element 1]]"
    "mset (map plc_layout_block_id (tr_placements trace')) =
       mset (map plc_layout_block_id (tr_placements empty_trace)) +
       mset (map (\<lambda>e. lb_id (pe_block e)) [sample_element 0, sample_element 1])"
    using predictGroupOrder_correct by blast
  have "size (mset (map plc_layout_block_id (tr_placements trace'))) = 2"
    unfolding *(3) by (simp add: empty_trace_def)
  with *(1,2) show ?thesis by (simp add: upt_rec)
qed

end
