(* ===== verification/Reading_Backend.thy ===== *)
theory Reading_Backend
  imports Reading_Band
begin

text \<open>
  \<open>DoclingLikeReadingOrderBackend::order\<close>: headers, body and footers are ordered as separate
  groups; a caption is kept out of the body's graph and follows the figure or table it names.
  \<open>None\<close> stands for an exception or a search out of fuel; the contract below, which the
  assembler and the pipeline rely on, says that neither happens. The contract is a locale over
  any backend, \<open>cpp/reading_order/reading_order_backend.h\<close>, interpreted here on this one.
\<close>

subsection \<open>The body and its captions\<close>

definition is_caption :: "layout_block \<Rightarrow> bool" where
  "is_caption b \<longleftrightarrow> lb_type b = LText \<and>
     (lb_source_label b = ''Caption'' \<or> lb_source_label b = ''caption'' \<or>
      lb_source_label b = ''figure_title'')"

definition index_by_id :: "page_element list \<Rightarrow> (string \<rightharpoonup> nat)" where
  "index_by_id elements =
     foldl (\<lambda>m i. emplace m (lb_id (pe_block (elements ! i))) i) Map.empty [0..<length elements]"

text \<open>The element a caption belongs to, if it is one: \<open>parents[index]\<close>.\<close>

definition caption_parent :: "page_element list \<Rightarrow> nat \<Rightarrow> nat option" where
  "caption_parent elements i =
     (let block = pe_block (elements ! i) in
      case index_by_id elements (lb_related_block_id block) of
        None \<Rightarrow> None
      | Some target \<Rightarrow>
          if \<not> is_caption block \<or> target = i then None
          else if lb_type (pe_block (elements ! target)) = LFigure \<or>
                  lb_type (pe_block (elements ! target)) = LTable
          then Some target else None)"

definition captions_of :: "page_element list \<Rightarrow> nat \<Rightarrow> nat list" where
  "captions_of elements target =
     filter (\<lambda>i. caption_parent elements i = Some target) [0..<length elements]"

definition caption_placement :: "string \<Rightarrow> page_element \<Rightarrow> placement \<Rightarrow> placement" where
  "caption_placement owner caption p =
     p\<lparr>plc_layout_block_id := lb_id (pe_block caption), plc_parent_layout_block_id := owner\<rparr>"

definition placements_by_id :: "reading_order_trace \<Rightarrow> (string \<rightharpoonup> placement)" where
  "placements_by_id trace =
     foldl (\<lambda>m p. emplace m (plc_layout_block_id p) p) Map.empty (tr_placements trace)"

text \<open>\<open>placements.at(id)\<close> throws where the id has no placement.\<close>

fun attach_captions ::
  "page_element list \<Rightarrow> (string \<rightharpoonup> placement) \<Rightarrow> string \<Rightarrow> nat list \<Rightarrow>
   nat list \<times> reading_order_trace \<Rightarrow> (nat list \<times> reading_order_trace) option" where
  "attach_captions elements placements owner [] acc = Some acc"
| "attach_captions elements placements owner (caption # captions) (order, trace) =
     (case placements owner of
        None \<Rightarrow> None
      | Some p \<Rightarrow> attach_captions elements placements owner captions
          (order @ [caption], count_edge ''caption_target''
             (trace\<lparr>tr_placements := tr_placements trace @ [caption_placement owner (elements ! caption) p]\<rparr>)))"

fun emit_roots ::
  "page_element list \<Rightarrow> (string \<rightharpoonup> placement) \<Rightarrow> nat list \<Rightarrow>
   nat list \<times> reading_order_trace \<Rightarrow> (nat list \<times> reading_order_trace) option" where
  "emit_roots elements placements [] acc = Some acc"
| "emit_roots elements placements (root_index # roots) (order, trace) =
     (case attach_captions elements placements (lb_id (pe_block (elements ! root_index)))
         (sortedByPosition elements (captions_of elements root_index)) (order @ [root_index], trace) of
        None \<Rightarrow> None
      | Some acc \<Rightarrow> emit_roots elements placements roots acc)"

definition body_roots :: "page_element list \<Rightarrow> nat list" where
  "body_roots elements = filter (\<lambda>i. caption_parent elements i = None) [0..<length elements]"

definition orderBody ::
  "page_element list \<Rightarrow> int \<Rightarrow> reading_order_trace \<Rightarrow> (nat list \<times> int \<times> reading_order_trace) option" where
  "orderBody elements next_band_index trace =
     (let root_indices = body_roots elements in
      case predictGroupOrder (map ((!) elements) root_indices) ''body'' next_band_index trace of
        None \<Rightarrow> None
      | Some (root_order, next_band, trace') \<Rightarrow>
          map_option (\<lambda>(order, trace''). (order, next_band, trace''))
            (emit_roots elements (placements_by_id trace') (map ((!) root_indices) root_order) ([], trace')))"

subsection \<open>The backend\<close>

definition appendItems ::
  "page_element list \<Rightarrow> nat list \<Rightarrow> page_reading_order \<Rightarrow> page_reading_order" where
  "appendItems elements order ro =
     foldl (\<lambda>r i. r\<lparr>ro_items := ro_items r @
         [\<lparr>item_layout_block_id = lb_id (pe_block (elements ! i)),
           item_layout_block_index = pe_layout_block_index (elements ! i),
           item_sequence_index = int (length (ro_items r))\<rparr>]\<rparr>) ro order"

definition collectElements :: "page_layout \<Rightarrow> layout_type list \<Rightarrow> bool \<Rightarrow> page_element list" where
  "collectElements layout types include_matching_types =
     map (\<lambda>i. \<lparr>pe_layout_block_index = int i, pe_block = pl_blocks layout ! i,
               pe_bbox = lb_bbox (pl_blocks layout ! i)\<rparr>)
       (filter (\<lambda>i. (lb_type (pl_blocks layout ! i) \<in> set types) = include_matching_types)
         [0..<length (pl_blocks layout)])"

definition docling_order :: "page_layout \<Rightarrow> (bool \<times> page_reading_order) option" where
  "docling_order layout =
     (if list_ex (\<lambda>b. \<not> finiteBBox (lb_bbox b)) (pl_blocks layout)
      then Some (False, empty_reading_order)
      else
        let headers = collectElements layout [LHeader] True;
            body = collectElements layout [LHeader, LFooter] False;
            footers = collectElements layout [LFooter] True;
            ro = empty_reading_order\<lparr>ro_page_index := pl_page_index layout,
                   ro_page_number := pl_page_number layout\<rparr>;
            trace = empty_trace\<lparr>tr_algorithm := ''band-column-topological-v3''\<rparr>
        in case predictGroupOrder headers ''header'' 0 trace of
             None \<Rightarrow> None
           | Some (header_order, band1, trace1) \<Rightarrow>
             (case orderBody body band1 trace1 of
                None \<Rightarrow> None
              | Some (body_order, band2, trace2) \<Rightarrow>
                (case predictGroupOrder footers ''footer'' band2 trace2 of
                   None \<Rightarrow> None
                 | Some (footer_order, band3, trace3) \<Rightarrow>
                     Some (True, (appendItems footers footer_order
                       (appendItems body body_order (appendItems headers header_order ro)))
                       \<lparr>ro_trace := trace3\<rparr>))))"

subsection \<open>Captions belong to roots\<close>

lemma index_by_id_Some: "index_by_id elements x = Some t \<Longrightarrow> t < length elements \<and> element_id (elements ! t) = x"
proof -
  have "\<forall>y t. foldl (\<lambda>m i. emplace m (lb_id (pe_block (elements ! i))) i) Map.empty [0..<length elements] y = Some t
      \<longrightarrow> t < length elements \<and> element_id (elements ! t) = y"
    by (rule foldl_invariant[where P = "\<lambda>m. \<forall>y t. m y = Some t \<longrightarrow> t < length elements \<and> element_id (elements ! t) = y"])
      (auto simp: emplace_def split: option.splits if_splits)
  then show "index_by_id elements x = Some t \<Longrightarrow> t < length elements \<and> element_id (elements ! t) = x"
    by (simp add: index_by_id_def)
qed

lemma caption_parent_Some:
  assumes "caption_parent elements i = Some t"
  shows "t < length elements" "lb_type (pe_block (elements ! t)) \<in> {LFigure, LTable}"
    "caption_parent elements t = None"
proof -
  show "t < length elements" "lb_type (pe_block (elements ! t)) \<in> {LFigure, LTable}"
    using assms index_by_id_Some
    by (auto simp: caption_parent_def Let_def split: option.splits if_splits)
  then have "\<not> is_caption (pe_block (elements ! t))" by (auto simp: is_caption_def)
  then show "caption_parent elements t = None" by (simp add: caption_parent_def Let_def split: option.split)
qed

lemma placements_by_id_dom: "placements_by_id trace x \<noteq> None \<longleftrightarrow> x \<in> plc_layout_block_id ` set (tr_placements trace)"
proof -
  have "foldl (\<lambda>m p. emplace m (plc_layout_block_id p) p) m ps x \<noteq> None \<longleftrightarrow>
      m x \<noteq> None \<or> x \<in> plc_layout_block_id ` set ps" for m and ps :: "placement list"
  proof (induction ps arbitrary: m)
    case (Cons p ps)
    then show ?case by (auto simp: emplace_def split: option.splits)
  qed simp
  then show ?thesis by (simp add: placements_by_id_def)
qed

lemma placed_count_edge [simp]: "placed_ids (count_edge r trace) = placed_ids trace"
  by (simp add: placed_ids_def count_edge_def)

lemma attach_captions_ok:
  "placements owner \<noteq> None \<Longrightarrow>
   \<exists>trace'. attach_captions elements placements owner captions (order, trace) = Some (order @ captions, trace') \<and>
     placed_ids trace' = placed_ids trace + mset (map (\<lambda>i. element_id (elements ! i)) captions)"
proof (induction captions arbitrary: order trace)
  case (Cons c cs)
  then obtain p where p: "placements owner = Some p" by blast
  let ?t = "count_edge ''caption_target''
      (trace\<lparr>tr_placements := tr_placements trace @ [caption_placement owner (elements ! c) p]\<rparr>)"
  have "placed_ids ?t = add_mset (element_id (elements ! c)) (placed_ids trace)"
    by (simp add: placed_ids_def caption_placement_def count_edge_def)
  with Cons.IH[OF Cons.prems, of "order @ [c]" ?t] p show ?case by auto
qed simp

text \<open>A root with its captions after it.\<close>

definition with_captions :: "page_element list \<Rightarrow> nat \<Rightarrow> nat list" where
  "with_captions elements root_index = root_index # sortedByPosition elements (captions_of elements root_index)"

lemma emit_roots_ok:
  "(\<And>r. r \<in> set roots \<Longrightarrow> placements (element_id (elements ! r)) \<noteq> None) \<Longrightarrow>
   \<exists>trace'. emit_roots elements placements roots (order, trace) =
      Some (order @ concat (map (with_captions elements) roots), trace') \<and>
     placed_ids trace' = placed_ids trace +
       mset (concat (map (\<lambda>r. map (\<lambda>i. element_id (elements ! i)) (captions_of elements r)) roots))"
proof (induction roots arbitrary: order trace)
  case (Cons r rs)
  let ?caps = "sortedByPosition elements (captions_of elements r)"
  have "placements (element_id (elements ! r)) \<noteq> None" using Cons.prems by simp
  then obtain t1 where t1: "attach_captions elements placements (element_id (elements ! r)) ?caps (order @ [r], trace)
      = Some ((order @ [r]) @ ?caps, t1)"
    "placed_ids t1 = placed_ids trace + mset (map (\<lambda>i. element_id (elements ! i)) ?caps)"
    using attach_captions_ok[of placements "element_id (elements ! r)" elements ?caps "order @ [r]" trace] by blast
  have "mset ?caps = mset (captions_of elements r)" by (simp add: sortedByPosition_def)
  then have p1: "placed_ids t1 = placed_ids trace + mset (map (\<lambda>i. element_id (elements ! i)) (captions_of elements r))"
    using t1(2) by (metis mset_map)
  from Cons.IH[of "order @ with_captions elements r" t1] Cons.prems t1(1) p1
  show ?case by (auto simp: with_captions_def)
qed simp

lemma captions_partition:
  assumes "distinct roots" "set roots = set (body_roots elements)"
  shows "distinct (concat (map (with_captions elements) roots))"
    "set (concat (map (with_captions elements) roots)) = {..<length elements}"
proof -
  have root: "caption_parent elements r = None" "r < length elements" if "r \<in> set roots" for r
    using that assms(2) by (auto simp: body_roots_def)
  have cap: "set (with_captions elements r) = insert r {i. i < length elements \<and> caption_parent elements i = Some r}" for r
    by (auto simp: with_captions_def sortedByPosition_def captions_of_def)
  have dis: "set (with_captions elements r) \<inter> set (with_captions elements s) = {}"
    if "r \<in> set roots" "s \<in> set roots" "r \<noteq> s" for r s
    unfolding cap using root(1)[OF that(1)] root(1)[OF that(2)] that(3) by auto
  have one: "distinct (with_captions elements r)" if "r \<in> set roots" for r
    using root(1)[OF that] by (simp add: with_captions_def sortedByPosition_def captions_of_def)
  from assms(1) dis one show "distinct (concat (map (with_captions elements) roots))"
  proof (induction roots)
    case (Cons r rs)
    then have "set (with_captions elements r) \<inter> (\<Union>s\<in>set rs. set (with_captions elements s)) = {}" by fastforce
    with Cons show ?case by auto
  qed simp
  have "i \<in> (\<Union>r\<in>set roots. set (with_captions elements r))" if i: "i < length elements" for i
  proof (cases "caption_parent elements i")
    case None
    then have "i \<in> set roots" using i assms(2) by (simp add: body_roots_def)
    then show ?thesis unfolding cap by blast
  next
    case (Some t)
    then have "t \<in> set roots" using caption_parent_Some[OF Some] assms(2) by (simp add: body_roots_def)
    with Some i show ?thesis unfolding cap by blast
  qed
  then show "set (concat (map (with_captions elements) roots)) = {..<length elements}"
    using root(2) cap by auto
qed

lemma map_nth_perm:
  assumes "distinct ks" "set ks = {..<length xs}" "distinct xs"
  shows "distinct (map ((!) xs) ks)" "set (map ((!) xs) ks) = set xs"
proof -
  show "set (map ((!) xs) ks) = set xs" 
    using assms(2) nth_image[of "length xs" xs] by (simp add: atLeast0LessThan)
  show "distinct (map ((!) xs) ks)"
    using assms by (auto simp: distinct_map inj_on_def nth_eq_iff_index_eq)
qed

lemma orderBody_ok:
  "\<exists>order k' trace' roots. orderBody elements k trace = Some (order, k', trace') \<and>
     distinct order \<and> set order = {..<length elements} \<and>
     order = concat (map (with_captions elements) roots) \<and> set roots = set (body_roots elements) \<and>
     placed_ids trace' = placed_ids trace + mset (map element_id elements)"
proof -
  let ?ri = "body_roots elements" and ?els = "map ((!) elements) (body_roots elements)"
  obtain ord k' t1 where g: "predictGroupOrder ?els ''body'' k trace = Some (ord, k', t1)"
    "distinct ord" "set ord = {..<length ?els}"
    "placed_ids t1 = placed_ids trace + mset (map element_id ?els)"
    using predictGroupOrder_ok[of ?els "''body''" k trace] by blast
  define roots where "roots = map ((!) ?ri) ord"
  have roots: "distinct roots" "set roots = set ?ri"
    using map_nth_perm[OF g(2), of ?ri] g(3) by (simp_all add: roots_def body_roots_def)
  have "placements_by_id t1 (element_id (elements ! r)) \<noteq> None" if "r \<in> set roots" for r
  proof -
    have "element_id (elements ! r) \<in># placed_ids t1" using that roots(2) unfolding g(4) by simp
    then show ?thesis unfolding placements_by_id_dom by (simp add: placed_ids_def)
  qed
  then obtain t2 where e: "emit_roots elements (placements_by_id t1) roots ([], t1) =
      Some (concat (map (with_captions elements) roots), t2)"
    "placed_ids t2 = placed_ids t1 +
      mset (concat (map (\<lambda>r. map (\<lambda>i. element_id (elements ! i)) (captions_of elements r)) roots))"
    using emit_roots_ok[of roots "placements_by_id t1" elements "[]" t1] by auto
  let ?f = "\<lambda>i. element_id (elements ! i)"
  have res: "orderBody elements k trace = Some (concat (map (with_captions elements) roots), k', t2)"
    using g(1) e(1) by (simp add: orderBody_def Let_def roots_def)
  have "mset ?ri = mset roots"
    using roots by (intro set_eq_iff_mset_eq_distinct[THEN iffD1]) (simp_all add: body_roots_def)
  then have "mset (map ?f ?ri) = mset (map ?f roots)" by (metis mset_map)
  then have sum: "placed_ids t2 = placed_ids trace +
      (mset (map ?f roots) + mset (concat (map (\<lambda>r. map ?f (captions_of elements r)) roots)))"
    using e(2) g(4) by (simp add: image_mset.compositionality comp_def add.assoc)
  have split: "mset (map ?f rs) + mset (concat (map (\<lambda>r. map ?f (captions_of elements r)) rs)) =
      mset (map ?f (concat (map (with_captions elements) rs)))" for rs
    by (induction rs) (simp_all add: with_captions_def sortedByPosition_def)
  have "placed_ids t2 = placed_ids trace + mset (map ?f (concat (map (with_captions elements) roots)))"
    unfolding sum split ..
  also have "mset (map ?f (concat (map (with_captions elements) roots))) =
      image_mset element_id (mset (map ((!) elements) (concat (map (with_captions elements) roots))))"
    by (simp add: image_mset.compositionality comp_def)
  also have "\<dots> = mset (map element_id elements)"
    unfolding mset_map_nth_perm[OF captions_partition[OF roots]] by simp
  finally show ?thesis using res captions_partition[OF roots] roots(2) by blast
qed

subsection \<open>The contract of a reading-order backend\<close>

text \<open>An item's block is the one its index names, and its number is its position.\<close>

definition item_of :: "page_layout \<Rightarrow> nat \<Rightarrow> reading_order_item \<Rightarrow> bool" where
  "item_of layout k item \<longleftrightarrow> item_sequence_index item = int k \<and>
     in_range (item_layout_block_index item) (pl_blocks layout) \<and>
     item_layout_block_id item = lb_id (pl_blocks layout ! nat (item_layout_block_index item))"

definition sequenced :: "page_layout \<Rightarrow> reading_order_item list \<Rightarrow> bool" where
  "sequenced layout items \<longleftrightarrow> (\<forall>k<length items. item_of layout k (items ! k))"

lemma sequenced_snoc:
  "sequenced layout items \<Longrightarrow> item_of layout (length items) item \<Longrightarrow> sequenced layout (items @ [item])"
  by (auto simp: sequenced_def nth_append less_Suc_eq)

locale reading_order_contract =
  fixes order :: "page_layout \<Rightarrow> (bool \<times> page_reading_order) option"
  assumes returns: "order layout \<noteq> None"
    and page: "order layout = Some (True, ro) \<Longrightarrow>
      ro_page_index ro = pl_page_index layout \<and> ro_page_number ro = pl_page_number layout"
    and sequence: "order layout = Some (True, ro) \<Longrightarrow> sequenced layout (ro_items ro)"
    and complete: "order layout = Some (True, ro) \<Longrightarrow>
      mset (map item_layout_block_index (ro_items ro)) = mset (map int [0..<length (pl_blocks layout)])"
begin

lemma length_items: "order layout = Some (True, ro) \<Longrightarrow> length (ro_items ro) = length (pl_blocks layout)"
  using complete[of layout ro] by (metis length_map length_upt minus_nat.diff_0 size_mset)

lemma distinct_items: "order layout = Some (True, ro) \<Longrightarrow> distinct (map item_layout_block_index (ro_items ro))"
  using complete[of layout ro]
  by (metis distinct_map distinct_upt inj_on_of_nat mset_eq_imp_distinct_iff)

lemma item_for_block:
  assumes "order layout = Some (True, ro)" "i < length (pl_blocks layout)"
  shows "\<exists>!k. k < length (ro_items ro) \<and> item_layout_block_index (ro_items ro ! k) = int i"
proof -
  have "int i \<in> set (map item_layout_block_index (ro_items ro))"
    using complete[OF assms(1)] assms(2) by (metis atLeast0LessThan image_eqI lessThan_iff set_map set_mset_mset set_upt)
  then obtain k where k: "k < length (ro_items ro)" "item_layout_block_index (ro_items ro ! k) = int i"
    by (auto simp: in_set_conv_nth)
  moreover have "l = k" if "l < length (ro_items ro)" "item_layout_block_index (ro_items ro ! l) = int i" for l
    using distinct_items[OF assms(1)] k that by (simp add: distinct_conv_nth) metis
  ultimately show ?thesis by blast
qed

lemma item_names_block:
  assumes "order layout = Some (True, ro)" "k < length (ro_items ro)"
  shows "nat (item_layout_block_index (ro_items ro ! k)) < length (pl_blocks layout)"
    "item_layout_block_id (ro_items ro ! k) =
       lb_id (pl_blocks layout ! nat (item_layout_block_index (ro_items ro ! k)))"
    "item_sequence_index (ro_items ro ! k) = int k"
  using sequence[OF assms(1)] assms(2) by (auto simp: sequenced_def item_of_def in_range_def)

end

subsection \<open>This backend keeps it\<close>

definition elements_from :: "page_layout \<Rightarrow> page_element list \<Rightarrow> bool" where
  "elements_from layout elements \<longleftrightarrow> (\<forall>e\<in>set elements.
     in_range (pe_layout_block_index e) (pl_blocks layout) \<and>
     pe_block e = pl_blocks layout ! nat (pe_layout_block_index e))"

lemma elements_from_collect: "elements_from layout (collectElements layout types b)"
  by (auto simp: elements_from_def collectElements_def in_range_def)

lemma appendItems_fields:
  "ro_page_index (appendItems es order ro) = ro_page_index ro \<and>
   ro_page_number (appendItems es order ro) = ro_page_number ro"
proof -
  have "ro_page_index (foldl (\<lambda>r i. r\<lparr>ro_items := ro_items r @ [f r i]\<rparr>) ro order) = ro_page_index ro \<and>
     ro_page_number (foldl (\<lambda>r i. r\<lparr>ro_items := ro_items r @ [f r i]\<rparr>) ro order) = ro_page_number ro"
    for f :: "page_reading_order \<Rightarrow> nat \<Rightarrow> reading_order_item"
    by (induction order arbitrary: ro) simp_all
  then show ?thesis unfolding appendItems_def .
qed

lemma appendItems_ok:
  "sequenced layout (ro_items ro) \<Longrightarrow> elements_from layout es \<Longrightarrow> set order \<subseteq> {..<length es} \<Longrightarrow>
   sequenced layout (ro_items (appendItems es order ro)) \<and>
   map item_layout_block_index (ro_items (appendItems es order ro)) =
     map item_layout_block_index (ro_items ro) @ map (\<lambda>i. pe_layout_block_index (es ! i)) order"
proof (induction order arbitrary: ro)
  case Nil
  then show ?case by (simp add: appendItems_def)
next
  case (Cons i order)
  let ?item = "\<lparr>item_layout_block_id = lb_id (pe_block (es ! i)),
           item_layout_block_index = pe_layout_block_index (es ! i),
           item_sequence_index = int (length (ro_items ro))\<rparr>"
  let ?ro = "ro\<lparr>ro_items := ro_items ro @ [?item]\<rparr>"
  have "es ! i \<in> set es" using Cons.prems(3) by simp
  then have "item_of layout (length (ro_items ro)) ?item"
    using Cons.prems(2) by (auto simp: item_of_def elements_from_def)
  then have "sequenced layout (ro_items ?ro)"
    using sequenced_snoc[OF Cons.prems(1)] by simp
  moreover have "appendItems es (i # order) ro = appendItems es order ?ro" by (simp add: appendItems_def)
  ultimately show ?case using Cons.IH[of ?ro] Cons.prems by simp
qed

lemma collect_indices:
  "map pe_layout_block_index (collectElements layout types b) = map int
     (filter (\<lambda>i. (lb_type (pl_blocks layout ! i) \<in> set types) = b) [0..<length (pl_blocks layout)])"
  by (simp add: collectElements_def)

lemma mset_group_indices:
  assumes "distinct order" "set order = {..<length es}"
  shows "mset (map (\<lambda>i. pe_layout_block_index (es ! i)) order) = mset (map pe_layout_block_index es)"
proof -
  have "mset (map (\<lambda>i. pe_layout_block_index (es ! i)) order) =
      image_mset pe_layout_block_index (mset (map ((!) es) order))"
    by (simp add: image_mset.compositionality comp_def)
  then show ?thesis unfolding mset_map_nth_perm[OF assms] by simp
qed

text \<open>The three groups of a page, in order, and what each contributes.\<close>

definition page_groups :: "page_layout \<Rightarrow> page_element list \<times> page_element list \<times> page_element list" where
  "page_groups layout = (collectElements layout [LHeader] True,
     collectElements layout [LHeader, LFooter] False, collectElements layout [LFooter] True)"

lemma page_groups_complete:
  assumes "page_groups layout = (hs, bs, fs)"
  shows "mset (map pe_layout_block_index hs) + mset (map pe_layout_block_index bs) +
    mset (map pe_layout_block_index fs) = mset (map int [0..<length (pl_blocks layout)])"
proof -
  let ?t = "\<lambda>i. lb_type (pl_blocks layout ! i)"
  have "mset (map int (filter (\<lambda>i. ?t i = LHeader) xs)) +
      mset (map int (filter (\<lambda>i. ?t i \<noteq> LHeader \<and> ?t i \<noteq> LFooter) xs)) +
      mset (map int (filter (\<lambda>i. ?t i = LFooter) xs)) = mset (map int xs)" for xs
    by (induction xs) auto
  note split = this[of "[0..<length (pl_blocks layout)]"]
  have idx: "map pe_layout_block_index hs = map int (filter (\<lambda>i. ?t i = LHeader) [0..<length (pl_blocks layout)])"
    "map pe_layout_block_index bs =
       map int (filter (\<lambda>i. ?t i \<noteq> LHeader \<and> ?t i \<noteq> LFooter) [0..<length (pl_blocks layout)])"
    "map pe_layout_block_index fs = map int (filter (\<lambda>i. ?t i = LFooter) [0..<length (pl_blocks layout)])"
    using assms by (auto simp: page_groups_def collect_indices)
  show ?thesis unfolding idx by (rule split)
qed

lemma docling_order_ok:
  assumes "list_all (\<lambda>b. finiteBBox (lb_bbox b)) (pl_blocks layout)"
  shows "\<exists>ro ho bo fo roots hs bs fs. docling_order layout = Some (True, ro) \<and>
    page_groups layout = (hs, bs, fs) \<and>
    ro_page_index ro = pl_page_index layout \<and> ro_page_number ro = pl_page_number layout \<and>
    sequenced layout (ro_items ro) \<and>
    map item_layout_block_index (ro_items ro) = map (\<lambda>i. pe_layout_block_index (hs ! i)) ho @
      map (\<lambda>i. pe_layout_block_index (bs ! i)) bo @ map (\<lambda>i. pe_layout_block_index (fs ! i)) fo \<and>
    distinct ho \<and> set ho = {..<length hs} \<and> distinct bo \<and> set bo = {..<length bs} \<and>
    distinct fo \<and> set fo = {..<length fs} \<and>
    bo = concat (map (with_captions bs) roots) \<and> set roots = set (body_roots bs) \<and>
    placed_ids (ro_trace ro) = mset (map element_id (hs @ bs @ fs))"
proof -
  obtain hs bs fs where g: "page_groups layout = (hs, bs, fs)" by (metis prod_cases3)
  then have origin: "elements_from layout hs" "elements_from layout bs" "elements_from layout fs"
    and defs: "hs = collectElements layout [LHeader] True" "bs = collectElements layout [LHeader, LFooter] False"
      "fs = collectElements layout [LFooter] True"
    by (auto simp: page_groups_def elements_from_collect)
  let ?ro = "empty_reading_order\<lparr>ro_page_index := pl_page_index layout, ro_page_number := pl_page_number layout\<rparr>"
  let ?trace = "empty_trace\<lparr>tr_algorithm := ''band-column-topological-v3''\<rparr>"
  obtain ho k1 t1 where h: "predictGroupOrder hs ''header'' 0 ?trace = Some (ho, k1, t1)" "distinct ho"
    "set ho = {..<length hs}" "placed_ids t1 = placed_ids ?trace + mset (map element_id hs)"
    using predictGroupOrder_ok[of hs "''header''" 0 ?trace] by blast
  obtain bo k2 t2 roots where b: "orderBody bs k1 t1 = Some (bo, k2, t2)" "distinct bo" "set bo = {..<length bs}"
    "bo = concat (map (with_captions bs) roots)" "set roots = set (body_roots bs)"
    "placed_ids t2 = placed_ids t1 + mset (map element_id bs)"
    using orderBody_ok[of bs k1 t1] by blast
  obtain fo k3 t3 where f: "predictGroupOrder fs ''footer'' k2 t2 = Some (fo, k3, t3)" "distinct fo"
    "set fo = {..<length fs}" "placed_ids t3 = placed_ids t2 + mset (map element_id fs)"
    using predictGroupOrder_ok[of fs "''footer''" k2 t2] by blast
  let ?r1 = "appendItems hs ho ?ro"
  let ?r2 = "appendItems bs bo ?r1"
  let ?r3 = "appendItems fs fo ?r2"
  have fin: "\<not> list_ex (\<lambda>b. \<not> finiteBBox (lb_bbox b)) (pl_blocks layout)"
    using assms by (simp add: list_ex_iff list_all_iff)
  define ro where "ro = ?r3\<lparr>ro_trace := t3\<rparr>"
  have ro: "ro_items ro = ro_items ?r3" "ro_trace ro = t3" "ro_page_index ro = pl_page_index layout"
    "ro_page_number ro = pl_page_number layout"
    by (simp_all add: ro_def appendItems_fields)
  have res: "docling_order layout = Some (True, ro)"
    using fin h(1) b(1) f(1) by (simp add: docling_order_def Let_def defs ro_def)
  have s0: "sequenced layout (ro_items ?ro)" by (simp add: sequenced_def empty_reading_order_def)
  have s1: "sequenced layout (ro_items ?r1)"
    "map item_layout_block_index (ro_items ?r1) = map (\<lambda>i. pe_layout_block_index (hs ! i)) ho"
    using appendItems_ok[OF s0 origin(1), of ho] h(3) by (simp_all add: empty_reading_order_def)
  have s2: "sequenced layout (ro_items ?r2)"
    "map item_layout_block_index (ro_items ?r2) = map (\<lambda>i. pe_layout_block_index (hs ! i)) ho @
      map (\<lambda>i. pe_layout_block_index (bs ! i)) bo"
    using appendItems_ok[OF s1(1) origin(2), of bo] s1(2) b(3) by simp_all
  have s3: "sequenced layout (ro_items ?r3)"
    "map item_layout_block_index (ro_items ?r3) = map (\<lambda>i. pe_layout_block_index (hs ! i)) ho @
      map (\<lambda>i. pe_layout_block_index (bs ! i)) bo @ map (\<lambda>i. pe_layout_block_index (fs ! i)) fo"
    using appendItems_ok[OF s2(1) origin(3), of fo] s2(2) f(3) by simp_all
  have pt: "placed_ids (ro_trace ro) = mset (map element_id (hs @ bs @ fs))"
    using h(4) b(6) f(4) by (simp add: ro(2) placed_ids_def empty_trace_def)
  show ?thesis
    by (intro exI conjI, rule res, rule g, rule ro(3), rule ro(4), rule s3(1)[folded ro(1)],
        rule s3(2)[folded ro(1)], rule h(2), rule h(3), rule b(2), rule b(3), rule f(2), rule f(3),
        rule b(4), rule b(5), rule pt)
qed

lemma docling_order_cases:
  "(list_all (\<lambda>b. finiteBBox (lb_bbox b)) (pl_blocks layout) \<and> (\<exists>ro. docling_order layout = Some (True, ro))) \<or>
   (\<not> list_all (\<lambda>b. finiteBBox (lb_bbox b)) (pl_blocks layout) \<and>
     docling_order layout = Some (False, empty_reading_order))"
proof (cases "list_all (\<lambda>b. finiteBBox (lb_bbox b)) (pl_blocks layout)")
  case True
  with docling_order_ok[OF True] show ?thesis by blast
next
  case False
  then have "list_ex (\<lambda>b. \<not> finiteBBox (lb_bbox b)) (pl_blocks layout)" by (simp add: list_ex_iff list_all_iff)
  with False show ?thesis by (simp add: docling_order_def)
qed

lemma docling_order_complete:
  assumes "docling_order layout = Some (True, ro)"
  shows "ro_page_index ro = pl_page_index layout \<and> ro_page_number ro = pl_page_number layout"
    "sequenced layout (ro_items ro)"
    "mset (map item_layout_block_index (ro_items ro)) = mset (map int [0..<length (pl_blocks layout)])"
proof -
  have fin: "list_all (\<lambda>b. finiteBBox (lb_bbox b)) (pl_blocks layout)"
    using docling_order_cases[of layout] assms by auto
  obtain ho bo fo hs bs fs where o: "page_groups layout = (hs, bs, fs)"
    "ro_page_index ro = pl_page_index layout" "ro_page_number ro = pl_page_number layout"
    "sequenced layout (ro_items ro)"
    "map item_layout_block_index (ro_items ro) = map (\<lambda>i. pe_layout_block_index (hs ! i)) ho @
      map (\<lambda>i. pe_layout_block_index (bs ! i)) bo @ map (\<lambda>i. pe_layout_block_index (fs ! i)) fo"
    "distinct ho" "set ho = {..<length hs}" "distinct bo" "set bo = {..<length bs}"
    "distinct fo" "set fo = {..<length fs}"
    using docling_order_ok[OF fin] assms by auto
  show "ro_page_index ro = pl_page_index layout \<and> ro_page_number ro = pl_page_number layout"
    "sequenced layout (ro_items ro)" using o(2-4) by simp_all
  show "mset (map item_layout_block_index (ro_items ro)) = mset (map int [0..<length (pl_blocks layout)])"
    unfolding o(5) mset_append mset_group_indices[OF o(6,7)] mset_group_indices[OF o(8,9)]
      mset_group_indices[OF o(10,11)] page_groups_complete[OF o(1), symmetric]
    by (simp only: add.assoc)
qed

interpretation docling: reading_order_contract docling_order
proof
  show "docling_order layout \<noteq> None" for layout using docling_order_cases[of layout] by auto
qed (use docling_order_complete in blast)+

section \<open>Properties\<close>

text \<open>
  C14: the backend always returns, and succeeds exactly when every coordinate of the page is
  finite. Then each block of the layout has exactly one item, each item carries its block's id
  and its own position, and there is one placement per block in the trace.
\<close>

theorem docling_order_correct:
  "(\<exists>ro. docling_order layout = Some (True, ro) \<and>
      list_all (\<lambda>b. finiteBBox (lb_bbox b)) (pl_blocks layout) \<and>
      mset (map item_layout_block_index (ro_items ro)) = mset (map int [0..<length (pl_blocks layout)]) \<and>
      sequenced layout (ro_items ro) \<and>
      mset (map plc_layout_block_id (tr_placements (ro_trace ro))) = mset (map lb_id (pl_blocks layout))) \<or>
   (docling_order layout = Some (False, empty_reading_order) \<and>
      list_ex (\<lambda>b. \<not> finiteBBox (lb_bbox b)) (pl_blocks layout))"
proof (cases "list_all (\<lambda>b. finiteBBox (lb_bbox b)) (pl_blocks layout)")
  case True
  obtain ro hs bs fs where o: "docling_order layout = Some (True, ro)" "page_groups layout = (hs, bs, fs)"
    "placed_ids (ro_trace ro) = mset (map element_id (hs @ bs @ fs))"
    using docling_order_ok[OF True] by blast
  let ?idf = "\<lambda>i. lb_id (pl_blocks layout ! nat i)"
  have ids: "map element_id es = map ?idf (map pe_layout_block_index es)" if "elements_from layout es" for es
    using that by (auto simp: elements_from_def)
  have "mset (map element_id (hs @ bs @ fs)) = image_mset ?idf
      (mset (map pe_layout_block_index hs) + mset (map pe_layout_block_index bs) + mset (map pe_layout_block_index fs))"
  proof -
    have "elements_from layout hs" "elements_from layout bs" "elements_from layout fs"
      using o(2) by (auto simp: page_groups_def elements_from_collect)
    then show ?thesis
      by (simp only: map_append mset_append ids mset_map[symmetric] map_map[symmetric] image_mset_union add.assoc)
  qed
  also have "\<dots> = mset (map ?idf (map int [0..<length (pl_blocks layout)]))"
    unfolding page_groups_complete[OF o(2)] by (simp only: mset_map)
  also have "map ?idf (map int [0..<length (pl_blocks layout)]) = map lb_id (pl_blocks layout)"
    by (intro nth_equalityI) simp_all
  finally show ?thesis
    using o(1,3) True docling_order_complete[OF o(1)] by (auto simp: placed_ids_def)
next
  case False
  then show ?thesis using docling_order_cases[of layout] by (auto simp: list_ex_iff list_all_iff)
qed

text \<open>
  a page reads headers first, then the body, then footers; and in the body every figure or
  table is directly followed by its captions, so that no other block comes between them.
\<close>

lemma docling_order_groups:
  assumes "docling_order layout = Some (True, ro)" and "page_groups layout = (hs, bs, fs)"
  shows "\<exists>ho fo roots. map item_layout_block_index (ro_items ro) =
      map (\<lambda>i. pe_layout_block_index (hs ! i)) ho @
      map (\<lambda>i. pe_layout_block_index (bs ! i)) (concat (map (with_captions bs) roots)) @
      map (\<lambda>i. pe_layout_block_index (fs ! i)) fo \<and>
    mset ho = mset [0..<length hs] \<and> set roots = set (body_roots bs) \<and> mset fo = mset [0..<length fs]"
proof -
  have fin: "list_all (\<lambda>b. finiteBBox (lb_bbox b)) (pl_blocks layout)"
    using docling_order_cases[of layout] assms(1) by auto
  have perm: "mset os = mset [0..<n]" if "distinct os" "set os = {..<n}" for os and n :: nat
    using that by (intro set_eq_iff_mset_eq_distinct[THEN iffD1]) (auto simp: atLeast0LessThan)
  from docling_order_ok[OF fin] assms obtain ho bo fo roots where
    "map item_layout_block_index (ro_items ro) = map (\<lambda>i. pe_layout_block_index (hs ! i)) ho @
      map (\<lambda>i. pe_layout_block_index (bs ! i)) bo @ map (\<lambda>i. pe_layout_block_index (fs ! i)) fo"
    "distinct ho" "set ho = {..<length hs}" "distinct fo" "set fo = {..<length fs}"
    "bo = concat (map (with_captions bs) roots)" "set roots = set (body_roots bs)" by auto
  with perm show ?thesis by blast
qed

definition sample_layout :: page_layout where
  "sample_layout = \<lparr>pl_page_index = 0, pl_page_number = 1,
     pl_blocks = [default_layout_block\<lparr>lb_id := ''b1'', lb_type := LFooter\<rparr>,
                  default_layout_block\<lparr>lb_id := ''b2'', lb_type := LHeader\<rparr>]\<rparr>"

lemma docling_order_groups_witness:
  "\<exists>ro. docling_order sample_layout = Some (True, ro) \<and> map item_layout_block_index (ro_items ro) = [1, 0]"
proof -
  have "list_all (\<lambda>b. finiteBBox (lb_bbox b)) (pl_blocks sample_layout)"
    by (simp add: sample_layout_def default_layout_block_def empty_bbox_def finiteBBox_def isfinite_small)
  then obtain ro where ro: "docling_order sample_layout = Some (True, ro)"
    using docling_order_cases[of sample_layout] by auto
  let ?e = "\<lambda>i. \<lparr>pe_layout_block_index = int i, pe_block = pl_blocks sample_layout ! i,
      pe_bbox = lb_bbox (pl_blocks sample_layout ! i)\<rparr>"
  have g: "page_groups sample_layout = ([?e 1], [], [?e 0])"
    by (simp add: page_groups_def collectElements_def sample_layout_def default_layout_block_def upt_rec)
  obtain ho fo roots where o: "map item_layout_block_index (ro_items ro) =
      map (\<lambda>i. pe_layout_block_index ([?e 1] ! i)) ho @
      map (\<lambda>i. pe_layout_block_index (([] :: page_element list) ! i)) (concat (map (with_captions []) roots)) @
      map (\<lambda>i. pe_layout_block_index ([?e 0] ! i)) fo"
    "mset ho = mset [0..<length [?e 1]]" "set roots = set (body_roots [])" "mset fo = mset [0..<length [?e 0]]"
    using docling_order_groups[OF ro g] by (elim exE conjE) (rule that)
  then have "ho = [0]" "roots = []" "fo = [0]" by (simp_all add: body_roots_def)
  with o(1) ro show ?thesis by simp
qed

end
