(* ===== verification/Assembler.thy ===== *)
theory Assembler
  imports Furniture Reading_Backend
begin

text \<open>
  \<open>DocumentAssembler::assemble\<close> of \<open>cpp/assembly/document_assembler.cpp\<close>: the pages' layout
  blocks become document blocks in reading order, without running headers and footers, with
  document-wide identifiers, and captions become relations. The pages' reading orders are
  data here; that the order of an arbitrary backend is followed is proved from the backend's
  contract.
\<close>

record assemble_request =
  rq_source_path :: string
  rq_source_type :: string
  rq_dpi :: int
  rq_pages :: "page_artifact list"
  rq_page_texts :: "page_text list"
  rq_page_layouts :: "page_layout list"
  rq_page_reading_orders :: "page_reading_order list"
  rq_page_tables :: "page_tables list"
  rq_source_size_bytes :: "nat option"
  rq_source_sha256 :: string

definition findTableForLayoutBlock :: "page_tables \<Rightarrow> string \<Rightarrow> table option" where
  "findTableForLayoutBlock tables block_id = find (\<lambda>t. tb_layout_block_id t = block_id) (pg_tables tables)"

definition cells_text :: "table_row \<Rightarrow> string" where
  "cells_text row = snd (foldl (\<lambda>(first_cell, str) cell.
      (False, str @ (if first_cell then [] else [CHR 0x09]) @ cell_text cell)) (True, []) (row_cells row))"

definition tableText :: "table \<Rightarrow> string" where
  "tableText t = foldl (\<lambda>str row. (if str \<noteq> [] then str @ [CHR 0x0A] else str) @ cells_text row) [] (tb_rows t)"

subsection \<open>One document block\<close>

definition add_cell_refs :: "string \<Rightarrow> text_source \<Rightarrow> table_row \<Rightarrow> table_row" where
  "add_cell_refs page_id source row =
     row\<lparr>row_cells := map (\<lambda>c. c\<lparr>cell_source_refs := cell_source_refs c @
       [\<lparr>ref_page_id = page_id, ref_bbox = cell_bbox c, ref_text = cell_text c, ref_source = source\<rparr>]\<rparr>)
       (row_cells row)\<rparr>"

definition attach_table :: "page_artifacts \<Rightarrow> layout_block \<Rightarrow> table \<Rightarrow> document_block \<Rightarrow> document_block" where
  "attach_table page layout_block t block =
     (let source = blockTextSource (ppa_text page) layout_block in
      block\<lparr>db_table_id := tb_id t, db_table_continuation_group_id := tb_continuation_group_id t,
        db_table_continues_from_previous_page := tb_continues_from_previous_page t,
        db_table_continues_on_next_page := tb_continues_on_next_page t,
        db_table_rows := map (add_cell_refs (db_page_id block) source) (tb_rows t),
        db_text := (if tb_text_mode t = Cells then tableText t else db_text block),
        db_confidence := min (db_confidence block) (tb_confidence t)\<rparr>)"

definition makeDocumentBlock ::
  "page_artifacts \<Rightarrow> layout_block \<Rightarrow> string \<Rightarrow> (string \<rightharpoonup> string) \<Rightarrow> document_block" where
  "makeDocumentBlock page layout_block document_block_id related_block_ids =
     (let str = joinLayoutBlockText (ppa_text page) layout_block;
          page_id = pageId (ppa_page_number page);
          block = \<lparr>db_id = document_block_id, db_type = toDocumentBlockType (lb_type layout_block),
            db_source_label = lb_source_label layout_block,
            db_related_block_id = (case related_block_ids (lb_related_block_id layout_block) of
                None \<Rightarrow> []
              | Some related \<Rightarrow> if related \<noteq> document_block_id then related else []),
            db_page_index = ppa_page_index page, db_page_number = ppa_page_number page,
            db_bbox = lb_bbox layout_block, db_confidence = lb_confidence layout_block, db_text = str,
            db_text_line_indices = lb_text_line_indices layout_block, db_table_id = [],
            db_table_continuation_group_id = [], db_table_continues_from_previous_page = False,
            db_table_continues_on_next_page = False, db_table_rows = [], db_page_id = page_id,
            db_source_refs = [\<lparr>ref_page_id = page_id, ref_bbox = lb_bbox layout_block, ref_text = str,
               ref_source = blockTextSource (ppa_text page) layout_block\<rparr>]\<rparr>
      in if db_type block = BTable then
           (case findTableForLayoutBlock (ppa_tables page) (lb_id layout_block) of
              None \<Rightarrow> block | Some t \<Rightarrow> attach_table page layout_block t block)
         else block)"

subsection \<open>The order of a page's blocks\<close>

text \<open>The set \<open>seen\<close> is always the set of the indices collected so far.\<close>

definition follow_item :: "layout_block list \<Rightarrow> nat list \<Rightarrow> reading_order_item \<Rightarrow> nat list" where
  "follow_item blocks indices item =
     (if \<not> in_range (item_layout_block_index item) blocks then indices
      else
        let i = nat (item_layout_block_index item) in
        if item_layout_block_id item \<noteq> [] \<and> lb_id (blocks ! i) \<noteq> item_layout_block_id item then indices
        else if i \<in> set indices then indices else indices @ [i])"

definition orderedLayoutBlockIndices :: "page_artifacts \<Rightarrow> nat list" where
  "orderedLayoutBlockIndices page =
     (let blocks = pl_blocks (ppa_layout page);
          followed = foldl (follow_item blocks) [] (ro_items (ppa_reading_order page))
      in foldl (\<lambda>indices i. if i \<in> set indices then indices else indices @ [i])
           followed [0..<length blocks])"

definition hasMatchingPageCounts :: "assemble_request \<Rightarrow> bool" where
  "hasMatchingPageCounts request \<longleftrightarrow>
     length (rq_pages request) = length (rq_page_texts request) \<and>
     length (rq_pages request) = length (rq_page_layouts request) \<and>
     length (rq_pages request) = length (rq_page_reading_orders request) \<and>
     length (rq_pages request) = length (rq_page_tables request)"

subsection \<open>Assembly\<close>

definition request_pages :: "assemble_request \<Rightarrow> page_artifacts list" where
  "request_pages request = map (\<lambda>i.
     \<lparr>ppa_page_index = pa_page_index (rq_pages request ! i),
      ppa_page_number = pa_page_number (rq_pages request ! i), ppa_image = rq_pages request ! i,
      ppa_text = rq_page_texts request ! i, ppa_layout = rq_page_layouts request ! i,
      ppa_reading_order = rq_page_reading_orders request ! i, ppa_tables = rq_page_tables request ! i\<rparr>)
     [0..<length (rq_pages request)]"

definition document_page_of :: "page_artifact \<Rightarrow> document_page" where
  "document_page_of page = \<lparr>dp_id = pageId (pa_page_number page), dp_number = pa_page_number page,
     dp_width = real_of_int (pa_width page), dp_height = real_of_int (pa_height page),
     dp_image_id = pageId (pa_page_number page) @ ''_image'', dp_image_uri = pa_relative_image page,
     dp_image_media_type = imageMediaType (pa_relative_image page)\<rparr>"

definition kept_block :: "string list \<Rightarrow> page_artifacts \<Rightarrow> layout_block \<Rightarrow> bool" where
  "kept_block repeated page block \<longleftrightarrow>
     (let signature = furnitureSignature page block in signature = [] \<or> signature \<notin> set repeated)"

definition included_indices :: "string list \<Rightarrow> page_artifacts \<Rightarrow> nat list" where
  "included_indices repeated page =
     filter (\<lambda>i. kept_block repeated page (pl_blocks (ppa_layout page) ! i)) (orderedLayoutBlockIndices page)"

definition related_ids :: "page_artifacts \<Rightarrow> nat \<Rightarrow> nat list \<Rightarrow> (string \<rightharpoonup> string)" where
  "related_ids page first_index included =
     foldl (\<lambda>m k. m(lb_id (pl_blocks (ppa_layout page) ! (included ! k)) \<mapsto>
              blockId (ppa_page_number page) (first_index + k)))
       Map.empty [0..<length included]"

text \<open>\<open>related_block_ids[layout_block.id]\<close>: an entry made by the loop before, so never the default.\<close>

definition page_blocks :: "string list \<Rightarrow> nat \<Rightarrow> page_artifacts \<Rightarrow> document_block list" where
  "page_blocks repeated first_index page =
     (let included = included_indices repeated page;
          related = related_ids page first_index included
      in map (\<lambda>i. let block = pl_blocks (ppa_layout page) ! i
                  in makeDocumentBlock page block
                       (case related (lb_id block) of Some x \<Rightarrow> x | None \<Rightarrow> []) related) included)"

definition append_page :: "string list \<Rightarrow> document_block list \<Rightarrow> page_artifacts \<Rightarrow> document_block list" where
  "append_page repeated blocks page = blocks @ page_blocks repeated (length blocks) page"

definition is_related :: "document_block \<Rightarrow> bool" where
  "is_related block \<longleftrightarrow> \<not> (db_related_block_id block = [] \<or> db_related_block_id block = db_id block)"

definition make_relation :: "nat \<Rightarrow> document_block \<Rightarrow> document_relation" where
  "make_relation k block = \<lparr>rel_id = ''relation_'' @ nat_to_string (k + 1),
     rel_type = (if db_source_label block = ''Caption'' \<or> db_source_label block = ''caption''
                 then ''caption_of'' else ''related_to''),
     rel_from_block_id = db_id block, rel_to_block_id = db_related_block_id block\<rparr>"

definition append_relation :: "document_relation list \<Rightarrow> document_block \<Rightarrow> document_relation list" where
  "append_relation relations block =
     (if \<not> is_related block then relations else relations @ [make_relation (length relations) block])"

text \<open>\<open>None\<close> is the return value \<open>false\<close>, which leaves both outputs as they were.\<close>

definition assemble ::
  "string \<Rightarrow> assemble_request \<Rightarrow> (parsed_document \<times> pipeline_artifacts) option" where
  "assemble engine_version request =
     (if \<not> hasMatchingPageCounts request then None
      else
        let artifacts = request_pages request;
            blocks = foldl (append_page (repeatedFurniture artifacts)) [] artifacts
        in Some (\<lparr>pd_source = \<lparr>src_path = rq_source_path request, src_type = rq_source_type request,
               src_filename = path_filename (rq_source_path request),
               src_media_type = sourceMediaType (rq_source_type request),
               src_size_bytes = rq_source_size_bytes request, src_sha256 = rq_source_sha256 request\<rparr>,
             pd_dpi = rq_dpi request, pd_blocks = blocks,
             pd_document_id = sourceScopedDocumentId (rq_source_path request), pd_status = Complete,
             pd_producer = \<lparr>prod_name = ''technical-doc-parser'', prod_version = engine_version,
               prod_git_revision = [], prod_run_id = []\<rparr>,
             pd_pages = map document_page_of (rq_pages request),
             pd_relations = foldl append_relation [] blocks, pd_warnings = []\<rparr>, artifacts))"

subsection \<open>Every block of a page once\<close>

lemma follow_item_ok:
  "distinct indices \<Longrightarrow> set indices \<subseteq> {..<length blocks} \<Longrightarrow>
   distinct (follow_item blocks indices item) \<and> set (follow_item blocks indices item) \<subseteq> {..<length blocks}"
  by (auto simp: follow_item_def Let_def in_range_def)

lemma follow_items_ok:
  "distinct (foldl (follow_item blocks) [] items) \<and> set (foldl (follow_item blocks) [] items) \<subseteq> {..<length blocks}"
  by (rule foldl_invariant[where P = "\<lambda>is. distinct is \<and> set is \<subseteq> {..<length blocks}"])
    (use follow_item_ok in auto)

lemma foldl_insert_missing:
  "distinct xs \<Longrightarrow> distinct ys \<Longrightarrow>
   foldl (\<lambda>indices i. if i \<in> set indices then indices else indices @ [i]) xs ys =
     xs @ filter (\<lambda>y. y \<notin> set xs) ys"
proof (induction ys arbitrary: xs)
  case (Cons y ys)
  show ?case
  proof (cases "y \<in> set xs")
    case False
    have "filter (\<lambda>z. z \<notin> set (xs @ [y])) ys = filter (\<lambda>z. z \<notin> set xs) ys"
      using Cons.prems(2) by (intro filter_cong) auto
    with False Cons.IH[of "xs @ [y]"] Cons.prems show ?thesis by simp
  qed (use Cons in simp)
qed simp

lemma orderedLayoutBlockIndices_perm:
  "distinct (orderedLayoutBlockIndices page)"
  "set (orderedLayoutBlockIndices page) = {..<length (pl_blocks (ppa_layout page))}"
proof -
  let ?f = "foldl (follow_item (pl_blocks (ppa_layout page))) [] (ro_items (ppa_reading_order page))"
  have f: "distinct ?f" "set ?f \<subseteq> {..<length (pl_blocks (ppa_layout page))}"
    using follow_items_ok by blast+
  have eq: "orderedLayoutBlockIndices page = ?f @ filter (\<lambda>y. y \<notin> set ?f) [0..<length (pl_blocks (ppa_layout page))]"
    by (simp add: orderedLayoutBlockIndices_def Let_def foldl_insert_missing[OF f(1)])
  show "distinct (orderedLayoutBlockIndices page)" unfolding eq using f(1) by auto
  show "set (orderedLayoutBlockIndices page) = {..<length (pl_blocks (ppa_layout page))}"
    unfolding eq using f(2) by auto
qed

text \<open>A reading order that keeps the backend's contract is followed exactly.\<close>

lemma follow_items_sequenced:
  assumes "sequenced layout items" "distinct (map item_layout_block_index items)"
  shows "foldl (follow_item (pl_blocks layout)) [] items = map (\<lambda>i. nat (item_layout_block_index i)) items"
  using assms
proof (induction items rule: rev_induct)
  case (snoc item items)
  have "sequenced layout items"
    unfolding sequenced_def
  proof (intro allI impI)
    fix k
    assume "k < length items"
    then show "item_of layout k (items ! k)"
      using snoc.prems(1) by (auto simp: sequenced_def nth_append dest: spec[of _ k])
  qed
  with snoc have IH: "foldl (follow_item (pl_blocks layout)) [] items = map (\<lambda>i. nat (item_layout_block_index i)) items"
    by simp
  have item: "in_range (item_layout_block_index item) (pl_blocks layout)"
    "item_layout_block_id item = lb_id (pl_blocks layout ! nat (item_layout_block_index item))"
    using snoc.prems(1) by (auto simp: sequenced_def item_of_def nth_append dest: spec[of _ "length items"])
  have "nat (item_layout_block_index item) \<noteq> nat (item_layout_block_index j)" if j: "j \<in> set items" for j
  proof -
    obtain k where "k < length items" "items ! k = j" using j by (auto simp: in_set_conv_nth)
    then have "in_range (item_layout_block_index j) (pl_blocks layout)"
      using \<open>sequenced layout items\<close> by (auto simp: sequenced_def item_of_def)
    moreover have "item_layout_block_index item \<noteq> item_layout_block_index j" using snoc.prems(2) j by auto
    ultimately show ?thesis using item(1) by (auto simp: in_range_def eq_nat_nat_iff)
  qed
  then have fresh: "nat (item_layout_block_index item) \<notin> set (map (\<lambda>i. nat (item_layout_block_index i)) items)"
    by auto
  have "foldl (follow_item (pl_blocks layout)) [] (items @ [item]) =
      follow_item (pl_blocks layout) (map (\<lambda>i. nat (item_layout_block_index i)) items) item"
    using IH by simp
  also have "\<dots> = map (\<lambda>i. nat (item_layout_block_index i)) (items @ [item])"
    using item fresh by (simp add: follow_item_def Let_def)
  finally show ?case .
qed simp

context reading_order_contract
begin

lemma assembler_follows:
  assumes "order (ppa_layout page) = Some (True, ppa_reading_order page)"
  shows "orderedLayoutBlockIndices page =
    map (\<lambda>i. nat (item_layout_block_index i)) (ro_items (ppa_reading_order page))"
proof -
  let ?items = "ro_items (ppa_reading_order page)"
  have f: "foldl (follow_item (pl_blocks (ppa_layout page))) [] ?items =
      map (\<lambda>i. nat (item_layout_block_index i)) ?items"
    by (rule follow_items_sequenced[OF sequence[OF assms] distinct_items[OF assms]])
  have "set (map (\<lambda>i. nat (item_layout_block_index i)) ?items) = {..<length (pl_blocks (ppa_layout page))}"
  proof -
    have "set (map (\<lambda>i. nat (item_layout_block_index i)) ?items) = nat ` set (map item_layout_block_index ?items)"
      by auto
    also have "set (map item_layout_block_index ?items) = set (map int [0..<length (pl_blocks (ppa_layout page))])"
      using complete[OF assms] by (rule mset_eq_setD)
    finally show ?thesis by (auto simp: image_image)
  qed
  then have "set (foldl (follow_item (pl_blocks (ppa_layout page))) [] ?items) =
      {..<length (pl_blocks (ppa_layout page))}" unfolding f .
  moreover have "distinct (foldl (follow_item (pl_blocks (ppa_layout page))) [] ?items)"
    using follow_items_ok by blast
  ultimately have "orderedLayoutBlockIndices page = foldl (follow_item (pl_blocks (ppa_layout page))) [] ?items"
    by (auto simp: orderedLayoutBlockIndices_def Let_def foldl_insert_missing filter_empty_conv)
  then show ?thesis unfolding f .
qed

end

subsection \<open>The blocks of a page\<close>

lemma makeDocumentBlock_fields [simp]:
  "db_id (makeDocumentBlock page lb i m) = i"
  "db_type (makeDocumentBlock page lb i m) = toDocumentBlockType (lb_type lb)"
  "db_bbox (makeDocumentBlock page lb i m) = lb_bbox lb"
  "db_page_number (makeDocumentBlock page lb i m) = ppa_page_number page"
  "db_related_block_id (makeDocumentBlock page lb i m) = (case m (lb_related_block_id lb) of
      None \<Rightarrow> [] | Some related \<Rightarrow> if related \<noteq> i then related else [])"
  by (auto simp: makeDocumentBlock_def Let_def attach_table_def split: option.split)

lemma included_indices_ok:
  "distinct (included_indices repeated page)"
  "set (included_indices repeated page) =
     {i. i < length (pl_blocks (ppa_layout page)) \<and> kept_block repeated page (pl_blocks (ppa_layout page) ! i)}"
  using orderedLayoutBlockIndices_perm[of page] by (auto simp: included_indices_def)

lemma related_ids_prefix:
  "n \<le> length included \<Longrightarrow>
   (\<forall>k<n. foldl (\<lambda>m k. m(f (included ! k) \<mapsto> g k)) Map.empty [0..<n] (f (included ! k)) \<noteq> None) \<and>
   (\<forall>x y. foldl (\<lambda>m k. m(f (included ! k) \<mapsto> g k)) Map.empty [0..<n] x = Some y \<longrightarrow>
      (\<exists>k<n. f (included ! k) = x \<and> y = g k))"
proof (induction n)
  case (Suc n)
  then show ?case by (auto simp: less_Suc_eq) blast
qed simp

lemma related_ids_found:
  assumes "k < length included"
  shows "\<exists>y. related_ids page first included (lb_id (pl_blocks (ppa_layout page) ! (included ! k))) = Some y"
  using related_ids_prefix[of "length included" included "\<lambda>i. lb_id (pl_blocks (ppa_layout page) ! i)"
      "\<lambda>k. blockId (ppa_page_number page) (first + k)"] assms
  by (auto simp: related_ids_def)

lemma related_ids_source:
  assumes "related_ids page first included x = Some y"
  shows "\<exists>k<length included. lb_id (pl_blocks (ppa_layout page) ! (included ! k)) = x \<and>
    y = blockId (ppa_page_number page) (first + k)"
  using related_ids_prefix[of "length included" included "\<lambda>i. lb_id (pl_blocks (ppa_layout page) ! i)"
      "\<lambda>k. blockId (ppa_page_number page) (first + k)"] assms
  by (auto simp: related_ids_def)

lemma length_page_blocks [simp]: "length (page_blocks repeated first page) = length (included_indices repeated page)"
  by (simp add: page_blocks_def Let_def)

lemma page_blocks_nth:
  assumes "k < length (included_indices repeated page)"
  shows "\<exists>y. related_ids page first (included_indices repeated page)
        (lb_id (pl_blocks (ppa_layout page) ! (included_indices repeated page ! k))) = Some y \<and>
      page_blocks repeated first page ! k = makeDocumentBlock page
        (pl_blocks (ppa_layout page) ! (included_indices repeated page ! k)) y
        (related_ids page first (included_indices repeated page))"
  using related_ids_found[OF assms, of page first] assms by (auto simp: page_blocks_def Let_def)

lemma page_blocks_ids:
  assumes "distinct (map lb_id (pl_blocks (ppa_layout page)))" "k < length (page_blocks repeated first page)"
  shows "db_id (page_blocks repeated first page ! k) = blockId (ppa_page_number page) (first + k)"
proof -
  let ?inc = "included_indices repeated page" and ?b = "pl_blocks (ppa_layout page)"
  have k: "k < length ?inc" using assms(2) by simp
  obtain y where y: "related_ids page first ?inc (lb_id (?b ! (?inc ! k))) = Some y"
    "page_blocks repeated first page ! k = makeDocumentBlock page (?b ! (?inc ! k)) y (related_ids page first ?inc)"
    using page_blocks_nth[OF k] by blast
  obtain l where l: "l < length ?inc" "lb_id (?b ! (?inc ! l)) = lb_id (?b ! (?inc ! k))"
    "y = blockId (ppa_page_number page) (first + l)"
    using related_ids_source[OF y(1)] by blast
  have "?inc ! l < length ?b" "?inc ! k < length ?b"
    using included_indices_ok(2)[of repeated page] l(1) k nth_mem by blast+
  then have "?inc ! l = ?inc ! k"
    using l(2) nth_eq_iff_index_eq[OF assms(1)] by simp
  then have "l = k"
    using nth_eq_iff_index_eq[OF included_indices_ok(1) l(1) k] by simp
  with l(3) y(2) show ?thesis by simp
qed

text \<open>A block's related id is that of another block of the same page.\<close>

lemma page_blocks_related:
  assumes "b \<in> set (page_blocks repeated first page)" "db_related_block_id b \<noteq> []"
  shows "db_related_block_id b \<noteq> db_id b"
    "db_related_block_id b \<in> db_id ` set (page_blocks repeated first page)"
proof -
  let ?inc = "included_indices repeated page" and ?b = "pl_blocks (ppa_layout page)"
  let ?rel = "related_ids page first ?inc"
  obtain k where k: "k < length ?inc" "b = page_blocks repeated first page ! k"
    using assms(1) unfolding in_set_conv_nth length_page_blocks by metis
  obtain y where y: "b = makeDocumentBlock page (?b ! (?inc ! k)) y ?rel"
    using page_blocks_nth[OF k(1)] k(2) by metis
  then obtain z where z: "?rel (lb_related_block_id (?b ! (?inc ! k))) = Some z" "db_related_block_id b = z" "z \<noteq> y"
    using assms(2) by (auto split: option.splits if_splits)
  show "db_related_block_id b \<noteq> db_id b" using y z by simp
  obtain l where l: "l < length ?inc" "lb_id (?b ! (?inc ! l)) = lb_related_block_id (?b ! (?inc ! k))"
    using related_ids_source[OF z(1)] by blast
  from page_blocks_nth[OF l(1), of first] have "db_id (page_blocks repeated first page ! l) = z"
    using l(2) z(1) by auto
  moreover have "page_blocks repeated first page ! l \<in> set (page_blocks repeated first page)"
    using l(1) by (intro nth_mem) simp
  ultimately show "db_related_block_id b \<in> db_id ` set (page_blocks repeated first page)"
    using z(2) by (metis imageI)
qed

lemma page_blocks_content:
  "mset (map (\<lambda>b. (db_type b, db_bbox b, db_page_number b)) (page_blocks repeated first page)) =
   mset (map (\<lambda>lb. (toDocumentBlockType (lb_type lb), lb_bbox lb, ppa_page_number page))
     (filter (kept_block repeated page) (pl_blocks (ppa_layout page))))"
proof -
  let ?inc = "included_indices repeated page" and ?b = "pl_blocks (ppa_layout page)"
  let ?g = "\<lambda>lb. (toDocumentBlockType (lb_type lb), lb_bbox lb, ppa_page_number page)"
  have "map (\<lambda>b. (db_type b, db_bbox b, db_page_number b)) (page_blocks repeated first page) = map (\<lambda>i. ?g (?b ! i)) ?inc"
    by (simp add: page_blocks_def Let_def)
  moreover have "mset ?inc = mset (filter (\<lambda>i. kept_block repeated page (?b ! i)) [0..<length ?b])"
    using included_indices_ok[of repeated page]
    by (intro set_eq_iff_mset_eq_distinct[THEN iffD1]) auto
  then have "mset (map (\<lambda>i. ?g (?b ! i)) ?inc) =
      mset (map (\<lambda>i. ?g (?b ! i)) (filter (\<lambda>i. kept_block repeated page (?b ! i)) [0..<length ?b]))"
    by (metis mset_map)
  moreover have "map (\<lambda>i. ?g (?b ! i)) (filter (\<lambda>i. kept_block repeated page (?b ! i)) [0..<length ?b]) =
      map ?g (filter (kept_block repeated page) ?b)"
  proof -
    have "filter (kept_block repeated page) ?b = filter (kept_block repeated page) (map ((!) ?b) [0..<length ?b])"
      by (simp only: map_nth)
    then show ?thesis by (simp add: filter_map comp_def)
  qed
  ultimately show ?thesis by simp
qed

subsection \<open>The blocks of the document\<close>

fun chunks_from :: "string list \<Rightarrow> nat \<Rightarrow> page_artifacts list \<Rightarrow> document_block list list" where
  "chunks_from repeated first [] = []"
| "chunks_from repeated first (page # pages) =
     page_blocks repeated first page #
       chunks_from repeated (first + length (page_blocks repeated first page)) pages"

lemma foldl_append_page:
  "foldl (append_page repeated) blocks pages = blocks @ concat (chunks_from repeated (length blocks) pages)"
  by (induction pages arbitrary: blocks) (simp_all add: append_page_def)

lemma chunks_nth:
  "p < length pages \<Longrightarrow> \<exists>first. chunks_from repeated k pages ! p = page_blocks repeated first (pages ! p)"
proof (induction pages arbitrary: k p)
  case (Cons page pages)
  then show ?case by (cases p) auto
qed simp

lemma length_chunks [simp]: "length (chunks_from repeated k pages) = length pages"
  by (induction pages arbitrary: k) auto

lemma chunks_ids:
  "list_all (\<lambda>page. distinct (map lb_id (pl_blocks (ppa_layout page)))) pages \<Longrightarrow>
   m < length (concat (chunks_from repeated first pages)) \<Longrightarrow>
   \<exists>n. db_id (concat (chunks_from repeated first pages) ! m) = blockId n (first + m)"
proof (induction pages arbitrary: first m)
  case (Cons page pages)
  let ?pb = "page_blocks repeated first page"
  show ?case
  proof (cases "m < length ?pb")
    case True
    then show ?thesis using page_blocks_ids[OF _ True] Cons.prems(1) by (auto simp: nth_append)
  next
    case False
    then show ?thesis
      using Cons.IH[of "m - length ?pb" "first + length ?pb"] Cons.prems by (auto simp: nth_append)
  qed
qed simp

lemma chunks_related:
  assumes "b \<in> set (concat (chunks_from repeated first pages))" "db_related_block_id b \<noteq> []"
  shows "db_related_block_id b \<noteq> db_id b \<and>
    db_related_block_id b \<in> db_id ` set (concat (chunks_from repeated first pages))"
  using assms
proof (induction pages arbitrary: first)
  case (Cons page pages)
  then show ?case
    using page_blocks_related[of b repeated first page] by (fastforce simp del: length_page_blocks)
qed simp

lemma foldl_append_relation:
  "foldl append_relation rels blocks = rels @ map2 make_relation
     [length rels..<length rels + length (filter is_related blocks)] (filter is_related blocks)"
proof (induction blocks arbitrary: rels)
  case (Cons b blocks)
  show ?case
    using Cons.IH[of "append_relation rels b"]
    by (cases "is_related b") (simp_all add: append_relation_def[of rels b] upt_conv_Cons del: upt_Suc)
qed simp

lemma set_relations:
  assumes "r \<in> set (foldl append_relation [] blocks)"
  shows "\<exists>b\<in>set blocks. \<exists>k. is_related b \<and> r = make_relation k b"
proof -
  let ?f = "filter is_related blocks"
  obtain k b where "(k, b) \<in> set (zip [0..<length ?f] ?f)" "r = make_relation k b"
    using assms unfolding foldl_append_relation by auto
  then show ?thesis by (auto dest!: set_zip_rightD)
qed

lemma relation_ids:
  "map rel_id (foldl append_relation [] blocks) =
     map (\<lambda>k. ''relation_'' @ nat_to_string (k + 1)) [0..<length (filter is_related blocks)]"
  unfolding foldl_append_relation by (intro nth_equalityI) (simp_all add: make_relation_def)

section \<open>Properties\<close>

lemma assemble_Some:
  assumes "assemble version request = Some (doc, artifacts)"
  shows "artifacts = request_pages request" "hasMatchingPageCounts request"
    "pd_blocks doc = concat (chunks_from (repeatedFurniture artifacts) 0 artifacts)"
    "pd_relations doc = foldl append_relation [] (pd_blocks doc)"
  using assms by (auto simp: assemble_def Let_def foldl_append_page split: if_splits)

lemma assembled_ids:
  assumes "assemble version request = Some (doc, artifacts)"
    and "list_all (\<lambda>page. distinct (map lb_id (pl_blocks (ppa_layout page)))) artifacts"
  shows "distinct (map db_id (pd_blocks doc)) \<and>
    (\<forall>m<length (pd_blocks doc). \<exists>n. db_id (pd_blocks doc ! m) = blockId n m)"
proof -
  have ids: "\<exists>n. db_id (pd_blocks doc ! m) = blockId n m" if "m < length (pd_blocks doc)" for m
    using chunks_ids[OF assms(2), of m "repeatedFurniture artifacts" 0] that
    unfolding assemble_Some(3)[OF assms(1)] by simp
  then have "distinct (map db_id (pd_blocks doc))"
    unfolding distinct_conv_nth by (metis blockId_inj length_map nth_map)
  with ids show ?thesis by blast
qed

lemma assembled_relations:
  assumes "assemble version request = Some (doc, artifacts)" "r \<in> set (pd_relations doc)"
  shows "rel_from_block_id r \<in> db_id ` set (pd_blocks doc) \<and> rel_to_block_id r \<in> db_id ` set (pd_blocks doc) \<and>
    rel_from_block_id r \<noteq> rel_to_block_id r \<and> rel_type r \<noteq> []"
proof -
  obtain b k where b: "b \<in> set (pd_blocks doc)" "is_related b" "r = make_relation k b"
    using assms(2) set_relations unfolding assemble_Some(4)[OF assms(1)] by blast
  then have "db_related_block_id b \<noteq> []" by (simp add: is_related_def)
  with chunks_related b(1) have "db_related_block_id b \<noteq> db_id b"
    "db_related_block_id b \<in> db_id ` set (pd_blocks doc)"
    unfolding assemble_Some(3)[OF assms(1)] by blast+
  with b show ?thesis by (auto simp: make_relation_def)
qed

text \<open>A header or footer whose signature is also on a page with another index.\<close>

definition running_furniture :: "page_artifacts list \<Rightarrow> page_artifacts \<Rightarrow> layout_block \<Rightarrow> bool" where
  "running_furniture pages page block \<longleftrightarrow> furnitureSignature page block \<noteq> [] \<and>
     (\<exists>p\<in>set pages. \<exists>q\<in>set pages. ppa_page_index p \<noteq> ppa_page_index q \<and>
        furnitureSignature page block \<in> furnitureSignature p ` set (pl_blocks (ppa_layout p)) \<and>
        furnitureSignature page block \<in> furnitureSignature q ` set (pl_blocks (ppa_layout q)))"

lemma kept_block_iff: "kept_block (repeatedFurniture pages) page block \<longleftrightarrow> \<not> running_furniture pages page block"
  by (auto simp: kept_block_def Let_def running_furniture_def repeatedFurniture_iff)

text \<open>
  C15: assembly succeeds exactly when the five page lists have one length. Then the document has
  one run of blocks per page, in page order, holding every layout block of the page exactly once
  except the running headers and footers, which are those found on pages of different index.
\<close>

theorem assemble_keeps_blocks:
  "(assemble version request = None \<longleftrightarrow> \<not> hasMatchingPageCounts request) \<and>
   (\<forall>doc artifacts. assemble version request = Some (doc, artifacts) \<longrightarrow>
     (\<exists>chunks. pd_blocks doc = concat chunks \<and> length chunks = length artifacts \<and>
       (\<forall>p<length artifacts.
         mset (map (\<lambda>b. (db_type b, db_bbox b, db_page_number b)) (chunks ! p)) =
         mset (map (\<lambda>lb. (toDocumentBlockType (lb_type lb), lb_bbox lb, ppa_page_number (artifacts ! p)))
           (filter (\<lambda>lb. \<not> running_furniture artifacts (artifacts ! p) lb)
             (pl_blocks (ppa_layout (artifacts ! p))))))))"
proof (intro conjI allI impI)
  show "assemble version request = None \<longleftrightarrow> \<not> hasMatchingPageCounts request"
    by (simp add: assemble_def Let_def)
next
  fix doc artifacts
  assume a: "assemble version request = Some (doc, artifacts)"
  let ?chunks = "chunks_from (repeatedFurniture artifacts) 0 artifacts"
  have "mset (map (\<lambda>b. (db_type b, db_bbox b, db_page_number b)) (?chunks ! p)) =
      mset (map (\<lambda>lb. (toDocumentBlockType (lb_type lb), lb_bbox lb, ppa_page_number (artifacts ! p)))
        (filter (\<lambda>lb. \<not> running_furniture artifacts (artifacts ! p) lb) (pl_blocks (ppa_layout (artifacts ! p)))))"
    if p: "p < length artifacts" for p
  proof -
    obtain first where "?chunks ! p = page_blocks (repeatedFurniture artifacts) first (artifacts ! p)"
      using chunks_nth[OF p] by blast
    moreover have "kept_block (repeatedFurniture artifacts) (artifacts ! p) =
        (\<lambda>lb. \<not> running_furniture artifacts (artifacts ! p) lb)" by (simp add: kept_block_iff fun_eq_iff)
    ultimately show ?thesis by (simp only: page_blocks_content)
  qed
  then show "\<exists>chunks. pd_blocks doc = concat chunks \<and> length chunks = length artifacts \<and>
       (\<forall>p<length artifacts.
         mset (map (\<lambda>b. (db_type b, db_bbox b, db_page_number b)) (chunks ! p)) =
         mset (map (\<lambda>lb. (toDocumentBlockType (lb_type lb), lb_bbox lb, ppa_page_number (artifacts ! p)))
           (filter (\<lambda>lb. \<not> running_furniture artifacts (artifacts ! p) lb)
             (pl_blocks (ppa_layout (artifacts ! p))))))"
    using assemble_Some(3)[OF a] by (intro exI[of _ ?chunks]) simp
qed

text \<open>A request of one page with two blocks, the second a caption of the first.\<close>

definition sample_request :: assemble_request where
  "sample_request = \<lparr>rq_source_path = ''/data/a.pdf'', rq_source_type = ''pdf'', rq_dpi = 200,
     rq_pages = [\<lparr>pa_page_index = 0, pa_page_number = 1, pa_relative_image = ''p1.png'',
       pa_output_path = [], pa_width = 100, pa_height = 100, pa_debug_images = []\<rparr>],
     rq_page_texts = [empty_page_text],
     rq_page_layouts = [\<lparr>pl_page_index = 0, pl_page_number = 1,
       pl_blocks = [default_layout_block\<lparr>lb_id := ''b1'', lb_type := LFigure\<rparr>,
         default_layout_block\<lparr>lb_id := ''b2'', lb_type := LText, lb_source_label := ''Caption'',
           lb_related_block_id := ''b1''\<rparr>]\<rparr>],
     rq_page_reading_orders = [empty_reading_order],
     rq_page_tables = [\<lparr>pg_page_index = 0, pg_page_number = 1, pg_tables = []\<rparr>],
     rq_source_size_bytes = None, rq_source_sha256 = []\<rparr>"

lemma sample_request_assembles: "\<exists>doc artifacts. assemble ''1.0'' sample_request = Some (doc, artifacts)"
  by (simp add: assemble_def Let_def hasMatchingPageCounts_def sample_request_def)

theorem assemble_keeps_blocks_witness:
  "\<exists>doc artifacts chunks. assemble ''1.0'' sample_request = Some (doc, artifacts) \<and>
     pd_blocks doc = concat chunks \<and> length chunks = 1"
proof -
  obtain doc artifacts where a: "assemble ''1.0'' sample_request = Some (doc, artifacts)"
    using sample_request_assembles by blast
  have "length artifacts = 1" using assemble_Some(1)[OF a] by (simp add: request_pages_def sample_request_def)
  then show ?thesis using assemble_keeps_blocks[of "''1.0''" sample_request] a by metis
qed

text \<open>
  when the ids of each page's layout blocks are distinct, so are the ids of the document's
  blocks: the block at position \<open>m\<close> ends in \<open>_block_\<close> and the number \<open>m + 1\<close>.
\<close>

lemma assemble_unique_ids:
  assumes "assemble version request = Some (doc, artifacts)"
    and "list_all (\<lambda>l. distinct (map lb_id (pl_blocks l))) (rq_page_layouts request)"
  shows "distinct (map db_id (pd_blocks doc)) \<and>
    (\<forall>m<length (pd_blocks doc). \<exists>n. db_id (pd_blocks doc ! m) = blockId n m)"
proof -
  have "list_all (\<lambda>page. distinct (map lb_id (pl_blocks (ppa_layout page)))) artifacts"
    using assms(2) assemble_Some(1,2)[OF assms(1)]
    by (auto simp: request_pages_def list_all_length hasMatchingPageCounts_def)
  then show ?thesis by (rule assembled_ids[OF assms(1)])
qed

lemma assemble_unique_ids_witness:
  "\<exists>doc artifacts. assemble ''1.0'' sample_request = Some (doc, artifacts) \<and> distinct (map db_id (pd_blocks doc))"
proof -
  obtain doc artifacts where a: "assemble ''1.0'' sample_request = Some (doc, artifacts)"
    using sample_request_assembles by blast
  have "list_all (\<lambda>l. distinct (map lb_id (pl_blocks l))) (rq_page_layouts sample_request)"
    by (simp add: sample_request_def)
  with assemble_unique_ids[OF a] a show ?thesis by blast
qed

text \<open>
  relations are sound. Each one joins two different ids that are both ids of blocks of the
  document, and the relations are numbered from one without gaps.
\<close>

lemma assemble_relations_sound:
  assumes "assemble version request = Some (doc, artifacts)"
  shows "(\<forall>r\<in>set (pd_relations doc). rel_from_block_id r \<in> db_id ` set (pd_blocks doc) \<and>
      rel_to_block_id r \<in> db_id ` set (pd_blocks doc) \<and> rel_from_block_id r \<noteq> rel_to_block_id r) \<and>
    map rel_id (pd_relations doc) =
      map (\<lambda>k. ''relation_'' @ nat_to_string (k + 1)) [0..<length (pd_relations doc)]"
proof (rule conjI)
  show "\<forall>r\<in>set (pd_relations doc). rel_from_block_id r \<in> db_id ` set (pd_blocks doc) \<and>
      rel_to_block_id r \<in> db_id ` set (pd_blocks doc) \<and> rel_from_block_id r \<noteq> rel_to_block_id r"
    using assembled_relations[OF assms] by blast
next
  have "length (pd_relations doc) = length (filter is_related (pd_blocks doc))"
    using arg_cong[OF relation_ids[of "pd_blocks doc"], of length] by (simp add: assemble_Some(4)[OF assms])
  then show "map rel_id (pd_relations doc) =
      map (\<lambda>k. ''relation_'' @ nat_to_string (k + 1)) [0..<length (pd_relations doc)]"
    using relation_ids[of "pd_blocks doc"] by (simp add: assemble_Some(4)[OF assms])
qed

lemma assemble_relations_sound_witness:
  "\<exists>doc artifacts. assemble ''1.0'' sample_request = Some (doc, artifacts) \<and>
     map rel_id (pd_relations doc) =
       map (\<lambda>k. ''relation_'' @ nat_to_string (k + 1)) [0..<length (pd_relations doc)]"
  using sample_request_assembles assemble_relations_sound by blast

text \<open>
  C16: a page whose reading order came from the reading-order backend keeps that order: its
  document blocks are the layout blocks in the order of the items, without running furniture.
\<close>

theorem assemble_follows_reading_order:
  assumes "docling_order (ppa_layout page) = Some (True, ppa_reading_order page)"
  shows "map (\<lambda>b. (db_type b, db_bbox b)) (page_blocks repeated first page) =
    map (\<lambda>lb. (toDocumentBlockType (lb_type lb), lb_bbox lb))
      (filter (kept_block repeated page)
        (map (\<lambda>item. pl_blocks (ppa_layout page) ! nat (item_layout_block_index item))
          (ro_items (ppa_reading_order page))))"
  unfolding page_blocks_def Let_def included_indices_def docling.assembler_follows[OF assms]
  by (simp add: filter_map comp_def)

definition sample_page_artifacts :: "page_reading_order \<Rightarrow> page_artifacts" where
  "sample_page_artifacts ro = \<lparr>ppa_page_index = 0, ppa_page_number = 1,
     ppa_image = \<lparr>pa_page_index = 0, pa_page_number = 1, pa_relative_image = [],
       pa_output_path = [], pa_width = 100, pa_height = 100, pa_debug_images = []\<rparr>,
     ppa_text = empty_page_text, ppa_layout = sample_layout, ppa_reading_order = ro,
     ppa_tables = \<lparr>pg_page_index = 0, pg_page_number = 1, pg_tables = []\<rparr>\<rparr>"

theorem assemble_follows_reading_order_witness:
  "\<exists>ro. docling_order sample_layout = Some (True, ro) \<and>
     length (page_blocks [] 0 (sample_page_artifacts ro)) = 2"
proof -
  have "list_all (\<lambda>b. finiteBBox (lb_bbox b)) (pl_blocks sample_layout)"
    by (simp add: sample_layout_def default_layout_block_def empty_bbox_def finiteBBox_def isfinite_small)
  then obtain ro where ro: "docling_order sample_layout = Some (True, ro)"
    using docling_order_cases[of sample_layout] by auto
  have len: "length (ro_items ro) = 2" using docling.length_items[OF ro] by (simp add: sample_layout_def)
  have all: "filter (kept_block [] page) bs = bs" for page bs
    by (simp add: kept_block_def Let_def filter_id_conv)
  have "length (map (\<lambda>b. (db_type b, db_bbox b)) (page_blocks [] 0 (sample_page_artifacts ro))) = 2"
    by (subst assemble_follows_reading_order) (simp_all add: sample_page_artifacts_def ro all len)
  with ro show ?thesis by (auto simp del: length_page_blocks)
qed

end
