(* ===== verification/Layout_Assign.thy ===== *)
theory Layout_Assign
  imports Common
begin

text \<open>
  The first half of \<open>cpp/layout/layout_postprocessing.cpp\<close>: which text line belongs to which
  layout block, which figure or table a caption belongs to, and blocks at the page's edges that
  are headers or footers. Line indices are \<open>int\<close> in the code and here; \<open>line_at\<close> is the
  access \<open>text.lines[static_cast<std::size_t>(i)]\<close>.
\<close>

definition overlapOverLine :: "bbox \<Rightarrow> bbox \<Rightarrow> double" where
  "overlapOverLine line block =
     (let width = max 0 (min (bx1 line) (bx1 block) - max (bx0 line) (bx0 block));
          height = max 0 (min (by1 line) (by1 block) - max (by0 line) (by0 block));
          area = bboxArea line
      in if area \<le> 0 then 0 else width * height / area)"

definition containsCenter :: "bbox \<Rightarrow> bbox \<Rightarrow> bool" where
  "containsCenter outer inner \<longleftrightarrow>
     (let center_x = (bx0 inner + bx1 inner) * 0.5; center_y = (by0 inner + by1 inner) * 0.5
      in center_x \<ge> bx0 outer \<and> center_x \<le> bx1 outer \<and> center_y \<ge> by0 outer \<and> center_y \<le> by1 outer)"

definition intervalGap :: "double \<Rightarrow> double \<Rightarrow> double \<Rightarrow> double \<Rightarrow> double" where
  "intervalGap lhs_begin lhs_end rhs_begin rhs_end =
     (if lhs_end < rhs_begin then rhs_begin - lhs_end
      else if rhs_end < lhs_begin then lhs_begin - rhs_end else 0)"

definition hypot :: "double \<Rightarrow> double \<Rightarrow> double" where
  "hypot x y = sqrt (x ^ 2 + y ^ 2)"

definition captionDistance :: "bbox \<Rightarrow> bbox \<Rightarrow> double" where
  "captionDistance caption target =
     hypot (intervalGap (bx0 caption) (bx1 caption) (bx0 target) (bx1 target))
           (intervalGap (by0 caption) (by1 caption) (by0 target) (by1 target))"

definition isCaptionLabel :: "string \<Rightarrow> bool" where
  "isCaptionLabel label \<longleftrightarrow> label = ''Caption'' \<or> label = ''figure_title''"

definition hasVisibleText :: "string \<Rightarrow> bool" where
  "hasVisibleText s \<longleftrightarrow> list_ex (\<lambda>c. \<not> isspace c) s"

definition isFurniture :: "layout_type \<Rightarrow> bool" where
  "isFurniture t \<longleftrightarrow> t = LHeader \<or> t = LFooter"

definition overlapsFurniture :: "bbox \<Rightarrow> layout_block list \<Rightarrow> bool" where
  "overlapsFurniture box blocks \<longleftrightarrow>
     list_ex (\<lambda>b. isFurniture (lb_type b) \<and>
        (overlapOverLine box (lb_bbox b) \<ge> 0.10 \<or> containsCenter (lb_bbox b) box)) blocks"

definition horizontalOverlap :: "bbox \<Rightarrow> bbox \<Rightarrow> double" where
  "horizontalOverlap lhs rhs = max 0 (min (bx1 lhs) (bx1 rhs) - max (bx0 lhs) (bx0 rhs))"

definition line_at :: "page_text \<Rightarrow> int \<Rightarrow> text_line" where
  "line_at page_text i = pt_lines page_text ! nat i"

definition line_box :: "page_text \<Rightarrow> int \<Rightarrow> bbox" where
  "line_box page_text i = line_bbox (line_at page_text i)"

definition linePositionLess :: "page_text \<Rightarrow> int \<Rightarrow> int \<Rightarrow> bool" where
  "linePositionLess page_text lhs rhs =
     (let left = line_box page_text lhs; right = line_box page_text rhs in
      if by0 left \<noteq> by0 right then by0 left < by0 right
      else if bx0 left \<noteq> bx0 right then bx0 left < bx0 right
      else lhs < rhs)"

interpretation linePositionLess: keyed_order "linePositionLess page_text"
  "\<lambda>i. (by0 (line_box page_text i), bx0 (line_box page_text i), i)" for page_text
  by unfold_locales (auto simp: linePositionLess_def Let_def)

definition line_indices_of :: "layout_block list \<Rightarrow> int multiset" where
  "line_indices_of blocks = (\<Sum>b\<leftarrow>blocks. mset (lb_text_line_indices b))"

lemma line_indices_of_simps [simp]:
  "line_indices_of [] = {#}"
  "line_indices_of (b # bs) = mset (lb_text_line_indices b) + line_indices_of bs"
  "line_indices_of (bs @ cs) = line_indices_of bs + line_indices_of cs"
  by (simp_all add: line_indices_of_def)

subsection \<open>\<open>assignTextLines\<close>\<close>

definition covers_line :: "bbox \<Rightarrow> layout_block \<Rightarrow> bool" where
  "covers_line line b \<longleftrightarrow> \<not> (overlapOverLine line (lb_bbox b) < 0.5 \<and> \<not> containsCenter (lb_bbox b) line)"

text \<open>The loop's state: \<open>best_index\<close>, \<open>best_coverage\<close> and \<open>best_area\<close>.\<close>

definition cover_step ::
  "bbox \<Rightarrow> layout_block list \<Rightarrow> nat option \<times> double \<times> double \<Rightarrow> nat \<Rightarrow> nat option \<times> double \<times> double" where
  "cover_step line blocks best block_index =
     (case best of (best_index, best_coverage, best_area) \<Rightarrow>
        let b = blocks ! block_index; coverage = overlapOverLine line (lb_bbox b) in
        if \<not> covers_line line b then best
        else
          let area = bboxArea (lb_bbox b) in
          if coverage > best_coverage \<or> (\<bar>coverage - best_coverage\<bar> < 1 / 10 ^ 9 \<and> area < best_area)
          then (Some block_index, coverage, area) else best)"

definition best_cover :: "bbox \<Rightarrow> layout_block list \<Rightarrow> nat option" where
  "best_cover line blocks =
     fst (foldl (cover_step line blocks) (None, 0, dbl_max) [0..<length blocks])"

definition add_line :: "int \<Rightarrow> layout_block \<Rightarrow> layout_block" where
  "add_line i b = b\<lparr>lb_text_line_indices := lb_text_line_indices b @ [i]\<rparr>"

definition assign_line :: "page_text \<Rightarrow> layout_block list \<Rightarrow> nat \<Rightarrow> layout_block list" where
  "assign_line page_text blocks line_index =
     (case best_cover (line_bbox (pt_lines page_text ! line_index)) blocks of
        None \<Rightarrow> blocks
      | Some b \<Rightarrow> upd_at blocks b (add_line (int line_index)))"

definition assignTextLines :: "page_text \<Rightarrow> layout_block list \<Rightarrow> layout_block list" where
  "assignTextLines page_text blocks = foldl (assign_line page_text) blocks [0..<length (pt_lines page_text)]"

subsection \<open>\<open>associateCaptions\<close>\<close>

definition caption_target :: "layout_block list \<Rightarrow> layout_block \<Rightarrow> nat option" where
  "caption_target blocks caption =
     best_of (\<lambda>i. if lb_type (blocks ! i) = LFigure \<or> lb_type (blocks ! i) = LTable
                  then Some (captionDistance (lb_bbox caption) (lb_bbox (blocks ! i))) else None)
       [0..<length blocks]"

definition associate_caption :: "page_artifact \<Rightarrow> layout_block list \<Rightarrow> layout_block \<Rightarrow> layout_block" where
  "associate_caption page blocks caption =
     (let page_diagonal = hypot (real_of_int (max 1 (pa_width page))) (real_of_int (max 1 (pa_height page)));
          maximum_distance = page_diagonal * 0.25
      in if \<not> isCaptionLabel (lb_source_label caption) then caption
         else case caption_target blocks caption of
             None \<Rightarrow> caption
           | Some i \<Rightarrow>
               if captionDistance (lb_bbox caption) (lb_bbox (blocks ! i)) \<le> maximum_distance
               then caption\<lparr>lb_related_block_id := lb_id (blocks ! i)\<rparr> else caption)"

text \<open>The loop writes only the captions' own \<open>related_block_id\<close>, which no candidate test reads.\<close>

definition associateCaptions :: "page_artifact \<Rightarrow> layout_block list \<Rightarrow> layout_block list" where
  "associateCaptions page blocks = map (associate_caption page blocks) blocks"

subsection \<open>\<open>refineEdgeFurniture\<close>\<close>

definition fallbackBlockType :: "bbox \<Rightarrow> page_artifact \<Rightarrow> layout_type" where
  "fallbackBlockType b page =
     (if pa_width page \<le> 0 \<or> pa_height page \<le> 0 then LText
      else
        let center_y = (by0 b + by1 b) * 0.5 / real_of_int (pa_height page)
        in if center_y \<le> 0.05 then LHeader else if center_y \<ge> 0.95 then LFooter else LText)"

definition supportsFurnitureRefinement :: "layout_type \<Rightarrow> bool" where
  "supportsFurnitureRefinement t \<longleftrightarrow> t = LUnknown \<or> t = LText \<or> t = LList"

record edge_stats =
  es_headers :: int
  es_footers :: int

definition refine_edge_block ::
  "page_artifact \<Rightarrow> layout_block list \<times> edge_stats \<Rightarrow> layout_block \<Rightarrow> layout_block list \<times> edge_stats" where
  "refine_edge_block page acc block =
     (case acc of (blocks, stats) \<Rightarrow>
        if \<not> supportsFurnitureRefinement (lb_type block) \<or> \<not> validBBox (lb_bbox block)
        then (blocks @ [block], stats)
        else
          let refined = fallbackBlockType (lb_bbox block) page;
              changed = block\<lparr>lb_type := refined, lb_confidence := min (lb_confidence block) 0.50\<rparr>
          in if refined = LHeader then (blocks @ [changed], stats\<lparr>es_headers := es_headers stats + 1\<rparr>)
             else if refined = LFooter then (blocks @ [changed], stats\<lparr>es_footers := es_footers stats + 1\<rparr>)
             else (blocks @ [block], stats))"

definition refineEdgeFurniture ::
  "page_artifact \<Rightarrow> layout_block list \<Rightarrow> layout_block list \<times> edge_stats" where
  "refineEdgeFurniture page blocks =
     (if pa_width page \<le> 0 \<or> pa_height page \<le> 0 then (blocks, \<lparr>es_headers = 0, es_footers = 0\<rparr>)
      else foldl (refine_edge_block page) ([], \<lparr>es_headers = 0, es_footers = 0\<rparr>) blocks)"

subsection \<open>Every covered line goes to exactly one block\<close>

lemma overlapOverLine_nonneg: "0 \<le> overlapOverLine line block"
  by (auto simp: overlapOverLine_def Let_def bboxArea_nonneg)

lemma overlapOverLine_le_1: "overlapOverLine line block \<le> 1"
proof (cases "bboxArea line \<le> 0")
  case False
  have "max 0 (min (bx1 line) (bx1 block) - max (bx0 line) (bx0 block)) *
      max 0 (min (by1 line) (by1 block) - max (by0 line) (by0 block)) \<le> bboxArea line"
    unfolding bboxArea_def by (intro mult_mono) auto
  with False show ?thesis by (simp add: overlapOverLine_def Let_def)
qed (simp add: overlapOverLine_def Let_def)

definition cover_inv :: "bbox \<Rightarrow> layout_block list \<Rightarrow> nat \<Rightarrow> nat option \<times> double \<times> double \<Rightarrow> bool" where
  "cover_inv line blocks n best \<longleftrightarrow> (case best of (best_index, best_coverage, best_area) \<Rightarrow>
     (case best_index of
        None \<Rightarrow> best_coverage = 0 \<and> best_area = dbl_max \<and> (\<forall>k<n. \<not> covers_line line (blocks ! k))
      | Some k \<Rightarrow> k < n \<and> covers_line line (blocks ! k)))"

lemma cover_step_inv:
  assumes "cover_inv line blocks n best" "bboxArea (lb_bbox (blocks ! n)) < dbl_max"
  shows "cover_inv line blocks (Suc n) (cover_step line blocks best n)"
  using assms overlapOverLine_nonneg[of line "lb_bbox (blocks ! n)"]
  by (auto simp: cover_inv_def cover_step_def Let_def less_Suc_eq split: prod.splits option.splits if_splits)

lemma best_cover_inv:
  assumes "list_all (\<lambda>b. bboxArea (lb_bbox b) < dbl_max) blocks" "n \<le> length blocks"
  shows "cover_inv line blocks n (foldl (cover_step line blocks) (None, 0, dbl_max) [0..<n])"
  using assms(2)
proof (induction n)
  case 0
  then show ?case by (simp add: cover_inv_def)
next
  case (Suc n)
  then show ?case using cover_step_inv assms(1) by (simp add: list_all_length)
qed

lemma best_cover_Some:
  assumes "list_all (\<lambda>b. bboxArea (lb_bbox b) < dbl_max) blocks"
  shows "best_cover line blocks = Some k \<Longrightarrow> k < length blocks \<and> covers_line line (blocks ! k)"
    "best_cover line blocks = None \<Longrightarrow> \<forall>b\<in>set blocks. \<not> covers_line line b"
  using best_cover_inv[OF assms order.refl, of line]
  by (auto simp: best_cover_def cover_inv_def in_set_conv_nth split: prod.splits)

text \<open>Assignment only appends line indices: everything else about the blocks stays.\<close>

definition same_boxes :: "layout_block list \<Rightarrow> layout_block list \<Rightarrow> bool" where
  "same_boxes xs ys \<longleftrightarrow> map (\<lambda>b. b\<lparr>lb_text_line_indices := []\<rparr>) xs = map (\<lambda>b. b\<lparr>lb_text_line_indices := []\<rparr>) ys"

lemma same_boxesD:
  assumes "same_boxes xs ys"
  shows "length xs = length ys" "i < length xs \<Longrightarrow> lb_bbox (xs ! i) = lb_bbox (ys ! i)"
    "i < length xs \<Longrightarrow> (xs ! i)\<lparr>lb_text_line_indices := []\<rparr> = (ys ! i)\<lparr>lb_text_line_indices := []\<rparr>"
proof -
  show len: "length xs = length ys" using assms by (metis length_map same_boxes_def)
  show *: "(xs ! i)\<lparr>lb_text_line_indices := []\<rparr> = (ys ! i)\<lparr>lb_text_line_indices := []\<rparr>" if "i < length xs" for i
    using assms len that unfolding same_boxes_def by (metis nth_map)
  show "lb_bbox (xs ! i) = lb_bbox (ys ! i)" if "i < length xs"
    using arg_cong[OF *[OF that], of lb_bbox] by simp
qed

lemma same_boxes_upd: "same_boxes (upd_at xs i (add_line k)) xs"
  by (cases "i < length xs") (simp_all add: same_boxes_def upd_at_def map_update add_line_def list_update_same_conv)

lemma same_boxes_trans: "same_boxes xs ys \<Longrightarrow> same_boxes ys zs \<Longrightarrow> same_boxes xs zs"
  by (simp add: same_boxes_def)

lemma assign_line_same: "same_boxes (assign_line page_text blocks i) blocks"
  by (auto simp: assign_line_def same_boxes_upd split: option.split) (simp add: same_boxes_def)

lemma same_boxes_covers:
  assumes "same_boxes xs ys"
  shows "(\<exists>b\<in>set xs. covers_line line b) = (\<exists>b\<in>set ys. covers_line line b)"
    "list_all (\<lambda>b. bboxArea (lb_bbox b) < dbl_max) xs = list_all (\<lambda>b. bboxArea (lb_bbox b) < dbl_max) ys"
proof -
  have "map lb_bbox xs = map lb_bbox ys" using same_boxesD[OF assms] by (intro nth_equalityI) auto
  then have b: "lb_bbox ` set xs = lb_bbox ` set ys" by (metis set_map)
  have P: "(\<exists>b\<in>set zs. covers_line line b) = (\<exists>x\<in>lb_bbox ` set zs.
      \<not> (overlapOverLine line x < 0.5 \<and> \<not> containsCenter x line))" for zs
    by (auto simp: covers_line_def)
  show "(\<exists>b\<in>set xs. covers_line line b) = (\<exists>b\<in>set ys. covers_line line b)" unfolding P b ..
  have Q: "list_all (\<lambda>b. bboxArea (lb_bbox b) < dbl_max) zs = (\<forall>x\<in>lb_bbox ` set zs. bboxArea x < dbl_max)" for zs
    by (auto simp: list_all_iff)
  show "list_all (\<lambda>b. bboxArea (lb_bbox b) < dbl_max) xs = list_all (\<lambda>b. bboxArea (lb_bbox b) < dbl_max) ys"
    unfolding Q b ..
qed

lemma assign_line_indices:
  assumes "list_all (\<lambda>b. bboxArea (lb_bbox b) < dbl_max) blocks"
  shows "line_indices_of (assign_line page_text blocks i) = line_indices_of blocks +
    (if \<exists>b\<in>set blocks. covers_line (line_bbox (pt_lines page_text ! i)) b then {#int i#} else {#})"
proof (cases "best_cover (line_bbox (pt_lines page_text ! i)) blocks")
  case None
  then show ?thesis using best_cover_Some(2)[OF assms None] by (simp add: assign_line_def)
next
  case (Some k)
  have "k < length blocks" "covers_line (line_bbox (pt_lines page_text ! i)) (blocks ! k)"
    using best_cover_Some(1)[OF assms Some] by auto
  then show ?thesis
    using Some sum_list_mset_upd_at[of k blocks lb_text_line_indices "add_line (int i)" "{#int i#}"]
    by (auto simp: assign_line_def line_indices_of_def add_line_def)
qed

lemma assignTextLines_fold:
  assumes "list_all (\<lambda>b. bboxArea (lb_bbox b) < dbl_max) blocks"
  shows "same_boxes (foldl (assign_line page_text) blocks is) blocks \<and>
    line_indices_of (foldl (assign_line page_text) blocks is) = line_indices_of blocks +
      mset (map int (filter (\<lambda>i. \<exists>b\<in>set blocks. covers_line (line_bbox (pt_lines page_text ! i)) b) is))"
proof (induction "is" rule: rev_induct)
  case Nil
  then show ?case by (simp add: same_boxes_def)
next
  case (snoc i "is")
  let ?bs = "foldl (assign_line page_text) blocks is"
  have same: "same_boxes ?bs blocks" using snoc by simp
  have "list_all (\<lambda>b. bboxArea (lb_bbox b) < dbl_max) ?bs" using same_boxes_covers(2)[OF same] assms by simp
  from assign_line_indices[OF this, of page_text i] snoc show ?case
    using same_boxes_trans[OF assign_line_same same] same_boxes_covers(1)[OF same] by simp
qed

section \<open>Properties\<close>

text \<open>
  assignment loses and duplicates nothing. Each text line that some block covers is appended
  to exactly one block, every other line to none; the blocks keep the indices they had and all
  their other fields.
\<close>

lemma assignTextLines_partition:
  assumes "list_all (\<lambda>b. bboxArea (lb_bbox b) < dbl_max) blocks"
  shows "line_indices_of (assignTextLines page_text blocks) = line_indices_of blocks +
      mset (map int (filter (\<lambda>i. list_ex (covers_line (line_bbox (pt_lines page_text ! i))) blocks)
        [0..<length (pt_lines page_text)])) \<and>
    map (\<lambda>b. b\<lparr>lb_text_line_indices := []\<rparr>) (assignTextLines page_text blocks) =
      map (\<lambda>b. b\<lparr>lb_text_line_indices := []\<rparr>) blocks"
  using assignTextLines_fold[OF assms, of page_text "[0..<length (pt_lines page_text)]"]
  by (simp add: assignTextLines_def same_boxes_def list_ex_iff)

definition unit_line :: text_line where
  "unit_line = \<lparr>line_text = ''a'', line_bbox = \<lparr>bx0 = 1, by0 = 1, bx1 = 2, by1 = 2\<rparr>,
     line_source = PdfTextLayer, line_confidence = 1, line_spans = []\<rparr>"

definition wide_block :: layout_block where
  "wide_block = default_layout_block\<lparr>lb_id := ''b1'', lb_bbox := \<lparr>bx0 = 0, by0 = 0, bx1 = 10, by1 = 10\<rparr>\<rparr>"

lemma assignTextLines_partition_witness:
  "line_indices_of (assignTextLines (empty_page_text\<lparr>pt_lines := [unit_line]\<rparr>) [wide_block, wide_block]) = {#0#}"
proof -
  have area: "list_all (\<lambda>b. bboxArea (lb_bbox b) < dbl_max) [wide_block, wide_block]"
    using dbl_max_big by (simp add: wide_block_def bboxArea_def)
  have "covers_line (line_bbox unit_line) wide_block"
    by (simp add: covers_line_def containsCenter_def unit_line_def wide_block_def)
  with assignTextLines_partition[OF area, of "empty_page_text\<lparr>pt_lines := [unit_line]\<rparr>"] show ?thesis
    by (simp add: wide_block_def default_layout_block_def)
qed

end
