(* ===== verification/Layout_Columns.thy ===== *)
theory Layout_Columns
  imports Layout_Assign
begin

text \<open>
  \<open>detectLineColumns\<close> and \<open>refineMultiColumnTextLineOrder\<close> of
  \<open>cpp/layout/layout_postprocessing.cpp\<close>: a text block whose lines stand in two to four
  columns gets its lines column by column. The order of a block's lines changes and nothing
  else does.
\<close>

record line_column =
  lc_bbox :: bbox
  lc_line_indices :: "int list"

definition supportsLineRefinement :: "layout_type \<Rightarrow> bool" where
  "supportsLineRefinement t \<longleftrightarrow> t = LUnknown \<or> t = LText \<or> t = LList"

definition column_lines :: "line_column list \<Rightarrow> int multiset" where
  "column_lines columns = (\<Sum>c\<leftarrow>columns. mset (lc_line_indices c))"

lemma column_lines_simps [simp]:
  "column_lines [] = {#}"
  "column_lines (c # cs) = mset (lc_line_indices c) + column_lines cs"
  "column_lines (cs @ ds) = column_lines cs + column_lines ds"
  by (simp_all add: column_lines_def)

lemma column_lines_mset: "mset cs = mset ds \<Longrightarrow> column_lines cs = column_lines ds"
proof -
  assume "mset cs = mset ds"
  then have "image_mset (\<lambda>c. mset (lc_line_indices c)) (mset cs) = image_mset (\<lambda>c. mset (lc_line_indices c)) (mset ds)"
    by simp
  then have "sum_mset (mset (map (\<lambda>c. mset (lc_line_indices c)) cs)) = sum_mset (mset (map (\<lambda>c. mset (lc_line_indices c)) ds))"
    by (simp only: mset_map)
  then show ?thesis by (simp only: column_lines_def sum_mset_sum_list)
qed

subsection \<open>\<open>detectLineColumns\<close>\<close>

definition columnOrderLess :: "page_text \<Rightarrow> int \<Rightarrow> int \<Rightarrow> bool" where
  "columnOrderLess page_text lhs rhs =
     (let left = line_box page_text lhs; right = line_box page_text rhs;
          left_center = (bx0 left + bx1 left) * 0.5; right_center = (bx0 right + bx1 right) * 0.5 in
      if left_center \<noteq> right_center then left_center < right_center
      else if by0 left \<noteq> by0 right then by0 left < by0 right
      else lhs < rhs)"

interpretation columnOrderLess: keyed_order "columnOrderLess page_text"
  "\<lambda>i. (centerX (line_box page_text i), by0 (line_box page_text i), i)" for page_text
  by unfold_locales (auto simp: columnOrderLess_def Let_def centerX_def)

definition columnLess :: "line_column \<Rightarrow> line_column \<Rightarrow> bool" where
  "columnLess lhs rhs \<longleftrightarrow> bx0 (lc_bbox lhs) < bx0 (lc_bbox rhs)"

interpretation columnLess: keyed_order columnLess "\<lambda>c. bx0 (lc_bbox c)"
  by unfold_locales (simp add: columnLess_def)

definition line_width :: "page_text \<Rightarrow> int \<Rightarrow> double" where
  "line_width page_text i = max 0 (bx1 (line_box page_text i) - bx0 (line_box page_text i))"

text \<open>The state of the inner loop: \<open>best_column\<close> and \<open>best_ratio\<close>.\<close>

definition column_step ::
  "bbox \<Rightarrow> line_column list \<Rightarrow> nat option \<times> double \<Rightarrow> nat \<Rightarrow> nat option \<times> double" where
  "column_step box columns best column_index =
     (let column_box = lc_bbox (columns ! column_index);
          overlap = horizontalOverlap box column_box;
          width = max 0 (bx1 box - bx0 box);
          column_width = bx1 column_box - bx0 column_box;
          ratio = overlap / max (1 / 1000) (min width column_width)
      in if ratio \<ge> 0.50 \<and> ratio > snd best then (Some column_index, ratio) else best)"

definition best_column :: "bbox \<Rightarrow> line_column list \<Rightarrow> nat option" where
  "best_column box columns = fst (foldl (column_step box columns) (None, 0) [0..<length columns])"

definition extend_column :: "bbox \<Rightarrow> int \<Rightarrow> line_column \<Rightarrow> line_column" where
  "extend_column box line_index column =
     column\<lparr>lc_bbox := expandBBox (lc_bbox column) box,
            lc_line_indices := lc_line_indices column @ [line_index]\<rparr>"

definition place_in_column :: "page_text \<Rightarrow> line_column list \<Rightarrow> int \<Rightarrow> line_column list" where
  "place_in_column page_text columns line_index =
     (let box = line_box page_text line_index in
      case best_column box columns of
        None \<Rightarrow> columns @ [\<lparr>lc_bbox = box, lc_line_indices = [line_index]\<rparr>]
      | Some c \<Rightarrow> upd_at columns c (extend_column box line_index))"

text \<open>\<open>None\<close> is the loop's \<open>return {}\<close> at a line too wide for a column.\<close>

definition column_line ::
  "page_text \<Rightarrow> double \<Rightarrow> line_column list option \<Rightarrow> int \<Rightarrow> line_column list option" where
  "column_line page_text median_width acc line_index =
     (case acc of
        None \<Rightarrow> None
      | Some columns \<Rightarrow>
          if line_width page_text line_index > median_width * 1.35 + 1 / 1000 then None
          else Some (place_in_column page_text columns line_index))"

definition column_ok :: "double \<Rightarrow> line_column list \<Rightarrow> nat \<Rightarrow> bool" where
  "column_ok median_height columns index \<longleftrightarrow>
     (if length (lc_line_indices (columns ! index)) < 2 then False
      else if index + 1 \<ge> length columns then True
      else
        let left = lc_bbox (columns ! index); right = lc_bbox (columns ! (index + 1));
            gutter = bx0 right - bx1 left;
            vertical_overlap = max 0 (min (by1 left) (by1 right) - max (by0 left) (by0 right));
            shorter_span = max (1 / 1000) (min (by1 left - by0 left) (by1 right - by0 right))
        in \<not> gutter \<le> median_height * 0.75 \<and> \<not> vertical_overlap / shorter_span < 0.25)"

definition detectLineColumns :: "page_text \<Rightarrow> layout_block \<Rightarrow> double \<Rightarrow> line_column list" where
  "detectLineColumns page_text block median_height =
     (let indices = lb_text_line_indices block in
      if \<not> list_all (\<lambda>i. in_range i (pt_lines page_text)) indices then []
      else
        let median_width = median (map (line_width page_text) indices) in
        if median_width \<le> 0 then []
        else
          case foldl (column_line page_text median_width) (Some []) (sort_by (columnOrderLess page_text) indices) of
            None \<Rightarrow> []
          | Some found \<Rightarrow>
              let columns = sort_by columnLess found in
              if length columns < 2 \<or> length columns > 4 then []
              else if list_all (column_ok median_height columns) [0..<length columns] then columns
              else [])"

subsection \<open>\<open>refineMultiColumnTextLineOrder\<close>\<close>

record refinement_stats =
  rs_reordered_blocks :: int
  rs_maximum_columns :: int

text \<open>The loop over the heights clears them at the first index or box that is not usable.\<close>

definition block_line_heights :: "page_text \<Rightarrow> layout_block \<Rightarrow> double list" where
  "block_line_heights page_text block =
     (let indices = lb_text_line_indices block in
      if list_all (\<lambda>i. in_range i (pt_lines page_text) \<and> validBBox (line_box page_text i)) indices
      then map (\<lambda>i. max 0 (by1 (line_box page_text i) - by0 (line_box page_text i))) indices
      else [])"

definition column_major :: "page_text \<Rightarrow> line_column list \<Rightarrow> int list" where
  "column_major page_text columns =
     concat (map (\<lambda>c. sort_by (linePositionLess page_text) (lc_line_indices c)) columns)"

text \<open>What the loop body makes of a block: the new line order and the number of columns, or nothing.\<close>

definition refined_lines :: "page_text \<Rightarrow> layout_block \<Rightarrow> (int list \<times> nat) option" where
  "refined_lines page_text block =
     (if \<not> supportsLineRefinement (lb_type block) \<or> lb_source_label block = ''text_grid_fallback'' \<or>
         length (lb_text_line_indices block) < 4 then None
      else
        let median_height = median (block_line_heights page_text block) in
        if median_height \<le> 0 then None
        else
          let columns = detectLineColumns page_text block median_height;
              refined = column_major page_text columns
          in if columns = [] then None
             else if refined \<noteq> lb_text_line_indices block then Some (refined, length columns)
             else None)"

definition refine_block ::
  "page_text \<Rightarrow> layout_block list \<times> refinement_stats \<Rightarrow> layout_block \<Rightarrow> layout_block list \<times> refinement_stats" where
  "refine_block page_text acc block =
     (case acc of (blocks, stats) \<Rightarrow>
        case refined_lines page_text block of
          None \<Rightarrow> (blocks @ [block], stats)
        | Some (refined, columns) \<Rightarrow>
            (blocks @ [block\<lparr>lb_text_line_indices := refined\<rparr>],
             stats\<lparr>rs_reordered_blocks := rs_reordered_blocks stats + 1,
                   rs_maximum_columns := max (rs_maximum_columns stats) (int columns)\<rparr>))"

definition refineMultiColumnTextLineOrder ::
  "page_text \<Rightarrow> layout_block list \<Rightarrow> layout_block list \<times> refinement_stats" where
  "refineMultiColumnTextLineOrder page_text blocks =
     foldl (refine_block page_text) ([], \<lparr>rs_reordered_blocks = 0, rs_maximum_columns = 1\<rparr>) blocks"

subsection \<open>The columns hold the block's lines\<close>

lemma column_step_range:
  "fst best = None \<or> (\<exists>k<n. fst best = Some k) \<Longrightarrow>
   fst (column_step box columns best n) = None \<or> (\<exists>k<Suc n. fst (column_step box columns best n) = Some k)"
  by (auto simp: column_step_def Let_def less_Suc_eq)

lemma best_column_less: "best_column box columns = Some c \<Longrightarrow> c < length columns"
proof -
  have "fst (foldl (column_step box columns) (None, 0) [0..<n]) = None \<or>
      (\<exists>k<n. fst (foldl (column_step box columns) (None, 0) [0..<n]) = Some k)" for n
  proof (induction n)
    case (Suc n)
    then show ?case using column_step_range[of _ n box columns] by simp
  qed simp
  from this[of "length columns"] show "best_column box columns = Some c \<Longrightarrow> c < length columns"
    by (auto simp: best_column_def)
qed

text \<open>Every line of a column lies inside its box, and a column is never empty.\<close>

definition columns_wf :: "page_text \<Rightarrow> line_column list \<Rightarrow> bool" where
  "columns_wf page_text columns \<longleftrightarrow>
     list_all (\<lambda>c. lc_line_indices c \<noteq> [] \<and>
       list_all (\<lambda>i. bbox_le (line_box page_text i) (lc_bbox c)) (lc_line_indices c)) columns"

lemma extend_column_wf:
  assumes "columns_wf page_text columns"
  shows "columns_wf page_text (upd_at columns c (extend_column (line_box page_text i) i))"
  unfolding columns_wf_def list_all_iff
proof
  fix d assume "d \<in> set (upd_at columns c (extend_column (line_box page_text i) i))"
  then consider "d \<in> set columns" | "c < length columns" "d = extend_column (line_box page_text i) i (columns ! c)"
    by (auto dest: in_set_upd_at)
  then show "lc_line_indices d \<noteq> [] \<and> (\<forall>k\<in>set (lc_line_indices d). bbox_le (line_box page_text k) (lc_bbox d))"
  proof cases
    case 1
    then show ?thesis using assms by (simp add: columns_wf_def list_all_iff)
  next
    case 2
    have "\<forall>k\<in>set (lc_line_indices (columns ! c)). bbox_le (line_box page_text k) (lc_bbox (columns ! c))"
      using assms 2(1) by (simp add: columns_wf_def list_all_iff)
    then show ?thesis using 2(2) by (auto simp: extend_column_def intro: bbox_le_trans)
  qed
qed

lemma place_in_column_inv:
  assumes "columns_wf page_text columns"
  shows "columns_wf page_text (place_in_column page_text columns i) \<and>
    column_lines (place_in_column page_text columns i) = add_mset i (column_lines columns)"
proof (cases "best_column (line_box page_text i) columns")
  case None
  then show ?thesis using assms by (simp add: place_in_column_def columns_wf_def)
next
  case (Some c)
  have "column_lines (upd_at columns c (extend_column (line_box page_text i) i)) = column_lines columns + {#i#}"
    unfolding column_lines_def
    by (rule sum_list_mset_upd_at) (use best_column_less[OF Some] in \<open>simp_all add: extend_column_def\<close>)
  then show ?thesis using Some extend_column_wf[OF assms] by (simp add: place_in_column_def)
qed

lemma column_line_None: "foldl (column_line page_text w) None xs = None"
  by (induction xs) (simp_all add: column_line_def)

lemma column_line_fold:
  assumes "foldl (column_line page_text w) (Some start) xs = Some columns" "columns_wf page_text start"
  shows "columns_wf page_text columns \<and> column_lines columns = column_lines start + mset xs"
  using assms
proof (induction xs arbitrary: start)
  case (Cons x xs)
  show ?case
  proof (cases "line_width page_text x > w * 1.35 + 1 / 1000")
    case True
    then have "column_line page_text w (Some start) x = None" by (simp add: column_line_def)
    with Cons.prems column_line_None show ?thesis by simp
  next
    case False
    then have "column_line page_text w (Some start) x = Some (place_in_column page_text start x)"
      by (simp add: column_line_def)
    with Cons.prems Cons.IH[of "place_in_column page_text start x"] place_in_column_inv[of page_text start x]
    show ?thesis by simp
  qed
qed simp

lemma detectLineColumns_spec:
  assumes "detectLineColumns page_text block h = columns" "columns \<noteq> []"
  shows "column_lines columns = mset (lb_text_line_indices block)" "columns_wf page_text columns"
    "2 \<le> length columns" "length columns \<le> 4"
    "sorted (map (\<lambda>c. bx0 (lc_bbox c)) columns)"
    "list_all (column_ok h columns) [0..<length columns]"
proof -
  obtain w found where fold: "foldl (column_line page_text w) (Some [])
        (sort_by (columnOrderLess page_text) (lb_text_line_indices block)) = Some found"
    and columns: "columns = sort_by columnLess found"
    and len: "2 \<le> length columns" "length columns \<le> 4"
    and ok: "list_all (column_ok h columns) [0..<length columns]"
    using assms by (auto simp: detectLineColumns_def Let_def not_less split: if_splits option.splits)
  from column_line_fold[OF fold] have "columns_wf page_text found"
    and lines: "column_lines found = mset (lb_text_line_indices block)"
    by (simp_all add: columns_wf_def)
  then show "columns_wf page_text columns" by (simp add: columns columns_wf_def list_all_iff)
  show "column_lines columns = mset (lb_text_line_indices block)"
    using lines column_lines_mset[of columns found] by (simp add: columns)
  show "sorted (map (\<lambda>c. bx0 (lc_bbox c)) columns)"
    unfolding columns by (rule columnLess.sort_by_key_sorted)
qed (use assms in \<open>auto simp: detectLineColumns_def Let_def not_less split: if_splits option.splits\<close>)

lemma column_major_mset: "mset (column_major page_text columns) = column_lines columns"
  by (induction columns) (simp_all add: column_major_def)

lemma refined_linesD:
  assumes "refined_lines page_text block = Some (refined, n)"
  obtains columns where
    "detectLineColumns page_text block (median (block_line_heights page_text block)) = columns"
    "columns \<noteq> []" "refined = column_major page_text columns" "n = length columns"
    "supportsLineRefinement (lb_type block)" "0 < median (block_line_heights page_text block)"
  using assms by (auto simp: refined_lines_def Let_def not_le split: if_splits)

definition refine_one :: "page_text \<Rightarrow> layout_block \<Rightarrow> layout_block" where
  "refine_one page_text block =
     (case refined_lines page_text block of
        None \<Rightarrow> block | Some (refined, n) \<Rightarrow> block\<lparr>lb_text_line_indices := refined\<rparr>)"

lemma refineMultiColumn_map:
  "fst (foldl (refine_block page_text) (done_blocks, stats) blocks) =
   done_blocks @ map (refine_one page_text) blocks"
  by (induction blocks arbitrary: done_blocks stats)
     (auto simp: refine_block_def refine_one_def split: option.split)

lemma fst_refineMultiColumn:
  "fst (refineMultiColumnTextLineOrder page_text blocks) = map (refine_one page_text) blocks"
  by (simp add: refineMultiColumnTextLineOrder_def refineMultiColumn_map)

lemma refine_one_mset: "mset (lb_text_line_indices (refine_one page_text b)) = mset (lb_text_line_indices b)"
proof (cases "refined_lines page_text b")
  case (Some r)
  obtain refined n where r: "r = (refined, n)" by (cases r)
  with Some refined_linesD[of page_text b refined n] have "mset refined = mset (lb_text_line_indices b)"
    by (metis column_major_mset detectLineColumns_spec(1))
  with Some r show ?thesis by (simp add: refine_one_def)
qed (simp add: refine_one_def)

lemma refine_one_other: "(refine_one page_text b)\<lparr>lb_text_line_indices := x\<rparr> = b\<lparr>lb_text_line_indices := x\<rparr>"
  by (auto simp: refine_one_def split: option.split)

lemma line_indices_refine_one: "line_indices_of (map (refine_one page_text) blocks) = line_indices_of blocks"
  by (induction blocks) (simp_all add: refine_one_mset)

section \<open>Properties\<close>

text \<open>
  the refinement permutes the lines inside each block and touches nothing else. Blocks keep
  their number, order and every other field, and each block's line indices afterwards are a
  rearrangement of those before.
\<close>

lemma refineMultiColumn_permutes:
  "list_all2 (\<lambda>b c. mset (lb_text_line_indices c) = mset (lb_text_line_indices b) \<and>
      c\<lparr>lb_text_line_indices := []\<rparr> = b\<lparr>lb_text_line_indices := []\<rparr>)
    blocks (fst (refineMultiColumnTextLineOrder page_text blocks))"
  by (simp add: fst_refineMultiColumn list_all2_map2 list_all2_refl refine_one_mset refine_one_other
      list.rel_refl)

text \<open>
  detected columns are columns. When \<open>detectLineColumns\<close> finds any, there are two to
  four, from left to right, each with at least two lines that all lie inside the column's box;
  every column starts beyond the end of the one before it by more than three quarters of a line
  height, and together the columns hold exactly the block's lines.
\<close>

lemma detectLineColumns_sound:
  assumes "detectLineColumns page_text block h = columns" "columns \<noteq> []"
  shows "length columns \<in> {2, 3, 4} \<and>
    (\<Sum>c\<leftarrow>columns. mset (lc_line_indices c)) = mset (lb_text_line_indices block) \<and>
    (\<forall>c\<in>set columns. 2 \<le> length (lc_line_indices c) \<and>
       (\<forall>i\<in>set (lc_line_indices c). bbox_le (line_bbox (pt_lines page_text ! nat i)) (lc_bbox c))) \<and>
    (\<forall>k. Suc k < length columns \<longrightarrow> bx0 (lc_bbox (columns ! Suc k)) - bx1 (lc_bbox (columns ! k)) > h * 0.75)"
proof (intro conjI ballI allI impI)
  note spec = detectLineColumns_spec[OF assms]
  show "length columns \<in> {2, 3, 4}" using spec(3,4) by auto
  show "(\<Sum>c\<leftarrow>columns. mset (lc_line_indices c)) = mset (lb_text_line_indices block)"
    using spec(1) by (simp add: column_lines_def)
  have ok: "column_ok h columns k" if "k < length columns" for k
    using spec(6) that by (simp add: list_all_iff)
  show "2 \<le> length (lc_line_indices c)" if c: "c \<in> set columns" for c
  proof -
    obtain k where "k < length columns" "c = columns ! k" using c by (auto simp: in_set_conv_nth)
    with ok[of k] show ?thesis by (auto simp: column_ok_def split: if_splits)
  qed
  show "bbox_le (line_bbox (pt_lines page_text ! nat i)) (lc_bbox c)"
    if "c \<in> set columns" "i \<in> set (lc_line_indices c)" for c i
    using spec(2) that by (simp add: columns_wf_def list_all_iff line_box_def line_at_def)
  show "bx0 (lc_bbox (columns ! Suc k)) - bx1 (lc_bbox (columns ! k)) > h * 0.75" if "Suc k < length columns" for k
    using ok[of k] that by (auto simp: column_ok_def Let_def split: if_splits)
qed

definition column_text :: "double \<Rightarrow> double \<Rightarrow> text_line" where
  "column_text x y = \<lparr>line_text = ''a'', line_bbox = \<lparr>bx0 = x, by0 = y, bx1 = x + 10, by1 = y + 2\<rparr>,
     line_source = PdfTextLayer, line_confidence = 1, line_spans = []\<rparr>"

definition two_columns :: page_text where
  "two_columns = empty_page_text\<lparr>pt_lines := [column_text 0 0, column_text 20 0, column_text 0 3, column_text 20 3]\<rparr>"

definition two_column_block :: layout_block where
  "two_column_block = default_layout_block\<lparr>lb_text_line_indices := [0, 1, 2, 3]\<rparr>"

lemma two_columns_boxes:
  "line_box two_columns 0 = \<lparr>bx0 = 0, by0 = 0, bx1 = 10, by1 = 2\<rparr>"
  "line_box two_columns 1 = \<lparr>bx0 = 20, by0 = 0, bx1 = 30, by1 = 2\<rparr>"
  "line_box two_columns 2 = \<lparr>bx0 = 0, by0 = 3, bx1 = 10, by1 = 5\<rparr>"
  "line_box two_columns 3 = \<lparr>bx0 = 20, by0 = 3, bx1 = 30, by1 = 5\<rparr>"
  by (simp_all add: line_box_def line_at_def two_columns_def column_text_def empty_page_text_def)

lemma two_columns_detected:
  "detectLineColumns two_columns two_column_block 2 =
    [\<lparr>lc_bbox = \<lparr>bx0 = 0, by0 = 0, bx1 = 10, by1 = 5\<rparr>, lc_line_indices = [0, 2]\<rparr>,
     \<lparr>lc_bbox = \<lparr>bx0 = 20, by0 = 0, bx1 = 30, by1 = 5\<rparr>, lc_line_indices = [1, 3]\<rparr>]"
proof -
  have len: "length (pt_lines two_columns) = 4" by (simp add: two_columns_def)
  have order: "sort_by (columnOrderLess two_columns) [0, 1, 2, 3] = [0, 2, 1, 3]"
    by (simp add: columnOrderLess_def two_columns_boxes)
  have median: "median (map (line_width two_columns) [0, 1, 2, 3]) = 10"
    by (simp add: line_width_def two_columns_boxes median_def)
  have indices: "lb_text_line_indices two_column_block = [0, 1, 2, 3]" by (simp add: two_column_block_def)
  show ?thesis
    unfolding detectLineColumns_def indices order median Let_def
    by (simp add: in_range_def len
        column_line_def line_width_def two_columns_boxes place_in_column_def best_column_def column_step_def
        horizontalOverlap_def upd_at_def extend_column_def expandBBox_def columnLess_def column_ok_def upt_rec)
qed

lemma detectLineColumns_sound_witness:
  "length (detectLineColumns two_columns two_column_block 2) \<in> {2, 3, 4}"
  using detectLineColumns_sound[of two_columns two_column_block 2, OF refl] by (simp add: two_columns_detected)

end
