(* ===== verification/Layout_Groups.thy ===== *)
theory Layout_Groups
  imports Layout_Columns
begin

text \<open>
  The grouping of text lines that no layout block claimed, from
  \<open>cpp/layout/layout_postprocessing.cpp\<close>: sorting line indices row by row, joining lines to
  groups, recognising running line numbers in the margin, and merging the small groups of a
  dense grid. Each step rearranges the lines it is given; none loses or repeats a line, and every
  group keeps a box around its lines.
\<close>

record line_group =
  lg_bbox :: bbox
  lg_last_line_bbox :: bbox
  lg_line_indices :: "int list"
  lg_source_label :: string

definition group_lines :: "line_group list \<Rightarrow> int multiset" where
  "group_lines groups = (\<Sum>g\<leftarrow>groups. mset (lg_line_indices g))"

lemma group_lines_simps [simp]:
  "group_lines [] = {#}"
  "group_lines (g # gs) = mset (lg_line_indices g) + group_lines gs"
  "group_lines (gs @ hs) = group_lines gs + group_lines hs"
  by (simp_all add: group_lines_def)

definition group_wf :: "page_text \<Rightarrow> line_group \<Rightarrow> bool" where
  "group_wf page_text g \<longleftrightarrow> lg_line_indices g \<noteq> [] \<and>
     list_all (\<lambda>i. bbox_le (line_box page_text i) (lg_bbox g)) (lg_line_indices g)"

definition canJoinFallbackGroup :: "bbox \<Rightarrow> bbox \<Rightarrow> bool" where
  "canJoinFallbackGroup previous current =
     (let previous_height = max 0 (by1 previous - by0 previous);
          current_height = max 0 (by1 current - by0 current);
          reference_height = max previous_height current_height;
          shorter_height = min previous_height current_height
      in if reference_height \<le> 0 \<or> shorter_height \<le> 0 then False
         else
           let overlap_y = max 0 (min (by1 previous) (by1 current) - max (by0 previous) (by0 current)) in
           if overlap_y / shorter_height \<ge> 0.50
           then intervalGap (bx0 previous) (bx1 previous) (bx0 current) (bx1 current) \<le> reference_height * 0.75
           else
             let vertical_gap = by0 current - by1 previous in
             if vertical_gap < - reference_height * 0.25 \<or> vertical_gap > reference_height * 1.60 then False
             else
               let previous_width = max 0 (bx1 previous - bx0 previous);
                   current_width = max 0 (bx1 current - bx0 current);
                   overlap_x = horizontalOverlap previous current;
                   overlap_ratio = overlap_x / max (1 / 1000) (min previous_width current_width);
                   left_edge_delta = \<bar>bx0 previous - bx0 current\<bar>
               in overlap_ratio \<ge> 0.25 \<or> left_edge_delta \<le> reference_height * 2.5)"

subsection \<open>\<open>sortLineIndicesRowWise\<close>\<close>

definition leftmostLess :: "page_text \<Rightarrow> int \<Rightarrow> int \<Rightarrow> bool" where
  "leftmostLess page_text lhs rhs \<longleftrightarrow> bx0 (line_box page_text lhs) < bx0 (line_box page_text rhs)"

interpretation leftmostLess: keyed_order "leftmostLess page_text" "\<lambda>i. bx0 (line_box page_text i)" for page_text
  by unfold_locales (simp add: leftmostLess_def)

text \<open>\<open>same_row tolerance first\<close>: the condition of the loop that looks for the row's end.\<close>

definition same_row :: "page_text \<Rightarrow> double \<Rightarrow> int \<Rightarrow> int \<Rightarrow> bool" where
  "same_row page_text row_tolerance row_begin candidate \<longleftrightarrow>
     \<not> by0 (line_box page_text candidate) - by0 (line_box page_text row_begin) > row_tolerance"

definition sort_rows :: "page_text \<Rightarrow> double \<Rightarrow> int list \<Rightarrow> int list" where
  "sort_rows page_text tolerance is = sort_runs (same_row page_text tolerance) (leftmostLess page_text) is"

definition sortLineIndicesRowWise :: "page_text \<Rightarrow> int list \<Rightarrow> double \<Rightarrow> int list" where
  "sortLineIndicesRowWise page_text line_indices median_line_height =
     sort_rows page_text (max 1 (median_line_height * 0.50)) (sort_by (linePositionLess page_text) line_indices)"

lemma mset_sortLineIndicesRowWise [simp, perm_facts]:
  "mset (sortLineIndicesRowWise page_text is h) = mset is"
  by (simp add: sortLineIndicesRowWise_def sort_rows_def)

lemma set_sortLineIndicesRowWise [simp]: "set (sortLineIndicesRowWise page_text is h) = set is"
  by (metis mset_sortLineIndicesRowWise set_mset_mset)

lemma sortLineIndicesRowWise_Nil [simp]: "sortLineIndicesRowWise page_text is h = [] \<longleftrightarrow> is = []"
  by (metis mset_sortLineIndicesRowWise mset_zero_iff)

subsection \<open>\<open>groupFallbackLines\<close>\<close>

definition group_distance :: "bbox \<Rightarrow> line_group \<Rightarrow> double option" where
  "group_distance box g =
     (if canJoinFallbackGroup (lg_last_line_bbox g) box
      then Some (max 0 (by0 box - by1 (lg_last_line_bbox g)) + \<bar>bx0 box - bx0 (lg_last_line_bbox g)\<bar> * 0.10)
      else None)"

definition join_group :: "bbox \<Rightarrow> int \<Rightarrow> line_group \<Rightarrow> line_group" where
  "join_group box line_index g =
     g\<lparr>lg_bbox := expandBBox (lg_bbox g) box, lg_last_line_bbox := box,
       lg_line_indices := lg_line_indices g @ [line_index]\<rparr>"

definition group_line :: "page_text \<Rightarrow> line_group list \<Rightarrow> int \<Rightarrow> line_group list" where
  "group_line page_text groups line_index =
     (let box = line_box page_text line_index in
      case best_of (\<lambda>k. group_distance box (groups ! k)) [0..<length groups] of
        None \<Rightarrow> groups @ [\<lparr>lg_bbox = box, lg_last_line_bbox = box, lg_line_indices = [line_index],
                  lg_source_label = []\<rparr>]
      | Some k \<Rightarrow> upd_at groups k (join_group box line_index))"

definition groupFallbackLines :: "page_text \<Rightarrow> int list \<Rightarrow> double \<Rightarrow> line_group list" where
  "groupFallbackLines page_text line_indices median_line_height =
     map (\<lambda>g. g\<lparr>lg_line_indices := sortLineIndicesRowWise page_text (lg_line_indices g) median_line_height\<rparr>)
       (foldl (group_line page_text) [] (sort_by (linePositionLess page_text) line_indices))"

lemma group_line_inv:
  assumes "list_all (group_wf page_text) groups"
  shows "list_all (group_wf page_text) (group_line page_text groups i) \<and>
    group_lines (group_line page_text groups i) = add_mset i (group_lines groups)"
proof (cases "best_of (\<lambda>k. group_distance (line_box page_text i) (groups ! k)) [0..<length groups]")
  case None
  then show ?thesis using assms by (simp add: group_line_def group_wf_def Let_def)
next
  case (Some k)
  then have k: "k < length groups" by (auto dest: best_of_mem)
  have "group_wf page_text (groups ! k)" using assms k by (simp add: list_all_iff)
  then have "group_wf page_text (join_group (line_box page_text i) i (groups ! k))"
    by (auto simp: group_wf_def join_group_def list_all_iff intro: bbox_le_trans)
  then have wf: "list_all (group_wf page_text) (upd_at groups k (join_group (line_box page_text i) i))"
    using assms by (auto simp: list_all_iff dest!: in_set_upd_at)
  have "group_lines (upd_at groups k (join_group (line_box page_text i) i)) = group_lines groups + {#i#}"
    unfolding group_lines_def by (rule sum_list_mset_upd_at) (simp_all add: k join_group_def)
  with wf Some show ?thesis by (simp add: group_line_def Let_def)
qed

lemma group_line_fold:
  "list_all (group_wf page_text) groups \<Longrightarrow>
   list_all (group_wf page_text) (foldl (group_line page_text) groups is) \<and>
   group_lines (foldl (group_line page_text) groups is) = group_lines groups + mset is"
proof (induction "is" arbitrary: groups)
  case (Cons i "is")
  then show ?case using group_line_inv[of page_text groups i] by simp
qed simp

lemma group_wf_resort:
  "group_wf page_text (g\<lparr>lg_line_indices := sortLineIndicesRowWise page_text (lg_line_indices g) h\<rparr>) =
   group_wf page_text g"
  by (simp add: group_wf_def list_all_iff)

lemma groupFallbackLines_spec:
  "list_all (group_wf page_text) (groupFallbackLines page_text is h)"
  "group_lines (groupFallbackLines page_text is h) = mset is"
proof -
  let ?gs = "foldl (group_line page_text) [] (sort_by (linePositionLess page_text) is)"
  have *: "list_all (group_wf page_text) ?gs" "group_lines ?gs = mset is"
    using group_line_fold[of page_text "[]" "sort_by (linePositionLess page_text) is"] by simp_all
  show "list_all (group_wf page_text) (groupFallbackLines page_text is h)"
    using *(1) by (simp add: groupFallbackLines_def list_all_iff group_wf_resort)
  show "group_lines (groupFallbackLines page_text is h) = mset is"
    using *(2) by (simp add: groupFallbackLines_def group_lines_def comp_def)
qed

lemma groupFallbackLines_labels: "list_all (\<lambda>g. lg_source_label g = []) (groupFallbackLines page_text is h)"
proof -
  have "list_all (\<lambda>g. lg_source_label g = []) (foldl (group_line page_text) [] js)" for js
  proof (induction js rule: rev_induct)
    case (snoc j js)
    then show ?case
      by (auto simp: group_line_def Let_def list_all_iff join_group_def dest!: in_set_upd_at split: option.split
          dest: best_of_mem)
  qed simp
  then show ?thesis by (simp add: groupFallbackLines_def list_all_iff)
qed

end
