(* ===== verification/Layout_Grid.thy ===== *)
theory Layout_Grid
  imports Layout_Groups
begin

text \<open>
  Running numbers in the margin (\<open>detectRepeatedMarginalia\<close>) and the merging of the small
  groups of a dense grid (\<open>coalesceDenseGridGroups\<close>) of
  \<open>cpp/layout/layout_postprocessing.cpp\<close>. The merging loop has no bound in the code: it ends
  because every round that does not stop replaces at least six groups by one.
\<close>

subsection \<open>\<open>parseDecimalMarker\<close>\<close>

definition trim_blanks :: "string \<Rightarrow> string" where
  "trim_blanks s = rev (skip_chars marker_blanks (rev (skip_chars marker_blanks s)))"

definition decimal_value :: "string \<Rightarrow> int" where
  "decimal_value ds = foldl (\<lambda>v c. 10 * v + (of_char c - 48)) 0 ds"

definition parseDecimalMarker :: "string \<Rightarrow> int option" where
  "parseDecimalMarker str =
     (let marker = trim_blanks str in
      if marker = [] then None
      else if length marker > 4 \<or> \<not> list_all isdigit marker then None
      else Some (decimal_value marker))"

subsection \<open>\<open>detectRepeatedMarginalia\<close>\<close>

record decimal_marker =
  dm_line_index :: int
  dm_value :: int
  dm_center_x :: double
  dm_center_y :: double

definition marker_of :: "page_text \<Rightarrow> page_artifact \<Rightarrow> double \<Rightarrow> int \<Rightarrow> decimal_marker option" where
  "marker_of page_text page median_line_height line_index =
     (let line = line_at page_text line_index; box = line_bbox line; width = bx1 box - bx0 box;
          maximum_width = max (real_of_int (max 1 (pa_width page)) * 0.05) (median_line_height * 5)
      in case parseDecimalMarker (line_text line) of
           None \<Rightarrow> None
         | Some v \<Rightarrow>
             if width > maximum_width then None
             else Some \<lparr>dm_line_index = line_index, dm_value = v,
               dm_center_x = (bx0 box + bx1 box) * 0.5, dm_center_y = (by0 box + by1 box) * 0.5\<rparr>)"

definition markerXLess :: "decimal_marker \<Rightarrow> decimal_marker \<Rightarrow> bool" where
  "markerXLess lhs rhs \<longleftrightarrow> dm_center_x lhs < dm_center_x rhs"

definition markerYLess :: "decimal_marker \<Rightarrow> decimal_marker \<Rightarrow> bool" where
  "markerYLess lhs rhs \<longleftrightarrow> dm_center_y lhs < dm_center_y rhs"

interpretation markerXLess: keyed_order markerXLess dm_center_x
  by unfold_locales (simp add: markerXLess_def)

interpretation markerYLess: keyed_order markerYLess dm_center_y
  by unfold_locales (simp add: markerYLess_def)

definition cluster_distance :: "double \<Rightarrow> decimal_marker \<Rightarrow> decimal_marker list \<Rightarrow> double option" where
  "cluster_distance x_tolerance marker cluster =
     (let mean_x = (\<Sum>m\<leftarrow>cluster. dm_center_x m) / real (length cluster);
          distance = \<bar>dm_center_x marker - mean_x\<bar>
      in if distance \<le> x_tolerance then Some distance else None)"

definition cluster_marker ::
  "double \<Rightarrow> decimal_marker list list \<Rightarrow> decimal_marker \<Rightarrow> decimal_marker list list" where
  "cluster_marker x_tolerance clusters marker =
     (case best_of (\<lambda>k. cluster_distance x_tolerance marker (clusters ! k)) [0..<length clusters] of
        None \<Rightarrow> clusters @ [[marker]]
      | Some k \<Rightarrow> upd_at clusters k (\<lambda>cluster. cluster @ [marker]))"

definition value_steps :: "decimal_marker list \<Rightarrow> int list" where
  "value_steps cluster = map (\<lambda>(a, b). dm_value b - dm_value a) (zip cluster (tl cluster))"

text \<open>The tests a cluster has to pass, in the order of the \<open>continue\<close>s.\<close>

definition is_marginal_cluster :: "page_artifact \<Rightarrow> double \<Rightarrow> decimal_marker list \<Rightarrow> bool" where
  "is_marginal_cluster page median_line_height unsorted =
     (if length unsorted < 4 then False
      else
        let cluster = sort_by markerYLess unsorted;
            required_span = max (real_of_int (max 1 (pa_height page)) * 0.25) (median_line_height * 12)
        in if dm_center_y (last cluster) - dm_center_y (hd cluster) < required_span then False
           else
             let steps = value_steps cluster;
                 positive_steps = length (filter (\<lambda>d. d > 0) steps);
                 negative_steps = length (filter (\<lambda>d. d < 0) steps);
                 direction = (if positive_steps \<ge> negative_steps then 1 else - 1);
                 directional_steps = map real_of_int (filter (\<lambda>d. d > 0) (map (\<lambda>d. d * direction) steps));
                 transition_count = length cluster - 1;
                 required_monotonic = \<lceil>real transition_count * 0.80\<rceil>
             in if int (length directional_steps) < required_monotonic then False
                else
                  let typical_step = median directional_steps;
                      consistent_steps = length (filter (\<lambda>step. step \<ge> typical_step * 0.45 \<and>
                        step \<le> typical_step * 2.25) directional_steps);
                      required_consistent = \<lceil>real transition_count * 0.75\<rceil>
                  in \<not> (typical_step \<le> 0 \<or> int consistent_steps < required_consistent))"

definition marker_clusters :: "page_artifact \<Rightarrow> double \<Rightarrow> decimal_marker list \<Rightarrow> decimal_marker list list" where
  "marker_clusters page median_line_height markers =
     (let x_tolerance = max (max 4 (median_line_height * 1.25)) (real_of_int (max 1 (pa_width page)) * 0.008)
      in foldl (cluster_marker x_tolerance) [] (sort_by markerXLess markers))"

definition detectRepeatedMarginalia :: "page_text \<Rightarrow> page_artifact \<Rightarrow> int list \<Rightarrow> double \<Rightarrow> int set" where
  "detectRepeatedMarginalia page_text page line_indices median_line_height =
     (let markers = List.map_filter (marker_of page_text page median_line_height) line_indices;
          clusters = marker_clusters page median_line_height markers
      in set (map dm_line_index (concat (filter (is_marginal_cluster page median_line_height) clusters))))"

lemma marker_of_line: "marker_of page_text page h i = Some m \<Longrightarrow>
   dm_line_index m = i \<and> parseDecimalMarker (line_text (line_at page_text i)) = Some (dm_value m)"
  by (auto simp: marker_of_def Let_def split: option.splits if_splits)

lemma cluster_marker_mset: "mset (concat (cluster_marker t cs m)) = add_mset m (mset (concat cs))"
proof (cases "best_of (\<lambda>k. cluster_distance t m (cs ! k)) [0..<length cs]")
  case None
  then show ?thesis by (simp add: cluster_marker_def)
next
  case (Some k)
  then have "k < length cs" by (auto dest: best_of_mem)
  then have "(\<Sum>c\<leftarrow>upd_at cs k (\<lambda>c. c @ [m]). mset c) = (\<Sum>c\<leftarrow>cs. mset c) + {#m#}"
    by (intro sum_list_mset_upd_at[where g = "\<lambda>c. c"]) simp_all
  then show ?thesis using Some
    by (simp add: cluster_marker_def mset_concat_map[where f = "\<lambda>c. c", simplified])
qed

lemma marker_clusters_mset: "mset (concat (foldl (cluster_marker t) cs ms)) = mset (concat cs) + mset ms"
proof (induction ms arbitrary: cs)
  case (Cons m ms)
  then show ?case using cluster_marker_mset[of t cs m] by simp
qed simp

lemma marker_clusters_set: "set (concat (marker_clusters page h ms)) = set ms"
  using arg_cong[OF marker_clusters_mset[of _ "[]" "sort_by markerXLess ms"], of set_mset]
  by (simp add: marker_clusters_def Let_def)

text \<open>Only the given lines, and only those that read as a number, can be marginalia.\<close>

lemma detectRepeatedMarginalia_subset:
  "i \<in> detectRepeatedMarginalia page_text page is h \<Longrightarrow>
   i \<in> set is \<and> parseDecimalMarker (line_text (line_at page_text i)) \<noteq> None"
proof -
  assume "i \<in> detectRepeatedMarginalia page_text page is h"
  then obtain m where m: "dm_line_index m = i"
    "m \<in> set (concat (marker_clusters page h (List.map_filter (marker_of page_text page h) is)))"
    by (auto simp: detectRepeatedMarginalia_def Let_def)
  then have "m \<in> set (List.map_filter (marker_of page_text page h) is)"
    by (simp only: marker_clusters_set)
  then obtain j where "j \<in> set is" "marker_of page_text page h j = Some m"
    by (auto simp: List.map_filter_def)
  with m(1) marker_of_line show ?thesis by fastforce
qed

subsection \<open>\<open>alignedClusterCount\<close>\<close>

text \<open>The run of values that keep within the tolerance of its running mean, and the rest.\<close>

fun cluster_run :: "double \<Rightarrow> double \<Rightarrow> nat \<Rightarrow> double list \<Rightarrow> nat \<times> double list" where
  "cluster_run tolerance mean n [] = (n, [])"
| "cluster_run tolerance mean n (v # vs) =
     (if \<bar>v - mean\<bar> \<le> tolerance
      then cluster_run tolerance ((mean * real n + v) / real (n + 1)) (n + 1) vs
      else (n, v # vs))"

lemma cluster_run_length: "length (snd (cluster_run tolerance mean n vs)) \<le> length vs"
  by (induction tolerance mean n vs rule: cluster_run.induct) auto

function count_clusters :: "double \<Rightarrow> double list \<Rightarrow> int" where
  "count_clusters tolerance [] = 0"
| "count_clusters tolerance (v # vs) =
     (case cluster_run tolerance v 1 vs of
        (n, rest) \<Rightarrow> (if n \<ge> 2 then 1 else 0) + count_clusters tolerance rest)"
  by pat_completeness auto

termination
  by (relation "measure (\<lambda>(_, vs). length vs)")
     (auto dest!: arg_cong[where f = "\<lambda>p. length (snd p)"] intro: le_less_trans[OF _ lessI]
       simp: le_imp_less_Suc cluster_run_length dest: sym)

definition alignedClusterCount ::
  "line_group list \<Rightarrow> nat list \<Rightarrow> (line_group \<Rightarrow> double) \<Rightarrow> double \<Rightarrow> int" where
  "alignedClusterCount groups indices coordinate tolerance =
     count_clusters tolerance (sort (map (\<lambda>i. coordinate (groups ! i)) indices))"

subsection \<open>The search for a grid component\<close>

definition groupCenterX :: "line_group \<Rightarrow> double" where
  "groupCenterX g = (bx0 (lg_bbox g) + bx1 (lg_bbox g)) * 0.5"

definition groupCenterY :: "line_group \<Rightarrow> double" where
  "groupCenterY g = (by0 (lg_bbox g) + by1 (lg_bbox g)) * 0.5"

definition page_width_of :: "page_artifact \<Rightarrow> double" where
  "page_width_of page = real_of_int (max 1 (pa_width page))"

definition page_height_of :: "page_artifact \<Rightarrow> double" where
  "page_height_of page = real_of_int (max 1 (pa_height page))"

definition row_tolerance :: "page_artifact \<Rightarrow> double \<Rightarrow> double" where
  "row_tolerance page h = max (h * 1.50) (page_height_of page * 0.012)"

definition column_tolerance :: "page_artifact \<Rightarrow> double \<Rightarrow> double" where
  "column_tolerance page h = max (h * 2.50) (page_width_of page * 0.025)"

definition grid_candidates :: "page_artifact \<Rightarrow> double \<Rightarrow> line_group list \<Rightarrow> nat list" where
  "grid_candidates page h groups =
     filter (\<lambda>i. let g = groups ! i; width = bx1 (lg_bbox g) - bx0 (lg_bbox g);
                    height = by1 (lg_bbox g) - by0 (lg_bbox g)
                in lg_source_label g = [] \<and> length (lg_line_indices g) \<le> 3 \<and>
                   width \<le> page_width_of page * 0.45 \<and>
                   height \<le> max (h * 3.25) (page_height_of page * 0.06))
       [0..<length groups]"

definition grid_neighbor :: "page_artifact \<Rightarrow> double \<Rightarrow> line_group \<Rightarrow> line_group \<Rightarrow> bool" where
  "grid_neighbor page h lhs rhs =
     (let l = lg_bbox lhs; r = lg_bbox rhs;
          in_row = \<bar>groupCenterY lhs - groupCenterY rhs\<bar> \<le> row_tolerance page h;
          in_column = \<bar>bx0 l - bx0 r\<bar> \<le> column_tolerance page h;
          row_neighbor = in_row \<and> intervalGap (bx0 l) (bx1 l) (bx0 r) (bx1 r) \<le> page_width_of page * 0.35;
          column_neighbor = in_column \<and> intervalGap (by0 l) (by1 l) (by0 r) (by1 r) \<le>
            max (h * 8) (page_height_of page * 0.18)
      in row_neighbor \<or> column_neighbor)"

text \<open>
  The breadth-first search works on positions in the candidate list. Its state is the
  \<open>visited\<close> flags and the queue \<open>component_positions\<close>, which a cursor walks while the
  body appends to it. What decreases is the number of unvisited positions plus the part of the
  queue that is still ahead of the cursor.
\<close>

definition visit_neighbor ::
  "(nat \<Rightarrow> nat \<Rightarrow> bool) \<Rightarrow> nat \<Rightarrow> bool list \<times> nat list \<Rightarrow> nat \<Rightarrow> bool list \<times> nat list" where
  "visit_neighbor adjacent lhs acc rhs =
     (case acc of (visited, queue) \<Rightarrow>
        if visited ! rhs then acc
        else if adjacent lhs rhs then (visited[rhs := True], queue @ [rhs]) else acc)"

definition visit_neighbors ::
  "(nat \<Rightarrow> nat \<Rightarrow> bool) \<Rightarrow> nat \<Rightarrow> bool list \<times> nat list \<Rightarrow> bool list \<times> nat list" where
  "visit_neighbors adjacent lhs acc = foldl (visit_neighbor adjacent lhs) acc [0..<length (fst acc)]"

definition unvisited :: "bool list \<Rightarrow> nat" where
  "unvisited visited = length (filter Not visited)"

lemma unvisited_update:
  "i < length visited \<Longrightarrow> \<not> visited ! i \<Longrightarrow> unvisited visited = Suc (unvisited (visited[i := True]))"
proof (induction visited arbitrary: i)
  case (Cons v visited)
  then show ?case by (cases i) (auto simp: unvisited_def)
qed simp

lemma visit_neighbor_total:
  assumes "rhs < length visited"
  shows "unvisited (fst (visit_neighbor adjacent lhs (visited, queue) rhs)) +
      length (snd (visit_neighbor adjacent lhs (visited, queue) rhs)) = unvisited visited + length queue"
    "length (fst (visit_neighbor adjacent lhs (visited, queue) rhs)) = length visited"
  using unvisited_update[OF assms] by (auto simp: visit_neighbor_def)

lemma visit_fold_total:
  "list_all (\<lambda>r. r < length visited) rs \<Longrightarrow>
   unvisited (fst (foldl (visit_neighbor adjacent lhs) (visited, queue) rs)) +
     length (snd (foldl (visit_neighbor adjacent lhs) (visited, queue) rs)) = unvisited visited + length queue \<and>
   length (fst (foldl (visit_neighbor adjacent lhs) (visited, queue) rs)) = length visited"
proof (induction rs arbitrary: visited queue)
  case (Cons r rs)
  obtain v q where vq: "visit_neighbor adjacent lhs (visited, queue) r = (v, q)" by fastforce
  have "unvisited v + length q = unvisited visited + length queue" "length v = length visited"
    using visit_neighbor_total[of r visited adjacent lhs queue] Cons.prems vq by simp_all
  with Cons.IH[of v q] Cons.prems show ?case by (simp add: vq)
qed simp

lemma visit_neighbors_total:
  "unvisited (fst (visit_neighbors adjacent lhs acc)) + length (snd (visit_neighbors adjacent lhs acc)) =
   unvisited (fst acc) + length (snd acc)"
  using visit_fold_total[of "fst acc" "[0..<length (fst acc)]" adjacent lhs "snd acc"]
  by (simp add: visit_neighbors_def list_all_iff)

function grow_component ::
  "(nat \<Rightarrow> nat \<Rightarrow> bool) \<Rightarrow> nat \<Rightarrow> bool list \<times> nat list \<Rightarrow> bool list \<times> nat list" where
  "grow_component adjacent cursor acc =
     (if cursor < length (snd acc)
      then grow_component adjacent (Suc cursor) (visit_neighbors adjacent (snd acc ! cursor) acc)
      else acc)"
  by pat_completeness auto

termination
proof (relation "measure (\<lambda>(_, cursor, acc). unvisited (fst acc) + length (snd acc) - cursor)")
  fix adjacent cursor and acc :: "bool list \<times> nat list"
  assume "cursor < length (snd acc)"
  then show "((adjacent, Suc cursor, visit_neighbors adjacent (snd acc ! cursor) acc), adjacent, cursor, acc)
      \<in> measure (\<lambda>(_, cursor, acc). unvisited (fst acc) + length (snd acc) - cursor)"
    using visit_neighbors_total[of adjacent "snd acc ! cursor" acc] by simp
qed simp

declare grow_component.simps [simp del]

definition is_grid_component :: "page_artifact \<Rightarrow> double \<Rightarrow> line_group list \<Rightarrow> nat list \<Rightarrow> bool" where
  "is_grid_component page h groups component \<longleftrightarrow>
     length component \<ge> 6 \<and>
     alignedClusterCount groups component groupCenterY (row_tolerance page h) \<ge> 2 \<and>
     alignedClusterCount groups component (\<lambda>g. bx0 (lg_bbox g)) (column_tolerance page h) \<ge> 2"

text \<open>The loop over \<open>start\<close>: the first component that passes, or the empty list.\<close>

fun find_grid ::
  "page_artifact \<Rightarrow> double \<Rightarrow> line_group list \<Rightarrow> nat list \<Rightarrow> bool list \<Rightarrow> nat list \<Rightarrow> nat list" where
  "find_grid page h groups candidates visited [] = []"
| "find_grid page h groups candidates visited (start # starts) =
     (if visited ! start then find_grid page h groups candidates visited starts
      else
        case grow_component (\<lambda>l r. grid_neighbor page h (groups ! (candidates ! l)) (groups ! (candidates ! r))) 0
               (visited[start := True], [start]) of
          (visited', positions) \<Rightarrow>
            let component = map (\<lambda>p. candidates ! p) positions in
            if is_grid_component page h groups component then component
            else find_grid page h groups candidates visited' starts)"

definition selected_grid :: "page_artifact \<Rightarrow> double \<Rightarrow> line_group list \<Rightarrow> nat list" where
  "selected_grid page h groups =
     (let candidates = grid_candidates page h groups in
      if length candidates < 6 then []
      else find_grid page h groups candidates (replicate (length candidates) False) [0..<length candidates])"

subsection \<open>Merging the component\<close>

definition grid_bbox :: "line_group list \<Rightarrow> nat list \<Rightarrow> bbox" where
  "grid_bbox groups selected =
     foldl (\<lambda>box i. expandBBox box (lg_bbox (groups ! i))) (lg_bbox (groups ! hd selected)) selected"

definition absorbed :: "double \<Rightarrow> bbox \<Rightarrow> line_group \<Rightarrow> bool" where
  "absorbed h grid g \<longleftrightarrow>
     \<not> (lg_source_label g \<noteq> [] \<or> length (lg_line_indices g) > 4) \<and>
     by1 (lg_bbox g) - by0 (lg_bbox g) \<le> h * 6 \<and>
     groupCenterX g \<ge> bx0 grid - h * 2 \<and> groupCenterX g \<le> bx1 grid + h * 2 \<and>
     groupCenterY g \<ge> by0 grid - h * 2 \<and> groupCenterY g \<le> by1 grid + h * 2"

text \<open>\<open>merge_indices\<close> is a \<open>std::set\<close>, walked in ascending order.\<close>

definition merge_indices :: "double \<Rightarrow> line_group list \<Rightarrow> nat list \<Rightarrow> nat list" where
  "merge_indices h groups selected =
     filter (\<lambda>i. i \<in> set selected \<or> absorbed h (grid_bbox groups selected) (groups ! i)) [0..<length groups]"

definition merged_group :: "page_text \<Rightarrow> double \<Rightarrow> line_group list \<Rightarrow> nat list \<Rightarrow> line_group" where
  "merged_group page_text h groups merge =
     (let lines = sortLineIndicesRowWise page_text (concat (map (\<lambda>i. lg_line_indices (groups ! i)) merge)) h
      in \<lparr>lg_bbox = foldl (\<lambda>box i. expandBBox box (lg_bbox (groups ! i))) (lg_bbox (groups ! hd merge)) merge,
          lg_last_line_bbox = line_box page_text (last lines),
          lg_line_indices = lines,
          lg_source_label = ''text_grid_fallback''\<rparr>)"

definition reduced_groups :: "line_group \<Rightarrow> line_group list \<Rightarrow> nat list \<Rightarrow> line_group list" where
  "reduced_groups merged groups merge =
     concat (map (\<lambda>i. (if i = hd merge then [merged] else []) @ (if i \<in> set merge then [] else [groups ! i]))
       [0..<length groups])"

text \<open>One round of the loop: \<open>None\<close> is its \<open>break\<close>.\<close>

definition coalesce_round ::
  "page_text \<Rightarrow> page_artifact \<Rightarrow> double \<Rightarrow> line_group list \<Rightarrow> (line_group list \<times> nat) option" where
  "coalesce_round page_text page h groups =
     (let selected = selected_grid page h groups in
      if selected = [] then None
      else
        let merge = merge_indices h groups selected
        in Some (reduced_groups (merged_group page_text h groups merge) groups merge, length merge))"

subsection \<open>A round shrinks the groups and loses no line\<close>

definition queue_ok :: "bool list \<times> nat list \<Rightarrow> bool" where
  "queue_ok acc \<longleftrightarrow> distinct (snd acc) \<and> (\<forall>p\<in>set (snd acc). p < length (fst acc) \<and> fst acc ! p)"

lemma visit_neighbor_ok: "queue_ok acc \<Longrightarrow> r < length (fst acc) \<Longrightarrow> queue_ok (visit_neighbor adjacent l acc r)"
  by (cases acc) (auto simp: queue_ok_def visit_neighbor_def nth_list_update)

lemma visit_fold_ok:
  "queue_ok acc \<Longrightarrow> list_all (\<lambda>r. r < length (fst acc)) rs \<Longrightarrow>
   queue_ok (foldl (visit_neighbor adjacent l) acc rs)"
proof (induction rs arbitrary: acc)
  case (Cons r rs)
  have "length (fst (visit_neighbor adjacent l acc r)) = length (fst acc)"
    using visit_neighbor_total(2)[of r "fst acc" adjacent l "snd acc"] Cons.prems by simp
  then show ?case using Cons visit_neighbor_ok[of acc r adjacent l] by simp
qed simp

lemma visit_neighbors_ok: "queue_ok acc \<Longrightarrow> queue_ok (visit_neighbors adjacent l acc)"
  unfolding visit_neighbors_def by (rule visit_fold_ok) (simp_all add: list_all_iff)

lemma visit_neighbors_length: "length (fst (visit_neighbors adjacent l acc)) = length (fst acc)"
  using visit_fold_total[of "fst acc" "[0..<length (fst acc)]" adjacent l "snd acc"]
  by (simp add: visit_neighbors_def list_all_iff)

lemma grow_component_ok:
  "queue_ok acc \<Longrightarrow> queue_ok (grow_component adjacent c acc) \<and>
   length (fst (grow_component adjacent c acc)) = length (fst acc)"
proof (induction adjacent c acc rule: grow_component.induct)
  case (1 adjacent c acc)
  show ?case
  proof (cases "c < length (snd acc)")
    case True
    with 1 visit_neighbors_ok[of acc adjacent "snd acc ! c"] show ?thesis
      by (simp add: grow_component.simps[of adjacent c acc] visit_neighbors_length)
  next
    case False
    with 1 show ?thesis by (simp add: grow_component.simps[of adjacent c acc])
  qed
qed

lemma find_grid_sound:
  assumes "find_grid page h groups candidates visited starts = component" "component \<noteq> []"
    "distinct candidates" "length visited = length candidates" "list_all (\<lambda>s. s < length candidates) starts"
  shows "is_grid_component page h groups component \<and> distinct component \<and> set component \<subseteq> set candidates"
  using assms(1,2,4,5)
proof (induction starts arbitrary: visited)
  case (Cons start starts)
  show ?case
  proof (cases "visited ! start")
    case True
    with Cons show ?thesis by simp
  next
    case False
    let ?adj = "\<lambda>l r. grid_neighbor page h (groups ! (candidates ! l)) (groups ! (candidates ! r))"
    obtain visited' positions where grow: "grow_component ?adj 0 (visited[start := True], [start]) = (visited', positions)"
      by fastforce
    have "queue_ok (visited[start := True], [start])" using Cons.prems by (simp add: queue_ok_def)
    from grow_component_ok[OF this, of ?adj 0] have ok: "queue_ok (visited', positions)"
      and len: "length visited' = length candidates"
      using Cons.prems by (simp_all add: grow)
    have inj: "distinct (map (\<lambda>p. candidates ! p) positions)" "set (map (\<lambda>p. candidates ! p) positions) \<subseteq> set candidates"
      using ok len assms(3) by (auto simp: queue_ok_def distinct_map inj_on_def nth_eq_iff_index_eq)
    show ?thesis
    proof (cases "is_grid_component page h groups (map (\<lambda>p. candidates ! p) positions)")
      case True
      with Cons.prems False grow inj show ?thesis by simp
    next
      case no: False
      with Cons.prems False grow len show ?thesis by (intro Cons.IH[of visited']) simp_all
    qed
  qed
qed simp

lemma selected_grid_sound:
  assumes "selected_grid page h groups \<noteq> []"
  shows "6 \<le> length (selected_grid page h groups)" "distinct (selected_grid page h groups)"
    "set (selected_grid page h groups) \<subseteq> {..<length groups}"
proof -
  let ?cs = "grid_candidates page h groups"
  have cs: "distinct ?cs" "set ?cs \<subseteq> {..<length groups}" by (auto simp: grid_candidates_def)
  have eq: "find_grid page h groups ?cs (replicate (length ?cs) False) [0..<length ?cs] = selected_grid page h groups"
    using assms by (simp add: selected_grid_def Let_def split: if_splits)
  have "is_grid_component page h groups (selected_grid page h groups) \<and> distinct (selected_grid page h groups) \<and>
      set (selected_grid page h groups) \<subseteq> set ?cs"
    by (rule find_grid_sound[OF eq assms cs(1)]) (simp_all add: list_all_iff)
  with cs(2) show "6 \<le> length (selected_grid page h groups)" "distinct (selected_grid page h groups)"
    "set (selected_grid page h groups) \<subseteq> {..<length groups}"
    by (auto simp: is_grid_component_def)
qed

lemma merge_indices_facts:
  assumes "selected_grid page h groups \<noteq> []"
  defines "merge \<equiv> merge_indices h groups (selected_grid page h groups)"
  shows "6 \<le> length merge" "distinct merge" "set merge \<subseteq> {..<length groups}" "hd merge \<in> set merge"
proof -
  have sub: "set (selected_grid page h groups) \<subseteq> set merge"
    using selected_grid_sound(3)[OF assms(1)] by (auto simp: merge_def merge_indices_def)
  show dist: "distinct merge" and "set merge \<subseteq> {..<length groups}"
    by (auto simp: merge_def merge_indices_def)
  have "length (selected_grid page h groups) \<le> length merge"
    using card_mono[OF finite_set sub] distinct_card[OF dist] distinct_card[OF selected_grid_sound(2)[OF assms(1)]]
    by simp
  then show "6 \<le> length merge" using selected_grid_sound(1)[OF assms(1)] by simp
  then have "merge \<noteq> []" by auto
  then show "hd merge \<in> set merge" by simp
qed

lemma mset_reduced_gen:
  "distinct xs \<Longrightarrow>
   mset (concat (map (\<lambda>i. (if i = a then [m] else []) @ (if i \<in> S then [] else [g i])) xs)) =
   (if a \<in> set xs then {#m#} else {#}) + mset (map g (filter (\<lambda>i. i \<notin> S) xs))"
  by (induction xs) auto

lemma mset_reduced_groups:
  assumes "hd merge < length groups"
  shows "mset (reduced_groups merged groups merge) =
    add_mset merged (mset (map (\<lambda>i. groups ! i) (filter (\<lambda>i. i \<notin> set merge) [0..<length groups])))"
  using assms by (simp add: reduced_groups_def mset_reduced_gen del: mset_concat)

text \<open>The variant of the loop: every round leaves at least five groups fewer.\<close>

lemma coalesce_round_decreases:
  assumes "coalesce_round page_text page h groups = Some (reduced, n)"
  shows "length reduced + n = length groups + 1" "6 \<le> n"
proof -
  let ?sel = "selected_grid page h groups"
  let ?merge = "merge_indices h groups ?sel"
  from assms have ne: "?sel \<noteq> []" and n: "n = length ?merge"
    and red: "reduced = reduced_groups (merged_group page_text h groups ?merge) groups ?merge"
    by (auto simp: coalesce_round_def Let_def split: if_splits)
  note merge = merge_indices_facts[OF ne]
  show "6 \<le> n" using merge(1) n by simp
  have "hd ?merge < length groups" using merge(3,4) by auto
  then have "length reduced = length (merged_group page_text h groups ?merge #
      map (\<lambda>i. groups ! i) (filter (\<lambda>i. i \<notin> set ?merge) [0..<length groups]))"
    unfolding red by (intro mset_eq_length) (simp only: mset_reduced_groups mset.simps)
  then have "length reduced = Suc (length (filter (\<lambda>i. i \<notin> set ?merge) [0..<length groups]))"
    by simp
  moreover have "filter (\<lambda>i. i \<notin> set ?merge) [0..<length groups] =
      filter (\<lambda>i. \<not> (i \<in> set ?sel \<or> absorbed h (grid_bbox groups ?sel) (groups ! i))) [0..<length groups]"
    by (rule filter_cong) (auto simp: merge_indices_def)
  ultimately show "length reduced + n = length groups + 1"
    using sum_length_filter_compl[of "\<lambda>i. i \<in> set ?sel \<or> absorbed h (grid_bbox groups ?sel) (groups ! i)" "[0..<length groups]"]
    by (simp add: n merge_indices_def)
qed

function coalesce_grids ::
  "page_text \<Rightarrow> page_artifact \<Rightarrow> double \<Rightarrow> line_group list \<Rightarrow> int \<Rightarrow> line_group list \<times> int" where
  "coalesce_grids page_text page h groups coalesced =
     (case coalesce_round page_text page h groups of
        None \<Rightarrow> (groups, coalesced)
      | Some (reduced, n) \<Rightarrow> coalesce_grids page_text page h reduced (coalesced + int n))"
  by pat_completeness auto

termination
proof (relation "measure (\<lambda>(_, _, _, groups, _). length groups)")
  fix page_text page h groups coalesced and x :: "line_group list \<times> nat" and reduced n
  assume "coalesce_round page_text page h groups = Some x" "(reduced, n) = x"
  then have "length reduced + n = length groups + 1" "6 \<le> n"
    using coalesce_round_decreases by blast+
  then show "((page_text, page, h, reduced, coalesced + int n), page_text, page, h, groups, coalesced)
      \<in> measure (\<lambda>(_, _, _, groups, _). length groups)"
    by simp
qed simp

declare coalesce_grids.simps [simp del]

text \<open>\<open>stats.coalesced_grid_groups\<close> is the second component.\<close>

definition coalesceDenseGridGroups ::
  "page_text \<Rightarrow> page_artifact \<Rightarrow> line_group list \<Rightarrow> double \<Rightarrow> line_group list \<times> int" where
  "coalesceDenseGridGroups page_text page groups h =
     (if length groups < 6 \<or> h \<le> 0 then (groups, 0) else coalesce_grids page_text page h groups 0)"

text \<open>Lines are conserved, and every group keeps a box around its lines.\<close>

lemma expand_fold_grows: "bbox_le box (foldl (\<lambda>b i. expandBBox b (f i)) box is)"
proof (induction "is" arbitrary: box)
  case (Cons j js)
  show ?case using bbox_le_trans[OF expandBBox_upper(1) Cons[of "expandBBox box (f j)"]] by simp
qed simp

lemma expand_fold_upper: "i \<in> set is \<Longrightarrow> bbox_le (f i) (foldl (\<lambda>b i. expandBBox b (f i)) box is)"
proof (induction "is" arbitrary: box)
  case (Cons j js)
  have "bbox_le (f j) (foldl (\<lambda>b i. expandBBox b (f i)) (expandBBox box (f j)) js)"
    by (rule bbox_le_trans[OF expandBBox_upper(2) expand_fold_grows])
  then show ?case using Cons.IH[of "expandBBox box (f j)"] Cons.prems by auto
qed simp

lemma merged_group_wf:
  assumes "\<forall>i\<in>set merge. group_wf page_text (groups ! i)" "merge \<noteq> []"
  shows "group_wf page_text (merged_group page_text h groups merge)"
  unfolding group_wf_def list_all_iff
proof (intro conjI ballI)
  show "lg_line_indices (merged_group page_text h groups merge) \<noteq> []"
    using assms by (cases merge) (auto simp: merged_group_def Let_def group_wf_def)
  fix k assume "k \<in> set (lg_line_indices (merged_group page_text h groups merge))"
  then obtain i where i: "i \<in> set merge" "k \<in> set (lg_line_indices (groups ! i))"
    by (auto simp: merged_group_def Let_def)
  then have "bbox_le (line_box page_text k) (lg_bbox (groups ! i))"
    using assms(1) by (auto simp: group_wf_def list_all_iff)
  also have "bbox_le \<dots> (lg_bbox (merged_group page_text h groups merge))"
    using expand_fold_upper[OF i(1)] by (simp add: merged_group_def Let_def)
  finally show "bbox_le (line_box page_text k) (lg_bbox (merged_group page_text h groups merge))" .
qed

lemma group_lines_filter:
  "(\<Sum>i\<leftarrow>is. f i) = (\<Sum>i\<leftarrow>filter P is. f i) + (\<Sum>i\<leftarrow>filter (\<lambda>i. \<not> P i) is. f i :: 'a::comm_monoid_add)"
  by (induction "is") (simp_all add: ac_simps)

lemma group_lines_mset: "mset gs = mset hs \<Longrightarrow> group_lines gs = group_lines hs"
  unfolding group_lines_def by (metis mset_map sum_mset_sum_list)

lemma merged_group_lines:
  "mset (lg_line_indices (merged_group page_text h groups merge)) = (\<Sum>i\<leftarrow>merge. mset (lg_line_indices (groups ! i)))"
  unfolding mset_concat_map[symmetric] by (simp add: merged_group_def Let_def)

lemma coalesce_round_sound:
  assumes "coalesce_round page_text page h groups = Some (reduced, n)" "list_all (group_wf page_text) groups"
  shows "list_all (group_wf page_text) reduced \<and> group_lines reduced = group_lines groups"
proof
  let ?sel = "selected_grid page h groups"
  let ?merge = "merge_indices h groups ?sel"
  let ?merged = "merged_group page_text h groups ?merge"
  let ?others = "map (\<lambda>i. groups ! i) (filter (\<lambda>i. i \<notin> set ?merge) [0..<length groups])"
  from assms(1) have ne: "?sel \<noteq> []" and red: "reduced = reduced_groups ?merged groups ?merge"
    by (auto simp: coalesce_round_def Let_def split: if_splits)
  note merge = merge_indices_facts[OF ne]
  have "hd ?merge < length groups" using merge(3,4) by auto
  then have perm: "mset reduced = mset (?merged # ?others)"
    unfolding red by (simp only: mset_reduced_groups mset.simps)
  have "\<forall>i\<in>set ?merge. group_wf page_text (groups ! i)"
    using merge(3) assms(2) by (auto simp: list_all_length)
  moreover have "?merge \<noteq> []" using merge(1) by auto
  ultimately have "group_wf page_text ?merged" by (rule merged_group_wf)
  then show "list_all (group_wf page_text) reduced"
    using mset_eq_setD[OF perm] assms(2) by (auto simp: list_all_iff)
  have in_merge: "filter (\<lambda>i. i \<in> set ?merge) [0..<length groups] = ?merge"
    by (subst (2) merge_indices_def, rule filter_cong) (auto simp: merge_indices_def)
  have "group_lines groups = group_lines (map (\<lambda>i. groups ! i) [0..<length groups])" by (simp add: map_nth)
  also have "\<dots> = (\<Sum>i\<leftarrow>[0..<length groups]. mset (lg_line_indices (groups ! i)))"
    by (simp add: group_lines_def comp_def)
  also have "\<dots> = (\<Sum>i\<leftarrow>?merge. mset (lg_line_indices (groups ! i))) + group_lines ?others"
    unfolding group_lines_filter[of _ "[0..<length groups]" "\<lambda>i. i \<in> set ?merge"] in_merge
    by (simp add: group_lines_def comp_def)
  also have "\<dots> = group_lines reduced"
    unfolding group_lines_mset[OF perm] merged_group_lines[of page_text h groups, symmetric] by simp
  finally show "group_lines reduced = group_lines groups" ..
qed

lemma coalesce_grids_sound:
  "list_all (group_wf page_text) groups \<Longrightarrow>
   list_all (group_wf page_text) (fst (coalesce_grids page_text page h groups c)) \<and>
   group_lines (fst (coalesce_grids page_text page h groups c)) = group_lines groups"
proof (induction page_text page h groups c rule: coalesce_grids.induct)
  case (1 page_text page h groups c)
  show ?case
  proof (cases "coalesce_round page_text page h groups")
    case None
    then show ?thesis using 1 by (simp add: coalesce_grids.simps[of page_text page h groups c])
  next
    case (Some r)
    obtain reduced n where r: "r = (reduced, n)" by (cases r)
    with "1.IH"[OF Some r[symmetric]] coalesce_round_sound[of page_text page h groups reduced n] Some "1.prems"
    show ?thesis by (simp add: coalesce_grids.simps[of page_text page h groups c])
  qed
qed

lemma coalesce_sound:
  assumes "list_all (group_wf page_text) groups"
  shows "list_all (group_wf page_text) (fst (coalesceDenseGridGroups page_text page groups h))"
    "group_lines (fst (coalesceDenseGridGroups page_text page groups h)) = group_lines groups"
  using assms coalesce_grids_sound[OF assms] by (simp_all add: coalesceDenseGridGroups_def)

text \<open>What the statistic counts: each merge turns \<open>n\<close> groups into one.\<close>

lemma coalesce_grids_count:
  "snd (coalesce_grids page_text page h groups c) - c \<ge>
   int (length groups) - int (length (fst (coalesce_grids page_text page h groups c))) \<and>
   5 * (snd (coalesce_grids page_text page h groups c) - c) \<le>
   6 * (int (length groups) - int (length (fst (coalesce_grids page_text page h groups c))))"
proof (induction page_text page h groups c rule: coalesce_grids.induct)
  case (1 page_text page h groups c)
  show ?case
  proof (cases "coalesce_round page_text page h groups")
    case None
    then show ?thesis by (simp add: coalesce_grids.simps[of page_text page h groups c])
  next
    case (Some r)
    obtain reduced n where r: "r = (reduced, n)" by (cases r)
    have "length reduced + n = length groups + 1" "6 \<le> n"
      using coalesce_round_decreases[of page_text page h groups reduced n] Some r by blast+
    with "1.IH"[OF Some r[symmetric]] Some r
    show ?thesis by (simp add: coalesce_grids.simps[of page_text page h groups c])
  qed
qed

section \<open>Properties\<close>

text \<open>
  C18: merging the groups of a dense grid ends and conserves the page's lines. Whatever rounds it
  takes, the groups it returns hold exactly the lines of the groups it was given, each group still
  has lines and a box around all of them, and when it returns there is no grid left to merge.
\<close>

theorem coalesceDenseGridGroups_conserves:
  assumes "list_all (\<lambda>g. lg_line_indices g \<noteq> [] \<and>
      list_all (\<lambda>i. bbox_le (line_bbox (pt_lines page_text ! nat i)) (lg_bbox g)) (lg_line_indices g)) groups"
    and "coalesceDenseGridGroups page_text page groups h = (result, coalesced)"
  shows "(\<Sum>g\<leftarrow>result. mset (lg_line_indices g)) = (\<Sum>g\<leftarrow>groups. mset (lg_line_indices g)) \<and>
    list_all (\<lambda>g. lg_line_indices g \<noteq> [] \<and>
      list_all (\<lambda>i. bbox_le (line_bbox (pt_lines page_text ! nat i)) (lg_bbox g)) (lg_line_indices g)) result \<and>
    (6 \<le> length groups \<and> 0 < h \<longrightarrow> selected_grid page h result = []) \<and>
    5 * coalesced \<le> 6 * (int (length groups) - int (length result))"
proof -
  have wf: "list_all (\<lambda>g. lg_line_indices g \<noteq> [] \<and>
      list_all (\<lambda>i. bbox_le (line_bbox (pt_lines page_text ! nat i)) (lg_bbox g)) (lg_line_indices g)) gs =
      list_all (group_wf page_text) gs" for gs
    by (simp add: list_all_iff group_wf_def line_box_def line_at_def)
  have stop: "selected_grid page h (fst (coalesce_grids page_text page h groups c)) = []" for c
  proof (induction page_text page h groups c rule: coalesce_grids.induct)
    case (1 page_text page h groups c)
    then show ?case
      by (subst coalesce_grids.simps) (auto simp: coalesce_round_def Let_def split: option.split if_splits)
  qed
  have "list_all (group_wf page_text) groups" using assms(1) by (simp only: wf)
  from coalesce_sound[OF this, of page h] assms(2)
  have "group_lines result = group_lines groups" "list_all (group_wf page_text) result" by simp_all
  moreover have "5 * coalesced \<le> 6 * (int (length groups) - int (length result))"
    using coalesce_grids_count[where page_text = page_text and page = page and h = h and groups = groups and c = 0] assms(2)
    by (auto simp: coalesceDenseGridGroups_def split: if_splits)
  moreover have "6 \<le> length groups \<and> 0 < h \<longrightarrow> selected_grid page h result = []"
    using stop[of 0] assms(2) by (auto simp: coalesceDenseGridGroups_def split: if_splits)
  ultimately show ?thesis unfolding wf by (simp add: group_lines_def)
qed

definition grid_line :: "double \<Rightarrow> double \<Rightarrow> text_line" where
  "grid_line x y = \<lparr>line_text = ''a'', line_bbox = \<lparr>bx0 = x, by0 = y, bx1 = x + 50, by1 = y + 10\<rparr>,
     line_source = PdfTextLayer, line_confidence = 1, line_spans = []\<rparr>"

definition grid_text :: page_text where
  "grid_text = empty_page_text\<lparr>pt_lines := [grid_line 0 0, grid_line 100 0, grid_line 200 0,
     grid_line 0 40, grid_line 100 40, grid_line 200 40]\<rparr>"

definition grid_page :: page_artifact where
  "grid_page = \<lparr>pa_page_index = 0, pa_page_number = 1, pa_relative_image = [], pa_output_path = [],
     pa_width = 1000, pa_height = 1000, pa_debug_images = []\<rparr>"

definition grid_groups :: "line_group list" where
  "grid_groups = map (\<lambda>i. \<lparr>lg_bbox = line_box grid_text i, lg_last_line_bbox = line_box grid_text i,
     lg_line_indices = [i], lg_source_label = []\<rparr>) [0, 1, 2, 3, 4, 5]"

lemma grid_merges:
  "snd (coalesceDenseGridGroups grid_text grid_page grid_groups 10) = 6 \<and>
   map lg_line_indices (fst (coalesceDenseGridGroups grid_text grid_page grid_groups 10)) = [[0, 1, 2, 3, 4, 5]]"
  by code_simp

theorem coalesceDenseGridGroups_conserves_witness:
  "(\<Sum>g\<leftarrow>fst (coalesceDenseGridGroups grid_text grid_page grid_groups 10). mset (lg_line_indices g)) =
     {#0, 1, 2, 3, 4, 5#} \<and>
   selected_grid grid_page 10 (fst (coalesceDenseGridGroups grid_text grid_page grid_groups 10)) = [] \<and>
   length (fst (coalesceDenseGridGroups grid_text grid_page grid_groups 10)) = 1"
proof -
  have boxes: "list_all (\<lambda>g. lg_line_indices g \<noteq> [] \<and>
      list_all (\<lambda>i. bbox_le (line_bbox (pt_lines grid_text ! nat i)) (lg_bbox g)) (lg_line_indices g)) grid_groups"
    by (simp add: grid_groups_def line_box_def line_at_def)
  have "length grid_groups = 6" by (simp add: grid_groups_def)
  moreover have "(\<Sum>g\<leftarrow>grid_groups. mset (lg_line_indices g)) = {#0, 1, 2, 3, 4, 5#}"
    by (simp add: grid_groups_def add_mset_commute)
  moreover have "length (map lg_line_indices (fst (coalesceDenseGridGroups grid_text grid_page grid_groups 10))) = 1"
    using grid_merges by simp
  ultimately show ?thesis
    using coalesceDenseGridGroups_conserves[OF boxes prod.collapse[symmetric], of grid_page 10] by simp
qed

end
