(* ===== verification/Layout_Recovery.thy ===== *)
theory Layout_Recovery
  imports Layout_Grid
begin

text \<open>
  \<open>recoverUnassignedTextLines\<close> of \<open>cpp/layout/layout_postprocessing.cpp\<close>, with the text
  predicates it decides by: lines no block covers are grouped, and a group becomes part of a
  neighbouring block, a header, a footer or a text block of its own.
\<close>

subsection \<open>What a group's text looks like\<close>

definition fallbackSourceLabel :: "layout_type \<Rightarrow> string" where
  "fallbackSourceLabel t =
     (case t of LHeader \<Rightarrow> ''edge_header_fallback'' | LFooter \<Rightarrow> ''edge_footer_fallback''
      | _ \<Rightarrow> ''text_line_fallback'')"

definition medianTextLineHeight :: "page_text \<Rightarrow> double" where
  "medianTextLineHeight page_text =
     median (map (\<lambda>l. by1 (line_bbox l) - by0 (line_bbox l))
       (filter (\<lambda>l. by1 (line_bbox l) - by0 (line_bbox l) > 0 \<and> hasVisibleText (line_text l)) (pt_lines page_text)))"

definition append_line_text :: "page_text \<Rightarrow> string \<Rightarrow> int \<Rightarrow> string" where
  "append_line_text page_text result line_index =
     (if \<not> in_range line_index (pt_lines page_text) then result
      else (if result \<noteq> [] then result @ [CHR 0x0A] else result) @ line_text (line_at page_text line_index))"

definition fallbackGroupText :: "page_text \<Rightarrow> line_group \<Rightarrow> string" where
  "fallbackGroupText page_text g = foldl (append_line_text page_text) [] (lg_line_indices g)"

definition asciiLower :: "string \<Rightarrow> string" where
  "asciiLower s = map tolower s"

record marker_counts =
  mc_digits :: nat
  mc_letters :: nat
  mc_roman_letters :: nat
  mc_visible :: nat

definition count_character :: "marker_counts option \<Rightarrow> char \<Rightarrow> marker_counts option" where
  "count_character acc c =
     (case acc of
        None \<Rightarrow> None
      | Some m \<Rightarrow>
          if isspace c then Some m
          else
            let m = m\<lparr>mc_visible := mc_visible m + 1\<rparr> in
            if isdigit c then Some (m\<lparr>mc_digits := mc_digits m + 1\<rparr>)
            else if isalpha c then
              let m = m\<lparr>mc_letters := mc_letters m + 1\<rparr> in
              if tolower c \<in> set ''ivxlcdm'' then Some (m\<lparr>mc_roman_letters := mc_roman_letters m + 1\<rparr>) else Some m
            else if c \<notin> set ''-/|().:'' then None else Some m)"

definition isCompactPageMarker :: "string \<Rightarrow> bool" where
  "isCompactPageMarker str =
     (case foldl count_character (Some \<lparr>mc_digits = 0, mc_letters = 0, mc_roman_letters = 0, mc_visible = 0\<rparr>) str of
        None \<Rightarrow> False
      | Some m \<Rightarrow>
          if mc_visible m = 0 \<or> mc_visible m > 16 then False
          else (mc_digits m > 0 \<and> mc_letters m \<le> 4) \<or>
               (mc_digits m = 0 \<and> mc_letters m \<ge> 1 \<and> mc_letters m = mc_roman_letters m))"

definition furniture_patterns :: "string list" where
  "furniture_patterns = [''copyright'', ''all rights reserved'', ''doi:'', ''http://'', ''https://'', ''www.'',
     ''issn'', ''journal of'', ''downloaded'', ''document downloaded'']"

definition hasStrongFurniturePattern :: "string \<Rightarrow> bool" where
  "hasStrongFurniturePattern str =
     (let lower = asciiLower str in
      if list_ex (\<lambda>p. contains_str p lower) furniture_patterns then True else isCompactPageMarker lower)"

definition startsWithAny :: "string \<Rightarrow> string list \<Rightarrow> bool" where
  "startsWithAny value prefixes =
     (let visible = skip_chars (marker_blanks @ ''-'') value in
      if visible = [] then False else list_ex (\<lambda>p. starts_with p visible) prefixes)"

definition hasBodyCaptionPrefix :: "string \<Rightarrow> bool" where
  "hasBodyCaptionPrefix str =
     startsWithAny (asciiLower str) [''fig.'', ''figure '', ''table '', ''above:'', ''below:'', ''left:'', ''right:'',
       ''photo:'', ''source:'']"

definition visibleCharacterCount :: "string \<Rightarrow> nat" where
  "visibleCharacterCount str = length (filter (\<lambda>c. \<not> isspace c) str)"

definition hasBodyParagraphShape :: "line_group \<Rightarrow> string \<Rightarrow> bool" where
  "hasBodyParagraphShape g str \<longleftrightarrow> length (lg_line_indices g) \<ge> 4 \<and> visibleCharacterCount str \<ge> 100"

definition supportsRecoveryAttachment :: "layout_type \<Rightarrow> bool" where
  "supportsRecoveryAttachment t \<longleftrightarrow> t = LUnknown \<or> t = LTitle \<or> t = LText \<or> t = LList"

definition hasLeadingListMarker :: "string \<Rightarrow> bool" where
  "hasLeadingListMarker str =
     (case skip_chars marker_blanks str of
        [] \<Rightarrow> False
      | c # rest \<Rightarrow>
          if c = CHR ''-'' \<or> c = CHR ''*'' \<or> c = CHR ''+'' then True
          else
            let after = dropWhile isspace (dropWhile isdigit (c # rest)) in
            length after < length (c # rest) \<and> after \<noteq> [] \<and> hd after \<in> set ''.):-'')"

subsection \<open>Where a group belongs\<close>

definition overlap_ratio_of :: "bbox \<Rightarrow> bbox \<Rightarrow> double" where
  "overlap_ratio_of group_box block_box =
     horizontalOverlap group_box block_box /
       max (1 / 1000) (min (bx1 group_box - bx0 group_box) (bx1 block_box - bx0 block_box))"

definition vertical_gap_of :: "bbox \<Rightarrow> bbox \<Rightarrow> double" where
  "vertical_gap_of group_box block_box =
     intervalGap (by0 group_box) (by1 group_box) (by0 block_box) (by1 block_box)"

definition nearNonTextRegion :: "line_group \<Rightarrow> layout_block list \<Rightarrow> double \<Rightarrow> bool" where
  "nearNonTextRegion g blocks h \<longleftrightarrow>
     list_ex (\<lambda>b. (lb_type b = LFigure \<or> lb_type b = LTable) \<and>
        overlap_ratio_of (lg_bbox g) (lb_bbox b) \<ge> 0.25 \<and> vertical_gap_of (lg_bbox g) (lb_bbox b) \<le> h * 2) blocks"

definition attachment_score :: "line_group \<Rightarrow> bool \<Rightarrow> double \<Rightarrow> layout_block \<Rightarrow> double option" where
  "attachment_score g list_item h b =
     (if \<not> supportsRecoveryAttachment (lb_type b) \<or> lb_text_line_indices b = [] \<or> \<not> validBBox (lb_bbox b) then None
      else if list_item \<and> lb_type b = LTitle then None
      else if overlap_ratio_of (lg_bbox g) (lb_bbox b) < 0.60 then None
      else
        let vertical_gap = vertical_gap_of (lg_bbox g) (lb_bbox b) in
        if vertical_gap > h * 1.25 then None
        else Some (vertical_gap + \<bar>bx0 (lg_bbox g) - bx0 (lb_bbox b)\<bar> * 0.05))"

definition attachmentTarget ::
  "page_text \<Rightarrow> line_group \<Rightarrow> layout_block list \<Rightarrow> page_artifact \<Rightarrow> double \<Rightarrow> nat option" where
  "attachmentTarget page_text g blocks page h =
     (if lg_source_label g \<noteq> [] \<or> h \<le> 0 \<or> length (lg_line_indices g) > 2 \<or>
         by1 (lg_bbox g) - by0 (lg_bbox g) > h * 2.25 then None
      else
        let group_text = fallbackGroupText page_text g in
        if isCompactPageMarker group_text \<or> hasBodyCaptionPrefix group_text \<or>
           visibleCharacterCount group_text < 4 \<or> nearNonTextRegion g blocks h then None
        else
          let list_item = hasLeadingListMarker group_text in
          if bx1 (lg_bbox g) - bx0 (lg_bbox g) < max (h * 5) (page_width_of page * 0.06) then None
          else best_of (\<lambda>i. attachment_score g list_item h (blocks ! i)) [0..<length blocks])"

definition ascii_uppercase :: "char \<Rightarrow> bool" where
  "ascii_uppercase c \<longleftrightarrow> 65 \<le> (of_char c :: nat) \<and> (of_char c :: nat) \<le> 90"

definition ascii_lowercase :: "char \<Rightarrow> bool" where
  "ascii_lowercase c \<longleftrightarrow> 97 \<le> (of_char c :: nat) \<and> (of_char c :: nat) \<le> 122"

definition hasShortUppercaseKicker :: "page_text \<Rightarrow> line_group \<Rightarrow> bool" where
  "hasShortUppercaseKicker page_text g =
     (if length (lg_line_indices g) < 2 \<or> length (lg_line_indices g) > 3 then False
      else
        let first_line = lg_line_indices g ! 0; second_line = lg_line_indices g ! 1 in
        if \<not> in_range first_line (pt_lines page_text) then False
        else
          let shown = filter (\<lambda>c. \<not> isspace c) (line_text (line_at page_text first_line)) in
          if length shown > 32 \<or> length (filter ascii_uppercase shown) < 3 \<or>
             length (filter ascii_lowercase shown) \<noteq> 0 then False
          else if \<not> in_range second_line (pt_lines page_text) then False
          else length (filter ascii_lowercase (line_text (line_at page_text second_line))) \<ge> 3)"

definition supportsBodyContinuity :: "layout_type \<Rightarrow> bool" where
  "supportsBodyContinuity t \<longleftrightarrow> t \<noteq> LHeader \<and> t \<noteq> LFooter \<and> t \<noteq> LFigure"

definition continuesModelBackedBody :: "line_group \<Rightarrow> layout_block list \<Rightarrow> double \<Rightarrow> bool" where
  "continuesModelBackedBody g blocks h =
     (let group_width = bx1 (lg_bbox g) - bx0 (lg_bbox g) in
      if h \<le> 0 then False
      else if group_width \<le> 0 then False
      else list_ex (\<lambda>b.
        \<not> (\<not> supportsBodyContinuity (lb_type b) \<or> lb_text_line_indices b = [] \<or> \<not> validBBox (lb_bbox b)) \<and>
        \<not> group_width / max (1 / 1000) (bx1 (lb_bbox b) - bx0 (lb_bbox b)) > 1.25 \<and>
        \<not> overlap_ratio_of (lg_bbox g) (lb_bbox b) < 0.50 \<and>
        vertical_gap_of (lg_bbox g) (lb_bbox b) \<le> h) blocks)"

definition isLargeTopHeading :: "page_text \<Rightarrow> line_group \<Rightarrow> double \<Rightarrow> bool" where
  "isLargeTopHeading page_text g h =
     (if h \<le> 0 \<or> lg_line_indices g = [] \<or> length (lg_line_indices g) > 2 then False
      else if \<not> list_all (\<lambda>i. in_range i (pt_lines page_text)) (lg_line_indices g) then False
      else
        let heights = map (\<lambda>i. by1 (line_box page_text i) - by0 (line_box page_text i)) (lg_line_indices g)
        in visibleCharacterCount (fallbackGroupText page_text g) \<ge> 8 \<and> median heights \<ge> h * 1.75)"

definition recoveredGroupType ::
  "page_text \<Rightarrow> page_artifact \<Rightarrow> layout_block list \<Rightarrow> line_group \<Rightarrow> double \<Rightarrow> layout_type" where
  "recoveredGroupType page_text page blocks g h =
     (if pa_height page \<le> 0 then LText
      else
        let center_y = (by0 (lg_bbox g) + by1 (lg_bbox g)) * 0.5 / real_of_int (pa_height page);
            header_candidate = center_y \<le> 0.15; footer_candidate = center_y \<ge> 0.88 in
        if \<not> header_candidate \<and> \<not> footer_candidate then LText
        else
          let strict_page_edge = center_y \<le> 0.05 \<or> center_y \<ge> 0.95;
              text_value = fallbackGroupText page_text g;
              strong_furniture = hasStrongFurniturePattern text_value;
              body_continuation = continuesModelBackedBody g blocks h in
          if hasBodyCaptionPrefix text_value then LText
          else if \<not> strong_furniture \<and> hasBodyParagraphShape g text_value then LText
          else if \<not> strong_furniture \<and> body_continuation then LText
          else if header_candidate \<and> \<not> strict_page_edge \<and> \<not> strong_furniture \<and>
                  (isLargeTopHeading page_text g h \<or> hasShortUppercaseKicker page_text g) then LText
          else if header_candidate then LHeader else LFooter)"

subsection \<open>\<open>recoverUnassignedTextLines\<close>\<close>

record recovery_stats =
  st_recovered_lines :: int
  st_recovered_furniture_lines :: int
  st_preserved_edge_body_lines :: int
  st_attached_lines :: int
  st_attached_groups :: int
  st_coalesced_grid_groups :: int
  st_skipped_marginalia_lines :: int
  st_fallback_blocks :: int
  st_skipped_furniture_lines :: int

definition assigned_lines :: "page_text \<Rightarrow> layout_block list \<Rightarrow> int set" where
  "assigned_lines page_text blocks =
     set (filter (\<lambda>i. in_range i (pt_lines page_text)) (concat (map lb_text_line_indices blocks)))"

definition unassigned_line :: "page_text \<Rightarrow> layout_block list \<Rightarrow> int \<Rightarrow> bool" where
  "unassigned_line page_text blocks i \<longleftrightarrow> i \<notin> assigned_lines page_text blocks \<and>
     hasVisibleText (line_text (line_at page_text i)) \<and> validBBox (line_box page_text i)"

definition line_numbers :: "page_text \<Rightarrow> int list" where
  "line_numbers page_text = map int [0..<length (pt_lines page_text)]"

definition recoverable_lines :: "page_text \<Rightarrow> layout_block list \<Rightarrow> int list" where
  "recoverable_lines page_text blocks =
     filter (\<lambda>i. unassigned_line page_text blocks i \<and> \<not> overlapsFurniture (line_box page_text i) blocks)
       (line_numbers page_text)"

definition skipped_furniture :: "page_text \<Rightarrow> layout_block list \<Rightarrow> int list" where
  "skipped_furniture page_text blocks =
     filter (\<lambda>i. unassigned_line page_text blocks i \<and> overlapsFurniture (line_box page_text i) blocks)
       (line_numbers page_text)"

definition fallback_block :: "int \<Rightarrow> layout_type \<Rightarrow> line_group \<Rightarrow> layout_block" where
  "fallback_block page_number t g =
     default_layout_block\<lparr>
       lb_id := ''page_'' @ int_to_string page_number @ ''_fallback_line_'' @
         int_to_string (Min (set (lg_line_indices g)) + 1),
       lb_type := t,
       lb_source_label := (if t = LText \<and> lg_source_label g \<noteq> [] then lg_source_label g else fallbackSourceLabel t),
       lb_bbox := lg_bbox g,
       lb_confidence := (if t = LText then 0.35 else 0.25),
       lb_text_line_indices := lg_line_indices g\<rparr>"

definition append_group ::
  "int \<Rightarrow> layout_type \<Rightarrow> layout_block list \<times> recovery_stats \<Rightarrow> line_group \<Rightarrow> layout_block list \<times> recovery_stats" where
  "append_group page_number t acc g =
     (case acc of (blocks, stats) \<Rightarrow>
        let line_count = int (length (lg_line_indices g));
            stats = stats\<lparr>st_recovered_lines := st_recovered_lines stats + line_count\<rparr>;
            stats = (if t = LHeader \<or> t = LFooter
              then stats\<lparr>st_recovered_furniture_lines := st_recovered_furniture_lines stats + line_count\<rparr> else stats)
        in (blocks @ [fallback_block page_number t g], stats\<lparr>st_fallback_blocks := st_fallback_blocks stats + 1\<rparr>))"

definition attach_to :: "page_text \<Rightarrow> double \<Rightarrow> line_group \<Rightarrow> layout_block \<Rightarrow> layout_block" where
  "attach_to page_text h g target =
     target\<lparr>lb_text_line_indices :=
              sortLineIndicesRowWise page_text (lb_text_line_indices target @ lg_line_indices g) h,
            lb_bbox := expandBBox (lb_bbox target) (lg_bbox g)\<rparr>"

text \<open>The state of the attaching loop: the blocks, the groups left over and the statistics.\<close>

type_synonym attach_state = "layout_block list \<times> line_group list \<times> recovery_stats"

definition attach_group ::
  "page_text \<Rightarrow> page_artifact \<Rightarrow> double \<Rightarrow> attach_state \<Rightarrow> line_group \<Rightarrow> attach_state" where
  "attach_group page_text page h acc g =
     (case acc of (blocks, unattached, stats) \<Rightarrow>
        case attachmentTarget page_text g blocks page h of
          None \<Rightarrow> (blocks, unattached @ [g], stats)
        | Some i \<Rightarrow>
            let attached_line_count = int (length (lg_line_indices g)) in
            (upd_at blocks i (attach_to page_text h g), unattached,
             stats\<lparr>st_recovered_lines := st_recovered_lines stats + attached_line_count,
                   st_attached_lines := st_attached_lines stats + attached_line_count,
                   st_attached_groups := st_attached_groups stats + 1\<rparr>))"

definition is_edge_body :: "page_artifact \<Rightarrow> line_group \<Rightarrow> bool" where
  "is_edge_body page g \<longleftrightarrow>
     (let center_y = (if pa_height page > 0
            then (by0 (lg_bbox g) + by1 (lg_bbox g)) * 0.5 / real_of_int (pa_height page) else 0.5)
      in center_y \<le> 0.15 \<or> center_y \<ge> 0.88)"

definition recovered_line_set :: "page_text \<Rightarrow> page_artifact \<Rightarrow> layout_block list \<Rightarrow> int list" where
  "recovered_line_set page_text page blocks =
     filter (\<lambda>i. i \<notin> detectRepeatedMarginalia page_text page (recoverable_lines page_text blocks)
         (medianTextLineHeight page_text)) (recoverable_lines page_text blocks)"

text \<open>The groups after merging, and the number of groups merged.\<close>

definition recovered_groups :: "page_text \<Rightarrow> page_artifact \<Rightarrow> layout_block list \<Rightarrow> line_group list \<times> int" where
  "recovered_groups page_text page blocks =
     (let h = medianTextLineHeight page_text in
      coalesceDenseGridGroups page_text page
        (groupFallbackLines page_text (recovered_line_set page_text page blocks) h) h)"

definition groups_of ::
  "page_text \<Rightarrow> page_artifact \<Rightarrow> layout_block list \<Rightarrow> (layout_type \<Rightarrow> bool) \<Rightarrow> line_group list" where
  "groups_of page_text page blocks wanted =
     filter (\<lambda>g. wanted (recoveredGroupType page_text page blocks g (medianTextLineHeight page_text)))
       (fst (recovered_groups page_text page blocks))"

definition body_groups_of :: "page_text \<Rightarrow> page_artifact \<Rightarrow> layout_block list \<Rightarrow> line_group list" where
  "body_groups_of page_text page blocks = groups_of page_text page blocks (\<lambda>t. t \<noteq> LHeader \<and> t \<noteq> LFooter)"

text \<open>The statistics before any group is placed.\<close>

definition initial_stats :: "page_text \<Rightarrow> page_artifact \<Rightarrow> layout_block list \<Rightarrow> recovery_stats" where
  "initial_stats page_text page blocks =
     \<lparr>st_recovered_lines = 0, st_recovered_furniture_lines = 0,
      st_preserved_edge_body_lines = (\<Sum>g\<leftarrow>filter (is_edge_body page) (body_groups_of page_text page blocks).
        int (length (lg_line_indices g))),
      st_attached_lines = 0, st_attached_groups = 0,
      st_coalesced_grid_groups = snd (recovered_groups page_text page blocks),
      st_skipped_marginalia_lines = int (card (detectRepeatedMarginalia page_text page
        (recoverable_lines page_text blocks) (medianTextLineHeight page_text))),
      st_fallback_blocks = 0,
      st_skipped_furniture_lines = int (length (skipped_furniture page_text blocks))\<rparr>"

text \<open>The three calls of \<open>append_groups\<close>.\<close>

definition append_all ::
  "int \<Rightarrow> attach_state \<Rightarrow> line_group list \<Rightarrow> line_group list \<Rightarrow> layout_block list \<times> recovery_stats" where
  "append_all n state headers footers =
     (case state of (blocks, unattached, stats) \<Rightarrow>
        foldl (append_group n LFooter)
          (foldl (append_group n LHeader)
            (foldl (append_group n LText) (blocks, stats) unattached) headers) footers)"

definition recoverUnassignedTextLines ::
  "page_text \<Rightarrow> page_artifact \<Rightarrow> page_layout \<Rightarrow> page_layout \<times> recovery_stats" where
  "recoverUnassignedTextLines page_text page layout =
     (let blocks = pl_blocks layout;
          placed = foldl (attach_group page_text page (medianTextLineHeight page_text))
            (blocks, [], initial_stats page_text page blocks) (body_groups_of page_text page blocks);
          appended = append_all (pl_page_number layout) placed
            (groups_of page_text page blocks (\<lambda>t. t = LHeader)) (groups_of page_text page blocks (\<lambda>t. t = LFooter))
      in (layout\<lparr>pl_blocks := fst (refineMultiColumnTextLineOrder page_text (fst appended))\<rparr>, snd appended))"

subsection \<open>The steps conserve lines\<close>

text \<open>What attaching lines to a block may change: its line list and its box.\<close>

definition same_block :: "layout_block \<Rightarrow> layout_block \<Rightarrow> bool" where
  "same_block b c \<longleftrightarrow> b\<lparr>lb_text_line_indices := [], lb_bbox := empty_bbox\<rparr> =
     c\<lparr>lb_text_line_indices := [], lb_bbox := empty_bbox\<rparr> \<and> bbox_le (lb_bbox b) (lb_bbox c)"

lemma same_block_refl [simp]: "same_block b b"
  by (simp add: same_block_def)

lemma same_block_trans: "same_block a b \<Longrightarrow> same_block b c \<Longrightarrow> same_block a c"
  unfolding same_block_def using bbox_le_trans by fastforce

lemma same_block_attach: "same_block b (attach_to page_text h g b)"
  by (simp add: same_block_def attach_to_def)

lemma same_block_id: "same_block b c \<Longrightarrow> lb_id c = lb_id b"
  unfolding same_block_def by (metis layout_block.ext_inject layout_block.surjective layout_block.update_convs(5,8))

lemma same_block_keeps: "same_block b c \<Longrightarrow> lb_type c = lb_type b \<and> bbox_le (lb_bbox b) (lb_bbox c)"
  unfolding same_block_def by (metis layout_block.ext_inject layout_block.surjective layout_block.update_convs(5,8))

lemma same_block_upd:
  "list_all2 same_block xs ys \<Longrightarrow> list_all2 same_block xs (upd_at ys i (attach_to page_text h g))"
  by (auto simp: list_all2_conv_all_nth upd_at_def nth_list_update intro: same_block_trans[OF _ same_block_attach])

definition attach_inv :: "layout_block list \<Rightarrow> line_group list \<Rightarrow> attach_state \<Rightarrow> bool" where
  "attach_inv start gs state \<longleftrightarrow> (case state of (blocks, unattached, stats) \<Rightarrow>
     list_all2 same_block start blocks \<and> set unattached \<subseteq> set gs \<and>
     line_indices_of start \<subseteq># line_indices_of blocks \<and>
     line_indices_of blocks + group_lines unattached = line_indices_of start + group_lines gs \<and>
     st_recovered_lines stats + int (size (group_lines unattached)) = int (size (group_lines gs)))"

lemma attach_group_inv:
  assumes "attach_inv start gs state"
  shows "attach_inv start (gs @ [g]) (attach_group page_text page h state g)"
proof -
  obtain blocks unattached stats where state: "state = (blocks, unattached, stats)" by (cases state)
  show ?thesis
  proof (cases "attachmentTarget page_text g blocks page h")
    case None
    with assms show ?thesis by (auto simp: attach_inv_def attach_group_def state)
  next
    case (Some i)
    then have "i < length blocks"
      by (auto simp: attachmentTarget_def Let_def split: if_splits dest!: best_of_mem)
    then have "line_indices_of (upd_at blocks i (attach_to page_text h g)) =
        line_indices_of blocks + mset (lg_line_indices g)"
      unfolding line_indices_of_def by (rule sum_list_mset_upd_at) (simp add: attach_to_def)
    with assms Some same_block_upd[of start blocks i page_text h g] show ?thesis
      by (auto simp: attach_inv_def attach_group_def state Let_def intro: subset_mset.trans)
  qed
qed

lemma attach_fold_inv:
  assumes "st_recovered_lines stats = 0"
  shows "attach_inv blocks gs (foldl (attach_group page_text page h) (blocks, [], stats) gs)"
proof (induction gs rule: rev_induct)
  case Nil
  then show ?case by (simp add: attach_inv_def list_all2_refl assms)
next
  case (snoc g gs)
  then show ?case using attach_group_inv by simp
qed

lemma append_group_step:
  "fst (append_group n t (blocks, stats) g) = blocks @ [fallback_block n t g]"
  "st_recovered_lines (snd (append_group n t (blocks, stats) g)) =
     st_recovered_lines stats + int (length (lg_line_indices g))"
  by (simp_all add: append_group_def Let_def)

lemma append_groups_fold:
  "fst (foldl (append_group n t) (blocks, stats) gs) = blocks @ map (fallback_block n t) gs \<and>
   st_recovered_lines (snd (foldl (append_group n t) (blocks, stats) gs)) =
     st_recovered_lines stats + int (size (group_lines gs))"
proof (induction gs rule: rev_induct)
  case (snoc g gs)
  obtain bs st where eq: "foldl (append_group n t) (blocks, stats) gs = (bs, st)" by fastforce
  with snoc have "bs = blocks @ map (fallback_block n t) gs"
    "st_recovered_lines st = st_recovered_lines stats + int (size (group_lines gs))" by simp_all
  then show ?case by (simp add: eq append_group_step)
qed simp

lemma line_indices_fallback: "line_indices_of (map (fallback_block n t) gs) = group_lines gs"
  by (induction gs) (simp_all add: fallback_block_def)

subsection \<open>The outcome of the whole function\<close>

lemma recovered_groups_spec:
  "list_all (group_wf page_text) (fst (recovered_groups page_text page blocks))"
  "group_lines (fst (recovered_groups page_text page blocks)) = mset (recovered_line_set page_text page blocks)"
  using coalesce_sound[OF groupFallbackLines_spec(1)]
  by (simp_all add: recovered_groups_def Let_def groupFallbackLines_spec)

lemma groups_of_parts:
  "group_lines (body_groups_of page_text page blocks) +
   group_lines (groups_of page_text page blocks (\<lambda>t. t = LHeader)) +
   group_lines (groups_of page_text page blocks (\<lambda>t. t = LFooter)) =
   mset (recovered_line_set page_text page blocks)"
proof -
  have "group_lines (filter (\<lambda>g. f g \<noteq> LHeader \<and> f g \<noteq> LFooter) gs) +
      group_lines (filter (\<lambda>g. f g = LHeader) gs) + group_lines (filter (\<lambda>g. f g = LFooter) gs) = group_lines gs"
    for gs and f :: "line_group \<Rightarrow> layout_type"
    by (induction gs) (auto simp: ac_simps)
  from this[of "\<lambda>g. recoveredGroupType page_text page blocks g (medianTextLineHeight page_text)"] show ?thesis
    by (simp add: body_groups_of_def groups_of_def recovered_groups_spec)
qed

lemma groups_of_wf: "g \<in> set (groups_of page_text page blocks wanted) \<Longrightarrow> group_wf page_text g"
  using recovered_groups_spec(1)[of page_text page blocks] by (auto simp: groups_of_def list_all_iff)

lemma append_all_result:
  "fst (append_all n (blocks, unattached, stats) headers footers) =
     blocks @ map (\<lambda>(t, g). fallback_block n t g)
       (map (Pair LText) unattached @ map (Pair LHeader) headers @ map (Pair LFooter) footers)"
  "st_recovered_lines (snd (append_all n (blocks, unattached, stats) headers footers)) =
     st_recovered_lines stats + int (size (group_lines unattached + group_lines headers + group_lines footers))"
proof -
  obtain b1 s1 where f1: "foldl (append_group n LText) (blocks, stats) unattached = (b1, s1)" by fastforce
  obtain b2 s2 where f2: "foldl (append_group n LHeader) (b1, s1) headers = (b2, s2)" by fastforce
  note folds = append_groups_fold[of n LText blocks stats unattached, unfolded f1]
    append_groups_fold[of n LHeader b1 s1 headers, unfolded f2]
    append_groups_fold[of n LFooter b2 s2 footers]
  have eq: "append_all n (blocks, unattached, stats) headers footers =
      foldl (append_group n LFooter) (b2, s2) footers"
    by (simp add: append_all_def f1 f2)
  show "fst (append_all n (blocks, unattached, stats) headers footers) =
     blocks @ map (\<lambda>(t, g). fallback_block n t g)
       (map (Pair LText) unattached @ map (Pair LHeader) headers @ map (Pair LFooter) footers)"
    unfolding eq using folds by (simp add: comp_def)
  show "st_recovered_lines (snd (append_all n (blocks, unattached, stats) headers footers)) =
     st_recovered_lines stats + int (size (group_lines unattached + group_lines headers + group_lines footers))"
    unfolding eq using folds by simp
qed

lemma recover_result:
  fixes layout :: page_layout
  assumes "recoverUnassignedTextLines page_text page layout = (result, stats)"
  obtains attached fresh where
    "list_all2 same_block (pl_blocks layout) attached"
    "line_indices_of attached + group_lines (map snd fresh) =
       line_indices_of (pl_blocks layout) + mset (recovered_line_set page_text page (pl_blocks layout))"
    "result = layout\<lparr>pl_blocks := map (refine_one page_text)
       (attached @ map (\<lambda>(t, g). fallback_block (pl_page_number layout) t g) fresh)\<rparr>"
    "st_recovered_lines stats = int (length (recovered_line_set page_text page (pl_blocks layout)))"
    "list_all (\<lambda>(t, g). group_wf page_text g) fresh"
    "line_indices_of (pl_blocks layout) \<subseteq># line_indices_of attached"
proof -
  let ?blocks = "pl_blocks layout"
  let ?rec = "recovered_line_set page_text page ?blocks"
  let ?body = "body_groups_of page_text page ?blocks"
  let ?headers = "groups_of page_text page ?blocks (\<lambda>t. t = LHeader)"
  let ?footers = "groups_of page_text page ?blocks (\<lambda>t. t = LFooter)"
  let ?n = "pl_page_number layout"
  obtain attached unattached stats1 where
    att: "foldl (attach_group page_text page (medianTextLineHeight page_text))
      (?blocks, [], initial_stats page_text page ?blocks) ?body = (attached, unattached, stats1)"
    by (metis surj_pair)
  have zero: "st_recovered_lines (initial_stats page_text page ?blocks) = 0" by (simp add: initial_stats_def)
  have inv: "list_all2 same_block ?blocks attached" "set unattached \<subseteq> set ?body"
    "line_indices_of ?blocks \<subseteq># line_indices_of attached"
    "line_indices_of attached + group_lines unattached = line_indices_of ?blocks + group_lines ?body"
    "st_recovered_lines stats1 + int (size (group_lines unattached)) = int (size (group_lines ?body))"
    using attach_fold_inv[OF zero, of ?blocks ?body page_text page "medianTextLineHeight page_text"]
    by (simp_all add: att attach_inv_def)
  let ?fresh = "map (Pair LText) unattached @ map (Pair LHeader) ?headers @ map (Pair LFooter) ?footers"
  let ?appended = "append_all ?n (attached, unattached, stats1) ?headers ?footers"
  have res: "result = layout\<lparr>pl_blocks := map (refine_one page_text) (fst ?appended)\<rparr>" "stats = snd ?appended"
    using assms by (simp_all add: recoverUnassignedTextLines_def Let_def att fst_refineMultiColumn)
  note parts = groups_of_parts[of page_text page ?blocks]
  show thesis
  proof (rule that)
    show "list_all2 same_block ?blocks attached" by (rule inv(1))
    have "map snd ?fresh = unattached @ ?headers @ ?footers" by (simp add: comp_def)
    then have "group_lines (map snd ?fresh) = group_lines unattached + group_lines ?headers + group_lines ?footers"
      by (simp add: ac_simps)
    then show "line_indices_of attached + group_lines (map snd ?fresh) = line_indices_of ?blocks + mset ?rec"
      using inv(4) by (simp add: parts[symmetric] ac_simps)
    show "result = layout\<lparr>pl_blocks := map (refine_one page_text)
       (attached @ map (\<lambda>(t, g). fallback_block ?n t g) ?fresh)\<rparr>"
      unfolding res(1) append_all_result ..
    show "st_recovered_lines stats = int (length ?rec)"
      using inv(5) arg_cong[OF parts, of size] by (simp add: res(2) append_all_result)
    show "list_all (\<lambda>(t, g). group_wf page_text g) ?fresh"
      using inv(2) groups_of_wf by (auto simp: list_all_iff body_groups_of_def)
    show "line_indices_of ?blocks \<subseteq># line_indices_of attached" by (rule inv(3))
  qed
qed

lemma line_indices_result:
  assumes "recoverUnassignedTextLines page_text page layout = (result, stats)"
  shows "line_indices_of (pl_blocks result) =
    line_indices_of (pl_blocks layout) + mset (recovered_line_set page_text page (pl_blocks layout))"
proof -
  obtain attached fresh where *: "line_indices_of attached + group_lines (map snd fresh) =
       line_indices_of (pl_blocks layout) + mset (recovered_line_set page_text page (pl_blocks layout))"
    "result = layout\<lparr>pl_blocks := map (refine_one page_text)
       (attached @ map (\<lambda>(t, g). fallback_block (pl_page_number layout) t g) fresh)\<rparr>"
    using recover_result[OF assms] by metis
  have "line_indices_of (map (\<lambda>(t, g). fallback_block n t g) fresh) = group_lines (map snd fresh)" for n
    by (induction fresh) (auto simp: fallback_block_def)
  with * show ?thesis by (simp add: line_indices_refine_one del: map_append)
qed

text \<open>Groups with no line in common have different least lines, hence different names.\<close>

lemma group_lines_min_distinct:
  assumes "\<And>i. count (group_lines gs) i \<le> 1" "list_all (\<lambda>g. lg_line_indices g \<noteq> []) gs"
  shows "distinct (map (\<lambda>g. Min (set (lg_line_indices g))) gs)"
  using assms
proof (induction gs)
  case (Cons g gs)
  have ne: "lg_line_indices g \<noteq> []" using Cons.prems(2) by simp
  have "Min (set (lg_line_indices g)) \<noteq> Min (set (lg_line_indices k))" if "k \<in> set gs" for k
  proof
    assume eq: "Min (set (lg_line_indices g)) = Min (set (lg_line_indices k))"
    let ?m = "Min (set (lg_line_indices g))"
    have "lg_line_indices k \<noteq> []" using Cons.prems(2) that by (simp add: list_all_iff)
    then have "?m \<in> set (lg_line_indices k)" unfolding eq by simp
    with that have "?m \<in># group_lines gs" by (induction gs) (auto simp: group_lines_def)
    moreover have "?m \<in># mset (lg_line_indices g)" using ne by simp
    ultimately have "1 \<le> count (group_lines gs) ?m" "1 \<le> count (mset (lg_line_indices g)) ?m"
      by (simp_all add: Suc_le_eq)
    then have "2 \<le> count (group_lines (g # gs)) ?m"
      unfolding group_lines_simps count_union by linarith
    with Cons.prems(1)[of ?m] show False by simp
  qed
  moreover have "distinct (map (\<lambda>g. Min (set (lg_line_indices g))) gs)"
  proof (rule Cons.IH)
    show "count (group_lines gs) i \<le> 1" for i using Cons.prems(1)[of i] by simp
    show "list_all (\<lambda>g. lg_line_indices g \<noteq> []) gs" using Cons.prems(2) by simp
  qed
  ultimately show ?case by auto
qed simp

lemma fallback_id_inj:
  "lb_id (fallback_block n t g) = lb_id (fallback_block n u h) \<Longrightarrow>
   Min (set (lg_line_indices g)) = Min (set (lg_line_indices h))"
  by (auto simp: fallback_block_def dest!: int_to_string_inj)

lemma distinct_recovered: "distinct (recovered_line_set page_text page blocks)"
  by (simp add: recovered_line_set_def recoverable_lines_def line_numbers_def distinct_map)

lemma count_distinct_le: "distinct xs \<Longrightarrow> count (mset xs) x \<le> 1"
  by (simp add: distinct_count_atmost_1)

lemma count_disjoint:
  assumes "distinct xs" "distinct ys" "i \<in> set ys \<Longrightarrow> i \<notin> set xs"
  shows "count (mset xs) i + count (mset ys) i = (if i \<in> set xs \<or> i \<in> set ys then 1 else 0)"
  using assms by (auto simp: distinct_count_atmost_1)

lemma recovered_unassigned:
  "i \<in> set (recovered_line_set page_text page blocks) \<Longrightarrow> i \<notin># line_indices_of blocks"
proof
  assume i: "i \<in> set (recovered_line_set page_text page blocks)" "i \<in># line_indices_of blocks"
  then have "i \<in> set (concat (map lb_text_line_indices blocks))"
    by (simp add: line_indices_of_def mset_concat_map[symmetric] flip: set_mset_mset)
  with i(1) show False
    by (auto simp: recovered_line_set_def recoverable_lines_def unassigned_line_def assigned_lines_def
        line_numbers_def in_range_def)
qed

lemma same_boxes_furniture:
  assumes "same_boxes xs ys"
  shows "overlapsFurniture box xs = overlapsFurniture box ys"
proof -
  have "map (\<lambda>b. (lb_type b, lb_bbox b)) xs = map (\<lambda>b. (lb_type b, lb_bbox b)) ys"
  proof (rule nth_equalityI)
    show "length (map (\<lambda>b. (lb_type b, lb_bbox b)) xs) = length (map (\<lambda>b. (lb_type b, lb_bbox b)) ys)"
      using same_boxesD(1)[OF assms] by simp
    fix i assume "i < length (map (\<lambda>b. (lb_type b, lb_bbox b)) xs)"
    then have i: "i < length xs" "i < length ys" using same_boxesD(1)[OF assms] by simp_all
    have "lb_type (xs ! i) = lb_type (ys ! i)"
      using arg_cong[OF same_boxesD(3)[OF assms i(1)], of lb_type] by simp
    with same_boxesD(2)[OF assms i(1)] i
    show "map (\<lambda>b. (lb_type b, lb_bbox b)) xs ! i = map (\<lambda>b. (lb_type b, lb_bbox b)) ys ! i" by simp
  qed
  from arg_cong[OF this, of "list_ex (\<lambda>(t, b). isFurniture t \<and>
      (overlapOverLine box b \<ge> 0.10 \<or> containsCenter b box))"] show ?thesis
    by (simp add: overlapsFurniture_def list_ex_iff)
qed

lemma fresh_distinct_ids:
  assumes "line_indices_of attached + group_lines (map snd fresh) = line_indices_of old + mset recovered"
    "line_indices_of old \<subseteq># line_indices_of attached" "distinct recovered"
    "list_all (\<lambda>(t, g). group_wf page_text g) fresh"
  shows "distinct (map (\<lambda>(t, g). lb_id (fallback_block n t g)) fresh)"
proof -
  have "count (group_lines (map snd fresh)) i \<le> 1" for i
  proof -
    have "count (line_indices_of attached) i + count (group_lines (map snd fresh)) i =
        count (line_indices_of old) i + count (mset recovered) i"
      using arg_cong[OF assms(1), of "\<lambda>m. count m i"] by simp
    moreover have "count (line_indices_of old) i \<le> count (line_indices_of attached) i"
      using assms(2) by (simp add: mset_subset_eq_count)
    ultimately show ?thesis using count_distinct_le[OF assms(3), of i] by linarith
  qed
  moreover have "list_all (\<lambda>g. lg_line_indices g \<noteq> []) (map snd fresh)"
    using assms(4) by (auto simp: list_all_iff group_wf_def)
  ultimately have mins: "distinct (map (\<lambda>g. Min (set (lg_line_indices g))) (map snd fresh))"
    by (rule group_lines_min_distinct)
  have "distinct (map (\<lambda>(t, g). lb_id (fallback_block n t g)) fs)"
    if "distinct (map (\<lambda>g. Min (set (lg_line_indices g))) (map snd fs))" for fs
    using that by (induction fs) (force dest: fallback_id_inj)+
  from this[OF mins] show ?thesis .
qed

lemma assignTextLines_lines:
  assumes "list_all (\<lambda>b. bboxArea (lb_bbox b) < dbl_max) blocks" "line_indices_of blocks = {#}"
  obtains covered where "same_boxes (assignTextLines page_text blocks) blocks"
    "line_indices_of (assignTextLines page_text blocks) = mset covered" "distinct covered"
proof
  note fold = assignTextLines_fold[OF assms(1), of page_text "[0..<length (pt_lines page_text)]"]
  show "same_boxes (assignTextLines page_text blocks) blocks"
    unfolding assignTextLines_def using fold by (rule conjunct1)
  show "line_indices_of (assignTextLines page_text blocks) = mset (map int
      (filter (\<lambda>i. \<exists>b\<in>set blocks. covers_line (line_bbox (pt_lines page_text ! i)) b)
        [0..<length (pt_lines page_text)]))"
    unfolding assignTextLines_def conjunct2[OF fold] assms(2) by (simp only: add_0)
  show "distinct (map int (filter (\<lambda>i. \<exists>b\<in>set blocks. covers_line (line_bbox (pt_lines page_text ! i)) b)
      [0..<length (pt_lines page_text)]))"
    by (simp add: distinct_map)
qed

section \<open>Properties\<close>

text \<open>
  recovery conserves lines. Afterwards the page's blocks hold exactly the lines they held
  before plus every recoverable line once, whether the line joined a block, became furniture or
  became part of a merged grid, and \<open>stats.recovered_lines\<close> is the number of lines added.
\<close>

lemma recover_conserves_lines:
  "line_indices_of (pl_blocks (fst (recoverUnassignedTextLines page_text page layout))) =
     line_indices_of (pl_blocks layout) + mset (recovered_line_set page_text page (pl_blocks layout)) \<and>
   st_recovered_lines (snd (recoverUnassignedTextLines page_text page layout)) =
     int (length (recovered_line_set page_text page (pl_blocks layout)))"
  using line_indices_result[OF prod.collapse[symmetric]] recover_result[OF prod.collapse[symmetric]]
  by metis

text \<open>
  recovery keeps the blocks it was given. They stay in place, in order, with their identifiers
  and types, and their boxes only grow; the blocks it adds follow them and have identifiers that
  differ from each other.
\<close>

lemma recover_keeps_blocks:
  "\<exists>fresh.
     map lb_id (pl_blocks (fst (recoverUnassignedTextLines page_text page layout))) =
       map lb_id (pl_blocks layout) @ fresh \<and>
     distinct fresh \<and>
     list_all2 (\<lambda>b c. lb_type c = lb_type b \<and> bbox_le (lb_bbox b) (lb_bbox c)) (pl_blocks layout)
       (take (length (pl_blocks layout)) (pl_blocks (fst (recoverUnassignedTextLines page_text page layout))))"
proof -
  obtain attached fresh where same: "list_all2 same_block (pl_blocks layout) attached"
    and lines: "line_indices_of attached + group_lines (map snd fresh) =
      line_indices_of (pl_blocks layout) + mset (recovered_line_set page_text page (pl_blocks layout))"
    and result: "fst (recoverUnassignedTextLines page_text page layout) = layout\<lparr>pl_blocks := map (refine_one page_text)
       (attached @ map (\<lambda>(t, g). fallback_block (pl_page_number layout) t g) fresh)\<rparr>"
    and wf: "list_all (\<lambda>(t, g). group_wf page_text g) fresh"
    and sub: "line_indices_of (pl_blocks layout) \<subseteq># line_indices_of attached"
    using recover_result[OF prod.collapse[symmetric]] by metis
  let ?ids = "map (\<lambda>(t, g). lb_id (fallback_block (pl_page_number layout) t g)) fresh"
  have id: "lb_id (refine_one page_text b) = lb_id b" "lb_type (refine_one page_text b) = lb_type b"
    "lb_bbox (refine_one page_text b) = lb_bbox b" for b
    by (auto simp: refine_one_def split: option.split)
  have attached_ids: "map lb_id attached = map lb_id (pl_blocks layout)"
    using same same_block_id by (auto simp: list_all2_conv_all_nth intro!: nth_equalityI)
  show ?thesis
  proof (intro exI[of _ ?ids] conjI)
    show "map lb_id (pl_blocks (fst (recoverUnassignedTextLines page_text page layout))) =
        map lb_id (pl_blocks layout) @ ?ids"
      by (simp add: result id attached_ids[symmetric] comp_def case_prod_beta)
    show "distinct ?ids" by (rule fresh_distinct_ids[OF lines sub distinct_recovered wf])
    show "list_all2 (\<lambda>b c. lb_type c = lb_type b \<and> bbox_le (lb_bbox b) (lb_bbox c)) (pl_blocks layout)
       (take (length (pl_blocks layout)) (pl_blocks (fst (recoverUnassignedTextLines page_text page layout))))"
      using same by (auto simp: result list_all2_conv_all_nth id dest!: same_block_keeps)
  qed
qed

text \<open>
  C17: layout postprocessing puts every readable line in exactly one block. After
  \<open>assignTextLines\<close> on blocks without lines and \<open>recoverUnassignedTextLines\<close>, no line is
  in two blocks, and a line with visible text and a valid box is in one, unless it overlaps a
  header or footer or is a bare number, which may be marginalia.
\<close>

theorem assign_then_recover_places_lines:
  assumes "list_all (\<lambda>b. bboxArea (lb_bbox b) < dbl_max \<and> lb_text_line_indices b = []) blocks"
    and "pl_blocks layout = assignTextLines page_text blocks" and "i < length (pt_lines page_text)"
  shows "count (line_indices_of (pl_blocks (fst (recoverUnassignedTextLines page_text page layout)))) (int i) \<le> 1 \<and>
    (hasVisibleText (line_text (pt_lines page_text ! i)) \<and> validBBox (line_bbox (pt_lines page_text ! i)) \<and>
     \<not> overlapsFurniture (line_bbox (pt_lines page_text ! i)) blocks \<and>
     parseDecimalMarker (line_text (pt_lines page_text ! i)) = None \<longrightarrow>
     count (line_indices_of (pl_blocks (fst (recoverUnassignedTextLines page_text page layout)))) (int i) = 1)"
proof -
  let ?bs = "assignTextLines page_text blocks"
  let ?rec = "recovered_line_set page_text page ?bs"
  have areas: "list_all (\<lambda>b. bboxArea (lb_bbox b) < dbl_max) blocks" using assms(1) by (simp add: list_all_iff)
  have "list_all (\<lambda>b. lb_text_line_indices b = []) bs \<Longrightarrow> line_indices_of bs = {#}" for bs
    by (induction bs) simp_all
  then have "line_indices_of blocks = {#}" using assms(1) by (simp add: list_all_iff)
  then obtain covered where same: "same_boxes ?bs blocks" and lines: "line_indices_of ?bs = mset covered"
    and dist: "distinct covered"
    using assignTextLines_lines[OF areas] by metis
  have "int i \<in> set ?rec \<Longrightarrow> int i \<notin> set covered"
    using recovered_unassigned[of "int i" page_text page ?bs] unfolding lines set_mset_mset .
  from count_disjoint[OF dist distinct_recovered this]
  have total: "count (line_indices_of (pl_blocks (fst (recoverUnassignedTextLines page_text page layout)))) (int i) =
      (if int i \<in> set covered \<or> int i \<in> set ?rec then 1 else 0)"
    using line_indices_result[OF prod.collapse[symmetric], of page_text page layout] lines assms(2) by simp
  have "int i \<in> set covered \<or> int i \<in> set ?rec"
    if "hasVisibleText (line_text (pt_lines page_text ! i))" "validBBox (line_bbox (pt_lines page_text ! i))"
      "\<not> overlapsFurniture (line_bbox (pt_lines page_text ! i)) blocks"
      "parseDecimalMarker (line_text (pt_lines page_text ! i)) = None"
  proof (cases "int i \<in> assigned_lines page_text ?bs")
    case True
    then have "int i \<in># line_indices_of ?bs"
      by (auto simp: assigned_lines_def line_indices_of_def mset_concat_map[symmetric])
    then show ?thesis unfolding lines set_mset_mset ..
  next
    case False
    with that assms(3) have "int i \<in> set (recoverable_lines page_text ?bs)"
      by (simp add: recoverable_lines_def unassigned_line_def line_numbers_def line_at_def line_box_def
          same_boxes_furniture[OF same])
    moreover have "int i \<notin> detectRepeatedMarginalia page_text page (recoverable_lines page_text ?bs)
        (medianTextLineHeight page_text)"
      using detectRepeatedMarginalia_subset that(4) by (fastforce simp: line_at_def)
    ultimately show ?thesis by (simp add: recovered_line_set_def)
  qed
  then show ?thesis unfolding total by simp
qed

definition two_line_page :: page_text where
  "two_line_page = empty_page_text\<lparr>pt_lines := [column_text 0 0, column_text 500 500]\<rparr>"

definition one_block_layout :: page_layout where
  "one_block_layout = \<lparr>pl_page_index = 0, pl_page_number = 1,
     pl_blocks = assignTextLines two_line_page [wide_block]\<rparr>"

theorem assign_then_recover_places_lines_witness:
  "count (line_indices_of (pl_blocks (fst (recoverUnassignedTextLines two_line_page grid_page one_block_layout)))) 1 = 1"
proof -
  have blocks: "list_all (\<lambda>b. bboxArea (lb_bbox b) < dbl_max \<and> lb_text_line_indices b = []) [wide_block]"
    using dbl_max_big by (simp add: wide_block_def bboxArea_def default_layout_block_def)
  have line: "pt_lines two_line_page ! Suc 0 = column_text 500 500" "length (pt_lines two_line_page) = 2"
    by (simp_all add: two_line_page_def)
  have "validBBox (line_bbox (column_text 500 500))"
    by (simp add: column_text_def validBBox_def isfinite_small)
  moreover have "hasVisibleText (line_text (column_text 500 500))" "parseDecimalMarker (line_text (column_text 500 500)) = None"
    by (simp_all add: column_text_def, code_simp+)
  moreover have "\<not> overlapsFurniture (line_bbox (column_text 500 500)) [wide_block]"
    by (simp add: overlapsFurniture_def wide_block_def isFurniture_def default_layout_block_def)
  ultimately show ?thesis
    using assign_then_recover_places_lines[OF blocks, of one_block_layout two_line_page 1 grid_page]
    by (simp add: line one_block_layout_def)
qed

end
