(* ===== verification/Table_Text.thy ===== *)
theory Table_Text
  imports Common
begin

text \<open>
  Filling table cells with text: \<open>cpp/table/table_text_assignment.cpp\<close> (tokens to the cells
  of a detected grid) and \<open>cpp/table/text_table_structure_backend.cpp\<close> (a grid made from the
  spans of text lines). The code's vector of cell pointers is the position in the row-major
  list of the table's cells.
\<close>

subsection \<open>Tokens\<close>

record table_token =
  tok_text :: string
  tok_bbox :: bbox
  tok_confidence :: double

definition line_tokens :: "text_line \<Rightarrow> table_token list" where
  "line_tokens line =
     (if line_spans line = []
      then if line_text line \<noteq> []
        then [\<lparr>tok_text = line_text line, tok_bbox = line_bbox line, tok_confidence = line_confidence line\<rparr>] else []
      else map (\<lambda>s. \<lparr>tok_text = span_text s, tok_bbox = span_bbox s, tok_confidence = span_confidence s\<rparr>)
        (filter (\<lambda>s. span_text s \<noteq> []) (line_spans line)))"

definition collectTableTextTokens :: "page_text \<Rightarrow> table_token list" where
  "collectTableTextTokens page_text = concat (map line_tokens (pt_lines page_text))"

subsection \<open>The cell of a token\<close>

definition midX :: "bbox \<Rightarrow> double" where
  "midX b = bx0 b * 0.5 + bx1 b * 0.5"

definition midY :: "bbox \<Rightarrow> double" where
  "midY b = by0 b * 0.5 + by1 b * 0.5"

definition centerInside :: "bbox \<Rightarrow> bbox \<Rightarrow> bool" where
  "centerInside outer inner \<longleftrightarrow>
     midX inner \<ge> bx0 outer \<and> midX inner \<le> bx1 outer \<and> midY inner \<ge> by0 outer \<and> midY inner \<le> by1 outer"

definition centerDistance :: "bbox \<Rightarrow> bbox \<Rightarrow> double" where
  "centerDistance cell token =
     (let x = (midX token - midX cell) / (bx1 cell - bx0 cell);
          y = (midY token - midY cell) / (by1 cell - by0 cell)
      in x * x + y * y)"

type_synonym cell_rank = "double \<times> double \<times> int \<times> int"

definition rank_of :: "table_token \<Rightarrow> table_cell \<Rightarrow> cell_rank" where
  "rank_of token cell = (- overlapArea (cell_bbox cell) (tok_bbox token),
     centerDistance (cell_bbox cell) (tok_bbox token), cell_row_index cell, cell_column_index cell)"

definition holds_token :: "table_token \<Rightarrow> table_cell \<Rightarrow> bool" where
  "holds_token token cell \<longleftrightarrow> validBBox (cell_bbox cell) \<and> centerInside (cell_bbox cell) (tok_bbox token)"

text \<open>The inner loop's state: \<open>best\<close> (with \<open>best_rank\<close>) and \<open>candidates\<close>.\<close>

definition rank_step ::
  "table_token \<Rightarrow> table_cell list \<Rightarrow> (nat \<times> cell_rank) option \<times> nat \<Rightarrow> nat \<Rightarrow> (nat \<times> cell_rank) option \<times> nat" where
  "rank_step token cells acc index =
     (case acc of (best, candidates) \<Rightarrow>
        if \<not> holds_token token (cells ! index) then acc
        else
          let rank = rank_of token (cells ! index) in
          (case best of
             None \<Rightarrow> Some (index, rank)
           | Some (k, best_rank) \<Rightarrow> if rank < best_rank then Some (index, rank) else best, candidates + 1))"

definition find_cell :: "table_token \<Rightarrow> table_cell list \<Rightarrow> (nat \<times> cell_rank) option \<times> nat" where
  "find_cell token cells = foldl (rank_step token cells) (None, 0) [0..<length cells]"

subsection \<open>\<open>assignTableText\<close>\<close>

record assignment_stats =
  as_assigned_tokens :: nat
  as_ambiguous_tokens :: nat
  as_unassigned_tokens :: nat

definition usable_token :: "table_token \<Rightarrow> bool" where
  "usable_token token \<longleftrightarrow> \<not> (tok_text token = [] \<or> \<not> validBBox (tok_bbox token))"

definition assign_token ::
  "table \<Rightarrow> table_cell list \<Rightarrow> table_token list list \<times> assignment_stats \<Rightarrow> table_token \<Rightarrow>
   table_token list list \<times> assignment_stats" where
  "assign_token tb cells acc token =
     (case acc of (matches, stats) \<Rightarrow>
        if \<not> usable_token token then acc
        else case find_cell token cells of
            (Some (best, _), candidates) \<Rightarrow>
              (upd_at matches best (\<lambda>ms. ms @ [token]),
               stats\<lparr>as_assigned_tokens := as_assigned_tokens stats + 1,
                     as_ambiguous_tokens := as_ambiguous_tokens stats + (if candidates > 1 then 1 else 0)\<rparr>)
          | (None, _) \<Rightarrow>
              if validBBox (tb_bbox tb) \<and> centerInside (tb_bbox tb) (tok_bbox token)
              then (matches, stats\<lparr>as_unassigned_tokens := as_unassigned_tokens stats + 1\<rparr>) else acc)"

definition tokenYLess :: "table_token \<Rightarrow> table_token \<Rightarrow> bool" where
  "tokenYLess lhs rhs \<longleftrightarrow> midY (tok_bbox lhs) < midY (tok_bbox rhs)"

definition tokenXLess :: "table_token \<Rightarrow> table_token \<Rightarrow> bool" where
  "tokenXLess lhs rhs \<longleftrightarrow> bx0 (tok_bbox lhs) < bx0 (tok_bbox rhs)"

interpretation tokenYLess: keyed_order tokenYLess "\<lambda>t. midY (tok_bbox t)"
  by unfold_locales (simp add: tokenYLess_def)

interpretation tokenXLess: keyed_order tokenXLess "\<lambda>t. bx0 (tok_bbox t)"
  by unfold_locales (simp add: tokenXLess_def)

definition same_baseline :: "table_token \<Rightarrow> table_token \<Rightarrow> bool" where
  "same_baseline first_token token \<longleftrightarrow> midY (tok_bbox token) - midY (tok_bbox first_token) \<le> 3"

definition reading_sort :: "table_token list \<Rightarrow> table_token list" where
  "reading_sort matches = sort_runs same_baseline tokenXLess (sort_by tokenYLess matches)"

definition join_tokens :: "table_token list \<Rightarrow> string" where
  "join_tokens matches =
     foldl (\<lambda>str t. (if str \<noteq> [] then str @ '' '' else str) @ tok_text t) [] matches"

definition fillCell :: "table_cell \<Rightarrow> table_token list \<Rightarrow> table_cell" where
  "fillCell cell unsorted =
     (let matches = reading_sort unsorted;
          confidence = (\<Sum>t\<leftarrow>matches. tok_confidence t);
          filled = cell\<lparr>cell_text := join_tokens matches\<rparr>
      in if matches \<noteq> []
         then filled\<lparr>cell_confidence := min (cell_confidence cell) (confidence / real (length matches))\<rparr>
         else filled)"

fun fill_rows :: "table_row list \<Rightarrow> table_token list list \<Rightarrow> table_row list" where
  "fill_rows [] matches = []"
| "fill_rows (r # rs) matches =
     r\<lparr>row_cells := map (\<lambda>(c, m). fillCell c m) (zip (row_cells r) (take (length (row_cells r)) matches))\<rparr> #
     fill_rows rs (drop (length (row_cells r)) matches)"

definition table_cells :: "table \<Rightarrow> table_cell list" where
  "table_cells tb = concat (map row_cells (tb_rows tb))"

definition match_tokens :: "table \<Rightarrow> table_token list \<Rightarrow> table_token list list \<times> assignment_stats" where
  "match_tokens tb tokens =
     foldl (assign_token tb (table_cells tb))
       (replicate (length (table_cells tb)) [],
        \<lparr>as_assigned_tokens = 0, as_ambiguous_tokens = 0, as_unassigned_tokens = 0\<rparr>) tokens"

definition assignTableText :: "table \<Rightarrow> table_token list \<Rightarrow> table \<times> assignment_stats" where
  "assignTableText tb tokens =
     (case match_tokens tb tokens of
        (matches, stats) \<Rightarrow> (tb\<lparr>tb_rows := fill_rows (tb_rows tb) matches\<rparr>, stats))"

subsection \<open>The text backend\<close>

definition isDotLeader :: "string \<Rightarrow> bool" where
  "isDotLeader str =
     (let value = trim str in
      if length value < 3 then False
      else real (length (filter (\<lambda>c. c \<in> set ''._- '') value)) / real (length value) \<ge> 0.75)"

definition tableId :: "int \<Rightarrow> nat \<Rightarrow> string" where
  "tableId page_number table_index =
     ''page_'' @ int_to_string page_number @ ''_table_'' @ nat_to_string (table_index + 1)"

definition append_span_text :: "string \<Rightarrow> text_span \<Rightarrow> string" where
  "append_span_text str s =
     (let value = trim (span_text s) in
      if value = [] then str else (if str \<noteq> [] then str @ '' '' else str) @ value)"

definition joinCellText :: "text_span list \<Rightarrow> string" where
  "joinCellText spans = foldl append_span_text [] spans"

definition makeCell :: "text_span list \<Rightarrow> int \<Rightarrow> int \<Rightarrow> table_cell" where
  "makeCell spans row column =
     (let cell = default_cell\<lparr>cell_row_index := row, cell_column_index := column,
            cell_text := joinCellText spans, cell_confidence := 0\<rparr>
      in if spans = [] then cell
         else cell\<lparr>cell_bbox := foldl (\<lambda>b s. expandBBox b (span_bbox s)) (span_bbox (hd spans)) spans,
                   cell_confidence := (\<Sum>s\<leftarrow>spans. span_confidence s) / real (length spans)\<rparr>)"

definition spanXLess :: "text_span \<Rightarrow> text_span \<Rightarrow> bool" where
  "spanXLess lhs rhs \<longleftrightarrow> bx0 (span_bbox lhs) < bx0 (span_bbox rhs)"

interpretation spanXLess: keyed_order spanXLess "\<lambda>s. bx0 (span_bbox s)"
  by unfold_locales (simp add: spanXLess_def)

text \<open>The state: the cells' span groups that are finished, and the group that is open.\<close>

definition split_span ::
  "double \<Rightarrow> text_span list list \<times> text_span list \<Rightarrow> text_span \<Rightarrow> text_span list list \<times> text_span list" where
  "split_span gap_threshold acc s =
     (case acc of (cells, current) \<Rightarrow>
        if current \<noteq> [] \<and> bx0 (span_bbox s) - bx1 (span_bbox (last current)) > gap_threshold
        then (cells @ [current], [s]) else (cells, current @ [s]))"

definition span_groups :: "double \<Rightarrow> text_span list \<Rightarrow> text_span list list" where
  "span_groups gap_threshold spans =
     (case foldl (split_span gap_threshold) ([], []) spans of
        (cells, current) \<Rightarrow> if current \<noteq> [] then cells @ [current] else cells)"

definition cell_spans :: "text_line \<Rightarrow> text_span list" where
  "cell_spans line =
     sort_by spanXLess (filter (\<lambda>s. trim (span_text s) \<noteq> [] \<and> \<not> isDotLeader (span_text s)) (line_spans line))"

definition cellsFromLine :: "text_line \<Rightarrow> int \<Rightarrow> table_cell list" where
  "cellsFromLine line row =
     (let spans = cell_spans line in
      if spans = []
      then [default_cell\<lparr>cell_row_index := row, cell_column_index := 0, cell_text := trim (line_text line),
              cell_bbox := line_bbox line, cell_confidence := line_confidence line\<rparr>]
      else
        let groups = span_groups (max 24 (bboxHeight (line_bbox line) * 2)) spans
        in map (\<lambda>(k, g). makeCell g row (int k)) (enumerate 0 groups))"

definition hasUsableTableShape :: "table \<Rightarrow> bool" where
  "hasUsableTableShape tb =
     (if tb_rows tb = [] then False
      else if length (tb_rows tb) \<ge> 2 then True
      else row_cells (hd (tb_rows tb)) \<noteq> [])"

definition append_row :: "page_text \<Rightarrow> table_row list \<Rightarrow> int \<Rightarrow> table_row list" where
  "append_row page_text rows line_index =
     (if \<not> in_range line_index (pt_lines page_text) then rows
      else
        let row = int (length rows); cells = cellsFromLine (pt_lines page_text ! nat line_index) row
        in if cells \<noteq> [] then rows @ [default_row\<lparr>row_index := row, row_cells := cells\<rparr>] else rows)"

definition text_table :: "page_artifact \<Rightarrow> page_text \<Rightarrow> nat \<Rightarrow> layout_block \<Rightarrow> table" where
  "text_table page page_text table_index b =
     default_table\<lparr>tb_id := tableId (pa_page_number page) table_index, tb_layout_block_id := lb_id b,
       tb_page_index := pa_page_index page, tb_page_number := pa_page_number page,
       tb_bbox := lb_bbox b, tb_confidence := lb_confidence b,
       tb_rows := foldl (append_row page_text) [] (lb_text_line_indices b)\<rparr>"

definition add_text_table :: "page_artifact \<Rightarrow> page_text \<Rightarrow> table list \<Rightarrow> layout_block \<Rightarrow> table list" where
  "add_text_table page page_text tables b =
     (if lb_type b \<noteq> LTable then tables
      else
        let tb = text_table page page_text (length tables) b
        in if hasUsableTableShape tb then tables @ [tb] else tables)"

definition text_table_recognize :: "page_artifact \<Rightarrow> page_text \<Rightarrow> page_layout \<Rightarrow> page_tables" where
  "text_table_recognize page page_text layout =
     \<lparr>pg_page_index = pa_page_index page, pg_page_number = pa_page_number page,
      pg_tables = foldl (add_text_table page page_text) [] (pl_blocks layout)\<rparr>"

subsection \<open>Each token goes to its best cell\<close>

definition rank_inv :: "table_token \<Rightarrow> table_cell list \<Rightarrow> nat \<Rightarrow> (nat \<times> cell_rank) option \<times> nat \<Rightarrow> bool" where
  "rank_inv token cells n acc \<longleftrightarrow>
     snd acc = length (filter (\<lambda>i. holds_token token (cells ! i)) [0..<n]) \<and>
     (case fst acc of
        None \<Rightarrow> \<forall>i<n. \<not> holds_token token (cells ! i)
      | Some (k, r) \<Rightarrow> k < n \<and> holds_token token (cells ! k) \<and> r = rank_of token (cells ! k) \<and>
          (\<forall>i<n. holds_token token (cells ! i) \<longrightarrow> r \<le> rank_of token (cells ! i)))"

lemma rank_step_inv:
  assumes "rank_inv token cells n acc"
  shows "rank_inv token cells (Suc n) (rank_step token cells acc n)"
proof (cases "holds_token token (cells ! n)")
  case False
  with assms show ?thesis
    by (auto simp: rank_inv_def rank_step_def less_Suc_eq split: prod.splits option.splits)
next
  case True
  obtain best candidates where acc: "acc = (best, candidates)" by (cases acc)
  show ?thesis
  proof (cases best)
    case None
    with assms True show ?thesis by (auto simp: rank_inv_def rank_step_def less_Suc_eq acc Let_def)
  next
    case (Some b)
    obtain k r where b: "b = (k, r)" by (cases b)
    show ?thesis
    proof (cases "rank_of token (cells ! n) < r")
      case less: True
      have "rank_of token (cells ! n) \<le> rank_of token (cells ! i)" if "i < n" "holds_token token (cells ! i)" for i
        using assms that less by (force simp: rank_inv_def acc Some b)
      with assms True less show ?thesis
        by (auto simp: rank_inv_def rank_step_def less_Suc_eq acc Some b Let_def)
    next
      case ge: False
      with assms True show ?thesis
        by (auto simp: rank_inv_def rank_step_def less_Suc_eq acc Some b Let_def not_less)
    qed
  qed
qed

lemma find_cell_inv: "rank_inv token cells (length cells) (find_cell token cells)"
proof -
  have "rank_inv token cells n (foldl (rank_step token cells) (None, 0) [0..<n])" for n
  proof (induction n)
    case (Suc n)
    then show ?case using rank_step_inv by simp
  qed (simp add: rank_inv_def)
  then show ?thesis by (simp add: find_cell_def)
qed

lemma find_cell_Some:
  assumes "find_cell token cells = (Some (k, r), candidates)"
  shows "k < length cells" "holds_token token (cells ! k)"
    "c \<in> set cells \<Longrightarrow> holds_token token c \<Longrightarrow> rank_of token (cells ! k) \<le> rank_of token c"
  using find_cell_inv[of token cells] assms by (auto simp: rank_inv_def in_set_conv_nth)

lemma find_cell_None:
  "fst (find_cell token cells) = None \<longleftrightarrow> \<not> list_ex (holds_token token) cells"
  using find_cell_inv[of token cells]
  by (auto simp: rank_inv_def list_ex_length split: option.splits)

lemma rank_overlap:
  "rank_of token c \<le> rank_of token d \<Longrightarrow>
   overlapArea (cell_bbox d) (tok_bbox token) \<le> overlapArea (cell_bbox c) (tok_bbox token)"
  by (auto simp: rank_of_def less_eq_prod_def)

text \<open>\<open>best_cell_of cells t k\<close>: the token's centre is in cell \<open>k\<close> and no cell that holds it overlaps it more.\<close>

definition best_cell_of :: "table_cell list \<Rightarrow> table_token \<Rightarrow> nat \<Rightarrow> bool" where
  "best_cell_of cells token k \<longleftrightarrow> holds_token token (cells ! k) \<and>
     list_all (\<lambda>c. holds_token token c \<longrightarrow>
       overlapArea (cell_bbox c) (tok_bbox token) \<le> overlapArea (cell_bbox (cells ! k)) (tok_bbox token)) cells"

definition placeable :: "table_cell list \<Rightarrow> table_token \<Rightarrow> bool" where
  "placeable cells token \<longleftrightarrow> usable_token token \<and> list_ex (holds_token token) cells"

definition match_inv ::
  "table_cell list \<Rightarrow> table_token list \<Rightarrow> table_token list list \<times> assignment_stats \<Rightarrow> bool" where
  "match_inv cells tokens acc \<longleftrightarrow>
     length (fst acc) = length cells \<and>
     mset (concat (fst acc)) = mset (filter (placeable cells) tokens) \<and>
     (\<forall>k<length cells. \<forall>t\<in>set (fst acc ! k). best_cell_of cells t k) \<and>
     as_assigned_tokens (snd acc) = length (filter (placeable cells) tokens) \<and>
     as_ambiguous_tokens (snd acc) \<le> as_assigned_tokens (snd acc) \<and>
     as_assigned_tokens (snd acc) + as_unassigned_tokens (snd acc) \<le> length tokens"

lemma mset_concat_upd_at:
  "k < length ms \<Longrightarrow> mset (concat (upd_at ms k (\<lambda>m. m @ [t]))) = add_mset t (mset (concat ms))"
  using sum_list_mset_upd_at[of k ms "\<lambda>m. m" "\<lambda>m. m @ [t]" "{#t#}"]
  by (simp add: mset_concat_map[where f = "\<lambda>m. m", simplified])

lemma assign_token_inv:
  assumes "match_inv (table_cells tb) tokens acc"
  shows "match_inv (table_cells tb) (tokens @ [t]) (assign_token tb (table_cells tb) acc t)"
proof -
  let ?cells = "table_cells tb"
  obtain matches stats where acc: "acc = (matches, stats)" by (cases acc)
  obtain found candidates where find: "find_cell t ?cells = (found, candidates)" by fastforce
  show ?thesis
  proof (cases "usable_token t")
    case False
    with assms show ?thesis by (auto simp: match_inv_def assign_token_def acc placeable_def)
  next
    case usable: True
    show ?thesis
    proof (cases found)
      case None
      then have "\<not> placeable ?cells t" using find_cell_None[of t ?cells] by (simp add: find placeable_def)
      with assms usable None show ?thesis by (auto simp: match_inv_def assign_token_def acc find)
    next
      case (Some kr)
      obtain k r where kr: "kr = (k, r)" by (cases kr)
      note best = find_cell_Some[OF find[unfolded Some kr]]
      have "placeable ?cells t" using usable find_cell_None[of t ?cells] by (simp add: find Some placeable_def)
      moreover have "best_cell_of ?cells t k"
        using best by (auto simp: best_cell_of_def list_all_iff intro: rank_overlap)
      moreover have "k < length matches" using assms best(1) by (simp add: match_inv_def acc)
      ultimately show ?thesis using assms usable best(1)
        by (auto simp: match_inv_def assign_token_def acc find Some kr mset_concat_upd_at nth_upd_at
            simp del: mset_concat)
    qed
  qed
qed

lemma match_tokens_inv: "match_inv (table_cells tb) tokens (match_tokens tb tokens)"
proof (induction tokens rule: rev_induct)
  case Nil
  have "concat (replicate n []) = ([] :: table_token list)" for n by (induction n) simp_all
  then show ?case by (simp add: match_inv_def match_tokens_def)
next
  case (snoc t tokens)
  then show ?case using assign_token_inv by (simp add: match_tokens_def)
qed

lemma fill_rows_cells:
  "length ms = length (concat (map row_cells rows)) \<Longrightarrow>
   concat (map row_cells (fill_rows rows ms)) = map (\<lambda>(c, m). fillCell c m) (zip (concat (map row_cells rows)) ms)"
proof (induction rows arbitrary: ms)
  case (Cons r rows)
  let ?n = "length (row_cells r)"
  have "zip (row_cells r @ concat (map row_cells rows)) (take ?n ms @ drop ?n ms) =
      zip (row_cells r) (take ?n ms) @ zip (concat (map row_cells rows)) (drop ?n ms)"
    using Cons.prems by (intro zip_append) simp
  with Cons show ?case by simp
qed simp

lemma mset_reading_sort [simp]: "mset (reading_sort ts) = mset ts"
  by (simp add: reading_sort_def)

section \<open>Properties\<close>

text \<open>
  token assignment loses no token and repeats none. There is a division of the tokens over the
  table's cells in which every usable token whose centre lies in some cell occurs once, in a cell
  that contains its centre and that no other such cell overlaps more; each cell's text is its own
  tokens' text, and the statistics count exactly the tokens placed.
\<close>

lemma assignTableText_sound:
  "\<exists>matches.
     mset (concat matches) = mset (filter (placeable (table_cells tb)) tokens) \<and>
     length matches = length (table_cells tb) \<and>
     table_cells (fst (assignTableText tb tokens)) =
       map (\<lambda>(c, m). fillCell c m) (zip (table_cells tb) matches) \<and>
     (\<forall>k<length matches. \<forall>t\<in>set (matches ! k). best_cell_of (table_cells tb) t k) \<and>
     as_assigned_tokens (snd (assignTableText tb tokens)) = length (concat matches)"
proof -
  obtain matches stats where m: "match_tokens tb tokens = (matches, stats)" by fastforce
  have inv: "match_inv (table_cells tb) tokens (matches, stats)" using match_tokens_inv[of tb tokens] m by simp
  then have "length (concat matches) = length (filter (placeable (table_cells tb)) tokens)"
    by (intro mset_eq_length) (simp add: match_inv_def)
  with inv fill_rows_cells[of matches "tb_rows tb"] show ?thesis
    by (intro exI[of _ matches]) (simp add: assignTableText_def m match_inv_def table_cells_def)
qed

definition two_cell_table :: table where
  "two_cell_table = default_table\<lparr>tb_rows := [default_row\<lparr>row_cells :=
     [default_cell\<lparr>cell_bbox := \<lparr>bx0 = 0, by0 = 0, bx1 = 10, by1 = 10\<rparr>\<rparr>,
      default_cell\<lparr>cell_column_index := 1, cell_bbox := \<lparr>bx0 = 10, by0 = 0, bx1 = 20, by1 = 10\<rparr>\<rparr>]\<rparr>]\<rparr>"

definition small_token :: table_token where
  "small_token = \<lparr>tok_text = ''x'', tok_bbox = \<lparr>bx0 = 11, by0 = 1, bx1 = 13, by1 = 3\<rparr>, tok_confidence = 1\<rparr>"

lemma assignTableText_sound_witness:
  "\<exists>matches. mset (concat matches) = {#small_token#} \<and> length matches = 2 \<and>
     as_assigned_tokens (snd (assignTableText two_cell_table [small_token])) = 1"
proof -
  have cells: "length (table_cells two_cell_table) = 2" by (simp add: table_cells_def two_cell_table_def default_table_def default_row_def)
  have "placeable (table_cells two_cell_table) small_token"
    by (simp add: placeable_def usable_token_def table_cells_def two_cell_table_def default_table_def default_row_def
        small_token_def holds_token_def centerInside_def midX_def midY_def validBBox_def isfinite_small)
  then obtain matches where matches: "mset (concat matches) = {#small_token#}" "length matches = 2"
    "as_assigned_tokens (snd (assignTableText two_cell_table [small_token])) = length (concat matches)"
    using assignTableText_sound[of two_cell_table "[small_token]"] cells by (auto simp del: mset_concat)
  then have "length (concat matches) = 1" by (metis size_mset size_single)
  with matches show ?thesis by metis
qed

end
