(* ===== verification/Text_Layout.thy ===== *)
theory Text_Layout
  imports Common
begin

text \<open>
  The layout backend that needs no model, \<open>cpp/layout/text_layout_model_backend.cpp\<close>: visible
  lines are classified one by one and joined to the block before when they continue it. The two
  label tables of the learned backends stand in the same file.
\<close>

record line_candidate =
  lcd_index :: int
  lcd_text :: string
  lcd_bbox :: bbox
  lcd_height :: double

definition startsWithListMarker :: "string \<Rightarrow> bool" where
  "startsWithListMarker str =
     (case trim str of
        [] \<Rightarrow> False
      | c # rest \<Rightarrow>
          if c = CHR ''-'' \<or> c = CHR ''*'' \<or> c = CHR ''+'' then rest \<noteq> [] \<and> isspace (hd rest)
          else if \<not> isdigit c then False
          else
            (case dropWhile isdigit rest of
               d # e # _ \<Rightarrow> (d = CHR ''.'' \<or> d = CHR '')'') \<and> isspace e
             | _ \<Rightarrow> False))"

definition spanLeftLess :: "text_span \<Rightarrow> text_span \<Rightarrow> bool" where
  "spanLeftLess lhs rhs \<longleftrightarrow> bx0 (span_bbox lhs) < bx0 (span_bbox rhs)"

interpretation spanLeftLess: keyed_order spanLeftLess "\<lambda>s. bx0 (span_bbox s)"
  by unfold_locales (simp add: spanLeftLess_def)

definition hasTableLikeSpanGaps :: "text_line \<Rightarrow> bool" where
  "hasTableLikeSpanGaps line =
     (if length (line_spans line) < 3 then False
      else
        let spans = sort_by spanLeftLess (line_spans line);
            threshold = max 16 (bboxHeight (line_bbox line) * 1.8)
        in length (filter (\<lambda>(a, b). bx0 (span_bbox b) - bx1 (span_bbox a) > threshold) (zip spans (tl spans))) \<ge> 2)"

definition hasRepeatedDotLeader :: "string \<Rightarrow> bool" where
  "hasRepeatedDotLeader str \<longleftrightarrow> contains_str ''...'' str \<or> contains_str '' . . '' str"

definition medianLineHeight :: "line_candidate list \<Rightarrow> double" where
  "medianLineHeight lines =
     (let heights = sort (filter (\<lambda>h. h > 0) (map lcd_height lines))
      in if heights = [] then 0 else heights ! (length heights div 2))"

definition classifyLine ::
  "page_artifact \<Rightarrow> text_line \<Rightarrow> line_candidate \<Rightarrow> double \<Rightarrow> bool \<Rightarrow> layout_type" where
  "classifyLine page line candidate median_height first_body_line =
     (let page_height = (if pa_height page > 0 then real_of_int (pa_height page)
            else max (by1 (lcd_bbox candidate)) 1);
          top_ratio = by0 (lcd_bbox candidate) / page_height;
          bottom_ratio = by1 (lcd_bbox candidate) / page_height
      in if top_ratio < 0.08 then LHeader
         else if bottom_ratio > 0.92 then LFooter
         else if hasTableLikeSpanGaps line \<or> hasRepeatedDotLeader (lcd_text candidate) then LTable
         else if startsWithListMarker (lcd_text candidate) then LList
         else if first_body_line \<and> length (lcd_text candidate) \<le> 120 \<and>
                 (median_height \<le> 0 \<or> lcd_height candidate \<ge> median_height * 1.05) then LTitle
         else LText)"

definition blockConfidence :: "layout_type \<Rightarrow> layout_block \<Rightarrow> double" where
  "blockConfidence t b =
     (case t of
        LTitle \<Rightarrow> 0.70 | LHeader \<Rightarrow> 0.65 | LFooter \<Rightarrow> 0.65 | LTable \<Rightarrow> 0.60 | LList \<Rightarrow> 0.60
      | LFigure \<Rightarrow> 0.55 | LText \<Rightarrow> if length (lb_text_line_indices b) > 1 then 0.75 else 0.68
      | LUnknown \<Rightarrow> 0.40)"

definition canMerge :: "layout_block \<Rightarrow> layout_type \<Rightarrow> line_candidate \<Rightarrow> line_candidate \<Rightarrow> bool" where
  "canMerge b next_type previous candidate =
     (if lb_type b \<noteq> next_type then False
      else if next_type = LTitle \<or> next_type = LHeader \<or> next_type = LFooter then False
      else
        let previous_height = max 1 (lcd_height previous);
            gap = by0 (lcd_bbox candidate) - by1 (lcd_bbox previous);
            left_delta = \<bar>bx0 (lcd_bbox candidate) - bx0 (lcd_bbox previous)\<bar>
        in gap \<ge> 0 \<and> gap \<le> previous_height * 1.8 \<and> left_delta \<le> previous_height * 4)"

definition layout_block_id :: "int \<Rightarrow> nat \<Rightarrow> string" where
  "layout_block_id page_number block_index =
     ''page_'' @ int_to_string page_number @ ''_block_'' @ nat_to_string (block_index + 1)"

subsection \<open>Label tables\<close>

definition mapDocLayNetLabel :: "string \<Rightarrow> layout_type" where
  "mapDocLayNetLabel label =
     (if label = ''Title'' \<or> label = ''Section-header'' then LTitle
      else if label = ''Text'' \<or> label = ''Caption'' then LText
      else if label = ''List-item'' then LList
      else if label = ''Table'' then LTable
      else if label = ''Picture'' then LFigure
      else if label = ''Page-header'' then LHeader
      else if label = ''Page-footer'' \<or> label = ''Footnote'' then LFooter
      else LUnknown)"

definition mapPaddleDocLayoutLabel :: "string \<Rightarrow> layout_type" where
  "mapPaddleDocLayoutLabel label =
     (if label = ''doc_title'' \<or> label = ''paragraph_title'' then LTitle
      else if label \<in> set [''abstract'', ''algorithm'', ''aside_text'', ''content'', ''figure_title'',
        ''reference'', ''reference_content'', ''text'', ''vertical_text''] then LText
      else if label = ''table'' then LTable
      else if label \<in> set [''chart'', ''image'', ''seal''] then LFigure
      else if label \<in> set [''header'', ''header_image''] then LHeader
      else if label \<in> set [''footer'', ''footer_image'', ''footnote'', ''number'', ''vision_footnote''] then LFooter
      else LUnknown)"

subsection \<open>\<open>TextLayoutModelBackend::analyze\<close>\<close>

definition line_candidate_of :: "page_text \<Rightarrow> nat \<Rightarrow> line_candidate option" where
  "line_candidate_of page_text index =
     (let line = pt_lines page_text ! index; str = trim (line_text line) in
      if str = [] \<or> bboxWidth (line_bbox line) \<le> 0 \<or> bboxHeight (line_bbox line) \<le> 0 then None
      else Some \<lparr>lcd_index = int index, lcd_text = str, lcd_bbox = line_bbox line,
        lcd_height = bboxHeight (line_bbox line)\<rparr>)"

definition line_candidates :: "page_text \<Rightarrow> line_candidate list" where
  "line_candidates page_text = List.map_filter (line_candidate_of page_text) [0..<length (pt_lines page_text)]"

definition page_figure :: "page_artifact \<Rightarrow> layout_block" where
  "page_figure page =
     (let b = default_layout_block\<lparr>lb_id := layout_block_id (pa_page_number page) 0, lb_type := LFigure,
            lb_bbox := \<lparr>bx0 = 0, by0 = 0, bx1 = real_of_int (pa_width page), by1 = real_of_int (pa_height page)\<rparr>\<rparr>
      in b\<lparr>lb_confidence := blockConfidence (lb_type b) b\<rparr>)"

definition new_line_block :: "page_artifact \<Rightarrow> nat \<Rightarrow> layout_type \<Rightarrow> line_candidate \<Rightarrow> layout_block" where
  "new_line_block page block_index t candidate =
     (let b = default_layout_block\<lparr>lb_id := layout_block_id (pa_page_number page) block_index, lb_type := t,
            lb_bbox := lcd_bbox candidate, lb_text_line_indices := [lcd_index candidate]\<rparr>
      in b\<lparr>lb_confidence := blockConfidence (lb_type b) b\<rparr>)"

definition extend_line_block :: "line_candidate \<Rightarrow> layout_block \<Rightarrow> layout_block" where
  "extend_line_block candidate b =
     (let b = b\<lparr>lb_bbox := expandBBox (lb_bbox b) (lcd_bbox candidate),
              lb_text_line_indices := lb_text_line_indices b @ [lcd_index candidate]\<rparr>
      in b\<lparr>lb_confidence := blockConfidence (lb_type b) b\<rparr>)"

text \<open>The loop's state: the blocks, \<open>saw_body_line\<close> and \<open>previous_line\<close>.\<close>

type_synonym line_state = "layout_block list \<times> bool \<times> line_candidate"

definition place_line ::
  "page_artifact \<Rightarrow> page_text \<Rightarrow> double \<Rightarrow> line_state \<Rightarrow> line_candidate \<Rightarrow> line_state" where
  "place_line page page_text median_height state candidate =
     (case state of (blocks, saw_body_line, previous_line) \<Rightarrow>
        let source_line = pt_lines page_text ! nat (lcd_index candidate);
            first_body_line = (\<not> saw_body_line \<and>
              by0 (lcd_bbox candidate) \<ge> real_of_int (max 0 (pa_height page)) * 0.08);
            t = classifyLine page source_line candidate median_height first_body_line;
            saw = (saw_body_line \<or> (t \<noteq> LHeader \<and> t \<noteq> LFooter))
        in if blocks \<noteq> [] \<and> canMerge (last blocks) t previous_line candidate
           then (butlast blocks @ [extend_line_block candidate (last blocks)], saw, candidate)
           else (blocks @ [new_line_block page (length blocks) t candidate], saw, candidate))"

definition no_line :: line_candidate where
  "no_line = \<lparr>lcd_index = 0, lcd_text = [], lcd_bbox = empty_bbox, lcd_height = 0\<rparr>"

definition text_layout_blocks :: "page_artifact \<Rightarrow> page_text \<Rightarrow> layout_block list" where
  "text_layout_blocks page page_text =
     (let candidates = line_candidates page_text in
      if candidates = []
      then if pa_width page > 0 \<and> pa_height page > 0 then [page_figure page] else []
      else fst (foldl (place_line page page_text (medianLineHeight candidates)) ([], False, no_line) candidates))"

definition text_layout_analyze :: "page_artifact \<Rightarrow> page_text \<Rightarrow> page_layout" where
  "text_layout_analyze page page_text =
     \<lparr>pl_page_index = pa_page_index page, pl_page_number = pa_page_number page,
      pl_blocks = text_layout_blocks page page_text\<rparr>"

subsection \<open>Every visible line is in one block\<close>

definition blocks_ok :: "page_artifact \<Rightarrow> page_text \<Rightarrow> int list \<Rightarrow> layout_block list \<Rightarrow> bool" where
  "blocks_ok page page_text indices blocks \<longleftrightarrow>
     concat (map lb_text_line_indices blocks) = indices \<and>
     map lb_id blocks = map (layout_block_id (pa_page_number page)) [0..<length blocks] \<and>
     (\<forall>b\<in>set blocks. \<forall>i\<in>set (lb_text_line_indices b).
        bbox_le (line_bbox (pt_lines page_text ! nat i)) (lb_bbox b))"

lemma extend_line_block_simps [simp]:
  "lb_id (extend_line_block c b) = lb_id b" "lb_type (extend_line_block c b) = lb_type b"
  "lb_bbox (extend_line_block c b) = expandBBox (lb_bbox b) (lcd_bbox c)"
  "lb_text_line_indices (extend_line_block c b) = lb_text_line_indices b @ [lcd_index c]"
  by (simp_all add: extend_line_block_def Let_def)

lemma new_line_block_simps [simp]:
  "lb_id (new_line_block page k t c) = layout_block_id (pa_page_number page) k"
  "lb_bbox (new_line_block page k t c) = lcd_bbox c"
  "lb_text_line_indices (new_line_block page k t c) = [lcd_index c]"
  by (simp_all add: new_line_block_def Let_def)

definition candidate_ok :: "page_text \<Rightarrow> line_candidate \<Rightarrow> bool" where
  "candidate_ok page_text c \<longleftrightarrow> lcd_bbox c = line_bbox (pt_lines page_text ! nat (lcd_index c))"

lemma place_line_ok:
  assumes "blocks_ok page page_text indices (fst state)" "candidate_ok page_text c"
  shows "blocks_ok page page_text (indices @ [lcd_index c]) (fst (place_line page page_text h state c))"
proof -
  obtain blocks saw previous where state: "state = (blocks, saw, previous)" by (cases state)
  have joined: "blocks_ok page page_text (indices @ [lcd_index c]) (butlast blocks @ [extend_line_block c (last blocks)])"
    if ne: "blocks \<noteq> []"
  proof -
    obtain bs b where bs: "blocks = bs @ [b]" using ne by (metis append_butlast_last_id)
    show ?thesis using assms unfolding state bs
      by (auto simp: blocks_ok_def candidate_ok_def intro: bbox_le_trans)
  qed
  have fresh: "blocks_ok page page_text (indices @ [lcd_index c]) (blocks @ [new_line_block page (length blocks) t c])" for t
    using assms unfolding state by (auto simp: blocks_ok_def candidate_ok_def)
  show ?thesis using joined fresh by (simp add: place_line_def state Let_def)
qed

lemma place_lines_ok:
  "blocks_ok page page_text indices (fst state) \<Longrightarrow> list_all (candidate_ok page_text) cs \<Longrightarrow>
   blocks_ok page page_text (indices @ map lcd_index cs) (fst (foldl (place_line page page_text h) state cs))"
proof (induction cs arbitrary: state indices)
  case (Cons c cs)
  from Cons.prems place_line_ok[of page page_text indices state c h]
  have "blocks_ok page page_text (indices @ [lcd_index c]) (fst (place_line page page_text h state c))" by simp
  from Cons.IH[OF this] Cons.prems show ?case by simp
qed simp

definition visible_line :: "page_text \<Rightarrow> nat \<Rightarrow> bool" where
  "visible_line page_text i \<longleftrightarrow> trim (line_text (pt_lines page_text ! i)) \<noteq> [] \<and>
     0 < bboxWidth (line_bbox (pt_lines page_text ! i)) \<and> 0 < bboxHeight (line_bbox (pt_lines page_text ! i))"

lemma line_candidates_spec:
  "map lcd_index (line_candidates page_text) =
     map int (filter (visible_line page_text) [0..<length (pt_lines page_text)])"
  "list_all (candidate_ok page_text) (line_candidates page_text)"
proof -
  have "map lcd_index (List.map_filter (line_candidate_of page_text) is) = map int (filter (visible_line page_text) is)
      \<and> list_all (candidate_ok page_text) (List.map_filter (line_candidate_of page_text) is)" for "is"
    by (induction "is")
       (auto simp: List.map_filter_def line_candidate_of_def Let_def visible_line_def candidate_ok_def not_le)
  then show "map lcd_index (line_candidates page_text) =
     map int (filter (visible_line page_text) [0..<length (pt_lines page_text)])"
    "list_all (candidate_ok page_text) (line_candidates page_text)"
    by (simp_all add: line_candidates_def)
qed

lemma layout_block_id_inj: "layout_block_id n i = layout_block_id n j \<Longrightarrow> i = j"
  by (auto simp: layout_block_id_def dest: nat_to_string_inj)

section \<open>Properties\<close>

text \<open>
  the text backend places every visible line once and in order. Read block by block, the line
  indices are exactly the page's visible lines in their order; each block's box contains its lines,
  and the blocks' identifiers are distinct.
\<close>

lemma text_layout_covers_lines:
  "concat (map lb_text_line_indices (pl_blocks (text_layout_analyze page page_text))) =
     map int (filter (visible_line page_text) [0..<length (pt_lines page_text)]) \<and>
   list_all (\<lambda>b. list_all (\<lambda>i. bbox_le (line_bbox (pt_lines page_text ! nat i)) (lb_bbox b)) (lb_text_line_indices b))
     (pl_blocks (text_layout_analyze page page_text)) \<and>
   distinct (map lb_id (pl_blocks (text_layout_analyze page page_text)))"
proof -
  let ?cs = "line_candidates page_text"
  let ?bs = "text_layout_blocks page page_text"
  have ok: "blocks_ok page page_text (map lcd_index ?cs) ?bs"
  proof (cases "?cs = []")
    case True
    then show ?thesis
      by (auto simp: text_layout_blocks_def blocks_ok_def page_figure_def Let_def default_layout_block_def)
  next
    case False
    have "blocks_ok page page_text [] (fst ([], False, no_line))" by (simp add: blocks_ok_def)
    from place_lines_ok[OF this line_candidates_spec(2), of "medianLineHeight ?cs"] False show ?thesis
      by (simp add: text_layout_blocks_def Let_def)
  qed
  have "distinct (map (layout_block_id (pa_page_number page)) [0..<n])" for n
    by (auto simp: distinct_map inj_on_def dest: layout_block_id_inj)
  then have "distinct (map lb_id ?bs)" using ok by (simp add: blocks_ok_def)
  with ok show ?thesis
    by (simp add: text_layout_analyze_def blocks_ok_def line_candidates_spec(1) list_all_iff)
qed

end
