(* ===== verification/Page_Structure.thy ===== *)
theory Page_Structure
  imports Common
begin

text \<open>
  \<open>cpp/pipeline/page_structure.cpp\<close>: a figure the detector also reported as a table is folded
  into the table, and tables whose grid lost text are marked to be read from their source lines.
  A \<open>std::set<int>\<close> is its ascending list; a \<open>Table*\<close> is the table's position.
\<close>

definition box_area :: "bbox \<Rightarrow> double" where
  "box_area b = (bx1 b - bx0 b) * (by1 b - by0 b)"

definition sameVisualRegion :: "layout_block \<Rightarrow> layout_block \<Rightarrow> bool" where
  "sameVisualRegion tb figure \<longleftrightarrow>
     (if \<not> validBBox (lb_bbox tb) \<or> \<not> validBBox (lb_bbox figure) then False
      else
        let intersection = overlapArea (lb_bbox tb) (lb_bbox figure)
        in intersection / (box_area (lb_bbox tb) + box_area (lb_bbox figure) - intersection) \<ge> 0.5)"

definition sourceLines :: "layout_block \<Rightarrow> page_text \<Rightarrow> int list" where
  "sourceLines b page_text =
     (if list_all (\<lambda>i. in_range i (pt_lines page_text) \<and> validBBox (line_bbox (pt_lines page_text ! nat i)))
           (lb_text_line_indices b)
      then sort (remdups (lb_text_line_indices b)) else [])"

definition sameLineOwnership :: "int list \<Rightarrow> int list \<Rightarrow> bool" where
  "sameLineOwnership tb figure \<longleftrightarrow>
     (if tb = [] \<or> figure = [] then False
      else
        let shared = length (filter (\<lambda>i. i \<in> set tb) figure)
        in real shared / real (length tb) \<ge> 0.8 \<and> real shared / real (length figure) \<ge> 0.8)"

definition add_source_bytes :: "page_text \<Rightarrow> nat \<Rightarrow> int \<Rightarrow> nat" where
  "add_source_bytes page_text bytes i =
     (if in_range i (pt_lines page_text)
      then (if bytes > 0 then bytes + 1 else bytes) + length (line_text (pt_lines page_text ! nat i)) else bytes)"

definition source_bytes :: "layout_block \<Rightarrow> page_text \<Rightarrow> nat" where
  "source_bytes b page_text = foldl (add_source_bytes page_text) 0 (lb_text_line_indices b)"

definition add_row_bytes :: "nat \<Rightarrow> table_row \<Rightarrow> nat" where
  "add_row_bytes bytes r =
     (if bytes > 0 then bytes + 1 else bytes) +
     ((\<Sum>c\<leftarrow>row_cells r. length (cell_text c)) + (length (row_cells r) - 1))"

definition cell_bytes :: "table \<Rightarrow> nat" where
  "cell_bytes tb = foldl add_row_bytes 0 (tb_rows tb)"

definition has_cell_text :: "table \<Rightarrow> bool" where
  "has_cell_text tb =
     list_ex (\<lambda>r. list_ex (\<lambda>c. skip_chars marker_blanks (cell_text c) \<noteq> []) (row_cells r)) (tb_rows tb)"

definition structureLosesSourceText :: "layout_block \<Rightarrow> table \<Rightarrow> page_text \<Rightarrow> bool" where
  "structureLosesSourceText b tb page_text =
     (if source_bytes b page_text = 0 then False
      else \<not> has_cell_text tb \<or>
        (length (lb_text_line_indices b) div 2 \<ge> length (tb_rows tb) \<and>
         real (cell_bytes tb) < real (source_bytes b page_text) * 0.9))"

subsection \<open>Who owns what\<close>

definition index_blocks :: "layout_block list \<Rightarrow> (string \<rightharpoonup> nat)" where
  "index_blocks blocks = foldl (\<lambda>m i. emplace m (lb_id (blocks ! i)) i) Map.empty [0..<length blocks]"

text \<open>\<open>table_blocks\<close>: block position to table position, the first table of a block winning.\<close>

definition note_table ::
  "layout_block list \<Rightarrow> table list \<Rightarrow> (nat \<times> nat) list \<Rightarrow> nat \<Rightarrow> (nat \<times> nat) list" where
  "note_table blocks tables m t =
     (case index_blocks blocks (tb_layout_block_id (tables ! t)) of
        None \<Rightarrow> m
      | Some b \<Rightarrow> if lb_type (blocks ! b) = LTable
          then amap_alter (\<lambda>old. case old of None \<Rightarrow> t | Some v \<Rightarrow> v) b m else m)"

definition table_blocks_of :: "layout_block list \<Rightarrow> table list \<Rightarrow> (nat \<times> nat) list" where
  "table_blocks_of blocks tables = foldl (note_table blocks tables) [] [0..<length tables]"

definition owner_candidates ::
  "layout_block list \<Rightarrow> int list list \<Rightarrow> (nat \<times> nat) list \<Rightarrow> nat \<Rightarrow> nat list" where
  "owner_candidates blocks lines table_blocks figure =
     filter (\<lambda>t. sameVisualRegion (blocks ! t) (blocks ! figure) \<and> sameLineOwnership (lines ! t) (lines ! figure))
       (map fst table_blocks)"

text \<open>\<open>replacements\<close>: the figures with exactly one owner, in ascending order.\<close>

definition replacement_of ::
  "layout_block list \<Rightarrow> int list list \<Rightarrow> (nat \<times> nat) list \<Rightarrow> nat \<Rightarrow> (nat \<times> nat) option" where
  "replacement_of blocks lines table_blocks figure =
     (if lb_type (blocks ! figure) \<noteq> LFigure then None
      else case owner_candidates blocks lines table_blocks figure of
          [t] \<Rightarrow> Some (figure, t)
        | _ \<Rightarrow> None)"

definition replacements_of ::
  "layout_block list \<Rightarrow> int list list \<Rightarrow> (nat \<times> nat) list \<Rightarrow> (nat \<times> nat) list" where
  "replacements_of blocks lines table_blocks =
     List.map_filter (replacement_of blocks lines table_blocks) [0..<length blocks]"

subsection \<open>Merging\<close>

record structure_stats =
  ss_merged_figures :: int
  ss_preserved_unique_lines :: int
  ss_source_text_tables :: int

record merge_state =
  ms_blocks :: "layout_block list"
  ms_lines :: "int list list"
  ms_tables :: "table list"
  ms_remapped :: "string \<rightharpoonup> string"
  ms_stats :: structure_stats

definition insert_lines :: "int list \<Rightarrow> int list \<Rightarrow> int list \<times> int" where
  "insert_lines owner new =
     foldl (\<lambda>(ls, n). \<lambda>i. if i \<in> set ls then (ls, n) else (insort i ls, n + 1)) (owner, 0) new"

definition absorb_figure :: "page_text \<Rightarrow> int list \<Rightarrow> layout_block \<Rightarrow> layout_block \<Rightarrow> layout_block" where
  "absorb_figure page_text lines figure b =
     b\<lparr>lb_text_line_indices := lines,
       lb_bbox := foldl (\<lambda>box i. expandBBox box (line_bbox (pt_lines page_text ! nat i))) (lb_bbox b) lines,
       lb_confidence := min (lb_confidence b) (lb_confidence figure)\<rparr>"

definition merge_figure :: "page_text \<Rightarrow> (nat \<times> nat) list \<Rightarrow> merge_state \<Rightarrow> nat \<times> nat \<Rightarrow> merge_state" where
  "merge_figure page_text table_blocks st repl =
     (case repl of (figure_index, table_index) \<Rightarrow>
        let figure = ms_blocks st ! figure_index;
            stats = ms_stats st
        in case insert_lines (ms_lines st ! table_index) (ms_lines st ! figure_index) of
             (lines, added) \<Rightarrow>
               st\<lparr>ms_lines := (ms_lines st)[table_index := lines],
                  ms_blocks := upd_at (ms_blocks st) table_index (absorb_figure page_text lines figure),
                  ms_tables := upd_at (ms_tables st) (the (map_of table_blocks table_index))
                    (\<lambda>tb. tb\<lparr>tb_text_mode := SourceLines\<rparr>),
                  ms_remapped := emplace (ms_remapped st) (lb_id figure) (lb_id (ms_blocks st ! table_index)),
                  ms_stats := stats\<lparr>ss_preserved_unique_lines := ss_preserved_unique_lines stats + added,
                                    ss_merged_figures := ss_merged_figures stats + 1\<rparr>\<rparr>)"

definition choose_text_mode ::
  "page_text \<Rightarrow> layout_block list \<Rightarrow> table list \<times> int \<Rightarrow> nat \<times> nat \<Rightarrow> table list \<times> int" where
  "choose_text_mode page_text blocks acc entry =
     (case acc of (tables, n) \<Rightarrow> case entry of (b, t) \<Rightarrow>
        let tables = (if structureLosesSourceText (blocks ! b) (tables ! t) page_text
              then upd_at tables t (\<lambda>tb. tb\<lparr>tb_text_mode := SourceLines\<rparr>) else tables)
        in (tables, n + (if tb_text_mode (tables ! t) = SourceLines then 1 else 0)))"

definition remap_related :: "(string \<rightharpoonup> string) \<Rightarrow> layout_block \<Rightarrow> layout_block" where
  "remap_related remapped b =
     (case remapped (lb_related_block_id b) of
        None \<Rightarrow> b
      | Some replacement \<Rightarrow> b\<lparr>lb_related_block_id := (if replacement = lb_id b then [] else replacement)\<rparr>)"

definition without_merged :: "(nat \<times> nat) list \<Rightarrow> layout_block list \<Rightarrow> layout_block list" where
  "without_merged replacements blocks =
     map (\<lambda>i. blocks ! i) (filter (\<lambda>i. i \<notin> set (map fst replacements)) [0..<length blocks])"

definition merged_state :: "page_text \<Rightarrow> layout_block list \<Rightarrow> table list \<Rightarrow> merge_state" where
  "merged_state page_text blocks tables =
     (let table_blocks = table_blocks_of blocks tables;
          lines = map (\<lambda>b. sourceLines b page_text) blocks
      in foldl (merge_figure page_text table_blocks)
           \<lparr>ms_blocks = blocks, ms_lines = lines, ms_tables = tables, ms_remapped = Map.empty,
            ms_stats = \<lparr>ss_merged_figures = 0, ss_preserved_unique_lines = 0, ss_source_text_tables = 0\<rparr>\<rparr>
           (replacements_of blocks lines table_blocks))"

definition resolvePageStructure ::
  "page_text \<Rightarrow> page_layout \<Rightarrow> page_tables \<Rightarrow> page_layout \<times> page_tables \<times> structure_stats" where
  "resolvePageStructure page_text layout tables =
     (let blocks = pl_blocks layout;
          table_blocks = table_blocks_of blocks (pg_tables tables);
          replacements = replacements_of blocks (map (\<lambda>b. sourceLines b page_text) blocks) table_blocks;
          st = merged_state page_text blocks (pg_tables tables)
      in case foldl (choose_text_mode page_text (ms_blocks st)) (ms_tables st, 0) table_blocks of
           (chosen, n) \<Rightarrow>
             (layout\<lparr>pl_blocks := without_merged replacements (map (remap_related (ms_remapped st)) (ms_blocks st))\<rparr>,
              tables\<lparr>pg_tables := chosen\<rparr>,
              (ms_stats st)\<lparr>ss_source_text_tables := n\<rparr>))"

subsection \<open>Which figures are merged into which tables\<close>

lemma index_blocks_range: "index_blocks blocks k = Some i \<Longrightarrow> i < length blocks"
proof -
  have "\<forall>k i. foldl (\<lambda>m i. emplace m (lb_id (blocks ! i)) i) Map.empty [0..<n] k = Some i \<longrightarrow> i < n" for n
  proof (induction n)
    case (Suc n)
    then show ?case
      by (auto simp: emplace_def split: option.splits if_splits dest: less_SucI)
  qed simp
  then show "index_blocks blocks k = Some i \<Longrightarrow> i < length blocks" by (simp add: index_blocks_def)
qed

lemma table_blocks_of_range:
  assumes "b \<in> set (map fst (table_blocks_of blocks tables))"
  shows "b < length blocks \<and> lb_type (blocks ! b) = LTable"
proof -
  have "\<forall>b\<in>set (map fst (foldl (note_table blocks tables) [] ts)).
      b < length blocks \<and> lb_type (blocks ! b) = LTable" for ts
    by (induction ts rule: rev_induct)
       (auto simp: note_table_def simp del: set_map split: option.split dest: index_blocks_range)
  with assms show ?thesis unfolding table_blocks_of_def by blast
qed

lemma replacements_of_spec:
  assumes "(f, t) \<in> set (replacements_of blocks lines tbs)"
  shows "f < length blocks" "lb_type (blocks ! f) = LFigure" "t \<in> set (map fst tbs)"
    "sameLineOwnership (lines ! t) (lines ! f)"
proof -
  from assms obtain i where i: "i < length blocks" "replacement_of blocks lines tbs i = Some (f, t)"
    by (auto simp: replacements_of_def List.map_filter_def)
  then have "i = f" "owner_candidates blocks lines tbs f = [t]" "lb_type (blocks ! f) = LFigure"
    by (auto simp: replacement_of_def split: if_splits list.splits)
  then have "t \<in> set (owner_candidates blocks lines tbs f)" by simp
  with i \<open>i = f\<close> \<open>lb_type (blocks ! f) = LFigure\<close>
  show "f < length blocks" "lb_type (blocks ! f) = LFigure" "t \<in> set (map fst tbs)"
    "sameLineOwnership (lines ! t) (lines ! f)"
    by (auto simp: owner_candidates_def)
qed

lemma set_sourceLines: "sourceLines b page_text \<noteq> [] \<Longrightarrow> set (sourceLines b page_text) = set (lb_text_line_indices b)"
  by (auto simp: sourceLines_def split: if_splits)

lemma set_insert_lines: "set (fst (insert_lines owner new)) = set owner \<union> set new"
proof -
  have "set (fst (foldl (\<lambda>(ls, n). \<lambda>i. if i \<in> set ls then (ls, n) else (insort i ls, n + 1)) (ls, n) xs)) =
      set ls \<union> set xs" for ls xs and n :: int
    by (induction xs arbitrary: ls n) (auto simp: set_insort_key)
  then show ?thesis by (simp add: insert_lines_def)
qed

text \<open>\<open>figures_of rs i\<close>: the figures already folded into block \<open>i\<close>.\<close>

definition figures_of :: "(nat \<times> nat) list \<Rightarrow> nat \<Rightarrow> nat set" where
  "figures_of rs i = {f. (f, i) \<in> set rs}"

definition merge_inv :: "layout_block list \<Rightarrow> int list list \<Rightarrow> (nat \<times> nat) list \<Rightarrow> merge_state \<Rightarrow> bool" where
  "merge_inv blocks lines rs st \<longleftrightarrow>
     length (ms_blocks st) = length blocks \<and> length (ms_lines st) = length lines \<and>
     (\<forall>i<length blocks. lb_id (ms_blocks st ! i) = lb_id (blocks ! i) \<and>
        lb_type (ms_blocks st ! i) = lb_type (blocks ! i) \<and>
        lb_related_block_id (ms_blocks st ! i) = lb_related_block_id (blocks ! i) \<and>
        set (ms_lines st ! i) = set (lines ! i) \<union> (\<Union>f\<in>figures_of rs i. set (lines ! f)) \<and>
        set (lb_text_line_indices (ms_blocks st ! i)) =
          (if figures_of rs i = {} then set (lb_text_line_indices (blocks ! i)) else set (ms_lines st ! i))) \<and>
     (\<forall>k. ms_remapped st k \<noteq> None \<longleftrightarrow> (\<exists>(f, t)\<in>set rs. lb_id (blocks ! f) = k)) \<and>
     (\<forall>k v. ms_remapped st k = Some v \<longrightarrow> (\<exists>(f, t)\<in>set rs. lb_id (blocks ! t) = v))"

lemma merge_remapped:
  assumes inv: "merge_inv blocks lines rs st"
  shows "ms_remapped st k = Some v \<Longrightarrow> \<exists>f t. (f, t) \<in> set rs \<and> lb_id (blocks ! t) = v"
    "ms_remapped st k = None \<Longrightarrow> lb_id (blocks ! f) = k \<Longrightarrow> f \<notin> fst ` set rs"
proof -
  have some: "\<forall>k v. ms_remapped st k = Some v \<longrightarrow> (\<exists>(f, t)\<in>set rs. lb_id (blocks ! t) = v)"
    and none: "\<forall>k. ms_remapped st k \<noteq> None \<longleftrightarrow> (\<exists>(f, t)\<in>set rs. lb_id (blocks ! f) = k)"
    using inv unfolding merge_inv_def by blast+
  show "ms_remapped st k = Some v \<Longrightarrow> \<exists>f t. (f, t) \<in> set rs \<and> lb_id (blocks ! t) = v"
    using some by blast
  show "f \<notin> fst ` set rs" if "ms_remapped st k = None" "lb_id (blocks ! f) = k"
  proof
    assume "f \<in> fst ` set rs"
    then obtain t where "(f, t) \<in> set rs" by auto
    with that(2) have "\<exists>(f, t)\<in>set rs. lb_id (blocks ! f) = k" by blast
    with none that(1) show False by blast
  qed
qed

lemma UN_nth: "(\<Union>i<length xs. f (xs ! i)) = (\<Union>x\<in>set xs. f x)"
proof -
  have "set xs = (\<lambda>i. xs ! i) ` {..<length xs}" by (auto simp: in_set_conv_nth)
  then show ?thesis by simp
qed

lemma figures_of_snoc: "figures_of (rs @ [(f, t)]) i = (if i = t then insert f (figures_of rs i) else figures_of rs i)"
  by (auto simp: figures_of_def)

lemma merge_figure_inv:
  assumes inv: "merge_inv blocks lines rs st" and len: "length lines = length blocks"
    and f: "f < length blocks" and t: "t < length blocks" and no_target: "figures_of rs f = {}"
  shows "merge_inv blocks lines (rs @ [(f, t)]) (merge_figure page_text tbs st (f, t))"
proof -
  let ?st = "merge_figure page_text tbs st (f, t)"
  obtain new added where ins: "insert_lines (ms_lines st ! t) (ms_lines st ! f) = (new, added)" by fastforce
  have new: "set new = set (ms_lines st ! t) \<union> set (ms_lines st ! f)"
    using set_insert_lines[of "ms_lines st ! t" "ms_lines st ! f"] by (simp add: ins)
  have lens: "length (ms_blocks st) = length blocks" "length (ms_lines st) = length lines"
    using inv by (simp_all add: merge_inv_def)
  have lf: "set (ms_lines st ! f) = set (lines ! f)" using inv f no_target by (simp add: merge_inv_def)
  have st: "ms_lines ?st = (ms_lines st)[t := new]"
    "ms_blocks ?st = upd_at (ms_blocks st) t (absorb_figure page_text new (ms_blocks st ! f))"
    "ms_remapped ?st = emplace (ms_remapped st) (lb_id (blocks ! f)) (lb_id (blocks ! t))"
    using inv f t by (simp_all add: merge_figure_def ins Let_def merge_inv_def)
  have block: "ms_blocks ?st ! i = (if i = t then absorb_figure page_text new (ms_blocks st ! f) (ms_blocks st ! i)
      else ms_blocks st ! i)" if "i < length blocks" for i
    using that t lens by (simp add: st nth_upd_at)
  have lines_i: "ms_lines ?st ! i = (if i = t then new else ms_lines st ! i)" for i
    using t lens len by (simp add: st)
  show ?thesis
    unfolding merge_inv_def
  proof (intro conjI allI impI)
    show "length (ms_blocks ?st) = length blocks" "length (ms_lines ?st) = length lines"
      using lens by (simp_all add: st)
    fix i assume i: "i < length blocks"
    show "lb_id (ms_blocks ?st ! i) = lb_id (blocks ! i)" "lb_type (ms_blocks ?st ! i) = lb_type (blocks ! i)"
      "lb_related_block_id (ms_blocks ?st ! i) = lb_related_block_id (blocks ! i)"
      using inv i by (simp_all add: block merge_inv_def absorb_figure_def)
    show "set (ms_lines ?st ! i) = set (lines ! i) \<union> (\<Union>g\<in>figures_of (rs @ [(f, t)]) i. set (lines ! g))"
      using inv i new lf by (auto simp: lines_i figures_of_snoc merge_inv_def)
    show "set (lb_text_line_indices (ms_blocks ?st ! i)) =
        (if figures_of (rs @ [(f, t)]) i = {} then set (lb_text_line_indices (blocks ! i)) else set (ms_lines ?st ! i))"
      using inv i by (auto simp: block lines_i figures_of_snoc merge_inv_def absorb_figure_def)
  next
    fix k
    show "ms_remapped ?st k \<noteq> None \<longleftrightarrow> (\<exists>(g, u)\<in>set (rs @ [(f, t)]). lb_id (blocks ! g) = k)"
      using inv by (auto simp: st emplace_def merge_inv_def split: option.splits)
  next
    fix k v assume "ms_remapped ?st k = Some v"
    then show "\<exists>(g, u)\<in>set (rs @ [(f, t)]). lb_id (blocks ! u) = v"
      using inv by (auto simp: st emplace_def merge_inv_def split: option.splits if_splits)
  qed
qed

definition good_pairs :: "layout_block list \<Rightarrow> (nat \<times> nat) list \<Rightarrow> bool" where
  "good_pairs blocks rs \<longleftrightarrow> (\<forall>(f, t)\<in>set rs. f < length blocks \<and> t < length blocks \<and>
     lb_type (blocks ! f) = LFigure \<and> lb_type (blocks ! t) = LTable)"

lemma good_pairs_target:
  assumes "good_pairs blocks rs" "(f, t) \<in> set rs"
  shows "t < length blocks" "f < length blocks" "t \<notin> fst ` set rs"
proof -
  show "t < length blocks" "f < length blocks" using assms by (auto simp: good_pairs_def)
  show "t \<notin> fst ` set rs"
  proof
    assume "t \<in> fst ` set rs"
    then obtain u where "(t, u) \<in> set rs" by auto
    with assms(1) have "lb_type (blocks ! t) = LFigure" by (auto simp: good_pairs_def)
    moreover have "lb_type (blocks ! t) = LTable" using assms by (auto simp: good_pairs_def)
    ultimately show False by simp
  qed
qed

lemma union_kept:
  assumes "good_pairs blocks rs"
  shows "(\<Union>i\<in>{i. i < length blocks \<and> i \<notin> fst ` set rs}. g i \<union> (\<Union>f\<in>figures_of rs i. g f)) =
    (\<Union>i<length blocks. g i)"
proof (intro equalityI subsetI)
  fix x assume "x \<in> (\<Union>i<length blocks. g i)"
  then obtain i where i: "i < length blocks" "x \<in> g i" by auto
  show "x \<in> (\<Union>i\<in>{i. i < length blocks \<and> i \<notin> fst ` set rs}. g i \<union> (\<Union>f\<in>figures_of rs i. g f))"
  proof (cases "i \<in> fst ` set rs")
    case True
    then obtain t where t: "(i, t) \<in> set rs" by auto
    then have "i \<in> figures_of rs t" by (simp add: figures_of_def)
    with i(2) good_pairs_target[OF assms t] show ?thesis by auto
  qed (use i in blast)
next
  fix x assume "x \<in> (\<Union>i\<in>{i. i < length blocks \<and> i \<notin> fst ` set rs}. g i \<union> (\<Union>f\<in>figures_of rs i. g f))"
  then show "x \<in> (\<Union>i<length blocks. g i)"
    using good_pairs_target(2)[OF assms] by (auto simp: figures_of_def)
qed

lemma merge_fold_inv:
  assumes "good_pairs blocks rs" "length lines = length blocks" "merge_inv blocks lines [] st"
  shows "merge_inv blocks lines rs (foldl (merge_figure page_text tbs) st rs)"
  using assms(1)
proof (induction rs rule: rev_induct)
  case Nil
  then show ?case using assms(3) by simp
next
  case (snoc r rs)
  obtain f t where r: "r = (f, t)" by (cases r)
  have "figures_of rs f = {}" using snoc.prems by (auto simp: figures_of_def good_pairs_def r)
  with snoc merge_figure_inv[of blocks lines rs "foldl (merge_figure page_text tbs) st rs" f t page_text tbs] assms(2)
  show ?case by (simp add: good_pairs_def r)
qed

text \<open>The invariant at the end of the merging loop.\<close>

lemma merged_state_inv:
  fixes blocks tables page_text
  defines "lines \<equiv> map (\<lambda>b. sourceLines b page_text) blocks"
  defines "rs \<equiv> replacements_of blocks lines (table_blocks_of blocks tables)"
  shows "merge_inv blocks lines rs (merged_state page_text blocks tables)" "good_pairs blocks rs"
proof -
  show good: "good_pairs blocks rs"
    unfolding good_pairs_def rs_def
  proof (intro ballI, clarify)
    fix f t assume ft: "(f, t) \<in> set (replacements_of blocks lines (table_blocks_of blocks tables))"
    show "f < length blocks \<and> t < length blocks \<and> lb_type (blocks ! f) = LFigure \<and> lb_type (blocks ! t) = LTable"
      using replacements_of_spec(1,2)[OF ft] table_blocks_of_range[OF replacements_of_spec(3)[OF ft]] by simp
  qed
  have "merge_inv blocks lines [] \<lparr>ms_blocks = blocks, ms_lines = lines, ms_tables = tables,
      ms_remapped = Map.empty,
      ms_stats = \<lparr>ss_merged_figures = 0, ss_preserved_unique_lines = 0, ss_source_text_tables = 0\<rparr>\<rparr>"
    by (simp add: merge_inv_def figures_of_def lines_def)
  from merge_fold_inv[OF good _ this] show "merge_inv blocks lines rs (merged_state page_text blocks tables)"
    by (simp add: merged_state_def rs_def lines_def Let_def)
qed

lemma replaced_lines:
  assumes "(f, t) \<in> set (replacements_of blocks (map (\<lambda>b. sourceLines b page_text) blocks) tbs)"
    "t < length blocks"
  shows "set (sourceLines (blocks ! f) page_text) = set (lb_text_line_indices (blocks ! f))"
    "set (sourceLines (blocks ! t) page_text) = set (lb_text_line_indices (blocks ! t))"
proof -
  from replacements_of_spec[OF assms(1)] assms(2)
  have "sameLineOwnership (sourceLines (blocks ! t) page_text) (sourceLines (blocks ! f) page_text)" by simp
  then have "sourceLines (blocks ! f) page_text \<noteq> []" "sourceLines (blocks ! t) page_text \<noteq> []"
    by (auto simp: sameLineOwnership_def split: if_splits)
  then show "set (sourceLines (blocks ! f) page_text) = set (lb_text_line_indices (blocks ! f))"
    "set (sourceLines (blocks ! t) page_text) = set (lb_text_line_indices (blocks ! t))"
    by (simp_all add: set_sourceLines)
qed

lemma block_lines_after:
  fixes blocks tables page_text
  defines "rs \<equiv> replacements_of blocks (map (\<lambda>b. sourceLines b page_text) blocks) (table_blocks_of blocks tables)"
  assumes "i < length blocks"
  shows "set (lb_text_line_indices (ms_blocks (merged_state page_text blocks tables) ! i)) =
    set (lb_text_line_indices (blocks ! i)) \<union> (\<Union>f\<in>figures_of rs i. set (lb_text_line_indices (blocks ! f)))"
proof (cases "figures_of rs i = {}")
  case True
  then show ?thesis using merged_state_inv(1)[of blocks page_text tables] assms(2)
    by (simp add: merge_inv_def rs_def)
next
  case False
  then obtain g where g: "(g, i) \<in> set rs" by (auto simp: figures_of_def)
  have lines: "set (sourceLines (blocks ! f) page_text) = set (lb_text_line_indices (blocks ! f))"
    "f < length blocks" if "f \<in> figures_of rs i" for f
    using that replaced_lines(1)[of f i blocks page_text] replacements_of_spec(1) assms(2)
    by (auto simp: figures_of_def rs_def)
  have "set (lb_text_line_indices (ms_blocks (merged_state page_text blocks tables) ! i)) =
      set (sourceLines (blocks ! i) page_text) \<union>
        (\<Union>f\<in>figures_of rs i. set (map (\<lambda>b. sourceLines b page_text) blocks ! f))"
    using merged_state_inv(1)[of blocks page_text tables] assms(2) False by (simp add: merge_inv_def rs_def)
  also have "set (sourceLines (blocks ! i) page_text) = set (lb_text_line_indices (blocks ! i))"
    using replaced_lines(2)[of g i blocks page_text] g assms(2) by (simp add: rs_def)
  finally show ?thesis using lines by (simp cong: SUP_cong)
qed

lemma resolved_blocks:
  fixes layout :: page_layout and tables :: page_tables and page_text :: page_text
  defines "blocks \<equiv> pl_blocks layout"
  defines "rs \<equiv> replacements_of blocks (map (\<lambda>b. sourceLines b page_text) blocks) (table_blocks_of blocks (pg_tables tables))"
  defines "st \<equiv> merged_state page_text blocks (pg_tables tables)"
  shows "pl_blocks (fst (resolvePageStructure page_text layout tables)) =
    without_merged rs (map (remap_related (ms_remapped st)) (ms_blocks st))"
  by (simp add: resolvePageStructure_def Let_def rs_def st_def blocks_def split: prod.split)

lemma set_resolved:
  fixes layout :: page_layout and tables :: page_tables and page_text :: page_text
  defines "blocks \<equiv> pl_blocks layout"
  defines "rs \<equiv> replacements_of blocks (map (\<lambda>b. sourceLines b page_text) blocks) (table_blocks_of blocks (pg_tables tables))"
  defines "st \<equiv> merged_state page_text blocks (pg_tables tables)"
  shows "set (pl_blocks (fst (resolvePageStructure page_text layout tables))) =
    (\<lambda>i. remap_related (ms_remapped st) (ms_blocks st ! i)) ` {i. i < length blocks \<and> i \<notin> fst ` set rs}"
proof -
  have len: "length (ms_blocks st) = length blocks"
    using merged_state_inv(1)[of blocks page_text "pg_tables tables"] by (simp add: merge_inv_def st_def)
  have "set (without_merged rs (map h xs)) = (\<lambda>i. h (xs ! i)) ` {i. i < length xs \<and> i \<notin> fst ` set rs}"
    for h :: "layout_block \<Rightarrow> layout_block" and xs
    unfolding without_merged_def set_map by (rule image_cong) auto
  from this[of "remap_related (ms_remapped st)" "ms_blocks st"] show ?thesis
    unfolding resolved_blocks len[symmetric] blocks_def[symmetric] rs_def[symmetric] st_def[symmetric] .
qed

section \<open>Properties\<close>

text \<open>
  Merging figures into tables loses no source line. The text lines that belong to some block are
  the same before and after, although the merged figures are gone: each one's lines are in the table
  it was folded into.
\<close>

lemma resolvePageStructure_keeps_lines:
  "set (concat (map lb_text_line_indices (pl_blocks (fst (resolvePageStructure page_text layout tables))))) =
   set (concat (map lb_text_line_indices (pl_blocks layout)))"
proof -
  let ?bs = "pl_blocks layout"
  let ?rs = "replacements_of ?bs (map (\<lambda>b. sourceLines b page_text) ?bs) (table_blocks_of ?bs (pg_tables tables))"
  let ?st = "merged_state page_text ?bs (pg_tables tables)"
  let ?kept = "{i. i < length ?bs \<and> i \<notin> fst ` set ?rs}"
  have lines: "lb_text_line_indices (remap_related m b) = lb_text_line_indices b" for m b
    by (simp add: remap_related_def split: option.split)
  have "set (concat (map lb_text_line_indices (pl_blocks (fst (resolvePageStructure page_text layout tables))))) =
      (\<Union>i\<in>?kept. set (lb_text_line_indices (ms_blocks ?st ! i)))"
    unfolding set_concat set_map set_resolved image_image lines ..
  also have "\<dots> = (\<Union>i\<in>?kept. set (lb_text_line_indices (?bs ! i)) \<union>
      (\<Union>f\<in>figures_of ?rs i. set (lb_text_line_indices (?bs ! f))))"
    using block_lines_after[of _ ?bs page_text "pg_tables tables"] by simp
  also have "\<dots> = (\<Union>i<length ?bs. set (lb_text_line_indices (?bs ! i)))"
    by (rule union_kept[OF merged_state_inv(2)])
  also have "\<dots> = set (concat (map lb_text_line_indices ?bs))"
    unfolding set_concat set_map image_image by (rule UN_nth)
  finally show ?thesis .
qed

text \<open>
  merging leaves no dangling reference. If every block's related identifier is empty or names a
  block of the page, the same holds afterwards, when the merged figures no longer exist.
\<close>

lemma resolvePageStructure_related_ids:
  assumes "list_all (\<lambda>b. lb_related_block_id b = [] \<or> lb_related_block_id b \<in> set (map lb_id (pl_blocks layout)))
    (pl_blocks layout)"
  shows "list_all (\<lambda>b. lb_related_block_id b = [] \<or> lb_related_block_id b \<in>
      set (map lb_id (pl_blocks (fst (resolvePageStructure page_text layout tables)))))
    (pl_blocks (fst (resolvePageStructure page_text layout tables)))"
proof -
  let ?bs = "pl_blocks layout"
  let ?rs = "replacements_of ?bs (map (\<lambda>b. sourceLines b page_text) ?bs) (table_blocks_of ?bs (pg_tables tables))"
  let ?st = "merged_state page_text ?bs (pg_tables tables)"
  let ?new = "pl_blocks (fst (resolvePageStructure page_text layout tables))"
  note inv = merged_state_inv(1)[of ?bs page_text "pg_tables tables"]
  have kept_id: "lb_id (?bs ! i) \<in> set (map lb_id ?new)" if "i < length ?bs" "i \<notin> fst ` set ?rs" for i
  proof -
    have "lb_id (remap_related (ms_remapped ?st) (ms_blocks ?st ! i)) = lb_id (?bs ! i)"
      using inv that by (simp add: merge_inv_def remap_related_def split: option.split)
    with that show ?thesis unfolding set_map set_resolved image_image by (intro image_eqI[of _ _ i]) simp_all
  qed
  have target_id: "lb_id (?bs ! t) \<in> set (map lb_id ?new)" if "(f, t) \<in> set ?rs" for f t
    using good_pairs_target[OF merged_state_inv(2) that] by (intro kept_id) simp_all
  show ?thesis
    unfolding list_all_iff
  proof
    fix c assume "c \<in> set ?new"
    then obtain i where i: "i < length ?bs" "i \<notin> fst ` set ?rs"
      and c: "c = remap_related (ms_remapped ?st) (ms_blocks ?st ! i)"
      unfolding set_resolved by auto
    have related: "lb_related_block_id (ms_blocks ?st ! i) = lb_related_block_id (?bs ! i)"
      using inv i by (simp add: merge_inv_def)
    show "lb_related_block_id c = [] \<or> lb_related_block_id c \<in> set (map lb_id ?new)"
    proof (cases "ms_remapped ?st (lb_related_block_id (?bs ! i))")
      case (Some v)
      then obtain f t where "(f, t) \<in> set ?rs" "lb_id (?bs ! t) = v"
        using merge_remapped(1)[OF inv] by blast
      with target_id[of f t] show ?thesis by (simp add: c remap_related_def related Some)
    next
      case None
      have "lb_related_block_id (?bs ! i) = [] \<or> lb_related_block_id (?bs ! i) \<in> set (map lb_id ?bs)"
        using assms i by (simp add: list_all_length)
      moreover have "j \<notin> fst ` set ?rs" if "lb_id (?bs ! j) = lb_related_block_id (?bs ! i)" for j
        by (rule merge_remapped(2)[OF inv None that])
      ultimately show ?thesis
        using kept_id None by (fastforce simp: c remap_related_def related in_set_conv_nth)
    qed
  qed
qed

definition doubled_layout :: page_layout where
  "doubled_layout = \<lparr>pl_page_index = 0, pl_page_number = 1, pl_blocks =
     [default_layout_block\<lparr>lb_id := ''t'', lb_type := LTable, lb_text_line_indices := [0],
        lb_bbox := \<lparr>bx0 = 0, by0 = 0, bx1 = 10, by1 = 10\<rparr>\<rparr>,
      default_layout_block\<lparr>lb_id := ''f'', lb_type := LFigure, lb_text_line_indices := [0],
        lb_bbox := \<lparr>bx0 = 0, by0 = 0, bx1 = 10, by1 = 9\<rparr>\<rparr>,
      default_layout_block\<lparr>lb_id := ''c'', lb_related_block_id := ''f''\<rparr>]\<rparr>"

definition doubled_tables :: page_tables where
  "doubled_tables = \<lparr>pg_page_index = 0, pg_page_number = 1,
     pg_tables = [default_table\<lparr>tb_layout_block_id := ''t''\<rparr>]\<rparr>"

definition doubled_text :: page_text where
  "doubled_text = empty_page_text\<lparr>pt_lines := [\<lparr>line_text = ''a'',
     line_bbox = \<lparr>bx0 = 1, by0 = 1, bx1 = 2, by1 = 2\<rparr>, line_source = PdfTextLayer, line_confidence = 1,
     line_spans = []\<rparr>]\<rparr>"

lemma resolvePageStructure_related_ids_witness:
  "list_all (\<lambda>b. lb_related_block_id b = [] \<or> lb_related_block_id b \<in>
      set (map lb_id (pl_blocks (fst (resolvePageStructure doubled_text doubled_layout doubled_tables)))))
    (pl_blocks (fst (resolvePageStructure doubled_text doubled_layout doubled_tables)))"
  by (rule resolvePageStructure_related_ids) (simp add: doubled_layout_def default_layout_block_def)

end
