(* ===== verification/Text_Quality.thy ===== *)
theory Text_Quality
  imports Common "HOL-Library.Sublist"
begin

text \<open>
  Choosing a page's text: \<open>cpp/pipeline/text_quality.cpp\<close> (is the native text usable, and
  merging it with OCR lines), \<open>cpp/ocr/orientation_policy.cpp\<close> (is a page rotated) and
  \<open>cpp/pipeline/text_extraction_stage.cpp\<close>. The OCR backend is an interface: a record of its
  operations, of which nothing is assumed.
\<close>

subsection \<open>The quality of native text\<close>

datatype native_action = UseNative | UseOcr | MergeOcr

record text_quality =
  nq_action :: native_action
  nq_non_whitespace_bytes :: nat
  nq_suspicious_bytes :: nat
  nq_control_codepoints :: nat
  nq_distinct_control_codepoints :: nat
  nq_damaging_control_codepoints :: nat
  nq_distinct_damaging_control_codepoints :: nat
  nq_damaging_control_ratio :: double
  nq_vertical_coverage :: double
  nq_reason :: string

record quality_config =
  qc_sparse_text_byte_threshold :: nat
  qc_sparse_vertical_coverage_threshold :: double
  qc_suspicious_byte_ratio_threshold :: double
  qc_damaging_control_minimum :: nat
  qc_severe_damaging_control_ratio_threshold :: double
  qc_diverse_damaging_control_ratio_threshold :: double
  qc_diverse_damaging_control_type_threshold :: nat
  qc_duplicate_overlap_threshold :: double

definition default_quality_config :: quality_config where
  "default_quality_config = \<lparr>qc_sparse_text_byte_threshold = 256,
     qc_sparse_vertical_coverage_threshold = 0.12, qc_suspicious_byte_ratio_threshold = 0.02,
     qc_damaging_control_minimum = 8, qc_severe_damaging_control_ratio_threshold = 0.20,
     qc_diverse_damaging_control_ratio_threshold = 0.05, qc_diverse_damaging_control_type_threshold = 4,
     qc_duplicate_overlap_threshold = 0.5\<rparr>"

definition overlapOverSmallerArea :: "bbox \<Rightarrow> bbox \<Rightarrow> double" where
  "overlapOverSmallerArea lhs rhs =
     (let denominator = min (bboxArea lhs) (bboxArea rhs)
      in if denominator \<le> 0 then 0 else overlapArea lhs rhs / denominator)"

definition line_interval :: "double \<Rightarrow> text_line \<Rightarrow> (double \<times> double) option" where
  "line_interval height line =
     (let y0 = clamp (by0 (line_bbox line)) 0 height; y1 = clamp (by1 (line_bbox line)) 0 height
      in if y1 > y0 then Some (y0, y1) else None)"

text \<open>The merging loop: \<open>covered\<close>, \<open>current_start\<close> and \<open>current_end\<close>.\<close>

fun merge_intervals :: "double \<Rightarrow> double \<Rightarrow> double \<Rightarrow> (double \<times> double) list \<Rightarrow> double" where
  "merge_intervals covered start stop [] = covered + (stop - start)"
| "merge_intervals covered start stop ((a, b) # rest) =
     (if a \<le> stop then merge_intervals covered start (max stop b) rest
      else merge_intervals (covered + (stop - start)) a b rest)"

definition verticalCoverage :: "page_artifact \<Rightarrow> page_text \<Rightarrow> double" where
  "verticalCoverage page page_text =
     (if pa_height page \<le> 0 then 0
      else
        let height = real_of_int (pa_height page);
            intervals = sort (List.map_filter (line_interval height) (pt_lines page_text))
        in case intervals of
             [] \<Rightarrow> 0
           | (a, b) # rest \<Rightarrow> merge_intervals 0 a b rest / height)"

definition isBenignControlCodepoint :: "nat \<Rightarrow> bool" where
  "isBenignControlCodepoint c \<longleftrightarrow> c = 2 \<or> c = 9 \<or> c = 10 \<or> c = 13"

text \<open>Occurrences of U+FFFD's encoding, found one after the other.\<close>

function count_replacements :: "string \<Rightarrow> nat" where
  "count_replacements s =
     (if s = [] then 0
      else if starts_with [CHR 0xEF, CHR 0xBF, CHR 0xBD] s then 1 + count_replacements (drop 3 s)
      else count_replacements (tl s))"
  by pat_completeness auto

termination
  by (relation "measure length") auto

declare count_replacements.simps [simp del]

definition suspicious_byte :: "char \<Rightarrow> bool" where
  "suspicious_byte c \<longleftrightarrow> ((of_char c :: nat) < 32 \<and> \<not> isspace c) \<or> (of_char c :: nat) = 127"

definition all_text :: "page_text \<Rightarrow> string" where
  "all_text page_text = concat (map line_text (pt_lines page_text))"

definition control_counts :: "(nat \<Rightarrow> bool) \<Rightarrow> page_text \<Rightarrow> nat list" where
  "control_counts wanted page_text =
     map snd (filter (\<lambda>(c, n). wanted c) (enumerate 0 (c0_control_counts (pt_signals page_text))))"

definition measured_quality :: "page_artifact \<Rightarrow> page_text \<Rightarrow> text_quality" where
  "measured_quality page native_text =
     (let bytes = all_text native_text;
          controls = control_counts (\<lambda>_. True) native_text;
          damaging = control_counts (\<lambda>c. \<not> isBenignControlCodepoint c) native_text;
          decoded = decoded_codepoints (pt_signals native_text)
      in \<lparr>nq_action = UseOcr,
          nq_non_whitespace_bytes = length (filter (\<lambda>c. \<not> isspace c) bytes),
          nq_suspicious_bytes = length (filter suspicious_byte bytes) +
            (\<Sum>l\<leftarrow>pt_lines native_text. 3 * count_replacements (line_text l)),
          nq_control_codepoints = sum_list controls,
          nq_distinct_control_codepoints = length (filter (\<lambda>n. n > 0) controls),
          nq_damaging_control_codepoints = sum_list damaging,
          nq_distinct_damaging_control_codepoints = length (filter (\<lambda>n. n > 0) damaging),
          nq_damaging_control_ratio = (if decoded > 0 then real (sum_list damaging) / real decoded else 0),
          nq_vertical_coverage = verticalCoverage page native_text,
          nq_reason = []\<rparr>)"

definition evaluate_quality :: "quality_config \<Rightarrow> page_artifact \<Rightarrow> page_text \<Rightarrow> text_quality" where
  "evaluate_quality config page native_text =
     (let q = measured_quality page native_text;
          decide = (\<lambda>action reason. q\<lparr>nq_action := action, nq_reason := reason\<rparr>) in
      if \<not> pt_has_text native_text \<or> nq_non_whitespace_bytes q = 0 then decide UseOcr ''empty_native_text''
      else
        let enough_damage = nq_damaging_control_codepoints q \<ge> qc_damaging_control_minimum config;
            severe = enough_damage \<and>
              nq_damaging_control_ratio q \<ge> qc_severe_damaging_control_ratio_threshold config;
            diverse = enough_damage \<and>
              nq_damaging_control_ratio q \<ge> qc_diverse_damaging_control_ratio_threshold config \<and>
              nq_distinct_damaging_control_codepoints q \<ge> qc_diverse_damaging_control_type_threshold config in
        if severe \<or> diverse then decide UseOcr ''corrupt_native_text_controls''
        else if real (nq_suspicious_bytes q) / real (nq_non_whitespace_bytes q) >
                qc_suspicious_byte_ratio_threshold config then decide UseOcr ''suspicious_native_text''
        else if pa_height page > 0 \<and> nq_non_whitespace_bytes q < qc_sparse_text_byte_threshold config \<and>
                nq_vertical_coverage q < qc_sparse_vertical_coverage_threshold config
        then decide MergeOcr ''sparse_native_text''
        else decide UseNative ''usable_native_text'')"

definition nativeTextActionName :: "native_action \<Rightarrow> string" where
  "nativeTextActionName action =
     (case action of UseNative \<Rightarrow> ''use_native'' | UseOcr \<Rightarrow> ''use_ocr'' | MergeOcr \<Rightarrow> ''merge_ocr'')"

subsection \<open>Merging OCR lines into native text\<close>

definition isDuplicateLine :: "text_line \<Rightarrow> text_line list \<Rightarrow> double \<Rightarrow> bool" where
  "isDuplicateLine candidate existing threshold \<longleftrightarrow>
     list_ex (\<lambda>l. overlapOverSmallerArea (line_bbox candidate) (line_bbox l) \<ge> threshold) existing"

definition add_ocr_line :: "double \<Rightarrow> text_line list \<times> nat \<Rightarrow> text_line \<Rightarrow> text_line list \<times> nat" where
  "add_ocr_line threshold acc line =
     (case acc of (lines, added) \<Rightarrow>
        if line_text line = [] \<or> isDuplicateLine line lines threshold then acc else (lines @ [line], added + 1))"

definition linePosLess :: "text_line \<Rightarrow> text_line \<Rightarrow> bool" where
  "linePosLess lhs rhs =
     (if by0 (line_bbox lhs) \<noteq> by0 (line_bbox rhs) then by0 (line_bbox lhs) < by0 (line_bbox rhs)
      else bx0 (line_bbox lhs) < bx0 (line_bbox rhs))"

interpretation linePosLess: keyed_order linePosLess "\<lambda>l. (by0 (line_bbox l), bx0 (line_bbox l))"
  by unfold_locales (auto simp: linePosLess_def)

definition merge_text :: "quality_config \<Rightarrow> page_text \<Rightarrow> page_text \<Rightarrow> page_text \<times> nat" where
  "merge_text config native_text ocr_text =
     (case foldl (add_ocr_line (qc_duplicate_overlap_threshold config)) (pt_lines native_text, 0) (pt_lines ocr_text) of
        (lines, added) \<Rightarrow>
          let merged = native_text\<lparr>pt_lines := sort_by linePosLess lines, pt_has_text := (lines \<noteq> [])\<rparr>
          in (if added > 0 then merged\<lparr>pt_preferred_source := SourceMixed\<rparr> else merged, added))"

subsection \<open>Page orientation\<close>

record recognition_evidence =
  ev_confidence :: double
  ev_characters :: nat

definition evidence_score :: "recognition_evidence \<Rightarrow> double" where
  "evidence_score line =
     (if ev_characters line \<ge> 4 \<and> isfinite (ev_confidence line) then clamp (ev_confidence line) 0 1 else 0)"

definition recognitionEvidenceScore :: "recognition_evidence list \<Rightarrow> double" where
  "recognitionEvidenceScore lines =
     (if lines = [] then 0 else (\<Sum>l\<leftarrow>lines. evidence_score l) / real (length lines))"

definition shouldProbeUpsideDown :: "recognition_evidence list \<Rightarrow> bool" where
  "shouldProbeUpsideDown lines \<longleftrightarrow> length lines \<ge> 2 \<and> recognitionEvidenceScore lines < 0.8"

definition rotation_vote :: "recognition_evidence \<Rightarrow> recognition_evidence \<Rightarrow> bool" where
  "rotation_vote original rotated \<longleftrightarrow>
     evidence_score rotated \<ge> 0.85 \<and> evidence_score rotated - evidence_score original \<ge> 0.15"

definition rotation_votes :: "recognition_evidence list \<Rightarrow> recognition_evidence list \<Rightarrow> nat" where
  "rotation_votes original rotated = length (filter (\<lambda>(o1, r). rotation_vote o1 r) (zip original rotated))"

definition supportsUpsideDown :: "recognition_evidence list \<Rightarrow> recognition_evidence list \<Rightarrow> bool" where
  "supportsUpsideDown original rotated =
     (if length original \<noteq> length rotated \<or> length rotated < 2 then False
      else rotation_votes original rotated \<ge> 2 \<and>
        rotation_votes original rotated * 3 \<ge> length rotated * 2 \<and>
        recognitionEvidenceScore rotated - recognitionEvidenceScore original \<ge> 0.15)"

definition hasDominantCropRotation :: "int list \<Rightarrow> int \<Rightarrow> bool" where
  "hasDominantCropRotation clockwise_degrees degrees =
     (let votes = length (filter (\<lambda>d. d = degrees) clockwise_degrees)
      in votes \<ge> 2 \<and> votes * 3 \<ge> length clockwise_degrees * 2)"

definition competitors :: "recognition_evidence list \<Rightarrow> recognition_evidence list \<Rightarrow> recognition_evidence list" where
  "competitors source opposite =
     map (\<lambda>(s, p). if evidence_score s \<ge> evidence_score p then s else p) (zip source opposite)"

definition supportedQuarterTurn ::
  "recognition_evidence list \<Rightarrow> recognition_evidence list \<Rightarrow> recognition_evidence list \<Rightarrow> int" where
  "supportedQuarterTurn source clockwise_90 clockwise_270 =
     (if length source \<noteq> length clockwise_90 \<or> length source \<noteq> length clockwise_270 then 0
      else if supportsUpsideDown (competitors source clockwise_270) clockwise_90 then 90
      else if supportsUpsideDown (competitors source clockwise_90) clockwise_270 then 270
      else 0)"

subsection \<open>\<open>TextExtractionStage\<close>\<close>

record ocr_region =
  reg_bbox :: bbox
  reg_detection_confidence :: double
  reg_text :: string
  reg_recognition_confidence :: double

record ocr_result =
  or_page_text :: page_text
  or_regions :: "ocr_region list"
  or_clockwise_correction_degrees :: int

text \<open>\<open>IOcrBackend\<close>: \<open>recognize\<close> gives \<open>None\<close> where the code returns \<open>false\<close>.\<close>

record ocr_backend =
  ocr_recognize :: "page_artifact \<Rightarrow> int \<Rightarrow> ocr_result option"
  ocr_available :: bool
  ocr_unavailable_reason :: string

definition noop_ocr :: ocr_backend where
  "noop_ocr = \<lparr>ocr_recognize = (\<lambda>page dpi. Some \<lparr>or_page_text = empty_page_text\<lparr>
       pt_page_index := pa_page_index page, pt_page_number := pa_page_number page\<rparr>,
       or_regions = [], or_clockwise_correction_degrees = 0\<rparr>), ocr_available = True,
     ocr_unavailable_reason = []\<rparr>"

definition unavailable_ocr :: "string \<Rightarrow> ocr_backend" where
  "unavailable_ocr reason = \<lparr>ocr_recognize = (\<lambda>page dpi. None), ocr_available = False, ocr_unavailable_reason = reason\<rparr>"

record page_text_result = "page_text stage_result" +
  ptr_clockwise_correction_degrees :: int

definition text_error :: "string \<Rightarrow> string \<Rightarrow> status" where
  "text_error code message = status_error code message [] False"

definition ocr_failure_message :: "ocr_backend \<Rightarrow> page_artifact \<Rightarrow> string" where
  "ocr_failure_message ocr page =
     (if ocr_unavailable_reason ocr = [] then ''OCR failed for page '' @ int_to_string (pa_page_number page)
      else ''OCR is required for page '' @ int_to_string (pa_page_number page) @ '': '' @ ocr_unavailable_reason ocr)"

definition extractPage :: "int \<Rightarrow> ocr_backend \<Rightarrow> page_artifact \<Rightarrow> page_text \<Rightarrow> page_text_result" where
  "extractPage dpi ocr page native_text =
     (let extraction = \<lparr>sr_value = native_text, sr_status = status_ok, sr_diagnostics = [],
            ptr_clockwise_correction_degrees = 0\<rparr> in
      if dpi \<le> 0 then extraction\<lparr>sr_status := text_error ''text.invalid_dpi'' ''render DPI must be positive''\<rparr>
      else
        let quality = evaluate_quality default_quality_config page native_text in
        if nq_action quality = UseNative then extraction
        else case ocr_recognize ocr page dpi of
            None \<Rightarrow>
              if nq_action quality = MergeOcr
              then extraction\<lparr>sr_diagnostics := [\<lparr>dg_code = kOcrEnhancementFailed,
                     dg_message = ''OCR enhancement failed; retained usable native text'', dg_stage = ''text'',
                     dg_page_number = pa_page_number page,
                     dg_details = [(''fallback'', ''native_text''), (''reason'', nq_reason quality)]\<rparr>]\<rparr>
              else extraction\<lparr>sr_status := text_error ''text.ocr_failed'' (ocr_failure_message ocr page)\<rparr>
          | Some result \<Rightarrow>
              let extraction = extraction\<lparr>ptr_clockwise_correction_degrees := or_clockwise_correction_degrees result\<rparr>
              in if nq_action quality = MergeOcr
                 then extraction\<lparr>sr_value := fst (merge_text default_quality_config native_text (or_page_text result))\<rparr>
                 else extraction\<lparr>sr_value := or_page_text result\<rparr>)"

text \<open>
  \<open>extract\<close> runs all pages. \<open>native\<close> is the optional native text extractor: absent, or its
  result (\<open>None\<close> when it fails).
\<close>

definition extract_step ::
  "int \<Rightarrow> ocr_backend \<Rightarrow> page_artifact list \<Rightarrow> page_text list stage_result \<Rightarrow> nat \<Rightarrow> page_text list stage_result" where
  "extract_step dpi ocr pages acc index =
     (if \<not> sr_ok acc then acc
      else
        let result = extractPage dpi ocr (pages ! index) (sr_value acc ! index);
            acc = acc\<lparr>sr_value := (sr_value acc)[index := sr_value result]\<rparr>
        in if \<not> sr_ok result then acc\<lparr>sr_status := sr_status result\<rparr>
           else acc\<lparr>sr_diagnostics := sr_diagnostics acc @ sr_diagnostics result\<rparr>)"

definition extract_text ::
  "int \<Rightarrow> (int \<Rightarrow> page_text list option) option \<Rightarrow> ocr_backend \<Rightarrow> page_artifact list \<Rightarrow> page_text list stage_result" where
  "extract_text dpi native ocr pages =
     (let start = \<lparr>sr_value = [], sr_status = status_ok, sr_diagnostics = []\<rparr>;
          run = (\<lambda>texts.
            if length texts \<noteq> length pages
            then start\<lparr>sr_value := texts, sr_status := text_error ''text.page_count_mismatch''
                   ''native text page count does not match page artifacts''\<rparr>
            else foldl (extract_step dpi ocr pages) (start\<lparr>sr_value := texts\<rparr>) [0..<length texts])
      in if dpi \<le> 0 then start\<lparr>sr_status := text_error ''text.invalid_dpi'' ''render DPI must be positive''\<rparr>
         else case native of
             Some extractNativeText \<Rightarrow>
               (case extractNativeText dpi of
                  None \<Rightarrow> start\<lparr>sr_status := text_error ''text.native_extraction_failed'' ''native text extraction failed''\<rparr>
                | Some texts \<Rightarrow> run texts)
           | None \<Rightarrow> run (map (\<lambda>page. empty_page_text\<lparr>pt_page_index := pa_page_index page,
                 pt_page_number := pa_page_number page\<rparr>) pages))"

subsection \<open>Coverage is a share of the page\<close>

lemma merge_intervals_grows: "start \<le> stop \<Longrightarrow> list_all (\<lambda>(a, b). a \<le> b) ivs \<Longrightarrow>
   covered + (stop - start) \<le> merge_intervals covered start stop ivs"
proof (induction covered start stop ivs rule: merge_intervals.induct)
  case (2 covered start stop a b rest)
  show ?case
  proof (cases "a \<le> stop")
    case True
    with 2 have "covered + (max stop b - start) \<le> merge_intervals covered start (max stop b) rest" by simp
    with True show ?thesis by simp
  next
    case False
    with 2 have "covered + (stop - start) + (b - a) \<le> merge_intervals (covered + (stop - start)) a b rest" by simp
    with False 2 show ?thesis by simp
  qed
qed simp

lemma merge_intervals_upper: "covered \<le> start \<Longrightarrow> stop \<le> H \<Longrightarrow> list_all (\<lambda>(a, b). b \<le> H) ivs \<Longrightarrow>
   merge_intervals covered start stop ivs \<le> H"
  by (induction covered start stop ivs rule: merge_intervals.induct) (auto simp: not_le)

lemma merge_intervals_each:
  "start \<le> stop \<Longrightarrow> 0 \<le> covered \<Longrightarrow> sorted ((start, e) # ivs) \<Longrightarrow> list_all (\<lambda>(a, b). a \<le> b) ivs \<Longrightarrow>
   (a, b) \<in> set ivs \<Longrightarrow> b - a \<le> merge_intervals covered start stop ivs"
proof (induction covered start stop ivs arbitrary: e rule: merge_intervals.induct)
  case (2 covered start stop c d rest)
  have first_le: "start \<le> c" using "2.prems"(3) by (auto simp: less_eq_prod_def)
  have tail: "sorted ((c, d) # rest)" using "2.prems"(3) by simp
  show ?case
  proof (cases "c \<le> stop")
    case True
    have "sorted ((start, e) # rest)" using "2.prems"(3) by auto
    then have rest: "(a, b) \<in> set rest \<Longrightarrow> b - a \<le> merge_intervals covered start (max stop d) rest"
      using "2.IH"(1)[OF True, of e] "2.prems" by simp
    have "d - c \<le> covered + (max stop d - start)" using first_le "2.prems"(2) by (simp add: max_def)
    also have "\<dots> \<le> merge_intervals covered start (max stop d) rest"
      using "2.prems" by (intro merge_intervals_grows) auto
    finally show ?thesis using True rest "2.prems"(5) by auto
  next
    case False
    have rest: "(a, b) \<in> set rest \<Longrightarrow> b - a \<le> merge_intervals (covered + (stop - start)) c d rest"
      using "2.IH"(2)[OF False _ _ tail] "2.prems" by simp
    have "d - c \<le> covered + (stop - start) + (d - c)" using "2.prems"(1,2) by simp
    also have "\<dots> \<le> merge_intervals (covered + (stop - start)) c d rest"
      using "2.prems" by (intro merge_intervals_grows) auto
    finally show ?thesis using False rest "2.prems"(5) by auto
  qed
qed simp

lemma verticalCoverage_ok:
  "0 \<le> verticalCoverage page page_text \<and> verticalCoverage page page_text \<le> 1 \<and>
   (\<forall>l\<in>set (pt_lines page_text). 0 < pa_height page \<longrightarrow>
     clamp (by1 (line_bbox l)) 0 (real_of_int (pa_height page)) - clamp (by0 (line_bbox l)) 0 (real_of_int (pa_height page))
       \<le> verticalCoverage page page_text * real_of_int (pa_height page))"
proof (cases "0 < pa_height page")
  case False
  then show ?thesis by (simp add: verticalCoverage_def)
next
  case True
  let ?H = "real_of_int (pa_height page)"
  let ?ivs = "List.map_filter (line_interval ?H) (pt_lines page_text)"
  have iv: "a \<le> b \<and> 0 \<le> a \<and> b \<le> ?H" if "(a, b) \<in> set ?ivs" for a b
    using that True by (auto simp: List.map_filter_def line_interval_def Let_def clamp_def split: if_splits)
  have short: "l \<in> set (pt_lines page_text) \<Longrightarrow>
      clamp (by1 (line_bbox l)) 0 ?H \<le> clamp (by0 (line_bbox l)) 0 ?H \<or>
      (clamp (by0 (line_bbox l)) 0 ?H, clamp (by1 (line_bbox l)) 0 ?H) \<in> set ?ivs" for l
    by (auto simp: List.map_filter_def line_interval_def Let_def image_iff)
  show ?thesis
  proof (cases "sort ?ivs")
    case Nil
    then have "?ivs = []" by (metis length_0_conv length_sort)
    with short True show ?thesis by (fastforce simp: verticalCoverage_def Let_def)
  next
    case (Cons p rest)
    obtain a b where p: "p = (a, b)" by (cases p)
    let ?c = "merge_intervals 0 a b rest"
    have members: "set ?ivs = insert (a, b) (set rest)" using Cons p by (metis list.simps(15) set_sort)
    have cov: "verticalCoverage page page_text = ?c / ?H" using True Cons p by (simp add: verticalCoverage_def Let_def)
    have ab: "a \<le> b" "0 \<le> a" "b \<le> ?H" using iv members by auto
    have ordered: "list_all (\<lambda>(a, b). a \<le> b) rest" "list_all (\<lambda>(a, b). b \<le> ?H) rest"
      using iv members by (auto simp: list_all_iff)
    have grows: "b - a \<le> ?c" using merge_intervals_grows[OF ab(1) ordered(1), of 0] by simp
    have upper: "?c \<le> ?H" using merge_intervals_upper[OF ab(2,3) ordered(2)] .
    have "sorted ((a, b) # rest)" using Cons p by (metis sorted_sort)
    from merge_intervals_each[OF ab(1) order.refl this ordered(1)] grows
    have each: "(c, d) \<in> set ?ivs \<Longrightarrow> d - c \<le> ?c" for c d using members by auto
    have "0 \<le> ?c" using grows ab(1) by simp
    moreover have "clamp (by1 (line_bbox l)) 0 ?H - clamp (by0 (line_bbox l)) 0 ?H \<le> ?c"
      if "l \<in> set (pt_lines page_text)" for l
      using short[OF that] each \<open>0 \<le> ?c\<close> by force
    ultimately show ?thesis using True upper by (simp add: cov)
  qed
qed

subsection \<open>Merging keeps the native lines\<close>

definition clear_of :: "double \<Rightarrow> text_line list \<Rightarrow> text_line \<Rightarrow> bool" where
  "clear_of threshold lines l \<longleftrightarrow> line_text l \<noteq> [] \<and> \<not> isDuplicateLine l lines threshold"

lemma isDuplicateLine_append [simp]:
  "isDuplicateLine l (xs @ ys) t \<longleftrightarrow> isDuplicateLine l xs t \<or> isDuplicateLine l ys t"
  by (auto simp: isDuplicateLine_def)

lemma add_ocr_lines:
  "\<exists>added. foldl (add_ocr_line t) (lines, n) ocr = (lines @ added, n + length added) \<and> subseq added ocr \<and>
     list_all (clear_of t lines) added \<and> sorted_wrt (\<lambda>a b. \<not> isDuplicateLine b [a] t) added \<and>
     list_all (\<lambda>l. line_text l = [] \<or> l \<in> set added \<or> isDuplicateLine l (lines @ added) t) ocr"
proof (induction ocr arbitrary: lines n)
  case (Cons l ocr)
  show ?case
  proof (cases "line_text l = [] \<or> isDuplicateLine l lines t")
    case True
    then have "add_ocr_line t (lines, n) l = (lines, n)" by (auto simp: add_ocr_line_def)
    with Cons.IH[of lines n] True show ?thesis by (auto intro: list_emb_Cons)
  next
    case False
    then have step: "add_ocr_line t (lines, n) l = (lines @ [l], n + 1)" by (simp add: add_ocr_line_def)
    from Cons.IH[of "lines @ [l]" "n + 1"] obtain added where
      added: "foldl (add_ocr_line t) (lines @ [l], n + 1) ocr = ((lines @ [l]) @ added, n + 1 + length added)"
        "subseq added ocr" "list_all (clear_of t (lines @ [l])) added"
        "sorted_wrt (\<lambda>a b. \<not> isDuplicateLine b [a] t) added"
        "list_all (\<lambda>l'. line_text l' = [] \<or> l' \<in> set added \<or> isDuplicateLine l' ((lines @ [l]) @ added) t) ocr"
      by blast
    show ?thesis
      using False step added by (intro exI[of _ "l # added"]) (auto simp: list_all_iff clear_of_def)
  qed
qed simp

text \<open>
  Merging OCR text into sparse native text keeps every native line and adds a subsequence
  of the OCR lines: no added line is empty or overlaps a native line or an earlier added one at
  the threshold, and an OCR line that is not added is empty or overlaps a kept one. The result
  is in reading position order, and the page counts as mixed exactly when a line was added.
\<close>

lemma merge_text_sound:
  "case merge_text config native_text ocr_text of (merged, n) \<Rightarrow>
     \<exists>added. n = length added \<and> subseq added (pt_lines ocr_text) \<and>
       mset (pt_lines merged) = mset (pt_lines native_text) + mset added \<and>
       list_all (clear_of (qc_duplicate_overlap_threshold config) (pt_lines native_text)) added \<and>
       sorted_wrt (\<lambda>a b. \<not> isDuplicateLine b [a] (qc_duplicate_overlap_threshold config)) added \<and>
       list_all (\<lambda>l. line_text l = [] \<or> l \<in> set added \<or>
         isDuplicateLine l (pt_lines native_text @ added) (qc_duplicate_overlap_threshold config)) (pt_lines ocr_text) \<and>
       sorted (map (\<lambda>l. (by0 (line_bbox l), bx0 (line_bbox l))) (pt_lines merged)) \<and>
       pt_has_text merged = (pt_lines merged \<noteq> []) \<and>
       pt_preferred_source merged = (if added = [] then pt_preferred_source native_text else SourceMixed)"
proof -
  let ?t = "qc_duplicate_overlap_threshold config"
  obtain added where
    added: "foldl (add_ocr_line ?t) (pt_lines native_text, 0) (pt_lines ocr_text)
              = (pt_lines native_text @ added, length added)"
      "subseq added (pt_lines ocr_text)" "list_all (clear_of ?t (pt_lines native_text)) added"
      "sorted_wrt (\<lambda>a b. \<not> isDuplicateLine b [a] ?t) added"
      "list_all (\<lambda>l. line_text l = [] \<or> l \<in> set added \<or> isDuplicateLine l (pt_lines native_text @ added) ?t)
         (pt_lines ocr_text)"
    using add_ocr_lines[of ?t "pt_lines native_text" 0 "pt_lines ocr_text"] by auto
  have lines: "pt_lines (fst (merge_text config native_text ocr_text))
      = sort_by linePosLess (pt_lines native_text @ added)"
    by (simp add: merge_text_def added(1) Let_def)
  show ?thesis
    unfolding merge_text_def added(1) Let_def prod.case
    using added(2-) linePosLess.sort_by_key_sorted[of "pt_lines native_text @ added"]
    by (intro exI[of _ added]) auto
qed

subsection \<open>A quarter turn is supported in one direction only\<close>

lemma sum_scores_mono:
  "length xs = length ys \<Longrightarrow> (\<And>x y. (x, y) \<in> set (zip xs ys) \<Longrightarrow> evidence_score x \<le> evidence_score y) \<Longrightarrow>
   (\<Sum>l\<leftarrow>xs. evidence_score l) \<le> (\<Sum>l\<leftarrow>ys. evidence_score l)"
  by (induction xs ys rule: list_induct2) (auto intro!: add_mono)

lemma length_competitors [simp]: "length xs = length ys \<Longrightarrow> length (competitors xs ys) = length xs"
  by (simp add: competitors_def)

lemma score_quotient: "recognitionEvidenceScore lines = (\<Sum>l\<leftarrow>lines. evidence_score l) / real (length lines)"
  by (simp add: recognitionEvidenceScore_def)

lemma competitors_score:
  "length xs = length ys \<Longrightarrow> recognitionEvidenceScore ys \<le> recognitionEvidenceScore (competitors xs ys)"
proof -
  assume len: "length xs = length ys"
  have "(\<Sum>l\<leftarrow>ys. evidence_score l) \<le> (\<Sum>l\<leftarrow>competitors xs ys. evidence_score l)"
    by (rule sum_scores_mono) (auto simp: competitors_def len in_set_zip)
  then show ?thesis unfolding score_quotient using len by (simp add: divide_right_mono)
qed

lemma one_direction:
  assumes "length s = length a" "length s = length b" "supportsUpsideDown (competitors s b) a"
  shows "\<not> supportsUpsideDown (competitors s a) b"
proof
  assume "supportsUpsideDown (competitors s a) b"
  then have "recognitionEvidenceScore b - recognitionEvidenceScore (competitors s a) \<ge> 0.15"
    by (simp add: supportsUpsideDown_def split: if_splits)
  moreover have "recognitionEvidenceScore a - recognitionEvidenceScore (competitors s b) \<ge> 0.15"
    using assms(3) by (simp add: supportsUpsideDown_def split: if_splits)
  ultimately show False using competitors_score[OF assms(1)] competitors_score[OF assms(2)] by simp
qed

definition clear_win :: "recognition_evidence \<Rightarrow> recognition_evidence \<Rightarrow> recognition_evidence \<Rightarrow> bool" where
  "clear_win s opp c \<longleftrightarrow> evidence_score c \<ge> 0.85 \<and> evidence_score c - evidence_score s \<ge> 0.15 \<and>
     evidence_score c - evidence_score opp \<ge> 0.15"

lemma votes_against_competitors:
  "length s = length a \<Longrightarrow> length s = length b \<Longrightarrow>
   rotation_votes (competitors s b) a = length (filter (\<lambda>(x, y, z). clear_win x y z) (zip s (zip b a)))"
proof (induction s a arbitrary: b rule: list_induct2)
  case (Cons x xs y ys)
  then obtain z zs where "b = z # zs" by (metis length_Suc_conv)
  with Cons show ?case
    by (auto simp: rotation_votes_def competitors_def rotation_vote_def clear_win_def)
qed (simp add: rotation_votes_def competitors_def)

lemma quarter_turn_support:
  assumes "length s = length a" "length s = length b" "supportsUpsideDown (competitors s b) a"
  shows "3 * length (filter (\<lambda>(x, y, z). clear_win x y z) (zip s (zip b a))) \<ge> 2 * length s \<and>
    length (filter (\<lambda>(x, y, z). clear_win x y z) (zip s (zip b a))) \<ge> 2"
  using assms votes_against_competitors[OF assms(1,2)]
  by (auto simp: supportsUpsideDown_def split: if_splits)

text \<open>
  The quarter-turn decision does not depend on which direction is asked first: it proposes
  90 degrees exactly when, with the two poses exchanged, it proposes 270; and a proposed turn
  is one where at least two lines and at least two thirds of them are recognised with a score
  of 0.85 and beat, on the same line, both the source pose and the opposite direction by 0.15.
\<close>

lemma supportedQuarterTurn_clear:
  "(supportedQuarterTurn s a b = 90) = (supportedQuarterTurn s b a = 270) \<and>
   (if supportedQuarterTurn s a b = 90
    then 3 * length (filter (\<lambda>(x, y, z). clear_win x y z) (zip s (zip b a))) \<ge> 2 * length s \<and>
      length (filter (\<lambda>(x, y, z). clear_win x y z) (zip s (zip b a))) \<ge> 2
    else if supportedQuarterTurn s a b = 270
    then 3 * length (filter (\<lambda>(x, y, z). clear_win x y z) (zip s (zip a b))) \<ge> 2 * length s \<and>
      length (filter (\<lambda>(x, y, z). clear_win x y z) (zip s (zip a b))) \<ge> 2
    else supportedQuarterTurn s a b = 0)"
proof (cases "length s = length a \<and> length s = length b")
  case False
  then show ?thesis by (auto simp: supportedQuarterTurn_def)
next
  case True
  then have len: "length s = length a" "length s = length b" "length a = length s" "length b = length s" by auto
  have turn: "supportedQuarterTurn s a b = (if supportsUpsideDown (competitors s b) a then 90
      else if supportsUpsideDown (competitors s a) b then 270 else 0)"
    if "length s = length a" "length s = length b" for a b
    using that by (simp add: supportedQuarterTurn_def)
  show ?thesis
    using one_direction[OF len(1,2)] one_direction[OF len(2,1)] quarter_turn_support[OF len(1,2)]
      quarter_turn_support[OF len(2,1)] turn[OF len(1,2)] turn[OF len(2,1)]
    by (cases "supportsUpsideDown (competitors s b) a"; cases "supportsUpsideDown (competitors s a) b") simp_all
qed

subsection \<open>When text extraction fails, and what it leaves\<close>

definition ocr_required :: "ocr_backend \<Rightarrow> int \<Rightarrow> page_artifact \<Rightarrow> page_text \<Rightarrow> bool" where
  "ocr_required ocr dpi page native_text \<longleftrightarrow>
     nq_action (evaluate_quality default_quality_config page native_text) = UseOcr \<and>
     ocr_recognize ocr page dpi = None"

lemma extractPage_outcome:
  "0 < dpi \<Longrightarrow> sr_ok (extractPage dpi ocr page native_text) \<longleftrightarrow> \<not> ocr_required ocr dpi page native_text"
  by (cases "nq_action (evaluate_quality default_quality_config page native_text)";
      cases "ocr_recognize ocr page dpi")
    (simp_all add: extractPage_def ocr_required_def sr_ok_def text_error_def Let_def)

lemma extractPage_failed:
  "0 < dpi \<Longrightarrow> ocr_required ocr dpi page native_text \<Longrightarrow>
   sr_value (extractPage dpi ocr page native_text) = native_text \<and>
   sr_diagnostics (extractPage dpi ocr page native_text) = [] \<and>
   sr_status (extractPage dpi ocr page native_text)
     = status_error ''text.ocr_failed'' (ocr_failure_message ocr page) [] False"
  by (simp add: extractPage_def ocr_required_def text_error_def Let_def)

lemma extractPage_diagnostics:
  "list_all (\<lambda>d. isRegistered (dg_code d) \<and> dg_page_number d = pa_page_number page)
     (sr_diagnostics (extractPage dpi ocr page native_text))"
  by (cases "nq_action (evaluate_quality default_quality_config page native_text)";
      cases "ocr_recognize ocr page dpi")
    (simp_all add: extractPage_def isRegistered_iff Let_def)

definition page_results ::
  "int \<Rightarrow> ocr_backend \<Rightarrow> page_artifact list \<Rightarrow> page_text list \<Rightarrow> page_text_result list" where
  "page_results dpi ocr pages texts = map2 (extractPage dpi ocr) pages texts"

definition extracted_pages ::
  "int \<Rightarrow> ocr_backend \<Rightarrow> page_artifact list \<Rightarrow> page_text list \<Rightarrow> page_text list stage_result" where
  "extracted_pages dpi ocr pages texts =
     (let results = page_results dpi ocr pages texts;
          good = takeWhile (\<lambda>(page, native_text). \<not> ocr_required ocr dpi page native_text) (zip pages texts);
          n = length good
      in \<lparr>sr_value = map sr_value (take n results) @ drop n texts,
          sr_status = (if n < length pages then sr_status (results ! n) else status_ok),
          sr_diagnostics = concat (map sr_diagnostics (take n results))\<rparr>)"

lemma extract_steps_skip: "\<not> sr_ok acc \<Longrightarrow> foldl (extract_step dpi ocr pages) acc is = acc"
  by (induction "is") (simp_all add: extract_step_def)

lemma extract_steps:
  "0 < dpi \<Longrightarrow> length texts = length pages \<Longrightarrow> sr_ok acc \<Longrightarrow> length done_texts = length done_pages \<Longrightarrow>
   sr_value acc = done_texts @ texts \<Longrightarrow>
   foldl (extract_step dpi ocr (done_pages @ pages)) acc [length done_pages..<length done_pages + length pages]
     = (let r = extracted_pages dpi ocr pages texts
        in acc\<lparr>sr_value := done_texts @ sr_value r,
               sr_status := (if sr_ok r then sr_status acc else sr_status r),
               sr_diagnostics := sr_diagnostics acc @ sr_diagnostics r\<rparr>)"
proof (induction pages arbitrary: texts acc done_texts done_pages)
  case Nil
  then show ?case by (simp add: extracted_pages_def page_results_def sr_ok_def)
next
  case (Cons page pages)
  obtain text1 texts' where texts: "texts = text1 # texts'" using Cons.prems(2) by (cases texts) auto
  let ?r = "extractPage dpi ocr page text1"
  let ?acc = "extract_step dpi ocr (done_pages @ page # pages) acc (length done_pages)"
  have range: "[length done_pages..<length done_pages + length (page # pages)]
      = length done_pages # [length (done_pages @ [page])..<length (done_pages @ [page]) + length pages]"
    by (simp add: upt_rec)
  have step: "?acc = (let acc = acc\<lparr>sr_value := done_texts @ sr_value ?r # texts'\<rparr>
      in if \<not> sr_ok ?r then acc\<lparr>sr_status := sr_status ?r\<rparr>
         else acc\<lparr>sr_diagnostics := sr_diagnostics acc @ sr_diagnostics ?r\<rparr>)"
    using Cons.prems(3-5) texts
    by (simp add: extract_step_def Let_def nth_append list_update_append flip: Cons.prems(4))
  show ?case
  proof (cases "ocr_required ocr dpi page text1")
    case True
    then have bad: "\<not> sr_ok ?r" using extractPage_outcome[OF Cons.prems(1)] by simp
    then have "\<not> sr_ok ?acc" by (simp add: step sr_ok_def Let_def)
    with True bad show ?thesis
      unfolding range
      by (simp add: extract_steps_skip step texts extracted_pages_def page_results_def sr_ok_def
          extractPage_failed[OF Cons.prems(1)] Let_def)
  next
    case False
    then have good: "sr_ok ?r" using extractPage_outcome[OF Cons.prems(1)] by simp
    have "foldl (extract_step dpi ocr ((done_pages @ [page]) @ pages)) ?acc
        [length (done_pages @ [page])..<length (done_pages @ [page]) + length pages]
      = (let r = extracted_pages dpi ocr pages texts'
         in ?acc\<lparr>sr_value := (done_texts @ [sr_value ?r]) @ sr_value r,
               sr_status := (if sr_ok r then sr_status ?acc else sr_status r),
               sr_diagnostics := sr_diagnostics ?acc @ sr_diagnostics r\<rparr>)"
      using Cons.prems good texts
      by (intro Cons.IH) (simp_all add: step Let_def sr_ok_def)
    with False good show ?thesis
      unfolding range
      by (simp add: step texts extracted_pages_def page_results_def sr_ok_def Let_def)
  qed
qed

lemma takeWhile_shorter: "length (takeWhile (\<lambda>x. \<not> P x) xs) < length xs \<longleftrightarrow> list_ex P xs"
  by (induction xs) auto

lemma extracted_pages_status:
  assumes "0 < dpi" "length texts = length pages"
  shows "sr_ok (extracted_pages dpi ocr pages texts)
      = (\<not> list_ex (\<lambda>(page, native_text). ocr_required ocr dpi page native_text) (zip pages texts))"
    and "sr_ok (extracted_pages dpi ocr pages texts) \<Longrightarrow> sr_status (extracted_pages dpi ocr pages texts) = status_ok"
proof -
  let ?P = "\<lambda>(page, native_text). ocr_required ocr dpi page native_text"
  let ?n = "length (takeWhile (\<lambda>x. \<not> ?P x) (zip pages texts))"
  have neg: "(\<lambda>(page, native_text). \<not> ocr_required ocr dpi page native_text) = (\<lambda>x. \<not> ?P x)" by auto
  have stops: "\<not> sr_ok (page_results dpi ocr pages texts ! ?n)" if "?n < length pages"
  proof -
    from that have lt: "?n < length (zip pages texts)" using assms(2) by simp
    from nth_length_takeWhile[OF lt] have "ocr_required ocr dpi (pages ! ?n) (texts ! ?n)" using lt by simp
    then show ?thesis using lt extractPage_outcome[OF assms(1)] by (simp add: page_results_def)
  qed
  then have ok: "sr_ok (extracted_pages dpi ocr pages texts) \<longleftrightarrow> \<not> ?n < length pages"
    by (simp add: extracted_pages_def sr_ok_def neg Let_def)
  then show "sr_ok (extracted_pages dpi ocr pages texts) \<Longrightarrow> sr_status (extracted_pages dpi ocr pages texts) = status_ok"
    by (simp add: extracted_pages_def neg Let_def)
  have "?n < length pages \<longleftrightarrow> list_ex ?P (zip pages texts)"
    using assms(2) takeWhile_shorter[of ?P "zip pages texts"] by simp
  with ok show "sr_ok (extracted_pages dpi ocr pages texts) = (\<not> list_ex ?P (zip pages texts))" by simp
qed

text \<open>
  C19: Text extraction over the pages stops at the first page whose native text is unusable and
  whose OCR fails, and nowhere else: the pages before it carry their extracted text and their
  diagnostics, that page and the later ones keep their native text, and the status is that
  page's error; without such a page the stage succeeds.
\<close>

theorem extract_text_outcome:
  assumes "0 < dpi" "native dpi = Some texts" "length texts = length pages"
  shows "extract_text dpi (Some native) ocr pages = extracted_pages dpi ocr pages texts \<and>
    sr_ok (extract_text dpi (Some native) ocr pages)
      = (\<not> list_ex (\<lambda>(page, native_text). ocr_required ocr dpi page native_text) (zip pages texts))"
  using extracted_pages_status[OF assms(1,3), of ocr]
    extract_steps[of dpi texts pages "\<lparr>sr_value = texts, sr_status = status_ok, sr_diagnostics = []\<rparr>" "[]" "[]" ocr]
    assms
  by (cases "sr_ok (extracted_pages dpi ocr pages texts)") (simp_all add: extract_text_def sr_ok_def Let_def)

definition blank_page :: page_artifact where
  "blank_page = \<lparr>pa_page_index = 0, pa_page_number = 1, pa_relative_image = [], pa_output_path = [],
     pa_width = 100, pa_height = 100, pa_debug_images = []\<rparr>"

theorem extract_text_outcome_witness:
  "\<not> sr_ok (extract_text 200 (Some (\<lambda>_. Some [empty_page_text])) (unavailable_ocr ''x'') [blank_page])"
proof -
  have "ocr_required (unavailable_ocr ''x'') 200 blank_page empty_page_text"
    by (simp add: ocr_required_def unavailable_ocr_def evaluate_quality_def empty_page_text_def Let_def)
  moreover have "sr_ok (extract_text 200 (Some (\<lambda>_. Some [empty_page_text])) (unavailable_ocr ''x'') [blank_page])
      = (\<not> list_ex (\<lambda>(page, native_text). ocr_required (unavailable_ocr ''x'') 200 page native_text)
           (zip [blank_page] [empty_page_text]))"
    by (rule extract_text_outcome[THEN conjunct2]) simp_all
  ultimately show ?thesis by simp
qed

end
