(* ===== verification/Image_Cache.thy ===== *)
theory Image_Cache
  imports Common
begin

text \<open>
  \<open>cpp/image/page_image_cache.cpp\<close>: the cache of page images that one parse owns. It holds
  rendered RGBA pixels until a consumer asks for them, converts them once, and never keeps more
  than its budget. Sizes are 64-bit words, as \<open>size_t\<close> is. Every operation holds the cache's
  mutex throughout, so an execution is a sequence of whole operations: the step relation below.
  OpenCV's \<open>imread\<close> and \<open>cvtColor\<close> are parameters; the two time counters are left out.
\<close>

subsection \<open>The state\<close>

type_synonym size_t = "64 word"

record page_bitmap =
  bm_page_index :: int
  bm_page_number :: int
  bm_width :: int
  bm_height :: int
  bm_channels :: int
  bm_pixels :: "8 word list"
  bm_capacity :: size_t

definition default_bitmap :: page_bitmap where
  "default_bitmap = \<lparr>bm_page_index = 0, bm_page_number = 0, bm_width = 0, bm_height = 0,
     bm_channels = 4, bm_pixels = [], bm_capacity = 0\<rparr>"

text \<open>What the cache uses of a \<open>cv::Mat\<close>: its element count, its element size and its bytes.\<close>

record mat =
  mat_total :: size_t
  mat_elem_size :: size_t
  mat_data :: "8 word list"

definition empty_mat :: mat where
  "empty_mat = \<lparr>mat_total = 0, mat_elem_size = 0, mat_data = []\<rparr>"

definition mat_empty :: "mat \<Rightarrow> bool" where
  "mat_empty m \<longleftrightarrow> mat_total m = 0"

definition mat_bytes :: "mat \<Rightarrow> size_t" where
  "mat_bytes m = mat_total m * mat_elem_size m"

record cached_image =
  ci_bgr :: mat
  ci_rendered :: page_bitmap

record image_cache =
  ch_maximum_bytes :: size_t
  ch_images :: "(string \<times> cached_image) list"
  ch_hits :: size_t
  ch_decodes :: size_t
  ch_failures :: size_t
  ch_uncached_decodes :: size_t
  ch_rendered_admissions :: size_t
  ch_rendered_rejections :: size_t
  ch_conversions :: size_t
  ch_resident_bytes :: size_t
  ch_peak_resident_bytes :: size_t

definition new_cache :: "size_t \<Rightarrow> image_cache" where
  "new_cache maximum_bytes = \<lparr>ch_maximum_bytes = maximum_bytes, ch_images = [], ch_hits = 0,
     ch_decodes = 0, ch_failures = 0, ch_uncached_decodes = 0, ch_rendered_admissions = 0,
     ch_rendered_rejections = 0, ch_conversions = 0, ch_resident_bytes = 0, ch_peak_resident_bytes = 0\<rparr>"

subsection \<open>The operations\<close>

definition reject :: "image_cache \<Rightarrow> bool \<times> image_cache" where
  "reject c = (False, c\<lparr>ch_rendered_rejections := ch_rendered_rejections c + 1\<rparr>)"

definition matches_page :: "page_artifact \<Rightarrow> page_bitmap \<Rightarrow> bool" where
  "matches_page page bitmap \<longleftrightarrow>
     \<not> (bm_width bitmap \<le> 0 \<or> bm_height bitmap \<le> 0 \<or> bm_channels bitmap \<noteq> 4 \<or>
        bm_width bitmap \<noteq> pa_width page \<or> bm_height bitmap \<noteq> pa_height page \<or>
        bm_page_index bitmap \<noteq> pa_page_index page \<or> bm_page_number bitmap \<noteq> pa_page_number page)"

definition packed_pixels :: "page_bitmap \<Rightarrow> bool" where
  "packed_pixels bitmap =
     (let width = of_int (bm_width bitmap) :: size_t; height = of_int (bm_height bitmap) :: size_t
      in \<not> (width > (- 1) div 4 div height \<or> of_nat (length (bm_pixels bitmap)) \<noteq> width * height * 4))"

definition admitRendered :: "page_artifact \<Rightarrow> page_bitmap \<Rightarrow> image_cache \<Rightarrow> bool \<times> image_cache" where
  "admitRendered page bitmap c =
     (if \<not> matches_page page bitmap then reject c
      else if \<not> packed_pixels bitmap then reject c
      else
        let bytes = bm_capacity bitmap in
        if bytes > ch_maximum_bytes c - ch_resident_bytes c then reject c
        else if map_of (ch_images c) (pa_output_path page) \<noteq> None then reject c
        else
          let resident = ch_resident_bytes c + bytes
          in (True, c\<lparr>ch_images := (pa_output_path page, \<lparr>ci_bgr = empty_mat, ci_rendered = bitmap\<rparr>) # ch_images c,
                 ch_resident_bytes := resident,
                 ch_peak_resident_bytes := max (ch_peak_resident_bytes c) resident,
                 ch_rendered_admissions := ch_rendered_admissions c + 1\<rparr>))"

definition store_image :: "string \<Rightarrow> cached_image \<Rightarrow> (string \<times> cached_image) list \<Rightarrow> (string \<times> cached_image) list" where
  "store_image key cached images = map (\<lambda>(k, e). if k = key then (k, cached) else (k, e)) images"

definition convert_entry :: "(page_bitmap \<Rightarrow> mat) \<Rightarrow> string \<Rightarrow> cached_image \<Rightarrow> image_cache \<Rightarrow> image_cache" where
  "convert_entry cvtColor key cached c =
     (let bitmap = ci_rendered cached; bgr = cvtColor bitmap
      in c\<lparr>ch_conversions := ch_conversions c + 1,
           ch_images := store_image key \<lparr>ci_bgr = bgr, ci_rendered = default_bitmap\<rparr> (ch_images c),
           ch_resident_bytes := ch_resident_bytes c - bm_capacity bitmap + mat_bytes bgr\<rparr>)"

definition cache_read ::
  "(string \<Rightarrow> mat) \<Rightarrow> (page_bitmap \<Rightarrow> mat) \<Rightarrow> string \<Rightarrow> image_cache \<Rightarrow> mat \<times> image_cache" where
  "cache_read imread cvtColor key c =
     (case map_of (ch_images c) key of
        Some cached \<Rightarrow>
          (if mat_empty (ci_bgr cached)
           then (cvtColor (ci_rendered cached), (convert_entry cvtColor key cached c)\<lparr>ch_hits := ch_hits c + 1\<rparr>)
           else (ci_bgr cached, c\<lparr>ch_hits := ch_hits c + 1\<rparr>))
      | None \<Rightarrow>
          let image = imread key in
          if mat_empty image then (image, c\<lparr>ch_failures := ch_failures c + 1\<rparr>)
          else
            let c = c\<lparr>ch_decodes := ch_decodes c + 1\<rparr>; bytes = mat_bytes image in
            if bytes \<le> ch_maximum_bytes c - ch_resident_bytes c
            then
              let resident = ch_resident_bytes c + bytes
              in (image, c\<lparr>ch_images := (key, \<lparr>ci_bgr = image, ci_rendered = default_bitmap\<rparr>) # ch_images c,
                     ch_resident_bytes := resident,
                     ch_peak_resident_bytes := max (ch_peak_resident_bytes c) resident\<rparr>)
            else (image, c\<lparr>ch_uncached_decodes := ch_uncached_decodes c + 1\<rparr>))"

definition cache_clear :: "image_cache \<Rightarrow> image_cache" where
  "cache_clear c = c\<lparr>ch_images := [], ch_resident_bytes := 0\<rparr>"

definition readPageImage ::
  "(string \<Rightarrow> mat) \<Rightarrow> (page_bitmap \<Rightarrow> mat) \<Rightarrow> page_artifact \<Rightarrow> image_cache option \<Rightarrow> mat \<times> image_cache option" where
  "readPageImage imread cvtColor page cache =
     (case cache of
        Some c \<Rightarrow> (case cache_read imread cvtColor (pa_output_path page) c of (m, c') \<Rightarrow> (m, Some c'))
      | None \<Rightarrow> (imread (pa_output_path page), None))"

subsection \<open>Executions\<close>

text \<open>
  \<open>offered page bitmap\<close> is what the renderer promises about a bitmap it hands over.
\<close>

inductive cache_step ::
  "(page_artifact \<Rightarrow> page_bitmap \<Rightarrow> bool) \<Rightarrow> (string \<Rightarrow> mat) \<Rightarrow> (page_bitmap \<Rightarrow> mat) \<Rightarrow> image_cache \<Rightarrow> image_cache \<Rightarrow> bool"
  for offered imread cvtColor where
  admit: "offered page bitmap \<Longrightarrow> cache_step offered imread cvtColor c (snd (admitRendered page bitmap c))"
| read: "cache_step offered imread cvtColor c (snd (cache_read imread cvtColor key c))"
| clear: "cache_step offered imread cvtColor c (cache_clear c)"

inductive cache_reaches ::
  "(page_artifact \<Rightarrow> page_bitmap \<Rightarrow> bool) \<Rightarrow> (string \<Rightarrow> mat) \<Rightarrow> (page_bitmap \<Rightarrow> mat) \<Rightarrow> size_t \<Rightarrow> image_cache \<Rightarrow> bool"
  for offered imread cvtColor maximum_bytes where
  start: "cache_reaches offered imread cvtColor maximum_bytes (new_cache maximum_bytes)"
| step: "cache_reaches offered imread cvtColor maximum_bytes c \<Longrightarrow> cache_step offered imread cvtColor c c' \<Longrightarrow>
    cache_reaches offered imread cvtColor maximum_bytes c'"

inductive_cases cache_stepE: "cache_step offered imread cvtColor c c'"

text \<open>
  What C++ itself guarantees of a bitmap (its sides are \<open>int\<close>s, a vector's capacity is never
  below its size), and that \<open>cvtColor\<close> with \<open>COLOR_RGBA2BGR\<close> gives three bytes for each pixel.
\<close>

definition bitmap_ok :: "page_bitmap \<Rightarrow> bool" where
  "bitmap_ok bitmap \<longleftrightarrow> length (bm_pixels bitmap) \<le> unat (bm_capacity bitmap) \<and>
     bm_width bitmap < 2 ^ 31 \<and> bm_height bitmap < 2 ^ 31"

definition rgba_to_bgr :: "(page_bitmap \<Rightarrow> mat) \<Rightarrow> bool" where
  "rgba_to_bgr cvtColor \<longleftrightarrow>
     (\<forall>bitmap. bm_width bitmap > 0 \<and> bm_height bitmap > 0 \<longrightarrow>
        mat_total (cvtColor bitmap) = of_int (bm_width bitmap) * of_int (bm_height bitmap) \<and>
        mat_elem_size (cvtColor bitmap) = 3)"

subsection \<open>The budget\<close>

definition entry_bytes :: "cached_image \<Rightarrow> size_t" where
  "entry_bytes e = (if mat_empty (ci_bgr e) then bm_capacity (ci_rendered e) else mat_bytes (ci_bgr e))"

definition retained :: "(string \<times> cached_image) list \<Rightarrow> nat" where
  "retained images = (\<Sum>(k, e)\<leftarrow>images. unat (entry_bytes e))"

definition pending_ok :: "cached_image \<Rightarrow> bool" where
  "pending_ok e \<longleftrightarrow> (mat_empty (ci_bgr e) \<longrightarrow>
     bm_width (ci_rendered e) > 0 \<and> bm_height (ci_rendered e) > 0 \<and> packed_pixels (ci_rendered e) \<and>
     bitmap_ok (ci_rendered e))"

definition cache_inv :: "size_t \<Rightarrow> image_cache \<Rightarrow> bool" where
  "cache_inv maximum_bytes c \<longleftrightarrow> ch_maximum_bytes c = maximum_bytes \<and> distinct (map fst (ch_images c)) \<and>
     unat (ch_resident_bytes c) = retained (ch_images c) \<and> ch_resident_bytes c \<le> maximum_bytes \<and>
     ch_resident_bytes c \<le> ch_peak_resident_bytes c \<and> ch_peak_resident_bytes c \<le> maximum_bytes \<and>
     (\<forall>e\<in>snd ` set (ch_images c). pending_ok e)"

lemma unat_of_int_small: "0 \<le> i \<Longrightarrow> i < 2 ^ 31 \<Longrightarrow> unat (of_int i :: size_t) = nat i"
  by (cases i) (simp_all add: unsigned_of_nat take_bit_nat_eq_self)

lemma unat_prod_small:
  "unat (a :: size_t) * unat b < 2 ^ 64 \<Longrightarrow> unat (a * b) = unat a * unat b"
  using unat_mult_lem[of a b] by simp

lemma unat_lt64: "unat (x :: size_t) < 2 ^ 64"
  using unsigned_less[of x] by simp

lemma converted_bytes:
  assumes cvt: "rgba_to_bgr cvtColor" and ok: "0 < bm_width b" "0 < bm_height b" "packed_pixels b" "bitmap_ok b"
  shows "\<not> mat_empty (cvtColor b) \<and> unat (mat_bytes (cvtColor b)) \<le> unat (bm_capacity b)"
proof -
  define N where "N = nat (bm_width b) * nat (bm_height b)"
  let ?area = "of_int (bm_width b) * of_int (bm_height b) :: size_t"
  have "nat (bm_width b) \<le> 2 ^ 31 - 1" "nat (bm_height b) \<le> 2 ^ 31 - 1"
    using ok by (auto simp: bitmap_ok_def)
  then have room: "N \<le> (2 ^ 31 - 1) * (2 ^ 31 - 1)" unfolding N_def by (rule mult_le_mono)
  have pos: "0 < N" using ok by (simp add: N_def)
  have sides: "unat (of_int (bm_width b) :: size_t) = nat (bm_width b)"
      "unat (of_int (bm_height b) :: size_t) = nat (bm_height b)"
    using ok by (simp_all add: bitmap_ok_def unat_of_int_small)
  have pixels: "unat ?area = N"
    unfolding N_def sides[symmetric] using room by (intro unat_prod_small) (simp add: sides flip: N_def)
  have three: "unat (?area * 3) = N * 3" and four: "unat (?area * 4) = N * 4"
    using room unat_prod_small[of ?area 3] unat_prod_small[of ?area 4] by (simp_all add: pixels)
  have "length (bm_pixels b) < 2 ^ 64"
    using ok(4) unat_lt64[of "bm_capacity b"] by (simp add: bitmap_ok_def)
  then have "unat (of_nat (length (bm_pixels b)) :: size_t) = length (bm_pixels b)"
    by (simp add: unsigned_of_nat take_bit_nat_eq_self)
  moreover have "of_nat (length (bm_pixels b)) = ?area * 4" using ok(3) by (simp add: packed_pixels_def Let_def)
  ultimately have "length (bm_pixels b) = N * 4" using four by metis
  then have cap: "N * 4 \<le> unat (bm_capacity b)" using ok(4) by (simp add: bitmap_ok_def)
  have mat: "mat_total (cvtColor b) = ?area" "mat_elem_size (cvtColor b) = 3"
    using cvt ok(1,2) by (auto simp: rgba_to_bgr_def)
  have "\<not> mat_empty (cvtColor b)" unfolding mat_empty_def mat using pos pixels by auto
  with cap three show ?thesis by (simp add: mat_bytes_def mat)
qed

lemma retained_simps [simp]:
  "retained [] = 0" "retained ((k, e) # images) = unat (entry_bytes e) + retained images"
  by (simp_all add: retained_def)

lemma retained_other: "key \<notin> fst ` set images \<Longrightarrow> store_image key cached images = images"
  by (induction images) (auto simp: store_image_def)

lemma retained_store:
  "distinct (map fst images) \<Longrightarrow> map_of images key = Some e \<Longrightarrow>
   retained (store_image key cached images) + unat (entry_bytes e) = retained images + unat (entry_bytes cached)"
proof (induction images)
  case (Cons p images)
  obtain k x where p: "p = (k, x)" by (cases p)
  show ?case
  proof (cases "k = key")
    case True
    then have "store_image key cached images = images" using Cons.prems p by (intro retained_other) auto
    with True Cons.prems p show ?thesis by (simp add: store_image_def)
  next
    case False
    with Cons p show ?thesis by (simp add: store_image_def)
  qed
qed simp

lemma keys_store_image [simp]: "map fst (store_image key cached images) = map fst images"
  by (induction images) (auto simp: store_image_def)

lemma set_store_image: "e \<in> snd ` set (store_image key cached images) \<Longrightarrow> e = cached \<or> e \<in> snd ` set images"
  by (auto simp: store_image_def split: if_splits intro: rev_image_eqI)

lemma retained_member: "map_of images key = Some e \<Longrightarrow> unat (entry_bytes e) \<le> retained images"
  by (induction images) (auto split: if_splits)

lemma unat_fits:
  "(bytes :: size_t) \<le> n - r \<Longrightarrow> r \<le> n \<Longrightarrow> unat (r + bytes) = unat r + unat bytes \<and> r + bytes \<le> n"
proof -
  assume "bytes \<le> n - r" "r \<le> n"
  then have "unat r + unat bytes \<le> unat n" by (simp add: word_le_nat_alt unat_sub)
  then have "unat (r + bytes) = unat r + unat bytes"
    using unat_lt64[of n] unat_add_lem[of r bytes] by simp
  with \<open>unat r + unat bytes \<le> unat n\<close> show ?thesis by (simp add: word_le_nat_alt)
qed

lemma new_cache_inv: "cache_inv n (new_cache n)"
  by (simp add: cache_inv_def new_cache_def)

lemma clear_inv: "cache_inv n c \<Longrightarrow> cache_inv n (cache_clear c)"
  by (auto simp: cache_inv_def cache_clear_def)

lemma reject_inv: "cache_inv n c \<Longrightarrow> cache_inv n (snd (reject c))"
  by (simp add: cache_inv_def reject_def)

lemma admit_inv:
  assumes inv: "cache_inv n c" and ok: "bitmap_ok bitmap"
  shows "cache_inv n (snd (admitRendered page bitmap c))"
proof (cases "matches_page page bitmap \<and> packed_pixels bitmap \<and> bm_capacity bitmap \<le> n - ch_resident_bytes c \<and>
    map_of (ch_images c) (pa_output_path page) = None")
  case False
  then have "admitRendered page bitmap c = reject c"
    using inv by (auto simp: admitRendered_def cache_inv_def Let_def)
  with reject_inv[OF inv] show ?thesis by simp
next
  case True
  then have fits: "unat (ch_resident_bytes c + bm_capacity bitmap) = unat (ch_resident_bytes c) + unat (bm_capacity bitmap)"
      "ch_resident_bytes c + bm_capacity bitmap \<le> n"
    using inv unat_fits by (auto simp: cache_inv_def)
  have pending: "pending_ok \<lparr>ci_bgr = empty_mat, ci_rendered = bitmap\<rparr>"
    using True ok by (simp add: pending_ok_def matches_page_def)
  have "pa_output_path page \<notin> fst ` set (ch_images c)" using True by (simp add: map_of_eq_None_iff)
  then show ?thesis
    using inv True fits pending
    by (auto simp: admitRendered_def cache_inv_def Let_def entry_bytes_def empty_mat_def mat_empty_def max_def)
qed

lemma convert_inv:
  assumes inv: "cache_inv n c" and entry: "map_of (ch_images c) key = Some e" "mat_empty (ci_bgr e)"
    and cvt: "rgba_to_bgr cvtColor"
  shows "cache_inv n (convert_entry cvtColor key e c)"
proof -
  let ?b = "ci_rendered e" and ?r = "ch_resident_bytes c"
  have "e \<in> snd ` set (ch_images c)" using map_of_SomeD[OF entry(1)] by force
  then have "pending_ok e" using inv unfolding cache_inv_def by blast
  then have small: "\<not> mat_empty (cvtColor ?b)" "unat (mat_bytes (cvtColor ?b)) \<le> unat (bm_capacity ?b)"
    using converted_bytes[OF cvt] entry(2) by (auto simp: pending_ok_def)
  have "unat (bm_capacity ?b) \<le> unat ?r"
    using retained_member[OF entry(1)] entry(2) inv by (simp add: entry_bytes_def cache_inv_def)
  then have less: "unat (?r - bm_capacity ?b) = unat ?r - unat (bm_capacity ?b)" "bm_capacity ?b \<le> ?r"
    by (simp_all add: unat_sub word_le_nat_alt)
  have room: "unat (?r - bm_capacity ?b) + unat (mat_bytes (cvtColor ?b)) \<le> unat ?r"
    using less small(2) by (simp add: word_le_nat_alt)
  then have sum: "unat (?r - bm_capacity ?b + mat_bytes (cvtColor ?b))
      = unat (?r - bm_capacity ?b) + unat (mat_bytes (cvtColor ?b))"
    using unat_lt64[of ?r] unat_add_lem[of "?r - bm_capacity ?b" "mat_bytes (cvtColor ?b)"] by simp
  then have le: "?r - bm_capacity ?b + mat_bytes (cvtColor ?b) \<le> ?r" using room by (simp add: word_le_nat_alt)
  let ?new = "\<lparr>ci_bgr = cvtColor ?b, ci_rendered = default_bitmap\<rparr>"
  have "retained (store_image key ?new (ch_images c)) + unat (bm_capacity ?b)
      = unat ?r + unat (mat_bytes (cvtColor ?b))"
    using retained_store[OF _ entry(1), of ?new] inv small(1) entry(2) by (simp add: cache_inv_def entry_bytes_def)
  then have "unat (?r - bm_capacity ?b + mat_bytes (cvtColor ?b)) = retained (store_image key ?new (ch_images c))"
    using sum less \<open>unat (bm_capacity ?b) \<le> unat ?r\<close> by simp
  moreover have "pending_ok ?new" using small(1) by (simp add: pending_ok_def)
  ultimately show ?thesis
    using inv le set_store_image[of _ key ?new "ch_images c"]
    unfolding cache_inv_def convert_entry_def Let_def by fastforce
qed

lemma hit_inv: "cache_inv n c \<Longrightarrow> cache_inv n (c\<lparr>ch_hits := h\<rparr>)"
  by (simp add: cache_inv_def)

lemma read_inv:
  assumes inv: "cache_inv n c" and cvt: "rgba_to_bgr cvtColor"
  shows "cache_inv n (snd (cache_read imread cvtColor key c))"
proof (cases "map_of (ch_images c) key")
  case (Some e)
  then show ?thesis
    using convert_inv[OF inv Some _ cvt] by (simp add: cache_read_def hit_inv inv)
next
  case None
  then have new: "key \<notin> fst ` set (ch_images c)" by (simp add: map_of_eq_None_iff)
  have fits: "mat_bytes (imread key) \<le> n - ch_resident_bytes c \<Longrightarrow>
      unat (ch_resident_bytes c + mat_bytes (imread key)) = unat (ch_resident_bytes c) + unat (mat_bytes (imread key)) \<and>
      ch_resident_bytes c + mat_bytes (imread key) \<le> n"
    using inv unat_fits by (auto simp: cache_inv_def)
  with None new inv show ?thesis
    by (auto simp: cache_read_def cache_inv_def Let_def entry_bytes_def pending_ok_def max_def)
qed

lemma reaches_inv:
  assumes "cache_reaches offered imread cvtColor n c" "rgba_to_bgr cvtColor"
    and "\<And>page bitmap. offered page bitmap \<Longrightarrow> bitmap_ok bitmap"
  shows "cache_inv n c"
  using assms
proof (induction rule: cache_reaches.induct)
  case start
  show ?case by (rule new_cache_inv)
next
  case (step c c')
  then show ?case
    by (auto elim!: cache_stepE intro: admit_inv read_inv clear_inv)
qed

text \<open>
  C20: Whatever sequence of admissions, reads and clears runs on the cache, the byte counter is
  exactly the sum of what the entries retain (so its unsigned subtractions never wrap), the
  cache never retains more than its budget, the peak lies between the two, and no path has two
  entries.
\<close>

theorem cache_within_budget:
  assumes "cache_reaches (\<lambda>page. bitmap_ok) imread cvtColor n c" "rgba_to_bgr cvtColor"
  shows "unat (ch_resident_bytes c) = retained (ch_images c) \<and> retained (ch_images c) \<le> unat n \<and>
    ch_resident_bytes c \<le> ch_peak_resident_bytes c \<and> ch_peak_resident_bytes c \<le> n \<and>
    distinct (map fst (ch_images c))"
  using reaches_inv[OF assms] by (simp add: cache_inv_def word_le_nat_alt)

subsection \<open>Reading through the cache is reading the file\<close>

definition entry_image :: "(page_bitmap \<Rightarrow> mat) \<Rightarrow> cached_image \<Rightarrow> mat" where
  "entry_image cvtColor e = (if mat_empty (ci_bgr e) then cvtColor (ci_rendered e) else ci_bgr e)"

definition coherent :: "(string \<Rightarrow> mat) \<Rightarrow> (page_bitmap \<Rightarrow> mat) \<Rightarrow> image_cache \<Rightarrow> bool" where
  "coherent imread cvtColor c \<longleftrightarrow> (\<forall>(k, e)\<in>set (ch_images c). entry_image cvtColor e = imread k)"

text \<open>The renderer hands over the pixels that its file decodes to.\<close>

definition faithful :: "(string \<Rightarrow> mat) \<Rightarrow> (page_bitmap \<Rightarrow> mat) \<Rightarrow> page_artifact \<Rightarrow> page_bitmap \<Rightarrow> bool" where
  "faithful imread cvtColor page bitmap \<longleftrightarrow> bitmap_ok bitmap \<and>
     (matches_page page bitmap \<and> packed_pixels bitmap \<longrightarrow> cvtColor bitmap = imread (pa_output_path page))"

lemma read_coherent:
  assumes "coherent imread cvtColor c"
  shows "fst (cache_read imread cvtColor key c) = imread key"
proof (cases "map_of (ch_images c) key")
  case (Some e)
  then have "entry_image cvtColor e = imread key" using assms map_of_SomeD by (fastforce simp: coherent_def)
  with Some show ?thesis by (simp add: cache_read_def entry_image_def split: if_splits)
next
  case None
  then show ?thesis by (simp add: cache_read_def Let_def)
qed

lemma admit_coherent:
  "coherent imread cvtColor c \<Longrightarrow> faithful imread cvtColor page bitmap \<Longrightarrow>
   coherent imread cvtColor (snd (admitRendered page bitmap c))"
  by (auto simp: admitRendered_def reject_def coherent_def faithful_def entry_image_def mat_empty_def empty_mat_def Let_def)

lemma after_read_coherent:
  assumes coh: "coherent imread cvtColor c" and inv: "cache_inv n c" and cvt: "rgba_to_bgr cvtColor"
  shows "coherent imread cvtColor (snd (cache_read imread cvtColor key c))"
proof (cases "map_of (ch_images c) key")
  case None
  with coh show ?thesis by (auto simp: cache_read_def coherent_def entry_image_def Let_def)
next
  case (Some e)
  show ?thesis
  proof (cases "mat_empty (ci_bgr e)")
    case False
    with Some coh show ?thesis by (simp add: cache_read_def coherent_def)
  next
    case True
    have "(key, e) \<in> set (ch_images c)" using map_of_SomeD[OF Some] .
    then have "pending_ok e" and image: "cvtColor (ci_rendered e) = imread key"
      using inv coh True by (force simp: cache_inv_def coherent_def entry_image_def)+
    then have "\<not> mat_empty (imread key)" using converted_bytes[OF cvt, of "ci_rendered e"] True by (auto simp: pending_ok_def)
    with Some True image coh show ?thesis
      by (auto simp: cache_read_def convert_entry_def coherent_def entry_image_def store_image_def Let_def split: if_splits)
  qed
qed

lemma reaches_coherent:
  assumes "cache_reaches (faithful imread cvtColor) imread cvtColor n c" "rgba_to_bgr cvtColor"
  shows "cache_inv n c \<and> coherent imread cvtColor c"
  using assms
proof (induction rule: cache_reaches.induct)
  case start
  show ?case using new_cache_inv by (simp add: coherent_def new_cache_def)
next
  case (step c c')
  have ok: "faithful imread cvtColor page bitmap \<Longrightarrow> bitmap_ok bitmap" for page bitmap by (simp add: faithful_def)
  have "coherent imread cvtColor (cache_clear c)" by (simp add: coherent_def cache_clear_def)
  with step ok show ?case
    by (auto elim!: cache_stepE intro: admit_inv read_inv clear_inv admit_coherent after_read_coherent)
qed

text \<open>
  C21: The cache is transparent. When the renderer's bitmaps are the pixels its files decode to,
  then after any sequence of admissions, reads and clears a read through the cache gives exactly
  the image that reading the file gives, converted or not, cached or not, within budget or not.
\<close>

theorem cache_transparent:
  assumes "cache_reaches (faithful imread cvtColor) imread cvtColor n c" "rgba_to_bgr cvtColor"
  shows "fst (cache_read imread cvtColor key c) = imread key \<and>
    fst (readPageImage imread cvtColor page (Some c)) = fst (readPageImage imread cvtColor page None)"
  using read_coherent[OF conjunct2[OF reaches_coherent[OF assms]]]
  by (simp add: readPageImage_def case_prod_beta)

subsection \<open>Concrete runs\<close>

definition bgr_of :: "page_bitmap \<Rightarrow> mat" where
  "bgr_of b = \<lparr>mat_total = of_int (bm_width b) * of_int (bm_height b), mat_elem_size = 3, mat_data = []\<rparr>"

definition small_page :: page_artifact where
  "small_page = \<lparr>pa_page_index = 0, pa_page_number = 1, pa_relative_image = ''p'', pa_output_path = ''p'',
     pa_width = 2, pa_height = 1, pa_debug_images = []\<rparr>"

definition small_bitmap :: page_bitmap where
  "small_bitmap = \<lparr>bm_page_index = 0, bm_page_number = 1, bm_width = 2, bm_height = 1,
     bm_channels = 4, bm_pixels = [1, 2, 3, 4, 5, 6, 7, 8], bm_capacity = 8\<rparr>"

definition files :: "string \<Rightarrow> mat" where
  "files k = (if k = ''p'' then bgr_of small_bitmap else empty_mat)"

lemma bgr_of_converts: "rgba_to_bgr bgr_of"
  by (simp add: rgba_to_bgr_def bgr_of_def)

lemma small_bitmap_ok: "bitmap_ok small_bitmap" "matches_page small_page small_bitmap" "packed_pixels small_bitmap"
  by (simp_all add: bitmap_ok_def matches_page_def packed_pixels_def small_bitmap_def small_page_def)

lemma small_faithful: "faithful files bgr_of small_page small_bitmap"
  using small_bitmap_ok by (simp add: faithful_def files_def small_page_def)

theorem cache_within_budget_witness:
  "fst (admitRendered small_page small_bitmap (new_cache 8)) \<and>
   retained (ch_images (snd (cache_read files bgr_of ''p'' (snd (admitRendered small_page small_bitmap (new_cache 8)))))) \<le> 8"
proof -
  have "cache_reaches (\<lambda>page. bitmap_ok) files bgr_of 8
      (snd (cache_read files bgr_of ''p'' (snd (admitRendered small_page small_bitmap (new_cache 8)))))"
    by (rule cache_reaches.step[OF cache_reaches.step[OF cache_reaches.start cache_step.admit] cache_step.read])
      (rule small_bitmap_ok)
  from cache_within_budget[OF this bgr_of_converts] small_bitmap_ok show ?thesis
    by (simp add: admitRendered_def new_cache_def small_bitmap_def)
qed

theorem cache_transparent_witness:
  "fst (cache_read files bgr_of ''p'' (snd (admitRendered small_page small_bitmap (new_cache 8)))) = bgr_of small_bitmap"
proof -
  have "cache_reaches (faithful files bgr_of) files bgr_of 8 (snd (admitRendered small_page small_bitmap (new_cache 8)))"
    by (rule cache_reaches.step[OF cache_reaches.start cache_step.admit]) (rule small_faithful)
  from cache_transparent[OF this bgr_of_converts, of "''p''"] show ?thesis by (simp add: files_def)
qed

end
