(* ===== verification/Stages.thy ===== *)
theory Stages
  imports Layout_Recovery Table_Text Text_Layout Page_Structure Reading_Backend
begin

text \<open>
  The stages that combine the page components: \<open>cpp/pipeline/layout_analysis_stage.cpp\<close>,
  \<open>table_recognition_stage.cpp\<close> and \<open>reading_order_stage.cpp\<close>. Each stage calls a backend, which
  is a record of its operations, and then the
  postprocessing of the earlier theories. Logging is left out.
\<close>

subsection \<open>\<open>LayoutAnalysisStage\<close>\<close>

record layout_result =
  lr_layout :: page_layout
  lr_diagnostics :: "diagnostic list"

record layout_backend =
  lbk_analyze :: "page_artifact \<Rightarrow> page_text \<Rightarrow> layout_result option"
  lbk_available :: bool
  lbk_unavailable_reason :: string

definition text_layout_backend :: layout_backend where
  "text_layout_backend = \<lparr>lbk_analyze = (\<lambda>page page_text.
       Some \<lparr>lr_layout = text_layout_analyze page page_text, lr_diagnostics = []\<rparr>),
     lbk_available = True, lbk_unavailable_reason = []\<rparr>"

definition empty_layout :: page_layout where
  "empty_layout = \<lparr>pl_page_index = 0, pl_page_number = 0, pl_blocks = []\<rparr>"

definition stage_error :: "string \<Rightarrow> string \<Rightarrow> status" where
  "stage_error code message = status_error code message [] False"

definition layout_analyzePage :: "layout_backend \<Rightarrow> page_artifact \<Rightarrow> page_text \<Rightarrow> page_layout stage_result" where
  "layout_analyzePage layout page page_text =
     (case lbk_analyze layout page page_text of
        None \<Rightarrow> \<lparr>sr_value = empty_layout, sr_status = stage_error ''layout.analysis_failed''
            (''layout analysis failed for page '' @ int_to_string (pa_page_number page)), sr_diagnostics = []\<rparr>
      | Some result \<Rightarrow>
          let blocks = fst (refineMultiColumnTextLineOrder page_text (pl_blocks (lr_layout result)));
              blocks = fst (refineEdgeFurniture page blocks)
          in \<lparr>sr_value = (lr_layout result)\<lparr>pl_blocks := blocks\<rparr>, sr_status = status_ok,
              sr_diagnostics = lr_diagnostics result\<rparr>)"

text \<open>The loop over pages that the layout and table stages share: it stops at the first failure.\<close>

fun run_pages :: "('a \<Rightarrow> 'b stage_result) \<Rightarrow> 'a list \<Rightarrow> 'b list stage_result \<Rightarrow> 'b list stage_result" where
  "run_pages f [] acc = acc"
| "run_pages f (x # xs) acc =
     (let page = f x in
      if \<not> sr_ok page then acc\<lparr>sr_status := sr_status page\<rparr>
      else run_pages f xs (acc\<lparr>sr_value := sr_value acc @ [sr_value page],
             sr_diagnostics := sr_diagnostics acc @ sr_diagnostics page\<rparr>))"

definition no_results :: "'a list stage_result" where
  "no_results = \<lparr>sr_value = [], sr_status = status_ok, sr_diagnostics = []\<rparr>"

definition layout_analyze ::
  "layout_backend \<Rightarrow> page_artifact list \<Rightarrow> page_text list \<Rightarrow> page_layout list stage_result" where
  "layout_analyze layout pages page_texts =
     (if length pages \<noteq> length page_texts
      then no_results\<lparr>sr_status := stage_error ''layout.page_count_mismatch''
             ''text page count does not match page artifacts''\<rparr>
      else run_pages (\<lambda>(page, t). layout_analyzePage layout page t) (zip pages page_texts) no_results)"

subsection \<open>\<open>TableRecognitionStage\<close>: attaching detected tables\<close>

record table_result =
  tr_tables :: page_tables
  tr_diagnostics :: "diagnostic list"

record table_backend =
  tbk_recognize :: "page_artifact \<Rightarrow> page_text \<Rightarrow> page_layout \<Rightarrow> table_result option"
  tbk_available :: bool
  tbk_unavailable_reason :: string

definition text_table_backend :: table_backend where
  "text_table_backend = \<lparr>tbk_recognize = (\<lambda>page page_text layout.
       Some \<lparr>tr_tables = text_table_recognize page page_text layout, tr_diagnostics = []\<rparr>),
     tbk_available = True, tbk_unavailable_reason = []\<rparr>"

definition lineCoverage :: "bbox \<Rightarrow> bbox \<Rightarrow> double" where
  "lineCoverage line tb = (if bboxArea line \<le> 0 then 0 else overlapArea line tb / bboxArea line)"

definition covered_lines :: "page_text \<Rightarrow> bbox \<Rightarrow> int list" where
  "covered_lines page_text box =
     map int (filter (\<lambda>i. lineCoverage (line_bbox (pt_lines page_text ! i)) box \<ge> 0.5) [0..<length (pt_lines page_text)])"

definition table_block :: "page_text \<Rightarrow> page_layout \<Rightarrow> table \<Rightarrow> layout_block" where
  "table_block page_text layout tb =
     default_layout_block\<lparr>
       lb_id := layout_block_id (pl_page_number layout) (length (pl_blocks layout)),
       lb_type := LTable,
       lb_source_label := (if tb_source_label tb = [] then ''table detector'' else tb_source_label tb),
       lb_bbox := tb_bbox tb,
       lb_confidence := tb_confidence tb,
       lb_text_line_indices := covered_lines page_text (tb_bbox tb)\<rparr>"

text \<open>\<open>assigned_layout_blocks\<close> is a set of identifiers, here a list used as one.\<close>

definition attach_detected ::
  "page_text \<Rightarrow> string list \<times> page_layout \<times> table list \<Rightarrow> table \<Rightarrow> string list \<times> page_layout \<times> table list" where
  "attach_detected page_text acc tb =
     (case acc of (assigned, layout, tables) \<Rightarrow>
        if tb_layout_block_id tb \<noteq> [] \<and> tb_layout_block_id tb \<in> set (map lb_id (pl_blocks layout)) \<and>
           tb_layout_block_id tb \<notin> set assigned
        then (tb_layout_block_id tb # assigned, layout, tables @ [tb])
        else
          let b = table_block page_text layout tb
          in (lb_id b # assigned, layout\<lparr>pl_blocks := pl_blocks layout @ [b]\<rparr>,
              tables @ [tb\<lparr>tb_layout_block_id := lb_id b\<rparr>]))"

definition attachDetectedTables :: "page_text \<Rightarrow> page_layout \<Rightarrow> page_tables \<Rightarrow> page_layout \<times> page_tables" where
  "attachDetectedTables page_text layout tables =
     (case foldl (attach_detected page_text) ([], layout, []) (pg_tables tables) of
        (_, layout', attached) \<Rightarrow> (layout', tables\<lparr>pg_tables := attached\<rparr>))"

subsection \<open>Tables that continue on the next page\<close>

definition continuationCandidate :: "table \<Rightarrow> page_artifact \<Rightarrow> table \<Rightarrow> page_artifact \<Rightarrow> bool" where
  "continuationCandidate previous previous_page next_table next_page =
     (if pa_height previous_page \<le> 0 \<or> pa_height next_page \<le> 0 \<or> pa_width previous_page \<le> 0 \<or> pa_width next_page \<le> 0
      then False
      else
        let touches_bottom = by1 (tb_bbox previous) \<ge> real_of_int (pa_height previous_page) * 0.82;
            touches_top = by0 (tb_bbox next_table) \<le> real_of_int (pa_height next_page) * 0.18;
            previous_left = bx0 (tb_bbox previous) / real_of_int (pa_width previous_page);
            next_left = bx0 (tb_bbox next_table) / real_of_int (pa_width next_page);
            previous_right = bx1 (tb_bbox previous) / real_of_int (pa_width previous_page);
            next_right = bx1 (tb_bbox next_table) / real_of_int (pa_width next_page);
            aligned = \<bar>previous_left - next_left\<bar> \<le> 0.08 \<and> \<bar>previous_right - next_right\<bar> \<le> 0.08;
            compatible_columns = tb_columns previous = [] \<or> tb_columns next_table = [] \<or>
              length (tb_columns previous) = length (tb_columns next_table)
        in touches_bottom \<and> touches_top \<and> aligned \<and> compatible_columns)"

definition continue_table :: "nat \<Rightarrow> table \<Rightarrow> table" where
  "continue_table previous_index previous =
     previous\<lparr>tb_continuation_group_id :=
         (if tb_continuation_group_id previous = []
          then ''table_group_page_'' @ int_to_string (tb_page_number previous) @ ''_'' @ nat_to_string (previous_index + 1)
          else tb_continuation_group_id previous),
       tb_continues_on_next_page := True\<rparr>"

text \<open>One \<open>previous\<close> table: the tables of its page and of the next page.\<close>

definition link_previous ::
  "page_artifact \<Rightarrow> page_artifact \<Rightarrow> table list \<times> table list \<Rightarrow> nat \<Rightarrow> table list \<times> table list" where
  "link_previous previous_page next_page acc previous_index =
     (case acc of (previous_tables, next_tables) \<Rightarrow>
        case List.find (\<lambda>j. continuationCandidate (previous_tables ! previous_index) previous_page (next_tables ! j) next_page)
               [0..<length next_tables] of
          None \<Rightarrow> acc
        | Some j \<Rightarrow>
            let previous = continue_table previous_index (previous_tables ! previous_index)
            in (previous_tables[previous_index := previous],
                upd_at next_tables j (\<lambda>t. t\<lparr>tb_continuation_group_id := tb_continuation_group_id previous,
                  tb_continues_from_previous_page := True\<rparr>)))"

definition link_adjacent ::
  "page_artifact \<Rightarrow> page_artifact \<Rightarrow> table list \<Rightarrow> table list \<Rightarrow> table list \<times> table list" where
  "link_adjacent previous_page next_page previous_tables next_tables =
     foldl (link_previous previous_page next_page) (previous_tables, next_tables) [0..<length previous_tables]"

definition link_page :: "page_artifact list \<Rightarrow> page_tables list \<Rightarrow> nat \<Rightarrow> page_tables list" where
  "link_page pages tables page_index =
     (case link_adjacent (pages ! (page_index - 1)) (pages ! page_index)
             (pg_tables (tables ! (page_index - 1))) (pg_tables (tables ! page_index)) of
        (previous_tables, next_tables) \<Rightarrow>
          upd_at (upd_at tables (page_index - 1) (\<lambda>p. p\<lparr>pg_tables := previous_tables\<rparr>))
            page_index (\<lambda>p. p\<lparr>pg_tables := next_tables\<rparr>))"

definition linkCrossPageTables :: "page_artifact list \<Rightarrow> page_tables list \<Rightarrow> page_tables list" where
  "linkCrossPageTables pages tables = foldl (link_page pages) tables [1..<length tables]"

definition linkPages :: "page_artifact list \<Rightarrow> page_tables list \<Rightarrow> status \<times> page_tables list" where
  "linkPages pages tables =
     (if length pages \<noteq> length tables
      then (stage_error ''table.page_count_mismatch'' ''page and table counts must match before linking'', tables)
      else (status_ok, linkCrossPageTables pages tables))"

subsection \<open>Recognising a page's tables\<close>

definition no_tables :: page_tables where
  "no_tables = \<lparr>pg_page_index = 0, pg_page_number = 0, pg_tables = []\<rparr>"

text \<open>\<open>recognizePage\<close> updates the page's layout too.\<close>

definition table_recognizePage ::
  "table_backend \<Rightarrow> page_artifact \<Rightarrow> page_text \<Rightarrow> page_layout \<Rightarrow> page_tables stage_result \<times> page_layout" where
  "table_recognizePage tb page page_text layout =
     (case tbk_recognize tb page page_text layout of
        None \<Rightarrow> (\<lparr>sr_value = no_tables, sr_status = stage_error ''table.recognition_failed''
            (''table recognition failed for page '' @ int_to_string (pa_page_number page)), sr_diagnostics = []\<rparr>, layout)
      | Some result \<Rightarrow>
          (case attachDetectedTables page_text layout (tr_tables result) of
             (layout, tables) \<Rightarrow>
               let layout = fst (recoverUnassignedTextLines page_text page layout) in
               (case resolvePageStructure page_text layout tables of
                  (layout, tables, _) \<Rightarrow>
                    (\<lparr>sr_value = tables, sr_status = status_ok, sr_diagnostics = tr_diagnostics result\<rparr>, layout))))"

text \<open>The whole-document stage: the layouts are updated in place, up to the page that fails.\<close>

definition table_step ::
  "table_backend \<Rightarrow> page_artifact list \<Rightarrow> page_text list \<Rightarrow> page_tables list stage_result \<times> page_layout list \<Rightarrow> nat \<Rightarrow>
   page_tables list stage_result \<times> page_layout list" where
  "table_step tb pages page_texts acc index =
     (case acc of (result, layouts) \<Rightarrow>
        if \<not> sr_ok result then acc
        else case table_recognizePage tb (pages ! index) (page_texts ! index) (layouts ! index) of
            (page, layout) \<Rightarrow>
              if \<not> sr_ok page then (result\<lparr>sr_status := sr_status page\<rparr>, layouts[index := layout])
              else (result\<lparr>sr_value := sr_value result @ [sr_value page],
                      sr_diagnostics := sr_diagnostics result @ sr_diagnostics page\<rparr>, layouts[index := layout]))"

definition table_recognize ::
  "table_backend \<Rightarrow> page_artifact list \<Rightarrow> page_text list \<Rightarrow> page_layout list \<Rightarrow>
   page_tables list stage_result \<times> page_layout list" where
  "table_recognize tb pages page_texts layouts =
     (if length pages \<noteq> length page_texts \<or> length pages \<noteq> length layouts
      then (no_results\<lparr>sr_status := stage_error ''table.page_count_mismatch''
              ''page, text, and layout counts must match before table recognition''\<rparr>, layouts)
      else
        case foldl (table_step tb pages page_texts) (no_results, layouts) [0..<length pages] of
          (result, layouts) \<Rightarrow>
            if \<not> sr_ok result then (result, layouts)
            else case linkPages pages (sr_value result) of
                (st, tables) \<Rightarrow> (result\<lparr>sr_status := st, sr_value := tables\<rparr>, layouts))"

subsection \<open>\<open>ReadingOrderStage\<close>\<close>

text \<open>
  The backend is a function from the layout; \<open>None\<close> is a backend that returns \<open>false\<close>.
\<close>

definition order_page ::
  "(page_artifact \<Rightarrow> page_layout \<Rightarrow> page_reading_order option) \<Rightarrow> page_artifact list \<Rightarrow> page_layout list \<Rightarrow> nat \<Rightarrow>
   page_reading_order stage_result" where
  "order_page backend pages layouts index =
     (case backend (pages ! index) (layouts ! index) of
        None \<Rightarrow> \<lparr>sr_value = empty_reading_order, sr_status = stage_error ''reading_order.backend_failed''
            (''reading order failed for page '' @ nat_to_string (index + 1)), sr_diagnostics = []\<rparr>
      | Some result \<Rightarrow> \<lparr>sr_value = result, sr_status = status_ok, sr_diagnostics = []\<rparr>)"

definition reading_order_stage ::
  "(page_artifact \<Rightarrow> page_layout \<Rightarrow> page_reading_order option) \<Rightarrow> page_artifact list \<Rightarrow> page_layout list \<Rightarrow>
   page_reading_order list stage_result" where
  "reading_order_stage backend pages layouts =
     (if length pages \<noteq> length layouts
      then no_results\<lparr>sr_status := stage_error ''reading_order.page_count_mismatch''
             ''page artifact count does not match layout count''\<rparr>
      else run_pages (order_page backend pages layouts) [0..<length pages] no_results)"

text \<open>The one reading-order backend of the engine; its sort always returns (\<open>Reading_Backend\<close>).\<close>

definition docling_backend :: "page_artifact \<Rightarrow> page_layout \<Rightarrow> page_reading_order option" where
  "docling_backend page layout =
     (case docling_order layout of Some (True, ro) \<Rightarrow> Some ro | _ \<Rightarrow> None)"

section \<open>Properties\<close>

subsection \<open>Every detected table has a block of its own\<close>

definition without_block :: "table \<Rightarrow> table" where
  "without_block tb = tb\<lparr>tb_layout_block_id := []\<rparr>"

definition detected_block :: "page_text \<Rightarrow> layout_block \<Rightarrow> bool" where
  "detected_block page_text b \<longleftrightarrow> lb_type b = LTable \<and> lb_text_line_indices b = covered_lines page_text (lb_bbox b)"

definition attach_inv ::
  "page_text \<Rightarrow> page_layout \<Rightarrow> table list \<Rightarrow> string list \<times> page_layout \<times> table list \<Rightarrow> bool" where
  "attach_inv page_text layout ts acc \<longleftrightarrow>
     (case acc of (assigned, layout', tables) \<Rightarrow> \<exists>new.
        pl_blocks layout' = pl_blocks layout @ new \<and> length new \<le> length ts \<and>
        pl_page_number layout' = pl_page_number layout \<and> list_all (detected_block page_text) new \<and>
        map lb_id new = map (layout_block_id (pl_page_number layout))
          [length (pl_blocks layout)..<length (pl_blocks layout) + length new] \<and>
        map without_block tables = map without_block ts \<and>
        set assigned = set (map tb_layout_block_id tables) \<and> distinct (map tb_layout_block_id tables) \<and>
        set assigned \<subseteq> set (map lb_id (pl_blocks layout')))"

definition fresh_from :: "page_layout \<Rightarrow> nat \<Rightarrow> bool" where
  "fresh_from layout n \<longleftrightarrow> list_all (\<lambda>k. layout_block_id (pl_page_number layout) k \<notin> set (map lb_id (pl_blocks layout)))
     [length (pl_blocks layout)..<length (pl_blocks layout) + n]"

lemma attach_detected_inv:
  assumes inv: "attach_inv page_text layout ts acc" and fresh: "fresh_from layout (Suc (length ts))"
  shows "attach_inv page_text layout (ts @ [tb]) (attach_detected page_text acc tb)"
proof -
  obtain assigned layout' tables where acc: "acc = (assigned, layout', tables)" by (cases acc)
  let ?n = "length (pl_blocks layout)" and ?p = "pl_page_number layout"
  obtain new where new: "pl_blocks layout' = pl_blocks layout @ new" "length new \<le> length ts"
      "pl_page_number layout' = ?p" "list_all (detected_block page_text) new"
      "map lb_id new = map (layout_block_id ?p) [?n..<?n + length new]"
      "map without_block tables = map without_block ts"
      "set assigned = set (map tb_layout_block_id tables)" "distinct (map tb_layout_block_id tables)"
      "set assigned \<subseteq> set (map lb_id (pl_blocks layout'))"
    using inv unfolding attach_inv_def acc prod.case by blast
  show ?thesis
  proof (cases "tb_layout_block_id tb \<noteq> [] \<and> tb_layout_block_id tb \<in> set (map lb_id (pl_blocks layout')) \<and>
      tb_layout_block_id tb \<notin> set assigned")
    case True
    then have "attach_detected page_text acc tb = (tb_layout_block_id tb # assigned, layout', tables @ [tb])"
      by (simp add: attach_detected_def acc)
    moreover have "set (tb_layout_block_id tb # assigned) \<subseteq> set (map lb_id (pl_blocks layout'))" using True new(9) by simp
    moreover have "distinct (map tb_layout_block_id (tables @ [tb]))"
        "set (tb_layout_block_id tb # assigned) = set (map tb_layout_block_id (tables @ [tb]))"
      using True new(7,8) by auto
    moreover have "map without_block (tables @ [tb]) = map without_block (ts @ [tb])" "length new \<le> length (ts @ [tb])"
      using new(2,6) by simp_all
    ultimately show ?thesis unfolding attach_inv_def using new(1,3-5) by (simp only: prod.case) blast
  next
    case False
    let ?b = "table_block page_text layout' tb"
    have step: "attach_detected page_text acc tb = (lb_id ?b # assigned, layout'\<lparr>pl_blocks := pl_blocks layout' @ [?b]\<rparr>,
        tables @ [tb\<lparr>tb_layout_block_id := lb_id ?b\<rparr>])"
      unfolding attach_detected_def acc prod.case using False by (simp only: if_False Let_def)
    have id: "lb_id ?b = layout_block_id ?p (?n + length new)" by (simp add: table_block_def new(1,3))
    have "lb_id ?b \<notin> set (map lb_id (pl_blocks layout))"
      using fresh new(2) unfolding id fresh_from_def list_all_iff by auto
    moreover have "lb_id ?b \<notin> set (map lb_id new)" unfolding id new(5) by (auto dest: layout_block_id_inj)
    ultimately have unused: "lb_id ?b \<notin> set assigned" using new(9) by (auto simp: new(1))
    let ?t = "tb\<lparr>tb_layout_block_id := lb_id ?b\<rparr>" and ?l = "layout'\<lparr>pl_blocks := pl_blocks layout' @ [?b]\<rparr>"
    have "pl_blocks ?l = pl_blocks layout @ (new @ [?b])" "length (new @ [?b]) \<le> length (ts @ [tb])"
        "pl_page_number ?l = ?p" "list_all (detected_block page_text) (new @ [?b])"
      using new(1-4) by (simp_all add: detected_block_def table_block_def)
    moreover have "map lb_id (new @ [?b]) = map (layout_block_id ?p) [?n..<?n + length (new @ [?b])]"
      using new(5) id by simp
    moreover have "map without_block (tables @ [?t]) = map without_block (ts @ [tb])"
      using new(6) by (simp add: without_block_def)
    moreover have "set (lb_id ?b # assigned) = set (map tb_layout_block_id (tables @ [?t]))"
        "distinct (map tb_layout_block_id (tables @ [?t]))"
      using new(7,8) unused by auto
    moreover have "set (lb_id ?b # assigned) \<subseteq> set (map lb_id (pl_blocks ?l))" using new(9) by auto
    ultimately show ?thesis unfolding attach_inv_def step prod.case by blast
  qed
qed

lemma fresh_from_less: "fresh_from layout n \<Longrightarrow> m \<le> n \<Longrightarrow> fresh_from layout m"
  by (auto simp: fresh_from_def list_all_iff)

lemma attach_tables_inv:
  "fresh_from layout (length ts) \<Longrightarrow> attach_inv page_text layout ts (foldl (attach_detected page_text) ([], layout, []) ts)"
proof (induction ts rule: rev_induct)
  case Nil
  show ?case by (simp add: attach_inv_def)
next
  case (snoc tb ts)
  then show ?case using fresh_from_less[OF snoc.prems, of "length ts"] by (simp add: attach_detected_inv)
qed

text \<open>
  When no block already has one of the numbers that the page's next blocks would get, every
  table a backend detects ends up with a layout block of its own: no two tables share a block,
  each one's block exists, the given blocks stay first and unchanged, the added ones are table
  blocks that hold the text lines the table covers by half, and the tables are otherwise kept.
\<close>

lemma attachDetectedTables_sound:
  assumes "fresh_from layout (length (pg_tables tables))"
  shows "case attachDetectedTables page_text layout tables of (layout', tables') \<Rightarrow>
    \<exists>new. pl_blocks layout' = pl_blocks layout @ new \<and> list_all (detected_block page_text) new \<and>
      distinct (map tb_layout_block_id (pg_tables tables')) \<and>
      set (map tb_layout_block_id (pg_tables tables')) \<subseteq> set (map lb_id (pl_blocks layout')) \<and>
      map without_block (pg_tables tables') = map without_block (pg_tables tables)"
  using attach_tables_inv[OF assms, of page_text]
  by (auto simp: attachDetectedTables_def attach_inv_def split: prod.split)

definition shared_block_tables :: page_tables where
  "shared_block_tables = \<lparr>pg_page_index = 0, pg_page_number = 1,
     pg_tables = [default_table\<lparr>tb_layout_block_id := ''t''\<rparr>, default_table\<lparr>tb_layout_block_id := ''t''\<rparr>]\<rparr>"

lemma attachDetectedTables_sound_witness:
  "distinct (map tb_layout_block_id (pg_tables (snd (attachDetectedTables doubled_text doubled_layout shared_block_tables))))"
proof -
  have "fresh_from doubled_layout (length (pg_tables shared_block_tables))"
    by (simp add: fresh_from_def doubled_layout_def shared_block_tables_def default_layout_block_def layout_block_id_def
        upt_rec)
  from attachDetectedTables_sound[OF this, of doubled_text] show ?thesis by (auto split: prod.splits)
qed

subsection \<open>Table recognition loses no readable line\<close>

definition page_lines :: "page_layout \<Rightarrow> int set" where
  "page_lines layout = set (concat (map lb_text_line_indices (pl_blocks layout)))"

definition must_be_placed :: "page_text \<Rightarrow> layout_block list \<Rightarrow> nat \<Rightarrow> bool" where
  "must_be_placed page_text blocks i \<longleftrightarrow> hasVisibleText (line_text (pt_lines page_text ! i)) \<and>
     validBBox (line_bbox (pt_lines page_text ! i)) \<and> \<not> overlapsFurniture (line_bbox (pt_lines page_text ! i)) blocks \<and>
     parseDecimalMarker (line_text (pt_lines page_text ! i)) = None"

lemma page_lines_mset: "page_lines layout = set_mset (line_indices_of (pl_blocks layout))"
  by (simp add: page_lines_def line_indices_of_def flip: mset_concat_map)

lemma readable_recovered:
  assumes "i < length (pt_lines page_text)" "must_be_placed page_text (pl_blocks layout) i"
  shows "int i \<in> page_lines (fst (recoverUnassignedTextLines page_text page layout))"
proof (cases "int i \<in> assigned_lines page_text (pl_blocks layout)")
  case True
  then have "int i \<in> page_lines layout" by (auto simp: assigned_lines_def page_lines_def)
  then show ?thesis using line_indices_result[OF prod.collapse[symmetric]] by (simp add: page_lines_mset)
next
  case False
  with assms have "int i \<in> set (recoverable_lines page_text (pl_blocks layout))"
    by (simp add: recoverable_lines_def unassigned_line_def line_numbers_def line_at_def line_box_def must_be_placed_def)
  moreover have "int i \<notin> detectRepeatedMarginalia page_text page (recoverable_lines page_text (pl_blocks layout))
      (medianTextLineHeight page_text)"
    using detectRepeatedMarginalia_subset assms(2) by (fastforce simp: line_at_def must_be_placed_def)
  ultimately have "int i \<in> set (recovered_line_set page_text page (pl_blocks layout))" by (simp add: recovered_line_set_def)
  then show ?thesis using line_indices_result[OF prod.collapse[symmetric]] by (simp add: page_lines_mset)
qed

lemma recovered_keeps: "page_lines layout \<subseteq> page_lines (fst (recoverUnassignedTextLines page_text page layout))"
  using line_indices_result[OF prod.collapse[symmetric]] by (auto simp: page_lines_mset)

text \<open>Attaching adds table blocks only, so the furniture stays the same.\<close>

lemma attach_detected_blocks:
  "\<exists>new. pl_blocks (fst (snd (attach_detected page_text acc tb))) = pl_blocks (fst (snd acc)) @ new \<and>
     list_all (\<lambda>b. lb_type b = LTable) new"
  by (cases acc) (auto simp: attach_detected_def table_block_def Let_def)

lemma attached_blocks:
  "\<exists>new. pl_blocks (fst (attachDetectedTables page_text layout tables)) = pl_blocks layout @ new \<and>
     list_all (\<lambda>b. lb_type b = LTable) new"
proof -
  have "\<exists>new. pl_blocks (fst (snd (foldl (attach_detected page_text) acc ts))) = pl_blocks (fst (snd acc)) @ new \<and>
      list_all (\<lambda>b. lb_type b = LTable) new" for acc ts
  proof (induction ts rule: rev_induct)
    case (snoc tb ts)
    then show ?case
      using attach_detected_blocks[of page_text "foldl (attach_detected page_text) acc ts" tb] by fastforce
  qed simp
  from this[of "([], layout, [])" "pg_tables tables"] show ?thesis
    by (simp add: attachDetectedTables_def case_prod_beta)
qed

lemma attached_must_be_placed:
  "must_be_placed page_text (pl_blocks (fst (attachDetectedTables page_text layout tables))) i =
   must_be_placed page_text (pl_blocks layout) i"
proof -
  obtain new where "pl_blocks (fst (attachDetectedTables page_text layout tables)) = pl_blocks layout @ new"
      "list_all (\<lambda>b. lb_type b = LTable) new"
    using attached_blocks by blast
  then show ?thesis by (auto simp: must_be_placed_def overlapsFurniture_def isFurniture_def list_ex_iff list_all_iff)
qed

lemma attached_lines: "page_lines layout \<subseteq> page_lines (fst (attachDetectedTables page_text layout tables))"
  using attached_blocks[of page_text layout tables] by (auto simp: page_lines_def)

lemma recognized_lines:
  assumes "tbk_recognize tb page page_text layout = Some result"
  shows "sr_ok (fst (table_recognizePage tb page page_text layout)) \<and>
    page_lines (snd (table_recognizePage tb page page_text layout)) =
    page_lines (fst (recoverUnassignedTextLines page_text page (fst (attachDetectedTables page_text layout (tr_tables result)))))"
  using assms resolvePageStructure_keeps_lines
  by (simp add: table_recognizePage_def page_lines_def sr_ok_def Let_def split: prod.split) (metis fst_conv)

text \<open>
  C22: Recognising a page's tables (the backend, attaching its tables, recovering unassigned lines
  and merging doubled detections) succeeds whenever the backend does and loses no text: every
  line the layout held is still in a block, and so is every line with visible text and a valid
  box, unless it overlaps a header or footer or is a bare number.
\<close>

theorem recognizePage_keeps_lines:
  assumes "tbk_recognize tb page page_text layout = Some result"
  shows "sr_ok (fst (table_recognizePage tb page page_text layout)) \<and>
    page_lines layout \<union> int ` set (filter (must_be_placed page_text (pl_blocks layout)) [0..<length (pt_lines page_text)])
      \<subseteq> page_lines (snd (table_recognizePage tb page page_text layout))"
proof -
  let ?a = "fst (attachDetectedTables page_text layout (tr_tables result))"
  have "int ` set (filter (must_be_placed page_text (pl_blocks layout)) [0..<length (pt_lines page_text)])
      \<subseteq> page_lines (fst (recoverUnassignedTextLines page_text page ?a))"
    using readable_recovered[of _ page_text ?a page] attached_must_be_placed by auto
  moreover have "page_lines layout \<subseteq> page_lines (fst (recoverUnassignedTextLines page_text page ?a))"
    using attached_lines recovered_keeps by blast
  ultimately show ?thesis using recognized_lines[OF assms] by blast
qed

definition blank_sheet :: page_artifact where
  "blank_sheet = \<lparr>pa_page_index = 0, pa_page_number = 1, pa_relative_image = [], pa_output_path = [],
     pa_width = 100, pa_height = 100, pa_debug_images = []\<rparr>"

theorem recognizePage_keeps_lines_witness:
  "0 \<in> page_lines (snd (table_recognizePage text_table_backend blank_sheet doubled_text doubled_layout))"
proof -
  have "0 \<in> page_lines doubled_layout" by (simp add: page_lines_def doubled_layout_def default_layout_block_def)
  moreover have "tbk_recognize text_table_backend blank_sheet doubled_text doubled_layout = Some
      \<lparr>tr_tables = text_table_recognize blank_sheet doubled_text doubled_layout, tr_diagnostics = []\<rparr>"
    by (simp add: text_table_backend_def)
  ultimately show ?thesis using recognizePage_keeps_lines by blast
qed

subsection \<open>Tables linked across pages\<close>

definition unlinked :: "table \<Rightarrow> table" where
  "unlinked t = t\<lparr>tb_continuation_group_id := [], tb_continues_from_previous_page := False,
     tb_continues_on_next_page := False\<rparr>"

definition fresh_table :: "table \<Rightarrow> bool" where
  "fresh_table t \<longleftrightarrow> tb_continuation_group_id t = [] \<and> \<not> tb_continues_from_previous_page t \<and>
     \<not> tb_continues_on_next_page t"

text \<open>What linking promises of two adjacent pages.\<close>

definition continued_by :: "page_artifact \<Rightarrow> page_artifact \<Rightarrow> table list \<Rightarrow> table \<Rightarrow> bool" where
  "continued_by A B nexts s \<longleftrightarrow> list_ex (\<lambda>t. continuationCandidate s A t B) nexts"

definition linked_from :: "page_artifact \<Rightarrow> page_artifact \<Rightarrow> table list \<Rightarrow> table \<Rightarrow> bool" where
  "linked_from A B prevs t \<longleftrightarrow> tb_continuation_group_id t \<noteq> [] \<and>
     list_ex (\<lambda>s. tb_continues_on_next_page s \<and> continuationCandidate s A t B \<and>
       tb_continuation_group_id s = tb_continuation_group_id t) prevs"

definition linked_pages :: "page_artifact \<Rightarrow> page_artifact \<Rightarrow> table list \<Rightarrow> table list \<Rightarrow> bool" where
  "linked_pages A B prevs nexts \<longleftrightarrow>
     list_all (\<lambda>s. tb_continues_on_next_page s = continued_by A B nexts s) prevs \<and>
     list_all (\<lambda>t. tb_continues_from_previous_page t \<longrightarrow> linked_from A B prevs t) nexts"

lemma candidate_unlinked: "unlinked s' = unlinked s \<Longrightarrow> unlinked t' = unlinked t \<Longrightarrow>
   continuationCandidate s' A t' B = continuationCandidate s A t B"
proof -
  assume "unlinked s' = unlinked s" "unlinked t' = unlinked t"
  then have "tb_bbox s' = tb_bbox s" "tb_columns s' = tb_columns s" "tb_bbox t' = tb_bbox t" "tb_columns t' = tb_columns t"
    by (cases s; cases s'; cases t; cases t'; simp add: unlinked_def)+
  then show ?thesis by (simp add: continuationCandidate_def)
qed

lemma unlinked_simps [simp]:
  "unlinked (continue_table k t) = unlinked t"
  "unlinked (t\<lparr>tb_continuation_group_id := g, tb_continues_from_previous_page := b\<rparr>) = unlinked t"
  by (simp_all add: unlinked_def continue_table_def)

lemma map_unlinked_nth: "map unlinked xs = map unlinked ys \<Longrightarrow> i < length ys \<Longrightarrow> unlinked (xs ! i) = unlinked (ys ! i)"
  by (metis length_map nth_map)

text \<open>What linking to the next page may change of a table.\<close>

definition keeps_link :: "table \<Rightarrow> table \<Rightarrow> bool" where
  "keeps_link t t' \<longleftrightarrow> unlinked t' = unlinked t \<and>
     tb_continues_from_previous_page t' = tb_continues_from_previous_page t \<and>
     (tb_continuation_group_id t \<noteq> [] \<longrightarrow> tb_continuation_group_id t' = tb_continuation_group_id t)"

definition link_inv ::
  "page_artifact \<Rightarrow> page_artifact \<Rightarrow> table list \<Rightarrow> table list \<Rightarrow> nat \<Rightarrow> table list \<times> table list \<Rightarrow> bool" where
  "link_inv A B prevs nexts k acc \<longleftrightarrow>
     (case acc of (ps, ns) \<Rightarrow> list_all2 keeps_link prevs ps \<and> map unlinked ns = map unlinked nexts \<and>
        (\<forall>i<length ps. tb_continues_on_next_page (ps ! i) = (i < k \<and> continued_by A B nexts (prevs ! i))) \<and>
        (\<forall>t\<in>set ns. \<not> tb_continues_on_next_page t \<and> (tb_continues_from_previous_page t \<longrightarrow> linked_from A B ps t)))"

lemma continued_by_unlinked:
  assumes "unlinked s' = unlinked s" "map unlinked ns = map unlinked nexts"
  shows "continued_by A B ns s' = continued_by A B nexts s"
proof -
  have len: "length ns = length nexts" using assms(2) map_eq_imp_length_eq by blast
  have "continuationCandidate s' A (ns ! j) B = continuationCandidate s A (nexts ! j) B" if "j < length nexts" for j
    using candidate_unlinked[OF assms(1) map_unlinked_nth[OF assms(2) that]] .
  then show ?thesis unfolding continued_by_def list_ex_length using len by auto
qed

lemma find_upt_Some: "List.find P [0..<n] = Some j \<Longrightarrow> j < n \<and> P j"
  by (auto simp: find_Some_iff)

lemma find_upt_None: "List.find P [0..<length xs] = None \<longleftrightarrow> (\<forall>j<length xs. \<not> P j)"
  by (auto simp: find_None_iff)

lemma link_previous_inv:
  assumes inv: "link_inv A B prevs nexts k acc" and k: "k < length prevs"
  shows "link_inv A B prevs nexts (Suc k) (link_previous A B acc k)"
proof -
  obtain ps ns where acc: "acc = (ps, ns)" by (cases acc)
  have ps: "list_all2 keeps_link prevs ps" and ns: "map unlinked ns = map unlinked nexts"
    and next_flag: "\<And>i. i < length ps \<Longrightarrow>
      tb_continues_on_next_page (ps ! i) = (i < k \<and> continued_by A B nexts (prevs ! i))"
    and linked: "\<And>t. t \<in> set ns \<Longrightarrow> \<not> tb_continues_on_next_page t \<and>
      (tb_continues_from_previous_page t \<longrightarrow> linked_from A B ps t)"
    using inv by (auto simp: link_inv_def acc)
  have len: "length ps = length prevs" using ps by (simp add: list_all2_lengthD)
  have same: "unlinked (ps ! k) = unlinked (prevs ! k)" using list_all2_nthD[OF ps k] by (simp add: keeps_link_def)
  let ?find = "List.find (\<lambda>j. continuationCandidate (ps ! k) A (ns ! j) B) [0..<length ns]"
  have found: "?find = None \<longleftrightarrow> \<not> continued_by A B nexts (prevs ! k)"
    unfolding find_upt_None continued_by_unlinked[OF same ns, symmetric] by (auto simp: continued_by_def list_ex_length)
  show ?thesis
  proof (cases ?find)
    case None
    then have "link_previous A B acc k = acc" by (simp add: link_previous_def acc)
    with inv None found show ?thesis by (auto simp: link_inv_def acc less_Suc_eq)
  next
    case (Some j)
    from find_upt_Some[OF Some] have j: "j < length ns" "continuationCandidate (ps ! k) A (ns ! j) B" by auto
    let ?s = "continue_table k (ps ! k)"
    let ?t = "(ns ! j)\<lparr>tb_continuation_group_id := tb_continuation_group_id ?s, tb_continues_from_previous_page := True\<rparr>"
    have step: "link_previous A B acc k = (ps[k := ?s], ns[j := ?t])"
      using Some j(1) by (simp add: link_previous_def acc Let_def upd_at_def)
    have "unlinked ?s = unlinked (prevs ! k)" using same by simp
    moreover have flags: "tb_continues_on_next_page ?s" "tb_continuation_group_id ?s \<noteq> []"
        "tb_continues_from_previous_page ?s = tb_continues_from_previous_page (ps ! k)"
        "tb_continuation_group_id (ps ! k) \<noteq> [] \<Longrightarrow> tb_continuation_group_id ?s = tb_continuation_group_id (ps ! k)"
      by (simp_all add: continue_table_def)
    ultimately have s: "keeps_link (prevs ! k) ?s" "tb_continues_on_next_page ?s" "tb_continuation_group_id ?s \<noteq> []"
      using list_all2_nthD[OF ps k] by (auto simp: keeps_link_def)
    have "list_all2 keeps_link prevs (ps[k := ?s])"
      using ps s(1) k by (simp add: list_all2_conv_all_nth nth_list_update)
    moreover have "map unlinked (ns[j := ?t]) = map unlinked nexts"
      using ns j(1) by (simp add: map_update list_update_same_conv flip: ns)
    moreover have "\<forall>i<length (ps[k := ?s]). tb_continues_on_next_page (ps[k := ?s] ! i) =
        (i < Suc k \<and> continued_by A B nexts (prevs ! i))"
    proof (intro allI impI)
      fix i assume i: "i < length (ps[k := ?s])"
      show "tb_continues_on_next_page (ps[k := ?s] ! i) = (i < Suc k \<and> continued_by A B nexts (prevs ! i))"
      proof (cases "i = k")
        case True
        have "continued_by A B nexts (prevs ! k)" using found Some by auto
        with True i s(2) show ?thesis by simp
      next
        case False
        then show ?thesis using next_flag[of i] i by (auto simp: less_Suc_eq)
      qed
    qed
    moreover have "linked_from A B (ps[k := ?s]) ?t"
    proof -
      have "continuationCandidate ?s A ?t B" using j(2) candidate_unlinked[of ?s "ps ! k" ?t "ns ! j"] by simp
      moreover have "?s \<in> set (ps[k := ?s])" using k len by (simp add: set_update_memI)
      ultimately show ?thesis using s by (auto simp: linked_from_def list_ex_iff)
    qed
    moreover have "linked_from A B (ps[k := ?s]) t" if "linked_from A B ps t" for t
    proof -
      obtain i where i: "i < length ps" "tb_continues_on_next_page (ps ! i)" "continuationCandidate (ps ! i) A t B"
          "tb_continuation_group_id (ps ! i) = tb_continuation_group_id t" "tb_continuation_group_id t \<noteq> []"
        using \<open>linked_from A B ps t\<close> by (auto simp: linked_from_def list_ex_length)
      then have "i \<noteq> k" using next_flag by auto
      with i show ?thesis by (auto simp: linked_from_def list_ex_length intro!: exI[of _ i])
    qed
    ultimately show ?thesis
      unfolding step link_inv_def prod.case using linked set_update_subset_insert[of ns j ?t] j(1)
      by (auto dest!: subsetD[OF set_update_subset_insert])
  qed
qed

lemma link_adjacent_ok:
  assumes prevs: "list_all (\<lambda>s. \<not> tb_continues_on_next_page s) prevs" and nexts: "list_all fresh_table nexts"
    and result: "link_adjacent A B prevs nexts = (ps, ns)"
  shows "list_all2 keeps_link prevs ps" "map unlinked ns = map unlinked nexts" "linked_pages A B ps ns"
    "list_all (\<lambda>t. \<not> tb_continues_on_next_page t) ns"
proof -
  have "link_inv A B prevs nexts k (foldl (link_previous A B) (prevs, nexts) [0..<k])" if "k \<le> length prevs" for k
    using that
  proof (induction k)
    case 0
    then show ?case using prevs nexts
      by (auto simp: link_inv_def list_all_length list_all2_conv_all_nth keeps_link_def fresh_table_def in_set_conv_nth)
  next
    case (Suc k)
    then show ?case by (simp add: link_previous_inv)
  qed
  from this[of "length prevs"] have inv: "link_inv A B prevs nexts (length prevs) (ps, ns)"
    using result by (simp add: link_adjacent_def)
  then show "list_all2 keeps_link prevs ps" and ns: "map unlinked ns = map unlinked nexts"
    and "list_all (\<lambda>t. \<not> tb_continues_on_next_page t) ns"
    by (auto simp: link_inv_def list_all_iff)
  then have len: "length ps = length prevs" and same: "i < length ps \<Longrightarrow> unlinked (ps ! i) = unlinked (prevs ! i)" for i
    by (auto simp: list_all2_conv_all_nth keeps_link_def)
  have "list_all (\<lambda>s. tb_continues_on_next_page s = continued_by A B ns s) ps"
    using inv len continued_by_unlinked[OF same ns] by (simp add: link_inv_def list_all_length)
  moreover have "list_all (\<lambda>t. tb_continues_from_previous_page t \<longrightarrow> linked_from A B ps t) ns"
    using inv by (simp add: link_inv_def list_all_iff)
  ultimately show "linked_pages A B ps ns" by (simp add: linked_pages_def)
qed

lemma linked_pages_keeps:
  assumes linked: "linked_pages A B ps ns" and keeps: "list_all2 keeps_link ns ns'"
  shows "linked_pages A B ps ns'"
proof -
  have same: "map unlinked ns' = map unlinked ns"
    using keeps by (auto simp: list_all2_conv_all_nth keeps_link_def intro!: nth_equalityI)
  have "linked_from A B ps t'" if t: "keeps_link t t'" "tb_continues_from_previous_page t'" "t \<in> set ns" for t t'
  proof -
    have "linked_from A B ps t" using linked t by (simp add: linked_pages_def list_all_iff keeps_link_def)
    then show ?thesis
      using t(1) candidate_unlinked[of s s t' t for s] by (auto simp: linked_from_def list_ex_iff keeps_link_def)
  qed
  then have "list_all (\<lambda>t. tb_continues_from_previous_page t \<longrightarrow> linked_from A B ps t) ns'"
    using keeps by (auto simp: list_all_length list_all2_conv_all_nth)
  moreover have "list_all (\<lambda>s. tb_continues_on_next_page s = continued_by A B ns' s) ps"
    using linked continued_by_unlinked[OF refl same] by (simp add: linked_pages_def)
  ultimately show ?thesis by (simp add: linked_pages_def)
qed

definition same_page :: "page_tables \<Rightarrow> page_tables \<Rightarrow> bool" where
  "same_page p p' \<longleftrightarrow> pg_page_index p' = pg_page_index p \<and> pg_page_number p' = pg_page_number p \<and>
     map unlinked (pg_tables p') = map unlinked (pg_tables p)"

definition pages_inv :: "page_artifact list \<Rightarrow> page_tables list \<Rightarrow> nat \<Rightarrow> page_tables list \<Rightarrow> bool" where
  "pages_inv pages tables q ts \<longleftrightarrow> list_all2 same_page tables ts \<and>
     (\<forall>p. 0 < p \<and> p < q \<longrightarrow> linked_pages (pages ! (p - 1)) (pages ! p) (pg_tables (ts ! (p - 1))) (pg_tables (ts ! p))) \<and>
     (\<forall>p<length ts. q \<le> p \<longrightarrow> ts ! p = tables ! p) \<and>
     (0 < q \<longrightarrow> list_all (\<lambda>t. \<not> tb_continues_on_next_page t) (pg_tables (ts ! (q - 1)))) \<and>
     (0 < length ts \<longrightarrow> list_all (\<lambda>t. \<not> tb_continues_from_previous_page t) (pg_tables (ts ! 0)))"

lemma link_page_inv:
  assumes inv: "pages_inv pages tables q ts" and q: "0 < q" "q < length tables"
    and fresh: "list_all (\<lambda>p. list_all fresh_table (pg_tables p)) tables"
  shows "pages_inv pages tables (Suc q) (link_page pages ts q)"
proof -
  have len: "length ts = length tables" using inv by (auto simp: pages_inv_def list_all2_lengthD)
  obtain ps ns where result: "link_adjacent (pages ! (q - 1)) (pages ! q) (pg_tables (ts ! (q - 1))) (pg_tables (ts ! q)) = (ps, ns)"
    by (metis surj_pair)
  have prevs: "list_all (\<lambda>s. \<not> tb_continues_on_next_page s) (pg_tables (ts ! (q - 1)))"
    using inv q by (simp add: pages_inv_def)
  have "ts ! q = tables ! q" using inv q len by (simp add: pages_inv_def)
  then have nexts: "list_all fresh_table (pg_tables (ts ! q))" using fresh q by (simp add: list_all_length)
  note ok = link_adjacent_ok[OF prevs nexts result]
  let ?a = "(ts ! (q - 1))\<lparr>pg_tables := ps\<rparr>" and ?b = "(ts ! q)\<lparr>pg_tables := ns\<rparr>"
  have step: "link_page pages ts q = ts[q - 1 := ?a, q := ?b]"
    unfolding link_page_def result prod.case upd_at_def using q len less_imp_diff_less[OF q(2), of "Suc 0"] by simp
  have map_ps: "map unlinked ps = map unlinked (pg_tables (ts ! (q - 1)))"
    using ok(1) by (auto simp: list_all2_conv_all_nth keeps_link_def intro!: nth_equalityI)
  have "list_all2 same_page tables (ts[q - 1 := ?a, q := ?b])"
    using inv q len map_ps ok(2)
    by (auto simp: pages_inv_def list_all2_conv_all_nth nth_list_update same_page_def)
  moreover have "linked_pages (pages ! (p - 1)) (pages ! p) (pg_tables (ts[q - 1 := ?a, q := ?b] ! (p - 1)))
      (pg_tables (ts[q - 1 := ?a, q := ?b] ! p))" if p: "0 < p" "p < Suc q" for p
  proof (cases "p = q")
    case True
    then show ?thesis using ok(3) q len by (simp add: nth_list_update)
  next
    case False
    then have old: "linked_pages (pages ! (p - 1)) (pages ! p) (pg_tables (ts ! (p - 1))) (pg_tables (ts ! p))"
      using inv p by (simp add: pages_inv_def)
    show ?thesis
      using old False p q len linked_pages_keeps[OF old, of ps] ok(1) by (auto simp: nth_list_update)
  qed
  moreover have "list_all (\<lambda>t. \<not> tb_continues_from_previous_page t) (pg_tables (ts[q - 1 := ?a, q := ?b] ! 0))"
  proof -
    have first: "list_all (\<lambda>t. \<not> tb_continues_from_previous_page t) (pg_tables (ts ! 0))"
      using inv q len by (auto simp: pages_inv_def)
    then have "list_all (\<lambda>t. \<not> tb_continues_from_previous_page t) ps" if "q = 1"
      using ok(1) that by (auto simp: list_all_length list_all2_conv_all_nth keeps_link_def)
    moreover have "tables \<noteq> []" using q by auto
    ultimately show ?thesis using first q len by (cases "q = 1") (auto simp: nth_list_update)
  qed
  moreover have "\<forall>p<length (ts[q - 1 := ?a, q := ?b]). Suc q \<le> p \<longrightarrow> ts[q - 1 := ?a, q := ?b] ! p = tables ! p"
    using inv by (auto simp: pages_inv_def)
  moreover have "list_all (\<lambda>t. \<not> tb_continues_on_next_page t) (pg_tables (ts[q - 1 := ?a, q := ?b] ! (Suc q - 1)))"
    using ok(4) q len by simp
  ultimately show ?thesis unfolding pages_inv_def step by blast
qed

text \<open>
  C23: Linking tables across pages changes nothing but the continuation marks, and sets them
  consistently: a table is marked as continuing exactly when some table of the next page fits
  it, a table marked as a continuation has a group, shared with a table of the page before that
  fits it and is marked as continuing, and the first page has no continuation and the last page
  no continued table.
\<close>

theorem linkCrossPageTables_sound:
  assumes "list_all (\<lambda>p. list_all fresh_table (pg_tables p)) tables" "tables \<noteq> []"
  shows "list_all2 same_page tables (linkCrossPageTables pages tables) \<and>
    list_all (\<lambda>p. linked_pages (pages ! (p - 1)) (pages ! p) (pg_tables (linkCrossPageTables pages tables ! (p - 1)))
      (pg_tables (linkCrossPageTables pages tables ! p))) [1..<length tables] \<and>
    list_all (\<lambda>t. \<not> tb_continues_from_previous_page t) (pg_tables (hd (linkCrossPageTables pages tables))) \<and>
    list_all (\<lambda>t. \<not> tb_continues_on_next_page t) (pg_tables (last (linkCrossPageTables pages tables)))"
proof -
  have "pages_inv pages tables (Suc q) (foldl (link_page pages) tables [1..<Suc q])" if "q < length tables" for q
    using that
  proof (induction q)
    case 0
    have "same_page p p" for p by (simp add: same_page_def)
    with 0 assms show ?case
      by (auto simp: pages_inv_def list_all2_conv_all_nth list_all_length fresh_table_def)
  next
    case (Suc q)
    then show ?case using link_page_inv[OF _ _ _ assms(1)] by simp
  qed
  from this[of "length tables - 1"] have inv: "pages_inv pages tables (length tables) (linkCrossPageTables pages tables)"
    using assms(2) by (simp add: linkCrossPageTables_def)
  moreover from inv have len: "length (linkCrossPageTables pages tables) = length tables"
    by (auto simp: pages_inv_def list_all2_lengthD)
  moreover have "linkCrossPageTables pages tables \<noteq> []" using len assms(2) by auto
  ultimately show ?thesis
    using assms(2) unfolding pages_inv_def by (simp add: list_all_iff hd_conv_nth last_conv_nth)
qed

definition split_tables :: "page_tables list" where
  "split_tables =
     [no_tables\<lparr>pg_tables := [default_table\<lparr>tb_page_number := 1, tb_bbox := \<lparr>bx0 = 10, by0 = 50, bx1 = 90, by1 = 95\<rparr>\<rparr>]\<rparr>,
      no_tables\<lparr>pg_tables := [default_table\<lparr>tb_page_number := 2, tb_bbox := \<lparr>bx0 = 10, by0 = 5, bx1 = 90, by1 = 40\<rparr>\<rparr>]\<rparr>]"

lemma split_tables_fit:
  "continuationCandidate (pg_tables (split_tables ! 0) ! 0) blank_sheet (pg_tables (split_tables ! 1) ! 0) blank_sheet"
  by (simp add: continuationCandidate_def split_tables_def blank_sheet_def no_tables_def default_table_def)

theorem linkCrossPageTables_sound_witness:
  "linked_pages blank_sheet blank_sheet
     (pg_tables (linkCrossPageTables [blank_sheet, blank_sheet] split_tables ! 0))
     (pg_tables (linkCrossPageTables [blank_sheet, blank_sheet] split_tables ! 1))"
proof -
  have fresh: "list_all (\<lambda>p. list_all fresh_table (pg_tables p)) split_tables" and "split_tables \<noteq> []"
    and len: "length split_tables = 2"
    by (simp_all add: split_tables_def fresh_table_def no_tables_def default_table_def)
  from linkCrossPageTables_sound[OF this(1,2), of "[blank_sheet, blank_sheet]"] show ?thesis
    by (simp add: len upt_rec)
qed

end
