(* ===== verification/Output_File.thy ===== *)
theory Output_File
  imports Common
begin

text \<open>
  \<open>cpp/common/atomic_output_file.cpp\<close>: an output file that replaces its destination in one step.
  The operating system is an argument, \<open>disk\<close>: what it answers to each call. What the class does
  to the files is the list of the changes it makes, so that a reader may look in between.
  The paths, as \<open>std::filesystem\<close> joins and splits them, are the first section.
\<close>

subsection \<open>Paths\<close>

definition path_join :: "string \<Rightarrow> string \<Rightarrow> string" where
  "path_join a b = (if a = [] \<or> last a = CHR ''/'' then a @ b else a @ ''/'' @ b)"

definition replace_extension :: "string \<Rightarrow> string \<Rightarrow> string" where
  "replace_extension p ext = take (length p - length (path_extension p)) p @ ext"

definition parent_path :: "string \<Rightarrow> string" where
  "parent_path p =
     (let directory = take (length p - length (path_filename p)) p
      in if list_all (\<lambda>c. c = CHR ''/'') directory then take 1 directory
         else rev (dropWhile (\<lambda>c. c = CHR ''/'') (rev directory)))"

subsection \<open>What the operating system answers\<close>

datatype directory_outcome = Created | AlreadyExists | DirectoryFailed

fun find_directory :: "(string \<times> directory_outcome) list \<Rightarrow> string option" where
  "find_directory [] = None"
| "find_directory ((candidate, outcome) # attempts) =
     (case outcome of
        Created \<Rightarrow> Some candidate
      | DirectoryFailed \<Rightarrow> None
      | AlreadyExists \<Rightarrow> find_directory attempts)"

datatype file_kind = NotFound | Regular | OtherKind | StatusFailed

text \<open>
  \<open>dk_attempts\<close>: the clock tick and the sequence number each attempt reads, and how creating its
  directory ends. \<open>dk_chunks content\<close>: the pieces of what is written that reach the file.
\<close>

record disk =
  dk_kind :: file_kind
  dk_attempts :: "((int \<times> nat) \<times> directory_outcome) list"
  dk_opens :: bool
  dk_chunks :: "string \<Rightarrow> string list"
  dk_flushes :: bool
  dk_closes :: bool
  dk_renames :: bool

text \<open>A stream that is good after a flush has handed over all that was written to it.\<close>

definition disk_delivers :: "disk \<Rightarrow> string \<Rightarrow> bool" where
  "disk_delivers d content \<longleftrightarrow> dk_flushes d \<longrightarrow> concat (dk_chunks d content) = content"

datatype fs_change =
    MakeDirectory string
  | CreateFile string
  | AppendBytes string string
  | RenameFile string string
  | RemoveFile string
  | RemoveDirectory string

type_synonym files = "string \<rightharpoonup> string"

fun change :: "fs_change \<Rightarrow> files \<Rightarrow> files" where
  "change (MakeDirectory p) m = m"
| "change (CreateFile p) m = m(p \<mapsto> [])"
| "change (AppendBytes p bytes) m = (case m p of None \<Rightarrow> m | Some old \<Rightarrow> m(p \<mapsto> old @ bytes))"
| "change (RenameFile p q) m = (case m p of None \<Rightarrow> m | Some content \<Rightarrow> (m(p := None))(q \<mapsto> content))"
| "change (RemoveFile p) m = m(p := None)"
| "change (RemoveDirectory p) m = m"

definition changes :: "fs_change list \<Rightarrow> files \<Rightarrow> files" where
  "changes cs m = fold change cs m"

subsection \<open>\<open>AtomicOutputFile\<close>\<close>

record output_file =
  of_destination :: string
  of_temporary_directory :: string
  of_temporary_file :: string
  of_is_open :: bool

definition candidate_directory :: "string \<Rightarrow> int \<times> nat \<Rightarrow> string" where
  "candidate_directory destination reading =
     path_join (parent_path destination)
       (''.die-output-'' @ int_to_string (fst reading) @ ''-'' @ nat_to_string (snd reading))"

definition open_output :: "disk \<Rightarrow> string \<Rightarrow> output_file \<times> fs_change list" where
  "open_output d destination =
     (let closed = \<lparr>of_destination = destination, of_temporary_directory = [], of_temporary_file = [], of_is_open = False\<rparr>
      in if dk_kind d \<noteq> NotFound \<and> dk_kind d \<noteq> Regular then (closed, [])
         else
           case find_directory (take 100 (map (\<lambda>(r, outcome). (candidate_directory destination r, outcome)) (dk_attempts d))) of
             None \<Rightarrow> (closed, [])
           | Some directory \<Rightarrow>
               let temporary = path_join directory ''content''
               in (closed\<lparr>of_temporary_directory := directory, of_temporary_file := temporary, of_is_open := dk_opens d\<rparr>,
                   MakeDirectory directory # (if dk_opens d then [CreateFile temporary] else [])))"

definition commit_output :: "disk \<Rightarrow> output_file \<Rightarrow> bool \<times> fs_change list" where
  "commit_output d f =
     (if \<not> of_is_open f then (False, [])
      else if \<not> dk_flushes d \<or> \<not> dk_closes d then (False, [])
      else if dk_renames d then (True, [RenameFile (of_temporary_file f) (of_destination f)])
      else (False, []))"

definition release_output :: "output_file \<Rightarrow> fs_change list" where
  "release_output f =
     (if of_temporary_file f \<noteq> [] then [RemoveFile (of_temporary_file f)] else []) @
     (if of_temporary_directory f \<noteq> [] then [RemoveDirectory (of_temporary_directory f)] else [])"

text \<open>How the exporters use it: open, write, commit, and release at the end of the scope.\<close>

datatype write_outcome = OpenFailed | WriteFailed | Written

definition write_output :: "disk \<Rightarrow> string \<Rightarrow> string \<Rightarrow> write_outcome \<times> fs_change list" where
  "write_output d destination content =
     (case open_output d destination of (f, opened) \<Rightarrow>
        if \<not> of_is_open f then (OpenFailed, opened @ release_output f)
        else
          let written = map (AppendBytes (of_temporary_file f)) (dk_chunks d content)
          in case commit_output d f of (committed, renamed) \<Rightarrow>
               (if committed then Written else WriteFailed, opened @ written @ renamed @ release_output f))"

subsection \<open>The temporary file is not the destination\<close>

lemma filename_append:
  assumes "CHR ''/'' \<notin> set b"
  shows "path_filename (a @ ''/'' @ b) = b"
proof -
  have "takeWhile (\<lambda>c. c \<noteq> CHR ''/'') (rev b @ CHR ''/'' # rev a) = rev b"
    using assms by (subst takeWhile_append2) auto
  then show ?thesis by (simp add: path_filename_def)
qed

lemma parent_append:
  assumes "CHR ''/'' \<notin> set b" "a \<noteq> []" "last a \<noteq> CHR ''/''"
  shows "parent_path (a @ ''/'' @ b) = a"
proof -
  have "\<not> list_all (\<lambda>c. c = CHR ''/'') (a @ ''/'')"
    using last_in_set[OF assms(2)] assms(3) unfolding list_all_iff by fastforce
  moreover have "dropWhile (\<lambda>c. c = CHR ''/'') (rev (a @ ''/'')) = rev a"
    using assms(2,3) by (cases a rule: rev_cases) auto
  moreover have "take (length (a @ ''/'' @ b) - length b) (a @ ''/'' @ b) = a @ ''/''" by simp
  ultimately show ?thesis
    unfolding parent_path_def filename_append[OF assms(1)] by (simp only: Let_def if_False rev_rev_ident)
qed

lemma last_nat_to_string: "last (nat_to_string n) \<noteq> CHR ''/''"
proof -
  have "isdigit (last (nat_to_string n))" by (rule nat_to_string_digits[of _ n]) simp
  then show ?thesis by (auto simp: isdigit_def)
qed

lemma temporary_elsewhere: "path_join (candidate_directory destination r) ''content'' \<noteq> destination"
proof
  let ?name = "''.die-output-'' @ int_to_string (fst r) @ ''-'' @ nat_to_string (snd r)"
  let ?c = "candidate_directory destination r"
  assume eq: "path_join ?c ''content'' = destination"
  have c: "?c = path_join (parent_path destination) ?name" by (simp add: candidate_directory_def)
  then have l: "?c \<noteq> []" "last ?c \<noteq> CHR ''/''" using last_nat_to_string by (simp_all add: path_join_def)
  then have "destination = ?c @ ''/'' @ ''content''" using eq by (simp add: path_join_def)
  then have "parent_path destination = ?c" using parent_append[of "''content''" ?c] l by simp
  with c have "length (path_join (parent_path destination) ?name) = length (parent_path destination)" by simp
  then show False by (simp add: path_join_def split: if_splits)
qed


subsection \<open>A replacement in one step\<close>

text \<open>What holds of the files at every moment while the changes are made.\<close>

fun always :: "(files \<Rightarrow> bool) \<Rightarrow> fs_change list \<Rightarrow> files \<Rightarrow> bool" where
  "always P [] m = P m"
| "always P (c # cs) m = (P m \<and> always P cs (change c m))"

lemma changes_simps [simp]:
  "changes [] m = m" "changes (c # cs) m = changes cs (change c m)"
  "changes (as @ cs) m = changes cs (changes as m)"
  by (simp_all add: changes_def)

lemma always_append [simp]: "always P (as @ cs) m \<longleftrightarrow> always P as m \<and> always P cs (changes as m)"
proof (induction as arbitrary: m)
  case Nil
  have "always P cs m \<Longrightarrow> P m" by (cases cs) simp_all
  then show ?case by auto
qed simp

lemma always_mono: "always P cs m \<Longrightarrow> (\<And>s. P s \<Longrightarrow> Q s) \<Longrightarrow> always Q cs m"
  by (induction cs arbitrary: m) auto

text \<open>Changes to the temporary file alone.\<close>

fun touches_only :: "string \<Rightarrow> fs_change \<Rightarrow> bool" where
  "touches_only t (CreateFile p) = (p = t)"
| "touches_only t (AppendBytes p bytes) = (p = t)"
| "touches_only t (RemoveFile p) = (p = t)"
| "touches_only t (RenameFile p q) = False"
| "touches_only t _ = True"

lemma touches_change: "touches_only t c \<Longrightarrow> p \<noteq> t \<Longrightarrow> change c m p = m p"
  by (cases c) (auto split: option.split)

lemma touches_changes: "list_all (touches_only t) cs \<Longrightarrow> p \<noteq> t \<Longrightarrow> changes cs m p = m p"
  by (induction cs arbitrary: m) (simp_all add: touches_change[of t])

lemma touches_always:
  "list_all (touches_only t) cs \<Longrightarrow> (\<And>p. p \<noteq> t \<Longrightarrow> s p = m p) \<Longrightarrow> always (\<lambda>s'. \<forall>p. p \<noteq> t \<longrightarrow> s' p = m p) cs s"
  by (induction cs arbitrary: s) (simp_all add: touches_change[of t])

lemma appended: "m t = Some old \<Longrightarrow> changes (map (AppendBytes t) chunks) m t = Some (old @ concat chunks)"
  by (induction chunks arbitrary: m old) simp_all

lemma release_touches: "list_all (touches_only (of_temporary_file f)) (release_output f)"
  by (simp add: release_output_def)

text \<open>The changes of a write: its temporary file's, then at most the one renaming.\<close>

lemma find_directory_candidate:
  "find_directory (take n (map (\<lambda>(r, outcome). (candidate_directory destination r, outcome)) attempts)) = Some directory \<Longrightarrow>
   \<exists>r. directory = candidate_directory destination r"
proof (induction attempts arbitrary: n)
  case (Cons a attempts)
  then show ?case by (cases n) (auto split: prod.splits directory_outcome.splits)
qed simp

lemma open_output_cases:
  obtains "open_output d destination = (\<lparr>of_destination = destination, of_temporary_directory = [],
        of_temporary_file = [], of_is_open = False\<rparr>, [])"
  | directory where "open_output d destination = (\<lparr>of_destination = destination, of_temporary_directory = directory,
        of_temporary_file = path_join directory ''content'', of_is_open = dk_opens d\<rparr>,
      MakeDirectory directory # (if dk_opens d then [CreateFile (path_join directory ''content'')] else []))"
    "path_join directory ''content'' \<noteq> destination"
proof (cases "(dk_kind d \<noteq> NotFound \<and> dk_kind d \<noteq> Regular) \<or> find_directory (take 100 (map (\<lambda>(r, outcome).
    (candidate_directory destination r, outcome)) (dk_attempts d))) = None")
  case True
  then show ?thesis using that(1) by (auto simp: open_output_def Let_def)
next
  case False
  then obtain directory where "find_directory (take 100 (map (\<lambda>(r, outcome).
    (candidate_directory destination r, outcome)) (dk_attempts d))) = Some directory" by auto
  moreover from find_directory_candidate[OF this] have "path_join directory ''content'' \<noteq> destination"
    using temporary_elsewhere[of destination] by auto
  ultimately show ?thesis using that(2) False by (auto simp: open_output_def Let_def)
qed

lemma filename_join: "CHR ''/'' \<notin> set b \<Longrightarrow> path_filename (path_join a b) = b"
proof (cases "a = []")
  case True
  assume "CHR ''/'' \<notin> set b"
  then have all: "takeWhile (\<lambda>c. c \<noteq> CHR ''/'') (rev b) = rev b" by (auto simp: takeWhile_eq_all_conv)
  show ?thesis using True by (simp add: path_join_def path_filename_def all)
next
  case False
  assume b: "CHR ''/'' \<notin> set b"
  show ?thesis
  proof (cases "last a = CHR ''/''")
    case True
    have "a @ b = butlast a @ ''/'' @ b" using False True append_butlast_last_id[of a] by (metis append.assoc)
    then have "path_filename (a @ b) = b" using filename_append[OF b, of "butlast a"] by (simp only:)
    then show ?thesis using True by (simp add: path_join_def)
  next
    case no_slash: False
    then show ?thesis using filename_append[OF b, of a] False by (simp add: path_join_def)
  qed
qed

lemma write_output_shape:
  obtains t where "t \<noteq> destination" "path_filename t = ''content''" "list_all (touches_only t) (snd (write_output d destination content))"
    "fst (write_output d destination content) \<noteq> Written"
  | t before_rename after_rename where "t \<noteq> destination" "path_filename t = ''content''"
    "write_output d destination content = (Written, (before_rename @ map (AppendBytes t) (dk_chunks d content)) @
       RenameFile t destination # after_rename)"
    "list_all (touches_only t) (before_rename @ map (AppendBytes t) (dk_chunks d content))"
    "list_all (touches_only t) after_rename" "\<And>m. changes before_rename m t = Some []" "dk_flushes d"
proof (cases rule: open_output_cases[of d destination])
  case 1
  let ?t = "path_join (candidate_directory destination (0, 0)) ''content''"
  from 1 show ?thesis
    using that(1)[of ?t] by (simp add: temporary_elsewhere filename_join write_output_def release_output_def)
next
  case (2 directory)
  let ?t = "path_join directory ''content''"
  let ?f = "\<lparr>of_destination = destination, of_temporary_directory = directory, of_temporary_file = ?t, of_is_open = dk_opens d\<rparr>"
  have t: "path_filename ?t = ''content''" by (simp add: filename_join)
  have touches: "list_all (touches_only ?t) (map (AppendBytes ?t) chunks)" for chunks by (simp add: list_all_iff)
  have release: "list_all (touches_only ?t) (release_output ?f)" using release_touches[of ?f] by simp
  show ?thesis
  proof (cases "dk_opens d \<and> dk_flushes d \<and> dk_closes d \<and> dk_renames d")
    case True
    then show ?thesis
      using that(2)[of ?t "[MakeDirectory directory, CreateFile ?t]" "release_output ?f"] 2 t touches release
      by (simp add: write_output_def commit_output_def)
  next
    case False
    then have "list_all (touches_only ?t) (snd (write_output d destination content)) \<and>
        fst (write_output d destination content) \<noteq> Written"
      using 2(1) touches release by (cases "dk_opens d") (simp_all add: write_output_def commit_output_def)
    then show ?thesis using that(1)[OF 2(2) t] by simp
  qed
qed

lemma write_output_atomic:
  assumes "disk_delivers d content"
  shows "case write_output d destination content of (outcome, cs) \<Rightarrow>
    always (\<lambda>s. s destination = m destination \<or> s destination = Some content) cs m \<and>
    changes cs m destination = (if outcome = Written then Some content else m destination) \<and>
    (\<exists>t. t \<noteq> destination \<and> path_filename t = ''content'' \<and> always (\<lambda>s. \<forall>p. p \<noteq> destination \<longrightarrow> p \<noteq> t \<longrightarrow> s p = m p) cs m)"
proof (cases rule: write_output_shape[of destination d content])
  case (1 t)
  obtain outcome cs where w: "write_output d destination content = (outcome, cs)" by fastforce
  have a: "always (\<lambda>s. \<forall>p. p \<noteq> t \<longrightarrow> s p = m p) cs m"
    by (rule touches_always) (use 1 w in simp_all)
  have "always (\<lambda>s. s destination = m destination \<or> s destination = Some content) cs m"
    by (rule always_mono[OF a]) (use 1(1) in auto)
  moreover have "always (\<lambda>s. \<forall>p. p \<noteq> destination \<longrightarrow> p \<noteq> t \<longrightarrow> s p = m p) cs m"
    by (rule always_mono[OF a]) auto
  moreover have "changes cs m destination = m destination"
    by (rule touches_changes) (use 1 w in auto)
  ultimately show ?thesis using 1 w by auto
next
  case (2 t pre post)
  let ?w = "pre @ map (AppendBytes t) (dk_chunks d content)"
  have content: "changes ?w m t = Some content"
    using appended[of "changes pre m" t "[]" "dk_chunks d content"] 2(6) assms 2(7) by (simp add: disk_delivers_def)
  let ?m = "change (RenameFile t destination) (changes ?w m)"
  have m': "?m destination = Some content" using content 2(1) by simp
  have other: "?m p = m p" if "p \<noteq> destination" "p \<noteq> t" for p
    using content touches_changes[OF 2(4), of p m] that by simp
  have first: "always (\<lambda>s. \<forall>p. p \<noteq> t \<longrightarrow> s p = m p) ?w m" by (rule touches_always[OF 2(4)]) simp
  have second: "always (\<lambda>s. \<forall>p. p \<noteq> t \<longrightarrow> s p = ?m p) post ?m" by (rule touches_always[OF 2(5)]) simp
  have "always (\<lambda>s. s destination = m destination \<or> s destination = Some content) (?w @ RenameFile t destination # post) m"
    using always_mono[OF first, of "\<lambda>s. s destination = m destination \<or> s destination = Some content"]
      always_mono[OF second, of "\<lambda>s. s destination = m destination \<or> s destination = Some content"]
      touches_changes[OF 2(4), of destination m] 2(1) m' by (simp del: change.simps)
  moreover have "always (\<lambda>s. \<forall>p. p \<noteq> destination \<longrightarrow> p \<noteq> t \<longrightarrow> s p = m p) (?w @ RenameFile t destination # post) m"
    using always_mono[OF first, of "\<lambda>s. \<forall>p. p \<noteq> destination \<longrightarrow> p \<noteq> t \<longrightarrow> s p = m p"]
      always_mono[OF second, of "\<lambda>s. \<forall>p. p \<noteq> destination \<longrightarrow> p \<noteq> t \<longrightarrow> s p = m p"] other
      touches_changes[OF 2(4), of _ m] by (simp del: change.simps)
  moreover have "changes (?w @ RenameFile t destination # post) m destination = Some content"
    using touches_changes[OF 2(5), of destination ?m] 2(1) m' by (simp del: change.simps)
  ultimately show ?thesis
    unfolding 2(3) using 2(1,2) by (auto simp del: always_append changes_simps change.simps)
qed

end
