(* ===== verification/Pipeline.thy ===== *)
theory Pipeline
  imports Stages Text_Quality Assembler Page_Rotation Warning_Aggregator Fingerprint Output_File
begin

text \<open>
  The document pipeline: \<open>cpp/pipeline/document_pipeline.cpp\<close>. A run threads the events it sends
  its observer, the four page stages (\<open>PageStage\<close>) and a counter of clock readings through its
  steps, and returns early with the first failure. What a run calls is an argument: the services
  (document source, renderer, text extractor, OCR, layout, table and order backends) and the
  environment (the clock, the source file's bytes, the image files). Durations, log lines and
  the image cache, which \<open>Image_Cache\<close> shows to be transparent, are left out.
\<close>

subsection \<open>What the observer sees: \<open>stage_observer.h\<close> and \<open>provenance.h\<close>\<close>

record backend_options =
  bo_document :: string
  bo_ocr :: string
  bo_layout :: string
  bo_table :: string
  bo_registry_config :: string

record backend_resolution =
  br_requested :: backend_options
  br_resolved :: backend_options
  br_config_source :: string

record fallback_provenance =
  fb_stage :: string
  fb_page_number :: int
  fb_failed_backend :: string
  fb_fallback_backend :: string
  fb_reason :: string

record model_provenance =
  mp_stage :: string
  mp_backend :: string
  mp_role :: string
  mp_path :: string
  mp_profile :: string

record run_provenance =
  rp_run_id :: string
  rp_engine_name :: string
  rp_engine_version :: string
  rp_git_revision :: string
  rp_backends :: backend_resolution
  rp_models :: "model_provenance list"
  rp_fallbacks :: "fallback_provenance list"

datatype event =
    StageStarted string string int
  | StageProgress string int int
  | ArtifactReady string string string int
  | StageCompleted string
  | StageFailed string string string bool
  | StageWarning diagnostic
  | RunConfigured run_provenance

record run_options =
  ro_input_path :: string
  ro_output_directory :: string
  ro_render_dpi :: int
  ro_debug :: bool
  ro_timeout_seconds :: int
  ro_maximum_pages :: int
  ro_run_id :: string
  ro_backends :: backend_options

subsection \<open>Paths: \<open>pipeline_context.cpp\<close>\<close>

record output_paths =
  op_root :: string
  op_pages_dir :: string
  op_debug_dir :: string
  op_manifest_json :: string

definition output_paths_of :: "run_options \<Rightarrow> output_paths" where
  "output_paths_of options =
     (let root = ro_output_directory options
      in \<lparr>op_root = root, op_pages_dir = path_join root ''pages'', op_debug_dir = path_join root ''debug'',
          op_manifest_json = path_join root ''document.json''\<rparr>)"

subsection \<open>Services and environment\<close>

record page_renderer =
  rr_supports_page_rendering :: bool
  rr_render_page :: "int \<Rightarrow> page_artifact option"
  rr_render_pages :: "page_artifact list option"

record text_extractor =
  te_supports_page_text :: bool
  te_extract_page :: "int \<Rightarrow> int \<Rightarrow> page_text option"
  te_extract_all :: "int \<Rightarrow> page_text list option"

record pipeline_services =
  sv_open :: "string \<Rightarrow> bool"
  sv_source_path :: string
  sv_source_type :: string
  sv_page_count :: int
  sv_renderer :: "page_renderer option"
  sv_text :: "text_extractor option"
  sv_ocr :: ocr_backend
  sv_layout :: layout_backend
  sv_table :: table_backend
  sv_reading_order :: "page_artifact \<Rightarrow> page_layout \<Rightarrow> page_reading_order option"

record service_creation =
  sc_status :: status
  sc_provenance :: run_provenance
  sc_services :: pipeline_services

text \<open>
  \<open>env_seconds k\<close>: seconds since the run started at the k-th reading of the clock.
  \<open>env_directories\<close>: the attempts to create a scratch directory, with their outcomes.
  \<open>env_write_document\<close>: the exporter's status and the changes it makes to the files.
\<close>

record environment =
  env_seconds :: "nat \<Rightarrow> int"
  env_source :: input_stream
  env_image_size :: "page_artifact \<Rightarrow> (int \<times> int) option"
  env_directories :: "page_artifact \<Rightarrow> (string \<times> directory_outcome) list"
  env_write_image :: "string \<Rightarrow> bool"
  env_preprocess :: "page_artifact \<Rightarrow> string \<Rightarrow> bool"
  env_engine_version :: string
  env_write_document :: "parsed_document \<Rightarrow> pipeline_artifacts \<Rightarrow> (status \<times> fs_change list) option"

subsection \<open>Runs\<close>

record page_stage =
  pst_backend :: string
  pst_total :: int
  pst_started :: bool
  pst_diagnostics :: "diagnostic list"

record pipe_state =
  ps_events :: "event list"
  ps_clock :: nat
  ps_stages :: "string \<Rightarrow> page_stage"
  ps_changes :: "fs_change list"

text \<open>\<open>ps_changes\<close>: what the export has changed in the files.\<close>

text \<open>A run returns a failed status early, or (never, as is proved) throws or does not end.\<close>

datatype run_error = Returned status | Thrown string | Diverged

type_synonym 'a run = "pipe_state \<Rightarrow> (run_error + 'a) \<times> pipe_state"

definition returns :: "'a \<Rightarrow> 'a run" where
  "returns x s = (Inr x, s)"

definition and_then :: "'a run \<Rightarrow> ('a \<Rightarrow> 'b run) \<Rightarrow> 'b run" where
  "and_then m f s = (case m s of (Inl e, s') \<Rightarrow> (Inl e, s') | (Inr x, s') \<Rightarrow> f x s')"

definition before :: "unit run \<Rightarrow> 'b run \<Rightarrow> 'b run" where
  "before m f = and_then m (\<lambda>_. f)"

definition emit :: "event \<Rightarrow> unit run" where
  "emit e s = (Inr (), s\<lparr>ps_events := ps_events s @ [e]\<rparr>)"

definition change_files :: "fs_change list \<Rightarrow> unit run" where
  "change_files cs s = (Inr (), s\<lparr>ps_changes := ps_changes s @ cs\<rparr>)"

definition stop_with :: "run_error \<Rightarrow> 'a run" where
  "stop_with e s = (Inl e, s)"

definition report_failure :: "status \<Rightarrow> 'a run" where
  "report_failure st =
     before (emit (StageFailed (status_stage st) (status_code st) (status_message st) (status_retryable st)))
       (stop_with (Returned st))"

definition stageFailed :: "string \<Rightarrow> string \<Rightarrow> string \<Rightarrow> bool \<Rightarrow> 'a run" where
  "stageFailed stage code message retryable = report_failure (status_error code message stage retryable)"

definition failed_stage :: "string \<Rightarrow> status \<Rightarrow> 'a run" where
  "failed_stage stage st = stageFailed stage (status_code st) (status_message st) (status_retryable st)"

definition deadlineStatus :: "environment \<Rightarrow> run_options \<Rightarrow> string \<Rightarrow> unit run" where
  "deadlineStatus env options next_stage s =
     (if ro_timeout_seconds options \<le> 0 then returns () s
      else
        let s' = s\<lparr>ps_clock := ps_clock s + 1\<rparr> in
        if env_seconds env (ps_clock s) < ro_timeout_seconds options then returns () s'
        else stageFailed next_stage ''run_timeout''
               (''pipeline exceeded its '' @ int_to_string (ro_timeout_seconds options) @ '' second deadline'') False s')"

subsection \<open>\<open>PageStage\<close>\<close>

definition create_stage :: "string \<Rightarrow> string \<Rightarrow> int \<Rightarrow> unit run" where
  "create_stage name backend n s =
     (Inr (), s\<lparr>ps_stages := (ps_stages s)(name := \<lparr>pst_backend = backend, pst_total = n, pst_started = False,
        pst_diagnostics = []\<rparr>)\<rparr>)"

definition stage_begin :: "string \<Rightarrow> unit run" where
  "stage_begin name s =
     (let st = ps_stages s name in
      if pst_started st then returns () s
      else
        case emit (StageStarted name (pst_backend st) (pst_total st)) s of
          (r, s') \<Rightarrow> (r, s'\<lparr>ps_stages := (ps_stages s')(name := st\<lparr>pst_started := True\<rparr>)\<rparr>))"

definition stage_progress :: "string \<Rightarrow> int \<Rightarrow> unit run" where
  "stage_progress name completed s = emit (StageProgress name completed (pst_total (ps_stages s name))) s"

definition stage_warning :: "string \<Rightarrow> diagnostic \<Rightarrow> unit run" where
  "stage_warning name d s =
     (case emit (StageWarning d) s of
        (r, s') \<Rightarrow> (r, s'\<lparr>ps_stages := (ps_stages s')(name := (ps_stages s' name)\<lparr>
           pst_diagnostics := pst_diagnostics (ps_stages s' name) @ [d]\<rparr>)\<rparr>))"

fun stage_warnings :: "string \<Rightarrow> diagnostic list \<Rightarrow> unit run" where
  "stage_warnings name [] = returns ()"
| "stage_warnings name (d # ds) = before (stage_warning name d) (stage_warnings name ds)"

definition stage_complete :: "string \<Rightarrow> unit run" where
  "stage_complete name s =
     before (if pst_started (ps_stages s name) then returns () else before (stage_begin name) (stage_progress name 0))
       (emit (StageCompleted name)) s"

definition stage_diagnostics :: "string \<Rightarrow> diagnostic list run" where
  "stage_diagnostics name s = returns (pst_diagnostics (ps_stages s name)) s"

subsection \<open>Diagnostics and metadata\<close>

definition resolvedBackend :: "string \<Rightarrow> string \<Rightarrow> string" where
  "resolvedBackend resolved requested = (if resolved = [] then requested else resolved)"

definition fallback_of :: "diagnostic \<Rightarrow> fallback_provenance list" where
  "fallback_of d =
     (case (find_detail d ''failed_backend'', find_detail d ''fallback_backend'') of
        (Some failed, Some fallback) \<Rightarrow>
          [\<lparr>fb_stage = dg_stage d, fb_page_number = dg_page_number d, fb_failed_backend = failed,
            fb_fallback_backend = fallback,
            fb_reason = (case find_detail d ''reason'' of None \<Rightarrow> dg_message d | Some r \<Rightarrow> r)\<rparr>]
      | _ \<Rightarrow> [])"

definition recordDiagnostics ::
  "diagnostic list \<Rightarrow> diagnostic list \<times> run_provenance \<Rightarrow> diagnostic list \<times> run_provenance" where
  "recordDiagnostics diagnostics acc =
     (case acc of (run_diagnostics, provenance) \<Rightarrow>
        (run_diagnostics @ diagnostics,
         provenance\<lparr>rp_fallbacks := rp_fallbacks provenance @ concat (map fallback_of diagnostics)\<rparr>))"

definition warning_of :: "diagnostic \<Rightarrow> document_warning" where
  "warning_of d =
     \<lparr>dw_code = dg_code d, dw_message = dg_message d, dw_stage = dg_stage d,
      dw_page_id = (if dg_page_number d > 0 then ''page_'' @ int_to_string (dg_page_number d) else []),
      dw_block_id = [], dw_details = dg_details d, dw_occurrence_count = 1, dw_page_ids = []\<rparr>"

definition applyRunMetadata :: "run_options \<Rightarrow> diagnostic list \<Rightarrow> run_provenance \<Rightarrow> parsed_document \<Rightarrow> parsed_document" where
  "applyRunMetadata options diagnostics provenance doc =
     (let warnings = aggregateWarnings (map warning_of diagnostics);
          doc = doc\<lparr>pd_producer := \<lparr>prod_name = rp_engine_name provenance, prod_version = rp_engine_version provenance,
            prod_git_revision = rp_git_revision provenance, prod_run_id = ro_run_id options\<rparr>,
            pd_warnings := warnings\<rparr>
      in if warnings \<noteq> [] then doc\<lparr>pd_status := Partial\<rparr> else doc)"

subsection \<open>Debug images and corrected pages\<close>

text \<open>Every path the pipeline makes relative lies under the output root.\<close>

definition relativeToOutputRoot :: "string \<Rightarrow> output_paths \<Rightarrow> string" where
  "relativeToOutputRoot p paths =
     (let root = path_join (op_root paths) []; rest = drop (length root) p
      in if \<not> starts_with root p \<or> rest = [] then path_filename p else rest)"

definition preprocessDebugImage :: "environment \<Rightarrow> run_options \<Rightarrow> page_artifact \<Rightarrow> page_artifact option" where
  "preprocessDebugImage env options page =
     (if \<not> ro_debug options then Some page
      else
        let paths = output_paths_of options;
            output_path = path_join (op_debug_dir paths)
              (''page_'' @ int_to_string (pa_page_number page) @ ''_preprocessed.png'')
        in if \<not> env_preprocess env page output_path then None
           else Some (page\<lparr>pa_debug_images := pa_debug_images page @ [\<lparr>dbg_name = ''preprocessed'',
                  dbg_relative_image = relativeToOutputRoot output_path paths, dbg_output_path = output_path\<rparr>]\<rparr>))"

text \<open>\<open>OrientedPageView::prepare\<close>: a scratch directory found within a hundred attempts.\<close>

definition prepare_view :: "environment \<Rightarrow> page_artifact \<Rightarrow> page_rotation \<Rightarrow> page_artifact option" where
  "prepare_view env page rotation =
     (if rot_degrees rotation = 0 then Some page
      else case env_image_size env page of
          None \<Rightarrow> None
        | Some (cols, rows) \<Rightarrow>
            if cols \<noteq> rot_width rotation \<or> rows \<noteq> rot_height rotation then None
            else case find_directory (take 100 (env_directories env page)) of
                None \<Rightarrow> None
              | Some directory \<Rightarrow>
                  let corrected = page\<lparr>pa_output_path := path_join directory ''page.png'',
                        pa_width := workingWidth rotation, pa_height := workingHeight rotation\<rparr>
                  in if env_write_image env (pa_output_path corrected) then Some corrected else None)"

subsection \<open>One page\<close>

record page_acc =
  acc_pages :: "page_artifact list"
  acc_texts :: "page_text list"
  acc_layouts :: "page_layout list"
  acc_tables :: "page_tables list"
  acc_rotations :: "page_rotation list"
  acc_image_paths :: "string list"
  acc_legacy_texts :: "page_text list option"

definition option_run :: "'a option \<Rightarrow> 'a run \<Rightarrow> 'a run" where
  "option_run x failed = (case x of None \<Rightarrow> failed | Some v \<Rightarrow> returns v)"

definition require :: "bool \<Rightarrow> unit run \<Rightarrow> unit run" where
  "require ok failed = (if ok then returns () else failed)"

definition rendered_page ::
  "page_renderer \<Rightarrow> page_artifact list \<Rightarrow> nat \<Rightarrow> page_artifact run" where
  "rendered_page renderer legacy_pages index =
     (if rr_supports_page_rendering renderer
      then option_run (rr_render_page renderer (int index))
        (stageFailed ''render'' ''render_failed'' (''failed to render page '' @ nat_to_string (index + 1)) True)
      else returns (legacy_pages ! index))"

definition render_one ::
  "environment \<Rightarrow> run_options \<Rightarrow> page_renderer \<Rightarrow> page_artifact list \<Rightarrow> nat \<Rightarrow> page_artifact run" where
  "render_one env options renderer legacy_pages index =
     before (deadlineStatus env options ''render'')
     (and_then (rendered_page renderer legacy_pages index) (\<lambda>page.
      before (require (pa_page_index page = int index \<and> pa_page_number page = int index + 1)
        (stageFailed ''render'' ''render.page_identity_mismatch''
          (''rendered page identity does not match page '' @ nat_to_string (index + 1)) False))
     (before (emit (ArtifactReady ''render'' ''page_image'' (pa_output_path page) (pa_page_number page)))
     (and_then (option_run (preprocessDebugImage env options page)
        (stageFailed ''render'' ''preprocess_failed'' ''failed to write debug preprocessing images'' False)) (\<lambda>page.
      before (stage_progress ''render'' (int index + 1)) (returns page))))))"

text \<open>
  The page's native text: the extractor by page, or the whole document's text loaded once, at
  the first page. Also returns the texts loaded so far.
\<close>

definition native_page_text ::
  "text_extractor option \<Rightarrow> int \<Rightarrow> int \<Rightarrow> page_text list option \<Rightarrow> nat \<Rightarrow> (status + page_text) \<times> page_text list option" where
  "native_page_text native dpi page_count legacy index =
     (case native of
        None \<Rightarrow> (Inr (empty_page_text\<lparr>pt_page_index := int index, pt_page_number := int index + 1\<rparr>), legacy)
      | Some extractor \<Rightarrow>
          let failed = text_error ''text.native_extraction_failed''
                (''native text extraction failed for page '' @ nat_to_string (index + 1)) in
          if te_supports_page_text extractor
          then case te_extract_page extractor dpi (int index) of
              None \<Rightarrow> (Inl failed, legacy)
            | Some t \<Rightarrow> (Inr t, legacy)
          else
            case (case legacy of None \<Rightarrow> te_extract_all extractor dpi | Some texts \<Rightarrow> Some texts) of
              None \<Rightarrow> (Inl failed, Some [])
            | Some texts \<Rightarrow>
                if int (length texts) \<noteq> page_count
                then (Inl (text_error ''text.page_count_mismatch''
                        ''native text page count does not match page artifacts''), Some texts)
                else (Inr (texts ! index), Some texts))"

definition page_text_result_of ::
  "pipeline_services \<Rightarrow> run_options \<Rightarrow> page_text list option \<Rightarrow> nat \<Rightarrow> page_artifact \<Rightarrow>
   page_text_result \<times> page_text list option" where
  "page_text_result_of services options legacy index page =
     (case native_page_text (sv_text services) (ro_render_dpi options) (sv_page_count services) legacy index of
        (Inl st, legacy) \<Rightarrow> (\<lparr>sr_value = empty_page_text, sr_status = st, sr_diagnostics = [],
            ptr_clockwise_correction_degrees = 0\<rparr>, legacy)
      | (Inr native_text, legacy) \<Rightarrow> (extractPage (ro_render_dpi options) (sv_ocr services) page native_text, legacy))"

definition rotation_run :: "page_artifact \<Rightarrow> int \<Rightarrow> page_rotation run" where
  "rotation_run page degrees =
     (case make_rotation (pa_width page) (pa_height page) degrees of
        Inl message \<Rightarrow> stageFailed ''text'' ''text.orientation_invalid'' message False
      | Inr rotation \<Rightarrow> returns rotation)"

definition oriented :: "environment \<Rightarrow> page_artifact \<Rightarrow> page_rotation \<Rightarrow> page_text \<Rightarrow> (page_artifact \<times> page_text) run" where
  "oriented env page rotation page_text =
     (if rot_degrees rotation = 0 then returns (page, page_text)
      else
        and_then (option_run (prepare_view env page rotation)
          (stageFailed ''text'' ''text.orientation_failed''
             (''failed to prepare corrected page image for page '' @ int_to_string (pa_page_number page)) False))
        (\<lambda>page. returns (page, textToWorking rotation page_text)))"

definition text_one ::
  "environment \<Rightarrow> run_options \<Rightarrow> pipeline_services \<Rightarrow> page_text list option \<Rightarrow> nat \<Rightarrow> page_artifact \<Rightarrow>
   (page_artifact \<times> page_text \<times> page_rotation \<times> page_text list option) run" where
  "text_one env options services legacy index page =
     before (stage_begin ''text'')
     (before (deadlineStatus env options ''text'')
      (case page_text_result_of services options legacy index page of (result, legacy) \<Rightarrow>
         before (require (sr_ok result) (failed_stage ''text'' (sr_status result)))
         (and_then (rotation_run page (ptr_clockwise_correction_degrees result)) (\<lambda>rotation.
          and_then (oriented env page rotation (sr_value result)) (\<lambda>(page, t).
          before (stage_warnings ''text'' (sr_diagnostics result))
          (before (stage_progress ''text'' (int index + 1)) (returns (page, t, rotation, legacy))))))))"

definition layout_one ::
  "environment \<Rightarrow> run_options \<Rightarrow> pipeline_services \<Rightarrow> nat \<Rightarrow> page_artifact \<Rightarrow> page_text \<Rightarrow> page_layout run" where
  "layout_one env options services index page page_text =
     before (stage_begin ''layout'')
     (before (deadlineStatus env options ''layout'')
      (let result = layout_analyzePage (sv_layout services) page page_text in
       before (require (sr_ok result) (failed_stage ''layout'' (sr_status result)))
       (before (stage_warnings ''layout'' (sr_diagnostics result))
        (before (stage_progress ''layout'' (int index + 1)) (returns (sr_value result))))))"

definition table_one ::
  "environment \<Rightarrow> run_options \<Rightarrow> pipeline_services \<Rightarrow> page_artifact \<Rightarrow> page_text \<Rightarrow> page_layout \<Rightarrow>
   (page_tables \<times> page_layout) run" where
  "table_one env options services page page_text layout =
     before (stage_begin ''table'')
     (before (deadlineStatus env options ''table'')
      (case table_recognizePage (sv_table services) page page_text layout of (result, layout) \<Rightarrow>
         before (require (sr_ok result) (failed_stage ''table'' (sr_status result)))
         (before (stage_warnings ''table'' (sr_diagnostics result)) (returns (sr_value result, layout)))))"

definition process_page ::
  "environment \<Rightarrow> run_options \<Rightarrow> pipeline_services \<Rightarrow> page_renderer \<Rightarrow> page_artifact list \<Rightarrow> page_acc \<Rightarrow> nat \<Rightarrow> page_acc run" where
  "process_page env options services renderer legacy_pages acc index =
     and_then (render_one env options renderer legacy_pages index) (\<lambda>source.
     and_then (text_one env options services (acc_legacy_texts acc) index source) (\<lambda>(page, t, rotation, legacy).
     and_then (layout_one env options services index page t) (\<lambda>layout.
     and_then (table_one env options services page t layout) (\<lambda>(tables, layout).
     before (stage_progress ''table'' (int index + 1))
       (returns (acc\<lparr>acc_pages := acc_pages acc @ [page], acc_texts := acc_texts acc @ [t],
          acc_layouts := acc_layouts acc @ [layout], acc_tables := acc_tables acc @ [tables],
          acc_rotations := acc_rotations acc @ [rotation],
          acc_image_paths := acc_image_paths acc @ [pa_output_path source],
          acc_legacy_texts := legacy\<rparr>))))))"

fun loop_run :: "('a \<Rightarrow> nat \<Rightarrow> 'a run) \<Rightarrow> nat list \<Rightarrow> 'a \<Rightarrow> 'a run" where
  "loop_run f [] acc = returns acc"
| "loop_run f (i # is) acc = and_then (f acc i) (loop_run f is)"

subsection \<open>The whole document: \<open>DocumentPipeline::parseInternal\<close>\<close>

text \<open>
  Where the services come from: the caller, with their provenance, or a backend registry that
  creates them (\<open>None\<close>: the run has neither).
\<close>

datatype service_origin =
    GivenServices pipeline_services run_provenance
  | RegistryServices "backend_options \<Rightarrow> service_creation"
  | NoServices

definition create_services :: "run_options \<Rightarrow> service_origin \<Rightarrow> (pipeline_services \<times> run_provenance) run" where
  "create_services options origin =
     (case origin of
        GivenServices services provenance \<Rightarrow> returns (services, provenance)
      | NoServices \<Rightarrow> stageFailed ''configure'' ''configure.backend_registry_required''
          ''pipeline service creation requires an explicit backend registry'' False
      | RegistryServices create \<Rightarrow>
          let creation = create (ro_backends options)
          in before (require (ok_status (sc_status creation)) (report_failure (sc_status creation)))
               (returns (sc_services creation, sc_provenance creation)))"

definition configure_run :: "run_options \<Rightarrow> service_origin \<Rightarrow> (pipeline_services \<times> run_provenance) run" where
  "configure_run options origin =
     before (emit (StageStarted ''configure'' ''registry'' 1))
     (and_then (create_services options origin) (\<lambda>(services, provenance).
        let provenance = provenance\<lparr>rp_run_id := ro_run_id options\<rparr> in
        before (emit (StageProgress ''configure'' 1 1))
        (before (emit (StageCompleted ''configure''))
        (before (emit (RunConfigured provenance)) (returns (services, provenance))))))"

definition fingerprint_run :: "environment \<Rightarrow> string \<Rightarrow> file_fingerprint run" where
  "fingerprint_run env source_path =
     (case fingerprintFile source_path (env_source env) of
        None \<Rightarrow> stop_with Diverged
      | Some (st, fingerprint) \<Rightarrow> before (require (ok_status st) (failed_stage ''open'' st)) (returns fingerprint))"

definition open_run ::
  "environment \<Rightarrow> run_options \<Rightarrow> pipeline_services \<Rightarrow> run_provenance \<Rightarrow> file_fingerprint run" where
  "open_run env options services provenance =
     before (emit (StageStarted ''open'' (resolvedBackend (bo_document (br_resolved (rp_backends provenance)))
        (bo_document (ro_backends options))) 1))
     (before (require (sv_open services (ro_input_path options))
        (stageFailed ''open'' ''open_document_failed'' ''failed to open input document'' False))
     (and_then (fingerprint_run env (sv_source_path services)) (\<lambda>fingerprint.
      before (require (\<not> (ro_maximum_pages options > 0 \<and> sv_page_count services > ro_maximum_pages options))
        (stageFailed ''open'' ''maximum_pages_exceeded''
          (''document has '' @ int_to_string (sv_page_count services) @ '' pages; limit is '' @
           int_to_string (ro_maximum_pages options)) False))
     (before (emit (StageProgress ''open'' 1 1))
     (before (emit (StageCompleted ''open'')) (returns fingerprint))))))"

definition create_stages :: "run_options \<Rightarrow> run_provenance \<Rightarrow> int \<Rightarrow> unit run" where
  "create_stages options provenance page_count =
     (let resolved = br_resolved (rp_backends provenance); requested = ro_backends options in
      before (create_stage ''render'' (resolvedBackend (bo_document resolved) (bo_document requested)) page_count)
     (before (create_stage ''text'' (resolvedBackend (bo_ocr resolved) (bo_ocr requested)) page_count)
     (before (create_stage ''layout'' (resolvedBackend (bo_layout resolved) (bo_layout requested)) page_count)
             (create_stage ''table'' (resolvedBackend (bo_table resolved) (bo_table requested)) page_count))))"

definition legacy_pages_run :: "page_renderer \<Rightarrow> int \<Rightarrow> page_artifact list run" where
  "legacy_pages_run renderer page_count =
     (if rr_supports_page_rendering renderer then returns []
      else
        and_then (option_run (rr_render_pages renderer)
          (stageFailed ''render'' ''render_failed'' ''failed to render page artifacts'' True)) (\<lambda>pages.
        before (require (int (length pages) = page_count)
          (stageFailed ''render'' ''render.page_count_mismatch''
             ''rendered page count does not match the document'' False))
        (returns pages)))"

definition pages_run ::
  "environment \<Rightarrow> run_options \<Rightarrow> pipeline_services \<Rightarrow> run_provenance \<Rightarrow> page_acc run" where
  "pages_run env options services provenance =
     before (deadlineStatus env options ''render'')
     (and_then (option_run (sv_renderer services)
        (stageFailed ''render'' ''renderer_unavailable'' ''document source cannot render pages'' False)) (\<lambda>renderer.
      before (require (sv_page_count services \<ge> 0)
        (stageFailed ''render'' ''render.invalid_page_count'' ''document page count must be non-negative'' False))
     (before (create_stages options provenance (sv_page_count services))
     (before (stage_begin ''render'')
     (and_then (legacy_pages_run renderer (sv_page_count services)) (\<lambda>legacy_pages.
      loop_run (process_page env options services renderer legacy_pages) [0..<nat (sv_page_count services)]
        \<lparr>acc_pages = [], acc_texts = [], acc_layouts = [], acc_tables = [], acc_rotations = [],
         acc_image_paths = [], acc_legacy_texts = None\<rparr>))))))"

definition finish_pages ::
  "environment \<Rightarrow> run_options \<Rightarrow> run_provenance \<Rightarrow> page_acc \<Rightarrow> (page_tables list \<times> diagnostic list \<times> run_provenance) run" where
  "finish_pages env options provenance acc =
     and_then (stage_diagnostics ''text'') (\<lambda>text_diagnostics.
     and_then (stage_diagnostics ''layout'') (\<lambda>layout_diagnostics.
     and_then (stage_diagnostics ''table'') (\<lambda>table_diagnostics.
     let recorded = recordDiagnostics table_diagnostics (recordDiagnostics layout_diagnostics
           (recordDiagnostics text_diagnostics ([], provenance))) in
     before (stage_complete ''render'')
     (before (stage_complete ''text'')
     (before (stage_complete ''layout'')
     (before (deadlineStatus env options ''table'')
     (case linkPages (acc_pages acc) (acc_tables acc) of (st, tables) \<Rightarrow>
        before (require (ok_status st) (stageFailed ''table'' (status_code st) (status_message st) False))
        (before (stage_complete ''table'') (returns (tables, recorded)))))))))) "

definition reading_order_run ::
  "environment \<Rightarrow> run_options \<Rightarrow> pipeline_services \<Rightarrow> page_acc \<Rightarrow> page_reading_order list run" where
  "reading_order_run env options services acc =
     before (deadlineStatus env options ''reading_order'')
     (before (emit (StageStarted ''reading_order'' ''docling-like'' (int (length (acc_pages acc)))))
     (let result = reading_order_stage (sv_reading_order services) (acc_pages acc) (acc_layouts acc) in
      before (require (sr_ok result) (failed_stage ''reading_order'' (sr_status result)))
      (before (emit (StageProgress ''reading_order'' (int (length (sr_value result))) (int (length (acc_pages acc)))))
      (before (emit (StageCompleted ''reading_order'')) (returns (sr_value result))))))"

definition assembly_request ::
  "run_options \<Rightarrow> pipeline_services \<Rightarrow> file_fingerprint \<Rightarrow> page_acc \<Rightarrow> page_reading_order list \<Rightarrow> page_tables list \<Rightarrow> assemble_request" where
  "assembly_request options services fingerprint acc orders tables =
     \<lparr>rq_source_path = sv_source_path services, rq_source_type = sv_source_type services,
      rq_dpi = ro_render_dpi options, rq_pages = acc_pages acc, rq_page_texts = acc_texts acc,
      rq_page_layouts = acc_layouts acc, rq_page_reading_orders = orders, rq_page_tables = tables,
      rq_source_size_bytes = Some (unat (fp_size_bytes fingerprint)), rq_source_sha256 = fp_sha256 fingerprint\<rparr>"

definition restore_paths :: "string list \<Rightarrow> pipeline_artifacts \<Rightarrow> pipeline_artifacts" where
  "restore_paths paths artifacts =
     map2 (\<lambda>p path. p\<lparr>ppa_image := (ppa_image p)\<lparr>pa_output_path := path\<rparr>\<rparr>) artifacts paths"

definition assembly_run ::
  "environment \<Rightarrow> run_options \<Rightarrow> pipeline_services \<Rightarrow> file_fingerprint \<Rightarrow> page_acc \<Rightarrow> page_reading_order list \<Rightarrow>
   page_tables list \<Rightarrow> diagnostic list \<times> run_provenance \<Rightarrow> (parsed_document \<times> pipeline_artifacts) run" where
  "assembly_run env options services fingerprint acc orders tables recorded =
     before (deadlineStatus env options ''assembly'')
     (before (emit (StageStarted ''assembly'' ''document-assembler'' 1))
     (and_then (option_run (assemble (env_engine_version env)
          (assembly_request options services fingerprint acc orders tables))
        (stageFailed ''assembly'' ''assembly_failed'' ''failed to assemble document'' False)) (\<lambda>(doc, artifacts).
      case restoreSourceCoordinates doc artifacts (acc_rotations acc) of
        Inl message \<Rightarrow> stop_with (Thrown message)
      | Inr (doc, artifacts) \<Rightarrow>
          before (emit (StageProgress ''assembly'' 1 1))
          (before (emit (StageCompleted ''assembly''))
          (returns (applyRunMetadata options (fst recorded) (snd recorded) doc,
             restore_paths (acc_image_paths acc) artifacts))))))"

definition parseInternal ::
  "environment \<Rightarrow> run_options \<Rightarrow> service_origin \<Rightarrow> (parsed_document \<times> pipeline_artifacts \<times> run_provenance) run" where
  "parseInternal env options origin =
     and_then (configure_run options origin) (\<lambda>(services, provenance).
     and_then (open_run env options services provenance) (\<lambda>fingerprint.
     and_then (pages_run env options services provenance) (\<lambda>acc.
     and_then (finish_pages env options provenance acc) (\<lambda>(tables, recorded).
     and_then (reading_order_run env options services acc) (\<lambda>orders.
     and_then (assembly_run env options services fingerprint acc orders tables recorded) (\<lambda>(doc, artifacts).
     returns (doc, artifacts, snd recorded)))))))"

subsection \<open>Export and the whole run\<close>

definition exportResult ::
  "environment \<Rightarrow> run_options \<Rightarrow> parsed_document \<Rightarrow> pipeline_artifacts \<Rightarrow> unit run" where
  "exportResult env options doc artifacts =
     before (emit (StageStarted ''export'' ''multi-format'' 3))
     (and_then (option_run (env_write_document env doc artifacts)
        (stageFailed ''export'' ''exporter_unavailable'' ''no document exporter is enabled'' False)) (\<lambda>(st, changed).
      before (change_files changed)
     (before (require (ok_status st)
        (failed_stage (if status_stage st = [] then ''export'' else status_stage st) st))
     (let manifest = op_manifest_json (output_paths_of options) in
      before (emit (ArtifactReady ''export'' ''document_json'' manifest 0))
     (before (emit (ArtifactReady ''export'' ''document_markdown'' (replace_extension manifest ''.md'') 0))
     (before (emit (ArtifactReady ''export'' ''document_html'' (replace_extension manifest ''.html'') 0))
     (before (emit (StageProgress ''export'' 3 3))
             (emit (StageCompleted ''export'')))))))))"

definition pipeline_run ::
  "environment \<Rightarrow> run_options \<Rightarrow> (backend_options \<Rightarrow> service_creation) \<Rightarrow> unit run" where
  "pipeline_run env options create =
     and_then (parseInternal env options (RegistryServices create)) (\<lambda>(doc, artifacts, provenance).
     before (deadlineStatus env options ''export'') (exportResult env options doc artifacts))"

definition initial_state :: pipe_state where
  "initial_state = \<lparr>ps_events = [], ps_clock = 0,
     ps_stages = (\<lambda>_. \<lparr>pst_backend = [], pst_total = 0, pst_started = False, pst_diagnostics = []\<rparr>), ps_changes = []\<rparr>"

end
