(* ===== verification/Pipeline_Protocol.thy ===== *)
theory Pipeline_Protocol
  imports Pipeline "HOL-Library.Sublist"
begin

text \<open>
  What every pipeline run guarantees its observer (\<open>stage_observer.h\<close>: each stage starts and
  completes once per document, progress is monotonic within each stage): a small logic of runs
  with early returns, a rule for each step of the pipeline, and the theorems about whole runs.
\<close>

subsection \<open>A logic for runs\<close>

text \<open>From a state with \<open>P\<close>, a run ends with \<open>Q\<close>, or stops early with \<open>E\<close>.\<close>

definition runs ::
  "(run_error \<Rightarrow> pipe_state \<Rightarrow> bool) \<Rightarrow> (pipe_state \<Rightarrow> bool) \<Rightarrow> 'a run \<Rightarrow> ('a \<Rightarrow> pipe_state \<Rightarrow> bool) \<Rightarrow> bool" where
  "runs E P m Q \<longleftrightarrow> (\<forall>s. P s \<longrightarrow> (case m s of (Inl e, s') \<Rightarrow> E e s' | (Inr x, s') \<Rightarrow> Q x s'))"

lemma runsI: "(\<And>s. P s \<Longrightarrow> case m s of (Inl e, s') \<Rightarrow> E e s' | (Inr x, s') \<Rightarrow> Q x s') \<Longrightarrow> runs E P m Q"
  by (simp add: runs_def)

lemma runsD: "runs E P m Q \<Longrightarrow> P s \<Longrightarrow> case m s of (Inl e, s') \<Rightarrow> E e s' | (Inr x, s') \<Rightarrow> Q x s'"
  by (simp add: runs_def)

lemma runs_returns: "(\<And>s. P s \<Longrightarrow> Q x s) \<Longrightarrow> runs E P (returns x) Q"
  by (simp add: runs_def returns_def)

lemma runs_stop: "(\<And>s. P s \<Longrightarrow> E e s) \<Longrightarrow> runs E P (stop_with e) Q"
  by (simp add: runs_def stop_with_def)

lemma runs_and_then:
  assumes "runs E P m R" "\<And>x. runs E (R x) (f x) Q"
  shows "runs E P (and_then m f) Q"
proof (rule runsI)
  fix s assume "P s"
  obtain r s' where m: "m s = (r, s')" by (cases "m s")
  then show "case and_then m f s of (Inl e, s') \<Rightarrow> E e s' | (Inr x, s') \<Rightarrow> Q x s'"
    using assms \<open>P s\<close> by (cases r) (force simp: runs_def and_then_def)+
qed

lemma runs_before: "runs E P m (\<lambda>_. R) \<Longrightarrow> runs E R f Q \<Longrightarrow> runs E P (before m f) Q"
  unfolding before_def by (rule runs_and_then)

lemma runs_pre: "runs E P' m Q \<Longrightarrow> (\<And>s. P s \<Longrightarrow> P' s) \<Longrightarrow> runs E P m Q"
  by (simp add: runs_def)

lemma runs_post: "runs E P m Q' \<Longrightarrow> (\<And>x s. Q' x s \<Longrightarrow> Q x s) \<Longrightarrow> runs E P m Q"
  by (auto simp: runs_def split: prod.splits sum.splits)

lemma runs_require: "(\<not> ok \<Longrightarrow> runs E P failed (\<lambda>_. P)) \<Longrightarrow> runs E P (require ok failed) (\<lambda>_. P)"
  by (simp add: require_def runs_returns)

lemma runs_option: "runs E P failed (\<lambda>_. P) \<Longrightarrow> runs E P (option_run x failed) (\<lambda>_. P)"
  by (auto simp: option_run_def runs_returns split: option.split)

lemma runs_pure: "(\<phi> \<Longrightarrow> runs E P m Q) \<Longrightarrow> runs E (\<lambda>s. \<phi> \<and> P s) m Q"
  by (simp add: runs_def)

lemma runs_ex:
  assumes "\<And>x. runs E (P x) m Q"
  shows "runs E (\<lambda>s. \<exists>x. P x s) m Q"
  by (rule runsI, erule exE, rule runsD[OF assms])

lemma runs_require_ok:
  "(\<not> ok \<Longrightarrow> runs E P failed (\<lambda>_ _. False)) \<Longrightarrow> runs E P (require ok failed) (\<lambda>_ s. ok \<and> P s)"
  by (cases ok) (auto simp: require_def runs_returns elim!: runs_post)

lemma runs_loop:
  "(\<And>k acc. k < n \<Longrightarrow> runs E (I k acc) (f acc k) (I (Suc k))) \<Longrightarrow> k \<le> n \<Longrightarrow>
   runs E (I k acc) (loop_run f [k..<n] acc) (I n)"
proof (induction "n - k" arbitrary: k acc)
  case 0
  then show ?case by (simp add: runs_returns)
next
  case (Suc m)
  then have "[k..<n] = k # [Suc k..<n]" by (simp add: upt_conv_Cons)
  moreover have "runs E (I (Suc k) acc') (loop_run f [Suc k..<n] acc') (I n)" for acc'
    using Suc.hyps(2) Suc.prems by (intro Suc.hyps(1)) auto
  ultimately show ?case using Suc.prems Suc.hyps(2) by (auto intro!: runs_and_then)
qed

subsection \<open>The trace of a run\<close>

definition all_stages :: "string list" where
  "all_stages = [''configure'', ''open'', ''render'', ''text'', ''layout'', ''table'', ''reading_order'', ''assembly'', ''export'']"

definition page_stages :: "string list" where
  "page_stages = [''render'', ''text'', ''layout'', ''table'']"

definition started_of :: "event list \<Rightarrow> string list" where
  "started_of es = concat (map (\<lambda>e. case e of StageStarted n _ _ \<Rightarrow> [n] | _ \<Rightarrow> []) es)"

definition completed_of :: "event list \<Rightarrow> string list" where
  "completed_of es = concat (map (\<lambda>e. case e of StageCompleted n \<Rightarrow> [n] | _ \<Rightarrow> []) es)"

definition failures_of :: "event list \<Rightarrow> event list" where
  "failures_of es = filter (\<lambda>e. case e of StageFailed _ _ _ _ \<Rightarrow> True | _ \<Rightarrow> False) es"

definition progress_of :: "string \<Rightarrow> event list \<Rightarrow> (int \<times> int) list" where
  "progress_of n es = concat (map (\<lambda>e. case e of StageProgress m c t \<Rightarrow> if m = n then [(c, t)] else [] | _ \<Rightarrow> []) es)"

lemma trace_snoc [simp]:
  "started_of (es @ [e]) = started_of es @ (case e of StageStarted n _ _ \<Rightarrow> [n] | _ \<Rightarrow> [])"
  "completed_of (es @ [e]) = completed_of es @ (case e of StageCompleted n \<Rightarrow> [n] | _ \<Rightarrow> [])"
  "failures_of (es @ [e]) = failures_of es @ (case e of StageFailed _ _ _ _ \<Rightarrow> [e] | _ \<Rightarrow> [])"
  "progress_of n (es @ [e]) = progress_of n es @
     (case e of StageProgress m c t \<Rightarrow> if m = n then [(c, t)] else [] | _ \<Rightarrow> [])"
  by (simp_all add: started_of_def completed_of_def failures_of_def progress_of_def split: event.split)

text \<open>
  A point of a run: how many stages have started and completed, what progress each reported,
  and, once the page stages exist, their page count.
\<close>

definition at_point ::
  "nat \<Rightarrow> nat \<Rightarrow> (string \<Rightarrow> (int \<times> int) list) \<Rightarrow> int option \<Rightarrow> pipe_state \<Rightarrow> bool" where
  "at_point a c pr T s \<longleftrightarrow> a \<le> 9 \<and> c \<le> a \<and>
     started_of (ps_events s) = take a all_stages \<and> completed_of (ps_events s) = take c all_stages \<and>
     failures_of (ps_events s) = [] \<and> (\<forall>n. progress_of n (ps_events s) = pr n) \<and>
     (\<forall>n\<in>set page_stages. pst_started (ps_stages s n) = (n \<in> set (take a all_stages)) \<and>
        (T = None \<or> T = Some (pst_total (ps_stages s n))))"

definition stopped :: "run_error \<Rightarrow> pipe_state \<Rightarrow> bool" where
  "stopped err s \<longleftrightarrow> (\<exists>es stage code message retryable st.
     ps_events s = es @ [StageFailed stage code message retryable] \<and> failures_of es = [] \<and>
     err = Returned st \<and> \<not> ok_status st \<and> status_stage st = stage \<and> status_code st = code \<and>
     status_message st = message \<and> status_retryable st = retryable \<and>
     prefix (completed_of es) (started_of es) \<and> prefix (started_of es) all_stages)"

lemma length_all_stages [simp]: "length all_stages = 9"
  by (simp add: all_stages_def)

lemma distinct_all_stages: "distinct all_stages"
  by (simp add: all_stages_def)

lemma stage_started_iff: "j < 9 \<Longrightarrow> all_stages ! j \<in> set (take a all_stages) \<longleftrightarrow> j < a"
  using distinct_all_stages by (auto simp: in_set_conv_nth nth_eq_iff_index_eq)

lemma take_stage: "j < 9 \<Longrightarrow> take (Suc j) all_stages = take j all_stages @ [all_stages ! j]"
  by (simp add: take_Suc_conv_app_nth)

lemma point_stops:
  assumes "at_point a c pr T s" "\<not> ok_status st"
  shows "stopped (Returned st) (s\<lparr>ps_events := ps_events s @
     [StageFailed (status_stage st) (status_code st) (status_message st) (status_retryable st)]\<rparr>)"
proof -
  have "prefix (take c all_stages) (take a all_stages)"
    using assms(1) take_is_prefix[of c "take a all_stages"] by (simp add: at_point_def min_absorb1)
  with assms show ?thesis unfolding at_point_def stopped_def
    by (intro exI[of _ "ps_events s"] exI[of _ st] exI) (simp add: take_is_prefix)
qed

subsection \<open>Rules for the steps\<close>

lemma runs_report_failure: "\<not> ok_status st \<Longrightarrow> runs stopped (at_point a c pr T) (report_failure st) Q"
  using point_stops by (auto simp: runs_def report_failure_def before_def and_then_def emit_def stop_with_def)

lemma runs_stageFailed: "runs stopped (at_point a c pr T) (stageFailed stage code message retryable) Q"
  unfolding stageFailed_def by (rule runs_report_failure) simp

lemma runs_failed_stage: "runs stopped (at_point a c pr T) (failed_stage stage st) Q"
  unfolding failed_stage_def by (rule runs_stageFailed)

lemma runs_deadline: "runs stopped (at_point a c pr T) (deadlineStatus env options stage) (\<lambda>_. at_point a c pr T)"
proof (rule runsI)
  fix s assume s: "at_point a c pr T s"
  then have tick: "at_point a c pr T (s\<lparr>ps_clock := k\<rparr>)" for k by (simp add: at_point_def)
  have late: "case stageFailed stage code message False (s\<lparr>ps_clock := k\<rparr>) of
      (Inl e, s') \<Rightarrow> stopped e s' | (Inr x, s') \<Rightarrow> at_point a c pr T s'" for code message k
    by (rule runsD[OF runs_stageFailed tick])
  show "case deadlineStatus env options stage s of (Inl e, s') \<Rightarrow> stopped e s' | (Inr x, s') \<Rightarrow> at_point a c pr T s'"
  proof (cases "ro_timeout_seconds options \<le> 0 \<or> env_seconds env (ps_clock s) < ro_timeout_seconds options")
    case True
    then show ?thesis using s tick by (auto simp: deadlineStatus_def returns_def Let_def)
  next
    case False
    then show ?thesis unfolding deadlineStatus_def using late by (simp only: Let_def de_Morgan_disj if_False not_True_eq_False)
  qed
qed

text \<open>Events that neither start, complete, fail nor report progress.\<close>

lemma runs_emit_other:
  "(case e of ArtifactReady _ _ _ _ \<Rightarrow> True | StageWarning _ \<Rightarrow> True | RunConfigured _ \<Rightarrow> True | _ \<Rightarrow> False) \<Longrightarrow>
   runs stopped (at_point a c pr T) (emit e) (\<lambda>_. at_point a c pr T)"
  by (cases e) (auto simp: runs_def emit_def at_point_def)

definition note_progress :: "string \<Rightarrow> int \<times> int \<Rightarrow> (string \<Rightarrow> (int \<times> int) list) \<Rightarrow> string \<Rightarrow> (int \<times> int) list" where
  "note_progress n p pr = pr(n := pr n @ [p])"

lemma runs_emit_progress:
  "runs stopped (at_point a c pr T) (emit (StageProgress n k N)) (\<lambda>_. at_point a c (note_progress n (k, N) pr) T)"
  by (auto simp: runs_def emit_def at_point_def note_progress_def)

lemma runs_emit_started:
  "a < 9 \<Longrightarrow> n = all_stages ! a \<Longrightarrow> n \<notin> set page_stages \<Longrightarrow>
   runs stopped (at_point a c pr T) (emit (StageStarted n b N)) (\<lambda>_. at_point (Suc a) c pr T)"
  by (auto simp: runs_def emit_def at_point_def take_stage)

lemma runs_emit_completed:
  "c < 9 \<Longrightarrow> n = all_stages ! c \<Longrightarrow> c < a \<Longrightarrow>
   runs stopped (at_point a c pr T) (emit (StageCompleted n)) (\<lambda>_. at_point a (Suc c) pr T)"
  by (auto simp: runs_def emit_def at_point_def take_stage)

lemma page_stage_index: "all_stages ! j \<in> set page_stages \<Longrightarrow> j < 9 \<Longrightarrow> 2 \<le> j \<and> j \<le> 5"
  by (auto simp: all_stages_def page_stages_def nth_Cons split: nat.splits)

lemma runs_stage_begin:
  assumes j: "j < 9" "n = all_stages ! j" "n \<in> set page_stages" "j \<le> a"
  shows "runs stopped (at_point a c pr T) (stage_begin n) (\<lambda>_. at_point (max a (Suc j)) c pr T)"
proof (rule runsI)
  fix s assume s: "at_point a c pr T s"
  have flag: "pst_started (ps_stages s n) \<longleftrightarrow> j < a"
    using s j stage_started_iff[of j a] by (simp add: at_point_def)
  show "case stage_begin n s of (Inl e, s') \<Rightarrow> stopped e s' | (Inr x, s') \<Rightarrow> at_point (max a (Suc j)) c pr T s'"
  proof (cases "j < a")
    case True
    then show ?thesis using s flag by (simp add: stage_begin_def returns_def Let_def max_absorb1 Suc_leI)
  next
    case False
    then have a: "a = j" using j(4) by simp
    with s j flag show ?thesis
      by (auto simp: stage_begin_def emit_def at_point_def Let_def take_stage)
  qed
qed

lemma runs_stage_progress:
  "n \<in> set page_stages \<Longrightarrow>
   runs stopped (at_point a c pr (Some N)) (stage_progress n k) (\<lambda>_. at_point a c (note_progress n (k, N) pr) (Some N))"
  by (auto simp: runs_def stage_progress_def emit_def at_point_def note_progress_def) metis

lemma runs_stage_warning: "runs stopped (at_point a c pr T) (stage_warning n d) (\<lambda>_. at_point a c pr T)"
  by (auto simp: runs_def stage_warning_def emit_def at_point_def)

lemma runs_stage_warnings: "runs stopped (at_point a c pr T) (stage_warnings n ds) (\<lambda>_. at_point a c pr T)"
  by (induction ds) (auto intro: runs_returns runs_before runs_stage_warning)

lemma runs_stage_diagnostics: "runs stopped (at_point a c pr T) (stage_diagnostics n) (\<lambda>_. at_point a c pr T)"
  by (simp add: runs_def stage_diagnostics_def returns_def)

lemma runs_stage_complete:
  assumes j: "j < 9" "n = all_stages ! j" "n \<in> set page_stages" "j \<le> a"
  shows "runs stopped (at_point a j pr (Some N)) (stage_complete n)
    (\<lambda>_. at_point (max a (Suc j)) (Suc j) (if j < a then pr else note_progress n (0, N) pr) (Some N))"
proof (cases "j < a")
  case True
  have "stage_complete n s = emit (StageCompleted n) s" if "at_point a j pr (Some N) s" for s
    using that j True stage_started_iff[of j a]
    by (simp add: stage_complete_def at_point_def before_def and_then_def returns_def)
  moreover have "runs stopped (at_point a j pr (Some N)) (emit (StageCompleted n)) (\<lambda>_. at_point a (Suc j) pr (Some N))"
    using j True by (intro runs_emit_completed) auto
  ultimately show ?thesis using True by (simp add: runs_def max_absorb1 Suc_leI)
next
  case False
  then have a: "a = j" using j(4) by simp
  have "stage_complete n s = before (before (stage_begin n) (stage_progress n 0)) (emit (StageCompleted n)) s"
    if "at_point a j pr (Some N) s" for s
    using that j a stage_started_iff[of j a] by (simp add: stage_complete_def at_point_def)
  moreover have "runs stopped (at_point j j pr (Some N)) (before (before (stage_begin n) (stage_progress n 0)) (emit (StageCompleted n)))
      (\<lambda>_. at_point (Suc j) (Suc j) (note_progress n (0, N) pr) (Some N))"
  proof (rule runs_before)
    show "runs stopped (at_point (Suc j) j (note_progress n (0, N) pr) (Some N)) (emit (StageCompleted n))
        (\<lambda>_. at_point (Suc j) (Suc j) (note_progress n (0, N) pr) (Some N))"
      using j by (intro runs_emit_completed) auto
    show "runs stopped (at_point j j pr (Some N)) (before (stage_begin n) (stage_progress n 0))
        (\<lambda>_. at_point (Suc j) j (note_progress n (0, N) pr) (Some N))"
      using j runs_stage_begin[of j n j j pr "Some N"] by (auto intro: runs_before runs_stage_progress)
  qed
  ultimately show ?thesis using a by (simp add: runs_def)
qed

lemma runs_change_files: "runs stopped (at_point a c pr T) (change_files cs) (\<lambda>_. at_point a c pr T)"
  by (simp add: runs_def change_files_def at_point_def)

lemma runs_create_stages:
  "runs stopped (at_point 2 c pr T) (create_stages options provenance N) (\<lambda>_. at_point 2 c pr (Some N))"
  by (auto simp: runs_def create_stages_def create_stage_def before_def and_then_def at_point_def page_stages_def
      all_stages_def Let_def numeral_2_eq_2)

lemmas step_rules = runs_before runs_and_then runs_deadline runs_require runs_option runs_stageFailed
  runs_failed_stage runs_stage_warnings

subsection \<open>One page\<close>

lemma runs_return_point: "runs E P (returns x) (\<lambda>_. P)"
  by (simp add: runs_returns)

lemma runs_rendered_page:
  "runs stopped (at_point a c pr T) (rendered_page renderer legacy_pages index) (\<lambda>_. at_point a c pr T)"
  by (simp add: rendered_page_def runs_return_point runs_option runs_stageFailed)

lemma runs_render_one:
  "runs stopped (at_point a c pr (Some N)) (render_one env options renderer legacy_pages index)
     (\<lambda>_. at_point a c (note_progress ''render'' (int index + 1, N) pr) (Some N))"
  unfolding render_one_def
  by (auto intro!: step_rules runs_rendered_page runs_emit_other runs_stage_progress runs_return_point
      simp: page_stages_def)

lemma runs_rotation: "runs stopped (at_point a c pr T) (rotation_run page degrees) (\<lambda>_. at_point a c pr T)"
  by (simp add: rotation_run_def runs_return_point runs_stageFailed split: sum.split)

lemma runs_oriented: "runs stopped (at_point a c pr T) (oriented env page rotation t) (\<lambda>_. at_point a c pr T)"
  unfolding oriented_def by (auto intro!: step_rules runs_return_point)

lemma runs_page_begin:
  "a \<le> 9 \<Longrightarrow> 3 \<le> a \<Longrightarrow> runs stopped (at_point a c pr T) (stage_begin ''text'') (\<lambda>_. at_point (max a 4) c pr T)"
  "4 \<le> a \<Longrightarrow> runs stopped (at_point a c pr T) (stage_begin ''layout'') (\<lambda>_. at_point (max a 5) c pr T)"
  "5 \<le> a \<Longrightarrow> runs stopped (at_point a c pr T) (stage_begin ''table'') (\<lambda>_. at_point (max a 6) c pr T)"
  using runs_stage_begin[of 3 "''text''"] runs_stage_begin[of 4 "''layout''"] runs_stage_begin[of 5 "''table''"]
  by (simp_all add: all_stages_def page_stages_def)

lemma runs_text_one:
  assumes "3 \<le> a" "a \<le> 9"
  shows "runs stopped (at_point a c pr (Some N)) (text_one env options services legacy index page)
     (\<lambda>_. at_point (max a 4) c (note_progress ''text'' (int index + 1, N) pr) (Some N))"
  unfolding text_one_def
  using assms
  by (auto intro!: step_rules runs_page_begin runs_rotation runs_oriented runs_stage_progress runs_return_point
      simp: page_stages_def split: prod.split)

lemma runs_layout_one:
  assumes "4 \<le> a"
  shows "runs stopped (at_point a c pr (Some N)) (layout_one env options services index page t)
     (\<lambda>_. at_point (max a 5) c (note_progress ''layout'' (int index + 1, N) pr) (Some N))"
  unfolding layout_one_def Let_def
  using assms by (auto intro!: step_rules runs_page_begin runs_stage_progress runs_return_point simp: page_stages_def)

lemma runs_table_one:
  assumes "5 \<le> a"
  shows "runs stopped (at_point a c pr T) (table_one env options services page t layout) (\<lambda>_. at_point (max a 6) c pr T)"
  unfolding table_one_def
  using assms by (auto intro!: step_rules runs_page_begin runs_return_point split: prod.split)

definition page_progress :: "int \<Rightarrow> (string \<Rightarrow> (int \<times> int) list) \<Rightarrow> nat \<Rightarrow> string \<Rightarrow> (int \<times> int) list" where
  "page_progress N pr k n = (if n \<in> set page_stages then map (\<lambda>i. (int i, N)) [1..<Suc k] else pr n)"

lemma page_progress_Suc:
  "note_progress ''table'' (int k + 1, N) (note_progress ''layout'' (int k + 1, N) (note_progress ''text'' (int k + 1, N)
     (note_progress ''render'' (int k + 1, N) (page_progress N pr k)))) = page_progress N pr (Suc k)"
  by (auto simp: page_progress_def note_progress_def page_stages_def fun_eq_iff)

definition started_after :: "nat \<Rightarrow> nat" where
  "started_after k = (if k = 0 then 3 else 6)"

definition acc_ok :: "nat \<Rightarrow> page_acc \<Rightarrow> bool" where
  "acc_ok k acc \<longleftrightarrow> length (acc_pages acc) = k \<and> length (acc_rotations acc) = k \<and> length (acc_image_paths acc) = k \<and>
     length (acc_texts acc) = k \<and> length (acc_layouts acc) = k \<and> length (acc_tables acc) = k"

definition pages_point ::
  "nat \<Rightarrow> int \<Rightarrow> (string \<Rightarrow> (int \<times> int) list) \<Rightarrow> nat \<Rightarrow> page_acc \<Rightarrow> pipe_state \<Rightarrow> bool" where
  "pages_point c N pr k acc s \<longleftrightarrow> acc_ok k acc \<and> at_point (started_after k) c (page_progress N pr k) (Some N) s"

lemma runs_process_page:
  "runs stopped (pages_point c N pr k acc) (process_page env options services renderer legacy_pages acc k)
     (pages_point c N pr (Suc k))"
proof -
  let ?a = "started_after k"
  have a: "3 \<le> ?a" "?a \<le> 9" "max (max (max ?a 4) 5) 6 = started_after (Suc k)"
    by (simp_all add: started_after_def)
  show ?thesis
    unfolding pages_point_def process_page_def page_progress_Suc[symmetric] a(3)[symmetric]
    using a(1,2)
    by (intro runs_pure)
      (auto intro!: runs_and_then runs_before runs_render_one runs_text_one runs_layout_one runs_table_one
        runs_stage_progress runs_returns simp: page_stages_def acc_ok_def split: prod.split)
qed

subsection \<open>The whole document\<close>

definition no_progress :: "string \<Rightarrow> (int \<times> int) list" where
  "no_progress n = []"

definition open_progress :: "string \<Rightarrow> (int \<times> int) list" where
  "open_progress = note_progress ''open'' (1, 1) (note_progress ''configure'' (1, 1) no_progress)"

lemma runs_create_services: "runs stopped (at_point a c pr T) (create_services options origin) (\<lambda>_. at_point a c pr T)"
  by (auto simp: create_services_def Let_def intro!: runs_return_point runs_stageFailed runs_before runs_require
      runs_report_failure split: service_origin.split)

lemma runs_configure:
  "runs stopped (at_point 0 0 pr None) (configure_run options origin)
     (\<lambda>_. at_point 1 1 (note_progress ''configure'' (1, 1) pr) None)"
proof -
  have start: "runs stopped (at_point 0 0 pr None) (emit (StageStarted ''configure'' ''registry'' 1)) (\<lambda>_. at_point 1 0 pr None)"
    using runs_emit_started[of 0 "''configure''"] by (simp add: all_stages_def page_stages_def)
  have done_event: "runs stopped (at_point 1 0 pr None) (emit (StageCompleted ''configure'')) (\<lambda>_. at_point 1 1 pr None)" for pr
    using runs_emit_completed[of 0 "''configure''" 1] by (simp add: all_stages_def)
  show ?thesis
    unfolding configure_run_def Let_def
    by (auto intro!: runs_before runs_and_then start runs_create_services runs_emit_progress done_event runs_emit_other
        runs_return_point simp del: One_nat_def split: prod.split)
qed

lemma fingerprint_returns: "fingerprintFile path input \<noteq> None"
  using read_loop_absorbed[OF absorbed_init, of 0 "kReadSize - 1" "in_content input"]
  by (auto simp: fingerprintFile_def)

lemma runs_fingerprint: "runs stopped (at_point a c pr T) (fingerprint_run env path) (\<lambda>_. at_point a c pr T)"
  by (auto simp: fingerprint_run_def fingerprint_returns intro!: runs_before runs_require runs_failed_stage runs_return_point
      split: option.split)

lemma runs_open:
  "runs stopped (at_point 1 1 pr None) (open_run env options services provenance)
     (\<lambda>_. at_point 2 2 (note_progress ''open'' (1, 1) pr) None)"
proof -
  have start: "runs stopped (at_point 1 1 pr None) (emit (StageStarted ''open'' b 1)) (\<lambda>_. at_point 2 1 pr None)" for b
    using runs_emit_started[of 1 "''open''"] by (simp add: all_stages_def page_stages_def numeral_2_eq_2)
  have done_event: "runs stopped (at_point 2 1 pr None) (emit (StageCompleted ''open'')) (\<lambda>_. at_point 2 2 pr None)" for pr
    using runs_emit_completed[of 1 "''open''" 2] by (simp add: all_stages_def numeral_2_eq_2)
  show ?thesis
    unfolding open_run_def
    by (auto intro!: step_rules start runs_fingerprint runs_emit_progress done_event runs_return_point simp del: One_nat_def)
qed

lemma page_progress_0: "page_progress N open_progress 0 = open_progress"
  by (auto simp: page_progress_def open_progress_def note_progress_def no_progress_def page_stages_def fun_eq_iff)

lemma runs_legacy_pages: "runs stopped (at_point a c pr T) (legacy_pages_run renderer N) (\<lambda>_. at_point a c pr T)"
  unfolding legacy_pages_run_def by (auto intro!: step_rules runs_return_point)

lemma runs_pages:
  "runs stopped (at_point 2 2 open_progress None) (pages_run env options services provenance)
     (\<lambda>acc s. 0 \<le> sv_page_count services \<and>
        pages_point 2 (sv_page_count services) open_progress (nat (sv_page_count services)) acc s)"
proof -
  let ?N = "sv_page_count services"
  let ?acc = "\<lparr>acc_pages = [], acc_texts = [], acc_layouts = [], acc_tables = [], acc_rotations = [],
     acc_image_paths = [], acc_legacy_texts = None\<rparr>"
  have begin_render: "runs stopped (at_point 2 2 pr T) (stage_begin ''render'') (\<lambda>_. at_point 3 2 pr T)" for pr T
    using runs_stage_begin[of 2 "''render''" 2] by (simp add: all_stages_def page_stages_def numeral_3_eq_3 numeral_2_eq_2)
  have start: "at_point 3 2 open_progress (Some ?N) s \<Longrightarrow> pages_point 2 ?N open_progress 0 ?acc s" for s
    by (simp add: pages_point_def acc_ok_def started_after_def page_progress_0)
  have loop: "runs stopped (at_point 3 2 open_progress (Some ?N))
      (loop_run (process_page env options services renderer legacy_pages) [0..<nat ?N] ?acc)
      (pages_point 2 ?N open_progress (nat ?N))" for renderer legacy_pages
    by (rule runs_pre[OF runs_loop[where I = "pages_point 2 ?N open_progress"]]) (simp_all add: runs_process_page start)
  show ?thesis
    unfolding pages_run_def
  proof (rule runs_before[OF runs_deadline], rule runs_and_then[OF runs_option[OF runs_stageFailed]],
      rule runs_before[OF runs_require_ok[OF runs_stageFailed]], rule runs_pure)
    fix renderer assume "0 \<le> ?N"
    then show "runs stopped (at_point 2 2 open_progress None)
       (before (create_stages options provenance ?N) (before (stage_begin ''render'')
          (and_then (legacy_pages_run renderer ?N) (\<lambda>legacy_pages.
             loop_run (process_page env options services renderer legacy_pages) [0..<nat ?N] ?acc))))
       (\<lambda>acc s. 0 \<le> ?N \<and> pages_point 2 ?N open_progress (nat ?N) acc s)"
      by (auto intro!: runs_before runs_and_then runs_create_stages begin_render runs_legacy_pages loop)
  qed
qed

text \<open>The progress each page stage has reported when its document is done.\<close>

definition full_progress :: "int \<Rightarrow> string \<Rightarrow> (int \<times> int) list" where
  "full_progress N n =
     (if n = ''render'' \<or> 0 < N then map (\<lambda>i. (int i, N)) [1..<Suc (nat N)] else [(0, N)])"

definition traced :: "nat \<Rightarrow> nat \<Rightarrow> int \<Rightarrow> pipe_state \<Rightarrow> bool" where
  "traced a c N s \<longleftrightarrow> (\<exists>pr. at_point a c pr (Some N) s \<and> (\<forall>n\<in>set page_stages. pr n = full_progress N n))"

lemma runs_completions:
  "runs stopped (at_point 6 2 pr (Some N)) (stage_complete ''render'') (\<lambda>_. at_point 6 3 pr (Some N))"
  "runs stopped (at_point 6 3 pr (Some N)) (stage_complete ''text'') (\<lambda>_. at_point 6 4 pr (Some N))"
  "runs stopped (at_point 6 4 pr (Some N)) (stage_complete ''layout'') (\<lambda>_. at_point 6 5 pr (Some N))"
  "runs stopped (at_point 6 5 pr (Some N)) (stage_complete ''table'') (\<lambda>_. at_point 6 6 pr (Some N))"
  "runs stopped (at_point 3 2 pr (Some N)) (stage_complete ''render'') (\<lambda>_. at_point 3 3 pr (Some N))"
  "runs stopped (at_point 3 3 pr (Some N)) (stage_complete ''text'')
     (\<lambda>_. at_point 4 4 (note_progress ''text'' (0, N) pr) (Some N))"
  "runs stopped (at_point 4 4 pr (Some N)) (stage_complete ''layout'')
     (\<lambda>_. at_point 5 5 (note_progress ''layout'' (0, N) pr) (Some N))"
  "runs stopped (at_point 5 5 pr (Some N)) (stage_complete ''table'')
     (\<lambda>_. at_point 6 6 (note_progress ''table'' (0, N) pr) (Some N))"
  using runs_stage_complete[of 2 "''render''" 6] runs_stage_complete[of 3 "''text''" 6]
    runs_stage_complete[of 4 "''layout''" 6] runs_stage_complete[of 5 "''table''" 6]
    runs_stage_complete[of 2 "''render''" 3] runs_stage_complete[of 3 "''text''" 3]
    runs_stage_complete[of 4 "''layout''" 4] runs_stage_complete[of 5 "''table''" 5]
  by (simp_all add: all_stages_def page_stages_def)

lemma traced_full:
  assumes "at_point 6 6 pr (Some N) s" "0 < N" "pr = page_progress N open_progress (nat N)"
  shows "traced 6 6 N s"
  using assms unfolding traced_def by (auto simp: page_progress_def full_progress_def intro!: exI[of _ pr])

lemma traced_empty:
  assumes "at_point 6 6 pr (Some N) s" "N = 0"
    "pr = note_progress ''table'' (0, N) (note_progress ''layout'' (0, N) (note_progress ''text'' (0, N) open_progress))"
  shows "traced 6 6 N s"
  using assms unfolding traced_def
  by (auto simp: full_progress_def note_progress_def page_stages_def open_progress_def no_progress_def intro!: exI[of _ pr])

lemma runs_finish_pages:
  "runs stopped (\<lambda>s. 0 \<le> N \<and> pages_point 2 N open_progress (nat N) acc s) (finish_pages env options provenance acc)
     (\<lambda>_. traced 6 6 N)"
proof (rule runs_pure)
  assume "0 \<le> N"
  then consider "0 < N" | "N = 0" by linarith
  then show "runs stopped (pages_point 2 N open_progress (nat N) acc) (finish_pages env options provenance acc)
      (\<lambda>_. traced 6 6 N)"
  proof cases
    case 1
    then have a: "started_after (nat N) = 6" by (simp add: started_after_def)
    show ?thesis
      unfolding pages_point_def a finish_pages_def Let_def
      by (rule runs_pure, rule runs_post[where Q' = "\<lambda>_. at_point 6 6 (page_progress N open_progress (nat N)) (Some N)"])
        (auto intro!: step_rules runs_stage_diagnostics runs_completions runs_return_point traced_full 1 split: prod.split)
  next
    case 2
    then have a: "started_after (nat N) = 3" "page_progress N open_progress (nat N) = open_progress"
      using page_progress_0[of N] by (simp_all add: started_after_def)
    show ?thesis
      unfolding pages_point_def a finish_pages_def Let_def
      by (rule runs_pure, rule runs_post[where Q' = "\<lambda>_. at_point 6 6 (note_progress ''table'' (0, N)
            (note_progress ''layout'' (0, N) (note_progress ''text'' (0, N) open_progress))) (Some N)"])
        (auto intro!: step_rules runs_stage_diagnostics runs_completions runs_return_point traced_empty 2 split: prod.split)
  qed
qed

text \<open>From the reading order on, only the stage that runs changes the trace.\<close>

lemma runs_traced:
  assumes "\<And>pr. runs stopped (at_point a c pr (Some N)) m (\<lambda>x s. \<exists>p. at_point a' c' (note_progress stage p pr) (Some N) s)"
    and "stage \<notin> set page_stages"
  shows "runs stopped (traced a c N) m (\<lambda>_. traced a' c' N)"
proof -
  have "runs stopped (\<lambda>s. (\<forall>n\<in>set page_stages. pr n = full_progress N n) \<and> at_point a c pr (Some N) s) m (\<lambda>_. traced a' c' N)" for pr
  proof (rule runs_pure)
    assume pr: "\<forall>n\<in>set page_stages. pr n = full_progress N n"
    have "note_progress stage p pr n = full_progress N n" if "n \<in> set page_stages" for n p
      using pr that assms(2) by (auto simp: note_progress_def)
    then show "runs stopped (at_point a c pr (Some N)) m (\<lambda>_. traced a' c' N)"
      by (intro runs_post[OF assms(1)]) (auto simp: traced_def)
  qed
  then have "runs stopped (\<lambda>s. \<exists>pr. (\<forall>n\<in>set page_stages. pr n = full_progress N n) \<and> at_point a c pr (Some N) s) m
      (\<lambda>_. traced a' c' N)"
    by (rule runs_ex)
  then show ?thesis by (rule runs_pre) (auto simp: traced_def)
qed

lemma runs_exI: "runs E P m (\<lambda>_. Q x) \<Longrightarrow> runs E P m (\<lambda>_ s. \<exists>x. Q x s)"
  by (erule runs_post) blast

lemma runs_late_stages:
  "runs stopped (at_point 6 6 pr T) (emit (StageStarted ''reading_order'' b N)) (\<lambda>_. at_point 7 6 pr T)"
  "runs stopped (at_point 7 6 pr T) (emit (StageCompleted ''reading_order'')) (\<lambda>_. at_point 7 7 pr T)"
  "runs stopped (at_point 7 7 pr T) (emit (StageStarted ''assembly'' b N)) (\<lambda>_. at_point 8 7 pr T)"
  "runs stopped (at_point 8 7 pr T) (emit (StageCompleted ''assembly'')) (\<lambda>_. at_point 8 8 pr T)"
  "runs stopped (at_point 8 8 pr T) (emit (StageStarted ''export'' b N)) (\<lambda>_. at_point 9 8 pr T)"
  "runs stopped (at_point 9 8 pr T) (emit (StageCompleted ''export'')) (\<lambda>_. at_point 9 9 pr T)"
  using runs_emit_started[of 6 "''reading_order''"] runs_emit_completed[of 6 "''reading_order''" 7]
    runs_emit_started[of 7 "''assembly''"] runs_emit_completed[of 7 "''assembly''" 8]
    runs_emit_started[of 8 "''export''"] runs_emit_completed[of 8 "''export''" 9]
  by (simp_all add: all_stages_def page_stages_def)

lemma runs_reading_order:
  "runs stopped (traced 6 6 N) (reading_order_run env options services acc) (\<lambda>_. traced 7 7 N)"
proof (rule runs_traced[where stage = "''reading_order''"])
  fix pr
  let ?r = "reading_order_stage (sv_reading_order services) (acc_pages acc) (acc_layouts acc)"
  show "runs stopped (at_point 6 6 pr (Some N)) (reading_order_run env options services acc)
      (\<lambda>x s. \<exists>p. at_point 7 7 (note_progress ''reading_order'' p pr) (Some N) s)"
    unfolding reading_order_run_def Let_def
    by (rule runs_exI[where x = "(int (length (sr_value ?r)), int (length (acc_pages acc)))"])
      (auto intro!: step_rules runs_late_stages runs_emit_progress runs_return_point)
qed (simp add: page_stages_def)

lemma restore_returns:
  "assemble version request = Some (doc, artifacts) \<Longrightarrow> length rotations = length (rq_pages request) \<Longrightarrow>
   \<exists>r. restoreSourceCoordinates doc artifacts rotations = Inr r"
  by (auto simp: assemble_def restoreSourceCoordinates_def request_pages_def Let_def split: if_splits)

lemma runs_option_some:
  "runs E P failed (\<lambda>_ _. False) \<Longrightarrow> runs E P (option_run x failed) (\<lambda>v s. x = Some v \<and> P s)"
  by (cases x) (auto simp: option_run_def runs_returns elim!: runs_post)

lemma runs_assembly:
  assumes "acc_ok k acc"
  shows "runs stopped (traced 7 7 N) (assembly_run env options services fingerprint acc orders tables recorded) (\<lambda>_. traced 8 8 N)"
proof (rule runs_traced[where stage = "''assembly''"])
  fix pr
  let ?request = "assembly_request options services fingerprint acc orders tables"
  have finish: "runs stopped (\<lambda>s. assemble (env_engine_version env) ?request = Some r \<and> at_point 8 7 pr (Some N) s)
      (case r of (doc, artifacts) \<Rightarrow>
         (case restoreSourceCoordinates doc artifacts (acc_rotations acc) of
            Inl message \<Rightarrow> stop_with (Thrown message)
          | Inr (doc, artifacts) \<Rightarrow>
              before (emit (StageProgress ''assembly'' 1 1))
              (before (emit (StageCompleted ''assembly''))
              (returns (applyRunMetadata options (fst recorded) (snd recorded) doc,
                 restore_paths (acc_image_paths acc) artifacts)))))
      (\<lambda>_. at_point 8 8 (note_progress ''assembly'' (1, 1) pr) (Some N))" for r
  proof (rule runs_pure)
    assume r: "assemble (env_engine_version env) ?request = Some r"
    obtain doc artifacts where "r = (doc, artifacts)" by (cases r)
    moreover from this r obtain v where "restoreSourceCoordinates doc artifacts (acc_rotations acc) = Inr v"
      using restore_returns[of "env_engine_version env" ?request doc artifacts "acc_rotations acc"] assms
      by (auto simp: assembly_request_def acc_ok_def)
    ultimately show "runs stopped (at_point 8 7 pr (Some N)) (case r of (doc, artifacts) \<Rightarrow>
         (case restoreSourceCoordinates doc artifacts (acc_rotations acc) of
            Inl message \<Rightarrow> stop_with (Thrown message)
          | Inr (doc, artifacts) \<Rightarrow>
              before (emit (StageProgress ''assembly'' 1 1))
              (before (emit (StageCompleted ''assembly''))
              (returns (applyRunMetadata options (fst recorded) (snd recorded) doc,
                 restore_paths (acc_image_paths acc) artifacts)))))
      (\<lambda>_. at_point 8 8 (note_progress ''assembly'' (1, 1) pr) (Some N))"
      by (auto intro!: runs_before runs_late_stages runs_emit_progress runs_return_point split: prod.split)
  qed
  show "runs stopped (at_point 7 7 pr (Some N)) (assembly_run env options services fingerprint acc orders tables recorded)
      (\<lambda>x s. \<exists>p. at_point 8 8 (note_progress ''assembly'' p pr) (Some N) s)"
    unfolding assembly_run_def
    by (rule runs_exI[where x = "(1, 1)"], rule runs_before[OF runs_deadline], rule runs_before[OF runs_late_stages(3)],
      rule runs_and_then[OF runs_option_some[OF runs_stageFailed] finish])
qed (simp add: page_stages_def)

lemma runs_parse:
  "runs stopped (at_point 0 0 no_progress None) (parseInternal env options origin) (\<lambda>_ s. \<exists>N. traced 8 8 N s)"
proof -
  have late: "runs stopped (\<lambda>s. 0 \<le> N \<and> pages_point 2 N open_progress (nat N) acc s)
      (and_then (finish_pages env options provenance acc) (\<lambda>(tables, recorded).
       and_then (reading_order_run env options services acc) (\<lambda>orders.
       and_then (assembly_run env options services fingerprint acc orders tables recorded) (\<lambda>(doc, artifacts).
       returns (doc, artifacts, snd recorded))))) (\<lambda>_ s. \<exists>N. traced 8 8 N s)"
    for N acc provenance services fingerprint
  proof (cases "acc_ok (nat N) acc")
    case True
    then show ?thesis
      by (auto intro!: runs_and_then runs_finish_pages runs_reading_order runs_assembly runs_returns split: prod.split)
  next
    case False
    then show ?thesis by (simp add: runs_def pages_point_def)
  qed
  show ?thesis
    unfolding parseInternal_def
    by (auto intro!: runs_and_then[OF runs_configure] runs_and_then[OF runs_open[of "note_progress ''configure'' (1, 1) no_progress"]]
        runs_and_then[OF runs_pages] late simp flip: open_progress_def split: prod.split)
qed

lemma runs_export:
  "runs stopped (traced 8 8 N) (before (deadlineStatus env options ''export'') (exportResult env options doc artifacts))
     (\<lambda>_. traced 9 9 N)"
proof (rule runs_traced[where stage = "''export''"])
  fix pr
  show "runs stopped (at_point 8 8 pr (Some N))
      (before (deadlineStatus env options ''export'') (exportResult env options doc artifacts))
      (\<lambda>x s. \<exists>p. at_point 9 9 (note_progress ''export'' p pr) (Some N) s)"
    unfolding exportResult_def Let_def
    by (rule runs_exI[where x = "(3, 3)"])
      (auto intro!: step_rules runs_late_stages runs_emit_progress runs_emit_other runs_change_files runs_return_point
        split: prod.split)
qed (simp add: page_stages_def)

lemma runs_pipeline:
  "runs stopped (at_point 0 0 no_progress None) (pipeline_run env options create) (\<lambda>_ s. \<exists>N. traced 9 9 N s)"
proof -
  have "runs stopped (\<lambda>s. \<exists>N. traced 8 8 N s)
      (before (deadlineStatus env options ''export'') (exportResult env options doc artifacts)) (\<lambda>_ s. \<exists>N. traced 9 9 N s)"
    for doc artifacts
    by (rule runs_ex) (rule runs_exI, rule runs_export)
  then show ?thesis
    unfolding pipeline_run_def by (auto intro!: runs_and_then[OF runs_parse] split: prod.split)
qed

lemma initial_point: "at_point 0 0 no_progress None initial_state"
  by (simp add: at_point_def initial_state_def started_of_def completed_of_def failures_of_def progress_of_def no_progress_def)

text \<open>The trace of a run that has done its first \<open>k\<close> stages.\<close>

definition finished :: "nat \<Rightarrow> int \<Rightarrow> event list \<Rightarrow> bool" where
  "finished k N es \<longleftrightarrow> started_of es = take k all_stages \<and> completed_of es = take k all_stages \<and>
     failures_of es = [] \<and> list_all (\<lambda>n. progress_of n es = full_progress N n) page_stages"

lemma traced_finished: "traced k k N s \<Longrightarrow> finished k N (ps_events s)"
  by (auto simp: traced_def at_point_def finished_def list_all_iff)

text \<open>
  C1: Every run keeps the observer's contract, whatever the document, the backends and the clock
  do. A run that succeeds starts and completes each stage exactly once, in the pipeline's order,
  reports no failure, and every page stage reports the pages 1, ..., N out of N in order (0 out
  of 0 for an empty document). A run that fails reports exactly one failure, as its last event,
  and returns just that failure's code, message and stage; before it, what had completed had
  started, in the same order. No run throws or fails to return. This holds for the parsing of a
  document, as the engine's library calls it, and for the whole run with the export.
\<close>

theorem runs_keep_protocol:
  "(case parseInternal env options origin initial_state of
      (Inl err, s) \<Rightarrow> stopped err s | (Inr _, s) \<Rightarrow> \<exists>N. finished 8 N (ps_events s)) \<and>
   (case pipeline_run env options create initial_state of
      (Inl err, s) \<Rightarrow> stopped err s | (Inr _, s) \<Rightarrow> \<exists>N. finished 9 N (ps_events s))"
proof
  show "case parseInternal env options origin initial_state of
      (Inl err, s) \<Rightarrow> stopped err s | (Inr _, s) \<Rightarrow> \<exists>N. finished 8 N (ps_events s)"
    using runsD[OF runs_parse initial_point, of env options origin] traced_finished
    by (auto split: prod.splits sum.splits)
  show "case pipeline_run env options create initial_state of
      (Inl err, s) \<Rightarrow> stopped err s | (Inr _, s) \<Rightarrow> \<exists>N. finished 9 N (ps_events s)"
    using runsD[OF runs_pipeline initial_point, of env options create] traced_finished
    by (auto split: prod.splits sum.splits)
qed

end
