(* ===== verification/Pipeline_Result.thy ===== *)
theory Pipeline_Result
  imports Pipeline_Protocol
begin

text \<open>
  What a successful run delivers: the pages of the source in order, and exactly the warnings its
  observer saw, aggregated. Built on the logic of \<open>Pipeline_Protocol\<close>, with early stops of no
  interest here.
\<close>

subsection \<open>Warnings\<close>

abbreviation delivers :: "(pipe_state \<Rightarrow> bool) \<Rightarrow> 'a run \<Rightarrow> ('a \<Rightarrow> pipe_state \<Rightarrow> bool) \<Rightarrow> bool" where
  "delivers \<equiv> runs (\<lambda>_ _. True)"

definition warnings_of :: "event list \<Rightarrow> diagnostic list" where
  "warnings_of es = concat (map (\<lambda>e. case e of StageWarning d \<Rightarrow> [d] | _ \<Rightarrow> []) es)"

lemma warnings_of_snoc [simp]:
  "warnings_of (es @ [e]) = warnings_of es @ (case e of StageWarning d \<Rightarrow> [d] | _ \<Rightarrow> [])"
  by (simp add: warnings_of_def)

definition noted :: "pipe_state \<Rightarrow> diagnostic list \<times> (string \<Rightarrow> diagnostic list)" where
  "noted s = (warnings_of (ps_events s), \<lambda>n. pst_diagnostics (ps_stages s n))"

text \<open>A quiet step warns of nothing.\<close>

definition quiet :: "'a run \<Rightarrow> bool" where
  "quiet m \<longleftrightarrow> (\<forall>s. noted (snd (m s)) = noted s)"

lemma quiet_return [intro!]: "quiet (returns x)"
  by (simp add: quiet_def returns_def)

lemma quiet_stop [intro!]: "quiet (stop_with e)"
  by (simp add: quiet_def stop_with_def)

lemma quiet_and_then [intro!]: "quiet m \<Longrightarrow> (\<And>x. quiet (f x)) \<Longrightarrow> quiet (and_then m f)"
  by (auto simp: quiet_def and_then_def split: prod.split sum.split) (metis snd_conv)+

lemma quiet_before [intro!]: "quiet m \<Longrightarrow> quiet f \<Longrightarrow> quiet (before m f)"
  unfolding before_def by (intro quiet_and_then)

lemma quiet_emit [intro!]: "(case e of StageWarning _ \<Rightarrow> False | _ \<Rightarrow> True) \<Longrightarrow> quiet (emit e)"
  by (cases e) (auto simp: quiet_def emit_def noted_def)

lemma quiet_files [intro!]: "quiet (change_files cs)"
  by (simp add: quiet_def change_files_def noted_def)

lemma quiet_failure [intro!]:
  "quiet (report_failure st)" "quiet (stageFailed stage code message retryable)" "quiet (failed_stage stage st)"
  by (auto simp: report_failure_def stageFailed_def failed_stage_def)

lemma quiet_require [intro!]: "quiet failed \<Longrightarrow> quiet (require ok failed)"
  by (auto simp: require_def)

lemma quiet_option [intro!]: "quiet failed \<Longrightarrow> quiet (option_run x failed)"
  by (auto simp: option_run_def split: option.split)

lemma quiet_deadline [intro!]: "quiet (deadlineStatus env options stage)"
proof -
  have clock: "noted (s\<lparr>ps_clock := k\<rparr>) = noted s" for s k
    by (simp add: noted_def)
  have "quiet (stageFailed stage code message False :: unit run)" for code message
    by (rule quiet_failure)
  then have "noted (snd ((stageFailed stage code message False :: unit run) (s\<lparr>ps_clock := k\<rparr>))) = noted s"
    for code message s k
    using clock by (simp only: quiet_def)
  then show ?thesis
    unfolding quiet_def deadlineStatus_def by (auto simp: returns_def Let_def clock)
qed

lemma quiet_stage [intro!]:
  "quiet (stage_begin n)" "quiet (stage_progress n k)" "quiet (stage_diagnostics n)"
  by (auto simp: quiet_def stage_begin_def stage_progress_def stage_diagnostics_def emit_def returns_def noted_def Let_def
      fun_eq_iff)

lemma quiet_complete [intro!]: "quiet (stage_complete n)"
  using quiet_before[OF quiet_return quiet_emit, of "StageCompleted n" "()"]
    quiet_before[OF quiet_before[OF quiet_stage(1,2)] quiet_emit, of "StageCompleted n" n n 0]
  unfolding quiet_def stage_complete_def by auto

lemma delivers_quiet: "quiet m \<Longrightarrow> delivers (\<lambda>s. P (noted s)) m (\<lambda>_ s. P (noted s))"
  by (auto simp: runs_def quiet_def split: prod.splits sum.splits) (metis snd_conv)

text \<open>Every warning shown is recorded with its stage.\<close>

definition balanced :: "pipe_state \<Rightarrow> bool" where
  "balanced s \<longleftrightarrow> (case noted s of (w, d) \<Rightarrow> mset w = mset (d ''text'') + mset (d ''layout'') + mset (d ''table''))"

lemma delivers_balanced: "quiet m \<Longrightarrow> delivers balanced m (\<lambda>_. balanced)"
  unfolding balanced_def by (rule delivers_quiet)

lemma delivers_warnings:
  "n \<in> {''text'', ''layout'', ''table''} \<Longrightarrow> delivers balanced (stage_warnings n ds) (\<lambda>_. balanced)"
proof (induction ds)
  case (Cons d ds)
  have "delivers balanced (stage_warning n d) (\<lambda>_. balanced)"
    using Cons.prems by (auto simp: runs_def stage_warning_def emit_def balanced_def noted_def)
  with Cons show ?case by (auto intro: runs_before)
qed (simp add: runs_return_point)

lemma quiet_page_steps [intro!]:
  "quiet (rendered_page renderer legacy_pages index)" "quiet (render_one env options renderer legacy_pages index)"
  "quiet (rotation_run page degrees)" "quiet (oriented env page rotation t)"
  "quiet (create_services options origin)" "quiet (configure_run options origin)"
  "quiet (fingerprint_run env path)" "quiet (open_run env options services provenance)"
  "quiet (legacy_pages_run renderer N)" "quiet (reading_order_run env options services acc)"
  by (auto simp: rendered_page_def render_one_def rotation_run_def oriented_def create_services_def configure_run_def
      fingerprint_run_def open_run_def legacy_pages_run_def reading_order_run_def Let_def
      split: option.splits sum.splits prod.splits service_origin.splits)


subsection \<open>Pages\<close>

text \<open>What a step returns, whatever the state.\<close>

abbreviation yields :: "'a run \<Rightarrow> ('a \<Rightarrow> bool) \<Rightarrow> bool" where
  "yields m V \<equiv> delivers (\<lambda>_. True) m (\<lambda>x _. V x)"

lemma delivers_yields: "yields m V \<Longrightarrow> delivers P m Q \<Longrightarrow> delivers P m (\<lambda>x s. V x \<and> Q x s)"
  by (auto simp: runs_def split: prod.splits sum.splits)

lemma yields_quiet: "yields m V \<Longrightarrow> quiet m \<Longrightarrow> delivers balanced m (\<lambda>x s. V x \<and> balanced s)"
  by (simp add: delivers_yields delivers_balanced)

lemma yields_any [intro!]: "yields m (\<lambda>_. True)"
  by (simp add: runs_def split: prod.split sum.split)

lemma yields_before: "yields f V \<Longrightarrow> yields (before m f) V"
  by (rule runs_before[OF yields_any])

lemma delivers_stops [intro!]:
  "delivers P (stageFailed stage code message retryable) Q" "delivers P (failed_stage stage st) Q"
  by (simp_all add: failed_stage_def stageFailed_def report_failure_def runs_def before_def and_then_def emit_def stop_with_def)

lemma yields_option: "yields (option_run x (stageFailed stage code message retryable)) (\<lambda>v. x = Some v)"
  by (rule runs_post[OF runs_option_some[OF delivers_stops(1)]]) simp

lemma yields_pure: "(\<phi> \<Longrightarrow> yields m V) \<Longrightarrow> delivers (\<lambda>_. \<phi>) m (\<lambda>x _. V x)"
  by (auto simp: runs_def)

lemma preprocess_number: "preprocessDebugImage env options page = Some page' \<Longrightarrow> pa_page_number page' = pa_page_number page"
  by (auto simp: preprocessDebugImage_def Let_def split: if_splits)

lemma prepare_number: "prepare_view env page rotation = Some page' \<Longrightarrow> pa_page_number page' = pa_page_number page"
  by (auto simp: prepare_view_def Let_def split: if_splits option.splits)

lemma yields_render_one:
  "yields (render_one env options renderer legacy_pages index) (\<lambda>page. pa_page_number page = int index + 1)"
proof -
  have finish: "yields (and_then (option_run (preprocessDebugImage env options page)
        (stageFailed stage code message retryable)) (\<lambda>page. before m (returns page))) (\<lambda>p. pa_page_number p = int index + 1)"
    if "pa_page_number page = int index + 1" for page stage code message retryable and m :: "unit run"
    by (rule runs_and_then[OF yields_option], rule yields_pure, rule yields_before, rule runs_returns)
      (simp add: that preprocess_number)
  show ?thesis
    unfolding render_one_def
    by (rule yields_before, rule runs_and_then[OF yields_any], rule runs_before[OF runs_require_ok[OF delivers_stops(1)]],
      rule runs_pure, rule yields_before, rule finish) auto
qed

lemma yields_oriented:
  "yields (oriented env page rotation t) (\<lambda>x. pa_page_number (fst x) = pa_page_number page)"
proof (cases "rot_degrees rotation = 0")
  case False
  have "yields (and_then (option_run (prepare_view env page rotation) (stageFailed stage code message retryable))
      (\<lambda>page. returns (page, textToWorking rotation t))) (\<lambda>x. pa_page_number (fst x) = pa_page_number page)"
    for stage code message retryable
    by (rule runs_and_then[OF yields_option]) (auto simp: runs_def returns_def dest: prepare_number)
  with False show ?thesis by (simp add: oriented_def)
qed (simp add: oriented_def runs_returns)


lemma delivers_page_parts:
  "delivers balanced (text_one env options services legacy index page)
     (\<lambda>x s. pa_page_number (fst x) = pa_page_number page \<and> balanced s)"
  "delivers balanced (layout_one env options services index page t) (\<lambda>_. balanced)"
  "delivers balanced (table_one env options services page t layout) (\<lambda>_. balanced)"
proof -
  have tail: "delivers (\<lambda>s. pa_page_number page' = pa_page_number page \<and> balanced s)
      (before (stage_warnings ''text'' ds)
         (before (stage_progress ''text'' j) (returns (page', t, rotation, legacy))))
      (\<lambda>x s. pa_page_number (fst x) = pa_page_number page \<and> balanced s)"
    for page' ds j t and rotation :: page_rotation and legacy :: "page_text list option"
    by (auto intro!: runs_pure runs_before[OF delivers_balanced] runs_before[OF delivers_warnings] runs_returns)
  show "delivers balanced (text_one env options services legacy index page)
     (\<lambda>x s. pa_page_number (fst x) = pa_page_number page \<and> balanced s)"
    unfolding text_one_def
    by (auto intro!: runs_before[OF delivers_balanced] runs_and_then[OF delivers_balanced]
        runs_and_then[OF yields_quiet[OF yields_oriented]] tail split: prod.split)
  show "delivers balanced (layout_one env options services index page t) (\<lambda>_. balanced)"
    unfolding layout_one_def Let_def
    by (auto intro!: runs_before[OF delivers_balanced] runs_before[OF delivers_warnings] runs_returns)
  show "delivers balanced (table_one env options services page t layout) (\<lambda>_. balanced)"
    unfolding table_one_def
    by (auto intro!: runs_before[OF delivers_balanced] runs_before[OF delivers_warnings] runs_returns split: prod.split)
qed

text \<open>The pages processed so far carry the numbers 1, 2, ...\<close>

definition numbered :: "nat \<Rightarrow> page_acc \<Rightarrow> pipe_state \<Rightarrow> bool" where
  "numbered k acc s \<longleftrightarrow> map pa_page_number (acc_pages acc) = map (\<lambda>i. int i + 1) [0..<k] \<and> balanced s"

lemma delivers_process_page:
  "delivers (numbered k acc) (process_page env options services renderer legacy_pages acc k) (numbered (Suc k))"
proof -
  let ?numbers = "map pa_page_number (acc_pages acc) = map (\<lambda>i. int i + 1) [0..<k]"
  have tail: "delivers (\<lambda>s. pa_page_number page' = int k + 1 \<and> balanced s)
        (and_then (layout_one env options services k page' t) (\<lambda>layout.
        and_then (table_one env options services page' t layout) (\<lambda>(tables, layout).
        before (stage_progress ''table'' (int k + 1))
          (returns (acc\<lparr>acc_pages := acc_pages acc @ [page'], acc_texts := acc_texts acc @ [t],
             acc_layouts := acc_layouts acc @ [layout], acc_tables := acc_tables acc @ [tables],
             acc_rotations := acc_rotations acc @ [rotation],
             acc_image_paths := acc_image_paths acc @ [pa_output_path source],
             acc_legacy_texts := legacy\<rparr>)))))
      (\<lambda>acc s. map pa_page_number (acc_pages acc) = map (\<lambda>i. int i + 1) [0..<k] @ [int k + 1] \<and> balanced s)"
    if "?numbers" for page' source t rotation legacy
    using that
    by (auto intro!: runs_pure runs_and_then[OF delivers_page_parts(2)] runs_and_then[OF delivers_page_parts(3)]
        runs_before[OF delivers_balanced] runs_returns split: prod.split)
  show ?thesis
    unfolding process_page_def numbered_def
    by (rule runs_pure, rule runs_and_then[OF yields_quiet[OF yields_render_one quiet_page_steps(2)]],
      rule runs_pure, rule runs_and_then[OF delivers_page_parts(1)]) (auto intro: tail split: prod.split)
qed


lemma delivers_pages:
  "delivers (\<lambda>s. noted s = ([], \<lambda>_. [])) (pages_run env options services provenance)
     (\<lambda>acc s. numbered (length (acc_pages acc)) acc s)"
proof -
  let ?N = "nat (sv_page_count services)"
  let ?acc = "\<lparr>acc_pages = [], acc_texts = [], acc_layouts = [], acc_tables = [], acc_rotations = [],
     acc_image_paths = [], acc_legacy_texts = None\<rparr>"
  have loop: "delivers balanced (loop_run (process_page env options services renderer legacy_pages) [0..<?N] ?acc)
      (\<lambda>acc s. numbered (length (acc_pages acc)) acc s)" for renderer legacy_pages
  proof (rule runs_pre)
    show "delivers (numbered 0 ?acc) (loop_run (process_page env options services renderer legacy_pages) [0..<?N] ?acc)
        (\<lambda>acc s. numbered (length (acc_pages acc)) acc s)"
      by (rule runs_post[OF runs_loop[where I = numbered]]) (auto simp: delivers_process_page numbered_def dest: map_eq_imp_length_eq)
  qed (simp add: numbered_def)
  have create: "delivers (\<lambda>s. noted s = ([], \<lambda>_. [])) (create_stages options provenance N) (\<lambda>_. balanced)" for N
    by (auto simp: runs_def create_stages_def create_stage_def before_def and_then_def Let_def balanced_def noted_def fun_eq_iff)
  show ?thesis
    unfolding pages_run_def
    by (auto intro!: runs_before[OF delivers_quiet[of _ "\<lambda>x. x = ([], \<lambda>_. [])"]]
        runs_and_then[OF delivers_quiet[of _ "\<lambda>x. x = ([], \<lambda>_. [])"]] runs_before[OF create]
        runs_before[OF delivers_balanced] runs_and_then[OF delivers_balanced] loop)
qed


subsection \<open>From the pages to the document\<close>

definition accounted :: "diagnostic list \<Rightarrow> pipe_state \<Rightarrow> bool" where
  "accounted ds s \<longleftrightarrow> mset ds = mset (fst (noted s))"

lemma delivers_accounted: "quiet m \<Longrightarrow> delivers (accounted ds) m (\<lambda>_. accounted ds)"
  unfolding accounted_def by (rule delivers_quiet)

lemma fst_recordDiagnostics [simp]: "fst (recordDiagnostics ds acc) = fst acc @ ds"
  by (simp add: recordDiagnostics_def split: prod.split)

lemma delivers_finish_pages:
  "delivers balanced (finish_pages env options provenance acc) (\<lambda>x. accounted (fst (snd x)))"
proof -
  have diagnostics: "delivers (\<lambda>s. noted s = w) (stage_diagnostics n) (\<lambda>ds s. ds = snd w n \<and> noted s = w)" for n w
    by (auto simp: runs_def stage_diagnostics_def returns_def noted_def)
  have tail: "delivers (accounted (fst recorded))
      (before (stage_complete ''render'') (before (stage_complete ''text'') (before (stage_complete ''layout'')
       (before (deadlineStatus env options ''table'')
        (case linkPages (acc_pages acc) (acc_tables acc) of (st, tables) \<Rightarrow>
          before (require (ok_status st) (stageFailed ''table'' (status_code st) (status_message st) False))
          (before (stage_complete ''table'') (returns (tables, recorded))))))))
      (\<lambda>x. accounted (fst (snd x)))" for recorded :: "diagnostic list \<times> run_provenance"
    by (auto intro!: runs_before[OF delivers_accounted] runs_returns split: prod.split)
  have "delivers (\<lambda>s. (case w of (es, d) \<Rightarrow> mset es = mset (d ''text'') + mset (d ''layout'') + mset (d ''table'')) \<and> noted s = w)
      (finish_pages env options provenance acc) (\<lambda>x. accounted (fst (snd x)))" for w
    unfolding finish_pages_def Let_def
    by (rule runs_pure, rule runs_and_then[OF diagnostics], rule runs_pure, rule runs_and_then[OF diagnostics], rule runs_pure,
      rule runs_and_then[OF diagnostics], rule runs_pure, rule runs_pre[OF tail]) (auto simp: accounted_def split: prod.splits)
  then have "delivers (\<lambda>s. \<exists>w. (case w of (es, d) \<Rightarrow> mset es = mset (d ''text'') + mset (d ''layout'') + mset (d ''table'')) \<and>
      noted s = w) (finish_pages env options provenance acc) (\<lambda>x. accounted (fst (snd x)))"
    by (rule runs_ex)
  then show ?thesis by (rule runs_pre) (simp only: balanced_def, blast)
qed

lemma aggregate_empty: "aggregateWarnings ws = [] \<longleftrightarrow> ws = []"
proof -
  obtain agg idx where "foldl aggregate_step ([], Map.empty) ws = (agg, idx)" by fastforce
  with aggregate_inv[of ws] have "map identity agg = first_seen (map identity ws)"
      "aggregateWarnings ws = map collapse_page agg"
    by (auto simp: agg_inv_def aggregateWarnings_def)
  then show ?thesis by (cases ws) auto
qed

text \<open>The document of a run's pages, with the warnings its observer saw.\<close>

definition delivered :: "parsed_document \<Rightarrow> pipeline_artifacts \<Rightarrow> event list \<Rightarrow> bool" where
  "delivered doc artifacts es \<longleftrightarrow>
     map dp_number (pd_pages doc) = [1..int (length (pd_pages doc))] \<and>
     map ppa_page_number artifacts = map dp_number (pd_pages doc) \<and>
     (\<exists>ds. mset ds = mset (warnings_of es) \<and> pd_warnings doc = aggregateWarnings (map warning_of ds)) \<and>
     pd_status doc = (if warnings_of es = [] then Complete else Partial)"

lemma map_map2_fst: "length xs = length ys \<Longrightarrow> (\<And>x y. f (g x y) = h x) \<Longrightarrow> map f (map2 g xs ys) = map h xs"
  by (induction xs ys rule: list_induct2) auto

lemma restore_numbers:
  assumes "restoreSourceCoordinates doc artifacts rotations = Inr (doc', artifacts')"
  shows "map dp_number (pd_pages doc') = map dp_number (pd_pages doc) \<and> pd_status doc' = pd_status doc \<and>
    map ppa_page_number artifacts' = map ppa_page_number artifacts"
proof -
  have "map dp_number (map2 (\<lambda>p r. p\<lparr>dp_width := real_of_int (rot_width r), dp_height := real_of_int (rot_height r)\<rparr>)
      ps rotations) = map dp_number ps" if "length ps = length rotations" for ps :: "document_page list"
    by (rule map_map2_fst[OF that]) simp
  moreover have "map ppa_page_number (map2 (\<lambda>p r. restore_page r m p) as rotations) = map ppa_page_number as"
    if "length as = length rotations" for "as" :: pipeline_artifacts and m
    by (rule map_map2_fst[OF that]) (simp add: restore_page_def Let_def)
  ultimately show ?thesis
    using assms by (auto simp: restoreSourceCoordinates_def Let_def split: if_splits)
qed

lemma assemble_numbers:
  assumes "assemble version request = Some (doc, artifacts)"
  shows "map dp_number (pd_pages doc) = map pa_page_number (rq_pages request) \<and> pd_status doc = Complete \<and>
    map ppa_page_number artifacts = map pa_page_number (rq_pages request)"
proof -
  have "map ppa_page_number (request_pages request) = map pa_page_number (rq_pages request)"
    by (rule nth_equalityI) (simp_all add: request_pages_def)
  moreover have "map dp_number (map document_page_of ps) = map pa_page_number ps" for ps
    by (simp add: document_page_of_def comp_def)
  ultimately show ?thesis
    using assms by (auto simp: assemble_def Let_def split: if_splits)
qed

lemma upto_numbers: "map (\<lambda>i. int i + 1) [0..<n] = [1..int n]"
  by (induction n) (simp_all add: upto_rec2)

lemma delivered_document:
  assumes "assemble version request = Some (doc, artifacts)"
    and "restoreSourceCoordinates doc artifacts rotations = Inr (doc', artifacts')"
    and "map pa_page_number (rq_pages request) = map (\<lambda>i. int i + 1) [0..<length (rq_pages request)]"
    and "length paths = length (rq_pages request)" "accounted (fst recorded) s"
  shows "delivered (applyRunMetadata options (fst recorded) (snd recorded) doc') (restore_paths paths artifacts') (ps_events s)"
proof -
  have n: "map dp_number (pd_pages doc') = [1..int (length (rq_pages request))]"
      "map ppa_page_number artifacts' = map dp_number (pd_pages doc')" "pd_status doc' = Complete"
    using assemble_numbers[OF assms(1)] restore_numbers[OF assms(2)] assms(3)[unfolded upto_numbers] by simp_all
  have len1: "length (pd_pages doc') = length (rq_pages request)"
    using arg_cong[OF n(1), of length] by simp
  then have len: "length artifacts' = length paths"
    using arg_cong[OF n(2), of length] assms(4) by simp
  have "map ppa_page_number (restore_paths paths artifacts') = map ppa_page_number artifacts'"
    unfolding restore_paths_def by (rule map_map2_fst[OF len]) simp
  moreover have "(warnings_of (ps_events s) = []) = (fst recorded = [])"
    using assms(5) by (auto simp: accounted_def noted_def dest: mset_eq_length)
  moreover have "mset (fst recorded) = mset (warnings_of (ps_events s))"
    using assms(5) by (simp add: accounted_def noted_def)
  ultimately show ?thesis
    unfolding delivered_def applyRunMetadata_def Let_def using n len1
    by (intro conjI exI[of _ "fst recorded"]) (simp_all add: aggregate_empty)
qed


lemma delivers_option: "delivers P (option_run x (stageFailed stage code message retryable)) (\<lambda>v s. x = Some v \<and> P s)"
  by (rule runs_option_some) (rule delivers_stops)

lemma delivers_assembly:
  assumes "map pa_page_number (acc_pages acc) = map (\<lambda>i. int i + 1) [0..<length (acc_pages acc)]"
    and "length (acc_image_paths acc) = length (acc_pages acc)"
  shows "delivers (accounted (fst recorded)) (assembly_run env options services fingerprint acc orders tables recorded)
    (\<lambda>(doc, artifacts) s. delivered doc artifacts (ps_events s))"
proof -
  let ?request = "assembly_request options services fingerprint acc orders tables"
  have finish: "delivers (\<lambda>s. assemble version ?request = Some (doc, artifacts) \<and> accounted (fst recorded) s)
      (case restoreSourceCoordinates doc artifacts rotations of
          Inl message \<Rightarrow> stop_with (Thrown message)
        | Inr (doc, artifacts) \<Rightarrow>
            before (emit (StageProgress ''assembly'' 1 1))
            (before (emit (StageCompleted ''assembly''))
            (returns (applyRunMetadata options (fst recorded) (snd recorded) doc,
               restore_paths (acc_image_paths acc) artifacts))))
      (\<lambda>(doc, artifacts) s. delivered doc artifacts (ps_events s))" for doc artifacts rotations version
  proof (rule runs_pure)
    assume a: "assemble version ?request = Some (doc, artifacts)"
    have fin: "delivers (accounted (fst recorded)) (before (emit (StageProgress ''assembly'' 1 1))
            (before (emit (StageCompleted ''assembly''))
            (returns (applyRunMetadata options (fst recorded) (snd recorded) doc',
               restore_paths (acc_image_paths acc) artifacts'))))
        (\<lambda>(doc, artifacts) s. delivered doc artifacts (ps_events s))"
      if "restoreSourceCoordinates doc artifacts rotations = Inr (doc', artifacts')" for doc' artifacts'
      using delivered_document[OF a that] assms
      by (auto intro!: runs_before[OF delivers_accounted] runs_returns simp: assembly_request_def)
    show "delivers (accounted (fst recorded)) (case restoreSourceCoordinates doc artifacts rotations of
          Inl message \<Rightarrow> stop_with (Thrown message)
        | Inr (doc, artifacts) \<Rightarrow>
            before (emit (StageProgress ''assembly'' 1 1))
            (before (emit (StageCompleted ''assembly''))
            (returns (applyRunMetadata options (fst recorded) (snd recorded) doc,
               restore_paths (acc_image_paths acc) artifacts))))
      (\<lambda>(doc, artifacts) s. delivered doc artifacts (ps_events s))"
      by (auto intro: fin runs_stop split: sum.split)
  qed
  show ?thesis
    unfolding assembly_run_def
    by (rule runs_before[OF delivers_accounted], blast, rule runs_before[OF delivers_accounted], force,
      rule runs_and_then[OF delivers_option], clarify, rule finish)
qed


lemma delivers_both:
  "runs stopped P m Q \<Longrightarrow> delivers P' m Q' \<Longrightarrow> delivers (\<lambda>s. P s \<and> P' s) m (\<lambda>x s. Q x s \<and> Q' x s)"
  by (auto simp: runs_def split: prod.splits sum.splits)

lemma delivers_parse:
  "delivers (\<lambda>s. at_point 0 0 no_progress None s \<and> noted s = ([], \<lambda>_. [])) (parseInternal env options origin)
     (\<lambda>(doc, artifacts, _) s. delivered doc artifacts (ps_events s))"
proof -
  let ?new = "\<lambda>w. w = ([], \<lambda>_. [])"
  have pages: "delivers (\<lambda>s. at_point 2 2 open_progress None s \<and> noted s = ([], \<lambda>_. [])) (pages_run env options services provenance)
      (\<lambda>acc s. acc_ok (length (acc_pages acc)) acc \<and> numbered (length (acc_pages acc)) acc s)" for services provenance
    by (rule runs_post[OF delivers_both[OF runs_pages delivers_pages]]) (auto simp: pages_point_def acc_ok_def)
  have late: "delivers (\<lambda>s. acc_ok (length (acc_pages acc)) acc \<and> numbered (length (acc_pages acc)) acc s)
      (and_then (finish_pages env options provenance acc) (\<lambda>(tables, recorded).
       and_then (reading_order_run env options services acc) (\<lambda>orders.
       and_then (assembly_run env options services fingerprint acc orders tables recorded) (\<lambda>(doc, artifacts).
       returns (doc, artifacts, snd recorded)))))
      (\<lambda>(doc, artifacts, _) s. delivered doc artifacts (ps_events s))" for acc provenance services fingerprint
    unfolding numbered_def
  proof (rule runs_pure, rule runs_pure, rule runs_and_then[OF delivers_finish_pages], clarify)
    fix tables :: "page_tables list" and ds :: "diagnostic list" and prov :: run_provenance
    assume "acc_ok (length (acc_pages acc)) acc"
      and n: "map pa_page_number (acc_pages acc) = map (\<lambda>i. int i + 1) [0..<length (acc_pages acc)]"
    then have l: "length (acc_image_paths acc) = length (acc_pages acc)" by (simp add: acc_ok_def)
    show "delivers (accounted (fst (snd (tables, ds, prov))))
        (and_then (reading_order_run env options services acc) (\<lambda>orders.
         and_then (assembly_run env options services fingerprint acc orders tables (ds, prov)) (\<lambda>(doc, artifacts).
         returns (doc, artifacts, snd (ds, prov)))))
        (\<lambda>(doc, artifacts, _) s. delivered doc artifacts (ps_events s))"
      unfolding fst_conv snd_conv
      by (rule runs_and_then[OF delivers_accounted], blast, rule runs_and_then,
        rule delivers_assembly[OF n l, of "(ds, prov)", unfolded fst_conv]) (auto intro: runs_returns)
  qed
  have configure: "delivers (\<lambda>s. at_point 0 0 no_progress None s \<and> ?new (noted s)) (configure_run options origin)
      (\<lambda>_ s. at_point 1 1 (note_progress ''configure'' (1, 1) no_progress) None s \<and> ?new (noted s))"
    by (rule delivers_both[OF runs_configure delivers_quiet]) blast
  have open_it: "delivers (\<lambda>s. at_point 1 1 (note_progress ''configure'' (1, 1) no_progress) None s \<and> ?new (noted s))
      (open_run env options services provenance) (\<lambda>_ s. at_point 2 2 open_progress None s \<and> ?new (noted s))"
    for services provenance
    unfolding open_progress_def by (rule delivers_both[OF runs_open delivers_quiet]) blast
  show ?thesis
    unfolding parseInternal_def
    by (rule runs_and_then[OF configure], clarify, rule runs_and_then[OF open_it], rule runs_and_then[OF pages], rule late)
qed

text \<open>
  C2: A run that succeeds delivers its document: the pages numbered 1, 2, ..., n in that order, in
  the document and in the artifacts alike, and, as the document's warnings, exactly the warnings
  the observer was sent (none lost, none added), one for each kind with its occurrences; the
  document is marked as partial if there was one and as complete otherwise.
\<close>

theorem parse_delivers_document:
  "case parseInternal env options origin initial_state of
     (Inr (doc, artifacts, _), s) \<Rightarrow> delivered doc artifacts (ps_events s)
   | (Inl _, _) \<Rightarrow> True"
proof -
  have "noted initial_state = ([], \<lambda>_. [])" by (simp add: noted_def initial_state_def warnings_of_def)
  then show ?thesis
    using runsD[OF delivers_parse, of initial_state env options origin] initial_point
    by (auto split: prod.splits sum.splits)
qed

end
