(* ===== verification/Sample_Run.thy ===== *)
theory Sample_Run
  imports Pipeline_Result
begin

text \<open>
  A run of the pipeline on a document of one page, evaluated: it returns, with one warning. The
  theorems on delivered documents are applied to it.
\<close>

lemma warnings_of_append [simp]: "warnings_of (es @ es') = warnings_of es @ warnings_of es'"
  by (simp add: warnings_of_def)

lemma warnings_of_Cons [simp]: "warnings_of (e # es) = (case e of StageWarning d \<Rightarrow> [d] | _ \<Rightarrow> []) @ warnings_of es"
  by (simp add: warnings_of_def split: event.split)

lemma warnings_of_Nil [simp]: "warnings_of [] = []"
  by (simp add: warnings_of_def)

subsection \<open>A run of one page\<close>

text \<open>A page with no text whose layout backend fell back to another, which it warns of.\<close>

definition sample_renderer :: page_renderer where
  "sample_renderer = \<lparr>rr_supports_page_rendering = True,
     rr_render_page = (\<lambda>i. Some \<lparr>pa_page_index = i, pa_page_number = i + 1, pa_relative_image = ''pages/1.png'',
       pa_output_path = ''out/pages/1.png'', pa_width = 600, pa_height = 800, pa_debug_images = []\<rparr>),
     rr_render_pages = None\<rparr>"

definition sample_notice :: diagnostic where
  "sample_notice = \<lparr>dg_code = ''layout.backend_fallback'', dg_message = ''fell back'', dg_stage = ''layout'', dg_page_number = 1,
     dg_details = []\<rparr>"

definition sample_services :: pipeline_services where
  "sample_services = \<lparr>sv_open = (\<lambda>_. True), sv_source_path = ''in/a.pdf'', sv_source_type = ''pdf'', sv_page_count = 1,
     sv_renderer = Some sample_renderer, sv_text = None, sv_ocr = noop_ocr,
     sv_layout = \<lparr>lbk_analyze = (\<lambda>page _. Some \<lparr>lr_layout = \<lparr>pl_page_index = 0, pl_page_number = 1, pl_blocks = []\<rparr>,
       lr_diagnostics = [sample_notice]\<rparr>), lbk_available = True, lbk_unavailable_reason = []\<rparr>,
     sv_table = \<lparr>tbk_recognize = (\<lambda>page _ _. Some \<lparr>tr_tables = \<lparr>pg_page_index = 0, pg_page_number = 1, pg_tables = []\<rparr>,
       tr_diagnostics = []\<rparr>), tbk_available = True, tbk_unavailable_reason = []\<rparr>,
     sv_reading_order = (\<lambda>_ _. Some \<lparr>ro_page_index = 0, ro_page_number = 1, ro_items = [], ro_trace =
       \<lparr>tr_algorithm = ''docling-like'', tr_placements = [], tr_edge_counts = [], tr_cycle_breaks = []\<rparr>\<rparr>)\<rparr>"

definition sample_provenance :: run_provenance where
  "sample_provenance = (let b = \<lparr>bo_document = ''pdfium'', bo_ocr = ''noop'', bo_layout = ''text'', bo_table = ''text'',
       bo_registry_config = []\<rparr> in
     \<lparr>rp_run_id = [], rp_engine_name = ''technical-doc-parser'', rp_engine_version = ''1.0'', rp_git_revision = [],
      rp_backends = \<lparr>br_requested = b, br_resolved = b, br_config_source = []\<rparr>, rp_models = [], rp_fallbacks = []\<rparr>)"

definition sample_options :: run_options where
  "sample_options = \<lparr>ro_input_path = ''in/a.pdf'', ro_output_directory = ''out'', ro_render_dpi = 200, ro_debug = False,
     ro_timeout_seconds = 0, ro_maximum_pages = 10, ro_run_id = ''r1'',
     ro_backends = br_requested (rp_backends sample_provenance)\<rparr>"

definition sample_environment :: environment where
  "sample_environment = \<lparr>env_seconds = int, env_source = \<lparr>in_opened = True, in_content = [37, 80, 68, 70], in_read_error = False\<rparr>,
     env_image_size = (\<lambda>_. None), env_directories = (\<lambda>_. []), env_write_image = (\<lambda>_. True), env_preprocess = (\<lambda>_ _. True),
     env_engine_version = ''1.0'', env_write_document = (\<lambda>_ _. Some (status_ok, []))\<rparr>"

lemma sample_text: "extractPage 200 noop_ocr page (empty_page_text\<lparr>pt_page_index := i, pt_page_number := n\<rparr>) =
  \<lparr>sr_value = empty_page_text\<lparr>pt_page_index := pa_page_index page, pt_page_number := pa_page_number page\<rparr>, sr_status = status_ok, sr_diagnostics = [],
   ptr_clockwise_correction_degrees = 0\<rparr>"
  by (simp add: extractPage_def evaluate_quality_def Let_def noop_ocr_def empty_page_text_def)

lemma sample_layout_result: "pt_lines t = [] \<Longrightarrow> layout_analyzePage (sv_layout sample_services) page t =
  \<lparr>sr_value = \<lparr>pl_page_index = 0, pl_page_number = 1, pl_blocks = []\<rparr>, sr_status = status_ok, sr_diagnostics = [sample_notice]\<rparr>"
  by (simp add: sample_services_def layout_analyzePage_def refineMultiColumnTextLineOrder_def refineEdgeFurniture_def Let_def)


lemma no_groups: "pt_lines t = [] \<Longrightarrow> groups_of t page [] wanted = []"
  by (simp add: groups_of_def recovered_groups_def recovered_line_set_def groupFallbackLines_def coalesceDenseGridGroups_def recoverable_lines_def line_numbers_def Let_def)

lemma no_recovery: "pt_lines t = [] \<Longrightarrow> fst (recoverUnassignedTextLines t page \<lparr>pl_page_index = 0, pl_page_number = 1, pl_blocks = []\<rparr>) =
   \<lparr>pl_page_index = 0, pl_page_number = 1, pl_blocks = []\<rparr>"
  by (simp add: recoverUnassignedTextLines_def Let_def no_groups body_groups_of_def append_all_def refineMultiColumnTextLineOrder_def)

lemma sample_table_result: "pt_lines t = [] \<Longrightarrow> table_recognizePage (sv_table sample_services) page t \<lparr>pl_page_index = 0, pl_page_number = 1, pl_blocks = []\<rparr> =
  (\<lparr>sr_value = \<lparr>pg_page_index = 0, pg_page_number = 1, pg_tables = []\<rparr>, sr_status = status_ok, sr_diagnostics = []\<rparr>, \<lparr>pl_page_index = 0, pl_page_number = 1, pl_blocks = []\<rparr>)"
  by (simp add: sample_services_def table_recognizePage_def attachDetectedTables_def no_recovery resolvePageStructure_def Let_def
    merged_state_def table_blocks_of_def without_merged_def replacements_of_def)
text \<open>The steps of that run return, one after the other.\<close>

definition passes :: "diagnostic list \<Rightarrow> 'a run \<Rightarrow> ('a \<Rightarrow> bool) \<Rightarrow> diagnostic list \<Rightarrow> bool" where
  "passes w m V w' \<longleftrightarrow> (\<forall>s. warnings_of (ps_events s) = w \<longrightarrow>
     (\<exists>x s'. m s = (Inr x, s') \<and> V x \<and> warnings_of (ps_events s') = w'))"

lemma passes_and_then: "passes w m V w' \<Longrightarrow> (\<And>x. V x \<Longrightarrow> passes w' (f x) W w'') \<Longrightarrow> passes w (and_then m f) W w''"
  by (simp add: passes_def and_then_def) (metis (no_types, lifting) old.prod.case sum.simps(6))

lemma passes_before: "passes w m (\<lambda>_. True) w' \<Longrightarrow> passes w' f W w'' \<Longrightarrow> passes w (before m f) W w''"
  unfolding before_def by (rule passes_and_then)

lemma passes_returns: "V x \<Longrightarrow> passes w (returns x) V w"
  by (simp add: passes_def returns_def)

lemma passes_known: "passes w (f x) W w' \<Longrightarrow> passes w (and_then (returns x) f) W w'"
  by (simp add: passes_def and_then_def returns_def)

lemmas step_defs = and_then_def before_def returns_def emit_def option_run_def require_def Let_def stage_progress_def stage_begin_def
  stage_warning_def stage_complete_def stage_diagnostics_def sr_ok_def

lemma passes_steps:
  "(case e of StageWarning _ \<Rightarrow> False | _ \<Rightarrow> True) \<Longrightarrow> passes w (emit e) (\<lambda>_. True) w"
  "passes w (stage_begin n) (\<lambda>_. True) w" "passes w (stage_complete n) (\<lambda>_. True) w" "passes w (stage_progress n i) (\<lambda>_. True) w"
  "passes w (deadlineStatus env sample_options n) (\<lambda>_. True) w" "passes w (create_stage n b k) (\<lambda>_. True) w"
  "ok \<Longrightarrow> passes w (require ok failed) (\<lambda>_. True) w" "passes w (option_run (Some x) otherwise) (\<lambda>y. y = x) w"
  "passes w (stage_diagnostics n) (\<lambda>_. True) w" "passes w (stage_warnings n []) (\<lambda>_. True) w"
  by (auto simp: passes_def step_defs deadlineStatus_def sample_options_def create_stage_def split: event.splits)

definition sample_artifact :: page_artifact where
  "sample_artifact = \<lparr>pa_page_index = 0, pa_page_number = 1, pa_relative_image = ''pages/1.png'',
       pa_output_path = ''out/pages/1.png'', pa_width = 600, pa_height = 800, pa_debug_images = []\<rparr>"

definition sample_words :: page_text where
  "sample_words = empty_page_text\<lparr>pt_page_index := 0, pt_page_number := 1\<rparr>"

definition sample_rotation :: page_rotation where
  "sample_rotation = \<lparr>rot_width = 600, rot_height = 800, rot_degrees = 0\<rparr>"

definition sample_blocks :: page_layout where
  "sample_blocks = \<lparr>pl_page_index = 0, pl_page_number = 1, pl_blocks = []\<rparr>"

definition sample_tables :: page_tables where
  "sample_tables = \<lparr>pg_page_index = 0, pg_page_number = 1, pg_tables = []\<rparr>"

lemma sample_no_lines: "pt_lines sample_words = []"
  by (simp add: sample_words_def empty_page_text_def)

lemma sample_recognized:
  "page_text_result_of sample_services sample_options None 0 sample_artifact = (\<lparr>sr_value = sample_words, sr_status = status_ok,
     sr_diagnostics = [], ptr_clockwise_correction_degrees = 0\<rparr>, None)"
  by (simp add: page_text_result_of_def native_page_text_def sample_services_def sample_options_def sample_text
      sample_artifact_def sample_words_def)

lemma sample_rendered:
  "passes w (render_one sample_environment sample_options sample_renderer [] 0) (\<lambda>page. page = sample_artifact) w"
proof -
  have d: "preprocessDebugImage sample_environment sample_options p = Some p" for p
    by (simp add: preprocessDebugImage_def sample_options_def)
  have r: "rr_supports_page_rendering sample_renderer = True" "rr_render_page sample_renderer (int 0) = Some sample_artifact"
    by (simp_all add: sample_renderer_def sample_artifact_def)
  show ?thesis
    unfolding render_one_def rendered_page_def r if_True
    by (rule passes_before[OF passes_steps(5)], rule passes_and_then[OF passes_steps(8)], hypsubst,
      rule passes_before[OF passes_steps(7)], simp add: sample_artifact_def, rule passes_before[OF passes_steps(1)], simp,
      unfold d, rule passes_and_then[OF passes_steps(8)], hypsubst, rule passes_before[OF passes_steps(4)], rule passes_returns) simp
qed

lemma sample_extracted:
  "passes w (text_one sample_environment sample_options sample_services None 0 sample_artifact)
     (\<lambda>x. x = (sample_artifact, sample_words, sample_rotation, None)) w"
proof -
  have r: "rotation_run sample_artifact 0 = returns sample_rotation"
    by (simp add: rotation_run_def make_rotation_def sample_artifact_def sample_rotation_def)
  have turned: "oriented sample_environment sample_artifact sample_rotation u = returns (sample_artifact, u)" for u
    by (simp add: oriented_def sample_rotation_def)
  show ?thesis
    unfolding text_one_def sample_recognized prod.case
    by (rule passes_before[OF passes_steps(2)], rule passes_before[OF passes_steps(5)], rule passes_before[OF passes_steps(7)],
      simp add: sr_ok_def, simp only: page_text_result.select_convs stage_result.select_convs r,
      rule passes_known, unfold turned, rule passes_known, unfold prod.case,
      rule passes_before[OF passes_steps(10)], rule passes_before[OF passes_steps(4)], rule passes_returns) simp
qed

lemma sample_analyzed:
  "passes w (layout_one sample_environment sample_options sample_services 0 sample_artifact sample_words)
     (\<lambda>l. l = sample_blocks) (w @ [sample_notice])"
proof -
  have "passes w (stage_warnings n [sample_notice]) (\<lambda>_. True) (w @ [sample_notice])" for n
    by (auto simp: passes_def step_defs)
  note warned = this
  show ?thesis
    unfolding layout_one_def Let_def sample_layout_result[OF sample_no_lines] stage_result.select_convs
    by (rule passes_before[OF passes_steps(2)], rule passes_before[OF passes_steps(5)], rule passes_before[OF passes_steps(7)],
      simp add: sr_ok_def, rule passes_before[OF warned], rule passes_before[OF passes_steps(4)], rule passes_returns)
      (simp add: sample_blocks_def)
qed

lemma sample_tabulated:
  "passes w (table_one sample_environment sample_options sample_services sample_artifact sample_words sample_blocks)
     (\<lambda>x. x = (sample_tables, sample_blocks)) w"
  unfolding table_one_def sample_blocks_def sample_table_result[OF sample_no_lines] prod.case stage_result.select_convs
  by (rule passes_before[OF passes_steps(2)], rule passes_before[OF passes_steps(5)], rule passes_before[OF passes_steps(7)],
      simp add: sr_ok_def, rule passes_before[OF passes_steps(10)], rule passes_returns) (simp add: sample_tables_def)

definition sample_acc :: page_acc where
  "sample_acc = \<lparr>acc_pages = [sample_artifact], acc_texts = [sample_words], acc_layouts = [sample_blocks],
     acc_tables = [sample_tables], acc_rotations = [sample_rotation], acc_image_paths = [''out/pages/1.png''],
     acc_legacy_texts = None\<rparr>"

lemma sample_processed:
  "passes w (process_page sample_environment sample_options sample_services sample_renderer []
      \<lparr>acc_pages = [], acc_texts = [], acc_layouts = [], acc_tables = [], acc_rotations = [], acc_image_paths = [],
       acc_legacy_texts = None\<rparr> 0) (\<lambda>acc. acc = sample_acc) (w @ [sample_notice])"
  unfolding process_page_def page_acc.select_convs
  by (rule passes_and_then[OF sample_rendered], hypsubst, rule passes_and_then[OF sample_extracted], hypsubst, unfold prod.case,
    rule passes_and_then[OF sample_analyzed], hypsubst, rule passes_and_then[OF sample_tabulated], hypsubst, unfold prod.case,
    rule passes_before[OF passes_steps(4)], rule passes_returns) (simp add: sample_acc_def sample_artifact_def)

lemma sample_pages: "passes w (pages_run sample_environment sample_options sample_services provenance)
    (\<lambda>acc. acc = sample_acc) (w @ [sample_notice])"
proof -
  have r: "sv_renderer sample_services = Some sample_renderer" "sv_page_count sample_services = 1"
    by (simp_all add: sample_services_def)
  have legacy: "legacy_pages_run sample_renderer 1 = returns []" by (simp add: legacy_pages_run_def sample_renderer_def)
  have created: "passes w (create_stages sample_options provenance 1) (\<lambda>_. True) w"
    unfolding create_stages_def Let_def
    by (rule passes_before[OF passes_steps(6)], rule passes_before[OF passes_steps(6)], rule passes_before[OF passes_steps(6)],
      rule passes_steps(6))
  have loop: "loop_run f [0..<nat 1] acc = and_then (f acc 0) returns" for f and acc :: page_acc
  proof -
    have "loop_run f [] = returns" by (rule ext) simp
    then show ?thesis by simp
  qed
  show ?thesis
    unfolding pages_run_def r
    by (rule passes_before[OF passes_steps(5)], rule passes_and_then[OF passes_steps(8)], hypsubst,
      rule passes_before[OF passes_steps(7)], simp, rule passes_before[OF created], rule passes_before[OF passes_steps(2)],
      unfold legacy loop, rule passes_known, rule passes_and_then[OF sample_processed], rule passes_returns)
qed

lemma sample_finished:
  "passes w (finish_pages sample_environment sample_options provenance sample_acc) (\<lambda>x. fst x = [sample_tables]) w"
proof -
  have linked: "linkPages (acc_pages sample_acc) (acc_tables sample_acc) = (status_ok, [sample_tables])"
    by (simp add: linkPages_def sample_acc_def linkCrossPageTables_def)
  show ?thesis
    unfolding finish_pages_def Let_def linked prod.case
    by (rule passes_and_then[OF passes_steps(9)], rule passes_and_then[OF passes_steps(9)], rule passes_and_then[OF passes_steps(9)],
      rule passes_before[OF passes_steps(3)], rule passes_before[OF passes_steps(3)], rule passes_before[OF passes_steps(3)],
      rule passes_before[OF passes_steps(5)], rule passes_before[OF passes_steps(7)], simp,
      rule passes_before[OF passes_steps(3)], rule passes_returns) simp
qed

definition sample_order :: page_reading_order where
  "sample_order = \<lparr>ro_page_index = 0, ro_page_number = 1, ro_items = [], ro_trace =
       \<lparr>tr_algorithm = ''docling-like'', tr_placements = [], tr_edge_counts = [], tr_cycle_breaks = []\<rparr>\<rparr>"

lemma sample_ordered:
  "passes w (reading_order_run sample_environment sample_options sample_services sample_acc) (\<lambda>x. x = [sample_order]) w"
proof -
  have ordered: "reading_order_stage (sv_reading_order sample_services) (acc_pages sample_acc) (acc_layouts sample_acc) =
      \<lparr>sr_value = [sample_order], sr_status = status_ok, sr_diagnostics = []\<rparr>"
    by (simp add: reading_order_stage_def sample_acc_def sample_services_def order_page_def sample_order_def no_results_def sr_ok_def)
  show ?thesis
    unfolding reading_order_run_def ordered Let_def stage_result.select_convs
    by (rule passes_before[OF passes_steps(5)], rule passes_before[OF passes_steps(1)], simp,
      rule passes_before[OF passes_steps(7)], simp add: sr_ok_def, rule passes_before[OF passes_steps(1)], simp,
      rule passes_before[OF passes_steps(1)], simp, rule passes_returns) simp
qed

lemma sample_assembled:
  "passes w (assembly_run sample_environment sample_options sample_services fingerprint sample_acc [sample_order] [sample_tables] recorded)
     (\<lambda>(doc, artifacts). list_all (\<lambda>p. pl_blocks (ppa_layout p) = []) artifacts \<and> length (pd_pages doc) = 1) w"
proof -
  let ?request = "assembly_request sample_options sample_services fingerprint sample_acc [sample_order] [sample_tables]"
  obtain doc artifacts where a: "assemble (env_engine_version sample_environment) ?request = Some (doc, artifacts)"
    by (simp add: assemble_def hasMatchingPageCounts_def assembly_request_def sample_acc_def Let_def)
  then have d: "length (pd_pages doc) = 1" "artifacts = request_pages ?request"
    by (auto simp: assemble_def hasMatchingPageCounts_def assembly_request_def sample_acc_def Let_def)
  then have "list_all (\<lambda>p. pl_blocks (ppa_layout p) = []) artifacts" "length artifacts = 1"
    by (simp_all add: request_pages_def assembly_request_def sample_acc_def sample_blocks_def)
  note artifacts = this
  have restored: "restoreSourceCoordinates doc artifacts (acc_rotations sample_acc) = Inr (doc, artifacts)"
    using d(1) artifacts(2) by (simp add: restoreSourceCoordinates_def sample_acc_def sample_rotation_def)
  show ?thesis
    unfolding assembly_run_def a
    by (rule passes_before[OF passes_steps(5)], rule passes_before[OF passes_steps(1)], simp,
      rule passes_and_then[OF passes_steps(8)], hypsubst, unfold prod.case restored sum.case,
      rule passes_before[OF passes_steps(1)], simp, rule passes_before[OF passes_steps(1)], simp, rule passes_returns)
      (use d(1) artifacts in \<open>auto simp: applyRunMetadata_def Let_def restore_paths_def list_all_iff dest!: set_zip_leftD\<close>)
qed

lemma sample_run:
  "\<exists>doc artifacts provenance s. parseInternal sample_environment sample_options
     (GivenServices sample_services sample_provenance) initial_state = (Inr (doc, artifacts, provenance), s) \<and>
   list_all (\<lambda>p. pl_blocks (ppa_layout p) = []) artifacts \<and> length (pd_pages doc) = 1 \<and>
   warnings_of (ps_events s) = [sample_notice]"
proof -
  obtain fingerprint where fingerprint: "fingerprintFile ''in/a.pdf'' \<lparr>in_opened = True, in_content = [37, 80, 68, 70],
      in_read_error = False\<rparr> = Some (status_ok, fingerprint)"
    using read_loop_absorbed[OF absorbed_init, of 0 "kReadSize - 1" "[37, 80, 68, 70]"] by (auto simp: fingerprintFile_def)
  have fingerprinted: "fingerprint_run sample_environment (sv_source_path sample_services) = before (require True (failed_stage ''open'' status_ok))
      (returns fingerprint)"
    by (simp add: fingerprint_run_def sample_environment_def sample_services_def fingerprint)
  have configured: "passes [] (configure_run sample_options (GivenServices sample_services sample_provenance))
      (\<lambda>x. fst x = sample_services) []"
    unfolding configure_run_def create_services_def service_origin.case
    by (rule passes_before[OF passes_steps(1)], simp, rule passes_known, unfold prod.case Let_def, rule passes_before[OF passes_steps(1)],
      simp, rule passes_before[OF passes_steps(1)], simp, rule passes_before[OF passes_steps(1)], simp, rule passes_returns) simp
  have opened: "passes [] (open_run sample_environment sample_options sample_services provenance) (\<lambda>_. True) []" for provenance
    unfolding open_run_def fingerprinted
    by (rule passes_before[OF passes_steps(1)], simp, rule passes_before[OF passes_steps(7)], simp add: sample_services_def,
      rule passes_and_then[OF passes_before[OF passes_steps(7)]], simp, rule passes_returns, rule TrueI,
      rule passes_before[OF passes_steps(7)], simp add: sample_services_def sample_options_def,
      rule passes_before[OF passes_steps(1)], simp, rule passes_before[OF passes_steps(1)], simp, rule passes_returns) simp
  have rest: "passes [] (and_then (open_run sample_environment sample_options sample_services provenance) (\<lambda>fingerprint.
       and_then (pages_run sample_environment sample_options sample_services provenance) (\<lambda>acc.
       and_then (finish_pages sample_environment sample_options provenance acc) (\<lambda>(tables, recorded).
       and_then (reading_order_run sample_environment sample_options sample_services acc) (\<lambda>orders.
       and_then (assembly_run sample_environment sample_options sample_services fingerprint acc orders tables recorded)
         (\<lambda>(doc, artifacts). returns (doc, artifacts, snd recorded)))))))
      (\<lambda>(doc, artifacts, _). list_all (\<lambda>p. pl_blocks (ppa_layout p) = []) artifacts \<and> length (pd_pages doc) = 1) [sample_notice]"
    for provenance
    by (rule passes_and_then[OF opened], rule passes_and_then[OF sample_pages], hypsubst, unfold append_Nil,
        rule passes_and_then[OF sample_finished], clarify, unfold fst_conv, hypsubst, rule passes_and_then[OF sample_ordered], hypsubst,
        rule passes_and_then[OF sample_assembled], clarify, rule passes_returns) simp
  have "passes [] (parseInternal sample_environment sample_options (GivenServices sample_services sample_provenance))
      (\<lambda>(doc, artifacts, _). list_all (\<lambda>p. pl_blocks (ppa_layout p) = []) artifacts \<and> length (pd_pages doc) = 1) [sample_notice]"
    unfolding parseInternal_def
    by (rule passes_and_then[OF configured]) (use rest in \<open>auto split: prod.split\<close>)
  then show ?thesis by (auto simp: passes_def initial_state_def)
qed

end
