(* ===== verification/Json_Export.thy ===== *)
theory Json_Export
  imports Common
begin

text \<open>
  \<open>cpp/export/json_document_exporter.cpp\<close>: the JSON document the engine writes. A JSON value is
  the datatype below, an object its entries (the JSON library keeps them by key, so their order
  carries nothing). Printing a value is the library's \<open>dump\<close>, an argument: it returns the text or
  throws, as it does for bytes that are not UTF-8.
\<close>

subsection \<open>JSON values\<close>

datatype json =
    JNull
  | JBool bool
  | JInt int
  | JNumber double
  | JString string
  | JArray "json list"
  | JObject "(string \<times> json) list"

definition json_get :: "json \<Rightarrow> string \<Rightarrow> json option" where
  "json_get j k = (case j of JObject entries \<Rightarrow> map_of entries k | _ \<Rightarrow> None)"

text \<open>\<open>value[key] = v\<close>, under a condition.\<close>

definition json_set :: "string \<Rightarrow> json \<Rightarrow> json \<Rightarrow> json" where
  "json_set k v j = (case j of JObject entries \<Rightarrow> JObject ((k, v) # filter (\<lambda>(k', _). k' \<noteq> k) entries) | _ \<Rightarrow> j)"

definition set_if :: "bool \<Rightarrow> string \<Rightarrow> json \<Rightarrow> json \<Rightarrow> json" where
  "set_if c k v j = (if c then json_set k v j else j)"

definition is_object :: "json \<Rightarrow> bool" where
  "is_object j \<longleftrightarrow> (case j of JObject _ \<Rightarrow> True | _ \<Rightarrow> False)"

record json_library =
  jl_dump :: "json \<Rightarrow> string + string"
  jl_missing_key :: "string \<Rightarrow> string"

subsection \<open>Names\<close>

definition kDocumentSchema :: string where
  "kDocumentSchema = ''https://github.com/ChNanAn/technical-doc-parser/schemas/document.v1.schema.json''"

definition kDebugExtension :: string where
  "kDebugExtension = ''io.github.chnanan.technical-doc-parser.pipeline_debug''"

fun textSourceToString :: "text_source \<Rightarrow> string" where
  "textSourceToString PdfTextLayer = ''pdf_text_layer''"
| "textSourceToString SourceOcr = ''ocr''"
| "textSourceToString SourceMixed = ''mixed''"
| "textSourceToString SourceUnknown = ''unknown''"

fun layoutBlockTypeToString :: "layout_type \<Rightarrow> string" where
  "layoutBlockTypeToString LTitle = ''title''"
| "layoutBlockTypeToString LText = ''text''"
| "layoutBlockTypeToString LList = ''list''"
| "layoutBlockTypeToString LTable = ''table''"
| "layoutBlockTypeToString LFigure = ''figure''"
| "layoutBlockTypeToString LHeader = ''header''"
| "layoutBlockTypeToString LFooter = ''footer''"
| "layoutBlockTypeToString LUnknown = ''unknown''"

fun documentBlockTypeToString :: "block_type \<Rightarrow> string" where
  "documentBlockTypeToString BTitle = ''title''"
| "documentBlockTypeToString BParagraph = ''paragraph''"
| "documentBlockTypeToString BList = ''list''"
| "documentBlockTypeToString BTable = ''table''"
| "documentBlockTypeToString BFigure = ''figure''"
| "documentBlockTypeToString BHeader = ''header''"
| "documentBlockTypeToString BFooter = ''footer''"
| "documentBlockTypeToString BUnknown = ''unknown''"

definition documentStatusToString :: "document_status \<Rightarrow> string" where
  "documentStatusToString st = (if st = Partial then ''partial'' else ''complete'')"

definition hasPositiveArea :: "bbox \<Rightarrow> bool" where
  "hasPositiveArea b \<longleftrightarrow> isfinite (bx0 b) \<and> isfinite (by0 b) \<and> isfinite (bx1 b) \<and> isfinite (by1 b) \<and>
     bx0 b \<ge> 0 \<and> by0 b \<ge> 0 \<and> bx0 b < bx1 b \<and> by0 b < by1 b"

definition isScore :: "double \<Rightarrow> bool" where
  "isScore v \<longleftrightarrow> isfinite v \<and> v \<ge> 0 \<and> v \<le> 1"

definition bboxToJson :: "bbox \<Rightarrow> json" where
  "bboxToJson b = JArray [JNumber (bx0 b), JNumber (by0 b), JNumber (bx1 b), JNumber (by1 b)]"

definition debugBboxToJson :: "bbox \<Rightarrow> json" where
  "debugBboxToJson b = JObject [(''x0'', JNumber (bx0 b)), (''y0'', JNumber (by0 b)), (''x1'', JNumber (bx1 b)),
     (''y1'', JNumber (by1 b))]"

definition scoreToJson :: "double \<Rightarrow> string \<Rightarrow> json" where
  "scoreToJson v kind = JObject [(''value'', JNumber v), (''kind'', JString kind)]"

text \<open>After the last of \<open>/\<close> and \<open>\\<close>.\<close>

definition basename :: "string \<Rightarrow> string" where
  "basename path = rev (takeWhile (\<lambda>c. c \<noteq> CHR ''/'' \<and> c \<noteq> CHR 0x5C) (rev path))"

definition mediaTypeFromSourceType :: "string \<Rightarrow> string" where
  "mediaTypeFromSourceType t =
     (if CHR ''/'' \<in> set t then t
      else if t = ''pdf'' then ''application/pdf''
      else if t = ''png'' then ''image/png''
      else if t = ''jpg'' \<or> t = ''jpeg'' then ''image/jpeg''
      else if t = ''tif'' \<or> t = ''tiff'' then ''image/tiff''
      else ''application/octet-stream'')"

definition isAbsoluteLocalPath :: "string \<Rightarrow> bool" where
  "isAbsoluteLocalPath path \<longleftrightarrow> path \<noteq> [] \<and>
     (hd path = CHR ''/'' \<or> hd path = CHR 0x5C \<or>
      (length path \<ge> 3 \<and> isalpha (path ! 0) \<and> path ! 1 = CHR '':'' \<and> (path ! 2 = CHR ''/'' \<or> path ! 2 = CHR 0x5C)))"

definition documentId :: "parsed_document \<Rightarrow> string" where
  "documentId doc =
     (if pd_document_id doc \<noteq> [] then pd_document_id doc
      else let filename = basename (src_path (pd_source doc))
           in if filename = [] then ''document'' else ''document:'' @ filename)"

subsection \<open>Looking up pages\<close>

record page_lookup =
  pk_ids_by_number :: "int \<rightharpoonup> string"
  pk_ids :: "string list"
  pk_dimensions_by_id :: "string \<rightharpoonup> double \<times> double"

definition pageLookup :: "document_page list \<Rightarrow> page_lookup" where
  "pageLookup pages = foldl (\<lambda>lookup page.
     \<lparr>pk_ids_by_number = emplace (pk_ids_by_number lookup) (dp_number page) (dp_id page),
      pk_ids = dp_id page # pk_ids lookup,
      pk_dimensions_by_id = emplace (pk_dimensions_by_id lookup) (dp_id page) (dp_width page, dp_height page)\<rparr>)
     \<lparr>pk_ids_by_number = Map.empty, pk_ids = [], pk_dimensions_by_id = Map.empty\<rparr> pages"

definition bboxFitsPage :: "bbox \<Rightarrow> string \<Rightarrow> page_lookup \<Rightarrow> bool" where
  "bboxFitsPage b page_id pages \<longleftrightarrow>
     (case pk_dimensions_by_id pages page_id of
        None \<Rightarrow> False
      | Some (width, height) \<Rightarrow> hasPositiveArea b \<and> bx1 b \<le> width \<and> by1 b \<le> height)"

definition resolvedPageId :: "string \<Rightarrow> int \<Rightarrow> page_lookup \<Rightarrow> string" where
  "resolvedPageId page_id page_number pages =
     (if page_id \<noteq> [] \<and> page_id \<in> set (pk_ids pages) then page_id
      else case pk_ids_by_number pages page_number of None \<Rightarrow> [] | Some i \<Rightarrow> i)"

subsection \<open>The parts of the document\<close>

definition sourceRefToJson :: "page_lookup \<Rightarrow> source_reference \<Rightarrow> json" where
  "sourceRefToJson pages r =
     set_if (ref_text r \<noteq> []) ''text'' (JString (ref_text r))
     (set_if (bboxFitsPage (ref_bbox r) (ref_page_id r) pages) ''bbox'' (bboxToJson (ref_bbox r))
      (JObject [(''page_id'', JString (ref_page_id r)), (''kind'', JString (textSourceToString (ref_source r)))]))"

definition sourceRefsToJson :: "source_reference list \<Rightarrow> page_lookup \<Rightarrow> json list" where
  "sourceRefsToJson refs pages = map (sourceRefToJson pages) (filter (\<lambda>r. ref_page_id r \<in> set (pk_ids pages)) refs)"

definition cellToJson :: "string \<Rightarrow> page_lookup \<Rightarrow> table_cell \<Rightarrow> json" where
  "cellToJson page_id pages c =
     (let refs = sourceRefsToJson (cell_source_refs c) pages in
      set_if (refs \<noteq> []) ''source_refs'' (JArray refs)
      (set_if (isScore (cell_confidence c)) ''score'' (scoreToJson (cell_confidence c) ''model_score'')
      (set_if (bboxFitsPage (cell_bbox c) page_id pages) ''bbox'' (bboxToJson (cell_bbox c))
       (JObject [(''row_index'', JInt (cell_row_index c)), (''column_index'', JInt (cell_column_index c)),
          (''row_span'', JInt (cell_row_span c)), (''column_span'', JInt (cell_column_span c)),
          (''is_header'', JBool (cell_is_header c)), (''text'', JString (cell_text c))]))))"

definition rowToJson :: "string \<Rightarrow> page_lookup \<Rightarrow> table_row \<Rightarrow> json" where
  "rowToJson page_id pages r =
     json_set ''cells'' (JArray (map (cellToJson page_id pages) (row_cells r)))
     (set_if (bboxFitsPage (row_bbox r) page_id pages) ''bbox'' (bboxToJson (row_bbox r))
      (JObject [(''row_index'', JInt (row_index r)), (''is_header'', JBool (row_is_header r)), (''cells'', JArray [])]))"

definition tableRowsToJson :: "table_row list \<Rightarrow> string \<Rightarrow> page_lookup \<Rightarrow> json" where
  "tableRowsToJson rows page_id pages = JArray (map (rowToJson page_id pages) rows)"

definition blockTableToJson :: "document_block \<Rightarrow> string \<Rightarrow> page_lookup \<Rightarrow> json" where
  "blockTableToJson b page_id pages =
     set_if (db_table_continuation_group_id b \<noteq> []) ''continuation_group_id'' (JString (db_table_continuation_group_id b))
     (set_if (db_table_id b \<noteq> []) ''id'' (JString (db_table_id b))
      (JObject [(''rows'', tableRowsToJson (db_table_rows b) page_id pages),
         (''continues_from_previous_page'', JBool (db_table_continues_from_previous_page b)),
         (''continues_on_next_page'', JBool (db_table_continues_on_next_page b))]))"

definition blockToJson :: "page_lookup \<Rightarrow> document_block \<Rightarrow> json" where
  "blockToJson pages b =
     (let page_id = resolvedPageId (db_page_id b) (db_page_number b) pages;
          refs = sourceRefsToJson (db_source_refs b) pages in
      set_if (db_table_id b \<noteq> [] \<or> db_table_rows b \<noteq> []) ''table'' (blockTableToJson b page_id pages)
      (set_if (db_source_label b \<noteq> []) ''metadata'' (JObject [(''source_label'', JString (db_source_label b))])
      (set_if (refs \<noteq> []) ''source_refs'' (JArray refs)
      (set_if (isScore (db_confidence b)) ''score'' (scoreToJson (db_confidence b) ''model_score'')
      (set_if (page_id \<noteq> [] \<and> bboxFitsPage (db_bbox b) page_id pages) ''bbox'' (bboxToJson (db_bbox b))
      (set_if (page_id \<noteq> []) ''page_id'' (JString page_id)
       (JObject [(''id'', JString (db_id b)), (''type'', JString (documentBlockTypeToString (db_type b))),
          (''text'', JString (db_text b))])))))))"

definition documentBlocksToJson :: "document_block list \<Rightarrow> page_lookup \<Rightarrow> json" where
  "documentBlocksToJson blocks pages = JArray (map (blockToJson pages) blocks)"

definition pageToJson :: "document_page \<Rightarrow> json" where
  "pageToJson p =
     set_if (dp_image_uri p \<noteq> [] \<and> \<not> isAbsoluteLocalPath (dp_image_uri p)) ''image''
       (JObject [(''id'', JString (if dp_image_id p = [] then dp_id p @ ''_image'' else dp_image_id p)),
          (''uri'', JString (dp_image_uri p)),
          (''media_type'', JString (if CHR ''/'' \<notin> set (dp_image_media_type p) then ''application/octet-stream''
             else dp_image_media_type p))])
       (JObject [(''id'', JString (dp_id p)), (''number'', JInt (dp_number p)), (''width'', JNumber (dp_width p)),
          (''height'', JNumber (dp_height p))])"

definition pagesToJson :: "document_page list \<Rightarrow> json list" where
  "pagesToJson pages = map pageToJson pages"

definition relationToJson :: "document_relation \<Rightarrow> json" where
  "relationToJson r =
     set_if (rel_id r \<noteq> []) ''id'' (JString (rel_id r))
       (JObject [(''type'', JString (rel_type r)), (''from_block_id'', JString (rel_from_block_id r)),
          (''to_block_id'', JString (rel_to_block_id r))])"

definition relationsToJson :: "document_relation list \<Rightarrow> json" where
  "relationsToJson rs = JArray (map relationToJson rs)"

definition warningToJson :: "document_warning \<Rightarrow> json" where
  "warningToJson w =
     set_if (dw_details w \<noteq> []) ''details'' (JObject (map (\<lambda>(k, v). (k, JString v)) (dw_details w)))
     (set_if (dw_page_ids w \<noteq> []) ''page_ids'' (JArray (map JString (dw_page_ids w)))
     (set_if (dw_occurrence_count w > 1) ''occurrence_count'' (JInt (uint (dw_occurrence_count w)))
     (set_if (dw_block_id w \<noteq> []) ''block_id'' (JString (dw_block_id w))
     (set_if (dw_page_id w \<noteq> []) ''page_id'' (JString (dw_page_id w))
     (set_if (dw_stage w \<noteq> []) ''stage'' (JString (dw_stage w))
       (JObject [(''code'', JString (dw_code w)), (''message'', JString (dw_message w))]))))))"

definition warningsToJson :: "document_warning list \<Rightarrow> json" where
  "warningsToJson ws = JArray (map warningToJson ws)"


subsection \<open>The pipeline's intermediate results, under the debug option\<close>

definition textSpanToJson :: "text_span \<Rightarrow> json" where
  "textSpanToJson s = JObject [(''text'', JString (span_text s)), (''bbox'', debugBboxToJson (span_bbox s)),
     (''source'', JString (textSourceToString (span_source s))), (''confidence'', JNumber (span_confidence s))]"

definition textLineToJson :: "text_line \<Rightarrow> json" where
  "textLineToJson l = JObject [(''text'', JString (line_text l)), (''bbox'', debugBboxToJson (line_bbox l)),
     (''source'', JString (textSourceToString (line_source l))), (''confidence'', JNumber (line_confidence l)),
     (''spans'', JArray (map textSpanToJson (line_spans l)))]"

definition pageTextToJson :: "page_text \<Rightarrow> json" where
  "pageTextToJson t = JObject [(''has_text'', JBool (pt_has_text t)),
     (''preferred_source'', JString (textSourceToString (pt_preferred_source t))),
     (''lines'', JArray (map textLineToJson (pt_lines t)))]"

definition layoutBlockToJson :: "layout_block \<Rightarrow> json" where
  "layoutBlockToJson b = JObject [(''id'', JString (lb_id b)), (''type'', JString (layoutBlockTypeToString (lb_type b))),
     (''source_label'', JString (lb_source_label b)), (''related_block_id'', JString (lb_related_block_id b)),
     (''bbox'', debugBboxToJson (lb_bbox b)), (''confidence'', JNumber (lb_confidence b)),
     (''reading_order_hint'', JInt (lb_reading_order_hint b)),
     (''text_line_indices'', JArray (map JInt (lb_text_line_indices b)))]"

definition pageLayoutToJson :: "page_layout \<Rightarrow> json" where
  "pageLayoutToJson l = JObject [(''blocks'', JArray (map layoutBlockToJson (pl_blocks l)))]"

definition readingOrderItemToJson :: "reading_order_item \<Rightarrow> json" where
  "readingOrderItemToJson i = JObject [(''layout_block_id'', JString (item_layout_block_id i)),
     (''layout_block_index'', JInt (item_layout_block_index i)), (''sequence_index'', JInt (item_sequence_index i))]"

definition placementToJson :: "placement \<Rightarrow> json" where
  "placementToJson p = JObject [(''layout_block_id'', JString (plc_layout_block_id p)), (''group'', JString (plc_group p)),
     (''band_index'', JInt (plc_band_index p)), (''column_start'', JInt (plc_column_start p)),
     (''column_end'', JInt (plc_column_end p)), (''parent_layout_block_id'', JString (plc_parent_layout_block_id p))]"

definition cycleBreakToJson :: "cycle_break \<Rightarrow> json" where
  "cycleBreakToJson c = JObject [(''from_layout_block_id'', JString (cb_from_layout_block_id c)),
     (''to_layout_block_id'', JString (cb_to_layout_block_id c)), (''reason'', JString (cb_reason c)),
     (''confidence'', JNumber (cb_confidence c))]"

definition pageReadingOrderToJson :: "page_reading_order \<Rightarrow> json" where
  "pageReadingOrderToJson r = JObject [(''items'', JArray (map readingOrderItemToJson (ro_items r))),
     (''trace'', JObject [(''algorithm'', JString (tr_algorithm (ro_trace r))),
        (''placements'', JArray (map placementToJson (tr_placements (ro_trace r)))),
        (''edge_counts'', JObject (map (\<lambda>(k, n). (k, JInt n)) (tr_edge_counts (ro_trace r)))),
        (''cycle_breaks'', JArray (map cycleBreakToJson (tr_cycle_breaks (ro_trace r))))])]"

definition debugCellToJson :: "table_cell \<Rightarrow> json" where
  "debugCellToJson c = JObject [(''row_index'', JInt (cell_row_index c)), (''column_index'', JInt (cell_column_index c)),
     (''row_span'', JInt (cell_row_span c)), (''column_span'', JInt (cell_column_span c)),
     (''is_header'', JBool (cell_is_header c)), (''text'', JString (cell_text c)), (''bbox'', debugBboxToJson (cell_bbox c)),
     (''confidence'', JNumber (cell_confidence c))]"

definition debugTableRowsToJson :: "table_row list \<Rightarrow> json" where
  "debugTableRowsToJson rows = JArray (map (\<lambda>r. JObject [(''row_index'', JInt (row_index r)),
     (''bbox'', debugBboxToJson (row_bbox r)), (''confidence'', JNumber (row_confidence r)),
     (''is_header'', JBool (row_is_header r)), (''cells'', JArray (map debugCellToJson (row_cells r)))]) rows)"

definition tableToJson :: "table \<Rightarrow> json" where
  "tableToJson t = JObject [(''id'', JString (tb_id t)), (''layout_block_id'', JString (tb_layout_block_id t)),
     (''text_mode'', JString (if tb_text_mode t = SourceLines then ''source_lines'' else ''cells'')),
     (''bbox'', debugBboxToJson (tb_bbox t)), (''confidence'', JNumber (tb_confidence t)),
     (''source_label'', JString (tb_source_label t)), (''continuation_group_id'', JString (tb_continuation_group_id t)),
     (''continues_from_previous_page'', JBool (tb_continues_from_previous_page t)),
     (''continues_on_next_page'', JBool (tb_continues_on_next_page t)),
     (''columns'', JArray (map (\<lambda>c. JObject [(''column_index'', JInt (col_index c)), (''bbox'', debugBboxToJson (col_bbox c)),
        (''confidence'', JNumber (col_confidence c))]) (tb_columns t))),
     (''rows'', debugTableRowsToJson (tb_rows t)),
     (''structure_objects'', JArray (map (\<lambda>ob. JObject [(''label'', JString (obj_label ob)),
        (''bbox'', debugBboxToJson (obj_bbox ob)), (''confidence'', JNumber (obj_confidence ob))]) (tb_structure_objects t)))]"

definition pageTablesToJson :: "page_tables \<Rightarrow> json" where
  "pageTablesToJson t = JObject [(''tables'', JArray (map tableToJson (pg_tables t)))]"

definition debugImagesToJson :: "debug_image list \<Rightarrow> json" where
  "debugImagesToJson images = JArray (map (\<lambda>i. JObject [(''name'', JString (dbg_name i)),
     (''image'', JString (dbg_relative_image i))]) images)"

definition debugToJson :: "page_artifacts \<Rightarrow> json" where
  "debugToJson artifact =
     set_if (pa_debug_images (ppa_image artifact) \<noteq> []) ''images'' (debugImagesToJson (pa_debug_images (ppa_image artifact)))
       (JObject [(''text'', pageTextToJson (ppa_text artifact)), (''layout'', pageLayoutToJson (ppa_layout artifact)),
          (''reading_order'', pageReadingOrderToJson (ppa_reading_order artifact)),
          (''tables'', pageTablesToJson (ppa_tables artifact))])"

text \<open>\<open>page.at("number").get<int>()\<close> throws where the entry is missing.\<close>

definition page_json_number :: "json \<Rightarrow> int option" where
  "page_json_number j = (case json_get j ''number'' of Some (JInt n) \<Rightarrow> Some n | _ \<Rightarrow> None)"

definition extend_page :: "(int \<rightharpoonup> page_artifacts) \<Rightarrow> json \<Rightarrow> int \<Rightarrow> json" where
  "extend_page by_number page n =
     (case by_number n of
        None \<Rightarrow> page
      | Some artifact \<Rightarrow>
          let extensions = (case json_get page ''extensions'' of None \<Rightarrow> JObject [] | Some e \<Rightarrow> e)
          in json_set ''extensions'' (json_set kDebugExtension (debugToJson artifact) extensions) page)"

fun extend_pages :: "json_library \<Rightarrow> (int \<rightharpoonup> page_artifacts) \<Rightarrow> json list \<Rightarrow> string + json list" where
  "extend_pages lib by_number [] = Inr []"
| "extend_pages lib by_number (page # pages) =
     (case page_json_number page of
        None \<Rightarrow> Inl (jl_missing_key lib ''number'')
      | Some n \<Rightarrow>
          (case extend_pages lib by_number pages of
             Inl what \<Rightarrow> Inl what
           | Inr rest \<Rightarrow> Inr (extend_page by_number page n # rest)))"

definition addDebugExtensions :: "json_library \<Rightarrow> json list \<Rightarrow> pipeline_artifacts \<Rightarrow> string + json list" where
  "addDebugExtensions lib pages artifacts =
     extend_pages lib (foldl (\<lambda>m p. m(ppa_page_number p \<mapsto> p)) Map.empty artifacts) pages"


subsection \<open>\<open>validateCoreModel\<close>\<close>

definition invalidCoreModel :: "string \<Rightarrow> string \<Rightarrow> status" where
  "invalidCoreModel code message = status_error code message ''export'' False"

definition valid_sha256 :: "string \<Rightarrow> bool" where
  "valid_sha256 s \<longleftrightarrow> length s = 64 \<and>
     list_all (\<lambda>c. (48 \<le> (of_char c :: nat) \<and> (of_char c :: nat) \<le> 57) \<or> (97 \<le> (of_char c :: nat) \<and> (of_char c :: nat) \<le> 102)) s"

text \<open>The checks of one part in order: the first that fails gives the message.\<close>

fun first_failure :: "(bool \<times> string) list \<Rightarrow> string option" where
  "first_failure [] = None"
| "first_failure ((failed, message) # checks) = (if failed then Some message else first_failure checks)"

definition quoted :: "string \<Rightarrow> string" where
  "quoted s = [CHR 0x27] @ s @ [CHR 0x27]"

fun check_pages :: "nat \<Rightarrow> string list \<Rightarrow> int list \<Rightarrow> document_page list \<Rightarrow> status + string list" where
  "check_pages index ids numbers [] = Inr ids"
| "check_pages index ids numbers (page # pages) =
     (let location = ''page at index '' @ nat_to_string index; named = location @ '' ('' @ quoted (dp_id page) @ '')'' in
      case first_failure
        [(dp_id page = [], location @ '' has an empty id''),
         (dp_number page \<le> 0, named @ '' has a non-positive page number''),
         (\<not> isfinite (dp_width page) \<or> \<not> isfinite (dp_height page) \<or> dp_width page \<le> 0 \<or> dp_height page \<le> 0,
          named @ '' has invalid dimensions''),
         (dp_id page \<in> set ids, ''duplicate page id '' @ quoted (dp_id page)),
         (dp_number page \<in> set numbers, ''duplicate page number '' @ int_to_string (dp_number page))] of
        Some message \<Rightarrow> Inl (invalidCoreModel ''export.document.invalid_page'' message)
      | None \<Rightarrow> check_pages (index + 1) (dp_id page # ids) (dp_number page # numbers) pages)"

fun check_blocks :: "nat \<Rightarrow> string list \<Rightarrow> document_block list \<Rightarrow> status + string list" where
  "check_blocks index ids [] = Inr ids"
| "check_blocks index ids (block # blocks) =
     (case first_failure
        [(db_id block = [], ''block at index '' @ nat_to_string index @ '' has an empty id''),
         (db_id block \<in> set ids, ''duplicate block id '' @ quoted (db_id block))] of
        Some message \<Rightarrow> Inl (invalidCoreModel ''export.document.invalid_block'' message)
      | None \<Rightarrow> check_blocks (index + 1) (db_id block # ids) blocks)"

fun check_relations :: "nat \<Rightarrow> string list \<Rightarrow> document_relation list \<Rightarrow> status" where
  "check_relations index block_ids [] = status_ok"
| "check_relations index block_ids (r # rs) =
     (let location = (if rel_id r = [] then ''relation at index '' @ nat_to_string index else ''relation '' @ quoted (rel_id r)) in
      case first_failure
        [(rel_type r = [], location @ '' has an empty type''),
         (rel_from_block_id r \<notin> set block_ids, location @ '' references unknown from_block_id '' @ quoted (rel_from_block_id r)),
         (rel_to_block_id r \<notin> set block_ids, location @ '' references unknown to_block_id '' @ quoted (rel_to_block_id r)),
         (rel_from_block_id r = rel_to_block_id r, location @ '' is self-referential for block '' @ quoted (rel_from_block_id r))] of
        Some message \<Rightarrow> invalidCoreModel ''export.document.invalid_relation'' message
      | None \<Rightarrow> check_relations (index + 1) block_ids rs)"

fun check_warning_pages :: "string \<Rightarrow> string list \<Rightarrow> string list \<Rightarrow> string list \<Rightarrow> status + string list" where
  "check_warning_pages named page_ids seen [] = Inr seen"
| "check_warning_pages named page_ids seen (p # ps) =
     (case first_failure
        [(p \<notin> set page_ids, named @ '' references unknown page_id '' @ quoted p),
         (p \<in> set seen, named @ '' contains duplicate page_id '' @ quoted p)] of
        Some message \<Rightarrow> Inl (invalidCoreModel ''export.document.invalid_warning'' message)
      | None \<Rightarrow> check_warning_pages named page_ids (p # seen) ps)"

definition check_warning :: "nat \<Rightarrow> string list \<Rightarrow> string list \<Rightarrow> document_warning \<Rightarrow> status" where
  "check_warning index page_ids block_ids w =
     (let location = ''warning at index '' @ nat_to_string index; named = location @ '' ('' @ quoted (dw_code w) @ '')'' in
      case first_failure
        [(dw_code w = [], location @ '' has an empty code''),
         (dw_message w = [], named @ '' has an empty message''),
         (dw_page_id w \<noteq> [] \<and> dw_page_id w \<notin> set page_ids, named @ '' references unknown page_id '' @ quoted (dw_page_id w)),
         (dw_block_id w \<noteq> [] \<and> dw_block_id w \<notin> set block_ids, named @ '' references unknown block_id '' @ quoted (dw_block_id w)),
         (dw_occurrence_count w < 1, named @ '' has a non-positive occurrence_count''),
         (dw_page_id w \<noteq> [] \<and> dw_page_ids w \<noteq> [], named @ '' has both page_id and page_ids'')] of
        Some message \<Rightarrow> invalidCoreModel ''export.document.invalid_warning'' message
      | None \<Rightarrow>
          (case check_warning_pages named page_ids [] (dw_page_ids w) of
             Inl st \<Rightarrow> st
           | Inr seen \<Rightarrow>
               if unat (dw_occurrence_count w) < length seen
               then invalidCoreModel ''export.document.invalid_warning'' (named @ '' has fewer occurrences than affected pages'')
               else status_ok))"

fun check_warnings :: "nat \<Rightarrow> string list \<Rightarrow> string list \<Rightarrow> document_warning list \<Rightarrow> status" where
  "check_warnings index page_ids block_ids [] = status_ok"
| "check_warnings index page_ids block_ids (w # ws) =
     (let st = check_warning index page_ids block_ids w
      in if ok_status st then check_warnings (index + 1) page_ids block_ids ws else st)"

definition validateCoreModel :: "parsed_document \<Rightarrow> status" where
  "validateCoreModel doc =
     (if pd_status doc = Partial \<and> pd_warnings doc = []
      then invalidCoreModel ''export.document.partial_unexplained''
             ''partial document has no warning explaining the degraded result''
      else if src_sha256 (pd_source doc) \<noteq> [] \<and> \<not> valid_sha256 (src_sha256 (pd_source doc))
      then invalidCoreModel ''export.document.invalid_source'' ''source sha256 is not lowercase hexadecimal''
      else
        case check_pages 0 [] [] (pd_pages doc) of
          Inl st \<Rightarrow> st
        | Inr page_ids \<Rightarrow>
            (case check_blocks 0 [] (pd_blocks doc) of
               Inl st \<Rightarrow> st
             | Inr block_ids \<Rightarrow>
                 let st = check_relations 0 block_ids (pd_relations doc)
                 in if ok_status st then check_warnings 0 page_ids block_ids (pd_warnings doc) else st))"

subsection \<open>\<open>serialize\<close>\<close>

definition sourceToJson :: "document_source \<Rightarrow> json" where
  "sourceToJson source =
     (let filename = basename (if src_filename source = [] then src_path source else src_filename source);
          media_type = (if CHR ''/'' \<notin> set (src_media_type source) then mediaTypeFromSourceType (src_type source)
            else src_media_type source) in
      set_if (src_sha256 source \<noteq> []) ''sha256'' (JString (src_sha256 source))
      (set_if (src_size_bytes source \<noteq> None) ''size_bytes'' (JInt (int (the (src_size_bytes source))))
      (set_if (filename \<noteq> []) ''filename'' (JString filename) (JObject [(''media_type'', JString media_type)]))))"

definition producerToJson :: "document_producer \<Rightarrow> json" where
  "producerToJson p =
     set_if (prod_run_id p \<noteq> []) ''run_id'' (JString (prod_run_id p))
     (set_if (length (prod_git_revision p) \<ge> 7) ''git_revision'' (JString (prod_git_revision p))
       (JObject [(''name'', JString (if prod_name p = [] then ''technical-doc-parser'' else prod_name p)),
          (''version'', JString (if prod_version p = [] then ''unknown'' else prod_version p))]))"

definition coordinateSpaceToJson :: "int \<Rightarrow> json" where
  "coordinateSpaceToJson dpi =
     set_if (dpi > 0) ''dpi'' (JInt dpi)
       (JObject [(''unit'', JString ''pixel''), (''origin'', JString ''top_left''), (''bbox_format'', JString ''xyxy'')])"

definition manifestToJson :: "parsed_document \<Rightarrow> json list \<Rightarrow> json" where
  "manifestToJson doc pages =
     set_if (pd_relations doc \<noteq> []) ''relations'' (relationsToJson (pd_relations doc))
       (JObject [(''$schema'', JString kDocumentSchema), (''schema_version'', JInt 1), (''document_id'', JString (documentId doc)),
          (''status'', JString (documentStatusToString (pd_status doc))), (''source'', sourceToJson (pd_source doc)),
          (''producer'', producerToJson (pd_producer doc)), (''coordinate_space'', coordinateSpaceToJson (pd_dpi doc)),
          (''pages'', JArray pages), (''blocks'', documentBlocksToJson (pd_blocks doc) (pageLookup (pd_pages doc))),
          (''warnings'', warningsToJson (pd_warnings doc))])"

record serialization_request =
  sq_debug :: bool
  sq_document :: "parsed_document option"
  sq_artifacts :: "pipeline_artifacts option"

definition serialization_failed :: "string \<Rightarrow> status" where
  "serialization_failed what =
     status_error ''export.json.serialization_failed'' (''failed to serialize JSON document: '' @ what) ''export'' False"

definition manifest_of :: "json_library \<Rightarrow> bool \<Rightarrow> pipeline_artifacts option \<Rightarrow> parsed_document \<Rightarrow> string + json" where
  "manifest_of lib debug artifacts doc =
     (let pages = pagesToJson (pd_pages doc) in
      case (case artifacts of Some a \<Rightarrow> if debug then addDebugExtensions lib pages a else Inr pages | None \<Rightarrow> Inr pages) of
        Inl what \<Rightarrow> Inl what
      | Inr pages \<Rightarrow> Inr (manifestToJson doc pages))"

definition serialize :: "json_library \<Rightarrow> serialization_request \<Rightarrow> status + string" where
  "serialize lib request =
     (case sq_document request of
        None \<Rightarrow> Inl (status_error ''export.json.document_missing'' ''document export request has no document'' ''export'' False)
      | Some doc \<Rightarrow>
          let st = validateCoreModel doc in
          if \<not> ok_status st then Inl st
          else
            case manifest_of lib (sq_debug request) (sq_artifacts request) doc of
              Inl what \<Rightarrow> Inl (serialization_failed what)
            | Inr manifest \<Rightarrow>
                (case jl_dump lib manifest of
                   Inl what \<Rightarrow> Inl (serialization_failed what)
                 | Inr text \<Rightarrow> Inr text))"


subsection \<open>What validation promises\<close>

definition page_ok :: "document_page \<Rightarrow> bool" where
  "page_ok p \<longleftrightarrow> dp_id p \<noteq> [] \<and> 0 < dp_number p \<and> isfinite (dp_width p) \<and> isfinite (dp_height p) \<and>
     0 < dp_width p \<and> 0 < dp_height p"

definition relation_ok :: "string set \<Rightarrow> document_relation \<Rightarrow> bool" where
  "relation_ok blocks r \<longleftrightarrow> rel_type r \<noteq> [] \<and> rel_from_block_id r \<in> blocks \<and> rel_to_block_id r \<in> blocks \<and>
     rel_from_block_id r \<noteq> rel_to_block_id r"

definition warning_ok :: "string set \<Rightarrow> string set \<Rightarrow> document_warning \<Rightarrow> bool" where
  "warning_ok pages blocks w \<longleftrightarrow> dw_code w \<noteq> [] \<and> dw_message w \<noteq> [] \<and>
     (dw_page_id w \<noteq> [] \<longrightarrow> dw_page_id w \<in> pages) \<and> (dw_block_id w \<noteq> [] \<longrightarrow> dw_block_id w \<in> blocks) \<and>
     1 \<le> unat (dw_occurrence_count w) \<and> length (dw_page_ids w) \<le> unat (dw_occurrence_count w) \<and>
     (dw_page_id w = [] \<or> dw_page_ids w = []) \<and> set (dw_page_ids w) \<subseteq> pages \<and> distinct (dw_page_ids w)"

definition core_model_ok :: "parsed_document \<Rightarrow> bool" where
  "core_model_ok doc \<longleftrightarrow>
     (pd_status doc = Partial \<longrightarrow> pd_warnings doc \<noteq> []) \<and>
     (src_sha256 (pd_source doc) \<noteq> [] \<longrightarrow> valid_sha256 (src_sha256 (pd_source doc))) \<and>
     list_all page_ok (pd_pages doc) \<and> distinct (map dp_id (pd_pages doc)) \<and> distinct (map dp_number (pd_pages doc)) \<and>
     [] \<notin> db_id ` set (pd_blocks doc) \<and> distinct (map db_id (pd_blocks doc)) \<and>
     list_all (relation_ok (db_id ` set (pd_blocks doc))) (pd_relations doc) \<and>
     list_all (warning_ok (dp_id ` set (pd_pages doc)) (db_id ` set (pd_blocks doc))) (pd_warnings doc)"

lemma invalid_not_ok [simp]: "\<not> ok_status (invalidCoreModel code message)"
  by (simp add: invalidCoreModel_def)

lemma first_failure_None: "first_failure checks = None \<longleftrightarrow> list_all (\<lambda>(failed, _). \<not> failed) checks"
  by (induction checks rule: first_failure.induct) auto

lemma check_pages_Inl: "check_pages index ids numbers pages = Inl st \<Longrightarrow> \<not> ok_status st"
  by (induction index ids numbers pages rule: check_pages.induct) (auto simp: Let_def split: if_splits)

lemma check_pages_Inr:
  "check_pages index ids numbers pages = Inr r \<longleftrightarrow>
     r = rev (map dp_id pages) @ ids \<and> list_all page_ok pages \<and> distinct (map dp_id pages) \<and> distinct (map dp_number pages) \<and>
     dp_id ` set pages \<inter> set ids = {} \<and> dp_number ` set pages \<inter> set numbers = {}"
proof (induction index ids numbers pages rule: check_pages.induct)
  case (2 index ids numbers page pages)
  show ?case
  proof (cases "page_ok page \<and> dp_id page \<notin> set ids \<and> dp_number page \<notin> set numbers")
    case True
    then have "check_pages index ids numbers (page # pages) = check_pages (index + 1) (dp_id page # ids) (dp_number page # numbers) pages"
      by (simp add: page_ok_def Let_def)
    moreover have "first_failure
        [(dp_id page = [], a), (dp_number page \<le> 0, b),
         (\<not> isfinite (dp_width page) \<or> \<not> isfinite (dp_height page) \<or> dp_width page \<le> 0 \<or> dp_height page \<le> 0, c),
         (dp_id page \<in> set ids, d), (dp_number page \<in> set numbers, e)] = None" for a b c d e
      using True by (simp add: page_ok_def)
    ultimately show ?thesis using "2.IH"[OF refl refl] True by auto
  next
    case False
    then have "\<exists>st. check_pages index ids numbers (page # pages) = Inl st" by (auto simp: page_ok_def Let_def)
    then show ?thesis using False by auto
  qed
qed auto

lemma check_blocks_Inl: "check_blocks index ids blocks = Inl st \<Longrightarrow> \<not> ok_status st"
  by (induction index ids blocks rule: check_blocks.induct) (auto split: if_splits)

lemma check_blocks_Inr:
  "check_blocks index ids blocks = Inr r \<longleftrightarrow>
     r = rev (map db_id blocks) @ ids \<and> [] \<notin> db_id ` set blocks \<and> distinct (map db_id blocks) \<and>
     db_id ` set blocks \<inter> set ids = {}"
  by (induction index ids blocks rule: check_blocks.induct) auto

lemma check_relations_ok: "ok_status (check_relations index ids rs) \<longleftrightarrow> list_all (relation_ok (set ids)) rs"
  by (induction index ids rs rule: check_relations.induct) (auto simp: relation_ok_def Let_def)

lemma check_warning_pages_Inl: "check_warning_pages named ids seen ps = Inl st \<Longrightarrow> \<not> ok_status st"
  by (induction named ids seen ps rule: check_warning_pages.induct) (auto split: if_splits)

lemma check_warning_pages_Inr:
  "check_warning_pages named ids seen ps = Inr r \<longleftrightarrow>
     r = rev ps @ seen \<and> set ps \<subseteq> set ids \<and> distinct ps \<and> set ps \<inter> set seen = {}"
  by (induction named ids seen ps rule: check_warning_pages.induct) auto

lemma check_warning_ok: "ok_status (check_warning index ids blocks w) \<longleftrightarrow> warning_ok (set ids) (set blocks) w"
proof -
  have one: "\<not> dw_occurrence_count w < 1 \<longleftrightarrow> 1 \<le> unat (dw_occurrence_count w)"
    by (simp add: word_less_nat_alt not_less Suc_le_eq)
  have pages: "ok_status (case check_warning_pages named ids [] (dw_page_ids w) of Inl st \<Rightarrow> st
       | Inr seen \<Rightarrow> if unat (dw_occurrence_count w) < length seen then invalidCoreModel code message else status_ok) \<longleftrightarrow>
     set (dw_page_ids w) \<subseteq> set ids \<and> distinct (dw_page_ids w) \<and> length (dw_page_ids w) \<le> unat (dw_occurrence_count w)"
    for named code message
  proof (cases "check_warning_pages named ids [] (dw_page_ids w)")
    case (Inl st)
    then have "\<not> (set (dw_page_ids w) \<subseteq> set ids \<and> distinct (dw_page_ids w))"
      using check_warning_pages_Inr[of named ids "[]" "dw_page_ids w" "rev (dw_page_ids w)"] by simp
    then show ?thesis using Inl check_warning_pages_Inl[OF Inl] by auto
  next
    case (Inr seen)
    then show ?thesis using check_warning_pages_Inr[of named ids "[]" "dw_page_ids w" seen] by simp
  qed
  show ?thesis
  proof (cases "dw_code w \<noteq> [] \<and> dw_message w \<noteq> [] \<and> (dw_page_id w \<noteq> [] \<longrightarrow> dw_page_id w \<in> set ids) \<and>
      (dw_block_id w \<noteq> [] \<longrightarrow> dw_block_id w \<in> set blocks) \<and> \<not> dw_occurrence_count w < 1 \<and>
      (dw_page_id w = [] \<or> dw_page_ids w = [])")
    case True
    then show ?thesis
      using pages one by (simp add: check_warning_def Let_def warning_ok_def) blast
  next
    case False
    then show ?thesis using one by (auto simp: check_warning_def Let_def warning_ok_def)
  qed
qed

lemma check_warnings_ok:
  "ok_status (check_warnings index ids blocks ws) \<longleftrightarrow> list_all (warning_ok (set ids) (set blocks)) ws"
  by (induction index ids blocks ws rule: check_warnings.induct) (auto simp: check_warning_ok Let_def)

lemma validate_iff: "ok_status (validateCoreModel doc) \<longleftrightarrow> core_model_ok doc"
proof (cases "check_pages 0 [] [] (pd_pages doc)")
  case (Inl st)
  then have "\<not> (list_all page_ok (pd_pages doc) \<and> distinct (map dp_id (pd_pages doc)) \<and> distinct (map dp_number (pd_pages doc)))"
    using check_pages_Inr[of 0 "[]" "[]" "pd_pages doc"] by auto
  then show ?thesis
    using Inl check_pages_Inl[OF Inl] by (auto simp: validateCoreModel_def core_model_ok_def)
next
  case pages: (Inr page_ids)
  show ?thesis
  proof (cases "check_blocks 0 [] (pd_blocks doc)")
    case (Inl st)
    then have "\<not> ([] \<notin> db_id ` set (pd_blocks doc) \<and> distinct (map db_id (pd_blocks doc)))"
      using check_blocks_Inr[of 0 "[]" "pd_blocks doc"] by auto
    then show ?thesis
      using pages Inl check_blocks_Inl[OF Inl] by (auto simp: validateCoreModel_def core_model_ok_def)
  next
    case (Inr block_ids)
    then show ?thesis
      using pages check_pages_Inr[of 0 "[]" "[]" "pd_pages doc" page_ids] check_blocks_Inr[of 0 "[]" "pd_blocks doc" block_ids]
      by (auto simp: validateCoreModel_def core_model_ok_def Let_def check_relations_ok check_warnings_ok)
  qed
qed

end
