(* ===== verification/Json_Schema.thy ===== *)
theory Json_Schema
  imports Json_Export
begin

text \<open>
  The contract of the JSON document, \<open>schemas/document.v1.schema.json\<close>, as predicates on JSON
  values, one for each of its \<open>$defs\<close>, and the proof that what the exporter writes keeps it. The
  schema counts the characters of a string; the lengths here are in bytes, which are at least as
  many, so an upper bound is the stricter one and a lower bound of one is the same.
\<close>

subsection \<open>Schemas\<close>

type_synonym schema = "json \<Rightarrow> bool"

definition s_string :: "nat \<Rightarrow> nat option \<Rightarrow> (string \<Rightarrow> bool) \<Rightarrow> schema" where
  "s_string least most pattern j \<longleftrightarrow>
     (case j of
        JString s \<Rightarrow> least \<le> length s \<and> (case most of None \<Rightarrow> True | Some m \<Rightarrow> length s \<le> m) \<and> pattern s
      | _ \<Rightarrow> False)"

definition s_const :: "json \<Rightarrow> schema" where
  "s_const v j \<longleftrightarrow> j = v"

definition s_integer :: "int \<Rightarrow> schema" where
  "s_integer least j \<longleftrightarrow> (case j of JInt i \<Rightarrow> least \<le> i | _ \<Rightarrow> False)"

definition s_number :: "(double \<Rightarrow> bool) \<Rightarrow> schema" where
  "s_number range_ok j \<longleftrightarrow>
     (case j of JNumber x \<Rightarrow> isfinite x \<and> range_ok x | JInt i \<Rightarrow> range_ok (real_of_int i) | _ \<Rightarrow> False)"

definition s_boolean :: schema where
  "s_boolean j \<longleftrightarrow> (case j of JBool _ \<Rightarrow> True | _ \<Rightarrow> False)"

definition s_array :: "(json list \<Rightarrow> bool) \<Rightarrow> schema \<Rightarrow> schema" where
  "s_array count_ok item j \<longleftrightarrow> (case j of JArray js \<Rightarrow> count_ok js \<and> list_all item js | _ \<Rightarrow> False)"

definition s_object :: "string list \<Rightarrow> (string \<times> schema) list \<Rightarrow> schema" where
  "s_object required properties j \<longleftrightarrow>
     is_object j \<and> list_all (\<lambda>k. json_get j k \<noteq> None) required \<and>
     list_all (\<lambda>(k, s). case json_get j k of None \<Rightarrow> True | Some v \<Rightarrow> s v) properties"

definition any_string :: "string \<Rightarrow> bool" where
  "any_string s \<longleftrightarrow> True"

definition schema_id :: schema where
  "schema_id = s_string 1 (Some 256) any_string"

text \<open>\<open>^[^/\s]+/[^/\s]+$\<close>\<close>

definition media_type_pattern :: "string \<Rightarrow> bool" where
  "media_type_pattern s \<longleftrightarrow>
     (let kind = takeWhile (\<lambda>c. c \<noteq> CHR ''/'') s; subtype = drop (length kind + 1) s
      in kind \<noteq> [] \<and> subtype \<noteq> [] \<and> length kind < length s \<and> CHR ''/'' \<notin> set subtype \<and> \<not> list_ex isspace s)"

definition schema_source :: schema where
  "schema_source = s_object [''media_type'']
     [(''filename'', s_string 1 (Some 1024) (\<lambda>s. CHR ''/'' \<notin> set s \<and> CHR 0x5C \<notin> set s)),
      (''media_type'', s_string 3 None media_type_pattern), (''size_bytes'', s_integer 0),
      (''sha256'', s_string 64 (Some 64) valid_sha256)]"

definition schema_producer :: schema where
  "schema_producer = s_object [''name'', ''version'']
     [(''name'', s_string 1 None any_string), (''version'', s_string 1 None any_string),
      (''git_revision'', s_string 7 None any_string), (''run_id'', schema_id)]"

definition schema_coordinate_space :: schema where
  "schema_coordinate_space = s_object [''unit'', ''origin'', ''bbox_format'']
     [(''unit'', s_const (JString ''pixel'')), (''origin'', s_const (JString ''top_left'')),
      (''bbox_format'', s_const (JString ''xyxy''))]"

definition schema_bbox :: schema where
  "schema_bbox = s_array (\<lambda>js. length js = 4) (s_number (\<lambda>x. 0 \<le> x))"

definition schema_artifact :: schema where
  "schema_artifact = s_object []
     [(''id'', schema_id), (''uri'', s_string 1 None any_string), (''media_type'', s_string 3 None any_string)]"

definition schema_page :: schema where
  "schema_page = s_object [''id'', ''number'', ''width'', ''height'']
     [(''id'', schema_id), (''number'', s_integer 1), (''width'', s_number (\<lambda>x. 0 < x)), (''height'', s_number (\<lambda>x. 0 < x)),
      (''image'', schema_artifact), (''extensions'', is_object)]"

definition schema_score :: schema where
  "schema_score = s_object [''value'']
     [(''value'', s_number (\<lambda>x. 0 \<le> x \<and> x \<le> 1)), (''kind'', s_string 1 None any_string)]"

definition schema_source_ref :: schema where
  "schema_source_ref = s_object [''page_id'']
     [(''page_id'', schema_id), (''bbox'', schema_bbox), (''text'', s_string 0 None any_string),
      (''kind'', s_string 1 None any_string)]"

definition schema_cell :: schema where
  "schema_cell = s_object [''text'']
     [(''row_index'', s_integer 0), (''column_index'', s_integer 0), (''row_span'', s_integer 1),
      (''column_span'', s_integer 1), (''is_header'', s_boolean), (''text'', s_string 0 None any_string),
      (''bbox'', schema_bbox), (''score'', schema_score), (''source_refs'', s_array (\<lambda>_. True) schema_source_ref)]"

definition schema_row :: schema where
  "schema_row = s_object [''cells'']
     [(''row_index'', s_integer 0), (''is_header'', s_boolean), (''bbox'', schema_bbox),
      (''cells'', s_array (\<lambda>_. True) schema_cell)]"

definition schema_table :: schema where
  "schema_table = s_object []
     [(''id'', schema_id), (''rows'', s_array (\<lambda>_. True) schema_row), (''continuation_group_id'', schema_id),
      (''continues_from_previous_page'', s_boolean), (''continues_on_next_page'', s_boolean)]"

definition schema_block :: schema where
  "schema_block j \<longleftrightarrow> s_object [''id'', ''type'']
     [(''id'', schema_id), (''type'', s_string 1 None any_string), (''page_id'', schema_id), (''bbox'', schema_bbox),
      (''text'', s_string 0 None any_string), (''score'', schema_score),
      (''source_refs'', s_array (\<lambda>_. True) schema_source_ref), (''table'', schema_table), (''metadata'', is_object)] j \<and>
     (json_get j ''bbox'' \<noteq> None \<longrightarrow> json_get j ''page_id'' \<noteq> None)"

definition schema_relation :: schema where
  "schema_relation = s_object [''type'', ''from_block_id'', ''to_block_id'']
     [(''id'', schema_id), (''type'', s_string 1 None any_string), (''from_block_id'', schema_id), (''to_block_id'', schema_id)]"

definition schema_warning :: schema where
  "schema_warning j \<longleftrightarrow> s_object [''code'', ''message'']
     [(''code'', s_string 1 None any_string), (''message'', s_string 1 None any_string), (''stage'', s_string 1 None any_string),
      (''page_id'', schema_id), (''block_id'', schema_id), (''occurrence_count'', s_integer 1),
      (''page_ids'', s_array (\<lambda>js. js \<noteq> [] \<and> distinct js) schema_id), (''details'', is_object)] j \<and>
     \<not> (json_get j ''page_id'' \<noteq> None \<and> json_get j ''page_ids'' \<noteq> None) \<and>
     (json_get j ''page_ids'' \<noteq> None \<longrightarrow> json_get j ''occurrence_count'' \<noteq> None)"

definition schema_document :: schema where
  "schema_document j \<longleftrightarrow> s_object [''$schema'', ''schema_version'', ''document_id'', ''status'', ''source'', ''producer'',
       ''coordinate_space'', ''pages'', ''blocks'', ''warnings'']
     [(''$schema'', s_const (JString ''https://github.com/ChNanAn/technical-doc-parser/schemas/document.v1.schema.json'')),
      (''schema_version'', s_const (JInt 1)), (''document_id'', schema_id),
      (''status'', \<lambda>v. v = JString ''complete'' \<or> v = JString ''partial''), (''source'', schema_source),
      (''producer'', schema_producer), (''coordinate_space'', schema_coordinate_space),
      (''pages'', s_array (\<lambda>_. True) schema_page), (''blocks'', s_array (\<lambda>_. True) schema_block),
      (''relations'', s_array (\<lambda>_. True) schema_relation), (''warnings'', s_array (\<lambda>_. True) schema_warning)] j \<and>
     (json_get j ''status'' = Some (JString ''partial'') \<longrightarrow>
        (case json_get j ''warnings'' of Some (JArray ws) \<Rightarrow> ws \<noteq> [] | _ \<Rightarrow> True))"

subsection \<open>What the exporter leaves to its callers\<close>

text \<open>The lengths, media types and table indices the exporter writes as they are.\<close>

definition id_fits :: "string \<Rightarrow> bool" where
  "id_fits s \<longleftrightarrow> length s \<le> 256"

definition cell_fits :: "table_cell \<Rightarrow> bool" where
  "cell_fits c \<longleftrightarrow> 0 \<le> cell_row_index c \<and> 0 \<le> cell_column_index c \<and> 1 \<le> cell_row_span c \<and> 1 \<le> cell_column_span c"

definition row_fits :: "table_row \<Rightarrow> bool" where
  "row_fits r \<longleftrightarrow> 0 \<le> row_index r \<and> list_all cell_fits (row_cells r)"

definition block_fits :: "document_block \<Rightarrow> bool" where
  "block_fits b \<longleftrightarrow> id_fits (db_id b) \<and> id_fits (db_table_id b) \<and> id_fits (db_table_continuation_group_id b) \<and>
     list_all row_fits (db_table_rows b)"

definition page_fits :: "document_page \<Rightarrow> bool" where
  "page_fits p \<longleftrightarrow> length (dp_id p) \<le> 250 \<and> id_fits (dp_image_id p) \<and>
     (CHR ''/'' \<in> set (dp_image_media_type p) \<longrightarrow> 3 \<le> length (dp_image_media_type p))"

definition source_fits :: "document_source \<Rightarrow> bool" where
  "source_fits s \<longleftrightarrow>
     length (basename (if src_filename s = [] then src_path s else src_filename s)) \<le> 1024 \<and>
     media_type_pattern (if CHR ''/'' \<notin> set (src_media_type s) then mediaTypeFromSourceType (src_type s) else src_media_type s)"

definition document_fits :: "parsed_document \<Rightarrow> bool" where
  "document_fits doc \<longleftrightarrow> id_fits (documentId doc) \<and> id_fits (prod_run_id (pd_producer doc)) \<and> source_fits (pd_source doc) \<and>
     list_all page_fits (pd_pages doc) \<and> list_all block_fits (pd_blocks doc) \<and>
     list_all (\<lambda>r. id_fits (rel_id r)) (pd_relations doc) \<and> list_all (\<lambda>w. length (dw_page_ids w) \<noteq> 1) (pd_warnings doc)"


subsection \<open>What the exporter writes keeps the contract\<close>

lemma json_get_object [simp]: "json_get (JObject es) k = map_of es k"
  by (simp add: json_get_def)

lemma map_of_filter_other: "k \<noteq> k' \<Longrightarrow> map_of (filter (\<lambda>(j, _). j \<noteq> k') es) k = map_of es k"
  by (induction es) auto

lemma is_object_simps [simp]:
  "is_object (JObject es)" "is_object (json_set k v j) = is_object j" "is_object (set_if c k v j) = is_object j"
  by (auto simp: is_object_def json_set_def set_if_def split: json.split)

lemma json_get_set [simp]: "is_object j \<Longrightarrow> json_get (json_set k v j) k' = (if k' = k then Some v else json_get j k')"
  by (cases j) (simp_all add: is_object_def json_set_def json_get_def map_of_filter_other)

lemma json_get_set_if [simp]:
  "is_object j \<Longrightarrow> json_get (set_if c k v j) k' = (if c \<and> k' = k then Some v else json_get j k')"
  by (simp add: set_if_def)

lemma schema_simps [simp]:
  "s_string least most pattern (JString s) \<longleftrightarrow>
     least \<le> length s \<and> (case most of None \<Rightarrow> True | Some m \<Rightarrow> length s \<le> m) \<and> pattern s"
  "s_const v v" "s_integer n (JInt i) \<longleftrightarrow> n \<le> i" "s_boolean (JBool b)" "s_number R (JNumber x) \<longleftrightarrow> isfinite x \<and> R x"
  "s_array P item (JArray js) \<longleftrightarrow> P js \<and> list_all item js"
  by (simp_all add: s_string_def s_const_def s_integer_def s_boolean_def s_number_def s_array_def)

lemma any_string_holds [simp]: "any_string s"
  by (simp add: any_string_def)

lemma schema_id_string [simp]: "schema_id (JString s) \<longleftrightarrow> s \<noteq> [] \<and> id_fits s"
  by (cases s) (auto simp: schema_id_def id_fits_def)

lemma schema_bbox_json: "hasPositiveArea b \<Longrightarrow> schema_bbox (bboxToJson b)"
  by (simp add: schema_bbox_def bboxToJson_def hasPositiveArea_def)

lemma bbox_fits_schema: "bboxFitsPage b page_id pages \<Longrightarrow> schema_bbox (bboxToJson b)"
  by (auto simp: bboxFitsPage_def schema_bbox_json split: option.splits)

lemma schema_score_json: "isScore v \<Longrightarrow> schema_score (scoreToJson v ''model_score'')"
  by (simp add: schema_score_def s_object_def scoreToJson_def isScore_def)

lemma text_source_nonempty [simp]: "textSourceToString src \<noteq> []" "documentBlockTypeToString ty \<noteq> []"
  by (cases src; simp) (cases ty; simp)

lemma nonempty_length [simp]: "Suc 0 \<le> length s \<longleftrightarrow> s \<noteq> []"
  by (cases s) simp_all

lemma schema_source_ref_json:
  "ref_page_id r \<noteq> [] \<Longrightarrow> id_fits (ref_page_id r) \<Longrightarrow> schema_source_ref (sourceRefToJson pages r)"
  by (simp add: schema_source_ref_def s_object_def sourceRefToJson_def bbox_fits_schema)

definition lookup_fits :: "page_lookup \<Rightarrow> bool" where
  "lookup_fits pages \<longleftrightarrow> (\<forall>i\<in>set (pk_ids pages). i \<noteq> [] \<and> id_fits i) \<and> ran (pk_ids_by_number pages) \<subseteq> set (pk_ids pages)"

lemma schema_source_refs_json: "lookup_fits pages \<Longrightarrow> list_all schema_source_ref (sourceRefsToJson refs pages)"
  by (auto simp: sourceRefsToJson_def list_all_iff lookup_fits_def intro!: schema_source_ref_json)

lemma schema_cell_json: "lookup_fits pages \<Longrightarrow> cell_fits c \<Longrightarrow> schema_cell (cellToJson page_id pages c)"
  by (simp add: schema_cell_def s_object_def cellToJson_def Let_def cell_fits_def bbox_fits_schema schema_score_json
      schema_source_refs_json)

lemma schema_row_json: "lookup_fits pages \<Longrightarrow> row_fits r \<Longrightarrow> schema_row (rowToJson page_id pages r)"
  by (simp add: schema_row_def s_object_def rowToJson_def row_fits_def bbox_fits_schema list_all_iff schema_cell_json)

lemma schema_table_json:
  "lookup_fits pages \<Longrightarrow> block_fits b \<Longrightarrow> schema_table (blockTableToJson b page_id pages)"
  by (simp add: schema_table_def s_object_def blockTableToJson_def block_fits_def tableRowsToJson_def list_all_iff schema_row_json)

lemma resolvedPageId_fits: "lookup_fits pages \<Longrightarrow> resolvedPageId p n pages \<noteq> [] \<Longrightarrow> id_fits (resolvedPageId p n pages)"
  by (auto simp: lookup_fits_def resolvedPageId_def ran_def split: option.splits if_splits)

lemma schema_block_json:
  assumes "lookup_fits pages" "block_fits b" "db_id b \<noteq> []"
  shows "schema_block (blockToJson pages b)"
  using assms schema_table_json[OF assms(1,2)] resolvedPageId_fits[OF assms(1)]
  by (simp add: schema_block_def s_object_def blockToJson_def Let_def block_fits_def bbox_fits_schema schema_score_json
      schema_source_refs_json)

lemma schema_page_json: "page_ok p \<Longrightarrow> page_fits p \<Longrightarrow> schema_page (pageToJson p)"
  by (simp add: schema_page_def s_object_def pageToJson_def page_ok_def page_fits_def id_fits_def schema_artifact_def)

lemma schema_relation_json:
  "relation_ok blocks r \<Longrightarrow> (\<forall>i\<in>blocks. i \<noteq> [] \<and> id_fits i) \<Longrightarrow> id_fits (rel_id r) \<Longrightarrow> schema_relation (relationToJson r)"
  by (simp add: schema_relation_def s_object_def relationToJson_def relation_ok_def)

lemma schema_warning_json:
  assumes "warning_ok pages blocks w" "\<forall>i\<in>pages. i \<noteq> [] \<and> id_fits i" "\<forall>i\<in>blocks. id_fits i" "length (dw_page_ids w) \<noteq> 1"
  shows "schema_warning (warningToJson w)"
proof -
  have "1 < dw_occurrence_count w" if "dw_page_ids w \<noteq> []"
  proof -
    have "length (dw_page_ids w) \<noteq> 0" using that by simp
    then have "1 < length (dw_page_ids w)" using assms(4) by linarith
    also have "length (dw_page_ids w) \<le> unat (dw_occurrence_count w)" using assms(1) by (simp add: warning_ok_def)
    finally show ?thesis by (simp add: word_less_nat_alt)
  qed
  moreover have "1 \<le> uint (dw_occurrence_count w)" if "1 < dw_occurrence_count w"
    using that by (simp add: word_less_alt)
  ultimately show ?thesis
    using assms by (auto simp: schema_warning_def s_object_def warningToJson_def warning_ok_def list_all_iff
        distinct_map inj_on_def)
qed


lemma media_type_length: "media_type_pattern s \<Longrightarrow> 3 \<le> length s"
proof -
  assume m: "media_type_pattern s"
  let ?kind = "takeWhile (\<lambda>c. c \<noteq> CHR ''/'') s"
  have "?kind \<noteq> []" "drop (length ?kind + 1) s \<noteq> []"
    using m by (auto simp: media_type_pattern_def Let_def)
  then have "0 < length ?kind" "length ?kind + 1 < length s" by simp_all
  then show ?thesis by linarith
qed

lemma basename_clean: "CHR ''/'' \<notin> set (basename s)" "CHR 0x5C \<notin> set (basename s)"
  by (auto simp: basename_def dest: set_takeWhileD)

lemma schema_source_json:
  assumes "source_fits source" "src_sha256 source \<noteq> [] \<Longrightarrow> valid_sha256 (src_sha256 source)"
  shows "schema_source (sourceToJson source)"
  using assms media_type_length basename_clean
  by (simp add: schema_source_def s_object_def sourceToJson_def Let_def source_fits_def valid_sha256_def)

lemma schema_producer_json: "id_fits (prod_run_id p) \<Longrightarrow> schema_producer (producerToJson p)"
  by (simp add: schema_producer_def s_object_def producerToJson_def)

lemma schema_coordinate_json: "schema_coordinate_space (coordinateSpaceToJson dpi)"
  by (simp add: schema_coordinate_space_def s_object_def coordinateSpaceToJson_def)

text \<open>The debug extension of a page.\<close>

lemma schema_page_extended: "schema_page page \<Longrightarrow> schema_page (extend_page by_number page n)"
proof (cases "by_number n")
  case (Some artifact)
  assume page: "schema_page page"
  then have obj: "is_object page" by (simp add: schema_page_def s_object_def)
  let ?e = "case json_get page ''extensions'' of None \<Rightarrow> JObject [] | Some e \<Rightarrow> e"
  have "is_object ?e" using page by (auto simp: schema_page_def s_object_def split: option.splits)
  then show ?thesis using page obj Some by (simp add: extend_page_def schema_page_def s_object_def)
qed (simp add: extend_page_def)

lemma schema_pages_extended:
  "extend_pages lib by_number pages = Inr pages' \<Longrightarrow> list_all schema_page pages \<Longrightarrow> list_all schema_page pages'"
  by (induction lib by_number pages arbitrary: pages' rule: extend_pages.induct)
    (auto simp: schema_page_extended split: option.splits sum.splits)

text \<open>The tables of pages.\<close>

lemma pageLookup_ids:
  "set (pk_ids (foldl f l pages)) = dp_id ` set pages \<union> set (pk_ids l)"
  if "\<And>l p. set (pk_ids (f l p)) = insert (dp_id p) (set (pk_ids l))" for f :: "page_lookup \<Rightarrow> document_page \<Rightarrow> page_lookup"
  using that by (induction pages arbitrary: l) auto

lemma set_pageLookup [simp]: "set (pk_ids (pageLookup pages)) = dp_id ` set pages"
  unfolding pageLookup_def by (subst pageLookup_ids) auto

lemma pageLookup_numbers: "ran (pk_ids_by_number (pageLookup pages)) \<subseteq> dp_id ` set pages"
proof -
  have "ran (pk_ids_by_number (pageLookup pages)) \<subseteq> set (pk_ids (pageLookup pages))"
    unfolding pageLookup_def
    by (rule foldl_invariant[where P = "\<lambda>l. ran (pk_ids_by_number l) \<subseteq> set (pk_ids l)"])
      (auto simp: ran_def emplace_def split: option.splits if_splits)
  then show ?thesis by simp
qed

lemma pageLookup_fits: "list_all page_ok pages \<Longrightarrow> list_all page_fits pages \<Longrightarrow> lookup_fits (pageLookup pages)"
  using pageLookup_numbers[of pages] by (auto simp: lookup_fits_def list_all_iff page_ok_def page_fits_def id_fits_def)

lemma schema_manifest:
  assumes "core_model_ok doc" "document_fits doc" "list_all schema_page pages"
  shows "schema_document (manifestToJson doc pages)"
proof -
  have lookup: "lookup_fits (pageLookup (pd_pages doc))"
    using assms(1,2) by (intro pageLookup_fits) (simp_all add: core_model_ok_def document_fits_def)
  have "db_id b \<noteq> []" if "b \<in> set (pd_blocks doc)" for b
    using assms(1) that by (force simp: core_model_ok_def)
  then have block_ids: "\<forall>i\<in>db_id ` set (pd_blocks doc). i \<noteq> [] \<and> id_fits i"
    using assms(2) by (auto simp: document_fits_def list_all_iff block_fits_def)
  have page_ids: "\<forall>i\<in>dp_id ` set (pd_pages doc). i \<noteq> [] \<and> id_fits i"
    using assms(1,2) by (auto simp: core_model_ok_def document_fits_def list_all_iff page_ok_def page_fits_def id_fits_def)
  have blocks: "list_all schema_block (map (blockToJson (pageLookup (pd_pages doc))) (pd_blocks doc))"
    using assms(1,2) block_ids lookup by (auto simp: document_fits_def list_all_iff intro!: schema_block_json)
  have relations: "list_all schema_relation (map relationToJson (pd_relations doc))"
    using assms(1,2) block_ids
    by (auto simp: core_model_ok_def document_fits_def list_all_iff intro!: schema_relation_json)
  have warnings: "list_all schema_warning (map warningToJson (pd_warnings doc))"
    using assms(1,2) block_ids page_ids
    by (auto simp: core_model_ok_def document_fits_def list_all_iff intro!: schema_warning_json)
  have doc_id: "documentId doc \<noteq> []" by (simp add: documentId_def Let_def)
  have source: "schema_source (sourceToJson (pd_source doc))"
    using assms(1,2) by (intro schema_source_json) (simp_all add: core_model_ok_def document_fits_def)
  show ?thesis
    using assms doc_id source blocks relations warnings schema_producer_json schema_coordinate_json
    by (simp add: schema_document_def s_object_def manifestToJson_def documentBlocksToJson_def relationsToJson_def
        warningsToJson_def documentStatusToString_def kDocumentSchema_def core_model_ok_def document_fits_def)
qed

lemma manifest_pages:
  assumes "manifest_of lib debug artifacts doc = Inr manifest"
  obtains pages where "manifest = manifestToJson doc pages"
    "list_all schema_page (pagesToJson (pd_pages doc)) \<Longrightarrow> list_all schema_page pages"
  using assms schema_pages_extended
  by (auto simp: manifest_of_def Let_def addDebugExtensions_def split: option.splits if_splits sum.splits)

text \<open>
  C7: Whatever text the exporter returns is a document's JSON that keeps the published contract,
  \<open>document.v1.schema.json\<close>: the required fields are there, every field has its type and range,
  a box comes with its page, a partial document has a warning and a warning that lists pages
  counts its occurrences. (What the caller has to see to is \<open>document_fits\<close>: the lengths of
  identifiers, the media type, and the table indices, all of which are written as they are.)
\<close>

theorem serialize_keeps_schema:
  assumes "document_fits doc"
    and "serialize lib \<lparr>sq_debug = debug, sq_document = Some doc, sq_artifacts = artifacts\<rparr> = Inr content"
  shows "\<exists>manifest. jl_dump lib manifest = Inr content \<and> schema_document manifest"
proof -
  from assms(2) obtain manifest where m: "manifest_of lib debug artifacts doc = Inr manifest"
      "jl_dump lib manifest = Inr content" and ok: "core_model_ok doc"
    by (auto simp: serialize_def Let_def validate_iff split: if_splits sum.splits)
  have "list_all schema_page (pagesToJson (pd_pages doc))"
    using ok assms(1) by (auto simp: pagesToJson_def list_all_iff core_model_ok_def document_fits_def intro!: schema_page_json)
  with m(1) have "schema_document manifest"
    by (elim manifest_pages) (simp add: schema_manifest[OF ok assms(1)])
  with m(2) show ?thesis by blast
qed


definition sample_exported :: parsed_document where
  "sample_exported =
     \<lparr>pd_source = \<lparr>src_path = ''a.pdf'', src_type = ''pdf'', src_filename = [], src_media_type = [],
        src_size_bytes = Some 3, src_sha256 = []\<rparr>,
      pd_dpi = 200,
      pd_blocks = [\<lparr>db_id = ''block_1'', db_type = BTable, db_source_label = [], db_related_block_id = [], db_page_index = 0,
        db_page_number = 1, db_bbox = \<lparr>bx0 = 1, by0 = 1, bx1 = 5, by1 = 9\<rparr>, db_confidence = 1, db_text = ''x'',
        db_text_line_indices = [], db_table_id = ''t'', db_table_continuation_group_id = [],
        db_table_continues_from_previous_page = False, db_table_continues_on_next_page = False,
        db_table_rows = [default_row\<lparr>row_cells := [default_cell]\<rparr>], db_page_id = ''page_1'',
        db_source_refs = [\<lparr>ref_page_id = ''page_1'', ref_bbox = empty_bbox, ref_text = ''x'', ref_source = SourceOcr\<rparr>]\<rparr>],
      pd_document_id = [], pd_status = Partial,
      pd_producer = \<lparr>prod_name = [], prod_version = [], prod_git_revision = [], prod_run_id = ''r''\<rparr>,
      pd_pages = [\<lparr>dp_id = ''page_1'', dp_number = 1, dp_width = 10, dp_height = 20, dp_image_id = [],
        dp_image_uri = ''pages/1.png'', dp_image_media_type = ''image/png''\<rparr>],
      pd_relations = [],
      pd_warnings = [\<lparr>dw_code = ''c'', dw_message = ''m'', dw_stage = ''table'', dw_page_id = ''page_1'', dw_block_id = [],
        dw_details = [], dw_occurrence_count = 1, dw_page_ids = []\<rparr>]\<rparr>"

definition sample_library :: json_library where
  "sample_library = \<lparr>jl_dump = (\<lambda>j. if is_object j then Inr ''{}'' else Inl ''type error''), jl_missing_key = (\<lambda>k. k)\<rparr>"

lemma sample_exported_ok: "core_model_ok sample_exported" "document_fits sample_exported"
  by (simp_all add: core_model_ok_def sample_exported_def page_ok_def warning_ok_def isfinite_small document_fits_def
      documentId_def id_fits_def source_fits_def basename_def media_type_pattern_def mediaTypeFromSourceType_def isspace_def
      page_fits_def block_fits_def row_fits_def cell_fits_def default_row_def default_cell_def Let_def)

theorem serialize_keeps_schema_witness:
  "\<exists>manifest. jl_dump sample_library manifest = Inr ''{}'' \<and> schema_document manifest"
proof (rule serialize_keeps_schema[where debug = False and artifacts = None])
  show "document_fits sample_exported" by (rule sample_exported_ok)
  show "serialize sample_library \<lparr>sq_debug = False, sq_document = Some sample_exported, sq_artifacts = None\<rparr> = Inr ''{}''"
    using sample_exported_ok(1)
    by (simp add: serialize_def Let_def validate_iff manifest_of_def manifestToJson_def sample_library_def)
qed

subsection \<open>References\<close>

text \<open>The strings and the arrays a value holds.\<close>

definition string_at :: "json \<Rightarrow> string \<Rightarrow> string set" where
  "string_at j k = (case json_get j k of Some (JString s) \<Rightarrow> {s} | _ \<Rightarrow> {})"

definition items_at :: "json \<Rightarrow> string \<Rightarrow> json list" where
  "items_at j k = (case json_get j k of Some (JArray js) \<Rightarrow> js | _ \<Rightarrow> [])"

definition strings_at :: "json \<Rightarrow> string \<Rightarrow> string set" where
  "strings_at j k = {s. JString s \<in> set (items_at j k)}"

definition refs_known :: "string set \<Rightarrow> json \<Rightarrow> bool" where
  "refs_known pages j \<longleftrightarrow> list_all (\<lambda>r. string_at r ''page_id'' \<subseteq> pages) (items_at j ''source_refs'')"

definition table_refs_known :: "string set \<Rightarrow> json \<Rightarrow> bool" where
  "table_refs_known pages j \<longleftrightarrow>
     (case json_get j ''table'' of None \<Rightarrow> True
      | Some t \<Rightarrow> list_all (\<lambda>row. list_all (refs_known pages) (items_at row ''cells'')) (items_at t ''rows''))"

definition references_resolve :: "json \<Rightarrow> bool" where
  "references_resolve j \<longleftrightarrow>
     (let pages = \<Union> ((\<lambda>p. string_at p ''id'') ` set (items_at j ''pages''));
          blocks = \<Union> ((\<lambda>b. string_at b ''id'') ` set (items_at j ''blocks'')) in
      distinct (map (\<lambda>p. string_at p ''id'') (items_at j ''pages'')) \<and>
      distinct (map (\<lambda>b. string_at b ''id'') (items_at j ''blocks'')) \<and>
      list_all (\<lambda>b. string_at b ''page_id'' \<subseteq> pages \<and> refs_known pages b \<and> table_refs_known pages b) (items_at j ''blocks'') \<and>
      list_all (\<lambda>r. string_at r ''from_block_id'' \<subseteq> blocks \<and> string_at r ''to_block_id'' \<subseteq> blocks \<and>
        string_at r ''from_block_id'' \<noteq> string_at r ''to_block_id'') (items_at j ''relations'') \<and>
      list_all (\<lambda>w. string_at w ''page_id'' \<subseteq> pages \<and> strings_at w ''page_ids'' \<subseteq> pages \<and> string_at w ''block_id'' \<subseteq> blocks)
        (items_at j ''warnings''))"

lemma refs_known_json: "list_all (\<lambda>r. string_at r ''page_id'' \<subseteq> dp_id ` set pages) (sourceRefsToJson refs (pageLookup pages))"
  by (auto simp: sourceRefsToJson_def list_all_iff sourceRefToJson_def string_at_def)

lemma cell_refs_known: "refs_known (dp_id ` set pages) (cellToJson page_id (pageLookup pages) c)"
  using refs_known_json[of pages "cell_source_refs c"]
  by (simp add: refs_known_def items_at_def cellToJson_def Let_def)

lemma block_refs_known:
  "string_at (blockToJson (pageLookup pages) b) ''page_id'' \<subseteq> dp_id ` set pages \<and>
   refs_known (dp_id ` set pages) (blockToJson (pageLookup pages) b) \<and>
   table_refs_known (dp_id ` set pages) (blockToJson (pageLookup pages) b)"
proof (intro conjI)
  have "resolvedPageId p n (pageLookup pages) \<noteq> [] \<Longrightarrow> resolvedPageId p n (pageLookup pages) \<in> dp_id ` set pages" for p n
    using pageLookup_numbers[of pages] by (auto simp: resolvedPageId_def ran_def split: option.splits if_splits)
  then show "string_at (blockToJson (pageLookup pages) b) ''page_id'' \<subseteq> dp_id ` set pages"
    by (simp add: string_at_def blockToJson_def Let_def)
  show "refs_known (dp_id ` set pages) (blockToJson (pageLookup pages) b)"
    using refs_known_json[of pages "db_source_refs b"] by (simp add: refs_known_def items_at_def blockToJson_def Let_def)
  show "table_refs_known (dp_id ` set pages) (blockToJson (pageLookup pages) b)"
    by (simp add: table_refs_known_def blockToJson_def Let_def blockTableToJson_def items_at_def tableRowsToJson_def
        list_all_iff rowToJson_def) (auto simp: cell_refs_known)
qed


lemma page_id_json: "string_at (pageToJson p) ''id'' = {dp_id p}" "is_object (pageToJson p)"
  by (simp_all add: string_at_def pageToJson_def)

lemma extended_page_id: "is_object page \<Longrightarrow> string_at (extend_page by_number page n) ''id'' = string_at page ''id''"
  by (simp add: string_at_def extend_page_def Let_def split: option.split)

lemma extended_pages_ids:
  "extend_pages lib by_number pages = Inr pages' \<Longrightarrow> list_all is_object pages \<Longrightarrow>
   map (\<lambda>p. string_at p ''id'') pages' = map (\<lambda>p. string_at p ''id'') pages"
  by (induction lib by_number pages arbitrary: pages' rule: extend_pages.induct)
    (auto simp: extended_page_id split: option.splits sum.splits)

lemma manifest_page_ids:
  assumes "manifest_of lib debug artifacts doc = Inr manifest"
  obtains pages where "manifest = manifestToJson doc pages"
    "map (\<lambda>p. string_at p ''id'') pages = map (\<lambda>p. {dp_id p}) (pd_pages doc)"
proof -
  have plain: "list_all is_object (pagesToJson (pd_pages doc))"
      "map (\<lambda>p. string_at p ''id'') (pagesToJson (pd_pages doc)) = map (\<lambda>p. {dp_id p}) (pd_pages doc)"
    by (simp_all add: pagesToJson_def list_all_iff page_id_json)
  with that show ?thesis
    using assms extended_pages_ids[OF _ plain(1)]
    by (auto simp: manifest_of_def Let_def addDebugExtensions_def split: option.splits if_splits sum.splits)
qed

lemma references_manifest:
  assumes ok: "core_model_ok doc" and ids: "map (\<lambda>p. string_at p ''id'') pages = map (\<lambda>p. {dp_id p}) (pd_pages doc)"
  shows "references_resolve (manifestToJson doc pages)"
proof -
  let ?m = "manifestToJson doc pages" and ?lookup = "pageLookup (pd_pages doc)"
  have items: "items_at ?m ''pages'' = pages" "items_at ?m ''blocks'' = map (blockToJson ?lookup) (pd_blocks doc)"
      "items_at ?m ''relations'' = map relationToJson (pd_relations doc)"
      "items_at ?m ''warnings'' = map warningToJson (pd_warnings doc)"
    by (simp_all add: items_at_def manifestToJson_def documentBlocksToJson_def relationsToJson_def warningsToJson_def)
  have block_id: "string_at (blockToJson ?lookup b) ''id'' = {db_id b}" for b
    by (simp add: string_at_def blockToJson_def Let_def)
  have "(\<lambda>p. string_at p ''id'') ` set pages = (\<lambda>p. {dp_id p}) ` set (pd_pages doc)"
    using arg_cong[OF ids, of set] by simp
  then have page_ids: "\<Union> ((\<lambda>p. string_at p ''id'') ` set pages) = dp_id ` set (pd_pages doc)" by auto
  have block_ids: "\<Union> ((\<lambda>b. string_at b ''id'') ` set (map (blockToJson ?lookup) (pd_blocks doc))) = db_id ` set (pd_blocks doc)"
    by (auto simp: block_id)
  have union: "(\<Union>b\<in>set (pd_blocks doc). {db_id b}) = db_id ` set (pd_blocks doc)" by auto
  have singletons: "distinct (map (\<lambda>x. {f x}) xs) \<longleftrightarrow> distinct (map f xs)" for f :: "'a \<Rightarrow> string" and xs
    by (auto simp: distinct_map inj_on_def)
  have relation: "string_at (relationToJson r) ''from_block_id'' = {rel_from_block_id r}"
      "string_at (relationToJson r) ''to_block_id'' = {rel_to_block_id r}" for r
    by (simp_all add: string_at_def relationToJson_def)
  have warning: "string_at (warningToJson w) ''page_id'' \<subseteq> {dw_page_id w} - {[]}"
      "string_at (warningToJson w) ''block_id'' \<subseteq> {dw_block_id w} - {[]}"
      "strings_at (warningToJson w) ''page_ids'' \<subseteq> set (dw_page_ids w)" for w
    by (auto simp: string_at_def strings_at_def items_at_def warningToJson_def split: if_splits)
  have warnings: "string_at (warningToJson w) ''page_id'' \<subseteq> dp_id ` set (pd_pages doc) \<and>
      strings_at (warningToJson w) ''page_ids'' \<subseteq> dp_id ` set (pd_pages doc) \<and>
      string_at (warningToJson w) ''block_id'' \<subseteq> db_id ` set (pd_blocks doc)" if "w \<in> set (pd_warnings doc)" for w
  proof -
    have w: "warning_ok (dp_id ` set (pd_pages doc)) (db_id ` set (pd_blocks doc)) w"
      using ok that by (simp add: core_model_ok_def list_all_iff)
    then have "{dw_page_id w} - {[]} \<subseteq> dp_id ` set (pd_pages doc)" "set (dw_page_ids w) \<subseteq> dp_id ` set (pd_pages doc)"
        "{dw_block_id w} - {[]} \<subseteq> db_id ` set (pd_blocks doc)"
      by (auto simp: warning_ok_def)
    with warning[of w] show ?thesis by (meson subset_trans)
  qed
  have "list_all (\<lambda>r. string_at r ''from_block_id'' \<subseteq> db_id ` set (pd_blocks doc) \<and>
      string_at r ''to_block_id'' \<subseteq> db_id ` set (pd_blocks doc) \<and>
      string_at r ''from_block_id'' \<noteq> string_at r ''to_block_id'') (map relationToJson (pd_relations doc))"
    using ok by (auto simp: core_model_ok_def list_all_iff relation_ok_def relation)
  then show ?thesis
    using ok ids warnings block_refs_known[of "pd_pages doc"]
    by (simp add: references_resolve_def Let_def items page_ids block_ids union singletons comp_def block_id core_model_ok_def list_all_iff)
qed

text \<open>
  In the JSON of every document the exporter returns, with the debug extensions or without,
  page and block ids are unique and every reference resolves: the page of each block, of each source
  of a block or of a table cell, both ends of a relation (which are never the same block), and the
  pages and the block of a warning.
\<close>

lemma serialize_references_resolve:
  assumes "serialize lib \<lparr>sq_debug = debug, sq_document = Some doc, sq_artifacts = artifacts\<rparr> = Inr content"
  shows "\<exists>manifest. jl_dump lib manifest = Inr content \<and> references_resolve manifest"
proof -
  from assms obtain manifest where m: "manifest_of lib debug artifacts doc = Inr manifest"
      "jl_dump lib manifest = Inr content" and ok: "core_model_ok doc"
    by (auto simp: serialize_def Let_def validate_iff split: if_splits sum.splits)
  from m(1) have "references_resolve manifest"
    by (elim manifest_page_ids) (simp add: references_manifest[OF ok])
  with m(2) show ?thesis by blast
qed

lemma serialize_references_resolve_witness:
  "\<exists>manifest. jl_dump sample_library manifest = Inr ''{}'' \<and> references_resolve manifest"
proof (rule serialize_references_resolve[where debug = False and artifacts = None])
  show "serialize sample_library \<lparr>sq_debug = False, sq_document = Some sample_exported, sq_artifacts = None\<rparr> = Inr ''{}''"
    using sample_exported_ok(1)
    by (simp add: serialize_def Let_def validate_iff manifest_of_def manifestToJson_def sample_library_def)
qed

end
