(* ===== verification/Structured_Text.thy ===== *)
theory Structured_Text
  imports Common Output_File
begin

text \<open>
  \<open>cpp/export/structured_text_document_exporter.cpp\<close>: the document as Markdown and as HTML. The
  text is what the exporter streams, and \<open>Output_File\<close> what happens to the file.
\<close>

subsection \<open>Escaping\<close>

definition html_char :: "char \<Rightarrow> string" where
  "html_char c =
     (if c = CHR ''&'' then ''&amp;''
      else if c = CHR ''<'' then ''&lt;''
      else if c = CHR ''>'' then ''&gt;''
      else if c = CHR 0x22 then ''&quot;''
      else [c])"

definition htmlEscape :: "string \<Rightarrow> string" where
  "htmlEscape s = concat (map html_char s)"

definition markdown_char :: "char \<Rightarrow> string" where
  "markdown_char c =
     (if c = CHR ''|'' then [CHR 0x5C, CHR ''|'']
      else if c = CHR 0x0A \<or> c = CHR 0x0D then ''<br>''
      else [c])"

definition markdownEscape :: "string \<Rightarrow> string" where
  "markdownEscape s = concat (map markdown_char s)"

subsection \<open>Logical tables\<close>

definition isTableBlock :: "document_block \<Rightarrow> bool" where
  "isTableBlock b \<longleftrightarrow> db_type b = BTable \<and> db_table_id b \<noteq> []"

definition sameLogicalTable :: "document_block \<Rightarrow> document_block \<Rightarrow> bool" where
  "sameLogicalTable a b \<longleftrightarrow> db_table_continuation_group_id a \<noteq> [] \<and>
     db_table_continuation_group_id a = db_table_continuation_group_id b"

definition renumber_row :: "int \<Rightarrow> table_row \<Rightarrow> table_row" where
  "renumber_row i r = r\<lparr>row_index := i, row_cells := map (\<lambda>c. c\<lparr>cell_row_index := i\<rparr>) (row_cells r)\<rparr>"

definition append_row :: "table_row list \<Rightarrow> table_row \<Rightarrow> table_row list" where
  "append_row rows r = rows @ [renumber_row (int (length rows)) r]"

text \<open>The rows a block adds: a continued table repeats the header, which is left out.\<close>

definition continued_rows :: "table_row list \<Rightarrow> document_block \<Rightarrow> table_row list" where
  "continued_rows rows b =
     (if rows \<noteq> [] \<and> db_table_continues_from_previous_page b then dropWhile row_is_header (db_table_rows b)
      else db_table_rows b)"

definition append_block :: "table_row list \<Rightarrow> document_block \<Rightarrow> table_row list" where
  "append_block rows b = foldl append_row rows (continued_rows rows b)"

definition logical_blocks :: "document_block list \<Rightarrow> nat \<Rightarrow> nat list" where
  "logical_blocks blocks first =
     filter (\<lambda>i. i = first \<or> sameLogicalTable (blocks ! first) (blocks ! i)) [first..<length blocks]"

definition logicalRows :: "document_block list \<Rightarrow> nat \<Rightarrow> table_row list" where
  "logicalRows blocks first = foldl append_block [] (map (\<lambda>i. blocks ! i) (logical_blocks blocks first))"

definition hasMergedCells :: "table_row list \<Rightarrow> bool" where
  "hasMergedCells rows \<longleftrightarrow> list_ex (\<lambda>r. list_ex (\<lambda>c. cell_row_span c > 1 \<or> cell_column_span c > 1) (row_cells r)) rows"

definition columnCount :: "table_row list \<Rightarrow> int" where
  "columnCount rows = foldl (\<lambda>count r. foldl (\<lambda>count c. max count (cell_column_index c + max 1 (cell_column_span c)))
     count (row_cells r)) 0 rows"

definition isContinuationAlreadyWritten :: "document_block list \<Rightarrow> nat \<Rightarrow> bool" where
  "isContinuationAlreadyWritten blocks index \<longleftrightarrow>
     db_table_continuation_group_id (blocks ! index) \<noteq> [] \<and>
     list_ex (\<lambda>previous. sameLogicalTable (blocks ! index) (blocks ! previous)) [0..<index]"

subsection \<open>HTML\<close>

definition line_end :: string where
  "line_end = [CHR 0x0A]"

definition span_attribute :: "string \<Rightarrow> int \<Rightarrow> string" where
  "span_attribute name n = (if n > 1 then '' '' @ name @ ''='' @ [CHR 0x22] @ int_to_string n @ [CHR 0x22] else [])"

definition htmlCell :: "bool \<Rightarrow> table_cell \<Rightarrow> string" where
  "htmlCell row_header c =
     (let tag = (if row_header \<or> cell_is_header c then ''th'' else ''td'') in
      ''      <'' @ tag @ span_attribute ''rowspan'' (cell_row_span c) @ span_attribute ''colspan'' (cell_column_span c) @
      ''>'' @ htmlEscape (cell_text c) @ ''</'' @ tag @ ''>'' @ line_end)"

definition htmlRow :: "table_row \<Rightarrow> string" where
  "htmlRow r = ''    <tr>'' @ line_end @ concat (map (htmlCell (row_is_header r)) (row_cells r)) @ ''    </tr>'' @ line_end"

text \<open>The loop's state: whether the head and the body are open, and the text so far.\<close>

record html_state =
  hs_header_open :: bool
  hs_body_open :: bool
  hs_output :: string

definition html_step :: "html_state \<Rightarrow> table_row \<Rightarrow> html_state" where
  "html_step s r =
     (let s = (if row_is_header r \<and> \<not> hs_body_open s \<and> \<not> hs_header_open s
               then s\<lparr>hs_output := hs_output s @ ''  <thead>'' @ line_end, hs_header_open := True\<rparr>
               else if \<not> row_is_header r \<and> \<not> hs_body_open s
               then s\<lparr>hs_output := hs_output s @ (if hs_header_open s then ''  </thead>'' @ line_end else []) @ ''  <tbody>'' @ line_end,
                      hs_header_open := False, hs_body_open := True\<rparr>
               else s)
      in s\<lparr>hs_output := hs_output s @ htmlRow r\<rparr>)"

definition htmlTable :: "table_row list \<Rightarrow> string" where
  "htmlTable rows =
     (let s = foldl html_step \<lparr>hs_header_open = False, hs_body_open = False, hs_output = ''<table>'' @ line_end\<rparr> rows
      in hs_output s @ (if hs_header_open s then ''  </thead>'' @ line_end else []) @
         (if hs_body_open s then ''  </tbody>'' @ line_end else []) @ ''</table>'')"

definition html_block :: "document_block list \<Rightarrow> nat \<Rightarrow> string" where
  "html_block blocks index =
     (let b = blocks ! index in
      if isTableBlock b
      then if isContinuationAlreadyWritten blocks index then [] else htmlTable (logicalRows blocks index) @ line_end
      else if db_text b = [] then []
      else let tag = (if db_type b = BTitle then ''h2'' else ''p'')
           in ''<'' @ tag @ ''>'' @ htmlEscape (db_text b) @ ''</'' @ tag @ ''>'' @ line_end)"

definition html_document :: "parsed_document \<Rightarrow> string" where
  "html_document doc =
     ''<!doctype html>'' @ line_end @ ''<html><head><meta charset='' @ [CHR 0x22] @ ''utf-8'' @ [CHR 0x22] @ ''><title>'' @
     htmlEscape (src_path (pd_source doc)) @ ''</title></head><body>'' @ line_end @
     concat (map (html_block (pd_blocks doc)) [0..<length (pd_blocks doc)]) @ ''</body></html>'' @ line_end"

subsection \<open>Markdown\<close>

definition flatten_cell :: "int \<Rightarrow> string list \<Rightarrow> table_cell \<Rightarrow> string list" where
  "flatten_cell columns values c =
     (if cell_column_index c \<ge> 0 \<and> cell_column_index c < columns
      then values[nat (cell_column_index c) := markdownEscape (cell_text c)] else values)"

definition flattenedRow :: "table_row \<Rightarrow> int \<Rightarrow> string list" where
  "flattenedRow r columns = foldl (flatten_cell columns) (replicate (nat columns) []) (row_cells r)"

definition markdown_row :: "string list \<Rightarrow> string" where
  "markdown_row values = ''|'' @ concat (map (\<lambda>v. '' '' @ v @ '' |'') values)"

definition markdown_table :: "table_row list \<Rightarrow> string" where
  "markdown_table rows =
     (case rows of
        [] \<Rightarrow> []
      | header # body \<Rightarrow>
          if hasMergedCells rows then htmlTable rows @ line_end @ line_end
          else
            let columns = columnCount rows in
            if columns \<le> 0 then []
            else markdown_row (flattenedRow header columns) @ line_end @
                 ''|'' @ concat (replicate (nat columns) '' --- |'') @ line_end @
                 concat (map (\<lambda>r. markdown_row (flattenedRow r columns) @ line_end) body) @ line_end)"

definition markdown_block :: "document_block list \<Rightarrow> nat \<Rightarrow> string" where
  "markdown_block blocks index =
     (let b = blocks ! index in
      if isTableBlock b
      then if isContinuationAlreadyWritten blocks index then [] else markdown_table (logicalRows blocks index)
      else if db_text b = [] then []
      else if db_type b = BTitle then ''## '' @ db_text b @ line_end @ line_end
      else if db_type b = BList then ''- '' @ db_text b @ line_end
      else if db_type b \<noteq> BHeader \<and> db_type b \<noteq> BFooter then db_text b @ line_end @ line_end
      else [])"

definition markdown_document :: "parsed_document \<Rightarrow> string" where
  "markdown_document doc = concat (map (markdown_block (pd_blocks doc)) [0..<length (pd_blocks doc)])"

subsection \<open>HTML is well formed\<close>

text \<open>
  A reader of tags: the open elements as a stack, and the tag being read. \<open>None\<close> once the text is
  not well formed: a stray bracket, or a closing tag that does not match.
\<close>

definition apply_tag :: "string \<Rightarrow> string list \<Rightarrow> string list option" where
  "apply_tag tag stack =
     (if tag = [] then None
      else if hd tag = CHR ''!'' \<or> takeWhile (\<lambda>c. c \<noteq> CHR '' '') tag = ''meta'' then Some stack
      else if hd tag = CHR ''/'' then
        (case stack of [] \<Rightarrow> None | t # ts \<Rightarrow> if tl tag = t then Some ts else None)
      else Some (takeWhile (\<lambda>c. c \<noteq> CHR '' '') tag # stack))"

type_synonym reader = "(string option \<times> string list) option"

definition read_char :: "reader \<Rightarrow> char \<Rightarrow> reader" where
  "read_char s c =
     (case s of
        None \<Rightarrow> None
      | Some (None, stack) \<Rightarrow>
          if c = CHR ''<'' then Some (Some [], stack) else if c = CHR ''>'' then None else Some (None, stack)
      | Some (Some tag, stack) \<Rightarrow>
          if c = CHR ''>'' then map_option (\<lambda>stack. (None, stack)) (apply_tag tag stack)
          else if c = CHR ''<'' then None else Some (Some (tag @ [c]), stack))"

definition read_html :: "reader \<Rightarrow> string \<Rightarrow> reader" where
  "read_html s text = foldl read_char s text"

definition well_formed_html :: "string \<Rightarrow> bool" where
  "well_formed_html text \<longleftrightarrow> read_html (Some (None, [])) text = Some (None, [])"


definition plain :: "string \<Rightarrow> bool" where
  "plain s \<longleftrightarrow> CHR ''<'' \<notin> set s \<and> CHR ''>'' \<notin> set s"

lemma plain_simps [simp]:
  "plain []" "plain (a @ b) \<longleftrightarrow> plain a \<and> plain b" "plain (c # s) \<longleftrightarrow> c \<noteq> CHR ''<'' \<and> c \<noteq> CHR ''>'' \<and> plain s"
  by (auto simp: plain_def)

lemma read_html_append [simp]: "read_html s (a @ b) = read_html (read_html s a) b"
  by (simp add: read_html_def)

lemma read_html_Nil [simp]: "read_html s [] = s"
  by (simp add: read_html_def)

lemma read_html_Cons: "read_html s (c # cs) = read_html (read_char s c) cs"
  by (simp add: read_html_def)

lemma read_plain: "plain t \<Longrightarrow> read_html (Some (None, stack)) t = Some (None, stack)"
  by (induction t) (simp_all add: read_html_Cons read_char_def)

lemma read_inside: "plain t \<Longrightarrow> read_html (Some (Some tag, stack)) t = Some (Some (tag @ t), stack)"
  by (induction t arbitrary: tag) (simp_all add: read_html_Cons read_char_def)

lemma read_tag:
  "plain tag \<Longrightarrow> read_html (Some (None, stack)) (CHR ''<'' # tag @ CHR ''>'' # rest) =
     read_html (map_option (\<lambda>stack. (None, stack)) (apply_tag tag stack)) rest"
  by (simp add: read_html_Cons read_char_def read_inside)

lemma plain_html_char: "plain (html_char c)"
  by (simp add: html_char_def)

lemma plain_htmlEscape [simp]: "plain (htmlEscape s)"
  by (induction s) (simp_all add: htmlEscape_def plain_html_char)

lemma plain_nat_to_string [simp]: "plain (nat_to_string n)"
  using nat_to_string_digits[of "CHR ''<''" n] nat_to_string_digits[of "CHR ''>''" n] by (auto simp: plain_def isdigit_def)

lemma plain_int_to_string [simp]: "plain (int_to_string i)"
  by (simp add: int_to_string_def)

lemma plain_span_attribute: "plain name \<Longrightarrow> plain (span_attribute name n)"
  by (simp add: span_attribute_def)

lemma plain_line_end [simp]: "plain line_end"
  by (simp add: line_end_def)

text \<open>Text that leaves the reader where it was.\<close>

definition neutral :: "string \<Rightarrow> bool" where
  "neutral t \<longleftrightarrow> (\<forall>stack. read_html (Some (None, stack)) t = Some (None, stack))"

lemma neutral_plain: "plain t \<Longrightarrow> neutral t"
  by (simp add: neutral_def read_plain)

lemma neutral_append: "neutral a \<Longrightarrow> neutral b \<Longrightarrow> neutral (a @ b)"
  by (simp add: neutral_def)

lemma neutral_concat: "list_all neutral ts \<Longrightarrow> neutral (concat ts)"
  by (induction ts) (auto simp: neutral_def)

definition tag_name :: "string \<Rightarrow> bool" where
  "tag_name t \<longleftrightarrow> t \<noteq> [] \<and> plain t \<and> CHR '' '' \<notin> set t \<and> hd t \<noteq> CHR ''!'' \<and> hd t \<noteq> CHR ''/'' \<and> t \<noteq> ''meta''"

lemma neutral_element:
  assumes "tag_name t" "plain attributes" "attributes = [] \<or> hd attributes = CHR '' ''" "neutral content"
  shows "neutral (CHR ''<'' # t @ attributes @ CHR ''>'' # content @ ''</'' @ t @ ''>'')"
  unfolding neutral_def
proof
  fix stack
  have name: "takeWhile (\<lambda>c. c \<noteq> CHR '' '') (t @ attributes) = t"
    using assms(1,3) by (cases attributes) (auto simp: tag_name_def takeWhile_append2 takeWhile_tail)
  have opens: "apply_tag (t @ attributes) stack = Some (t # stack)"
    using assms(1) name by (simp add: apply_tag_def tag_name_def)
  have closes: "apply_tag (CHR ''/'' # t) (t # stack) = Some stack"
    by (simp add: apply_tag_def)
  have "read_html (Some (None, stack)) (CHR ''<'' # (t @ attributes) @ CHR ''>'' # content @ CHR ''<'' # (CHR ''/'' # t) @ CHR ''>'' # []) =
      Some (None, stack)"
    using assms(1,2,4) by (subst read_tag) (simp_all add: tag_name_def opens neutral_def read_tag closes del: append.append_Cons)
  then show "read_html (Some (None, stack)) (CHR ''<'' # t @ attributes @ CHR ''>'' # content @ ''</'' @ t @ ''>'') = Some (None, stack)"
    by simp
qed


lemma neutral_cell: "neutral (htmlCell header c)"
proof -
  let ?tag = "if header \<or> cell_is_header c then ''th'' else ''td''"
  let ?attributes = "span_attribute ''rowspan'' (cell_row_span c) @ span_attribute ''colspan'' (cell_column_span c)"
  have "neutral (''      '' @ (CHR ''<'' # ?tag @ ?attributes @ CHR ''>'' # htmlEscape (cell_text c) @ ''</'' @ ?tag @ ''>'') @ line_end)"
    by (rule neutral_append[OF neutral_plain], simp, rule neutral_append[OF neutral_element neutral_plain])
      (simp_all add: tag_name_def plain_span_attribute neutral_plain, simp add: span_attribute_def)
  then show ?thesis by (simp add: htmlCell_def Let_def)
qed

lemma neutral_row: "neutral (htmlRow r)"
proof -
  have cells: "neutral (line_end @ concat (map (htmlCell (row_is_header r)) (row_cells r)) @ ''    '')"
    by (intro neutral_append neutral_concat) (simp_all add: neutral_plain neutral_cell list_all_iff)
  have "neutral (''    '' @ (CHR ''<'' # ''tr'' @ [] @ CHR ''>'' # (line_end @ concat (map (htmlCell (row_is_header r)) (row_cells r)) @ ''    '') @
      ''</'' @ ''tr'' @ ''>'') @ line_end)"
    by (rule neutral_append[OF neutral_plain], simp, rule neutral_append[OF neutral_element[OF _ _ _ cells] neutral_plain])
      (simp_all add: tag_name_def)
  then show ?thesis by (simp add: htmlRow_def)
qed

text \<open>Between two rows of a table, the section that is open is on the stack.\<close>

definition table_open :: "string list \<Rightarrow> html_state \<Rightarrow> bool" where
  "table_open stack s \<longleftrightarrow> \<not> (hs_header_open s \<and> hs_body_open s) \<and>
     read_html (Some (None, stack)) (hs_output s) =
       Some (None, (if hs_header_open s then [''thead''] else if hs_body_open s then [''tbody''] else []) @ ''table'' # stack)"

lemmas read_steps = read_html_Cons read_char_def apply_tag_def

lemma read_line_end [simp]: "read_html (Some (None, stack)) line_end = Some (None, stack)"
  by (simp add: read_plain)

lemma read_row [simp]: "read_html (Some (None, stack)) (htmlRow r) = Some (None, stack)"
  using neutral_row by (simp add: neutral_def)

lemma table_open_step: "table_open stack s \<Longrightarrow> table_open stack (html_step s r)"
  by (auto simp: table_open_def html_step_def Let_def read_steps line_end_def)

lemma neutral_table: "neutral (htmlTable rows)"
  unfolding neutral_def
proof
  fix stack
  let ?s = "foldl html_step \<lparr>hs_header_open = False, hs_body_open = False, hs_output = ''<table>'' @ line_end\<rparr> rows"
  have "table_open stack ?s"
  proof (rule foldl_invariant)
    show "table_open stack \<lparr>hs_header_open = False, hs_body_open = False, hs_output = ''<table>'' @ line_end\<rparr>"
      by (simp add: table_open_def read_steps line_end_def)
  qed (rule table_open_step)
  then show "read_html (Some (None, stack)) (htmlTable rows) = Some (None, stack)"
    by (auto simp: htmlTable_def Let_def table_open_def read_steps line_end_def)
qed

lemma neutral_block: "neutral (html_block blocks index)"
proof -
  have "neutral ((CHR ''<'' # tag @ [] @ CHR ''>'' # htmlEscape content @ ''</'' @ tag @ ''>'') @ line_end)"
    if "tag \<in> {''h2'', ''p''}" for tag content
    using that by (intro neutral_append neutral_element) (auto simp: tag_name_def neutral_plain)
  then show ?thesis
    by (auto simp: html_block_def Let_def neutral_plain intro!: neutral_append neutral_table)
qed

text \<open>
  C24: The HTML output is well formed whatever the texts of the document are: every tag closes, in
  the order of nesting, table sections included, and no character of a text is taken for markup.
\<close>

theorem html_document_well_formed: "well_formed_html (html_document doc)"
proof -
  let ?blocks = "concat (map (html_block (pd_blocks doc)) [0..<length (pd_blocks doc)])"
  let ?head = "''<!doctype html>'' @ line_end @ ''<html><head><meta charset='' @ [CHR 0x22] @ ''utf-8'' @ [CHR 0x22] @ ''><title>''"
  let ?foot = "''</body></html>'' @ line_end"
  have head: "read_html (Some (None, [])) ?head = Some (None, [''title'', ''head'', ''html''])"
    by (simp add: read_steps line_end_def)
  have body: "read_html (Some (None, [''title'', ''head'', ''html''])) (''</title></head><body>'' @ line_end) =
      Some (None, [''body'', ''html''])"
    by (simp add: read_steps line_end_def)
  have foot: "read_html (Some (None, [''body'', ''html''])) ?foot = Some (None, [])"
    by (simp add: read_steps line_end_def)
  have "neutral ?blocks" by (rule neutral_concat) (simp add: list_all_iff neutral_block)
  then have blocks: "read_html (Some (None, stack)) ?blocks = Some (None, stack)" for stack by (simp add: neutral_def)
  have "html_document doc = ?head @ htmlEscape (src_path (pd_source doc)) @ (''</title></head><body>'' @ line_end) @ ?blocks @ ?foot"
    by (simp add: html_document_def)
  then show ?thesis
    unfolding well_formed_html_def
    by (simp only: read_html_append[of _ ?head] read_html_append[of _ "htmlEscape _"] read_html_append[of _ "''</title></head><body>'' @ line_end"]
        read_html_append[of _ ?blocks] head read_plain[OF plain_htmlEscape] body blocks foot)
qed


subsection \<open>Each table once\<close>

lemma sameLogicalTable_trans:
  "sameLogicalTable a b \<Longrightarrow> sameLogicalTable b c \<Longrightarrow> sameLogicalTable a c"
  "sameLogicalTable a b \<Longrightarrow> sameLogicalTable b a"
  by (auto simp: sameLogicalTable_def)

definition exported_tables :: "document_block list \<Rightarrow> nat list" where
  "exported_tables blocks =
     filter (\<lambda>i. isTableBlock (blocks ! i) \<and> \<not> isContinuationAlreadyWritten blocks i) [0..<length blocks]"

lemma exported_first:
  "i \<in> set (exported_tables blocks) \<Longrightarrow> j < i \<Longrightarrow> \<not> sameLogicalTable (blocks ! i) (blocks ! j)"
  by (auto simp: exported_tables_def isContinuationAlreadyWritten_def list_ex_iff sameLogicalTable_def)

lemma logical_blocks_disjoint:
  assumes "i \<in> set (exported_tables blocks)" "j \<in> set (exported_tables blocks)" "i < j"
  shows "set (logical_blocks blocks i) \<inter> set (logical_blocks blocks j) = {}"
proof (rule ccontr)
  assume "set (logical_blocks blocks i) \<inter> set (logical_blocks blocks j) \<noteq> {}"
  then obtain k where k: "k \<ge> j" "k = i \<or> sameLogicalTable (blocks ! i) (blocks ! k)" "k = j \<or> sameLogicalTable (blocks ! j) (blocks ! k)"
    by (auto simp: logical_blocks_def)
  then have "sameLogicalTable (blocks ! j) (blocks ! i)"
    using assms(3) sameLogicalTable_trans by (metis not_le)
  then show False using exported_first[OF assms(2,3)] by simp
qed

lemma distinct_exported_blocks: "distinct (concat (map (logical_blocks blocks) (exported_tables blocks)))"
proof -
  have pairwise: "set (logical_blocks blocks i) \<inter> set (logical_blocks blocks j) = {}"
    if "i \<in> set (exported_tables blocks)" "j \<in> set (exported_tables blocks)" "i \<noteq> j" for i j
    using logical_blocks_disjoint[of i blocks j] logical_blocks_disjoint[of j blocks i] that by (cases "i < j") auto
  have "distinct xs \<Longrightarrow> set xs \<subseteq> set (exported_tables blocks) \<Longrightarrow> distinct (concat (map (logical_blocks blocks) xs))" for xs
  proof (induction xs)
    case (Cons x xs)
    moreover have "distinct (logical_blocks blocks x)" by (simp add: logical_blocks_def)
    ultimately show ?case using pairwise by fastforce
  qed simp
  then show ?thesis by (simp add: exported_tables_def)
qed

lemma first_of_table:
  assumes groups: "list_all (\<lambda>b. db_table_continuation_group_id b = [] \<or> isTableBlock b) blocks"
    and j: "j < length blocks" "isTableBlock (blocks ! j)"
  shows "\<exists>i\<in>set (exported_tables blocks). j \<in> set (logical_blocks blocks i)"
proof (cases "db_table_continuation_group_id (blocks ! j) = []")
  case True
  then have "j \<in> set (exported_tables blocks)" using j by (simp add: exported_tables_def isContinuationAlreadyWritten_def)
  moreover have "j \<in> set (logical_blocks blocks j)" using j by (simp add: logical_blocks_def)
  ultimately show ?thesis by blast
next
  case False
  let ?same = "\<lambda>i. i < length blocks \<and> sameLogicalTable (blocks ! j) (blocks ! i)"
  have same: "?same j" using False j by (simp add: sameLogicalTable_def)
  then obtain i where i: "?same i" and least: "\<forall>k<i. \<not> ?same k"
    using exists_least_iff[of ?same] by blast
  have ij: "i \<le> j" using least same by (metis not_less)
  have "isTableBlock (blocks ! i)"
    using groups i(1) by (auto simp: list_all_length sameLogicalTable_def)
  moreover have "\<not> isContinuationAlreadyWritten blocks i"
  proof
    assume "isContinuationAlreadyWritten blocks i"
    then obtain k where k: "k < i" "sameLogicalTable (blocks ! i) (blocks ! k)"
      by (auto simp: isContinuationAlreadyWritten_def list_ex_iff)
    then have "?same k" using i sameLogicalTable_trans(1)[of "blocks ! j" "blocks ! i" "blocks ! k"] by simp
    with least k(1) show False by blast
  qed
  ultimately have "i \<in> set (exported_tables blocks)" using i(1) by (simp add: exported_tables_def)
  moreover have "j \<in> set (logical_blocks blocks i)"
    using i j ij sameLogicalTable_trans(2)[of "blocks ! j" "blocks ! i"] by (simp add: logical_blocks_def)
  ultimately show ?thesis by blast
qed

lemma exported_are_tables:
  assumes groups: "list_all (\<lambda>b. db_table_continuation_group_id b = [] \<or> isTableBlock b) blocks"
    and "i \<in> set (exported_tables blocks)" "j \<in> set (logical_blocks blocks i)"
  shows "j < length blocks \<and> isTableBlock (blocks ! j)"
  using assms by (auto simp: logical_blocks_def exported_tables_def list_all_length sameLogicalTable_def)

text \<open>The rows of a logical table carry their positions.\<close>

definition numbered_rows :: "table_row list \<Rightarrow> bool" where
  "numbered_rows rows \<longleftrightarrow> map row_index rows = map int [0..<length rows] \<and>
     list_all (\<lambda>r. list_all (\<lambda>c. cell_row_index c = row_index r) (row_cells r)) rows"

lemma numbered_append_row: "numbered_rows rows \<Longrightarrow> numbered_rows (append_row rows r)"
  by (simp add: numbered_rows_def append_row_def renumber_row_def list_all_iff)

lemma logicalRows_numbered: "numbered_rows (logicalRows blocks i)"
  unfolding logicalRows_def
proof (rule foldl_invariant)
  show "numbered_rows []" by (simp add: numbered_rows_def)
  show "numbered_rows (append_block rows b)" if "numbered_rows rows" for rows b
    unfolding append_block_def by (rule foldl_invariant) (use that numbered_append_row in auto)
qed

text \<open>
  Both exporters write every table of the document exactly once: the tables they write and the
  blocks each of them joins, the parts of a table continued over pages, are all the table blocks,
  none twice. The rows of a joined table are numbered from 0 throughout.
\<close>

lemma tables_exported_once:
  assumes "list_all (\<lambda>b. db_table_continuation_group_id b = [] \<or> isTableBlock b) blocks"
  shows "mset (concat (map (logical_blocks blocks) (exported_tables blocks))) =
      mset (filter (\<lambda>i. isTableBlock (blocks ! i)) [0..<length blocks]) \<and>
    list_all (\<lambda>i. numbered_rows (logicalRows blocks i)) (exported_tables blocks)"
proof
  have "set (concat (map (logical_blocks blocks) (exported_tables blocks))) =
      set (filter (\<lambda>i. isTableBlock (blocks ! i)) [0..<length blocks])"
    using first_of_table[OF assms] exported_are_tables[OF assms] by fastforce
  then show "mset (concat (map (logical_blocks blocks) (exported_tables blocks))) =
      mset (filter (\<lambda>i. isTableBlock (blocks ! i)) [0..<length blocks])"
    using distinct_exported_blocks[of blocks] by (intro set_eq_iff_mset_eq_distinct[THEN iffD1]) simp_all
  show "list_all (\<lambda>i. numbered_rows (logicalRows blocks i)) (exported_tables blocks)"
    by (simp add: list_all_iff logicalRows_numbered)
qed

subsection \<open>Markdown tables\<close>

text \<open>The cell separators of a line: the bars that no backslash precedes.\<close>

fun bars :: "char \<Rightarrow> string \<Rightarrow> nat" where
  "bars p [] = 0"
| "bars p (c # cs) = (if c = CHR ''|'' \<and> p \<noteq> CHR 0x5C then 1 else 0) + bars c cs"

lemma bars_append: "bars p (a @ b) = bars p a + bars (if a = [] then p else last a) b"
  by (induction a arbitrary: p) auto

definition cell_text_ok :: "string \<Rightarrow> bool" where
  "cell_text_ok v \<longleftrightarrow> CHR 0x0A \<notin> set v \<and> (\<forall>p. bars p v = 0)"

lemma markdownEscape_ok: "cell_text_ok (markdownEscape s)"
proof -
  have "bars p (markdownEscape s) = 0" for p
    by (induction s arbitrary: p) (auto simp: markdownEscape_def markdown_char_def bars_append)
  moreover have "CHR 0x0A \<notin> set (markdownEscape s)"
    by (auto simp: markdownEscape_def markdown_char_def)
  ultimately show ?thesis by (simp add: cell_text_ok_def)
qed

lemma flattenedRow_ok: "length (flattenedRow r columns) = nat columns \<and> list_all cell_text_ok (flattenedRow r columns)"
  unfolding flattenedRow_def
proof (rule foldl_invariant)
  show "length (replicate (nat columns) []) = nat columns \<and> list_all cell_text_ok (replicate (nat columns) [])"
    by (simp add: list_all_iff cell_text_ok_def)
  show "length (flatten_cell columns values c) = nat columns \<and> list_all cell_text_ok (flatten_cell columns values c)"
    if "length values = nat columns \<and> list_all cell_text_ok values" for "values" c
    using that by (auto simp: flatten_cell_def list_all_iff markdownEscape_ok dest!: set_update_subset_insert[THEN subsetD])
qed

definition row_line :: "nat \<Rightarrow> string \<Rightarrow> bool" where
  "row_line columns l \<longleftrightarrow> CHR 0x0A \<notin> set l \<and> bars CHR '' '' l = columns + 1"

lemma bars_cells:
  "list_all cell_text_ok values \<Longrightarrow> p \<noteq> CHR 0x5C \<Longrightarrow>
   bars p (concat (map (\<lambda>v. '' '' @ v @ '' |'') values)) = length values"
proof (induction "values" arbitrary: p)
  case (Cons v vs)
  then show ?case by (auto simp: bars_append cell_text_ok_def)
qed simp

lemma row_line_values: "list_all cell_text_ok values \<Longrightarrow> row_line (length values) (markdown_row values)"
  using bars_cells[of "values" "CHR ''|''"]
  by (auto simp: row_line_def markdown_row_def list_all_iff cell_text_ok_def)

lemma row_line_rule: "row_line columns (''|'' @ concat (replicate columns '' --- |''))"
proof -
  have "bars p (concat (replicate columns '' --- |'')) = columns" if "p \<noteq> CHR 0x5C" for p
    using that by (induction columns arbitrary: p) simp_all
  then show ?thesis by (auto simp: row_line_def)
qed

text \<open>
  A Markdown table without merged cells is one line for each row and one for the rule under the
  header, each with as many cells as the table has columns, whatever bars and line ends the texts
  contain.
\<close>

lemma markdown_table_shape:
  assumes "rows \<noteq> []" "\<not> hasMergedCells rows" "0 < columnCount rows"
  shows "\<exists>lines. markdown_table rows = concat (map (\<lambda>l. l @ line_end) lines) @ line_end \<and>
    length lines = length rows + 1 \<and> list_all (row_line (nat (columnCount rows))) lines"
proof -
  let ?n = "columnCount rows"
  obtain header body where rows: "rows = header # body" using assms(1) by (cases rows) auto
  have line: "row_line (nat ?n) (markdown_row (flattenedRow r ?n))" for r
    using row_line_values[of "flattenedRow r ?n"] flattenedRow_ok[of r ?n] by simp
  let ?lines = "markdown_row (flattenedRow header ?n) # (''|'' @ concat (replicate (nat ?n) '' --- |'')) #
    map (\<lambda>r. markdown_row (flattenedRow r ?n)) body"
  have "markdown_table rows = concat (map (\<lambda>l. l @ line_end) ?lines) @ line_end"
    using assms by (simp add: markdown_table_def rows Let_def comp_def)
  moreover have "length ?lines = length rows + 1" by (simp add: rows)
  moreover have "list_all (row_line (nat ?n)) ?lines"
    using line row_line_rule[of "nat ?n"] by (simp add: list_all_iff)
  ultimately show ?thesis by blast
qed


subsection \<open>Examples\<close>

definition sample_table_block :: "string \<Rightarrow> bool \<Rightarrow> string \<Rightarrow> document_block" where
  "sample_table_block name continues group_id =
     \<lparr>db_id = name, db_type = BTable, db_source_label = [], db_related_block_id = [], db_page_index = 0, db_page_number = 1,
      db_bbox = empty_bbox, db_confidence = 1, db_text = [], db_text_line_indices = [], db_table_id = name,
      db_table_continuation_group_id = group_id, db_table_continues_from_previous_page = continues,
      db_table_continues_on_next_page = False,
      db_table_rows = [default_row\<lparr>row_is_header := True, row_cells := [default_cell\<lparr>cell_text := ''a|b''\<rparr>]\<rparr>,
        default_row\<lparr>row_cells := [default_cell\<lparr>cell_text := name\<rparr>]\<rparr>],
      db_page_id = ''page_1'', db_source_refs = []\<rparr>"

lemma tables_exported_once_witness:
  "let blocks = [sample_table_block ''t1'' False ''g'', sample_table_block ''t2'' True ''g'', sample_table_block ''t3'' False []] in
     mset (concat (map (logical_blocks blocks) (exported_tables blocks))) = mset [0, 1, 2]"
  using tables_exported_once[of "[sample_table_block ''t1'' False ''g'', sample_table_block ''t2'' True ''g'',
      sample_table_block ''t3'' False []]"]
  by (simp add: sample_table_block_def isTableBlock_def upt_rec)

lemma markdown_table_shape_witness:
  "\<exists>lines. markdown_table (db_table_rows (sample_table_block ''t'' False [])) = concat (map (\<lambda>l. l @ line_end) lines) @ line_end \<and>
     length lines = 3 \<and> list_all (row_line 1) lines"
  using markdown_table_shape[of "db_table_rows (sample_table_block ''t'' False [])"]
  by (simp add: sample_table_block_def hasMergedCells_def columnCount_def default_row_def default_cell_def
      numeral_3_eq_3)

end
