(* ===== verification/Exporter.thy ===== *)
theory Exporter
  imports Json_Schema Structured_Text Output_File
begin

text \<open>
  The exporters as the engine calls them: \<open>JsonDocumentExporter::write\<close>, the Markdown and HTML
  writers, and \<open>document_exporter.cpp\<close>, which runs the three one after the other. Each returns its
  status and the changes it made to the files.
\<close>

record export_request =
  xr_debug :: bool
  xr_output_path :: string
  xr_document :: "parsed_document option"
  xr_artifacts :: "pipeline_artifacts option"

type_synonym export_result = "status \<times> fs_change list"

definition json_write :: "json_library \<Rightarrow> disk \<Rightarrow> export_request \<Rightarrow> export_result" where
  "json_write lib d request =
     (if xr_document request = None
      then (status_error ''export.json.document_missing'' ''document export request has no document'' ''export'' False, [])
      else if xr_output_path request = []
      then (status_error ''export.json.output_path_missing'' ''document export request has no output path'' ''export'' False, [])
      else
        case serialize lib \<lparr>sq_debug = xr_debug request, sq_document = xr_document request, sq_artifacts = xr_artifacts request\<rparr> of
          Inl st \<Rightarrow> (st, [])
        | Inr content \<Rightarrow>
            (case write_output d (xr_output_path request) (content @ line_end) of
               (OpenFailed, cs) \<Rightarrow> (status_error ''export.json.open_failed''
                 (''failed to open JSON output: '' @ xr_output_path request) ''export'' True, cs)
             | (WriteFailed, cs) \<Rightarrow> (status_error ''export.json.write_failed''
                 (''failed to write JSON output: '' @ xr_output_path request) ''export'' True, cs)
             | (Written, cs) \<Rightarrow> (status_ok, cs)))"

definition validateRequest :: "export_request \<Rightarrow> string \<Rightarrow> status" where
  "validateRequest request format =
     (if xr_document request = None
      then status_error (''export.'' @ format @ ''.document_missing'') ''document export request has no document'' ''export'' False
      else if xr_output_path request = []
      then status_error (''export.'' @ format @ ''.output_path_missing'') ''document export request has no output path'' ''export'' False
      else status_ok)"

definition openFailed :: "string \<Rightarrow> string \<Rightarrow> status" where
  "openFailed format path = status_error (''export.'' @ format @ ''.open_failed'')
     (''failed to open '' @ format @ '' output: '' @ path) ''export'' True"

definition writeFailed :: "string \<Rightarrow> string \<Rightarrow> status" where
  "writeFailed format path = status_error (''export.'' @ format @ ''.write_failed'')
     (''failed to write '' @ format @ '' output: '' @ path) ''export'' True"

text \<open>The Markdown and the HTML writer differ in their name and in what they stream.\<close>

definition text_write :: "string \<Rightarrow> (parsed_document \<Rightarrow> string) \<Rightarrow> disk \<Rightarrow> export_request \<Rightarrow> export_result" where
  "text_write format content d request =
     (let st = validateRequest request format in
      if \<not> ok_status st then (st, [])
      else
        case write_output d (xr_output_path request) (content (the (xr_document request))) of
          (OpenFailed, cs) \<Rightarrow> (openFailed format (xr_output_path request), cs)
        | (WriteFailed, cs) \<Rightarrow> (writeFailed format (xr_output_path request), cs)
        | (Written, cs) \<Rightarrow> (status_ok, cs))"

definition markdown_write :: "disk \<Rightarrow> export_request \<Rightarrow> export_result" where
  "markdown_write = text_write ''markdown'' markdown_document"

definition html_write :: "disk \<Rightarrow> export_request \<Rightarrow> export_result" where
  "html_write = text_write ''html'' html_document"

text \<open>\<open>MultiFormatDocumentExporter::write\<close>; the operating system answers for each output path.\<close>

definition multi_write :: "json_library \<Rightarrow> (string \<Rightarrow> disk) \<Rightarrow> export_request \<Rightarrow> export_result" where
  "multi_write lib disks request =
     (case json_write lib (disks (xr_output_path request)) request of
        (st, cs) \<Rightarrow>
          if \<not> ok_status st then (st, cs)
          else
            let markdown_request = request\<lparr>xr_output_path := replace_extension (xr_output_path request) ''.md''\<rparr> in
            case markdown_write (disks (xr_output_path markdown_request)) markdown_request of
              (st, ms) \<Rightarrow>
                if \<not> ok_status st then (st, cs @ ms)
                else
                  let html_request = request\<lparr>xr_output_path := replace_extension (xr_output_path request) ''.html''\<rparr> in
                  case html_write (disks (xr_output_path html_request)) html_request of
                    (st, hs) \<Rightarrow> (st, cs @ ms @ hs))"

subsection \<open>One output\<close>

text \<open>
  An export changes only its output and a temporary file, and the output, at every moment, is what
  it was or the complete new text; the new text exactly when the export succeeds.
\<close>

definition replaces :: "string \<Rightarrow> string \<Rightarrow> export_result \<Rightarrow> files \<Rightarrow> bool" where
  "replaces path content result m \<longleftrightarrow>
     (case result of (st, cs) \<Rightarrow>
        always (\<lambda>s. s path = m path \<or> s path = Some content) cs m \<and>
        changes cs m path = (if ok_status st then Some content else m path) \<and>
        always (\<lambda>s. \<forall>p. p \<noteq> path \<longrightarrow> path_filename p \<noteq> ''content'' \<longrightarrow> s p = m p) cs m)"

lemma replaces_nothing: "\<not> ok_status st \<Longrightarrow> replaces path content (st, []) m"
  by (simp add: replaces_def)

lemma replaces_written:
  assumes "disk_delivers d content" "\<And>outcome. ok_status (st outcome) \<longleftrightarrow> outcome = Written"
  shows "replaces path content (case write_output d path content of (outcome, cs) \<Rightarrow> (st outcome, cs)) m"
proof -
  obtain outcome cs where w: "write_output d path content = (outcome, cs)" by fastforce
  from write_output_atomic[OF assms(1), of path m] w obtain t where
    "always (\<lambda>s. s path = m path \<or> s path = Some content) cs m"
    "changes cs m path = (if outcome = Written then Some content else m path)"
    "path_filename t = ''content''" "always (\<lambda>s. \<forall>p. p \<noteq> path \<longrightarrow> p \<noteq> t \<longrightarrow> s p = m p) cs m"
    by auto
  note facts = this
  have "always (\<lambda>s. \<forall>p. p \<noteq> path \<longrightarrow> path_filename p \<noteq> ''content'' \<longrightarrow> s p = m p) cs m"
    by (rule always_mono[OF facts(4)]) (use facts(3) in auto)
  then show ?thesis using w assms(2) facts(1,2) by (simp add: replaces_def)
qed

abbreviation serialized :: "json_library \<Rightarrow> export_request \<Rightarrow> status + string" where
  "serialized lib request \<equiv>
     serialize lib \<lparr>sq_debug = xr_debug request, sq_document = xr_document request, sq_artifacts = xr_artifacts request\<rparr>"

lemma serialize_Inl_fails: "serialize lib request = Inl st \<Longrightarrow> \<not> ok_status st"
  by (auto simp: serialize_def serialization_failed_def Let_def split: option.splits if_splits sum.splits)

lemma json_write_unprinted:
  "serialized lib request = Inl st \<Longrightarrow> \<not> ok_status (fst (json_write lib d request)) \<and> snd (json_write lib d request) = []"
  using serialize_Inl_fails by (auto simp: json_write_def)

lemma json_write_replaces:
  assumes "\<And>content. disk_delivers d content" "serialized lib request = Inr json"
  shows "replaces (xr_output_path request) (json @ line_end) (json_write lib d request) m"
proof (cases "xr_document request = None \<or> xr_output_path request = []")
  case True
  then have "\<not> ok_status (fst (json_write lib d request)) \<and> snd (json_write lib d request) = []"
    by (auto simp: json_write_def)
  then show ?thesis using replaces_nothing[of "fst (json_write lib d request)"] by (cases "json_write lib d request") auto
next
  case False
  let ?st = "\<lambda>outcome. case outcome of
      OpenFailed \<Rightarrow> status_error ''export.json.open_failed'' (''failed to open JSON output: '' @ xr_output_path request) ''export'' True
    | WriteFailed \<Rightarrow> status_error ''export.json.write_failed'' (''failed to write JSON output: '' @ xr_output_path request) ''export'' True
    | Written \<Rightarrow> status_ok"
  have "json_write lib d request = (case write_output d (xr_output_path request) (json @ line_end) of (outcome, cs) \<Rightarrow> (?st outcome, cs))"
    using False assms(2) by (auto simp: json_write_def split: prod.split write_outcome.split)
  moreover have "replaces (xr_output_path request) (json @ line_end)
      (case write_output d (xr_output_path request) (json @ line_end) of (outcome, cs) \<Rightarrow> (?st outcome, cs)) m"
    by (rule replaces_written[OF assms(1)]) (simp split: write_outcome.split)
  ultimately show ?thesis by simp
qed

lemma text_write_replaces:
  assumes "\<And>content. disk_delivers d content" "xr_document request = Some doc"
  shows "replaces (xr_output_path request) (content doc) (text_write format content d request) m"
proof (cases "xr_output_path request = []")
  case True
  then show ?thesis using assms(2) by (simp add: text_write_def validateRequest_def replaces_nothing)
next
  case False
  let ?st = "\<lambda>outcome. case outcome of OpenFailed \<Rightarrow> openFailed format (xr_output_path request)
    | WriteFailed \<Rightarrow> writeFailed format (xr_output_path request) | Written \<Rightarrow> status_ok"
  have "text_write format content d request =
      (case write_output d (xr_output_path request) (content doc) of (outcome, cs) \<Rightarrow> (?st outcome, cs))"
    using False assms(2) by (auto simp: text_write_def validateRequest_def split: prod.split write_outcome.split)
  then show ?thesis
    using replaces_written[OF assms(1), where st = ?st] by (simp add: openFailed_def writeFailed_def split: write_outcome.split)
qed


subsection \<open>The three outputs together\<close>

lemma always_here: "always P cs m \<Longrightarrow> P m \<and> P (changes cs m)"
  by (induction cs arbitrary: m) auto

lemma last_filename: "path_filename p \<noteq> [] \<Longrightarrow> last (path_filename p) = last p"
  by (cases p rule: rev_cases) (auto simp: path_filename_def split: if_splits)

lemma last_replace_extension: "ext \<noteq> [] \<Longrightarrow> last (replace_extension p ext) = last ext"
  by (simp add: replace_extension_def)

lemma last_json: "path_extension p = ''.json'' \<Longrightarrow> last p = CHR ''n''"
proof -
  assume a: "path_extension p = ''.json''"
  let ?name = "path_filename p"
  have "rev (takeWhile (\<lambda>c. c \<noteq> CHR ''.'') (rev ?name)) = ''json''"
    using a by (auto simp: path_extension_def Let_def split: if_splits)
  then have "takeWhile (\<lambda>c. c \<noteq> CHR ''.'') (rev ?name) = ''nosj''" by (simp add: rev_swap)
  then have "?name \<noteq> [] \<and> last ?name = CHR ''n''"
    by (cases ?name rule: rev_cases) (auto split: if_splits)
  then show ?thesis using last_filename by auto
qed

lemma output_names:
  assumes "path_extension p = ''.json''"
  shows "p \<noteq> replace_extension p ''.md''" "p \<noteq> replace_extension p ''.html''"
    "replace_extension p ''.md'' \<noteq> replace_extension p ''.html''"
    "path_filename p \<noteq> ''content''" "path_filename (replace_extension p ''.md'') \<noteq> ''content''"
    "path_filename (replace_extension p ''.html'') \<noteq> ''content''"
  using last_json[OF assms] last_replace_extension[of "''.md''" p] last_replace_extension[of "''.html''" p]
    last_filename[of p] last_filename[of "replace_extension p ''.md''"] last_filename[of "replace_extension p ''.html''"]
  by (auto dest: arg_cong[of _ _ last])

definition old_or_new :: "files \<Rightarrow> (string \<times> string) list \<Rightarrow> files \<Rightarrow> bool" where
  "old_or_new m outputs s \<longleftrightarrow> list_all (\<lambda>(path, content). s path = m path \<or> s path = Some content) outputs"

text \<open>One write among outputs that are old or new: they stay so, and this one ends as \<open>replaces\<close> says.\<close>

lemma replaces_among:
  assumes "replaces path content (st, cs) s" "(path, content) \<in> set outputs" "distinct (map fst outputs)"
    and "list_all (\<lambda>(p, _). path_filename p \<noteq> ''content'') outputs" "old_or_new m outputs s"
  shows "always (old_or_new m outputs) cs s \<and> (\<forall>p\<in>fst ` set outputs - {path}. changes cs s p = s p) \<and>
    (ok_status st \<longrightarrow> changes cs s path = Some content)"
proof -
  have r: "always (\<lambda>s'. s' path = s path \<or> s' path = Some content) cs s"
      "always (\<lambda>s'. \<forall>p. p \<noteq> path \<longrightarrow> path_filename p \<noteq> ''content'' \<longrightarrow> s' p = s p) cs s"
      "changes cs s path = (if ok_status st then Some content else s path)"
    using assms(1) by (auto simp: replaces_def)
  have both: "always (\<lambda>s'. P s' \<and> Q s') cs s" if "always P cs s" "always Q cs s" for P Q and s :: files
    using that by (induction cs arbitrary: s) auto
  have "always (old_or_new m outputs) cs s"
  proof (rule always_mono[OF both[OF r(1,2)]])
    fix s' assume s': "(s' path = s path \<or> s' path = Some content) \<and> (\<forall>p. p \<noteq> path \<longrightarrow> path_filename p \<noteq> ''content'' \<longrightarrow> s' p = s p)"
    have "s' p = m p \<or> s' p = Some c" if "(p, c) \<in> set outputs" for p c
    proof (cases "p = path")
      case True
      then have "c = content" using that assms(2,3) by (metis eq_key_imp_eq_value)
      then show ?thesis using s' True assms(5) that by (auto simp: old_or_new_def list_all_iff)
    next
      case False
      then show ?thesis using s' that assms(4,5) by (fastforce simp: old_or_new_def list_all_iff)
    qed
    then show "old_or_new m outputs s'" by (auto simp: old_or_new_def list_all_iff)
  qed
  moreover have "changes cs s p = s p" if "p \<in> fst ` set outputs - {path}" for p
    using always_here[OF r(2)] that assms(4) by (auto simp: list_all_iff)
  ultimately show ?thesis using r(3) by auto
qed

definition export_outputs :: "string \<Rightarrow> string \<Rightarrow> parsed_document \<Rightarrow> (string \<times> string) list" where
  "export_outputs path json doc =
     [(path, json), (replace_extension path ''.md'', markdown_document doc),
      (replace_extension path ''.html'', html_document doc)]"


lemma old_or_new_refl: "old_or_new m outputs m"
  by (simp add: old_or_new_def list_all_iff)

text \<open>Without a JSON text nothing is changed, and the failure is that of \<open>serialize\<close>.\<close>

lemma multi_write_unprinted:
  assumes "serialized lib request = Inl st" "xr_document request \<noteq> None" "xr_output_path request \<noteq> []"
  shows "multi_write lib disks request = (st, []) \<and> \<not> ok_status st"
  using assms serialize_Inl_fails[OF assms(1)] by (auto simp: multi_write_def json_write_def)

lemma multi_write_outputs:
  assumes delivers: "\<And>p content. disk_delivers (disks p) content" and doc: "xr_document request = Some doc"
    and path: "path_extension (xr_output_path request) = ''.json''" and printed: "serialized lib request = Inr content"
  shows "case multi_write lib disks request of (st, cs) \<Rightarrow>
    always (old_or_new m (export_outputs (xr_output_path request) (content @ line_end) doc)) cs m \<and>
    (ok_status st \<longrightarrow> list_all (\<lambda>(p, c). changes cs m p = Some c) (export_outputs (xr_output_path request) (content @ line_end) doc))"
proof -
  let ?P = "xr_output_path request"
  let ?M = "replace_extension ?P ''.md''" and ?H = "replace_extension ?P ''.html''"
  let ?mr = "request\<lparr>xr_output_path := ?M\<rparr>" and ?hr = "request\<lparr>xr_output_path := ?H\<rparr>"
  define json where "json = content @ line_end"
  obtain js jc where j: "json_write lib (disks ?P) request = (js, jc)" by fastforce
  have rj: "replaces ?P json (js, jc) m"
    using json_write_replaces[where d = "disks ?P" and m = m, OF delivers printed] by (simp add: j json_def)
  let ?outs = "export_outputs ?P json doc"
  have dist: "distinct (map fst ?outs)" and names: "list_all (\<lambda>(p, _). path_filename p \<noteq> ''content'') ?outs"
    using output_names[OF path] by (simp_all add: export_outputs_def)
  have mem: "(?P, json) \<in> set ?outs" "(?M, markdown_document doc) \<in> set ?outs" "(?H, html_document doc) \<in> set ?outs"
    by (simp_all add: export_outputs_def)
  have rm: "replaces ?M (markdown_document doc) (markdown_write (disks ?M) ?mr) s" for s
    using text_write_replaces[OF delivers, where request = ?mr and doc = doc and content = markdown_document] doc by (simp add: markdown_write_def)
  have rh: "replaces ?H (html_document doc) (html_write (disks ?H) ?hr) s" for s
    using text_write_replaces[OF delivers, where request = ?hr and doc = doc and content = html_document] doc by (simp add: html_write_def)
  obtain ms mc hs hc where mh: "markdown_write (disks ?M) ?mr = (ms, mc)" "html_write (disks ?H) ?hr = (hs, hc)" by fastforce
  define m1 where "m1 = changes jc m"
  define m2 where "m2 = changes mc m1"
  note a1 = replaces_among[OF rj mem(1) dist names old_or_new_refl[of m ?outs]]
  then have o1: "old_or_new m ?outs m1" using always_here unfolding m1_def by blast
  note a2 = replaces_among[OF rm[of m1, unfolded mh] mem(2) dist names o1]
  then have o2: "old_or_new m ?outs m2" using always_here unfolding m2_def by blast
  note a3 = replaces_among[OF rh[of m2, unfolded mh] mem(3) dist names o2]
  have outs: "fst ` set ?outs = {?P, ?M, ?H}" by (simp add: export_outputs_def)
  consider "\<not> ok_status js" | "ok_status js" "\<not> ok_status ms" | "ok_status js" "ok_status ms" by blast
  then show ?thesis
  proof cases
    case 1
    then have "multi_write lib disks request = (js, jc)" using j by (simp add: multi_write_def)
    then show ?thesis using a1 1 by (simp add: json_def)
  next
    case 2
    then have "multi_write lib disks request = (ms, jc @ mc)" using j mh by (simp add: multi_write_def)
    then show ?thesis using a1 a2 2 by (simp add: m1_def json_def)
  next
    case 3
    have w: "multi_write lib disks request = (hs, jc @ mc @ hc)" using j mh 3 by (simp add: multi_write_def)
    have "list_all (\<lambda>(p, c). changes (jc @ mc @ hc) m p = Some c) ?outs" if "ok_status hs"
    proof -
      have "changes hc m2 ?H = Some (html_document doc)" using a3 that by simp
      moreover have "changes hc m2 ?M = Some (markdown_document doc)"
        using a2 a3 3 outs output_names(3)[OF path] by (simp add: m2_def)
      moreover have "changes hc m2 ?P = Some json"
        using a1 a2 a3 3 outs output_names(1,2)[OF path] by (simp add: m1_def m2_def)
      ultimately show ?thesis by (simp add: export_outputs_def m1_def m2_def)
    qed
    then show ?thesis using a1 a2 a3 w 3 by (simp add: m1_def m2_def json_def)
  qed
qed

text \<open>
  C6: The export replaces its three files atomically. Where \<open>serialize\<close> gives no text the export ends with its failure
  and changes no file. Otherwise, at every moment, and so also if the process stops there, each of the JSON, Markdown and HTML
  files holds what it held before or its complete new text, the JSON file the text of \<open>serialize\<close>, whatever fails: opening,
  writing, closing or renaming. If the export reports success, all three hold the new text.
\<close>

theorem export_is_atomic:
  assumes "\<forall>p content. disk_delivers (disks p) content" "xr_document request = Some doc"
    and "path_extension (xr_output_path request) = ''.json''"
  shows "case multi_write lib disks request of (st, cs) \<Rightarrow>
    (case serialize lib \<lparr>sq_debug = xr_debug request, sq_document = Some doc, sq_artifacts = xr_artifacts request\<rparr> of
       Inl failure \<Rightarrow> cs = [] \<and> st = failure \<and> \<not> ok_status st
     | Inr content \<Rightarrow>
         always (old_or_new m (export_outputs (xr_output_path request) (content @ line_end) doc)) cs m \<and>
         (ok_status st \<longrightarrow>
           list_all (\<lambda>(p, c). changes cs m p = Some c) (export_outputs (xr_output_path request) (content @ line_end) doc)))"
proof (cases "serialized lib request")
  case (Inl failure)
  have "xr_output_path request \<noteq> []" using assms(3) by (auto simp: path_extension_def path_filename_def)
  then show ?thesis using multi_write_unprinted[OF Inl] Inl assms(2) by simp
next
  case (Inr content)
  show ?thesis using multi_write_outputs[OF _ assms(2,3) Inr] assms(1,2) Inr by (simp split: prod.splits)
qed

definition good_disk :: disk where
  "good_disk = \<lparr>dk_kind = Regular, dk_attempts = [((7, 0), AlreadyExists), ((8, 1), Created)], dk_opens = True,
     dk_chunks = (\<lambda>content. [take 5 content, drop 5 content]), dk_flushes = True, dk_closes = True, dk_renames = True\<rparr>"

definition full_disk :: disk where
  "full_disk = good_disk\<lparr>dk_chunks := (\<lambda>content. [take 5 content]), dk_flushes := False\<rparr>"

definition sample_export :: export_request where
  "sample_export = \<lparr>xr_debug = False, xr_output_path = ''out/document.json'', xr_document = Some sample_exported,
     xr_artifacts = None\<rparr>"

text \<open>Its HTML file cannot be written; the other two are, and the export reports the failure.\<close>

theorem export_is_atomic_witness:
  "case multi_write sample_library (\<lambda>p. if p = ''out/document.html'' then full_disk else good_disk) sample_export of
     (st, cs) \<Rightarrow> always (old_or_new Map.empty (export_outputs ''out/document.json'' (''{}'' @ line_end) sample_exported)) cs Map.empty"
proof -
  have "disk_delivers (if p = ''out/document.html'' then full_disk else good_disk) content" for p content
    by (simp add: disk_delivers_def full_disk_def good_disk_def)
  moreover have "path_extension (xr_output_path sample_export) = ''.json''"
    by (simp add: sample_export_def path_extension_def path_filename_def)
  moreover have "serialize sample_library \<lparr>sq_debug = xr_debug sample_export, sq_document = Some sample_exported,
      sq_artifacts = xr_artifacts sample_export\<rparr> = Inr ''{}''"
    using sample_exported_ok(1)
    by (simp add: serialize_def Let_def validate_iff manifest_of_def manifestToJson_def sample_library_def sample_export_def)
  ultimately show ?thesis
    using export_is_atomic[where disks = "\<lambda>p. if p = ''out/document.html'' then full_disk else good_disk"
        and request = sample_export and doc = sample_exported and lib = sample_library and m = Map.empty]
    by (auto simp: sample_export_def split: prod.splits)
qed

end
