(* ===== verification/Delivery.thy ===== *)
theory Delivery
  imports Sample_Run Exporter
begin

text \<open>
  The pipeline with its exporter: what \<open>exportResult\<close> hands to the multi-format exporter, that a
  document a run delivers passes the exporter's validation, and that a run that succeeds leaves
  the delivered document in its three files.
\<close>

subsection \<open>The exporter of a run\<close>

definition run_export :: "run_options \<Rightarrow> parsed_document \<Rightarrow> pipeline_artifacts \<Rightarrow> export_request" where
  "run_export options doc artifacts =
     \<lparr>xr_debug = ro_debug options, xr_output_path = op_manifest_json (output_paths_of options),
      xr_document = Some doc, xr_artifacts = Some artifacts\<rparr>"

definition with_exporter :: "json_library \<Rightarrow> (string \<Rightarrow> disk) \<Rightarrow> run_options \<Rightarrow> environment \<Rightarrow> environment" where
  "with_exporter lib disks options env =
     env\<lparr>env_write_document := \<lambda>doc artifacts. Some (multi_write lib disks (run_export options doc artifacts))\<rparr>"

subsection \<open>Pages have a size\<close>

text \<open>The renderer's pages are at least one pixel wide and high, and their sizes C++ \<open>int\<close>s.\<close>

definition size_ok :: "int \<Rightarrow> int \<Rightarrow> bool" where
  "size_ok w h \<longleftrightarrow> 0 < w \<and> w < 2 ^ 31 \<and> 0 < h \<and> h < 2 ^ 31"

definition sized_page :: "page_artifact \<Rightarrow> bool" where
  "sized_page page \<longleftrightarrow> size_ok (pa_width page) (pa_height page)"

definition sized_rotation :: "page_rotation \<Rightarrow> bool" where
  "sized_rotation r \<longleftrightarrow> size_ok (rot_width r) (rot_height r)"

definition sized_renderer :: "page_renderer \<Rightarrow> bool" where
  "sized_renderer r \<longleftrightarrow> (\<forall>i page. rr_render_page r i = Some page \<longrightarrow> sized_page page) \<and>
     (\<forall>pages. rr_render_pages r = Some pages \<longrightarrow> list_all sized_page pages)"

definition sized_services :: "pipeline_services \<Rightarrow> bool" where
  "sized_services services \<longleftrightarrow> (case sv_renderer services of None \<Rightarrow> True | Some r \<Rightarrow> sized_renderer r)"

definition sized_origin :: "run_options \<Rightarrow> service_origin \<Rightarrow> bool" where
  "sized_origin options origin \<longleftrightarrow>
     (case origin of
        GivenServices services _ \<Rightarrow> sized_services services
      | RegistryServices create \<Rightarrow> ok_status (sc_status (create (ro_backends options))) \<longrightarrow>
          sized_services (sc_services (create (ro_backends options)))
      | NoServices \<Rightarrow> True)"

lemma yields_and_then: "yields m V \<Longrightarrow> (\<And>x. V x \<Longrightarrow> yields (f x) W) \<Longrightarrow> yields (and_then m f) W"
  by (rule runs_and_then, assumption, rule yields_pure)

lemma yields_returns: "V x \<Longrightarrow> yields (returns x) V"
  by (simp add: runs_returns)

lemma sized_preprocess: "preprocessDebugImage env options page = Some page' \<Longrightarrow> sized_page page' = sized_page page"
  by (auto simp: preprocessDebugImage_def Let_def sized_page_def split: if_splits)

lemma sized_render_one:
  assumes "sized_renderer renderer" "rr_supports_page_rendering renderer \<or> (index < length legacy_pages \<and> list_all sized_page legacy_pages)"
  shows "yields (render_one env options renderer legacy_pages index) sized_page"
proof -
  have rendered: "yields (rendered_page renderer legacy_pages index) sized_page"
    using assms by (auto simp: rendered_page_def sized_renderer_def list_all_length
        intro!: yields_returns runs_post[OF yields_option])
  show ?thesis
    unfolding render_one_def
    by (rule yields_before, rule yields_and_then[OF rendered], rule yields_before, rule yields_before,
      rule yields_and_then[OF yields_option], rule yields_before, rule yields_returns) (simp add: sized_preprocess)
qed

lemma sized_oriented:
  assumes "sized_page page" "sized_rotation rotation"
  shows "yields (oriented env page rotation t) (\<lambda>(page', t). sized_page page')"
proof -
  have "sized_page page'" if "prepare_view env page rotation = Some page'" for page'
    using that assms by (auto simp: prepare_view_def sized_page_def sized_rotation_def size_ok_def workingWidth_def
        workingHeight_def Let_def split: if_splits option.splits)
  then show ?thesis
    using assms(1) by (auto simp: oriented_def intro!: yields_returns yields_and_then[OF yields_option])
qed

lemma sized_text_one:
  assumes "sized_page page"
  shows "yields (text_one env options services legacy index page)
     (\<lambda>(page', t, rotation, legacy'). sized_page page' \<and> sized_rotation rotation)"
proof -
  have rotation: "yields (rotation_run page degrees) sized_rotation" for degrees
    using assms by (auto simp: rotation_run_def make_rotation_def sized_rotation_def sized_page_def
        split: sum.split intro!: yields_returns)
  obtain result legacy' where result: "page_text_result_of services options legacy index page = (result, legacy')"
    by fastforce
  show ?thesis
    unfolding text_one_def result prod.case
    by (rule yields_before, rule yields_before, rule yields_before, rule yields_and_then[OF rotation],
      rule yields_and_then[OF sized_oriented[OF assms]]) (auto intro!: yields_before yields_returns)
qed

definition sized_acc :: "page_acc \<Rightarrow> bool" where
  "sized_acc acc \<longleftrightarrow> list_all sized_page (acc_pages acc) \<and> list_all sized_rotation (acc_rotations acc)"

lemma sized_process_page:
  assumes "sized_renderer renderer" "rr_supports_page_rendering renderer \<or> (index < length legacy_pages \<and> list_all sized_page legacy_pages)"
    and "sized_acc acc"
  shows "yields (process_page env options services renderer legacy_pages acc index) sized_acc"
  unfolding process_page_def
proof (rule yields_and_then[OF sized_render_one[OF assms(1,2)]])
  fix source assume source: "sized_page source"
  show "yields (and_then (text_one env options services (acc_legacy_texts acc) index source) (\<lambda>(page, t, rotation, legacy).
     and_then (layout_one env options services index page t) (\<lambda>layout.
     and_then (table_one env options services page t layout) (\<lambda>(tables, layout).
     before (stage_progress ''table'' (int index + 1))
       (returns (acc\<lparr>acc_pages := acc_pages acc @ [page], acc_texts := acc_texts acc @ [t],
          acc_layouts := acc_layouts acc @ [layout], acc_tables := acc_tables acc @ [tables],
          acc_rotations := acc_rotations acc @ [rotation],
          acc_image_paths := acc_image_paths acc @ [pa_output_path source],
          acc_legacy_texts := legacy\<rparr>)))))) sized_acc"
    using assms(3)
    by (intro yields_and_then[OF sized_text_one[OF source]])
      (auto split: prod.split simp: sized_acc_def intro!: yields_before yields_and_then[OF yields_any] yields_returns)
qed

lemma yields_require:
  "(\<phi> \<Longrightarrow> yields f V) \<Longrightarrow> yields (before (require \<phi> (stageFailed stage code message retryable)) f) V"
  by (rule runs_before[OF runs_require_ok[where P = "\<lambda>_. True", OF delivers_stops(1)]]) (auto simp: runs_def)

lemma sized_legacy:
  "sized_renderer renderer \<Longrightarrow> yields (legacy_pages_run renderer N) (\<lambda>pages. rr_supports_page_rendering renderer \<or>
     (int (length pages) = N \<and> list_all sized_page pages))"
  by (auto simp: legacy_pages_run_def sized_renderer_def
      intro!: yields_returns yields_and_then[OF yields_option] yields_require)

lemma sized_pages:
  assumes "sized_services services"
  shows "yields (pages_run env options services provenance) sized_acc"
proof -
  let ?N = "nat (sv_page_count services)"
  let ?acc = "\<lparr>acc_pages = [], acc_texts = [], acc_layouts = [], acc_tables = [], acc_rotations = [],
     acc_image_paths = [], acc_legacy_texts = None\<rparr>"
  have loop: "yields (loop_run (process_page env options services renderer legacy_pages) [0..<?N] ?acc)
      sized_acc"
    if "sized_renderer renderer" "rr_supports_page_rendering renderer \<or>
      (int (length legacy_pages) = sv_page_count services \<and> list_all sized_page legacy_pages)" for renderer legacy_pages
  proof (rule runs_pre[OF runs_loop[where I = "\<lambda>_ acc _. sized_acc acc"]])
    fix k acc assume "k < ?N"
    then show "delivers (\<lambda>_. sized_acc acc)
        (process_page env options services renderer legacy_pages acc k) (\<lambda>acc _. sized_acc acc)"
      using that by - (rule yields_pure, rule sized_process_page, auto)
  qed (simp_all add: sized_acc_def)
  have rest: "yields (and_then (legacy_pages_run renderer (sv_page_count services)) (\<lambda>legacy_pages.
      loop_run (process_page env options services renderer legacy_pages) [0..<?N] ?acc))
      sized_acc" if "sv_renderer services = Some renderer" for renderer
  proof -
    have sized: "sized_renderer renderer" using assms that by (simp add: sized_services_def)
    show ?thesis by (rule yields_and_then[OF sized_legacy[OF sized]]) (rule loop[OF sized])
  qed
  show ?thesis
    unfolding pages_run_def
    by (rule yields_before, rule yields_and_then[OF yields_option], rule yields_before, rule yields_before, rule yields_before,
      rule rest)
qed

lemma sized_create: "sized_origin options origin \<Longrightarrow> yields (create_services options origin) (\<lambda>x. sized_services (fst x))"
  by (cases origin) (auto simp: runs_def create_services_def require_def report_failure_def before_def and_then_def
      returns_def emit_def stop_with_def stageFailed_def sized_origin_def Let_def)

lemma sized_configure:
  "sized_origin options origin \<Longrightarrow> yields (configure_run options origin) (\<lambda>x. sized_services (fst x))"
  unfolding configure_run_def
  by (rule yields_before, rule yields_and_then[OF sized_create])
    (auto simp: Let_def split: prod.split intro!: yields_returns yields_before)

subsection \<open>The fingerprint is lower-case hexadecimal\<close>

lemma length_sha_round: "length st = 8 \<Longrightarrow> length (sha_round words st i) = 8"
  by (simp add: sha_round_def Let_def)

lemma length_transform: "length st = 8 \<Longrightarrow> length (transform st block) = 8"
proof -
  assume st: "length st = 8"
  have "length (foldl (sha_round words) st is) = 8" for words "is"
    using st by (induction "is" arbitrary: st) (simp_all add: length_sha_round)
  then show ?thesis using st by (simp add: transform_def Let_def)
qed

lemma hex_state_valid: "length st = 8 \<Longrightarrow> valid_sha256 (hex_state st)"
proof -
  assume st: "length st = 8"
  have "length (hex_state st) = 64"
    using st by (simp add: hex_state_def length_concat hex8_def comp_def sum_list_triv)
  moreover have "list_all (\<lambda>c. (48 \<le> (of_char c :: nat) \<and> (of_char c :: nat) \<le> 57) \<or>
      (97 \<le> (of_char c :: nat) \<and> (of_char c :: nat) \<le> 102)) (hex_state st)"
    by (auto simp: hex_state_def hex8_def hex_digit_def list_all_iff)
  ultimately show ?thesis by (simp add: valid_sha256_def)
qed

lemma sha256_spec_valid: "valid_sha256 (sha256_spec msg)"
proof -
  have "length (foldl transform Fingerprint.initial_state blocks) = 8" for blocks
    by (induction blocks rule: rev_induct) (simp_all add: length_transform Fingerprint.initial_state_def)
  then show ?thesis unfolding sha256_spec_def by (rule hex_state_valid)
qed

lemma fingerprint_valid:
  "fingerprintFile path input = Some (st, fingerprint) \<Longrightarrow>
   fp_sha256 fingerprint = [] \<or> valid_sha256 (fp_sha256 fingerprint)"
  using read_loop_absorbed[OF absorbed_init, of 0 "kReadSize - 1" "in_content input"]
  by (auto simp: fingerprintFile_def empty_fingerprint_def sha_finish_absorbed sha256_spec_valid split: if_splits)

subsection \<open>What assembly and restoration give\<close>

definition distinct_layout_ids :: "pipeline_artifacts \<Rightarrow> bool" where
  "distinct_layout_ids artifacts \<longleftrightarrow> list_all (\<lambda>page. distinct (map lb_id (pl_blocks (ppa_layout page)))) artifacts"

definition sound_parts :: "parsed_document \<Rightarrow> pipeline_artifacts \<Rightarrow> bool" where
  "sound_parts doc artifacts \<longleftrightarrow>
     (src_sha256 (pd_source doc) \<noteq> [] \<longrightarrow> valid_sha256 (src_sha256 (pd_source doc))) \<and>
     list_all (\<lambda>p. dp_id p = pageId (dp_number p) \<and> (\<exists>w h. size_ok w h \<and> dp_width p = real_of_int w \<and> dp_height p = real_of_int h))
       (pd_pages doc) \<and>
     list_all (relation_ok (db_id ` set (pd_blocks doc))) (pd_relations doc) \<and>
     (length artifacts = length (pd_pages doc) \<and> distinct_layout_ids artifacts \<longrightarrow>
        distinct (map db_id (pd_blocks doc)) \<and> [] \<notin> db_id ` set (pd_blocks doc))"

lemma assembled_sound:
  assumes "assemble version request = Some (doc, artifacts)" "list_all sized_page (rq_pages request)"
    and "rq_source_sha256 request = [] \<or> valid_sha256 (rq_source_sha256 request)"
  shows "sound_parts doc artifacts"
proof -
  have fields: "src_sha256 (pd_source doc) = rq_source_sha256 request" "pd_pages doc = map document_page_of (rq_pages request)"
    using assms(1) by (auto simp: assemble_def Let_def split: if_splits)
  have "[] \<notin> db_id ` set (pd_blocks doc)" if "distinct_layout_ids artifacts"
  proof -
    from that have "\<forall>m<length (pd_blocks doc). \<exists>n. db_id (pd_blocks doc ! m) = blockId n m"
      using assembled_ids[OF assms(1)] by (simp add: distinct_layout_ids_def)
    then show ?thesis by (fastforce simp: in_set_conv_nth blockId_def)
  qed
  moreover have "distinct (map db_id (pd_blocks doc))" if "distinct_layout_ids artifacts"
    using assembled_ids[OF assms(1)] that by (simp add: distinct_layout_ids_def)
  moreover have "list_all (relation_ok (db_id ` set (pd_blocks doc))) (pd_relations doc)"
    using assembled_relations[OF assms(1)] by (auto simp: relation_ok_def list_all_iff)
  ultimately show ?thesis
    using assms(2,3) unfolding sound_parts_def fields
    by (auto simp: list_all_iff document_page_of_def sized_page_def)
qed

lemma restored_sound:
  assumes "sound_parts doc artifacts" "list_all sized_rotation rotations"
    and "restoreSourceCoordinates doc artifacts rotations = Inr (doc', artifacts')"
  shows "sound_parts doc' artifacts'"
proof (cases "list_all (\<lambda>r. rot_degrees r = 0) rotations")
  case True
  then show ?thesis using assms by (auto simp: restoreSourceCoordinates_def split: if_splits)
next
  case False
  define m where "m = fold (\<lambda>(p, r) m. emplace m (dp_id p) r) (zip (pd_pages doc) rotations) Map.empty"
  from False assms(3) have len: "length rotations = length artifacts" "length rotations = length (pd_pages doc)"
    and doc': "doc' = doc\<lparr>pd_pages := map2 (\<lambda>p r. p\<lparr>dp_width := real_of_int (rot_width r),
        dp_height := real_of_int (rot_height r)\<rparr>) (pd_pages doc) rotations, pd_blocks := map (restore_block m) (pd_blocks doc)\<rparr>"
    and artifacts': "artifacts' = map2 (\<lambda>p r. restore_page r m p) artifacts rotations"
    by (auto simp: restoreSourceCoordinates_def Let_def m_def split: if_splits)
  have ids: "map db_id (map (restore_block m) bs) = map db_id bs" for bs
    by (simp add: restore_block_def Let_def split: option.split)
  then have blocks: "map db_id (pd_blocks doc') = map db_id (pd_blocks doc)" unfolding doc' by simp
  then have block_set: "db_id ` set (pd_blocks doc') = db_id ` set (pd_blocks doc)" by (metis list.set_map)
  have "distinct_layout_ids artifacts' = distinct_layout_ids artifacts"
    using len unfolding distinct_layout_ids_def artifacts'
    by (simp add: list_all_length restore_page_def comp_def)
  moreover have "list_all (\<lambda>p. dp_id p = pageId (dp_number p) \<and>
      (\<exists>w h. size_ok w h \<and> dp_width p = real_of_int w \<and> dp_height p = real_of_int h)) (pd_pages doc')"
    using assms(1,2) len unfolding doc' sound_parts_def
    by (auto simp: list_all_length sized_rotation_def)
  moreover have "src_sha256 (pd_source doc') = src_sha256 (pd_source doc)" "pd_relations doc' = pd_relations doc"
      "length artifacts' = length (pd_pages doc') \<longleftrightarrow> length artifacts = length (pd_pages doc)"
    using len by (simp_all add: doc' artifacts')
  ultimately show ?thesis
    using assms(1) unfolding sound_parts_def blocks block_set by simp
qed

lemma finished_sound:
  assumes "sound_parts doc artifacts" "length artifacts = length (pd_pages doc)"
  shows "sound_parts (applyRunMetadata options ds provenance doc) (restore_paths paths artifacts)"
proof -
  have "distinct_layout_ids artifacts" if "length (restore_paths paths artifacts) = length artifacts"
      "distinct_layout_ids (restore_paths paths artifacts)"
    using that by (auto simp: distinct_layout_ids_def restore_paths_def list_all_length)
  then show ?thesis
    using assms unfolding sound_parts_def applyRunMetadata_def Let_def by auto
qed

lemma restored_lengths:
  "restoreSourceCoordinates doc artifacts rotations = Inr (doc', artifacts') \<Longrightarrow> length artifacts' = length (pd_pages doc')"
  by (auto simp: restoreSourceCoordinates_def Let_def split: if_splits)

lemma sound_assembly:
  assumes "sized_acc acc" "fp_sha256 fingerprint = [] \<or> valid_sha256 (fp_sha256 fingerprint)"
  shows "yields (assembly_run env options services fingerprint acc orders tables recorded)
    (\<lambda>(doc, artifacts). sound_parts doc artifacts)"
proof -
  let ?request = "assembly_request options services fingerprint acc orders tables"
  have "sound_parts (applyRunMetadata options (fst recorded) (snd recorded) doc') (restore_paths (acc_image_paths acc) artifacts')"
    if "assemble (env_engine_version env) ?request = Some (doc, artifacts)"
      "restoreSourceCoordinates doc artifacts (acc_rotations acc) = Inr (doc', artifacts')" for doc artifacts doc' artifacts'
  proof -
    from that(1) assms have "sound_parts doc artifacts"
      by (intro assembled_sound) (auto simp: assembly_request_def sized_acc_def)
    then show ?thesis
      using assms(1) finished_sound[OF restored_sound[OF _ _ that(2)] restored_lengths[OF that(2)]]
      by (simp add: sized_acc_def)
  qed
  then show ?thesis
    unfolding assembly_run_def
    by - (rule yields_before, rule yields_before, rule yields_and_then[OF yields_option],
      auto split: sum.split prod.split intro!: yields_before yields_returns runs_stop)
qed

lemma sound_fingerprint:
  "yields (fingerprint_run env path) (\<lambda>fingerprint. fp_sha256 fingerprint = [] \<or> valid_sha256 (fp_sha256 fingerprint))"
  by (auto simp: fingerprint_run_def dest!: fingerprint_valid split: option.split prod.split
      intro!: runs_stop yields_before yields_returns)

lemma sound_parse:
  assumes "sized_origin options origin"
  shows "yields (parseInternal env options origin) (\<lambda>(doc, artifacts, _). sound_parts doc artifacts)"
proof -
  have opened: "yields (open_run env options services provenance)
      (\<lambda>fingerprint. fp_sha256 fingerprint = [] \<or> valid_sha256 (fp_sha256 fingerprint))" for services provenance
    unfolding open_run_def
    by (rule yields_before, rule yields_before, rule yields_and_then[OF sound_fingerprint])
      (rule yields_before, rule yields_before, rule yields_before, rule yields_returns)
  have "yields (and_then (open_run env options services provenance) (\<lambda>fingerprint.
     and_then (pages_run env options services provenance) (\<lambda>acc.
     and_then (finish_pages env options provenance acc) (\<lambda>(tables, recorded).
     and_then (reading_order_run env options services acc) (\<lambda>orders.
     and_then (assembly_run env options services fingerprint acc orders tables recorded) (\<lambda>(doc, artifacts).
     returns (doc, artifacts, snd recorded))))))) (\<lambda>(doc, artifacts, _). sound_parts doc artifacts)"
    if "sized_services services" for services provenance
  proof (rule yields_and_then[OF opened], rule yields_and_then[OF sized_pages[OF that]], rule yields_and_then[OF yields_any])
    fix fingerprint :: file_fingerprint and acc and x :: "page_tables list \<times> diagnostic list \<times> run_provenance"
    assume a: "fp_sha256 fingerprint = [] \<or> valid_sha256 (fp_sha256 fingerprint)" "sized_acc acc"
    obtain tables recorded where x: "x = (tables, recorded)" by (cases x)
    show "yields (case x of (tables, recorded) \<Rightarrow>
     and_then (reading_order_run env options services acc) (\<lambda>orders.
     and_then (assembly_run env options services fingerprint acc orders tables recorded) (\<lambda>(doc, artifacts).
     returns (doc, artifacts, snd recorded)))) (\<lambda>(doc, artifacts, _). sound_parts doc artifacts)"
      unfolding x prod.case
      by (rule yields_and_then[OF yields_any], rule yields_and_then[OF sound_assembly[OF a(2,1)]])
        (auto intro!: yields_returns)
  qed
  then show ?thesis
    unfolding parseInternal_def
    by - (rule yields_and_then[OF sized_configure[OF assms]], auto split: prod.split)
qed

subsection \<open>Warnings\<close>

definition diagnostic_ok :: "nat \<Rightarrow> diagnostic \<Rightarrow> bool" where
  "diagnostic_ok n d \<longleftrightarrow> dg_code d \<noteq> [] \<and> dg_message d \<noteq> [] \<and> dg_page_number d \<le> int n"

lemma aggregated_ok:
  assumes v: "v \<in> set (aggregateWarnings (map warning_of ds))" and ds: "list_all (diagnostic_ok n) ds" "length ds < 2 ^ 64"
  shows "warning_ok (pageId ` {1..int n}) blocks v"
proof -
  let ?ws = "map warning_of ds"
  note facts = aggregated_facts[of ?ws]
  have "set (map identity (aggregateWarnings ?ws)) = identity ` set ?ws"
    using arg_cong[OF conjunct1[OF facts], of set] by (simp only: set_first_seen set_map)
  moreover have "identity v \<in> set (map identity (aggregateWarnings ?ws))" using v by simp
  ultimately have "identity v \<in> identity ` set ?ws" by blast
  then obtain d where d: "d \<in> set ds" "identity v = identity (warning_of d)" by auto
  then have fields: "dw_code v \<noteq> []" "dw_message v \<noteq> []" "dw_block_id v = []"
    using ds(1) by (auto simp: identity_def warning_of_def list_all_iff diagnostic_ok_def)
  let ?mine = "filter (\<lambda>w. identity w = identity v) ?ws"
  have count: "occurrences (identity v) ?ws = length ?mine"
  proof -
    have "map (\<lambda>w. unat (dw_occurrence_count w)) ?mine = map (\<lambda>_. 1) ?mine"
      by (auto simp: warning_of_def)
    then show ?thesis by (simp only: occurrences_def sum_list_triv map_map length_map) (simp add: sum_list_triv)
  qed
  have few: "length ?mine \<le> 2 ^ 64 - 1"
    using le_less_trans[OF length_filter_le[of "\<lambda>w. identity w = identity v" ?ws], of "2 ^ 64"] ds(2) by simp
  have "unat (dw_occurrence_count v) = min (2 ^ 64 - 1) (occurrences (identity v) ?ws)" using facts v by blast
  then have n: "unat (dw_occurrence_count v) = length ?mine" unfolding count min_absorb2[OF few] .
  have "warning_of d \<in> set ?mine" using d by auto
  then have pos: "0 < length ?mine" by (metis length_pos_if_in_set)
  have pages: "set (warning_pages v) = pages_of (identity v) ?ws" "distinct (warning_pages v)"
    using facts v by auto
  have known: "pages_of (identity v) ?ws \<subseteq> pageId ` {1..int n}"
    using ds(1) by (auto simp: pages_of_def warning_pages_def warning_of_def list_all_iff diagnostic_ok_def pageId_def
        split: if_splits)
  have one: "warning_pages w = (if dw_page_id w = [] then [] else [dw_page_id w])" if "w \<in> warning_of ` set ds" for w
  proof -
    have "dw_page_ids w = []" using that by (auto simp: warning_of_def)
    then show ?thesis by (simp add: warning_pages_def)
  qed
  have "set (warning_pages v) \<subseteq> dw_page_id ` set ?mine"
    unfolding pages(1) by (auto simp: pages_of_def one split: if_splits)
  then have "card (set (warning_pages v)) \<le> card (dw_page_id ` set ?mine)" by (intro card_mono) simp_all
  also have "\<dots> \<le> card (set ?mine)" by (rule card_image_le) simp
  also have "\<dots> \<le> length ?mine" by (rule card_length)
  finally have "length (warning_pages v) \<le> length ?mine" using distinct_card[OF pages(2)] by simp
  moreover have "[] \<notin> set (dw_page_ids v)" using facts v by blast
  then have "filter (\<lambda>p. p \<noteq> []) (dw_page_ids v) = dw_page_ids v" by (auto simp: filter_id_conv)
  ultimately show ?thesis
    using fields n pos known pages facts v
    by (cases "dw_page_id v = []") (auto simp: warning_ok_def warning_pages_def)
qed

subsection \<open>A delivered document is valid\<close>

lemma inj_pageId: "inj pageId"
  by (auto simp: inj_def pageId_def dest: int_to_string_inj)

lemma delivered_valid:
  assumes "sound_parts doc artifacts" "delivered doc artifacts es" "distinct_layout_ids artifacts"
    and "list_all (diagnostic_ok (length (pd_pages doc))) (warnings_of es)" "length (warnings_of es) < 2 ^ 64"
  shows "core_model_ok doc"
proof -
  let ?n = "length (pd_pages doc)"
  from assms(2) obtain ds where numbers: "map dp_number (pd_pages doc) = [1..int ?n]"
    and lengths: "map ppa_page_number artifacts = map dp_number (pd_pages doc)"
    and ds: "mset ds = mset (warnings_of es)" "pd_warnings doc = aggregateWarnings (map warning_of ds)"
    and status: "pd_status doc = (if warnings_of es = [] then Complete else Partial)"
    by (auto simp: delivered_def)
  have "map dp_id (pd_pages doc) = map pageId (map dp_number (pd_pages doc))"
    using assms(1) by (simp add: sound_parts_def list_all_iff)
  then have ids: "map dp_id (pd_pages doc) = map pageId [1..int ?n]" unfolding numbers .
  have "set (map dp_id (pd_pages doc)) = pageId ` {1..int ?n}" unfolding ids by simp
  then have id_set: "dp_id ` set (pd_pages doc) = pageId ` {1..int ?n}" by simp
  have positive: "0 < dp_number p" if "p \<in> set (pd_pages doc)" for p
  proof -
    have "dp_number p \<in> set [1..int ?n]" using that unfolding numbers[symmetric] by simp
    then show ?thesis by simp
  qed
  have finite_size: "isfinite (real_of_int w) \<and> isfinite (real_of_int h)" if "size_ok w h" for w h
  proof -
    have "\<bar>real_of_int w\<bar> \<le> 2 ^ 31" "\<bar>real_of_int h\<bar> \<le> 2 ^ 31" using that by (simp_all add: size_ok_def)
    moreover have "2 ^ 31 \<le> dbl_max" by (simp add: dbl_max_def)
    ultimately show ?thesis unfolding isfinite_def by linarith
  qed
  have pages: "list_all page_ok (pd_pages doc)"
    using assms(1) positive finite_size
    by (fastforce simp: sound_parts_def list_all_iff page_ok_def pageId_def size_ok_def)
  have same: "list_all (diagnostic_ok ?n) ds" "length ds < 2 ^ 64"
    using assms(4,5) mset_eq_setD[OF ds(1)] mset_eq_length[OF ds(1)] by (simp_all add: list_all_iff)
  have warnings: "list_all (warning_ok (dp_id ` set (pd_pages doc)) blocks) (pd_warnings doc)" for blocks
    unfolding id_set ds(2) using aggregated_ok[OF _ same] by (simp add: list_all_iff)
  have explained: "pd_warnings doc \<noteq> []" if "pd_status doc = Partial"
    using that status ds by (auto simp: aggregate_empty split: if_splits)
  have "distinct (map dp_id (pd_pages doc))" unfolding ids by (simp add: distinct_map inj_on_subset[OF inj_pageId])
  moreover have "distinct (map dp_number (pd_pages doc))" unfolding numbers by simp
  moreover have "length artifacts = length (pd_pages doc)" using arg_cong[OF lengths, of length] by simp
  ultimately show ?thesis
    using assms(1,3) pages warnings explained by (auto simp: core_model_ok_def sound_parts_def)
qed

lemma parsed_valid:
  assumes "parseInternal env options origin initial_state = (Inr (doc, artifacts, provenance), s)"
    and "sized_origin options origin" "distinct_layout_ids artifacts"
    and "list_all (diagnostic_ok (length (pd_pages doc))) (warnings_of (ps_events s))"
    and "length (warnings_of (ps_events s)) < 2 ^ 64"
  shows "ok_status (validateCoreModel doc)"
proof -
  have "noted initial_state = ([], \<lambda>_. [])" by (simp add: noted_def initial_state_def warnings_of_def)
  then have "delivered doc artifacts (ps_events s)"
    using runsD[OF delivers_parse, of initial_state env options origin] initial_point assms(1) by simp
  moreover have "sound_parts doc artifacts"
    using runsD[OF sound_parse[OF assms(2)], of env initial_state] assms(1) by simp
  ultimately have "core_model_ok doc" using assms(3-5) by (intro delivered_valid)
  then show ?thesis by (simp add: validate_iff)
qed

text \<open>
  C5: A document that a run delivers passes the exporter's validation: its hash is lower-case
  hexadecimal, its pages have a size and distinct ids and numbers, its block ids are distinct, its
  relations join two of its blocks, and every warning names pages of the document and counts at
  least as many occurrences as pages. This needs that the renderer's pages have a size, that no
  page's layout uses an id twice, and that the warnings the backends gave have a code and a
  message and do not name a page after the last.
\<close>

theorem delivered_document_valid:
  assumes "parseInternal env options origin initial_state = (Inr (doc, artifacts, provenance), s)"
    and "sized_origin options origin" "distinct_layout_ids artifacts"
    and "list_all (diagnostic_ok (length (pd_pages doc))) (warnings_of (ps_events s))"
    and "length (warnings_of (ps_events s)) < 2 ^ 64"
  shows "ok_status (validateCoreModel doc)"
  using assms by (rule parsed_valid)

theorem delivered_document_valid_witness:
  "\<exists>doc artifacts provenance s. parseInternal sample_environment sample_options
     (GivenServices sample_services sample_provenance) initial_state = (Inr (doc, artifacts, provenance), s) \<and>
   length (pd_pages doc) = 1 \<and> ok_status (validateCoreModel doc)"
proof -
  obtain doc artifacts provenance s where run: "parseInternal sample_environment sample_options
     (GivenServices sample_services sample_provenance) initial_state = (Inr (doc, artifacts, provenance), s)"
    and facts: "list_all (\<lambda>p. pl_blocks (ppa_layout p) = []) artifacts" "length (pd_pages doc) = 1"
      "warnings_of (ps_events s) = [sample_notice]"
    using sample_run by blast
  have "sized_origin sample_options (GivenServices sample_services sample_provenance)"
    by (simp add: sized_origin_def sized_services_def sample_services_def sized_renderer_def sample_renderer_def sized_page_def size_ok_def)
  moreover have "distinct_layout_ids artifacts" using facts(1) by (simp add: distinct_layout_ids_def list_all_iff)
  moreover have "list_all (diagnostic_ok (length (pd_pages doc))) (warnings_of (ps_events s))"
    unfolding facts by (simp add: diagnostic_ok_def sample_notice_def)
  moreover have "length (warnings_of (ps_events s)) < 2 ^ 64" unfolding facts by simp
  ultimately show ?thesis using delivered_document_valid[OF run] run facts(2) by blast
qed

subsection \<open>From the source to the files\<close>

lemma manifest_extension: "path_extension (op_manifest_json (output_paths_of options)) = ''.json''"
proof -
  have "path_filename (path_join root ''document.json'') = ''document.json''" for root
    by (rule filename_join) simp
  then show ?thesis by (simp add: output_paths_of_def Let_def path_extension_def)
qed

text \<open>Until the export, a run changes none of the files it exports to.\<close>

definition untouched :: "'a run \<Rightarrow> bool" where
  "untouched m \<longleftrightarrow> (\<forall>s. ps_changes (snd (m s)) = ps_changes s)"

lemma untouched_return [intro!]: "untouched (returns x)"
  by (simp add: untouched_def returns_def)

lemma untouched_stop [intro!]: "untouched (stop_with e)"
  by (simp add: untouched_def stop_with_def)

lemma untouched_and_then [intro!]: "untouched m \<Longrightarrow> (\<And>x. untouched (f x)) \<Longrightarrow> untouched (and_then m f)"
  by (auto simp: untouched_def and_then_def split: prod.split sum.split) (metis snd_conv)+

lemma untouched_before [intro!]: "untouched m \<Longrightarrow> untouched f \<Longrightarrow> untouched (before m f)"
  unfolding before_def by (intro untouched_and_then)

lemma untouched_emit [intro!]: "untouched (emit e)"
  by (simp add: untouched_def emit_def)

lemma untouched_failure [intro!]:
  "untouched (report_failure st)" "untouched (stageFailed stage code message retryable)" "untouched (failed_stage stage st)"
  by (auto simp: report_failure_def stageFailed_def failed_stage_def)

lemma untouched_require [intro!]: "untouched failed \<Longrightarrow> untouched (require ok failed)"
  by (auto simp: require_def)

lemma untouched_option [intro!]: "untouched failed \<Longrightarrow> untouched (option_run x failed)"
  by (auto simp: option_run_def split: option.split)

lemma untouched_deadline [intro!]: "untouched (deadlineStatus env options stage)"
proof -
  have "untouched (stageFailed stage code message False :: unit run)" for code message
    by (rule untouched_failure)
  then have "ps_changes (snd ((stageFailed stage code message False :: unit run) (s\<lparr>ps_clock := k\<rparr>))) = ps_changes s"
    for code message s k
    by (simp add: untouched_def)
  then show ?thesis unfolding untouched_def deadlineStatus_def by (auto simp: returns_def Let_def)
qed

lemma untouched_stage [intro!]:
  "untouched (create_stage n b k)" "untouched (stage_begin n)" "untouched (stage_progress n k)" "untouched (stage_diagnostics n)"
  "untouched (stage_warning n d)"
  by (auto simp: untouched_def create_stage_def stage_begin_def stage_progress_def stage_diagnostics_def stage_warning_def emit_def
      returns_def Let_def)

lemma untouched_warnings [intro!]: "untouched (stage_warnings n ds)"
  by (induction ds) auto

lemma untouched_complete [intro!]: "untouched (stage_complete n)"
proof -
  have "untouched (before (if b then returns () else before (stage_begin n) (stage_progress n 0)) (emit (StageCompleted n)))" for b
    by auto
  then show ?thesis unfolding untouched_def stage_complete_def by blast
qed

lemma untouched_loop: "(\<And>acc i. untouched (f acc i)) \<Longrightarrow> untouched (loop_run f is acc)"
proof (induction "is" arbitrary: acc)
  case (Cons i "is")
  then show ?case by (auto simp del: loop_run.simps simp: loop_run.simps(2))
qed auto

lemma untouched_page: "untouched (process_page env options services renderer legacy_pages acc index)"
  by (auto simp: process_page_def render_one_def rendered_page_def text_one_def rotation_run_def oriented_def layout_one_def
      table_one_def Let_def split: sum.split prod.split)

lemma untouched_parse: "untouched (parseInternal env options origin)"
proof -
  have "untouched (configure_run options origin)" "untouched (open_run env options services provenance)" for services provenance
    by (auto simp: configure_run_def create_services_def open_run_def fingerprint_run_def Let_def
        split: service_origin.split option.split prod.split)
  moreover have "untouched (pages_run env options services provenance)" for services provenance
    by (auto simp: pages_run_def create_stages_def legacy_pages_run_def Let_def intro!: untouched_loop untouched_page)
  moreover have "untouched (finish_pages env options provenance acc)" for provenance acc
    by (auto simp: finish_pages_def Let_def split: prod.split)
  moreover have "untouched (reading_order_run env options services acc)" for services acc
    by (auto simp: reading_order_run_def Let_def)
  moreover have "untouched (assembly_run env options services fingerprint acc orders tables recorded)"
    for services fingerprint acc orders tables recorded
    by (auto simp: assembly_run_def split: sum.split prod.split)
  ultimately show ?thesis by (auto simp: parseInternal_def split: prod.split)
qed

lemma parse_changes: "parseInternal env options origin initial_state = (r, s) \<Longrightarrow> ps_changes s = []"
  using untouched_parse[of env options origin] by (auto simp: untouched_def initial_state_def dest: spec[of _ initial_state])

text \<open>The export's result, its changes, and what it leaves of the run's warnings.\<close>

lemma deadline_before:
  "\<exists>s'. ps_changes s' = ps_changes s \<and> noted s' = noted s \<and>
     (before (deadlineStatus env options stage) f s = f s' \<or> (\<exists>err. before (deadlineStatus env options stage) f s = (Inl err, s')))"
proof -
  obtain r s' where d: "deadlineStatus env options stage s = (r, s')" by fastforce
  have "ps_changes s' = ps_changes s" "noted s' = noted s"
    using untouched_deadline[of env options stage] quiet_deadline[of env options stage] d
    by (auto simp: untouched_def quiet_def dest: spec[of _ s])
  then show ?thesis by (cases r) (auto simp: before_def and_then_def d)
qed

lemma export_result:
  assumes "env_write_document env doc artifacts = Some (st, cs)" "exportResult env options doc artifacts s = (r, s')"
  shows "ps_changes s' = ps_changes s @ cs" "r = Inr () \<longleftrightarrow> ok_status st" "noted s' = noted s"
  using assms
  by (auto simp: exportResult_def before_def and_then_def emit_def option_run_def require_def returns_def change_files_def Let_def
      failed_stage_def stageFailed_def report_failure_def stop_with_def noted_def split: if_splits)

lemma delivered_noted: "noted s' = noted s \<Longrightarrow> delivered doc artifacts (ps_events s) \<Longrightarrow> delivered doc artifacts (ps_events s')"
  by (simp add: delivered_def noted_def)

lemma run_export_request:
  "xr_document (run_export options doc artifacts) = Some doc" "path_extension (xr_output_path (run_export options doc artifacts)) = ''.json''"
  "xr_output_path (run_export options doc artifacts) \<noteq> []"
proof -
  show json: "path_extension (xr_output_path (run_export options doc artifacts)) = ''.json''"
    by (simp add: run_export_def manifest_extension)
  then show "xr_output_path (run_export options doc artifacts) \<noteq> []" by (auto simp: path_extension_def path_filename_def)
qed (simp add: run_export_def)

text \<open>What a run of the pipeline leaves of the document that its parsing returned.\<close>

definition leaves_files ::
  "json_library \<Rightarrow> run_options \<Rightarrow> files \<Rightarrow> parsed_document \<Rightarrow> pipeline_artifacts \<Rightarrow> bool \<Rightarrow> fs_change list \<Rightarrow> bool" where
  "leaves_files lib options m doc artifacts succeeded cs \<longleftrightarrow>
     (case serialize lib \<lparr>sq_debug = ro_debug options, sq_document = Some doc, sq_artifacts = Some artifacts\<rparr> of
        Inl _ \<Rightarrow> \<not> succeeded \<and> cs = []
      | Inr content \<Rightarrow>
          let outputs = export_outputs (op_manifest_json (output_paths_of options)) (content @ line_end) doc
          in always (old_or_new m outputs) cs m \<and>
             (succeeded \<longrightarrow> list_all (\<lambda>(path, new). changes cs m path = Some new) outputs))"

lemma leaves_nothing: "leaves_files lib options m doc artifacts False []"
  by (simp add: leaves_files_def Let_def old_or_new_refl split: sum.split)

lemma written_leaves:
  assumes "\<forall>p content. disk_delivers (disks p) content" "multi_write lib disks (run_export options doc artifacts) = (st, cs)"
  shows "leaves_files lib options m doc artifacts (ok_status st) cs"
proof -
  let ?r = "run_export options doc artifacts"
  have r: "xr_debug ?r = ro_debug options" "xr_document ?r = Some doc" "xr_artifacts ?r = Some artifacts"
      "xr_output_path ?r = op_manifest_json (output_paths_of options)"
    by (simp_all add: run_export_def)
  show ?thesis
  proof (cases "serialized lib ?r")
    case (Inl failure)
    have "(st, cs) = (failure, []) \<and> \<not> ok_status failure"
      using multi_write_unprinted[OF Inl _ run_export_request(3)] assms(2) by (simp add: r)
    then show ?thesis using Inl by (simp add: leaves_files_def r)
  next
    case (Inr content)
    show ?thesis
      using multi_write_outputs[where disks = disks and m = m, OF _ run_export_request(1,2) Inr] assms Inr
      by (simp add: leaves_files_def r Let_def)
  qed
qed

lemma run_leaves_files:
  assumes disks: "\<forall>p content. disk_delivers (disks p) content"
    and parse: "parseInternal (with_exporter lib disks options env) options (RegistryServices create) initial_state =
      (Inr (doc, artifacts, provenance), s1)"
    and run: "pipeline_run (with_exporter lib disks options env) options create initial_state = (r, s)"
  shows "delivered doc artifacts (ps_events s) \<and> leaves_files lib options m doc artifacts (r = Inr ()) (ps_changes s)"
proof -
  let ?env = "with_exporter lib disks options env"
  let ?export = "exportResult ?env options doc artifacts"
  obtain st cs where w: "multi_write lib disks (run_export options doc artifacts) = (st, cs)" by fastforce
  have written: "env_write_document ?env doc artifacts = Some (st, cs)" by (simp add: with_exporter_def w)
  have "noted initial_state = ([], \<lambda>_. [])" by (simp add: noted_def initial_state_def warnings_of_def)
  then have delivered: "delivered doc artifacts (ps_events s1)"
    using runsD[OF delivers_parse, of initial_state ?env options "RegistryServices create"] initial_point parse by simp
  have whole: "before (deadlineStatus ?env options ''export'') ?export s1 = (r, s)"
    using run parse by (simp add: pipeline_run_def and_then_def)
  obtain s2 where s2: "ps_changes s2 = []" "noted s2 = noted s1"
      "before (deadlineStatus ?env options ''export'') ?export s1 = ?export s2 \<or>
       (\<exists>err. before (deadlineStatus ?env options ''export'') ?export s1 = (Inl err, s2))"
    using deadline_before[of s1 ?env options "''export''" ?export] parse_changes[OF parse] by auto
  from s2(3) show ?thesis
  proof
    assume "before (deadlineStatus ?env options ''export'') ?export s1 = ?export s2"
    then have "?export s2 = (r, s)" using whole by simp
    note result = export_result[OF written this]
    then show ?thesis
      using s2 delivered_noted[OF _ delivered, of s] written_leaves[OF disks w, of m] by simp
  next
    assume "\<exists>err. before (deadlineStatus ?env options ''export'') ?export s1 = (Inl err, s2)"
    then have "r \<noteq> Inr ()" "s = s2" using whole by auto
    then show ?thesis using s2 delivered_noted[OF _ delivered, of s] leaves_nothing by simp
  qed
qed

text \<open>
  C3: A run leaves the document it parsed in its files, or the files as they were. Where the parsing fails nothing is
  written. Otherwise let \<open>doc\<close> be the document that it returned, whose pages and warnings are those of the run (\<open>delivered\<close>):
  where \<open>serialize\<close> gives no text for it the run fails and changes no file; else, at every moment of the export, the JSON file holds
  what it held or the complete text that \<open>serialize\<close> gave for \<open>doc\<close>, and the Markdown and HTML files what they held or the complete
  text of \<open>doc\<close>; and a run that succeeds leaves all three new.
\<close>

theorem run_delivers_files:
  assumes "\<forall>p content. disk_delivers (disks p) content"
  shows "case pipeline_run (with_exporter lib disks options env) options create initial_state of
     (r, s) \<Rightarrow>
       (case fst (parseInternal (with_exporter lib disks options env) options (RegistryServices create) initial_state) of
          Inl _ \<Rightarrow> r \<noteq> Inr () \<and> ps_changes s = []
        | Inr (doc, artifacts, provenance) \<Rightarrow>
            delivered doc artifacts (ps_events s) \<and> leaves_files lib options m doc artifacts (r = Inr ()) (ps_changes s))"
proof -
  obtain p s1 where parse: "parseInternal (with_exporter lib disks options env) options (RegistryServices create) initial_state = (p, s1)"
    by fastforce
  show ?thesis
  proof (cases p)
    case (Inl err)
    then show ?thesis using parse parse_changes[OF parse] by (simp add: pipeline_run_def and_then_def)
  next
    case (Inr x)
    obtain doc artifacts provenance where x: "x = (doc, artifacts, provenance)" by (cases x)
    show ?thesis
      using run_leaves_files[OF assms parse[unfolded Inr x], of _ _ m] parse Inr x by (auto split: prod.split)
  qed
qed

text \<open>The sample run, exported to a disk that works: it succeeds, and its files hold the new text.\<close>

definition sample_creation :: service_creation where
  "sample_creation = \<lparr>sc_status = status_ok, sc_provenance = sample_provenance, sc_services = sample_services\<rparr>"

lemma deadline_environment: "deadlineStatus (with_exporter lib disks options env) = deadlineStatus env"
  by (simp add: fun_eq_iff deadlineStatus_def with_exporter_def)

lemma page_environment: "process_page (with_exporter lib disks options env) = process_page env"
proof -
  have images: "preprocessDebugImage (with_exporter lib disks options env) = preprocessDebugImage env"
    "prepare_view (with_exporter lib disks options env) = prepare_view env"
    by (simp_all add: fun_eq_iff preprocessDebugImage_def prepare_view_def with_exporter_def Let_def split: option.split)
  show ?thesis
    by (intro ext) (unfold process_page_def render_one_def text_one_def oriented_def layout_one_def table_one_def deadline_environment
        images, rule refl)
qed

lemma parse_environment: "parseInternal (with_exporter lib disks options env) = parseInternal env"
proof -
  have fields: "env_source (with_exporter lib disks options env) = env_source env"
    "env_engine_version (with_exporter lib disks options env) = env_engine_version env"
    by (simp_all add: with_exporter_def)
  show ?thesis
    by (intro ext) (unfold parseInternal_def open_run_def fingerprint_run_def pages_run_def finish_pages_def reading_order_run_def
        assembly_run_def deadline_environment page_environment fields, rule refl)
qed

lemma registry_given:
  "parseInternal env options (RegistryServices (\<lambda>_. sample_creation)) = parseInternal env options (GivenServices sample_services sample_provenance)"
proof -
  have "create_services options (RegistryServices (\<lambda>_. sample_creation)) = create_services options (GivenServices sample_services sample_provenance)"
    by (simp add: fun_eq_iff create_services_def sample_creation_def before_def and_then_def returns_def require_def)
  then have "configure_run options (RegistryServices (\<lambda>_. sample_creation)) = configure_run options (GivenServices sample_services sample_provenance)"
    unfolding configure_run_def by simp
  then show ?thesis by (simp add: parseInternal_def)
qed

lemma good_disk_writes: "\<exists>cs. write_output good_disk path content = (Written, cs)"
  by (simp add: write_output_def open_output_def commit_output_def good_disk_def Let_def split: prod.split)

text \<open>A document that passes the validation is exported.\<close>

lemma sample_export_works:
  assumes "ok_status (validateCoreModel doc)" "path \<noteq> []"
  shows "ok_status (fst (multi_write sample_library (\<lambda>_. good_disk) \<lparr>xr_debug = False, xr_output_path = path, xr_document = Some doc,
      xr_artifacts = Some artifacts\<rparr>))"
    "serialize sample_library \<lparr>sq_debug = False, sq_document = Some doc, sq_artifacts = Some artifacts\<rparr> = Inr ''{}''"
proof -
  show printed: "serialize sample_library \<lparr>sq_debug = False, sq_document = Some doc, sq_artifacts = Some artifacts\<rparr> = Inr ''{}''"
    using assms(1) by (simp add: serialize_def Let_def manifest_of_def manifestToJson_def sample_library_def)
  have renamed: "replace_extension path ''.md'' \<noteq> []" "replace_extension path ''.html'' \<noteq> []"
    by (simp_all add: replace_extension_def)
  obtain c1 c2 c3 where w: "write_output good_disk path (''{}'' @ line_end) = (Written, c1)"
      "write_output good_disk (replace_extension path ''.md'') (markdown_document doc) = (Written, c2)"
      "write_output good_disk (replace_extension path ''.html'') (html_document doc) = (Written, c3)"
    using good_disk_writes by meson
  then show "ok_status (fst (multi_write sample_library (\<lambda>_. good_disk) \<lparr>xr_debug = False, xr_output_path = path,
      xr_document = Some doc, xr_artifacts = Some artifacts\<rparr>))"
    using printed assms(2) renamed
    by (simp add: multi_write_def json_write_def markdown_write_def html_write_def text_write_def validateRequest_def Let_def)
qed

lemma sample_run_valid:
  "\<exists>doc artifacts provenance s. parseInternal sample_environment sample_options
     (GivenServices sample_services sample_provenance) initial_state = (Inr (doc, artifacts, provenance), s) \<and>
   length (pd_pages doc) = 1 \<and> ok_status (validateCoreModel doc)"
proof -
  obtain doc artifacts provenance s where run: "parseInternal sample_environment sample_options
     (GivenServices sample_services sample_provenance) initial_state = (Inr (doc, artifacts, provenance), s)"
    and facts: "list_all (\<lambda>p. pl_blocks (ppa_layout p) = []) artifacts" "length (pd_pages doc) = 1"
      "warnings_of (ps_events s) = [sample_notice]"
    using sample_run by blast
  have "sized_origin sample_options (GivenServices sample_services sample_provenance)"
    by (simp add: sized_origin_def sized_services_def sample_services_def sized_renderer_def sample_renderer_def sized_page_def size_ok_def)
  moreover have "distinct_layout_ids artifacts" using facts(1) by (simp add: distinct_layout_ids_def list_all_iff)
  moreover have "list_all (diagnostic_ok (length (pd_pages doc))) (warnings_of (ps_events s))"
    unfolding facts by (simp add: diagnostic_ok_def sample_notice_def)
  moreover have "length (warnings_of (ps_events s)) < 2 ^ 64" unfolding facts by simp
  ultimately show ?thesis using parsed_valid[OF run] run facts(2) by blast
qed

theorem run_delivers_files_witness:
  "\<exists>s doc. pipeline_run (with_exporter sample_library (\<lambda>_. good_disk) sample_options sample_environment) sample_options
     (\<lambda>_. sample_creation) initial_state = (Inr (), s) \<and> length (pd_pages doc) = 1 \<and>
   list_all (\<lambda>(path, new). changes (ps_changes s) Map.empty path = Some new)
     (export_outputs (op_manifest_json (output_paths_of sample_options)) (''{}'' @ line_end) doc)"
proof -
  let ?env = "with_exporter sample_library (\<lambda>_. good_disk) sample_options sample_environment"
  obtain doc artifacts provenance s1 where parse: "parseInternal ?env sample_options (RegistryServices (\<lambda>_. sample_creation)) initial_state =
      (Inr (doc, artifacts, provenance), s1)" and one: "length (pd_pages doc) = 1" and ok: "ok_status (validateCoreModel doc)"
    using sample_run_valid unfolding parse_environment registry_given by blast
  have debug: "\<not> ro_debug sample_options" "ro_timeout_seconds sample_options = 0" by (simp_all add: sample_options_def)
  have "run_export sample_options doc artifacts = \<lparr>xr_debug = False, xr_output_path = op_manifest_json (output_paths_of sample_options),
      xr_document = Some doc, xr_artifacts = Some artifacts\<rparr>"
    by (simp add: run_export_def debug)
  moreover have path: "op_manifest_json (output_paths_of sample_options) \<noteq> []"
    using run_export_request(3)[of sample_options doc artifacts] by (simp add: run_export_def)
  ultimately obtain st cs where w: "env_write_document ?env doc artifacts = Some (st, cs)" "ok_status st"
    using sample_export_works(1)[OF ok path, of artifacts] by (simp add: with_exporter_def) (metis prod.collapse)
  obtain r s where run: "pipeline_run ?env sample_options (\<lambda>_. sample_creation) initial_state = (r, s)" by fastforce
  then have "exportResult ?env sample_options doc artifacts s1 = (r, s)"
    using parse by (simp add: pipeline_run_def before_def and_then_def deadlineStatus_def debug returns_def)
  then have success: "r = Inr ()" using export_result(2)[OF w(1)] w(2) by simp
  have "\<forall>p content. disk_delivers good_disk content" by (simp add: disk_delivers_def good_disk_def)
  from run_delivers_files[where disks = "\<lambda>_ :: string. good_disk" and m = Map.empty, OF this, of sample_library sample_options
      sample_environment "\<lambda>_. sample_creation"]
  have "leaves_files sample_library sample_options Map.empty doc artifacts True (ps_changes s)"
    unfolding run parse by (simp add: success)
  then show ?thesis
    using run success one sample_export_works(2)[OF ok path, of artifacts]
    by (auto simp: leaves_files_def debug Let_def)
qed

end
