(* ===== verification/Engine_Config.thy ===== *)
theory Engine_Config
  imports Pipeline
begin

text \<open>
  The engine's configuration, \<open>engine_config.h\<close>, and how process entry points override it from
  environment variables, \<open>engine_config.cpp\<close>. The environment is an argument (\<open>std::getenv\<close>).
\<close>

subsection \<open>Configuration\<close>

record tesseract_config =
  ts_executable :: string
  ts_language :: string

record paddle_profile =
  pp_name :: string
  pp_detection_mean :: "double list"
  pp_detection_std :: "double list"
  pp_detection_scale :: double
  pp_recognition_mean :: "double list"
  pp_recognition_std :: "double list"
  pp_recognition_scale :: double
  pp_convert_bgr_to_rgb :: bool

record paddle_ocr_config =
  po_detection_model :: string
  po_recognition_model :: string
  po_character_dict :: string
  po_profile :: paddle_profile
  po_detection_limit_side :: int
  po_recognition_image_height :: int
  po_recognition_base_width :: int
  po_recognition_max_width :: int
  po_recognition_width_multiple :: int
  po_recognition_batch_size :: "64 word"
  po_detection_max_candidates :: "64 word"
  po_detection_threshold :: double
  po_box_threshold :: double
  po_recognition_threshold :: double
  po_unclip_ratio :: double
  po_recover_upside_down :: bool

record doclaynet_config =
  dn_model_path :: string
  dn_input_width :: int
  dn_input_height :: int
  dn_confidence_threshold :: double

record paddle_layout_config =
  pd_model_path :: string
  pd_input_width :: int
  pd_input_height :: int
  pd_confidence_threshold :: double

record table_transformer_config =
  tt_detection_model_path :: string
  tt_structure_model_path :: string
  tt_detection_confidence_threshold :: double
  tt_structure_confidence_threshold :: double
  tt_crop_padding :: int

record engine_config =
  ec_backends :: backend_options
  ec_tesseract :: tesseract_config
  ec_paddle_ocr :: paddle_ocr_config
  ec_doclaynet :: doclaynet_config
  ec_paddle_layout :: paddle_layout_config
  ec_table_transformer :: table_transformer_config

text \<open>The defaults of a build tree; \<open>float\<close> literals are read as the decimal numbers they print.\<close>

definition default_backend_options :: backend_options where
  "default_backend_options = \<lparr>bo_document = ''auto'', bo_ocr = ''auto'', bo_layout = ''auto'', bo_table = ''auto'',
     bo_registry_config = []\<rparr>"

definition default_paddle_profile :: paddle_profile where
  "default_paddle_profile = \<lparr>pp_name = ''ppocrv5_mobile'', pp_detection_mean = [0.485, 0.456, 0.406],
     pp_detection_std = [0.229, 0.224, 0.225], pp_detection_scale = 1 / 255, pp_recognition_mean = [0.5, 0.5, 0.5],
     pp_recognition_std = [0.5, 0.5, 0.5], pp_recognition_scale = 1 / 255, pp_convert_bgr_to_rgb = False\<rparr>"

definition defaultEngineConfig :: engine_config where
  "defaultEngineConfig =
     \<lparr>ec_backends = default_backend_options,
      ec_tesseract = \<lparr>ts_executable = ''tesseract'', ts_language = ''eng''\<rparr>,
      ec_paddle_ocr = \<lparr>po_detection_model = path_join ''models/paddleocr/baseline'' ''det.onnx'',
        po_recognition_model = path_join ''models/paddleocr/baseline'' ''rec.onnx'',
        po_character_dict = path_join ''models/paddleocr/baseline'' ''ppocrv5_dict.txt'',
        po_profile = default_paddle_profile, po_detection_limit_side = 960, po_recognition_image_height = 48,
        po_recognition_base_width = 320, po_recognition_max_width = 2048, po_recognition_width_multiple = 8,
        po_recognition_batch_size = 8, po_detection_max_candidates = 1000, po_detection_threshold = 0.3,
        po_box_threshold = 0.5, po_recognition_threshold = 0.1, po_unclip_ratio = 1.5, po_recover_upside_down = True\<rparr>,
      ec_doclaynet = \<lparr>dn_model_path = ''models/layout/doclaynet/model.onnx'', dn_input_width = 576,
        dn_input_height = 576, dn_confidence_threshold = 0.5\<rparr>,
      ec_paddle_layout = \<lparr>pd_model_path = ''models/layout/paddle/pp-doclayout-v3.onnx'', pd_input_width = 800,
        pd_input_height = 800, pd_confidence_threshold = 0.5\<rparr>,
      ec_table_transformer = \<lparr>tt_detection_model_path = ''models/table/table-transformer/detection.onnx'',
        tt_structure_model_path = ''models/table/table-transformer/structure.onnx'',
        tt_detection_confidence_threshold = 0.9, tt_structure_confidence_threshold = 0.5, tt_crop_padding = 20\<rparr>\<rparr>"

subsection \<open>Reading numbers: \<open>std::stoi\<close> and \<open>std::stod\<close>\<close>

text \<open>
  Both skip white space, take a sign and the longest number that follows, and ignore the rest;
  they throw (\<open>None\<close>) without a digit or out of range.
\<close>

fun sign_of :: "string \<Rightarrow> int \<times> string" where
  "sign_of (c # s) = (if c = CHR ''-'' then (-1, s) else if c = CHR ''+'' then (1, s) else (1, c # s))"
| "sign_of [] = (1, [])"

definition digit_value :: "char \<Rightarrow> int" where
  "digit_value c = of_char c - 48"

definition digits_value :: "string \<Rightarrow> int" where
  "digits_value ds = foldl (\<lambda>n c. n * 10 + digit_value c) 0 ds"

definition stoi :: "string \<Rightarrow> int option" where
  "stoi s =
     (case sign_of (dropWhile isspace s) of
        (sign, rest) \<Rightarrow>
          let digits = takeWhile isdigit rest; n = sign * digits_value digits
          in if digits = [] \<or> n < - (2 ^ 31) \<or> 2 ^ 31 \<le> n then None else Some n)"

definition exponent_of :: "string \<Rightarrow> int" where
  "exponent_of s =
     (case s of
        c # rest \<Rightarrow>
          if c = CHR ''e'' \<or> c = CHR ''E''
          then (case sign_of rest of (sign, rest) \<Rightarrow> sign * digits_value (takeWhile isdigit rest))
          else 0
      | [] \<Rightarrow> 0)"

text \<open>
  Decimal numbers. \<open>inf\<close>, \<open>nan\<close> and hexadecimal floats, which \<open>std::stod\<close> reads too, are what
  \<open>other\<close> says of them.
\<close>

definition decimal_value :: "string \<Rightarrow> real option" where
  "decimal_value s =
     (let whole = takeWhile isdigit s; rest = dropWhile isdigit s;
          fraction = (case rest of c # r \<Rightarrow> if c = CHR ''.'' then takeWhile isdigit r else [] | [] \<Rightarrow> []);
          rest = (case rest of c # r \<Rightarrow> if c = CHR ''.'' then dropWhile isdigit r else rest | [] \<Rightarrow> []);
          mantissa = real_of_int (digits_value (whole @ fraction));
          scale = exponent_of rest - int (length fraction)
      in if whole @ fraction = [] then None
         else Some (if scale \<ge> 0 then mantissa * 10 ^ nat scale else mantissa / 10 ^ nat (- scale)))"

definition dbl_min :: double where
  "dbl_min = 1 / 2 ^ 1022"

definition stod :: "(string \<Rightarrow> double option) \<Rightarrow> string \<Rightarrow> double option" where
  "stod other s =
     (let body = dropWhile isspace s in
      case other body of
        Some x \<Rightarrow> Some x
      | None \<Rightarrow>
          (case sign_of body of
             (sign, rest) \<Rightarrow>
               (case decimal_value rest of
                  None \<Rightarrow> None
                | Some x \<Rightarrow> if isfinite x \<and> (x = 0 \<or> dbl_min \<le> x) then Some (real_of_int sign * x) else None)))"

subsection \<open>Environment variables\<close>

record process_environment =
  pe_getenv :: "string \<Rightarrow> string option"
  pe_other_numbers :: "string \<Rightarrow> double option"

definition environment_value :: "process_environment \<Rightarrow> string \<Rightarrow> string" where
  "environment_value env name = (case pe_getenv env name of None \<Rightarrow> [] | Some s \<Rightarrow> s)"

definition firstEnvironment :: "process_environment \<Rightarrow> string \<Rightarrow> string option \<Rightarrow> string" where
  "firstEnvironment env primary legacy =
     (let s = environment_value env primary in
      if s = [] then (case legacy of None \<Rightarrow> s | Some name \<Rightarrow> environment_value env name) else s)"

definition applyPath :: "process_environment \<Rightarrow> string \<Rightarrow> string \<Rightarrow> string" where
  "applyPath env name target = (let s = environment_value env name in if s \<noteq> [] then s else target)"

definition applyPositiveInt :: "process_environment \<Rightarrow> string \<Rightarrow> int \<Rightarrow> int" where
  "applyPositiveInt env name target =
     (let s = environment_value env name in
      if s = [] then target
      else case stoi s of None \<Rightarrow> target | Some parsed \<Rightarrow> if parsed > 0 then parsed else target)"

definition applyNonNegativeInt :: "process_environment \<Rightarrow> string \<Rightarrow> int \<Rightarrow> int" where
  "applyNonNegativeInt env name target =
     (let s = environment_value env name in
      if s = [] then target
      else case stoi s of None \<Rightarrow> target | Some parsed \<Rightarrow> if parsed \<ge> 0 then parsed else target)"

text \<open>The size goes through a 32-bit \<open>int\<close>, set or not.\<close>

definition applyPositiveSize :: "process_environment \<Rightarrow> string \<Rightarrow> 64 word \<Rightarrow> 64 word" where
  "applyPositiveSize env name target =
     (let parsed = sint (ucast target :: 32 word) in word_of_int (applyPositiveInt env name parsed))"

definition applyProbability :: "process_environment \<Rightarrow> string \<Rightarrow> double \<Rightarrow> double" where
  "applyProbability env name target =
     (let s = environment_value env name in
      if s = [] then target
      else case stod (pe_other_numbers env) s of None \<Rightarrow> target | Some parsed \<Rightarrow> if parsed > 0 \<and> parsed < 1 then parsed else target)"

definition engineConfigFromEnvironment :: "process_environment \<Rightarrow> engine_config \<Rightarrow> engine_config" where
  "engineConfigFromEnvironment env config =
     (let backends = ec_backends config;
          backends = (if bo_registry_config backends = []
            then backends\<lparr>bo_registry_config :=
              applyPath env ''DOCUMENT_INTELLIGENCE_ENGINE_BACKEND_CONFIG'' (bo_registry_config backends)\<rparr>
            else backends);
          executable = firstEnvironment env ''DOCUMENT_INTELLIGENCE_ENGINE_TESSERACT_CMD'' (Some ''DOC_PARSER_TESSERACT_CMD'');
          language = firstEnvironment env ''DOCUMENT_INTELLIGENCE_ENGINE_TESSERACT_LANG'' (Some ''DOC_PARSER_TESSERACT_LANG'');
          tesseract = ec_tesseract config;
          tesseract = (if executable \<noteq> [] then tesseract\<lparr>ts_executable := executable\<rparr> else tesseract);
          tesseract = (if language \<noteq> [] then tesseract\<lparr>ts_language := language\<rparr> else tesseract);
          directory = environment_value env ''DOCUMENT_INTELLIGENCE_ENGINE_PADDLEOCR_MODEL_DIR'';
          paddle = ec_paddle_ocr config;
          paddle = (if directory \<noteq> []
            then paddle\<lparr>po_detection_model := path_join directory ''det.onnx'',
                   po_recognition_model := path_join directory ''rec.onnx'',
                   po_character_dict := path_join directory ''ppocrv5_dict.txt''\<rparr>
            else paddle);
          profile = environment_value env ''DOCUMENT_INTELLIGENCE_ENGINE_PADDLEOCR_PROFILE'';
          orientation = environment_value env ''DOCUMENT_INTELLIGENCE_ENGINE_PADDLEOCR_RECOVER_UPSIDE_DOWN'';
          paddle = paddle\<lparr>
            po_detection_model := applyPath env ''DOCUMENT_INTELLIGENCE_ENGINE_PADDLEOCR_DET_MODEL'' (po_detection_model paddle),
            po_recognition_model := applyPath env ''DOCUMENT_INTELLIGENCE_ENGINE_PADDLEOCR_REC_MODEL'' (po_recognition_model paddle),
            po_character_dict := applyPath env ''DOCUMENT_INTELLIGENCE_ENGINE_PADDLEOCR_DICT'' (po_character_dict paddle),
            po_profile := (if profile \<noteq> [] then (po_profile paddle)\<lparr>pp_name := profile\<rparr> else po_profile paddle),
            po_recognition_batch_size :=
              applyPositiveSize env ''DOCUMENT_INTELLIGENCE_ENGINE_PADDLEOCR_REC_BATCH_SIZE'' (po_recognition_batch_size paddle),
            po_recognition_max_width :=
              applyPositiveInt env ''DOCUMENT_INTELLIGENCE_ENGINE_PADDLEOCR_REC_MAX_WIDTH'' (po_recognition_max_width paddle),
            po_detection_limit_side :=
              applyPositiveInt env ''DOCUMENT_INTELLIGENCE_ENGINE_PADDLEOCR_DET_LIMIT_SIDE'' (po_detection_limit_side paddle),
            po_recover_upside_down := (if orientation = ''0'' \<or> orientation = ''false'' then False
              else if orientation = ''1'' \<or> orientation = ''true'' then True else po_recover_upside_down paddle)\<rparr>;
          doclaynet = ec_doclaynet config;
          doclaynet = doclaynet\<lparr>
            dn_model_path := applyPath env ''DOCUMENT_INTELLIGENCE_ENGINE_DOCLAYNET_MODEL'' (dn_model_path doclaynet),
            dn_confidence_threshold :=
              applyProbability env ''DOCUMENT_INTELLIGENCE_ENGINE_DOCLAYNET_CONFIDENCE'' (dn_confidence_threshold doclaynet)\<rparr>;
          layout = ec_paddle_layout config;
          layout = layout\<lparr>
            pd_model_path := applyPath env ''DOCUMENT_INTELLIGENCE_ENGINE_PADDLE_LAYOUT_MODEL'' (pd_model_path layout),
            pd_confidence_threshold :=
              applyProbability env ''DOCUMENT_INTELLIGENCE_ENGINE_PADDLE_LAYOUT_CONFIDENCE'' (pd_confidence_threshold layout)\<rparr>;
          tables = ec_table_transformer config;
          tables = tables\<lparr>
            tt_detection_model_path :=
              applyPath env ''DOCUMENT_INTELLIGENCE_ENGINE_TABLE_DETECTION_MODEL'' (tt_detection_model_path tables),
            tt_structure_model_path :=
              applyPath env ''DOCUMENT_INTELLIGENCE_ENGINE_TABLE_STRUCTURE_MODEL'' (tt_structure_model_path tables),
            tt_detection_confidence_threshold :=
              applyProbability env ''DOCUMENT_INTELLIGENCE_ENGINE_TABLE_DETECTION_CONFIDENCE'' (tt_detection_confidence_threshold tables),
            tt_structure_confidence_threshold :=
              applyProbability env ''DOCUMENT_INTELLIGENCE_ENGINE_TABLE_STRUCTURE_CONFIDENCE'' (tt_structure_confidence_threshold tables),
            tt_crop_padding := applyNonNegativeInt env ''DOCUMENT_INTELLIGENCE_ENGINE_TABLE_CROP_PADDING'' (tt_crop_padding tables)\<rparr>
      in config\<lparr>ec_backends := backends, ec_tesseract := tesseract, ec_paddle_ocr := paddle, ec_doclaynet := doclaynet,
           ec_paddle_layout := layout, ec_table_transformer := tables\<rparr>)"

subsection \<open>Overrides keep a configuration valid\<close>

definition probability :: "double \<Rightarrow> bool" where
  "probability x \<longleftrightarrow> 0 < x \<and> x < 1"

definition positive_int :: "int \<Rightarrow> bool" where
  "positive_int n \<longleftrightarrow> 0 < n \<and> n < 2 ^ 31"

definition natural_int :: "int \<Rightarrow> bool" where
  "natural_int n \<longleftrightarrow> 0 \<le> n \<and> n < 2 ^ 31"

definition positive_size :: "64 word \<Rightarrow> bool" where
  "positive_size w \<longleftrightarrow> 0 < unat w \<and> unat w < 2 ^ 31"

definition config_ok :: "engine_config \<Rightarrow> bool" where
  "config_ok config \<longleftrightarrow>
     positive_size (po_recognition_batch_size (ec_paddle_ocr config)) \<and>
     positive_int (po_recognition_max_width (ec_paddle_ocr config)) \<and>
     positive_int (po_detection_limit_side (ec_paddle_ocr config)) \<and>
     probability (dn_confidence_threshold (ec_doclaynet config)) \<and>
     probability (pd_confidence_threshold (ec_paddle_layout config)) \<and>
     probability (tt_detection_confidence_threshold (ec_table_transformer config)) \<and>
     probability (tt_structure_confidence_threshold (ec_table_transformer config)) \<and>
     natural_int (tt_crop_padding (ec_table_transformer config))"

lemma stoi_range: "stoi s = Some n \<Longrightarrow> - (2 ^ 31) \<le> n \<and> n < 2 ^ 31"
  by (auto simp: stoi_def Let_def split: prod.splits if_splits)

lemma applyPositiveInt_ok: "positive_int n \<Longrightarrow> positive_int (applyPositiveInt env name n)"
  by (auto simp: applyPositiveInt_def positive_int_def Let_def dest: stoi_range split: option.split)

lemma applyNonNegativeInt_ok: "natural_int n \<Longrightarrow> natural_int (applyNonNegativeInt env name n)"
  by (auto simp: applyNonNegativeInt_def natural_int_def Let_def dest: stoi_range split: option.split)

lemma applyProbability_ok: "probability x \<Longrightarrow> probability (applyProbability env name x)"
  by (auto simp: applyProbability_def probability_def Let_def split: option.split)

text \<open>A size below \<open>2 ^ 31\<close> survives the way through an \<open>int\<close>.\<close>

lemma size_as_int:
  fixes w :: "64 word"
  shows "sint (ucast w :: 32 word) = signed_take_bit 31 (sint w)"
  by transfer (simp add: signed_take_bit_take_bit)

lemma size_below:
  fixes w :: "64 word"
  shows "unat w < 2 ^ 31 \<Longrightarrow> sint (ucast w :: 32 word) = int (unat w)"
proof transfer
  fix i :: int
  assume "(nat \<circ> take_bit LENGTH(64)) i < 2 ^ 31"
  then have "signed_take_bit 31 (take_bit 64 i) = take_bit 64 i"
    by (intro signed_take_bit_int_eq_self) (simp_all add: order_trans[OF _ take_bit_nonnegative])
  then show "signed_take_bit (LENGTH(32) - Suc 0) (take_bit LENGTH(64) i) = int ((nat \<circ> take_bit LENGTH(64)) i)" by simp
qed

lemma size_of_int: "0 < n \<Longrightarrow> n < 2 ^ 31 \<Longrightarrow> unat (word_of_int n :: 64 word) = nat n"
  by transfer (simp add: take_bit_int_eq_self)

lemma word_of_signed:
  assumes "- (2 ^ 63) \<le> k" "k < 2 ^ 63"
  shows "word_of_int k = (w :: 64 word) \<longleftrightarrow> k = sint w"
proof -
  have "sint (word_of_int k :: 64 word) = k"
    using assms by (simp add: signed_take_bit_int_eq_self sint_sbintrunc')
  then show ?thesis by (metis signed_word_eqI)
qed

lemma applyPositiveSize_ok:
  assumes "positive_size w"
  shows "positive_size (applyPositiveSize env name w)"
proof -
  define n where "n = applyPositiveInt env name (int (unat w))"
  have "0 < int (unat w)" "int (unat w) < int (2 ^ 31)"
    using assms by (simp_all only: positive_size_def of_nat_less_iff of_nat_0_less_iff)
  then have start: "positive_int (int (unat w))" by (simp only: positive_int_def of_nat_power of_nat_numeral)
  have "positive_int n" unfolding n_def using start by (rule applyPositiveInt_ok)
  then have n: "0 < n" "n < 2 ^ 31" by (simp_all add: positive_int_def)
  have "sint (ucast w :: 32 word) = int (unat w)" using assms by (intro size_below) (simp add: positive_size_def)
  then have "applyPositiveSize env name w = word_of_int n" by (simp add: applyPositiveSize_def n_def)
  then show ?thesis using n by (simp add: positive_size_def size_of_int)
qed

text \<open>
  Environment variables cannot make a valid configuration invalid. Whatever their text, also
  numbers out of range, negative ones or no numbers at all, the sizes stay positive 31-bit
  numbers, the thresholds probabilities and the padding non-negative.
\<close>

lemma environment_keeps_config_ok:
  assumes "config_ok config"
  shows "config_ok (engineConfigFromEnvironment env config)"
  using assms
  by (simp add: config_ok_def engineConfigFromEnvironment_def Let_def applyPositiveSize_ok applyPositiveInt_ok
      applyNonNegativeInt_ok applyProbability_ok)

definition sample_process :: process_environment where
  "sample_process = \<lparr>pe_getenv = [''DOCUMENT_INTELLIGENCE_ENGINE_PADDLEOCR_REC_BATCH_SIZE'' \<mapsto> '' -4'',
      ''DOCUMENT_INTELLIGENCE_ENGINE_PADDLEOCR_REC_MAX_WIDTH'' \<mapsto> ''640px''], pe_other_numbers = Map.empty\<rparr>"

lemma environment_keeps_config_ok_witness:
  "config_ok (engineConfigFromEnvironment sample_process defaultEngineConfig)"
proof (rule environment_keeps_config_ok)
  show "config_ok defaultEngineConfig" by (simp add: config_ok_def defaultEngineConfig_def probability_def positive_int_def natural_int_def positive_size_def)
qed

text \<open>
  Without environment variables the configuration is as it was, unless its recognition batch
  size is outside the range of \<open>int\<close>: that size is passed through an \<open>int\<close> even then, and changed.
\<close>

lemma unset_environment_keeps_config:
  assumes "\<forall>name. environment_value env name = []"
  shows "engineConfigFromEnvironment env config = config \<longleftrightarrow>
    - (2 ^ 31) \<le> sint (po_recognition_batch_size (ec_paddle_ocr config)) \<and>
    sint (po_recognition_batch_size (ec_paddle_ocr config)) < 2 ^ 31"
proof -
  let ?w = "po_recognition_batch_size (ec_paddle_ocr config)"
  have unset: "environment_value env name = []" for name using assms by blast
  have "engineConfigFromEnvironment env config = config\<lparr>ec_paddle_ocr := (ec_paddle_ocr config)\<lparr>po_recognition_batch_size :=
      word_of_int (signed_take_bit 31 (sint ?w))\<rparr>\<rparr>"
    by (cases config, cases "ec_backends config", cases "ec_tesseract config", cases "ec_paddle_ocr config", cases "ec_doclaynet config",
      cases "ec_paddle_layout config", cases "ec_table_transformer config")
     (simp add: engineConfigFromEnvironment_def Let_def unset firstEnvironment_def applyPath_def applyPositiveInt_def
        applyNonNegativeInt_def applyProbability_def applyPositiveSize_def size_as_int)
  then have "engineConfigFromEnvironment env config = config \<longleftrightarrow> word_of_int (signed_take_bit 31 (sint ?w)) = ?w"
    by (cases config, cases "ec_paddle_ocr config") simp
  also have "\<dots> \<longleftrightarrow> signed_take_bit 31 (sint ?w) = sint ?w"
  proof (rule word_of_signed)
    have "- (2 ^ 31) \<le> signed_take_bit 31 (sint ?w)" "signed_take_bit 31 (sint ?w) < 2 ^ 31"
      by (rule signed_take_bit_int_greater_eq_minus_exp, rule signed_take_bit_int_less_exp)
    note range = this
    show "- (2 ^ 63) \<le> signed_take_bit 31 (sint ?w)" using range(1) by simp
    show "signed_take_bit 31 (sint ?w) < 2 ^ 63" using range(2) by simp
  qed
  also have "\<dots> \<longleftrightarrow> - (2 ^ 31) \<le> sint ?w \<and> sint ?w < 2 ^ 31"
    by (simp add: signed_take_bit_int_eq_self_iff)
  finally show ?thesis .
qed

definition empty_process :: process_environment where
  "empty_process = \<lparr>pe_getenv = Map.empty, pe_other_numbers = Map.empty\<rparr>"

definition huge_batch_config :: engine_config where
  "huge_batch_config = defaultEngineConfig\<lparr>ec_paddle_ocr :=
     (ec_paddle_ocr defaultEngineConfig)\<lparr>po_recognition_batch_size := 4294967297\<rparr>\<rparr>"

lemma unset_environment_keeps_config_witness:
  "engineConfigFromEnvironment empty_process huge_batch_config \<noteq> huge_batch_config"
  using unset_environment_keeps_config[of empty_process huge_batch_config]
  by (simp add: environment_value_def empty_process_def huge_batch_config_def)

end
