(* ===== verification/Backend_Registry.thy ===== *)
theory Backend_Registry
  imports Engine_Config Json_Export
begin

text \<open>
  \<open>cpp/pipeline/backend_registry.cpp(.h)\<close>: the backends by name, and the file that says in which
  order the automatic selection tries them. A factory is called once per creation and gives a
  backend or a null pointer. Reading and parsing the file are an argument.
\<close>

subsection \<open>\<open>TypedBackendRegistry\<close>\<close>

datatype creation_status = CreationCreated | CreationUnknown | CreationUnavailable

record 'b creation_result =
  cr_status :: creation_status
  cr_backend :: "'b option"
  cr_error_message :: string

text \<open>\<open>None\<close>: an empty \<open>std::function\<close>; otherwise what calling it returns.\<close>

type_synonym 'b factory = "'b option option"

type_synonym 'b typed_registry = "(string \<times> 'b option) list"

definition registrable :: "string \<Rightarrow> 'b factory \<Rightarrow> bool" where
  "registrable name factory \<longleftrightarrow> \<not> (name = [] \<or> name = ''auto'' \<or> factory = None)"

definition registerBackend :: "string \<Rightarrow> 'b factory \<Rightarrow> 'b typed_registry \<Rightarrow> bool \<times> 'b typed_registry" where
  "registerBackend name factory registry =
     (if \<not> registrable name factory then (False, registry)
      else (map_of registry name = None,
        amap_alter (\<lambda>old. case old of None \<Rightarrow> the factory | Some f \<Rightarrow> f) name registry))"

definition registry_contains :: "'b typed_registry \<Rightarrow> string \<Rightarrow> bool" where
  "registry_contains registry name \<longleftrightarrow> map_of registry name \<noteq> None"

definition create_backend ::
  "('b \<Rightarrow> bool) \<Rightarrow> ('b \<Rightarrow> string) \<Rightarrow> 'b typed_registry \<Rightarrow> string \<Rightarrow> 'b creation_result" where
  "create_backend isAvailable unavailableReason registry name =
     (case map_of registry name of
        None \<Rightarrow> \<lparr>cr_status = CreationUnknown, cr_backend = None, cr_error_message = ''backend is not registered''\<rparr>
      | Some None \<Rightarrow> \<lparr>cr_status = CreationUnavailable, cr_backend = None,
            cr_error_message = ''backend factory returned no instance''\<rparr>
      | Some (Some backend) \<Rightarrow>
          if \<not> isAvailable backend
          then let reason = unavailableReason backend
               in \<lparr>cr_status = CreationUnavailable, cr_backend = None,
                   cr_error_message = (if reason = [] then ''backend reported itself unavailable'' else reason)\<rparr>
          else \<lparr>cr_status = CreationCreated, cr_backend = Some backend, cr_error_message = []\<rparr>)"

definition registry_names :: "'b typed_registry \<Rightarrow> string list" where
  "registry_names registry = map fst registry"

subsection \<open>\<open>BackendRegistry\<close>\<close>

record document_source =
  ds_open :: "string \<Rightarrow> bool"
  ds_source_path :: string
  ds_source_type :: string
  ds_page_count :: int

record document_bundle =
  bu_source :: "document_source option"
  bu_renderer :: "page_renderer option"
  bu_text :: "text_extractor option"

record backend_registry =
  bk_document :: "(string \<times> document_bundle) list"
  bk_ocr :: "ocr_backend typed_registry"
  bk_layout :: "layout_backend typed_registry"
  bk_table :: "table_backend typed_registry"

definition empty_registry :: backend_registry where
  "empty_registry = \<lparr>bk_document = [], bk_ocr = [], bk_layout = [], bk_table = []\<rparr>"

definition registerDocument :: "string \<Rightarrow> document_bundle option \<Rightarrow> backend_registry \<Rightarrow> bool \<times> backend_registry" where
  "registerDocument name factory r =
     (if name = [] \<or> name = ''auto'' \<or> factory = None then (False, r)
      else (map_of (bk_document r) name = None,
        r\<lparr>bk_document := amap_alter (\<lambda>old. case old of None \<Rightarrow> the factory | Some f \<Rightarrow> f) name (bk_document r)\<rparr>))"

definition registerOcr :: "string \<Rightarrow> ocr_backend factory \<Rightarrow> backend_registry \<Rightarrow> bool \<times> backend_registry" where
  "registerOcr name factory r = (case registerBackend name factory (bk_ocr r) of (ok, m) \<Rightarrow> (ok, r\<lparr>bk_ocr := m\<rparr>))"

definition registerLayout :: "string \<Rightarrow> layout_backend factory \<Rightarrow> backend_registry \<Rightarrow> bool \<times> backend_registry" where
  "registerLayout name factory r = (case registerBackend name factory (bk_layout r) of (ok, m) \<Rightarrow> (ok, r\<lparr>bk_layout := m\<rparr>))"

definition registerTable :: "string \<Rightarrow> table_backend factory \<Rightarrow> backend_registry \<Rightarrow> bool \<times> backend_registry" where
  "registerTable name factory r = (case registerBackend name factory (bk_table r) of (ok, m) \<Rightarrow> (ok, r\<lparr>bk_table := m\<rparr>))"

definition hasDocument :: "backend_registry \<Rightarrow> string \<Rightarrow> bool" where
  "hasDocument r name \<longleftrightarrow> map_of (bk_document r) name \<noteq> None"

definition hasOcr :: "backend_registry \<Rightarrow> string \<Rightarrow> bool" where
  "hasOcr r name = registry_contains (bk_ocr r) name"

definition hasLayout :: "backend_registry \<Rightarrow> string \<Rightarrow> bool" where
  "hasLayout r name = registry_contains (bk_layout r) name"

definition hasTable :: "backend_registry \<Rightarrow> string \<Rightarrow> bool" where
  "hasTable r name = registry_contains (bk_table r) name"

definition documentNames :: "backend_registry \<Rightarrow> string list" where
  "documentNames r = map fst (bk_document r)"

definition ocrNames :: "backend_registry \<Rightarrow> string list" where
  "ocrNames r = registry_names (bk_ocr r)"

definition layoutNames :: "backend_registry \<Rightarrow> string list" where
  "layoutNames r = registry_names (bk_layout r)"

definition tableNames :: "backend_registry \<Rightarrow> string list" where
  "tableNames r = registry_names (bk_table r)"

definition createDocument :: "backend_registry \<Rightarrow> string \<Rightarrow> document_bundle creation_result" where
  "createDocument r name =
     (case map_of (bk_document r) name of
        None \<Rightarrow> \<lparr>cr_status = CreationUnknown, cr_backend = None, cr_error_message = []\<rparr>
      | Some bundle \<Rightarrow>
          if bu_source bundle = None then \<lparr>cr_status = CreationUnavailable, cr_backend = None, cr_error_message = []\<rparr>
          else \<lparr>cr_status = CreationCreated, cr_backend = Some bundle, cr_error_message = []\<rparr>)"

definition createOcr :: "backend_registry \<Rightarrow> string \<Rightarrow> ocr_backend creation_result" where
  "createOcr r = create_backend ocr_available ocr_unavailable_reason (bk_ocr r)"

definition createLayout :: "backend_registry \<Rightarrow> string \<Rightarrow> layout_backend creation_result" where
  "createLayout r = create_backend lbk_available lbk_unavailable_reason (bk_layout r)"

definition createTable :: "backend_registry \<Rightarrow> string \<Rightarrow> table_backend creation_result" where
  "createTable r = create_backend tbk_available tbk_unavailable_reason (bk_table r)"

subsection \<open>The default registry\<close>

text \<open>
  What the build compiled in. The constructors of the ONNX backends are \<open>None\<close> in a build without
  ONNX Runtime, and the bundle's source is in one without PDFium.
\<close>

record built_backends =
  bb_pdf :: document_bundle
  bb_tesseract :: "tesseract_config \<Rightarrow> ocr_backend"
  bb_paddle :: "(paddle_ocr_config \<Rightarrow> ocr_backend) option"
  bb_doclaynet :: "(doclaynet_config \<Rightarrow> layout_backend) option"
  bb_paddle_layout :: "(paddle_layout_config \<Rightarrow> layout_backend) option"
  bb_table_transformer :: "(table_transformer_config \<Rightarrow> table_backend) option"

definition createDefaultBackendRegistry :: "built_backends \<Rightarrow> engine_config \<Rightarrow> backend_registry" where
  "createDefaultBackendRegistry built config =
     (let r = snd (registerDocument ''pdf'' (Some (bb_pdf built)) empty_registry);
          r = snd (registerOcr ''noop'' (Some (Some noop_ocr)) r);
          r = snd (registerOcr ''tesseract'' (Some (Some (bb_tesseract built (ec_tesseract config)))) r);
          r = snd (registerLayout ''text'' (Some (Some text_layout_backend)) r);
          r = snd (registerTable ''text'' (Some (Some text_table_backend)) r);
          r = snd (registerOcr ''paddle'' (Some (map_option (\<lambda>make. make (ec_paddle_ocr config)) (bb_paddle built))) r);
          r = snd (registerLayout ''doclaynet'' (Some (map_option (\<lambda>make. make (ec_doclaynet config)) (bb_doclaynet built))) r);
          r = snd (registerLayout ''paddle-layout''
                (Some (map_option (\<lambda>make. make (ec_paddle_layout config)) (bb_paddle_layout built))) r)
      in snd (registerTable ''table-transformer''
           (Some (map_option (\<lambda>make. make (ec_table_transformer config)) (bb_table_transformer built))) r))"

subsection \<open>The registry file\<close>

record registry_config =
  rc_version :: int
  rc_document_auto_order :: "string list"
  rc_ocr_auto_order :: "string list"
  rc_layout_auto_order :: "string list"
  rc_table_auto_order :: "string list"

definition default_registry_config :: registry_config where
  "default_registry_config = \<lparr>rc_version = 1, rc_document_auto_order = [''pdf''],
     rc_ocr_auto_order = [''paddle'', ''tesseract''], rc_layout_auto_order = [''doclaynet'', ''paddle-layout'', ''text''],
     rc_table_auto_order = [''table-transformer'', ''text'']\<rparr>"

fun order_error :: "(string \<Rightarrow> bool) \<Rightarrow> string \<Rightarrow> string list \<Rightarrow> string list \<Rightarrow> string option" where
  "order_error registered stage seen [] = None"
| "order_error registered stage seen (name # names) =
     (if name = [] \<or> name = ''auto'' then Some (''auto_order.'' @ stage @ '' contains an invalid backend name'')
      else if name \<in> set seen then Some (''auto_order.'' @ stage @ '' contains duplicate backend: '' @ name)
      else if \<not> registered name then Some (''auto_order.'' @ stage @ '' references an unregistered backend: '' @ name)
      else order_error registered stage (name # seen) names)"

text \<open>\<open>None\<close>: the order is valid.\<close>

definition validOrder :: "string list \<Rightarrow> (string \<Rightarrow> bool) \<Rightarrow> string \<Rightarrow> string option" where
  "validOrder order registered stage =
     (if order = [] then Some (''auto_order.'' @ stage @ '' must contain at least one backend'')
      else order_error registered stage [] order)"

fun strings_of :: "json list \<Rightarrow> string list option" where
  "strings_of [] = Some []"
| "strings_of (j # js) =
     (case (j, strings_of js) of (JString s, Some ss) \<Rightarrow> Some (s # ss) | _ \<Rightarrow> None)"

definition readOrder :: "json \<Rightarrow> string \<Rightarrow> string list \<Rightarrow> string + string list" where
  "readOrder auto_order key target =
     (case json_get auto_order key of
        None \<Rightarrow> Inr target
      | Some v \<Rightarrow>
          (case v of
             JArray js \<Rightarrow>
               (case strings_of js of
                  None \<Rightarrow> Inl (''auto_order.'' @ key @ '' must contain only strings'')
                | Some order \<Rightarrow> Inr order)
           | _ \<Rightarrow> Inl (''auto_order.'' @ key @ '' must be an array'')))"

text \<open>
  Reading the file: it cannot be opened (\<open>None\<close>), is not JSON (\<open>Inl\<close>, with the parser's message)
  or gives a value. \<open>get<int>\<close> throws unless the value is a number or a boolean; numbers are cut
  to whole ones and to 32 bits.
\<close>

record registry_reader =
  rd_file :: "string \<Rightarrow> (string + json) option"
  rd_type_error :: "json \<Rightarrow> string"

definition json_int :: "json \<Rightarrow> int option" where
  "json_int j =
     (case j of
        JInt n \<Rightarrow> Some (signed_take_bit 31 n)
      | JNumber x \<Rightarrow> Some (signed_take_bit 31 (if x \<ge> 0 then \<lfloor>x\<rfloor> else \<lceil>x\<rceil>))
      | JBool b \<Rightarrow> Some (if b then 1 else 0)
      | _ \<Rightarrow> None)"

definition unknown_key :: "string list \<Rightarrow> json \<Rightarrow> string option" where
  "unknown_key known j = (case j of JObject entries \<Rightarrow> find (\<lambda>key. key \<notin> set known) (map fst entries) | _ \<Rightarrow> None)"

definition read_orders :: "json \<Rightarrow> registry_config \<Rightarrow> string + registry_config" where
  "read_orders auto_order config =
     (case readOrder auto_order ''document'' (rc_document_auto_order config) of
        Inl e \<Rightarrow> Inl e
      | Inr document \<Rightarrow>
     (case readOrder auto_order ''ocr'' (rc_ocr_auto_order config) of
        Inl e \<Rightarrow> Inl e
      | Inr ocr \<Rightarrow>
     (case readOrder auto_order ''layout'' (rc_layout_auto_order config) of
        Inl e \<Rightarrow> Inl e
      | Inr layout \<Rightarrow>
     (case readOrder auto_order ''table'' (rc_table_auto_order config) of
        Inl e \<Rightarrow> Inl e
      | Inr tables \<Rightarrow> Inr (config\<lparr>rc_document_auto_order := document, rc_ocr_auto_order := ocr,
          rc_layout_auto_order := layout, rc_table_auto_order := tables\<rparr>)))))"

definition registry_document :: "registry_reader \<Rightarrow> json \<Rightarrow> string + registry_config" where
  "registry_document reader doc =
     (if \<not> is_object doc then Inl ''backend registry config root must be an object''
      else
        case unknown_key [''version'', ''auto_order''] doc of
          Some key \<Rightarrow> Inl (''unknown backend registry config field: '' @ key)
        | None \<Rightarrow>
            (case (case json_get doc ''version'' of None \<Rightarrow> Inr 1 | Some v \<Rightarrow>
                     (case json_int v of None \<Rightarrow> Inl (rd_type_error reader v) | Some n \<Rightarrow> Inr n)) of
               Inl what \<Rightarrow> Inl (''invalid backend registry config: '' @ what)
             | Inr version \<Rightarrow>
                 if version \<noteq> 1 then Inl (''unsupported backend registry config version: '' @ int_to_string version)
                 else
                   let config = default_registry_config\<lparr>rc_version := version\<rparr> in
                   case json_get doc ''auto_order'' of
                     None \<Rightarrow> Inr config
                   | Some auto_order \<Rightarrow>
                       if \<not> is_object auto_order then Inl ''auto_order must be an object''
                       else
                         (case unknown_key [''document'', ''ocr'', ''layout'', ''table''] auto_order of
                            Some key \<Rightarrow> Inl (''unknown auto_order stage: '' @ key)
                          | None \<Rightarrow> read_orders auto_order config)))"

definition registry_file :: "registry_reader \<Rightarrow> string \<Rightarrow> string + registry_config" where
  "registry_file reader path =
     (if path = [] then Inr default_registry_config
      else
        case rd_file reader path of
          None \<Rightarrow> Inl (''failed to read backend registry config: '' @ path)
        | Some (Inl what) \<Rightarrow> Inl (''invalid backend registry config: '' @ what)
        | Some (Inr doc) \<Rightarrow> registry_document reader doc)"

fun first_error :: "string option list \<Rightarrow> string option" where
  "first_error [] = None"
| "first_error (e # es) = (case e of Some message \<Rightarrow> Some message | None \<Rightarrow> first_error es)"

definition loadBackendRegistryConfig :: "registry_reader \<Rightarrow> string \<Rightarrow> backend_registry \<Rightarrow> string + registry_config" where
  "loadBackendRegistryConfig reader path registry =
     (case registry_file reader path of
        Inl e \<Rightarrow> Inl e
      | Inr config \<Rightarrow>
          (case first_error
             [validOrder (rc_document_auto_order config) (hasDocument registry) ''document'',
              validOrder (rc_ocr_auto_order config) (hasOcr registry) ''ocr'',
              validOrder (rc_layout_auto_order config) (hasLayout registry) ''layout'',
              validOrder (rc_table_auto_order config) (hasTable registry) ''table''] of
             Some e \<Rightarrow> Inl e
           | None \<Rightarrow> Inr config))"

subsection \<open>Valid orders\<close>

definition order_ok :: "(string \<Rightarrow> bool) \<Rightarrow> string list \<Rightarrow> bool" where
  "order_ok registered order \<longleftrightarrow> order \<noteq> [] \<and> distinct order \<and>
     list_all (\<lambda>name. name \<noteq> [] \<and> name \<noteq> ''auto'' \<and> registered name) order"

lemma order_error_iff:
  "order_error registered stage seen names = None \<longleftrightarrow> distinct names \<and> set names \<inter> set seen = {} \<and>
     list_all (\<lambda>name. name \<noteq> [] \<and> name \<noteq> ''auto'' \<and> registered name) names"
  by (induction registered stage seen names rule: order_error.induct) auto

lemma validOrder_iff: "validOrder order registered stage = None \<longleftrightarrow> order_ok registered order"
  by (auto simp: validOrder_def order_ok_def order_error_iff)

definition registry_config_ok :: "backend_registry \<Rightarrow> registry_config \<Rightarrow> bool" where
  "registry_config_ok registry config \<longleftrightarrow>
     order_ok (hasDocument registry) (rc_document_auto_order config) \<and> order_ok (hasOcr registry) (rc_ocr_auto_order config) \<and>
     order_ok (hasLayout registry) (rc_layout_auto_order config) \<and> order_ok (hasTable registry) (rc_table_auto_order config)"

lemma load_config_iff:
  "loadBackendRegistryConfig reader path registry = Inr config \<longleftrightarrow>
     registry_file reader path = Inr config \<and> registry_config_ok registry config"
proof -
  let ?orders = "\<lambda>config. [validOrder (rc_document_auto_order config) (hasDocument registry) ''document'',
              validOrder (rc_ocr_auto_order config) (hasOcr registry) ''ocr'',
              validOrder (rc_layout_auto_order config) (hasLayout registry) ''layout'',
              validOrder (rc_table_auto_order config) (hasTable registry) ''table'']"
  have none: "first_error es = None \<longleftrightarrow> list_all (\<lambda>e. e = None) es" for es
    by (induction es) (simp_all split: option.split)
  have "loadBackendRegistryConfig reader path registry = Inr config \<longleftrightarrow>
      registry_file reader path = Inr config \<and> first_error (?orders config) = None"
    by (auto simp: loadBackendRegistryConfig_def simp del: first_error.simps split: sum.split option.split)
  then show ?thesis by (simp add: none validOrder_iff registry_config_ok_def del: first_error.simps)
qed

end
