(* ===== verification/Service_Factory.thy ===== *)
theory Service_Factory
  imports Backend_Registry
begin

text \<open>
  \<open>cpp/pipeline/pipeline_service_factory.cpp\<close>: the services of a run, from the backends its options
  name. An \<open>auto\<close> option takes what is available in the configured order: the first document and
  OCR backend, and all layout and table backends, chained so that each takes over where the one
  before it fails.
\<close>

subsection \<open>Chained backends\<close>

text \<open>
  The loop of the two chains: the outcomes of the backends in order, until one succeeds; a backend
  that fails and has a successor is warned of.
\<close>

fun first_success :: "(string \<Rightarrow> string \<Rightarrow> diagnostic) \<Rightarrow> (string \<times> 'r option) list \<Rightarrow> diagnostic list \<Rightarrow> ('r \<times> diagnostic list) option" where
  "first_success warn [] diagnostics = None"
| "first_success warn ((name, outcome) # rest) diagnostics =
     (case outcome of
        Some r \<Rightarrow> Some (r, diagnostics)
      | None \<Rightarrow> first_success warn rest
          (case rest of [] \<Rightarrow> diagnostics | (next_name, _) # _ \<Rightarrow> diagnostics @ [warn name next_name]))"

definition layout_fallback :: "page_artifact \<Rightarrow> string \<Rightarrow> string \<Rightarrow> diagnostic" where
  "layout_fallback page failed fallback =
     \<lparr>dg_code = kLayoutBackendFallback, dg_message = ''layout inference failed; continued with the configured fallback chain'',
      dg_stage = ''layout'', dg_page_number = pa_page_number page,
      dg_details = [(''failed_backend'', failed), (''fallback_backend'', fallback), (''reason'', ''inference_failed'')]\<rparr>"

definition table_fallback :: "page_artifact \<Rightarrow> string \<Rightarrow> string \<Rightarrow> diagnostic" where
  "table_fallback page failed fallback =
     \<lparr>dg_code = kTableBackendFallback, dg_message = ''table inference failed; continued with the configured fallback chain'',
      dg_stage = ''table'', dg_page_number = pa_page_number page,
      dg_details = [(''failed_backend'', failed), (''fallback_backend'', fallback), (''reason'', ''inference_failed'')]\<rparr>"

definition chained_layout :: "(string \<times> layout_backend) list \<Rightarrow> layout_backend" where
  "chained_layout backends =
     \<lparr>lbk_analyze = (\<lambda>page page_text.
        map_option (\<lambda>(candidate, diagnostics). candidate\<lparr>lr_diagnostics := diagnostics @ lr_diagnostics candidate\<rparr>)
          (first_success (layout_fallback page) (map (\<lambda>(name, b). (name, lbk_analyze b page page_text)) backends) [])),
      lbk_available = True, lbk_unavailable_reason = []\<rparr>"

definition chained_table :: "(string \<times> table_backend) list \<Rightarrow> table_backend" where
  "chained_table backends =
     \<lparr>tbk_recognize = (\<lambda>page page_text layout.
        map_option (\<lambda>(candidate, diagnostics). candidate\<lparr>tr_diagnostics := diagnostics @ tr_diagnostics candidate\<rparr>)
          (first_success (table_fallback page) (map (\<lambda>(name, b). (name, tbk_recognize b page page_text layout)) backends) [])),
      tbk_available = True, tbk_unavailable_reason = []\<rparr>"

subsection \<open>Names\<close>

definition joinNames :: "string list \<Rightarrow> string" where
  "joinNames names = foldl (\<lambda>joined name. joined @ (if joined = [] then [] else ''->'') @ name) [] names"

definition joinDetails :: "string list \<Rightarrow> string" where
  "joinDetails details = foldl (\<lambda>joined detail. joined @ (if joined = [] then [] else ''; '') @ detail) [] details"

text \<open>\<open>find("->")\<close>.\<close>

definition find_arrow :: "string \<Rightarrow> nat option" where
  "find_arrow = find_pair CHR ''-'' CHR ''>''"

lemma find_arrow_length: "find_arrow s = Some i \<Longrightarrow> i + 2 \<le> length s"
  unfolding find_arrow_def by (rule find_pair_length)

text \<open>The rest of the string from the loop's \<open>offset\<close> on.\<close>

function containsBackend :: "string \<Rightarrow> string \<Rightarrow> bool" where
  "containsBackend resolved backend =
     (case find_arrow resolved of
        None \<Rightarrow> resolved = backend
      | Some i \<Rightarrow> take i resolved = backend \<or> containsBackend (drop (i + 2) resolved) backend)"
  by auto
termination by (relation "measure (\<lambda>(resolved, _). length resolved)") (auto dest: find_arrow_length)

declare containsBackend.simps [simp del]

subsection \<open>Provenance of the models\<close>

definition addModel :: "string \<Rightarrow> string \<Rightarrow> string \<Rightarrow> string \<Rightarrow> string \<Rightarrow> run_provenance \<Rightarrow> run_provenance" where
  "addModel stage backend role path profile provenance =
     (if path \<noteq> []
      then provenance\<lparr>rp_models := rp_models provenance @
             [\<lparr>mp_stage = stage, mp_backend = backend, mp_role = role, mp_path = path, mp_profile = profile\<rparr>]\<rparr>
      else provenance)"

definition addConfiguredModels :: "engine_config \<Rightarrow> run_provenance \<Rightarrow> run_provenance" where
  "addConfiguredModels config provenance =
     (let resolved = br_resolved (rp_backends provenance);
          paddle = ec_paddle_ocr config; profile = pp_name (po_profile paddle); tables = ec_table_transformer config;
          p = (if bo_ocr resolved = ''paddle''
               then addModel ''text'' ''paddle'' ''character_dictionary'' (po_character_dict paddle) profile
                 (addModel ''text'' ''paddle'' ''recognition'' (po_recognition_model paddle) profile
                 (addModel ''text'' ''paddle'' ''detection'' (po_detection_model paddle) profile provenance))
               else if bo_ocr resolved = ''tesseract''
               then addModel ''text'' ''tesseract'' ''executable'' (ts_executable (ec_tesseract config))
                 (ts_language (ec_tesseract config)) provenance
               else provenance);
          p = (if containsBackend (bo_layout resolved) ''doclaynet''
               then addModel ''layout'' ''doclaynet'' ''layout'' (dn_model_path (ec_doclaynet config)) [] p else p);
          p = (if containsBackend (bo_layout resolved) ''paddle-layout''
               then addModel ''layout'' ''paddle-layout'' ''layout'' (pd_model_path (ec_paddle_layout config)) [] p else p)
      in if containsBackend (bo_table resolved) ''table-transformer''
         then addModel ''table'' ''table-transformer'' ''structure'' (tt_structure_model_path tables) []
           (addModel ''table'' ''table-transformer'' ''detection'' (tt_detection_model_path tables) [] p)
         else p)"

subsection \<open>Selecting backends\<close>

definition setCreationError :: "string \<Rightarrow> string \<Rightarrow> creation_status \<Rightarrow> string \<Rightarrow> status" where
  "setCreationError stage backend st detail =
     (let reason = (if st = CreationUnknown then ''unknown '' @ stage @ '' backend: '' @ backend
                    else stage @ '' backend is unavailable: '' @ backend);
          reason = (if detail \<noteq> [] then reason @ '': '' @ detail else reason);
          code = (if st = CreationUnknown then ''configure.backend_unknown'' else ''configure.backend_unavailable'')
      in status_error code reason ''configure'' False)"

definition created :: "'b creation_result \<Rightarrow> bool" where
  "created r \<longleftrightarrow> cr_status r = CreationCreated"

text \<open>The first name of an order whose backend is created.\<close>

fun first_created :: "(string \<Rightarrow> 'b creation_result) \<Rightarrow> string list \<Rightarrow> (string \<times> 'b creation_result) option" where
  "first_created create [] = None"
| "first_created create (name # names) =
     (if created (create name) then Some (name, create name) else first_created create names)"

definition unavailable_reasons :: "(string \<Rightarrow> 'b creation_result) \<Rightarrow> string list \<Rightarrow> string list" where
  "unavailable_reasons create names =
     map (\<lambda>name. name @ '': '' @ cr_error_message (create name)) (filter (\<lambda>name. \<not> created (create name)) names)"

definition available_backends :: "(string \<Rightarrow> 'b creation_result) \<Rightarrow> string list \<Rightarrow> (string \<times> 'b) list" where
  "available_backends create names =
     map (\<lambda>name. (name, the (cr_backend (create name)))) (filter (\<lambda>name. created (create name)) names)"

definition select_document :: "backend_registry \<Rightarrow> registry_config \<Rightarrow> string \<Rightarrow> status + string \<times> document_bundle" where
  "select_document registry config requested =
     (if requested = ''auto''
      then case first_created (createDocument registry) (rc_document_auto_order config) of
          None \<Rightarrow> Inl (status_error ''configure.document_backend_unavailable''
            ''no document backend from configured auto_order is available'' ''configure'' False)
        | Some (name, candidate) \<Rightarrow> Inr (name, the (cr_backend candidate))
      else
        let creation = createDocument registry requested in
        if \<not> created creation then Inl (setCreationError ''document_source'' requested (cr_status creation) [])
        else Inr (requested, the (cr_backend creation)))"

definition select_ocr :: "backend_registry \<Rightarrow> registry_config \<Rightarrow> string \<Rightarrow> status + string \<times> ocr_backend" where
  "select_ocr registry config requested =
     (if requested = ''auto''
      then case first_created (createOcr registry) (rc_ocr_auto_order config) of
          None \<Rightarrow> Inr (''unavailable'', unavailable_ocr (''no OCR backend from configured auto_order is available ('' @
            joinDetails (unavailable_reasons (createOcr registry) (rc_ocr_auto_order config)) @
            ''); install a backend or select --ocr-backend noop explicitly''))
        | Some (name, candidate) \<Rightarrow> Inr (name, the (cr_backend candidate))
      else
        let creation = createOcr registry requested in
        if \<not> created creation then Inl (setCreationError ''ocr'' requested (cr_status creation) (cr_error_message creation))
        else Inr (requested, the (cr_backend creation)))"

definition select_layout :: "backend_registry \<Rightarrow> registry_config \<Rightarrow> string \<Rightarrow> status + string \<times> layout_backend" where
  "select_layout registry config requested =
     (if requested = ''auto''
      then
        let available = available_backends (createLayout registry) (rc_layout_auto_order config) in
        if available = [] then Inl (status_error ''configure.layout_backend_unavailable''
            (''no layout backend from configured auto_order is available: '' @
             joinDetails (unavailable_reasons (createLayout registry) (rc_layout_auto_order config))) ''configure'' False)
        else Inr (joinNames (map fst available), if length available = 1 then snd (hd available) else chained_layout available)
      else
        let creation = createLayout registry requested in
        if \<not> created creation then Inl (setCreationError ''layout'' requested (cr_status creation) (cr_error_message creation))
        else Inr (requested, the (cr_backend creation)))"

definition select_table :: "backend_registry \<Rightarrow> registry_config \<Rightarrow> string \<Rightarrow> status + string \<times> table_backend" where
  "select_table registry config requested =
     (if requested = ''auto''
      then
        let available = available_backends (createTable registry) (rc_table_auto_order config) in
        if available = [] then Inl (status_error ''configure.table_backend_unavailable''
            (''no table backend from configured auto_order is available: '' @
             joinDetails (unavailable_reasons (createTable registry) (rc_table_auto_order config))) ''configure'' False)
        else Inr (joinNames (map fst available), if length available = 1 then snd (hd available) else chained_table available)
      else
        let creation = createTable registry requested in
        if \<not> created creation then Inl (setCreationError ''table'' requested (cr_status creation) (cr_error_message creation))
        else Inr (requested, the (cr_backend creation)))"

subsection \<open>\<open>createPipelineServices\<close>\<close>

text \<open>What the build defines: \<open>DOC_PARSER_ENGINE_VERSION\<close> and \<open>DOC_PARSER_GIT_REVISION\<close>.\<close>

record build_info =
  bi_engine_version :: string
  bi_git_revision :: string

definition initial_provenance :: "build_info \<Rightarrow> backend_options \<Rightarrow> run_provenance" where
  "initial_provenance build options =
     (let unresolved = default_backend_options in
      \<lparr>rp_run_id = [], rp_engine_name = ''technical-doc-parser'', rp_engine_version = bi_engine_version build,
       rp_git_revision = bi_git_revision build,
       rp_backends = \<lparr>br_requested = options, br_resolved = unresolved, br_config_source = []\<rparr>, rp_models = [], rp_fallbacks = []\<rparr>)"

text \<open>The null pointers of a failed creation, which no caller follows.\<close>

definition no_services :: pipeline_services where
  "no_services = \<lparr>sv_open = (\<lambda>_. False), sv_source_path = [], sv_source_type = [], sv_page_count = 0, sv_renderer = None,
     sv_text = None, sv_ocr = unavailable_ocr [],
     sv_layout = \<lparr>lbk_analyze = (\<lambda>_ _. None), lbk_available = False, lbk_unavailable_reason = []\<rparr>,
     sv_table = \<lparr>tbk_recognize = (\<lambda>_ _ _. None), tbk_available = False, tbk_unavailable_reason = []\<rparr>,
     sv_reading_order = docling_backend\<rparr>"

definition services_of :: "document_bundle \<Rightarrow> ocr_backend \<Rightarrow> layout_backend \<Rightarrow> table_backend \<Rightarrow> pipeline_services" where
  "services_of bundle ocr layout tables =
     (let source = the (bu_source bundle) in
      \<lparr>sv_open = ds_open source, sv_source_path = ds_source_path source, sv_source_type = ds_source_type source,
       sv_page_count = ds_page_count source, sv_renderer = bu_renderer bundle, sv_text = bu_text bundle, sv_ocr = ocr,
       sv_layout = layout, sv_table = tables, sv_reading_order = docling_backend\<rparr>)"

definition config_source_of :: "backend_options \<Rightarrow> string" where
  "config_source_of options = (if bo_registry_config options = [] then ''builtin'' else bo_registry_config options)"

definition selected_services ::
  "backend_options \<Rightarrow> backend_registry \<Rightarrow> registry_config \<Rightarrow> status + backend_options \<times> pipeline_services" where
  "selected_services options registry config =
     (case select_document registry config (bo_document options) of
        Inl st \<Rightarrow> Inl st
      | Inr (document_name, bundle) \<Rightarrow>
     (case select_ocr registry config (bo_ocr options) of
        Inl st \<Rightarrow> Inl st
      | Inr (ocr_name, ocr) \<Rightarrow>
     (case select_layout registry config (bo_layout options) of
        Inl st \<Rightarrow> Inl st
      | Inr (layout_name, layout) \<Rightarrow>
     (case select_table registry config (bo_table options) of
        Inl st \<Rightarrow> Inl st
      | Inr (table_name, tables) \<Rightarrow>
          Inr (\<lparr>bo_document = document_name, bo_ocr = ocr_name, bo_layout = layout_name, bo_table = table_name,
                bo_registry_config = bo_registry_config options\<rparr>,
               services_of bundle ocr layout tables)))))"

definition createPipelineServices ::
  "build_info \<Rightarrow> registry_reader \<Rightarrow> backend_registry \<Rightarrow> backend_options \<Rightarrow> service_creation" where
  "createPipelineServices build reader registry options =
     (let provenance = initial_provenance build options;
          failed = (\<lambda>st provenance. \<lparr>sc_status = st, sc_provenance = provenance, sc_services = no_services\<rparr>) in
      case loadBackendRegistryConfig reader (bo_registry_config options) registry of
        Inl message \<Rightarrow> failed (status_error ''configure.backend_registry_invalid'' message ''configure'' False) provenance
      | Inr config \<Rightarrow>
          let backends = (rp_backends provenance)\<lparr>br_config_source := config_source_of options\<rparr>;
              provenance = provenance\<lparr>rp_backends := backends\<rparr> in
          (case selected_services options registry config of
             Inl st \<Rightarrow> failed st provenance
           | Inr (resolved, services) \<Rightarrow>
               \<lparr>sc_status = status_ok, sc_provenance = provenance\<lparr>rp_backends := backends\<lparr>br_resolved := resolved\<rparr>\<rparr>,
                sc_services = services\<rparr>))"

definition createConfiguredServices ::
  "build_info \<Rightarrow> registry_reader \<Rightarrow> engine_config \<Rightarrow> backend_registry \<Rightarrow> service_creation" where
  "createConfiguredServices build reader config registry =
     (let result = createPipelineServices build reader registry (ec_backends config)
      in if ok_status (sc_status result)
         then result\<lparr>sc_provenance := addConfiguredModels config (sc_provenance result)\<rparr> else result)"

definition createDefaultServices :: "build_info \<Rightarrow> registry_reader \<Rightarrow> built_backends \<Rightarrow> engine_config \<Rightarrow> service_creation" where
  "createDefaultServices build reader built config =
     createConfiguredServices build reader config (createDefaultBackendRegistry built config)"

definition trace_message :: "string \<Rightarrow> backend_options \<Rightarrow> string" where
  "trace_message config_source resolved =
     ''registry='' @ config_source @ '', document='' @ bo_document resolved @ '', ocr='' @ bo_ocr resolved @
     '', layout='' @ bo_layout resolved @ '', table='' @ bo_table resolved"

subsection \<open>A chain is its first backend that succeeds\<close>

text \<open>The failed backends of a chain, each with the one after it.\<close>

fun failed_pairs :: "(string \<times> 'r option) list \<Rightarrow> (string \<times> string) list" where
  "failed_pairs ((name, None) # (next_name, outcome) # rest) = (name, next_name) # failed_pairs ((next_name, outcome) # rest)"
| "failed_pairs _ = []"

lemma first_success_chain:
  "first_success warn outcomes diagnostics =
     map_option (\<lambda>r. (r, diagnostics @ map (\<lambda>(failed, fallback). warn failed fallback) (failed_pairs outcomes)))
       (case filter (\<lambda>(_, outcome). outcome \<noteq> None) outcomes of [] \<Rightarrow> None | (_, outcome) # _ \<Rightarrow> outcome)"
  by (induction outcomes arbitrary: diagnostics rule: failed_pairs.induct) (auto split: list.splits option.splits)

definition fallback_pair :: "fallback_provenance \<Rightarrow> string \<times> string" where
  "fallback_pair f = (fb_failed_backend f, fb_fallback_backend f)"

lemma fallbacks_recorded:
  "map fallback_pair (concat (map fallback_of (map (\<lambda>(failed, fallback). layout_fallback page failed fallback) pairs))) = pairs"
  by (induction pairs) (auto simp: fallback_of_def layout_fallback_def find_detail_def fallback_pair_def)

lemma failed_pairs_prefix:
  "dropWhile (\<lambda>(_, outcome). outcome = None) outcomes \<noteq> [] \<Longrightarrow>
   failed_pairs outcomes = zip (map fst (takeWhile (\<lambda>(_, outcome). outcome = None) outcomes)) (tl (map fst outcomes))"
  by (induction outcomes rule: failed_pairs.induct) (auto split: if_splits)

lemma filter_dropWhile:
  "(case filter (\<lambda>(_, outcome). outcome \<noteq> None) outcomes of [] \<Rightarrow> None | (_, outcome) # _ \<Rightarrow> outcome) =
   (case dropWhile (\<lambda>(_, outcome). outcome = None) outcomes of [] \<Rightarrow> None | (_, outcome) # _ \<Rightarrow> outcome)"
  by (induction outcomes) auto

lemma length_fallbacks: "length (concat (map fallback_of (map (\<lambda>(failed, fallback). layout_fallback page failed fallback) pairs))) = length pairs"
  using arg_cong[OF fallbacks_recorded[of page pairs], of length] by simp

text \<open>
  A chain of layout backends answers with the first of them that succeeds, and fails only if
  all do. The answer carries that backend's warnings after one for each backend that failed before
  it, and the fallbacks a run records from these name each failed backend with its successor.
\<close>

lemma layout_chain_first_success:
  "let outcomes = map (\<lambda>(name, b). (name, lbk_analyze b page page_text)) backends;
       failures = takeWhile (\<lambda>(_, outcome). outcome = None) outcomes
   in case dropWhile (\<lambda>(_, outcome). outcome = None) outcomes of
        [] \<Rightarrow> lbk_analyze (chained_layout backends) page page_text = None
      | (_, outcome) # _ \<Rightarrow> \<exists>r warnings. outcome = Some r \<and>
          lbk_analyze (chained_layout backends) page page_text = Some (r\<lparr>lr_diagnostics := warnings @ lr_diagnostics r\<rparr>) \<and>
          length warnings = length failures \<and>
          map fallback_pair (concat (map fallback_of warnings)) = zip (map fst failures) (tl (map fst backends))"
proof -
  define outcomes where "outcomes = map (\<lambda>(name, b). (name, lbk_analyze b page page_text)) backends"
  have names: "map fst outcomes = map fst backends" by (simp add: outcomes_def comp_def split_beta)
  have analyze: "lbk_analyze (chained_layout backends) page page_text =
      map_option (\<lambda>(candidate, diagnostics). candidate\<lparr>lr_diagnostics := diagnostics @ lr_diagnostics candidate\<rparr>)
        (first_success (layout_fallback page) outcomes [])"
    by (simp add: chained_layout_def outcomes_def)
  show ?thesis
  proof (cases "dropWhile (\<lambda>(_, outcome). outcome = None) outcomes")
    case Nil
    have "lbk_analyze (chained_layout backends) page page_text = None"
      unfolding analyze first_success_chain filter_dropWhile Nil by simp
    then show ?thesis
      unfolding Let_def outcomes_def[symmetric] Nil list.case .
  next
    case (Cons o' rest)
    then obtain name r where o': "o' = (name, Some r)"
      using hd_dropWhile[of "\<lambda>(_, outcome). outcome = None" outcomes] by (cases o') auto
    let ?failures = "takeWhile (\<lambda>(_, outcome). outcome = None) outcomes"
    let ?warnings = "map (\<lambda>(failed, fallback). layout_fallback page failed fallback) (failed_pairs outcomes)"
    have pairs: "failed_pairs outcomes = zip (map fst ?failures) (tl (map fst backends))"
      using failed_pairs_prefix[of outcomes] Cons names by simp
    have "length ?failures < length outcomes"
      using Cons by (metis (no_types, lifting) length_append length_greater_0_conv less_add_same_cancel1 list.distinct(1) takeWhile_dropWhile_id)
    then have "length (failed_pairs outcomes) = length ?failures"
      using arg_cong[OF names, of length] by (simp add: pairs)
    moreover have "lbk_analyze (chained_layout backends) page page_text = Some (r\<lparr>lr_diagnostics := ?warnings @ lr_diagnostics r\<rparr>)"
      unfolding analyze first_success_chain filter_dropWhile Cons o' by simp
    moreover have "map fallback_pair (concat (map fallback_of ?warnings)) = zip (map fst ?failures) (tl (map fst backends))"
      by (simp only: fallbacks_recorded pairs)
    ultimately show ?thesis
      unfolding Let_def outcomes_def[symmetric] Cons o' list.case prod.case
      by (intro exI[of _ r] exI[of _ ?warnings]) simp
  qed
qed

subsection \<open>The names of a chain\<close>

definition arrow_free :: "string \<Rightarrow> bool" where
  "arrow_free name \<longleftrightarrow> name \<noteq> [] \<and> find_arrow name = None"

lemma find_arrow_joined: "find_arrow name = None \<Longrightarrow> find_arrow (name @ CHR ''-'' # CHR ''>'' # s) = Some (length name)"
  by (simp add: find_arrow_def find_pair_joined)

lemma joinNames_Cons: "list_all arrow_free (name # names) \<Longrightarrow> joinNames (name # names) = name @ concat (map ((@) ''->'') names)"
proof -
  have "foldl (\<lambda>joined name. joined @ (if joined = [] then [] else ''->'') @ name) acc names = acc @ concat (map ((@) ''->'') names)"
    if "acc \<noteq> []" for acc names
    using that by (induction names arbitrary: acc) simp_all
  then show "list_all arrow_free (name # names) \<Longrightarrow> ?thesis" by (simp add: joinNames_def arrow_free_def)
qed

lemma containsBackend_joinNames:
  "list_all arrow_free names \<Longrightarrow> names \<noteq> [] \<Longrightarrow> containsBackend (joinNames names) backend \<longleftrightarrow> backend \<in> set names"
proof (induction names)
  case (Cons name names)
  show ?case
  proof (cases names)
    case Nil
    then show ?thesis
      using Cons.prems by (subst containsBackend.simps) (auto simp: joinNames_Cons arrow_free_def)
  next
    case (Cons next_name rest)
    have joined: "joinNames (name # names) = name @ CHR ''-'' # CHR ''>'' # joinNames names"
      using Cons.prems Cons by (simp add: joinNames_Cons)
    have "find_arrow (joinNames (name # names)) = Some (length name)"
      unfolding joined using Cons.prems by (intro find_arrow_joined) (simp add: arrow_free_def)
    then have "containsBackend (joinNames (name # names)) backend \<longleftrightarrow>
        name = backend \<or> containsBackend (joinNames names) backend"
      by (subst containsBackend.simps) (simp add: joined)
    then show ?thesis
      using Cons.IH Cons.prems Cons by auto
  qed
qed simp


subsection \<open>The names of the default registry\<close>

lemma first_created_iff:
  "first_created create names = Some (name, candidate) \<Longrightarrow> name \<in> set names \<and> created candidate \<and> candidate = create name"
  by (induction names) (auto split: if_splits)

lemma first_created_None: "first_created create names = None \<longleftrightarrow> list_all (\<lambda>name. \<not> created (create name)) names"
  by (induction names) auto

lemma available_names: "map fst (available_backends create names) = filter (\<lambda>name. created (create name)) names"
  by (simp add: available_backends_def comp_def)

lemma created_registered: "created (create_backend available reason registry name) \<Longrightarrow> registry_contains registry name"
  by (auto simp: created_def create_backend_def registry_contains_def split: option.splits)

lemma created_iff: "created (create_backend available reason registry name) \<longleftrightarrow>
    (\<exists>b. create_backend available reason registry name = \<lparr>cr_status = CreationCreated, cr_backend = Some b, cr_error_message = []\<rparr>)"
  by (auto simp: created_def create_backend_def Let_def split: option.splits if_splits)

lemma default_registry:
  "bk_document (createDefaultBackendRegistry built config) = [(''pdf'', bb_pdf built)]"
  "registry_contains (bk_layout (createDefaultBackendRegistry built config)) name \<longleftrightarrow>
     name \<in> {''text'', ''doclaynet'', ''paddle-layout''}"
  "registry_contains (bk_table (createDefaultBackendRegistry built config)) name \<longleftrightarrow> name \<in> {''text'', ''table-transformer''}"
  "registry_contains (bk_ocr (createDefaultBackendRegistry built config)) name \<longleftrightarrow> name \<in> {''noop'', ''tesseract'', ''paddle''}"
  "map_of (bk_layout (createDefaultBackendRegistry built config)) ''text'' = Some (Some text_layout_backend)"
  "map_of (bk_table (createDefaultBackendRegistry built config)) ''text'' = Some (Some text_table_backend)"
  by (auto simp: createDefaultBackendRegistry_def Let_def registerDocument_def registerOcr_def registerLayout_def
    registerTable_def registerBackend_def registrable_def empty_registry_def registry_contains_def)

lemma default_names_arrow_free:
  "created (createLayout (createDefaultBackendRegistry built config) name) \<Longrightarrow> arrow_free name"
  "created (createTable (createDefaultBackendRegistry built config) name) \<Longrightarrow> arrow_free name"
  by (auto dest!: created_registered simp: createLayout_def createTable_def default_registry arrow_free_def find_arrow_def)

subsection \<open>The services of an engine\<close>

text \<open>What the provenance has to list: the model files set for the backends in use.\<close>

definition model_entries :: "string \<Rightarrow> string \<Rightarrow> string \<Rightarrow> (string \<times> string) list \<Rightarrow> model_provenance list" where
  "model_entries stage backend profile paths =
     map (\<lambda>(role, path). \<lparr>mp_stage = stage, mp_backend = backend, mp_role = role, mp_path = path, mp_profile = profile\<rparr>)
       (filter (\<lambda>(_, path). path \<noteq> []) paths)"

definition used_models :: "engine_config \<Rightarrow> string \<Rightarrow> string list \<Rightarrow> string list \<Rightarrow> model_provenance list" where
  "used_models config ocr layouts tables =
     (let paddle = ec_paddle_ocr config; tesseract = ec_tesseract config; transformer = ec_table_transformer config in
      (if ocr = ''paddle'' then model_entries ''text'' ''paddle'' (pp_name (po_profile paddle))
         [(''detection'', po_detection_model paddle), (''recognition'', po_recognition_model paddle),
          (''character_dictionary'', po_character_dict paddle)] else []) @
      (if ocr = ''tesseract'' then model_entries ''text'' ''tesseract'' (ts_language tesseract)
         [(''executable'', ts_executable tesseract)] else []) @
      (if ''doclaynet'' \<in> set layouts then model_entries ''layout'' ''doclaynet'' []
         [(''layout'', dn_model_path (ec_doclaynet config))] else []) @
      (if ''paddle-layout'' \<in> set layouts then model_entries ''layout'' ''paddle-layout'' []
         [(''layout'', pd_model_path (ec_paddle_layout config))] else []) @
      (if ''table-transformer'' \<in> set tables then model_entries ''table'' ''table-transformer'' []
         [(''detection'', tt_detection_model_path transformer), (''structure'', tt_structure_model_path transformer)] else []))"

lemma models_addModel: "rp_models (addModel stage backend role path profile p) =
    rp_models p @ model_entries stage backend profile [(role, path)]"
  by (simp add: addModel_def model_entries_def)

lemma backends_addModel: "rp_backends (addModel stage backend role path profile p) = rp_backends p"
  by (simp add: addModel_def)

lemma model_entries_append: "model_entries stage backend profile es @ model_entries stage backend profile es' =
    model_entries stage backend profile (es @ es')"
  by (simp add: model_entries_def)

lemma backends_configured: "rp_backends (addConfiguredModels config p) = rp_backends p"
  by (simp add: addConfiguredModels_def Let_def backends_addModel)

lemma configured_models:
  assumes "\<And>name. containsBackend (bo_layout (br_resolved (rp_backends p))) name \<longleftrightarrow> name \<in> set layouts"
    "\<And>name. containsBackend (bo_table (br_resolved (rp_backends p))) name \<longleftrightarrow> name \<in> set tables"
  shows "rp_models (addConfiguredModels config p) =
      rp_models p @ used_models config (bo_ocr (br_resolved (rp_backends p))) layouts tables"
  by (simp add: addConfiguredModels_def used_models_def Let_def models_addModel backends_addModel assms model_entries_append)

text \<open>The backends a layout or table selection uses, and what they make up.\<close>

definition layout_service :: "(string \<times> layout_backend) list \<Rightarrow> layout_backend" where
  "layout_service used = (case used of [(_, b)] \<Rightarrow> b | _ \<Rightarrow> chained_layout used)"

definition table_service :: "(string \<times> table_backend) list \<Rightarrow> table_backend" where
  "table_service used = (case used of [(_, b)] \<Rightarrow> b | _ \<Rightarrow> chained_table used)"

definition requested_names :: "string \<Rightarrow> string list \<Rightarrow> string list" where
  "requested_names requested order = (if requested = ''auto'' then order else [requested])"

lemma select_layout_iff:
  "select_layout registry config requested = Inr (name, b) \<longleftrightarrow>
     (let used = available_backends (createLayout registry) (requested_names requested (rc_layout_auto_order config))
      in used \<noteq> [] \<and> name = joinNames (map fst used) \<and> b = layout_service used)"
  by (auto simp: select_layout_def Let_def requested_names_def available_backends_def layout_service_def joinNames_def
      length_Suc_conv hd_map split: list.splits)

lemma select_table_iff:
  "select_table registry config requested = Inr (name, b) \<longleftrightarrow>
     (let used = available_backends (createTable registry) (requested_names requested (rc_table_auto_order config))
      in used \<noteq> [] \<and> name = joinNames (map fst used) \<and> b = table_service used)"
  by (auto simp: select_table_def Let_def requested_names_def available_backends_def table_service_def joinNames_def
      length_Suc_conv hd_map split: list.splits)

lemma select_failed:
  "select_document registry config requested = Inl st \<Longrightarrow> \<not> ok_status st"
  "select_ocr registry config requested = Inl st \<Longrightarrow> \<not> ok_status st"
  "select_layout registry config requested = Inl st \<Longrightarrow> \<not> ok_status st"
  "select_table registry config requested = Inl st \<Longrightarrow> \<not> ok_status st"
  by (auto simp: select_document_def select_ocr_def select_layout_def select_table_def setCreationError_def status_error_def
    Let_def split: option.splits if_splits)

lemma selected_failed: "selected_services options registry config = Inl st \<Longrightarrow> \<not> ok_status st"
  by (auto simp: selected_services_def select_failed split: sum.splits)

text \<open>The services and the record of them that a created engine hands to its pipeline.\<close>

lemma created_services:
  assumes "ok_status (sc_status (createPipelineServices build reader registry options))"
  obtains config document source ocr_name ocr layouts tables where
    "loadBackendRegistryConfig reader (bo_registry_config options) registry = Inr config"
    "select_document registry config (bo_document options) = Inr (document, source)"
    "select_ocr registry config (bo_ocr options) = Inr (ocr_name, ocr)"
    "layouts = available_backends (createLayout registry) (requested_names (bo_layout options) (rc_layout_auto_order config))"
    "tables = available_backends (createTable registry) (requested_names (bo_table options) (rc_table_auto_order config))"
    "layouts \<noteq> []" "tables \<noteq> []"
    "createPipelineServices build reader registry options =
       \<lparr>sc_status = status_ok,
        sc_provenance = (initial_provenance build options)\<lparr>rp_backends :=
          \<lparr>br_requested = options,
           br_resolved = \<lparr>bo_document = document, bo_ocr = ocr_name, bo_layout = joinNames (map fst layouts),
             bo_table = joinNames (map fst tables), bo_registry_config = bo_registry_config options\<rparr>,
           br_config_source = config_source_of options\<rparr>\<rparr>,
        sc_services = services_of source ocr (layout_service layouts) (table_service tables)\<rparr>"
proof -
  obtain config where config: "loadBackendRegistryConfig reader (bo_registry_config options) registry = Inr config"
    using assms by (cases "loadBackendRegistryConfig reader (bo_registry_config options) registry")
      (auto simp: createPipelineServices_def status_error_def)
  obtain resolved services where selected: "selected_services options registry config = Inr (resolved, services)"
    using assms config by (cases "selected_services options registry config")
      (auto simp: createPipelineServices_def Let_def dest: selected_failed)
  from selected obtain document source ocr_name ocr layout_name layout table_name tables where parts:
      "select_document registry config (bo_document options) = Inr (document, source)"
      "select_ocr registry config (bo_ocr options) = Inr (ocr_name, ocr)"
      "select_layout registry config (bo_layout options) = Inr (layout_name, layout)"
      "select_table registry config (bo_table options) = Inr (table_name, tables)"
      "resolved = \<lparr>bo_document = document, bo_ocr = ocr_name, bo_layout = layout_name, bo_table = table_name,
         bo_registry_config = bo_registry_config options\<rparr>" "services = services_of source ocr layout tables"
    by (auto simp: selected_services_def split: sum.splits)
  show thesis
    using that[OF config parts(1,2) refl refl] parts(3,4)
    by (simp add: select_layout_iff select_table_iff Let_def createPipelineServices_def config selected parts(5,6) initial_provenance_def)
qed

text \<open>
  The provenance of a run names exactly the models it uses: those set for the OCR backend and
  for each backend of the layout and table chains, of which every one was created, in the order of
  the registry file; the resolved names in the provenance are those of these backends.
\<close>

lemma provenance_names_used_models:
  assumes "ok_status (sc_status (createDefaultServices build reader built config))"
  shows "\<exists>layouts tables.
    (let registry = createDefaultBackendRegistry built config; creation = createDefaultServices build reader built config;
         resolved = br_resolved (rp_backends (sc_provenance creation)) in
     layouts \<noteq> [] \<and> tables \<noteq> [] \<and>
     list_all (\<lambda>(name, b). createLayout registry name = \<lparr>cr_status = CreationCreated, cr_backend = Some b, cr_error_message = []\<rparr>) layouts \<and>
     list_all (\<lambda>(name, b). createTable registry name = \<lparr>cr_status = CreationCreated, cr_backend = Some b, cr_error_message = []\<rparr>) tables \<and>
     sv_layout (sc_services creation) = layout_service layouts \<and> sv_table (sc_services creation) = table_service tables \<and>
     bo_layout resolved = joinNames (map fst layouts) \<and> bo_table resolved = joinNames (map fst tables) \<and>
     rp_models (sc_provenance creation) = used_models config (bo_ocr resolved) (map fst layouts) (map fst tables))"
proof -
  let ?registry = "createDefaultBackendRegistry built config" and ?options = "ec_backends config"
  have "ok_status (sc_status (createPipelineServices build reader ?registry ?options))"
    using assms by (simp add: createDefaultServices_def createConfiguredServices_def Let_def split: if_splits)
  then obtain rc :: registry_config and document source ocr_name ocr layouts tables where used:
      "layouts = available_backends (createLayout ?registry) (requested_names (bo_layout ?options) (rc_layout_auto_order rc))"
      "tables = available_backends (createTable ?registry) (requested_names (bo_table ?options) (rc_table_auto_order rc))"
      "layouts \<noteq> []" "tables \<noteq> []"
    and creation: "createPipelineServices build reader ?registry ?options =
       \<lparr>sc_status = status_ok,
        sc_provenance = (initial_provenance build ?options)\<lparr>rp_backends :=
          \<lparr>br_requested = ?options,
           br_resolved = \<lparr>bo_document = document, bo_ocr = ocr_name, bo_layout = joinNames (map fst layouts),
             bo_table = joinNames (map fst tables), bo_registry_config = bo_registry_config ?options\<rparr>,
           br_config_source = config_source_of ?options\<rparr>\<rparr>,
        sc_services = services_of source ocr (layout_service layouts) (table_service tables)\<rparr>"
    by (rule created_services) (rule that)
  have free: "list_all arrow_free (map fst layouts)" "list_all arrow_free (map fst tables)"
    unfolding used(1,2) available_names by (auto simp: list_all_iff default_names_arrow_free)
  have names: "containsBackend (joinNames (map fst layouts)) name \<longleftrightarrow> name \<in> set (map fst layouts)"
      "containsBackend (joinNames (map fst tables)) name \<longleftrightarrow> name \<in> set (map fst tables)" for name
    using containsBackend_joinNames[OF free(1)] containsBackend_joinNames[OF free(2)] used(3,4) by simp_all
  have made: "list_all (\<lambda>(name, b). createLayout ?registry name = \<lparr>cr_status = CreationCreated, cr_backend = Some b, cr_error_message = []\<rparr>) layouts"
      "list_all (\<lambda>(name, b). createTable ?registry name = \<lparr>cr_status = CreationCreated, cr_backend = Some b, cr_error_message = []\<rparr>) tables"
    unfolding used(1,2) by (auto simp: list_all_iff available_backends_def created_iff createLayout_def createTable_def)
  define p where "p = sc_provenance (createPipelineServices build reader ?registry ?options)"
  define q where "q = addConfiguredModels config p"
  have resolved: "br_resolved (rp_backends q) = \<lparr>bo_document = document, bo_ocr = ocr_name, bo_layout = joinNames (map fst layouts),
      bo_table = joinNames (map fst tables), bo_registry_config = bo_registry_config ?options\<rparr>"
    by (simp add: q_def backends_configured p_def creation)
  have models: "rp_models q = used_models config ocr_name (map fst layouts) (map fst tables)"
    using configured_models[where p = p, of "map fst layouts" "map fst tables" config] names
    by (simp add: q_def p_def creation initial_provenance_def)
  have default: "createDefaultServices build reader built config = \<lparr>sc_status = status_ok, sc_provenance = q,
      sc_services = services_of source ocr (layout_service layouts) (table_service tables)\<rparr>"
    by (simp add: createDefaultServices_def createConfiguredServices_def q_def p_def creation status_ok_def)
  show ?thesis
    by (intro exI[of _ layouts] exI[of _ tables])
      (simp add: default resolved models used(3,4) made services_of_def Let_def)
qed

definition sample_build :: build_info where
  "sample_build = \<lparr>bi_engine_version = ''0.1.0'', bi_git_revision = ''unknown''\<rparr>"

definition no_files :: registry_reader where
  "no_files = \<lparr>rd_file = (\<lambda>_. None), rd_type_error = (\<lambda>_. [])\<rparr>"

definition sample_source :: document_source where
  "sample_source = \<lparr>ds_open = (\<lambda>_. True), ds_source_path = ''a.pdf'', ds_source_type = ''pdf'', ds_page_count = 1\<rparr>"

text \<open>A build without ONNX Runtime, on a machine without Tesseract.\<close>

definition sample_built :: built_backends where
  "sample_built = \<lparr>bb_pdf = \<lparr>bu_source = Some sample_source, bu_renderer = None, bu_text = None\<rparr>,
     bb_tesseract = (\<lambda>_. unavailable_ocr ''tesseract is not installed''), bb_paddle = None, bb_doclaynet = None,
     bb_paddle_layout = None, bb_table_transformer = None\<rparr>"

lemma first_success_total:
  "(name, outcome) \<in> set outcomes \<Longrightarrow> outcome \<noteq> None \<Longrightarrow> first_success warn outcomes diagnostics \<noteq> None"
  by (induction outcomes arbitrary: diagnostics) (auto split: option.splits)

lemma layout_service_cases: "layout_service used = (if length used = 1 then snd (hd used) else chained_layout used)"
  by (auto simp: layout_service_def length_Suc_conv split: list.split)

lemma table_service_cases: "table_service used = (if length used = 1 then snd (hd used) else chained_table used)"
  by (auto simp: table_service_def length_Suc_conv split: list.split)

lemma layout_service_total:
  assumes "(name, b) \<in> set used" "lbk_analyze b page page_text \<noteq> None"
  shows "lbk_analyze (layout_service used) page page_text \<noteq> None"
proof -
  have "(name, lbk_analyze b page page_text) \<in> set (map (\<lambda>(name, b). (name, lbk_analyze b page page_text)) used)"
    using assms(1) by force
  from first_success_total[OF this assms(2)] have "lbk_analyze (chained_layout used) page page_text \<noteq> None"
    by (simp only: chained_layout_def layout_backend.simps option.map_disc_iff not_False_eq_True)
  moreover have "used = [(name, b)]" if "length used = 1" using that assms(1) by (auto simp: length_Suc_conv)
  ultimately show ?thesis using assms(2) by (auto simp: layout_service_cases simp del: option.collapse)
qed

lemma table_service_total:
  assumes "(name, b) \<in> set used" "tbk_recognize b page page_text layout \<noteq> None"
  shows "tbk_recognize (table_service used) page page_text layout \<noteq> None"
proof -
  have "(name, tbk_recognize b page page_text layout) \<in> set (map (\<lambda>(name, b). (name, tbk_recognize b page page_text layout)) used)"
    using assms(1) by force
  from first_success_total[OF this assms(2)] have "tbk_recognize (chained_table used) page page_text layout \<noteq> None"
    by (simp only: chained_table_def table_backend.simps option.map_disc_iff not_False_eq_True)
  moreover have "used = [(name, b)]" if "length used = 1" using that assms(1) by (auto simp: length_Suc_conv)
  ultimately show ?thesis using assms(2) by (auto simp: table_service_cases)
qed

lemma default_config_loaded:
  "loadBackendRegistryConfig reader [] (createDefaultBackendRegistry built config) = Inr default_registry_config"
proof -
  have "hasDocument (createDefaultBackendRegistry built config) ''pdf''" by (simp add: hasDocument_def default_registry)
  then show ?thesis
    by (simp add: load_config_iff registry_file_def registry_config_ok_def order_ok_def default_registry_config_def
      hasOcr_def hasLayout_def hasTable_def default_registry)
qed

lemma text_backends_available:
  "(''text'', text_layout_backend) \<in> set (available_backends (createLayout (createDefaultBackendRegistry built config))
     (requested_names ''auto'' (rc_layout_auto_order default_registry_config)))"
  "(''text'', text_table_backend) \<in> set (available_backends (createTable (createDefaultBackendRegistry built config))
     (requested_names ''auto'' (rc_table_auto_order default_registry_config)))"
  by (auto simp: available_backends_def requested_names_def default_registry_config_def createLayout_def createTable_def
    create_backend_def default_registry text_layout_backend_def text_table_backend_def created_def)

text \<open>The services of the default options, in a build with the PDF source.\<close>

lemma default_services:
  assumes "bu_source (bb_pdf built) \<noteq> None" "ec_backends config = default_backend_options"
  obtains layouts tables source ocr p where
    "createDefaultServices build reader built config = \<lparr>sc_status = status_ok, sc_provenance = p,
       sc_services = services_of source ocr (layout_service layouts) (table_service tables)\<rparr>"
    "(''text'', text_layout_backend) \<in> set layouts" "(''text'', text_table_backend) \<in> set tables"
    "bo_document (br_resolved (rp_backends p)) = ''pdf''" "br_config_source (rp_backends p) = ''builtin''"
proof -
  let ?registry = "createDefaultBackendRegistry built config"
  let ?layouts = "available_backends (createLayout ?registry) (requested_names ''auto'' (rc_layout_auto_order default_registry_config))"
  let ?tables = "available_backends (createTable ?registry) (requested_names ''auto'' (rc_table_auto_order default_registry_config))"
  have source: "select_document ?registry default_registry_config ''auto'' = Inr (''pdf'', bb_pdf built)"
    using assms(1) by (simp add: select_document_def createDocument_def default_registry default_registry_config_def created_def)
  obtain ocr_name ocr where ocr: "select_ocr ?registry default_registry_config ''auto'' = Inr (ocr_name, ocr)"
    by (cases "select_ocr ?registry default_registry_config ''auto''") (auto simp: select_ocr_def split: option.splits)
  have layouts: "select_layout ?registry default_registry_config ''auto'' = Inr (joinNames (map fst ?layouts), layout_service ?layouts)"
    using text_backends_available(1)[of built config] by (auto simp: select_layout_iff Let_def)
  have tables: "select_table ?registry default_registry_config ''auto'' = Inr (joinNames (map fst ?tables), table_service ?tables)"
    using text_backends_available(2)[of built config] by (auto simp: select_table_iff Let_def)
  let ?resolved = "\<lparr>bo_document = ''pdf'', bo_ocr = ocr_name, bo_layout = joinNames (map fst ?layouts),
    bo_table = joinNames (map fst ?tables), bo_registry_config = []\<rparr>"
  have selected: "selected_services default_backend_options ?registry default_registry_config =
      Inr (?resolved, services_of (bb_pdf built) ocr (layout_service ?layouts) (table_service ?tables))"
    by (simp add: selected_services_def default_backend_options_def source ocr layouts tables)
  define q where "q = sc_provenance (createPipelineServices build reader ?registry default_backend_options)"
  have "bo_registry_config default_backend_options = []" by (simp add: default_backend_options_def)
  then have creation: "sc_status (createPipelineServices build reader ?registry default_backend_options) = status_ok"
      "sc_services (createPipelineServices build reader ?registry default_backend_options) =
        services_of (bb_pdf built) ocr (layout_service ?layouts) (table_service ?tables)"
      "br_resolved (rp_backends q) = ?resolved" "br_config_source (rp_backends q) = ''builtin''"
    by (simp_all add: q_def createPipelineServices_def default_config_loaded selected config_source_of_def Let_def)
  have "createDefaultServices build reader built config = \<lparr>sc_status = status_ok, sc_provenance = addConfiguredModels config q,
      sc_services = services_of (bb_pdf built) ocr (layout_service ?layouts) (table_service ?tables)\<rparr>"
    by (cases "createPipelineServices build reader ?registry default_backend_options")
      (use creation in \<open>simp add: createDefaultServices_def createConfiguredServices_def assms(2) q_def status_ok_def Let_def\<close>)
  then show thesis
    by (rule that) (use creation in \<open>simp_all add: backends_configured text_backends_available\<close>)
qed

lemma provenance_names_used_models_witness:
  "\<exists>layouts :: (string \<times> layout_backend) list. bo_layout (br_resolved (rp_backends (sc_provenance
      (createDefaultServices sample_build no_files sample_built defaultEngineConfig)))) = joinNames (map fst layouts) \<and> layouts \<noteq> []"
proof -
  have ok: "ok_status (sc_status (createDefaultServices sample_build no_files sample_built defaultEngineConfig))"
    by (rule default_services[of sample_built defaultEngineConfig sample_build no_files])
      (simp_all add: sample_built_def defaultEngineConfig_def status_ok_def)
  show ?thesis using provenance_names_used_models[OF ok] unfolding Let_def by (elim exE conjE) (rule exI, rule conjI, assumption, assumption)
qed

text \<open>
  A build with the PDF source always gets its services for the default options, whatever else
  is missing. Their layout and table analysis then fail on no page, because the chains end with the
  text backends.
\<close>

lemma default_services_created:
  assumes "bu_source (bb_pdf built) \<noteq> None" and "ec_backends config = default_backend_options"
  shows "let creation = createDefaultServices build reader built config in
    ok_status (sc_status creation) \<and>
    bo_document (br_resolved (rp_backends (sc_provenance creation))) = ''pdf'' \<and>
    br_config_source (rp_backends (sc_provenance creation)) = ''builtin'' \<and>
    (\<forall>page page_text. lbk_analyze (sv_layout (sc_services creation)) page page_text \<noteq> None) \<and>
    (\<forall>page page_text layout. tbk_recognize (sv_table (sc_services creation)) page page_text layout \<noteq> None)"
proof -
  obtain layouts tables source ocr p where services:
    "createDefaultServices build reader built config = \<lparr>sc_status = status_ok, sc_provenance = p,
       sc_services = services_of source ocr (layout_service layouts) (table_service tables)\<rparr>"
    "(''text'', text_layout_backend) \<in> set layouts" "(''text'', text_table_backend) \<in> set tables"
    "bo_document (br_resolved (rp_backends p)) = ''pdf''" "br_config_source (rp_backends p) = ''builtin''"
    using assms by (rule default_services)
  have "lbk_analyze (layout_service layouts) page page_text \<noteq> None" for page page_text
    using services(2) by (rule layout_service_total) (simp add: text_layout_backend_def)
  moreover have "tbk_recognize (table_service tables) page page_text layout \<noteq> None" for page page_text layout
    using services(3) by (rule table_service_total) (simp add: text_table_backend_def)
  ultimately show ?thesis by (simp add: services(1,4,5) services_of_def status_ok_def Let_def)
qed

lemma default_services_created_witness:
  "ok_status (sc_status (createDefaultServices sample_build no_files sample_built defaultEngineConfig))"
  using default_services_created[of sample_built defaultEngineConfig sample_build no_files]
  by (simp add: sample_built_def defaultEngineConfig_def Let_def)

end
