(* ===== verification/Redis_Protocol.thy ===== *)
theory Redis_Protocol
  imports Engine_Config
begin

text \<open>
  The wire protocol of the worker's Redis client, \<open>platform/worker/redis_client.cpp\<close>: the encoding
  of commands, the buffered reading of lines and payloads from a socket, and the reading of
  replies. A socket is the chunks that successive calls of \<open>recv\<close> will return; it ends with a failing
  call. An exception is its message.
\<close>

subsection \<open>Values and commands\<close>

text \<open>The fields a type does not use are those of a default \<open>Value\<close>.\<close>

datatype resp =
    RespNull
  | RespString string
  | RespInteger int
  | RespArray "resp list"
  | RespError string

fun resp_string :: "resp \<Rightarrow> string" where
  "resp_string (RespString s) = s"
| "resp_string (RespError s) = s"
| "resp_string _ = []"

fun resp_integer :: "resp \<Rightarrow> int" where
  "resp_integer (RespInteger n) = n"
| "resp_integer _ = 0"

fun resp_array :: "resp \<Rightarrow> resp list" where
  "resp_array (RespArray vs) = vs"
| "resp_array _ = []"

definition crlf :: string where
  "crlf = [CHR 0x0D, CHR 0x0A]"

definition encode_argument :: "string \<Rightarrow> string" where
  "encode_argument argument = ''$'' @ nat_to_string (length argument) @ crlf @ argument @ crlf"

definition encodeCommand :: "string list \<Rightarrow> string" where
  "encodeCommand arguments = ''*'' @ nat_to_string (length arguments) @ crlf @ concat (map encode_argument arguments)"

subsection \<open>Reading from a socket\<close>

record connection =
  cn_buffer :: string
  cn_chunks :: "string list"

text \<open>\<open>recv\<close> with an empty result or none: the connection is closed.\<close>

definition receive :: "string list \<Rightarrow> (string \<times> string list) option" where
  "receive chunks = (case chunks of [] \<Rightarrow> None | c # cs \<Rightarrow> if c = [] then None else Some (c, cs))"

lemma receive_shorter: "receive chunks = Some (c, cs) \<Longrightarrow> length cs < length chunks"
  by (auto simp: receive_def split: list.splits if_splits)

function readLine :: "connection \<Rightarrow> string + string \<times> connection" where
  "readLine c =
     (case find_pair (CHR 0x0D) (CHR 0x0A) (cn_buffer c) of
        Some i \<Rightarrow> Inr (take i (cn_buffer c), c\<lparr>cn_buffer := drop (i + 2) (cn_buffer c)\<rparr>)
      | None \<Rightarrow>
          (case receive (cn_chunks c) of
             None \<Rightarrow> Inl ''Redis connection closed while reading a line''
           | Some (received, chunks) \<Rightarrow> readLine \<lparr>cn_buffer = cn_buffer c @ received, cn_chunks = chunks\<rparr>))"
  by auto
termination by (relation "measure (\<lambda>c. length (cn_chunks c))") (auto dest: receive_shorter)

function readExact :: "nat \<Rightarrow> connection \<Rightarrow> string + string \<times> connection" where
  "readExact n c =
     (if length (cn_buffer c) < n
      then case receive (cn_chunks c) of
          None \<Rightarrow> Inl ''Redis connection closed while reading a payload''
        | Some (received, chunks) \<Rightarrow> readExact n \<lparr>cn_buffer = cn_buffer c @ received, cn_chunks = chunks\<rparr>
      else Inr (take n (cn_buffer c), c\<lparr>cn_buffer := drop n (cn_buffer c)\<rparr>))"
  by auto
termination by (relation "measure (\<lambda>(n, c). length (cn_chunks c))") (auto dest: receive_shorter)

declare readLine.simps [simp del] readExact.simps [simp del]

text \<open>\<open>std::stoll\<close>.\<close>

definition stoll :: "string \<Rightarrow> int option" where
  "stoll s =
     (case sign_of (dropWhile isspace s) of
        (sign, rest) \<Rightarrow>
          let digits = takeWhile isdigit rest; n = sign * digits_value digits
          in if digits = [] \<or> n < - (2 ^ 63) \<or> 2 ^ 63 \<le> n then None else Some n)"

definition read_number :: "connection \<Rightarrow> string + int \<times> connection" where
  "read_number c =
     (case readLine c of
        Inl e \<Rightarrow> Inl e
      | Inr (line, c) \<Rightarrow> (case stoll line of None \<Rightarrow> Inl ''stoll'' | Some n \<Rightarrow> Inr (n, c)))"

text \<open>
  The first argument bounds the depth of nested arrays. More than the bytes still to come is always
  enough, as is shown below: each array takes up some.
\<close>

fun readValue :: "nat \<Rightarrow> connection \<Rightarrow> string + resp \<times> connection"
and read_elements :: "nat \<Rightarrow> nat \<Rightarrow> connection \<Rightarrow> string + resp list \<times> connection" where
  "readValue 0 c = Inl ''out of fuel''"
| "readValue (Suc depth) c =
     (case readExact 1 c of
        Inl e \<Rightarrow> Inl e
      | Inr (tag, c) \<Rightarrow>
          if tag = ''+''
          then map_sum id (\<lambda>(line, c). (RespString line, c)) (readLine c)
          else if tag = ''-''
          then map_sum id (\<lambda>(line, c). (RespError line, c)) (readLine c)
          else if tag = '':''
          then map_sum id (\<lambda>(n, c). (RespInteger n, c)) (read_number c)
          else if tag = ''$''
          then (case read_number c of
              Inl e \<Rightarrow> Inl e
            | Inr (n, c) \<Rightarrow>
                if n < 0 then Inr (RespNull, c)
                else
                  (case readExact (nat n) c of
                     Inl e \<Rightarrow> Inl e
                   | Inr (payload, c) \<Rightarrow>
                       (case readExact 2 c of
                          Inl e \<Rightarrow> Inl e
                        | Inr (end, c) \<Rightarrow>
                            if end \<noteq> crlf then Inl ''invalid Redis bulk string terminator''
                            else Inr (RespString payload, c))))
          else if tag = ''*''
          then (case read_number c of
              Inl e \<Rightarrow> Inl e
            | Inr (n, c) \<Rightarrow>
                if n < 0 then Inr (RespNull, c)
                else map_sum id (\<lambda>(vs, c). (RespArray vs, c)) (read_elements depth (nat n) c))
          else Inl (''unsupported Redis RESP prefix: '' @ tag))"
| "read_elements depth 0 c = Inr ([], c)"
| "read_elements depth (Suc n) c =
     (case readValue depth c of
        Inl e \<Rightarrow> Inl e
      | Inr (v, c) \<Rightarrow> map_sum id (\<lambda>(vs, c). (v # vs, c)) (read_elements depth n c))"

subsection \<open>How a socket splits its bytes makes no difference\<close>

text \<open>The bytes a connection still gives, and what reading them does.\<close>

definition content :: "connection \<Rightarrow> string" where
  "content c = cn_buffer c @ concat (takeWhile (\<lambda>chunk. chunk \<noteq> []) (cn_chunks c))"

lemma content_receive:
  "receive (cn_chunks c) = Some (received, chunks) \<Longrightarrow>
   content \<lparr>cn_buffer = cn_buffer c @ received, cn_chunks = chunks\<rparr> = content c"
  "receive (cn_chunks c) = None \<Longrightarrow> content c = cn_buffer c"
  by (auto simp: content_def receive_def split: list.splits if_splits)

lemma content_buffer: "content (c\<lparr>cn_buffer := drop n (cn_buffer c)\<rparr>) = drop n (content c)" if "n \<le> length (cn_buffer c)"
  using that by (simp add: content_def)

lemma readLine_content:
  "case readLine c of
     Inl _ \<Rightarrow> find_pair (CHR 0x0D) (CHR 0x0A) (content c) = None
   | Inr (line, c') \<Rightarrow> (\<exists>i. find_pair (CHR 0x0D) (CHR 0x0A) (content c) = Some i \<and> line = take i (content c) \<and>
       content c' = drop (i + 2) (content c))"
proof (induction c rule: readLine.induct)
  case (1 c)
  show ?case
  proof (cases "find_pair (CHR 0x0D) (CHR 0x0A) (cn_buffer c)")
    case (Some i)
    then have "find_pair (CHR 0x0D) (CHR 0x0A) (content c) = Some i" by (simp add: content_def find_pair_append)
    moreover have "i + 2 \<le> length (cn_buffer c)" using Some by (rule find_pair_length)
    ultimately show ?thesis using Some by (simp add: readLine.simps[of c] content_buffer) (simp add: content_def)
  next
    case None
    show ?thesis
    proof (cases "receive (cn_chunks c)")
      case None': None
      then show ?thesis using None by (simp add: readLine.simps[of c] content_receive(2))
    next
      case (Some r)
      obtain received chunks where r: "r = (received, chunks)" by (cases r)
      show ?thesis
        using 1[OF None Some[unfolded r] refl] None Some[unfolded r]
        unfolding content_receive(1)[OF Some[unfolded r]] by (simp add: readLine.simps[of c])
    qed
  qed
qed

lemma readExact_content:
  "case readExact n c of
     Inl _ \<Rightarrow> length (content c) < n
   | Inr (s, c') \<Rightarrow> n \<le> length (content c) \<and> s = take n (content c) \<and> content c' = drop n (content c)"
proof (induction n c rule: readExact.induct)
  case (1 n c)
  show ?case
  proof (cases "length (cn_buffer c) < n")
    case False
    then show ?thesis by (simp add: readExact.simps[of n c] content_buffer) (simp add: content_def)
  next
    case True
    show ?thesis
    proof (cases "receive (cn_chunks c)")
      case None
      then show ?thesis using True by (simp add: readExact.simps[of n c] content_receive(2))
    next
      case (Some r)
      obtain received chunks where r: "r = (received, chunks)" by (cases r)
      show ?thesis
        using 1[OF True Some[unfolded r] refl] True Some[unfolded r]
        unfolding content_receive(1)[OF Some[unfolded r]] by (simp add: readExact.simps[of n c])
    qed
  qed
qed

text \<open>What a read gives when the bytes are there.\<close>

lemma reads_line:
  assumes "content c = line @ crlf @ rest" "find_pair (CHR 0x0D) (CHR 0x0A) line = None"
  obtains c' where "readLine c = Inr (line, c')" "content c' = rest"
proof -
  have "find_pair (CHR 0x0D) (CHR 0x0A) (content c) = Some (length line)"
    using assms by (simp add: crlf_def find_pair_joined)
  then show thesis
    using readLine_content[of c] assms(1) that by (cases "readLine c") (auto simp: crlf_def)
qed

lemma reads_exact:
  assumes "content c = s @ rest"
  obtains c' where "readExact (length s) c = Inr (s, c')" "content c' = rest"
  using readExact_content[where n = "length s" and c = c] assms that by (cases "readExact (length s) c") auto

subsection \<open>Numbers\<close>

lemma digit_value_char: "d < 10 \<Longrightarrow> digit_value (digit_char d) = int d"
proof -
  assume "d < 10"
  then have "(of_char (digit_char d) :: nat) = 48 + d" by (simp add: digit_char_def)
  then have "int (of_char (digit_char d)) = 48 + int d" by simp
  then have "of_char (digit_char d) = 48 + int d" by (simp only: of_nat_of_char)
  then show ?thesis by (simp only: digit_value_def add_diff_cancel_left')
qed

lemma digits_value_nat: "digits_value (nat_to_string n) = int n"
proof (induction n rule: nat_to_string.induct)
  case (1 n)
  show ?case
  proof (cases "n < 10")
    case True
    then show ?thesis by (subst nat_to_string.simps) (simp add: digits_value_def digit_value_char)
  next
    case False
    have "digits_value (nat_to_string n) = digits_value (nat_to_string (n div 10)) * 10 + int (n mod 10)"
      using False by (subst nat_to_string.simps) (simp add: digits_value_def digit_value_char)
    also have "\<dots> = int (n div 10 * 10 + n mod 10)" using 1[OF False] by (simp only: of_nat_add of_nat_mult of_nat_numeral)
    finally show ?thesis by (simp only: div_mult_mod_eq)
  qed
qed

lemma digits_all: "takeWhile isdigit (nat_to_string n) = nat_to_string n"
  using nat_to_string_digits by (simp add: takeWhile_eq_all_conv)

lemma digit_no_sign: "isdigit c \<Longrightarrow> c \<noteq> CHR ''-'' \<and> c \<noteq> CHR ''+'' \<and> \<not> isspace c \<and> c \<noteq> CHR 0x0D"
  by (auto simp: isdigit_def isspace_def)

lemma sign_of_nat: "sign_of (dropWhile isspace (nat_to_string n)) = (1, nat_to_string n)"
proof (cases "nat_to_string n")
  case (Cons c s)
  then have "isdigit c" using nat_to_string_digits[of c n] by simp
  then show ?thesis using Cons digit_no_sign[of c] by simp
qed simp

lemma stoll_int: "- (2 ^ 63) \<le> n \<Longrightarrow> n < 2 ^ 63 \<Longrightarrow> stoll (int_to_string n) = Some n"
  by (simp add: stoll_def int_to_string_def sign_of_nat digits_all digits_value_nat isspace_def)

lemma int_to_string_nat: "int_to_string (int n) = nat_to_string n"
  by (simp add: int_to_string_def)

lemma minus_one_string: "int_to_string (-1) = ''-1''"
  by code_simp

lemma int_to_string_plain: "find_pair (CHR 0x0D) (CHR 0x0A) (int_to_string n) = None"
proof (rule find_pair_absent)
  show "CHR 0x0D \<notin> set (int_to_string n)"
    using nat_to_string_digits digit_no_sign by (auto simp: int_to_string_def)
qed

lemma reads_number:
  assumes "content c = int_to_string n @ crlf @ rest" "- (2 ^ 63) \<le> n" "n < 2 ^ 63"
  obtains c' where "read_number c = Inr (n, c')" "content c' = rest"
  using assms by (elim reads_line[OF _ int_to_string_plain]) (simp add: read_number_def stoll_int)

subsection \<open>Replies are read as they were written\<close>

text \<open>The RESP encoding of a value, as the protocol's documentation gives it.\<close>

fun encode_resp :: "resp \<Rightarrow> string" where
  "encode_resp RespNull = ''$-1'' @ crlf"
| "encode_resp (RespString s) = encode_argument s"
| "encode_resp (RespInteger n) = '':'' @ int_to_string n @ crlf"
| "encode_resp (RespArray vs) = ''*'' @ nat_to_string (length vs) @ crlf @ concat (map encode_resp vs)"
| "encode_resp (RespError e) = ''-'' @ e @ crlf"

lemma encodeCommand_resp: "encodeCommand arguments = encode_resp (RespArray (map RespString arguments))"
  by (simp add: encodeCommand_def comp_def)

text \<open>What fits the protocol: 64-bit numbers and lengths, error lines of one line.\<close>

definition resp_int_ok :: "int \<Rightarrow> bool" where
  "resp_int_ok n \<longleftrightarrow> - (2 ^ 63) \<le> n \<and> n < 2 ^ 63"

fun resp_ok :: "resp \<Rightarrow> bool" where
  "resp_ok RespNull = True"
| "resp_ok (RespString s) = resp_int_ok (int (length s))"
| "resp_ok (RespInteger n) = resp_int_ok n"
| "resp_ok (RespArray vs) = (resp_int_ok (int (length vs)) \<and> list_all resp_ok vs)"
| "resp_ok (RespError e) = (find_pair (CHR 0x0D) (CHR 0x0A) e = None)"

lemma reads_prefix:
  assumes "content c = p # rest"
  obtains c' where "readExact 1 c = Inr ([p], c')" "content c' = rest"
  using reads_exact[of c "[p]" rest] assms by auto

lemma reads_length:
  assumes "content c = nat_to_string n @ crlf @ rest" "resp_int_ok (int n)"
  obtains c' where "read_number c = Inr (int n, c')" "content c' = rest"
  using assms by (elim reads_number[of c "int n" rest, rotated -1]) (simp_all add: int_to_string_nat resp_int_ok_def)

lemma reads_argument:
  assumes "content c = encode_argument s @ rest" "resp_int_ok (int (length s))"
  obtains c' where "readValue (Suc depth) c = Inr (RespString s, c')" "content c' = rest"
proof -
  have "content c = CHR ''$'' # nat_to_string (length s) @ crlf @ s @ crlf @ rest"
    using assms(1) by (simp add: encode_argument_def)
  then obtain c1 where c1: "readExact 1 c = Inr (''$'', c1)" "content c1 = nat_to_string (length s) @ crlf @ s @ crlf @ rest"
    by (rule reads_prefix)
  obtain c2 where c2: "read_number c1 = Inr (int (length s), c2)" "content c2 = s @ crlf @ rest"
    using c1(2) assms(2) by (rule reads_length)
  obtain c3 where c3: "readExact (length s) c2 = Inr (s, c3)" "content c3 = crlf @ rest"
    using c2(2) by (rule reads_exact)
  obtain c4 where "readExact (length crlf) c3 = Inr (crlf, c4)" "content c4 = rest"
    using c3(2) by (rule reads_exact)
  then show thesis using c1(1) c2(1) c3(1) that by (simp add: crlf_def numeral_2_eq_2)
qed

lemma length_encode_element: "v \<in> set vs \<Longrightarrow> length (encode_resp v) < length (encode_resp (RespArray vs))"
proof -
  assume "v \<in> set vs"
  then have "length (encode_resp v) \<le> length (concat (map encode_resp vs))"
    by (induction vs) auto
  then show ?thesis by simp
qed

lemma reads_value:
  "content c = encode_resp v @ rest \<Longrightarrow> resp_ok v \<Longrightarrow> length (encode_resp v) \<le> depth \<Longrightarrow>
   \<exists>c'. readValue depth c = Inr (v, c') \<and> content c' = rest"
proof (induction v arbitrary: c rest depth)
  case RespNull
  from RespNull(3) obtain d where depth: "depth = Suc d" by (cases depth) simp_all
  obtain c1 where c1: "readExact 1 c = Inr (''$'', c1)" "content c1 = int_to_string (-1) @ crlf @ rest"
    using RespNull(1) by (elim reads_prefix[rotated]) (simp add: minus_one_string)
  obtain c2 where "read_number c1 = Inr (-1, c2)" "content c2 = rest"
    using c1(2) by (rule reads_number) simp_all
  then show ?case using c1(1) by (simp add: depth)
next
  case (RespString s)
  from RespString(3) obtain d where depth: "depth = Suc d" by (cases depth) (simp_all add: encode_argument_def)
  have "content c = encode_argument s @ rest" "resp_int_ok (int (length s))" using RespString by simp_all
  then show ?case unfolding depth by (rule reads_argument) blast
next
  case (RespInteger n)
  from RespInteger(3) obtain d where depth: "depth = Suc d" by (cases depth) simp_all
  obtain c1 where c1: "readExact 1 c = Inr ('':'', c1)" "content c1 = int_to_string n @ crlf @ rest"
    using RespInteger(1) by (elim reads_prefix[rotated]) simp
  obtain c2 where "read_number c1 = Inr (n, c2)" "content c2 = rest"
    using c1(2) by (rule reads_number) (use RespInteger(2) in \<open>simp_all add: resp_int_ok_def\<close>)
  then show ?case using c1(1) by (auto simp: depth)
next
  case (RespError e)
  from RespError(3) obtain d where depth: "depth = Suc d" by (cases depth) simp_all
  obtain c1 where c1: "readExact 1 c = Inr (''-'', c1)" "content c1 = e @ crlf @ rest"
    using RespError(1) by (elim reads_prefix[rotated]) simp
  obtain c2 where "readLine c1 = Inr (e, c2)" "content c2 = rest"
    using c1(2) RespError(2) by (elim reads_line) simp_all
  then show ?case using c1(1) by (auto simp: depth)
next
  case (RespArray vs)
  from RespArray(4) obtain d where depth: "depth = Suc d" by (cases depth) simp_all
  obtain c1 where c1: "readExact 1 c = Inr (''*'', c1)"
      "content c1 = nat_to_string (length vs) @ crlf @ concat (map encode_resp vs) @ rest"
    using RespArray(2) by (elim reads_prefix[rotated]) simp
  obtain c2 where c2: "read_number c1 = Inr (int (length vs), c2)" "content c2 = concat (map encode_resp vs) @ rest"
    using c1(2) by (rule reads_length) (use RespArray(3) in simp)
  have "length (encode_resp v) \<le> d" if "v \<in> set vs" for v
    using length_encode_element[OF that] RespArray(4) by (simp add: depth)
  then have elements: "\<exists>c'. readValue d c = Inr (v, c') \<and> content c' = r"
    if "v \<in> set vs" "content c = encode_resp v @ r" for v c r
    using that RespArray(1)[of v c r d] RespArray(3) by (simp add: list_all_iff)
  have "\<exists>c'. read_elements d (length ws) c2 = Inr (ws, c') \<and> content c' = rest"
    if "set ws \<subseteq> set vs" "content c2 = concat (map encode_resp ws) @ rest" for ws c2
    using that
  proof (induction ws arbitrary: c2)
    case (Cons w ws)
    then obtain c' where "readValue d c2 = Inr (w, c')" "content c' = concat (map encode_resp ws) @ rest"
      using elements[of w c2 "concat (map encode_resp ws) @ rest"] by auto
    then show ?case using Cons.IH[of c'] Cons.prems by auto
  qed simp
  from this[OF subset_refl c2(2)] show ?case using c1(1) c2(1) by (auto simp: depth)
qed

text \<open>
  C26: The client reads back what a server writes. However the bytes of a reply are split over the
  buffer and the chunks of the socket, reading gives the value they encode and leaves exactly the
  bytes after it for the next reply. Commands are arrays of strings in the same encoding.
\<close>

theorem readValue_reads_back:
  assumes "resp_ok v" and "content c = encode_resp v @ rest" and "length (content c) < depth"
  shows "\<exists>c'. readValue depth c = Inr (v, c') \<and> content c' = rest"
  using assms by (intro reads_value) simp_all

definition sample_reply :: resp where
  "sample_reply = RespArray [RespString ''1-0'', RespArray [RespInteger (-7), RespNull], RespError ''ERR'']"

definition sample_connection :: connection where
  "sample_connection = \<lparr>cn_buffer = take 3 (encode_resp sample_reply),
     cn_chunks = [take 15 (drop 3 (encode_resp sample_reply)), drop 18 (encode_resp sample_reply) @ ''+OK'', crlf]\<rparr>"

theorem readValue_reads_back_witness:
  "\<exists>c'. readValue 100 sample_connection = Inr (sample_reply, c') \<and> content c' = ''+OK'' @ crlf"
proof (rule readValue_reads_back)
  show "resp_ok sample_reply" by (simp add: sample_reply_def resp_int_ok_def)
  have encoded: "length (encode_resp sample_reply) = 33" by code_simp
  then have "drop 18 (encode_resp sample_reply) \<noteq> []" "take 15 (drop 3 (encode_resp sample_reply)) \<noteq> []" by auto
  then have "content sample_connection = take 3 (encode_resp sample_reply) @ take 15 (drop 3 (encode_resp sample_reply)) @
      drop 15 (drop 3 (encode_resp sample_reply)) @ ''+OK'' @ crlf"
    by (simp add: content_def sample_connection_def crlf_def)
  then show content: "content sample_connection = encode_resp sample_reply @ ''+OK'' @ crlf"
    by (simp only: append_assoc[symmetric] append_take_drop_id)
  show "length (content sample_connection) < 100" unfolding content by (simp add: encoded crlf_def)
qed

subsection \<open>Reading ends\<close>

lemma readLine_shorter: "readLine c = Inr (line, c') \<Longrightarrow> length (content c') < length (content c)"
  using readLine_content[of c] find_pair_length[of "CHR 0x0D" "CHR 0x0A" "content c"] by fastforce

lemma readExact_shorter: "readExact n c = Inr (s, c') \<Longrightarrow> length (content c') + n = length (content c)"
  using readExact_content[where n = n and c = c] by auto

lemma read_number_shorter: "read_number c = Inr (n, c') \<Longrightarrow> length (content c') < length (content c)"
  by (auto simp: read_number_def dest: readLine_shorter split: sum.splits option.splits)

lemma map_sum_eq_Inr: "map_sum id f r = Inr y \<longleftrightarrow> (\<exists>x. r = Inr x \<and> y = f x)"
  by (cases r) auto

lemma read_elements_shorter:
  assumes "\<And>c v c'. readValue depth c = Inr (v, c') \<Longrightarrow> length (content c') < length (content c)"
  shows "read_elements depth n c = Inr (vs, c') \<Longrightarrow> length (content c') \<le> length (content c)"
proof (induction n arbitrary: c vs)
  case (Suc n)
  then obtain v c1 ws where "readValue depth c = Inr (v, c1)" "read_elements depth n c1 = Inr (ws, c')"
    by (auto split: sum.splits simp: map_sum_eq_Inr)
  then show ?case using assms[of c v c1] Suc.IH[of c1 ws] by simp
qed simp

lemma readValue_shorter: "readValue depth c = Inr (v, c') \<Longrightarrow> length (content c') < length (content c)"
proof (induction depth arbitrary: c v c')
  case (Suc depth)
  obtain tag c1 where c1: "readExact 1 c = Inr (tag, c1)" using Suc.prems by (cases "readExact 1 c") auto
  have "length (content c1) + 1 = length (content c)" using c1 by (rule readExact_shorter)
  moreover have "length (content c') \<le> length (content c2)" if "read_elements depth n c2 = Inr (vs, c')" for n c2 vs
    using Suc.IH that by (rule read_elements_shorter)
  then have "length (content c') \<le> length (content c1)"
    using Suc.prems c1
    by (auto split: if_splits sum.splits dest!: readLine_shorter read_number_shorter readExact_shorter simp: map_sum_eq_Inr)
      (meson less_imp_le order.trans)
  ultimately show ?case by simp
qed simp

text \<open>With more depth than bytes to come the bound is not reached, and more makes no difference.\<close>

lemma read_elements_more:
  assumes "\<And>c'. length (content c') \<le> length (content c) \<Longrightarrow> readValue depth' c' = readValue depth c'"
  shows "read_elements depth' n c = read_elements depth n c"
  using assms
proof (induction n arbitrary: c)
  case (Suc n)
  show ?case
  proof (cases "readValue depth c")
    case (Inr r)
    obtain v c1 where r: "r = (v, c1)" by (cases r)
    have shorter: "length (content c1) < length (content c)" using Inr r readValue_shorter by simp
    have "read_elements depth' n c1 = read_elements depth n c1"
      using shorter by (intro Suc.IH Suc.prems) simp
    then show ?thesis using Suc.prems[of c] Inr r by simp
  next
    case (Inl e)
    then show ?thesis using Suc.prems[of c] by simp
  qed
qed simp

lemma readValue_more:
  "length (content c) < depth \<Longrightarrow> depth \<le> depth' \<Longrightarrow> readValue depth' c = readValue depth c"
proof (induction depth arbitrary: depth' c)
  case (Suc depth)
  then obtain d' where d': "depth' = Suc d'" "depth \<le> d'" by (cases depth') simp_all
  have elements: "read_elements d' n c2 = read_elements depth n c2" if "length (content c2) < depth" for n c2
    using that Suc.IH[OF _ d'(2)] by (intro read_elements_more) simp
  have number: "read_elements d' (nat n) c2 = read_elements depth (nat n) c2"
    if "readExact (Suc 0) c = Inr (tag, c1)" "read_number c1 = Inr (n, c2)" for tag c1 n c2
    using Suc.prems(1) readExact_shorter[OF that(1)] read_number_shorter[OF that(2)] by (intro elements) simp
  show ?case
    unfolding d'(1) readValue.simps(2)
    by (rule sum.case_cong[OF refl refl]) (auto intro!: sum.case_cong simp: number)
qed simp

lemma read_elements_fueled:
  assumes "\<And>c'. length (content c') \<le> length (content c) \<Longrightarrow> readValue depth c' \<noteq> Inl ''out of fuel''"
  shows "read_elements depth n c \<noteq> Inl ''out of fuel''"
  using assms
proof (induction n arbitrary: c)
  case (Suc n)
  show ?case
  proof (cases "readValue depth c")
    case (Inr r)
    obtain v c1 where r: "r = (v, c1)" by (cases r)
    have "length (content c1) < length (content c)" using Inr r readValue_shorter by simp
    then have "read_elements depth n c1 \<noteq> Inl ''out of fuel''" by (intro Suc.IH Suc.prems) simp
    then show ?thesis using Inr r by (cases "read_elements depth n c1") auto
  next
    case (Inl e)
    then show ?thesis using Suc.prems[of c] by auto
  qed
qed simp

lemma line_fueled: "readLine c \<noteq> Inl ''out of fuel''"
proof (induction c rule: readLine.induct)
  case (1 c)
  then show ?case by (subst readLine.simps) (auto split: option.split)
qed

lemma exact_fueled: "readExact n c \<noteq> Inl ''out of fuel''"
proof (induction n c rule: readExact.induct)
  case (1 n c)
  then show ?case by (subst readExact.simps) (auto split: option.split)
qed

lemma number_fueled: "read_number c \<noteq> Inl ''out of fuel''"
  using line_fueled[of c] by (auto simp: read_number_def split: sum.splits option.splits)

lemma map_sum_eq_Inl: "map_sum id f r = Inl e \<longleftrightarrow> r = Inl e"
  by (cases r) auto

lemma readValue_fueled: "length (content c) < depth \<Longrightarrow> readValue depth c \<noteq> Inl ''out of fuel''"
proof (induction depth arbitrary: c)
  case (Suc depth)
  show ?case
  proof (cases "readExact 1 c")
    case (Inl e)
    then show ?thesis using exact_fueled[of 1 c] by simp
  next
    case (Inr r)
    obtain tag c1 where r: "r = (tag, c1)" by (cases r)
    have shorter: "length (content c1) < length (content c)" using readExact_shorter[OF Inr[unfolded r]] by simp
    show ?thesis
    proof (cases "read_number c1")
      case (Inl e)
      then show ?thesis
        using line_fueled[of c1] number_fueled[of c1] Inr r by (simp add: map_sum_eq_Inl)
    next
      case number: (Inr q)
      obtain n c2 where q: "q = (n, c2)" by (cases q)
      have "length (content c2) < length (content c1)" using read_number_shorter[OF number[unfolded q]] .
      then have elements: "read_elements depth (nat n) c2 \<noteq> Inl ''out of fuel''"
        using shorter Suc.prems by (intro read_elements_fueled Suc.IH) simp
      have payload: "(case readExact (nat n) c2 of Inl e \<Rightarrow> Inl e
          | Inr (payload, c) \<Rightarrow> (case readExact 2 c of Inl e \<Rightarrow> Inl e
              | Inr (end, c) \<Rightarrow> if end \<noteq> crlf then Inl ''invalid Redis bulk string terminator''
                  else Inr (RespString payload, c))) \<noteq> Inl ''out of fuel''"
      proof (cases "readExact (nat n) c2")
        case (Inl e)
        then show ?thesis using exact_fueled[of "nat n" c2] by simp
      next
        case (Inr p)
        then show ?thesis using exact_fueled[of 2 "snd p"] by (cases p, cases "readExact 2 (snd p)") (simp_all split: prod.split)
      qed
      show ?thesis
        using line_fueled[of c1] elements payload \<open>readExact 1 c = Inr r\<close> r number q by (simp add: map_sum_eq_Inl)
    qed
  qed
qed simp

text \<open>
  Reading a reply always ends. With a bound on the depth of nested arrays above the number of
  bytes still to come it never meets that bound, so that a larger bound makes no difference.
\<close>

lemma readValue_ends:
  assumes "length (content c) < depth"
  shows "readValue depth c \<noteq> Inl ''out of fuel'' \<and> readValue (depth + k) c = readValue depth c"
  using assms by (intro conjI readValue_fueled readValue_more) simp_all

lemma readValue_ends_witness: "readValue 5 \<lparr>cn_buffer = ''*1'', cn_chunks = [crlf]\<rparr> \<noteq> Inl ''out of fuel''"
proof -
  have "length (content \<lparr>cn_buffer = ''*1'', cn_chunks = [crlf]\<rparr>) < 5" by (simp add: content_def crlf_def)
  from readValue_ends[OF this, of 0] show ?thesis by (rule conjunct1)
qed

end
