(* ===== verification/Job_Scripts.thy ===== *)
theory Job_Scripts
  imports Redis_Protocol Json_Export
begin

text \<open>
  The Lua scripts by which workers take over, renew and give up jobs, \<open>redis_job_scripts.h\<close>, and the
  script of \<open>RedisClient::publishEvent\<close> in \<open>redis_client.cpp\<close>. Redis runs each script as one step
  on its store, at the time of its own clock. The commands they call are those of a server given as
  an argument; what the development relies on is \<open>redis_laws\<close>, after the commands' documentation.
\<close>

subsection \<open>The server\<close>

text \<open>
  \<open>XPENDING\<close> for one message: the consumer that holds it. \<open>XPENDING\<close> with \<open>IDLE\<close>: the first 32
  messages from a start. \<open>XCLAIM\<close>: the claimed entries. \<open>cjson.decode\<close>: the JSON value, if any.
\<close>

record 's redis_server =
  rs_hget :: "'s \<Rightarrow> string \<Rightarrow> string \<Rightarrow> string option"
  rs_hset :: "string \<Rightarrow> (string \<times> string) list \<Rightarrow> 's \<Rightarrow> 's"
  rs_hincrby :: "string \<Rightarrow> string \<Rightarrow> int \<Rightarrow> 's \<Rightarrow> int \<times> 's"
  rs_del :: "string \<Rightarrow> 's \<Rightarrow> 's"
  rs_persist :: "string \<Rightarrow> 's \<Rightarrow> 's"
  rs_expire :: "string \<Rightarrow> string \<Rightarrow> 's \<Rightarrow> 's"
  rs_get :: "'s \<Rightarrow> string \<Rightarrow> string option"
  rs_type :: "'s \<Rightarrow> string \<Rightarrow> string"
  rs_pending :: "'s \<Rightarrow> string \<Rightarrow> string \<Rightarrow> string \<Rightarrow> string option"
  rs_idle :: "'s \<Rightarrow> string \<Rightarrow> string \<Rightarrow> string \<Rightarrow> string \<Rightarrow> string list"
  rs_claim :: "string \<Rightarrow> string \<Rightarrow> string \<Rightarrow> string \<Rightarrow> string \<Rightarrow> 's \<Rightarrow> resp list \<times> 's"
  rs_ack :: "string \<Rightarrow> string \<Rightarrow> string \<Rightarrow> 's \<Rightarrow> 's"
  rs_add :: "string \<Rightarrow> string \<Rightarrow> string \<Rightarrow> 's \<Rightarrow> 's"
  rs_decode :: "string \<Rightarrow> json option"

text \<open>
  Lua's \<open>tonumber\<close> on the decimal integers the scripts store. Any other text counts as no number.
  Numbers are written back as \<open>%.17g\<close>, which prints integers below \<open>10 ^ 17\<close> in full.
\<close>

definition tonumber :: "string \<Rightarrow> int option" where
  "tonumber s =
     (case sign_of s of
        (sign, digits) \<Rightarrow> if digits = [] \<or> \<not> list_all isdigit digits then None else Some (sign * digits_value digits))"

definition number_field :: "'s redis_server \<Rightarrow> 's \<Rightarrow> string \<Rightarrow> string \<Rightarrow> int option" where
  "number_field R s key field = tonumber (case rs_hget R s key field of None \<Rightarrow> ''0'' | Some v \<Rightarrow> v)"

text \<open>A script that compares or adds what is no number ends with an error.\<close>

definition script_error :: resp where
  "script_error = RespError ''attempt to compare number with nil''"

definition terminal_type :: "string \<Rightarrow> bool" where
  "terminal_type kind \<longleftrightarrow> kind = ''job_succeeded'' \<or> kind = ''job_failed'' \<or> kind = ''job_cancelled''"

text \<open>Fields of a decoded event.\<close>

definition event_string :: "json \<Rightarrow> string \<Rightarrow> string option" where
  "event_string event key = (case json_get event key of Some (JString s) \<Rightarrow> Some s | _ \<Rightarrow> None)"

definition event_number :: "json \<Rightarrow> string \<Rightarrow> int option" where
  "event_number event key = (case json_get event key of Some (JInt n) \<Rightarrow> Some n | _ \<Rightarrow> None)"

definition terminal_event :: "json \<Rightarrow> bool" where
  "terminal_event event \<longleftrightarrow> (case event_string event ''type'' of None \<Rightarrow> False | Some kind \<Rightarrow> terminal_type kind)"

subsection \<open>\<open>reclaimJobScript\<close>\<close>

fun reclaim_scan ::
  "'s redis_server \<Rightarrow> int \<Rightarrow> string \<Rightarrow> string \<Rightarrow> string \<Rightarrow> string \<Rightarrow> string \<Rightarrow> string \<Rightarrow> string list \<Rightarrow> 's \<Rightarrow>
   (resp + string) \<times> 's" where
  "reclaim_scan R now stream grp consumer idle key_prefix cursor [] s = (Inr cursor, s)"
| "reclaim_scan R now stream grp consumer idle key_prefix cursor (entry # entries) s =
     (let cursor = ''('' @ entry; key = key_prefix @ entry in
      case number_field R s key ''until_ms'' of
        None \<Rightarrow> (Inl script_error, s)
      | Some until \<Rightarrow>
          if until \<le> now
          then case rs_claim R stream grp consumer idle entry s of
              (claimed, s') \<Rightarrow>
                if claimed \<noteq> [] then (Inl (RespArray [RespString cursor, RespArray claimed]), s')
                else reclaim_scan R now stream grp consumer idle key_prefix cursor entries s'
          else reclaim_scan R now stream grp consumer idle key_prefix cursor entries s)"

definition reclaimJobScript ::
  "'s redis_server \<Rightarrow> int \<Rightarrow> string \<Rightarrow> string \<Rightarrow> string \<Rightarrow> string \<Rightarrow> string \<Rightarrow> string \<Rightarrow> 's \<Rightarrow> resp \<times> 's" where
  "reclaimJobScript R now stream grp consumer idle start key_prefix s =
     (let entries = rs_idle R s stream grp idle start in
      case reclaim_scan R now stream grp consumer idle key_prefix ''-'' entries s of
        (Inl reply, s') \<Rightarrow> (reply, s')
      | (Inr cursor, s') \<Rightarrow>
          (RespArray [RespString (if length entries < 32 then ''-'' else cursor), RespArray []], s'))"

subsection \<open>\<open>acquireJobScript\<close>\<close>

text \<open>The last event published for the run, if it can be read and is of this attempt.\<close>

definition previous_event :: "'s redis_server \<Rightarrow> 's \<Rightarrow> string \<Rightarrow> string \<Rightarrow> json option" where
  "previous_event R s run_key attempt_id =
     (case rs_hget R s run_key ''last_event'' of
        None \<Rightarrow> None
      | Some previous \<Rightarrow>
          (case rs_decode R previous of
             None \<Rightarrow> None
           | Some event \<Rightarrow>
               if is_object event \<and> event_string event ''attempt_id'' = Some attempt_id then Some event else None))"

text \<open>\<open>tonumber(event.sequence) or 0\<close>.\<close>

definition sequence_or_zero :: "json \<Rightarrow> int" where
  "sequence_or_zero event =
     (case json_get event ''sequence'' of
        Some (JInt n) \<Rightarrow> n
      | Some (JString s) \<Rightarrow> (case tonumber s of None \<Rightarrow> 0 | Some n \<Rightarrow> n)
      | _ \<Rightarrow> 0)"

definition grant_lease ::
  "'s redis_server \<Rightarrow> int \<Rightarrow> string \<Rightarrow> string \<Rightarrow> string \<Rightarrow> int \<Rightarrow> 's \<Rightarrow> resp \<times> 's" where
  "grant_lease R now key consumer lease_ms sequence s =
     (case rs_hincrby R key ''generation'' 1 s of
        (generation, s) \<Rightarrow>
          (case tonumber lease_ms of
             None \<Rightarrow> (script_error, s)
           | Some duration \<Rightarrow>
               (RespArray [RespInteger generation, RespInteger sequence],
                rs_persist R key (rs_hset R key [(''consumer'', consumer), (''until_ms'', int_to_string (now + duration)),
                  (''sequence'', int_to_string sequence)] s))))"

definition acquireJobScript ::
  "'s redis_server \<Rightarrow> int \<Rightarrow> string \<Rightarrow> string \<Rightarrow> string \<Rightarrow> string \<Rightarrow> string \<Rightarrow> string \<Rightarrow> string \<Rightarrow> string \<Rightarrow> 's \<Rightarrow>
   resp \<times> 's" where
  "acquireJobScript R now stream key run_key grp consumer message_id lease_ms attempt_id s =
     (if rs_pending R s stream grp message_id \<noteq> Some consumer then (RespArray [], s)
      else
        case number_field R s key ''until_ms'' of
          None \<Rightarrow> (script_error, s)
        | Some until \<Rightarrow>
            if until > now then (RespArray [], s)
            else
              case number_field R s key ''sequence'' of
                None \<Rightarrow> (script_error, s)
              | Some sequence \<Rightarrow>
                  (case previous_event R s run_key attempt_id of
                     None \<Rightarrow> grant_lease R now key consumer lease_ms sequence s
                   | Some event \<Rightarrow>
                       if terminal_event event
                       then (RespArray [], rs_del R key (rs_ack R stream grp message_id s))
                       else grant_lease R now key consumer lease_ms (max sequence (sequence_or_zero event)) s))"

subsection \<open>\<open>renewJobScript\<close>\<close>

definition renewJobScript ::
  "'s redis_server \<Rightarrow> int \<Rightarrow> string \<Rightarrow> string \<Rightarrow> string \<Rightarrow> string \<Rightarrow> 's \<Rightarrow> resp \<times> 's" where
  "renewJobScript R now key generation consumer lease_ms s =
     (if rs_hget R s key ''generation'' \<noteq> Some generation \<or> rs_hget R s key ''consumer'' \<noteq> Some consumer
      then (RespInteger 0, s)
      else
        case number_field R s key ''until_ms'' of
          None \<Rightarrow> (script_error, s)
        | Some until \<Rightarrow>
            if until \<le> now then (RespInteger 0, s)
            else
              case tonumber lease_ms of
                None \<Rightarrow> (script_error, s)
              | Some duration \<Rightarrow> (RespInteger 1, rs_hset R key [(''until_ms'', int_to_string (now + duration))] s))"

subsection \<open>The script of \<open>publishEvent\<close>\<close>

text \<open>\<open>KEYS\<close> and \<open>ARGV\<close> of the script; the fence is what it gets with six keys instead of three.\<close>

record publish_fence =
  fe_key :: string
  fe_stream :: string
  fe_cancel_key :: string
  fe_generation :: string
  fe_consumer :: string
  fe_group :: string
  fe_message_id :: string

record publish_arguments =
  pu_run_events :: string
  pu_platform_events :: string
  pu_run_key :: string
  pu_event :: string
  pu_run_length :: string
  pu_platform_length :: string
  pu_retention :: string
  pu_fence :: "publish_fence option"
  pu_state :: "(string \<times> string) list"

definition wrong_type :: "'s redis_server \<Rightarrow> 's \<Rightarrow> (string \<times> string) list \<Rightarrow> string option" where
  "wrong_type R s keys =
     map_option fst (find (\<lambda>(key, expected). rs_type R s key \<noteq> ''none'' \<and> rs_type R s key \<noteq> expected) keys)"

text \<open>The reply of a publication that is refused.\<close>

definition fence_refuses :: "'s redis_server \<Rightarrow> int \<Rightarrow> publish_fence \<Rightarrow> json \<Rightarrow> 's \<Rightarrow> resp option" where
  "fence_refuses R now fence event s =
     (if rs_hget R s (fe_key fence) ''generation'' \<noteq> Some (fe_generation fence) \<or>
         rs_hget R s (fe_key fence) ''consumer'' \<noteq> Some (fe_consumer fence)
      then Some (RespError ''JOB_LEASE_LOST'')
      else
        case number_field R s (fe_key fence) ''until_ms'' of
          None \<Rightarrow> Some script_error
        | Some until \<Rightarrow>
            if until \<le> now then Some (RespError ''JOB_LEASE_LOST'')
            else if rs_pending R s (fe_stream fence) (fe_group fence) (fe_message_id fence) \<noteq> Some (fe_consumer fence)
            then Some (RespError ''JOB_LEASE_LOST'')
            else
              case (event_number event ''sequence'', number_field R s (fe_key fence) ''sequence'') of
                (Some sequence, Some stored) \<Rightarrow>
                  if sequence \<le> stored then Some (RespError ''JOB_SEQUENCE_REGRESSION'')
                  else if event_string event ''type'' \<noteq> Some ''job_cancelled'' \<and>
                    rs_get R s (fe_cancel_key fence) \<noteq> None \<and>
                    rs_get R s (fe_cancel_key fence) = event_string event ''attempt_id''
                  then Some (RespInteger 0)
                  else None
              | _ \<Rightarrow> Some script_error)"

definition store_event :: "'s redis_server \<Rightarrow> publish_arguments \<Rightarrow> 's \<Rightarrow> 's" where
  "store_event R a s =
     (let s = rs_add R (pu_run_events a) (pu_run_length a) (pu_event a) s;
          s = rs_add R (pu_platform_events a) (pu_platform_length a) (pu_event a) s;
          s = foldl (\<lambda>s (field, v). rs_hset R (pu_run_key a) [(field, v)] s) s (pu_state a);
          s = rs_expire R (pu_run_events a) (pu_retention a) s
      in rs_expire R (pu_run_key a) (pu_retention a) s)"

definition settle_fence :: "'s redis_server \<Rightarrow> publish_fence \<Rightarrow> json \<Rightarrow> 's \<Rightarrow> 's" where
  "settle_fence R fence event s =
     (let sequence = (case event_number event ''sequence'' of None \<Rightarrow> 0 | Some n \<Rightarrow> n);
          s = rs_hset R (fe_key fence) [(''sequence'', int_to_string sequence)] s
      in if terminal_event event
         then rs_del R (fe_key fence) (rs_ack R (fe_stream fence) (fe_group fence) (fe_message_id fence) s) else s)"

definition publishEventScript :: "'s redis_server \<Rightarrow> int \<Rightarrow> publish_arguments \<Rightarrow> 's \<Rightarrow> resp \<times> 's" where
  "publishEventScript R now a s =
     (case wrong_type R s [(pu_run_events a, ''stream''), (pu_platform_events a, ''stream''), (pu_run_key a, ''hash'')] of
        Some key \<Rightarrow> (RespError (''WRONGTYPE event publication key '' @ key), s)
      | None \<Rightarrow>
          (case rs_decode R (pu_event a) of
             None \<Rightarrow> (RespError ''cjson.decode'', s)
           | Some event \<Rightarrow>
               (case pu_fence a of
                  None \<Rightarrow> (RespInteger 1, store_event R a s)
                | Some fence \<Rightarrow>
                    (case fence_refuses R now fence event s of
                       Some reply \<Rightarrow> (reply, s)
                     | None \<Rightarrow> (RespInteger 1, settle_fence R fence event (store_event R a s))))))"

end
