(* ===== verification/Job_Protocol.thy ===== *)
theory Job_Protocol
  imports Job_Scripts
begin

text \<open>
  What the scripts guarantee together. The steps of one job are those of its scripts, called by any
  worker with any arguments in any order, of Redis delivering the job's message once, of the clock and
  of everyone else who uses the same Redis. In every reachable state the events accepted for the job
  form one history, however many workers believe they hold the job.
\<close>

subsection \<open>What is relied on of Redis\<close>

text \<open>The commands change what they are documented to change, and nothing else that the scripts read.\<close>

definition field_laws :: "'s redis_server \<Rightarrow> bool" where
  "field_laws R \<longleftrightarrow>
     (\<forall>key fvs s key' field. rs_hget R (rs_hset R key fvs s) key' field =
        (if key' = key \<and> field \<in> set (map fst fvs) then map_of (rev fvs) field else rs_hget R s key' field)) \<and>
     (\<forall>key field n s m. tonumber (case rs_hget R s key field of None \<Rightarrow> ''0'' | Some v \<Rightarrow> v) = Some m \<longrightarrow>
        fst (rs_hincrby R key field n s) = m + n \<and>
        (\<forall>key' field'. rs_hget R (snd (rs_hincrby R key field n s)) key' field' =
           (if key' = key \<and> field' = field then Some (int_to_string (m + n)) else rs_hget R s key' field'))) \<and>
     (\<forall>key s key' field. rs_hget R (rs_del R key s) key' field = (if key' = key then None else rs_hget R s key' field)) \<and>
     (\<forall>key s key' field. rs_hget R (rs_persist R key s) key' field = rs_hget R s key' field) \<and>
     (\<forall>key n s key' field. key' \<noteq> key \<longrightarrow> rs_hget R (rs_expire R key n s) key' field = rs_hget R s key' field) \<and>
     (\<forall>stream grp consumer idle message s key field.
        rs_hget R (snd (rs_claim R stream grp consumer idle message s)) key field = rs_hget R s key field) \<and>
     (\<forall>stream grp message s key field. rs_hget R (rs_ack R stream grp message s) key field = rs_hget R s key field) \<and>
     (\<forall>key len event s key' field. rs_hget R (rs_add R key len event s) key' field = rs_hget R s key' field)"

definition pending_laws :: "'s redis_server \<Rightarrow> bool" where
  "pending_laws R \<longleftrightarrow>
     (\<forall>key fvs s. rs_pending R (rs_hset R key fvs s) = rs_pending R s) \<and>
     (\<forall>key field n s. rs_pending R (snd (rs_hincrby R key field n s)) = rs_pending R s) \<and>
     (\<forall>key s stream. stream \<noteq> key \<longrightarrow> rs_pending R (rs_del R key s) stream = rs_pending R s stream) \<and>
     (\<forall>key s. rs_pending R (rs_persist R key s) = rs_pending R s) \<and>
     (\<forall>key n s stream. stream \<noteq> key \<longrightarrow> rs_pending R (rs_expire R key n s) stream = rs_pending R s stream) \<and>
     (\<forall>key len event s. rs_pending R (rs_add R key len event s) = rs_pending R s) \<and>
     (\<forall>stream grp consumer idle message s stream' grp' message'. rs_pending R s stream' grp' message' = None \<longrightarrow>
        rs_pending R (snd (rs_claim R stream grp consumer idle message s)) stream' grp' message' = None) \<and>
     (\<forall>stream grp message s stream' grp' message'. rs_pending R (rs_ack R stream grp message s) stream' grp' message' =
        (if stream' = stream \<and> grp' = grp \<and> message' = message then None else rs_pending R s stream' grp' message'))"

definition redis_laws :: "'s redis_server \<Rightarrow> bool" where
  "redis_laws R \<longleftrightarrow> field_laws R \<and> pending_laws R"

lemma tonumber_int: "tonumber (int_to_string n) = Some n"
proof -
  have "list_all isdigit (nat_to_string k)" for k using nat_to_string_digits by (simp add: list_all_iff)
  moreover have "sign_of (nat_to_string k) = (1, nat_to_string k)" for k
  proof (cases "nat_to_string k")
    case (Cons c cs)
    then have "isdigit c" using nat_to_string_digits[of c k] by simp
    then show ?thesis using Cons digit_no_sign[of c] by simp
  qed simp
  ultimately show ?thesis by (simp add: tonumber_def int_to_string_def digits_value_nat)
qed

lemma tonumber_zero: "tonumber ''0'' = Some 0"
  by code_simp

text \<open>The laws as equations, for a server that is known to have them.\<close>

lemma redis_fields:
  assumes "redis_laws R"
  shows "rs_hget R (rs_hset R key fvs s) key' field =
      (if key' = key \<and> field \<in> set (map fst fvs) then map_of (rev fvs) field else rs_hget R s key' field)"
    "rs_hget R (rs_del R key s) key' field = (if key' = key then None else rs_hget R s key' field)"
    "rs_hget R (rs_persist R key s) key' field = rs_hget R s key' field"
    "key' \<noteq> key \<Longrightarrow> rs_hget R (rs_expire R key n s) key' field = rs_hget R s key' field"
    "rs_hget R (snd (rs_claim R stream grp consumer idle message s)) key field = rs_hget R s key field"
    "rs_hget R (rs_ack R stream grp message s) key field = rs_hget R s key field"
    "rs_hget R (rs_add R key len event s) key' field = rs_hget R s key' field"
  using assms unfolding redis_laws_def field_laws_def by simp_all

lemma redis_hincrby:
  assumes "redis_laws R" "number_field R s key field = Some m"
  shows "fst (rs_hincrby R key field n s) = m + n"
    "rs_hget R (snd (rs_hincrby R key field n s)) key' field' =
      (if key' = key \<and> field' = field then Some (int_to_string (m + n)) else rs_hget R s key' field')"
  using assms unfolding redis_laws_def field_laws_def number_field_def by simp_all

lemma redis_pending:
  assumes "redis_laws R"
  shows "rs_pending R (rs_hset R key fvs s) = rs_pending R s"
    "rs_pending R (snd (rs_hincrby R key field k s)) = rs_pending R s"
    "stream \<noteq> key \<Longrightarrow> rs_pending R (rs_del R key s) stream = rs_pending R s stream"
    "rs_pending R (rs_persist R key s) = rs_pending R s"
    "stream \<noteq> key \<Longrightarrow> rs_pending R (rs_expire R key n s) stream = rs_pending R s stream"
    "rs_pending R (rs_add R key len event s) = rs_pending R s"
    "rs_pending R s stream' grp' message' = None \<Longrightarrow>
      rs_pending R (snd (rs_claim R stream grp consumer idle message s)) stream' grp' message' = None"
    "rs_pending R (rs_ack R stream grp message s) stream' grp' message' =
      (if stream' = stream \<and> grp' = grp \<and> message' = message then None else rs_pending R s stream' grp' message')"
  using assms unfolding redis_laws_def pending_laws_def by simp_all

subsection \<open>The steps of a job\<close>

record job =
  jb_stream :: string
  jb_group :: string
  jb_message :: string
  jb_run_key :: string
  jb_run_events :: string
  jb_platform_events :: string

definition job_key :: "job \<Rightarrow> string" where
  "job_key j = ''job-execution:'' @ jb_stream j @ '':'' @ jb_group j @ '':'' @ jb_message j"

text \<open>The jobs' stream is no key the scripts write, and the run's keys are not those of leases.\<close>

definition job_ok :: "job \<Rightarrow> bool" where
  "job_ok j \<longleftrightarrow> jb_stream j \<notin> {job_key j, jb_run_key j, jb_run_events j} \<and>
     job_key j \<notin> {jb_run_key j, jb_run_events j, jb_platform_events j}"

text \<open>
  The server's store and clock, whether the message has been delivered, and the events accepted so
  far, each with the generation of the lease it was published under.
\<close>

record 's job_world =
  jw_store :: 's
  jw_now :: int
  jw_delivered :: bool
  jw_log :: "(string \<times> json) list"

text \<open>A publication for the job under a lease of some generation and consumer.\<close>

definition job_publication :: "job \<Rightarrow> publish_arguments \<Rightarrow> publish_fence \<Rightarrow> bool" where
  "job_publication j a fence \<longleftrightarrow> pu_fence a = Some fence \<and> fe_key fence = job_key j \<and> fe_stream fence = jb_stream j \<and>
     fe_group fence = jb_group j \<and> fe_message_id fence = jb_message j \<and> pu_run_key a = jb_run_key j \<and>
     pu_run_events a = jb_run_events j \<and> pu_platform_events a = jb_platform_events j"

definition accepted :: "'s redis_server \<Rightarrow> publish_arguments \<Rightarrow> publish_fence \<Rightarrow> resp \<Rightarrow> (string \<times> json) list" where
  "accepted R a fence reply =
     (if reply = RespInteger 1
      then map (\<lambda>event. (fe_generation fence, event)) (case rs_decode R (pu_event a) of None \<Rightarrow> [] | Some e \<Rightarrow> [e])
      else [])"

inductive job_step :: "'s redis_server \<Rightarrow> job \<Rightarrow> 's job_world \<Rightarrow> 's job_world \<Rightarrow> bool" for R j where
  clock: "jw_now w \<le> now \<Longrightarrow> job_step R j w (w\<lparr>jw_now := now\<rparr>)"
| others: "rs_hget R s (job_key j) = rs_hget R (jw_store w) (job_key j) \<Longrightarrow>
    rs_pending R s (jb_stream j) (jb_group j) (jb_message j) =
      rs_pending R (jw_store w) (jb_stream j) (jb_group j) (jb_message j) \<Longrightarrow>
    job_step R j w (w\<lparr>jw_store := s\<rparr>)"
| deliver: "\<not> jw_delivered w \<Longrightarrow> rs_hget R s (job_key j) = rs_hget R (jw_store w) (job_key j) \<Longrightarrow>
    job_step R j w (w\<lparr>jw_store := s, jw_delivered := True\<rparr>)"
| reclaim: "reclaimJobScript R (jw_now w) (jb_stream j) (jb_group j) consumer idle start key_prefix (jw_store w) = (reply, s) \<Longrightarrow>
    job_step R j w (w\<lparr>jw_store := s\<rparr>)"
| acquire: "acquireJobScript R (jw_now w) (jb_stream j) (job_key j) run_key (jb_group j) consumer (jb_message j)
      lease_ms attempt_id (jw_store w) = (reply, s) \<Longrightarrow>
    job_step R j w (w\<lparr>jw_store := s\<rparr>)"
| renew: "renewJobScript R (jw_now w) (job_key j) generation consumer lease_ms (jw_store w) = (reply, s) \<Longrightarrow>
    job_step R j w (w\<lparr>jw_store := s\<rparr>)"
| publish: "job_publication j a fence \<Longrightarrow> publishEventScript R (jw_now w) a (jw_store w) = (reply, s) \<Longrightarrow>
    job_step R j w (w\<lparr>jw_store := s, jw_log := jw_log w @ accepted R a fence reply\<rparr>)"

inductive_cases job_stepE: "job_step R j w w'"

inductive job_reachable :: "'s redis_server \<Rightarrow> job \<Rightarrow> 's job_world \<Rightarrow> bool" for R j where
  start: "rs_hget R s (job_key j) = Map.empty \<Longrightarrow> rs_pending R s (jb_stream j) (jb_group j) (jb_message j) = None \<Longrightarrow>
    job_reachable R j \<lparr>jw_store = s, jw_now = now, jw_delivered = False, jw_log = []\<rparr>"
| step: "job_reachable R j w \<Longrightarrow> job_step R j w w' \<Longrightarrow> job_reachable R j w'"

text \<open>The history the log has to be: sequences and generations as numbers.\<close>

definition log_sequence :: "string \<times> json \<Rightarrow> int" where
  "log_sequence e = (case event_number (snd e) ''sequence'' of None \<Rightarrow> 0 | Some n \<Rightarrow> n)"

definition log_generation :: "string \<times> json \<Rightarrow> int" where
  "log_generation e = (case tonumber (fst e) of None \<Rightarrow> 0 | Some n \<Rightarrow> n)"

definition one_history :: "(string \<times> json) list \<Rightarrow> bool" where
  "one_history es \<longleftrightarrow> sorted_wrt (<) (map log_sequence es) \<and> sorted_wrt (\<le>) (map log_generation es) \<and>
     list_all (\<lambda>e. \<not> terminal_event (snd e)) (butlast es)"

lemma one_history_Nil: "one_history []"
  by (simp add: one_history_def)

lemma one_history_snoc:
  assumes "one_history es" "list_all (\<lambda>e. \<not> terminal_event (snd e) \<and> log_sequence e < log_sequence x \<and> log_generation e \<le> log_generation x) es"
  shows "one_history (es @ [x])"
  using assms by (auto simp: one_history_def sorted_wrt_append list_all_iff)

subsection \<open>What each script does to the lease\<close>

definition lease_number :: "(string \<Rightarrow> string option) \<Rightarrow> string \<Rightarrow> int option" where
  "lease_number entries field = tonumber (case entries field of None \<Rightarrow> ''0'' | Some v \<Rightarrow> v)"

lemma number_field_lease: "number_field R s key field = lease_number (rs_hget R s key) field"
  by (simp add: number_field_def lease_number_def)

lemma reclaim_scan_effect:
  assumes "redis_laws R"
  shows "rs_hget R (snd (reclaim_scan R now stream grp consumer idle key_prefix cursor entries s)) = rs_hget R s \<and>
    (rs_pending R s stream' grp' message = None \<longrightarrow>
     rs_pending R (snd (reclaim_scan R now stream grp consumer idle key_prefix cursor entries s)) stream' grp' message = None)"
proof (induction entries arbitrary: s cursor)
  case (Cons entry entries)
  let ?s' = "snd (rs_claim R stream grp consumer idle entry s)"
  have "rs_hget R ?s' = rs_hget R s" by (intro ext redis_fields(5)[OF assms])
  moreover have "rs_pending R s stream' grp' message = None \<longrightarrow> rs_pending R ?s' stream' grp' message = None"
    using redis_pending(7)[OF assms] by blast
  ultimately show ?case
    using Cons[of _ s] Cons[of _ ?s']
    by (auto simp: Let_def split: option.split prod.split)
qed simp

lemma reclaim_effect:
  assumes "redis_laws R" "reclaimJobScript R now stream grp consumer idle start key_prefix s = (reply, s')"
  shows "rs_hget R s' = rs_hget R s"
    "rs_pending R s stream' grp' message = None \<Longrightarrow> rs_pending R s' stream' grp' message = None"
proof -
  have "s' = snd (reclaim_scan R now stream grp consumer idle key_prefix ''-'' (rs_idle R s stream grp idle start) s)"
    using assms(2) by (auto simp: reclaimJobScript_def Let_def split: prod.splits sum.splits)
  then show "rs_hget R s' = rs_hget R s"
    "rs_pending R s stream' grp' message = None \<Longrightarrow> rs_pending R s' stream' grp' message = None"
    by (simp_all add: reclaim_scan_effect[OF assms(1)])
qed

text \<open>A lease is granted with the next generation, and never lowers the sequence.\<close>

lemma grant_effect:
  assumes "redis_laws R" "grant_lease R now key consumer lease_ms sequence s = (reply, s')"
    and "lease_number (rs_hget R s key) ''generation'' = Some g" "lease_number (rs_hget R s key) ''sequence'' = Some q" "q \<le> sequence"
  shows "rs_pending R s' = rs_pending R s"
    "lease_number (rs_hget R s' key) ''generation'' = Some (g + 1)"
    "\<exists>q'. lease_number (rs_hget R s' key) ''sequence'' = Some q' \<and> q \<le> q'"
proof -
  let ?s = "snd (rs_hincrby R key ''generation'' 1 s)"
  have incremented: "rs_hget R ?s key field = (if field = ''generation'' then Some (int_to_string (g + 1)) else rs_hget R s key field)" for field
    using redis_hincrby(2)[OF assms(1), of s key "''generation''" g] assms(3) by (simp add: number_field_lease)
  have s': "s' = ?s \<or> (\<exists>duration. s' = rs_persist R key (rs_hset R key [(''consumer'', consumer),
      (''until_ms'', int_to_string (now + duration)), (''sequence'', int_to_string sequence)] ?s))"
    using assms(2) by (auto simp: grant_lease_def split: prod.splits option.splits)
  then show "rs_pending R s' = rs_pending R s" by (auto simp: redis_pending[OF assms(1)])
  from s' show "lease_number (rs_hget R s' key) ''generation'' = Some (g + 1)"
    by (auto simp: lease_number_def redis_fields[OF assms(1)] incremented tonumber_int)
  from s' assms(4,5) show "\<exists>q'. lease_number (rs_hget R s' key) ''sequence'' = Some q' \<and> q \<le> q'"
    by (auto simp: lease_number_def redis_fields[OF assms(1)] incremented tonumber_int)
qed

lemma acquire_effect:
  assumes "redis_laws R" "stream \<noteq> key"
    and "acquireJobScript R now stream key run_key grp consumer message lease_ms attempt_id s = (reply, s')"
  shows "s' = s \<or> rs_pending R s stream grp message = Some consumer \<and>
    (rs_pending R s' stream grp message = None \<or>
     (\<exists>sequence q. grant_lease R now key consumer lease_ms sequence s = (reply, s') \<and>
        lease_number (rs_hget R s key) ''sequence'' = Some q \<and> q \<le> sequence))"
  using assms(3)
  by (auto simp: acquireJobScript_def number_field_lease redis_pending[OF assms(1)] assms(2)
      split: if_splits option.splits)

lemma renew_effect:
  assumes "redis_laws R" "renewJobScript R now key generation consumer lease_ms s = (reply, s')"
  shows "rs_pending R s' = rs_pending R s" "field \<noteq> ''until_ms'' \<Longrightarrow> rs_hget R s' key field = rs_hget R s key field"
    "rs_hget R s key = Map.empty \<Longrightarrow> s' = s"
  using assms(2)
  by (auto simp: renewJobScript_def redis_pending[OF assms(1)] redis_fields[OF assms(1)] split: if_splits option.splits)

lemma store_event_effect:
  assumes "redis_laws R" "key \<notin> {pu_run_key a, pu_run_events a}" "stream \<notin> {pu_run_key a, pu_run_events a}"
  shows "rs_hget R (store_event R a s) key = rs_hget R s key"
    "rs_pending R (store_event R a s) stream = rs_pending R s stream"
proof -
  have fields: "rs_hget R (foldl (\<lambda>s (field, v). rs_hset R (pu_run_key a) [(field, v)] s) s fvs) key field' = rs_hget R s key field'"
    for s fvs field'
    using assms(2) by (induction fvs arbitrary: s) (auto simp: redis_fields[OF assms(1)])
  have held: "rs_pending R (foldl (\<lambda>s (field, v). rs_hset R (pu_run_key a) [(field, v)] s) s fvs) = rs_pending R s" for s fvs
    by (induction fvs arbitrary: s) (auto simp: redis_pending[OF assms(1)])
  show "rs_hget R (store_event R a s) key = rs_hget R s key"
    using assms(2) by (intro ext) (simp add: store_event_def Let_def redis_fields[OF assms(1)] fields)
  show "rs_pending R (store_event R a s) stream = rs_pending R s stream"
    using assms(3) by (simp add: store_event_def Let_def redis_pending[OF assms(1)] held)
qed

text \<open>An accepted publication: what its acceptance says of the lease, and what it leaves behind.\<close>

lemma publish_effect:
  assumes "redis_laws R" "job_ok j" "job_publication j a fence" "publishEventScript R now a s = (reply, s')"
  shows "reply \<noteq> RespInteger 1 \<and> s' = s \<or>
    (\<exists>event n q. reply = RespInteger 1 \<and> rs_decode R (pu_event a) = Some event \<and>
       rs_hget R s (job_key j) ''generation'' = Some (fe_generation fence) \<and>
       rs_pending R s (jb_stream j) (jb_group j) (jb_message j) = Some (fe_consumer fence) \<and>
       event_number event ''sequence'' = Some n \<and> lease_number (rs_hget R s (job_key j)) ''sequence'' = Some q \<and> q < n \<and>
       (if terminal_event event then rs_pending R s' (jb_stream j) (jb_group j) (jb_message j) = None
        else rs_hget R s' (job_key j) = (rs_hget R s (job_key j))(''sequence'' \<mapsto> int_to_string n) \<and>
          rs_pending R s' (jb_stream j) = rs_pending R s (jb_stream j)))"
proof (cases "reply = RespInteger 1")
  case True
  have keys: "fe_key fence = job_key j" "fe_stream fence = jb_stream j" "fe_group fence = jb_group j" "fe_message_id fence = jb_message j"
      "pu_fence a = Some fence" "job_key j \<notin> {pu_run_key a, pu_run_events a}" "jb_stream j \<notin> {pu_run_key a, pu_run_events a}"
      "jb_stream j \<noteq> job_key j"
    using assms(2,3) by (auto simp: job_publication_def job_ok_def)
  obtain event where event: "rs_decode R (pu_event a) = Some event" "fence_refuses R now fence event s = None"
      "s' = settle_fence R fence event (store_event R a s)"
    using assms(4) True keys(5)
    by (auto simp: publishEventScript_def fence_refuses_def script_error_def split: option.splits if_splits)
  obtain n q where numbers: "event_number event ''sequence'' = Some n" "lease_number (rs_hget R s (job_key j)) ''sequence'' = Some q" "q < n"
      "rs_hget R s (job_key j) ''generation'' = Some (fe_generation fence)"
      "rs_pending R s (jb_stream j) (jb_group j) (jb_message j) = Some (fe_consumer fence)"
    using event(2) by (auto simp: fence_refuses_def keys(1-4) number_field_lease split: option.splits if_splits)
  note stored = store_event_effect[OF assms(1) keys(6,7)]
  have "rs_hget R (rs_hset R (job_key j) [(''sequence'', int_to_string n)] (store_event R a s)) (job_key j) =
      (rs_hget R s (job_key j))(''sequence'' \<mapsto> int_to_string n)"
    by (intro ext) (simp add: redis_fields[OF assms(1)] stored)
  then show ?thesis
    using True event(1) numbers
    by (auto simp: event(3) settle_fence_def keys(1-4) redis_pending[OF assms(1)] stored keys(8))
next
  case False
  then show ?thesis
    using assms(3,4) by (auto simp: publishEventScript_def job_publication_def split: option.splits if_splits)
qed

subsection \<open>The history of a job\<close>

definition job_inv :: "'s redis_server \<Rightarrow> job \<Rightarrow> 's job_world \<Rightarrow> bool" where
  "job_inv R j w \<longleftrightarrow> one_history (jw_log w) \<and>
     (\<not> jw_delivered w \<longrightarrow> jw_log w = [] \<and> rs_hget R (jw_store w) (job_key j) = Map.empty \<and>
        rs_pending R (jw_store w) (jb_stream j) (jb_group j) (jb_message j) = None) \<and>
     (rs_pending R (jw_store w) (jb_stream j) (jb_group j) (jb_message j) \<noteq> None \<longrightarrow>
        (\<exists>g q. lease_number (rs_hget R (jw_store w) (job_key j)) ''generation'' = Some g \<and>
           lease_number (rs_hget R (jw_store w) (job_key j)) ''sequence'' = Some q \<and>
           list_all (\<lambda>e. \<not> terminal_event (snd e) \<and> log_sequence e \<le> q \<and> log_generation e \<le> g) (jw_log w)))"

text \<open>A step that keeps the log, can end the message's being pending and lets the lease only grow.\<close>

lemma job_inv_grows:
  assumes "job_inv R j w"
    and "rs_pending R (jw_store w) (jb_stream j) (jb_group j) (jb_message j) = None \<Longrightarrow>
      rs_pending R s (jb_stream j) (jb_group j) (jb_message j) = None \<and>
      (\<not> jw_delivered w \<longrightarrow> rs_hget R s (job_key j) = rs_hget R (jw_store w) (job_key j))"
    and "\<And>g q. rs_pending R s (jb_stream j) (jb_group j) (jb_message j) \<noteq> None \<Longrightarrow>
      lease_number (rs_hget R (jw_store w) (job_key j)) ''generation'' = Some g \<Longrightarrow>
      lease_number (rs_hget R (jw_store w) (job_key j)) ''sequence'' = Some q \<Longrightarrow>
      \<exists>g' q'. lease_number (rs_hget R s (job_key j)) ''generation'' = Some g' \<and> g \<le> g' \<and>
        lease_number (rs_hget R s (job_key j)) ''sequence'' = Some q' \<and> q \<le> q'"
  shows "job_inv R j (w\<lparr>jw_store := s\<rparr>)"
proof (cases "rs_pending R s (jb_stream j) (jb_group j) (jb_message j)")
  case None
  then show ?thesis using assms(1,2) by (auto simp: job_inv_def)
next
  case (Some c)
  then have held: "rs_pending R (jw_store w) (jb_stream j) (jb_group j) (jb_message j) \<noteq> None" using assms(2) by auto
  then obtain g q where w: "lease_number (rs_hget R (jw_store w) (job_key j)) ''generation'' = Some g"
      "lease_number (rs_hget R (jw_store w) (job_key j)) ''sequence'' = Some q"
      "list_all (\<lambda>e. \<not> terminal_event (snd e) \<and> log_sequence e \<le> q \<and> log_generation e \<le> g) (jw_log w)"
    using assms(1) by (auto simp: job_inv_def)
  obtain g' q' where grown: "lease_number (rs_hget R s (job_key j)) ''generation'' = Some g'" "g \<le> g'"
      "lease_number (rs_hget R s (job_key j)) ''sequence'' = Some q'" "q \<le> q'"
    using assms(3)[OF _ w(1,2)] Some by auto
  have "list_all (\<lambda>e. \<not> terminal_event (snd e) \<and> log_sequence e \<le> q' \<and> log_generation e \<le> g') (jw_log w)"
    using w(3) grown(2,4) by (force simp: list_all_iff)
  moreover have "jw_delivered w" "one_history (jw_log w)" using assms(1) held by (auto simp: job_inv_def)
  ultimately show ?thesis using grown(1,3) by (auto simp: job_inv_def)
qed

lemma job_inv_same:
  assumes "job_inv R j w" "rs_hget R s (job_key j) = rs_hget R (jw_store w) (job_key j)"
    and "rs_pending R (jw_store w) (jb_stream j) (jb_group j) (jb_message j) = None \<Longrightarrow>
      rs_pending R s (jb_stream j) (jb_group j) (jb_message j) = None"
  shows "job_inv R j (w\<lparr>jw_store := s\<rparr>)"
  using assms(1) by (rule job_inv_grows) (use assms(2,3) in auto)

lemma job_inv_acquire:
  assumes "redis_laws R" "job_ok j" "job_inv R j w"
    and "acquireJobScript R now (jb_stream j) (job_key j) run_key (jb_group j) consumer (jb_message j) lease_ms attempt_id
      (jw_store w) = (reply, s)"
  shows "job_inv R j (w\<lparr>jw_store := s\<rparr>)"
proof -
  have "jb_stream j \<noteq> job_key j" using assms(2) by (auto simp: job_ok_def)
  from acquire_effect[OF assms(1) this assms(4)] show ?thesis
  proof (elim disjE conjE exE)
    assume "s = jw_store w"
    then show ?thesis using assms(3) by simp
  next
    assume "rs_pending R (jw_store w) (jb_stream j) (jb_group j) (jb_message j) = Some consumer"
      "rs_pending R s (jb_stream j) (jb_group j) (jb_message j) = None"
    with assms(3) show ?thesis by (intro job_inv_grows) auto
  next
    fix sequence q
    assume held: "rs_pending R (jw_store w) (jb_stream j) (jb_group j) (jb_message j) = Some consumer"
      and granted: "grant_lease R now (job_key j) consumer lease_ms sequence (jw_store w) = (reply, s)"
      and numbers: "lease_number (rs_hget R (jw_store w) (job_key j)) ''sequence'' = Some q" "q \<le> sequence"
    show ?thesis
    proof (rule job_inv_grows[OF assms(3)])
      fix g q'
      assume "lease_number (rs_hget R (jw_store w) (job_key j)) ''generation'' = Some g"
        "lease_number (rs_hget R (jw_store w) (job_key j)) ''sequence'' = Some q'"
      then show "\<exists>g' q''. lease_number (rs_hget R s (job_key j)) ''generation'' = Some g' \<and> g \<le> g' \<and>
          lease_number (rs_hget R s (job_key j)) ''sequence'' = Some q'' \<and> q' \<le> q''"
        using grant_effect(2,3)[OF assms(1) granted _ numbers] numbers(1) by fastforce
    qed (use held in simp)
  qed
qed

lemma job_inv_renew:
  assumes "redis_laws R" "job_inv R j w"
    and "renewJobScript R now (job_key j) generation consumer lease_ms (jw_store w) = (reply, s)"
  shows "job_inv R j (w\<lparr>jw_store := s\<rparr>)"
  using assms(2)
proof (rule job_inv_grows)
  assume "rs_pending R (jw_store w) (jb_stream j) (jb_group j) (jb_message j) = None"
  then show "rs_pending R s (jb_stream j) (jb_group j) (jb_message j) = None \<and>
      (\<not> jw_delivered w \<longrightarrow> rs_hget R s (job_key j) = rs_hget R (jw_store w) (job_key j))"
    using renew_effect(1,3)[OF assms(1,3)] assms(2) by (simp add: job_inv_def)
next
  fix g q
  assume "lease_number (rs_hget R (jw_store w) (job_key j)) ''generation'' = Some g"
    "lease_number (rs_hget R (jw_store w) (job_key j)) ''sequence'' = Some q"
  then show "\<exists>g' q'. lease_number (rs_hget R s (job_key j)) ''generation'' = Some g' \<and> g \<le> g' \<and>
      lease_number (rs_hget R s (job_key j)) ''sequence'' = Some q' \<and> q \<le> q'"
    using renew_effect(2)[OF assms(1,3)] by (simp add: lease_number_def)
qed

lemma job_inv_publish:
  assumes "redis_laws R" "job_ok j" "job_inv R j w" "job_publication j a fence"
    and "publishEventScript R now a (jw_store w) = (reply, s)"
  shows "job_inv R j (w\<lparr>jw_store := s, jw_log := jw_log w @ accepted R a fence reply\<rparr>)"
  using publish_effect[OF assms(1,2,4,5)]
proof (elim disjE conjE exE)
  assume "reply \<noteq> RespInteger 1" "s = jw_store w"
  then show ?thesis using assms(3) by (simp add: accepted_def)
next
  fix event n q
  assume reply: "reply = RespInteger 1" and event: "rs_decode R (pu_event a) = Some event"
    and generation: "rs_hget R (jw_store w) (job_key j) ''generation'' = Some (fe_generation fence)"
    and held: "rs_pending R (jw_store w) (jb_stream j) (jb_group j) (jb_message j) = Some (fe_consumer fence)"
    and sequence: "event_number event ''sequence'' = Some n"
      "lease_number (rs_hget R (jw_store w) (job_key j)) ''sequence'' = Some q" "q < n"
    and after: "if terminal_event event then rs_pending R s (jb_stream j) (jb_group j) (jb_message j) = None
        else rs_hget R s (job_key j) = (rs_hget R (jw_store w) (job_key j))(''sequence'' \<mapsto> int_to_string n) \<and>
          rs_pending R s (jb_stream j) = rs_pending R (jw_store w) (jb_stream j)"
  obtain g where g: "lease_number (rs_hget R (jw_store w) (job_key j)) ''generation'' = Some g"
      "list_all (\<lambda>e. \<not> terminal_event (snd e) \<and> log_sequence e \<le> q \<and> log_generation e \<le> g) (jw_log w)"
    using assms(3) held sequence(2) by (auto simp: job_inv_def)
  let ?e = "(fe_generation fence, event)"
  have numbers: "log_sequence ?e = n" "log_generation ?e = g"
    using sequence(1) g(1) generation by (simp_all add: log_sequence_def log_generation_def lease_number_def)
  have "list_all (\<lambda>e. \<not> terminal_event (snd e) \<and> log_sequence e < log_sequence ?e \<and> log_generation e \<le> log_generation ?e) (jw_log w)"
    using g(2) sequence(3) unfolding numbers by (force simp: list_all_iff)
  moreover have "one_history (jw_log w)" "jw_delivered w" using assms(3) held by (auto simp: job_inv_def)
  ultimately have history: "one_history (jw_log w @ [?e])" by (intro one_history_snoc)
  have log: "jw_log w @ accepted R a fence reply = jw_log w @ [?e]" by (simp add: accepted_def reply event)
  show ?thesis
  proof (cases "terminal_event event")
    case True
    then show ?thesis using after history \<open>jw_delivered w\<close> unfolding log by (simp add: job_inv_def)
  next
    case False
    have "list_all (\<lambda>e. \<not> terminal_event (snd e) \<and> log_sequence e \<le> n \<and> log_generation e \<le> g) (jw_log w @ [?e])"
      using g(2) sequence(3) False numbers by (force simp: list_all_iff)
    moreover have "lease_number (rs_hget R s (job_key j)) ''generation'' = Some g"
        "lease_number (rs_hget R s (job_key j)) ''sequence'' = Some n"
      using after False g(1) by (simp_all add: lease_number_def tonumber_int)
    ultimately show ?thesis using history \<open>jw_delivered w\<close> unfolding log job_inv_def by simp
  qed
qed

lemma job_inv_step:
  assumes "redis_laws R" "job_ok j" "job_inv R j w" "job_step R j w w'"
  shows "job_inv R j w'"
  using assms(4)
proof (cases rule: job_step.cases)
  case (clock now)
  then show ?thesis using assms(3) by (simp add: job_inv_def)
next
  case (others s)
  then show ?thesis using assms(3) by (auto intro: job_inv_same)
next
  case (deliver s)
  then show ?thesis using assms(3) by (auto simp: job_inv_def lease_number_def tonumber_zero)
next
  case (reclaim consumer idle start key_prefix reply s)
  then show ?thesis
    using reclaim_effect[OF assms(1) reclaim(2)] assms(3) by (auto intro!: job_inv_same simp: fun_eq_iff)
next
  case (acquire run_key consumer lease_ms attempt_id reply s)
  then show ?thesis using job_inv_acquire[OF assms(1-3)] by simp
next
  case (renew generation consumer lease_ms reply s)
  then show ?thesis using job_inv_renew[OF assms(1,3)] by simp
next
  case (publish a fence reply s)
  then show ?thesis using job_inv_publish[OF assms(1-3)] by simp
qed

lemma reachable_job_inv:
  assumes "redis_laws R" "job_ok j" "job_reachable R j w"
  shows "job_inv R j w"
  using assms(3)
proof induction
  case (start s now)
  then show ?case by (simp add: job_inv_def one_history_Nil)
next
  case (step w w')
  then show ?case using job_inv_step[OF assms(1,2)] by blast
qed

text \<open>
  C25: The events accepted for a job form one history. However many workers take the job over, with
  whatever leases they go on publishing, expired or not, and however their calls interleave, the
  accepted events have strictly increasing sequence numbers, never go back to an earlier lease, and
  none follows the event that ends the job.
\<close>

theorem job_events_form_one_history:
  assumes "redis_laws R" and "job_ok j" and "job_reachable R j w"
  shows "sorted_wrt (<) (map log_sequence (jw_log w)) \<and> sorted_wrt (\<le>) (map log_generation (jw_log w)) \<and>
    list_all (\<lambda>e. \<not> terminal_event (snd e)) (butlast (jw_log w))"
  using reachable_job_inv[OF assms] by (simp add: job_inv_def one_history_def)

subsection \<open>A lease is exclusive and lets its holder publish\<close>

lemma granted_fields:
  assumes "redis_laws R" "grant_lease R now key consumer lease_ms sequence s = (RespArray [RespInteger g, RespInteger q], s')"
    "tonumber lease_ms = Some duration" "lease_number (rs_hget R s key) ''generation'' = Some g0"
  shows "rs_hget R s' key ''generation'' = Some (int_to_string g)" "rs_hget R s' key ''consumer'' = Some consumer"
    "rs_hget R s' key ''until_ms'' = Some (int_to_string (now + duration))" "rs_hget R s' key ''sequence'' = Some (int_to_string q)"
    "rs_pending R s' = rs_pending R s"
proof -
  let ?s = "snd (rs_hincrby R key ''generation'' 1 s)"
  have g: "fst (rs_hincrby R key ''generation'' 1 s) = g0 + 1"
      "rs_hget R ?s key' field = (if key' = key \<and> field = ''generation'' then Some (int_to_string (g0 + 1)) else rs_hget R s key' field)"
    for key' field
    using redis_hincrby[OF assms(1), of s key "''generation''" g0] assms(4) by (simp_all add: number_field_lease)
  have "g = g0 + 1" "q = sequence" "s' = rs_persist R key (rs_hset R key [(''consumer'', consumer),
      (''until_ms'', int_to_string (now + duration)), (''sequence'', int_to_string sequence)] ?s)"
    using assms(2,3) g(1) by (auto simp: grant_lease_def split: prod.splits)
  then show "rs_hget R s' key ''generation'' = Some (int_to_string g)" "rs_hget R s' key ''consumer'' = Some consumer"
    "rs_hget R s' key ''until_ms'' = Some (int_to_string (now + duration))" "rs_hget R s' key ''sequence'' = Some (int_to_string q)"
    "rs_pending R s' = rs_pending R s"
    by (simp_all add: redis_fields[OF assms(1)] g(2) redis_pending[OF assms(1)])
qed

lemma acquired_fields:
  assumes "redis_laws R" "stream \<noteq> key" "tonumber lease_ms = Some duration" "lease_number (rs_hget R s key) ''generation'' = Some g0"
    and "acquireJobScript R now stream key run_key grp consumer message lease_ms attempt_id s =
      (RespArray [RespInteger g, RespInteger q], s')"
  shows "rs_hget R s' key ''generation'' = Some (int_to_string g)" "rs_hget R s' key ''consumer'' = Some consumer"
    "rs_hget R s' key ''until_ms'' = Some (int_to_string (now + duration))" "rs_hget R s' key ''sequence'' = Some (int_to_string q)"
    "rs_pending R s' stream grp message = Some consumer"
proof -
  have held: "rs_pending R s stream grp message = Some consumer"
    using assms(5) by (auto simp: acquireJobScript_def split: if_splits)
  obtain sequence where "grant_lease R now key consumer lease_ms sequence s = (RespArray [RespInteger g, RespInteger q], s')"
    using assms(5) by (auto simp: acquireJobScript_def script_error_def split: if_splits option.splits)
  from granted_fields[OF assms(1) this assms(3,4)] held
  show "rs_hget R s' key ''generation'' = Some (int_to_string g)" "rs_hget R s' key ''consumer'' = Some consumer"
    "rs_hget R s' key ''until_ms'' = Some (int_to_string (now + duration))" "rs_hget R s' key ''sequence'' = Some (int_to_string q)"
    "rs_pending R s' stream grp message = Some consumer" by simp_all
qed

text \<open>
  A lease is exclusive and good for what it is for. From its acquisition until its end nobody
  acquires the job again, and its holder's next event is accepted: one with a later sequence number
  than the lease came with, of a run that is not cancelled.
\<close>

lemma acquired_lease_publishes_alone:
  assumes "redis_laws R" and "job_ok j" and "tonumber lease_ms = Some duration"
    and "lease_number (rs_hget R s (job_key j)) ''generation'' = Some previous"
    and "acquireJobScript R now (jb_stream j) (job_key j) (jb_run_key j) (jb_group j) consumer (jb_message j) lease_ms
      attempt_id s = (RespArray [RespInteger g, RespInteger q], s')"
    and "now' < now + duration"
    and "job_publication j a fence" and "fe_generation fence = int_to_string g" and "fe_consumer fence = consumer"
    and "rs_decode R (pu_event a) = Some event" and "event_number event ''sequence'' = Some n" and "q < n"
    and "rs_get R s' (fe_cancel_key fence) = None"
    and "wrong_type R s' [(pu_run_events a, ''stream''), (pu_platform_events a, ''stream''), (pu_run_key a, ''hash'')] = None"
  shows "fst (publishEventScript R now' a s') = RespInteger 1 \<and>
    acquireJobScript R now' (jb_stream j) (job_key j) run_key (jb_group j) other (jb_message j) ms attempt s' = (RespArray [], s')"
proof -
  have "jb_stream j \<noteq> job_key j" using assms(2) by (auto simp: job_ok_def)
  note lease = acquired_fields[OF assms(1) this assms(3-5)]
  have keys: "pu_fence a = Some fence" "fe_key fence = job_key j" "fe_stream fence = jb_stream j" "fe_group fence = jb_group j"
      "fe_message_id fence = jb_message j"
    using assms(7) by (auto simp: job_publication_def)
  have numbers: "number_field R s' (job_key j) ''until_ms'' = Some (now + duration)" "number_field R s' (job_key j) ''sequence'' = Some q"
    by (simp_all add: number_field_def lease tonumber_int)
  have "fence_refuses R now' fence event s' = None"
    using assms(6,12) by (simp add: fence_refuses_def keys lease numbers assms(8,9,11,13))
  then have "fst (publishEventScript R now' a s') = RespInteger 1"
    by (simp add: publishEventScript_def assms(10,14) keys(1))
  moreover have "acquireJobScript R now' (jb_stream j) (job_key j) run_key (jb_group j) other (jb_message j) ms attempt s' = (RespArray [], s')"
    using assms(6) by (simp add: acquireJobScript_def lease(5) numbers)
  ultimately show ?thesis by simp
qed

subsection \<open>A sample server\<close>

text \<open>A store of hashes and of the messages consumers hold, on which a claim always succeeds.\<close>

record sample_store =
  ss_hashes :: "string \<Rightarrow> string \<Rightarrow> string option"
  ss_held :: "string \<Rightarrow> string \<Rightarrow> string \<Rightarrow> string option"

definition sample_event :: "string \<Rightarrow> int \<Rightarrow> json" where
  "sample_event kind n = JObject [(''type'', JString kind), (''sequence'', JInt n), (''attempt_id'', JString ''a'')]"

definition sample_redis :: "sample_store redis_server" where
  "sample_redis =
     \<lparr>rs_hget = ss_hashes,
      rs_hset = (\<lambda>key fvs s. s\<lparr>ss_hashes := \<lambda>key' field.
        if key' = key \<and> field \<in> set (map fst fvs) then map_of (rev fvs) field else ss_hashes s key' field\<rparr>),
      rs_hincrby = (\<lambda>key field n s.
        let m = (case tonumber (case ss_hashes s key field of None \<Rightarrow> ''0'' | Some v \<Rightarrow> v) of None \<Rightarrow> 0 | Some m \<Rightarrow> m)
        in (m + n, s\<lparr>ss_hashes := \<lambda>key' field'.
          if key' = key \<and> field' = field then Some (int_to_string (m + n)) else ss_hashes s key' field'\<rparr>)),
      rs_del = (\<lambda>key s. s\<lparr>ss_hashes := \<lambda>key' field. if key' = key then None else ss_hashes s key' field\<rparr>),
      rs_persist = (\<lambda>key s. s), rs_expire = (\<lambda>key n s. s), rs_get = (\<lambda>s key. None), rs_type = (\<lambda>s key. ''none''),
      rs_pending = ss_held, rs_idle = (\<lambda>s stream grp idle start. []),
      rs_claim = (\<lambda>stream grp consumer idle message s.
        ([RespString message], s\<lparr>ss_held := \<lambda>stream' grp' message'.
          if stream' = stream \<and> grp' = grp \<and> message' = message then map_option (\<lambda>_. consumer) (ss_held s stream grp message)
          else ss_held s stream' grp' message'\<rparr>)),
      rs_ack = (\<lambda>stream grp message s. s\<lparr>ss_held := \<lambda>stream' grp' message'.
        if stream' = stream \<and> grp' = grp \<and> message' = message then None else ss_held s stream' grp' message'\<rparr>),
      rs_add = (\<lambda>key len event s. s),
      rs_decode = (\<lambda>s. if s = ''b'' then Some (sample_event ''job_started'' 1)
        else if s = ''e'' then Some (sample_event ''job_succeeded'' 2) else None)\<rparr>"

lemma sample_laws: "redis_laws sample_redis"
  by (auto simp: redis_laws_def field_laws_def pending_laws_def sample_redis_def Let_def fun_eq_iff)

definition sample_job :: job where
  "sample_job = \<lparr>jb_stream = ''s'', jb_group = ''g'', jb_message = ''m'', jb_run_key = ''r'', jb_run_events = ''v'',
     jb_platform_events = ''p''\<rparr>"

lemma sample_job_ok: "job_ok sample_job"
  by (simp add: job_ok_def sample_job_def job_key_def)

definition sample_publication :: "string \<Rightarrow> string \<Rightarrow> publish_fence \<times> publish_arguments" where
  "sample_publication generation event =
     (let fence = \<lparr>fe_key = job_key sample_job, fe_stream = ''s'', fe_cancel_key = ''c'', fe_generation = generation,
        fe_consumer = ''w'', fe_group = ''g'', fe_message_id = ''m''\<rparr>
      in (fence, \<lparr>pu_run_events = ''v'', pu_platform_events = ''p'', pu_run_key = ''r'', pu_event = event, pu_run_length = ''9'',
         pu_platform_length = ''9'', pu_retention = ''9'', pu_fence = Some fence, pu_state = []\<rparr>))"

lemma sample_publications: "job_publication sample_job (snd (sample_publication g e)) (fst (sample_publication g e))"
  by (simp add: job_publication_def sample_publication_def sample_job_def Let_def)

text \<open>A job that a worker acquires, starts, acquires again after its lease has run out, and finishes.\<close>

definition sample_delivered :: sample_store where
  "sample_delivered = \<lparr>ss_hashes = (\<lambda>_ _. None), ss_held = (\<lambda>stream grp message. Some ''w'')\<rparr>"

definition sample_acquire :: "int \<Rightarrow> sample_store \<Rightarrow> resp \<times> sample_store" where
  "sample_acquire now = acquireJobScript sample_redis now ''s'' (job_key sample_job) ''r'' ''g'' ''w'' ''m'' ''5'' ''a''"

definition sample_publish :: "int \<Rightarrow> string \<Rightarrow> string \<Rightarrow> sample_store \<Rightarrow> resp \<times> sample_store" where
  "sample_publish now generation event = publishEventScript sample_redis now (snd (sample_publication generation event))"

definition sample_started :: "resp \<times> sample_store" where
  "sample_started = sample_publish 1 ''1'' ''b'' (snd (sample_acquire 0 sample_delivered))"

definition sample_finished :: "resp \<times> sample_store" where
  "sample_finished = sample_publish 9 ''2'' ''e'' (snd (sample_acquire 8 (snd sample_started)))"

lemma sample_replies:
  "fst (sample_acquire 0 sample_delivered) = RespArray [RespInteger 1, RespInteger 0]"
  "fst sample_started = RespInteger 1" "fst sample_finished = RespInteger 1"
  by code_simp+

definition sample_world :: "sample_store \<Rightarrow> int \<Rightarrow> (string \<times> json) list \<Rightarrow> sample_store job_world" where
  "sample_world s now es = \<lparr>jw_store = s, jw_now = now, jw_delivered = True, jw_log = es\<rparr>"

lemma sample_acquires:
  assumes "job_reachable sample_redis sample_job (sample_world s now es)" "now \<le> now'"
  shows "job_reachable sample_redis sample_job (sample_world (snd (sample_acquire now' s)) now' es)"
proof -
  have "job_reachable sample_redis sample_job (sample_world s now' es)"
    using job_reachable.step[OF assms(1) job_step.clock[of _ now']] assms(2) by (simp add: sample_world_def)
  moreover have "job_step sample_redis sample_job (sample_world s now' es) ((sample_world s now' es)\<lparr>jw_store := snd (sample_acquire now' s)\<rparr>)"
    by (rule job_step.acquire[where reply = "fst (sample_acquire now' s)"])
      (simp add: sample_acquire_def sample_world_def sample_job_def)
  ultimately show ?thesis using job_reachable.step by (fastforce simp: sample_world_def)
qed

lemma sample_publishes:
  assumes "job_reachable sample_redis sample_job (sample_world s now es)" "now \<le> now'" "fst (sample_publish now' g e s) = RespInteger 1"
    "rs_decode sample_redis e = Some event"
  shows "job_reachable sample_redis sample_job (sample_world (snd (sample_publish now' g e s)) now' (es @ [(g, event)]))"
proof -
  have "job_reachable sample_redis sample_job (sample_world s now' es)"
    using job_reachable.step[OF assms(1) job_step.clock[of _ now']] assms(2) by (simp add: sample_world_def)
  moreover have "job_step sample_redis sample_job (sample_world s now' es) ((sample_world s now' es)\<lparr>jw_store := snd (sample_publish now' g e s),
      jw_log := jw_log (sample_world s now' es) @
        accepted sample_redis (snd (sample_publication g e)) (fst (sample_publication g e)) (fst (sample_publish now' g e s))\<rparr>)"
    by (rule job_step.publish[OF sample_publications]) (simp add: sample_publish_def sample_world_def)
  moreover have "accepted sample_redis (snd (sample_publication g e)) (fst (sample_publication g e)) (fst (sample_publish now' g e s)) = [(g, event)]"
    using assms(3,4) by (simp add: accepted_def sample_publication_def Let_def)
  ultimately show ?thesis using job_reachable.step by (fastforce simp: sample_world_def)
qed

lemma sample_reachable:
  "job_reachable sample_redis sample_job (sample_world (snd sample_finished) 9
     [(''1'', sample_event ''job_started'' 1), (''2'', sample_event ''job_succeeded'' 2)])"
proof -
  let ?empty = "\<lparr>ss_hashes = (\<lambda>_ _. None), ss_held = (\<lambda>_ _ _. None)\<rparr>"
  have "job_reachable sample_redis sample_job \<lparr>jw_store = ?empty, jw_now = 0, jw_delivered = False, jw_log = []\<rparr>"
    by (rule job_reachable.start) (simp_all add: sample_redis_def)
  moreover have "job_step sample_redis sample_job \<lparr>jw_store = ?empty, jw_now = 0, jw_delivered = False, jw_log = []\<rparr>
      (\<lparr>jw_store = ?empty, jw_now = 0, jw_delivered = False, jw_log = []\<rparr>\<lparr>jw_store := sample_delivered, jw_delivered := True\<rparr>)"
    by (rule job_step.deliver) (simp_all add: sample_redis_def sample_delivered_def)
  ultimately have "job_reachable sample_redis sample_job (sample_world sample_delivered 0 [])"
    using job_reachable.step by (fastforce simp: sample_world_def)
  then have "job_reachable sample_redis sample_job (sample_world (snd (sample_acquire 0 sample_delivered)) 0 [])"
    by (rule sample_acquires) simp
  then have "job_reachable sample_redis sample_job (sample_world (snd sample_started) 1 ([] @ [(''1'', sample_event ''job_started'' 1)]))"
    unfolding sample_started_def
    by (rule sample_publishes) (use sample_replies(2) in \<open>simp_all add: sample_started_def sample_redis_def\<close>)
  then have "job_reachable sample_redis sample_job
      (sample_world (snd (sample_acquire 8 (snd sample_started))) 8 ([] @ [(''1'', sample_event ''job_started'' 1)]))"
    by (rule sample_acquires) simp
  then have "job_reachable sample_redis sample_job (sample_world (snd sample_finished) 9
      (([] @ [(''1'', sample_event ''job_started'' 1)]) @ [(''2'', sample_event ''job_succeeded'' 2)]))"
    unfolding sample_finished_def
    by (rule sample_publishes) (use sample_replies(3) in \<open>simp_all add: sample_finished_def sample_redis_def\<close>)
  then show ?thesis by simp
qed

theorem job_events_form_one_history_witness:
  "sorted_wrt (<) (map log_sequence [(''1'', sample_event ''job_started'' 1), (''2'', sample_event ''job_succeeded'' 2)])"
  using job_events_form_one_history[OF sample_laws sample_job_ok sample_reachable] by (simp only: sample_world_def job_world.simps)

lemma acquired_lease_publishes_alone_witness:
  "fst (publishEventScript sample_redis 1 (snd (sample_publication ''1'' ''b'')) (snd (sample_acquire 0 sample_delivered))) = RespInteger 1 \<and>
   acquireJobScript sample_redis 1 ''s'' (job_key sample_job) ''r'' ''g'' ''other'' ''m'' ''5'' ''a'' (snd (sample_acquire 0 sample_delivered)) =
     (RespArray [], snd (sample_acquire 0 sample_delivered))"
proof -
  have acquired: "acquireJobScript sample_redis 0 (jb_stream sample_job) (job_key sample_job) (jb_run_key sample_job)
      (jb_group sample_job) ''w'' (jb_message sample_job) ''5'' ''a'' sample_delivered =
      (RespArray [RespInteger 1, RespInteger 0], snd (sample_acquire 0 sample_delivered))"
    using sample_replies(1) by (simp add: prod_eq_iff sample_acquire_def sample_job_def)
  have "tonumber ''5'' = Some 5" "int_to_string 1 = ''1''" by code_simp+
  moreover have "lease_number (rs_hget sample_redis sample_delivered (job_key sample_job)) ''generation'' = Some 0"
    by (simp add: lease_number_def sample_redis_def sample_delivered_def tonumber_zero)
  ultimately show ?thesis
    using acquired_lease_publishes_alone[OF sample_laws sample_job_ok _ _ acquired, where duration = 5 and previous = 0 and now' = 1 and
        a = "snd (sample_publication ''1'' ''b'')" and fence = "fst (sample_publication ''1'' ''b'')" and
        event = "sample_event ''job_started'' 1" and n = 1 and run_key = "''r''" and other = "''other''" and ms = "''5''" and attempt = "''a''"]
      sample_publications[of "''1''" "''b''"]
    by (simp add: sample_publication_def sample_redis_def Let_def sample_event_def event_number_def json_get_def wrong_type_def sample_job_def)
qed

end
