(* ===== verification/Redis_Client.thy ===== *)
theory Redis_Client
  imports Job_Protocol
begin

text \<open>
  The worker's Redis client, \<open>platform/worker/redis_client.cpp\<close>: connecting, one command at a time, and
  the operations on streams, hashes and leases made of commands. The network is an argument: which
  addresses answer, how many bytes a call of \<open>send\<close> takes, and the chunks \<open>recv\<close> then returns.
\<close>

subsection \<open>Connecting and sending\<close>

datatype address_outcome = NoSocket | NoTimeouts | NotConnected | Connected

record 'n network =
  nw_resolve :: "'n \<Rightarrow> (string + address_outcome list) \<times> 'n"
  nw_address :: string
  nw_send :: "string \<Rightarrow> 'n \<Rightarrow> int list \<times> 'n"
  nw_receive :: "string \<Rightarrow> 'n \<Rightarrow> string list \<times> 'n"
  nw_error :: string

text \<open>The client's socket with its buffer, and the lease of the job in progress.\<close>

record redis_job_lease =
  rl_key :: string
  rl_stream :: string
  rl_group :: string
  rl_message_id :: string
  rl_consumer :: string
  rl_generation :: int
  rl_sequence :: int
  rl_duration_ms :: int

record redis_client =
  rc_connection :: "connection option"
  rc_lease :: "redis_job_lease option"

text \<open>Exceptions: \<open>JobCancellationRequested\<close>, and every other with its message.\<close>

datatype redis_error = RedisFailure string | JobCancellationRequested

type_synonym ('n, 'a) redis_result = "(redis_error + 'a) \<times> 'n \<times> redis_client"

text \<open>The loop over the resolved addresses: the first that can be connected.\<close>

fun connect_addresses :: "address_outcome list \<Rightarrow> bool" where
  "connect_addresses [] = False"
| "connect_addresses (a # addresses) =
     (case a of Connected \<Rightarrow> True | NoSocket \<Rightarrow> connect_addresses addresses | NoTimeouts \<Rightarrow> connect_addresses addresses
      | NotConnected \<Rightarrow> connect_addresses addresses)"

definition connectSocket :: "'n network \<Rightarrow> 'n \<Rightarrow> (string + connection) \<times> 'n" where
  "connectSocket N n =
     (case nw_resolve N n of
        (Inl reason, n) \<Rightarrow> (Inl (''failed to resolve Redis host: '' @ reason), n)
      | (Inr addresses, n) \<Rightarrow>
          if connect_addresses addresses then (Inr \<lparr>cn_buffer = [], cn_chunks = []\<rparr>, n)
          else (Inl (''failed to connect to Redis at '' @ nw_address N), n))"

text \<open>\<open>sendAll\<close>: what reaches the peer, and whether all of it did.\<close>

fun sendAll :: "int list \<Rightarrow> string \<Rightarrow> string \<times> bool" where
  "sendAll results [] = ([], True)"
| "sendAll [] data = ([], False)"
| "sendAll (written # results) data =
     (if written \<le> 0 then ([], False)
      else case sendAll results (drop (nat written) data) of (sent, ok) \<Rightarrow> (take (nat written) data @ sent, ok))"

definition command :: "'n network \<Rightarrow> string list \<Rightarrow> 'n \<Rightarrow> redis_client \<Rightarrow> ('n, resp) redis_result" where
  "command N arguments n client =
     (case (case rc_connection client of Some c \<Rightarrow> (Inr c, n) | None \<Rightarrow> connectSocket N n) of
        (Inl message, n) \<Rightarrow> (Inl (RedisFailure message), n, client\<lparr>rc_connection := None\<rparr>)
      | (Inr c, n) \<Rightarrow>
          (case nw_send N (encodeCommand arguments) n of
             (results, n) \<Rightarrow>
               (case sendAll results (encodeCommand arguments) of
                  (sent, False) \<Rightarrow>
                    (Inl (RedisFailure (''failed to write Redis socket: '' @ nw_error N)), n, client\<lparr>rc_connection := None\<rparr>)
                | (sent, True) \<Rightarrow>
                    (case nw_receive N sent n of
                       (chunks, n) \<Rightarrow>
                         let c = c\<lparr>cn_chunks := cn_chunks c @ chunks\<rparr> in
                         (case readValue (Suc (length (content c))) c of
                            Inl message \<Rightarrow> (Inl (RedisFailure message), n, client\<lparr>rc_connection := None\<rparr>)
                          | Inr (RespError message, c) \<Rightarrow>
                              (Inl (RedisFailure (''Redis error: '' @ message)), n, client\<lparr>rc_connection := None\<rparr>)
                          | Inr (response, c) \<Rightarrow> (Inr response, n, client\<lparr>rc_connection := Some c\<rparr>))))))"

subsection \<open>Operations\<close>

definition then_reply :: "('n, 'a) redis_result \<Rightarrow> ('a \<Rightarrow> redis_error + 'b) \<Rightarrow> ('n, 'b) redis_result" where
  "then_reply r f = (case r of (Inl e, rest) \<Rightarrow> (Inl e, rest) | (Inr v, rest) \<Rightarrow> (f v, rest))"

definition ensureConsumerGroup :: "'n network \<Rightarrow> string \<Rightarrow> string \<Rightarrow> 'n \<Rightarrow> redis_client \<Rightarrow> ('n, unit) redis_result" where
  "ensureConsumerGroup N stream grp n client =
     (case command N [''XGROUP'', ''CREATE'', stream, grp, ''0'', ''MKSTREAM''] n client of
        (Inl (RedisFailure message), rest) \<Rightarrow>
          (if contains_str ''BUSYGROUP'' message then Inr () else Inl (RedisFailure message), rest)
      | (Inl JobCancellationRequested, rest) \<Rightarrow> (Inl JobCancellationRequested, rest)
      | (Inr _, rest) \<Rightarrow> (Inr (), rest))"

text \<open>\<open>array.at(i)\<close> throws out of range.\<close>

definition at_index :: "resp \<Rightarrow> nat \<Rightarrow> redis_error + resp" where
  "at_index v i = (if i < length (resp_array v) then Inr (resp_array v ! i) else Inl (RedisFailure ''vector::_M_range_check''))"

record stream_message =
  sm_id :: string
  sm_fields :: "string \<rightharpoonup> string"

text \<open>The loop over names and values in turn; a name without a value is dropped.\<close>

fun message_fields :: "resp list \<Rightarrow> (string \<rightharpoonup> string) \<Rightarrow> (string \<rightharpoonup> string)" where
  "message_fields (name # v # rest) known = message_fields rest (known(resp_string name \<mapsto> resp_string v))"
| "message_fields _ known = known"

definition message_of :: "resp \<Rightarrow> redis_error + stream_message" where
  "message_of item =
     try_with (at_index item 0) (\<lambda>message_id. try_with (at_index item 1) (\<lambda>entries.
       Inr \<lparr>sm_id = resp_string message_id, sm_fields = message_fields (resp_array entries) Map.empty\<rparr>))"

definition readGroup ::
  "'n network \<Rightarrow> string \<Rightarrow> string \<Rightarrow> string \<Rightarrow> int \<Rightarrow> 'n \<Rightarrow> redis_client \<Rightarrow> ('n, stream_message option) redis_result" where
  "readGroup N stream grp consumer block_milliseconds n client =
     then_reply (command N [''XREADGROUP'', ''GROUP'', grp, consumer, ''COUNT'', ''1'', ''BLOCK'',
         int_to_string block_milliseconds, ''STREAMS'', stream, ''>''] n client)
       (\<lambda>response.
          if response = RespNull \<or> resp_array response = [] then Inr None
          else try_with (at_index response 0) (\<lambda>first. try_with (at_index first 1) (\<lambda>items.
            if resp_array items = [] then Inr None
            else map_sum id Some (message_of (hd (resp_array items))))))"

definition addEvent :: "'n network \<Rightarrow> string \<Rightarrow> string \<Rightarrow> nat \<Rightarrow> 'n \<Rightarrow> redis_client \<Rightarrow> ('n, string) redis_result" where
  "addEvent N stream json maximum_length n client =
     (if maximum_length = 0
      then (Inl (RedisFailure ''Redis stream maximum length must be positive''), n, client)
      else then_reply (command N [''XADD'', stream, ''MAXLEN'', ''~'', nat_to_string maximum_length, ''*'', ''event'', json] n client)
        (\<lambda>response. Inr (resp_string response)))"

definition acknowledge :: "'n network \<Rightarrow> string \<Rightarrow> string \<Rightarrow> string \<Rightarrow> 'n \<Rightarrow> redis_client \<Rightarrow> ('n, unit) redis_result" where
  "acknowledge N stream grp message_id n client =
     then_reply (command N [''XACK'', stream, grp, message_id] n client) (\<lambda>_. Inr ())"

definition setHash :: "'n network \<Rightarrow> string \<Rightarrow> (string \<times> string) list \<Rightarrow> 'n \<Rightarrow> redis_client \<Rightarrow> ('n, unit) redis_result" where
  "setHash N key fvs n client =
     then_reply (command N ([''HSET'', key] @ concat (map (\<lambda>(field, v). [field, v]) fvs)) n client) (\<lambda>_. Inr ())"

definition expire :: "'n network \<Rightarrow> string \<Rightarrow> int \<Rightarrow> 'n \<Rightarrow> redis_client \<Rightarrow> ('n, unit) redis_result" where
  "expire N key seconds n client = then_reply (command N [''EXPIRE'', key, int_to_string seconds] n client) (\<lambda>_. Inr ())"

subsection \<open>Leases\<close>

text \<open>The texts of the scripts, which \<open>Job_Scripts\<close> gives the meaning of.\<close>

record script_texts =
  tx_reclaim :: string
  tx_acquire :: string
  tx_renew :: string
  tx_publish :: string

definition reclaim_arguments :: "script_texts \<Rightarrow> string \<Rightarrow> string \<Rightarrow> string \<Rightarrow> int \<Rightarrow> string \<Rightarrow> string list" where
  "reclaim_arguments T stream grp consumer idle_ms cursor =
     [''EVAL'', tx_reclaim T, ''1'', stream, grp, consumer, int_to_string idle_ms, cursor,
      ''job-execution:'' @ stream @ '':'' @ grp @ '':'']"

text \<open>The result and the new cursor, which stays as it is when an exception comes before.\<close>

definition reclaimExpired ::
  "'n network \<Rightarrow> script_texts \<Rightarrow> string \<Rightarrow> string \<Rightarrow> string \<Rightarrow> int \<Rightarrow> string \<Rightarrow> 'n \<Rightarrow> redis_client \<Rightarrow>
   ('n, stream_message option) redis_result \<times> string" where
  "reclaimExpired N T stream grp consumer idle_ms cursor n client =
     (case command N (reclaim_arguments T stream grp consumer idle_ms cursor) n client of
        (Inl e, rest) \<Rightarrow> ((Inl e, rest), cursor)
      | (Inr response, rest) \<Rightarrow>
          (case at_index response 0 of
             Inl e \<Rightarrow> ((Inl e, rest), cursor)
           | Inr next_cursor \<Rightarrow>
               ((try_with (at_index response 1) (\<lambda>entries.
                   if resp_array entries = [] then Inr None
                   else map_sum id Some (message_of (hd (resp_array entries)))), rest), resp_string next_cursor)))"

definition field_or_empty :: "stream_message \<Rightarrow> string \<Rightarrow> string" where
  "field_or_empty message name = (case sm_fields message name of None \<Rightarrow> [] | Some v \<Rightarrow> v)"

definition lease_key :: "string \<Rightarrow> string \<Rightarrow> string \<Rightarrow> string" where
  "lease_key stream grp message_id = ''job-execution:'' @ stream @ '':'' @ grp @ '':'' @ message_id"

definition acquire_arguments ::
  "script_texts \<Rightarrow> string \<Rightarrow> string \<Rightarrow> string \<Rightarrow> stream_message \<Rightarrow> int \<Rightarrow> string list" where
  "acquire_arguments T stream grp consumer message lease_ms =
     [''EVAL'', tx_acquire T, ''3'', stream, lease_key stream grp (sm_id message), ''run:'' @ field_or_empty message ''run_id'',
      grp, consumer, sm_id message, int_to_string lease_ms, field_or_empty message ''attempt_id'']"

definition acquireJob ::
  "'n network \<Rightarrow> script_texts \<Rightarrow> string \<Rightarrow> string \<Rightarrow> string \<Rightarrow> stream_message \<Rightarrow> int \<Rightarrow> 'n \<Rightarrow> redis_client \<Rightarrow>
   ('n, redis_job_lease option) redis_result" where
  "acquireJob N T stream grp consumer message lease_ms n client =
     (case command N (acquire_arguments T stream grp consumer message lease_ms) n (client\<lparr>rc_lease := None\<rparr>) of
        (Inl e, rest) \<Rightarrow> (Inl e, rest)
      | (Inr response, n, client) \<Rightarrow>
          if resp_array response = [] then (Inr None, n, client)
          else
            (case try_with (at_index response 0) (\<lambda>g. try_with (at_index response 1) (\<lambda>q. Inr (resp_integer g, resp_integer q))) of
               Inl e \<Rightarrow> (Inl e, n, client)
             | Inr (g, q) \<Rightarrow>
                 let lease = \<lparr>rl_key = lease_key stream grp (sm_id message), rl_stream = stream, rl_group = grp,
                   rl_message_id = sm_id message, rl_consumer = consumer, rl_generation = g, rl_sequence = q,
                   rl_duration_ms = lease_ms\<rparr>
                 in (Inr (Some lease), n, client\<lparr>rc_lease := Some lease\<rparr>)))"

definition renew_arguments :: "script_texts \<Rightarrow> redis_job_lease \<Rightarrow> string list" where
  "renew_arguments T lease =
     [''EVAL'', tx_renew T, ''1'', rl_key lease, int_to_string (rl_generation lease), rl_consumer lease,
      int_to_string (rl_duration_ms lease)]"

definition renewJob :: "'n network \<Rightarrow> script_texts \<Rightarrow> redis_job_lease \<Rightarrow> 'n \<Rightarrow> redis_client \<Rightarrow> ('n, bool) redis_result" where
  "renewJob N T lease n client =
     then_reply (command N (renew_arguments T lease) n client) (\<lambda>response. Inr (resp_integer response = 1))"

definition clearJob :: "redis_client \<Rightarrow> redis_client" where
  "clearJob client = client\<lparr>rc_lease := None\<rparr>"

definition publish_arguments_of ::
  "script_texts \<Rightarrow> redis_job_lease option \<Rightarrow> string \<Rightarrow> string \<Rightarrow> (string \<times> string) list \<Rightarrow> nat \<Rightarrow> nat \<Rightarrow> int \<Rightarrow> string list" where
  "publish_arguments_of T lease run_id event state run_maximum_length platform_maximum_length retention_seconds =
     [''EVAL'', tx_publish T, case lease of Some _ \<Rightarrow> ''6'' | None \<Rightarrow> ''3'', ''run-events:'' @ run_id, ''platform-events'',
      ''run:'' @ run_id] @
     (case lease of Some l \<Rightarrow> [rl_key l, rl_stream l, ''run-cancel:'' @ run_id] | None \<Rightarrow> []) @
     [event, nat_to_string run_maximum_length, nat_to_string platform_maximum_length, int_to_string retention_seconds] @
     (case lease of Some l \<Rightarrow> [int_to_string (rl_generation l), rl_consumer l, rl_group l, rl_message_id l] | None \<Rightarrow> []) @
     concat (map (\<lambda>(key, v). [key, v]) state)"

definition publishEvent ::
  "'n network \<Rightarrow> script_texts \<Rightarrow> string \<Rightarrow> string \<Rightarrow> (string \<times> string) list \<Rightarrow> nat \<Rightarrow> nat \<Rightarrow> int \<Rightarrow> 'n \<Rightarrow> redis_client \<Rightarrow>
   ('n, unit) redis_result" where
  "publishEvent N T run_id event state run_maximum_length platform_maximum_length retention_seconds n client =
     then_reply (command N (publish_arguments_of T (rc_lease client) run_id event state run_maximum_length
         platform_maximum_length retention_seconds) n client)
       (\<lambda>response. if resp_integer response = 0 then Inl JobCancellationRequested else Inr ())"

subsection \<open>What a Redis server makes of the scripts' commands\<close>

text \<open>\<open>EVAL\<close> hands a script its keys, as many as the command says, and the rest as arguments.\<close>

fun pairs_of :: "string list \<Rightarrow> (string \<times> string) list" where
  "pairs_of (key # v # rest) = (key, v) # pairs_of rest"
| "pairs_of _ = []"

definition eval_reclaim :: "'s redis_server \<Rightarrow> int \<Rightarrow> string list \<Rightarrow> string list \<Rightarrow> 's \<Rightarrow> (resp \<times> 's) option" where
  "eval_reclaim R now keys argv s =
     (case (keys, argv) of
        ([stream], [grp, consumer, idle, start, key_prefix]) \<Rightarrow>
          Some (reclaimJobScript R now stream grp consumer idle start key_prefix s)
      | _ \<Rightarrow> None)"

definition eval_acquire :: "'s redis_server \<Rightarrow> int \<Rightarrow> string list \<Rightarrow> string list \<Rightarrow> 's \<Rightarrow> (resp \<times> 's) option" where
  "eval_acquire R now keys argv s =
     (case (keys, argv) of
        ([stream, key, run_key], [grp, consumer, message_id, lease_ms, attempt_id]) \<Rightarrow>
          Some (acquireJobScript R now stream key run_key grp consumer message_id lease_ms attempt_id s)
      | _ \<Rightarrow> None)"

definition eval_renew :: "'s redis_server \<Rightarrow> int \<Rightarrow> string list \<Rightarrow> string list \<Rightarrow> 's \<Rightarrow> (resp \<times> 's) option" where
  "eval_renew R now keys argv s =
     (case (keys, argv) of
        ([key], [generation, consumer, lease_ms]) \<Rightarrow> Some (renewJobScript R now key generation consumer lease_ms s)
      | _ \<Rightarrow> None)"

definition eval_publish :: "'s redis_server \<Rightarrow> int \<Rightarrow> string list \<Rightarrow> string list \<Rightarrow> 's \<Rightarrow> (resp \<times> 's) option" where
  "eval_publish R now keys argv s =
     (case (keys, argv) of
        ([run_events, platform_events, run_key], event # run_length # platform_length # retention # state) \<Rightarrow>
          Some (publishEventScript R now \<lparr>pu_run_events = run_events, pu_platform_events = platform_events, pu_run_key = run_key,
            pu_event = event, pu_run_length = run_length, pu_platform_length = platform_length, pu_retention = retention,
            pu_fence = None, pu_state = pairs_of state\<rparr> s)
      | ([run_events, platform_events, run_key, key, stream, cancel_key],
         event # run_length # platform_length # retention # generation # consumer # grp # message_id # state) \<Rightarrow>
          Some (publishEventScript R now \<lparr>pu_run_events = run_events, pu_platform_events = platform_events, pu_run_key = run_key,
            pu_event = event, pu_run_length = run_length, pu_platform_length = platform_length, pu_retention = retention,
            pu_fence = Some \<lparr>fe_key = key, fe_stream = stream, fe_cancel_key = cancel_key, fe_generation = generation,
              fe_consumer = consumer, fe_group = grp, fe_message_id = message_id\<rparr>, pu_state = pairs_of state\<rparr> s)
      | _ \<Rightarrow> None)"

definition serve_eval :: "'s redis_server \<Rightarrow> script_texts \<Rightarrow> int \<Rightarrow> string list \<Rightarrow> 's \<Rightarrow> (resp \<times> 's) option" where
  "serve_eval R T now arguments s =
     (case arguments of
        eval # script # numkeys # rest \<Rightarrow>
          (case tonumber numkeys of
             None \<Rightarrow> None
           | Some k \<Rightarrow>
               let keys = take (nat k) rest; argv = drop (nat k) rest in
               if eval \<noteq> ''EVAL'' then None
               else if script = tx_reclaim T then eval_reclaim R now keys argv s
               else if script = tx_acquire T then eval_acquire R now keys argv s
               else if script = tx_renew T then eval_renew R now keys argv s
               else if script = tx_publish T then eval_publish R now keys argv s
               else None)
      | _ \<Rightarrow> None)"

definition texts_distinct :: "script_texts \<Rightarrow> bool" where
  "texts_distinct T \<longleftrightarrow> distinct [tx_reclaim T, tx_acquire T, tx_renew T, tx_publish T]"

lemma numkeys: "tonumber ''1'' = Some 1" "tonumber ''3'' = Some 3" "tonumber ''6'' = Some 6"
  by code_simp+

lemma pairs_of_concat: "pairs_of (concat (map (\<lambda>(key, v). [key, v]) state)) = state"
  by (induction state) auto

text \<open>The client's argument lists put every key and argument where the script looks for it.\<close>

lemma serve_reclaim:
  "texts_distinct T \<Longrightarrow> serve_eval R T now (reclaim_arguments T stream grp consumer idle_ms cursor) s =
     Some (reclaimJobScript R now stream grp consumer (int_to_string idle_ms) cursor (''job-execution:'' @ stream @ '':'' @ grp @ '':'') s)"
  by (auto simp: serve_eval_def reclaim_arguments_def numkeys eval_reclaim_def texts_distinct_def Let_def)

lemma serve_acquire:
  "texts_distinct T \<Longrightarrow> serve_eval R T now (acquire_arguments T stream grp consumer message lease_ms) s =
     Some (acquireJobScript R now stream (lease_key stream grp (sm_id message)) (''run:'' @ field_or_empty message ''run_id'') grp
       consumer (sm_id message) (int_to_string lease_ms) (field_or_empty message ''attempt_id'') s)"
  by (auto simp: serve_eval_def acquire_arguments_def numkeys eval_acquire_def texts_distinct_def Let_def)

lemma serve_renew:
  "texts_distinct T \<Longrightarrow> serve_eval R T now (renew_arguments T lease) s =
     Some (renewJobScript R now (rl_key lease) (int_to_string (rl_generation lease)) (rl_consumer lease)
       (int_to_string (rl_duration_ms lease)) s)"
  by (auto simp: serve_eval_def renew_arguments_def numkeys eval_renew_def texts_distinct_def Let_def)

definition fence_of :: "redis_job_lease \<Rightarrow> string \<Rightarrow> publish_fence" where
  "fence_of l run_id = \<lparr>fe_key = rl_key l, fe_stream = rl_stream l, fe_cancel_key = ''run-cancel:'' @ run_id,
     fe_generation = int_to_string (rl_generation l), fe_consumer = rl_consumer l, fe_group = rl_group l,
     fe_message_id = rl_message_id l\<rparr>"

definition publication_of ::
  "redis_job_lease option \<Rightarrow> string \<Rightarrow> string \<Rightarrow> (string \<times> string) list \<Rightarrow> nat \<Rightarrow> nat \<Rightarrow> int \<Rightarrow> publish_arguments" where
  "publication_of lease run_id event state run_length platform_length retention =
     \<lparr>pu_run_events = ''run-events:'' @ run_id, pu_platform_events = ''platform-events'', pu_run_key = ''run:'' @ run_id,
      pu_event = event, pu_run_length = nat_to_string run_length, pu_platform_length = nat_to_string platform_length,
      pu_retention = int_to_string retention, pu_fence = map_option (\<lambda>l. fence_of l run_id) lease, pu_state = state\<rparr>"

lemma serve_publish:
  "texts_distinct T \<Longrightarrow>
   serve_eval R T now (publish_arguments_of T lease run_id event state run_length platform_length retention) s =
     Some (publishEventScript R now (publication_of lease run_id event state run_length platform_length retention) s)"
  by (cases lease) (auto simp: serve_eval_def publish_arguments_of_def numkeys eval_publish_def texts_distinct_def Let_def
    publication_of_def fence_of_def pairs_of_concat)

subsection \<open>A command is one step of the server\<close>

text \<open>
  The network carries this command to a server that runs the scripts, and the reply back, in chunks of
  any sizes. \<open>store\<close> gives the server's store in a state of the network.
\<close>

definition scripted ::
  "'n network \<Rightarrow> ('n \<Rightarrow> 's) \<Rightarrow> 's redis_server \<Rightarrow> script_texts \<Rightarrow> int \<Rightarrow> string list \<Rightarrow> 'n \<Rightarrow> bool" where
  "scripted N store R T now arguments n \<longleftrightarrow>
     (case (serve_eval R T now arguments (store n), nw_send N (encodeCommand arguments) n) of
        (Some (reply, s'), results, n1) \<Rightarrow>
          snd (sendAll results (encodeCommand arguments)) \<and> resp_ok reply \<and>
          (case nw_receive N (encodeCommand arguments) n1 of
             (chunks, n2) \<Rightarrow> [] \<notin> set chunks \<and> concat chunks = encode_resp reply \<and> store n2 = s')
      | _ \<Rightarrow> False)"

definition idle_client :: "redis_client \<Rightarrow> bool" where
  "idle_client client \<longleftrightarrow> (case rc_connection client of None \<Rightarrow> False | Some c \<Rightarrow> cn_buffer c = [] \<and> cn_chunks c = [])"

lemma sendAll_complete: "snd (sendAll results data) \<Longrightarrow> fst (sendAll results data) = data"
  by (induction results data rule: sendAll.induct) (auto split: if_splits prod.splits)

lemma command_scripted:
  assumes "scripted N store R T now arguments n" "idle_client client" "serve_eval R T now arguments (store n) = Some (reply, s')"
  obtains n2 c' where "store n2 = s'" "content c' = []"
    "command N arguments n client =
       (case reply of RespError message \<Rightarrow> (Inl (RedisFailure (''Redis error: '' @ message)), n2, client\<lparr>rc_connection := None\<rparr>)
        | _ \<Rightarrow> (Inr reply, n2, client\<lparr>rc_connection := Some c'\<rparr>))"
proof -
  obtain c where c: "rc_connection client = Some c" "cn_buffer c = []" "cn_chunks c = []"
    using assms(2) by (auto simp: idle_client_def split: option.splits)
  obtain results n1 where send: "nw_send N (encodeCommand arguments) n = (results, n1)"
    by (cases "nw_send N (encodeCommand arguments) n")
  obtain chunks n2 where receive: "nw_receive N (encodeCommand arguments) n1 = (chunks, n2)"
    by (cases "nw_receive N (encodeCommand arguments) n1")
  have network: "snd (sendAll results (encodeCommand arguments))" "resp_ok reply" "[] \<notin> set chunks"
      "concat chunks = encode_resp reply" "store n2 = s'"
    using assms(1,3) by (simp_all add: scripted_def send receive)
  have sent: "sendAll results (encodeCommand arguments) = (encodeCommand arguments, True)"
    using network(1) sendAll_complete[OF network(1)] by (simp add: prod_eq_iff)
  let ?c = "c\<lparr>cn_chunks := chunks\<rparr>"
  have all: "takeWhile (\<lambda>chunk. chunk \<noteq> []) chunks = chunks"
    using network(3) by (auto simp: takeWhile_eq_all_conv)
  have "cn_chunks ?c = chunks" "cn_buffer ?c = []" by (simp_all add: c(2))
  then have content: "content ?c = encode_resp reply @ []"
    unfolding content_def by (simp only: all network(4) append_Nil append_Nil2)
  then obtain c' where read: "readValue (Suc (length (content ?c))) ?c = Inr (reply, c')" "content c' = []"
    using reads_value[OF content network(2), of "Suc (length (content ?c))"] by auto
  have "command N arguments n client =
       (case reply of RespError message \<Rightarrow> (Inl (RedisFailure (''Redis error: '' @ message)), n2, client\<lparr>rc_connection := None\<rparr>)
        | _ \<Rightarrow> (Inr reply, n2, client\<lparr>rc_connection := Some c'\<rparr>))"
    using read(1) by (simp add: command_def c send sent receive Let_def split: resp.split)
  then show thesis using network(5) read(2) that by blast
qed

text \<open>The lease a client holds, and the job it is of.\<close>

definition lease_of_job :: "job \<Rightarrow> string \<Rightarrow> redis_job_lease \<Rightarrow> bool" where
  "lease_of_job j run_id l \<longleftrightarrow> rl_key l = job_key j \<and> rl_stream l = jb_stream j \<and> rl_group l = jb_group j \<and>
     rl_message_id l = jb_message j \<and> jb_run_key j = ''run:'' @ run_id \<and> jb_run_events j = ''run-events:'' @ run_id \<and>
     jb_platform_events j = ''platform-events''"

lemma publication_of_job:
  "lease_of_job j run_id l \<Longrightarrow>
   job_publication j (publication_of (Some l) run_id event state rlen plen retention) (fence_of l run_id)"
  by (simp add: job_publication_def publication_of_def fence_of_def lease_of_job_def)

lemma publish_replies:
  "publishEventScript R now a s = (reply, s') \<Longrightarrow> (\<exists>message. reply = RespError message) \<or> reply = RespInteger 0 \<or> reply = RespInteger 1"
  by (auto simp: publishEventScript_def fence_refuses_def script_error_def split: option.splits if_splits)

text \<open>
  C27: Publishing an event is one step of the job it belongs to. Over a network that carries the
  command to the server, however it splits the bytes, \<open>publishEvent\<close> succeeds exactly if the server
  accepted the event into the job's history, throws \<open>JobCancellationRequested\<close> exactly if the script
  answered 0, and leaves the server's store as the script did.
\<close>

theorem publishEvent_is_a_step:
  assumes "texts_distinct T" and "idle_client client" and "rc_lease client = Some l" and "lease_of_job j run_id l"
    and "scripted N store R T (jw_now w) (publish_arguments_of T (Some l) run_id event state rlen plen retention) n"
    and "jw_store w = store n"
  shows "case publishEvent N T run_id event state rlen plen retention n client of
    (result, n', client') \<Rightarrow>
      (let a = publication_of (Some l) run_id event state rlen plen retention;
           reply = fst (publishEventScript R (jw_now w) a (store n)) in
       (result = Inr () \<longleftrightarrow> reply = RespInteger 1) \<and> (result = Inl JobCancellationRequested \<longleftrightarrow> reply = RespInteger 0) \<and>
       job_step R j w (w\<lparr>jw_store := store n', jw_log := jw_log w @ accepted R a (fence_of l run_id) reply\<rparr>))"
proof -
  let ?a = "publication_of (Some l) run_id event state rlen plen retention"
  obtain reply s' where script: "publishEventScript R (jw_now w) ?a (store n) = (reply, s')"
    by (cases "publishEventScript R (jw_now w) ?a (store n)")
  have served: "serve_eval R T (jw_now w) (publish_arguments_of T (Some l) run_id event state rlen plen retention) (store n) = Some (reply, s')"
    by (simp add: serve_publish[OF assms(1)] script)
  obtain n2 c' where run: "store n2 = s'" "command N (publish_arguments_of T (Some l) run_id event state rlen plen retention) n client =
       (case reply of RespError message \<Rightarrow> (Inl (RedisFailure (''Redis error: '' @ message)), n2, client\<lparr>rc_connection := None\<rparr>)
        | _ \<Rightarrow> (Inr reply, n2, client\<lparr>rc_connection := Some c'\<rparr>))"
    using command_scripted[OF assms(5,2) served] by metis
  have step: "job_step R j w (w\<lparr>jw_store := s', jw_log := jw_log w @ accepted R ?a (fence_of l run_id) reply\<rparr>)"
    using job_step.publish[OF publication_of_job[OF assms(4)]] script assms(6) by metis
  from publish_replies[OF script] show ?thesis
    using run(1) step by (auto simp: publishEvent_def then_reply_def assms(3) run(2) script Let_def)
qed

subsection \<open>A sample network\<close>

definition client_job :: job where
  "client_job = \<lparr>jb_stream = ''s'', jb_group = ''g'', jb_message = ''m'', jb_run_key = ''run:x'', jb_run_events = ''run-events:x'',
     jb_platform_events = ''platform-events''\<rparr>"

definition sample_lease :: redis_job_lease where
  "sample_lease = \<lparr>rl_key = job_key client_job, rl_stream = ''s'', rl_group = ''g'', rl_message_id = ''m'', rl_consumer = ''w'',
     rl_generation = 1, rl_sequence = 0, rl_duration_ms = 5\<rparr>"

definition sample_texts :: script_texts where
  "sample_texts = \<lparr>tx_reclaim = ''1'', tx_acquire = ''2'', tx_renew = ''3'', tx_publish = ''4''\<rparr>"

definition client_publication :: publish_arguments where
  "client_publication = publication_of (Some sample_lease) ''x'' ''b'' [(''status'', ''running'')] 9 9 60"

text \<open>Replies come in two chunks.\<close>

definition sample_network :: "sample_store network" where
  "sample_network = \<lparr>nw_resolve = (\<lambda>n. (Inr [NotConnected, Connected], n)), nw_address = ''h:1'',
     nw_send = (\<lambda>data n. ([1, int (length data)], n)),
     nw_receive = (\<lambda>data n. case publishEventScript sample_redis 1 client_publication n of
       (reply, s) \<Rightarrow> ([take 1 (encode_resp reply), drop 1 (encode_resp reply)], s)), nw_error = []\<rparr>"

definition acquired_store :: sample_store where
  "acquired_store = snd (acquireJobScript sample_redis 0 ''s'' (job_key client_job) ''run:x'' ''g'' ''w'' ''m'' ''5'' ''a'' sample_delivered)"

definition sample_client :: redis_client where
  "sample_client = \<lparr>rc_connection = Some \<lparr>cn_buffer = [], cn_chunks = []\<rparr>, rc_lease = Some sample_lease\<rparr>"

theorem publishEvent_is_a_step_witness:
  "fst (publishEvent sample_network sample_texts ''x'' ''b'' [(''status'', ''running'')] 9 9 60 acquired_store sample_client) = Inr ()"
proof -
  have reply: "fst (publishEventScript sample_redis 1 client_publication acquired_store) = RespInteger 1" by code_simp
  have "encode_resp (RespInteger 1) = '':1'' @ crlf" by code_simp
  moreover have texts: "texts_distinct sample_texts" by (simp add: texts_distinct_def sample_texts_def)
  moreover have "0 < length (encodeCommand arguments)" for arguments by (simp add: encodeCommand_def)
  ultimately have "scripted sample_network id sample_redis sample_texts 1
      (publish_arguments_of sample_texts (Some sample_lease) ''x'' ''b'' [(''status'', ''running'')] 9 9 60) acquired_store"
    using reply
    by (cases "encodeCommand (publish_arguments_of sample_texts (Some sample_lease) ''x'' ''b'' [(''status'', ''running'')] 9 9 60)";
        cases "tl (encodeCommand (publish_arguments_of sample_texts (Some sample_lease) ''x'' ''b'' [(''status'', ''running'')] 9 9 60))")
      (auto simp: scripted_def serve_publish[OF texts] sample_network_def client_publication_def resp_int_ok_def crlf_def split: prod.splits)
  then have "case publishEvent sample_network sample_texts ''x'' ''b'' [(''status'', ''running'')] 9 9 60 acquired_store sample_client of
      (result, n', client') \<Rightarrow> result = Inr () \<longleftrightarrow> fst (publishEventScript sample_redis 1 client_publication acquired_store) = RespInteger 1"
    using publishEvent_is_a_step[OF texts, where client = sample_client and l = sample_lease and j = client_job and run_id = "''x''"
        and N = sample_network and store = id and R = sample_redis and w = "sample_world acquired_store 1 []" and event = "''b''"
        and state = "[(''status'', ''running'')]" and rlen = 9 and plen = 9 and retention = 60 and n = acquired_store]
    by (auto simp: idle_client_def sample_client_def lease_of_job_def sample_lease_def client_job_def sample_world_def
        client_publication_def Let_def)
  then show ?thesis using reply by (auto split: prod.splits)
qed

end
