(* ===== verification/Stage_Observer.thy ===== *)
theory Stage_Observer
  imports Redis_Client Exporter Pipeline
begin

text \<open>
  The worker's observer of a run, \<open>platform/worker/worker_stage_observer.cpp\<close>: it numbers the events of
  an attempt, publishes them with the state of the run and appends the published ones to a log file.
  The Redis writer (\<open>IRedisEventWriter\<close>), the clock, the files and the JSON library are arguments.
\<close>

subsection \<open>State and environment\<close>

record stage_observer =
  so_job_id :: string
  so_run_id :: string
  so_attempt_id :: string
  so_run_directory :: string
  so_run_length :: nat
  so_platform_length :: nat
  so_retention :: int
  so_last_error_code :: string
  so_last_error :: string
  so_last_error_retryable :: bool
  so_execution_id :: string
  so_sequence :: int

record 'n observer_environment =
  oe_publish :: "string \<Rightarrow> string \<Rightarrow> (string \<times> string) list \<Rightarrow> nat \<Rightarrow> nat \<Rightarrow> int \<Rightarrow> 'n \<Rightarrow> (redis_error + unit) \<times> 'n"
  oe_timestamp :: "'n \<Rightarrow> string \<times> 'n"
  oe_dump :: "json \<Rightarrow> string + string"
  oe_dump_indented :: "json \<Rightarrow> string + string"
  oe_make_directories :: "string \<Rightarrow> 'n \<Rightarrow> (string + unit) \<times> 'n"
  oe_append :: "string \<Rightarrow> string \<Rightarrow> 'n \<Rightarrow> 'n"
  oe_write :: "string \<Rightarrow> string \<Rightarrow> 'n \<Rightarrow> write_outcome \<times> 'n"
  oe_file_size :: "string \<Rightarrow> 'n \<Rightarrow> int option"
  oe_absolute :: "string \<Rightarrow> string"

type_synonym 'n observed = "(redis_error + unit) \<times> stage_observer \<times> 'n"

definition mediaType :: "string \<Rightarrow> string" where
  "mediaType kind =
     (if kind = ''page_image'' then ''image/png''
      else if kind = ''document_markdown'' then ''text/markdown''
      else if kind = ''document_html'' then ''text/html''
      else ''application/json'')"

definition backendOptions :: "backend_options \<Rightarrow> json" where
  "backendOptions options = JObject [(''document'', JString (bo_document options)), (''ocr'', JString (bo_ocr options)),
     (''layout'', JString (bo_layout options)), (''table'', JString (bo_table options)),
     (''registry_config'', JString (bo_registry_config options))]"

definition create_observer ::
  "'n observer_environment \<Rightarrow> string \<Rightarrow> string \<Rightarrow> string \<Rightarrow> string \<Rightarrow> nat \<Rightarrow> nat \<Rightarrow> int \<Rightarrow> string \<Rightarrow> int \<Rightarrow> 'n \<Rightarrow>
   (redis_error + stage_observer) \<times> 'n" where
  "create_observer E job_id run_id attempt_id run_directory run_length platform_length retention execution_id initial_sequence n =
     (if retention \<le> 0 then (Inl (RedisFailure ''run retention must be positive''), n)
      else
        case oe_make_directories E (path_join run_directory ''artifacts'') n of
          (Inl message, n) \<Rightarrow> (Inl (RedisFailure message), n)
        | (Inr _, n) \<Rightarrow>
            (Inr \<lparr>so_job_id = job_id, so_run_id = run_id, so_attempt_id = attempt_id, so_run_directory = run_directory,
              so_run_length = run_length, so_platform_length = platform_length, so_retention = retention,
              so_last_error_code = [], so_last_error = [], so_last_error_retryable = False, so_execution_id = execution_id,
              so_sequence = initial_sequence\<rparr>, n))"

subsection \<open>\<open>publish\<close>\<close>

text \<open>The event as it is published.\<close>

definition stamped_event :: "stage_observer \<Rightarrow> string \<Rightarrow> json \<Rightarrow> json" where
  "stamped_event o' stamp event =
     set_if (so_execution_id o' \<noteq> []) ''execution_id'' (JString (so_execution_id o'))
     (json_set ''timestamp'' (JString stamp)
     (json_set ''sequence'' (JInt (so_sequence o'))
     (json_set ''attempt_id'' (JString (so_attempt_id o'))
     (json_set ''run_id'' (JString (so_run_id o'))
     (json_set ''job_id'' (JString (so_job_id o'))
     (json_set ''event_id'' (JString (''evt_'' @ so_run_id o' @ ''_'' @ int_to_string (so_sequence o')))
     (json_set ''schema_version'' (JInt 1) event)))))))"

text \<open>The map of the run's state: \<open>state[key] = v\<close> keeps it sorted.\<close>

definition put :: "string \<Rightarrow> string \<Rightarrow> (string \<times> string) list \<Rightarrow> (string \<times> string) list" where
  "put key v state = amap_alter (\<lambda>_. v) key state"

definition status_of_type :: "string \<Rightarrow> (string \<times> string) list \<Rightarrow> (string \<times> string) list" where
  "status_of_type kind state =
     (if kind = ''job_succeeded'' then put ''status'' ''succeeded'' state
      else if kind = ''job_failed'' then put ''status'' ''failed'' state
      else if kind = ''job_cancelled'' then put ''error'' [] (put ''status'' ''cancelled'' state)
      else if kind = ''job_started'' \<or> kind = ''stage_started'' then put ''status'' ''running'' state
      else state)"

definition run_state :: "stage_observer \<Rightarrow> string \<Rightarrow> json \<Rightarrow> string \<Rightarrow> (string \<times> string) list" where
  "run_state o' encoded event stamp =
     (let kind = (case event_string event ''type'' of None \<Rightarrow> [] | Some kind \<Rightarrow> kind);
          state = status_of_type kind (put ''updated_at'' stamp (put ''last_event'' encoded []));
          state = (if so_execution_id o' \<noteq> [] then put ''execution_id'' (so_execution_id o') state else state);
          state = (if kind = ''job_started'' then put ''error'' [] (put ''stage'' [] state) else state);
          state = (case event_string event ''stage'' of None \<Rightarrow> state | Some stage \<Rightarrow> put ''stage'' stage state)
      in case json_get event ''error'' of
           None \<Rightarrow> state
         | Some error \<Rightarrow> put ''error'' (case event_string error ''message'' of None \<Rightarrow> [] | Some m \<Rightarrow> m) state)"

definition publish :: "'n observer_environment \<Rightarrow> json \<Rightarrow> stage_observer \<Rightarrow> 'n \<Rightarrow> 'n observed" where
  "publish E event o' n =
     (let o' = o'\<lparr>so_sequence := so_sequence o' + 1\<rparr> in
      case oe_timestamp E n of
        (stamp, n) \<Rightarrow>
          let event = stamped_event o' stamp event in
          (case oe_dump E event of
             Inl message \<Rightarrow> (Inl (RedisFailure message), o', n)
           | Inr encoded \<Rightarrow>
               (case oe_publish E (so_run_id o') encoded (run_state o' encoded event stamp) (so_run_length o')
                   (so_platform_length o') (so_retention o') n of
                  (Inl e, n) \<Rightarrow> (Inl e, o', n)
                | (Inr _, n) \<Rightarrow> (Inr (), o', oe_append E (path_join (so_run_directory o') ''events.ndjson'') (encoded @ line_end) n))))"

subsection \<open>The events\<close>

definition error_object :: "string \<Rightarrow> string \<Rightarrow> bool \<Rightarrow> json" where
  "error_object code message retryable =
     JObject [(''code'', JString code), (''message'', JString message), (''retryable'', JBool retryable)]"

definition job_event :: "string \<Rightarrow> string \<Rightarrow> stage_observer \<Rightarrow> json" where
  "job_event kind message o' =
     (let effective = (if message = [] \<and> kind = ''job_failed'' then so_last_error o' else message);
          uses_stage_error = (so_last_error o' \<noteq> [] \<and> effective = so_last_error o')
      in set_if (effective \<noteq> []) ''error''
           (error_object (if uses_stage_error then so_last_error_code o' else ''worker_failure'') effective
             (uses_stage_error \<and> so_last_error_retryable o'))
           (JObject [(''type'', JString kind)]))"

definition publishJobEvent :: "'n observer_environment \<Rightarrow> string \<Rightarrow> string \<Rightarrow> stage_observer \<Rightarrow> 'n \<Rightarrow> 'n observed" where
  "publishJobEvent E kind message o' n = publish E (job_event kind message o') o' n"

definition model_json :: "model_provenance \<Rightarrow> json" where
  "model_json m = set_if (mp_profile m \<noteq> []) ''profile'' (JString (mp_profile m))
     (JObject [(''stage'', JString (mp_stage m)), (''backend'', JString (mp_backend m)), (''role'', JString (mp_role m)),
       (''path'', JString (mp_path m))])"

definition onRunConfigured :: "'n observer_environment \<Rightarrow> run_provenance \<Rightarrow> stage_observer \<Rightarrow> 'n \<Rightarrow> 'n observed" where
  "onRunConfigured E provenance =
     publish E (JObject [(''type'', JString ''run_configured''),
       (''engine'', JObject [(''name'', JString (rp_engine_name provenance)), (''version'', JString (rp_engine_version provenance)),
          (''git_revision'', JString (rp_git_revision provenance))]),
       (''backends'', JObject [(''requested'', backendOptions (br_requested (rp_backends provenance))),
          (''resolved'', backendOptions (br_resolved (rp_backends provenance))),
          (''config_source'', JString (br_config_source (rp_backends provenance)))]),
       (''models'', JArray (map model_json (rp_models provenance)))])"

definition onStageWarning :: "'n observer_environment \<Rightarrow> diagnostic \<Rightarrow> stage_observer \<Rightarrow> 'n \<Rightarrow> 'n observed" where
  "onStageWarning E d =
     publish E (set_if (dg_page_number d > 0) ''page_number'' (JInt (dg_page_number d))
       (JObject [(''type'', JString ''stage_warning''), (''stage'', JString (dg_stage d)),
         (''warning'', JObject [(''code'', JString (dg_code d)), (''message'', JString (dg_message d)),
            (''details'', JObject (map (\<lambda>(key, v). (key, JString v)) (dg_details d)))])]))"

definition onStageStarted :: "'n observer_environment \<Rightarrow> string \<Rightarrow> string \<Rightarrow> stage_observer \<Rightarrow> 'n \<Rightarrow> 'n observed" where
  "onStageStarted E stage backend =
     publish E (JObject [(''type'', JString ''stage_started''), (''stage'', JString stage), (''backend'', JString backend)])"

definition onStageProgress :: "'n observer_environment \<Rightarrow> string \<Rightarrow> int \<Rightarrow> int \<Rightarrow> stage_observer \<Rightarrow> 'n \<Rightarrow> 'n observed" where
  "onStageProgress E stage completed n_pages =
     publish E (JObject [(''type'', JString ''stage_progress''), (''stage'', JString stage),
       (''progress'', JObject [(''completed'', JInt completed), (''total'', JInt n_pages)])])"

definition writeJsonAtomically :: "'n observer_environment \<Rightarrow> string \<Rightarrow> json \<Rightarrow> 'n \<Rightarrow> (redis_error + unit) \<times> 'n" where
  "writeJsonAtomically E destination v n =
     (case oe_dump_indented E v of
        Inl message \<Rightarrow> (Inl (RedisFailure message), n)
      | Inr printed \<Rightarrow>
          (case oe_write E destination (printed @ line_end) n of
             (OpenFailed, n) \<Rightarrow> (Inl (RedisFailure (''failed to open artifact manifest: '' @ destination)), n)
           | (WriteFailed, n) \<Rightarrow> (Inl (RedisFailure (''failed to publish artifact manifest: '' @ destination)), n)
           | (Written, n) \<Rightarrow> (Inr (), n)))"

definition artifact_json :: "'n observer_environment \<Rightarrow> string \<Rightarrow> string \<Rightarrow> string \<Rightarrow> string \<Rightarrow> int \<Rightarrow> string \<Rightarrow> stage_observer \<Rightarrow> 'n \<Rightarrow> json" where
  "artifact_json E artifact_id stage kind path page_number stamp o' n =
     set_if (page_number > 0) ''page_number'' (JInt page_number)
     (set_if (so_execution_id o' \<noteq> []) ''execution_id'' (JString (so_execution_id o'))
     (JObject [(''schema_version'', JInt 1), (''artifact_id'', JString artifact_id), (''job_id'', JString (so_job_id o')),
       (''run_id'', JString (so_run_id o')), (''attempt_id'', JString (so_attempt_id o')), (''stage'', JString stage),
       (''kind'', JString kind), (''uri'', JString (''file://'' @ oe_absolute E path)), (''media_type'', JString (mediaType kind)),
       (''size_bytes'', JInt (case oe_file_size E path n of None \<Rightarrow> 0 | Some bytes \<Rightarrow> bytes)), (''created_at'', JString stamp)]))"

definition onArtifactReady ::
  "'n observer_environment \<Rightarrow> string \<Rightarrow> string \<Rightarrow> string \<Rightarrow> int \<Rightarrow> stage_observer \<Rightarrow> 'n \<Rightarrow> 'n observed" where
  "onArtifactReady E stage kind path page_number o' n =
     (let artifact_id = ''artifact_'' @ stage @ ''_'' @ kind @ (if page_number > 0 then ''_page_'' @ int_to_string page_number else []) in
      case oe_timestamp E n of
        (stamp, n1) \<Rightarrow>
          (case writeJsonAtomically E (path_join (path_join (so_run_directory o') ''artifacts'') (artifact_id @ ''.json''))
              (artifact_json E artifact_id stage kind path page_number stamp o' n) n1 of
             (Inl e, n) \<Rightarrow> (Inl e, o', n)
           | (Inr _, n) \<Rightarrow>
               publish E (JObject [(''type'', JString ''artifact_ready''), (''stage'', JString stage),
                 (''artifact_id'', JString artifact_id)]) o' n))"

definition onStageCompleted :: "'n observer_environment \<Rightarrow> string \<Rightarrow> int \<Rightarrow> stage_observer \<Rightarrow> 'n \<Rightarrow> 'n observed" where
  "onStageCompleted E stage duration_ms =
     publish E (JObject [(''type'', JString ''stage_completed''), (''stage'', JString stage), (''duration_ms'', JInt duration_ms)])"

definition onStageFailed ::
  "'n observer_environment \<Rightarrow> string \<Rightarrow> string \<Rightarrow> string \<Rightarrow> bool \<Rightarrow> stage_observer \<Rightarrow> 'n \<Rightarrow> 'n observed" where
  "onStageFailed E stage code message retryable o' n =
     publish E (JObject [(''type'', JString ''stage_failed''), (''stage'', JString stage),
         (''error'', error_object code message retryable)])
       (o'\<lparr>so_last_error_code := code, so_last_error := message, so_last_error_retryable := retryable\<rparr>) n"

text \<open>The observer called with the events of a run; the duration of a stage is a reading of the clock.\<close>

definition observe :: "'n observer_environment \<Rightarrow> int \<Rightarrow> event \<Rightarrow> stage_observer \<Rightarrow> 'n \<Rightarrow> 'n observed" where
  "observe E duration_ms e =
     (case e of
        StageStarted stage backend _ \<Rightarrow> onStageStarted E stage backend
      | StageProgress stage completed n_pages \<Rightarrow> onStageProgress E stage completed n_pages
      | ArtifactReady stage kind path page_number \<Rightarrow> onArtifactReady E stage kind path page_number
      | StageCompleted stage \<Rightarrow> onStageCompleted E stage duration_ms
      | StageFailed stage code message retryable \<Rightarrow> onStageFailed E stage code message retryable
      | StageWarning d \<Rightarrow> onStageWarning E d
      | RunConfigured provenance \<Rightarrow> onRunConfigured E provenance)"

text \<open>A run stops at the first event its observer throws on.\<close>

fun observe_all :: "'n observer_environment \<Rightarrow> (event \<times> int) list \<Rightarrow> stage_observer \<Rightarrow> 'n \<Rightarrow> 'n observed" where
  "observe_all E [] o' n = (Inr (), o', n)"
| "observe_all E ((e, duration_ms) # es) o' n =
     (case observe E duration_ms e o' n of
        (Inl err, o', n) \<Rightarrow> (Inl err, o', n)
      | (Inr _, o', n) \<Rightarrow> observe_all E es o' n)"

subsection \<open>A leased observer is never refused\<close>

text \<open>The Redis client as the observer's writer, with the network of \<open>publishEvent_is_a_step\<close> left out.\<close>

definition script_writer ::
  "'s redis_server \<Rightarrow> int \<Rightarrow> redis_job_lease \<Rightarrow> string \<Rightarrow> string \<Rightarrow> (string \<times> string) list \<Rightarrow> nat \<Rightarrow> nat \<Rightarrow> int \<Rightarrow> 's \<Rightarrow>
   (redis_error + unit) \<times> 's" where
  "script_writer R now l run_id event state run_length platform_length retention s =
     (case publishEventScript R now (publication_of (Some l) run_id event state run_length platform_length retention) s of
        (RespInteger k, s') \<Rightarrow> (if k = 0 then Inl JobCancellationRequested else Inr (), s')
      | (RespError message, s') \<Rightarrow> (Inl (RedisFailure (''Redis error: '' @ message)), s')
      | (_, s') \<Rightarrow> (Inr (), s'))"

text \<open>The job's lease is \<open>l\<close>, runs until after \<open>now\<close>, and \<open>q\<close> is the last sequence number it took.\<close>

definition leased :: "'s redis_server \<Rightarrow> job \<Rightarrow> redis_job_lease \<Rightarrow> int \<Rightarrow> int \<Rightarrow> 's \<Rightarrow> bool" where
  "leased R j l now q s \<longleftrightarrow>
     rs_hget R s (job_key j) ''generation'' = Some (int_to_string (rl_generation l)) \<and>
     rs_hget R s (job_key j) ''consumer'' = Some (rl_consumer l) \<and>
     (\<exists>until. number_field R s (job_key j) ''until_ms'' = Some until \<and> now < until) \<and>
     number_field R s (job_key j) ''sequence'' = Some q \<and>
     rs_pending R s (jb_stream j) (jb_group j) (jb_message j) = Some (rl_consumer l)"

lemma stamped_sequence: "is_object event \<Longrightarrow> event_number (stamped_event o' stamp event) ''sequence'' = Some (so_sequence o')"
  by (simp add: event_number_def stamped_event_def)

lemma stamped_type: "is_object event \<Longrightarrow> event_string (stamped_event o' stamp event) ''type'' = event_string event ''type''"
  by (simp add: event_string_def stamped_event_def)

lemma leased_publication:
  assumes "redis_laws R" "job_ok j" "lease_of_job j run_id l" "leased R j l now q s"
    and "rs_decode R encoded = Some event" "event_number event ''sequence'' = Some n" "q < n"
    and "rs_get R s (''run-cancel:'' @ run_id) = None"
    and "wrong_type R s [(jb_run_events j, ''stream''), (jb_platform_events j, ''stream''), (jb_run_key j, ''hash'')] = None"
  obtains s' where "script_writer R now l run_id encoded state rlen plen retention s = (Inr (), s')"
    "\<And>t. \<not> terminal_event event \<Longrightarrow> leased R j l t q s \<Longrightarrow> leased R j l t n s'"
proof -
  let ?a = "publication_of (Some l) run_id encoded state rlen plen retention"
  have publication: "job_publication j ?a (fence_of l run_id)" using assms(3) by (rule publication_of_job)
  have fence: "fe_key (fence_of l run_id) = job_key j" "fe_stream (fence_of l run_id) = jb_stream j"
      "fe_group (fence_of l run_id) = jb_group j" "fe_message_id (fence_of l run_id) = jb_message j"
      "fe_generation (fence_of l run_id) = int_to_string (rl_generation l)" "fe_consumer (fence_of l run_id) = rl_consumer l"
    using assms(3) by (simp_all add: fence_of_def lease_of_job_def)
  have cancel: "rs_get R s (fe_cancel_key (fence_of l run_id)) = None"
    by (simp only: fence_of_def publish_fence.simps assms(8))
  have "fence_refuses R now (fence_of l run_id) event s = None"
    using assms(4,7) by (auto simp: fence_refuses_def leased_def fence cancel assms(6))
  moreover have "pu_fence ?a = Some (fence_of l run_id)" "pu_event ?a = encoded" "pu_run_events ?a = jb_run_events j"
      "pu_platform_events ?a = jb_platform_events j" "pu_run_key ?a = jb_run_key j"
    using assms(3) by (simp_all add: publication_of_def lease_of_job_def)
  ultimately have accepted: "fst (publishEventScript R now ?a s) = RespInteger 1"
    using assms(9) by (simp add: publishEventScript_def assms(5))
  obtain s' where s': "publishEventScript R now ?a s = (RespInteger 1, s')"
    using accepted by (cases "publishEventScript R now ?a s") auto
  have decoded: "rs_decode R (pu_event ?a) = Some event" by (simp add: publication_of_def assms(5))
  have "rs_hget R s' (job_key j) = (rs_hget R s (job_key j))(''sequence'' \<mapsto> int_to_string n) \<and>
      rs_pending R s' (jb_stream j) = rs_pending R s (jb_stream j)" if "\<not> terminal_event event"
    using publish_effect[OF assms(1,2) publication s'] decoded assms(6) that by auto
  then have "leased R j l t n s'" if "\<not> terminal_event event" "leased R j l t q s" for t
    using that by (auto simp: leased_def number_field_lease lease_number_def tonumber_int)
  moreover have "script_writer R now l run_id encoded state rlen plen retention s = (Inr (), s')"
    by (simp add: script_writer_def s')
  ultimately show thesis using that by blast
qed

text \<open>
  A worker never trips over its own numbering. While its lease runs and the run is not
  cancelled, every event its observer sends is accepted, and the observer goes on with the number
  the store now holds, so that the next one is accepted too.
\<close>

lemma leased_observer_publishes:
  assumes "redis_laws R" and "job_ok j" and "lease_of_job j (so_run_id o') l"
    and "leased R j l now q s" and "q \<le> so_sequence o'" and "is_object event"
    and "oe_publish E = script_writer R now l" and "oe_timestamp E s = (stamp, s)"
    and "oe_dump E (stamped_event (o'\<lparr>so_sequence := so_sequence o' + 1\<rparr>) stamp event) = Inr encoded"
    and "rs_decode R encoded = Some (stamped_event (o'\<lparr>so_sequence := so_sequence o' + 1\<rparr>) stamp event)"
    and "rs_get R s (''run-cancel:'' @ so_run_id o') = None"
    and "wrong_type R s [(jb_run_events j, ''stream''), (jb_platform_events j, ''stream''), (jb_run_key j, ''hash'')] = None"
    and "oe_append E = (\<lambda>_ _ s. s)"
  shows "case publish E event o' s of
    (result, after, s') \<Rightarrow> result = Inr () \<and> so_sequence after = so_sequence o' + 1 \<and>
      (terminal_event event \<or> leased R j l now (so_sequence after) s')"
proof -
  let ?o = "o'\<lparr>so_sequence := so_sequence o' + 1\<rparr>"
  have sequence: "event_number (stamped_event ?o stamp event) ''sequence'' = Some (so_sequence o' + 1)"
    using stamped_sequence[OF assms(6), of ?o] by simp
  have later: "q < so_sequence o' + 1" using assms(5) by simp
  have terminal: "terminal_event (stamped_event ?o stamp event) = terminal_event event"
    by (simp add: terminal_event_def stamped_type[OF assms(6)])
  obtain s' where s': "script_writer R now l (so_run_id o') encoded (run_state ?o encoded (stamped_event ?o stamp event) stamp)
      (so_run_length o') (so_platform_length o') (so_retention o') s = (Inr (), s')"
    "\<not> terminal_event event \<Longrightarrow> leased R j l now (so_sequence o' + 1) s'"
    using leased_publication[OF assms(1-4,10) sequence later assms(11,12)] assms(4) unfolding terminal by metis
  then show ?thesis
    by (auto simp: publish_def Let_def assms(7,8,9,13))
qed

definition sample_observer :: stage_observer where
  "sample_observer = \<lparr>so_job_id = ''j'', so_run_id = ''x'', so_attempt_id = ''a'', so_run_directory = ''d'', so_run_length = 9,
     so_platform_length = 9, so_retention = 60, so_last_error_code = [], so_last_error = [], so_last_error_retryable = False,
     so_execution_id = ''execution_1'', so_sequence = 0\<rparr>"

definition started_event :: json where
  "started_event = JObject [(''type'', JString ''stage_started''), (''stage'', JString ''text''), (''backend'', JString ''noop'')]"

definition stamped_sample :: json where
  "stamped_sample = stamped_event (sample_observer\<lparr>so_sequence := so_sequence sample_observer + 1\<rparr>) ''t'' started_event"

text \<open>The sample server, on which the text \<open>x\<close> is the event.\<close>

definition event_redis :: "sample_store redis_server" where
  "event_redis = sample_redis\<lparr>rs_decode := \<lambda>s. if s = ''x'' then Some stamped_sample else None\<rparr>"

definition sample_writer :: "sample_store observer_environment" where
  "sample_writer = \<lparr>oe_publish = script_writer event_redis 1 sample_lease, oe_timestamp = (\<lambda>s. (''t'', s)), oe_dump = (\<lambda>_. Inr ''x''),
     oe_dump_indented = (\<lambda>_. Inr []), oe_make_directories = (\<lambda>_ s. (Inr (), s)), oe_append = (\<lambda>_ _ s. s),
     oe_write = (\<lambda>_ _ s. (Written, s)), oe_file_size = (\<lambda>_ _. None), oe_absolute = id\<rparr>"

lemma event_redis_laws: "redis_laws event_redis"
  using sample_laws by (simp add: event_redis_def redis_laws_def field_laws_def pending_laws_def)

lemma acquired_store_fields:
  "ss_hashes acquired_store (job_key client_job) ''generation'' = Some ''1''" "ss_hashes acquired_store (job_key client_job) ''consumer'' = Some ''w''"
  "ss_hashes acquired_store (job_key client_job) ''until_ms'' = Some ''5''" "ss_hashes acquired_store (job_key client_job) ''sequence'' = Some ''0''"
  "ss_held acquired_store ''s'' ''g'' ''m'' = Some ''w''"
  by code_simp+

lemma leased_observer_publishes_witness:
  "case publish sample_writer started_event sample_observer acquired_store of (result, after, s') \<Rightarrow>
     result = Inr () \<and> leased event_redis client_job sample_lease 1 1 s'"
proof -
  have numbers: "tonumber ''5'' = Some 5" "tonumber ''0'' = Some 0" "int_to_string 1 = ''1''" by code_simp+
  have leased: "leased event_redis client_job sample_lease 1 0 acquired_store"
    by (auto simp: leased_def event_redis_def sample_redis_def sample_lease_def number_field_def acquired_store_fields numbers
        client_job_def[THEN arg_cong, of jb_stream] client_job_def[THEN arg_cong, of jb_group] client_job_def[THEN arg_cong, of jb_message])
  have ok: "job_ok client_job" by (simp add: job_ok_def client_job_def job_key_def)
  have lease: "lease_of_job client_job (so_run_id sample_observer) sample_lease"
    by (simp add: lease_of_job_def client_job_def sample_lease_def sample_observer_def)
  have "wrong_type event_redis acquired_store [(jb_run_events client_job, ''stream''), (jb_platform_events client_job, ''stream''),
      (jb_run_key client_job, ''hash'')] = None" "is_object started_event" "\<not> terminal_event started_event"
    by (simp_all add: wrong_type_def event_redis_def sample_redis_def started_event_def terminal_event_def event_string_def
        terminal_type_def)
  then show ?thesis
    using leased_observer_publishes[OF event_redis_laws ok lease leased, where E = sample_writer and event = started_event and
        stamp = "''t''" and encoded = "''x''"]
    by (auto simp: sample_writer_def event_redis_def sample_redis_def stamped_sample_def sample_observer_def)
qed

end
