(* ===== verification/Document_Engine.thy ===== *)
theory Document_Engine
  imports Service_Factory Delivery
begin

text \<open>
  The engine of the C++ SDK, \<open>sdk/cpp/src/document_engine.cpp\<close>: its services are created once, a run
  at a time uses them. Then the worker's cache of engines, \<open>platform/worker/document_engine_cache.cpp\<close>.
\<close>

subsection \<open>Observers that may throw\<close>

text \<open>An observer handles an event, or throws; then it sees no more of the run.\<close>

type_synonym 'o event_handler = "event \<Rightarrow> 'o \<Rightarrow> (string + unit) \<times> 'o"

fun notify :: "'o event_handler \<Rightarrow> event list \<Rightarrow> 'o \<Rightarrow> (string + unit) \<times> 'o" where
  "notify handler [] o' = (Inr (), o')"
| "notify handler (e # es) o' =
     (case handler e o' of (Inl what, o') \<Rightarrow> (Inl what, o') | (Inr _, o') \<Rightarrow> notify handler es o')"

definition null_handler :: "'o event_handler" where
  "null_handler e o' = (Inr (), o')"

subsection \<open>\<open>DocumentEngine\<close>\<close>

record document_engine =
  en_config :: engine_config
  en_creation :: service_creation
  en_parsing :: bool

datatype engine_state = MovedFrom | InitializationFailed | Parsing | Ready

definition create_engine :: "build_info \<Rightarrow> registry_reader \<Rightarrow> backend_registry \<Rightarrow> engine_config \<Rightarrow> document_engine" where
  "create_engine build reader registry config =
     \<lparr>en_config = config, en_creation = createConfiguredServices build reader config registry, en_parsing = False\<rparr>"

definition create_default_engine :: "build_info \<Rightarrow> registry_reader \<Rightarrow> built_backends \<Rightarrow> engine_config \<Rightarrow> document_engine" where
  "create_default_engine build reader built config =
     create_engine build reader (createDefaultBackendRegistry built config) config"

text \<open>\<open>None\<close>: an engine that was moved from.\<close>

definition isReady :: "document_engine option \<Rightarrow> bool" where
  "isReady engine = (case engine of None \<Rightarrow> False | Some en \<Rightarrow> ok_status (sc_status (en_creation en)))"

definition state_of :: "document_engine option \<Rightarrow> engine_state" where
  "state_of engine =
     (case engine of
        None \<Rightarrow> MovedFrom
      | Some en \<Rightarrow>
          if \<not> ok_status (sc_status (en_creation en)) then InitializationFailed
          else if en_parsing en then Parsing else Ready)"

definition initializationStatus :: "document_engine option \<Rightarrow> status" where
  "initializationStatus engine =
     (case engine of
        None \<Rightarrow> status_error ''engine.moved_from'' ''document engine has no implementation'' ''configure'' False
      | Some en \<Rightarrow> sc_status (en_creation en))"

definition pipelineOptions :: "run_options \<Rightarrow> backend_options \<Rightarrow> run_options" where
  "pipelineOptions options backends = options\<lparr>ro_backends := backends\<rparr>"

record parse_result =
  pr_status :: status
  pr_document :: "(parsed_document \<times> pipeline_artifacts \<times> run_provenance) option"

definition failed_result :: "status \<Rightarrow> parse_result" where
  "failed_result st = \<lparr>pr_status = st, pr_document = None\<rparr>"

definition parse_exception :: "string \<Rightarrow> parse_result" where
  "parse_exception what =
     failed_result (status_error ''engine.parse_exception'' (''document parsing raised an exception: '' @ what) ''engine'' False)"

text \<open>The run of \<open>DocumentPipeline::parse\<close> on the engine's services, with the events it sends.\<close>

definition engine_run :: "environment \<Rightarrow> run_options \<Rightarrow> document_engine \<Rightarrow>
    (run_error + parsed_document \<times> pipeline_artifacts \<times> run_provenance) \<times> pipe_state" where
  "engine_run env options en =
     parseInternal env (pipelineOptions options (ec_backends (en_config en)))
       (GivenServices (sc_services (en_creation en)) (sc_provenance (en_creation en))) Pipeline.initial_state"

definition run_result :: "run_error + parsed_document \<times> pipeline_artifacts \<times> run_provenance \<Rightarrow> parse_result option" where
  "run_result r =
     (case r of
        Inr outcome \<Rightarrow> Some \<lparr>pr_status = status_ok, pr_document = Some outcome\<rparr>
      | Inl (Returned st) \<Rightarrow> Some (failed_result st)
      | Inl (Thrown what) \<Rightarrow> Some (parse_exception what)
      | Inl Diverged \<Rightarrow> None)"

text \<open>
  A call enters the engine, unless it is not ready or another call holds it (\<open>compare_exchange_strong\<close>),
  and leaves it when its lease is destroyed.
\<close>

definition enter_engine :: "document_engine option \<Rightarrow> parse_result + document_engine" where
  "enter_engine engine =
     (if \<not> isReady engine then Inl (failed_result (initializationStatus engine))
      else
        case engine of
          None \<Rightarrow> Inl (failed_result (initializationStatus engine))
        | Some en \<Rightarrow>
            if en_parsing en
            then Inl (failed_result
              (status_error ''engine.busy'' ''document engine is already parsing another document'' ''engine'' True))
            else Inr (en\<lparr>en_parsing := True\<rparr>))"

definition leave_engine :: "document_engine \<Rightarrow> document_engine" where
  "leave_engine en = en\<lparr>en_parsing := False\<rparr>"

text \<open>
  \<open>None\<close>: the call does not return. What a failed run leaves in the result's document, artifacts and
  provenance is not kept. A handler that throws ends the run, and the call catches its exception.
\<close>

definition engine_parse ::
  "environment \<Rightarrow> run_options \<Rightarrow> 'o event_handler \<Rightarrow> document_engine option \<Rightarrow> 'o \<Rightarrow>
   (parse_result \<times> document_engine option \<times> 'o) option" where
  "engine_parse env options handler engine o' =
     (case enter_engine engine of
        Inl refused \<Rightarrow> Some (refused, engine, o')
      | Inr en \<Rightarrow>
          (case engine_run env options en of
             (r, s) \<Rightarrow>
               (case notify handler (ps_events s) o' of
                  (Inl what, o') \<Rightarrow> Some (parse_exception what, Some (leave_engine en), o')
                | (Inr _, o') \<Rightarrow>
                    map_option (\<lambda>result. (result, Some (leave_engine en), o')) (run_result r))))"

definition quiet_parse :: "environment \<Rightarrow> run_options \<Rightarrow> document_engine option \<Rightarrow> (parse_result \<times> document_engine option) option" where
  "quiet_parse env options engine =
     map_option (\<lambda>(result, engine, _). (result, engine)) (engine_parse env options null_handler engine ())"

subsection \<open>\<open>DocumentEngineCache\<close>\<close>

text \<open>What the file system says of a path, and \<open>lexically_normal\<close>.\<close>

record path_environment =
  px_absolute :: "string \<Rightarrow> string option"
  px_canonical :: "string \<Rightarrow> string option"
  px_normal :: "string \<Rightarrow> string"

definition normalizedPath :: "path_environment \<Rightarrow> string \<Rightarrow> string" where
  "normalizedPath px path =
     (if path = [] then []
      else
        let absolute = (case px_absolute px path of None \<Rightarrow> path | Some p \<Rightarrow> p)
        in case px_canonical px absolute of None \<Rightarrow> px_normal px absolute | Some p \<Rightarrow> p)"

definition normalizedBackends :: "path_environment \<Rightarrow> backend_options \<Rightarrow> backend_options" where
  "normalizedBackends px backends = backends\<lparr>bo_registry_config := normalizedPath px (bo_registry_config backends)\<rparr>"

definition sameBackends :: "backend_options \<Rightarrow> backend_options \<Rightarrow> bool" where
  "sameBackends a b \<longleftrightarrow> bo_document a = bo_document b \<and> bo_ocr a = bo_ocr b \<and> bo_layout a = bo_layout b \<and>
     bo_table a = bo_table b \<and> bo_registry_config a = bo_registry_config b"

definition effectiveBackendOptions :: "backend_options \<Rightarrow> backend_options \<Rightarrow> backend_options" where
  "effectiveBackendOptions defaults requested =
     (if bo_registry_config requested = [] then requested\<lparr>bo_registry_config := bo_registry_config defaults\<rparr> else requested)"

record engine_cache =
  eh_base :: engine_config
  eh_capacity :: nat
  eh_entries :: "(backend_options \<times> document_engine) list"

definition create_cache :: "engine_config \<Rightarrow> nat \<Rightarrow> string + engine_cache" where
  "create_cache base capacity =
     (if capacity = 0 then Inl ''document engine cache capacity must be positive''
      else Inr \<lparr>eh_base = base, eh_capacity = capacity, eh_entries = []\<rparr>)"

text \<open>The search for an entry: the entry, and the others in order.\<close>

fun take_entry :: "backend_options \<Rightarrow> (backend_options \<times> document_engine) list \<Rightarrow>
    ((backend_options \<times> document_engine) \<times> (backend_options \<times> document_engine) list) option" where
  "take_entry wanted [] = None"
| "take_entry wanted (e # es) =
     (if sameBackends (fst e) wanted then Some (e, es)
      else map_option (\<lambda>(found, rest). (found, e # rest)) (take_entry wanted es))"

record engine_lookup =
  el_engine :: "document_engine option"
  el_status :: status
  el_hit :: bool

definition cache_get ::
  "path_environment \<Rightarrow> (engine_config \<Rightarrow> document_engine) \<Rightarrow> backend_options \<Rightarrow> engine_cache \<Rightarrow> engine_lookup \<times> engine_cache" where
  "cache_get px build_engine backends cache =
     (let normalized = normalizedBackends px backends in
      case take_entry normalized (eh_entries cache) of
        Some (entry, others) \<Rightarrow>
          (\<lparr>el_engine = Some (snd entry), el_status = status_ok, el_hit = True\<rparr>, cache\<lparr>eh_entries := entry # others\<rparr>)
      | None \<Rightarrow>
          let engine = build_engine ((eh_base cache)\<lparr>ec_backends := normalized\<rparr>) in
          if \<not> isReady (Some engine)
          then (\<lparr>el_engine = None, el_status = initializationStatus (Some engine), el_hit = False\<rparr>, cache)
          else
            let kept = (if length (eh_entries cache) = eh_capacity cache then butlast (eh_entries cache) else eh_entries cache)
            in (\<lparr>el_engine = Some engine, el_status = status_ok, el_hit = False\<rparr>,
                cache\<lparr>eh_entries := (normalized, engine) # kept\<rparr>))"

definition lookup_ok :: "engine_lookup \<Rightarrow> bool" where
  "lookup_ok l \<longleftrightarrow> el_engine l \<noteq> None \<and> ok_status (el_status l)"

subsection \<open>The cache keeps the engines used last\<close>

definition cache_ok :: "engine_cache \<Rightarrow> bool" where
  "cache_ok cache \<longleftrightarrow> 0 < eh_capacity cache \<and> length (eh_entries cache) \<le> eh_capacity cache \<and>
     distinct (map fst (eh_entries cache)) \<and> list_all (\<lambda>(_, en). isReady (Some en)) (eh_entries cache)"

lemma sameBackends_iff: "sameBackends a b \<longleftrightarrow> a = (b :: backend_options)"
  by (cases a; cases b) (auto simp: sameBackends_def)

lemma take_entry_None: "take_entry wanted es = None \<longleftrightarrow> wanted \<notin> set (map fst es)"
  by (induction es) (auto simp: sameBackends_iff)

lemma take_entry_Some:
  "take_entry wanted es = Some (e, rest) \<Longrightarrow> fst e = wanted \<and> e \<in> set es \<and> mset es = add_mset e (mset rest) \<and>
     map fst rest = remove1 wanted (map fst es)"
  by (induction es arbitrary: rest) (auto simp: sameBackends_iff split: if_splits)

lemma butlast_keys: "map fst (butlast es) = butlast (map fst es)"
  by (rule map_butlast)

lemma cache_get_hit:
  assumes "take_entry (normalizedBackends px backends) (eh_entries cache) = Some (entry, others)"
  shows "cache_get px build_engine backends cache =
    (\<lparr>el_engine = Some (snd entry), el_status = status_ok, el_hit = True\<rparr>, cache\<lparr>eh_entries := entry # others\<rparr>)"
  using assms by (simp add: cache_get_def)

lemma take_remove1_full:
  "length xs \<le> n \<Longrightarrow> x \<in> set xs \<Longrightarrow> take n (x # remove1 x xs) = x # remove1 x xs"
  by (cases n) (auto simp: length_remove1)

lemma take_butlast_full:
  "length xs \<le> n \<Longrightarrow> 0 < n \<Longrightarrow> x \<notin> set xs \<Longrightarrow>
   take n (x # remove1 x xs) = x # (if length xs = n then butlast xs else xs)"
  by (cases n) (auto simp: remove1_idem butlast_conv_take)

lemma cache_get_lru:
  assumes "cache_ok cache"
  shows "case cache_get px build_engine backends cache of
    (l, after) \<Rightarrow>
      cache_ok after \<and> (lookup_ok l \<longleftrightarrow> el_engine l \<noteq> None) \<and>
      (case el_engine l of
         None \<Rightarrow> after = cache
       | Some en \<Rightarrow>
           isReady (Some en) \<and> hd (eh_entries after) = (normalizedBackends px backends, en) \<and>
           map fst (eh_entries after) = take (eh_capacity cache)
             (normalizedBackends px backends # remove1 (normalizedBackends px backends) (map fst (eh_entries cache))))"
proof -
  let ?w = "normalizedBackends px backends" and ?es = "eh_entries cache"
  from assms have ok: "0 < eh_capacity cache" "length ?es \<le> eh_capacity cache" "distinct (map fst ?es)"
    "list_all (\<lambda>(_, en). isReady (Some en)) ?es" by (simp_all add: cache_ok_def)
  show ?thesis
  proof (cases "take_entry ?w ?es")
    case None
    then have fresh: "?w \<notin> set (map fst ?es)" using take_entry_None by blast
    let ?en = "build_engine ((eh_base cache)\<lparr>ec_backends := ?w\<rparr>)"
    let ?kept = "if length ?es = eh_capacity cache then butlast ?es else ?es"
    have kept: "length ?kept < eh_capacity cache" "set ?kept \<subseteq> set ?es" "distinct (map fst ?kept)"
      using ok by (auto dest: in_set_butlastD simp: map_butlast distinct_butlast)
    have keys: "map fst ?kept = (if length (map fst ?es) = eh_capacity cache then butlast (map fst ?es) else map fst ?es)"
      by (simp add: map_butlast)
    have "cache_ok (cache\<lparr>eh_entries := (?w, ?en) # ?kept\<rparr>)" if "isReady (Some ?en)"
    proof -
      have "?w \<notin> fst ` set ?kept" using fresh kept(2) by (simp only: set_map) blast
      moreover have "list_all (\<lambda>(_, en). isReady (Some en)) ?kept" using ok(4) kept(2) by (auto simp only: list_all_iff)
      ultimately show ?thesis using ok(1) kept(1,3) that unfolding cache_ok_def by simp
    qed
    moreover have "map fst ((?w, ?en) # ?kept) = take (eh_capacity cache) (?w # remove1 ?w (map fst ?es))"
      using take_butlast_full[of "map fst ?es" "eh_capacity cache" ?w] ok(1,2) fresh keys by simp
    ultimately show ?thesis
      using None assms by (simp add: cache_get_def Let_def lookup_ok_def initializationStatus_def isReady_def status_ok_def)
  next
    case (Some found)
    obtain entry others where found: "found = (entry, others)" by (cases found)
    note hit = Some[unfolded found]
    from take_entry_Some[OF hit] have e: "fst entry = ?w" "entry \<in> set ?es" "mset ?es = add_mset entry (mset others)"
      "map fst others = remove1 ?w (map fst ?es)" by blast+
    have w: "?w \<in> set (map fst ?es)" using e(1,2) by force
    have keys: "map fst (entry # others) = take (eh_capacity cache) (?w # remove1 ?w (map fst ?es))"
      using take_remove1_full[OF _ w, of "eh_capacity cache"] ok(2) e(1,4) by simp
    have same: "set (entry # others) = set ?es" "length (entry # others) = length ?es"
      using e(3) by (metis mset.simps(2) set_mset_mset, metis mset.simps(2) size_mset)
    have "distinct (map fst (entry # others))"
      unfolding list.map e(1,4) using ok(3) by (simp add: set_remove1_eq distinct_remove1)
    moreover have "list_all (\<lambda>(_, en). isReady (Some en)) (entry # others)"
      using ok(4) same(1) unfolding list_all_iff by blast
    ultimately have "cache_ok (cache\<lparr>eh_entries := entry # others\<rparr>)" using ok(1,2) same(2) unfolding cache_ok_def by simp
    moreover have "isReady (Some (snd entry))" using ok(4) e(2) by (auto simp: list_all_iff)
    ultimately show ?thesis
      using keys e(1) by (simp add: cache_get_hit[OF hit] lookup_ok_def status_ok_def prod_eq_iff)
  qed
qed

text \<open>
  The engine cache is a least-recently-used list. A lookup that succeeds moves the wanted backends
  to the front, and drops the ones used longest ago when there is no room; one that fails leaves the
  cache alone. The engine it returns is ready, and every cached engine stays ready, each for backends
  of its own, in no more places than the capacity.
\<close>

lemma cache_get_is_lru:
  assumes "cache_ok cache"
  shows "case cache_get px build_engine backends cache of
    (l, after) \<Rightarrow>
      cache_ok after \<and> (lookup_ok l \<longleftrightarrow> el_engine l \<noteq> None) \<and>
      (case el_engine l of
         None \<Rightarrow> after = cache
       | Some en \<Rightarrow>
           isReady (Some en) \<and> hd (eh_entries after) = (normalizedBackends px backends, en) \<and>
           map fst (eh_entries after) = take (eh_capacity cache)
             (normalizedBackends px backends # remove1 (normalizedBackends px backends) (map fst (eh_entries cache))))"
  using assms by (rule cache_get_lru)

text \<open>A ready engine, for the examples.\<close>

definition sample_engine :: document_engine where
  "sample_engine = \<lparr>en_config = defaultEngineConfig, en_creation = \<lparr>sc_status = status_ok, sc_provenance = initial_provenance sample_build
     default_backend_options, sc_services = no_services\<rparr>, en_parsing = False\<rparr>"

definition same_paths :: path_environment where
  "same_paths = \<lparr>px_absolute = Some, px_canonical = Some, px_normal = (\<lambda>p. p)\<rparr>"

definition one_engine_cache :: engine_cache where
  "one_engine_cache = \<lparr>eh_base = defaultEngineConfig, eh_capacity = 1, eh_entries = [(default_backend_options, sample_engine)]\<rparr>"

lemma cache_get_is_lru_witness:
  "case cache_get same_paths (\<lambda>_. sample_engine) (default_backend_options\<lparr>bo_ocr := ''noop''\<rparr>) one_engine_cache of
     (l, after) \<Rightarrow> el_engine l = Some sample_engine \<and> map fst (eh_entries after) = [default_backend_options\<lparr>bo_ocr := ''noop''\<rparr>]"
proof -
  have ready: "isReady (Some sample_engine)" by (simp add: isReady_def sample_engine_def)
  have ok: "cache_ok one_engine_cache" using ready by (simp add: cache_ok_def one_engine_cache_def)
  have path: "normalizedBackends same_paths (default_backend_options\<lparr>bo_ocr := ''noop''\<rparr>) = default_backend_options\<lparr>bo_ocr := ''noop''\<rparr>"
    by (simp add: normalizedBackends_def normalizedPath_def default_backend_options_def)
  have engine: "el_engine (fst (cache_get same_paths (\<lambda>_. sample_engine) (default_backend_options\<lparr>bo_ocr := ''noop''\<rparr>) one_engine_cache)) =
      Some sample_engine"
    using ready unfolding cache_get_def Let_def path
    by (simp add: one_engine_cache_def sameBackends_def default_backend_options_def)
  show ?thesis
    using cache_get_is_lru[OF ok, where px = same_paths and build_engine = "\<lambda>_. sample_engine"
        and backends = "default_backend_options\<lparr>bo_ocr := ''noop''\<rparr>"] engine
    unfolding path by (auto simp: one_engine_cache_def split: prod.splits)
qed

subsection \<open>One run at a time\<close>

lemma isReady_Some: "isReady (Some en) \<longleftrightarrow> ok_status (sc_status (en_creation en))"
  by (simp add: isReady_def)

lemma enter_engine_iff:
  "enter_engine (Some en) = Inr en' \<longleftrightarrow> isReady (Some en) \<and> \<not> en_parsing en \<and> en' = en\<lparr>en_parsing := True\<rparr>"
  by (auto simp: enter_engine_def)

lemma enter_leave: "enter_engine engine = Inr en \<Longrightarrow> engine = Some (leave_engine en)"
  by (cases engine) (auto simp: enter_engine_def leave_engine_def split: if_splits)

text \<open>
  Calls of \<open>parse\<close> on one engine, from any threads: each enters it or is refused, and leaves it later.
\<close>

inductive call_step :: "document_engine \<times> 'c list \<Rightarrow> document_engine \<times> 'c list \<Rightarrow> bool" where
  enters: "enter_engine (Some en) = Inr en' \<Longrightarrow> call_step (en, calls) (en', c # calls)"
| refused: "enter_engine (Some en) = Inl result \<Longrightarrow> call_step (en, calls) (en, calls)"
| leaves: "c \<in> set calls \<Longrightarrow> call_step (en, calls) (leave_engine en, remove1 c calls)"

inductive reachable_calls :: "document_engine \<Rightarrow> document_engine \<times> 'c list \<Rightarrow> bool" for en0 where
  start: "reachable_calls en0 (en0, [])"
| step: "reachable_calls en0 x \<Longrightarrow> call_step x y \<Longrightarrow> reachable_calls en0 y"

inductive_cases call_step_cases: "call_step (en, calls) y"

lemma calls_exclusive:
  "reachable_calls en0 x \<Longrightarrow> \<not> en_parsing en0 \<Longrightarrow>
   case x of (en, calls) \<Rightarrow> length calls \<le> 1 \<and> (en_parsing en \<longleftrightarrow> calls \<noteq> []) \<and> leave_engine en = en0"
proof (induction rule: reachable_calls.induct)
  case (step x y)
  obtain en calls where x: "x = (en, calls)" by (cases x)
  with step have I: "length calls \<le> 1" "en_parsing en \<longleftrightarrow> calls \<noteq> []" "leave_engine en = en0" by auto
  from step(2)[unfolded x] show ?case
    by (rule call_step_cases) (use I in \<open>auto simp: enter_engine_iff leave_engine_def length_Suc_conv le_Suc_eq\<close>)
qed (simp add: leave_engine_def)

text \<open>
  An engine runs one document at a time. However calls interleave, at most one of them is inside a
  ready engine, another one is refused with the retryable \<open>engine.busy\<close> while it is, and once it has
  left the next one enters.
\<close>

lemma engine_runs_one_at_a_time:
  assumes "reachable_calls en0 (en, calls)" "isReady (Some en0)" "\<not> en_parsing en0"
  shows "case enter_engine (Some en) of
     Inl result \<Rightarrow> (\<exists>c. calls = [c]) \<and> status_code (pr_status result) = ''engine.busy'' \<and>
       status_retryable (pr_status result) \<and> pr_document result = None
   | Inr en' \<Rightarrow> calls = [] \<and> en' = en0\<lparr>en_parsing := True\<rparr>"
proof -
  from calls_exclusive[OF assms(1,3)]
  have I: "length calls \<le> 1" "en_parsing en \<longleftrightarrow> calls \<noteq> []" "leave_engine en = en0" by auto
  have ready: "isReady (Some en)" using assms(2) I(3) by (auto simp: isReady_def leave_engine_def)
  show ?thesis
  proof (cases calls)
    case Nil
    then have "\<not> en_parsing en" using I(2) by simp
    then have "en = en0" using I(3) by (cases en) (simp add: leave_engine_def)
    then show ?thesis using ready Nil \<open>\<not> en_parsing en\<close> by (simp add: enter_engine_def)
  next
    case (Cons c cs)
    then show ?thesis using I(1,2) ready by (simp add: enter_engine_def failed_result_def)
  qed
qed

lemma engine_runs_one_at_a_time_witness:
  "case enter_engine (Some (sample_engine\<lparr>en_parsing := True\<rparr>)) of
     Inl result \<Rightarrow> status_code (pr_status result) = ''engine.busy'' | Inr _ \<Rightarrow> False"
proof -
  have ready: "isReady (Some sample_engine)" "\<not> en_parsing sample_engine" by (simp_all add: isReady_def sample_engine_def)
  have "reachable_calls sample_engine (sample_engine\<lparr>en_parsing := True\<rparr>, [1 :: int])"
    by (rule reachable_calls.step[OF reachable_calls.start call_step.enters]) (use ready in \<open>simp add: enter_engine_iff\<close>)
  from engine_runs_one_at_a_time[OF this ready] show ?thesis by (simp split: sum.splits)
qed

subsection \<open>What a call returns\<close>

lemma parse_protocol:
  "case parseInternal env options origin Pipeline.initial_state of
     (Inl err, s) \<Rightarrow> stopped err s | (Inr _, s) \<Rightarrow> \<exists>N. traced 8 8 N s"
  using runsD[OF runs_parse initial_point, of env options origin] by (auto split: prod.splits sum.splits)

lemma engine_run_fails: "engine_run env options en = (Inl err, s) \<Longrightarrow> \<exists>st. err = Returned st \<and> \<not> ok_status st \<and> stopped err s"
  using parse_protocol[of env "pipelineOptions options (ec_backends (en_config en))"
      "GivenServices (sc_services (en_creation en)) (sc_provenance (en_creation en))"]
  by (auto simp: engine_run_def stopped_def)

lemma run_result_cases:
  "engine_run env options en = (r, s) \<Longrightarrow>
   \<exists>result. run_result r = Some result \<and> (ok_status (pr_status result) \<longleftrightarrow> pr_document result \<noteq> None) \<and>
     (pr_document result \<noteq> None \<longrightarrow> r = Inr (the (pr_document result)))"
  by (cases r) (auto simp: run_result_def failed_result_def dest!: engine_run_fails)

lemma engine_parse_entered:
  assumes "enter_engine engine = Inr en" "engine_run env options en = (r, s)"
  shows "engine_parse env options handler engine o' =
     (case notify handler (ps_events s) o' of
        (Inl what, o') \<Rightarrow> Some (parse_exception what, engine, o')
      | (Inr _, o') \<Rightarrow> Some (the (run_result r), engine, o'))"
  using run_result_cases[OF assms(2)] enter_leave[OF assms(1)] assms
  by (auto simp: engine_parse_def split: prod.split sum.split)

lemma engine_parse_refused:
  "enter_engine engine = Inl result \<Longrightarrow> engine_parse env options handler engine o' = Some (result, engine, o')"
  by (simp add: engine_parse_def)

lemma delivered_parse:
  "parseInternal env options origin Pipeline.initial_state = (Inr (doc, artifacts, provenance), s) \<Longrightarrow> delivered doc artifacts (ps_events s)"
proof -
  assume run: "parseInternal env options origin Pipeline.initial_state = (Inr (doc, artifacts, provenance), s)"
  have "noted Pipeline.initial_state = ([], \<lambda>_. [])" by (simp add: noted_def Pipeline.initial_state_def warnings_of_def)
  then show ?thesis
    using runsD[OF delivers_parse, of Pipeline.initial_state env options origin] initial_point run
    by (auto split: prod.splits sum.splits)
qed

text \<open>
  C28: \<open>parse\<close> always returns and leaves the engine as it found it, so that a failed run, or an observer
  that throws, does not keep it busy. An engine that is not ready gives the status that says why,
  without an event. A call that is not refused gives either the document, exactly if its status is a
  success, whose pages and warnings are those of the events sent, or the failure that its last event
  reports; or the observer's exception as \<open>engine.parse_exception\<close>.
\<close>

theorem engine_parse_returns:
  "\<exists>result o''. engine_parse env options handler engine o' = Some (result, engine, o'') \<and>
     (ok_status (pr_status result) \<longleftrightarrow> pr_document result \<noteq> None) \<and>
     (case state_of engine of
        MovedFrom \<Rightarrow> o'' = o' \<and> status_code (pr_status result) = ''engine.moved_from''
      | InitializationFailed \<Rightarrow> o'' = o' \<and> pr_status result = initializationStatus engine
      | Parsing \<Rightarrow> o'' = o' \<and> status_code (pr_status result) = ''engine.busy'' \<and> status_retryable (pr_status result)
      | Ready \<Rightarrow>
          let es = ps_events (snd (engine_run env options (the engine))) in
          (case notify handler es o' of
             (Inl what, stopped_at) \<Rightarrow> o'' = stopped_at \<and> result = parse_exception what
           | (Inr _, seen) \<Rightarrow> o'' = seen \<and>
               (case pr_document result of
                  Some (doc, artifacts, _) \<Rightarrow> delivered doc artifacts es \<and> (\<exists>N. finished 8 N es)
                | None \<Rightarrow> last es = StageFailed (status_stage (pr_status result)) (status_code (pr_status result))
                     (status_message (pr_status result)) (status_retryable (pr_status result)))))"
proof (cases "enter_engine engine")
  case (Inl result)
  then show ?thesis
    by (auto simp: engine_parse_refused[OF Inl] enter_engine_def state_of_def isReady_def initializationStatus_def
        failed_result_def split: option.splits if_splits)
next
  case (Inr en)
  obtain r s where run: "engine_run env options en = (r, s)" by fastforce
  have events: "ps_events (snd (engine_run env options (the engine))) = ps_events s"
    using enter_leave[OF Inr] run by (simp add: engine_run_def leave_engine_def)
  have ready: "state_of engine = Ready"
    using Inr by (auto simp: enter_engine_def state_of_def isReady_def split: option.splits if_splits)
  obtain result where result: "run_result r = Some result" "ok_status (pr_status result) \<longleftrightarrow> pr_document result \<noteq> None"
    "pr_document result \<noteq> None \<longrightarrow> r = Inr (the (pr_document result))" using run_result_cases[OF run] by blast
  have outcome: "case pr_document result of
      Some (doc, artifacts, _) \<Rightarrow> delivered doc artifacts (ps_events s) \<and> (\<exists>N. finished 8 N (ps_events s))
    | None \<Rightarrow> last (ps_events s) = StageFailed (status_stage (pr_status result)) (status_code (pr_status result))
         (status_message (pr_status result)) (status_retryable (pr_status result))"
  proof (cases r)
    case (Inl err)
    with run engine_run_fails obtain st where st: "err = Returned st" "stopped err s" by blast
    then show ?thesis using result(1) Inl by (auto simp: run_result_def failed_result_def stopped_def)
  next
    case (Inr x)
    obtain doc artifacts provenance where x: "x = (doc, artifacts, provenance)" by (cases x) auto
    note ended = run[unfolded Inr x engine_run_def]
    have "\<exists>N. finished 8 N (ps_events s)"
      using parse_protocol[of env "pipelineOptions options (ec_backends (en_config en))"
          "GivenServices (sc_services (en_creation en)) (sc_provenance (en_creation en))"] traced_finished
      unfolding ended by auto
    then show ?thesis using delivered_parse[OF ended] result(1) Inr x by (auto simp: run_result_def)
  qed
  show ?thesis
  proof (cases "notify handler (ps_events s) o'")
    case (Pair seen o'')
    show ?thesis
    proof (cases seen)
      case (Inl what)
      then show ?thesis
        using Pair ready by (auto simp: engine_parse_entered[OF Inr run] events parse_exception_def failed_result_def)
    next
      case (Inr u)
      then show ?thesis
        using Pair ready result(1,2) outcome
        by (simp add: engine_parse_entered[OF \<open>enter_engine engine = Inr en\<close> run] events)
    qed
  qed
qed

subsection \<open>A call without an observer\<close>

lemma notify_null: "notify null_handler es o' = (Inr (), o')"
  by (induction es) (simp_all add: null_handler_def)

lemma quiet_parse_returns:
  "\<exists>parsed. quiet_parse env options engine = Some (parsed, engine) \<and> (ok_status (pr_status parsed) \<longleftrightarrow> pr_document parsed \<noteq> None) \<and>
     (pr_document parsed \<noteq> None \<longrightarrow> (\<exists>s. engine_run env options (the engine) = (Inr (the (pr_document parsed)), s)))"
proof (cases "enter_engine engine")
  case (Inl refused)
  then have "\<not> ok_status (pr_status refused) \<and> pr_document refused = None"
    by (auto simp: enter_engine_def failed_result_def isReady_def initializationStatus_def split: if_splits option.splits)
  then show ?thesis by (simp add: quiet_parse_def engine_parse_refused[OF Inl])
next
  case (Inr en)
  obtain r s where run: "engine_run env options en = (r, s)" by fastforce
  have same: "engine_run env options (the engine) = (r, s)"
    using enter_leave[OF Inr] run by (simp add: engine_run_def leave_engine_def)
  obtain result where "run_result r = Some result" "ok_status (pr_status result) \<longleftrightarrow> pr_document result \<noteq> None"
    "pr_document result \<noteq> None \<longrightarrow> r = Inr (the (pr_document result))" using run_result_cases[OF run] by blast
  then show ?thesis by (simp add: quiet_parse_def engine_parse_entered[OF Inr run] notify_null same)
qed

lemma quiet_parse_ready:
  assumes "state_of (Some en) = Ready" "engine_run env options en = (r, s)"
  shows "\<exists>parsed. quiet_parse env options (Some en) = Some (parsed, Some en) \<and> (ok_status (pr_status parsed) \<longleftrightarrow> pr_document parsed \<noteq> None) \<and>
     pr_document parsed = (case r of Inl _ \<Rightarrow> None | Inr outcome \<Rightarrow> Some outcome)"
proof -
  have entered: "enter_engine (Some en) = Inr (en\<lparr>en_parsing := True\<rparr>)"
    using assms(1) by (auto simp: state_of_def enter_engine_def isReady_def split: if_splits)
  have run: "engine_run env options (en\<lparr>en_parsing := True\<rparr>) = (r, s)"
    using assms(2) by (simp add: engine_run_def)
  obtain result where result: "run_result r = Some result" "ok_status (pr_status result) \<longleftrightarrow> pr_document result \<noteq> None"
    using run_result_cases[OF run] by blast
  moreover have "pr_document result = (case r of Inl _ \<Rightarrow> None | Inr outcome \<Rightarrow> Some outcome)"
    using result(1) by (auto simp: run_result_def failed_result_def parse_exception_def split: sum.splits run_error.splits)
  ultimately show ?thesis
    by (simp add: quiet_parse_def engine_parse_entered[OF entered run] notify_null)
qed

end
