(* ===== verification/Document_Processor.thy ===== *)
theory Document_Processor
  imports Document_Engine
begin

text \<open>
  The worker's processing of one document, \<open>platform/worker/worker_document_processor.cpp\<close>: an engine
  from the cache, a run, its deadline and the export. It is the pipeline's own run (\<open>DocumentPipeline::run\<close>)
  on an engine's services, as is proved over any supplier of engines.
\<close>

subsection \<open>\<open>WorkerDocumentProcessor\<close>\<close>

text \<open>The events that end the processing with a failed status, or with the observer's exception.\<close>

definition process_failed :: "'o event_handler \<Rightarrow> event list \<Rightarrow> status \<Rightarrow> 'o \<Rightarrow> (string + status) \<times> 'o" where
  "process_failed handler es st o' =
     (case notify handler (es @ [StageFailed (status_stage st) (status_code st) (status_message st) (status_retryable st)]) o' of
        (Inl what, o') \<Rightarrow> (Inl what, o')
      | (Inr _, o') \<Rightarrow> (Inr st, o'))"

definition in_stage :: "string \<Rightarrow> status \<Rightarrow> status" where
  "in_stage stage st =
     status_error (status_code st) (status_message st) (if status_stage st = [] then stage else status_stage st) (status_retryable st)"

text \<open>What the exporter changes in the files is not followed further here.\<close>

definition process_export ::
  "environment \<Rightarrow> run_options \<Rightarrow> 'o event_handler \<Rightarrow> parsed_document \<Rightarrow> pipeline_artifacts \<Rightarrow> 'o \<Rightarrow> (string + status) \<times> 'o" where
  "process_export env options handler doc artifacts o' =
     (case notify handler [StageStarted ''export'' ''multi-format'' 3] o' of
        (Inl what, o') \<Rightarrow> (Inl what, o')
      | (Inr _, o') \<Rightarrow>
          (case env_write_document env doc artifacts of
             None \<Rightarrow> process_failed handler []
               (status_error ''exporter_unavailable'' ''no document exporter is enabled'' ''export'' False) o'
           | Some (st, _) \<Rightarrow>
               if \<not> ok_status st then process_failed handler [] (in_stage ''export'' st) o'
               else
                 let json_path = path_join (ro_output_directory options) ''document.json'' in
                 case notify handler
                   [ArtifactReady ''export'' ''document_json'' json_path 0,
                    ArtifactReady ''export'' ''document_markdown'' (replace_extension json_path ''.md'') 0,
                    ArtifactReady ''export'' ''document_html'' (replace_extension json_path ''.html'') 0,
                    StageProgress ''export'' 3 3, StageCompleted ''export''] o' of
                   (Inl what, o') \<Rightarrow> (Inl what, o')
                 | (Inr _, o') \<Rightarrow> (Inr status_ok, o')))"

text \<open>\<open>seconds\<close>: how long the processing has taken when the document is parsed.\<close>

definition process_with ::
  "environment \<Rightarrow> run_options \<Rightarrow> 'o event_handler \<Rightarrow> int \<Rightarrow> engine_lookup \<Rightarrow> 'o \<Rightarrow> ((string + status) \<times> 'o) option" where
  "process_with env options handler seconds l o' =
     (if \<not> lookup_ok l
      then Some (process_failed handler [StageStarted ''configure'' ''registry'' 1] (in_stage ''configure'' (el_status l)) o')
      else
        case engine_parse env options handler (el_engine l) o' of
          None \<Rightarrow> None
        | Some (result, _, o') \<Rightarrow>
            if \<not> ok_status (pr_status result) then Some (Inr (pr_status result), o')
            else if 0 < ro_timeout_seconds options \<and> ro_timeout_seconds options \<le> seconds
            then Some (process_failed handler [] (status_error ''run_timeout''
              (''pipeline exceeded its '' @ int_to_string (ro_timeout_seconds options) @ '' second deadline'') ''export'' False) o')
            else
              case pr_document result of
                None \<Rightarrow> Some (Inr (pr_status result), o')
              | Some (doc, artifacts, _) \<Rightarrow> Some (process_export env options handler doc artifacts o'))"

text \<open>The engine looked up stays in the cache, as \<open>engine_parse\<close> leaves it (unchanged, as is proved).\<close>

definition process ::
  "path_environment \<Rightarrow> (engine_config \<Rightarrow> document_engine) \<Rightarrow> environment \<Rightarrow> run_options \<Rightarrow> backend_options \<Rightarrow>
   'o event_handler \<Rightarrow> int \<Rightarrow> engine_cache \<Rightarrow> 'o \<Rightarrow> ((string + status) \<times> 'o) option \<times> engine_cache" where
  "process px build_engine env options backends handler seconds cache o' =
     (case cache_get px build_engine backends cache of
        (l, cache) \<Rightarrow> (process_with env options handler seconds l o', cache))"

subsection \<open>A supplier of engines\<close>

text \<open>
  What the processing relies on: a lookup gives an idle engine for the wanted backends, the one that
  creating it anew would give, or the status that creating it failed with.
\<close>

locale engine_supplier =
  fixes provide :: "backend_options \<Rightarrow> 'c \<Rightarrow> engine_lookup \<times> 'c"
    and inv :: "'c \<Rightarrow> bool"
    and fresh :: "backend_options \<Rightarrow> document_engine"
  assumes provide_inv: "inv c \<Longrightarrow> inv (snd (provide b c))"
    and provide_engine: "inv c \<Longrightarrow> el_engine (fst (provide b c)) = (if isReady (Some (fresh b)) then Some (fresh b) else None)"
    and provide_ok: "inv c \<Longrightarrow> isReady (Some (fresh b)) \<Longrightarrow> ok_status (el_status (fst (provide b c)))"
    and provide_failed: "inv c \<Longrightarrow> \<not> isReady (Some (fresh b)) \<Longrightarrow> el_status (fst (provide b c)) = initializationStatus (Some (fresh b))"
    and fresh_idle: "\<not> en_parsing (fresh b)"
begin

lemma supplied: "inv c \<Longrightarrow> lookup_ok (fst (provide b c)) \<longleftrightarrow> isReady (Some (fresh b))"
  using provide_engine[of c b] provide_ok[of c b] by (auto simp: lookup_ok_def)

lemma supplied_enters: "isReady (Some (fresh b)) \<Longrightarrow> enter_engine (Some (fresh b)) = Inr ((fresh b)\<lparr>en_parsing := True\<rparr>)"
  using fresh_idle by (simp add: enter_engine_iff)

end

subsection \<open>An observer that records\<close>

definition record_event :: "event list event_handler" where
  "record_event e es = (Inr (), es @ [e])"

lemma notify_record [simp]: "notify record_event es seen = (Inr (), seen @ es)"
  by (induction es arbitrary: seen) (simp_all add: record_event_def)

text \<open>What an observer sees of a run, and the status the run returns (\<open>None\<close>: an exception).\<close>

definition observed_run :: "(run_error + unit) \<times> pipe_state \<Rightarrow> status option \<times> event list" where
  "observed_run r = (case r of
     (Inr _, s) \<Rightarrow> (Some status_ok, ps_events s)
   | (Inl (Returned st), s) \<Rightarrow> (Some st, ps_events s)
   | (Inl _, s) \<Rightarrow> (None, ps_events s))"

definition observed_process :: "((string + status) \<times> event list) option \<Rightarrow> status option \<times> event list" where
  "observed_process r = (case r of
     Some (Inr st, es) \<Rightarrow> (Some st, es)
   | Some (Inl _, es) \<Rightarrow> (None, es)
   | None \<Rightarrow> (None, []))"

lemma observed_export:
  "ps_events s = es \<Longrightarrow>
   observed_process (Some (process_export env options record_event doc artifacts es)) =
   observed_run (exportResult env options doc artifacts s)"
  by (auto simp: process_export_def exportResult_def before_def and_then_def emit_def option_run_def require_def returns_def change_files_def
      stageFailed_def failed_stage_def report_failure_def stop_with_def process_failed_def in_stage_def observed_run_def
      observed_process_def output_paths_of_def Let_def status_error_def simp del: notify.simps split: option.split)

lemma parse_given:
  "ok_status (sc_status (create (ro_backends options))) \<Longrightarrow>
   parseInternal env options (RegistryServices create) =
   parseInternal env options (GivenServices (sc_services (create (ro_backends options))) (sc_provenance (create (ro_backends options))))"
proof -
  let ?creation = "create (ro_backends options)"
  assume "ok_status (sc_status ?creation)"
  then have "create_services options (RegistryServices create) =
      create_services options (GivenServices (sc_services ?creation) (sc_provenance ?creation))"
    by (simp add: create_services_def require_def before_def and_then_def returns_def Let_def fun_eq_iff)
  then show ?thesis by (simp only: parseInternal_def configure_run_def)
qed

lemma unavailable_run:
  "\<not> ok_status (sc_status (create (ro_backends options))) \<Longrightarrow>
   observed_run (pipeline_run env options create Pipeline.initial_state) =
     (Some (sc_status (create (ro_backends options))), [StageStarted ''configure'' ''registry'' 1,
       StageFailed (status_stage (sc_status (create (ro_backends options)))) (status_code (sc_status (create (ro_backends options))))
         (status_message (sc_status (create (ro_backends options)))) (status_retryable (sc_status (create (ro_backends options))))])"
  by (simp add: pipeline_run_def parseInternal_def configure_run_def create_services_def require_def before_def and_then_def
      returns_def emit_def report_failure_def stop_with_def observed_run_def Pipeline.initial_state_def Let_def)

lemma in_own_stage: "\<not> ok_status st \<Longrightarrow> status_stage st \<noteq> [] \<Longrightarrow> in_stage stage st = st"
  by (cases st) (simp add: in_stage_def status_error_def)

lemma expired_run:
  assumes "0 < ro_timeout_seconds options" "ro_timeout_seconds options \<le> env_seconds env (ps_clock s)"
  shows "observed_run (before (deadlineStatus env options ''export'') f s) =
    observed_process (Some (process_failed record_event [] (status_error ''run_timeout''
      (''pipeline exceeded its '' @ int_to_string (ro_timeout_seconds options) @ '' second deadline'') ''export'' False) (ps_events s)))"
  using assms by (simp add: before_def and_then_def deadlineStatus_def Let_def stageFailed_def report_failure_def emit_def
      stop_with_def observed_run_def observed_process_def process_failed_def del: notify.simps)

lemma timely_run:
  assumes "\<not> (0 < ro_timeout_seconds options \<and> ro_timeout_seconds options \<le> env_seconds env (ps_clock s))"
  shows "\<exists>s'. ps_events s' = ps_events s \<and> before (deadlineStatus env options ''export'') f s = f s'"
  using assms by (auto simp: before_def and_then_def deadlineStatus_def Let_def returns_def intro: exI[of _ s] exI[of _ "s\<lparr>ps_clock := Suc (ps_clock s)\<rparr>"])

context engine_supplier
begin

lemma process_supplied:
  assumes "inv c" "isReady (Some (fresh b))" "engine_run env options (fresh b) = (r, s)"
  shows "process_with env options record_event seconds (fst (provide b c)) [] =
    (case r of
       Inl _ \<Rightarrow> Some (Inr (pr_status (the (run_result r))), ps_events s)
     | Inr (doc, artifacts, _) \<Rightarrow>
         if 0 < ro_timeout_seconds options \<and> ro_timeout_seconds options \<le> seconds
         then Some (process_failed record_event [] (status_error ''run_timeout''
           (''pipeline exceeded its '' @ int_to_string (ro_timeout_seconds options) @ '' second deadline'') ''export'' False) (ps_events s))
         else Some (process_export env options record_event doc artifacts (ps_events s)))"
proof -
  have "engine_run env options ((fresh b)\<lparr>en_parsing := True\<rparr>) = (r, s)" using assms(3) by (simp add: engine_run_def)
  from engine_parse_entered[OF supplied_enters[OF assms(2)] this, of record_event "[]"]
  have parsed: "engine_parse env options record_event (Some (fresh b)) [] =
      Some (the (run_result r), Some (fresh b), ps_events s)" by (simp del: notify.simps)
  have "lookup_ok (fst (provide b c))" "el_engine (fst (provide b c)) = Some (fresh b)"
    using supplied[OF assms(1)] provide_engine[OF assms(1)] assms(2) by simp_all
  then show ?thesis
    using parsed run_result_cases[OF assms(3)] assms(3)
    by (auto simp: process_with_def run_result_def dest: engine_run_fails split: sum.splits)
qed

lemma process_is_run:
  assumes "inv c" "create (ec_backends (en_config (fresh b))) = en_creation (fresh b)"
    and "ok_status (sc_status (en_creation (fresh b))) \<or> status_stage (sc_status (en_creation (fresh b))) \<noteq> []"
    and "run_options' = pipelineOptions options (ec_backends (en_config (fresh b)))"
    and "seconds = env_seconds env (ps_clock (snd (parseInternal env run_options' (RegistryServices create) Pipeline.initial_state)))"
  shows "observed_process (process_with env options record_event seconds (fst (provide b c)) []) =
    observed_run (pipeline_run env run_options' create Pipeline.initial_state)"
proof (cases "isReady (Some (fresh b))")
  case False
  then show ?thesis
    using assms(2,3) supplied[OF assms(1), of b] provide_failed[OF assms(1) False]
    by (simp add: assms(4) unavailable_run pipelineOptions_def isReady_def initializationStatus_def process_with_def
        process_failed_def in_own_stage observed_process_def del: notify.simps)
next
  case True
  obtain r s where run: "engine_run env options (fresh b) = (r, s)" by fastforce
  have parse: "parseInternal env run_options' (RegistryServices create) Pipeline.initial_state = (r, s)"
    using parse_given[of create run_options' env] True run assms(2)
    by (simp add: engine_run_def assms(4) pipelineOptions_def isReady_def)
  have options': "ro_timeout_seconds run_options' = ro_timeout_seconds options"
    "exportResult env run_options' = exportResult env options"
    by (simp_all add: assms(4) pipelineOptions_def exportResult_def output_paths_of_def Let_def fun_eq_iff)
  have deadline: "deadlineStatus env run_options' = deadlineStatus env options"
    by (simp only: fun_eq_iff deadlineStatus_def options'(1)) simp
  have seconds: "seconds = env_seconds env (ps_clock s)" using assms(5) parse by simp
  have tail: "pipeline_run env run_options' create Pipeline.initial_state =
      (case r of Inl e \<Rightarrow> (Inl e, s)
       | Inr (doc, artifacts, _) \<Rightarrow> before (deadlineStatus env options ''export'') (exportResult env options doc artifacts) s)"
    unfolding pipeline_run_def and_then_def parse deadline options'(2) by (simp split: sum.split prod.split)
  show ?thesis
  proof (cases r)
    case (Inl err)
    then show ?thesis
      using engine_run_fails[of env options "fresh b" err s] run
      by (auto simp: process_supplied[OF assms(1) True run] tail observed_process_def observed_run_def run_result_def failed_result_def)
  next
    case (Inr x)
    obtain doc artifacts provenance where x: "x = (doc, artifacts, provenance)" by (cases x) auto
    show ?thesis
    proof (cases "0 < ro_timeout_seconds options \<and> ro_timeout_seconds options \<le> seconds")
      case late: True
      then show ?thesis
        unfolding process_supplied[OF assms(1) True run] tail Inr x sum.case prod.case
        using expired_run[of options env s] seconds by simp
    next
      case timely: False
      then obtain s' where s': "ps_events s' = ps_events s"
        "before (deadlineStatus env options ''export'') (exportResult env options doc artifacts) s = exportResult env options doc artifacts s'"
        using timely_run[of options env s] seconds by blast
      show ?thesis
        unfolding process_supplied[OF assms(1) True run] tail Inr x sum.case prod.case if_not_P[OF timely] s'(2)
        by (rule observed_export[OF s'(1)])
    qed
  qed
qed

end

subsection \<open>The cache supplies engines\<close>

text \<open>The cache of a worker: each of its engines was created for its backends, and is ready and idle.\<close>

definition created_cache :: "build_info \<Rightarrow> registry_reader \<Rightarrow> backend_registry \<Rightarrow> engine_config \<Rightarrow> engine_cache \<Rightarrow> bool" where
  "created_cache build reader registry base cache \<longleftrightarrow> eh_base cache = base \<and> cache_ok cache \<and>
     list_all (\<lambda>(b, en). en = create_engine build reader registry (base\<lparr>ec_backends := b\<rparr>)) (eh_entries cache)"

lemma select_document_stage: "select_document registry config name = Inl st \<Longrightarrow> status_stage st = ''configure''"
  by (auto simp: select_document_def setCreationError_def Let_def split: option.splits if_splits)

lemma select_ocr_stage: "select_ocr registry config name = Inl st \<Longrightarrow> status_stage st = ''configure''"
  by (auto simp: select_ocr_def setCreationError_def Let_def split: option.splits if_splits)

lemma select_layout_stage: "select_layout registry config name = Inl st \<Longrightarrow> status_stage st = ''configure''"
  by (auto simp: select_layout_def setCreationError_def Let_def split: if_splits)

lemma select_table_stage: "select_table registry config name = Inl st \<Longrightarrow> status_stage st = ''configure''"
  by (auto simp: select_table_def setCreationError_def Let_def split: if_splits)

lemma selected_services_stage: "selected_services options registry config = Inl st \<Longrightarrow> status_stage st = ''configure''"
  unfolding selected_services_def
  by (auto split: sum.splits prod.splits
      dest: select_document_stage select_ocr_stage select_layout_stage select_table_stage)

lemma creation_failure_stage:
  "\<not> ok_status (sc_status (createConfiguredServices build reader config registry)) \<Longrightarrow>
   status_stage (sc_status (createConfiguredServices build reader config registry)) = ''configure''"
  unfolding createConfiguredServices_def createPipelineServices_def Let_def
  by (auto split: sum.splits prod.splits dest: selected_services_stage)

lemma cache_get_created:
  assumes "created_cache build reader registry base cache"
    and "cache_get px (create_engine build reader registry) b cache = (l, after)"
    and "en = create_engine build reader registry (base\<lparr>ec_backends := normalizedBackends px b\<rparr>)"
  shows "created_cache build reader registry base after" "el_engine l = (if isReady (Some en) then Some en else None)"
    "isReady (Some en) \<Longrightarrow> ok_status (el_status l)" "\<not> isReady (Some en) \<Longrightarrow> el_status l = initializationStatus (Some en)"
proof -
  let ?w = "normalizedBackends px b" and ?create = "create_engine build reader registry"
  from assms(1) have base: "eh_base cache = base" and ok: "cache_ok cache"
    and entries: "list_all (\<lambda>(b, en). en = ?create (base\<lparr>ec_backends := b\<rparr>)) (eh_entries cache)"
    by (auto simp: created_cache_def)
  have after_ok: "cache_ok after" using cache_get_lru[OF ok, where px = px and build_engine = ?create and backends = b] assms(2) by simp
  have "created_cache build reader registry base after \<and> el_engine l = (if isReady (Some en) then Some en else None) \<and>
    (isReady (Some en) \<longrightarrow> ok_status (el_status l)) \<and> (\<not> isReady (Some en) \<longrightarrow> el_status l = initializationStatus (Some en))"
  proof (cases "take_entry ?w (eh_entries cache)")
    case None
    have "list_all (\<lambda>(b, en). en = ?create (base\<lparr>ec_backends := b\<rparr>)) (butlast (eh_entries cache))"
      using entries by (auto simp: list_all_iff dest: in_set_butlastD)
    then show ?thesis
      using assms(2)[unfolded cache_get_def Let_def base assms(3)[symmetric]] None after_ok entries base
      by (auto simp: created_cache_def assms(3) split: if_splits)
  next
    case (Some found)
    obtain entry others where found: "found = (entry, others)" by (cases found)
    note hit = Some[unfolded found]
    from take_entry_Some[OF hit] have e: "fst entry = ?w" "entry \<in> set (eh_entries cache)" "mset (eh_entries cache) = add_mset entry (mset others)"
      by blast+
    have same: "set (entry # others) = set (eh_entries cache)" using e(3) by (metis mset.simps(2) set_mset_mset)
    have kept: "list_all (\<lambda>(b, en). en = ?create (base\<lparr>ec_backends := b\<rparr>)) (entry # others)"
      using entries same unfolding list_all_iff by blast
    have engine: "snd entry = en" using entries e(1,2) by (auto simp: list_all_iff assms(3))
    have "isReady (Some en)" using ok e(2) engine by (auto simp: cache_ok_def list_all_iff)
    then show ?thesis
      using assms(2) after_ok kept base engine by (auto simp: cache_get_hit[OF hit] created_cache_def)
  qed
  then show "created_cache build reader registry base after" "el_engine l = (if isReady (Some en) then Some en else None)"
    "isReady (Some en) \<Longrightarrow> ok_status (el_status l)" "\<not> isReady (Some en) \<Longrightarrow> el_status l = initializationStatus (Some en)"
    by blast+
qed

interpretation cache: engine_supplier "cache_get px (create_engine build reader registry)"
  "created_cache build reader registry base"
  "\<lambda>b. create_engine build reader registry (base\<lparr>ec_backends := normalizedBackends px b\<rparr>)"
  for px build reader registry base
proof
  fix c b assume c: "created_cache build reader registry base c"
  obtain l after where get: "cache_get px (create_engine build reader registry) b c = (l, after)" by fastforce
  note facts = cache_get_created[OF c get refl]
  let ?en = "create_engine build reader registry (base\<lparr>ec_backends := normalizedBackends px b\<rparr>)"
  show "created_cache build reader registry base (snd (cache_get px (create_engine build reader registry) b c))"
    and "el_engine (fst (cache_get px (create_engine build reader registry) b c)) = (if isReady (Some ?en) then Some ?en else None)"
    using facts by (simp_all add: get)
  show "ok_status (el_status (fst (cache_get px (create_engine build reader registry) b c)))" if "isReady (Some ?en)"
    using facts that by (simp add: get)
  show "el_status (fst (cache_get px (create_engine build reader registry) b c)) = initializationStatus (Some ?en)"
    if "\<not> isReady (Some ?en)"
    using facts that by (simp add: get)
qed (simp add: create_engine_def)

lemma process_runs:
  assumes "created_cache build reader registry base cache"
    and "create = (\<lambda>b. createConfiguredServices build reader (base\<lparr>ec_backends := b\<rparr>) registry)"
    and "run_options' = pipelineOptions options (normalizedBackends px backends)"
    and "seconds = env_seconds env (ps_clock (snd (parseInternal env run_options' (RegistryServices create) Pipeline.initial_state)))"
    and "process px (create_engine build reader registry) env options backends record_event seconds cache [] = (processed, after)"
  shows "observed_process processed = observed_run (pipeline_run env run_options' create Pipeline.initial_state) \<and>
    created_cache build reader registry base after"
proof -
  let ?fresh = "create_engine build reader registry (base\<lparr>ec_backends := normalizedBackends px backends\<rparr>)"
  have engine: "en_creation ?fresh = create (ec_backends (en_config ?fresh))" "ec_backends (en_config ?fresh) = normalizedBackends px backends"
    by (simp_all add: create_engine_def assms(2))
  have "observed_process (process_with env options record_event seconds
      (fst (cache_get px (create_engine build reader registry) backends cache)) []) =
    observed_run (pipeline_run env run_options' create Pipeline.initial_state)"
    by (rule cache.process_is_run[OF assms(1)])
      (use engine assms(3,4) creation_failure_stage[of build reader _ registry] in \<open>auto simp: create_engine_def assms(2)\<close>)
  moreover have "created_cache build reader registry base after"
    using cache.provide_inv[OF assms(1), of px backends] assms(5) by (auto simp: process_def split: prod.splits)
  ultimately show ?thesis using assms(5) by (auto simp: process_def split: prod.splits)
qed

text \<open>
  The worker's processing of a job is the pipeline's own run. Whatever the cache holds, it sends the
  observer the events that \<open>DocumentPipeline::run\<close> sends for the same options with the normalized
  backends, and returns the same status: a reused engine changes neither, nor does a failed creation of
  one. (The clock is the same at the deadline before the export.)
\<close>

lemma process_is_pipeline_run:
  assumes "created_cache build reader registry base cache"
    and "create = (\<lambda>b. createConfiguredServices build reader (base\<lparr>ec_backends := b\<rparr>) registry)"
    and "run_options' = pipelineOptions options (normalizedBackends px backends)"
    and "seconds = env_seconds env (ps_clock (snd (parseInternal env run_options' (RegistryServices create) Pipeline.initial_state)))"
    and "process px (create_engine build reader registry) env options backends record_event seconds cache [] = (processed, after)"
  shows "observed_process processed = observed_run (pipeline_run env run_options' create Pipeline.initial_state) \<and>
    created_cache build reader registry base after"
  using assms by (rule process_runs)

definition sample_cache :: engine_cache where
  "sample_cache = \<lparr>eh_base = defaultEngineConfig, eh_capacity = 1, eh_entries = []\<rparr>"

definition sample_registry :: backend_registry where
  "sample_registry = createDefaultBackendRegistry sample_built defaultEngineConfig"

definition sample_create :: "backend_options \<Rightarrow> service_creation" where
  "sample_create = (\<lambda>b. createConfiguredServices sample_build no_files (defaultEngineConfig\<lparr>ec_backends := b\<rparr>) sample_registry)"

definition sample_seconds :: int where
  "sample_seconds = env_seconds sample_environment (ps_clock (snd (parseInternal sample_environment
     (pipelineOptions sample_options (normalizedBackends same_paths default_backend_options)) (RegistryServices sample_create)
     Pipeline.initial_state)))"

lemma process_is_pipeline_run_witness:
  "observed_process (fst (process same_paths (create_engine sample_build no_files sample_registry) sample_environment
      sample_options default_backend_options record_event sample_seconds sample_cache [])) =
   observed_run (pipeline_run sample_environment
      (pipelineOptions sample_options (normalizedBackends same_paths default_backend_options)) sample_create Pipeline.initial_state)"
proof -
  have "created_cache sample_build no_files sample_registry defaultEngineConfig sample_cache"
    by (simp add: created_cache_def cache_ok_def sample_cache_def)
  from process_is_pipeline_run[OF this sample_create_def refl sample_seconds_def prod.collapse[symmetric]] show ?thesis ..
qed

end
