(* ===== verification/Worker_Job.thy ===== *)
theory Worker_Job
  imports Document_Processor Stage_Observer
begin

text \<open>
  The worker's jobs, \<open>platform/worker/main.cpp\<close>: reading and checking a job document, and the options
  of its run. What the file system says of paths, and the messages of the JSON library's exceptions,
  are arguments. \<open>Worker\<close> holds the handling of a job and the loop over the queue.
\<close>

subsection \<open>The environment\<close>

definition environment_text :: "process_environment \<Rightarrow> string \<Rightarrow> string \<Rightarrow> string" where
  "environment_text pe name fallback =
     (case pe_getenv pe name of None \<Rightarrow> fallback | Some v \<Rightarrow> if v = [] then fallback else v)"

definition environmentInt :: "process_environment \<Rightarrow> string \<Rightarrow> int \<Rightarrow> int" where
  "environmentInt pe name fallback =
     (case stoi (environment_text pe name (int_to_string fallback)) of None \<Rightarrow> fallback | Some n \<Rightarrow> n)"

record worker_settings =
  wk_redis_host :: string
  wk_redis_port :: int
  wk_job_stream :: string
  wk_consumer_group :: string
  wk_worker_id :: string
  wk_runtime_root :: string
  wk_cache_size :: int
  wk_run_length :: int
  wk_platform_length :: int
  wk_retention_seconds :: int
  wk_job_lease_ms :: int
  wk_maximum_executions :: int

text \<open>The settings of \<open>main\<close>; \<open>None\<close>: it refuses them.\<close>

definition read_settings :: "process_environment \<Rightarrow> worker_settings" where
  "read_settings pe =
     \<lparr>wk_redis_host = environment_text pe ''REDIS_HOST'' ''127.0.0.1'', wk_redis_port = environmentInt pe ''REDIS_PORT'' 6379,
      wk_job_stream = environment_text pe ''JOB_STREAM'' ''document-jobs'',
      wk_consumer_group = environment_text pe ''JOB_CONSUMER_GROUP'' ''document-workers'',
      wk_worker_id = environment_text pe ''WORKER_ID'' ''worker-1'',
      wk_runtime_root = environment_text pe ''WORKER_RUNTIME_ROOT'' [],
      wk_cache_size = environmentInt pe ''WORKER_ENGINE_CACHE_SIZE'' 2,
      wk_run_length = environmentInt pe ''RUN_EVENT_STREAM_MAX_LENGTH'' 2000,
      wk_platform_length = environmentInt pe ''PLATFORM_EVENT_STREAM_MAX_LENGTH'' 100000,
      wk_retention_seconds = environmentInt pe ''RUN_RETENTION_SECONDS'' (7 * 24 * 60 * 60),
      wk_job_lease_ms = environmentInt pe ''WORKER_JOB_LEASE_MS'' 30000,
      wk_maximum_executions = environmentInt pe ''WORKER_JOB_MAX_EXECUTIONS'' 3\<rparr>"

definition settings_refused :: "worker_settings \<Rightarrow> bool" where
  "settings_refused s \<longleftrightarrow> wk_cache_size s \<le> 0 \<or> wk_run_length s \<le> 0 \<or> wk_platform_length s \<le> 0 \<or>
     wk_retention_seconds s \<le> 0 \<or> wk_job_lease_ms s < 1000 \<or> wk_job_lease_ms s > 3600000 \<or> wk_maximum_executions s < 1"

definition worker_settings_of :: "process_environment \<Rightarrow> worker_settings option" where
  "worker_settings_of pe = (if settings_refused (read_settings pe) then None else Some (read_settings pe))"

subsection \<open>Files and JSON\<close>

text \<open>
  \<open>wf_document\<close>: what is read of a file, or \<open>None\<close> if it cannot be opened. \<open>wf_header\<close>: its first five
  bytes, as many as there are. A sum: the library throws, with that message.
\<close>

record worker_files =
  wf_document :: "string \<Rightarrow> string option"
  wf_parse :: "string \<Rightarrow> string + json"
  wf_regular :: "string \<Rightarrow> string + bool"
  wf_canonical :: "string \<Rightarrow> string + string"
  wf_size :: "string \<Rightarrow> string + int"
  wf_header :: "string \<Rightarrow> string"
  wf_type_error :: "json \<Rightarrow> string"
  wf_missing :: "string \<Rightarrow> string"

text \<open>\<open>at\<close>, \<open>get\<close> and \<open>value\<close> of the library.\<close>

definition json_at :: "worker_files \<Rightarrow> string \<Rightarrow> json \<Rightarrow> string + json" where
  "json_at F key j =
     (if \<not> is_object j then Inl (wf_type_error F j)
      else case json_get j key of None \<Rightarrow> Inl (wf_missing F key) | Some v \<Rightarrow> Inr v)"

definition get_string :: "worker_files \<Rightarrow> json \<Rightarrow> string + string" where
  "get_string F j = (case j of JString s \<Rightarrow> Inr s | _ \<Rightarrow> Inl (wf_type_error F j))"

definition get_bool :: "worker_files \<Rightarrow> json \<Rightarrow> string + bool" where
  "get_bool F j = (case j of JBool b \<Rightarrow> Inr b | _ \<Rightarrow> Inl (wf_type_error F j))"

definition get_int :: "worker_files \<Rightarrow> json \<Rightarrow> string + int" where
  "get_int F j = (case json_int j of Some n \<Rightarrow> Inr n | None \<Rightarrow> Inl (wf_type_error F j))"

definition get_unsigned :: "worker_files \<Rightarrow> json \<Rightarrow> string + int" where
  "get_unsigned F j =
     (case j of
        JInt n \<Rightarrow> Inr (n mod 2 ^ 64)
      | JNumber x \<Rightarrow> Inr ((if x \<ge> 0 then \<lfloor>x\<rfloor> else \<lceil>x\<rceil>) mod 2 ^ 64)
      | _ \<Rightarrow> Inl (wf_type_error F j))"

definition value_or :: "worker_files \<Rightarrow> (json \<Rightarrow> string + 'a) \<Rightarrow> string \<Rightarrow> 'a \<Rightarrow> json \<Rightarrow> string + 'a" where
  "value_or F get key fallback j =
     (if \<not> is_object j then Inl (wf_type_error F j)
      else case json_get j key of None \<Rightarrow> Inr fallback | Some v \<Rightarrow> get v)"

definition at_string :: "worker_files \<Rightarrow> string \<Rightarrow> json \<Rightarrow> string + string" where
  "at_string F key j = try_with (json_at F key j) (get_string F)"

definition at_int :: "worker_files \<Rightarrow> string \<Rightarrow> json \<Rightarrow> string + int" where
  "at_int F key j = try_with (json_at F key j) (get_int F)"

subsection \<open>Job documents\<close>

definition localFilePath :: "string \<Rightarrow> string + string" where
  "localFilePath uri =
     (if \<not> starts_with ''file://'' uri then Inl ''worker v1 only accepts file:// input URIs'' else Inr (drop 7 uri))"

definition loadJob :: "worker_files \<Rightarrow> string \<Rightarrow> string + json" where
  "loadJob F path =
     (case wf_document F path of
        None \<Rightarrow> Inl (''failed to read Job document: '' @ path)
      | Some content' \<Rightarrow>
          try_with (wf_parse F content') (\<lambda>job.
          try_with (value_or F (get_int F) ''schema_version'' 0 job) (\<lambda>version.
            if version \<noteq> 1 then Inl ''unsupported Job schema version'' else Inr job)))"

definition isInside :: "worker_files \<Rightarrow> string \<Rightarrow> string \<Rightarrow> string + bool" where
  "isInside F path root' =
     (if root' = [] then Inr True
      else
        try_with (wf_canonical F path) (\<lambda>resolved_path.
        try_with (wf_canonical F root') (\<lambda>resolved_root.
          Inr (resolved_path = resolved_root \<or> starts_with (resolved_root @ ''/'') resolved_path))))"

definition require_that :: "bool \<Rightarrow> string \<Rightarrow> string + unit" where
  "require_that b message = (if b then Inr () else Inl message)"

definition job_input :: "worker_files \<Rightarrow> json \<Rightarrow> string + string" where
  "job_input F job = try_with (json_at F ''input'' job) (\<lambda>input. try_with (at_string F ''uri'' input) localFilePath)"

definition inside_root :: "worker_files \<Rightarrow> string \<Rightarrow> string \<Rightarrow> string \<Rightarrow> string + bool" where
  "inside_root F input output root' =
     try_with (isInside F input root') (\<lambda>inside. if \<not> inside then Inr False else isInside F output root')"

definition size_matches :: "worker_files \<Rightarrow> json \<Rightarrow> string \<Rightarrow> string + bool" where
  "size_matches F job input =
     try_with (json_at F ''input'' job) (\<lambda>metadata.
     try_with (value_or F (get_unsigned F) ''size_bytes'' 0 metadata) (\<lambda>expected_size.
       if \<not> 0 < expected_size then Inr True
       else try_with (wf_size F input) (\<lambda>bytes. Inr (bytes = expected_size))))"

definition validateJob :: "worker_files \<Rightarrow> string \<Rightarrow> json \<Rightarrow> string + unit" where
  "validateJob F runtime_root job =
     try_with (job_input F job) (\<lambda>input.
     try_with (at_string F ''output_directory'' job) (\<lambda>output.
     try_with (wf_regular F input) (\<lambda>regular.
     try_with (require_that regular (''Job input is not a regular file: '' @ input)) (\<lambda>_.
     try_with (inside_root F input output runtime_root) (\<lambda>inside.
     try_with (require_that inside ''Job input and output must remain inside WORKER_RUNTIME_ROOT'') (\<lambda>_.
     try_with (size_matches F job input) (\<lambda>same.
     try_with (require_that same ''Job input size does not match its protocol metadata'') (\<lambda>_.
     try_with (require_that (wf_header F input = ''%PDF-'') ''Job input does not have a PDF file signature'') (\<lambda>_.
     try_with (json_at F ''limits'' job) (\<lambda>limits.
     try_with (at_int F ''timeout_seconds'' limits) (\<lambda>timeout_seconds.
     try_with (at_int F ''maximum_pages'' limits) (\<lambda>maximum_pages.
       require_that (\<not> (timeout_seconds < 1 \<or> timeout_seconds > 86400 \<or> maximum_pages < 1 \<or> maximum_pages > 10000))
         ''Job limits are outside the supported protocol range''))))))))))))"

text \<open>The options of a job's run, and its backends.\<close>

definition optionsFromJob :: "worker_files \<Rightarrow> backend_options \<Rightarrow> json \<Rightarrow> string + run_options \<times> backend_options" where
  "optionsFromJob F default_backends job =
     try_with (json_at F ''pipeline'' job) (\<lambda>pipeline.
     try_with (json_at F ''backends'' pipeline) (\<lambda>backends.
     try_with (job_input F job) (\<lambda>input.
     try_with (at_string F ''output_directory'' job) (\<lambda>output.
     try_with (at_string F ''run_id'' job) (\<lambda>run_id.
     try_with (at_int F ''dpi'' pipeline) (\<lambda>dpi.
     try_with (try_with (json_at F ''debug'' pipeline) (get_bool F)) (\<lambda>debug.
     try_with (at_string F ''document'' backends) (\<lambda>document.
     try_with (at_string F ''ocr'' backends) (\<lambda>ocr.
     try_with (at_string F ''layout'' backends) (\<lambda>layout.
     try_with (at_string F ''table'' backends) (\<lambda>tables.
     try_with (value_or F (get_string F) ''registry_config'' [] backends) (\<lambda>registry_config.
     try_with (json_at F ''limits'' job) (\<lambda>limits.
     try_with (at_int F ''timeout_seconds'' limits) (\<lambda>timeout_seconds.
     try_with (at_int F ''maximum_pages'' limits) (\<lambda>maximum_pages.
       Inr (\<lparr>ro_input_path = input, ro_output_directory = output, ro_render_dpi = dpi, ro_debug = debug,
              ro_timeout_seconds = timeout_seconds, ro_maximum_pages = maximum_pages, ro_run_id = run_id,
              ro_backends = default_backend_options\<rparr>,
            effectiveBackendOptions default_backends
              \<lparr>bo_document = document, bo_ocr = ocr, bo_layout = layout, bo_table = tables,
               bo_registry_config = registry_config\<rparr>))))))))))))))))"

subsection \<open>Capabilities and configuration as JSON\<close>

definition available_names :: "(string \<Rightarrow> 'b creation_result) \<Rightarrow> string list \<Rightarrow> json" where
  "available_names create names =
     JArray (JString ''auto'' # map JString (filter (\<lambda>name. created (create name)) names))"

definition capabilities_json :: "backend_registry \<Rightarrow> json" where
  "capabilities_json registry =
     JObject [(''document'', available_names (createDocument registry) (documentNames registry)),
       (''ocr'', available_names (createOcr registry) (ocrNames registry)),
       (''layout'', available_names (createLayout registry) (layoutNames registry)),
       (''table'', available_names (createTable registry) (tableNames registry))]"

definition availableCapabilities :: "json_library \<Rightarrow> backend_registry \<Rightarrow> string + string" where
  "availableCapabilities lib registry = jl_dump lib (capabilities_json registry)"

definition engineConfigJson :: "engine_config \<Rightarrow> json" where
  "engineConfigJson config =
     JObject [(''backends'', backendOptions (ec_backends config)),
       (''tesseract'', JObject [(''executable'', JString (ts_executable (ec_tesseract config))),
          (''language'', JString (ts_language (ec_tesseract config)))]),
       (''paddle_ocr'', let ocr = ec_paddle_ocr config in JObject
          [(''detection_model'', JString (po_detection_model ocr)), (''recognition_model'', JString (po_recognition_model ocr)),
           (''character_dict'', JString (po_character_dict ocr)), (''profile'', JString (pp_name (po_profile ocr))),
           (''recognition_batch_size'', JInt (uint (po_recognition_batch_size ocr))),
           (''recognition_max_width'', JInt (po_recognition_max_width ocr)),
           (''detection_limit_side'', JInt (po_detection_limit_side ocr)),
           (''recover_upside_down'', JBool (po_recover_upside_down ocr))]),
       (''doclaynet'', JObject [(''model'', JString (dn_model_path (ec_doclaynet config))),
          (''confidence_threshold'', JNumber (dn_confidence_threshold (ec_doclaynet config)))]),
       (''paddle_layout'', JObject [(''model'', JString (pd_model_path (ec_paddle_layout config))),
          (''confidence_threshold'', JNumber (pd_confidence_threshold (ec_paddle_layout config)))]),
       (''table_transformer'', let tables = ec_table_transformer config in JObject
          [(''detection_model'', JString (tt_detection_model_path tables)),
           (''structure_model'', JString (tt_structure_model_path tables)),
           (''detection_confidence_threshold'', JNumber (tt_detection_confidence_threshold tables)),
           (''structure_confidence_threshold'', JNumber (tt_structure_confidence_threshold tables)),
           (''crop_padding'', JInt (tt_crop_padding tables))])]"

end
