(* ===== verification/Worker.thy ===== *)
theory Worker
  imports Worker_Job
begin

text \<open>
  The worker, \<open>platform/worker/main.cpp\<close>: handling one job under its lease, and the loop over the queue;
  the renewal of a lease (\<open>worker_job_lease.cpp\<close>), the lock of a run's artifacts
  (\<open>run_artifact_lock.cpp\<close>) and the heartbeat. A job that is not refused or cancelled is reported as
  \<open>job_started\<close>, the events of the pipeline's run, and the terminal event that the run's status asks for.
\<close>

subsection \<open>The lock of a run's artifacts\<close>

text \<open>
  What the system calls of \<open>RunArtifactLock\<close> return, with the messages of their errors. The second
  result is the list of descriptors left open.
\<close>

datatype expiry = Expired | NotExpired | ExpiryUnknown string

record lock_calls =
  lc_open_root :: "string + int"
  lc_open_lock :: "string + int"
  lc_single_regular :: bool
  lc_flock :: "string + unit"
  lc_expired :: expiry

definition lock_artifacts :: "lock_calls \<Rightarrow> (string + int) \<times> int list" where
  "lock_artifacts calls =
     (case lc_open_root calls of
        Inl message \<Rightarrow> (Inl (''open Run artifact directory: '' @ message), [])
      | Inr root' \<Rightarrow>
          (case lc_open_lock calls of
             Inl message \<Rightarrow> (Inl (''open Run artifact lock: '' @ message), remove1 root' [root'])
           | Inr descriptor \<Rightarrow>
               let opened = [descriptor, root'];
                   outcome =
                     (if \<not> lc_single_regular calls then Inl ''Run artifact lock must be a single-link regular file''
                      else case lc_flock calls of
                          Inl message \<Rightarrow> Inl (''Run artifact directory is in use by cleanup: '' @ message)
                        | Inr _ \<Rightarrow>
                            (case lc_expired calls of
                               Expired \<Rightarrow> Inl ''Run artifacts have expired''
                             | ExpiryUnknown message \<Rightarrow> Inl (''check Run artifact expiry: '' @ message)
                             | NotExpired \<Rightarrow> Inr descriptor))
               in (case outcome of
                     Inl message \<Rightarrow> (Inl message, remove1 root' (remove1 descriptor opened))
                   | Inr descriptor \<Rightarrow> (Inr descriptor, remove1 root' opened))))"

lemma lock_leaks_nothing:
  "case lock_artifacts calls of
     (Inl _, opened) \<Rightarrow> opened = []
   | (Inr descriptor, opened) \<Rightarrow> opened = [descriptor] \<and> lc_single_regular calls \<and> lc_flock calls = Inr () \<and> lc_expired calls = NotExpired"
  by (auto simp: lock_artifacts_def Let_def split: sum.splits expiry.splits)

subsection \<open>The renewal of a lease\<close>

text \<open>
  Each wait ends with the job (\<open>True\<close>) or after a third of the lease's time; the result is \<open>lost\<close>.
  The renewal's own client has a connection of its own.
\<close>

fun renewal_run ::
  "'n network \<Rightarrow> script_texts \<Rightarrow> redis_job_lease \<Rightarrow> bool list \<Rightarrow> 'n \<Rightarrow> redis_client \<Rightarrow> bool \<times> 'n \<times> redis_client" where
  "renewal_run N T lease [] n client = (False, n, client)"
| "renewal_run N T lease (stopped_waiting # waits) n client =
     (if stopped_waiting then (False, n, client)
      else
        case renewJob N T lease n client of
          (Inl _, n, client) \<Rightarrow> (True, n, client)
        | (Inr renewed, n, client) \<Rightarrow>
            if \<not> renewed then (True, n, client) else renewal_run N T lease waits n client)"

subsection \<open>The heartbeat\<close>

record heartbeat =
  hb_status :: string
  hb_run_id :: string

definition setIdle :: heartbeat where
  "setIdle = \<lparr>hb_status = ''idle'', hb_run_id = []\<rparr>"

definition setRunning :: "string \<Rightarrow> heartbeat" where
  "setRunning run_id = \<lparr>hb_status = ''running'', hb_run_id = run_id\<rparr>"

text \<open>One turn of the heartbeat's thread; after an exception it starts with a new client.\<close>

definition heartbeat_turn ::
  "'n network \<Rightarrow> string \<Rightarrow> string \<Rightarrow> heartbeat \<Rightarrow> 'n \<Rightarrow> redis_client option \<Rightarrow> 'n \<times> redis_client option" where
  "heartbeat_turn N worker_key capabilities hb n redis =
     (let client = (case redis of None \<Rightarrow> \<lparr>rc_connection = None, rc_lease = None\<rparr> | Some client \<Rightarrow> client) in
      case setHash N worker_key [(''capabilities'', capabilities), (''run_id'', hb_run_id hb), (''status'', hb_status hb)] n client of
        (Inl _, n, _) \<Rightarrow> (n, None)
      | (Inr _, n, client) \<Rightarrow>
          (case expire N worker_key 30 n client of
             (Inl _, n, _) \<Rightarrow> (n, None)
           | (Inr _, n, client) \<Rightarrow> (n, Some client)))"

subsection \<open>Running a job\<close>

text \<open>
  The state of a job's handling: its observer once it exists, the engine cache, the heartbeat, and the
  world in which the observer publishes and writes. \<open>None\<close>: the job does not return.
\<close>

record 'w job_state =
  js_observer :: "stage_observer option"
  js_cache :: engine_cache
  js_heartbeat :: heartbeat
  js_world :: 'w

type_synonym ('w, 'a) job_run = "'w job_state \<Rightarrow> ((redis_error + 'a) \<times> 'w job_state) option"

definition job_return :: "'a \<Rightarrow> ('w, 'a) job_run" where
  "job_return x s = Some (Inr x, s)"

definition job_then :: "('w, 'a) job_run \<Rightarrow> ('a \<Rightarrow> ('w, 'b) job_run) \<Rightarrow> ('w, 'b) job_run" where
  "job_then m f s =
     (case m s of None \<Rightarrow> None | Some (Inl e, s) \<Rightarrow> Some (Inl e, s) | Some (Inr x, s) \<Rightarrow> f x s)"

text \<open>A \<open>std::exception\<close> with this message.\<close>

definition job_try :: "string + 'a \<Rightarrow> ('w, 'a) job_run" where
  "job_try r s = Some (case r of Inl message \<Rightarrow> Inl (RedisFailure message) | Inr x \<Rightarrow> Inr x, s)"

definition job_require :: "bool \<Rightarrow> string \<Rightarrow> ('w, unit) job_run" where
  "job_require b message = job_try (require_that b message)"

text \<open>A call of the observer, which is there when it is called.\<close>

definition on_observer :: "(stage_observer \<Rightarrow> 'w \<Rightarrow> 'w observed) \<Rightarrow> ('w, unit) job_run" where
  "on_observer call s =
     (case js_observer s of
        None \<Rightarrow> None
      | Some o' \<Rightarrow>
          (case call o' (js_world s) of
             (r, o', w) \<Rightarrow> Some (r, s\<lparr>js_observer := Some o', js_world := w\<rparr>)))"

text \<open>
  The build and the machine of a worker: the processing of a document is \<open>Document_Processor.process\<close>
  on the worker's backends, with \<open>we_run\<close> the environment of a run, \<open>we_seconds\<close> the time its
  processing took and \<open>we_duration\<close> that of a stage.
\<close>

record 'w worker_environment =
  we_files :: worker_files
  we_lock :: "string \<Rightarrow> lock_calls"
  we_observer :: "'w observer_environment"
  we_paths :: path_environment
  we_build :: "engine_config \<Rightarrow> document_engine"
  we_run :: "run_options \<Rightarrow> environment"
  we_seconds :: int
  we_duration :: "event \<Rightarrow> int"
  we_defaults :: backend_options
  we_lost :: "'w \<Rightarrow> bool"

text \<open>The observer as the handler of a run's events, which keeps the exception it threw.\<close>

fun what :: "redis_error \<Rightarrow> string" where
  "what (RedisFailure message) = message"
| "what JobCancellationRequested = ''Job cancellation requested''"

definition observer_handler ::
  "'w worker_environment \<Rightarrow> (stage_observer \<times> 'w \<times> redis_error option) event_handler" where
  "observer_handler W e =
     (\<lambda>(o', w, thrown).
        case observe (we_observer W) (we_duration W e) e o' w of
          (Inl err, o', w) \<Rightarrow> (Inl (what err), (o', w, Some err))
        | (Inr _, o', w) \<Rightarrow> (Inr (), (o', w, thrown)))"

definition process_job :: "'w worker_environment \<Rightarrow> run_options \<Rightarrow> backend_options \<Rightarrow> ('w, status) job_run" where
  "process_job W options backends s =
     (case js_observer s of
        None \<Rightarrow> None
      | Some o' \<Rightarrow>
          (case process (we_paths W) (we_build W) (we_run W options) options backends (observer_handler W) (we_seconds W)
              (js_cache s) (o', js_world s, None) of
             (None, cache) \<Rightarrow> None
           | (Some (r, (o', w, thrown)), cache) \<Rightarrow>
               Some (case r of
                       Inr st \<Rightarrow> Inr st
                     | Inl message \<Rightarrow> Inl (case thrown of None \<Rightarrow> RedisFailure message | Some err \<Rightarrow> err),
                     s\<lparr>js_observer := Some o', js_cache := cache, js_world := w\<rparr>)))"

definition execution_id :: "redis_job_lease \<Rightarrow> string" where
  "execution_id lease = ''execution_'' @ int_to_string (rl_generation lease)"

definition execution_directory :: "string \<Rightarrow> redis_job_lease \<Rightarrow> string" where
  "execution_directory job_file lease =
     path_join (path_join (parent_path job_file) ''executions'') (execution_id lease)"

definition make_observer ::
  "'w worker_environment \<Rightarrow> worker_settings \<Rightarrow> string \<Rightarrow> redis_job_lease \<Rightarrow> string \<Rightarrow> string \<Rightarrow> string \<Rightarrow> ('w, unit) job_run" where
  "make_observer W settings job_file lease job_id run_id attempt_id s =
     (case create_observer (we_observer W) job_id run_id attempt_id (execution_directory job_file lease)
         (nat (wk_run_length settings)) (nat (wk_platform_length settings)) (wk_retention_seconds settings)
         (execution_id lease) (rl_sequence lease) (js_world s) of
        (Inl e, w) \<Rightarrow> Some (Inl e, s\<lparr>js_world := w\<rparr>)
      | (Inr o', w) \<Rightarrow> Some (Inr (), s\<lparr>js_observer := Some o', js_world := w\<rparr>))"

text \<open>The loop that compares the job's names with those of the queue.\<close>

fun identities_agree :: "worker_files \<Rightarrow> stream_message \<Rightarrow> json \<Rightarrow> string list \<Rightarrow> string + unit" where
  "identities_agree F message job [] = Inr ()"
| "identities_agree F message job (key # keys) =
     (case sm_fields message key of
        None \<Rightarrow> identities_agree F message job keys
      | Some queued \<Rightarrow>
          try_with (at_string F key job) (\<lambda>v.
            if queued \<noteq> v then Inl (''Job identity differs from queue: '' @ key) else identities_agree F message job keys))"

definition canonical_run_directory :: "worker_files \<Rightarrow> string \<Rightarrow> json \<Rightarrow> string + bool" where
  "canonical_run_directory F job_file job =
     try_with (at_string F ''output_directory'' job) (\<lambda>output.
     try_with (wf_canonical F (parent_path output)) (\<lambda>output_root.
     try_with (wf_canonical F (parent_path job_file)) (\<lambda>run_root. Inr (output_root = run_root))))"

text \<open>The job's document, read and compared with the queue message; it makes the observer if that is not there yet.\<close>

definition checked_job ::
  "'w worker_environment \<Rightarrow> worker_settings \<Rightarrow> string \<Rightarrow> redis_job_lease \<Rightarrow> stream_message \<Rightarrow> ('w, json \<times> string) job_run" where
  "checked_job W settings job_file lease message =
     job_then (job_try (loadJob (we_files W) job_file)) (\<lambda>job.
     job_then (job_try (at_string (we_files W) ''job_id'' job)) (\<lambda>job_id.
     job_then (job_try (at_string (we_files W) ''run_id'' job)) (\<lambda>run_id.
     job_then (job_try (at_string (we_files W) ''attempt_id'' job)) (\<lambda>attempt_id.
     job_then (\<lambda>s. if js_observer s = None then make_observer W settings job_file lease job_id run_id attempt_id s
                   else job_return () s) (\<lambda>_.
     job_then (job_try (identities_agree (we_files W) message job [''job_id'', ''run_id'', ''attempt_id''])) (\<lambda>_.
     job_then (job_try (validateJob (we_files W) (wk_runtime_root settings) job)) (\<lambda>_.
     job_then (job_try (canonical_run_directory (we_files W) job_file job)) (\<lambda>canonical.
     job_then (job_require canonical ''Job output must belong to its canonical Run directory'') (\<lambda>_.
       job_return (job, run_id))))))))))"

definition job_options ::
  "'w worker_environment \<Rightarrow> string \<Rightarrow> redis_job_lease \<Rightarrow> json \<Rightarrow> string + run_options \<times> backend_options" where
  "job_options W job_file lease job =
     try_with (optionsFromJob (we_files W) (we_defaults W) job) (\<lambda>(options, backends).
       Inr (options\<lparr>ro_output_directory := path_join (execution_directory job_file lease) ''output''\<rparr>, backends))"

definition is_started :: "string \<Rightarrow> ('w, unit) job_run" where
  "is_started run_id s = Some (Inr (), s\<lparr>js_heartbeat := setRunning run_id\<rparr>)"

text \<open>Whether the run succeeded, and its message.\<close>

definition run_job ::
  "'w worker_environment \<Rightarrow> worker_settings \<Rightarrow> string \<Rightarrow> redis_job_lease \<Rightarrow> json \<Rightarrow> string \<Rightarrow> ('w, bool \<times> string) job_run" where
  "run_job W settings job_file lease job run_id =
     job_then (is_started run_id) (\<lambda>_.
     job_then (on_observer (publishJobEvent (we_observer W) ''job_started'' [])) (\<lambda>_.
       if rl_generation lease > wk_maximum_executions settings
       then job_then (on_observer (onStageFailed (we_observer W) ''configure'' ''worker.recovery_exhausted''
               ''Worker execution recovery limit exceeded'' False)) (\<lambda>_. job_return (False, []))
       else
         job_then (job_try (job_options W job_file lease job)) (\<lambda>(options, backends).
         job_then (process_job W options backends) (\<lambda>st. job_return (ok_status st, status_message st)))))"

text \<open>The \<open>try\<close> block of a message that is leased.\<close>

definition attempt_job ::
  "'w worker_environment \<Rightarrow> worker_settings \<Rightarrow> string \<Rightarrow> redis_job_lease \<Rightarrow> stream_message \<Rightarrow> ('w, bool \<times> string) job_run" where
  "attempt_job W settings job_file lease message =
     job_then (job_try (isInside (we_files W) job_file (wk_runtime_root settings))) (\<lambda>inside.
     job_then (job_require inside ''Job path must remain inside WORKER_RUNTIME_ROOT'') (\<lambda>_.
     job_then (job_try (fst (lock_artifacts (we_lock W (parent_path job_file))))) (\<lambda>_.
     job_then (case (sm_fields message ''job_id'', sm_fields message ''run_id'', sm_fields message ''attempt_id'') of
                 (Some job_id, Some run_id, Some attempt_id) \<Rightarrow> make_observer W settings job_file lease job_id run_id attempt_id
               | _ \<Rightarrow> job_return ()) (\<lambda>_.
     job_then (checked_job W settings job_file lease message) (\<lambda>(job, run_id).
       run_job W settings job_file lease job run_id)))))"

text \<open>
  How the handling of a message ends: nothing to report it with, reported, or the worker ends with an
  exception.
\<close>

datatype job_end = Unreported | Reported string | WorkerFails string

definition report_end :: "'w worker_environment \<Rightarrow> string \<Rightarrow> string \<Rightarrow> 'w job_state \<Rightarrow> (job_end \<times> 'w job_state) option" where
  "report_end W kind message s =
     (case on_observer (publishJobEvent (we_observer W) kind message) s of
        None \<Rightarrow> None
      | Some (Inr _, s) \<Rightarrow> Some (Reported kind, s)
      | Some (Inl (RedisFailure error), s) \<Rightarrow> Some (WorkerFails error, s)
      | Some (Inl JobCancellationRequested, s) \<Rightarrow>
          (case on_observer (publishJobEvent (we_observer W) ''job_cancelled'' []) s of
             None \<Rightarrow> None
           | Some (Inr _, s) \<Rightarrow> Some (Reported ''job_cancelled'', s)
           | Some (Inl error, s) \<Rightarrow> Some (WorkerFails (what error), s)))"

definition handle_job ::
  "'w worker_environment \<Rightarrow> worker_settings \<Rightarrow> string \<Rightarrow> redis_job_lease \<Rightarrow> stream_message \<Rightarrow> 'w job_state \<Rightarrow> (job_end \<times> 'w job_state) option" where
  "handle_job W settings job_file lease message s =
     (case attempt_job W settings job_file lease message (s\<lparr>js_observer := None\<rparr>) of
        None \<Rightarrow> None
      | Some (outcome, s) \<Rightarrow>
          let finish = (\<lambda>succeeded message.
                if we_lost W (js_world s)
                then Some (WorkerFails
                  ''job lease was lost; results retained only in the superseded execution directory'', s)
                else report_end W (if succeeded then ''job_succeeded'' else ''job_failed'') message s)
          in case outcome of
               Inr (succeeded, message) \<Rightarrow> finish succeeded message
             | Inl JobCancellationRequested \<Rightarrow> finish False []
             | Inl (RedisFailure message) \<Rightarrow>
                 if js_observer s = None then Some (Unreported, s) else finish False message)"

subsection \<open>The loop over the queue\<close>

text \<open>The worker's Redis client as its observer's writer: the world is the network with the client.\<close>

definition client_observer ::
  "'n network \<Rightarrow> script_texts \<Rightarrow> ('n \<times> redis_client) observer_environment \<Rightarrow> ('n \<times> redis_client) observer_environment" where
  "client_observer N T E = E\<lparr>oe_publish := \<lambda>run_id event state run_length platform_length retention (n, client).
     case publishEvent N T run_id event state run_length platform_length retention n client of
       (r, n, client) \<Rightarrow> (r, (n, client))\<rparr>"

definition take_message ::
  "'n network \<Rightarrow> script_texts \<Rightarrow> worker_settings \<Rightarrow> string \<Rightarrow> string \<Rightarrow> 'n \<Rightarrow> redis_client \<Rightarrow>
   ('n, stream_message option) redis_result \<times> string" where
  "take_message N T settings consumer cursor n client =
     (case reclaimExpired N T (wk_job_stream settings) (wk_consumer_group settings) consumer (wk_job_lease_ms settings) cursor n client of
        ((Inr None, n, client), cursor) \<Rightarrow>
          (readGroup N (wk_job_stream settings) (wk_consumer_group settings) consumer 500 n client, cursor)
      | (r, cursor) \<Rightarrow> (r, cursor))"

record 'n worker_loop =
  wl_cursor :: string
  wl_state :: "('n \<times> redis_client) job_state"

datatype iteration = NoMessage | NoJobPath | NotLeased | Handled job_end | Failed string

definition with_world :: "'n \<Rightarrow> redis_client \<Rightarrow> string \<Rightarrow> ('n \<times> redis_client) job_state \<Rightarrow> 'n worker_loop" where
  "with_world n client cursor s = \<lparr>wl_cursor = cursor, wl_state = s\<lparr>js_world := (n, client)\<rparr>\<rparr>"

definition worker_iteration ::
  "'n network \<Rightarrow> script_texts \<Rightarrow> ('n \<times> redis_client) worker_environment \<Rightarrow> worker_settings \<Rightarrow> string \<Rightarrow> 'n worker_loop \<Rightarrow>
   (iteration \<times> 'n worker_loop) option" where
  "worker_iteration N T W settings consumer l =
     (let W = W\<lparr>we_observer := client_observer N T (we_observer W)\<rparr>;
          s = (wl_state l)\<lparr>js_heartbeat := setIdle\<rparr>;
          (n, client) = js_world s in
      case take_message N T settings consumer (wl_cursor l) n (clearJob client) of
        ((Inl e, n, client), cursor) \<Rightarrow> Some (Failed (what e), with_world n client cursor s)
      | ((Inr None, n, client), cursor) \<Rightarrow> Some (NoMessage, with_world n client cursor s)
      | ((Inr (Some message), n, client), cursor) \<Rightarrow>
          (case sm_fields message ''job_path'' of
             None \<Rightarrow>
               (case acknowledge N (wk_job_stream settings) (wk_consumer_group settings) (sm_id message) n client of
                  (Inl e, n, client) \<Rightarrow> Some (Failed (what e), with_world n client cursor s)
                | (Inr _, n, client) \<Rightarrow> Some (NoJobPath, with_world n client cursor s))
           | Some job_path \<Rightarrow>
               (case acquireJob N T (wk_job_stream settings) (wk_consumer_group settings) consumer message (wk_job_lease_ms settings)
                   n client of
                  (Inl e, n, client) \<Rightarrow> Some (Failed (what e), with_world n client cursor s)
                | (Inr None, n, client) \<Rightarrow> Some (NotLeased, with_world n client cursor s)
                | (Inr (Some lease), n, client) \<Rightarrow>
                    map_option (\<lambda>(ended, s). (Handled ended, \<lparr>wl_cursor = cursor, wl_state = s\<rparr>))
                      (handle_job W settings job_path lease message (s\<lparr>js_world := (n, client)\<rparr>)))))"

text \<open>
  The loop of \<open>main\<close> and its exit status: each element is one reading of \<open>running\<close>, which a signal
  clears.
\<close>

fun run_worker ::
  "'n network \<Rightarrow> script_texts \<Rightarrow> ('n \<times> redis_client) worker_environment \<Rightarrow> worker_settings \<Rightarrow> string \<Rightarrow> bool list \<Rightarrow>
   'n worker_loop \<Rightarrow> (int \<times> 'n worker_loop) option" where
  "run_worker N T W settings consumer [] l = Some (0, l)"
| "run_worker N T W settings consumer (running # later) l =
     (if \<not> running then Some (0, l)
      else
        case worker_iteration N T W settings consumer l of
          None \<Rightarrow> None
        | Some (Failed _, l) \<Rightarrow> Some (1, l)
        | Some (Handled (WorkerFails _), l) \<Rightarrow> Some (1, l)
        | Some (_, l) \<Rightarrow> run_worker N T W settings consumer later l)"

datatype worker_mode = UsageError | PrintConfig | RunWorker

definition worker_mode_of :: "string list \<Rightarrow> worker_mode" where
  "worker_mode_of arguments =
     (if length arguments > 2 \<or> (length arguments = 2 \<and> arguments ! 1 \<noteq> ''--print-engine-config'') then UsageError
      else if length arguments = 2 then PrintConfig else RunWorker)"

definition start_worker ::
  "'n network \<Rightarrow> script_texts \<Rightarrow> ('n \<times> redis_client) worker_environment \<Rightarrow> worker_settings \<Rightarrow> string \<Rightarrow> engine_config \<Rightarrow> bool list \<Rightarrow>
   'n \<Rightarrow> (int \<times> 'n) option" where
  "start_worker N T W settings consumer config readings n =
     (case ensureConsumerGroup N (wk_job_stream settings) (wk_consumer_group settings) n \<lparr>rc_connection = None, rc_lease = None\<rparr> of
        (Inl _, n, _) \<Rightarrow> Some (1, n)
      | (Inr _, n, client) \<Rightarrow>
          (case create_cache config (nat (wk_cache_size settings)) of
             Inl _ \<Rightarrow> Some (1, n)
           | Inr cache \<Rightarrow>
               map_option (\<lambda>(code, l). (code, fst (js_world (wl_state l))))
                 (run_worker N T W settings consumer readings
                   \<lparr>wl_cursor = ''-'', wl_state = \<lparr>js_observer = None, js_cache = cache, js_heartbeat = setIdle,
                      js_world = (n, client)\<rparr>\<rparr>)))"

text \<open>\<open>main\<close>: the arguments and the settings that are refused give the status 2.\<close>

definition worker_main ::
  "process_environment \<Rightarrow> 'n network \<Rightarrow> script_texts \<Rightarrow> ('n \<times> redis_client) worker_environment \<Rightarrow> string \<Rightarrow> engine_config \<Rightarrow>
   string list \<Rightarrow> bool list \<Rightarrow> 'n \<Rightarrow> (int \<times> 'n) option" where
  "worker_main pe N T W consumer config arguments readings n =
     (case worker_mode_of arguments of
        UsageError \<Rightarrow> Some (2, n)
      | PrintConfig \<Rightarrow> Some (0, n)
      | RunWorker \<Rightarrow>
          (case worker_settings_of pe of
             None \<Rightarrow> Some (2, n)
           | Some settings \<Rightarrow> start_worker N T W settings consumer config readings n))"

subsection \<open>Only checked jobs are run\<close>

lemma require_that_Inr [simp]: "require_that b message = Inr u \<longleftrightarrow> b"
  by (simp add: require_that_def)

lemma job_then_Inr:
  "job_then m f s = Some (Inr y, s') \<longleftrightarrow> (\<exists>x s1. m s = Some (Inr x, s1) \<and> f x s1 = Some (Inr y, s'))"
  by (auto simp: job_then_def split: option.splits sum.splits)

lemma job_try_Inr: "job_try r s = Some (Inr x, s') \<longleftrightarrow> r = Inr x \<and> s' = s"
  by (auto simp: job_try_def split: sum.splits)

lemma job_require_Inr: "job_require b message s = Some (Inr x, s') \<longleftrightarrow> b \<and> s' = s"
  by (auto simp: job_require_def job_try_Inr)

lemma validateJob_Inr:
  assumes "validateJob F root' job = Inr ()"
  obtains input target limits t p where "job_input F job = Inr input" "at_string F ''output_directory'' job = Inr target"
    "wf_regular F input = Inr True" "inside_root F input target root' = Inr True" "size_matches F job input = Inr True"
    "wf_header F input = ''%PDF-''" "json_at F ''limits'' job = Inr limits" "at_int F ''timeout_seconds'' limits = Inr t"
    "at_int F ''maximum_pages'' limits = Inr p" "1 \<le> t" "t \<le> 86400" "1 \<le> p" "p \<le> 10000"
  using assms unfolding validateJob_def try_with_Inr by auto

lemma inside_root_Inr: "inside_root F input target root' = Inr True \<Longrightarrow> isInside F input root' = Inr True \<and> isInside F target root' = Inr True"
  by (auto simp: inside_root_def try_with_Inr split: if_splits)

lemma job_options_Inr:
  assumes "job_options W job_file lease job = Inr (options, backends)"
  obtains limits where "job_input (we_files W) job = Inr (ro_input_path options)" "at_string (we_files W) ''run_id'' job = Inr (ro_run_id options)"
    "json_at (we_files W) ''limits'' job = Inr limits" "at_int (we_files W) ''timeout_seconds'' limits = Inr (ro_timeout_seconds options)"
    "at_int (we_files W) ''maximum_pages'' limits = Inr (ro_maximum_pages options)"
    "ro_output_directory options = path_join (execution_directory job_file lease) ''output''"
  using assms unfolding job_options_def optionsFromJob_def try_with_Inr by auto

lemma checked_job_Inr:
  assumes "checked_job W settings job_file lease message s = Some (Inr (job, run_id), s')"
  shows "validateJob (we_files W) (wk_runtime_root settings) job = Inr ()" "at_string (we_files W) ''run_id'' job = Inr run_id"
    "identities_agree (we_files W) message job [''job_id'', ''run_id'', ''attempt_id''] = Inr ()"
    "canonical_run_directory (we_files W) job_file job = Inr True"
  using assms unfolding checked_job_def job_then_Inr job_try_Inr job_require_Inr job_return_def by auto

lemma execution_directory_inj:
  "execution_directory job_file lease = execution_directory job_file lease' \<longleftrightarrow> rl_generation lease = rl_generation lease'"
  by (auto simp: execution_directory_def execution_id_def path_join_def int_to_string_inj)

end
