(* ===== verification/Event_Report.thy ===== *)
theory Event_Report
  imports Stage_Observer Utf8
begin

text \<open>
  What a run's observer reports of its events. A published text is the dump of an object that has the
  event's own fields (\<open>event_fields\<close>) and those of its attempt (\<open>envelope\<close>), and no others. The interface
  \<open>event_store\<close> is what the observer relies on: a JSON library that prints every value whose strings are
  UTF-8, a store that takes every event with a greater sequence number, and files that can be written.
\<close>

subsection \<open>Values that the JSON library prints\<close>

definition utf8_text :: "string \<Rightarrow> bool" where
  "utf8_text s \<longleftrightarrow> utf8_decode s \<noteq> None"

fun json_utf8 :: "json \<Rightarrow> bool" where
  "json_utf8 (JString s) \<longleftrightarrow> utf8_text s"
| "json_utf8 (JArray js) \<longleftrightarrow> list_all json_utf8 js"
| "json_utf8 (JObject entries) \<longleftrightarrow> list_all (\<lambda>(k, v). utf8_text k \<and> json_utf8 v) entries"
| "json_utf8 _ \<longleftrightarrow> True"

lemma utf8_nil [simp]: "utf8_text []"
  by (simp add: utf8_text_def utf8_decode.simps)

lemma utf8_cons [simp]: "code c < 128 \<Longrightarrow> utf8_text (c # s) = utf8_text s"
  unfolding utf8_text_def by (subst utf8_decode.simps) simp

lemma utf8_ascii: "list_all (\<lambda>c. code c < 128) s \<Longrightarrow> utf8_text s"
  by (induction s) simp_all

lemma utf8_scalar_append: "utf8_scalar s = Some (n, t) \<Longrightarrow> utf8_scalar (s @ u) = Some (n, t @ u)"
  by (cases s) (auto simp: Let_def split: if_splits list.splits)

lemma utf8_append: "utf8_text s \<Longrightarrow> utf8_text u \<Longrightarrow> utf8_text (s @ u)"
proof (induction s rule: utf8_decode.induct)
  case (1 s)
  show ?case
  proof (cases "s = []")
    case False
    then obtain n t where scalar: "utf8_scalar s = Some (n, t)" "utf8_text t"
      using "1.prems"(1) by (auto simp: utf8_text_def utf8_decode.simps[of s] split: option.splits)
    then have "utf8_text (t @ u)" using "1.IH" False "1.prems"(2) by blast
    then show ?thesis
      using False utf8_scalar_append[OF scalar(1)] by (auto simp: utf8_text_def utf8_decode.simps[of "s @ u"])
  qed (simp add: "1.prems")
qed

lemma utf8_int [simp]: "utf8_text (int_to_string n)"
proof -
  have "code c < 128" if "isdigit c" for c using that by (simp add: isdigit_def code_def)
  then have "utf8_text (nat_to_string k)" for k
    by (intro utf8_ascii) (auto simp: list_all_iff dest: nat_to_string_digits)
  then show ?thesis by (simp add: int_to_string_def code_def)
qed

lemma json_utf8_set: "utf8_text k \<Longrightarrow> json_utf8 v \<Longrightarrow> json_utf8 j \<Longrightarrow> json_utf8 (json_set k v j)"
  by (cases j) (auto simp: json_set_def list_all_iff)

lemma json_utf8_set_if: "utf8_text k \<Longrightarrow> (c \<Longrightarrow> json_utf8 v) \<Longrightarrow> json_utf8 j \<Longrightarrow> json_utf8 (set_if c k v j)"
  by (simp add: set_if_def json_utf8_set)


subsection \<open>What a text says\<close>

text \<open>The names of an attempt: its job, run, attempt and execution.\<close>

type_synonym attempt_names = "string \<times> string \<times> string \<times> string"

definition names_of :: "stage_observer \<Rightarrow> attempt_names" where
  "names_of o' = (so_job_id o', so_run_id o', so_attempt_id o', so_execution_id o')"

definition names_utf8 :: "attempt_names \<Rightarrow> bool" where
  "names_utf8 names \<longleftrightarrow> (case names of (job_id, run_id, attempt_id, execution) \<Rightarrow>
     utf8_text job_id \<and> utf8_text run_id \<and> utf8_text attempt_id \<and> utf8_text execution)"

definition envelope :: "attempt_names \<Rightarrow> int \<Rightarrow> string \<Rightarrow> (string \<times> json) list" where
  "envelope names n stamp = (case names of (job_id, run_id, attempt_id, execution) \<Rightarrow>
     (if execution \<noteq> [] then [(''execution_id'', JString execution)] else []) @
     [(''timestamp'', JString stamp), (''sequence'', JInt n), (''attempt_id'', JString attempt_id), (''run_id'', JString run_id),
      (''job_id'', JString job_id), (''event_id'', JString (''evt_'' @ run_id @ ''_'' @ int_to_string n)), (''schema_version'', JInt 1)])"

fun event_fields :: "int \<Rightarrow> event \<Rightarrow> (string \<times> json) list" where
  "event_fields _ (StageStarted stage backend _) =
     [(''type'', JString ''stage_started''), (''stage'', JString stage), (''backend'', JString backend)]"
| "event_fields _ (StageProgress stage completed n_pages) =
     [(''type'', JString ''stage_progress''), (''stage'', JString stage),
      (''progress'', JObject [(''completed'', JInt completed), (''total'', JInt n_pages)])]"
| "event_fields _ (ArtifactReady stage kind path page_number) =
     [(''type'', JString ''artifact_ready''), (''stage'', JString stage), (''artifact_id'', JString (''artifact_'' @ stage @ ''_'' @ kind @
        (if page_number > 0 then ''_page_'' @ int_to_string page_number else [])))]"
| "event_fields duration (StageCompleted stage) =
     [(''type'', JString ''stage_completed''), (''stage'', JString stage), (''duration_ms'', JInt duration)]"
| "event_fields _ (StageFailed stage error_code message retryable) =
     [(''type'', JString ''stage_failed''), (''stage'', JString stage), (''error'', error_object error_code message retryable)]"
| "event_fields _ (StageWarning d) =
     (if dg_page_number d > 0 then [(''page_number'', JInt (dg_page_number d))] else []) @
     [(''type'', JString ''stage_warning''), (''stage'', JString (dg_stage d)),
      (''warning'', JObject [(''code'', JString (dg_code d)), (''message'', JString (dg_message d)),
         (''details'', JObject (map (\<lambda>(key, v). (key, JString v)) (dg_details d)))])]"
| "event_fields _ (RunConfigured provenance) =
     [(''type'', JString ''run_configured''),
      (''engine'', JObject [(''name'', JString (rp_engine_name provenance)), (''version'', JString (rp_engine_version provenance)),
         (''git_revision'', JString (rp_git_revision provenance))]),
      (''backends'', JObject [(''requested'', backendOptions (br_requested (rp_backends provenance))),
         (''resolved'', backendOptions (br_resolved (rp_backends provenance))),
         (''config_source'', JString (br_config_source (rp_backends provenance)))]),
      (''models'', JArray (map model_json (rp_models provenance)))]"

text \<open>An event whose strings are UTF-8; the manifest of an artifact has its path and kind, too.\<close>

definition event_utf8 :: "int \<Rightarrow> event \<Rightarrow> bool" where
  "event_utf8 duration e \<longleftrightarrow> json_utf8 (JObject (event_fields duration e)) \<and>
     (case e of ArtifactReady _ kind path _ \<Rightarrow> utf8_text kind \<and> utf8_text path | _ \<Rightarrow> True)"

text \<open>
  The texts are the dumps of objects with these fields, one by one, numbered from the number after \<open>q\<close>.
\<close>

fun reported ::
  "'n observer_environment \<Rightarrow> attempt_names \<Rightarrow> int \<Rightarrow> (string \<times> json) list list \<Rightarrow> string list \<Rightarrow> bool" where
  "reported E names q [] texts \<longleftrightarrow> texts = []"
| "reported E names q (event # later) texts \<longleftrightarrow>
     (case texts of [] \<Rightarrow> False
      | encoded # texts \<Rightarrow>
          (\<exists>j stamp. oe_dump E j = Inr encoded \<and> json_get j = map_of (envelope names (q + 1) stamp @ event)) \<and>
          reported E names (q + 1) later texts)"

lemma reported_append:
  "reported E names q events texts \<Longrightarrow> reported E names (q + int (length events)) later others \<Longrightarrow>
   reported E names q (events @ later) (texts @ others)"
proof (induction events arbitrary: q texts)
  case (Cons event events)
  then obtain encoded texts' where "texts = encoded # texts'" by (cases texts) auto
  then show ?case using Cons.prems Cons.IH[of "q + 1" texts'] by (simp add: algebra_simps)
qed simp

lemma reported_length: "reported E names q events texts \<Longrightarrow> length texts = length events"
  by (induction events arbitrary: q texts) (auto split: list.splits)

lemma stamped_fields:
  assumes "is_object event" "json_get event = map_of fields'"
  shows "json_get (stamped_event o' stamp event) = map_of (envelope (names_of o') (so_sequence o') stamp @ fields')"
  using assms by (simp add: fun_eq_iff stamped_event_def envelope_def names_of_def set_if_def)

lemma stamped_utf8:
  "json_utf8 event \<Longrightarrow> names_utf8 (names_of o') \<Longrightarrow> utf8_text stamp \<Longrightarrow> json_utf8 (stamped_event o' stamp event)"
  unfolding stamped_event_def
  by (intro json_utf8_set_if json_utf8_set) (simp_all add: names_utf8_def names_of_def code_def utf8_append)

lemma fields_get: "json_get (JObject fields') = map_of fields'"
  by (simp add: fun_eq_iff json_get_def)

text \<open>What a failure leaves of the last error of a run.\<close>

fun failure_noted :: "event \<Rightarrow> string \<times> string \<times> bool \<Rightarrow> string \<times> string \<times> bool" where
  "failure_noted (StageFailed _ error_code message retryable) _ = (error_code, message, retryable)"
| "failure_noted _ last_error = last_error"

definition last_error_of :: "stage_observer \<Rightarrow> string \<times> string \<times> bool" where
  "last_error_of o' = (so_last_error_code o', so_last_error o', so_last_error_retryable o')"


subsection \<open>The objects that are published\<close>

lemma published_object:
  assumes "\<nexists>stage kind path page_number. e = ArtifactReady stage kind path page_number"
  obtains j where "observe E duration e o' n = publish E j (case e of
      StageFailed _ error_code message retryable \<Rightarrow>
        o'\<lparr>so_last_error_code := error_code, so_last_error := message, so_last_error_retryable := retryable\<rparr>
    | _ \<Rightarrow> o') n"
    "is_object j" "json_utf8 j = json_utf8 (JObject (event_fields duration e))" "json_get j = map_of (event_fields duration e)"
    "\<not> terminal_event j"
proof (cases "\<exists>d. e = StageWarning d")
  case True
  then obtain d where d: "e = StageWarning d" by blast
  let ?j = "JObject [(''type'', JString ''stage_warning''), (''stage'', JString (dg_stage d)),
    (''warning'', JObject [(''code'', JString (dg_code d)), (''message'', JString (dg_message d)),
       (''details'', JObject (map (\<lambda>(key, v). (key, JString v)) (dg_details d)))])]"
  let ?w = "set_if (dg_page_number d > 0) ''page_number'' (JInt (dg_page_number d)) ?j"
  have "json_get ?w = map_of (event_fields duration e)"
    by (simp add: fun_eq_iff d fields_get is_object_def)
  moreover have "is_object ?w" "json_utf8 ?w = json_utf8 (JObject (event_fields duration e))"
    by (simp_all add: d set_if_def json_set_def is_object_def code_def)
  moreover from this have "\<not> terminal_event ?w"
    by (simp add: terminal_event_def event_string_def terminal_type_def is_object_def json_get_def[of "JObject _"])
  ultimately show thesis using that[of ?w] by (simp add: d observe_def onStageWarning_def)
next
  case False
  let ?j = "JObject (event_fields duration e)"
  have "is_object ?j" "\<not> terminal_event ?j"
    using assms False
    by (cases e; simp add: is_object_def terminal_event_def event_string_def fields_get terminal_type_def)+
  moreover have "observe E duration e o' n = publish E ?j (case e of
      StageFailed _ error_code message retryable \<Rightarrow>
        o'\<lparr>so_last_error_code := error_code, so_last_error := message, so_last_error_retryable := retryable\<rparr>
    | _ \<Rightarrow> o') n"
    using assms False
    by (cases e) (simp_all add: observe_def onStageStarted_def onStageProgress_def onStageCompleted_def onStageFailed_def
        onRunConfigured_def)
  ultimately show thesis using that[of ?j] fields_get by blast
qed

subsection \<open>The store, the library and the files\<close>

definition keeps :: "(string \<Rightarrow> int \<Rightarrow> 'n \<Rightarrow> bool) \<Rightarrow> ('n \<Rightarrow> string list) \<Rightarrow> 'n \<Rightarrow> 'n \<Rightarrow> bool" where
  "keeps accepts published n n' \<longleftrightarrow> published n' = published n \<and> (\<forall>run_id q. accepts run_id q n \<longrightarrow> accepts run_id q n')"

text \<open>
  \<open>accepts run_id q\<close>: the store takes events of the run that are numbered after \<open>q\<close>. After a terminal
  event it need take no more. \<open>published\<close>: the texts it has taken.
\<close>

locale event_store =
  fixes E :: "'n observer_environment"
    and accepts :: "string \<Rightarrow> int \<Rightarrow> 'n \<Rightarrow> bool"
    and published :: "'n \<Rightarrow> string list"
  assumes dumps: "json_utf8 j \<Longrightarrow> \<exists>encoded. oe_dump E j = Inr encoded"
    and dumps_indented: "json_utf8 j \<Longrightarrow> \<exists>printed. oe_dump_indented E j = Inr printed"
    and publishes: "accepts run_id q n \<Longrightarrow> oe_dump E j = Inr encoded \<Longrightarrow> event_number j ''sequence'' = Some k \<Longrightarrow> q < k \<Longrightarrow>
      \<exists>n'. oe_publish E run_id encoded state run_length platform_length retention n = (Inr (), n') \<and>
        published n' = published n @ [encoded] \<and> (terminal_event j \<or> accepts run_id k n')"
    and stamps: "utf8_text (fst (oe_timestamp E n)) \<and> keeps accepts published n (snd (oe_timestamp E n))"
    and appends: "keeps accepts published n (oe_append E path added n)"
    and writes: "fst (oe_write E path written n) = Written \<and> keeps accepts published n (snd (oe_write E path written n))"
    and directories: "fst (oe_make_directories E path n) = Inr () \<and> keeps accepts published n (snd (oe_make_directories E path n))"
    and absolute: "utf8_text path \<Longrightarrow> utf8_text (oe_absolute E path)"
begin

text \<open>From \<open>o'\<close> and \<open>n\<close> the observer has published these events, each once and in order.\<close>

definition reports :: "stage_observer \<Rightarrow> 'n \<Rightarrow> (string \<times> json) list list \<Rightarrow> stage_observer \<Rightarrow> 'n \<Rightarrow> bool" where
  "reports o' n events o'' n' \<longleftrightarrow> names_of o'' = names_of o' \<and> so_sequence o'' = so_sequence o' + int (length events) \<and>
     (\<exists>texts. published n' = published n @ texts \<and> reported E (names_of o') (so_sequence o') events texts)"

lemma reports_nothing: "keeps accepts published n n' \<Longrightarrow> reports o' n [] o' n'"
  by (simp add: reports_def keeps_def)

lemma reports_then: "reports o1 n1 events o2 n2 \<Longrightarrow> reports o2 n2 later o3 n3 \<Longrightarrow> reports o1 n1 (events @ later) o3 n3"
  unfolding reports_def using reported_append by fastforce

text \<open>An observer that the store listens to.\<close>

definition heard :: "stage_observer \<Rightarrow> 'n \<Rightarrow> bool" where
  "heard o' n \<longleftrightarrow> accepts (so_run_id o') (so_sequence o') n \<and> names_utf8 (names_of o')"

lemma heard_keeps: "heard o' n \<Longrightarrow> keeps accepts published n n' \<Longrightarrow> heard o' n'"
  by (simp add: heard_def keeps_def)

lemma publish_reports:
  assumes "heard o' n" "is_object event" "json_utf8 event" "json_get event = map_of fields'"
  obtains n' where "publish E event o' n = (Inr (), o'\<lparr>so_sequence := so_sequence o' + 1\<rparr>, n')"
    "reports o' n [fields'] (o'\<lparr>so_sequence := so_sequence o' + 1\<rparr>) n'"
    "terminal_event event \<or> heard (o'\<lparr>so_sequence := so_sequence o' + 1\<rparr>) n'"
proof -
  let ?o = "o'\<lparr>so_sequence := so_sequence o' + 1\<rparr>"
  have same: "names_of ?o = names_of o'" "so_run_id ?o = so_run_id o'" by (simp_all add: names_of_def)
  obtain stamp n1 where stamp: "oe_timestamp E n = (stamp, n1)" "utf8_text stamp" "keeps accepts published n n1"
    using stamps[of n] by (metis fst_conv snd_conv surj_pair)
  let ?j = "stamped_event ?o stamp event"
  have "json_utf8 ?j" using stamped_utf8[OF assms(3), of ?o stamp] assms(1) stamp(2) by (simp add: heard_def same)
  then obtain encoded where encoded: "oe_dump E ?j = Inr encoded" using dumps by blast
  have accepting: "accepts (so_run_id o') (so_sequence o') n1" using assms(1) stamp(3) by (simp add: heard_def keeps_def)
  have later: "event_number ?j ''sequence'' = Some (so_sequence o' + 1)" "so_sequence o' < so_sequence o' + 1"
    using stamped_sequence[OF assms(2), of ?o] by simp_all
  have terminal: "terminal_event ?j = terminal_event event"
    by (simp add: terminal_event_def stamped_type[OF assms(2)])
  obtain n2 where n2: "oe_publish E (so_run_id ?o) encoded (run_state ?o encoded ?j stamp) (so_run_length ?o) (so_platform_length ?o)
      (so_retention ?o) n1 = (Inr (), n2)" "published n2 = published n1 @ [encoded]"
      "terminal_event event \<or> accepts (so_run_id o') (so_sequence o' + 1) n2"
    using publishes[OF accepting encoded later] unfolding terminal same(2) by metis
  let ?n = "oe_append E (path_join (so_run_directory ?o) ''events.ndjson'') (encoded @ line_end) n2"
  have kept: "keeps accepts published n2 ?n" by (rule appends)
  have "publish E event o' n = (Inr (), ?o, ?n)"
    using encoded n2(1) by (simp add: publish_def Let_def stamp(1))
  moreover have "published ?n = published n @ [encoded]" using n2(2) stamp(3) kept by (simp add: keeps_def)
  moreover have "reported E (names_of o') (so_sequence o') [fields'] [encoded]"
    using encoded stamped_fields[OF assms(2,4), of ?o stamp] by (auto simp: same)
  moreover have "terminal_event event \<or> heard ?o ?n"
    using n2(3) kept assms(1) by (auto simp: heard_def keeps_def same)
  ultimately show thesis using that by (simp add: reports_def same)
qed

lemma manifest_written:
  assumes "json_utf8 v"
  obtains n' where "writeJsonAtomically E destination v n = (Inr (), n')" "keeps accepts published n n'"
proof -
  obtain printed where "oe_dump_indented E v = Inr printed" using dumps_indented[OF assms] by blast
  moreover obtain n' where "oe_write E destination (printed @ line_end) n = (Written, n')" "keeps accepts published n n'"
    using writes[of destination "printed @ line_end" n] by (metis prod.collapse)
  ultimately show thesis using that by (simp add: writeJsonAtomically_def)
qed

lemma artifact_utf8:
  assumes "names_utf8 (names_of o')" "utf8_text artifact_id" "utf8_text stage" "utf8_text kind" "utf8_text path" "utf8_text stamp"
  shows "json_utf8 (artifact_json E artifact_id stage kind path page_number stamp o' n)"
proof -
  have "utf8_text (mediaType kind)" by (simp add: mediaType_def code_def)
  then show ?thesis
    using assms absolute[OF assms(5)] unfolding artifact_json_def
    by (intro json_utf8_set_if) (simp_all add: names_utf8_def names_of_def code_def utf8_append)
qed

lemma artifact_reports:
  assumes "heard o' n" "event_utf8 duration (ArtifactReady stage kind path page_number)"
  obtains n' where "observe E duration (ArtifactReady stage kind path page_number) o' n = (Inr (), o'\<lparr>so_sequence := so_sequence o' + 1\<rparr>, n')"
    "reports o' n [event_fields duration (ArtifactReady stage kind path page_number)] (o'\<lparr>so_sequence := so_sequence o' + 1\<rparr>) n'"
    "heard (o'\<lparr>so_sequence := so_sequence o' + 1\<rparr>) n'"
proof -
  let ?e = "ArtifactReady stage kind path page_number"
  let ?id = "''artifact_'' @ stage @ ''_'' @ kind @ (if page_number > 0 then ''_page_'' @ int_to_string page_number else [])"
  have strings: "json_utf8 (JObject (event_fields duration ?e))" "utf8_text ?id" "utf8_text stage" "utf8_text kind" "utf8_text path"
    using assms(2) by (simp_all add: event_utf8_def)
  obtain stamp n1 where stamp: "oe_timestamp E n = (stamp, n1)" "utf8_text stamp" "keeps accepts published n n1"
    using stamps[of n] by (metis fst_conv snd_conv surj_pair)
  have names: "names_utf8 (names_of o')" using assms(1) by (simp add: heard_def)
  obtain n2 where n2: "writeJsonAtomically E (path_join (path_join (so_run_directory o') ''artifacts'') (?id @ ''.json''))
      (artifact_json E ?id stage kind path page_number stamp o' n) n1 = (Inr (), n2)" "keeps accepts published n1 n2"
    using manifest_written[OF artifact_utf8[OF names strings(2-5) stamp(2)]] by metis
  have kept: "keeps accepts published n n2" using stamp(3) n2(2) by (simp add: keeps_def)
  let ?j = "JObject (event_fields duration ?e)"
  have object: "is_object ?j" "\<not> terminal_event ?j"
    by (simp_all add: is_object_def terminal_event_def event_string_def json_get_def terminal_type_def)
  obtain n' where n': "publish E ?j o' n2 = (Inr (), o'\<lparr>so_sequence := so_sequence o' + 1\<rparr>, n')"
      "reports o' n2 [event_fields duration ?e] (o'\<lparr>so_sequence := so_sequence o' + 1\<rparr>) n'"
      "heard (o'\<lparr>so_sequence := so_sequence o' + 1\<rparr>) n'"
    using publish_reports[OF heard_keeps[OF assms(1) kept] object(1) strings(1) fields_get] object(2) by blast
  have "observe E duration ?e o' n = publish E ?j o' n2"
    unfolding observe_def event.case onArtifactReady_def Let_def stamp(1) prod.case n2(1) sum.case event_fields.simps ..
  then show thesis
    using that n' reports_then[OF reports_nothing[OF kept] n'(2)] by simp
qed

lemma observe_reports:
  assumes "heard o' n" "event_utf8 duration e"
  obtains o'' n' where "observe E duration e o' n = (Inr (), o'', n')" "reports o' n [event_fields duration e] o'' n'"
    "heard o'' n'" "last_error_of o'' = failure_noted e (last_error_of o')"
proof (cases "\<exists>stage kind path page_number. e = ArtifactReady stage kind path page_number")
  case True
  then obtain stage kind path page_number where e: "e = ArtifactReady stage kind path page_number" by blast
  show ?thesis
  proof (rule artifact_reports[OF assms(1) assms(2)[unfolded e]])
    fix n'
    assume published: "observe E duration (ArtifactReady stage kind path page_number) o' n = (Inr (), o'\<lparr>so_sequence := so_sequence o' + 1\<rparr>, n')"
      "reports o' n [event_fields duration (ArtifactReady stage kind path page_number)] (o'\<lparr>so_sequence := so_sequence o' + 1\<rparr>) n'"
      "heard (o'\<lparr>so_sequence := so_sequence o' + 1\<rparr>) n'"
    have "last_error_of (o'\<lparr>so_sequence := so_sequence o' + 1\<rparr>) = failure_noted e (last_error_of o')"
      by (simp add: e last_error_of_def)
    then show thesis by (rule that[OF published[folded e]])
  qed
next
  case False
  let ?j = "JObject (event_fields duration e)"
  define before_it where "before_it = (case e of
    StageFailed _ error_code message retryable \<Rightarrow>
      o'\<lparr>so_last_error_code := error_code, so_last_error := message, so_last_error_retryable := retryable\<rparr>
  | _ \<Rightarrow> o')"
  have same: "heard before_it n = heard o' n" "reports before_it n = reports o' n" "so_sequence before_it = so_sequence o'"
    by (auto simp: before_it_def heard_def reports_def names_of_def fun_eq_iff split: event.split)
  have noted: "last_error_of (before_it\<lparr>so_sequence := k\<rparr>) = failure_noted e (last_error_of o')" for k
    by (cases e) (simp_all add: before_it_def last_error_of_def)
  obtain j where j: "observe E duration e o' n = publish E j before_it n" "is_object j" "json_utf8 j = json_utf8 ?j"
      "json_get j = map_of (event_fields duration e)" "\<not> terminal_event j"
    using published_object[OF False] unfolding before_it_def by metis
  have "json_utf8 j" using assms(2) by (simp add: j(3) event_utf8_def)
  then obtain n' where "publish E j before_it n = (Inr (), before_it\<lparr>so_sequence := so_sequence before_it + 1\<rparr>, n')"
      "reports before_it n [event_fields duration e] (before_it\<lparr>so_sequence := so_sequence before_it + 1\<rparr>) n'"
      "heard (before_it\<lparr>so_sequence := so_sequence before_it + 1\<rparr>) n'"
    using publish_reports[of before_it n, OF _ j(2) _ j(4)] assms(1) j(5) unfolding same(1) by blast
  then show thesis using that[OF _ _ _ noted] unfolding j(1) same(2) by blast
qed

end

end
