(* ===== verification/Leased_Store.thy ===== *)
theory Leased_Store
  imports Event_Report
begin

text \<open>
  The store of a leased job: the scripts of \<open>Job_Scripts\<close>, run by a Redis server, as the store that an
  observer reports to. While the job's lease runs and the run is not cancelled it is an \<open>event_store\<close>.
\<close>

subsection \<open>Keys\<close>

text \<open>
  The commands of a publication write one key, and give it no other type than their own. (\<open>XADD\<close>
  makes streams and \<open>HSET\<close> hashes; \<open>EXPIRE\<close> may delete the key.)
\<close>

definition touches :: "'s redis_server \<Rightarrow> string \<Rightarrow> string \<Rightarrow> 's \<Rightarrow> 's \<Rightarrow> bool" where
  "touches R key kind s s' \<longleftrightarrow>
     (\<forall>key'. key' \<noteq> key \<longrightarrow> rs_get R s' key' = rs_get R s key' \<and> rs_type R s' key' = rs_type R s key') \<and>
     (rs_type R s key = ''none'' \<or> rs_type R s key = kind \<longrightarrow> rs_type R s' key = ''none'' \<or> rs_type R s' key = kind)"

definition key_laws :: "'s redis_server \<Rightarrow> bool" where
  "key_laws R \<longleftrightarrow>
     (\<forall>key len event s. touches R key ''stream'' s (rs_add R key len event s)) \<and>
     (\<forall>key fvs s. touches R key ''hash'' s (rs_hset R key fvs s)) \<and>
     (\<forall>key n s kind. touches R key kind s (rs_expire R key n s))"

text \<open>What a publication needs of the keys of its run: their types, and that the run is not cancelled.\<close>

definition run_keys :: "string \<Rightarrow> (string \<times> string) list" where
  "run_keys run_id = [(''run-events:'' @ run_id, ''stream''), (''platform-events'', ''stream''), (''run:'' @ run_id, ''hash'')]"

definition uncancelled :: "'s redis_server \<Rightarrow> string \<Rightarrow> 's \<Rightarrow> bool" where
  "uncancelled R run_id s \<longleftrightarrow> rs_get R s (''run-cancel:'' @ run_id) = None \<and> wrong_type R s (run_keys run_id) = None"

lemma wrong_type_None: "wrong_type R s keys = None \<longleftrightarrow> list_all (\<lambda>(key, kind). rs_type R s key = ''none'' \<or> rs_type R s key = kind) keys"
  by (auto simp: wrong_type_def find_None_iff list_all_iff)

lemma uncancelled_touched:
  assumes "touches R key kind s s'" "uncancelled R run_id s" "key \<noteq> ''run-cancel:'' @ run_id"
    and "\<And>kind'. (key, kind') \<in> set (run_keys run_id) \<Longrightarrow> kind' = kind"
  shows "uncancelled R run_id s'"
proof -
  have other: "rs_get R s' key' = rs_get R s key'" "rs_type R s' key' = rs_type R s key'" if "key' \<noteq> key" for key'
    using assms(1) that by (simp_all add: touches_def)
  have "rs_type R s' key' = ''none'' \<or> rs_type R s' key' = kind'" if "(key', kind') \<in> set (run_keys run_id)" for key' kind'
  proof -
    have "rs_type R s key' = ''none'' \<or> rs_type R s key' = kind'"
      using assms(2) that by (auto simp: uncancelled_def wrong_type_None list_all_iff)
    then show ?thesis using assms(1,4) that other(2)[of key'] by (cases "key' = key") (auto simp: touches_def)
  qed
  then show ?thesis
    using assms(2,3) other(1) by (auto simp: uncancelled_def wrong_type_None list_all_iff)
qed

lemma publication_keeps_open:
  assumes "key_laws R" "uncancelled R run_id s" "a = publication_of lease run_id event state rlen plen retention"
  shows "uncancelled R run_id (store_event R a s)"
proof -
  note laws = assms(1)[unfolded key_laws_def]
  have keys: "pu_run_events a = ''run-events:'' @ run_id" "pu_platform_events a = ''platform-events''" "pu_run_key a = ''run:'' @ run_id"
    by (simp_all add: assms(3) publication_of_def)
  have add: "uncancelled R run_id u \<Longrightarrow> uncancelled R run_id (rs_add R key len added u)"
    if "key = ''run-events:'' @ run_id \<or> key = ''platform-events''" for key len added u
    by (rule uncancelled_touched[of R key "''stream''" u]) (use laws that in \<open>auto simp: run_keys_def\<close>)
  have hset: "uncancelled R run_id u \<Longrightarrow> uncancelled R run_id (rs_hset R (''run:'' @ run_id) fvs u)" for fvs u
    by (rule uncancelled_touched[of R "''run:'' @ run_id" "''hash''" u]) (use laws in \<open>auto simp: run_keys_def\<close>)
  have fields: "uncancelled R run_id u \<Longrightarrow> uncancelled R run_id (foldl (\<lambda>s (field, v). rs_hset R (''run:'' @ run_id) [(field, v)] s) u fvs)" for u fvs
    by (induction fvs arbitrary: u) (use hset in auto)
  have expire: "uncancelled R run_id u \<Longrightarrow> uncancelled R run_id (rs_expire R key n u)"
    if "key = ''run-events:'' @ run_id \<or> key = ''run:'' @ run_id" for key n u
    by (rule uncancelled_touched[of R key "if key = ''run:'' @ run_id then ''hash'' else ''stream''" u])
      (use laws that in \<open>auto simp: run_keys_def\<close>)
  show ?thesis unfolding store_event_def Let_def keys by (intro expire fields add assms(2)) auto
qed

lemma script_keeps_open:
  assumes "key_laws R" "uncancelled R run_id s" "script_writer R now l run_id encoded state rlen plen retention s = (r, s')"
    and "rs_decode R encoded = Some event" "\<not> terminal_event event" "\<exists>rest. rl_key l = ''job-execution:'' @ rest"
  shows "uncancelled R run_id s'"
proof -
  let ?a = "publication_of (Some l) run_id encoded state rlen plen retention"
  have stored: "uncancelled R run_id (store_event R ?a s)" using publication_keeps_open[OF assms(1,2) refl] .
  have key: "fe_key (fence_of l run_id) = rl_key l" by (simp add: fence_of_def)
  have "uncancelled R run_id (rs_hset R (rl_key l) fvs (store_event R ?a s))" for fvs
    by (rule uncancelled_touched[of R "rl_key l" "''hash''" "store_event R ?a s"])
      (use assms(1,6) stored in \<open>auto simp: key_laws_def run_keys_def\<close>)
  then have settled: "uncancelled R run_id (settle_fence R (fence_of l run_id) event (store_event R ?a s))"
    using assms(5) by (simp add: settle_fence_def Let_def key)
  have "snd (publishEventScript R now ?a s) \<in> {s, settle_fence R (fence_of l run_id) event (store_event R ?a s)}"
    using assms(4) by (simp add: publishEventScript_def publication_of_def split: option.split)
  moreover have "s' = snd (publishEventScript R now ?a s)"
    using assms(3) by (simp add: script_writer_def split: prod.splits resp.splits if_splits)
  ultimately show ?thesis using assms(2) settled by auto
qed


subsection \<open>The scripts as an event store\<close>

text \<open>
  The world is the server's store and the texts it has taken; the clock may move with every text.
  The JSON library refuses strings that are not UTF-8 and else prints with \<open>D\<close>.
\<close>

definition strict_dump :: "(json \<Rightarrow> string) \<Rightarrow> json \<Rightarrow> string + string" where
  "strict_dump D j = (if json_utf8 j then Inr (D j) else Inl ''invalid UTF-8 byte'')"

definition leased_environment ::
  "'s redis_server \<Rightarrow> (string list \<Rightarrow> int) \<Rightarrow> redis_job_lease \<Rightarrow> (json \<Rightarrow> string) \<Rightarrow> ('s \<times> string list) observer_environment" where
  "leased_environment R clock l D =
     \<lparr>oe_publish = (\<lambda>run_id event state run_length platform_length retention (s, taken).
        case script_writer R (clock taken) l run_id event state run_length platform_length retention s of
          (Inl e, s) \<Rightarrow> (Inl e, (s, taken))
        | (Inr _, s) \<Rightarrow> (Inr (), (s, taken @ [event]))),
      oe_timestamp = (\<lambda>(s, taken). (int_to_string (clock taken), (s, taken))),
      oe_dump = strict_dump D, oe_dump_indented = strict_dump D, oe_make_directories = (\<lambda>_ w. (Inr (), w)), oe_append = (\<lambda>_ _ w. w),
      oe_write = (\<lambda>_ _ w. (Written, w)), oe_file_size = (\<lambda>_ _. None), oe_absolute = id\<rparr>"

text \<open>The scripts' JSON reader finds the sequence number and the type in what the library printed.\<close>

definition reads_events :: "'s redis_server \<Rightarrow> (json \<Rightarrow> string) \<Rightarrow> bool" where
  "reads_events R D \<longleftrightarrow> (\<forall>j k. event_number j ''sequence'' = Some k \<longrightarrow>
     (\<exists>event. rs_decode R (D j) = Some event \<and> event_number event ''sequence'' = Some k \<and>
        event_string event ''type'' = event_string j ''type''))"

definition leased_accepts ::
  "'s redis_server \<Rightarrow> (string list \<Rightarrow> int) \<Rightarrow> redis_job_lease \<Rightarrow> (json \<Rightarrow> string) \<Rightarrow> string \<Rightarrow> int \<Rightarrow> 's \<times> string list \<Rightarrow> bool" where
  "leased_accepts R clock l D run_id q w \<longleftrightarrow> redis_laws R \<and> key_laws R \<and> reads_events R D \<and> uncancelled R run_id (fst w) \<and>
     (\<exists>j now. job_ok j \<and> lease_of_job j run_id l \<and> (\<forall>taken. clock taken \<le> now) \<and> leased R j l now q (fst w))"

lemma leased_earlier: "leased R j l now q s \<Longrightarrow> t \<le> now \<Longrightarrow> leased R j l t q s"
  unfolding leased_def by force

lemma scripts_publish:
  assumes "leased_accepts R clock l D run_id q (s, taken)" "event_number j ''sequence'' = Some k" "q < k"
  shows "\<exists>s'. script_writer R (clock taken) l run_id (D j) state rlen plen retention s = (Inr (), s') \<and>
    (terminal_event j \<or> leased_accepts R clock l D run_id k (s', taken @ [D j]))"
proof -
  note laws = assms(1)[unfolded leased_accepts_def fst_conv]
  obtain job now where job: "job_ok job" "lease_of_job job run_id l" "\<forall>taken. clock taken \<le> now" "leased R job l now q s"
    using laws by blast
  obtain event where event: "rs_decode R (D j) = Some event" "event_number event ''sequence'' = Some k"
      "event_string event ''type'' = event_string j ''type''"
    using laws assms(2) unfolding reads_events_def by blast
  have terminal: "terminal_event event = terminal_event j" by (simp add: terminal_event_def event(3))
  have keys: "run_keys run_id = [(jb_run_events job, ''stream''), (jb_platform_events job, ''stream''), (jb_run_key job, ''hash'')]"
    using job(2) by (simp add: run_keys_def lease_of_job_def)
  have now: "leased R job l (clock taken) q s" using leased_earlier[OF job(4)] job(3) by blast
  obtain s' where s': "script_writer R (clock taken) l run_id (D j) state rlen plen retention s = (Inr (), s')"
      "\<And>t. \<not> terminal_event event \<Longrightarrow> leased R job l t q s \<Longrightarrow> leased R job l t k s'"
    using leased_publication[OF _ job(1,2) now event(1,2) assms(3)] laws unfolding uncancelled_def keys by metis
  have "leased_accepts R clock l D run_id k (s', taken @ [D j])" if "\<not> terminal_event j"
  proof -
    have "rl_key l = ''job-execution:'' @ jb_stream job @ '':'' @ jb_group job @ '':'' @ jb_message job"
      using job(2) by (simp add: lease_of_job_def job_key_def)
    then have "uncancelled R run_id s'"
      using script_keeps_open[OF _ _ s'(1) event(1)] laws that unfolding terminal by blast
    moreover have "leased R job l now k s'"
      using s'(2)[OF _ job(4)] that unfolding terminal by blast
    ultimately show ?thesis using laws job(1-3) by (auto simp: leased_accepts_def)
  qed
  then show ?thesis using s'(1) by blast
qed


interpretation leased_store: event_store "leased_environment R clock l D" "leased_accepts R clock l D" snd for R clock l D
proof
  fix run_id q w j encoded k state run_length platform_length retention
  assume accepting: "leased_accepts R clock l D run_id q w" "oe_dump (leased_environment R clock l D) j = Inr encoded"
    and later: "event_number j ''sequence'' = Some k" "q < k"
  obtain s taken where w: "w = (s, taken)" by (cases w)
  have "encoded = D j" using accepting(2) by (simp add: leased_environment_def strict_dump_def split: if_splits)
  then show "\<exists>w'. oe_publish (leased_environment R clock l D) run_id encoded state run_length platform_length retention w = (Inr (), w') \<and>
      snd w' = snd w @ [encoded] \<and> (terminal_event j \<or> leased_accepts R clock l D run_id k w')"
    using scripts_publish[OF accepting(1)[unfolded w] later, of state run_length platform_length retention]
    by (auto simp: leased_environment_def w)
qed (auto simp: leased_environment_def strict_dump_def keeps_def split: prod.splits)


subsection \<open>A sample server\<close>

text \<open>A printer of the number and the type of an event, with its reader.\<close>

definition event_text :: "json \<Rightarrow> string" where
  "event_text j = (case event_number j ''sequence'' of None \<Rightarrow> [] | Some k \<Rightarrow> int_to_string k) @ '' '' @
     (case event_string j ''type'' of None \<Rightarrow> [] | Some kind \<Rightarrow> '':'' @ kind)"

definition read_event :: "string \<Rightarrow> json option" where
  "read_event s = map_option (\<lambda>k. JObject ((''sequence'', JInt k) #
       (case tl (dropWhile (\<lambda>c. c \<noteq> CHR '' '') s) of [] \<Rightarrow> [] | _ # kind \<Rightarrow> [(''type'', JString kind)])))
     (tonumber (takeWhile (\<lambda>c. c \<noteq> CHR '' '') s))"

definition event_server :: "sample_store redis_server" where
  "event_server = sample_redis\<lparr>rs_decode := read_event\<rparr>"

lemma no_blank: "CHR '' '' \<notin> set (int_to_string n)"
  using nat_to_string_digits[of "CHR '' ''"] by (auto simp: int_to_string_def isdigit_def)

lemma first_at: "c \<notin> set xs \<Longrightarrow> takeWhile (\<lambda>x. x \<noteq> c) (xs @ c # ys) = xs \<and> dropWhile (\<lambda>x. x \<noteq> c) (xs @ c # ys) = c # ys"
  by (induction xs) auto

lemma event_server_reads: "reads_events event_server event_text"
proof -
  have "takeWhile (\<lambda>c. c \<noteq> CHR '' '') (int_to_string k @ CHR '' '' # rest) = int_to_string k"
    "dropWhile (\<lambda>c. c \<noteq> CHR '' '') (int_to_string k @ CHR '' '' # rest) = CHR '' '' # rest" for k rest
    using first_at[OF no_blank[of k]] by simp_all
  then show ?thesis
    by (auto simp: reads_events_def event_server_def read_event_def event_text_def tonumber_int event_number_def event_string_def
        json_get_def split: option.splits)
qed

lemma event_server_laws: "redis_laws event_server" "key_laws event_server"
  using sample_laws
  by (auto simp: event_server_def redis_laws_def field_laws_def pending_laws_def key_laws_def touches_def sample_redis_def Let_def)

text \<open>The sample job is leased, and its run \<open>x\<close> is open.\<close>

definition event_environment :: "(sample_store \<times> string list) observer_environment" where
  "event_environment = leased_environment event_server (\<lambda>_. 1) sample_lease event_text"

definition event_accepts :: "string \<Rightarrow> int \<Rightarrow> sample_store \<times> string list \<Rightarrow> bool" where
  "event_accepts = leased_accepts event_server (\<lambda>_. 1) sample_lease event_text"

lemma event_environment_store: "event_store event_environment event_accepts snd"
  unfolding event_environment_def event_accepts_def by (rule leased_store.event_store_axioms)

lemma event_environment_accepts: "event_accepts ''x'' 0 (acquired_store, [])"
proof -
  have numbers: "tonumber ''5'' = Some 5" "tonumber ''0'' = Some 0" "int_to_string 1 = ''1''" by code_simp+
  have "leased event_server client_job sample_lease 1 0 acquired_store"
    by (auto simp: leased_def event_server_def sample_redis_def sample_lease_def number_field_def acquired_store_fields numbers
        client_job_def[THEN arg_cong, of jb_stream] client_job_def[THEN arg_cong, of jb_group] client_job_def[THEN arg_cong, of jb_message])
  moreover have "job_ok client_job" by (simp add: job_ok_def client_job_def job_key_def)
  moreover have "lease_of_job client_job ''x'' sample_lease"
    by (simp add: lease_of_job_def client_job_def sample_lease_def)
  moreover have "uncancelled event_server ''x'' acquired_store"
    by (simp add: uncancelled_def wrong_type_def run_keys_def event_server_def sample_redis_def)
  ultimately show ?thesis
    using event_server_laws event_server_reads unfolding event_accepts_def leased_accepts_def by force
qed


text \<open>The texts of a report to the sample server.\<close>

fun event_texts :: "int \<Rightarrow> (string \<times> json) list list \<Rightarrow> string list" where
  "event_texts q [] = []"
| "event_texts q (event # later) = event_text (JObject ((''sequence'', JInt (q + 1)) # event)) # event_texts (q + 1) later"

lemma reported_texts: "reported event_environment names q events texts \<Longrightarrow> texts = event_texts q events"
proof (induction events arbitrary: q texts)
  case (Cons event events)
  then obtain encoded texts' j stamp where one: "texts = encoded # texts'" "oe_dump event_environment j = Inr encoded"
      "json_get j = map_of (envelope names (q + 1) stamp @ event)" "texts' = event_texts (q + 1) events"
    by (auto split: list.splits)
  have "event_number j ''sequence'' = Some (q + 1)"
    "event_string j ''type'' = event_string (JObject ((''sequence'', JInt (q + 1)) # event)) ''type''"
    unfolding event_number_def event_string_def one(3) by (auto simp: envelope_def json_get_def split: prod.split)
  then have "event_text j = event_text (JObject ((''sequence'', JInt (q + 1)) # event))"
    by (simp add: event_text_def event_number_def[of "JObject _"] json_get_def)
  moreover have "encoded = event_text j"
    using one(2) by (simp add: event_environment_def leased_environment_def strict_dump_def split: if_splits)
  ultimately show ?case by (simp add: one(1,4))
qed simp

end
