(* ===== verification/Sample_Job.thy ===== *)
theory Sample_Job
  imports Worker Leased_Store
begin

text \<open>
  A worker with a job, for the examples: a document without pages, on a machine with the default
  backends, whose events go to the sample server of \<open>Leased_Store\<close>. Its run is evaluated.
\<close>

subsection \<open>The job\<close>

definition sample_job_document :: json where
  "sample_job_document = JObject [(''schema_version'', JInt 1), (''job_id'', JString ''j''), (''run_id'', JString ''x''),
     (''attempt_id'', JString ''a''), (''output_directory'', JString ''runs/x/output''),
     (''input'', JObject [(''uri'', JString ''file://in.pdf'')]),
     (''limits'', JObject [(''timeout_seconds'', JInt 60), (''maximum_pages'', JInt 10)]),
     (''pipeline'', JObject [(''dpi'', JInt 200), (''debug'', JBool False),
        (''backends'', JObject [(''document'', JString ''auto''), (''ocr'', JString ''noop''), (''layout'', JString ''text''),
           (''table'', JString ''text'')])])]"

definition sample_files :: worker_files where
  "sample_files = \<lparr>wf_document = (\<lambda>_. Some []), wf_parse = (\<lambda>_. Inr sample_job_document), wf_regular = (\<lambda>_. Inr True),
     wf_canonical = Inr, wf_size = (\<lambda>_. Inr 0), wf_header = (\<lambda>_. ''%PDF-''), wf_type_error = (\<lambda>_. []), wf_missing = (\<lambda>_. [])\<rparr>"

definition sample_settings :: worker_settings where
  "sample_settings = \<lparr>wk_redis_host = [], wk_redis_port = 1, wk_job_stream = ''s'', wk_consumer_group = ''g'', wk_worker_id = ''w'',
     wk_runtime_root = [], wk_cache_size = 1, wk_run_length = 9, wk_platform_length = 9, wk_retention_seconds = 60,
     wk_job_lease_ms = 1000, wk_maximum_executions = 3\<rparr>"

definition sample_run_options :: run_options where
  "sample_run_options = \<lparr>ro_input_path = ''in.pdf'', ro_output_directory = ''runs/x/executions/execution_1/output'', ro_render_dpi = 200,
     ro_debug = False, ro_timeout_seconds = 60, ro_maximum_pages = 10, ro_run_id = ''x'', ro_backends = default_backend_options\<rparr>"

definition sample_backends :: backend_options where
  "sample_backends = \<lparr>bo_document = ''auto'', bo_ocr = ''noop'', bo_layout = ''text'', bo_table = ''text'', bo_registry_config = []\<rparr>"

subsection \<open>Its run\<close>

definition worker_built :: built_backends where
  "worker_built = sample_built\<lparr>bb_pdf := \<lparr>bu_source = Some \<lparr>ds_open = (\<lambda>_. True), ds_source_path = ''in.pdf'', ds_source_type = ''pdf'',
     ds_page_count = 0\<rparr>, bu_renderer = Some sample_renderer, bu_text = None\<rparr>\<rparr>"

definition worker_registry :: backend_registry where
  "worker_registry = createDefaultBackendRegistry worker_built defaultEngineConfig"

definition worker_create :: "backend_options \<Rightarrow> service_creation" where
  "worker_create = (\<lambda>b. createConfiguredServices sample_build no_files (defaultEngineConfig\<lparr>ec_backends := b\<rparr>) worker_registry)"

definition worker_services :: pipeline_services where
  "worker_services = sc_services (worker_create sample_backends)"

definition worker_provenance :: run_provenance where
  "worker_provenance = \<lparr>rp_run_id = [], rp_engine_name = ''technical-doc-parser'', rp_engine_version = ''0.1.0'',
     rp_git_revision = ''unknown'', rp_backends = \<lparr>br_requested = sample_backends, br_resolved = sample_backends\<lparr>bo_document := ''pdf''\<rparr>,
       br_config_source = ''builtin''\<rparr>, rp_models = [], rp_fallbacks = []\<rparr>"

lemma worker_creates:
  "worker_create sample_backends = \<lparr>sc_status = status_ok, sc_provenance = worker_provenance, sc_services = worker_services\<rparr>"
proof -
  have "sc_status (worker_create sample_backends) = status_ok" "sc_provenance (worker_create sample_backends) = worker_provenance"
    by code_simp+
  then show ?thesis by (simp add: worker_services_def)
qed

lemma worker_source:
  "sv_open worker_services path" "sv_source_path worker_services = ''in.pdf''" "sv_page_count worker_services = 0"
  "map_option rr_supports_page_rendering (sv_renderer worker_services) = Some True"
  by code_simp+

definition worker_options :: run_options where
  "worker_options = pipelineOptions sample_run_options (normalizedBackends same_paths sample_backends)"

lemma worker_options: "worker_options = sample_run_options\<lparr>ro_backends := sample_backends\<rparr>"
  by code_simp

definition empty_stage :: "string \<Rightarrow> string \<Rightarrow> event list" where
  "empty_stage stage backend = [StageStarted stage backend 0, StageProgress stage 0 0, StageCompleted stage]"

definition worker_events :: "event list" where
  "worker_events =
     [StageStarted ''configure'' ''registry'' 1, StageProgress ''configure'' 1 1, StageCompleted ''configure'',
      RunConfigured (worker_provenance\<lparr>rp_run_id := ''x''\<rparr>),
      StageStarted ''open'' ''pdf'' 1, StageProgress ''open'' 1 1, StageCompleted ''open'',
      StageStarted ''render'' ''pdf'' 0, StageCompleted ''render''] @
     empty_stage ''text'' ''noop'' @ empty_stage ''layout'' ''text'' @ empty_stage ''table'' ''text'' @
     empty_stage ''reading_order'' ''docling-like'' @
     [StageStarted ''assembly'' ''document-assembler'' 1, StageProgress ''assembly'' 1 1, StageCompleted ''assembly'',
      StageStarted ''export'' ''multi-format'' 3,
      ArtifactReady ''export'' ''document_json'' ''runs/x/executions/execution_1/output/document.json'' 0,
      ArtifactReady ''export'' ''document_markdown'' ''runs/x/executions/execution_1/output/document.md'' 0,
      ArtifactReady ''export'' ''document_html'' ''runs/x/executions/execution_1/output/document.html'' 0,
      StageProgress ''export'' 3 3, StageCompleted ''export'']"

lemma worker_run:
  "observed_run (pipeline_run sample_environment worker_options worker_create Pipeline.initial_state) = (Some status_ok, worker_events)"
proof -
  obtain fingerprint where fingerprint: "fingerprintFile ''in.pdf'' \<lparr>in_opened = True, in_content = [37, 80, 68, 70],
      in_read_error = False\<rparr> = Some (status_ok, fingerprint)"
    using read_loop_absorbed[OF absorbed_init, of 0 "kReadSize - 1" "[37, 80, 68, 70]"] by (auto simp: fingerprintFile_def)
  obtain renderer where renderer: "sv_renderer worker_services = Some renderer" "rr_supports_page_rendering renderer"
    using worker_source(4) by auto
  have paths: "op_manifest_json (output_paths_of worker_options) = ''runs/x/executions/execution_1/output/document.json''"
    "replace_extension ''runs/x/executions/execution_1/output/document.json'' ''.md'' = ''runs/x/executions/execution_1/output/document.md''"
    "replace_extension ''runs/x/executions/execution_1/output/document.json'' ''.html'' = ''runs/x/executions/execution_1/output/document.html''"
    unfolding worker_options by code_simp+
  have fields: "ro_timeout_seconds worker_options = 60" "ro_maximum_pages worker_options = 10" "ro_run_id worker_options = ''x''"
    "ro_backends worker_options = sample_backends"
    by (simp_all add: worker_options sample_run_options_def)
  show ?thesis
    by (simp add: pipeline_run_def parseInternal_def configure_run_def create_services_def open_run_def fingerprint_run_def pages_run_def
        finish_pages_def reading_order_run_def assembly_run_def exportResult_def step_defs deadlineStatus_def create_stages_def
        create_stage_def legacy_pages_run_def linkPages_def linkCrossPageTables_def reading_order_stage_def no_results_def assemble_def
        hasMatchingPageCounts_def assembly_request_def request_pages_def restoreSourceCoordinates_def change_files_def observed_run_def
        worker_creates worker_source renderer fingerprint fields paths sample_environment_def Pipeline.initial_state_def)
      (simp add: worker_events_def empty_stage_def resolvedBackend_def worker_provenance_def sample_backends_def)
qed


lemma worker_events_utf8: "list_all (event_utf8 0) worker_events"
  by code_simp

subsection \<open>The worker\<close>

text \<open>Its run takes as long as the clock of the environment has it.\<close>

definition worker_parsed :: "(run_error + parsed_document \<times> pipeline_artifacts \<times> run_provenance) \<times> pipe_state" where
  "worker_parsed = parseInternal sample_environment worker_options (RegistryServices worker_create) Pipeline.initial_state"

definition sample_worker :: "(sample_store \<times> string list) worker_environment" where
  "sample_worker = \<lparr>we_files = sample_files, we_lock = (\<lambda>_. \<lparr>lc_open_root = Inr 3, lc_open_lock = Inr 4, lc_single_regular = True,
     lc_flock = Inr (), lc_expired = NotExpired\<rparr>), we_observer = event_environment, we_paths = same_paths,
     we_build = create_engine sample_build no_files worker_registry, we_run = (\<lambda>_. sample_environment),
     we_seconds = env_seconds sample_environment (ps_clock (snd worker_parsed)), we_duration = (\<lambda>_. 0),
     we_defaults = default_backend_options, we_lost = (\<lambda>_. False)\<rparr>"

definition sample_state :: "(sample_store \<times> string list) job_state" where
  "sample_state = \<lparr>js_observer = None, js_cache = sample_cache, js_heartbeat = setIdle, js_world = (acquired_store, [])\<rparr>"

definition sample_message :: stream_message where
  "sample_message = \<lparr>sm_id = ''m'', sm_fields = [''run_id'' \<mapsto> ''x'']\<rparr>"

lemma sample_paths_of_job:
  "parent_path ''runs/x/output'' = ''runs/x''" "parent_path ''runs/x/job.json'' = ''runs/x''"
  "path_join (execution_directory ''runs/x/job.json'' sample_lease) ''output'' = ''runs/x/executions/execution_1/output''"
  by code_simp+

end
