(* ===== verification/Worker_Report.thy ===== *)
theory Worker_Report
  imports Sample_Job
begin

text \<open>
  What a worker reports of a job: with a store that takes its events (\<open>event_store\<close>), the handling of a
  checked job publishes \<open>job_started\<close>, the events of the pipeline's run, and the terminal event of its status.
\<close>

subsection \<open>Observers that accept every event\<close>

text \<open>
  An observer that throws on no event that is \<open>admitted\<close>. \<open>follows o' seen o''\<close>: from \<open>o'\<close> it has been told
  the events \<open>seen\<close> and is now in \<open>o''\<close>.
\<close>

lemma failed_records: "process_failed record_event es st seen =
  (Inr st, seen @ es @ [StageFailed (status_stage st) (status_code st) (status_message st) (status_retryable st)])"
  by (simp add: process_failed_def del: notify.simps)

lemma export_records:
  "process_export env options record_event doc artifacts seen = (r, es) \<Longrightarrow>
   \<exists>later. es = (seen @ [StageStarted ''export'' ''multi-format'' 3]) @ later"
  unfolding process_export_def notify_record prod.case sum.case Let_def
  by (auto simp: failed_records split: option.splits if_splits)

locale accepting_observer =
  fixes handler :: "'o event_handler"
    and admitted :: "event \<Rightarrow> bool"
    and follows :: "'o \<Rightarrow> event list \<Rightarrow> 'o \<Rightarrow> bool"
  assumes accepts: "follows o' seen o1 \<Longrightarrow> admitted e \<Longrightarrow> \<exists>o2. handler e o1 = (Inr (), o2) \<and> follows o' (seen @ [e]) o2"
begin

lemma notify_follows:
  "follows o' seen o1 \<Longrightarrow> list_all admitted es \<Longrightarrow> \<exists>o''. notify handler es o1 = (Inr (), o'') \<and> follows o' (seen @ es) o''"
proof (induction es arbitrary: seen o1)
  case (Cons e es)
  then obtain o2 where o2: "handler e o1 = (Inr (), o2)" "follows o' (seen @ [e]) o2"
    using accepts[of o' seen o1 e] by auto
  from Cons.IH[OF this(2)] show ?case using Cons.prems by (simp add: o2(1))
qed auto

lemma failed_follows:
  assumes "follows o' seen o1" "process_failed record_event es st seen = (Inr st', seen')" "list_all admitted seen'"
  shows "\<exists>o''. process_failed handler es st o1 = (Inr st', o'') \<and> follows o' seen' o''"
proof -
  let ?es = "es @ [StageFailed (status_stage st) (status_code st) (status_message st) (status_retryable st)]"
  have seen': "seen' = seen @ ?es" "st' = st" using assms(2) by (auto simp: failed_records)
  then obtain o2 where "notify handler ?es o1 = (Inr (), o2)" "follows o' (seen @ ?es) o2"
    using notify_follows[OF assms(1), of ?es] assms(3) by auto
  then show ?thesis by (simp add: process_failed_def seen' del: notify.simps)
qed

lemma export_follows:
  assumes "follows o' seen o1" "process_export env options record_event doc artifacts seen = (Inr st, es)" "list_all admitted es"
  shows "\<exists>o''. process_export env options handler doc artifacts o1 = (Inr st, o'') \<and> follows o' es o''"
proof -
  let ?es = "[StageStarted ''export'' ''multi-format'' 3]" and ?json = "path_join (ro_output_directory options) ''document.json''"
  let ?written = "[ArtifactReady ''export'' ''document_json'' ?json 0,
    ArtifactReady ''export'' ''document_markdown'' (replace_extension ?json ''.md'') 0,
    ArtifactReady ''export'' ''document_html'' (replace_extension ?json ''.html'') 0,
    StageProgress ''export'' 3 3, StageCompleted ''export'']"
  note run = assms(2)[unfolded process_export_def notify_record prod.case sum.case Let_def]
  have "list_all admitted ?es" using export_records[OF assms(2)] assms(3) by auto
  then obtain o2 where o2: "notify handler ?es o1 = (Inr (), o2)" "follows o' (seen @ ?es) o2"
    using notify_follows[OF assms(1)] by blast
  note step = process_export_def[of env options handler doc artifacts o1, unfolded o2(1) prod.case sum.case Let_def]
  show ?thesis
  proof (cases "\<exists>written cs. env_write_document env doc artifacts = Some (written, cs) \<and> ok_status written")
    case True
    then obtain written cs where w: "env_write_document env doc artifacts = Some (written, cs)" "ok_status written" by blast
    have es: "es = (seen @ ?es) @ ?written" "st = status_ok" using run w by (simp_all del: notify.simps)
    then obtain o3 where o3: "notify handler ?written o2 = (Inr (), o3)" "follows o' ((seen @ ?es) @ ?written) o3"
      using notify_follows[OF o2(2), of ?written] assms(3) by auto
    show ?thesis unfolding step w(1) option.case prod.case o3(1) using w(2) o3(2) by (simp add: es del: notify.simps)
  next
    case False
    then show ?thesis
      using run failed_follows[OF o2(2) _ assms(3)] unfolding step
      by (auto split: option.splits if_splits)
  qed
qed

lemma parse_follows:
  assumes "follows o' [] o'" "engine_parse env options record_event engine [] = Some (result, engine', es)" "list_all admitted es"
  shows "\<exists>o''. engine_parse env options handler engine o' = Some (result, engine', o'') \<and> follows o' es o''"
proof (cases "enter_engine engine")
  case (Inl refused)
  then show ?thesis using assms by (auto simp: engine_parse_refused)
next
  case (Inr en)
  obtain r s where run: "engine_run env options en = (r, s)" by fastforce
  have "es = ps_events s" using assms(2) unfolding engine_parse_entered[OF Inr run] by (simp del: notify.simps)
  then obtain o'' where o'': "notify handler (ps_events s) o' = (Inr (), o'')" "follows o' ([] @ ps_events s) o''"
    using notify_follows[OF assms(1)] assms(3) by blast
  then show ?thesis
    using assms(2) unfolding engine_parse_entered[OF Inr run] by (simp del: notify.simps)
qed

lemma process_follows:
  assumes "follows o' [] o'" "process_with env options record_event seconds l [] = Some (Inr st, es)" "list_all admitted es"
  shows "\<exists>o''. process_with env options handler seconds l o' = Some (Inr st, o'') \<and> follows o' es o''"
proof (cases "lookup_ok l")
  case False
  then show ?thesis
    using assms(2) failed_follows[OF assms(1) _ assms(3)] unfolding process_with_def by simp
next
  case True
  then obtain result engine' seen where parsed: "engine_parse env options record_event (el_engine l) [] = Some (result, engine', seen)"
    using assms(2) by (auto simp: process_with_def split: option.splits)
  note run = assms(2)[unfolded process_with_def parsed option.case prod.case]
  have "\<exists>later. es = seen @ later"
    using run True by (auto simp: failed_records dest: export_records split: option.splits if_splits)
  then have "list_all admitted seen" using assms(3) by auto
  then obtain o1 where o1: "engine_parse env options handler (el_engine l) o' = Some (result, engine', o1)" "follows o' seen o1"
    using parse_follows[OF assms(1) parsed] by blast
  show ?thesis
    unfolding process_with_def o1(1) option.case prod.case
    using True run o1(2) failed_follows[OF o1(2) _ assms(3)] export_follows[OF o1(2) _ assms(3)]
    by (auto split: if_splits option.splits)
qed

end

subsection \<open>The worker's observer\<close>

context event_store
begin

text \<open>From the first state to the second the observer has published these events of a run, and noted their last failure.\<close>

definition told ::
  "(event \<Rightarrow> int) \<Rightarrow> stage_observer \<times> 'n \<times> redis_error option \<Rightarrow> event list \<Rightarrow> stage_observer \<times> 'n \<times> redis_error option \<Rightarrow> bool" where
  "told duration x es y \<longleftrightarrow> (case (x, y) of ((o', n, _), (o'', n', thrown)) \<Rightarrow>
     thrown = None \<and> heard o'' n' \<and> reports o' n (map (\<lambda>e. event_fields (duration e) e) es) o'' n' \<and>
     last_error_of o'' = fold failure_noted es (last_error_of o'))"

lemma told_one:
  assumes "told (we_duration W) x seen y" "event_utf8 (we_duration W e) e"
  shows "\<exists>z. observer_handler (W\<lparr>we_observer := E\<rparr>) e y = (Inr (), z) \<and> told (we_duration W) x (seen @ [e]) z"
proof -
  obtain o' n thrown where x: "x = (o', n, thrown)" by (cases x)
  obtain o1 n1 where y: "y = (o1, n1, None)" using assms(1) by (cases y) (auto simp: told_def)
  have before_it: "heard o1 n1" "reports o' n (map (\<lambda>e. event_fields (we_duration W e) e) seen) o1 n1"
      "last_error_of o1 = fold failure_noted seen (last_error_of o')"
    using assms(1) by (simp_all add: told_def x y)
  obtain o2 n2 where o2: "observe E (we_duration W e) e o1 n1 = (Inr (), o2, n2)"
      "reports o1 n1 [event_fields (we_duration W e) e] o2 n2" "heard o2 n2" "last_error_of o2 = failure_noted e (last_error_of o1)"
    using observe_reports[OF before_it(1) assms(2)] .
  have "observer_handler (W\<lparr>we_observer := E\<rparr>) e y = (Inr (), (o2, n2, None))"
    by (simp add: observer_handler_def y o2(1))
  moreover have "told (we_duration W) x (seen @ [e]) (o2, n2, None)"
    using o2 before_it(3) reports_then[OF before_it(2) o2(2)] by (simp add: told_def x)
  ultimately show ?thesis by blast
qed

end

sublocale event_store \<subseteq> reporting: accepting_observer "observer_handler (W\<lparr>we_observer := E\<rparr>)"
  "\<lambda>e. event_utf8 (we_duration W e) e" "told (we_duration W)" for W :: "'n worker_environment"
  by unfold_locales (rule told_one)


subsection \<open>A job that passes the checks\<close>

text \<open>The job's document, its identity and the options of its run.\<close>

definition good_job ::
  "'w worker_environment \<Rightarrow> worker_settings \<Rightarrow> string \<Rightarrow> redis_job_lease \<Rightarrow> stream_message \<Rightarrow> json \<Rightarrow> string \<Rightarrow> string \<Rightarrow> string \<Rightarrow>
   run_options \<Rightarrow> backend_options \<Rightarrow> bool" where
  "good_job W settings job_file lease message job job_id run_id attempt_id options backends \<longleftrightarrow>
     isInside (we_files W) job_file (wk_runtime_root settings) = Inr True \<and>
     (\<exists>descriptor. fst (lock_artifacts (we_lock W (parent_path job_file))) = Inr descriptor) \<and>
     loadJob (we_files W) job_file = Inr job \<and> at_string (we_files W) ''job_id'' job = Inr job_id \<and>
     at_string (we_files W) ''run_id'' job = Inr run_id \<and> at_string (we_files W) ''attempt_id'' job = Inr attempt_id \<and>
     identities_agree (we_files W) message job [''job_id'', ''run_id'', ''attempt_id''] = Inr () \<and>
     validateJob (we_files W) (wk_runtime_root settings) job = Inr () \<and> canonical_run_directory (we_files W) job_file job = Inr True \<and>
     0 < wk_retention_seconds settings \<and> rl_generation lease \<le> wk_maximum_executions settings \<and>
     job_options W job_file lease job = Inr (options, backends)"

lemma checked_good_job:
  assumes "good_job W settings job_file lease message job job_id run_id attempt_id options backends"
  shows "checked_job W settings job_file lease message s =
    (if js_observer s = None
     then job_then (make_observer W settings job_file lease job_id run_id attempt_id) (\<lambda>_. job_return (job, run_id)) s
     else Some (Inr (job, run_id), s))"
  using assms
  by (auto simp: good_job_def checked_job_def job_then_def job_try_def job_require_def require_that_def job_return_def
      split: option.splits sum.splits)

text \<open>Whether the queue's message names the job or not, it gets one observer, and is run.\<close>

lemma attempt_good_job:
  assumes "good_job W settings job_file lease message job job_id run_id attempt_id options backends" "js_observer s = None"
    and "make_observer W settings job_file lease job_id run_id attempt_id s = Some (Inr (), s1)" "js_observer s1 \<noteq> None"
  shows "attempt_job W settings job_file lease message s = run_job W settings job_file lease job run_id s1"
proof -
  note good = assms(1)[unfolded good_job_def]
  note checked = checked_good_job[OF assms(1)]
  obtain descriptor o1 where lock: "fst (lock_artifacts (we_lock W (parent_path job_file))) = Inr descriptor" and o1: "js_observer s1 = Some o1"
    using good assms(4) by blast
  show ?thesis
  proof (cases "sm_fields message ''job_id'' \<noteq> None \<and> sm_fields message ''run_id'' \<noteq> None \<and> sm_fields message ''attempt_id'' \<noteq> None")
    case True
    then have "sm_fields message ''job_id'' = Some job_id" "sm_fields message ''run_id'' = Some run_id"
        "sm_fields message ''attempt_id'' = Some attempt_id"
      using good by (auto simp: try_with_def split: if_splits)
    then show ?thesis
      using good assms(3) lock o1
      by (simp add: attempt_job_def job_then_def job_try_def job_require_def require_that_def checked)
  next
    case False
    then have "(case (sm_fields message ''job_id'', sm_fields message ''run_id'', sm_fields message ''attempt_id'') of
        (Some i, Some r, Some a) \<Rightarrow> make_observer W settings job_file lease i r a | _ \<Rightarrow> job_return ()) = job_return ()"
      by (auto split: option.splits)
    then show ?thesis
      using good assms(2,3) lock
      by (simp add: attempt_job_def job_then_def job_try_def job_require_def require_that_def checked job_return_def)
  qed
qed


subsection \<open>The first and the last event of a job\<close>

definition start_fields :: "(string \<times> json) list" where
  "start_fields = [(''type'', JString ''job_started'')]"

definition end_kind :: "status \<Rightarrow> string" where
  "end_kind st = (if ok_status st then ''job_succeeded'' else ''job_failed'')"

definition end_fields :: "status \<Rightarrow> (string \<times> json) list" where
  "end_fields st = (''type'', JString (end_kind st)) #
     (if ok_status st \<or> status_message st = [] then []
      else [(''error'', error_object (status_code st) (status_message st) (status_retryable st))])"

definition failure_of :: "status \<Rightarrow> string \<times> string \<times> bool" where
  "failure_of st = (status_code st, status_message st, status_retryable st)"

lemma start_event:
  assumes "last_error_of o' = ([], [], False)"
  shows "job_event ''job_started'' [] o' = JObject start_fields"
  using assms by (simp add: job_event_def last_error_of_def start_fields_def set_if_def)

lemma end_event:
  assumes "st = status_ok \<or> \<not> ok_status st \<and> last_error_of o' = failure_of st"
  shows "is_object (job_event (end_kind st) (status_message st) o')"
    "json_get (job_event (end_kind st) (status_message st) o') = map_of (end_fields st)"
    "json_utf8 (job_event (end_kind st) (status_message st) o') \<longleftrightarrow> json_utf8 (JObject (end_fields st))"
    "terminal_event (job_event (end_kind st) (status_message st) o')"
proof -
  have event: "job_event (end_kind st) (status_message st) o' =
      set_if (\<not> ok_status st \<and> status_message st \<noteq> []) ''error'' (error_object (status_code st) (status_message st) (status_retryable st))
        (JObject [(''type'', JString (end_kind st))])"
    using assms by (auto simp: job_event_def end_kind_def last_error_of_def failure_of_def set_if_def status_ok_def)
  show "is_object (job_event (end_kind st) (status_message st) o')"
    unfolding event by (simp add: set_if_def json_set_def is_object_def)
  show get: "json_get (job_event (end_kind st) (status_message st) o') = map_of (end_fields st)"
    unfolding event by (simp add: fun_eq_iff end_fields_def fields_get is_object_def)
  show "json_utf8 (job_event (end_kind st) (status_message st) o') \<longleftrightarrow> json_utf8 (JObject (end_fields st))"
    unfolding event by (auto simp: end_fields_def set_if_def json_set_def)
  show "terminal_event (job_event (end_kind st) (status_message st) o')"
    unfolding terminal_event_def event_string_def get by (simp add: end_fields_def end_kind_def terminal_type_def)
qed

text \<open>A run that fails reports its status with its last event.\<close>

lemma run_returns:
  obtains st es where "observed_run (pipeline_run env options create Pipeline.initial_state) = (Some st, es)"
    "st = status_ok \<or> \<not> ok_status st \<and> (\<exists>stage earlier.
      es = earlier @ [StageFailed stage (status_code st) (status_message st) (status_retryable st)])"
proof -
  have "case pipeline_run env options create Pipeline.initial_state of
      (Inl err, s) \<Rightarrow> stopped err s | (Inr _, s) \<Rightarrow> \<exists>N. traced 9 9 N s"
    using runsD[OF runs_pipeline initial_point, of env options create] by (auto split: prod.splits sum.splits)
  then show thesis
    using that by (auto simp: observed_run_def stopped_def split: prod.splits sum.splits)
qed

lemma end_fields_utf8:
  assumes "st = status_ok \<or> \<not> ok_status st \<and> (\<exists>stage earlier.
      es = earlier @ [StageFailed stage (status_code st) (status_message st) (status_retryable st)])"
    and "list_all (\<lambda>e. event_utf8 (duration e) e) es"
  shows "json_utf8 (JObject (end_fields st))" "st = status_ok \<or> \<not> ok_status st \<and> fold failure_noted es first = failure_of st"
  using assms by (auto simp: end_fields_def end_kind_def event_utf8_def code_def failure_of_def)

subsection \<open>The observer of a job\<close>

context event_store
begin

lemma make_observer_heard:
  assumes "we_observer W = E" "0 < wk_retention_seconds settings" "accepts run_id (rl_sequence lease) (js_world s)"
    and "utf8_text job_id" "utf8_text run_id" "utf8_text attempt_id"
  obtains o' n where "make_observer W settings job_file lease job_id run_id attempt_id s =
      Some (Inr (), s\<lparr>js_observer := Some o', js_world := n\<rparr>)"
    "heard o' n" "published n = published (js_world s)" "names_of o' = (job_id, run_id, attempt_id, execution_id lease)"
    "so_sequence o' = rl_sequence lease" "last_error_of o' = ([], [], False)"
proof -
  let ?path = "path_join (execution_directory job_file lease) ''artifacts''"
  obtain n where n: "oe_make_directories E ?path (js_world s) = (Inr (), n)" "keeps accepts published (js_world s) n"
    using directories[of ?path "js_world s"] by (metis prod.collapse)
  let ?o = "\<lparr>so_job_id = job_id, so_run_id = run_id, so_attempt_id = attempt_id, so_run_directory = execution_directory job_file lease,
    so_run_length = nat (wk_run_length settings), so_platform_length = nat (wk_platform_length settings),
    so_retention = wk_retention_seconds settings, so_last_error_code = [], so_last_error = [], so_last_error_retryable = False,
    so_execution_id = execution_id lease, so_sequence = rl_sequence lease\<rparr>"
  have "utf8_text (execution_id lease)" by (simp add: execution_id_def code_def)
  then have "heard ?o n" using assms(3-6) n(2) by (simp add: heard_def keeps_def names_of_def names_utf8_def)
  moreover have "make_observer W settings job_file lease job_id run_id attempt_id s = Some (Inr (), s\<lparr>js_observer := Some ?o, js_world := n\<rparr>)"
    using assms(2) n(1) by (simp add: make_observer_def create_observer_def assms(1))
  ultimately show thesis using that n(2) by (simp add: keeps_def names_of_def last_error_of_def)
qed

lemma job_event_published:
  assumes "we_observer W = E" "js_observer s = Some o'" "heard o' (js_world s)"
    and "is_object (job_event kind message o')" "json_utf8 (job_event kind message o')"
    and "json_get (job_event kind message o') = map_of fields'"
  obtains o'' n where "on_observer (publishJobEvent (we_observer W) kind message) s =
      Some (Inr (), s\<lparr>js_observer := Some o'', js_world := n\<rparr>)"
    "reports o' (js_world s) [fields'] o'' n" "terminal_event (job_event kind message o') \<or> heard o'' n"
    "last_error_of o'' = last_error_of o'"
proof -
  let ?o = "o'\<lparr>so_sequence := so_sequence o' + 1\<rparr>"
  obtain n where n: "publish E (job_event kind message o') o' (js_world s) = (Inr (), ?o, n)"
      "reports o' (js_world s) [fields'] ?o n" "terminal_event (job_event kind message o') \<or> heard ?o n"
    using publish_reports[OF assms(3-6)] .
  have "on_observer (publishJobEvent (we_observer W) kind message) s = Some (Inr (), s\<lparr>js_observer := Some ?o, js_world := n\<rparr>)"
    by (simp add: on_observer_def assms(1,2) publishJobEvent_def n(1))
  then show thesis using that n(2,3) by (simp add: last_error_of_def)
qed

lemma process_job_reports:
  assumes "we_observer W = E" "js_observer s = Some o'" "heard o' (js_world s)"
    and "process (we_paths W) (we_build W) (we_run W options) options backends record_event (we_seconds W) (js_cache s) [] =
      (Some (Inr st, es), cache)"
    and "list_all (\<lambda>e. event_utf8 (we_duration W e) e) es"
  obtains o'' n where "process_job W options backends s = Some (Inr st, s\<lparr>js_observer := Some o'', js_cache := cache, js_world := n\<rparr>)"
    "heard o'' n" "reports o' (js_world s) (map (\<lambda>e. event_fields (we_duration W e) e) es) o'' n"
    "last_error_of o'' = fold failure_noted es (last_error_of o')"
proof -
  obtain l where l: "cache_get (we_paths W) (we_build W) backends (js_cache s) = (l, cache)"
    "process_with (we_run W options) options record_event (we_seconds W) l [] = Some (Inr st, es)"
    using assms(4) by (auto simp: process_def split: prod.splits)
  have W: "W\<lparr>we_observer := E\<rparr> = W" using assms(1) by (cases W) simp
  have "told (we_duration W) (o', js_world s, None) [] (o', js_world s, None)"
    using assms(3) reports_nothing[of "js_world s" "js_world s" o'] by (simp add: told_def keeps_def)
  then obtain x where x: "process_with (we_run W options) options (observer_handler W) (we_seconds W) l (o', js_world s, None) = Some (Inr st, x)"
    "told (we_duration W) (o', js_world s, None) es x"
    using reporting.process_follows[of W, OF _ l(2) assms(5), unfolded W] by blast
  obtain o'' n where parts: "x = (o'', n, None)" using x(2) by (cases x) (auto simp: told_def)
  show thesis
    using that assms(2) x by (simp add: process_job_def process_def l(1) parts told_def)
qed

lemma job_reported:
  assumes good: "good_job W settings job_file lease message job job_id run_id attempt_id options backends"
    and E: "we_observer W = E" and accepting: "accepts run_id (rl_sequence lease) (js_world s)" and kept: "\<forall>w. \<not> we_lost W w"
    and names: "utf8_text job_id" "utf8_text run_id" "utf8_text attempt_id"
    and processed: "process (we_paths W) (we_build W) (we_run W options) options backends record_event (we_seconds W) (js_cache s) [] =
      (Some (Inr st, es), cache)"
    and ending: "st = status_ok \<or> \<not> ok_status st \<and> (\<exists>stage earlier.
      es = earlier @ [StageFailed stage (status_code st) (status_message st) (status_retryable st)])"
    and admitted: "list_all (\<lambda>e. event_utf8 (we_duration W e) e) es"
  shows "\<exists>s' texts. handle_job W settings job_file lease message s = Some (Reported (end_kind st), s') \<and>
    published (js_world s') = published (js_world s) @ texts \<and>
    reported E (job_id, run_id, attempt_id, execution_id lease) (rl_sequence lease)
      (start_fields # map (\<lambda>e. event_fields (we_duration W e) e) es @ [end_fields st]) texts"
proof -
  let ?es = "map (\<lambda>e. event_fields (we_duration W e) e) es"
  have settings: "0 < wk_retention_seconds settings" "rl_generation lease \<le> wk_maximum_executions settings"
      "job_options W job_file lease job = Inr (options, backends)"
    using good by (simp_all add: good_job_def)
  obtain o1 n1 where made: "make_observer W settings job_file lease job_id run_id attempt_id (s\<lparr>js_observer := None\<rparr>) =
      Some (Inr (), s\<lparr>js_observer := Some o1, js_world := n1\<rparr>)"
    "heard o1 n1" "published n1 = published (js_world s)" "names_of o1 = (job_id, run_id, attempt_id, execution_id lease)"
    "so_sequence o1 = rl_sequence lease" "last_error_of o1 = ([], [], False)"
    by (rule make_observer_heard[OF E settings(1), of run_id lease "s\<lparr>js_observer := None\<rparr>" job_id attempt_id job_file])
      (use accepting names in \<open>simp_all add: that\<close>)
  let ?s1 = "s\<lparr>js_observer := Some o1, js_world := n1, js_heartbeat := setRunning run_id\<rparr>"
  have attempt: "attempt_job W settings job_file lease message (s\<lparr>js_observer := None\<rparr>) =
      run_job W settings job_file lease job run_id (s\<lparr>js_observer := Some o1, js_world := n1\<rparr>)"
    using attempt_good_job[OF good _ made(1)] by simp
  obtain o2 n2 where started: "on_observer (publishJobEvent (we_observer W) ''job_started'' []) ?s1 =
      Some (Inr (), ?s1\<lparr>js_observer := Some o2, js_world := n2\<rparr>)"
    "reports o1 n1 [start_fields] o2 n2" "heard o2 n2" "last_error_of o2 = ([], [], False)"
  proof (rule job_event_published[OF E, of ?s1 o1 "''job_started''" "[]" start_fields])
  qed (use made(2,6) in \<open>auto simp: start_event start_fields_def is_object_def fields_get code_def terminal_event_def event_string_def
      terminal_type_def\<close>)
  let ?s2 = "?s1\<lparr>js_observer := Some o2, js_world := n2\<rparr>"
  obtain o3 n3 where ran: "process_job W options backends ?s2 = Some (Inr st, ?s2\<lparr>js_observer := Some o3, js_cache := cache, js_world := n3\<rparr>)"
    "heard o3 n3" "reports o2 n2 ?es o3 n3" "last_error_of o3 = fold failure_noted es ([], [], False)"
    by (rule process_job_reports[OF E, of ?s2 o2 options backends st es cache])
      (use started(3,4) processed admitted in \<open>simp_all add: that\<close>)
  let ?s3 = "?s2\<lparr>js_observer := Some o3, js_cache := cache, js_world := n3\<rparr>"
  have "run_job W settings job_file lease job run_id (s\<lparr>js_observer := Some o1, js_world := n1\<rparr>) =
      Some (Inr (ok_status st, status_message st), ?s3)"
    using settings(2,3) started(1) ran(1) by (simp add: run_job_def job_then_def is_started_def job_try_def job_return_def)
  then have handled: "handle_job W settings job_file lease message s = report_end W (end_kind st) (status_message st) ?s3"
    unfolding handle_job_def attempt by (simp add: kept end_kind_def Let_def)
  have ended: "st = status_ok \<or> \<not> ok_status st \<and> last_error_of o3 = failure_of st"
    using end_fields_utf8(2)[OF ending admitted] unfolding ran(4) .
  obtain o4 n4 where finished: "on_observer (publishJobEvent (we_observer W) (end_kind st) (status_message st)) ?s3 =
      Some (Inr (), ?s3\<lparr>js_observer := Some o4, js_world := n4\<rparr>)" "reports o3 n3 [end_fields st] o4 n4"
    by (rule job_event_published[OF E, of ?s3 o3 "end_kind st" "status_message st" "end_fields st"])
      (use ran(2) end_event[OF ended] end_fields_utf8(1)[OF ending admitted] in \<open>simp_all add: that\<close>)
  have "reports o1 n1 (start_fields # ?es @ [end_fields st]) o4 n4"
    using reports_then[OF started(2) reports_then[OF ran(3) finished(2)]] by simp
  moreover have "handle_job W settings job_file lease message s =
      Some (Reported (end_kind st), ?s3\<lparr>js_observer := Some o4, js_world := n4\<rparr>)"
    unfolding handled report_end_def finished(1) by simp
  ultimately show ?thesis
    using made(3-5) unfolding reports_def by fastforce
qed

end

text \<open>
  C4: A worker reports what the pipeline did, completely. Take a job that passes the worker's checks, any store
  that takes the events of the job's run from the lease's sequence number on (\<open>event_store\<close>; the scripts of the
  repository are one while the lease runs), and a run whose strings are UTF-8. Then the handling of the job returns and has
  published, numbered without a gap from the lease's number on and under the names of the job and its execution,
  \<open>job_started\<close>, each event of the pipeline's own run with all its fields, once and in order, and last the
  terminal event: \<open>job_succeeded\<close> exactly if the run's status is a success, and else \<open>job_failed\<close> with the
  code and the message of the status.
\<close>

theorem worker_reports_run:
  assumes "good_job W settings job_file lease message job job_id run_id attempt_id options backends"
    and "created_cache build reader registry base (js_cache s)" and "we_build W = create_engine build reader registry"
    and "event_store (we_observer W) accepts published" and "accepts run_id (rl_sequence lease) (js_world s)"
    and "\<forall>w. \<not> we_lost W w" and "utf8_text job_id" and "utf8_text run_id" and "utf8_text attempt_id"
    and "create = (\<lambda>b. createConfiguredServices build reader (base\<lparr>ec_backends := b\<rparr>) registry)"
    and "run_options' = pipelineOptions options (normalizedBackends (we_paths W) backends)"
    and "we_seconds W = env_seconds (we_run W options)
      (ps_clock (snd (parseInternal (we_run W options) run_options' (RegistryServices create) Pipeline.initial_state)))"
    and "observed_run (pipeline_run (we_run W options) run_options' create Pipeline.initial_state) = (outcome, es)"
    and "list_all (\<lambda>e. event_utf8 (we_duration W e) e) es"
  shows "\<exists>s' texts. handle_job W settings job_file lease message s = Some (Reported (end_kind (the outcome)), s') \<and>
    published (js_world s') = published (js_world s) @ texts \<and>
    reported (we_observer W) (job_id, run_id, attempt_id, execution_id lease) (rl_sequence lease)
      (start_fields # map (\<lambda>e. event_fields (we_duration W e) e) es @ [end_fields (the outcome)]) texts"
proof -
  obtain processed cache where processed: "process (we_paths W) (we_build W) (we_run W options) options backends record_event
      (we_seconds W) (js_cache s) [] = (processed, cache)" by fastforce
  have observed: "observed_process processed = (outcome, es)"
    using process_runs[OF assms(2,10-12) processed[unfolded assms(3)]] assms(13) by simp
  obtain st where st: "outcome = Some st" "st = status_ok \<or> \<not> ok_status st \<and> (\<exists>stage earlier.
      es = earlier @ [StageFailed stage (status_code st) (status_message st) (status_retryable st)])"
    using run_returns[of "we_run W options" run_options' create] assms(13) by (metis prod.inject)
  then have "processed = Some (Inr st, es)"
    using observed by (auto simp: observed_process_def split: option.splits sum.splits prod.splits)
  note run = processed[unfolded this]
  show ?thesis unfolding st(1) option.sel
    by (rule event_store.job_reported[OF assms(4,1) refl assms(5-9) run st(2) assms(14)])
qed


lemma sample_good_job:
  "good_job sample_worker sample_settings ''runs/x/job.json'' sample_lease sample_message
     sample_job_document ''j'' ''x'' ''a'' sample_run_options sample_backends"
proof -
  note parts = try_with_def json_at_def at_string_def at_int_def get_string_def get_int_def get_bool_def value_or_def sample_files_def
    sample_job_document_def json_int_def require_that_def
  have input: "job_input sample_files sample_job_document = Inr ''in.pdf''"
    by (simp add: job_input_def localFilePath_def parts)
  have files: "we_files sample_worker = sample_files" "wk_runtime_root sample_settings = []" "we_defaults sample_worker = default_backend_options"
    by (simp_all add: sample_worker_def sample_settings_def)
  have "isInside sample_files p [] = Inr True" for p by (simp add: isInside_def)
  moreover have "\<exists>descriptor. fst (lock_artifacts (we_lock sample_worker directory)) = Inr descriptor" for directory
    by (simp add: lock_artifacts_def sample_worker_def)
  moreover have "loadJob sample_files p = Inr sample_job_document" for p
    by (simp add: loadJob_def parts)
  moreover have "at_string sample_files ''job_id'' sample_job_document = Inr ''j''"
    "at_string sample_files ''run_id'' sample_job_document = Inr ''x''" "at_string sample_files ''attempt_id'' sample_job_document = Inr ''a''"
    by (simp_all add: parts)
  moreover have "identities_agree sample_files sample_message sample_job_document
      [''job_id'', ''run_id'', ''attempt_id''] = Inr ()"
    by (simp add: parts sample_message_def)
  moreover have "validateJob sample_files [] sample_job_document = Inr ()"
    unfolding validateJob_def input by (simp add: inside_root_def isInside_def size_matches_def parts)
  moreover have "canonical_run_directory sample_files ''runs/x/job.json'' sample_job_document = Inr True"
    by (simp add: canonical_run_directory_def parts sample_paths_of_job)
  moreover have "job_options sample_worker ''runs/x/job.json'' sample_lease sample_job_document = Inr (sample_run_options, sample_backends)"
    unfolding job_options_def optionsFromJob_def files input
    by (simp add: parts effectiveBackendOptions_def default_backend_options_def sample_run_options_def sample_backends_def sample_paths_of_job)
  moreover have "0 < wk_retention_seconds sample_settings" "rl_generation sample_lease \<le> wk_maximum_executions sample_settings"
    by (simp_all add: sample_settings_def sample_lease_def)
  ultimately show ?thesis unfolding good_job_def files by blast
qed

theorem worker_reports_run_witness:
  "\<exists>s'. handle_job sample_worker sample_settings ''runs/x/job.json'' sample_lease sample_message sample_state =
      Some (Reported ''job_succeeded'', s') \<and>
    length (snd (js_world s')) = 32 \<and> hd (snd (js_world s')) = ''1 :job_started'' \<and> last (snd (js_world s')) = ''32 :job_succeeded''"
proof -
  have cache: "created_cache sample_build no_files worker_registry defaultEngineConfig (js_cache sample_state)"
    by (simp add: created_cache_def cache_ok_def sample_cache_def sample_state_def)
  have parts: "we_build sample_worker = create_engine sample_build no_files worker_registry"
    "event_store (we_observer sample_worker) event_accepts snd"
    "event_accepts ''x'' (rl_sequence sample_lease) (js_world sample_state)" "\<forall>w. \<not> we_lost sample_worker w"
    "utf8_text ''j''" "utf8_text ''x''" "utf8_text ''a''"
    using event_environment_store event_environment_accepts
    by (simp_all add: sample_worker_def sample_state_def sample_lease_def code_def)
  have run: "we_run sample_worker sample_run_options = sample_environment" "we_paths sample_worker = same_paths"
    "we_duration sample_worker = (\<lambda>_. 0)" "we_observer sample_worker = event_environment"
    "we_seconds sample_worker = env_seconds sample_environment (ps_clock (snd worker_parsed))"
    by (simp_all add: sample_worker_def)
  have options: "worker_options = pipelineOptions sample_run_options (normalizedBackends (we_paths sample_worker) sample_backends)"
    "we_seconds sample_worker = env_seconds (we_run sample_worker sample_run_options) (ps_clock (snd (parseInternal
      (we_run sample_worker sample_run_options) worker_options (RegistryServices worker_create) Pipeline.initial_state)))"
    by (simp_all add: run worker_options_def worker_parsed_def)
  have events: "observed_run (pipeline_run (we_run sample_worker sample_run_options) worker_options worker_create Pipeline.initial_state) =
      (Some status_ok, worker_events)" "list_all (\<lambda>e. event_utf8 (we_duration sample_worker e) e) worker_events"
    using worker_run worker_events_utf8 by (simp_all add: run)
  obtain s' texts where reported: "handle_job sample_worker sample_settings ''runs/x/job.json'' sample_lease sample_message sample_state =
      Some (Reported (end_kind status_ok), s')" "snd (js_world s') = snd (js_world sample_state) @ texts"
    "reported event_environment (''j'', ''x'', ''a'', execution_id sample_lease) (rl_sequence sample_lease)
      (start_fields # map (event_fields 0) worker_events @ [end_fields status_ok]) texts"
    using worker_reports_run[OF sample_good_job cache parts worker_create_def options events] unfolding run option.sel by blast
  have "texts = event_texts 0 (start_fields # map (event_fields 0) worker_events @ [end_fields status_ok])"
    using reported_texts[OF reported(3)] by (simp add: sample_lease_def)
  moreover have "length (event_texts 0 (start_fields # map (event_fields 0) worker_events @ [end_fields status_ok])) = 32"
    "hd (event_texts 0 (start_fields # map (event_fields 0) worker_events @ [end_fields status_ok])) = ''1 :job_started''"
    "last (event_texts 0 (start_fields # map (event_fields 0) worker_events @ [end_fields status_ok])) = ''32 :job_succeeded''"
    by code_simp+
  ultimately show ?thesis using reported(1,2) by (auto simp: sample_state_def end_kind_def)
qed

subsection \<open>What a checked job is\<close>

text \<open>
  C29: A worker runs only what it has checked. The options of a job's run name a regular file with a PDF
  signature, inside the worker's root directory if it has one, and limits in the protocol's range; the
  run is the one that the queue announced; and its output lies in a directory of this execution, which
  no other execution of the job (with another generation of its lease) has.
\<close>

theorem worker_runs_checked_jobs:
  assumes "checked_job W settings job_file lease message s = Some (Inr (job, run_id), s')"
    and "job_options W job_file lease job = Inr (options, backends)"
  shows "wf_regular (we_files W) (ro_input_path options) = Inr True \<and> wf_header (we_files W) (ro_input_path options) = ''%PDF-'' \<and>
    isInside (we_files W) (ro_input_path options) (wk_runtime_root settings) = Inr True \<and>
    1 \<le> ro_timeout_seconds options \<and> ro_timeout_seconds options \<le> 86400 \<and>
    1 \<le> ro_maximum_pages options \<and> ro_maximum_pages options \<le> 10000 \<and>
    ro_run_id options = run_id \<and> (sm_fields message ''run_id'' = None \<or> sm_fields message ''run_id'' = Some run_id) \<and>
    (\<exists>directory. ro_output_directory options = path_join directory ''output'' \<and>
      (\<forall>lease'. execution_directory job_file lease' = directory \<longleftrightarrow> rl_generation lease' = rl_generation lease))"
proof -
  note checked = checked_job_Inr[OF assms(1)]
  obtain input target limits t p where valid: "job_input (we_files W) job = Inr input"
    "wf_regular (we_files W) input = Inr True" "inside_root (we_files W) input target (wk_runtime_root settings) = Inr True"
    "wf_header (we_files W) input = ''%PDF-''" "json_at (we_files W) ''limits'' job = Inr limits"
    "at_int (we_files W) ''timeout_seconds'' limits = Inr t" "at_int (we_files W) ''maximum_pages'' limits = Inr p"
    "1 \<le> t" "t \<le> 86400" "1 \<le> p" "p \<le> 10000"
    using checked(1) by (rule validateJob_Inr)
  obtain limits' where options: "job_input (we_files W) job = Inr (ro_input_path options)"
    "at_string (we_files W) ''run_id'' job = Inr (ro_run_id options)"
    "json_at (we_files W) ''limits'' job = Inr limits'" "at_int (we_files W) ''timeout_seconds'' limits' = Inr (ro_timeout_seconds options)"
    "at_int (we_files W) ''maximum_pages'' limits' = Inr (ro_maximum_pages options)"
    "ro_output_directory options = path_join (execution_directory job_file lease) ''output''"
    using assms(2) by (rule job_options_Inr)
  have same: "ro_input_path options = input" "ro_timeout_seconds options = t" "ro_maximum_pages options = p" "ro_run_id options = run_id"
    using options valid checked(2) by auto
  have "sm_fields message ''run_id'' = None \<or> sm_fields message ''run_id'' = Some run_id"
    using checked(2,3) by (auto simp: try_with_Inr split: option.splits if_splits)
  moreover have "\<exists>directory. ro_output_directory options = path_join directory ''output'' \<and>
      (\<forall>lease'. execution_directory job_file lease' = directory \<longleftrightarrow> rl_generation lease' = rl_generation lease)"
    using options(6) execution_directory_inj by blast
  ultimately show ?thesis
    using valid inside_root_Inr[OF valid(3)] unfolding same by blast
qed

theorem worker_runs_checked_jobs_witness:
  "wf_header sample_files (ro_input_path sample_run_options) = ''%PDF-'' \<and> ro_timeout_seconds sample_run_options \<le> 86400 \<and>
   ro_run_id sample_run_options = ''x''"
proof -
  have files: "we_files sample_worker = sample_files" by (simp add: sample_worker_def)
  have checked: "checked_job sample_worker sample_settings ''runs/x/job.json'' sample_lease sample_message
      (sample_state\<lparr>js_observer := Some sample_observer\<rparr>) =
      Some (Inr (sample_job_document, ''x''), sample_state\<lparr>js_observer := Some sample_observer\<rparr>)"
    unfolding checked_good_job[OF sample_good_job] by simp
  have "job_options sample_worker ''runs/x/job.json'' sample_lease sample_job_document = Inr (sample_run_options, sample_backends)"
    using sample_good_job unfolding good_job_def by blast
  from worker_runs_checked_jobs[OF checked this, unfolded files] show ?thesis by blast
qed

end
