(* ===== verification/Tesseract.thy ===== *)
theory Tesseract
  imports Engine_Config Text_Quality "HOL-Library.Product_Lexorder"
begin

text \<open>
  The Tesseract backend, \<open>cpp/ocr/tesseract_cli_ocr_backend.cpp\<close>: the command line it runs and the
  table of words it reads. The shell's answers are an argument. \<open>getlines\<close> is \<open>std::getline\<close> in a loop.
\<close>

subsection \<open>Strings\<close>

text \<open>The parts before each delimiter, and the rest unless it is empty.\<close>

fun getlines :: "char \<Rightarrow> string \<Rightarrow> string list" where
  "getlines d [] = []"
| "getlines d (c # s) =
     (if c = d then [] # getlines d s
      else case getlines d s of [] \<Rightarrow> [[c]] | l # ls \<Rightarrow> (c # l) # ls)"

definition strip_return :: "string \<Rightarrow> string" where
  "strip_return line = (if line \<noteq> [] \<and> last line = CHR 0x0D then butlast line else line)"

definition shellQuote :: "string \<Rightarrow> string" where
  "shellQuote v = [CHR 0x27] @ concat (map (\<lambda>c. if c = CHR 0x27 then [CHR 0x27, CHR 0x5C, CHR 0x27, CHR 0x27] else [c]) v) @ [CHR 0x27]"

definition c_str :: "string \<Rightarrow> string" where
  "c_str s = takeWhile (\<lambda>c. c \<noteq> CHR 0x00) s"

subsection \<open>Commands\<close>

text \<open>
  \<open>sh_run\<close>: the output of a command and its exit code (\<open>None\<close> if it did not exit); \<open>None\<close> if \<open>popen\<close>
  fails. \<open>sh_system\<close>: what \<open>std::system\<close> returns.
\<close>

record shell =
  sh_run :: "string \<Rightarrow> (string \<times> int option) option"
  sh_system :: "string \<Rightarrow> int"
  sh_exists :: "string \<Rightarrow> bool"

text \<open>\<open>fgets\<close> with a buffer of 4096 bytes: up to a line feed, at most 4095 bytes.\<close>

definition fgets_chunk :: "string \<Rightarrow> string" where
  "fgets_chunk s =
     (let line = takeWhile (\<lambda>c. c \<noteq> CHR 0x0A) s; rest = dropWhile (\<lambda>c. c \<noteq> CHR 0x0A) s
      in take 4095 (line @ take 1 rest))"

lemma fgets_chunk_progress: "s \<noteq> [] \<Longrightarrow> fgets_chunk s \<noteq> []"
  by (cases s) (auto simp: fgets_chunk_def Let_def)

text \<open>Each chunk is appended as a C string, so up to its first zero byte.\<close>

function read_output :: "string \<Rightarrow> string" where
  "read_output s = (if s = [] then [] else c_str (fgets_chunk s) @ read_output (drop (length (fgets_chunk s)) s))"
  by pat_completeness auto
termination
  by (relation "measure length") (auto simp: fgets_chunk_progress)

declare read_output.simps [simp del]

record command_result =
  cm_output :: string
  cm_exit_code :: int

definition runCommand :: "shell \<Rightarrow> string \<Rightarrow> command_result" where
  "runCommand sh command =
     (case sh_run sh (c_str command) of
        None \<Rightarrow> \<lparr>cm_output = [], cm_exit_code = - 1\<rparr>
      | Some (printed, status) \<Rightarrow>
          \<lparr>cm_output = read_output printed, cm_exit_code = (case status of None \<Rightarrow> - 1 | Some code \<Rightarrow> code)\<rparr>)"

subsection \<open>Languages\<close>

definition hasRequestedLanguages :: "string \<Rightarrow> string \<Rightarrow> bool" where
  "hasRequestedLanguages listed_languages requested_languages =
     (if requested_languages = [] then False
      else
        let available = map strip_return (getlines (CHR 0x0A) listed_languages)
        in list_all (\<lambda>requested. requested \<noteq> [] \<and> requested \<in> set available) (getlines (CHR ''+'') requested_languages))"

definition tesseract_available :: "shell \<Rightarrow> string \<Rightarrow> string \<Rightarrow> bool" where
  "tesseract_available sh executable language =
     (if sh_system sh (c_str (''command -v '' @ shellQuote executable @ '' >/dev/null 2>&1'')) \<noteq> 0 then False
      else
        let languages = runCommand sh (shellQuote executable @ '' --list-langs 2>/dev/null'')
        in cm_exit_code languages = 0 \<and> hasRequestedLanguages (cm_output languages) language)"

definition tesseract_unavailable_reason :: "shell \<Rightarrow> string \<Rightarrow> string \<Rightarrow> string" where
  "tesseract_unavailable_reason sh executable language =
     (if tesseract_available sh executable language then []
      else ''Tesseract executable or requested languages are unavailable (executable='' @ executable @
           '', language='' @ language @ '')'')"

subsection \<open>The table of words\<close>

record tsv_word =
  tw_block :: int
  tw_paragraph :: int
  tw_line :: int
  tw_span :: text_span

definition line_key :: "tsv_word \<Rightarrow> int \<times> int \<times> int" where
  "line_key w = (tw_block w, tw_paragraph w, tw_line w)"

definition splitTabLine :: "string \<Rightarrow> string list" where
  "splitTabLine line = getlines (CHR 0x09) line @ (if line \<noteq> [] \<and> last line = CHR 0x09 then [[]] else [])"

definition parseInt :: "int \<Rightarrow> string \<Rightarrow> int" where
  "parseInt fallback v = (case stoi v of None \<Rightarrow> fallback | Some n \<Rightarrow> n)"

definition parseConfidence :: "(string \<Rightarrow> double option) \<Rightarrow> string \<Rightarrow> double" where
  "parseConfidence other v =
     (case stod other v of
        None \<Rightarrow> 0
      | Some confidence \<Rightarrow> if confidence < 0 then 0 else min (confidence / 100) 1)"

definition unionBBox :: "bbox \<Rightarrow> bbox \<Rightarrow> bbox" where
  "unionBBox lhs rhs = \<lparr>bx0 = min (bx0 lhs) (bx0 rhs), by0 = min (by0 lhs) (by0 rhs),
     bx1 = max (bx1 lhs) (bx1 rhs), by1 = max (by1 lhs) (by1 rhs)\<rparr>"

text \<open>A sum of two \<open>int\<close>s, which wraps.\<close>

definition int_sum :: "int \<Rightarrow> int \<Rightarrow> int" where
  "int_sum a b = signed_take_bit 31 (a + b)"

text \<open>A row's word, unless the loop goes on to the next row.\<close>

definition row_word :: "(string \<Rightarrow> double option) \<Rightarrow> string \<Rightarrow> tsv_word option" where
  "row_word other line =
     (let columns = splitTabLine (strip_return line) in
      if length columns < 12 then None
      else if columns ! 11 = [] then None
      else if parseInt (- 1) (columns ! 10) < 0 then None
      else
        let left = parseInt 0 (columns ! 6); up = parseInt 0 (columns ! 7);
            width = parseInt 0 (columns ! 8); height = parseInt 0 (columns ! 9)
        in if width \<le> 0 \<or> height \<le> 0 then None
           else Some \<lparr>tw_block = parseInt 0 (columns ! 2), tw_paragraph = parseInt 0 (columns ! 3), tw_line = parseInt 0 (columns ! 4),
             tw_span = \<lparr>span_text = columns ! 11,
               span_bbox = \<lparr>bx0 = real_of_int left, by0 = real_of_int up, bx1 = real_of_int (int_sum left width),
                 by1 = real_of_int (int_sum up height)\<rparr>,
               span_source = SourceOcr, span_confidence = parseConfidence other (columns ! 10)\<rparr>\<rparr>)"

definition parseTsvWords :: "(string \<Rightarrow> double option) \<Rightarrow> string \<Rightarrow> tsv_word list" where
  "parseTsvWords other tsv = List.map_filter (row_word other) (drop 1 (getlines (CHR 0x0A) tsv))"

definition group_word :: "tsv_word \<Rightarrow> ((int \<times> int \<times> int) \<times> text_span list) list \<Rightarrow> ((int \<times> int \<times> int) \<times> text_span list) list" where
  "group_word w = amap_alter (\<lambda>spans. (case spans of None \<Rightarrow> [] | Some spans \<Rightarrow> spans) @ [tw_span w]) (line_key w)"

text \<open>A line of spans: the loop from the first of them.\<close>

definition append_span :: "text_line \<Rightarrow> text_span \<Rightarrow> text_line" where
  "append_span line one =
     line\<lparr>line_text := line_text line @ (if line_spans line = [] then [] else '' '') @ span_text one,
       line_bbox := unionBBox (line_bbox line) (span_bbox one), line_confidence := line_confidence line + span_confidence one,
       line_spans := line_spans line @ [one]\<rparr>"

definition line_of_spans :: "text_span list \<Rightarrow> text_line" where
  "line_of_spans spans =
     (let line = foldl append_span \<lparr>line_text = [], line_bbox = span_bbox (hd spans), line_source = SourceOcr,
        line_confidence = 0, line_spans = []\<rparr> spans
      in line\<lparr>line_confidence := line_confidence line / real (length spans)\<rparr>)"

definition appendWordsAsLines :: "tsv_word list \<Rightarrow> page_text \<Rightarrow> page_text" where
  "appendWordsAsLines words page_text =
     page_text\<lparr>pt_lines := pt_lines page_text @
       map (\<lambda>(_, spans). line_of_spans spans) (filter (\<lambda>(_, spans). spans \<noteq> []) (foldl (\<lambda>m w. group_word w m) [] words))\<rparr>"

subsection \<open>Recognition\<close>

definition tesseract_command :: "string \<Rightarrow> string \<Rightarrow> string \<Rightarrow> int \<Rightarrow> string" where
  "tesseract_command executable language picture dpi =
     shellQuote executable @ '' '' @ shellQuote picture @ '' stdout -l '' @ shellQuote language @ '' --dpi '' @ int_to_string dpi @
     '' --psm 6 tsv 2>/dev/null''"

definition tesseract_recognize ::
  "shell \<Rightarrow> (string \<Rightarrow> double option) \<Rightarrow> string \<Rightarrow> string \<Rightarrow> page_artifact \<Rightarrow> int \<Rightarrow> ocr_result option" where
  "tesseract_recognize sh other executable language page dpi =
     (if dpi \<le> 0 \<or> pa_output_path page = [] \<or> \<not> sh_exists sh (pa_output_path page) then None
      else
        let command_result = runCommand sh (tesseract_command executable language (pa_output_path page) dpi) in
        if cm_exit_code command_result \<noteq> 0 then None
        else
          let page_text = appendWordsAsLines (parseTsvWords other (cm_output command_result))
                (empty_page_text\<lparr>pt_page_index := pa_page_index page, pt_page_number := pa_page_number page\<rparr>);
              has_text = (pt_lines page_text \<noteq> [])
          in Some \<lparr>or_page_text = page_text\<lparr>pt_has_text := has_text,
                     pt_preferred_source := if has_text then SourceOcr else SourceUnknown\<rparr>,
                   or_regions = [], or_clockwise_correction_degrees = 0\<rparr>)"

definition tesseract_backend :: "shell \<Rightarrow> (string \<Rightarrow> double option) \<Rightarrow> string \<Rightarrow> string \<Rightarrow> ocr_backend" where
  "tesseract_backend sh other executable language =
     \<lparr>ocr_recognize = tesseract_recognize sh other executable language,
      ocr_available = tesseract_available sh executable language,
      ocr_unavailable_reason = tesseract_unavailable_reason sh executable language\<rparr>"

subsection \<open>The command's words\<close>

text \<open>
  How a POSIX shell reads the next word of a simple command: quotes, backslashes, and no character that
  it would treat in another way (\<open>None\<close>). The result is the word and what follows it.
\<close>

definition plain_char :: "char \<Rightarrow> bool" where
  "plain_char c \<longleftrightarrow> isdigit c \<or> (65 \<le> (of_char c :: nat) \<and> (of_char c :: nat) \<le> 90) \<or>
     (97 \<le> (of_char c :: nat) \<and> (of_char c :: nat) \<le> 122) \<or> c = CHR ''-'' \<or> c = CHR ''/'' \<or> c = CHR ''.''"

fun shell_word :: "bool \<Rightarrow> string \<Rightarrow> (string \<times> string) option" where
  "shell_word quoted [] = (if quoted then None else Some ([], []))"
| "shell_word quoted (c # s) =
     (if c = CHR 0x27 then shell_word (\<not> quoted) s
      else if quoted then map_option (\<lambda>(w, rest). (c # w, rest)) (shell_word True s)
      else if c = CHR '' '' then Some ([], s)
      else if c = CHR 0x5C then
        (case s of [] \<Rightarrow> None | d # s \<Rightarrow> map_option (\<lambda>(w, rest). (d # w, rest)) (shell_word False s))
      else if plain_char c then map_option (\<lambda>(w, rest). (c # w, rest)) (shell_word False s)
      else None)"

fun shell_words :: "nat \<Rightarrow> string \<Rightarrow> (string list \<times> string) option" where
  "shell_words 0 s = Some ([], s)"
| "shell_words (Suc n) s =
     (case shell_word False s of
        None \<Rightarrow> None
      | Some (w, rest) \<Rightarrow> map_option (\<lambda>(ws, rest). (w # ws, rest)) (shell_words n rest))"

lemma quoted_word:
  "shell_word True (concat (map (\<lambda>c. if c = CHR 0x27 then [CHR 0x27, CHR 0x5C, CHR 0x27, CHR 0x27] else [c]) v) @ [CHR 0x27] @ s) =
     map_option (\<lambda>(w, rest). (v @ w, rest)) (shell_word False s)"
  by (induction v) (simp_all add: option.map_comp comp_def case_prod_beta option.map_id option.map_ident)

lemma shell_word_quote: "shell_word False (shellQuote v @ s) = map_option (\<lambda>(w, rest). (v @ w, rest)) (shell_word False s)"
  using quoted_word[of v s] by (simp add: shellQuote_def)

lemma shell_word_plain:
  "list_all plain_char v \<Longrightarrow> shell_word False (v @ s) = map_option (\<lambda>(w, rest). (v @ w, rest)) (shell_word False s)"
proof (induction v)
  case (Cons c v)
  then have "c \<noteq> CHR 0x27" "c \<noteq> CHR '' ''" "c \<noteq> CHR 0x5C" by (auto simp: plain_char_def isdigit_def)
  with Cons show ?case by (simp add: option.map_comp comp_def case_prod_beta)
qed (simp add: option.map_ident option.map_id)

lemma plain_number: "list_all plain_char (int_to_string n)"
  by (auto simp: int_to_string_def plain_char_def list_all_iff dest: nat_to_string_digits)

lemma next_word:
  "shell_word False (shellQuote v @ '' '' @ s) = Some (v, s)"
  "list_all plain_char u \<Longrightarrow> shell_word False (u @ '' '' @ s) = Some (u, s)"
  by (simp_all add: shell_word_quote shell_word_plain)

text \<open>
  C30: Whatever the names of the executable, the languages and the image are, a POSIX shell reads the
  command as those words and the options, in their places: no name is split, expanded or run.
\<close>

theorem tesseract_command_words:
  "shell_words 10 (tesseract_command executable language picture dpi) =
     Some ([executable, picture, ''stdout'', ''-l'', language, ''--dpi'', int_to_string dpi, ''--psm'', ''6'', ''tsv''], ''2>/dev/null'')"
proof -
  have command: "tesseract_command executable language picture dpi =
      shellQuote executable @ '' '' @ shellQuote picture @ '' '' @ ''stdout'' @ '' '' @ ''-l'' @ '' '' @ shellQuote language @ '' '' @
      ''--dpi'' @ '' '' @ int_to_string dpi @ '' '' @ ''--psm'' @ '' '' @ ''6'' @ '' '' @ ''tsv'' @ '' '' @ ''2>/dev/null''"
    by (simp add: tesseract_command_def)
  have words: "list_all plain_char ''stdout''" "list_all plain_char ''-l''" "list_all plain_char ''--dpi''"
    "list_all plain_char ''--psm''" "list_all plain_char ''6''" "list_all plain_char ''tsv''"
    by code_simp+
  have step: "shell_word False s = Some (w, rest) \<Longrightarrow> shell_words (Suc n) s =
      map_option (\<lambda>(ws, rest). (w # ws, rest)) (shell_words n rest)" for n s w rest by simp
  note read = step[OF next_word(1)] step[OF next_word(2)[OF words(1)]] step[OF next_word(2)[OF words(2)]]
    step[OF next_word(2)[OF words(3)]] step[OF next_word(2)[OF words(4)]] step[OF next_word(2)[OF words(5)]]
    step[OF next_word(2)[OF words(6)]] step[OF next_word(2)[OF plain_number]]
  have ten: "10 = Suc (Suc (Suc (Suc (Suc (Suc (Suc (Suc (Suc (Suc 0)))))))))" by simp
  show ?thesis
    unfolding command ten by (simp only: read shell_words.simps(1) option.map prod.case)
qed

subsection \<open>Lines are groups of words\<close>

lemma grouped_wf: "amap_wf (foldl (\<lambda>m w. group_word w m) [] words)"
  by (induction words rule: rev_induct) (simp_all add: group_word_def amap_alter_wf amap_wf_def[of "[]"])

lemma grouped_of:
  "map_of (foldl (\<lambda>m w. group_word w m) [] words) k =
     (if k \<in> line_key ` set words then Some (map tw_span (filter (\<lambda>w. line_key w = k) words)) else None)"
proof (induction words rule: rev_induct)
  case (snoc w words)
  have "map_of (group_word w (foldl (\<lambda>m w. group_word w m) [] words)) k =
      ((map_of (foldl (\<lambda>m w. group_word w m) [] words))(line_key w \<mapsto>
        (case map_of (foldl (\<lambda>m w. group_word w m) [] words) (line_key w) of None \<Rightarrow> [] | Some spans \<Rightarrow> spans) @ [tw_span w])) k"
    unfolding group_word_def by (rule fun_cong[OF map_of_amap_alter[OF grouped_wf[unfolded group_word_def]]])
  then show ?case using snoc by (auto simp: filter_empty_conv image_iff) metis+
qed simp

lemma amap_as_list: "amap_wf m \<Longrightarrow> m = map (\<lambda>k. (k, the (map_of m k))) (sorted_list_of_set (fst ` set m))"
proof -
  assume wf: "amap_wf m"
  then have "sorted (map fst m)" "distinct (map fst m)" by (simp_all add: amap_wf_def strict_sorted_iff)
  then have "sorted_list_of_set (fst ` set m) = map fst m"
    using sorted_list_of_set.idem_if_sorted_distinct[of "map fst m"] by simp
  moreover have "map (\<lambda>k. (k, the (map_of m k))) (map fst m) = m"
    using \<open>distinct (map fst m)\<close> by (auto intro!: map_idI simp: comp_def map_of_is_SomeI)
  ultimately show ?thesis by simp
qed

lemma grouped_list:
  "foldl (\<lambda>m w. group_word w m) [] words =
     map (\<lambda>k. (k, map tw_span (filter (\<lambda>w. line_key w = k) words))) (sorted_list_of_set (line_key ` set words))"
proof -
  let ?m = "foldl (\<lambda>m w. group_word w m) [] words"
  have keys: "fst ` set ?m = line_key ` set words"
    using grouped_of[of words] by (auto simp: set_eq_iff map_of_eq_None_iff[symmetric] dom_map_of_conv_image_fst[symmetric] dom_def)
  show ?thesis
    by (subst amap_as_list[OF grouped_wf]) (auto simp: keys grouped_of)
qed

lemma mset_concat_groups:
  "distinct ks \<Longrightarrow> mset (concat (map (\<lambda>k. map f (filter (\<lambda>w. g w = k) ws)) ks)) = mset (map f (filter (\<lambda>w. g w \<in> set ks) ws))"
proof (induction ks)
  case (Cons k ks)
  have "filter_mset (\<lambda>w. g w = k) (mset ws) + filter_mset (\<lambda>w. g w \<in> set ks) (mset ws) =
      filter_mset (\<lambda>w. g w = k \<or> g w \<in> set ks) (mset ws)"
    by (rule multiset_eqI) (use Cons.prems in auto)
  then show ?case using Cons by (simp flip: image_mset_union)
qed simp

text \<open>Words that a row can give.\<close>

definition word_ok :: "tsv_word \<Rightarrow> bool" where
  "word_ok w \<longleftrightarrow> span_text (tw_span w) \<noteq> [] \<and> span_source (tw_span w) = SourceOcr \<and>
     0 \<le> span_confidence (tw_span w) \<and> span_confidence (tw_span w) \<le> 1"

lemma row_word_ok: "row_word other line = Some w \<Longrightarrow> word_ok w"
  by (auto simp: row_word_def word_ok_def parseConfidence_def Let_def split: if_splits option.splits)

lemma parsed_words_ok: "list_all word_ok (parseTsvWords other tsv)"
  by (auto simp: parseTsvWords_def list_all_iff List.map_filter_def dest: row_word_ok)

lemma spans_folded:
  "line_spans (foldl append_span l spans) = line_spans l @ spans \<and>
   line_confidence (foldl append_span l spans) = line_confidence l + sum_list (map span_confidence spans) \<and>
   line_source (foldl append_span l spans) = line_source l"
  by (induction spans arbitrary: l) (simp_all add: append_span_def)

lemma line_of_ok:
  assumes "spans \<noteq> []" "\<And>x. x \<in> set spans \<Longrightarrow> 0 \<le> span_confidence x \<and> span_confidence x \<le> 1"
  shows "line_spans (line_of_spans spans) = spans \<and> 0 \<le> line_confidence (line_of_spans spans) \<and> line_confidence (line_of_spans spans) \<le> 1"
proof -
  have "0 \<le> sum_list (map span_confidence spans)" using assms(2) by (auto intro!: sum_list_nonneg)
  moreover have "sum_list (map span_confidence spans) \<le> sum_list (map (\<lambda>_. 1) spans)"
    by (rule sum_list_mono) (use assms(2) in auto)
  then have "sum_list (map span_confidence spans) \<le> real (length spans)" by (simp add: sum_list_triv)
  ultimately show ?thesis using assms(1) by (simp add: line_of_spans_def Let_def spans_folded divide_le_eq)
qed

text \<open>
  What Tesseract recognizes is its table of words, line by line. There is one line for each block,
  paragraph and line number of the table, in their order; it consists of the words with these numbers,
  in the order of the table, no word is lost or invented, and every confidence lies between 0 and 1.
\<close>

lemma tesseract_lines_are_groups:
  "case tesseract_recognize sh other executable language page dpi of
     None \<Rightarrow> True
   | Some r \<Rightarrow>
       let words = parseTsvWords other (cm_output (runCommand sh (tesseract_command executable language (pa_output_path page) dpi)));
           lines = pt_lines (or_page_text r)
       in lines = map (\<lambda>k. line_of_spans (map tw_span (filter (\<lambda>w. line_key w = k) words))) (sorted_list_of_set (line_key ` set words)) \<and>
          mset (concat (map line_spans lines)) = mset (map tw_span words) \<and> list_all word_ok words \<and>
          list_all (\<lambda>l. line_spans l \<noteq> [] \<and> 0 \<le> line_confidence l \<and> line_confidence l \<le> 1) lines"
proof (cases "tesseract_recognize sh other executable language page dpi")
  case (Some r)
  define words where "words = parseTsvWords other (cm_output (runCommand sh (tesseract_command executable language (pa_output_path page) dpi)))"
  define ks where "ks = sorted_list_of_set (line_key ` set words)"
  let ?group = "\<lambda>k. map tw_span (filter (\<lambda>w. line_key w = k) words)"
  have keys: "set ks = line_key ` set words" "distinct ks" by (simp_all add: ks_def)
  have groups: "?group k \<noteq> []" if "k \<in> set ks" for k using that keys(1) by (auto simp: filter_empty_conv)
  have "pt_lines (or_page_text r) = pt_lines (appendWordsAsLines words (empty_page_text\<lparr>pt_page_index := pa_page_index page,
      pt_page_number := pa_page_number page\<rparr>))"
    using Some by (auto simp: tesseract_recognize_def words_def Let_def split: if_splits)
  also have "\<dots> = map (\<lambda>(_, spans). line_of_spans spans) (filter (\<lambda>(_, spans). spans \<noteq> []) (map (\<lambda>k. (k, ?group k)) ks))"
    by (simp add: appendWordsAsLines_def empty_page_text_def grouped_list ks_def)
  also have "filter (\<lambda>(_, spans). spans \<noteq> []) (map (\<lambda>k. (k, ?group k)) ks) = map (\<lambda>k. (k, ?group k)) ks"
    using groups by (subst filter_id_conv) auto
  finally have lines: "pt_lines (or_page_text r) = map (\<lambda>k. line_of_spans (?group k)) ks" by (simp add: comp_def)
  have ok: "list_all word_ok words" unfolding words_def by (rule parsed_words_ok)
  have line: "line_spans (line_of_spans (?group k)) = ?group k \<and> 0 \<le> line_confidence (line_of_spans (?group k)) \<and>
      line_confidence (line_of_spans (?group k)) \<le> 1" if "k \<in> set ks" for k
    by (rule line_of_ok[OF groups[OF that]]) (use ok in \<open>auto simp: list_all_iff word_ok_def\<close>)
  have spans: "map line_spans (map (\<lambda>k. line_of_spans (?group k)) ks) = map ?group ks" using line by simp
  have "mset (concat (map line_spans (map (\<lambda>k. line_of_spans (?group k)) ks))) = mset (map tw_span (filter (\<lambda>w. line_key w \<in> set ks) words))"
    unfolding spans by (rule mset_concat_groups[OF keys(2)])
  also have "filter (\<lambda>w. line_key w \<in> set ks) words = words" by (simp add: filter_id_conv keys(1))
  finally have all: "mset (concat (map line_spans (map (\<lambda>k. line_of_spans (?group k)) ks))) = mset (map tw_span words)" .
  have each: "list_all (\<lambda>l. line_spans l \<noteq> [] \<and> 0 \<le> line_confidence l \<and> line_confidence l \<le> 1) (map (\<lambda>k. line_of_spans (?group k)) ks)"
    using line groups by (auto simp: list_all_iff)
  show ?thesis
    unfolding Some option.case Let_def words_def[symmetric] ks_def[symmetric] lines
    using all ok each by blast
qed simp

end
