(* ===== verification/C_Api.thy ===== *)
theory C_Api
  imports Document_Engine Exporter
begin

text \<open>
  The C interface of the SDK, \<open>sdk/c/src/document_intelligence_engine.cpp\<close>: reading the configuration
  and the options of a run, the two calls that create an engine and parse a document, and the accessors.
  A pointer is an option. The JSON parser is an argument (\<open>Inl\<close>: it throws, with that message).
\<close>

subsection \<open>Errors\<close>

datatype die_result = ResultOk | InvalidArgument | ConfigurationError | ParseError | SerializationError | InternalError

record die_error =
  de_result :: die_result
  de_code :: string
  de_message :: string
  de_stage :: string
  de_retryable :: bool

record input_error =
  ie_code :: string
  ie_stage :: string
  ie_message :: string

text \<open>The code and the stage of a caller's errors.\<close>

record api_context =
  ax_code :: string
  ax_stage :: string

definition input_fails :: "api_context \<Rightarrow> string \<Rightarrow> input_error + 'a" where
  "input_fails ctx message = Inl \<lparr>ie_code = ax_code ctx, ie_stage = ax_stage ctx, ie_message = message\<rparr>"

text \<open>\<open>fail\<close>: the result, and the error if the caller has a place for it.\<close>

definition fail :: "bool \<Rightarrow> die_result \<Rightarrow> string \<Rightarrow> string \<Rightarrow> string \<Rightarrow> bool \<Rightarrow> die_result \<times> die_error option" where
  "fail out_error result code message stage retryable =
     (result, if out_error then Some \<lparr>de_result = result, de_code = code, de_message = message, de_stage = stage,
        de_retryable = retryable\<rparr> else None)"

definition fail_status :: "bool \<Rightarrow> die_result \<Rightarrow> status \<Rightarrow> die_result \<times> die_error option" where
  "fail_status out_error result st =
     fail out_error result (status_code st) (status_message st) (status_stage st) (status_retryable st)"

definition fail_input :: "bool \<Rightarrow> input_error \<Rightarrow> die_result \<times> die_error option" where
  "fail_input out_error e = fail out_error InvalidArgument (ie_code e) (ie_message e) (ie_stage e) False"

subsection \<open>Reading JSON\<close>

definition parseObject :: "(string \<Rightarrow> string + json) \<Rightarrow> api_context \<Rightarrow> string \<Rightarrow> string option \<Rightarrow> input_error + json" where
  "parseObject parse ctx label given =
     (case given of
        None \<Rightarrow> input_fails ctx (label @ '' JSON must be a non-empty UTF-8 string'')
      | Some s \<Rightarrow>
          if s = [] then input_fails ctx (label @ '' JSON must be a non-empty UTF-8 string'')
          else
            (case parse s of
               Inl message \<Rightarrow> input_fails ctx (''invalid '' @ label @ '' JSON: '' @ message)
             | Inr v \<Rightarrow> if \<not> is_object v then input_fails ctx (label @ '' JSON root must be an object'') else Inr v))"

definition rejectUnknown :: "api_context \<Rightarrow> string list \<Rightarrow> string \<Rightarrow> json \<Rightarrow> input_error + unit" where
  "rejectUnknown ctx allowed label object =
     (if \<not> is_object object then input_fails ctx (label @ '' must be an object'')
      else
        case unknown_key allowed object of
          None \<Rightarrow> Inr ()
        | Some key \<Rightarrow> input_fails ctx (label @ '' contains unknown field '' @ [CHR 0x27] @ key @ [CHR 0x27]))"

definition optionalObject :: "api_context \<Rightarrow> string \<Rightarrow> string list \<Rightarrow> json \<Rightarrow> input_error + json option" where
  "optionalObject ctx key allowed parent =
     (case json_get parent key of
        None \<Rightarrow> Inr None
      | Some item \<Rightarrow> try_with (rejectUnknown ctx allowed key item) (\<lambda>_. Inr (Some item)))"

definition requireSchemaV1 :: "api_context \<Rightarrow> json \<Rightarrow> input_error + unit" where
  "requireSchemaV1 ctx object =
     (if json_get object ''schema_version'' = Some (JInt 1) then Inr () else input_fails ctx ''schema_version must be integer 1'')"

definition stringValue :: "api_context \<Rightarrow> string \<Rightarrow> bool \<Rightarrow> bool \<Rightarrow> json \<Rightarrow> input_error + string" where
  "stringValue ctx key required allow_empty object =
     (case json_get object key of
        None \<Rightarrow> if required then input_fails ctx (key @ '' is required'') else Inr []
      | Some (JString v) \<Rightarrow>
          if CHR 0x00 \<in> set v then input_fails ctx (key @ '' must not contain NUL'')
          else if \<not> allow_empty \<and> v = [] then input_fails ctx (key @ '' must not be empty'')
          else Inr v
      | Some _ \<Rightarrow> input_fails ctx (key @ '' must be a string''))"

text \<open>\<open>apply...\<close>: the target,
    or what the key says. \<open>applyPath\<close> is \<open>applyString\<close>: \<open>u8path\<close> keeps the bytes.\<close>

definition applyString :: "api_context \<Rightarrow> json \<Rightarrow> string \<Rightarrow> bool \<Rightarrow> string \<Rightarrow> input_error + string" where
  "applyString ctx object key allow_empty target =
     (if json_get object key \<noteq> None then stringValue ctx key True allow_empty object else Inr target)"

definition applyPath :: "api_context \<Rightarrow> json \<Rightarrow> string \<Rightarrow> bool \<Rightarrow> string \<Rightarrow> input_error + string" where
  "applyPath ctx object key allow_empty target =
     (if json_get object key \<noteq> None then stringValue ctx key True allow_empty object else Inr target)"

definition int_max :: int where
  "int_max = 2 ^ 31 - 1"

definition integerValue :: "api_context \<Rightarrow> string \<Rightarrow> int \<Rightarrow> bool \<Rightarrow> json \<Rightarrow> input_error + int" where
  "integerValue ctx key minimum required object =
     (case json_get object key of
        None \<Rightarrow> if required then input_fails ctx (key @ '' is required'') else Inr minimum
      | Some (JInt n) \<Rightarrow>
          if minimum \<le> n \<and> n \<le> int_max then Inr n
          else input_fails ctx (key @ '' must be between '' @ int_to_string minimum @ '' and '' @ int_to_string int_max)
      | Some _ \<Rightarrow> input_fails ctx (key @ '' must be an integer''))"

definition applyInteger :: "api_context \<Rightarrow> json \<Rightarrow> string \<Rightarrow> int \<Rightarrow> int \<Rightarrow> input_error + int" where
  "applyInteger ctx object key minimum target =
     (if json_get object key \<noteq> None then integerValue ctx key minimum True object else Inr target)"

text \<open>An integer of the parser fits 64 bits, with or without a sign.\<close>

definition applySize :: "api_context \<Rightarrow> json \<Rightarrow> string \<Rightarrow> int \<Rightarrow> 64 word \<Rightarrow> input_error + 64 word" where
  "applySize ctx object key minimum target =
     (case json_get object key of
        None \<Rightarrow> Inr target
      | Some (JInt n) \<Rightarrow>
          if n < minimum \<or> n > 2 ^ 64 - 1 then input_fails ctx (key @ '' must be at least '' @ int_to_string minimum)
          else Inr (word_of_int n)
      | Some _ \<Rightarrow> input_fails ctx (key @ '' must be an integer''))"

definition numberValue :: "api_context \<Rightarrow> string \<Rightarrow> double \<Rightarrow> double \<Rightarrow> bool \<Rightarrow> json \<Rightarrow> input_error + double" where
  "numberValue ctx key minimum maximum include_minimum object =
     (case (case json_get object key of
              Some (JInt n) \<Rightarrow> Some (real_of_int n)
            | Some (JNumber x) \<Rightarrow> Some x
            | _ \<Rightarrow> None) of
        None \<Rightarrow> input_fails ctx (key @ '' must be a number'')
      | Some v \<Rightarrow>
          if \<not> isfinite v \<or> (if include_minimum then v < minimum else v \<le> minimum) \<or> v > maximum
          then input_fails ctx (key @ '' must be in the supported range'')
          else Inr v)"

definition api_probability :: "api_context \<Rightarrow> json \<Rightarrow> string \<Rightarrow> double \<Rightarrow> input_error + double" where
  "api_probability ctx object key target =
     (if json_get object key \<noteq> None then numberValue ctx key 0 1 True object else Inr target)"

definition booleanValue :: "api_context \<Rightarrow> json \<Rightarrow> string \<Rightarrow> bool \<Rightarrow> input_error + bool" where
  "booleanValue ctx object key target =
     (case json_get object key of
        None \<Rightarrow> Inr target
      | Some (JBool b) \<Rightarrow> Inr b
      | Some _ \<Rightarrow> input_fails ctx (key @ '' must be a boolean''))"

subsection \<open>\<open>engineConfig\<close>\<close>

definition read_backends :: "api_context \<Rightarrow> json \<Rightarrow> backend_options \<Rightarrow> input_error + backend_options" where
  "read_backends ctx parent c =
     try_with (optionalObject ctx ''backends'' [''document'', ''ocr'', ''layout'', ''table'', ''registry_config''] parent) (\<lambda>item.
       case item of None \<Rightarrow> Inr c | Some j \<Rightarrow>
         try_with (applyString ctx j ''document'' False (bo_document c)) (\<lambda>document.
         try_with (applyString ctx j ''ocr'' False (bo_ocr c)) (\<lambda>ocr.
         try_with (applyString ctx j ''layout'' False (bo_layout c)) (\<lambda>layout.
         try_with (applyString ctx j ''table'' False (bo_table c)) (\<lambda>tables.
         try_with (applyPath ctx j ''registry_config'' True (bo_registry_config c)) (\<lambda>registry_config.
           Inr (c\<lparr>bo_document := document, bo_ocr := ocr, bo_layout := layout, bo_table := tables,
               bo_registry_config := registry_config\<rparr>)))))))"

definition read_tesseract :: "api_context \<Rightarrow> json \<Rightarrow> tesseract_config \<Rightarrow> input_error + tesseract_config" where
  "read_tesseract ctx parent c =
     try_with (optionalObject ctx ''tesseract'' [''executable'', ''language''] parent) (\<lambda>item.
       case item of None \<Rightarrow> Inr c | Some j \<Rightarrow>
         try_with (applyString ctx j ''executable'' False (ts_executable c)) (\<lambda>executable.
         try_with (applyString ctx j ''language'' False (ts_language c)) (\<lambda>language.
           Inr (c\<lparr>ts_executable := executable, ts_language := language\<rparr>))))"

definition apply_unclip :: "api_context \<Rightarrow> json \<Rightarrow> double \<Rightarrow> input_error + double" where
  "apply_unclip ctx object target =
     (if json_get object ''unclip_ratio'' \<noteq> None then numberValue ctx ''unclip_ratio'' 0 dbl_max False object else Inr target)"

definition paddle_fields :: "api_context \<Rightarrow> json \<Rightarrow> paddle_ocr_config \<Rightarrow> input_error + paddle_ocr_config" where
  "paddle_fields ctx j c =
         try_with (applyPath ctx j ''detection_model'' False (po_detection_model c)) (\<lambda>detection_model.
         try_with (applyPath ctx j ''recognition_model'' False (po_recognition_model c)) (\<lambda>recognition_model.
         try_with (applyPath ctx j ''character_dict'' False (po_character_dict c)) (\<lambda>character_dict.
         try_with (applyString ctx j ''profile'' False (pp_name (po_profile c))) (\<lambda>profile.
         try_with (applyInteger ctx j ''detection_limit_side'' 1 (po_detection_limit_side c)) (\<lambda>detection_limit_side.
         try_with (applyInteger ctx j ''recognition_image_height'' 1 (po_recognition_image_height c)) (\<lambda>recognition_image_height.
         try_with (applyInteger ctx j ''recognition_base_width'' 1 (po_recognition_base_width c)) (\<lambda>recognition_base_width.
         try_with (applyInteger ctx j ''recognition_max_width'' 1 (po_recognition_max_width c)) (\<lambda>recognition_max_width.
         try_with (applyInteger ctx j ''recognition_width_multiple'' 1 (po_recognition_width_multiple c)) (\<lambda>recognition_width_multiple.
         try_with (applySize ctx j ''recognition_batch_size'' 1 (po_recognition_batch_size c)) (\<lambda>recognition_batch_size.
         try_with (applySize ctx j ''detection_max_candidates'' 1 (po_detection_max_candidates c)) (\<lambda>detection_max_candidates.
         try_with (api_probability ctx j ''detection_threshold'' (po_detection_threshold c)) (\<lambda>detection_threshold.
         try_with (api_probability ctx j ''box_threshold'' (po_box_threshold c)) (\<lambda>box_threshold.
         try_with (api_probability ctx j ''recognition_threshold'' (po_recognition_threshold c)) (\<lambda>recognition_threshold.
         try_with (booleanValue ctx j ''recover_upside_down'' (po_recover_upside_down c)) (\<lambda>recover_upside_down.
         try_with (apply_unclip ctx j (po_unclip_ratio c)) (\<lambda>unclip_ratio.
           Inr (c\<lparr>po_detection_model := detection_model, po_recognition_model := recognition_model,
               po_character_dict := character_dict, po_profile := (po_profile c)\<lparr>pp_name := profile\<rparr>,
               po_detection_limit_side := detection_limit_side, po_recognition_image_height := recognition_image_height,
               po_recognition_base_width := recognition_base_width, po_recognition_max_width := recognition_max_width,
               po_recognition_width_multiple := recognition_width_multiple, po_recognition_batch_size := recognition_batch_size,
               po_detection_max_candidates := detection_max_candidates, po_detection_threshold := detection_threshold,
               po_box_threshold := box_threshold, po_recognition_threshold := recognition_threshold, po_unclip_ratio := unclip_ratio,
               po_recover_upside_down := recover_upside_down\<rparr>)))))))))))))))))"

definition read_paddle_ocr :: "api_context \<Rightarrow> json \<Rightarrow> paddle_ocr_config \<Rightarrow> input_error + paddle_ocr_config" where
  "read_paddle_ocr ctx parent c =
     try_with (optionalObject ctx ''paddle_ocr'' [''detection_model'', ''recognition_model'', ''character_dict'', ''profile'',
         ''detection_limit_side'', ''recognition_image_height'', ''recognition_base_width'', ''recognition_max_width'',
         ''recognition_width_multiple'', ''recognition_batch_size'', ''detection_max_candidates'', ''detection_threshold'',
         ''box_threshold'', ''recognition_threshold'', ''unclip_ratio'', ''recover_upside_down''] parent) (\<lambda>item.
       case item of None \<Rightarrow> Inr c | Some j \<Rightarrow> paddle_fields ctx j c)"

definition read_doclaynet :: "api_context \<Rightarrow> json \<Rightarrow> doclaynet_config \<Rightarrow> input_error + doclaynet_config" where
  "read_doclaynet ctx parent c =
     try_with (optionalObject ctx ''doclaynet'' [''model_path'', ''input_width'', ''input_height'', ''confidence_threshold''] parent) (\<lambda>item.
       case item of None \<Rightarrow> Inr c | Some j \<Rightarrow>
         try_with (applyPath ctx j ''model_path'' False (dn_model_path c)) (\<lambda>model_path.
         try_with (applyInteger ctx j ''input_width'' 1 (dn_input_width c)) (\<lambda>input_width.
         try_with (applyInteger ctx j ''input_height'' 1 (dn_input_height c)) (\<lambda>input_height.
         try_with (api_probability ctx j ''confidence_threshold'' (dn_confidence_threshold c)) (\<lambda>confidence_threshold.
           Inr (c\<lparr>dn_model_path := model_path, dn_input_width := input_width, dn_input_height := input_height,
               dn_confidence_threshold := confidence_threshold\<rparr>))))))"

definition read_paddle_layout :: "api_context \<Rightarrow> json \<Rightarrow> paddle_layout_config \<Rightarrow> input_error + paddle_layout_config" where
  "read_paddle_layout ctx parent c =
     try_with (optionalObject ctx ''paddle_layout'' [''model_path'', ''input_width'', ''input_height'', ''confidence_threshold''] parent) (\<lambda>item.
       case item of None \<Rightarrow> Inr c | Some j \<Rightarrow>
         try_with (applyPath ctx j ''model_path'' False (pd_model_path c)) (\<lambda>model_path.
         try_with (applyInteger ctx j ''input_width'' 1 (pd_input_width c)) (\<lambda>input_width.
         try_with (applyInteger ctx j ''input_height'' 1 (pd_input_height c)) (\<lambda>input_height.
         try_with (api_probability ctx j ''confidence_threshold'' (pd_confidence_threshold c)) (\<lambda>confidence_threshold.
           Inr (c\<lparr>pd_model_path := model_path, pd_input_width := input_width, pd_input_height := input_height,
               pd_confidence_threshold := confidence_threshold\<rparr>))))))"

definition read_table_transformer :: "api_context \<Rightarrow> json \<Rightarrow> table_transformer_config \<Rightarrow> input_error + table_transformer_config" where
  "read_table_transformer ctx parent c =
     try_with (optionalObject ctx ''table_transformer'' [''detection_model'', ''structure_model'', ''detection_confidence_threshold'',
         ''structure_confidence_threshold'', ''crop_padding''] parent) (\<lambda>item.
       case item of None \<Rightarrow> Inr c | Some j \<Rightarrow>
         try_with (applyPath ctx j ''detection_model'' False (tt_detection_model_path c)) (\<lambda>detection_model.
         try_with (applyPath ctx j ''structure_model'' False (tt_structure_model_path c)) (\<lambda>structure_model.
         try_with (api_probability ctx j ''detection_confidence_threshold'' (tt_detection_confidence_threshold c)) (\<lambda>detection_confidence_threshold.
         try_with (api_probability ctx j ''structure_confidence_threshold'' (tt_structure_confidence_threshold c)) (\<lambda>structure_confidence_threshold.
         try_with (applyInteger ctx j ''crop_padding'' 0 (tt_crop_padding c)) (\<lambda>crop_padding.
           Inr (c\<lparr>tt_detection_model_path := detection_model, tt_structure_model_path := structure_model,
               tt_detection_confidence_threshold := detection_confidence_threshold,
               tt_structure_confidence_threshold := structure_confidence_threshold, tt_crop_padding := crop_padding\<rparr>)))))))"

definition config_context :: api_context where
  "config_context = \<lparr>ax_code = ''c_api.invalid_config'', ax_stage = ''configure''\<rparr>"

definition read_models :: "api_context \<Rightarrow> json \<Rightarrow> engine_config \<Rightarrow> input_error + engine_config" where
  "read_models ctx models config =
     try_with (read_paddle_ocr ctx models (ec_paddle_ocr config)) (\<lambda>paddle_ocr.
     try_with (read_doclaynet ctx models (ec_doclaynet config)) (\<lambda>doclaynet.
     try_with (read_paddle_layout ctx models (ec_paddle_layout config)) (\<lambda>paddle_layout.
     try_with (read_table_transformer ctx models (ec_table_transformer config)) (\<lambda>table_transformer.
       Inr (config\<lparr>ec_paddle_ocr := paddle_ocr, ec_doclaynet := doclaynet, ec_paddle_layout := paddle_layout,
         ec_table_transformer := table_transformer\<rparr>)))))"

definition engineConfig :: "(string \<Rightarrow> string + json) \<Rightarrow> string option \<Rightarrow> input_error + engine_config" where
  "engineConfig parse config_json =
     (let ctx = config_context; config = defaultEngineConfig in
      try_with (parseObject parse ctx ''engine configuration'' config_json) (\<lambda>root_value.
      try_with (rejectUnknown ctx [''schema_version'', ''backends'', ''tesseract'', ''models''] ''engine configuration'' root_value) (\<lambda>_.
      try_with (requireSchemaV1 ctx root_value) (\<lambda>_.
      try_with (read_backends ctx root_value (ec_backends config)) (\<lambda>backends.
      try_with (read_tesseract ctx root_value (ec_tesseract config)) (\<lambda>tesseract.
      let config = config\<lparr>ec_backends := backends, ec_tesseract := tesseract\<rparr> in
      try_with (optionalObject ctx ''models'' [''paddle_ocr'', ''doclaynet'', ''paddle_layout'', ''table_transformer''] root_value) (\<lambda>models.
        case models of None \<Rightarrow> Inr config | Some models \<Rightarrow> read_models ctx models config)))))))"

subsection \<open>\<open>parseOptions\<close>\<close>

definition options_context :: api_context where
  "options_context = \<lparr>ax_code = ''c_api.invalid_options'', ax_stage = ''parse''\<rparr>"

definition cache_bytes :: "api_context \<Rightarrow> json \<Rightarrow> input_error + nat" where
  "cache_bytes ctx root_value =
     (case json_get root_value ''image_cache_bytes'' of
        None \<Rightarrow> Inr (64 * 1024 * 1024)
      | Some (JInt n) \<Rightarrow>
          if 0 \<le> n \<and> n \<le> 2 ^ 64 - 1 then Inr (nat n)
          else input_fails ctx ''image_cache_bytes must be a non-negative integer fitting size_t''
      | Some _ \<Rightarrow> input_fails ctx ''image_cache_bytes must be a non-negative integer fitting size_t'')"

text \<open>The options, and the size of the run's image cache, which \<open>Image_Cache\<close> models on its own.\<close>

definition parseOptions :: "(string \<Rightarrow> string + json) \<Rightarrow> string option \<Rightarrow> input_error + run_options \<times> nat" where
  "parseOptions parse options_json =
     (let ctx = options_context in
      try_with (parseObject parse ctx ''parse options'' options_json) (\<lambda>root_value.
      try_with (rejectUnknown ctx [''schema_version'', ''input_path'', ''output_directory'', ''dpi'', ''debug'', ''timeout_seconds'',
          ''maximum_pages'', ''image_cache_bytes'', ''run_id''] ''parse options'' root_value) (\<lambda>_.
      try_with (requireSchemaV1 ctx root_value) (\<lambda>_.
      try_with (stringValue ctx ''input_path'' True False root_value) (\<lambda>input_path.
      try_with (stringValue ctx ''output_directory'' True False root_value) (\<lambda>output_directory.
      try_with (applyInteger ctx root_value ''dpi'' 1 200) (\<lambda>dpi.
      try_with (booleanValue ctx root_value ''debug'' False) (\<lambda>debug.
      try_with (applyInteger ctx root_value ''timeout_seconds'' 0 0) (\<lambda>timeout_seconds.
      try_with (applyInteger ctx root_value ''maximum_pages'' 0 0) (\<lambda>maximum_pages.
      try_with (cache_bytes ctx root_value) (\<lambda>bytes.
      try_with (applyString ctx root_value ''run_id'' True []) (\<lambda>run_id.
        Inr (\<lparr>ro_input_path = input_path, ro_output_directory = output_directory, ro_render_dpi = dpi, ro_debug = debug,
               ro_timeout_seconds = timeout_seconds, ro_maximum_pages = maximum_pages, ro_run_id = run_id,
               ro_backends = default_backend_options\<rparr>, bytes)))))))))))))"

subsection \<open>The calls\<close>

datatype die_engine_state = StateInvalid | StateReady | StateParsing | StateInitializationFailed | StateMovedFrom

fun engineState :: "engine_state \<Rightarrow> die_engine_state" where
  "engineState Ready = StateReady"
| "engineState Parsing = StateParsing"
| "engineState InitializationFailed = StateInitializationFailed"
| "engineState MovedFrom = StateMovedFrom"

definition die_engine_get_state :: "document_engine option \<Rightarrow> die_engine_state" where
  "die_engine_get_state engine = (case engine of None \<Rightarrow> StateInvalid | Some en \<Rightarrow> engineState (state_of (Some en)))"

text \<open>
  The places a caller gives: \<open>out_engine\<close>, \<open>out_document\<close> and \<open>out_error\<close> say whether the pointer is there.
  The results are the return value, the engine or the document handed out, and the error.
\<close>

definition die_engine_create ::
  "(string \<Rightarrow> string + json) \<Rightarrow> build_info \<Rightarrow> registry_reader \<Rightarrow> built_backends \<Rightarrow> string option \<Rightarrow> bool \<Rightarrow> bool \<Rightarrow>
   die_result \<times> document_engine option \<times> die_error option" where
  "die_engine_create parse build reader built config_json out_engine out_error =
     (if \<not> out_engine
      then case fail out_error InvalidArgument ''c_api.invalid_argument'' ''out_engine must not be null'' ''configure'' False of
          (result, error) \<Rightarrow> (result, None, error)
      else
        case engineConfig parse config_json of
          Inl e \<Rightarrow> (case fail_input out_error e of (result, error) \<Rightarrow> (result, None, error))
        | Inr config \<Rightarrow>
            let engine = create_default_engine build reader built config in
            if \<not> isReady (Some engine)
            then case fail_status out_error ConfigurationError (initializationStatus (Some engine)) of
                (result, error) \<Rightarrow> (result, None, error)
            else (ResultOk, Some engine, None))"

text \<open>\<open>None\<close>: the call does not return. The engine is as the call leaves it; \<open>run\<close> is the environment of a run.\<close>

definition die_engine_parse ::
  "(string \<Rightarrow> string + json) \<Rightarrow> json_library \<Rightarrow> (run_options \<Rightarrow> environment) \<Rightarrow> document_engine option \<Rightarrow> string option \<Rightarrow> bool \<Rightarrow> bool \<Rightarrow>
   (die_result \<times> string option \<times> die_error option \<times> document_engine option) option" where
  "die_engine_parse parse lib run engine options_json out_document out_error =
     (if engine = None \<or> \<not> out_document
      then case fail out_error InvalidArgument ''c_api.invalid_argument'' ''engine and out_document must not be null'' ''parse'' False of
          (result, error) \<Rightarrow> Some (result, None, error, engine)
      else
        case parseOptions parse options_json of
          Inl e \<Rightarrow> (case fail_input out_error e of (result, error) \<Rightarrow> Some (result, None, error, engine))
        | Inr (options, _) \<Rightarrow>
            (case quiet_parse (run options) options engine of
               None \<Rightarrow> None
             | Some (parsed, engine) \<Rightarrow>
                 if \<not> ok_status (pr_status parsed)
                 then case fail_status out_error ParseError (pr_status parsed) of
                     (result, error) \<Rightarrow> Some (result, None, error, engine)
                 else
                   (case serialize lib \<lparr>sq_debug = ro_debug options, sq_document = map_option fst (pr_document parsed),
                        sq_artifacts = map_option (fst \<circ> snd) (pr_document parsed)\<rparr> of
                      Inl st \<Rightarrow> (case fail_status out_error SerializationError st of
                        (result, error) \<Rightarrow> Some (result, None, error, engine))
                    | Inr printed \<Rightarrow> Some (ResultOk, Some printed, None, engine))))"

text \<open>C strings end at their first zero byte.\<close>

definition die_document_json :: "string option \<Rightarrow> string" where
  "die_document_json document = (case document of None \<Rightarrow> [] | Some json \<Rightarrow> takeWhile (\<lambda>c. c \<noteq> CHR 0x00) json)"

definition die_document_json_size :: "string option \<Rightarrow> nat" where
  "die_document_json_size document = (case document of None \<Rightarrow> 0 | Some json \<Rightarrow> length json)"

definition die_error_result :: "die_error option \<Rightarrow> die_result" where
  "die_error_result error = (case error of None \<Rightarrow> ResultOk | Some e \<Rightarrow> de_result e)"

definition die_error_text :: "(die_error \<Rightarrow> string) \<Rightarrow> die_error option \<Rightarrow> string" where
  "die_error_text part error = (case error of None \<Rightarrow> [] | Some e \<Rightarrow> takeWhile (\<lambda>c. c \<noteq> CHR 0x00) (part e))"

definition die_error_code :: "die_error option \<Rightarrow> string" where
  "die_error_code = die_error_text de_code"

definition die_error_message :: "die_error option \<Rightarrow> string" where
  "die_error_message = die_error_text de_message"

definition die_error_stage :: "die_error option \<Rightarrow> string" where
  "die_error_stage = die_error_text de_stage"

definition die_error_retryable :: "die_error option \<Rightarrow> int" where
  "die_error_retryable error = (case error of None \<Rightarrow> 0 | Some e \<Rightarrow> if de_retryable e then 1 else 0)"

subsection \<open>Configurations the interface accepts are in range\<close>

definition closed_probability :: "double \<Rightarrow> bool" where
  "closed_probability x \<longleftrightarrow> 0 \<le> x \<and> x \<le> 1"

definition size_positive :: "64 word \<Rightarrow> bool" where
  "size_positive w \<longleftrightarrow> 0 < unat w"

definition paddle_ok :: "paddle_ocr_config \<Rightarrow> bool" where
  "paddle_ok c \<longleftrightarrow> list_all positive_int [po_detection_limit_side c, po_recognition_image_height c, po_recognition_base_width c,
       po_recognition_max_width c, po_recognition_width_multiple c] \<and>
     list_all size_positive [po_recognition_batch_size c, po_detection_max_candidates c] \<and>
     list_all closed_probability [po_detection_threshold c, po_box_threshold c, po_recognition_threshold c] \<and>
     0 < po_unclip_ratio c \<and> po_unclip_ratio c \<le> dbl_max"

definition doclaynet_ok :: "doclaynet_config \<Rightarrow> bool" where
  "doclaynet_ok c \<longleftrightarrow> positive_int (dn_input_width c) \<and> positive_int (dn_input_height c) \<and> closed_probability (dn_confidence_threshold c)"

definition paddle_layout_ok :: "paddle_layout_config \<Rightarrow> bool" where
  "paddle_layout_ok c \<longleftrightarrow> positive_int (pd_input_width c) \<and> positive_int (pd_input_height c) \<and> closed_probability (pd_confidence_threshold c)"

definition table_transformer_ok :: "table_transformer_config \<Rightarrow> bool" where
  "table_transformer_ok c \<longleftrightarrow> closed_probability (tt_detection_confidence_threshold c) \<and>
     closed_probability (tt_structure_confidence_threshold c) \<and> natural_int (tt_crop_padding c)"

definition backends_ok :: "backend_options \<Rightarrow> bool" where
  "backends_ok b \<longleftrightarrow> [] \<notin> {bo_document b, bo_ocr b, bo_layout b, bo_table b}"

lemma input_fails_Inr [simp]: "input_fails ctx message \<noteq> Inr x"
  by (simp add: input_fails_def)

lemma integerValue_range: "integerValue ctx key minimum True j = Inr n \<Longrightarrow> minimum \<le> n \<and> n < 2 ^ 31"
  by (auto simp: integerValue_def int_max_def split: option.splits json.splits if_splits)

lemma applyInteger_positive: "applyInteger ctx j key 1 n = Inr m \<Longrightarrow> positive_int n \<Longrightarrow> positive_int m"
  using integerValue_range[of ctx key 1 j m] by (auto simp: applyInteger_def positive_int_def split: if_splits)

lemma applyInteger_natural: "applyInteger ctx j key 0 n = Inr m \<Longrightarrow> natural_int n \<Longrightarrow> natural_int m"
  using integerValue_range[of ctx key 0 j m] by (auto simp: applyInteger_def natural_int_def split: if_splits)

lemma word_of_size: "1 \<le> n \<Longrightarrow> n \<le> 2 ^ 64 - 1 \<Longrightarrow> size_positive (word_of_int n)"
proof -
  assume n: "1 \<le> n" "n \<le> 2 ^ 64 - 1"
  then have "uint (word_of_int n :: 64 word) = n" by (simp add: uint_word_of_int)
  then show ?thesis using n(1) by (simp add: size_positive_def unat_eq_nat_uint)
qed

lemma applySize_positive: "applySize ctx j key 1 w = Inr v \<Longrightarrow> size_positive w \<Longrightarrow> size_positive v"
  by (auto simp: applySize_def intro!: word_of_size split: option.splits json.splits if_splits)

lemma numberValue_range:
  "numberValue ctx key lo hi inclusive j = Inr x \<Longrightarrow> (if inclusive then lo \<le> x else lo < x) \<and> x \<le> hi"
  by (auto simp: numberValue_def Let_def split: option.splits json.splits if_splits)

lemma api_probability_ok: "api_probability ctx j key x = Inr y \<Longrightarrow> closed_probability x \<Longrightarrow> closed_probability y"
  using numberValue_range[of ctx key 0 1 True j y] by (auto simp: api_probability_def closed_probability_def split: if_splits)

lemma applyString_nonempty: "applyString ctx j key False v = Inr w \<Longrightarrow> v \<noteq> [] \<Longrightarrow> w \<noteq> []"
  by (auto simp: applyString_def stringValue_def split: option.splits json.splits if_splits)

lemma apply_unclip_ok: "apply_unclip ctx j x = Inr y \<Longrightarrow> 0 < x \<and> x \<le> dbl_max \<Longrightarrow> 0 < y \<and> y \<le> dbl_max"
  using numberValue_range[of ctx "''unclip_ratio''" 0 dbl_max False j y] by (auto simp: apply_unclip_def split: if_splits)

lemma paddle_fields_ok: "paddle_fields ctx j c = Inr c' \<Longrightarrow> paddle_ok c \<Longrightarrow> paddle_ok c'"
  unfolding paddle_fields_def try_with_Inr paddle_ok_def
  by (elim exE conjE) (use apply_unclip_ok in \<open>force simp: applyInteger_positive applySize_positive api_probability_ok\<close>)

lemma read_paddle_ok: "read_paddle_ocr ctx parent c = Inr c' \<Longrightarrow> paddle_ok c \<Longrightarrow> paddle_ok c'"
  by (auto simp: read_paddle_ocr_def try_with_Inr paddle_fields_ok split: option.splits)

lemma read_doclaynet_ok: "read_doclaynet ctx parent c = Inr c' \<Longrightarrow> doclaynet_ok c \<Longrightarrow> doclaynet_ok c'"
  unfolding read_doclaynet_def try_with_Inr
  by (auto simp: try_with_Inr doclaynet_ok_def applyInteger_positive api_probability_ok split: option.splits)

lemma read_paddle_layout_ok: "read_paddle_layout ctx parent c = Inr c' \<Longrightarrow> paddle_layout_ok c \<Longrightarrow> paddle_layout_ok c'"
  unfolding read_paddle_layout_def try_with_Inr
  by (auto simp: try_with_Inr paddle_layout_ok_def applyInteger_positive api_probability_ok split: option.splits)

lemma read_table_transformer_ok:
  "read_table_transformer ctx parent c = Inr c' \<Longrightarrow> table_transformer_ok c \<Longrightarrow> table_transformer_ok c'"
  unfolding read_table_transformer_def try_with_Inr
  by (auto simp: try_with_Inr table_transformer_ok_def applyInteger_natural api_probability_ok split: option.splits)

lemma read_backends_ok: "read_backends ctx parent b = Inr b' \<Longrightarrow> backends_ok b \<Longrightarrow> backends_ok b'"
  unfolding read_backends_def try_with_Inr
  by (auto simp: try_with_Inr backends_ok_def applyString_nonempty split: option.splits dest!: applyString_nonempty)

lemma default_parts_ok:
  "backends_ok (ec_backends defaultEngineConfig)" "paddle_ok (ec_paddle_ocr defaultEngineConfig)"
  "doclaynet_ok (ec_doclaynet defaultEngineConfig)" "paddle_layout_ok (ec_paddle_layout defaultEngineConfig)"
  "table_transformer_ok (ec_table_transformer defaultEngineConfig)"
  by (auto simp: defaultEngineConfig_def default_backend_options_def backends_ok_def paddle_ok_def doclaynet_ok_def
      paddle_layout_ok_def table_transformer_ok_def positive_int_def natural_int_def closed_probability_def size_positive_def dbl_max_def)

text \<open>
  C31: A configuration that the C interface accepts is in range, whatever the text it was read from: every
  size and side is a positive \<open>int\<close> (or \<open>size_t\<close>), the padding is not negative, every threshold lies
  between 0 and 1 and the unclip ratio is a positive number, and every backend has a name.
\<close>

theorem accepted_config_in_range:
  "case engineConfig parse config_json of
     Inl _ \<Rightarrow> True
   | Inr config \<Rightarrow> backends_ok (ec_backends config) \<and> paddle_ok (ec_paddle_ocr config) \<and> doclaynet_ok (ec_doclaynet config) \<and>
       paddle_layout_ok (ec_paddle_layout config) \<and> table_transformer_ok (ec_table_transformer config)"
proof (cases "engineConfig parse config_json")
  case (Inr config)
  note parts = read_backends_ok[OF _ default_parts_ok(1)] read_paddle_ok[OF _ default_parts_ok(2)] read_doclaynet_ok[OF _ default_parts_ok(3)]
    read_paddle_layout_ok[OF _ default_parts_ok(4)] read_table_transformer_ok[OF _ default_parts_ok(5)]
  show ?thesis
    unfolding Inr sum.case
    using Inr by (auto simp: engineConfig_def Let_def read_models_def try_with_Inr default_parts_ok parts split: option.splits)
qed simp

subsection \<open>A call gives its result or its error\<close>

text \<open>
  C32: A C client learns what happened. Parsing always returns and leaves the engine as it was; it hands
  out a document exactly if its result is \<open>DIE_RESULT_OK\<close>, and otherwise an error, where the client has a
  place for it, that has the same result. The document's text is what \<open>serialize\<close> prints of a document
  whose pages and warnings are those of the run.
\<close>

theorem c_parse_reports:
  "\<exists>result document error.
     die_engine_parse parse lib run engine options_json out_document out_error = Some (result, document, error, engine) \<and>
     (document \<noteq> None \<longleftrightarrow> result = ResultOk) \<and>
     (if out_error then die_error_result error = result \<and> (error = None \<longleftrightarrow> result = ResultOk) else error = None) \<and>
     (case document of
        None \<Rightarrow> True
      | Some printed \<Rightarrow>
          \<exists>options bytes doc artifacts provenance s.
            parseOptions parse options_json = Inr (options, bytes) \<and>
            engine_run (run options) options (the engine) = (Inr (doc, artifacts, provenance), s) \<and> delivered doc artifacts (ps_events s) \<and>
            serialize lib \<lparr>sq_debug = ro_debug options, sq_document = Some doc, sq_artifacts = Some artifacts\<rparr> = Inr printed)"
proof -
  consider (null) "engine = None \<or> \<not> out_document"
    | (input) e where "engine \<noteq> None" out_document "parseOptions parse options_json = Inl e"
    | (options) options bytes where "engine \<noteq> None" out_document "parseOptions parse options_json = Inr (options, bytes)"
    by (cases "parseOptions parse options_json") fastforce+
  then show ?thesis
  proof cases
    case null
    then show ?thesis by (simp add: die_engine_parse_def fail_def die_error_result_def)
  next
    case input
    then show ?thesis by (simp add: die_engine_parse_def fail_input_def fail_def die_error_result_def)
  next
    case options
    obtain parsed where parsed: "quiet_parse (run options) options engine = Some (parsed, engine)"
      "ok_status (pr_status parsed) \<longleftrightarrow> pr_document parsed \<noteq> None"
      "pr_document parsed \<noteq> None \<longrightarrow> (\<exists>s. engine_run (run options) options (the engine) = (Inr (the (pr_document parsed)), s))"
      using quiet_parse_returns by blast
    show ?thesis
    proof (cases "pr_document parsed")
      case None
      then show ?thesis
        using options parsed by (simp add: die_engine_parse_def fail_status_def fail_def die_error_result_def)
    next
      case (Some product)
      obtain doc artifacts provenance where product: "product = (doc, artifacts, provenance)" by (cases product) auto
      obtain s where s: "engine_run (run options) options (the engine) = (Inr (doc, artifacts, provenance), s)"
        using parsed(3) Some product by auto
      have "delivered doc artifacts (ps_events s)" using delivered_parse[OF s[unfolded engine_run_def]] .
      then show ?thesis
        using options parsed(1,2) Some product s
        by (cases "serialize lib \<lparr>sq_debug = ro_debug options, sq_document = Some doc, sq_artifacts = Some artifacts\<rparr>")
          (simp_all add: die_engine_parse_def fail_status_def fail_def die_error_result_def)
    qed
  qed
qed

end
