(* ===== verification/Vision.thy ===== *)
theory Vision
  imports Engine_Config Stages
begin

text \<open>
  What the four neural backends share: the interface to OpenCV and ONNX Runtime, which are libraries and so
  an argument of everything here, and the helpers their files repeat, which are the code's own: finding a
  name among a session's inputs, the loop that writes an image into a tensor, the largest class. An image
  is its size and the value of each channel of each pixel. A call that may throw an \<open>Ort::Exception\<close> or a
  \<open>cv::Exception\<close> has a sum as its result. Single-precision numbers are exact, as doubles are, the conversions
  of a rounded number to \<open>int\<close> and the products of a tensor's sides are taken exactly, and what is
  printed when a debug variable is set is left out.
\<close>

subsection \<open>The libraries\<close>

datatype library_error = OrtException | CvException

record picture =
  im_cols :: int
  im_rows :: int
  im_pixel :: "int \<Rightarrow> int \<Rightarrow> nat \<Rightarrow> double"

definition im_empty :: "picture \<Rightarrow> bool" where
  "im_empty m \<longleftrightarrow> im_cols m \<le> 0 \<or> im_rows m \<le> 0"

text \<open>An output tensor: its shape, and its buffer read as floats and as 32-bit integers unless the pointer is null.\<close>

record tensor =
  tn_shape :: "int list"
  tn_floats :: "(nat \<Rightarrow> double) option"
  tn_ints :: "(nat \<Rightarrow> int) option"

record input_tensor =
  it_values :: "double list"
  it_shape :: "int list"

record session =
  se_inputs :: "(string \<times> int list) list"
  se_outputs :: "(string \<times> int list) list"
  se_run :: "(string \<times> input_tensor) list \<Rightarrow> string list \<Rightarrow> library_error + tensor list"

datatype interpolation = InterLinear | InterCubic

datatype rotation = Rotate90Clockwise | Rotate180 | Rotate90CounterClockwise

text \<open>
  \<open>vi_read_image\<close> is \<open>readPageImage\<close>, whose cache is the theory \<open>Image_Cache\<close>; \<open>vi_crop\<close> is the part of an
  image in a rectangle (left, top, width, height) inside it; \<open>vi_read_file\<close> gives a file's bytes, none
  where it does not open.
\<close>

record vision =
  vi_exists :: "string \<Rightarrow> bool"
  vi_regular_file :: "string \<Rightarrow> bool"
  vi_read_file :: "string \<Rightarrow> string"
  vi_read_image :: "page_artifact \<Rightarrow> picture"
  vi_load :: "string \<Rightarrow> library_error + session"
  vi_resize :: "interpolation \<Rightarrow> int \<Rightarrow> int \<Rightarrow> picture \<Rightarrow> library_error + picture"
  vi_bgr_to_rgb :: "picture \<Rightarrow> library_error + picture"
  vi_to_float :: "double \<Rightarrow> picture \<Rightarrow> library_error + picture"
  vi_crop :: "int \<times> int \<times> int \<times> int \<Rightarrow> picture \<Rightarrow> picture"
  vi_rotate :: "rotation \<Rightarrow> picture \<Rightarrow> library_error + picture"

subsection \<open>Numbers\<close>

text \<open>\<open>std::round\<close>: halves away from zero.\<close>

definition round_away :: "double \<Rightarrow> int" where
  "round_away x = (if x < 0 then - \<lfloor>1 / 2 - x\<rfloor> else \<lfloor>x + 1 / 2\<rfloor>)"

definition clip_to :: "int \<Rightarrow> int \<Rightarrow> bbox \<Rightarrow> bbox" where
  "clip_to width height b =
     \<lparr>bx0 = clamp (bx0 b) 0 (real_of_int width), by0 = clamp (by0 b) 0 (real_of_int height),
      bx1 = clamp (bx1 b) 0 (real_of_int width), by1 = clamp (by1 b) 0 (real_of_int height)\<rparr>"

text \<open>A box inside an image.\<close>

definition in_image :: "int \<Rightarrow> int \<Rightarrow> bbox \<Rightarrow> bool" where
  "in_image width height b \<longleftrightarrow> 0 \<le> bx0 b \<and> bx0 b \<le> real_of_int width \<and> 0 \<le> by0 b \<and> by0 b \<le> real_of_int height \<and>
     0 \<le> bx1 b \<and> bx1 b \<le> real_of_int width \<and> 0 \<le> by1 b \<and> by1 b \<le> real_of_int height"

lemma clip_to_in_image: "0 \<le> width \<Longrightarrow> 0 \<le> height \<Longrightarrow> in_image width height (clip_to width height b)"
  by (simp add: in_image_def clip_to_def clamp_bounds)

lemma clip_to_id: "in_image width height b \<Longrightarrow> clip_to width height b = b"
  by (simp add: in_image_def clip_to_def clamp_id)

subsection \<open>The largest of a row\<close>

text \<open>\<open>std::max_element\<close> over \<open>n\<close> numbers: the position of the first of the largest.\<close>

definition max_index :: "(nat \<Rightarrow> double) \<Rightarrow> nat \<Rightarrow> nat" where
  "max_index f n = foldl (\<lambda>best i. if f best < f i then i else best) 0 [1..<n]"

definition first_max :: "(nat \<Rightarrow> double) \<Rightarrow> nat \<Rightarrow> nat \<Rightarrow> bool" where
  "first_max f n b \<longleftrightarrow> b < n \<and> (\<forall>i<n. f i \<le> f b) \<and> (\<forall>i<b. f i < f b)"

lemma first_max_step: "first_max f n b \<Longrightarrow> first_max f (Suc n) (if f b < f n then n else b)"
proof (cases "f b < f n")
  case True
  assume b: "first_max f n b"
  have "f i < f n" if "i < n" for i using b that True unfolding first_max_def by (meson le_less_trans)
  then have "f i \<le> f n" if "i < Suc n" for i using that by (cases "i = n") (auto intro: less_imp_le)
  with \<open>\<And>i. i < n \<Longrightarrow> f i < f n\<close> True show ?thesis by (simp add: first_max_def)
next
  case False
  assume "first_max f n b"
  with False show ?thesis by (simp add: first_max_def less_Suc_eq not_less)
qed

lemma max_index_first_max: "first_max f (Suc n) (max_index f (Suc n))"
proof (induction n)
  case 0
  then show ?case by (simp add: max_index_def first_max_def)
next
  case (Suc n)
  have "max_index f (Suc (Suc n)) =
      (if f (max_index f (Suc n)) < f (Suc n) then Suc n else max_index f (Suc n))"
    by (simp add: max_index_def)
  then show ?case using first_max_step[OF Suc] by simp
qed

lemma max_index_less: "0 < n \<Longrightarrow> max_index f n < n"
  and max_index_max: "i < n \<Longrightarrow> f i \<le> f (max_index f n)"
  and max_index_first: "0 < n \<Longrightarrow> i < max_index f n \<Longrightarrow> f i < f (max_index f n)"
  using max_index_first_max[of f "n - 1"] unfolding first_max_def by (cases n; simp)+

subsection \<open>Writing an image into a tensor\<close>

definition pixel_offset :: "nat \<Rightarrow> nat \<Rightarrow> nat \<Rightarrow> nat \<Rightarrow> nat \<Rightarrow> nat" where
  "pixel_offset height width y x channel = channel * height * width + y * width + x"

definition pixel_positions :: "nat \<Rightarrow> nat \<Rightarrow> (nat \<times> nat \<times> nat) list" where
  "pixel_positions height width = [(y, x, c). y \<leftarrow> [0..<height], x \<leftarrow> [0..<width], c \<leftarrow> [0..<3]]"

text \<open>The three nested loops: the first \<open>columns\<close> of each row, from \<open>base\<close> on.\<close>

definition write_pixels ::
  "(nat \<Rightarrow> nat \<Rightarrow> nat \<Rightarrow> double) \<Rightarrow> nat \<Rightarrow> nat \<Rightarrow> nat \<Rightarrow> nat \<Rightarrow> double list \<Rightarrow> double list" where
  "write_pixels f base height width columns t =
     foldl (\<lambda>t (y, x, c). t[base + pixel_offset height width y x c := f y x c]) t (pixel_positions height columns)"

lemma set_pixel_positions: "(y, x, c) \<in> set (pixel_positions height width) \<longleftrightarrow> y < height \<and> x < width \<and> c < 3"
  by (auto simp: pixel_positions_def image_iff)

lemma pixel_offset_inj:
  assumes "pixel_offset h w y x c = pixel_offset h w y' x' c'" "y < h" "y' < h" "x < w" "x' < w"
  shows "y = y' \<and> x = x' \<and> c = c'"
proof -
  have off: "pixel_offset h w y x c = (c * h + y) * w + x" for y x c by (simp add: pixel_offset_def algebra_simps)
  have "x = x'" using arg_cong[OF assms(1), of "\<lambda>n. n mod w"] assms(4,5) by (simp add: off)
  moreover have *: "c * h + y = c' * h + y'" using arg_cong[OF assms(1), of "\<lambda>n. n div w"] assms(4,5) by (simp add: off)
  moreover have "y = y'" using arg_cong[OF *, of "\<lambda>n. n mod h"] assms(2,3) by simp
  moreover have "c = c'" using arg_cong[OF *, of "\<lambda>n. n div h"] assms(2,3) by simp
  ultimately show ?thesis by simp
qed

lemma pixel_offset_less: "y < h \<Longrightarrow> x < w \<Longrightarrow> c < 3 \<Longrightarrow> pixel_offset h w y x c < 3 * h * w"
proof -
  assume "y < h" "x < w" "c < 3"
  then have "c * h \<le> 2 * h" by (intro mult_le_mono1) linarith
  with \<open>y < h\<close> have "c * h + y + 1 \<le> 3 * h" by linarith
  then have "(c * h + y + 1) * w \<le> 3 * h * w" by (rule mult_le_mono1)
  then show ?thesis using \<open>x < w\<close> by (simp add: pixel_offset_def algebra_simps)
qed

lemma length_write_pixels [simp]: "length (write_pixels f base h w columns t) = length t"
  unfolding write_pixels_def by (rule foldl_invariant[where P = "\<lambda>u. length u = length t"]) auto

lemma foldl_updates_other:
  "i \<notin> ix ` set ks \<Longrightarrow> foldl (\<lambda>t k. t[ix k := v k]) t ks ! i = t ! i"
  by (induction ks arbitrary: t) auto

lemma foldl_updates_at:
  "inj_on ix (set ks) \<Longrightarrow> k \<in> set ks \<Longrightarrow> ix k < length t \<Longrightarrow> foldl (\<lambda>t k. t[ix k := v k]) t ks ! ix k = v k"
proof (induction ks arbitrary: t)
  case (Cons j ks)
  show ?case
  proof (cases "k \<in> set ks")
    case True
    then show ?thesis using Cons by (simp add: inj_on_def)
  next
    case False
    then have "j = k" using Cons.prems by auto
    moreover have "ix k \<notin> ix ` set ks" using Cons.prems(1) False \<open>j = k\<close> by (auto simp: inj_on_def)
    ultimately show ?thesis using Cons.prems(3) by (simp add: foldl_updates_other)
  qed
qed simp

lemma write_pixels_fold:
  "write_pixels f base h w columns t =
     foldl (\<lambda>t k. t[(case k of (y, x, c) \<Rightarrow> base + pixel_offset h w y x c) := (case k of (y, x, c) \<Rightarrow> f y x c)]) t
       (pixel_positions h columns)"
  unfolding write_pixels_def by (simp add: case_prod_unfold)

lemma write_pixels_at:
  assumes "columns \<le> w" "y < h" "x < columns" "c < 3" "base + 3 * h * w \<le> length t"
  shows "write_pixels f base h w columns t ! (base + pixel_offset h w y x c) = f y x c"
proof -
  let ?ix = "\<lambda>k. case k of (y, x, c) \<Rightarrow> base + pixel_offset h w y x c"
  have "inj_on ?ix (set (pixel_positions h columns))"
    using assms(1) by (auto simp: inj_on_def set_pixel_positions dest!: pixel_offset_inj)
  moreover have "(y, x, c) \<in> set (pixel_positions h columns)" using assms by (simp add: set_pixel_positions)
  moreover have "?ix (y, x, c) < length t" using pixel_offset_less[of y h x w c] assms by simp
  ultimately show ?thesis
    using foldl_updates_at[of ?ix "pixel_positions h columns" "(y, x, c)" t "\<lambda>k. case k of (y, x, c) \<Rightarrow> f y x c"]
    unfolding write_pixels_fold by simp
qed

lemma write_pixels_other:
  assumes "columns \<le> w" "i < base \<or> base + 3 * h * w \<le> i"
  shows "write_pixels f base h w columns t ! i = t ! i"
  unfolding write_pixels_fold
proof (rule foldl_updates_other, rule notI)
  assume "i \<in> (\<lambda>k. case k of (y, x, c) \<Rightarrow> base + pixel_offset h w y x c) ` set (pixel_positions h columns)"
  then obtain y x c where i: "i = base + pixel_offset h w y x c" and "y < h" "x < columns" "c < 3"
    by (auto simp: set_pixel_positions)
  then have "pixel_offset h w y x c < 3 * h * w" using assms(1) by (intro pixel_offset_less) auto
  then show False using assms(2) i by simp
qed

lemma write_pixels_padding:
  assumes "columns \<le> x" "x < w" "y < h" "c < 3"
  shows "write_pixels f base h w columns t ! (base + pixel_offset h w y x c) = t ! (base + pixel_offset h w y x c)"
  unfolding write_pixels_fold
proof (rule foldl_updates_other, rule notI)
  assume "base + pixel_offset h w y x c \<in> (\<lambda>k. case k of (y, x, c) \<Rightarrow> base + pixel_offset h w y x c) ` set (pixel_positions h columns)"
  then obtain y' x' c' where same: "pixel_offset h w y x c = pixel_offset h w y' x' c'" and "y' < h" "x' < columns"
    by (auto simp: set_pixel_positions)
  then have "x = x'" using pixel_offset_inj[OF same] assms by simp
  then show False using \<open>x' < columns\<close> assms(1) by simp
qed

subsection \<open>Sessions\<close>

definition input_names :: "session \<Rightarrow> string list" where
  "input_names s = map fst (se_inputs s)"

definition output_names :: "session \<Rightarrow> string list" where
  "output_names s = map fst (se_outputs s)"

text \<open>\<open>std::find\<close>: the position of the first occurrence.\<close>

fun find_name :: "string \<Rightarrow> string list \<Rightarrow> nat option" where
  "find_name n [] = None"
| "find_name n (m # ms) = (if m = n then Some 0 else map_option Suc (find_name n ms))"

lemma find_name_Some: "find_name n ms = Some i \<Longrightarrow> i < length ms \<and> ms ! i = n"
  by (induction ms arbitrary: i) (auto split: if_splits)

lemma find_name_None: "find_name n ms = None \<longleftrightarrow> n \<notin> set ms"
  by (induction ms) auto

text \<open>What each backend does with a library error, or with a file that is missing: it is not available, or reports failure.\<close>

definition caught :: "library_error + 'a option \<Rightarrow> 'a option" where
  "caught r = (case r of Inl _ \<Rightarrow> None | Inr x \<Rightarrow> x)"

lemma caught_Some: "caught r = Some x \<longleftrightarrow> r = Inr (Some x)"
  by (cases r) (auto simp: caught_def)

fun try_map :: "('a \<Rightarrow> 'e + 'b) \<Rightarrow> 'a list \<Rightarrow> 'e + 'b list" where
  "try_map f [] = Inr []"
| "try_map f (x # xs) = try_with (f x) (\<lambda>y. try_with (try_map f xs) (\<lambda>ys. Inr (y # ys)))"

lemma try_map_Inr: "try_map f xs = Inr ys \<Longrightarrow> list_all2 (\<lambda>x y. f x = Inr y) xs ys"
  by (induction xs arbitrary: ys) (auto simp: try_with_Inr)

end
