(* ===== verification/Layout_Models.thy ===== *)
theory Layout_Models
  imports Vision
begin

text \<open>
  The two neural layout backends, \<open>cpp/layout/doclaynet_onnx_backend.cpp\<close> and
  \<open>cpp/layout/paddle_doclayout_onnx_backend.cpp\<close>: loading a model, the input tensor, decoding the answer into
  layout blocks, and the analysis of a page. The session's answers and OpenCV are arguments.
\<close>

subsection \<open>DocLayNet\<close>

definition kDocLayNetLabels :: "string list" where
  "kDocLayNetLabels = [''Caption'', ''Footnote'', ''Formula'', ''List-item'', ''Page-footer'', ''Page-header'', ''Picture'',
     ''Section-header'', ''Table'', ''Text'', ''Title'']"

definition sigmoid :: "double \<Rightarrow> double" where
  "sigmoid v = (if v \<ge> 0 then 1 / (1 + exp (- v)) else let e = exp v in e / (1 + e))"

definition imagenet_mean :: "double list" where
  "imagenet_mean = [0.485, 0.456, 0.406]"

definition imagenet_std :: "double list" where
  "imagenet_std = [0.229, 0.224, 0.225]"

text \<open>An image's values, and its normalized values.\<close>

definition plain_pixel :: "picture \<Rightarrow> nat \<Rightarrow> nat \<Rightarrow> nat \<Rightarrow> double" where
  "plain_pixel m y x c = im_pixel m (int y) (int x) c"

definition normal_pixel :: "double list \<Rightarrow> double list \<Rightarrow> picture \<Rightarrow> nat \<Rightarrow> nat \<Rightarrow> nat \<Rightarrow> double" where
  "normal_pixel mean std m y x c = (im_pixel m (int y) (int x) c - mean ! c) / std ! c"

definition doclaynet_input :: "vision \<Rightarrow> doclaynet_config \<Rightarrow> picture \<Rightarrow> library_error + input_tensor" where
  "doclaynet_input vi config bgr =
     try_with (vi_resize vi InterLinear (dn_input_width config) (dn_input_height config) bgr) (\<lambda>resized.
     try_with (vi_bgr_to_rgb vi resized) (\<lambda>resized.
     try_with (vi_to_float vi (1 / 255) resized) (\<lambda>resized.
       let height = nat (dn_input_height config); width = nat (dn_input_width config)
       in Inr \<lparr>it_values = write_pixels (normal_pixel imagenet_mean imagenet_std resized) 0 height width width
                  (replicate (3 * height * width) 0),
               it_shape = [1, 3, dn_input_height config, dn_input_width config]\<rparr>)))"

text \<open>One query's block, unless the loop goes on to the next query.\<close>

definition doclaynet_query ::
  "(nat \<Rightarrow> double) \<Rightarrow> (nat \<Rightarrow> double) \<Rightarrow> int \<Rightarrow> int \<Rightarrow> double \<Rightarrow> nat \<Rightarrow> layout_block option" where
  "doclaynet_query boxes logits width height confidence_threshold q =
     (let row = (\<lambda>i. logits (q * length kDocLayNetLabels + i));
          label_index = max_index row (length kDocLayNetLabels);
          confidence = sigmoid (row label_index)
      in if confidence < confidence_threshold then None
         else
           let center_x = boxes (q * 4) * real_of_int width; center_y = boxes (q * 4 + 1) * real_of_int height;
               box_width = boxes (q * 4 + 2) * real_of_int width; box_height = boxes (q * 4 + 3) * real_of_int height;
               box = clip_to width height \<lparr>bx0 = center_x - box_width * 0.5, by0 = center_y - box_height * 0.5,
                 bx1 = center_x + box_width * 0.5, by1 = center_y + box_height * 0.5\<rparr>
           in if bboxArea box \<le> 0 then None
              else Some (default_layout_block\<lparr>lb_type := mapDocLayNetLabel (kDocLayNetLabels ! label_index),
                     lb_source_label := kDocLayNetLabels ! label_index, lb_bbox := box, lb_confidence := confidence\<rparr>))"

definition doclaynet_decode :: "tensor \<Rightarrow> tensor \<Rightarrow> int \<Rightarrow> int \<Rightarrow> double \<Rightarrow> layout_block list option" where
  "doclaynet_decode boxes_value logits_value width height confidence_threshold =
     (let boxes_shape = tn_shape boxes_value; logits_shape = tn_shape logits_value in
      if length boxes_shape \<noteq> 3 \<or> length logits_shape \<noteq> 3 \<or> boxes_shape ! 0 \<noteq> 1 \<or> logits_shape ! 0 \<noteq> 1 \<or>
         boxes_shape ! 1 \<le> 0 \<or> boxes_shape ! 2 \<noteq> 4 \<or> logits_shape ! 1 \<noteq> boxes_shape ! 1 \<or>
         logits_shape ! 2 \<noteq> int (length kDocLayNetLabels)
      then None
      else case (tn_floats boxes_value, tn_floats logits_value) of
          (Some boxes, Some logits) \<Rightarrow>
            Some (List.map_filter (doclaynet_query boxes logits width height confidence_threshold) [0..<nat (boxes_shape ! 1)])
        | _ \<Rightarrow> None)"

record doclaynet_model =
  dm_session :: session
  dm_input_name :: string
  dm_output_names :: "string list"
  dm_boxes_output_index :: nat
  dm_logits_output_index :: nat

text \<open>\<open>vi_regular_file\<close> with the empty path refused is the files' \<open>fileExists\<close>.\<close>

definition fileExists :: "vision \<Rightarrow> string \<Rightarrow> bool" where
  "fileExists vi path \<longleftrightarrow> path \<noteq> [] \<and> vi_regular_file vi path"

definition doclaynet_load :: "vision \<Rightarrow> doclaynet_config \<Rightarrow> doclaynet_model option" where
  "doclaynet_load vi config =
     (if \<not> fileExists vi (dn_model_path config) \<or> dn_input_width config \<le> 0 \<or> dn_input_height config \<le> 0 \<or>
         dn_confidence_threshold config \<le> 0 \<or> dn_confidence_threshold config \<ge> 1 then None
      else caught (try_with (vi_load vi (dn_model_path config)) (\<lambda>s.
        Inr (if length (input_names s) \<noteq> 1 \<or> length (output_names s) < 2 then None
             else if snd (hd (se_inputs s)) \<noteq> [1, 3, dn_input_height config, dn_input_width config] then None
             else case (find_name ''pred_boxes'' (output_names s), find_name ''pred_logits'' (output_names s)) of
                 (Some boxes, Some logits) \<Rightarrow>
                   Some \<lparr>dm_session = s, dm_input_name = hd (input_names s), dm_output_names = output_names s,
                         dm_boxes_output_index = boxes, dm_logits_output_index = logits\<rparr>
               | _ \<Rightarrow> None))))"

text \<open>The order of the blocks before they are numbered.\<close>

definition above_or_left :: "layout_block \<Rightarrow> layout_block \<Rightarrow> bool" where
  "above_or_left a b = (if by0 (lb_bbox a) \<noteq> by0 (lb_bbox b) then by0 (lb_bbox a) < by0 (lb_bbox b)
                        else bx0 (lb_bbox a) < bx0 (lb_bbox b))"

interpretation above_or_left: keyed_order above_or_left "\<lambda>b. (by0 (lb_bbox b), bx0 (lb_bbox b))"
  by unfold_locales (auto simp: above_or_left_def less_prod_def less_le)

text \<open>The blocks' identifiers, the text lines they cover and the captions' links.\<close>

definition number_blocks :: "int \<Rightarrow> layout_block list \<Rightarrow> layout_block list" where
  "number_blocks page_number blocks =
     map (\<lambda>i. (blocks ! i)\<lparr>lb_id := layout_block_id page_number i\<rparr>) [0..<length blocks]"

definition finish_blocks :: "page_artifact \<Rightarrow> page_text \<Rightarrow> layout_block list \<Rightarrow> layout_result" where
  "finish_blocks page page_text blocks =
     \<lparr>lr_layout = \<lparr>pl_page_index = pa_page_index page, pl_page_number = pa_page_number page,
        pl_blocks = associateCaptions page (assignTextLines page_text (number_blocks (pa_page_number page) blocks))\<rparr>,
      lr_diagnostics = []\<rparr>"

definition doclaynet_blocks :: "vision \<Rightarrow> doclaynet_config \<Rightarrow> doclaynet_model \<Rightarrow> picture \<Rightarrow> library_error + layout_block list option" where
  "doclaynet_blocks vi config model m =
     try_with (doclaynet_input vi config m) (\<lambda>input_value.
     try_with (se_run (dm_session model) [(dm_input_name model, input_value)] (dm_output_names model)) (\<lambda>outputs.
       Inr (if length outputs \<noteq> length (dm_output_names model) then None
            else doclaynet_decode (outputs ! dm_boxes_output_index model) (outputs ! dm_logits_output_index model)
                   (im_cols m) (im_rows m) (dn_confidence_threshold config))))"

definition doclaynet_analyze ::
  "vision \<Rightarrow> doclaynet_config \<Rightarrow> doclaynet_model option \<Rightarrow> page_artifact \<Rightarrow> page_text \<Rightarrow> layout_result option" where
  "doclaynet_analyze vi config model page page_text =
     (case model of
        None \<Rightarrow> None
      | Some model \<Rightarrow>
          if \<not> fileExists vi (pa_output_path page) then None
          else
            let m = vi_read_image vi page in
            if im_empty m then None
            else map_option (\<lambda>blocks. finish_blocks page page_text (sort_by above_or_left blocks))
                   (caught (doclaynet_blocks vi config model m)))"

definition doclaynet_backend :: "vision \<Rightarrow> doclaynet_config \<Rightarrow> layout_backend" where
  "doclaynet_backend vi config =
     (let model = doclaynet_load vi config
      in \<lparr>lbk_analyze = doclaynet_analyze vi config model, lbk_available = (model \<noteq> None),
          lbk_unavailable_reason = (if model \<noteq> None then [] else ''failed to load DocLayNet model: '' @ dn_model_path config)\<rparr>)"

subsection \<open>Paddle: blocks that overlap\<close>

definition kPaddleLabels :: "string list" where
  "kPaddleLabels = [''abstract'', ''algorithm'', ''aside_text'', ''chart'', ''content'', ''display_formula'', ''doc_title'',
     ''figure_title'', ''footer'', ''footer_image'', ''footnote'', ''formula_number'', ''header'', ''header_image'', ''image'',
     ''inline_formula'', ''number'', ''paragraph_title'', ''reference'', ''reference_content'', ''seal'', ''table'', ''text'',
     ''vertical_text'', ''vision_footnote'']"

definition overlapOverSmaller :: "bbox \<Rightarrow> bbox \<Rightarrow> double" where
  "overlapOverSmaller lhs rhs =
     (let denominator = min (bboxArea lhs) (bboxArea rhs)
      in if denominator \<le> 0 then 0 else overlapArea lhs rhs / denominator)"

definition isVisualLabel :: "string \<Rightarrow> bool" where
  "isVisualLabel label \<longleftrightarrow> label = ''image'' \<or> label = ''table'' \<or> label = ''seal'' \<or> label = ''chart''"

definition preserveVisualOverlap :: "string \<Rightarrow> string \<Rightarrow> bool" where
  "preserveVisualOverlap lhs rhs =
     (if lhs = rhs \<or> (\<not> isVisualLabel lhs \<and> \<not> isVisualLabel rhs) then False
      else if lhs \<noteq> ''table'' \<and> rhs \<noteq> ''table'' then True
      else isVisualLabel lhs \<and> isVisualLabel rhs)"

text \<open>The inner loop's body: which blocks are dropped after a pair has been compared.\<close>

definition compare_blocks :: "layout_block list \<Rightarrow> nat \<Rightarrow> bool list \<Rightarrow> nat \<Rightarrow> bool list" where
  "compare_blocks blocks l dropped r =
     (if dropped ! l \<or> dropped ! r then dropped
      else
        let a = blocks ! l; b = blocks ! r; overlap = overlapOverSmaller (lb_bbox a) (lb_bbox b) in
        if lb_source_label a = ''inline_formula'' \<or> lb_source_label b = ''inline_formula'' then
          (if overlap > 0.5
           then dropped[l := lb_source_label a = ''inline_formula'', r := lb_source_label b = ''inline_formula'']
           else dropped)
        else if overlap \<le> 0.7 \<or> preserveVisualOverlap (lb_source_label a) (lb_source_label b) then dropped
        else if bboxArea (lb_bbox a) \<ge> bboxArea (lb_bbox b) then dropped[r := True]
        else dropped[l := True])"

definition small_block :: "layout_block \<Rightarrow> bool" where
  "small_block b \<longleftrightarrow> bx1 (lb_bbox b) - bx0 (lb_bbox b) < 6 \<or> by1 (lb_bbox b) - by0 (lb_bbox b) < 6"

definition compare_block :: "layout_block list \<Rightarrow> bool list \<Rightarrow> nat \<Rightarrow> bool list" where
  "compare_block blocks dropped l =
     (let dropped = (if small_block (blocks ! l) then dropped[l := True] else dropped)
      in foldl (compare_blocks blocks l) dropped [l + 1..<length blocks])"

definition dropped_blocks :: "layout_block list \<Rightarrow> bool list" where
  "dropped_blocks blocks = foldl (compare_block blocks) (replicate (length blocks) False) [0..<length blocks]"

definition filterOverlappingBlocks :: "layout_block list \<Rightarrow> layout_block list" where
  "filterOverlappingBlocks blocks =
     map (\<lambda>i. blocks ! i) (filter (\<lambda>i. \<not> dropped_blocks blocks ! i) [0..<length blocks])"

definition filterPageSizedImages :: "int \<Rightarrow> int \<Rightarrow> layout_block list \<Rightarrow> layout_block list" where
  "filterPageSizedImages width height blocks =
     (if length blocks \<le> 1 then blocks
      else
        let page_area = real_of_int width * real_of_int height;
            maximum_ratio = (if width > height then 0.82 else 0.93);
            filtered = filter (\<lambda>b. lb_source_label b \<noteq> ''image'' \<or> bboxArea (lb_bbox b) \<le> maximum_ratio * page_area) blocks
        in if filtered \<noteq> [] then filtered else blocks)"

subsection \<open>Paddle: the model\<close>

record paddle_tensors =
  pi_image :: input_tensor
  pi_resized_shape :: input_tensor
  pi_scale_factor :: input_tensor

definition paddle_input :: "vision \<Rightarrow> paddle_layout_config \<Rightarrow> picture \<Rightarrow> library_error + paddle_tensors" where
  "paddle_input vi config bgr =
     try_with (vi_resize vi InterCubic (pd_input_width config) (pd_input_height config) bgr) (\<lambda>resized.
     try_with (vi_bgr_to_rgb vi resized) (\<lambda>resized.
     try_with (vi_to_float vi (1 / 255) resized) (\<lambda>resized.
       let height = nat (pd_input_height config); width = nat (pd_input_width config)
       in Inr \<lparr>pi_image = \<lparr>it_values = write_pixels (plain_pixel resized) 0 height width width (replicate (3 * height * width) 0),
                 it_shape = [1, 3, pd_input_height config, pd_input_width config]\<rparr>,
               pi_resized_shape = \<lparr>it_values = [real_of_int (pd_input_height config), real_of_int (pd_input_width config)],
                 it_shape = [1, 2]\<rparr>,
               pi_scale_factor = \<lparr>it_values = [real_of_int (pd_input_height config) / real_of_int (im_rows bgr),
                   real_of_int (pd_input_width config) / real_of_int (im_cols bgr)], it_shape = [1, 2]\<rparr>\<rparr>)))"

definition paddle_row :: "(nat \<Rightarrow> double) \<Rightarrow> int \<Rightarrow> int \<Rightarrow> double \<Rightarrow> nat \<Rightarrow> layout_block option" where
  "paddle_row boxes width height threshold index =
     (let row = (\<lambda>i. boxes (index * 7 + i)); label_index = round_away (row 0) in
      if label_index < 0 \<or> label_index \<ge> int (length kPaddleLabels) \<or> row 1 \<le> threshold then None
      else
        let label = kPaddleLabels ! nat label_index in
        if label = ''reference'' then None
        else
          let box = clip_to width height \<lparr>bx0 = real_of_int (round_away (row 2)), by0 = real_of_int (round_away (row 3)),
                bx1 = real_of_int (round_away (row 4)), by1 = real_of_int (round_away (row 5))\<rparr>
          in if bboxArea box \<le> 0 then None
             else Some (default_layout_block\<lparr>lb_type := mapPaddleDocLayoutLabel label, lb_source_label := label,
                    lb_bbox := box, lb_confidence := row 1, lb_reading_order_hint := round_away (row 6)\<rparr>))"

definition by_hint :: "layout_block \<Rightarrow> layout_block \<Rightarrow> bool" where
  "by_hint a b \<longleftrightarrow> lb_reading_order_hint a < lb_reading_order_hint b"

interpretation by_hint: keyed_order by_hint lb_reading_order_hint
  by unfold_locales (simp add: by_hint_def)

definition paddle_decode :: "tensor \<Rightarrow> tensor \<Rightarrow> int \<Rightarrow> int \<Rightarrow> double \<Rightarrow> layout_block list option" where
  "paddle_decode boxes_value counts_value width height threshold =
     (let boxes_shape = tn_shape boxes_value; counts_shape = tn_shape counts_value in
      if length boxes_shape \<noteq> 2 \<or> boxes_shape ! 1 \<noteq> 7 \<or> length counts_shape \<noteq> 1 \<or> counts_shape ! 0 < 1 then None
      else case (tn_floats boxes_value, tn_ints counts_value) of
          (Some boxes, Some counts) \<Rightarrow>
            if counts 0 < 0 then None
            else
              let raw_count = min (nat (counts 0)) (nat (max 0 (boxes_shape ! 0)));
                  blocks = List.map_filter (paddle_row boxes width height threshold) [0..<raw_count]
              in Some (filterOverlappingBlocks (filterPageSizedImages width height (sort_by by_hint blocks)))
        | _ \<Rightarrow> None)"

text \<open>\<open>inputIndex\<close> gives the number of inputs for a name that is missing, which the caller then refuses.\<close>

definition inputIndex :: "session \<Rightarrow> string \<Rightarrow> nat" where
  "inputIndex s expected = (case find_name expected (input_names s) of None \<Rightarrow> length (input_names s) | Some i \<Rightarrow> i)"

definition matchesShape :: "session \<Rightarrow> string \<Rightarrow> int list \<Rightarrow> bool" where
  "matchesShape s input_name expected_shape =
     (let index = inputIndex s input_name in
      if index \<ge> length (se_inputs s) then False
      else
        let shape = snd (se_inputs s ! index)
        in length shape = length expected_shape \<and>
           list_all (\<lambda>(d, e). \<not> (d > 0 \<and> d \<noteq> e)) (zip shape expected_shape))"

definition paddle_model_ok :: "paddle_layout_config \<Rightarrow> session \<Rightarrow> bool" where
  "paddle_model_ok config s \<longleftrightarrow>
     ''image'' \<in> set (input_names s) \<and> ''im_shape'' \<in> set (input_names s) \<and> ''scale_factor'' \<in> set (input_names s) \<and>
     ''fetch_name_0'' \<in> set (output_names s) \<and> ''fetch_name_1'' \<in> set (output_names s) \<and>
     matchesShape s ''image'' [1, 3, pd_input_height config, pd_input_width config] \<and>
     matchesShape s ''im_shape'' [1, 2] \<and> matchesShape s ''scale_factor'' [1, 2]"

definition paddle_load :: "vision \<Rightarrow> paddle_layout_config \<Rightarrow> session option" where
  "paddle_load vi config =
     (if \<not> fileExists vi (pd_model_path config) \<or> pd_input_width config \<le> 0 \<or> pd_input_height config \<le> 0 \<or>
         pd_confidence_threshold config \<le> 0 \<or> pd_confidence_threshold config \<ge> 1 then None
      else caught (try_with (vi_load vi (pd_model_path config)) (\<lambda>s.
        Inr (if paddle_model_ok config s then Some s else None))))"

definition paddle_blocks :: "vision \<Rightarrow> paddle_layout_config \<Rightarrow> session \<Rightarrow> picture \<Rightarrow> library_error + layout_block list option" where
  "paddle_blocks vi config s m =
     try_with (paddle_input vi config m) (\<lambda>i.
     try_with (se_run s [(''im_shape'', pi_resized_shape i), (''image'', pi_image i), (''scale_factor'', pi_scale_factor i)]
                 [''fetch_name_0'', ''fetch_name_1'']) (\<lambda>outputs.
       Inr (if length outputs \<noteq> 2 then None
            else paddle_decode (outputs ! 0) (outputs ! 1) (im_cols m) (im_rows m) (pd_confidence_threshold config))))"

definition paddle_analyze ::
  "vision \<Rightarrow> paddle_layout_config \<Rightarrow> session option \<Rightarrow> page_artifact \<Rightarrow> page_text \<Rightarrow> layout_result option" where
  "paddle_analyze vi config model page page_text =
     (case model of
        None \<Rightarrow> None
      | Some s \<Rightarrow>
          if \<not> fileExists vi (pa_output_path page) then None
          else
            let m = vi_read_image vi page in
            if im_empty m then None
            else map_option (finish_blocks page page_text) (caught (paddle_blocks vi config s m)))"

definition paddle_layout_backend :: "vision \<Rightarrow> paddle_layout_config \<Rightarrow> layout_backend" where
  "paddle_layout_backend vi config =
     (let model = paddle_load vi config
      in \<lparr>lbk_analyze = paddle_analyze vi config model, lbk_available = (model \<noteq> None),
          lbk_unavailable_reason = (if model \<noteq> None then [] else ''failed to load Paddle layout model: '' @ pd_model_path config)\<rparr>)"

subsection \<open>What the blocks promise\<close>

text \<open>A block of a page that a model found: inside the image, not empty, with a label of the model and the type it maps to.\<close>

definition model_block ::
  "string list \<Rightarrow> (string \<Rightarrow> layout_type) \<Rightarrow> int \<Rightarrow> int \<Rightarrow> (double \<Rightarrow> bool) \<Rightarrow> layout_block \<Rightarrow> bool" where
  "model_block labels type_of width height confident b \<longleftrightarrow>
     in_image width height (lb_bbox b) \<and> 0 < bboxArea (lb_bbox b) \<and> lb_source_label b \<in> set labels \<and>
     lb_type b = type_of (lb_source_label b) \<and> confident (lb_confidence b)"

lemma model_block_cong:
  "lb_bbox a = lb_bbox b \<Longrightarrow> lb_source_label a = lb_source_label b \<Longrightarrow> lb_type a = lb_type b \<Longrightarrow>
   lb_confidence a = lb_confidence b \<Longrightarrow> model_block labels type_of w h c a = model_block labels type_of w h c b"
  by (simp add: model_block_def)

lemma sigmoid_logistic: "sigmoid v = 1 / (1 + exp (- v))"
proof -
  have "exp v / (1 + exp v) = 1 / (1 + exp (- v))"
  proof -
    have "0 < exp v" by simp
    then have "1 + exp v \<noteq> 0" "1 + exp (- v) \<noteq> 0" by (smt (verit) exp_gt_zero)+
    then show ?thesis by (simp add: divide_simps exp_minus field_simps)
  qed
  then show ?thesis by (simp add: sigmoid_def Let_def)
qed

lemma sigmoid_bounds: "0 < sigmoid v" "sigmoid v < 1"
  unfolding sigmoid_logistic by (simp_all add: add_pos_pos)

lemma sigmoid_mono: "v \<le> w \<Longrightarrow> sigmoid v \<le> sigmoid w"
  unfolding sigmoid_logistic by (intro divide_left_mono) (simp_all add: add_pos_pos)

lemma assign_line_keeps: "same_boxes (foldl (assign_line page_text) blocks is) blocks"
  by (induction "is" arbitrary: blocks) (use assign_line_same same_boxes_trans in \<open>auto simp: same_boxes_def\<close>)

lemma number_blocks_keeps: "i < length blocks \<Longrightarrow> number_blocks n blocks ! i = (blocks ! i)\<lparr>lb_id := layout_block_id n i\<rparr>"
  "length (number_blocks n blocks) = length blocks"
  by (simp_all add: number_blocks_def)

lemma associate_caption_keeps:
  "lb_bbox (associate_caption page blocks b) = lb_bbox b" "lb_source_label (associate_caption page blocks b) = lb_source_label b"
  "lb_type (associate_caption page blocks b) = lb_type b" "lb_confidence (associate_caption page blocks b) = lb_confidence b"
  by (simp_all add: associate_caption_def Let_def split: option.split)

text \<open>What comes after the decoding changes neither a block's box nor its label, type and confidence.\<close>

lemma finish_blocks_nth:
  fixes blocks page page_text
  defines "finished \<equiv> pl_blocks (lr_layout (finish_blocks page page_text blocks))"
  shows "length finished = length blocks"
    "i < length blocks \<Longrightarrow> lb_bbox (finished ! i) = lb_bbox (blocks ! i) \<and> lb_source_label (finished ! i) = lb_source_label (blocks ! i) \<and>
       lb_type (finished ! i) = lb_type (blocks ! i) \<and> lb_confidence (finished ! i) = lb_confidence (blocks ! i)"
proof -
  let ?n = "number_blocks (pa_page_number page) blocks"
  let ?a = "assignTextLines page_text ?n"
  have same: "same_boxes ?a ?n" unfolding assignTextLines_def by (rule assign_line_keeps)
  have len: "length ?a = length blocks" using same_boxesD(1)[OF same] by (simp add: number_blocks_keeps)
  then show "length finished = length blocks" by (simp add: finished_def finish_blocks_def associateCaptions_def)
  assume i: "i < length blocks"
  then have eq: "(?a ! i)\<lparr>lb_text_line_indices := []\<rparr> = (?n ! i)\<lparr>lb_text_line_indices := []\<rparr>"
    using same_boxesD(3)[OF same] len by simp
  have "lb_bbox (?a ! i) = lb_bbox (?n ! i)" "lb_source_label (?a ! i) = lb_source_label (?n ! i)"
    "lb_type (?a ! i) = lb_type (?n ! i)" "lb_confidence (?a ! i) = lb_confidence (?n ! i)"
    using arg_cong[OF eq, of lb_bbox] arg_cong[OF eq, of lb_source_label] arg_cong[OF eq, of lb_type]
      arg_cong[OF eq, of lb_confidence] by simp_all
  then show "lb_bbox (finished ! i) = lb_bbox (blocks ! i) \<and> lb_source_label (finished ! i) = lb_source_label (blocks ! i) \<and>
      lb_type (finished ! i) = lb_type (blocks ! i) \<and> lb_confidence (finished ! i) = lb_confidence (blocks ! i)"
    using i len by (simp add: finished_def finish_blocks_def associateCaptions_def associate_caption_keeps number_blocks_keeps)
qed

lemma finish_blocks_model:
  "list_all (model_block labels type_of w h c) blocks \<Longrightarrow>
   list_all (model_block labels type_of w h c) (pl_blocks (lr_layout (finish_blocks page page_text blocks)))"
  by (auto simp: list_all_length finish_blocks_nth model_block_def)

lemma list_all_map_filter: "(\<And>x y. x \<in> set xs \<Longrightarrow> f x = Some y \<Longrightarrow> P y) \<Longrightarrow> list_all P (List.map_filter f xs)"
  by (auto simp: list_all_iff List.map_filter_def)

lemma doclaynet_query_model:
  assumes "doclaynet_query boxes logits w h t q = Some b" "0 \<le> w" "0 \<le> h"
  shows "model_block kDocLayNetLabels mapDocLayNetLabel w h (\<lambda>c. t \<le> c \<and> c < 1) b"
proof -
  let ?i = "max_index (\<lambda>i. logits (q * length kDocLayNetLabels + i)) (length kDocLayNetLabels)"
  have "?i < length kDocLayNetLabels" by (rule max_index_less) (simp add: kDocLayNetLabels_def)
  then have "kDocLayNetLabels ! ?i \<in> set kDocLayNetLabels" by (rule nth_mem)
  then show ?thesis using assms
    by (auto simp: doclaynet_query_def Let_def model_block_def clip_to_in_image sigmoid_bounds split: if_splits)
qed

lemma doclaynet_decode_model:
  "doclaynet_decode bs ls w h t = Some blocks \<Longrightarrow> 0 \<le> w \<Longrightarrow> 0 \<le> h \<Longrightarrow>
   list_all (model_block kDocLayNetLabels mapDocLayNetLabel w h (\<lambda>c. t \<le> c \<and> c < 1)) blocks"
  by (auto simp: doclaynet_decode_def Let_def split: if_splits option.splits
      intro!: list_all_map_filter elim!: doclaynet_query_model)

text \<open>The blocks of an analysis, none where it failed.\<close>

definition result_blocks :: "layout_result option \<Rightarrow> layout_block list" where
  "result_blocks r = (case r of None \<Rightarrow> [] | Some r \<Rightarrow> pl_blocks (lr_layout r))"

lemma doclaynet_analyze_model:
  "list_all (model_block kDocLayNetLabels mapDocLayNetLabel (im_cols (vi_read_image vi page)) (im_rows (vi_read_image vi page))
      (\<lambda>c. dn_confidence_threshold config \<le> c \<and> c < 1)) (result_blocks (doclaynet_analyze vi config model page page_text))"
proof (cases "doclaynet_analyze vi config model page page_text")
  case None
  then show ?thesis by (simp add: result_blocks_def)
next
  case (Some r)
  then obtain blocks m where r: "r = finish_blocks page page_text (sort_by above_or_left blocks)"
    and blocks: "doclaynet_blocks vi config m (vi_read_image vi page) = Inr (Some blocks)"
    and full: "\<not> im_empty (vi_read_image vi page)"
    by (auto simp: doclaynet_analyze_def Let_def caught_Some split: option.splits if_splits)
  have "list_all (model_block kDocLayNetLabels mapDocLayNetLabel (im_cols (vi_read_image vi page))
      (im_rows (vi_read_image vi page)) (\<lambda>c. dn_confidence_threshold config \<le> c \<and> c < 1)) blocks"
    using blocks full doclaynet_decode_model
    by (fastforce simp: doclaynet_blocks_def try_with_Inr im_empty_def split: if_splits)
  then show ?thesis unfolding Some r result_blocks_def option.simps
    by (intro finish_blocks_model) (simp add: list_all_iff)
qed

subsection \<open>Blocks that overlap\<close>

text \<open>A pair of which the filter may not keep both.\<close>

definition conflicting :: "layout_block \<Rightarrow> layout_block \<Rightarrow> bool" where
  "conflicting a b \<longleftrightarrow>
     (let overlap = overlapOverSmaller (lb_bbox a) (lb_bbox b);
          formula = (lb_source_label a = ''inline_formula'' \<or> lb_source_label b = ''inline_formula'')
      in if formula then overlap > 0.5
         else overlap > 0.7 \<and> \<not> preserveVisualOverlap (lb_source_label a) (lb_source_label b))"

lemma conflicting_cong:
  "lb_bbox a = lb_bbox a' \<Longrightarrow> lb_source_label a = lb_source_label a' \<Longrightarrow> lb_bbox b = lb_bbox b' \<Longrightarrow>
   lb_source_label b = lb_source_label b' \<Longrightarrow> conflicting a b = conflicting a' b'"
  by (simp add: conflicting_def)

lemma length_compare_blocks [simp]: "length (compare_blocks blocks l d r) = length d"
  by (simp add: compare_blocks_def Let_def)

lemma compare_blocks_mono: "d ! i \<Longrightarrow> compare_blocks blocks l d r ! i"
proof (cases "d ! l \<or> d ! r")
  case False
  assume "d ! i"
  with False have "i \<noteq> l" "i \<noteq> r" by auto
  with \<open>d ! i\<close> show ?thesis by (simp add: compare_blocks_def Let_def)
qed (simp add: compare_blocks_def)

lemma compare_blocks_conflict:
  "l < length d \<Longrightarrow> r < length d \<Longrightarrow> l \<noteq> r \<Longrightarrow> \<not> compare_blocks blocks l d r ! l \<Longrightarrow> \<not> compare_blocks blocks l d r ! r \<Longrightarrow>
   \<not> conflicting (blocks ! l) (blocks ! r)"
  by (auto simp: compare_blocks_def conflicting_def Let_def nth_list_update split: if_splits)

lemma fold_compare_mono:
  "d ! i \<Longrightarrow> i < length d \<Longrightarrow>
   length (foldl (compare_blocks blocks l) d rs) = length d \<and> foldl (compare_blocks blocks l) d rs ! i"
  by (induction rs arbitrary: d) (auto simp: compare_blocks_mono)

lemma length_fold_compare [simp]: "length (foldl (compare_blocks blocks l) d rs) = length d"
  by (induction rs arbitrary: d) auto

lemma length_compare_block [simp]: "length (compare_block blocks d l) = length d"
  by (simp add: compare_block_def Let_def)

lemma compare_block_mono:
  assumes "d ! i" "i < length d"
  shows "compare_block blocks d l ! i"
proof -
  have "d[l := True] ! i" using assms by (cases "l = i") auto
  then show ?thesis using assms fold_compare_mono[of "if small_block (blocks ! l) then d[l := True] else d" i]
    by (simp add: compare_block_def)
qed

lemma length_fold_block [simp]: "length (foldl (compare_block blocks) d ls) = length d"
  by (induction ls arbitrary: d) auto

lemma fold_block_mono: "d ! i \<Longrightarrow> i < length d \<Longrightarrow> foldl (compare_block blocks) d ls ! i"
  by (induction ls arbitrary: d) (auto simp: compare_block_mono)

lemma upt_split: "m \<le> k \<Longrightarrow> k < n \<Longrightarrow> [m..<n] = [m..<k] @ k # [Suc k..<n]"
  using upt_add_eq_append[of m k "n - k"] by (simp add: upt_conv_Cons)

lemma compare_block_conflict:
  assumes "l < r" "r < length blocks" "length d = length blocks"
    "\<not> compare_block blocks d l ! l" "\<not> compare_block blocks d l ! r"
  shows "\<not> conflicting (blocks ! l) (blocks ! r)"
proof -
  let ?d = "if small_block (blocks ! l) then d[l := True] else d"
  let ?before = "foldl (compare_blocks blocks l) ?d [l + 1..<r]"
  have split: "[l + 1..<length blocks] = [l + 1..<r] @ r # [Suc r..<length blocks]"
    using assms by (intro upt_split) auto
  have after: "compare_block blocks d l =
      foldl (compare_blocks blocks l) (compare_blocks blocks l ?before r) [Suc r..<length blocks]"
    unfolding compare_block_def Let_def split foldl_append foldl.simps ..
  have "\<not> compare_blocks blocks l ?before r ! l" "\<not> compare_blocks blocks l ?before r ! r"
    using assms fold_compare_mono[of "compare_blocks blocks l ?before r"] unfolding after by auto
  then show ?thesis using assms by (intro compare_blocks_conflict[of l ?before r]) auto
qed

lemma dropped_conflict:
  assumes "l < r" "r < length blocks" "\<not> dropped_blocks blocks ! l" "\<not> dropped_blocks blocks ! r"
  shows "\<not> conflicting (blocks ! l) (blocks ! r)"
proof -
  let ?before = "foldl (compare_block blocks) (replicate (length blocks) False) [0..<l]"
  have split: "[0..<length blocks] = [0..<l] @ l # [Suc l..<length blocks]"
    using assms by (intro upt_split) auto
  have after: "dropped_blocks blocks = foldl (compare_block blocks) (compare_block blocks ?before l) [Suc l..<length blocks]"
    unfolding dropped_blocks_def split foldl_append foldl.simps ..
  have "\<not> compare_block blocks ?before l ! l" "\<not> compare_block blocks ?before l ! r"
    using assms fold_block_mono[of "compare_block blocks ?before l"] unfolding after by auto
  then show ?thesis using assms by (intro compare_block_conflict[of l r blocks ?before]) auto
qed

lemma sorted_wrt_filter_upt:
  "(\<And>i j. i < j \<Longrightarrow> j < n \<Longrightarrow> P i \<Longrightarrow> P j \<Longrightarrow> R (f i) (f j)) \<Longrightarrow> sorted_wrt R (map f (filter P [0..<n]))"
proof (induction n)
  case (Suc n)
  then have "sorted_wrt R (map f (filter P [0..<n]))" by simp
  with Suc.prems show ?case by (auto simp: sorted_wrt_append)
qed simp

lemma filterOverlappingBlocks_separate: "sorted_wrt (\<lambda>a b. \<not> conflicting a b) (filterOverlappingBlocks blocks)"
  unfolding filterOverlappingBlocks_def by (rule sorted_wrt_filter_upt) (rule dropped_conflict)

text \<open>A block is dropped only when it is small or another block of the page conflicts with it.\<close>

definition drop_reason :: "layout_block list \<Rightarrow> nat \<Rightarrow> bool" where
  "drop_reason blocks i \<longleftrightarrow> small_block (blocks ! i) \<or>
     (\<exists>j<length blocks. j \<noteq> i \<and> (conflicting (blocks ! i) (blocks ! j) \<or> conflicting (blocks ! j) (blocks ! i)))"

definition drops_justified :: "layout_block list \<Rightarrow> bool list \<Rightarrow> bool" where
  "drops_justified blocks d \<longleftrightarrow> length d = length blocks \<and> (\<forall>i<length blocks. d ! i \<longrightarrow> drop_reason blocks i)"

lemma compare_blocks_justified:
  assumes "drops_justified blocks d" "l < length blocks" "r < length blocks" "l \<noteq> r"
  shows "drops_justified blocks (compare_blocks blocks l d r)"
proof (cases "conflicting (blocks ! l) (blocks ! r)")
  case True
  then have "drop_reason blocks l" "drop_reason blocks r" using assms by (auto simp: drop_reason_def)
  then show ?thesis using assms
    by (auto simp: drops_justified_def compare_blocks_def Let_def nth_list_update)
next
  case False
  then have "compare_blocks blocks l d r = d" using assms
    by (auto simp: compare_blocks_def conflicting_def Let_def)
  then show ?thesis using assms by simp
qed

lemma compare_block_justified:
  assumes "drops_justified blocks d" "l < length blocks"
  shows "drops_justified blocks (compare_block blocks d l)"
proof -
  let ?d = "if small_block (blocks ! l) then d[l := True] else d"
  have "drops_justified blocks ?d" using assms
    by (auto simp: drops_justified_def nth_list_update drop_reason_def)
  then have "drops_justified blocks (foldl (compare_blocks blocks l) ?d [l + 1..<length blocks])"
    by (rule foldl_invariant) (use assms in \<open>auto intro!: compare_blocks_justified\<close>)
  then show ?thesis by (simp add: compare_block_def)
qed

lemma dropped_blocks_justified: "drops_justified blocks (dropped_blocks blocks)"
  unfolding dropped_blocks_def
  by (rule foldl_invariant) (auto simp: drops_justified_def[of blocks "replicate (length blocks) False"] intro: compare_block_justified)

lemma filterOverlappingBlocks_keeps:
  assumes "i < length blocks" "\<not> drop_reason blocks i"
  shows "blocks ! i \<in> set (filterOverlappingBlocks blocks)"
  using assms dropped_blocks_justified[of blocks] by (auto simp: filterOverlappingBlocks_def drops_justified_def)

lemma filterPageSizedImages_nonempty: "filterPageSizedImages w h blocks = [] \<longleftrightarrow> blocks = []"
  by (auto simp: filterPageSizedImages_def Let_def)

lemma filterOverlappingBlocks_subset: "set (filterOverlappingBlocks blocks) \<subseteq> set blocks"
  by (auto simp: filterOverlappingBlocks_def)

lemma filterPageSizedImages_subset: "set (filterPageSizedImages w h blocks) \<subseteq> set blocks"
  by (auto simp: filterPageSizedImages_def Let_def)

lemma paddle_row_model:
  assumes "paddle_row boxes w h t i = Some b" "0 \<le> w" "0 \<le> h"
  shows "model_block kPaddleLabels mapPaddleDocLayoutLabel w h (\<lambda>c. t < c) b"
  using assms by (auto simp: paddle_row_def Let_def model_block_def clip_to_in_image split: if_splits intro!: nth_mem)

lemma paddle_decode_model:
  assumes "paddle_decode bs cs w h t = Some blocks" "0 \<le> w" "0 \<le> h"
  shows "list_all (model_block kPaddleLabels mapPaddleDocLayoutLabel w h (\<lambda>c. t < c)) blocks"
proof -
  obtain boxes n where blocks: "blocks = filterOverlappingBlocks (filterPageSizedImages w h
      (sort_by by_hint (List.map_filter (paddle_row boxes w h t) [0..<n])))"
    using assms(1) by (auto simp: paddle_decode_def Let_def split: if_splits option.splits)
  have "list_all (model_block kPaddleLabels mapPaddleDocLayoutLabel w h (\<lambda>c. t < c))
      (List.map_filter (paddle_row boxes w h t) [0..<n])"
    by (rule list_all_map_filter) (rule paddle_row_model[OF _ assms(2,3)])
  then show ?thesis using filterOverlappingBlocks_subset filterPageSizedImages_subset
    unfolding blocks list_all_iff by (metis set_sort_by subsetD)
qed

lemma paddle_decode_separate:
  "paddle_decode bs cs w h t = Some blocks \<Longrightarrow> sorted_wrt (\<lambda>a b. \<not> conflicting a b) blocks"
  by (auto simp: paddle_decode_def Let_def filterOverlappingBlocks_separate split: if_splits option.splits)

lemma paddle_analyzeE:
  assumes "paddle_analyze vi config model page page_text = Some r"
  obtains bs cs blocks where "r = finish_blocks page page_text blocks"
    "paddle_decode bs cs (im_cols (vi_read_image vi page)) (im_rows (vi_read_image vi page)) (pd_confidence_threshold config) = Some blocks"
    "0 \<le> im_cols (vi_read_image vi page)" "0 \<le> im_rows (vi_read_image vi page)"
  using assms that
  by (fastforce simp: paddle_analyze_def Let_def caught_Some paddle_blocks_def try_with_Inr im_empty_def split: option.splits if_splits)

lemma paddle_analyze_model:
  "list_all (model_block kPaddleLabels mapPaddleDocLayoutLabel (im_cols (vi_read_image vi page)) (im_rows (vi_read_image vi page))
      (\<lambda>c. pd_confidence_threshold config < c)) (result_blocks (paddle_analyze vi config model page page_text))"
proof (cases "paddle_analyze vi config model page page_text")
  case (Some r)
  then show ?thesis
    by (elim paddle_analyzeE) (simp add: Some result_blocks_def finish_blocks_model paddle_decode_model)
qed (simp add: result_blocks_def)

lemma paddle_analyze_separate:
  "sorted_wrt (\<lambda>a b. \<not> conflicting a b) (result_blocks (paddle_analyze vi config model page page_text))"
proof (cases "paddle_analyze vi config model page page_text")
  case (Some r)
  then obtain bs cs blocks where r: "r = finish_blocks page page_text blocks"
    and blocks: "paddle_decode bs cs (im_cols (vi_read_image vi page)) (im_rows (vi_read_image vi page))
      (pd_confidence_threshold config) = Some blocks"
    by (elim paddle_analyzeE)
  have "sorted_wrt (\<lambda>a b. \<not> conflicting a b) (pl_blocks (lr_layout r))"
    unfolding r sorted_wrt_iff_nth_less
  proof (intro allI impI)
    fix i j
    let ?f = "pl_blocks (lr_layout (finish_blocks page page_text blocks))"
    assume "i < j" "j < length ?f"
    then have ij: "i < length blocks" "j < length blocks" by (simp_all add: finish_blocks_nth)
    have "\<not> conflicting (blocks ! i) (blocks ! j)"
      using sorted_wrt_nth_less[OF paddle_decode_separate[OF blocks] \<open>i < j\<close> ij(2)] .
    moreover have "conflicting (?f ! i) (?f ! j) = conflicting (blocks ! i) (blocks ! j)"
      by (rule conflicting_cong) (simp_all add: finish_blocks_nth ij)
    ultimately show "\<not> conflicting (?f ! i) (?f ! j)" by simp
  qed
  then show ?thesis by (simp add: Some result_blocks_def)
qed (simp add: result_blocks_def)

subsection \<open>The input tensors\<close>

text \<open>Every value of DocLayNet's input is the normalized value of its pixel and channel, plane after plane.\<close>

lemma doclaynet_input_planes:
  assumes "doclaynet_input vi config m = Inr t"
  obtains resized :: picture where "length (it_values t) = 3 * nat (dn_input_height config) * nat (dn_input_width config)"
    "\<And>y x c. y < nat (dn_input_height config) \<Longrightarrow> x < nat (dn_input_width config) \<Longrightarrow> c < 3 \<Longrightarrow>
       it_values t ! pixel_offset (nat (dn_input_height config)) (nat (dn_input_width config)) y x c =
       (im_pixel resized (int y) (int x) c - imagenet_mean ! c) / imagenet_std ! c"
proof -
  obtain resized where t: "it_values t = write_pixels (normal_pixel imagenet_mean imagenet_std resized) 0
      (nat (dn_input_height config)) (nat (dn_input_width config)) (nat (dn_input_width config))
      (replicate (3 * nat (dn_input_height config) * nat (dn_input_width config)) 0)"
    using assms by (auto simp: doclaynet_input_def try_with_Inr Let_def)
  show thesis
  proof (rule that[of resized])
    show "length (it_values t) = 3 * nat (dn_input_height config) * nat (dn_input_width config)" by (simp add: t)
    fix y x c :: nat
    assume "y < nat (dn_input_height config)" "x < nat (dn_input_width config)" "c < 3"
    then show "it_values t ! pixel_offset (nat (dn_input_height config)) (nat (dn_input_width config)) y x c =
       (im_pixel resized (int y) (int x) c - imagenet_mean ! c) / imagenet_std ! c"
      using write_pixels_at[of "nat (dn_input_width config)" "nat (dn_input_width config)" y "nat (dn_input_height config)" x c 0]
      by (simp add: t normal_pixel_def)
  qed
qed

subsection \<open>The properties\<close>

text \<open>
  Every block DocLayNet finds on a page lies inside the page's image and is not empty, has a label of the model and the type
  that label maps to, and a confidence from the threshold up to 1.
\<close>

lemma doclaynet_blocks_in_page:
  "list_all (model_block kDocLayNetLabels mapDocLayNetLabel (im_cols (vi_read_image vi page)) (im_rows (vi_read_image vi page))
      (\<lambda>c. dn_confidence_threshold config \<le> c \<and> c < 1)) (result_blocks (doclaynet_analyze vi config model page page_text))"
  by (rule doclaynet_analyze_model)

text \<open>
  C33: of the blocks Paddle's layout model finds on a page, no two conflict. Two blocks of which one is an inline formula do not overlap by
  more than half of the smaller one. Other blocks do not overlap by more than 0.7 of the smaller one, unless their labels differ
  and either one of them is visual (image, seal, chart) and neither a table, or both are visual.
\<close>

theorem paddle_blocks_separate:
  "sorted_wrt (\<lambda>a b. \<not> conflicting a b) (result_blocks (paddle_analyze vi config model page page_text))"
  by (rule paddle_analyze_separate)

end
