(* ===== verification/Table_Transformer.thy ===== *)
theory Table_Transformer
  imports Layout_Models
begin

text \<open>
  The Table Transformer backend, \<open>cpp/table/table_transformer_onnx_backend.cpp\<close>: one model finds the tables of a
  page, another the rows, columns and merged cells of each, and the code builds the grid of cells from
  them. Vectors indexed by a row and a column are lists of lists.
\<close>

subsection \<open>Predictions\<close>

definition kDetectionLabels :: "string list" where
  "kDetectionLabels = [''table'', ''table rotated'']"

definition kStructureLabels :: "string list" where
  "kStructureLabels = [''table'', ''table column'', ''table row'', ''table column header'', ''table projected row header'',
     ''table spanning cell'']"

record prediction =
  pr_label :: string
  pr_bbox :: bbox
  pr_confidence :: double

definition validateSession :: "session \<Rightarrow> int \<Rightarrow> bool" where
  "validateSession s expected_classes =
     (let inputs = input_names s; outputs = output_names s in
      if length inputs \<noteq> 1 \<or> hd inputs \<noteq> ''pixel_values'' \<or> length outputs \<noteq> 2 \<or>
         ''logits'' \<notin> set outputs \<or> ''pred_boxes'' \<notin> set outputs then False
      else
        let input_shape = snd (hd (se_inputs s)) in
        if length input_shape \<noteq> 4 \<or> (input_shape ! 1 > 0 \<and> input_shape ! 1 \<noteq> 3) then False
        else
          let logits_index = (if hd outputs = ''logits'' then 0 else 1); logits_shape = snd (se_outputs s ! logits_index)
          in length logits_shape = 3 \<and> (logits_shape ! 2 \<le> 0 \<or> logits_shape ! 2 = expected_classes + 1))"

definition intersectionOverUnion :: "bbox \<Rightarrow> bbox \<Rightarrow> double" where
  "intersectionOverUnion lhs rhs =
     (let intersection = overlapArea lhs rhs; area = bboxArea lhs + bboxArea rhs - intersection
      in if area \<le> 0 then 0 else intersection / area)"

definition intersectBBox :: "bbox \<Rightarrow> bbox \<Rightarrow> bbox" where
  "intersectBBox lhs rhs = \<lparr>bx0 = max (bx0 lhs) (bx0 rhs), by0 = max (by0 lhs) (by0 rhs),
     bx1 = min (bx1 lhs) (bx1 rhs), by1 = min (by1 lhs) (by1 rhs)\<rparr>"

subsection \<open>Running a model\<close>

definition table_input :: "vision \<Rightarrow> picture \<Rightarrow> int \<Rightarrow> int \<Rightarrow> library_error + input_tensor" where
  "table_input vi bgr shortest_edge longest_edge =
     (let scale = min (real_of_int shortest_edge / real_of_int (min (im_rows bgr) (im_cols bgr)))
                    (real_of_int longest_edge / real_of_int (max (im_rows bgr) (im_cols bgr)));
          width = max 1 (round_away (real_of_int (im_cols bgr) * scale));
          height = max 1 (round_away (real_of_int (im_rows bgr) * scale))
      in try_with (vi_resize vi InterLinear width height bgr) (\<lambda>resized.
         try_with (vi_bgr_to_rgb vi resized) (\<lambda>resized.
         try_with (vi_to_float vi (1 / 255) resized) (\<lambda>resized.
           Inr \<lparr>it_values = write_pixels (normal_pixel imagenet_mean imagenet_std resized) 0 (nat height) (nat width) (nat width)
                  (replicate (3 * nat height * nat width) 0),
                it_shape = [1, 3, height, width]\<rparr>))))"

text \<open>
  One query's prediction, unless the loop goes on: the softmax of the logits, of which the last class is
  no object.
\<close>

definition softmax_weight :: "(nat \<Rightarrow> double) \<Rightarrow> nat \<Rightarrow> nat \<Rightarrow> double" where
  "softmax_weight logits classes i = exp (logits i - logits (max_index logits classes))"

definition detr_query ::
  "(nat \<Rightarrow> double) \<Rightarrow> (nat \<Rightarrow> double) \<Rightarrow> picture \<Rightarrow> string list \<Rightarrow> double \<Rightarrow> double \<Rightarrow> double \<Rightarrow> nat \<Rightarrow> prediction option" where
  "detr_query logits boxes image_value labels threshold offset_x offset_y q =
     (let classes = length labels + 1;
          weight = softmax_weight (\<lambda>i. logits (q * classes + i)) classes;
          denominator = (\<Sum>i\<leftarrow>[0..<classes]. weight i);
          label_index = max_index weight (length labels);
          confidence = (if denominator \<le> 0 then 0 else weight label_index / denominator)
      in if confidence \<le> threshold then None
         else
           let center_x = boxes (q * 4) * real_of_int (im_cols image_value); center_y = boxes (q * 4 + 1) * real_of_int (im_rows image_value);
               width = boxes (q * 4 + 2) * real_of_int (im_cols image_value); height = boxes (q * 4 + 3) * real_of_int (im_rows image_value);
               box = \<lparr>bx0 = center_x - width * 0.5 + offset_x, by0 = center_y - height * 0.5 + offset_y,
                 bx1 = center_x + width * 0.5 + offset_x, by1 = center_y + height * 0.5 + offset_y\<rparr>
           in if bboxArea box > 0
              then Some \<lparr>pr_label = labels ! label_index, pr_bbox = box, pr_confidence = confidence\<rparr>
              else None)"

definition detr_shapes_ok :: "nat \<Rightarrow> tensor list \<Rightarrow> bool" where
  "detr_shapes_ok label_count outputs \<longleftrightarrow>
     (let logits_shape = tn_shape (outputs ! 0); boxes_shape = tn_shape (outputs ! 1)
      in \<not> (length logits_shape \<noteq> 3 \<or> length boxes_shape \<noteq> 3 \<or> logits_shape ! 0 \<noteq> 1 \<or> boxes_shape ! 0 \<noteq> 1 \<or>
            logits_shape ! 1 \<le> 0 \<or> logits_shape ! 2 \<noteq> int (label_count + 1) \<or>
            boxes_shape ! 1 \<noteq> logits_shape ! 1 \<or> boxes_shape ! 2 \<noteq> 4))"

text \<open>\<open>runDetr\<close>: \<open>None\<close> where it returns \<open>false\<close>.\<close>

definition runDetr ::
  "vision \<Rightarrow> session \<Rightarrow> picture \<Rightarrow> int \<Rightarrow> int \<Rightarrow> string list \<Rightarrow> double \<Rightarrow> double \<Rightarrow> double \<Rightarrow>
   library_error + prediction list option" where
  "runDetr vi s image_value shortest_edge longest_edge labels threshold offset_x offset_y =
     try_with (table_input vi image_value shortest_edge longest_edge) (\<lambda>i.
     try_with (se_run s [(''pixel_values'', i)] [''logits'', ''pred_boxes'']) (\<lambda>outputs.
       Inr (if length outputs \<noteq> 2 then None
            else if \<not> detr_shapes_ok (length labels) outputs then None
            else case (tn_floats (outputs ! 0), tn_floats (outputs ! 1)) of
                (Some logits, Some boxes) \<Rightarrow>
                  Some (List.map_filter (detr_query logits boxes image_value labels threshold offset_x offset_y)
                          [0..<nat (tn_shape (outputs ! 0) ! 1)])
              | _ \<Rightarrow> None)))"

subsection \<open>Regions\<close>

definition more_confident :: "prediction \<Rightarrow> prediction \<Rightarrow> bool" where
  "more_confident a b \<longleftrightarrow> pr_confidence a > pr_confidence b"

interpretation more_confident: keyed_order more_confident "\<lambda>p. - pr_confidence p"
  by unfold_locales (simp add: more_confident_def)

text \<open>The loop that keeps a region unless it repeats one that is kept.\<close>

definition keep_region :: "prediction list \<Rightarrow> prediction \<Rightarrow> prediction list" where
  "keep_region kept region =
     (if list_ex (\<lambda>candidate. intersectionOverUnion (pr_bbox region) (pr_bbox candidate) > 0.8) kept then kept else kept @ [region])"

definition suppressDuplicateRegions :: "prediction list \<Rightarrow> prediction list" where
  "suppressDuplicateRegions regions = foldl keep_region [] (sort_by more_confident regions)"

definition tableId :: "int \<Rightarrow> nat \<Rightarrow> string" where
  "tableId page_number index = ''page_'' @ int_to_string page_number @ ''_table_'' @ nat_to_string (index + 1)"

definition closer_block :: "bbox \<Rightarrow> double \<times> string \<Rightarrow> layout_block \<Rightarrow> double \<times> string" where
  "closer_block box best block =
     (if lb_type block \<noteq> LTable then best
      else
        let iou = intersectionOverUnion (lb_bbox block) box
        in if iou > fst best then (iou, lb_id block) else best)"

definition closestLayoutBlockId :: "page_layout \<Rightarrow> bbox \<Rightarrow> string" where
  "closestLayoutBlockId layout box = snd (foldl (closer_block box) (0.3, []) (pl_blocks layout))"

subsection \<open>The grid\<close>

definition rowsCoveredBy :: "bbox \<Rightarrow> prediction list \<Rightarrow> nat list" where
  "rowsCoveredBy box rows =
     filter (\<lambda>i. let center = (by0 (pr_bbox (rows ! i)) + by1 (pr_bbox (rows ! i))) * 0.5
                 in center \<ge> by0 box - 1 \<and> center \<le> by1 box + 1) [0..<length rows]"

definition columnsCoveredBy :: "bbox \<Rightarrow> prediction list \<Rightarrow> nat list" where
  "columnsCoveredBy box columns =
     filter (\<lambda>i. let center = (bx0 (pr_bbox (columns ! i)) + bx1 (pr_bbox (columns ! i))) * 0.5
                 in center \<ge> bx0 box - 1 \<and> center \<le> bx1 box + 1) [0..<length columns]"

definition overlapsHeader :: "bbox \<Rightarrow> prediction list \<Rightarrow> bool" where
  "overlapsHeader box headers =
     list_ex (\<lambda>header. let area = bboxArea box in area > 0 \<and> overlapArea box (pr_bbox header) / area > 0.5) headers"

definition above_prediction :: "prediction \<Rightarrow> prediction \<Rightarrow> bool" where
  "above_prediction a b \<longleftrightarrow> by0 (pr_bbox a) < by0 (pr_bbox b)"

definition left_prediction :: "prediction \<Rightarrow> prediction \<Rightarrow> bool" where
  "left_prediction a b \<longleftrightarrow> bx0 (pr_bbox a) < bx0 (pr_bbox b)"

definition left_cell :: "table_cell \<Rightarrow> table_cell \<Rightarrow> bool" where
  "left_cell a b \<longleftrightarrow> cell_column_index a < cell_column_index b"

interpretation above_prediction: keyed_order above_prediction "\<lambda>p. by0 (pr_bbox p)"
  by unfold_locales (simp add: above_prediction_def)

interpretation left_prediction: keyed_order left_prediction "\<lambda>p. bx0 (pr_bbox p)"
  by unfold_locales (simp add: left_prediction_def)

interpretation left_cell: keyed_order left_cell cell_column_index
  by unfold_locales (simp add: left_cell_def)

text \<open>The objects inside the table, clipped to it, by label.\<close>

definition clipped_objects :: "table \<Rightarrow> prediction list \<Rightarrow> prediction list" where
  "clipped_objects tab structure =
     filter (\<lambda>p. \<not> bboxArea (pr_bbox p) \<le> 0) (map (\<lambda>p. p\<lparr>pr_bbox := intersectBBox (pr_bbox p) (tb_bbox tab)\<rparr>) structure)"

definition labelled :: "string \<Rightarrow> prediction list \<Rightarrow> prediction list" where
  "labelled label objects = filter (\<lambda>p. pr_label p = label) objects"

definition grid_rows :: "table \<Rightarrow> prediction list \<Rightarrow> prediction list" where
  "grid_rows tab structure = sort_by above_prediction (labelled ''table row'' (clipped_objects tab structure))"

definition grid_columns :: "table \<Rightarrow> prediction list \<Rightarrow> prediction list" where
  "grid_columns tab structure = sort_by left_prediction (labelled ''table column'' (clipped_objects tab structure))"

definition grid_headers :: "table \<Rightarrow> prediction list \<Rightarrow> prediction list" where
  "grid_headers tab structure = labelled ''table column header'' (clipped_objects tab structure)"

definition grid_merged :: "table \<Rightarrow> prediction list \<Rightarrow> prediction list" where
  "grid_merged tab structure =
     filter (\<lambda>p. pr_label p = ''table spanning cell'' \<or> pr_label p = ''table projected row header'') (clipped_objects tab structure)"

definition header_row :: "prediction list \<Rightarrow> prediction list \<Rightarrow> nat \<Rightarrow> table_row" where
  "header_row headers rows i = default_row\<lparr>row_index := int i, row_bbox := pr_bbox (rows ! i),
     row_confidence := pr_confidence (rows ! i), row_is_header := overlapsHeader (pr_bbox (rows ! i)) headers\<rparr>"

text \<open>A merged cell is put into its first row, and the positions it covers are marked.\<close>

definition merged_cell :: "prediction list \<Rightarrow> prediction \<Rightarrow> nat list \<Rightarrow> nat list \<Rightarrow> table_cell" where
  "merged_cell headers p covered_rows covered_columns =
     default_cell\<lparr>cell_row_index := int (hd covered_rows), cell_column_index := int (hd covered_columns),
       cell_row_span := int (length covered_rows), cell_column_span := int (length covered_columns),
       cell_is_header := (pr_label p = ''table projected row header'' \<or> overlapsHeader (pr_bbox p) headers),
       cell_bbox := pr_bbox p, cell_confidence := pr_confidence p\<rparr>"

definition mark_covered :: "bool list list \<Rightarrow> nat list \<Rightarrow> nat list \<Rightarrow> bool list list" where
  "mark_covered covered rows columns =
     foldl (\<lambda>covered r. foldl (\<lambda>covered c. upd_at covered r (\<lambda>line. line[c := True])) covered columns) covered rows"

definition add_cell :: "nat \<Rightarrow> table_cell \<Rightarrow> table_row list \<Rightarrow> table_row list" where
  "add_cell r cell rows = upd_at rows r (\<lambda>row. row\<lparr>row_cells := row_cells row @ [cell]\<rparr>)"

definition place_merged ::
  "prediction list \<Rightarrow> prediction list \<Rightarrow> prediction list \<Rightarrow> table_row list \<times> bool list list \<Rightarrow> prediction \<Rightarrow>
   table_row list \<times> bool list list" where
  "place_merged rows columns headers acc p =
     (let covered_rows = rowsCoveredBy (pr_bbox p) rows; covered_columns = columnsCoveredBy (pr_bbox p) columns in
      if covered_rows = [] \<or> covered_columns = [] then acc
      else (add_cell (hd covered_rows) (merged_cell headers p covered_rows covered_columns) (fst acc),
            mark_covered (snd acc) covered_rows covered_columns))"

definition plain_cell :: "prediction list \<Rightarrow> prediction list \<Rightarrow> bool \<Rightarrow> nat \<Rightarrow> nat \<Rightarrow> table_cell" where
  "plain_cell rows columns is_header r c =
     default_cell\<lparr>cell_row_index := int r, cell_column_index := int c, cell_is_header := is_header,
       cell_bbox := intersectBBox (pr_bbox (rows ! r)) (pr_bbox (columns ! c)),
       cell_confidence := min (pr_confidence (rows ! r)) (pr_confidence (columns ! c))\<rparr>"

text \<open>A row's remaining cells; then its cells are sorted by column.\<close>

definition fill_row :: "prediction list \<Rightarrow> prediction list \<Rightarrow> bool list list \<Rightarrow> nat \<Rightarrow> table_row \<Rightarrow> table_row" where
  "fill_row rows columns covered r row =
     row\<lparr>row_cells := sort_by left_cell (row_cells row @
       map (plain_cell rows columns (row_is_header row) r) (filter (\<lambda>c. \<not> covered ! r ! c) [0..<length columns]))\<rparr>"

definition buildGrid :: "table \<Rightarrow> prediction list \<Rightarrow> table" where
  "buildGrid tab structure =
     (let rows = grid_rows tab structure; columns = grid_columns tab structure; headers = grid_headers tab structure in
      if rows = [] \<or> columns = [] then tab
      else
        let start = (map (header_row headers rows) [0..<length rows], replicate (length rows) (replicate (length columns) False));
            (table_rows, covered) = foldl (place_merged rows columns headers) start (grid_merged tab structure)
        in tab\<lparr>tb_columns := tb_columns tab @ map (\<lambda>c. \<lparr>col_index = int c, col_bbox = pr_bbox (columns ! c),
                 col_confidence = pr_confidence (columns ! c)\<rparr>) [0..<length columns],
               tb_rows := map (\<lambda>r. fill_row rows columns covered r (table_rows ! r)) [0..<length rows]\<rparr>)"

subsection \<open>Recognition\<close>

text \<open>A rectangle: left, top, width and height.\<close>

definition expandedCrop :: "bbox \<Rightarrow> int \<Rightarrow> int \<Rightarrow> int \<Rightarrow> int \<times> int \<times> int \<times> int" where
  "expandedCrop box width height padding =
     (let x0 = max 0 (\<lfloor>bx0 box\<rfloor> - padding); y0 = max 0 (\<lfloor>by0 box\<rfloor> - padding);
          x1 = min width (\<lceil>bx1 box\<rceil> + padding); y1 = min height (\<lceil>by1 box\<rceil> + padding)
      in (x0, y0, max 0 (x1 - x0), max 0 (y1 - y0)))"

record table_models =
  tm_detection :: session
  tm_structure :: session

definition table_load :: "vision \<Rightarrow> table_transformer_config \<Rightarrow> table_models option" where
  "table_load vi config =
     (if \<not> fileExists vi (tt_detection_model_path config) \<or> \<not> fileExists vi (tt_structure_model_path config) \<or>
         tt_detection_confidence_threshold config \<le> 0 \<or> tt_detection_confidence_threshold config \<ge> 1 \<or>
         tt_structure_confidence_threshold config \<le> 0 \<or> tt_structure_confidence_threshold config \<ge> 1 \<or>
         tt_crop_padding config < 0 then None
      else caught (try_with (vi_load vi (tt_detection_model_path config)) (\<lambda>detection.
        try_with (vi_load vi (tt_structure_model_path config)) (\<lambda>structure.
          Inr (if \<not> validateSession detection (int (length kDetectionLabels)) \<or>
                  \<not> validateSession structure (int (length kStructureLabels)) then None
               else Some \<lparr>tm_detection = detection, tm_structure = structure\<rparr>)))))"

text \<open>The regions to look into: the tables found, or else the layout's.\<close>

definition table_regions :: "picture \<Rightarrow> page_layout \<Rightarrow> prediction list \<Rightarrow> prediction list" where
  "table_regions image_value layout found =
     (let clipped = map (\<lambda>p. p\<lparr>pr_bbox := clip_to (im_cols image_value) (im_rows image_value) (pr_bbox p)\<rparr>) found;
          regions = filter (\<lambda>p. \<not> (pr_label p \<noteq> ''table'' \<or> bboxArea (pr_bbox p) \<le> 0)) clipped;
          fallback = map (\<lambda>b. \<lparr>pr_label = ''layout table fallback'',
                pr_bbox = clip_to (im_cols image_value) (im_rows image_value) (lb_bbox b), pr_confidence = lb_confidence b\<rparr>)
              (filter (\<lambda>b. lb_type b = LTable \<and> bboxArea (lb_bbox b) > 0) (pl_blocks layout))
      in suppressDuplicateRegions (if regions = [] then fallback else regions))"

definition structure_objects :: "prediction \<Rightarrow> prediction list \<Rightarrow> table_structure_object list" where
  "structure_objects region structure =
     \<lparr>obj_label = ''table'', obj_bbox = pr_bbox region, obj_confidence = pr_confidence region\<rparr> #
     map (\<lambda>p. \<lparr>obj_label = pr_label p, obj_bbox = pr_bbox p, obj_confidence = pr_confidence p\<rparr>)
       (filter (\<lambda>p. pr_label p \<noteq> ''table'') structure)"

definition region_table :: "page_artifact \<Rightarrow> page_layout \<Rightarrow> table_token list \<Rightarrow> nat \<Rightarrow> prediction \<Rightarrow> prediction list \<Rightarrow> table" where
  "region_table page layout tokens index region structure =
     (let start = default_table\<lparr>tb_id := tableId (pa_page_number page) index,
            tb_layout_block_id := closestLayoutBlockId layout (pr_bbox region), tb_page_index := pa_page_index page,
            tb_page_number := pa_page_number page, tb_bbox := pr_bbox region, tb_confidence := pr_confidence region,
            tb_source_label := pr_label region, tb_structure_objects := structure_objects region structure\<rparr>
      in fst (assignTableText (buildGrid start structure) tokens))"

text \<open>The loop over the regions, with the tables found so far; \<open>None\<close> where it returns \<open>false\<close>.\<close>

fun recognize_regions ::
  "vision \<Rightarrow> table_transformer_config \<Rightarrow> session \<Rightarrow> picture \<Rightarrow> page_artifact \<Rightarrow> page_layout \<Rightarrow> table_token list \<Rightarrow>
   prediction list \<Rightarrow> table list \<Rightarrow> library_error + table list option" where
  "recognize_regions vi config s image_value page layout tokens [] tables = Inr (Some tables)"
| "recognize_regions vi config s image_value page layout tokens (region # regions) tables =
     (case expandedCrop (pr_bbox region) (im_cols image_value) (im_rows image_value) (tt_crop_padding config) of (x, y, width, height) \<Rightarrow>
        if width \<le> 0 \<or> height \<le> 0
        then recognize_regions vi config s image_value page layout tokens regions tables
        else try_with (runDetr vi s (vi_crop vi (x, y, width, height) image_value) 800 1000 kStructureLabels
                 (tt_structure_confidence_threshold config) (real_of_int x) (real_of_int y)) (\<lambda>found.
            case found of
              None \<Rightarrow> Inr None
            | Some structure \<Rightarrow>
                recognize_regions vi config s image_value page layout tokens regions
                  (tables @ [region_table page layout tokens (length tables) region structure])))"

definition table_recognize ::
  "vision \<Rightarrow> table_transformer_config \<Rightarrow> table_models option \<Rightarrow> page_artifact \<Rightarrow> page_text \<Rightarrow> page_layout \<Rightarrow> table_result option" where
  "table_recognize vi config models page page_text layout =
     (case models of
        None \<Rightarrow> None
      | Some models \<Rightarrow>
          if \<not> fileExists vi (pa_output_path page) then None
          else
            let m = vi_read_image vi page in
            if im_empty m then None
            else map_option (\<lambda>tables. \<lparr>tr_tables = \<lparr>pg_page_index = pa_page_index page, pg_page_number = pa_page_number page,
                     pg_tables = tables\<rparr>, tr_diagnostics = []\<rparr>)
                (caught (try_with (runDetr vi (tm_detection models) m 800 800 kDetectionLabels
                    (tt_detection_confidence_threshold config) 0 0) (\<lambda>found.
                  case found of
                    None \<Rightarrow> Inr None
                  | Some found \<Rightarrow> recognize_regions vi config (tm_structure models) m page layout (collectTableTextTokens page_text)
                      (table_regions m layout found) []))))"

definition table_transformer_backend :: "vision \<Rightarrow> table_transformer_config \<Rightarrow> table_backend" where
  "table_transformer_backend vi config =
     (let models = table_load vi config
      in \<lparr>tbk_recognize = table_recognize vi config models, tbk_available = (models \<noteq> None),
          tbk_unavailable_reason = (if models \<noteq> None then []
            else ''failed to load Table Transformer models (detection='' @ tt_detection_model_path config @
                 '', structure='' @ tt_structure_model_path config @ '')'')\<rparr>)"

subsection \<open>Duplicate regions\<close>

text \<open>
  What greedy suppression promises: no kept region repeats an earlier, more confident one, nothing is made up, and whatever is left
  out repeats a kept region that is at least as confident.
\<close>

definition repeats :: "prediction \<Rightarrow> prediction \<Rightarrow> bool" where
  "repeats region candidate \<longleftrightarrow> intersectionOverUnion (pr_bbox region) (pr_bbox candidate) > 0.8"

definition suppression_of :: "prediction list \<Rightarrow> prediction list \<Rightarrow> bool" where
  "suppression_of regions kept \<longleftrightarrow>
     sorted_wrt (\<lambda>a b. pr_confidence b \<le> pr_confidence a \<and> \<not> repeats b a) kept \<and> set kept \<subseteq> set regions \<and>
     (\<forall>p\<in>set regions. p \<in> set kept \<or> (\<exists>k\<in>set kept. repeats p k \<and> pr_confidence p \<le> pr_confidence k))"

lemma keep_region_repeats: "keep_region kept p = (if list_ex (repeats p) kept then kept else kept @ [p])"
  by (simp add: keep_region_def repeats_def[abs_def])

lemma suppression_snoc:
  assumes "suppression_of done_regions kept" "\<And>q. q \<in> set done_regions \<Longrightarrow> pr_confidence p \<le> pr_confidence q"
  shows "suppression_of (done_regions @ [p]) (keep_region kept p)"
proof (cases "list_ex (repeats p) kept")
  case True
  then show ?thesis using assms by (auto simp: keep_region_repeats suppression_of_def list_ex_iff)
next
  case False
  have "sorted_wrt (\<lambda>a b. pr_confidence b \<le> pr_confidence a \<and> \<not> repeats b a) (kept @ [p])"
    using assms False by (auto simp: suppression_of_def sorted_wrt_append list_ex_iff)
  then show ?thesis using assms False unfolding keep_region_repeats suppression_of_def by auto
qed

lemma suppression_fold:
  "sorted_wrt (\<lambda>a b. pr_confidence b \<le> pr_confidence a) regions \<Longrightarrow> suppression_of regions (foldl keep_region [] regions)"
proof (induction regions rule: rev_induct)
  case (snoc p regions)
  then show ?case by (auto simp: sorted_wrt_append intro!: suppression_snoc)
qed (simp add: suppression_of_def)

lemma suppressDuplicateRegions_ok: "suppression_of regions (suppressDuplicateRegions regions)"
proof -
  have "sorted_wrt (\<lambda>a b. pr_confidence b \<le> pr_confidence a) (sort_by more_confident regions)"
    using more_confident.sort_by_sorted[of regions]
    by (rule sorted_wrt_mono_rel[rotated]) (simp add: more_confident.le_def more_confident_def)
  then show ?thesis unfolding suppressDuplicateRegions_def
    by (drule_tac suppression_fold) (simp add: suppression_of_def)
qed

subsection \<open>The cells of the grid\<close>

definition merged_from :: "prediction list \<Rightarrow> prediction list \<Rightarrow> nat \<Rightarrow> nat \<Rightarrow> prediction \<Rightarrow> bool" where
  "merged_from rows columns r c p \<longleftrightarrow> rowsCoveredBy (pr_bbox p) rows \<noteq> [] \<and> columnsCoveredBy (pr_bbox p) columns \<noteq> [] \<and>
     hd (rowsCoveredBy (pr_bbox p) rows) = r \<and> hd (columnsCoveredBy (pr_bbox p) columns) = c"

definition merged_over :: "prediction list \<Rightarrow> prediction list \<Rightarrow> nat \<Rightarrow> nat \<Rightarrow> prediction \<Rightarrow> bool" where
  "merged_over rows columns r c p \<longleftrightarrow>
     r \<in> set (rowsCoveredBy (pr_bbox p) rows) \<and> c \<in> set (columnsCoveredBy (pr_bbox p) columns)"

definition merged_of :: "prediction list \<Rightarrow> prediction list \<Rightarrow> prediction list \<Rightarrow> prediction \<Rightarrow> table_cell" where
  "merged_of rows columns headers p =
     merged_cell headers p (rowsCoveredBy (pr_bbox p) rows) (columnsCoveredBy (pr_bbox p) columns)"

lemma covered_less: "r \<in> set (rowsCoveredBy box rows) \<Longrightarrow> r < length rows" "c \<in> set (columnsCoveredBy box columns) \<Longrightarrow> c < length columns"
  by (simp_all add: rowsCoveredBy_def columnsCoveredBy_def)

text \<open>The marks: a matrix of \<open>m\<close> rows and \<open>n\<close> columns.\<close>

definition matrix :: "nat \<Rightarrow> nat \<Rightarrow> bool list list \<Rightarrow> bool" where
  "matrix m n covered \<longleftrightarrow> length covered = m \<and> (\<forall>i<m. length (covered ! i) = n)"

lemma mark_columns:
  "matrix m n covered \<Longrightarrow> r < m \<Longrightarrow> set columns \<subseteq> {..<n} \<Longrightarrow>
   matrix m n (foldl (\<lambda>covered c. upd_at covered r (\<lambda>line. line[c := True])) covered columns) \<and>
   (\<forall>i<m. \<forall>j<n. foldl (\<lambda>covered c. upd_at covered r (\<lambda>line. line[c := True])) covered columns ! i ! j \<longleftrightarrow>
      covered ! i ! j \<or> (i = r \<and> j \<in> set columns))"
proof (induction columns arbitrary: covered)
  case (Cons c columns)
  let ?covered = "upd_at covered r (\<lambda>line. line[c := True])"
  have "matrix m n ?covered" using Cons.prems by (auto simp: matrix_def nth_upd_at)
  moreover have "?covered ! i ! j \<longleftrightarrow> covered ! i ! j \<or> (i = r \<and> j = c)" if "i < m" "j < n" for i j
    using Cons.prems that by (auto simp: matrix_def nth_upd_at nth_list_update)
  ultimately show ?case using Cons.IH[of ?covered] Cons.prems by auto
qed simp

lemma mark_covered_at:
  "matrix m n covered \<Longrightarrow> set rows \<subseteq> {..<m} \<Longrightarrow> set columns \<subseteq> {..<n} \<Longrightarrow>
   matrix m n (mark_covered covered rows columns) \<and>
   (\<forall>i<m. \<forall>j<n. mark_covered covered rows columns ! i ! j \<longleftrightarrow> covered ! i ! j \<or> (i \<in> set rows \<and> j \<in> set columns))"
  unfolding mark_covered_def
proof (induction rows arbitrary: covered)
  case (Cons r rows)
  let ?covered = "foldl (\<lambda>covered c. upd_at covered r (\<lambda>line. line[c := True])) covered columns"
  have "matrix m n ?covered" and "\<forall>i<m. \<forall>j<n. ?covered ! i ! j \<longleftrightarrow> covered ! i ! j \<or> (i = r \<and> j \<in> set columns)"
    using mark_columns[of m n covered r columns] Cons.prems by auto
  then show ?case using Cons.IH[of ?covered] Cons.prems by auto
qed simp

text \<open>What the loop over the merged objects leaves: each row's own fields, its merged cells in order, and the marks.\<close>

definition placed ::
  "prediction list \<Rightarrow> prediction list \<Rightarrow> prediction list \<Rightarrow> prediction list \<Rightarrow> table_row list \<times> bool list list \<Rightarrow> bool" where
  "placed rows columns headers merged acc \<longleftrightarrow>
     length (fst acc) = length rows \<and> matrix (length rows) (length columns) (snd acc) \<and>
     (\<forall>r<length rows. fst acc ! r = (header_row headers rows r)\<lparr>row_cells := map (merged_of rows columns headers)
        (filter (\<lambda>p. rowsCoveredBy (pr_bbox p) rows \<noteq> [] \<and> columnsCoveredBy (pr_bbox p) columns \<noteq> [] \<and>
                     hd (rowsCoveredBy (pr_bbox p) rows) = r) merged)\<rparr>) \<and>
     (\<forall>r<length rows. \<forall>c<length columns. snd acc ! r ! c = list_ex (merged_over rows columns r c) merged)"

lemma placed_start:
  "placed rows columns headers [] (map (header_row headers rows) [0..<length rows], replicate (length rows) (replicate (length columns) False))"
  by (simp add: placed_def matrix_def header_row_def default_row_def)

lemma placed_step:
  assumes "placed rows columns headers merged acc"
  shows "placed rows columns headers (merged @ [p]) (place_merged rows columns headers acc p)"
proof (cases "rowsCoveredBy (pr_bbox p) rows = [] \<or> columnsCoveredBy (pr_bbox p) columns = []")
  case True
  then show ?thesis using assms by (auto simp: placed_def place_merged_def Let_def merged_over_def)
next
  case False
  let ?rs = "rowsCoveredBy (pr_bbox p) rows" and ?cs = "columnsCoveredBy (pr_bbox p) columns"
  have rs: "set ?rs \<subseteq> {..<length rows}" and cs: "set ?cs \<subseteq> {..<length columns}" using covered_less by auto
  have hd: "hd ?rs < length rows" using False rs hd_in_set[of ?rs] by (metis lessThan_iff subsetD)
  have marks: "matrix (length rows) (length columns) (mark_covered (snd acc) ?rs ?cs)"
    "\<forall>r<length rows. \<forall>c<length columns. mark_covered (snd acc) ?rs ?cs ! r ! c = list_ex (merged_over rows columns r c) (merged @ [p])"
    using mark_covered_at[of "length rows" "length columns" "snd acc" ?rs ?cs] rs cs assms
    by (auto simp: placed_def merged_over_def)
  show ?thesis using marks False assms hd unfolding placed_def
    by (auto simp: place_merged_def Let_def add_cell_def nth_upd_at merged_of_def)
qed

lemma placed_all: "placed rows columns headers merged (foldl (place_merged rows columns headers)
    (map (header_row headers rows) [0..<length rows], replicate (length rows) (replicate (length columns) False)) merged)"
  by (induction merged rule: rev_induct) (simp_all add: placed_start placed_step)

text \<open>The cells a position should have: the merged ones that start there, and its own unless a merged one lies over it.\<close>

definition cells_at :: "prediction list \<Rightarrow> prediction list \<Rightarrow> prediction list \<Rightarrow> prediction list \<Rightarrow> nat \<Rightarrow> nat \<Rightarrow> table_cell list" where
  "cells_at rows columns headers merged r c =
     map (merged_of rows columns headers) (filter (merged_from rows columns r c) merged) @
     (if list_ex (merged_over rows columns r c) merged then []
      else [plain_cell rows columns (overlapsHeader (pr_bbox (rows ! r)) headers) r c])"

lemma filter_single: "c < n \<Longrightarrow> filter (\<lambda>x. P x \<and> x = c) [0..<n] = (if P c then [c] else [])"
proof (induction n)
  case (Suc n)
  show ?case
  proof (cases "c = n")
    case True
    then have "filter (\<lambda>x. P x \<and> x = c) [0..<n] = []" by (simp add: filter_empty_conv)
    with True show ?thesis by simp
  qed (use Suc in simp)
qed simp

lemma fill_row_at:
  assumes "placed rows columns headers merged acc" "r < length rows" "c < length columns"
  shows "filter (\<lambda>x. cell_column_index x = int c) (row_cells (fill_row rows columns (snd acc) r (fst acc ! r))) =
    cells_at rows columns headers merged r c"
proof -
  have row: "fst acc ! r = (header_row headers rows r)\<lparr>row_cells := map (merged_of rows columns headers)
      (filter (\<lambda>p. rowsCoveredBy (pr_bbox p) rows \<noteq> [] \<and> columnsCoveredBy (pr_bbox p) columns \<noteq> [] \<and>
                   hd (rowsCoveredBy (pr_bbox p) rows) = r) merged)\<rparr>"
    and mark: "snd acc ! r ! c = list_ex (merged_over rows columns r c) merged"
    using assms by (simp_all add: placed_def)
  have col: "cell_column_index (merged_of rows columns headers p) = int (hd (columnsCoveredBy (pr_bbox p) columns))" for p
    by (simp add: merged_of_def merged_cell_def)
  have from_eq: "merged_from rows columns r c = (\<lambda>p. columnsCoveredBy (pr_bbox p) columns \<noteq> [] \<and> rowsCoveredBy (pr_bbox p) rows \<noteq> [] \<and>
      hd (columnsCoveredBy (pr_bbox p) columns) = c \<and> hd (rowsCoveredBy (pr_bbox p) rows) = r)"
    by (auto simp: merged_from_def)
  have one: "filter (\<lambda>x. x = c \<and> \<not> snd acc ! r ! x) [0..<length columns] = (if snd acc ! r ! c then [] else [c])"
    using filter_single[OF assms(3), of "\<lambda>x. \<not> snd acc ! r ! x"] by (simp add: conj_commute)
  show ?thesis unfolding fill_row_def cells_at_def
    by (simp add: left_cell.sort_by_stable row filter_map comp_def col plain_cell_def one mark header_row_def conj_ac from_eq)
qed

lemma buildGrid_rows:
  assumes "grid_rows tab structure \<noteq> []" "grid_columns tab structure \<noteq> []" "r < length (grid_rows tab structure)"
  obtains acc where "placed (grid_rows tab structure) (grid_columns tab structure) (grid_headers tab structure) (grid_merged tab structure) acc"
    "tb_rows (buildGrid tab structure) ! r = fill_row (grid_rows tab structure) (grid_columns tab structure) (snd acc) r (fst acc ! r)"
proof (rule that[OF placed_all])
  show "tb_rows (buildGrid tab structure) ! r = fill_row (grid_rows tab structure) (grid_columns tab structure)
      (snd (foldl (place_merged (grid_rows tab structure) (grid_columns tab structure) (grid_headers tab structure))
        (map (header_row (grid_headers tab structure) (grid_rows tab structure)) [0..<length (grid_rows tab structure)],
         replicate (length (grid_rows tab structure)) (replicate (length (grid_columns tab structure)) False)) (grid_merged tab structure))) r
      (fst (foldl (place_merged (grid_rows tab structure) (grid_columns tab structure) (grid_headers tab structure))
        (map (header_row (grid_headers tab structure) (grid_rows tab structure)) [0..<length (grid_rows tab structure)],
         replicate (length (grid_rows tab structure)) (replicate (length (grid_columns tab structure)) False)) (grid_merged tab structure)) ! r)"
    using assms by (simp add: buildGrid_def Let_def case_prod_unfold)
qed

lemma buildGrid_at:
  assumes "r < length (grid_rows tab structure)" "c < length (grid_columns tab structure)"
  shows "filter (\<lambda>x. cell_column_index x = int c) (row_cells (tb_rows (buildGrid tab structure) ! r)) =
    cells_at (grid_rows tab structure) (grid_columns tab structure) (grid_headers tab structure) (grid_merged tab structure) r c"
proof -
  have "grid_rows tab structure \<noteq> []" "grid_columns tab structure \<noteq> []" using assms by auto
  then obtain acc where "placed (grid_rows tab structure) (grid_columns tab structure) (grid_headers tab structure) (grid_merged tab structure) acc"
    and "tb_rows (buildGrid tab structure) ! r = fill_row (grid_rows tab structure) (grid_columns tab structure) (snd acc) r (fst acc ! r)"
    using assms(1) by (rule buildGrid_rows)
  then show ?thesis using fill_row_at assms by simp
qed

lemma buildGrid_sorted:
  assumes "grid_rows tab structure \<noteq> []" "grid_columns tab structure \<noteq> []" "r < length (grid_rows tab structure)"
  shows "sorted (map cell_column_index (row_cells (tb_rows (buildGrid tab structure) ! r)))"
proof -
  obtain acc where "tb_rows (buildGrid tab structure) ! r =
      fill_row (grid_rows tab structure) (grid_columns tab structure) (snd acc) r (fst acc ! r)"
    using assms by (rule buildGrid_rows)
  then show ?thesis by (simp add: fill_row_def left_cell.sort_by_key_sorted)
qed

subsection \<open>The properties\<close>

text \<open>
  Of the regions found, those are kept that do not overlap a kept, more confident one by more than 0.8 (of the union): the result is
  in order of confidence, repeats nothing, and whatever was left out repeats a kept region at least as confident.
\<close>

lemma suppression_is_greedy: "suppression_of regions (suppressDuplicateRegions regions)"
  by (rule suppressDuplicateRegions_ok)

text \<open>
  C34: in the grid that is built, each position has exactly the cells it should: the merged cells that start there, in their order, and
  its own plain cell precisely when no merged cell lies over it.
\<close>

theorem grid_cells_by_position:
  "map (\<lambda>r. map (\<lambda>c. filter (\<lambda>x. cell_column_index x = int c) (row_cells (tb_rows (buildGrid tab structure) ! r)))
       [0..<length (grid_columns tab structure)]) [0..<length (grid_rows tab structure)] =
   map (\<lambda>r. map (\<lambda>c. cells_at (grid_rows tab structure) (grid_columns tab structure) (grid_headers tab structure)
         (grid_merged tab structure) r c) [0..<length (grid_columns tab structure)]) [0..<length (grid_rows tab structure)]"
  by (simp add: buildGrid_at)

text \<open>
  Rows are in the order of their top edges, and a merged cell takes those whose middle it holds: where rows overlap these need not be
  consecutive, although the cell's span counts them from the first.
\<close>

lemma covered_rows_with_gap:
  "rowsCoveredBy \<lparr>bx0 = 0, by0 = 40, bx1 = 10, by1 = 80\<rparr>
     (map (\<lambda>(y, y'). \<lparr>pr_label = ''table row'', pr_bbox = \<lparr>bx0 = 0, by0 = y, bx1 = 10, by1 = y'\<rparr>, pr_confidence = 1\<rparr>)
       [(0, 100), (10, 20), (30, 110)]) = [0, 2]"
  by (simp add: rowsCoveredBy_def Let_def upt_rec numeral_eq_Suc)

end
