(* ===== verification/Ocr_Detection.thy ===== *)
theory Ocr_Detection
  imports Layout_Models
begin

text \<open>
  The first half of the Paddle OCR backend, \<open>cpp/ocr/paddle_ocr_onnx_backend.cpp\<close>: from a page image to the boxes
  of its text lines, and the cropped image of a box. A \<open>cv::Point2f\<close> is a pair, an array of four points a list;
  what the code counts for its debug output is left out.
\<close>

subsection \<open>Geometry\<close>

type_synonym point = "double \<times> double"

record rotated_rect =
  rr_width :: double
  rr_height :: double
  rr_center :: point
  rr_angle :: double

record probability_map =
  pm_width :: int
  pm_height :: int
  pm_at :: "nat \<Rightarrow> double"

text \<open>
  OpenCV's part in finding boxes: \<open>ov_contours\<close> is \<open>threshold\<close>, the conversion to bytes and \<open>findContours\<close>;
  \<open>ov_bounds\<close> is \<open>boundingRect\<close> cut to the map, \<open>ov_mask_mean\<close> is \<open>fillPoly\<close> and the \<open>mean\<close> of a part of the map under
  that mask; \<open>ov_warp\<close> is \<open>getPerspectiveTransform\<close> and \<open>warpPerspective\<close>.
\<close>

record ocr_vision = vision +
  ov_contours :: "double \<Rightarrow> probability_map \<Rightarrow> library_error + (int \<times> int) list list"
  ov_min_area_rect :: "(int \<times> int) list \<Rightarrow> library_error + rotated_rect"
  ov_rect_points :: "rotated_rect \<Rightarrow> point list"
  ov_bounds :: "probability_map \<Rightarrow> point list \<Rightarrow> int \<times> int \<times> int \<times> int"
  ov_mask_mean :: "probability_map \<Rightarrow> int \<times> int \<times> int \<times> int \<Rightarrow> (int \<times> int) list \<Rightarrow> library_error + double"
  ov_warp :: "point list \<Rightarrow> point list \<Rightarrow> int \<Rightarrow> int \<Rightarrow> picture \<Rightarrow> library_error + picture"

text \<open>\<open>std::min_element\<close> and \<open>std::max_element\<close> of four points: the first of the least and of the largest.\<close>

definition first_least :: "(point \<Rightarrow> double) \<Rightarrow> point list \<Rightarrow> point" where
  "first_least key points = the (pick_least (\<lambda>a b. key a < key b) points)"

definition orderedPoints :: "point list \<Rightarrow> point list" where
  "orderedPoints points =
     [first_least (\<lambda>(x, y). x + y) points, first_least (\<lambda>(x, y). y - x) points,
      first_least (\<lambda>(x, y). - (x + y)) points, first_least (\<lambda>(x, y). - (y - x)) points]"

definition grow_bbox :: "bbox \<Rightarrow> point \<Rightarrow> bbox" where
  "grow_bbox b p = \<lparr>bx0 = min (bx0 b) (fst p), by0 = min (by0 b) (snd p), bx1 = max (bx1 b) (fst p), by1 = max (by1 b) (snd p)\<rparr>"

definition bboxFromPoints :: "point list \<Rightarrow> int \<Rightarrow> int \<Rightarrow> bbox" where
  "bboxFromPoints points width height =
     clip_to width height (foldl grow_bbox \<lparr>bx0 = dbl_max, by0 = dbl_max, bx1 = 0, by1 = 0\<rparr> points)"

definition distance :: "point \<Rightarrow> point \<Rightarrow> double" where
  "distance lhs rhs = (let dx = fst lhs - fst rhs; dy = snd lhs - snd rhs in sqrt (dx * dx + dy * dy))"

text \<open>The sides of a quadrangle: the longer of two opposite ones.\<close>

definition box_width :: "point list \<Rightarrow> double" where
  "box_width points = max (distance (points ! 0) (points ! 1)) (distance (points ! 2) (points ! 3))"

definition box_height :: "point list \<Rightarrow> double" where
  "box_height points = max (distance (points ! 0) (points ! 3)) (distance (points ! 1) (points ! 2))"

definition boxScoreFast :: "'b ocr_vision_scheme \<Rightarrow> probability_map \<Rightarrow> point list \<Rightarrow> library_error + double" where
  "boxScoreFast ov probabilities points =
     (case ov_bounds ov probabilities points of (x, y, width, height) \<Rightarrow>
        if width \<le> 0 \<or> height \<le> 0 then Inr 0
        else ov_mask_mean ov probabilities (x, y, width, height)
               (map (\<lambda>(px, py). (round_away px - x, round_away py - y)) points))"

definition unclipRectangle :: "rotated_rect \<Rightarrow> double \<Rightarrow> rotated_rect" where
  "unclipRectangle rectangle unclip_ratio =
     (let width = max 0 (rr_width rectangle); height = max 0 (rr_height rectangle); perimeter = 2 * (width + height)
      in if perimeter \<le> 0 then rectangle
         else
           let offset = width * height * unclip_ratio / perimeter
           in rectangle\<lparr>rr_width := width + 2 * offset, rr_height := height + 2 * offset\<rparr>)"

subsection \<open>The detector's input\<close>

definition roundToMultipleOf32 :: "int \<Rightarrow> int" where
  "roundToMultipleOf32 v = max 32 (round_away (real_of_int v / 32) * 32)"

text \<open>The conversion both of the backend's inputs make: resize, perhaps swap the channels, scale.\<close>

definition scaled_image :: "'b vision_scheme \<Rightarrow> bool \<Rightarrow> double \<Rightarrow> int \<Rightarrow> int \<Rightarrow> picture \<Rightarrow> library_error + picture" where
  "scaled_image vi convert_bgr_to_rgb scale width height m =
     try_with (vi_resize vi InterLinear width height m) (\<lambda>resized.
     try_with (if convert_bgr_to_rgb then vi_bgr_to_rgb vi resized else Inr resized) (\<lambda>resized.
       vi_to_float vi scale resized))"

definition detection_side :: "paddle_ocr_config \<Rightarrow> picture \<Rightarrow> int \<Rightarrow> int" where
  "detection_side config bgr side =
     (let max_side = max (im_cols bgr) (im_rows bgr);
          ratio = (if max_side > po_detection_limit_side config
                   then real_of_int (po_detection_limit_side config) / real_of_int max_side else 1)
      in roundToMultipleOf32 (round_away (real_of_int side * ratio)))"

definition makeDetectionInput :: "'b vision_scheme \<Rightarrow> paddle_ocr_config \<Rightarrow> picture \<Rightarrow> library_error + input_tensor" where
  "makeDetectionInput vi config bgr =
     (let profile = po_profile config; width = detection_side config bgr (im_cols bgr); height = detection_side config bgr (im_rows bgr)
      in try_with (scaled_image vi (pp_convert_bgr_to_rgb profile) (pp_detection_scale profile) width height bgr) (\<lambda>resized.
           Inr \<lparr>it_values = write_pixels (normal_pixel (pp_detection_mean profile) (pp_detection_std profile) resized) 0
                  (nat height) (nat width) (nat width) (replicate (3 * nat width * nat height) 0),
                it_shape = [1, 3, height, width]\<rparr>))"

subsection \<open>Boxes\<close>

record detection_box =
  dx_points :: "point list"
  dx_bbox :: bbox
  dx_score :: double

text \<open>A point of the probability map, in the image.\<close>

definition image_point :: "probability_map \<Rightarrow> int \<Rightarrow> int \<Rightarrow> point \<Rightarrow> point" where
  "image_point probabilities width height p =
     (clamp (real_of_int (round_away (fst p / real_of_int (pm_width probabilities) * real_of_int width))) 0 (real_of_int width),
      clamp (real_of_int (round_away (snd p / real_of_int (pm_height probabilities) * real_of_int height))) 0 (real_of_int height))"

text \<open>The box of a contour, unless the loop goes on to the next contour.\<close>

definition contour_box ::
  "'b ocr_vision_scheme \<Rightarrow> paddle_ocr_config \<Rightarrow> probability_map \<Rightarrow> int \<Rightarrow> int \<Rightarrow> (int \<times> int) list \<Rightarrow>
   library_error + detection_box option" where
  "contour_box ov config probabilities width height contour =
     (if length contour < 4 then Inr None
      else try_with (ov_min_area_rect ov contour) (\<lambda>rectangle.
        if min (rr_width rectangle) (rr_height rectangle) < 3 then Inr None
        else try_with (boxScoreFast ov probabilities (orderedPoints (ov_rect_points ov rectangle))) (\<lambda>score.
          if score < po_box_threshold config then Inr None
          else
            let rectangle = unclipRectangle rectangle (po_unclip_ratio config) in
            if min (rr_width rectangle) (rr_height rectangle) < 5 then Inr None
            else
              let points = map (image_point probabilities width height) (orderedPoints (ov_rect_points ov rectangle)) in
              if box_width points < 1 \<or> box_height points < 1 then Inr None
              else Inr (Some \<lparr>dx_points = points, dx_bbox = bboxFromPoints points width height, dx_score = score\<rparr>))))"

definition reads_before :: "detection_box \<Rightarrow> detection_box \<Rightarrow> bool" where
  "reads_before a b = (if by0 (dx_bbox a) \<noteq> by0 (dx_bbox b) then by0 (dx_bbox a) < by0 (dx_bbox b)
                       else bx0 (dx_bbox a) < bx0 (dx_bbox b))"

interpretation reads_before: keyed_order reads_before "\<lambda>b. (by0 (dx_bbox b), bx0 (dx_bbox b))"
  by unfold_locales (auto simp: reads_before_def less_prod_def less_le)

text \<open>
  The second loop lets a box move up past those that start further right on about the same line. The boxes before it
  are kept in reverse, so that its inner loop is an insertion.
\<close>

definition swaps_with :: "detection_box \<Rightarrow> detection_box \<Rightarrow> bool" where
  "swaps_with previous current \<longleftrightarrow>
     \<bar>by0 (dx_bbox current) - by0 (dx_bbox previous)\<bar> < 10 \<and> bx0 (dx_bbox current) < bx0 (dx_bbox previous)"

definition settle_boxes :: "detection_box list \<Rightarrow> detection_box list" where
  "settle_boxes boxes = rev (foldl (\<lambda>before b. insort_by swaps_with b before) [] boxes)"

definition extractBoxes ::
  "'b ocr_vision_scheme \<Rightarrow> paddle_ocr_config \<Rightarrow> tensor \<Rightarrow> int \<Rightarrow> int \<Rightarrow> library_error + detection_box list" where
  "extractBoxes ov config detection_output width height =
     (let shape = tn_shape detection_output in
      case tn_floats detection_output of
        None \<Rightarrow> Inr []
      | Some values \<Rightarrow>
          if length shape < 2 then Inr []
          else
            let probability_width = last shape; probability_height = shape ! (length shape - 2) in
            if probability_width \<le> 0 \<or> probability_height \<le> 0 then Inr []
            else
              let probabilities = \<lparr>pm_width = probability_width, pm_height = probability_height, pm_at = values\<rparr>
              in try_with (ov_contours ov (po_detection_threshold config) probabilities) (\<lambda>contours.
                 try_with (try_map (contour_box ov config probabilities width height)
                     (take (unat (po_detection_max_candidates config)) contours)) (\<lambda>boxes.
                   Inr (settle_boxes (sort_by reads_before (List.map_filter (\<lambda>b. b) boxes))))))"

text \<open>\<open>None\<close> where it returns \<open>false\<close>.\<close>

definition detectBoxes ::
  "'b ocr_vision_scheme \<Rightarrow> paddle_ocr_config \<Rightarrow> session \<Rightarrow> picture \<Rightarrow> library_error + detection_box list option" where
  "detectBoxes ov config s m =
     try_with (makeDetectionInput ov config m) (\<lambda>i.
     try_with (se_run s [(hd (input_names s), i)] (output_names s)) (\<lambda>outputs.
       if outputs = [] then Inr None
       else try_with (extractBoxes ov config (hd outputs) (im_cols m) (im_rows m)) (\<lambda>boxes. Inr (Some boxes))))"

subsection \<open>Crops\<close>

definition empty_picture :: picture where
  "empty_picture = \<lparr>im_cols = 0, im_rows = 0, im_pixel = (\<lambda>y x c. 0)\<rparr>"

text \<open>The crop of a box, and the degrees it was turned by.\<close>

definition cropTextImage :: "'b ocr_vision_scheme \<Rightarrow> picture \<Rightarrow> detection_box \<Rightarrow> library_error + picture \<times> int" where
  "cropTextImage ov m box =
     (let points = orderedPoints (dx_points box);
          crop_width = round_away (box_width points); crop_height = round_away (box_height points)
      in if crop_width \<le> 0 \<or> crop_height \<le> 0 then Inr (empty_picture, 0)
         else try_with (ov_warp ov points
             [(0, 0), (real_of_int (crop_width - 1), 0), (real_of_int (crop_width - 1), real_of_int (crop_height - 1)),
              (0, real_of_int (crop_height - 1))] crop_width crop_height m) (\<lambda>crop.
           if im_rows crop > 0 \<and> im_cols crop > 0 \<and> real_of_int (im_rows crop) / real_of_int (im_cols crop) \<ge> 1.5
           then try_with (vi_rotate ov Rotate90Clockwise crop) (\<lambda>turned. Inr (turned, 90))
           else Inr (crop, 0)))"

definition cropAxisAligned :: "'b vision_scheme \<Rightarrow> picture \<Rightarrow> bbox \<Rightarrow> picture" where
  "cropAxisAligned vi m box =
     (let x0 = clamp \<lfloor>bx0 box\<rfloor> 0 (im_cols m); y0 = clamp \<lfloor>by0 box\<rfloor> 0 (im_rows m);
          x1 = clamp \<lceil>bx1 box\<rceil> 0 (im_cols m); y1 = clamp \<lceil>by1 box\<rceil> 0 (im_rows m)
      in if x1 \<le> x0 \<or> y1 \<le> y0 then empty_picture else vi_crop vi (x0, y0, x1 - x0, y1 - y0) m)"

subsection \<open>What the boxes promise\<close>

lemma orderedPoints_set: "points \<noteq> [] \<Longrightarrow> set (orderedPoints points) \<subseteq> set points"
proof -
  assume "points \<noteq> []"
  then have "first_least key points \<in> set points" for key
    using pick_least_mem[of _ points] by (cases "pick_least (\<lambda>a b. key a < key b) points") (auto simp: first_least_def)
  then show ?thesis by (auto simp: orderedPoints_def)
qed

text \<open>A detected box: inside the image, with a score from the threshold up, the bounding box of its points.\<close>

definition good_box :: "paddle_ocr_config \<Rightarrow> int \<Rightarrow> int \<Rightarrow> detection_box \<Rightarrow> bool" where
  "good_box config width height box \<longleftrightarrow> in_image width height (dx_bbox box) \<and> po_box_threshold config \<le> dx_score box \<and>
     dx_bbox box = bboxFromPoints (dx_points box) width height \<and> 1 \<le> box_width (dx_points box) \<and> 1 \<le> box_height (dx_points box)"

lemma contour_box_good:
  "contour_box ov config probabilities w h contour = Inr (Some b) \<Longrightarrow> 0 \<le> w \<Longrightarrow> 0 \<le> h \<Longrightarrow> good_box config w h b"
  by (auto simp: contour_box_def try_with_Inr Let_def good_box_def bboxFromPoints_def clip_to_in_image split: if_splits)

lemma mset_settle_boxes [simp]: "mset (settle_boxes boxes) = mset boxes"
proof -
  have "mset (foldl (\<lambda>before b. insort_by swaps_with b before) acc boxes) = mset acc + mset boxes" for acc
    by (induction boxes arbitrary: acc) auto
  then show ?thesis by (simp add: settle_boxes_def)
qed

lemma set_settle_boxes [simp]: "set (settle_boxes boxes) = set boxes"
  by (metis mset_settle_boxes set_mset_mset)

lemma try_map_mem: "try_map f xs = Inr ys \<Longrightarrow> y \<in> set ys \<Longrightarrow> \<exists>x\<in>set xs. f x = Inr y"
  by (auto dest!: try_map_Inr simp: list_all2_conv_all_nth in_set_conv_nth) (metis in_set_conv_nth)

lemma length_try_map: "try_map f xs = Inr ys \<Longrightarrow> length ys = length xs"
  by (auto dest!: try_map_Inr list_all2_lengthD)

lemma length_map_filter_le: "length (List.map_filter f xs) \<le> length xs"
  by (simp add: List.map_filter_def)

lemma extractBoxes_good:
  assumes "extractBoxes ov config out w h = Inr boxes" "0 \<le> w" "0 \<le> h"
  shows "list_all (good_box config w h) boxes" "length boxes \<le> unat (po_detection_max_candidates config)"
proof -
  have "boxes = [] \<or> (\<exists>probabilities contours found.
      try_map (contour_box ov config probabilities w h) (take (unat (po_detection_max_candidates config)) contours) = Inr found \<and>
      boxes = settle_boxes (sort_by reads_before (List.map_filter (\<lambda>b. b) found)))"
    using assms(1) by (fastforce simp: extractBoxes_def Let_def try_with_Inr split: option.splits if_splits)
  then show "list_all (good_box config w h) boxes" "length boxes \<le> unat (po_detection_max_candidates config)"
  proof (atomize (full), elim disjE exE conjE)
    fix probabilities contours found
    assume found: "try_map (contour_box ov config probabilities w h) (take (unat (po_detection_max_candidates config)) contours) = Inr found"
      and boxes: "boxes = settle_boxes (sort_by reads_before (List.map_filter (\<lambda>b. b) found))"
    have "good_box config w h b" if "Some b \<in> set found" for b
      using try_map_mem[OF found that] contour_box_good assms(2,3) by blast
    then have "list_all (good_box config w h) boxes" by (auto simp: boxes list_all_iff List.map_filter_def)
    moreover have "length boxes \<le> length found"
      using length_map_filter_le[of "\<lambda>b. b" found] unfolding boxes
      by (metis length_sort_by mset_settle_boxes size_mset)
    ultimately show "list_all (good_box config w h) boxes \<and> length boxes \<le> unat (po_detection_max_candidates config)"
      using length_try_map[OF found] by simp
  qed simp
qed

lemma detectBoxes_good:
  assumes "detectBoxes ov config s m = Inr (Some boxes)" "\<not> im_empty m"
  shows "list_all (good_box config (im_cols m) (im_rows m)) boxes" "length boxes \<le> unat (po_detection_max_candidates config)"
proof -
  obtain out where "extractBoxes ov config out (im_cols m) (im_rows m) = Inr boxes"
    using assms(1) by (auto simp: detectBoxes_def try_with_Inr split: if_splits)
  then show "list_all (good_box config (im_cols m) (im_rows m)) boxes" "length boxes \<le> unat (po_detection_max_candidates config)"
    using extractBoxes_good[of ov config out] assms(2) by (auto simp: im_empty_def)
qed

end
