(* ===== verification/Paddle_Ocr.thy ===== *)
theory Paddle_Ocr
  imports Ocr_Detection Tesseract
begin

text \<open>
  The second half of the Paddle OCR backend, \<open>cpp/ocr/paddle_ocr_onnx_backend.cpp\<close>: crops are recognized in batches,
  the greedy decoding of the recognizer's answer, the probes for a page that lies on its side or upside down,
  and the backend's three operations. \<open>getlines\<close> and \<open>strip_return\<close> are those of the theory \<open>Tesseract\<close>.
\<close>

subsection \<open>Decoding\<close>

record recognition_result =
  rc_text :: string
  rc_confidence :: double

definition no_recognition :: recognition_result where
  "no_recognition = \<lparr>rc_text = [], rc_confidence = 0\<rparr>"

definition looksLikeProbabilityDistribution :: "(nat \<Rightarrow> double) \<Rightarrow> nat \<Rightarrow> bool" where
  "looksLikeProbabilityDistribution values class_count =
     (if list_ex (\<lambda>i. values i < - (1 / 10 ^ 6) \<or> values i > 1 + 1 / 10 ^ 6) [0..<class_count] then False
      else let total_weight = (\<Sum>i\<leftarrow>[0..<class_count]. values i) in total_weight > 0.90 \<and> total_weight < 1.10)"

definition classProbability :: "(nat \<Rightarrow> double) \<Rightarrow> nat \<Rightarrow> nat \<Rightarrow> double" where
  "classProbability values class_count index =
     (if looksLikeProbabilityDistribution values class_count then values index
      else
        let max_value = values (max_index values class_count);
            total_weight = (\<Sum>i\<leftarrow>[0..<class_count]. exp (values i - max_value))
        in if total_weight \<le> 0 then 0 else exp (values index - max_value) / total_weight)"

text \<open>Class 0 is the blank; the class after the dictionary's last is a space.\<close>

definition labelForIndex :: "nat \<Rightarrow> string list \<Rightarrow> string" where
  "labelForIndex index dictionary =
     (if index = 0 then []
      else if index - 1 < length dictionary then dictionary ! (index - 1)
      else if index - 1 = length dictionary then '' '' else [])"

record decode_state =
  dc_text :: string
  dc_previous_index :: "nat option"
  dc_confidence_sum :: double
  dc_emitted_count :: nat

definition decode_step ::
  "(nat \<Rightarrow> double) \<Rightarrow> nat \<Rightarrow> string list \<Rightarrow> decode_state \<Rightarrow> nat \<Rightarrow> decode_state" where
  "decode_step logits class_count dictionary st time_index =
     (let step_logits = (\<lambda>i. logits (time_index * class_count + i)); best_index = max_index step_logits class_count in
      if best_index = 0 \<or> dc_previous_index st = Some best_index then st\<lparr>dc_previous_index := Some best_index\<rparr>
      else
        let label = labelForIndex best_index dictionary;
            st = (if label \<noteq> []
                  then st\<lparr>dc_text := dc_text st @ label,
                          dc_confidence_sum := dc_confidence_sum st + classProbability step_logits class_count best_index,
                          dc_emitted_count := dc_emitted_count st + 1\<rparr>
                  else st)
        in st\<lparr>dc_previous_index := Some best_index\<rparr>)"

definition decode_start :: decode_state where
  "decode_start = \<lparr>dc_text = [], dc_previous_index = None, dc_confidence_sum = 0, dc_emitted_count = 0\<rparr>"

definition decodeRecognition :: "tensor \<Rightarrow> nat \<Rightarrow> string list \<Rightarrow> double \<Rightarrow> recognition_result" where
  "decodeRecognition recognition_output batch_index dictionary threshold =
     (let shape = tn_shape recognition_output in
      case tn_floats recognition_output of
        None \<Rightarrow> no_recognition
      | Some logits \<Rightarrow>
          if length shape < 2 then no_recognition
          else
            let class_count = last shape; time_steps = shape ! (length shape - 2);
                batch_count = (if length shape \<ge> 3 then shape ! (length shape - 3) else 1)
            in if class_count \<le> 0 \<or> time_steps \<le> 0 \<or> batch_count \<le> 0 \<or> batch_index \<ge> nat batch_count then no_recognition
               else
                 let logits = (\<lambda>i. logits (batch_index * nat (time_steps * class_count) + i));
                     st = foldl (decode_step logits (nat class_count) dictionary) decode_start [0..<nat time_steps]
                 in if dc_emitted_count st = 0 then no_recognition
                    else
                      let confidence = dc_confidence_sum st / real (dc_emitted_count st)
                      in if confidence < threshold then no_recognition
                         else \<lparr>rc_text = dc_text st, rc_confidence = confidence\<rparr>)"

subsection \<open>Batches\<close>

definition roundUpToMultiple :: "int \<Rightarrow> int \<Rightarrow> int" where
  "roundUpToMultiple v multiple = (if multiple \<le> 1 then v else ((v + multiple - 1) div multiple) * multiple)"

definition positiveShapeValue :: "int list \<Rightarrow> nat \<Rightarrow> int \<Rightarrow> int" where
  "positiveShapeValue shape index fallback =
     (if index < length shape \<and> shape ! index > 0 \<and> shape ! index < 2 ^ 31 - 1 then shape ! index else fallback)"

definition width_ratio :: "picture \<Rightarrow> double" where
  "width_ratio crop = real_of_int (im_cols crop) / real_of_int (max 1 (im_rows crop))"

definition batch_width :: "paddle_ocr_config \<Rightarrow> int list \<Rightarrow> int \<Rightarrow> picture list \<Rightarrow> int" where
  "batch_width config model_shape target_height crops =
     (let fixed_width = positiveShapeValue model_shape 3 0 in
      if fixed_width > 0 then fixed_width
      else
        let max_width_ratio = foldl (\<lambda>widest crop. max widest (width_ratio crop))
              (real_of_int (po_recognition_base_width config) / real_of_int target_height) crops
        in clamp (roundUpToMultiple \<lceil>real_of_int target_height * max_width_ratio\<rceil> (po_recognition_width_multiple config))
             (po_recognition_base_width config) (po_recognition_max_width config))"

text \<open>The images of a batch are written one after another; what is right of an image stays zero.\<close>

definition makeRecognitionBatch ::
  "'b vision_scheme \<Rightarrow> paddle_ocr_config \<Rightarrow> int list \<Rightarrow> picture list \<Rightarrow> library_error + input_tensor" where
  "makeRecognitionBatch vi config model_shape crops =
     (let profile = po_profile config; height = positiveShapeValue model_shape 2 (po_recognition_image_height config);
          width = batch_width config model_shape height crops;
          columns = (\<lambda>crop. clamp \<lceil>real_of_int height * width_ratio crop\<rceil> 1 width);
          write = (\<lambda>t (b, crop, resized). write_pixels (normal_pixel (pp_recognition_mean profile) (pp_recognition_std profile) resized)
            (b * (3 * nat height * nat width)) (nat height) (nat width) (nat (columns crop)) t)
      in try_with (try_map (\<lambda>crop. scaled_image vi (pp_convert_bgr_to_rgb profile) (pp_recognition_scale profile) (columns crop) height crop)
             crops) (\<lambda>resized.
           Inr \<lparr>it_values = foldl write (replicate (length crops * (3 * nat height * nat width)) 0)
                  (zip [0..<length crops] (zip crops resized)),
                it_shape = [int (length crops), 3, height, width]\<rparr>))"

function chunks :: "nat \<Rightarrow> 'a list \<Rightarrow> 'a list list" where
  "chunks n xs = (if n = 0 \<or> xs = [] then [] else take n xs # chunks n (drop n xs))"
  by pat_completeness auto
termination
  by (relation "measure (length \<circ> snd)") auto

declare chunks.simps [simp del]

record ocr_model =
  om_detection :: session
  om_recognition :: session
  om_recognition_input_shape :: "int list"
  om_dictionary :: "string list"

definition narrower :: "picture list \<Rightarrow> nat \<Rightarrow> nat \<Rightarrow> bool" where
  "narrower crops l r \<longleftrightarrow> width_ratio (crops ! l) < width_ratio (crops ! r)"

interpretation narrower: keyed_order "narrower crops" "\<lambda>i. width_ratio (crops ! i)" for crops
  by unfold_locales (simp add: narrower_def)

definition batch_capacity :: "paddle_ocr_config \<Rightarrow> int list \<Rightarrow> nat" where
  "batch_capacity config model_shape =
     (let fixed_batch = positiveShapeValue model_shape 0 0
      in if fixed_batch > 0 then nat fixed_batch else max 1 (unat (po_recognition_batch_size config)))"

text \<open>A batch is filled up with its last crop where the model's batch size is fixed.\<close>

definition padded_batch :: "paddle_ocr_config \<Rightarrow> int list \<Rightarrow> nat list \<Rightarrow> nat list" where
  "padded_batch config model_shape batch =
     (if positiveShapeValue model_shape 0 0 > 0
      then batch @ replicate (batch_capacity config model_shape - length batch) (last batch) else batch)"

text \<open>One batch: \<open>None\<close> where the code returns \<open>false\<close>.\<close>

definition recognize_batch ::
  "'b vision_scheme \<Rightarrow> paddle_ocr_config \<Rightarrow> ocr_model \<Rightarrow> picture list \<Rightarrow> nat list \<Rightarrow> library_error + tensor option" where
  "recognize_batch vi config model crops batch =
     try_with (makeRecognitionBatch vi config (om_recognition_input_shape model)
       (map (\<lambda>i. crops ! i) (padded_batch config (om_recognition_input_shape model) batch))) (\<lambda>t.
     try_with (se_run (om_recognition model) [(hd (input_names (om_recognition model)), t)] (output_names (om_recognition model)))
       (\<lambda>outputs. Inr (if outputs = [] then None else Some (hd outputs))))"

definition store_results ::
  "paddle_ocr_config \<Rightarrow> ocr_model \<Rightarrow> tensor \<Rightarrow> nat list \<Rightarrow> recognition_result list \<Rightarrow> recognition_result list" where
  "store_results config model out batch recognitions =
     foldl (\<lambda>recognitions j. recognitions[batch ! j := decodeRecognition out j (om_dictionary model) (po_recognition_threshold config)])
       recognitions [0..<length batch]"

fun recognize_batches ::
  "'b vision_scheme \<Rightarrow> paddle_ocr_config \<Rightarrow> ocr_model \<Rightarrow> picture list \<Rightarrow> nat list list \<Rightarrow> recognition_result list \<Rightarrow>
   library_error + recognition_result list option" where
  "recognize_batches vi config model crops [] recognitions = Inr (Some recognitions)"
| "recognize_batches vi config model crops (batch # batches) recognitions =
     try_with (recognize_batch vi config model crops batch) (\<lambda>out.
       case out of
         None \<Rightarrow> Inr None
       | Some out \<Rightarrow> recognize_batches vi config model crops batches (store_results config model out batch recognitions))"

definition recognizeCrops ::
  "'b vision_scheme \<Rightarrow> paddle_ocr_config \<Rightarrow> ocr_model \<Rightarrow> picture list \<Rightarrow> library_error + recognition_result list option" where
  "recognizeCrops vi config model crops =
     (if crops = [] then Inr (Some [])
      else recognize_batches vi config model crops
             (chunks (batch_capacity config (om_recognition_input_shape model)) (sort_by (narrower crops) [0..<length crops]))
             (replicate (length crops) no_recognition))"

subsection \<open>Orientation\<close>

text \<open>Characters are the bytes that do not continue a code point and are not white space.\<close>

definition recognitionEvidence :: "recognition_result list \<Rightarrow> recognition_evidence list" where
  "recognitionEvidence recognitions =
     map (\<lambda>r. \<lparr>ev_confidence = rc_confidence r, ev_characters =
       length (filter (\<lambda>c. (of_char c :: nat) div 64 \<noteq> 2 \<and> \<not> isspace c) (rc_text r))\<rparr>) recognitions"

definition im_total :: "picture \<Rightarrow> int" where
  "im_total m = im_rows m * im_cols m"

definition larger_crop :: "picture list \<Rightarrow> nat \<Rightarrow> nat \<Rightarrow> bool" where
  "larger_crop crops l r \<longleftrightarrow> im_total (crops ! l) > im_total (crops ! r)"

interpretation larger_crop: keyed_order "larger_crop crops" "\<lambda>i. - im_total (crops ! i)" for crops
  by unfold_locales (simp add: larger_crop_def)

text \<open>\<open>recognize\<close> is the recognition of a list of crops, \<open>recognizeCrops\<close> on the model's sessions.\<close>

definition probeUpsideDown ::
  "'b vision_scheme \<Rightarrow> picture list \<Rightarrow> recognition_result list \<Rightarrow>
   (picture list \<Rightarrow> library_error + recognition_result list option) \<Rightarrow> library_error + bool" where
  "probeUpsideDown vi crops recognitions recognize =
     (let evidence = recognitionEvidence recognitions in
      if \<not> shouldProbeUpsideDown evidence then Inr False
      else
        let indices = take 6 (sort_by (larger_crop crops) [0..<length crops])
        in try_with (try_map (\<lambda>i. vi_rotate vi Rotate180 (crops ! i)) indices) (\<lambda>rotated.
           try_with (recognize rotated) (\<lambda>candidates.
             case candidates of
               None \<Rightarrow> Inr False
             | Some candidates \<Rightarrow>
                 Inr (supportsUpsideDown (map (\<lambda>i. evidence ! i) indices) (recognitionEvidence candidates)))))"

definition larger_or_earlier :: "picture list \<Rightarrow> nat \<Rightarrow> nat \<Rightarrow> bool" where
  "larger_or_earlier crops l r =
     (if im_total (crops ! l) \<noteq> im_total (crops ! r) then im_total (crops ! l) > im_total (crops ! r) else l < r)"

interpretation larger_or_earlier: keyed_order "larger_or_earlier crops" "\<lambda>i. (- im_total (crops ! i), i)" for crops
  by unfold_locales (auto simp: larger_or_earlier_def less_prod_def less_le)

record orientation_proposal =
  op_degrees :: int
  op_score :: double

definition no_proposal :: orientation_proposal where
  "no_proposal = \<lparr>op_degrees = 0, op_score = 0\<rparr>"

definition quarter_probes :: "'b vision_scheme \<Rightarrow> picture list \<Rightarrow> nat list \<Rightarrow> library_error + picture list" where
  "quarter_probes vi crops indices =
     try_with (try_map (\<lambda>i. try_with (vi_rotate vi Rotate90CounterClockwise (crops ! i)) (\<lambda>source.
         try_with (vi_rotate vi Rotate180 (crops ! i)) (\<lambda>opposite. Inr [source, opposite]))) indices)
       (\<lambda>pairs. Inr (concat pairs))"

definition probeQuarterTurn ::
  "'b vision_scheme \<Rightarrow> picture list \<Rightarrow> int list \<Rightarrow> recognition_result list \<Rightarrow>
   (picture list \<Rightarrow> library_error + recognition_result list option) \<Rightarrow> library_error + orientation_proposal" where
  "probeQuarterTurn vi crops crop_rotations recognitions recognize =
     (if \<not> hasDominantCropRotation crop_rotations 90 then Inr no_proposal
      else
        let indices = take 6 (sort_by (larger_or_earlier crops) (filter (\<lambda>i. crop_rotations ! i = 90) [0..<length crops]));
            clockwise_90 = map (\<lambda>i. recognitionEvidence recognitions ! i) indices
        in try_with (quarter_probes vi crops indices) (\<lambda>probes.
           try_with (recognize probes) (\<lambda>candidates.
             case candidates of
               None \<Rightarrow> Inr no_proposal
             | Some candidates \<Rightarrow>
                 if length candidates \<noteq> length probes then Inr no_proposal
                 else
                   let evidence = recognitionEvidence candidates;
                       source = map (\<lambda>i. evidence ! (i * 2)) [0..<length indices];
                       clockwise_270 = map (\<lambda>i. evidence ! (i * 2 + 1)) [0..<length indices];
                       degrees = supportedQuarterTurn source clockwise_90 clockwise_270
                   in Inr \<lparr>op_degrees = degrees,
                           op_score = recognitionEvidenceScore (if degrees = 90 then clockwise_90 else clockwise_270)\<rparr>)))"

subsection \<open>A page\<close>

definition makeTextLine :: "detection_box \<Rightarrow> recognition_result \<Rightarrow> text_line" where
  "makeTextLine box r = \<lparr>line_text = rc_text r, line_bbox = dx_bbox box, line_source = SourceOcr, line_confidence = rc_confidence r,
     line_spans = [\<lparr>span_text = rc_text r, span_bbox = dx_bbox box, span_source = SourceOcr, span_confidence = rc_confidence r\<rparr>]\<rparr>"

record page_recognition =
  pn_output :: ocr_result
  pn_crops :: "picture list"
  pn_crop_rotations :: "int list"
  pn_recognitions :: "recognition_result list"

definition detected_region :: "detection_box \<Rightarrow> ocr_region" where
  "detected_region box = \<lparr>reg_bbox = dx_bbox box, reg_detection_confidence = dx_score box, reg_text = [], reg_recognition_confidence = 0\<rparr>"

definition read_region :: "ocr_region \<Rightarrow> recognition_result \<Rightarrow> ocr_region" where
  "read_region region r = region\<lparr>reg_text := rc_text r, reg_recognition_confidence := rc_confidence r\<rparr>"

text \<open>The crops that are not empty, each with the index of its box and its rotation.\<close>

definition page_crops :: "'b ocr_vision_scheme \<Rightarrow> picture \<Rightarrow> detection_box list \<Rightarrow> library_error + (nat \<times> picture \<times> int) list" where
  "page_crops ov m boxes =
     try_with (try_map (cropTextImage ov m) boxes) (\<lambda>crops.
       Inr (filter (\<lambda>(_, crop, _). \<not> im_empty crop) (zip [0..<length boxes] crops)))"

definition page_output :: "page_text \<Rightarrow> detection_box list \<Rightarrow> (nat \<times> recognition_result) list \<Rightarrow> ocr_result" where
  "page_output start boxes found =
     \<lparr>or_page_text = start\<lparr>pt_lines := map (\<lambda>(i, r). makeTextLine (boxes ! i) r) (filter (\<lambda>(_, r). rc_text r \<noteq> []) found)\<rparr>,
      or_regions = foldl (\<lambda>regions (i, r). regions[i := read_region (regions ! i) r]) (map detected_region boxes) found,
      or_clockwise_correction_degrees = 0\<rparr>"

definition recognize_image ::
  "'b ocr_vision_scheme \<Rightarrow> paddle_ocr_config \<Rightarrow> ocr_model \<Rightarrow> picture \<Rightarrow> library_error + page_recognition option" where
  "recognize_image ov config model m =
     try_with (detectBoxes ov config (om_detection model) m) (\<lambda>boxes.
       case boxes of
         None \<Rightarrow> Inr None
       | Some boxes \<Rightarrow>
           try_with (page_crops ov m boxes) (\<lambda>crops.
           try_with (recognizeCrops ov config model (map (\<lambda>(_, crop, _). crop) crops)) (\<lambda>recognitions.
             Inr (map_option (\<lambda>recognitions.
               \<lparr>pn_output = page_output empty_page_text boxes (zip (map fst crops) recognitions),
                pn_crops = map (\<lambda>(_, crop, _). crop) crops, pn_crop_rotations = map (\<lambda>(_, _, turned). turned) crops,
                pn_recognitions = recognitions\<rparr>) recognitions))))"

definition propose_turn ::
  "'b ocr_vision_scheme \<Rightarrow> paddle_ocr_config \<Rightarrow> ocr_model \<Rightarrow> page_recognition \<Rightarrow> library_error + orientation_proposal" where
  "propose_turn ov config model original =
     (if \<not> po_recover_upside_down config then Inr no_proposal
      else if hasDominantCropRotation (pn_crop_rotations original) 90
      then probeQuarterTurn ov (pn_crops original) (pn_crop_rotations original) (pn_recognitions original) (recognizeCrops ov config model)
      else if hasDominantCropRotation (pn_crop_rotations original) 0
      then try_with (probeUpsideDown ov (pn_crops original) (pn_recognitions original) (recognizeCrops ov config model))
             (\<lambda>upside_down. Inr (no_proposal\<lparr>op_degrees := (if upside_down then 180 else 0)\<rparr>))
      else Inr no_proposal)"

definition turn_accepted :: "orientation_proposal \<Rightarrow> page_recognition \<Rightarrow> page_recognition \<Rightarrow> bool" where
  "turn_accepted proposal original alternative =
     (let original_score = recognitionEvidenceScore (recognitionEvidence (pn_recognitions original));
          rotated_score = recognitionEvidenceScore (recognitionEvidence (pn_recognitions alternative))
      in rotated_score \<ge> 0.8 \<and>
         (if op_degrees proposal = 180 then rotated_score \<ge> original_score + 0.15
          else hasDominantCropRotation (pn_crop_rotations alternative) 0 \<and>
               length (pn_crops alternative) * 3 \<ge> length (pn_recognitions original) * 2 \<and>
               rotated_score \<ge> op_score proposal - 0.1))"

definition turned_output :: "page_rotation \<Rightarrow> ocr_result \<Rightarrow> ocr_result" where
  "turned_output r out =
     out\<lparr>or_regions := map (\<lambda>region. region\<lparr>reg_bbox := toSource r (reg_bbox region)\<rparr>) (or_regions out),
         or_page_text := (or_page_text out)\<lparr>pt_lines := map (map_line_boxes (toSource r)) (pt_lines (or_page_text out))\<rparr>,
         or_clockwise_correction_degrees := rot_degrees r\<rparr>"

definition turn_direction :: "int \<Rightarrow> rotation" where
  "turn_direction degrees = (if degrees = 90 then Rotate90Clockwise else if degrees = 180 then Rotate180 else Rotate90CounterClockwise)"

text \<open>The constructor of \<open>PageRotation\<close> throws only for an image without a size, which was refused before.\<close>

definition recover_orientation ::
  "'b ocr_vision_scheme \<Rightarrow> paddle_ocr_config \<Rightarrow> ocr_model \<Rightarrow> picture \<Rightarrow> page_recognition \<Rightarrow> library_error + ocr_result" where
  "recover_orientation ov config model m original =
     try_with (propose_turn ov config model original) (\<lambda>proposal.
       if op_degrees proposal = 0 then Inr (pn_output original)
       else try_with (vi_rotate ov (turn_direction (op_degrees proposal)) m) (\<lambda>rotated.
            try_with (recognize_image ov config model rotated) (\<lambda>alternative.
              case alternative of
                None \<Rightarrow> Inr (pn_output original)
              | Some alternative \<Rightarrow>
                  (case make_rotation (im_cols m) (im_rows m) (op_degrees proposal) of
                     Inl _ \<Rightarrow> Inr (pn_output original)
                   | Inr r \<Rightarrow> Inr (if turn_accepted proposal original alternative then turned_output r (pn_output alternative)
                                   else pn_output original)))))"

text \<open>Recovery is optional: an error in it keeps the first result.\<close>

definition recovered :: "ocr_result \<Rightarrow> library_error + ocr_result \<Rightarrow> ocr_result" where
  "recovered first r = (case r of Inl _ \<Rightarrow> first | Inr out \<Rightarrow> out)"

subsection \<open>The backend\<close>

definition path_exists :: "'b vision_scheme \<Rightarrow> string \<Rightarrow> bool" where
  "path_exists vi path \<longleftrightarrow> path \<noteq> [] \<and> vi_exists vi path"

definition loadDictionary :: "string \<Rightarrow> string list" where
  "loadDictionary contents = filter (\<lambda>line. line \<noteq> []) (map strip_return (getlines (CHR 0x0A) contents))"

definition ocr_config_ok :: "paddle_ocr_config \<Rightarrow> bool" where
  "ocr_config_ok config \<longleftrightarrow>
     \<not> ((pp_name (po_profile config) \<noteq> ''ppocrv4_mobile'' \<and> pp_name (po_profile config) \<noteq> ''ppocrv5_mobile'') \<or>
        po_detection_limit_side config \<le> 0 \<or> po_recognition_image_height config \<le> 0 \<or> po_recognition_base_width config \<le> 0 \<or>
        po_recognition_max_width config < po_recognition_base_width config \<or> po_recognition_batch_size config = 0 \<or>
        po_detection_max_candidates config = 0)"

definition loadModelBundle :: "'b vision_scheme \<Rightarrow> paddle_ocr_config \<Rightarrow> ocr_model option" where
  "loadModelBundle vi config =
     (if \<not> path_exists vi (po_detection_model config) \<or> \<not> path_exists vi (po_recognition_model config) \<or>
         \<not> path_exists vi (po_character_dict config) \<or> \<not> ocr_config_ok config then None
      else
        let dictionary = loadDictionary (vi_read_file vi (po_character_dict config)) in
        if dictionary = [] then None
        else caught (try_with (vi_load vi (po_detection_model config)) (\<lambda>detection.
          try_with (vi_load vi (po_recognition_model config)) (\<lambda>recognition.
            Inr (if se_inputs detection = [] \<or> se_outputs detection = [] \<or> se_inputs recognition = [] \<or> se_outputs recognition = []
                 then None
                 else Some \<lparr>om_detection = detection, om_recognition = recognition,
                        om_recognition_input_shape = snd (hd (se_inputs recognition)), om_dictionary = dictionary\<rparr>)))))"

text \<open>The checks that start each operation: the model and the page's image.\<close>

definition page_image :: "'b vision_scheme \<Rightarrow> ocr_model option \<Rightarrow> page_artifact \<Rightarrow> int \<Rightarrow> (ocr_model \<times> picture) option" where
  "page_image vi model page dpi =
     (case model of
        None \<Rightarrow> None
      | Some model \<Rightarrow>
          if dpi \<le> 0 \<or> \<not> path_exists vi (pa_output_path page) then None
          else let m = vi_read_image vi page in if im_empty m then None else Some (model, m))"

definition finish_ocr :: "page_artifact \<Rightarrow> ocr_result \<Rightarrow> ocr_result" where
  "finish_ocr page out =
     (let has_text = (pt_lines (or_page_text out) \<noteq> [])
      in out\<lparr>or_page_text := (or_page_text out)\<lparr>pt_page_index := pa_page_index page, pt_page_number := pa_page_number page,
           pt_has_text := has_text, pt_preferred_source := if has_text then SourceOcr else SourceUnknown\<rparr>\<rparr>)"

definition paddle_recognize ::
  "'b ocr_vision_scheme \<Rightarrow> paddle_ocr_config \<Rightarrow> ocr_model option \<Rightarrow> page_artifact \<Rightarrow> int \<Rightarrow> ocr_result option" where
  "paddle_recognize ov config model page dpi =
     (case page_image ov model page dpi of
        None \<Rightarrow> None
      | Some (model, m) \<Rightarrow>
          map_option (\<lambda>original. finish_ocr page (recovered (pn_output original) (recover_orientation ov config model m original)))
            (caught (recognize_image ov config model m)))"

definition paddle_detect ::
  "'b ocr_vision_scheme \<Rightarrow> paddle_ocr_config \<Rightarrow> ocr_model option \<Rightarrow> page_artifact \<Rightarrow> int \<Rightarrow> ocr_region list option" where
  "paddle_detect ov config model page dpi =
     (case page_image ov model page dpi of
        None \<Rightarrow> None
      | Some (model, m) \<Rightarrow> map_option (map detected_region) (caught (detectBoxes ov config (om_detection model) m)))"

text \<open>Given regions: if they are read better upside down, all of them are.\<close>

definition reread_upside_down ::
  "'b vision_scheme \<Rightarrow> paddle_ocr_config \<Rightarrow> ocr_model \<Rightarrow> picture list \<Rightarrow> recognition_result list \<Rightarrow>
   library_error + recognition_result list" where
  "reread_upside_down vi config model crops recognitions =
     (if \<not> po_recover_upside_down config then Inr recognitions
      else try_with (probeUpsideDown vi crops recognitions (recognizeCrops vi config model)) (\<lambda>upside_down.
        if \<not> upside_down then Inr recognitions
        else try_with (try_map (vi_rotate vi Rotate180) crops) (\<lambda>rotated.
             try_with (recognizeCrops vi config model rotated) (\<lambda>alternative.
               Inr (case alternative of
                      None \<Rightarrow> recognitions
                    | Some alternative \<Rightarrow>
                        if supportsUpsideDown (recognitionEvidence recognitions) (recognitionEvidence alternative)
                        then alternative else recognitions)))))"

definition given_region :: "bbox \<Rightarrow> ocr_region" where
  "given_region box = \<lparr>reg_bbox = box, reg_detection_confidence = 0, reg_text = [], reg_recognition_confidence = 0\<rparr>"

definition paddle_recognizeRegions ::
  "'b vision_scheme \<Rightarrow> paddle_ocr_config \<Rightarrow> ocr_model option \<Rightarrow> page_artifact \<Rightarrow> int \<Rightarrow> bbox list \<Rightarrow> ocr_region list option" where
  "paddle_recognizeRegions vi config model page dpi regions =
     (case page_image vi model page dpi of
        None \<Rightarrow> None
      | Some (model, m) \<Rightarrow>
          let crops = filter (\<lambda>(_, crop). \<not> im_empty crop)
                (zip [0..<length regions] (map (cropAxisAligned vi m) regions))
          in map_option (\<lambda>recognitions.
               foldl (\<lambda>rs (i, r). rs[i := read_region (rs ! i) r]) (map given_region regions) (zip (map fst crops)
                 (case reread_upside_down vi config model (map snd crops) recognitions of Inl _ \<Rightarrow> recognitions | Inr better \<Rightarrow> better)))
             (caught (recognizeCrops vi config model (map snd crops))))"

definition paddle_backend :: "'b ocr_vision_scheme \<Rightarrow> paddle_ocr_config \<Rightarrow> ocr_backend" where
  "paddle_backend ov config =
     (let model = loadModelBundle ov config
      in \<lparr>ocr_recognize = paddle_recognize ov config model, ocr_available = (model \<noteq> None),
          ocr_unavailable_reason = (if model \<noteq> None then []
            else ''failed to load PaddleOCR models (detection='' @ po_detection_model config @ '', recognition='' @
                 po_recognition_model config @ '', dictionary='' @ po_character_dict config @ '')'')\<rparr>)"

end
