(* ===== verification/Ocr_Properties.thy ===== *)
theory Ocr_Properties
  imports Paddle_Ocr
begin

text \<open>
  What the Paddle OCR backend promises: its decoder is greedy decoding, each crop gets the text that was read in its own place of its
  batch, a batch's tensor holds each crop's pixels in its own block, and every region and text line lies in the page,
  also where the page was turned to read it.
\<close>

subsection \<open>Greedy decoding\<close>

text \<open>
  The usual description of greedy decoding: the best class of each step, runs of the same class taken once, blanks
  left out. A step is emitted where its class is no blank, differs from the step before and has a label.
\<close>

definition best_class :: "(nat \<Rightarrow> double) \<Rightarrow> nat \<Rightarrow> nat \<Rightarrow> nat" where
  "best_class logits class_count t = max_index (\<lambda>i. logits (t * class_count + i)) class_count"

definition collapsed :: "nat list \<Rightarrow> nat list" where
  "collapsed classes = filter (\<lambda>b. b \<noteq> 0) (remdups_adj classes)"

definition emitted_steps :: "(nat \<Rightarrow> nat) \<Rightarrow> string list \<Rightarrow> nat \<Rightarrow> nat list" where
  "emitted_steps best dictionary time_steps =
     filter (\<lambda>t. best t \<noteq> 0 \<and> (t = 0 \<or> best (t - 1) \<noteq> best t) \<and> labelForIndex (best t) dictionary \<noteq> []) [0..<time_steps]"

definition greedy_decoding :: "(nat \<Rightarrow> double) \<Rightarrow> nat \<Rightarrow> nat \<Rightarrow> string list \<Rightarrow> double \<Rightarrow> recognition_result" where
  "greedy_decoding logits class_count time_steps dictionary threshold =
     (let best = best_class logits class_count; steps = emitted_steps best dictionary time_steps;
          mean = (\<Sum>t\<leftarrow>steps. classProbability (\<lambda>i. logits (t * class_count + i)) class_count (best t)) / real (length steps)
      in if steps = [] \<or> mean < threshold then no_recognition
         else \<lparr>rc_text = concat (map (\<lambda>b. labelForIndex b dictionary) (collapsed (map best [0..<time_steps]))), rc_confidence = mean\<rparr>)"

lemma decode_step_best:
  "decode_step logits n dictionary st t =
     (let b = best_class logits n t; label = labelForIndex b dictionary;
          fresh = (b \<noteq> 0 \<and> dc_previous_index st \<noteq> Some b \<and> label \<noteq> [])
      in \<lparr>dc_text = dc_text st @ (if fresh then label else []), dc_previous_index = Some b,
          dc_confidence_sum = dc_confidence_sum st + (if fresh then classProbability (\<lambda>i. logits (t * n + i)) n b else 0),
          dc_emitted_count = dc_emitted_count st + (if fresh then 1 else 0)\<rparr>)"
  by (cases st) (auto simp: decode_step_def best_class_def Let_def)

lemma collapsed_snoc:
  "collapsed (map f [0..<Suc t]) =
     collapsed (map f [0..<t]) @ (if f t \<noteq> 0 \<and> (t = 0 \<or> f (t - 1) \<noteq> f t) then [f t] else [])"
proof (cases t)
  case (Suc k)
  have "map f [0..<Suc (Suc k)] = map f [0..<k] @ [f k, f (Suc k)]" "map f [0..<Suc k] = map f [0..<k] @ [f k]" by simp_all
  then show ?thesis unfolding Suc collapsed_def by (simp only: remdups_adj_append_two) auto
qed (simp add: collapsed_def)

lemma decode_fold:
  "foldl (decode_step logits n dictionary) decode_start [0..<time_steps] =
     \<lparr>dc_text = concat (map (\<lambda>b. labelForIndex b dictionary) (collapsed (map (best_class logits n) [0..<time_steps]))),
      dc_previous_index = (if time_steps = 0 then None else Some (best_class logits n (time_steps - 1))),
      dc_confidence_sum = (\<Sum>t\<leftarrow>emitted_steps (best_class logits n) dictionary time_steps.
        classProbability (\<lambda>i. logits (t * n + i)) n (best_class logits n t)),
      dc_emitted_count = length (emitted_steps (best_class logits n) dictionary time_steps)\<rparr>"
proof (induction time_steps)
  case 0
  then show ?case by (simp add: decode_start_def collapsed_def emitted_steps_def)
next
  case (Suc t)
  have "foldl (decode_step logits n dictionary) decode_start [0..<Suc t] =
      decode_step logits n dictionary (foldl (decode_step logits n dictionary) decode_start [0..<t]) t" by simp
  then show ?case unfolding Suc decode_step_best Let_def collapsed_snoc by (auto simp: emitted_steps_def)
qed

definition decodable :: "int list \<Rightarrow> nat \<Rightarrow> bool" where
  "decodable shape batch_index \<longleftrightarrow>
     length shape \<ge> 2 \<and> last shape > 0 \<and> shape ! (length shape - 2) > 0 \<and>
     int batch_index < (if length shape \<ge> 3 then shape ! (length shape - 3) else 1)"

lemma decodable_guard:
  "2 \<le> length shape \<Longrightarrow>
   (last shape \<le> 0 \<or> shape ! (length shape - 2) \<le> 0 \<or> (if length shape \<ge> 3 then shape ! (length shape - 3) else 1) \<le> 0 \<or>
    batch_index \<ge> nat (if length shape \<ge> 3 then shape ! (length shape - 3) else 1)) \<longleftrightarrow> \<not> decodable shape batch_index"
  unfolding decodable_def by (cases "length shape \<ge> 3") (auto simp: nat_le_iff not_less)

lemma decodeRecognition_greedy:
  "decodeRecognition out b dictionary threshold =
     (case tn_floats out of
        None \<Rightarrow> no_recognition
      | Some logits \<Rightarrow>
          if decodable (tn_shape out) b
          then let class_count = nat (last (tn_shape out)); time_steps = nat (tn_shape out ! (length (tn_shape out) - 2))
               in greedy_decoding (\<lambda>i. logits (b * (time_steps * class_count) + i)) class_count time_steps dictionary threshold
          else no_recognition)"
proof (cases "tn_floats out")
  case (Some logits)
  let ?shape = "tn_shape out"
  show ?thesis
  proof (cases "2 \<le> length ?shape \<and> decodable ?shape b")
    case True
    then have pos: "0 < ?shape ! (length ?shape - 2)" by (simp add: decodable_def)
    have valid: "\<not> length ?shape < 2" and ok: "decodable ?shape b" using True by simp_all
    show ?thesis
      unfolding decodeRecognition_def Let_def Some option.simps if_not_P[OF valid] if_P[OF ok]
        decodable_guard[OF conjunct1[OF True]] decode_fold greedy_decoding_def decode_state.simps
      using pos ok by (simp add: nat_mult_distrib)
  next
    case False
    then have "\<not> decodable ?shape b" by (auto simp: decodable_def)
    then show ?thesis using decodable_guard[of ?shape b] False by (auto simp: Some decodeRecognition_def Let_def)
  qed
qed (simp add: decodeRecognition_def)

subsection \<open>Batches\<close>

lemma concat_chunks: "0 < n \<Longrightarrow> concat (chunks n xs) = xs"
  by (induction n xs rule: chunks.induct) (subst chunks.simps, auto)

lemma chunks_bounds: "c \<in> set (chunks n xs) \<Longrightarrow> c \<noteq> [] \<and> length c \<le> n"
proof (induction n xs rule: chunks.induct)
  case (1 n xs)
  then show ?case by (subst (asm) chunks.simps) (auto split: if_splits)
qed

lemma batch_capacity_pos: "0 < batch_capacity config shape"
  by (simp add: batch_capacity_def Let_def less_max_iff_disj)

text \<open>Crop \<open>i\<close> of some crops has the result its own place in its own batch gave.\<close>

definition own_result ::
  "'b vision_scheme \<Rightarrow> paddle_ocr_config \<Rightarrow> ocr_model \<Rightarrow> picture list \<Rightarrow> nat list list \<Rightarrow> recognition_result list \<Rightarrow> nat \<Rightarrow> bool" where
  "own_result vi config model crops batches recognitions i \<longleftrightarrow>
     (\<exists>batch\<in>set batches. \<exists>j<length batch. \<exists>out. batch ! j = i \<and> recognize_batch vi config model crops batch = Inr (Some out) \<and>
        recognitions ! i = decodeRecognition out j (om_dictionary model) (po_recognition_threshold config))"

lemma store_results_at:
  assumes "distinct batch" "set batch \<subseteq> {..<length recognitions}"
  shows "length (store_results config model out batch recognitions) = length recognitions"
    "j < length batch \<Longrightarrow> store_results config model out batch recognitions ! (batch ! j) =
       decodeRecognition out j (om_dictionary model) (po_recognition_threshold config)"
    "i \<notin> set batch \<Longrightarrow> store_results config model out batch recognitions ! i = recognitions ! i"
proof -
  let ?v = "\<lambda>j. decodeRecognition out j (om_dictionary model) (po_recognition_threshold config)"
  show "length (store_results config model out batch recognitions) = length recognitions"
    unfolding store_results_def by (rule foldl_invariant[where P = "\<lambda>u. length u = length recognitions"]) auto
  show "store_results config model out batch recognitions ! (batch ! j) = ?v j" if "j < length batch"
    unfolding store_results_def
    by (rule foldl_updates_at[where ix = "\<lambda>j. batch ! j"])
      (use assms that nth_mem in \<open>auto simp: inj_on_def nth_eq_iff_index_eq\<close>)
  show "store_results config model out batch recognitions ! i = recognitions ! i" if "i \<notin> set batch"
    unfolding store_results_def by (rule foldl_updates_other[where ix = "\<lambda>j. batch ! j"]) (use that in auto)
qed

lemma recognize_batches_own:
  "recognize_batches vi config model crops batches recognitions = Inr (Some rs) \<Longrightarrow> distinct (concat batches) \<Longrightarrow>
   set (concat batches) \<subseteq> {..<length recognitions} \<Longrightarrow>
   length rs = length recognitions \<and> (\<forall>i\<in>set (concat batches). own_result vi config model crops batches rs i) \<and>
   (\<forall>i. i \<notin> set (concat batches) \<longrightarrow> rs ! i = recognitions ! i)"
proof (induction batches arbitrary: recognitions)
  case (Cons batch batches)
  then obtain out where out: "recognize_batch vi config model crops batch = Inr (Some out)"
    and rest: "recognize_batches vi config model crops batches (store_results config model out batch recognitions) = Inr (Some rs)"
    by (auto simp: try_with_Inr split: option.splits)
  have batch: "distinct batch" "set batch \<subseteq> {..<length recognitions}" using Cons.prems by auto
  note stored = store_results_at[OF batch, where config = config and model = model and out = out]
  have IH: "length rs = length recognitions" "\<forall>i\<in>set (concat batches). own_result vi config model crops batches rs i"
    "\<forall>i. i \<notin> set (concat batches) \<longrightarrow> rs ! i = store_results config model out batch recognitions ! i"
    using Cons.IH[OF rest] Cons.prems stored(1) by auto
  have "own_result vi config model crops (batch # batches) rs i" if "i \<in> set batch" for i
  proof -
    from that obtain j where "j < length batch" "batch ! j = i" by (auto simp: in_set_conv_nth)
    moreover have "i \<notin> set (concat batches)" using that Cons.prems(2) by auto
    ultimately show ?thesis using IH(3) stored(2)[of j] out unfolding own_result_def
      by (metis list.set_intros(1))
  qed
  moreover have "own_result vi config model crops (batch # batches) rs i" if "i \<in> set (concat batches)" for i
    using IH(2) that unfolding own_result_def by (metis list.set_intros(2))
  moreover have "rs ! i = recognitions ! i" if "i \<notin> set (concat (batch # batches))" for i
    using IH(3) stored(3) that by simp
  ultimately show ?case using IH(1) by auto
qed simp

text \<open>The batches of some crops.\<close>

definition crop_batches :: "paddle_ocr_config \<Rightarrow> ocr_model \<Rightarrow> picture list \<Rightarrow> nat list list" where
  "crop_batches config model crops =
     chunks (batch_capacity config (om_recognition_input_shape model)) (sort_by (narrower crops) [0..<length crops])"

lemma recognizeCrops_own:
  assumes "recognizeCrops vi config model crops = Inr (Some rs)"
  shows "length rs = length crops"
    "list_all (own_result vi config model crops (crop_batches config model crops) rs) [0..<length crops]"
proof -
  let ?batches = "crop_batches config model crops"
  have all: "concat ?batches = sort_by (narrower crops) [0..<length crops]"
    unfolding crop_batches_def by (rule concat_chunks) (rule batch_capacity_pos)
  show "length rs = length crops" "list_all (own_result vi config model crops ?batches rs) [0..<length crops]"
  proof (atomize (full), cases "crops = []")
    case False
    then have "recognize_batches vi config model crops ?batches (replicate (length crops) no_recognition) = Inr (Some rs)"
      using assms by (simp add: recognizeCrops_def crop_batches_def)
    from recognize_batches_own[OF this] show "length rs = length crops \<and> list_all (own_result vi config model crops ?batches rs) [0..<length crops]"
      unfolding all by (auto simp: list_all_iff atLeast0LessThan)
  qed (use assms in \<open>simp add: recognizeCrops_def\<close>)
qed

subsection \<open>Regions lie in the page\<close>

text \<open>\<open>cv::rotate\<close> by a quarter turn exchanges the sides, by a half turn keeps them.\<close>

definition turns :: "'b vision_scheme \<Rightarrow> bool" where
  "turns vi \<longleftrightarrow> (\<forall>how m m'. vi_rotate vi how m = Inr m' \<longrightarrow>
     (if how = Rotate180 then im_cols m' = im_cols m \<and> im_rows m' = im_rows m
      else im_cols m' = im_rows m \<and> im_rows m' = im_cols m))"

definition regions_in :: "int \<Rightarrow> int \<Rightarrow> ocr_result \<Rightarrow> bool" where
  "regions_in width height out \<longleftrightarrow> list_all (\<lambda>region. in_image width height (reg_bbox region)) (or_regions out) \<and>
     list_all (\<lambda>line. in_image width height (line_bbox line) \<and> list_all (\<lambda>s. in_image width height (span_bbox s)) (line_spans line))
       (pt_lines (or_page_text out))"

lemma read_regions_boxes:
  "map reg_bbox (foldl (\<lambda>regions (i, r). regions[i := read_region (regions ! i) r]) regions found) = map reg_bbox regions"
proof (induction found arbitrary: regions)
  case (Cons f found)
  have "map reg_bbox (regions[fst f := read_region (regions ! fst f) (snd f)]) = map reg_bbox regions"
    by (cases "fst f < length regions") (simp_all add: map_update read_region_def list_update_same_conv list_update_beyond)
  then show ?case using Cons.IH by (simp add: case_prod_unfold)
qed simp

lemma page_output_in:
  assumes "list_all (good_box config w h) boxes" "\<And>i r. (i, r) \<in> set found \<Longrightarrow> i < length boxes"
  shows "regions_in w h (page_output start boxes found)"
proof -
  have box: "i < length boxes \<Longrightarrow> in_image w h (dx_bbox (boxes ! i))" for i
    using assms(1) unfolding list_all_length good_box_def by blast
  have "map reg_bbox (or_regions (page_output start boxes found)) = map dx_bbox boxes"
    by (simp add: page_output_def read_regions_boxes detected_region_def comp_def)
  then have "list_all (in_image w h) (map reg_bbox (or_regions (page_output start boxes found)))"
    using box by (simp add: list_all_length)
  then have "list_all (\<lambda>region. in_image w h (reg_bbox region)) (or_regions (page_output start boxes found))"
    by (simp add: list.pred_map comp_def)
  moreover have "list_all (\<lambda>line. in_image w h (line_bbox line) \<and> list_all (\<lambda>s. in_image w h (span_bbox s)) (line_spans line))
      (pt_lines (or_page_text (page_output start boxes found)))"
    using assms(2) box by (auto simp: page_output_def list_all_iff makeTextLine_def)
  ultimately show ?thesis by (simp add: regions_in_def)
qed

lemma recognize_image_in:
  assumes "recognize_image ov config model m = Inr (Some pass)" "\<not> im_empty m"
  shows "regions_in (im_cols m) (im_rows m) (pn_output pass)"
proof -
  obtain boxes crops recognitions where boxes: "detectBoxes ov config (om_detection model) m = Inr (Some boxes)"
    and crops: "page_crops ov m boxes = Inr crops"
    and pass: "pn_output pass = page_output empty_page_text boxes (zip (map fst crops) recognitions)"
    using assms(1) by (auto simp: recognize_image_def try_with_Inr split: option.splits)
  have "i < length boxes" if "(i, r) \<in> set (zip (map fst crops) recognitions)" for i r
  proof -
    from that obtain c where "c \<in> set crops" "fst c = i" by (auto dest!: set_zip_leftD)
    then show ?thesis using crops by (auto simp: page_crops_def try_with_Inr dest!: set_zip_leftD)
  qed
  then show ?thesis unfolding pass by (intro page_output_in[OF detectBoxes_good(1)[OF boxes assms(2)]])
qed

lemma toSource_in_image:
  assumes "make_rotation w h degrees = Inr r" "degrees \<noteq> 0"
    "in_image (if degrees = 180 then w else h) (if degrees = 180 then h else w) b"
  shows "in_image w h (toSource r b)"
  using assms by (auto simp: make_rotation_def toSource_def rotate_box_def workingWidth_def workingHeight_def in_image_def split: if_splits)

lemma turned_output_in:
  assumes "make_rotation w h degrees = Inr r" "degrees \<noteq> 0"
    "regions_in (if degrees = 180 then w else h) (if degrees = 180 then h else w) out"
  shows "regions_in w h (turned_output r out)"
  using assms(3) toSource_in_image[OF assms(1,2)]
  by (simp add: regions_in_def turned_output_def list.pred_map comp_def map_line_boxes_def list_all_iff)

lemma recover_orientation_in:
  assumes "recover_orientation ov config model m original = Inr out" "turns ov" "\<not> im_empty m"
    "regions_in (im_cols m) (im_rows m) (pn_output original)"
  shows "regions_in (im_cols m) (im_rows m) out"
proof (cases "out = pn_output original")
  case False
  obtain proposal where proposal: "propose_turn ov config model original = Inr proposal" and turn: "op_degrees proposal \<noteq> 0"
    using assms(1) False by (auto simp: recover_orientation_def try_with_Inr split: if_splits)
  then obtain rotated found where rotated: "vi_rotate ov (turn_direction (op_degrees proposal)) m = Inr rotated"
    and found: "recognize_image ov config model rotated = Inr found"
    using assms(1) by (auto simp: recover_orientation_def try_with_Inr)
  then obtain alternative r where again: "recognize_image ov config model rotated = Inr (Some alternative)"
    and r: "make_rotation (im_cols m) (im_rows m) (op_degrees proposal) = Inr r"
    and out: "out = turned_output r (pn_output alternative)"
    using assms(1) proposal turn False
    by (cases found; cases "make_rotation (im_cols m) (im_rows m) (op_degrees proposal)")
      (auto simp: recover_orientation_def try_with_def split: if_splits)
  have sides: "im_cols rotated = (if op_degrees proposal = 180 then im_cols m else im_rows m)"
    "im_rows rotated = (if op_degrees proposal = 180 then im_rows m else im_cols m)"
    using assms(2) rotated unfolding turns_def turn_direction_def by (auto split: if_splits)
  then have "\<not> im_empty rotated" using assms(3) by (auto simp: im_empty_def)
  then show ?thesis unfolding out
    using recognize_image_in[OF again] turned_output_in[OF r turn] sides by simp
qed (use assms(4) in simp)

lemma paddle_recognize_in:
  assumes "paddle_recognize ov config model page dpi = Some out" "turns ov"
  shows "regions_in (im_cols (vi_read_image ov page)) (im_rows (vi_read_image ov page)) out"
proof -
  obtain mdl pass where image: "\<not> im_empty (vi_read_image ov page)"
    and first: "recognize_image ov config mdl (vi_read_image ov page) = Inr (Some pass)"
    and out: "out = finish_ocr page (recovered (pn_output pass) (recover_orientation ov config mdl (vi_read_image ov page) pass))"
    using assms(1) by (auto simp: paddle_recognize_def page_image_def Let_def caught_Some split: option.splits if_splits)
  have "regions_in (im_cols (vi_read_image ov page)) (im_rows (vi_read_image ov page))
      (recovered (pn_output pass) (recover_orientation ov config mdl (vi_read_image ov page) pass))"
    using recognize_image_in[OF first image] recover_orientation_in[OF _ assms(2) image]
    by (cases "recover_orientation ov config mdl (vi_read_image ov page) pass") (auto simp: recovered_def)
  then show ?thesis by (simp add: out finish_ocr_def regions_in_def Let_def)
qed

subsection \<open>The recognizer's input\<close>

text \<open>
  A batch's tensor, for crops \<open>0\<close> to \<open>k\<close>: crop \<open>b\<close> has its own block, with its columns' values and zeros right of them.
\<close>

lemma batch_blocks:
  fixes pixel_value :: "nat \<Rightarrow> nat \<Rightarrow> nat \<Rightarrow> nat \<Rightarrow> double" and columns :: "nat \<Rightarrow> nat" and h w n :: nat
  defines "block \<equiv> 3 * h * w"
  defines "written \<equiv> \<lambda>k. foldl (\<lambda>t b. write_pixels (pixel_value b) (b * block) h w (columns b) t) (replicate (n * block) 0) [0..<k]"
  assumes cols: "\<And>b. columns b \<le> w" and at: "y < h" "x < w" "c < 3"
  shows "k \<le> n \<Longrightarrow> length (written k) = n * block \<and>
    (\<forall>b<n. written k ! (b * block + pixel_offset h w y x c) = (if b < k \<and> x < columns b then pixel_value b y x c else 0))"
proof (induction k)
  case 0
  have "b * block + pixel_offset h w y x c < n * block" if "b < n" for b
  proof -
    have "pixel_offset h w y x c < block" unfolding block_def by (rule pixel_offset_less) fact+
    moreover have "Suc b * block \<le> n * block" using that by (intro mult_le_mono1) simp
    ultimately show ?thesis by simp
  qed
  then show ?case by (simp add: written_def)
next
  case (Suc k)
  then have len: "length (written k) = n * block"
    and IH: "\<And>b. b < n \<Longrightarrow> written k ! (b * block + pixel_offset h w y x c) = (if b < k \<and> x < columns b then pixel_value b y x c else 0)"
    by auto
  have small: "pixel_offset h w y x c < block" unfolding block_def by (rule pixel_offset_less) fact+
  have "Suc k * block \<le> n * block" using Suc.prems by (intro mult_le_mono1) simp
  then have room: "k * block + 3 * h * w \<le> length (written k)" using len by (simp add: block_def)
  have step: "written (Suc k) = write_pixels (pixel_value k) (k * block) h w (columns k) (written k)" by (simp add: written_def)
  have "written (Suc k) ! (b * block + pixel_offset h w y x c) = (if b < Suc k \<and> x < columns b then pixel_value b y x c else 0)" if "b < n" for b
  proof (cases "b = k")
    case True
    show ?thesis
    proof (cases "x < columns k")
      case True
      then show ?thesis using write_pixels_at[OF cols at(1) _ at(3) room] \<open>b = k\<close> by (simp add: step)
    next
      case False
      then show ?thesis using write_pixels_padding[of "columns k" x w y h c] at IH[OF that] \<open>b = k\<close> by (simp add: step)
    qed
  next
    case False
    have "b * block + pixel_offset h w y x c < k * block \<or> k * block + 3 * h * w \<le> b * block + pixel_offset h w y x c"
    proof (cases "b < k")
      case True
      then have "Suc b * block \<le> k * block" by (intro mult_le_mono1) simp
      then show ?thesis using small by simp
    next
      case False
      then have "Suc k * block \<le> b * block" using \<open>b \<noteq> k\<close> by (intro mult_le_mono1) simp
      then show ?thesis by (simp add: block_def)
    qed
    then show ?thesis using write_pixels_other[OF cols] IH[OF that] False by (simp add: step less_Suc_eq)
  qed
  then show ?case using len by (simp add: step)
qed

text \<open>The same for the tensor of \<open>makeRecognitionBatch\<close>, whose size is that of its shape.\<close>

lemma recognition_batch_values:
  fixes config vi
  defines "profile \<equiv> po_profile config"
  assumes t: "makeRecognitionBatch vi config model_shape crops = Inr t" and b: "b < length crops"
    and "it_shape t = [n, 3, h, w]" "y < nat h" "x < nat w" "c < 3"
  obtains resized columns where
    "scaled_image vi (pp_convert_bgr_to_rgb profile) (pp_recognition_scale profile) columns h (crops ! b) = Inr resized"
    "1 \<le> columns" "columns \<le> w"
    "length (it_values t) = length crops * (3 * nat h * nat w)"
    "it_values t ! (b * (3 * nat h * nat w) + pixel_offset (nat h) (nat w) y x c) =
       (if x < nat columns then normal_pixel (pp_recognition_mean profile) (pp_recognition_std profile) resized y x c else 0)"
proof -
  let ?columns = "\<lambda>crop. clamp \<lceil>real_of_int h * width_ratio crop\<rceil> 1 w"
  let ?pixel = "normal_pixel (pp_recognition_mean profile) (pp_recognition_std profile)"
  obtain resized where resized: "try_map (\<lambda>crop. scaled_image vi (pp_convert_bgr_to_rgb profile) (pp_recognition_scale profile)
        (?columns crop) h crop) crops = Inr resized"
    and vs: "it_values t = foldl (\<lambda>t (b, crop, resized). write_pixels (?pixel resized) (b * (3 * nat h * nat w)) (nat h) (nat w)
        (nat (?columns crop)) t) (replicate (length crops * (3 * nat h * nat w)) 0) (zip [0..<length crops] (zip crops resized))"
    using assms(2,4) by (auto simp: makeRecognitionBatch_def try_with_Inr Let_def profile_def)
  have len: "length resized = length crops" using length_try_map[OF resized] .
  have zip: "zip [0..<length crops] (zip crops resized) = map (\<lambda>b. (b, crops ! b, resized ! b)) [0..<length crops]"
    by (rule nth_equalityI) (simp_all add: len)
  have w: "1 \<le> w" using assms(6) by auto
  have cols: "nat (?columns (crops ! b)) \<le> nat w" for b using clamp_bounds(2)[OF w] by (simp add: nat_mono)
  have filled: "it_values t = foldl (\<lambda>t b. write_pixels (?pixel (resized ! b)) (b * (3 * nat h * nat w)) (nat h) (nat w)
        (nat (?columns (crops ! b))) t) (replicate (length crops * (3 * nat h * nat w)) 0) [0..<length crops]"
    unfolding vs zip foldl_map by simp
  note blocks = batch_blocks[where columns = "\<lambda>b. nat (?columns (crops ! b))" and w = "nat w" and h = "nat h" and n = "length crops"
      and k = "length crops" and pixel_value = "\<lambda>b. ?pixel (resized ! b)", OF cols assms(5,6,7) order_refl]
  show thesis
  proof (rule that)
    show "scaled_image vi (pp_convert_bgr_to_rgb profile) (pp_recognition_scale profile) (?columns (crops ! b)) h (crops ! b) = Inr (resized ! b)"
      using try_map_Inr[OF resized] b by (simp add: list_all2_conv_all_nth)
    show "1 \<le> ?columns (crops ! b)" "?columns (crops ! b) \<le> w" using clamp_bounds[OF w] by auto
    show "length (it_values t) = length crops * (3 * nat h * nat w)" using blocks unfolding filled by blast
    show "it_values t ! (b * (3 * nat h * nat w) + pixel_offset (nat h) (nat w) y x c) =
       (if x < nat (?columns (crops ! b)) then ?pixel (resized ! b) y x c else 0)"
      using blocks b unfolding filled by simp
  qed
qed

subsection \<open>The properties\<close>

text \<open>
  C35: the recognizer's answer for one crop is read by greedy decoding: the text is the labels of the best class of each step, with runs
  of the same class taken once and blanks left out, and the confidence is the mean probability of the steps that gave a
  label; an answer of the wrong shape, without a label or below the threshold gives nothing.
\<close>

theorem decoding_is_greedy:
  "decodeRecognition out b dictionary threshold =
     (case tn_floats out of
        None \<Rightarrow> no_recognition
      | Some logits \<Rightarrow>
          if decodable (tn_shape out) b
          then let class_count = nat (last (tn_shape out)); time_steps = nat (tn_shape out ! (length (tn_shape out) - 2))
               in greedy_decoding (\<lambda>i. logits (b * (time_steps * class_count) + i)) class_count time_steps dictionary threshold
          else no_recognition)"
  by (rule decodeRecognition_greedy)

text \<open>
  C36: although crops are sorted by shape and run in batches that may be filled up, each crop has the result that was decoded at its own
  place of the batch it is in, and there is one result for each crop.
\<close>

theorem crops_read_own_results:
  "case recognizeCrops vi config model crops of
     Inr (Some rs) \<Rightarrow> length rs = length crops \<and>
       list_all (own_result vi config model crops (crop_batches config model crops) rs) [0..<length crops]
   | _ \<Rightarrow> True"
  using recognizeCrops_own[of vi config model crops] by (auto split: sum.split option.split)

text \<open>
  C37: every region, line and span of a recognized page lies inside the page's image, in the coordinates of that image even when the page
  was read after a turn, provided that \<open>cv::rotate\<close> exchanges the sides of an image for a quarter turn and keeps them
  for a half turn.
\<close>

theorem ocr_regions_in_page:
  assumes "turns ov" "paddle_recognize ov config model page dpi = Some out"
  shows "regions_in (im_cols (vi_read_image ov page)) (im_rows (vi_read_image ov page)) out"
  by (rule paddle_recognize_in[OF assms(2,1)])

text \<open>A page with one line that is found but not read.\<close>

definition sample_picture :: "int \<Rightarrow> int \<Rightarrow> picture" where
  "sample_picture width height = \<lparr>im_cols = width, im_rows = height, im_pixel = (\<lambda>y x c. 0)\<rparr>"

definition sample_session :: session where
  "sample_session = \<lparr>se_inputs = [(''x'', [1, 3, 48, 320])], se_outputs = [(''y'', [])],
     se_run = (\<lambda>tensors names. Inr [\<lparr>tn_shape = [10, 10], tn_floats = Some (\<lambda>i. 1), tn_ints = None\<rparr>])\<rparr>"

definition sample_vision :: ocr_vision where
  "sample_vision = \<lparr>vi_exists = (\<lambda>p. True), vi_regular_file = (\<lambda>p. True), vi_read_file = (\<lambda>p. ''a''),
     vi_read_image = (\<lambda>page. sample_picture 100 50), vi_load = (\<lambda>p. Inr sample_session),
     vi_resize = (\<lambda>how w h m. Inr (sample_picture w h)), vi_bgr_to_rgb = Inr, vi_to_float = (\<lambda>scale m. Inr m),
     vi_crop = (\<lambda>(x, y, w, h) m. sample_picture w h),
     vi_rotate = (\<lambda>how m. Inr (if how = Rotate180 then m else sample_picture (im_rows m) (im_cols m))),
     ov_contours = (\<lambda>threshold p. Inr [[(0, 0), (1, 0), (1, 1), (0, 1)]]),
     ov_min_area_rect = (\<lambda>contour. Inr \<lparr>rr_width = 10, rr_height = 10, rr_center = (5, 5), rr_angle = 0\<rparr>),
     ov_rect_points = (\<lambda>r. [(0, 0), (10, 0), (10, 10), (0, 10)]), ov_bounds = (\<lambda>p points. (0, 0, 0, 0)),
     ov_mask_mean = (\<lambda>p rect points. Inr 1), ov_warp = (\<lambda>from_points to_points w h m. Inr empty_picture)\<rparr>"

definition sample_ocr_config :: paddle_ocr_config where
  "sample_ocr_config = \<lparr>po_detection_model = ''det.onnx'', po_recognition_model = ''rec.onnx'', po_character_dict = ''dict.txt'',
     po_profile = \<lparr>pp_name = ''ppocrv5_mobile'', pp_detection_mean = [0, 0, 0], pp_detection_std = [1, 1, 1], pp_detection_scale = 1,
       pp_recognition_mean = [0, 0, 0], pp_recognition_std = [1, 1, 1], pp_recognition_scale = 1, pp_convert_bgr_to_rgb = True\<rparr>,
     po_detection_limit_side = 960, po_recognition_image_height = 48, po_recognition_base_width = 320, po_recognition_max_width = 3200,
     po_recognition_width_multiple = 1, po_recognition_batch_size = 6, po_detection_max_candidates = 1, po_detection_threshold = 0,
     po_box_threshold = 0, po_recognition_threshold = 0, po_unclip_ratio = 1, po_recover_upside_down = False\<rparr>"

definition sample_ocr_page :: page_artifact where
  "sample_ocr_page = \<lparr>pa_page_index = 0, pa_page_number = 1, pa_relative_image = [], pa_output_path = ''page.png'', pa_width = 100,
     pa_height = 50, pa_debug_images = []\<rparr>"

definition sample_ocr_model :: ocr_model where
  "sample_ocr_model = \<lparr>om_detection = sample_session, om_recognition = sample_session, om_recognition_input_shape = [1, 3, 48, 320],
     om_dictionary = [''a'']\<rparr>"

lemma sample_model: "loadModelBundle sample_vision sample_ocr_config = Some sample_ocr_model"
  by (simp add: loadModelBundle_def path_exists_def sample_vision_def sample_ocr_config_def ocr_config_ok_def loadDictionary_def
      strip_return_def caught_def try_with_def sample_session_def sample_ocr_model_def)

lemma sample_points: "orderedPoints [(0, 0), (10, 0), (10, 10), (0, 10)] = [(0, 0), (10, 0), (10, 10), (0, 10)]"
  by (simp add: orderedPoints_def first_least_def pick_least_def)

definition sample_box :: detection_box where
  "sample_box = \<lparr>dx_points = [(0, 0), (100, 0), (100, 50), (0, 50)], dx_bbox = \<lparr>bx0 = 0, by0 = 0, bx1 = 100, by1 = 50\<rparr>, dx_score = 0\<rparr>"

lemma sample_contour:
  "contour_box sample_vision sample_ocr_config \<lparr>pm_width = 10, pm_height = 10, pm_at = (\<lambda>i. 1)\<rparr> 100 50 [(0, 0), (1, 0), (1, 1), (0, 1)] =
     Inr (Some sample_box)"
proof -
  have points: "map (image_point \<lparr>pm_width = 10, pm_height = 10, pm_at = (\<lambda>i. 1)\<rparr> 100 50) [(0, 0), (10, 0), (10, 10), (0, 10)] =
      dx_points sample_box"
    by (simp add: image_point_def round_away_def clamp_def sample_box_def)
  have sides: "1 \<le> box_width (dx_points sample_box)" "1 \<le> box_height (dx_points sample_box)"
    by (simp_all add: sample_box_def box_width_def box_height_def distance_def)
  have box: "bboxFromPoints (dx_points sample_box) 100 50 = dx_bbox sample_box"
    using dbl_max_big by (simp add: bboxFromPoints_def sample_box_def grow_bbox_def clip_to_def clamp_def)
  show ?thesis using points sides
    by (simp add: contour_box_def sample_vision_def sample_ocr_config_def try_with_def boxScoreFast_def unclipRectangle_def sample_points
        box Let_def) (simp add: sample_box_def)
qed

lemma sample_boxes: "detectBoxes sample_vision sample_ocr_config sample_session (sample_picture 100 50) = Inr (Some [sample_box])"
proof -
  have run: "se_run sample_session tensors names = Inr [\<lparr>tn_shape = [10, 10], tn_floats = Some (\<lambda>i. 1), tn_ints = None\<rparr>]" for tensors names
    by (simp add: sample_session_def)
  obtain t where "makeDetectionInput sample_vision sample_ocr_config (sample_picture 100 50) = Inr t"
    by (simp add: makeDetectionInput_def scaled_image_def sample_vision_def try_with_def Let_def)
  then show ?thesis using sample_contour
    by (simp add: detectBoxes_def try_with_def run extractBoxes_def Let_def)
      (simp add: sample_vision_def sample_ocr_config_def sample_picture_def try_with_def List.map_filter_def settle_boxes_def)
qed

lemma sample_crops: "page_crops sample_vision (sample_picture 100 50) [sample_box] = Inr []"
proof -
  have "cropTextImage sample_vision (sample_picture 100 50) sample_box = Inr (empty_picture, 0)"
    by (simp add: cropTextImage_def Let_def try_with_def sample_vision_def empty_picture_def)
  then show ?thesis by (simp add: page_crops_def try_with_def im_empty_def empty_picture_def)
qed

lemma sample_page_recognized:
  "\<exists>out. paddle_recognize sample_vision sample_ocr_config (Some sample_ocr_model) sample_ocr_page 200 = Some out \<and>
     or_regions out = [detected_region sample_box]"
proof -
  have image: "page_image sample_vision (Some sample_ocr_model) sample_ocr_page 200 = Some (sample_ocr_model, sample_picture 100 50)"
    by (simp add: page_image_def path_exists_def sample_vision_def sample_ocr_page_def im_empty_def sample_picture_def)
  have first: "recognize_image sample_vision sample_ocr_config sample_ocr_model (sample_picture 100 50) =
      Inr (Some \<lparr>pn_output = page_output empty_page_text [sample_box] [], pn_crops = [], pn_crop_rotations = [], pn_recognitions = []\<rparr>)"
    using sample_boxes sample_crops
    by (simp add: recognize_image_def sample_ocr_model_def try_with_def recognizeCrops_def)
  have off: "\<not> po_recover_upside_down sample_ocr_config" by (simp add: sample_ocr_config_def)
  show ?thesis
    by (simp add: paddle_recognize_def image first caught_def recovered_def recover_orientation_def propose_turn_def off try_with_def
        no_proposal_def finish_ocr_def page_output_def Let_def)
qed

lemma ocr_regions_in_page_witness:
  "turns sample_vision \<and>
   (\<exists>out. paddle_recognize sample_vision sample_ocr_config (Some sample_ocr_model) sample_ocr_page 200 = Some out \<and>
      or_regions out = [detected_region sample_box] \<and> regions_in 100 50 out)"
proof -
  have turns: "turns sample_vision" by (simp add: turns_def sample_vision_def sample_picture_def)
  have page: "im_cols (vi_read_image sample_vision sample_ocr_page) = 100" "im_rows (vi_read_image sample_vision sample_ocr_page) = 50"
    by (simp_all add: sample_vision_def sample_picture_def)
  obtain out where out: "paddle_recognize sample_vision sample_ocr_config (Some sample_ocr_model) sample_ocr_page 200 = Some out"
    and regions: "or_regions out = [detected_region sample_box]"
    using sample_page_recognized by blast
  have "regions_in 100 50 out" using ocr_regions_in_page[OF turns out] unfolding page .
  with turns out regions show ?thesis by blast
qed

end
