(* ===== verification/Pdf_Source.thy ===== *)
theory Pdf_Source
  imports Utf8 Image_Cache Vision Pipeline Text_Normalizer
begin

text \<open>
  The PDF document source, \<open>cpp/document_source/pdf\<close>: the library's reference count, the reader, the text of a page, its
  rendering, and the backend that gives the pipeline its renderer and text extractor. PDFium, the PNG writer and the file
  system are arguments. Every call holds one mutex throughout, so that the operations are whole steps; error messages are
  left out.
\<close>

subsection \<open>PDFium\<close>

text \<open>
  A text page: its UTF-16 code units (none where the count is not positive) and the box of each (left, right, bottom and top, if it
  has one). A rendered bitmap: the distance of its rows, and its bytes in the order blue, green, red, alpha; \<open>pdp_render\<close> creates it, fills it with white and draws the page.
\<close>

record pdf_text =
  tx_units :: "u32 list"
  tx_box :: "nat \<Rightarrow> (double \<times> double \<times> double \<times> double) option"

record pdf_bitmap =
  pb_stride :: nat
  pb_at :: "nat \<Rightarrow> 8 word"

record pdf_page =
  pdp_width :: double
  pdp_height :: double
  pdp_text :: "pdf_text option"
  pdp_render :: "int \<Rightarrow> int \<Rightarrow> pdf_bitmap option"

record pdf_file =
  pf_page_count :: int
  pf_page :: "int \<Rightarrow> pdf_page option"

subsection \<open>\<open>PdfLibrary\<close>: the library is initialized while somebody uses it\<close>

record pdf_library =
  pl_ref_count :: int
  pl_initialized :: bool

definition acquire_library :: "pdf_library \<Rightarrow> pdf_library" where
  "acquire_library l =
     (let l = (if pl_ref_count l = 0 then l\<lparr>pl_initialized := True\<rparr> else l)
      in l\<lparr>pl_ref_count := pl_ref_count l + 1\<rparr>)"

definition release_library :: "pdf_library \<Rightarrow> pdf_library" where
  "release_library l =
     (if pl_ref_count l \<le> 0 then l
      else
        let l = l\<lparr>pl_ref_count := pl_ref_count l - 1\<rparr>
        in if pl_ref_count l = 0 then l\<lparr>pl_initialized := False\<rparr> else l)"

inductive library_reaches :: "pdf_library \<Rightarrow> bool" where
  start: "library_reaches \<lparr>pl_ref_count = 0, pl_initialized = False\<rparr>"
| acquire: "library_reaches l \<Longrightarrow> library_reaches (acquire_library l)"
| release: "library_reaches l \<Longrightarrow> library_reaches (release_library l)"

lemma library_initialized_iff_used: "library_reaches l \<Longrightarrow> 0 \<le> pl_ref_count l \<and> (pl_initialized l \<longleftrightarrow> 0 < pl_ref_count l)"
  by (induction rule: library_reaches.induct) (auto simp: acquire_library_def release_library_def Let_def)

subsection \<open>\<open>PdfReader\<close>\<close>

type_synonym pdf_reader = "pdf_file option"

definition reader_open :: "(string \<Rightarrow> pdf_file option) \<Rightarrow> string \<Rightarrow> pdf_reader \<Rightarrow> bool \<times> pdf_reader" where
  "reader_open load path reader = (load path \<noteq> None, load path)"

definition reader_is_open :: "pdf_reader \<Rightarrow> bool" where
  "reader_is_open reader \<longleftrightarrow> reader \<noteq> None"

definition reader_page_count :: "pdf_reader \<Rightarrow> int" where
  "reader_page_count reader = (case reader of None \<Rightarrow> 0 | Some file \<Rightarrow> pf_page_count file)"

text \<open>The checks that start the text extraction and the rendering of a page.\<close>

definition load_page :: "pdf_reader \<Rightarrow> int \<Rightarrow> pdf_page option" where
  "load_page reader page_index =
     (case reader of
        None \<Rightarrow> None
      | Some file \<Rightarrow> if page_index < 0 \<or> page_index \<ge> pf_page_count file then None else pf_page file page_index)"

subsection \<open>The characters of a page\<close>

text \<open>The loop's index and what it decodes there; a surrogate pair moves the index by two.\<close>

function decoded_from :: "nat \<Rightarrow> u32 list \<Rightarrow> (nat \<times> decoded_code_point) list" where
  "decoded_from index [] = []"
| "decoded_from index (first # units) =
     (let decoded = decodeUtf16CodePoint first (case units of [] \<Rightarrow> 0 | following # _ \<Rightarrow> following);
          consumed = nat (dcp_code_units decoded)
      in (index, decoded) # decoded_from (index + consumed) (drop (consumed - 1) units))"
  by pat_completeness auto
termination
  by (relation "measure (length \<circ> snd)") auto

definition toRenderedBBox :: "double \<times> double \<times> double \<times> double \<Rightarrow> double \<Rightarrow> double \<Rightarrow> bbox" where
  "toRenderedBBox box page_height scale =
     (case box of (left, right, bottom, up) \<Rightarrow>
        \<lparr>bx0 = left * scale, by0 = (page_height - up) * scale, bx1 = right * scale, by1 = (page_height - bottom) * scale\<rparr>)"

definition pair_box :: "(double \<times> double \<times> double \<times> double) \<Rightarrow> (double \<times> double \<times> double \<times> double) option \<Rightarrow>
  double \<times> double \<times> double \<times> double" where
  "pair_box box other =
     (case (box, other) of
        ((left, right, bottom, up), Some (left', right', bottom', up')) \<Rightarrow>
          (min left left', max right right', min bottom bottom', max up up')
      | (box, None) \<Rightarrow> box)"

definition count_signals :: "decoded_code_point \<Rightarrow> extraction_signals \<Rightarrow> extraction_signals" where
  "count_signals decoded s =
     (let codepoint = dcp_value decoded in
      if codepoint = 0 then s
      else
        let s = s\<lparr>decoded_codepoints := decoded_codepoints s + 1\<rparr>;
            s = (if \<not> dcp_valid decoded then s\<lparr>invalid_utf16_codepoints := invalid_utf16_codepoints s + 1\<rparr> else s);
            s = (if codepoint = kUnicodeReplacementCharacter then s\<lparr>replacement_codepoints := replacement_codepoints s + 1\<rparr> else s)
        in if codepoint < 0x20
           then s\<lparr>c0_control_counts := upd_at (c0_control_counts s) (unat codepoint) (\<lambda>n. n + 1)\<rparr> else s)"

definition line_break_token :: text_token where
  "line_break_token = \<lparr>tok_kind = LineBreak, text_token.tok_text = [], tok_bbox = empty_bbox, tok_source = SourceUnknown, tok_confidence = 1\<rparr>"

text \<open>The tokens one character adds. \<open>U+0002\<close> stands for a space; other controls are left out.\<close>

definition char_tokens :: "pdf_text \<Rightarrow> double \<Rightarrow> double \<Rightarrow> nat \<times> decoded_code_point \<Rightarrow> text_token list" where
  "char_tokens t page_height scale place =
     (case place of (first_index, decoded) \<Rightarrow>
        let codepoint = dcp_value decoded in
        if codepoint = 0 then []
        else if codepoint = 0x0D \<or> codepoint = 0x0A then [line_break_token]
        else if codepoint \<noteq> 0x02 \<and> codepoint < 0x20 \<and> codepoint \<noteq> 0x09 then []
        else
          let codepoint = (if codepoint = 0x02 then 0x20 else codepoint) in
          case tx_box t first_index of
            None \<Rightarrow> []
          | Some box \<Rightarrow>
              let box = (if dcp_code_units decoded = 2 then pair_box box (tx_box t (first_index + 1)) else box)
              in case box of (left, right, bottom, up) \<Rightarrow>
                   if right < left \<or> up < bottom then []
                   else [\<lparr>tok_kind = Glyph, text_token.tok_text = encodeUtf8 codepoint, tok_bbox = toRenderedBBox box page_height scale,
                          tok_source = PdfTextLayer, tok_confidence = 1\<rparr>])"

definition extract_characters :: "int \<Rightarrow> pdf_text \<Rightarrow> double \<Rightarrow> double \<Rightarrow> page_text" where
  "extract_characters page_index t page_height scale =
     (if tx_units t = [] then text_normalize page_index []
      else
        let decoded = decoded_from 0 (tx_units t);
            tokens = concat (map (char_tokens t page_height scale) decoded);
            signals = foldl (\<lambda>s (_, d). count_signals d s) empty_signals decoded
        in (text_normalize page_index tokens)\<lparr>pt_signals := signals\<rparr>)"

definition extractor_page_text :: "pdf_reader \<Rightarrow> int \<Rightarrow> int \<Rightarrow> page_text option" where
  "extractor_page_text reader page_index dpi =
     (if dpi \<le> 0 then None
      else case load_page reader page_index of
          None \<Rightarrow> None
        | Some page \<Rightarrow> map_option (\<lambda>t. extract_characters page_index t (pdp_height page) (real_of_int dpi / 72)) (pdp_text page))"

text \<open>\<open>TextService\<close>\<close>

definition service_page_text :: "pdf_reader \<Rightarrow> int \<Rightarrow> int \<Rightarrow> page_text option" where
  "service_page_text reader dpi page_index =
     (if \<not> reader_is_open reader \<or> dpi \<le> 0 then None
      else map_option (\<lambda>t. if pt_has_text t then t else t\<lparr>pt_preferred_source := SourceUnknown\<rparr>)
             (extractor_page_text reader page_index dpi))"

fun all_pages :: "(int \<Rightarrow> 'a option) \<Rightarrow> int list \<Rightarrow> 'a list option" where
  "all_pages f [] = Some []"
| "all_pages f (i # is) = (case f i of None \<Rightarrow> None | Some x \<Rightarrow> map_option (\<lambda>xs. x # xs) (all_pages f is))"

definition service_texts :: "pdf_reader \<Rightarrow> int \<Rightarrow> page_text list option" where
  "service_texts reader dpi =
     (if \<not> reader_is_open reader \<or> dpi \<le> 0 then None
      else if reader_page_count reader \<le> 0 then Some []
      else all_pages (service_page_text reader dpi) [0..reader_page_count reader - 1])"

subsection \<open>Rendering\<close>

text \<open>
  The file system and the PNG writer; a vector's capacity for a size. \<open>static_cast<int>\<close> of a \<open>long\<close> keeps its low 32 bits.
\<close>

record render_files =
  rf_create_directories :: "string \<Rightarrow> bool"
  rf_write_png :: "string \<Rightarrow> page_bitmap \<Rightarrow> bool"
  rf_capacity :: "nat \<Rightarrow> size_t"

definition rendered_side :: "double \<Rightarrow> double \<Rightarrow> int" where
  "rendered_side side scale = signed_take_bit 31 (round_away (side * scale))"

text \<open>The bytes of a row, turned from blue-green-red-alpha into red-green-blue-alpha.\<close>

definition rgba_row :: "pdf_bitmap \<Rightarrow> nat \<Rightarrow> nat \<Rightarrow> 8 word list" where
  "rgba_row source width y =
     concat (map (\<lambda>x. let byte_at = (\<lambda>channel. pb_at source (y * pb_stride source + x * 4 + channel)) in [byte_at 2, byte_at 1, byte_at 0, byte_at 3]) [0..<width])"

definition renderPageBitmap :: "render_files \<Rightarrow> pdf_reader \<Rightarrow> int \<Rightarrow> int \<Rightarrow> page_bitmap option" where
  "renderPageBitmap rf reader page_index dpi =
     (if dpi \<le> 0 then None
      else case load_page reader page_index of
          None \<Rightarrow> None
        | Some page \<Rightarrow>
            let scale = real_of_int dpi / 72; width = rendered_side (pdp_width page) scale; height = rendered_side (pdp_height page) scale
            in if width \<le> 0 \<or> height \<le> 0 then None
               else map_option (\<lambda>source.
                   \<lparr>bm_page_index = page_index, bm_page_number = page_index + 1, bm_width = width, bm_height = height, bm_channels = 4,
                    bm_pixels = concat (map (rgba_row source (nat width)) [0..<nat height]),
                    bm_capacity = rf_capacity rf (nat width * nat height * 4)\<rparr>) (pdp_render page width height))"

definition writePng :: "render_files \<Rightarrow> page_bitmap \<Rightarrow> string \<Rightarrow> bool" where
  "writePng rf bitmap output_path \<longleftrightarrow>
     \<not> (bm_width bitmap \<le> 0 \<or> bm_height bitmap \<le> 0 \<or> bm_channels bitmap \<noteq> 4 \<or> bm_pixels bitmap = []) \<and>
     rf_write_png rf output_path bitmap"

text \<open>The page, and the bitmap that is handed to \<open>on_page_rendered\<close> where the request has one.\<close>

definition renderPage :: "render_files \<Rightarrow> pdf_reader \<Rightarrow> string \<Rightarrow> int \<Rightarrow> int \<Rightarrow> (page_artifact \<times> page_bitmap) option" where
  "renderPage rf reader output_root dpi page_index =
     (let relative_image = ''pages/page_'' @ int_to_string (page_index + 1) @ ''.png'';
          output_path = path_join output_root relative_image
      in if \<not> rf_create_directories rf (parent_path output_path) then None
         else case renderPageBitmap rf reader page_index dpi of
             None \<Rightarrow> None
           | Some bitmap \<Rightarrow>
               if \<not> writePng rf bitmap output_path then None
               else Some (\<lparr>pa_page_index = page_index, pa_page_number = page_index + 1, pa_relative_image = relative_image,
                   pa_output_path = output_path, pa_width = bm_width bitmap, pa_height = bm_height bitmap, pa_debug_images = []\<rparr>, bitmap))"

definition renderPages :: "render_files \<Rightarrow> pdf_reader \<Rightarrow> string \<Rightarrow> string \<Rightarrow> int \<Rightarrow> (page_artifact \<times> page_bitmap) list option" where
  "renderPages rf reader output_root pages_dir dpi =
     (if \<not> rf_create_directories rf pages_dir then None
      else all_pages (renderPage rf reader output_root dpi) [0..reader_page_count reader - 1])"

text \<open>\<open>RenderService\<close> asks only an open reader.\<close>

definition service_render_page :: "render_files \<Rightarrow> pdf_reader \<Rightarrow> string \<Rightarrow> int \<Rightarrow> int \<Rightarrow> (page_artifact \<times> page_bitmap) option" where
  "service_render_page rf reader output_root dpi page_index =
     (if reader_is_open reader then renderPage rf reader output_root dpi page_index else None)"

definition service_render_pages ::
  "render_files \<Rightarrow> pdf_reader \<Rightarrow> string \<Rightarrow> string \<Rightarrow> int \<Rightarrow> (page_artifact \<times> page_bitmap) list option" where
  "service_render_pages rf reader output_root pages_dir dpi =
     (if reader_is_open reader then renderPages rf reader output_root pages_dir dpi else None)"

subsection \<open>\<open>PdfDocumentBackend\<close>\<close>

record pdf_backend =
  pdb_source_path :: string
  pdb_reader :: pdf_reader

definition pdf_open :: "(string \<Rightarrow> pdf_file option) \<Rightarrow> string \<Rightarrow> pdf_backend \<Rightarrow> bool \<times> pdf_backend" where
  "pdf_open load input_path backend =
     (case reader_open load input_path (pdb_reader backend) of
        (opened, reader) \<Rightarrow> (opened, \<lparr>pdb_source_path = input_path, pdb_reader = reader\<rparr>))"

text \<open>The pipeline's view of the backend, for its render request.\<close>

definition pdf_renderer :: "render_files \<Rightarrow> pdf_backend \<Rightarrow> string \<Rightarrow> string \<Rightarrow> int \<Rightarrow> page_renderer" where
  "pdf_renderer rf backend output_root pages_dir dpi =
     \<lparr>rr_supports_page_rendering = True,
      rr_render_page = (\<lambda>i. map_option fst (service_render_page rf (pdb_reader backend) output_root dpi i)),
      rr_render_pages = map_option (map fst) (service_render_pages rf (pdb_reader backend) output_root pages_dir dpi)\<rparr>"

definition pdf_text_extractor :: "pdf_backend \<Rightarrow> text_extractor" where
  "pdf_text_extractor backend =
     \<lparr>te_supports_page_text = True, te_extract_page = service_page_text (pdb_reader backend),
      te_extract_all = service_texts (pdb_reader backend)\<rparr>"

definition pdf_page_count :: "pdf_backend \<Rightarrow> int" where
  "pdf_page_count backend = reader_page_count (pdb_reader backend)"

definition pdf_source_type :: "pdf_backend \<Rightarrow> string" where
  "pdf_source_type backend = ''pdf''"

subsection \<open>The text of a page\<close>

text \<open>A code point that is seen: no C0 control and no space.\<close>

definition visible_scalar :: "nat \<Rightarrow> bool" where
  "visible_scalar n \<longleftrightarrow> n > 0x20"

definition boxes_ok :: "pdf_text \<Rightarrow> bool" where
  "boxes_ok t \<longleftrightarrow> (\<forall>i. \<exists>left right bottom up. tx_box t i = Some (left, right, bottom, up) \<and> left \<le> right \<and> bottom \<le> up)"

lemma decoded_from_units:
  "list_all scalar_nat ns \<Longrightarrow>
   map snd (decoded_from i (concat (map utf16_units ns))) =
     map (\<lambda>n. \<lparr>dcp_value = of_nat n, dcp_code_units = int (length (utf16_units n)), dcp_valid = True\<rparr>) ns"
proof (induction ns arbitrary: i)
  case (Cons n ns)
  then have n: "scalar_nat n" by simp
  show ?case
  proof (cases "n < 0x10000")
    case True
    then show ?thesis using Cons decodeUtf16_exact[OF n] by (simp add: utf16_units_def Let_def)
  next
    case False
    then show ?thesis using Cons decodeUtf16_exact[OF n] by (simp add: utf16_units_def Let_def)
  qed
qed simp

lemma of_nat_scalar: "scalar_nat n \<Longrightarrow> unat (of_nat n :: u32) = n"
  by (subst unat_of_nat) (auto simp: scalar_nat_def)

lemma encode_visible:
  assumes "scalar_nat n" "visible_scalar n"
  shows "\<not> list_all blank_char (encodeUtf8 (of_nat n))"
proof
  assume blank: "list_all blank_char (encodeUtf8 (of_nat n))"
  obtain a s where s: "encodeUtf8 (of_nat n) = a # s" by (cases "encodeUtf8 (of_nat n)") auto
  then have "code a < 128 \<and> code a \<le> 32" using blank by (auto simp: blank_char_def code_def)
  then have "utf8_scalar (encodeUtf8 (of_nat n) @ []) = Some (code a, s)" by (simp add: s)
  then have "effective_scalar (of_nat n) \<le> 32" using utf8_scalar_effective[of "of_nat n" "[]"] \<open>code a < 128 \<and> code a \<le> 32\<close> by simp
  then show False using assms by (auto simp: effective_scalar_def of_nat_scalar visible_scalar_def split: if_splits)
qed

lemma encode_blank: "encodeUtf8 0x20 = '' ''" "encodeUtf8 0x09 = [CHR 0x09]"
  by code_simp+

text \<open>What a character adds that is seen.\<close>

lemma char_tokens_visible:
  assumes "scalar_nat n" "boxes_ok t"
  shows "map text_token.tok_text (filter visible_token (char_tokens t h s (i, \<lparr>dcp_value = of_nat n, dcp_code_units = u, dcp_valid = True\<rparr>))) =
    (if visible_scalar n then [encodeUtf8 (of_nat n)] else [])"
proof -
  obtain l r b up where box: "tx_box t i = Some (l, r, b, up)" "l \<le> r" "b \<le> up" using assms(2) unfolding boxes_ok_def by blast
  obtain l' r' b' up' where other: "tx_box t (i + 1) = Some (l', r', b', up')" "l' \<le> r'" "b' \<le> up'"
    using assms(2) unfolding boxes_ok_def by blast
  define both where "both = (if u = 2 then pair_box (l, r, b, up) (tx_box t (i + 1)) else (l, r, b, up))"
  obtain l2 r2 b2 up2 where both': "both = (l2, r2, b2, up2)" "l2 \<le> r2" "b2 \<le> up2"
    using box other by (cases "u = 2") (auto simp: both_def pair_box_def)
  have un: "unat (of_nat n :: u32) = n" using of_nat_scalar[OF assms(1)] .
  have eq: "(of_nat n = (w :: u32)) = (n = unat w)" for w by (simp add: word_unat_eq_iff un)
  have less: "((of_nat n :: u32) < w) = (n < unat w)" for w by (simp add: word_less_nat_alt un)
  consider "visible_scalar n" | "n = 32" | "n = 9" | "n = 2" | "\<not> visible_scalar n" "n < 32" "n \<noteq> 9" "n \<noteq> 2"
    unfolding visible_scalar_def by linarith
  then show ?thesis
  proof cases
    case 1
    then show ?thesis using encode_visible[OF assms(1)] both' box
      by (simp add: char_tokens_def Let_def eq less visible_scalar_def both_def[symmetric] visible_token_def isInlineWhitespace_def)
  next
    case 5
    then show ?thesis using box
      by (auto simp: char_tokens_def Let_def eq less visible_token_def line_break_token_def)
  qed (use both' box in \<open>simp_all add: char_tokens_def Let_def both_def[symmetric] visible_token_def isInlineWhitespace_def encode_blank
      visible_scalar_def blank_char_def\<close>)
qed

lemma extracted_tokens:
  assumes "list_all scalar_nat ns" "boxes_ok t"
  shows "map snd ds = map (\<lambda>n. \<lparr>dcp_value = of_nat n, dcp_code_units = int (length (utf16_units n)), dcp_valid = True\<rparr>) ns \<Longrightarrow>
    map text_token.tok_text (filter visible_token (concat (map (char_tokens t h s) ds))) = map (\<lambda>n. encodeUtf8 (of_nat n)) (filter visible_scalar ns)"
  using assms(1)
proof (induction ds arbitrary: ns)
  case (Cons d ds)
  then obtain n ms where ns: "ns = n # ms" by (cases ns) auto
  then have "d = (fst d, \<lparr>dcp_value = of_nat n, dcp_code_units = int (length (utf16_units n)), dcp_valid = True\<rparr>)"
    using Cons.prems(1) unfolding ns by (cases d) simp
  then have "map text_token.tok_text (filter visible_token (char_tokens t h s d)) = (if visible_scalar n then [encodeUtf8 (of_nat n)] else [])"
    using char_tokens_visible[OF _ assms(2), of n h s "fst d" "int (length (utf16_units n))"] Cons.prems(2) unfolding ns by simp
  moreover have "map text_token.tok_text (filter visible_token (concat (map (char_tokens t h s) ds))) =
      map (\<lambda>n. encodeUtf8 (of_nat n)) (filter visible_scalar ms)"
    using Cons.IH[of ms] Cons.prems unfolding ns by simp
  ultimately show ?case unfolding ns by simp
qed simp

lemma normalized_text:
  "concat (map (\<lambda>l. concat (map span_text (line_spans l))) (pt_lines (text_normalize i tokens))) =
     concat (map text_token.tok_text (filter visible_token tokens))"
  using normalize_lines[of i tokens] by (simp add: spans_text_def[abs_def])

lemma extracted_text:
  assumes "list_all scalar_nat ns" "tx_units t = concat (map utf16_units ns)" "boxes_ok t"
  shows "concat (map (\<lambda>l. concat (map span_text (line_spans l))) (pt_lines (extract_characters i t h s))) =
    concat (map encodeUtf8 (map of_nat (filter visible_scalar ns)))"
proof (cases "tx_units t = []")
  case True
  then have "ns = []" using assms(2) by (cases ns) (auto simp: utf16_units_def split: if_splits)
  then show ?thesis using True by (simp add: extract_characters_def normalized_text)
next
  case False
  have "pt_lines (extract_characters i t h s) =
      pt_lines (text_normalize i (concat (map (char_tokens t h s) (decoded_from 0 (tx_units t)))))"
    using False by (simp add: extract_characters_def Let_def)
  then show ?thesis
    using extracted_tokens[OF assms(1,3), of "decoded_from 0 (tx_units t)" h s] decoded_from_units[OF assms(1)] assms(2)
    by (simp add: normalized_text comp_def)
qed

lemma extracted_reads_back:
  assumes "list_all scalar_nat ns" "tx_units t = concat (map utf16_units ns)" "boxes_ok t"
  shows "utf8_decode (concat (map (\<lambda>l. concat (map span_text (line_spans l))) (pt_lines (extract_characters i t h s)))) =
    Some (filter visible_scalar ns)"
proof -
  have "map effective_scalar (map of_nat (filter visible_scalar ns)) = filter visible_scalar ns"
    using assms(1)
  proof (induction ns)
    case (Cons n ns)
    then have "effective_scalar (of_nat n) = n"
      by (auto simp: effective_scalar_def of_nat_scalar surrogates_nat scalar_nat_def)
    with Cons show ?case by simp
  qed simp
  then show ?thesis unfolding extracted_text[OF assms] utf8_decode_encodes_aux by simp
qed

subsection \<open>What is counted\<close>

lemma count_signals_total:
  "decoded_codepoints (foldl (\<lambda>s (_, d). count_signals d s) s ds) =
     decoded_codepoints s + length (filter (\<lambda>(_, d). dcp_value d \<noteq> 0) ds)"
  by (induction ds arbitrary: s) (auto simp: count_signals_def Let_def)

subsection \<open>Rendered pages\<close>

lemma length_rgba_row: "length (rgba_row source w y) = w * 4"
  by (simp add: rgba_row_def Let_def length_concat comp_def sum_list_triv)

lemma rendered_side_bound: "rendered_side side scale < 2 ^ 31"
  unfolding rendered_side_def using signed_take_bit_int_less_exp[of 31 "round_away (side * scale)"] by simp

lemma packed_when_sized:
  assumes "0 < bm_width b" "bm_width b < 2 ^ 31" "0 < bm_height b" "bm_height b < 2 ^ 31"
    "length (bm_pixels b) = nat (bm_width b) * nat (bm_height b) * 4"
  shows "packed_pixels b"
proof -
  define w h where "w = nat (bm_width b)" and "h = nat (bm_height b)"
  have w: "0 < w" "w \<le> 2 ^ 31 - 1" and h: "0 < h" "h \<le> 2 ^ 31 - 1" using assms by (auto simp: w_def h_def)
  have uw: "unat (of_int (bm_width b) :: size_t) = w" and uh: "unat (of_int (bm_height b) :: size_t) = h"
    using assms by (simp_all add: unat_of_int_small w_def h_def)
  have prod: "w * h \<le> (2 ^ 31 - 1) * (2 ^ 31 - 1)" using w h by (intro mult_le_mono)
  have limit: "unat ((- 1 :: size_t) div 4 div of_int (bm_height b)) = (2 ^ 64 - 1) div 4 div h"
    by (simp add: unat_div_distrib uh unsigned_minus_1_eq_mask mask_eq_exp_minus_1)
  have "w * h \<le> (2 ^ 64 - 1) div 4" using prod by simp
  then have "w \<le> (2 ^ 64 - 1) div 4 div h" using h by (simp add: less_eq_div_iff_mult_less_eq)
  then have "\<not> (of_int (bm_width b) :: size_t) > (- 1) div 4 div of_int (bm_height b)"
    unfolding word_less_nat_alt uw limit by simp
  moreover have "of_nat (length (bm_pixels b)) = (of_int (bm_width b) :: size_t) * of_int (bm_height b) * 4"
    using assms(1,3) by (simp add: assms(5))
  ultimately show ?thesis unfolding packed_pixels_def Let_def by simp
qed

lemma renderPageBitmap_ok:
  assumes "renderPageBitmap rf reader i dpi = Some b"
  shows "0 < bm_width b \<and> 0 < bm_height b \<and> bm_width b < 2 ^ 31 \<and> bm_height b < 2 ^ 31 \<and> bm_channels b = 4 \<and>
    length (bm_pixels b) = nat (bm_width b) * nat (bm_height b) * 4 \<and> bm_page_index b = i \<and> bm_page_number b = i + 1 \<and>
    bm_capacity b = rf_capacity rf (length (bm_pixels b))"
  using assms rendered_side_bound
  by (auto simp: renderPageBitmap_def Let_def length_concat comp_def length_rgba_row sum_list_triv mult.commute mult.left_commute
      split: if_splits option.splits)

lemma renderPage_admissible:
  assumes "renderPage rf reader root_path dpi i = Some (page, b)"
  shows "matches_page page b" "packed_pixels b" "(\<And>n. n \<le> unat (rf_capacity rf n)) \<Longrightarrow> bitmap_ok b"
proof -
  have b: "renderPageBitmap rf reader i dpi = Some b"
    and page: "pa_page_index page = i" "pa_page_number page = i + 1" "pa_width page = bm_width b" "pa_height page = bm_height b"
    using assms by (auto simp: renderPage_def Let_def split: if_splits option.splits)
  note ok = renderPageBitmap_ok[OF b]
  show "matches_page page b" using ok page by (simp add: matches_page_def)
  show "packed_pixels b" using ok by (intro packed_when_sized) auto
  show "(\<And>n. n \<le> unat (rf_capacity rf n)) \<Longrightarrow> bitmap_ok b" using ok by (simp add: bitmap_ok_def)
qed

text \<open>The pixel of a rendered page: red, green, blue and alpha of PDFium's bitmap.\<close>

lemma concat_rows_nth:
  "(\<And>y. y < n \<Longrightarrow> length (f y) = k) \<Longrightarrow> y < n \<Longrightarrow> j < k \<Longrightarrow> concat (map f [0..<n]) ! (y * k + j) = f y ! j"
proof (induction n)
  case (Suc n)
  have len: "length (concat (map f [0..<n])) = n * k"
  proof -
    have "map (length \<circ> f) [0..<n] = replicate n k" using Suc.prems(1) by (intro nth_equalityI) auto
    then show ?thesis by (simp add: length_concat comp_def sum_list_replicate)
  qed
  show ?case
  proof (cases "y = n")
    case True
    then show ?thesis using len by (simp add: nth_append)
  next
    case False
    then have "y < n" using Suc.prems by simp
    moreover have "y * k + j < n * k"
    proof -
      have "Suc y * k \<le> n * k" using \<open>y < n\<close> by (intro mult_le_mono1) simp
      then show ?thesis using Suc.prems(3) by simp
    qed
    ultimately show ?thesis using Suc len by (simp add: nth_append)
  qed
qed simp

lemma rgba_row_nth: "x < w \<Longrightarrow> c < 4 \<Longrightarrow> rgba_row source w y ! (x * 4 + c) = pb_at source (y * pb_stride source + x * 4 + [2, 1, 0, 3] ! c)"
  unfolding rgba_row_def
  by (subst concat_rows_nth[where k = 4]) (auto simp: Let_def less_Suc_eq numeral_eq_Suc)

lemma renderPage_pixels:
  assumes "renderPage rf reader root_path dpi i = Some (page, b)" "x < nat (bm_width b)" "y < nat (bm_height b)" "c < 4"
  shows "\<exists>pdf source. load_page reader i = Some pdf \<and> pdp_render pdf (bm_width b) (bm_height b) = Some source \<and>
    bm_pixels b ! (y * (nat (bm_width b) * 4) + (x * 4 + c)) = pb_at source (y * pb_stride source + x * 4 + [2, 1, 0, 3] ! c)"
proof -
  have "renderPageBitmap rf reader i dpi = Some b"
    using assms(1) by (auto simp: renderPage_def Let_def split: if_splits option.splits)
  then obtain pdf source where pdf: "load_page reader i = Some pdf" "pdp_render pdf (bm_width b) (bm_height b) = Some source"
      "bm_pixels b = concat (map (rgba_row source (nat (bm_width b))) [0..<nat (bm_height b)])"
    by (auto simp: renderPageBitmap_def Let_def split: if_splits option.splits)
  have "x * 4 + c < nat (bm_width b) * 4" using assms(2,4) by linarith
  then have "bm_pixels b ! (y * (nat (bm_width b) * 4) + (x * 4 + c)) = rgba_row source (nat (bm_width b)) y ! (x * 4 + c)"
    unfolding pdf(3) by (intro concat_rows_nth) (simp_all add: length_rgba_row assms(3))
  then show ?thesis using pdf(1,2) rgba_row_nth[OF assms(2,4)] by auto
qed

subsection \<open>Properties\<close>

text \<open>
  C38: The text of a page reads back as the page's characters: where PDFium gives the UTF-16 code units of any Unicode text, each
  with a proper box, the spans of the extracted lines, joined, are the UTF-8 form of exactly the characters of that text above
  \<open>U+0020\<close> (neither C0 controls nor spaces), in their order.
\<close>

lemma extracted_text_reads_back:
  assumes "list_all scalar_nat ns" "tx_units t = concat (map utf16_units ns)" "boxes_ok t"
  shows "utf8_decode (concat (map (\<lambda>l. concat (map span_text (line_spans l))) (pt_lines (extract_characters page_index t page_height scale)))) =
    Some (filter visible_scalar ns)"
  by (rule extracted_reads_back[OF assms])

definition sample_page_text :: pdf_text where
  "sample_page_text = \<lparr>tx_units = [0x41, 0x20, 0xD83D, 0xDE00], tx_box = (\<lambda>_. Some (0, 1, 0, 1))\<rparr>"

lemma extracted_text_reads_back_witness:
  "utf8_decode (concat (map (\<lambda>l. concat (map span_text (line_spans l))) (pt_lines (extract_characters 0 sample_page_text 800 1)))) =
    Some [0x41, 0x1F600]"
proof -
  have "list_all scalar_nat [0x41, 0x20, 0x1F600]" by (simp add: scalar_nat_def)
  moreover have "tx_units sample_page_text = concat (map utf16_units [0x41, 0x20, 0x1F600])"
    by (simp add: sample_page_text_def utf16_units_def)
  moreover have "boxes_ok sample_page_text" by (simp add: boxes_ok_def sample_page_text_def)
  ultimately show ?thesis
    using extracted_text_reads_back[of "[0x41, 0x20, 0x1F600]" sample_page_text 0 800 1] by (simp add: visible_scalar_def)
qed

text \<open>
  C39: A page that was rendered is one the shared cache takes: its bitmap matches the page's record and is packed, four bytes a pixel
  with no overflow of its size, and each of its bytes is the right channel of PDFium's bitmap for that pixel, read at PDFium's own row
  distance and turned from blue-green-red-alpha into red-green-blue-alpha.
\<close>

lemma rendered_page_admissible:
  assumes "renderPage rf reader output_root dpi page_index = Some (page, bitmap)"
    and "x < nat (bm_width bitmap)" "y < nat (bm_height bitmap)" "channel < 4"
  shows "matches_page page bitmap \<and> packed_pixels bitmap \<and>
    (\<exists>pdf source. load_page reader page_index = Some pdf \<and> pdp_render pdf (bm_width bitmap) (bm_height bitmap) = Some source \<and>
      bm_pixels bitmap ! (y * (nat (bm_width bitmap) * 4) + (x * 4 + channel)) =
        pb_at source (y * pb_stride source + x * 4 + [2, 1, 0, 3] ! channel))"
  using renderPage_admissible(1,2)[OF assms(1)] renderPage_pixels[OF assms] by blast

definition sample_pdf_file :: pdf_file where
  "sample_pdf_file =
     \<lparr>pf_page_count = 1,
      pf_page = (\<lambda>_. Some \<lparr>pdp_width = 2, pdp_height = 1, pdp_text = None,
        pdp_render = (\<lambda>_ _. Some \<lparr>pb_stride = 12, pb_at = of_nat\<rparr>)\<rparr>)\<rparr>"

definition sample_render_files :: render_files where
  "sample_render_files = \<lparr>rf_create_directories = (\<lambda>_. True), rf_write_png = (\<lambda>_ _. True), rf_capacity = of_nat\<rparr>"

lemma rendered_page_admissible_witness:
  "case renderPage sample_render_files (Some sample_pdf_file) ''out'' 72 0 of
     None \<Rightarrow> False
   | Some (page, bitmap) \<Rightarrow> matches_page page bitmap \<and> packed_pixels bitmap \<and> bm_pixels bitmap ! 4 = 6"
proof -
  define b where "b = \<lparr>bm_page_index = 0, bm_page_number = 1, bm_width = 2, bm_height = 1, bm_channels = 4,
    bm_pixels = [2, 1, 0, 3, 6, 5, 4, 7 :: 8 word], bm_capacity = 8 :: size_t\<rparr>"
  have side: "rendered_side 2 1 = 2" "rendered_side 1 1 = 1" by (simp_all add: rendered_side_def round_away_def signed_take_bit_int_eq_self)
  have bitmap: "renderPageBitmap sample_render_files (Some sample_pdf_file) 0 72 = Some b"
    using side by (simp add: renderPageBitmap_def sample_pdf_file_def sample_render_files_def load_page_def Let_def rgba_row_def b_def
        eval_nat_numeral)
  then obtain page where page: "renderPage sample_render_files (Some sample_pdf_file) ''out'' 72 0 = Some (page, b)"
    by (simp add: renderPage_def Let_def writePng_def b_def sample_render_files_def)
  have "matches_page page b \<and> packed_pixels b"
    using rendered_page_admissible[OF page, of 1 0 0] by (simp add: b_def)
  then show ?thesis by (simp add: page) (simp add: b_def)
qed

end
