(* ===== verification/Command_Line.thy ===== *)
theory Command_Line
  imports Document_Engine Exporter
begin

text \<open>
  The command line program, \<open>app/main.cpp\<close>: it creates an engine, parses one document and exports it. The parser of the arguments
  (CLI11) is an argument: the options, or the exit code where it refuses them or prints its help. Logging is left out.
\<close>

record cli_options =
  co_input_pdf :: string
  co_output_dir :: string
  co_run_id :: string
  co_dpi :: int
  co_debug :: bool
  co_document_backend :: string
  co_ocr_backend :: string
  co_layout_backend :: string
  co_table_backend :: string
  co_backend_config :: string
  co_timeout_seconds :: int
  co_maximum_pages :: int
  co_image_cache_bytes :: "64 word"

definition default_cli_options :: cli_options where
  "default_cli_options =
     \<lparr>co_input_pdf = [], co_output_dir = ''output'', co_run_id = [], co_dpi = 200, co_debug = False, co_document_backend = ''auto'',
      co_ocr_backend = ''auto'', co_layout_backend = ''auto'', co_table_backend = ''auto'', co_backend_config = [],
      co_timeout_seconds = 0, co_maximum_pages = 0, co_image_cache_bytes = 64 * 1024 * 1024\<rparr>"

text \<open>The size of the image cache is no field of \<open>run_options\<close>: the run's environment stands for it.\<close>

definition cli_parse_options :: "cli_options \<Rightarrow> run_options" where
  "cli_parse_options options =
     \<lparr>ro_input_path = co_input_pdf options, ro_output_directory = co_output_dir options, ro_render_dpi = co_dpi options,
      ro_debug = co_debug options, ro_timeout_seconds = co_timeout_seconds options, ro_maximum_pages = co_maximum_pages options,
      ro_run_id = co_run_id options, ro_backends = default_backend_options\<rparr>"

definition cli_backend_options :: "cli_options \<Rightarrow> backend_options" where
  "cli_backend_options options =
     \<lparr>bo_document = co_document_backend options, bo_ocr = co_ocr_backend options, bo_layout = co_layout_backend options,
      bo_table = co_table_backend options, bo_registry_config = co_backend_config options\<rparr>"

text \<open>The export's request: \<open>document.json\<close> in the output directory.\<close>

definition cli_export :: "run_options \<Rightarrow> parsed_document \<Rightarrow> pipeline_artifacts \<Rightarrow> export_request" where
  "cli_export options doc artifacts =
     \<lparr>xr_debug = ro_debug options, xr_output_path = path_join (ro_output_directory options) ''document.json'',
      xr_document = Some doc, xr_artifacts = Some artifacts\<rparr>"

text \<open>The exit code and the export's changes to the files; \<open>None\<close>: the program does not return.\<close>

definition cli_main ::
  "process_environment \<Rightarrow> (engine_config \<Rightarrow> document_engine) \<Rightarrow> (cli_options \<Rightarrow> environment) \<Rightarrow> json_library \<Rightarrow>
   (string \<Rightarrow> disk) \<Rightarrow> int + cli_options \<Rightarrow> (int \<times> fs_change list) option" where
  "cli_main pe build_engine run lib disks parsed =
     (case parsed of
        Inl code \<Rightarrow> Some (code, [])
      | Inr options \<Rightarrow>
          let parse_options = cli_parse_options options;
              config = engineConfigFromEnvironment pe (defaultEngineConfig\<lparr>ec_backends := cli_backend_options options\<rparr>);
              engine = Some (build_engine config)
          in if \<not> isReady engine then Some (2, [])
             else case quiet_parse (run options) parse_options engine of
                 None \<Rightarrow> None
               | Some (result, engine) \<Rightarrow>
                   if \<not> ok_status (pr_status result) then Some (2, [])
                   else case pr_document result of
                       None \<Rightarrow> Some (2, [])
                     | Some (doc, artifacts, provenance) \<Rightarrow>
                         (case multi_write lib disks (cli_export parse_options doc artifacts) of
                            (st, cs) \<Rightarrow> Some (if \<not> ok_status st then 2 else 0, cs)))"

lemma cli_export_run: "cli_export options = run_export options"
  by (simp add: fun_eq_iff cli_export_def run_export_def output_paths_of_def Let_def)

text \<open>The engine that the program creates for its arguments.\<close>

definition cli_engine :: "process_environment \<Rightarrow> (engine_config \<Rightarrow> document_engine) \<Rightarrow> cli_options \<Rightarrow> document_engine" where
  "cli_engine pe build_engine options =
     build_engine (engineConfigFromEnvironment pe (defaultEngineConfig\<lparr>ec_backends := cli_backend_options options\<rparr>))"

text \<open>
  C40: The program always returns, and its exit code tells what it left behind. With accepted arguments it exits with 2, having
  changed no file, where the engine is not ready or its run fails. Otherwise let \<open>doc\<close> be the document that the engine's run
  delivered for these arguments. Where \<open>serialize\<close> gives no text for it the program exits with 2 and changes no file; else each of the
  three files in the output directory holds, at every moment, what it held or the complete new text of \<open>doc\<close>; and the program
  exits with 0 only if all three hold the new text, and with 2 else.
\<close>

theorem command_line_delivers:
  assumes "\<forall>p content. disk_delivers (disks p) content"
  shows "case cli_main pe build_engine run lib disks (Inr options) of
     None \<Rightarrow> False
   | Some (code, cs) \<Rightarrow>
       if state_of (Some (cli_engine pe build_engine options)) \<noteq> Ready then code = 2 \<and> cs = []
       else case engine_run (run options) (cli_parse_options options) (cli_engine pe build_engine options) of
           (Inl _, _) \<Rightarrow> code = 2 \<and> cs = []
         | (Inr (doc, artifacts, _), s) \<Rightarrow>
             delivered doc artifacts (ps_events s) \<and> (code = 0 \<or> code = 2) \<and>
             leaves_files lib (cli_parse_options options) m doc artifacts (code = 0) cs"
proof -
  define en where "en = cli_engine pe build_engine options"
  note main = cli_main_def[of pe build_engine run lib disks "Inr options", unfolded sum.case Let_def, folded cli_engine_def en_def]
  show ?thesis
  proof (cases "state_of (Some en) = Ready")
    case False
    then have "\<not> isReady (Some en) \<or> (\<exists>refused. enter_engine (Some en) = Inl refused \<and> \<not> ok_status (pr_status refused))"
      by (auto simp: state_of_def isReady_def enter_engine_def failed_result_def split: if_splits)
    then have "cli_main pe build_engine run lib disks (Inr options) = Some (2, [])"
      unfolding main by (auto simp: quiet_parse_def engine_parse_refused)
    then show ?thesis using False by (simp flip: en_def)
  next
    case True
    then have ready: "isReady (Some en)" by (auto simp: state_of_def isReady_def split: if_splits)
    obtain r s where run: "engine_run (run options) (cli_parse_options options) en = (r, s)" by fastforce
    obtain parsed where parsed: "quiet_parse (run options) (cli_parse_options options) (Some en) = Some (parsed, Some en)"
        "ok_status (pr_status parsed) \<longleftrightarrow> pr_document parsed \<noteq> None" "pr_document parsed = (case r of Inl _ \<Rightarrow> None | Inr outcome \<Rightarrow> Some outcome)"
      using quiet_parse_ready[OF True run] by blast
    show ?thesis
    proof (cases r)
      case (Inl err)
      then have "cli_main pe build_engine run lib disks (Inr options) = Some (2, [])"
        unfolding main using ready parsed by simp
      then show ?thesis using True run Inl by (simp flip: en_def)
    next
      case (Inr outcome)
      obtain doc artifacts provenance where outcome: "outcome = (doc, artifacts, provenance)" by (cases outcome)
      obtain st cs where w: "multi_write lib disks (cli_export (cli_parse_options options) doc artifacts) = (st, cs)" by fastforce
      have "cli_main pe build_engine run lib disks (Inr options) = Some (if \<not> ok_status st then 2 else 0, cs)"
        unfolding main using ready parsed Inr outcome w by simp
      moreover have "delivered doc artifacts (ps_events s)"
        using delivered_parse run Inr outcome unfolding engine_run_def by blast
      ultimately show ?thesis
        using True run Inr outcome written_leaves[OF assms w[unfolded cli_export_run], of m]
        by (cases "ok_status st") (simp_all flip: en_def)
    qed
  qed
qed

text \<open>The sample run from the command line, on a disk that works: exit code 0, and the three files are new.\<close>

definition sample_arguments :: cli_options where
  "sample_arguments = default_cli_options\<lparr>co_input_pdf := ''in/a.pdf'', co_output_dir := ''out'', co_run_id := ''r1'', co_maximum_pages := 10\<rparr>"

definition sample_cli_engine :: "engine_config \<Rightarrow> document_engine" where
  "sample_cli_engine config =
     \<lparr>en_config = config\<lparr>ec_backends := ro_backends sample_options\<rparr>, en_creation = sample_creation, en_parsing = False\<rparr>"

theorem command_line_delivers_witness:
  "\<exists>cs doc. cli_main sample_process sample_cli_engine (\<lambda>_. sample_environment) sample_library (\<lambda>_. good_disk) (Inr sample_arguments) =
      Some (0, cs) \<and> length (pd_pages doc) = 1 \<and>
    list_all (\<lambda>(path, new). changes cs Map.empty path = Some new) (export_outputs ''out/document.json'' (''{}'' @ line_end) doc)"
proof -
  define en where "en = cli_engine sample_process sample_cli_engine sample_arguments"
  have ready: "state_of (Some en) = Ready"
    by (simp add: en_def cli_engine_def state_of_def sample_cli_engine_def sample_creation_def)
  have options: "pipelineOptions (cli_parse_options sample_arguments) (ec_backends (en_config en)) = sample_options"
    by (simp add: en_def cli_engine_def sample_cli_engine_def pipelineOptions_def cli_parse_options_def sample_arguments_def
        default_cli_options_def sample_options_def)
  obtain doc artifacts provenance s where run: "engine_run sample_environment (cli_parse_options sample_arguments) en =
      (Inr (doc, artifacts, provenance), s)" and one: "length (pd_pages doc) = 1" and ok: "ok_status (validateCoreModel doc)"
    using sample_run_valid unfolding engine_run_def options
    by (auto simp: en_def cli_engine_def sample_cli_engine_def sample_creation_def)
  have paths: "path_join ''out'' ''document.json'' = ''out/document.json''" by code_simp
  have request: "cli_export (cli_parse_options sample_arguments) doc artifacts = \<lparr>xr_debug = False, xr_output_path = ''out/document.json'',
      xr_document = Some doc, xr_artifacts = Some artifacts\<rparr>"
    by (simp add: cli_export_def cli_parse_options_def sample_arguments_def default_cli_options_def paths)
  obtain parsed where parsed: "quiet_parse sample_environment (cli_parse_options sample_arguments) (Some en) = Some (parsed, Some en)"
      "ok_status (pr_status parsed)" "pr_document parsed = Some (doc, artifacts, provenance)"
    using quiet_parse_ready[OF ready run] by auto
  obtain st cs where w: "multi_write sample_library (\<lambda>_. good_disk) (cli_export (cli_parse_options sample_arguments) doc artifacts) = (st, cs)"
      "ok_status st"
    using sample_export_works(1)[OF ok, of "''out/document.json''" artifacts] unfolding request by (auto simp: prod_eq_iff)
  have "isReady (Some en)" using ready by (auto simp: state_of_def isReady_def split: if_splits)
  then have main: "cli_main sample_process sample_cli_engine (\<lambda>_. sample_environment) sample_library (\<lambda>_. good_disk) (Inr sample_arguments) =
      Some (0, cs)"
    unfolding cli_main_def sum.case Let_def cli_engine_def[symmetric] en_def[symmetric] using parsed w by simp
  have "\<forall>p content. disk_delivers good_disk content" by (simp add: disk_delivers_def good_disk_def)
  from command_line_delivers[where disks = "\<lambda>_ :: string. good_disk" and m = Map.empty and pe = sample_process and
      build_engine = sample_cli_engine and run = "\<lambda>_. sample_environment" and lib = sample_library and
      options = sample_arguments, OF this]
  have "leaves_files sample_library (cli_parse_options sample_arguments) Map.empty doc artifacts True cs"
    using ready run main by (simp flip: en_def)
  moreover have "op_manifest_json (output_paths_of (cli_parse_options sample_arguments)) = ''out/document.json''"
    "\<not> ro_debug (cli_parse_options sample_arguments)"
    by (simp_all add: output_paths_of_def Let_def cli_parse_options_def sample_arguments_def default_cli_options_def paths)
  ultimately show ?thesis
    using main one sample_export_works(2)[OF ok, of "''out/document.json''" artifacts]
    by (auto simp: leaves_files_def Let_def)
qed

end
