(* ===== verification/Spec2Isabelle.thy ===== *)
theory Spec2Isabelle
  imports Utf8 Fingerprint Text_Normalizer Page_Rotation Warning_Aggregator Assembler Layout_Recovery
    Table_Text Text_Layout Page_Structure Text_Quality Image_Cache Stages Delivery Service_Factory Stage_Observer Document_Processor Worker_Report Tesseract C_Api Layout_Models Table_Transformer Ocr_Properties Pdf_Source Command_Line
begin

text \<open>
  A verification development for the document parsing engine of this repository. The engine reads a PDF, renders its pages, finds
  text, layout blocks and tables on each, puts the blocks in reading order, assembles one document and writes it as JSON,
  Markdown and HTML. It runs as a library (\<open>sdk/\<close>), a command line program (\<open>cpp/app\<close>) and a worker behind a Redis queue
  (\<open>platform/worker\<close>). The theories below translate the C++ code of \<open>cpp/\<close>, \<open>sdk/\<close> and \<open>platform/worker\<close> under \<open>src/\<close>,
  one definition for each function or loop, under the code's names where Isabelle allows it.
\<close>

section \<open>The parts and their theories\<close>

text \<open>
  \<^item> \<open>Prelude\<close>: the reading of \<open>double\<close>, \<open>std::sort\<close> and \<open>std::stable_sort\<close> with the contract of a comparator (locales
    \<open>strict_weak_order\<close> and \<open>keyed_order\<close>, interpreted on every comparator of the code), best-candidate loops, strings, \<open>std::map\<close>.
    \<open>Doc_Model\<close> (\<open>cpp/document/*.h\<close>) holds the data every stage exchanges, \<open>Common\<close> (\<open>cpp/common\<close>) statuses and diagnostics.
  \<^item> Documents and their pages. \<open>Utf8\<close> (\<open>common/utf8.h\<close>) and \<open>Text_Normalizer\<close> (\<open>document/text_normalizer.cpp\<close>) make lines of
    glyphs; \<open>Pdf_Source\<close> (\<open>document_source/pdf\<close>) reads glyphs and renders pages through PDFium; \<open>Image_Cache\<close> (\<open>image/page_image_cache.cpp\<close>)
    keeps rendered pages for the backends; \<open>Page_Rotation\<close> (\<open>document/page_rotation.cpp\<close>) maps boxes of turned pages;
    \<open>Fingerprint\<close> (\<open>common/file_fingerprint.cpp\<close>) is the SHA-256 of the source.
  \<^item> Text recognition. \<open>Text_Quality\<close> (\<open>pipeline/text_quality.cpp\<close>, \<open>text_extraction_stage.cpp\<close>, \<open>ocr/orientation_policy.cpp\<close>) chooses
    between native text and OCR; \<open>Tesseract\<close> is the backend that runs a program, \<open>Ocr_Detection\<close>, \<open>Paddle_Ocr\<close> and
    \<open>Ocr_Properties\<close> the neural one (\<open>ocr/\<close>). \<open>Vision\<close> holds what all neural backends share.
  \<^item> Layout. \<open>Layout_Models\<close> are the neural backends and \<open>Text_Layout\<close> the one without a model; \<open>Layout_Assign\<close>, \<open>Layout_Columns\<close>,
    \<open>Layout_Groups\<close>, \<open>Layout_Grid\<close> and \<open>Layout_Recovery\<close> are \<open>layout/layout_postprocessing.cpp\<close>: lines are assigned to blocks,
    ordered by column, and those that no block claims are grouped and recovered.
  \<^item> Tables. \<open>Table_Transformer\<close> is the neural backend, \<open>Table_Text\<close> fills cells and is the backend without a model (\<open>table/\<close>),
    \<open>Page_Structure\<close> (\<open>pipeline/page_structure.cpp\<close>) settles tables against figures.
  \<^item> Reading order. \<open>Reading_Columns\<close>, \<open>Reading_Cycle\<close>, \<open>Reading_Topo\<close>, \<open>Reading_Band\<close> and \<open>Reading_Backend\<close> are
    \<open>reading_order/docling_like_reading_order_backend.cpp\<close>. What any such backend owes is the locale \<open>reading_order_contract\<close>;
    \<open>Furniture\<close> and \<open>Assembler\<close> (\<open>assembly/document_assembler.cpp\<close>) use it.
  \<^item> The pipeline. \<open>Stages\<close> (the page stages), \<open>Pipeline\<close> (\<open>pipeline/document_pipeline.cpp\<close>), \<open>Warning_Aggregator\<close>,
    \<open>Backend_Registry\<close>, \<open>Service_Factory\<close>, \<open>Engine_Config\<close>. \<open>Pipeline_Protocol\<close> and \<open>Pipeline_Result\<close> prove what runs guarantee,
    \<open>Sample_Run\<close> evaluates one, \<open>Delivery\<close> joins run and export.
  \<^item> Export (\<open>export/\<close>, \<open>common/atomic_output_file.cpp\<close>). \<open>Output_File\<close>, \<open>Json_Export\<close>, \<open>Structured_Text\<close>, \<open>Exporter\<close>; \<open>Json_Schema\<close> is
    \<open>schemas/document.v1.schema.json\<close>.
  \<^item> Programs. \<open>Document_Engine\<close> (\<open>sdk/cpp\<close> and the worker's engine cache, locale \<open>engine_supplier\<close> in \<open>Document_Processor\<close>), \<open>C_Api\<close>
    (\<open>sdk/c\<close>), \<open>Command_Line\<close> (\<open>app/main.cpp\<close>).
  \<^item> The worker (\<open>platform/worker\<close>). \<open>Redis_Protocol\<close>, \<open>Redis_Client\<close>, \<open>Job_Scripts\<close> (the Lua scripts), \<open>Job_Protocol\<close> (all their
    interleavings), \<open>Stage_Observer\<close>, \<open>Document_Processor\<close>, \<open>Worker_Job\<close>, \<open>Worker\<close>, \<open>Worker_Report\<close>.

  A run goes through them as the code does: a service factory makes the backends that the configuration names; the pipeline renders
  each page, takes its text, layout and tables, orders and assembles, sending events to an observer; an exporter writes the document.
\<close>

section \<open>What the theorems show\<close>

text \<open>
  \<^item> Whole runs: every run returns, keeps the protocol of its events, and delivers the pages in order with the warnings it
    announced (C1, C2); a delivered document is valid and its three files are complete, or as before (C3, C5, C6, C40);
    engine, C interface and worker report exactly that (C4, C28, C32).
  \<^item> Formats: the JSON keeps its schema (C7), HTML is balanced (C24), replies of Redis, page boxes and the text of a page come back as
    they were (C10, C26, C38).
  \<^item> Content: normalization, assignment, recovery, table recognition and assembly lose and repeat nothing (C9, C15, C17, C18, C22);
    grids, crops, regions and blocks of the neural backends are where they belong (C33 to C37, C39).
  \<^item> Order: the topological order, bands, the backend and the assembled document (C12, C13, C14, C16).
  \<^item> State: the image cache's budget and transparency (C20, C21), one history of events for each job under every interleaving
    of workers, expiring leases and deliveries (C25, C27).
  \<^item> References: SHA-256 (C8), greedy decoding (C35), aggregation of warnings (C11), the words a shell reads (C30).
\<close>

section \<open>Termination and fuel\<close>

text \<open>
  Every function is total. Loops that follow a list are recursion on it; the merging loop of \<open>Layout_Grid\<close>, the
  reading of files and sockets and the decoders have a decreasing measure. Four carry fuel: the buffering of SHA-256 (one more
  than the bytes), the search for a cycle (fuel: the number of elements), the topological order (elements and edges and one)
  and the reading of nested replies of Redis (any depth above the number of bytes that are left). That this is enough is
  proved in \<open>Fingerprint\<close>, \<open>Reading_Cycle\<close>, \<open>Reading_Topo\<close> and
  \<open>Redis_Protocol\<close>. Where \<open>None\<close> means that a call does not return, the theorems show that it does.
\<close>

section \<open>How the code is read\<close>

text \<open>
  \<^item> \<open>double\<close> and \<open>float\<close> are exact reals, one beyond the largest finite double stands for a value that is not finite; there is no
    rounding and no NaN. \<open>int\<close> is \<open>int\<close> and \<open>size_t\<close> is \<open>nat\<close>, except where width matters: 64-bit words in \<open>Image_Cache\<close>, \<open>Fingerprint\<close>, the
    counts of warnings and batch sizes, 32-bit words in \<open>Utf8\<close>, wrapping sums in \<open>Tesseract\<close> and sides in \<open>Pdf_Source\<close>. The
    sentinel -1 of an index is \<open>None\<close>. A string is its bytes. Memory is never exhausted.
  \<^item> Sorting is insertion sort, which \<open>std::stable_sort\<close> equals; a map that is only looked up is a function, one that is walked a
    sorted association list; a pointer into a vector is a position.
  \<^item> Exceptions, false results and early returns are values: \<open>option\<close>, sums, \<open>stage_result\<close>, \<open>run_error\<close>. What a failed parse leaves in its
    result's document is not kept.
  \<^item> Libraries and the operating system are arguments: PDFium, OpenCV, ONNX Runtime, the JSON library, the shell, files and directories
    (\<open>disk\<close>, \<open>worker_files\<close>, \<open>render_files\<close>), clocks, environment variables, sockets, and Redis as a record of commands with the documented
    \<open>redis_laws\<close>. Changes to files are lists of changes, so that every moment between them can be spoken of.
  \<^item> Code under a mutex is one step; threads are interleavings of steps.
  \<^item> Schema lengths count bytes. Logging, counters for debug output and measured durations are left out.
\<close>

section \<open>Not modelled\<close>

text \<open>
  The three OpenCV calls of \<open>image/image_preprocessor.cpp\<close> (debug runs only), the parser of command line arguments, the owners of
  PDFium's handles and its mutex, interface headers, the vendored PNG writer, tests and evaluation programs, and the Python and
  TypeScript parts of the platform.
\<close>

end
